(* ===== verification/Prelude.thy ===== *)
theory Prelude
  imports Main "HOL-Library.Word"
begin

text \<open>
  Shared vocabulary of the development: bytes and byte strings as the Go code holds
  them, the fixed-width integers it converts them to, results that may be an error, and
  the list and bit lemmas every component uses.

  A Go \<open>[]byte\<close> is a \<open>byte list\<close>; \<open>len\<close> is its length, a slice
  expression \<open>b[i:j]\<close> is \<open>slice i j b\<close>. A Go \<open>int\<close> used as a length or an
  index is a \<open>nat\<close>; the code never lets one go negative where it is modelled so.
  A nil slice and an empty slice are the same list. A fallible operation returns
  \<open>Inl\<close> of an error or \<open>Inr\<close> of a value, and \<open>bindE\<close> is the code's
  \<open>if err != nil { return err }\<close>.
\<close>

unbundle bit_operations_syntax

type_synonym byte = "8 word"
type_synonym bytes = "8 word list"
type_synonym uint16 = "16 word"
type_synonym uint32 = "32 word"
type_synonym uint64 = "64 word"

named_theorems len_simps \<open>lengths of the byte strings the components build\<close>
named_theorems wf_intros \<open>well-formedness facts of the components\<close>

section \<open>Results\<close>

definition bindE :: "'e + 'a \<Rightarrow> ('a \<Rightarrow> 'e + 'b) \<Rightarrow> 'e + 'b" where
  "bindE m f = (case m of Inl e \<Rightarrow> Inl e | Inr x \<Rightarrow> f x)"

lemma bindE_Inl [simp]: "bindE (Inl e) f = Inl e"
  by (simp add: bindE_def)

lemma bindE_Inr [simp]: "bindE (Inr x) f = f x"
  by (simp add: bindE_def)

lemma bindE_eq_Inr: "bindE m f = Inr y \<longleftrightarrow> (\<exists>x. m = Inr x \<and> f x = Inr y)"
  by (simp add: bindE_def split: sum.splits)

lemma bindE_eq_Inl: "bindE m f = Inl e \<longleftrightarrow> m = Inl e \<or> (\<exists>x. m = Inr x \<and> f x = Inl e)"
  by (auto simp: bindE_def split: sum.splits)

definition mapErr :: "('e \<Rightarrow> 'f) \<Rightarrow> 'e + 'a \<Rightarrow> 'f + 'a" where
  "mapErr g m = (case m of Inl e \<Rightarrow> Inl (g e) | Inr x \<Rightarrow> Inr x)"

lemma mapErr_Inl [simp]: "mapErr g (Inl e) = Inl (g e)"
  by (simp add: mapErr_def)

lemma mapErr_Inr [simp]: "mapErr g (Inr x) = Inr x"
  by (simp add: mapErr_def)

lemma mapErr_eq_Inr [simp]: "mapErr g m = Inr y \<longleftrightarrow> m = Inr y"
  by (simp add: mapErr_def split: sum.splits)

definition isOk :: "'e + 'a \<Rightarrow> bool" where
  "isOk m = (case m of Inl _ \<Rightarrow> False | Inr _ \<Rightarrow> True)"

lemma isOk_simps [simp]: "isOk (Inr x)" "\<not> isOk (Inl e)"
  by (simp_all add: isOk_def)

lemma isOkE: "isOk m \<Longrightarrow> (\<And>x. m = Inr x \<Longrightarrow> P) \<Longrightarrow> P"
  by (cases m) simp_all

section \<open>Slices\<close>

definition slice :: "nat \<Rightarrow> nat \<Rightarrow> 'a list \<Rightarrow> 'a list" where
  "slice i j xs = take (j - i) (drop i xs)"

lemma length_slice [simp]: "length (slice i j xs) = min (j - i) (length xs - i)"
  by (simp add: slice_def min.commute)

lemma slice_0 [simp]: "slice 0 j xs = take j xs"
  by (simp add: slice_def)

lemma slice_append_exact: "slice (length xs) (length xs + length ys) (xs @ ys @ zs) = ys"
  by (simp add: slice_def)

lemma slice_middle: "i = length xs \<Longrightarrow> j = i + length ys \<Longrightarrow> slice i j (xs @ ys @ zs) = ys"
  by (simp add: slice_def)

lemma slice_end: "j = length xs \<Longrightarrow> slice i j xs = drop i xs"
  by (simp add: slice_def)

section \<open>Exclusive or on byte strings\<close>

definition xor_bytes :: "bytes \<Rightarrow> bytes \<Rightarrow> bytes" where
  "xor_bytes a b = map2 (\<lambda>x y. x XOR y) a b"

lemma xor_bytes_simps [simp]:
  "xor_bytes [] b = []" "xor_bytes a [] = []"
  "xor_bytes (x # a) (y # b) = (x XOR y) # xor_bytes a b"
  by (simp_all add: xor_bytes_def)

lemma length_xor_bytes [simp]: "length (xor_bytes a b) = min (length a) (length b)"
  by (simp add: xor_bytes_def)

lemma nth_xor_bytes: "i < length a \<Longrightarrow> i < length b \<Longrightarrow> xor_bytes a b ! i = a ! i XOR b ! i"
  by (simp add: xor_bytes_def)

lemma xor_bytes_commute: "xor_bytes a b = xor_bytes b a"
  by (induction a b rule: list_induct2') (simp_all add: xor.commute)

lemma xor_bytes_cancel: "length a = length b \<Longrightarrow> xor_bytes (xor_bytes a b) b = a"
  by (induction a b rule: list_induct2) (simp_all add: xor.assoc)

lemma xor_bytes_cancel_left: "length a = length b \<Longrightarrow> xor_bytes b (xor_bytes b a) = a"
  by (metis xor_bytes_cancel xor_bytes_commute)

lemma xor_bytes_inject:
  "length a = length c \<Longrightarrow> length b = length c \<Longrightarrow> xor_bytes a c = xor_bytes b c \<Longrightarrow> a = b"
  by (metis xor_bytes_cancel)

section \<open>Fixed-width integers as bytes\<close>

text \<open>
  \<open>byteN n\<close> is Go's \<open>byte(n)\<close> of a non-negative \<open>int\<close>: the low eight bits.
\<close>

definition byteN :: "nat \<Rightarrow> byte" where
  "byteN n = of_nat n"

lemma unat_byteN: "unat (byteN n) = n mod 256"
  by (simp add: byteN_def unat_of_nat)

lemma unat_byteN_small [simp]: "n < 256 \<Longrightarrow> unat (byteN n) = n"
  by (simp add: unat_byteN)

lemma unat_byte_less: "unat (b :: byte) < 256"
  using unsigned_less [of b] by (simp flip: of_nat_less_iff [where 'a = int])

lemma byteN_unat [simp]: "byteN (unat b) = b"
  by (simp add: byteN_def)

definition le16 :: "uint16 \<Rightarrow> bytes" where
  "le16 v = [ucast v, ucast (drop_bit 8 v)]"

definition be32 :: "uint32 \<Rightarrow> bytes" where
  "be32 v = [ucast (drop_bit 24 v), ucast (drop_bit 16 v), ucast (drop_bit 8 v), ucast v]"

definition le24 :: "uint32 \<Rightarrow> bytes" where
  "le24 v = [ucast v, ucast (drop_bit 8 v), ucast (drop_bit 16 v)]"

lemma length_le16 [simp]: "length (le16 v) = 2"
  by (simp add: le16_def)

lemma length_be32 [simp]: "length (be32 v) = 4"
  by (simp add: be32_def)

lemma length_le24 [simp]: "length (le24 v) = 3"
  by (simp add: le24_def)

text \<open>The reading directions, as \<open>encoding/binary\<close> and the code's shifts do it.\<close>

definition rd_le24 :: "bytes \<Rightarrow> uint32" where
  "rd_le24 b = ucast (b ! 0) OR push_bit 8 (ucast (b ! 1)) OR push_bit 16 (ucast (b ! 2))"

lemma le16_inject: "le16 v = le16 w \<longleftrightarrow> v = w"
proof
  assume h: "le16 v = le16 w"
  show "v = w"
  proof (rule bit_eqI)
    fix n assume "possible_bit TYPE(16 word) n"
    then have n: "n < 16" by simp
    from h have a: "(ucast v :: byte) = ucast w" and b: "(ucast (drop_bit 8 v) :: byte) = ucast (drop_bit 8 w)"
      by (simp_all add: le16_def)
    show "bit v n = bit w n"
    proof (cases "n < 8")
      case True
      from a have "bit (ucast v :: byte) n = bit (ucast w :: byte) n" by simp
      with True show ?thesis by (simp add: bit_simps)
    next
      case False
      from b have "bit (ucast (drop_bit 8 v) :: byte) (n - 8) = bit (ucast (drop_bit 8 w) :: byte) (n - 8)"
        by simp
      moreover have "n - 8 < 8" using False n by simp
      ultimately show ?thesis using False n by (simp add: bit_simps)
    qed
  qed
qed simp

lemma rd_le24_le24: "rd_le24 (le24 v) = take_bit 24 v"
proof (rule bit_eqI)
  fix n assume "possible_bit TYPE(32 word) n"
  then have n: "n < 32" by simp
  consider "n < 8" | "8 \<le> n" "n < 16" | "16 \<le> n" "n < 24" | "24 \<le> n" by linarith
  then show "bit (rd_le24 (le24 v)) n = bit (take_bit 24 v) n"
    by cases (use n in \<open>auto simp: rd_le24_def le24_def bit_simps\<close>)
qed

lemma le24_small: "v < 0x1000000 \<Longrightarrow> take_bit 24 v = (v :: uint32)"
  by (simp add: take_bit_eq_mod word_arith_nat_mod word_less_nat_alt)

section \<open>Lists in blocks\<close>

text \<open>A list cut into pieces of \<open>n\<close> elements, the last possibly shorter.\<close>

function chunks :: "nat \<Rightarrow> 'a list \<Rightarrow> 'a list list" where
  "chunks n xs = (if n = 0 \<or> xs = [] then [] else take n xs # chunks n (drop n xs))"
  by pat_completeness auto
termination by (relation "measure (\<lambda>(n, xs). length xs)") auto

declare chunks.simps [simp del]

lemma chunks_Nil [simp]: "chunks n [] = []"
  by (simp add: chunks.simps)

lemma chunks_step: "0 < n \<Longrightarrow> xs \<noteq> [] \<Longrightarrow> chunks n xs = take n xs # chunks n (drop n xs)"
  by (simp add: chunks.simps [of n xs])

lemma chunks_append: "0 < n \<Longrightarrow> length xs = n \<Longrightarrow> chunks n (xs @ ys) = xs # chunks n ys"
  by (subst chunks_step) auto

lemma concat_chunks: "0 < n \<Longrightarrow> concat (chunks n xs) = xs"
proof (induction n xs rule: chunks.induct)
  case (1 n xs)
  then show ?case by (cases "xs = []") (simp_all add: chunks_step)
qed

lemma length_16_split:
  "16 dvd length xs \<Longrightarrow> xs \<noteq> [] \<Longrightarrow> 16 \<le> length xs"
  by (cases xs) (auto dest: dvd_imp_le)

lemma dvd_drop: "d dvd length xs \<Longrightarrow> d dvd length (drop d xs)"
  by (simp add: dvd_diff_nat)

section \<open>Go's copy and hexadecimal text\<close>

text \<open>
  \<open>copy_at n dst src\<close> is \<open>copy(dst[n:], src)\<close>: as many bytes as both sides have room for.
  A Go string is its bytes; \<open>ascii\<close> is a literal.
\<close>

definition copy_at :: "nat \<Rightarrow> 'a list \<Rightarrow> 'a list \<Rightarrow> 'a list" where
  "copy_at n dst src = (let k = min (length dst - n) (length src)
     in take n dst @ take k src @ drop (n + k) dst)"

lemma length_copy_at [simp]: "n \<le> length dst \<Longrightarrow> length (copy_at n dst src) = length dst"
  by (simp add: copy_at_def Let_def)

lemma copy_at_fits:
  "n + length src \<le> length dst \<Longrightarrow> copy_at n dst src = take n dst @ src @ drop (n + length src) dst"
  by (simp add: copy_at_def Let_def min_absorb2)

definition ascii :: "string \<Rightarrow> bytes" where
  "ascii s = map of_char s"

definition hex_digit :: "byte \<Rightarrow> byte" where
  "hex_digit n = (if n < 10 then 0x30 + n else 0x57 + n)"

definition hex_digit_upper :: "byte \<Rightarrow> byte" where
  "hex_digit_upper n = (if n < 10 then 0x30 + n else 0x37 + n)"

fun hex_encode :: "bytes \<Rightarrow> bytes" where
  "hex_encode [] = []"
| "hex_encode (b # r) = hex_digit (drop_bit 4 b) # hex_digit (b AND 0x0F) # hex_encode r"

definition to_upper :: "bytes \<Rightarrow> bytes" where
  "to_upper s = map (\<lambda>c. if 0x61 \<le> c \<and> c \<le> 0x7A then c - 0x20 else c) s"

text \<open>\<open>strings.ToUpper(hex.EncodeToString(b))\<close>; on ASCII text the case map is byte by byte.\<close>

definition hex_upper :: "bytes \<Rightarrow> bytes" where
  "hex_upper b = to_upper (hex_encode b)"

definition hex_value :: "byte \<Rightarrow> byte option" where
  "hex_value c = (if 0x30 \<le> c \<and> c \<le> 0x39 then Some (c - 0x30)
     else if 0x61 \<le> c \<and> c \<le> 0x66 then Some (c - 0x57)
     else if 0x41 \<le> c \<and> c \<le> 0x46 then Some (c - 0x37) else None)"

text \<open>\<open>hex.DecodeString\<close>: a bad digit or an odd length is an error.\<close>

fun hex_decode :: "bytes \<Rightarrow> bytes option" where
  "hex_decode [] = Some []"
| "hex_decode [_] = None"
| "hex_decode (a # b # r) =
     (case hex_value a of None \<Rightarrow> None | Some x \<Rightarrow>
      case hex_value b of None \<Rightarrow> None | Some y \<Rightarrow>
      (case hex_decode r of None \<Rightarrow> None | Some bs \<Rightarrow> Some ((push_bit 4 x OR y) # bs)))"

lemma length_hex_encode [simp]: "length (hex_encode b) = 2 * length b"
  by (induction b) simp_all

lemma length_to_upper [simp]: "length (to_upper s) = length s"
  by (simp add: to_upper_def)

lemma length_hex_upper [simp, len_simps]: "length (hex_upper b) = 2 * length b"
  by (simp add: hex_upper_def)

lemma hex_upper_append: "hex_upper (a @ b) = hex_upper a @ hex_upper b"
  by (induction a) (simp_all add: hex_upper_def to_upper_def)

lemma hex_upper_Nil [simp]: "hex_upper [] = []"
  by (simp add: hex_upper_def to_upper_def)

lemma nibble_list:
  assumes "list_all P [0,1,2,3,4,5,6,7,8,9,10,11,12,13,14,15 :: byte]" "n < 16"
  shows "P n"
proof -
  from assms(2) have u: "unat n < 16" by (simp add: word_less_nat_alt)
  have "n = map of_nat [0..<16] ! unat n" using u by simp
  then have "n \<in> set (map of_nat [0..<16])" using u by (metis length_map length_upt minus_nat.diff_0 nth_mem)
  moreover have "map of_nat [0..<16] = [0,1,2,3,4,5,6,7,8,9,10,11,12,13,14,15 :: byte]"
    by (simp add: upt_rec)
  ultimately show ?thesis using assms(1) by (metis list_all_iff)
qed

lemma hex_value_digit: "n < 16 \<Longrightarrow> hex_value (hex_digit n) = Some n"
  by (rule nibble_list [where n = n]) (simp_all add: hex_value_def hex_digit_def)

lemma hex_value_digit_upper: "n < 16 \<Longrightarrow> hex_value (hex_digit_upper n) = Some n"
  by (rule nibble_list [where n = n]) (simp_all add: hex_value_def hex_digit_upper_def)

lemma upper_hex_digit: "n < 16 \<Longrightarrow> to_upper [hex_digit n] = [hex_digit_upper n]"
  by (rule nibble_list [where n = n]) (simp_all add: to_upper_def hex_digit_def hex_digit_upper_def)

lemma nibbles_less: "drop_bit 4 (b :: byte) < 16" "b AND 0x0F < (16 :: byte)"
proof -
  have "unat (drop_bit 4 b) = unat b div 16"
    by (subst unat_drop_bit_eq) (simp add: drop_bit_eq_div)
  moreover have "unat b div 16 < 16" using unat_byte_less [of b] by simp
  ultimately show "drop_bit 4 b < 16" by (simp add: word_less_nat_alt)
  have "b AND 0x0F = take_bit 4 b" by (simp add: take_bit_eq_mask mask_eq_exp_minus_1)
  moreover have "unat (take_bit 4 b) < 16" by (simp add: take_bit_eq_mod word_arith_nat_mod unat_of_nat)
  ultimately show "b AND 0x0F < 16" by (simp add: word_less_nat_alt)
qed

lemma join_nibbles: "push_bit 4 (drop_bit 4 b) OR (b AND 0x0F) = (b :: byte)"
proof -
  have "b AND 0x0F = take_bit 4 b" by (simp add: take_bit_eq_mask mask_eq_exp_minus_1)
  moreover have "push_bit 4 (drop_bit 4 b) OR take_bit 4 b = b"
    by (rule bit_eqI) (auto simp: bit_simps)
  ultimately show ?thesis by simp
qed

lemma hex_decode_encode [simp]: "hex_decode (hex_encode b) = Some b"
  by (induction b) (simp_all add: hex_value_digit nibbles_less join_nibbles)

lemma hex_decode_upper [simp]: "hex_decode (hex_upper b) = Some b"
proof (induction b)
  case (Cons x b)
  have "hex_upper (x # b) = to_upper [hex_digit (drop_bit 4 x)] @ to_upper [hex_digit (x AND 0x0F)] @ hex_upper b"
    by (simp add: hex_upper_def to_upper_def)
  with Cons show ?case
    by (simp add: upper_hex_digit nibbles_less hex_value_digit_upper join_nibbles)
qed simp

end
