(* ===== verification/Aes.thy ===== *)
theory Aes
  imports Prelude
begin

text \<open>
  The parts of Go's \<open>crypto/aes\<close> and \<open>crypto/cipher\<close> the secure-messaging
  packages call: the AES block cipher of FIPS 197 for its three key sizes, and CBC mode.
  A \<open>cipher.Block\<close> is represented by the key it was expanded from;
  \<open>aes.NewCipher\<close> succeeds on the keys \<open>aes_valid_key\<close> accepts. Nothing about AES
  is assumed: that decryption inverts encryption is proved for the cipher as defined here.
  The interfaces \<open>keyed_function\<close> and \<open>block_cipher\<close> are what the packages above
  rely on, and CBC's round trip is proved once inside the second.
\<close>

section \<open>The substitution table and its inverse\<close>

definition sbox_table :: bytes where
  "sbox_table = [
    0x63, 0x7C, 0x77, 0x7B, 0xF2, 0x6B, 0x6F, 0xC5, 0x30, 0x01, 0x67, 0x2B, 0xFE, 0xD7, 0xAB, 0x76,
    0xCA, 0x82, 0xC9, 0x7D, 0xFA, 0x59, 0x47, 0xF0, 0xAD, 0xD4, 0xA2, 0xAF, 0x9C, 0xA4, 0x72, 0xC0,
    0xB7, 0xFD, 0x93, 0x26, 0x36, 0x3F, 0xF7, 0xCC, 0x34, 0xA5, 0xE5, 0xF1, 0x71, 0xD8, 0x31, 0x15,
    0x04, 0xC7, 0x23, 0xC3, 0x18, 0x96, 0x05, 0x9A, 0x07, 0x12, 0x80, 0xE2, 0xEB, 0x27, 0xB2, 0x75,
    0x09, 0x83, 0x2C, 0x1A, 0x1B, 0x6E, 0x5A, 0xA0, 0x52, 0x3B, 0xD6, 0xB3, 0x29, 0xE3, 0x2F, 0x84,
    0x53, 0xD1, 0x00, 0xED, 0x20, 0xFC, 0xB1, 0x5B, 0x6A, 0xCB, 0xBE, 0x39, 0x4A, 0x4C, 0x58, 0xCF,
    0xD0, 0xEF, 0xAA, 0xFB, 0x43, 0x4D, 0x33, 0x85, 0x45, 0xF9, 0x02, 0x7F, 0x50, 0x3C, 0x9F, 0xA8,
    0x51, 0xA3, 0x40, 0x8F, 0x92, 0x9D, 0x38, 0xF5, 0xBC, 0xB6, 0xDA, 0x21, 0x10, 0xFF, 0xF3, 0xD2,
    0xCD, 0x0C, 0x13, 0xEC, 0x5F, 0x97, 0x44, 0x17, 0xC4, 0xA7, 0x7E, 0x3D, 0x64, 0x5D, 0x19, 0x73,
    0x60, 0x81, 0x4F, 0xDC, 0x22, 0x2A, 0x90, 0x88, 0x46, 0xEE, 0xB8, 0x14, 0xDE, 0x5E, 0x0B, 0xDB,
    0xE0, 0x32, 0x3A, 0x0A, 0x49, 0x06, 0x24, 0x5C, 0xC2, 0xD3, 0xAC, 0x62, 0x91, 0x95, 0xE4, 0x79,
    0xE7, 0xC8, 0x37, 0x6D, 0x8D, 0xD5, 0x4E, 0xA9, 0x6C, 0x56, 0xF4, 0xEA, 0x65, 0x7A, 0xAE, 0x08,
    0xBA, 0x78, 0x25, 0x2E, 0x1C, 0xA6, 0xB4, 0xC6, 0xE8, 0xDD, 0x74, 0x1F, 0x4B, 0xBD, 0x8B, 0x8A,
    0x70, 0x3E, 0xB5, 0x66, 0x48, 0x03, 0xF6, 0x0E, 0x61, 0x35, 0x57, 0xB9, 0x86, 0xC1, 0x1D, 0x9E,
    0xE1, 0xF8, 0x98, 0x11, 0x69, 0xD9, 0x8E, 0x94, 0x9B, 0x1E, 0x87, 0xE9, 0xCE, 0x55, 0x28, 0xDF,
    0x8C, 0xA1, 0x89, 0x0D, 0xBF, 0xE6, 0x42, 0x68, 0x41, 0x99, 0x2D, 0x0F, 0xB0, 0x54, 0xBB, 0x16]"

definition inv_sbox_table :: bytes where
  "inv_sbox_table = [
    0x52, 0x09, 0x6A, 0xD5, 0x30, 0x36, 0xA5, 0x38, 0xBF, 0x40, 0xA3, 0x9E, 0x81, 0xF3, 0xD7, 0xFB,
    0x7C, 0xE3, 0x39, 0x82, 0x9B, 0x2F, 0xFF, 0x87, 0x34, 0x8E, 0x43, 0x44, 0xC4, 0xDE, 0xE9, 0xCB,
    0x54, 0x7B, 0x94, 0x32, 0xA6, 0xC2, 0x23, 0x3D, 0xEE, 0x4C, 0x95, 0x0B, 0x42, 0xFA, 0xC3, 0x4E,
    0x08, 0x2E, 0xA1, 0x66, 0x28, 0xD9, 0x24, 0xB2, 0x76, 0x5B, 0xA2, 0x49, 0x6D, 0x8B, 0xD1, 0x25,
    0x72, 0xF8, 0xF6, 0x64, 0x86, 0x68, 0x98, 0x16, 0xD4, 0xA4, 0x5C, 0xCC, 0x5D, 0x65, 0xB6, 0x92,
    0x6C, 0x70, 0x48, 0x50, 0xFD, 0xED, 0xB9, 0xDA, 0x5E, 0x15, 0x46, 0x57, 0xA7, 0x8D, 0x9D, 0x84,
    0x90, 0xD8, 0xAB, 0x00, 0x8C, 0xBC, 0xD3, 0x0A, 0xF7, 0xE4, 0x58, 0x05, 0xB8, 0xB3, 0x45, 0x06,
    0xD0, 0x2C, 0x1E, 0x8F, 0xCA, 0x3F, 0x0F, 0x02, 0xC1, 0xAF, 0xBD, 0x03, 0x01, 0x13, 0x8A, 0x6B,
    0x3A, 0x91, 0x11, 0x41, 0x4F, 0x67, 0xDC, 0xEA, 0x97, 0xF2, 0xCF, 0xCE, 0xF0, 0xB4, 0xE6, 0x73,
    0x96, 0xAC, 0x74, 0x22, 0xE7, 0xAD, 0x35, 0x85, 0xE2, 0xF9, 0x37, 0xE8, 0x1C, 0x75, 0xDF, 0x6E,
    0x47, 0xF1, 0x1A, 0x71, 0x1D, 0x29, 0xC5, 0x89, 0x6F, 0xB7, 0x62, 0x0E, 0xAA, 0x18, 0xBE, 0x1B,
    0xFC, 0x56, 0x3E, 0x4B, 0xC6, 0xD2, 0x79, 0x20, 0x9A, 0xDB, 0xC0, 0xFE, 0x78, 0xCD, 0x5A, 0xF4,
    0x1F, 0xDD, 0xA8, 0x33, 0x88, 0x07, 0xC7, 0x31, 0xB1, 0x12, 0x10, 0x59, 0x27, 0x80, 0xEC, 0x5F,
    0x60, 0x51, 0x7F, 0xA9, 0x19, 0xB5, 0x4A, 0x0D, 0x2D, 0xE5, 0x7A, 0x9F, 0x93, 0xC9, 0x9C, 0xEF,
    0xA0, 0xE0, 0x3B, 0x4D, 0xAE, 0x2A, 0xF5, 0xB0, 0xC8, 0xEB, 0xBB, 0x3C, 0x83, 0x53, 0x99, 0x61,
    0x17, 0x2B, 0x04, 0x7E, 0xBA, 0x77, 0xD6, 0x26, 0xE1, 0x69, 0x14, 0x63, 0x55, 0x21, 0x0C, 0x7D]"

definition sbox :: "byte \<Rightarrow> byte" where
  "sbox b = sbox_table ! unat b"

definition inv_sbox :: "byte \<Rightarrow> byte" where
  "inv_sbox b = inv_sbox_table ! unat b"

lemma sbox_table_inverse:
  "map (\<lambda>b. inv_sbox_table ! unat b) sbox_table = map of_nat [0..<256]"
  by (simp add: sbox_table_def inv_sbox_table_def upt_conv_Cons)

lemma inv_sbox_sbox [simp]: "inv_sbox (sbox b) = b"
proof -
  have l: "length sbox_table = 256" by (simp add: sbox_table_def)
  have "map (\<lambda>b. inv_sbox_table ! unat b) sbox_table ! unat b = map of_nat [0..<256] ! unat b"
    by (simp only: sbox_table_inverse)
  then show ?thesis
    using unat_byte_less [of b] by (simp add: inv_sbox_def sbox_def l)
qed

section \<open>The field and the column mixing\<close>

definition xtime :: "byte \<Rightarrow> byte" where
  "xtime b = push_bit 1 b XOR (if bit b 7 then 0x1B else 0)"

lemma xtime_xor: "xtime (a XOR b) = xtime a XOR xtime b"
proof -
  have p: "push_bit 1 (a XOR b) = push_bit 1 a XOR push_bit 1 b"
    by (rule push_bit_xor)
  show ?thesis
    by (cases "bit a 7"; cases "bit b 7") (simp_all add: xtime_def p bit_xor_iff ac_simps)
qed

definition mul2 :: "byte \<Rightarrow> byte" where "mul2 b = xtime b"
definition mul3 :: "byte \<Rightarrow> byte" where "mul3 b = xtime b XOR b"
definition mul9 :: "byte \<Rightarrow> byte" where "mul9 b = xtime (xtime (xtime b)) XOR b"
definition mul11 :: "byte \<Rightarrow> byte" where "mul11 b = xtime (xtime (xtime b)) XOR xtime b XOR b"
definition mul13 :: "byte \<Rightarrow> byte" where
  "mul13 b = xtime (xtime (xtime b)) XOR xtime (xtime b) XOR b"
definition mul14 :: "byte \<Rightarrow> byte" where
  "mul14 b = xtime (xtime (xtime b)) XOR xtime (xtime b) XOR xtime b"

fun mix_columns :: "bytes \<Rightarrow> bytes" where
  "mix_columns (a # b # c # d # rest) =
     [mul2 a XOR mul3 b XOR c XOR d, a XOR mul2 b XOR mul3 c XOR d,
      a XOR b XOR mul2 c XOR mul3 d, mul3 a XOR b XOR c XOR mul2 d] @ mix_columns rest"
| "mix_columns rest = rest"

fun inv_mix_columns :: "bytes \<Rightarrow> bytes" where
  "inv_mix_columns (a # b # c # d # rest) =
     [mul14 a XOR mul11 b XOR mul13 c XOR mul9 d, mul9 a XOR mul14 b XOR mul11 c XOR mul13 d,
      mul13 a XOR mul9 b XOR mul14 c XOR mul11 d, mul11 a XOR mul13 b XOR mul9 c XOR mul14 d]
     @ inv_mix_columns rest"
| "inv_mix_columns rest = rest"

lemma xor_cancel_left: "a XOR (a XOR b) = (b :: byte)"
  by (simp flip: xor.assoc)

lemma length_mix_columns [simp]: "length (mix_columns s) = length s"
  by (induction s rule: mix_columns.induct) simp_all

lemma inv_mix_columns_mix_columns: "inv_mix_columns (mix_columns s) = s"
  by (induction s rule: mix_columns.induct)
     (simp_all add: mul2_def mul3_def mul9_def mul11_def mul13_def mul14_def xtime_xor
        ac_simps xor_cancel_left)

section \<open>The rounds\<close>

definition shift_rows :: "bytes \<Rightarrow> bytes" where
  "shift_rows s = [s!0, s!5, s!10, s!15, s!4, s!9, s!14, s!3,
                   s!8, s!13, s!2, s!7, s!12, s!1, s!6, s!11]"

definition inv_shift_rows :: "bytes \<Rightarrow> bytes" where
  "inv_shift_rows s = [s!0, s!13, s!10, s!7, s!4, s!1, s!14, s!11,
                       s!8, s!5, s!2, s!15, s!12, s!9, s!6, s!3]"

lemma length_16_cases:
  assumes "length s = 16"
  obtains a0 a1 a2 a3 a4 a5 a6 a7 a8 a9 a10 a11 a12 a13 a14 a15
  where "s = [a0,a1,a2,a3,a4,a5,a6,a7,a8,a9,a10,a11,a12,a13,a14,a15]"
  using assms by (auto simp: length_Suc_conv eval_nat_numeral)

lemma inv_shift_rows_shift_rows: "length s = 16 \<Longrightarrow> inv_shift_rows (shift_rows s) = s"
  by (erule length_16_cases) (simp add: shift_rows_def inv_shift_rows_def)

lemma length_shift_rows [simp]: "length (shift_rows s) = 16"
  by (simp add: shift_rows_def)

fun enc_rounds :: "bytes list \<Rightarrow> bytes \<Rightarrow> bytes" where
  "enc_rounds [] s = s"
| "enc_rounds [k] s = xor_bytes (shift_rows (map sbox s)) k"
| "enc_rounds (k # ks) s = enc_rounds ks (xor_bytes (mix_columns (shift_rows (map sbox s))) k)"

fun dec_rounds :: "bytes list \<Rightarrow> bytes \<Rightarrow> bytes" where
  "dec_rounds [] s = s"
| "dec_rounds [k] s = map inv_sbox (inv_shift_rows (xor_bytes s k))"
| "dec_rounds (k # ks) s =
     map inv_sbox (inv_shift_rows (inv_mix_columns (xor_bytes (dec_rounds ks s) k)))"

lemma length_enc_rounds:
  "length s = 16 \<Longrightarrow> list_all (\<lambda>k. length k = 16) ks \<Longrightarrow> length (enc_rounds ks s) = 16"
  by (induction ks s rule: enc_rounds.induct) simp_all

lemma dec_rounds_enc_rounds:
  "length s = 16 \<Longrightarrow> list_all (\<lambda>k. length k = 16) ks \<Longrightarrow> dec_rounds ks (enc_rounds ks s) = s"
proof (induction ks s rule: enc_rounds.induct)
  case (2 k s)
  then show ?case
    by (simp add: xor_bytes_cancel inv_shift_rows_shift_rows map_idI comp_def)
next
  case (3 k k' ks s)
  let ?t = "xor_bytes (mix_columns (shift_rows (map sbox s))) k"
  from 3 have "dec_rounds (k' # ks) (enc_rounds (k' # ks) ?t) = ?t" by simp
  with 3 show ?case
    by (simp add: xor_bytes_cancel inv_mix_columns_mix_columns inv_shift_rows_shift_rows
        map_idI comp_def)
qed simp

section \<open>The key schedule\<close>

definition rcon :: "nat \<Rightarrow> byte" where
  "rcon i = [0x01, 0x02, 0x04, 0x08, 0x10, 0x20, 0x40, 0x80, 0x1B, 0x36] ! (i - 1)"

definition next_word :: "nat \<Rightarrow> bytes list \<Rightarrow> bytes" where
  "next_word nk ws =
     (let i = length ws; temp = last ws;
          temp' = (if i mod nk = 0
                   then xor_bytes (map sbox (rotate1 temp)) [rcon (i div nk), 0, 0, 0]
                   else if 6 < nk \<and> i mod nk = 4 then map sbox temp else temp)
      in xor_bytes (ws ! (i - nk)) temp')"

fun expand_words :: "nat \<Rightarrow> nat \<Rightarrow> bytes list \<Rightarrow> bytes list" where
  "expand_words nk 0 ws = ws"
| "expand_words nk (Suc n) ws = expand_words nk n (ws @ [next_word nk ws])"

definition aes_valid_key :: "bytes \<Rightarrow> bool" where
  "aes_valid_key key \<longleftrightarrow> length key = 16 \<or> length key = 24 \<or> length key = 32"

definition round_keys :: "bytes \<Rightarrow> bytes list" where
  "round_keys key =
     (let nk = length key div 4
      in chunks 16 (concat (expand_words nk (4 * (nk + 7) - nk) (chunks 4 key))))"

definition aes_encrypt :: "bytes \<Rightarrow> bytes \<Rightarrow> bytes" where
  "aes_encrypt key b = (let ks = round_keys key in enc_rounds (tl ks) (xor_bytes b (hd ks)))"

definition aes_decrypt :: "bytes \<Rightarrow> bytes \<Rightarrow> bytes" where
  "aes_decrypt key b = (let ks = round_keys key in xor_bytes (dec_rounds (tl ks) b) (hd ks))"

lemma length_next_word:
  assumes "list_all (\<lambda>w. length w = 4) ws" "0 < nk" "nk \<le> length ws"
  shows "length (next_word nk ws) = 4"
proof -
  have "last ws \<in> set ws" "ws ! (length ws - nk) \<in> set ws"
    using assms(2,3) by (auto intro!: last_in_set nth_mem)
  then have "length (last ws) = 4" "length (ws ! (length ws - nk)) = 4"
    using assms(1) by (auto simp: list_all_iff)
  then show ?thesis by (simp add: next_word_def Let_def)
qed

lemma expand_words_ok:
  "list_all (\<lambda>w. length w = 4) ws \<Longrightarrow> 0 < nk \<Longrightarrow> nk \<le> length ws \<Longrightarrow>
   list_all (\<lambda>w. length w = 4) (expand_words nk n ws) \<and>
   length (expand_words nk n ws) = length ws + n"
  by (induction nk n ws rule: expand_words.induct) (simp_all add: length_next_word)

lemma chunks_full:
  "0 < n \<Longrightarrow> n dvd length xs \<Longrightarrow>
   list_all (\<lambda>c. length c = n) (chunks n xs) \<and> length (chunks n xs) = length xs div n"
proof (induction n xs rule: chunks.induct)
  case (1 n xs)
  show ?case
  proof (cases "xs = []")
    case False
    with 1 have le: "n \<le> length xs" by (auto dest: dvd_imp_le)
    with 1 False have "list_all (\<lambda>c. length c = n) (chunks n (drop n xs)) \<and>
        length (chunks n (drop n xs)) = length (drop n xs) div n"
      by (simp add: dvd_drop)
    with 1 False le show ?thesis by (simp add: chunks_step le_div_geq)
  qed simp
qed

lemma round_keys_ok:
  assumes "aes_valid_key key"
  shows "list_all (\<lambda>k. length k = 16) (round_keys key)" "round_keys key \<noteq> []"
proof -
  define nk where "nk = length key div 4"
  have nk: "length key = 4 * nk" "0 < nk"
    using assms by (auto simp: aes_valid_key_def nk_def)
  define ws where "ws = expand_words nk (4 * (nk + 7) - nk) (chunks 4 key)"
  have c: "list_all (\<lambda>w. length w = 4) (chunks 4 key)" "length (chunks 4 key) = nk"
    using chunks_full [of 4 key] nk by simp_all
  have w: "list_all (\<lambda>w. length w = 4) ws" "length ws = 4 * (nk + 7)"
    using expand_words_ok [of "chunks 4 key" nk "4 * (nk + 7) - nk"] c nk by (simp_all add: ws_def)
  have "length (concat ws) = 4 * length ws"
    using w(1) by (induction ws) (auto simp: list_all_iff)
  then have l: "length (concat ws) = 16 * (nk + 7)" using w by simp
  have r: "round_keys key = chunks 16 (concat ws)"
    by (simp add: round_keys_def Let_def ws_def nk_def)
  from chunks_full [of 16 "concat ws"] l
  have f: "list_all (\<lambda>k. length k = 16) (chunks 16 (concat ws))"
    "length (chunks 16 (concat ws)) = nk + 7"
    by simp_all
  show "list_all (\<lambda>k. length k = 16) (round_keys key)" using f r by simp
  show "round_keys key \<noteq> []" using f r by auto
qed

lemma length_aes_encrypt:
  assumes "aes_valid_key key" "length b = 16"
  shows "length (aes_encrypt key b) = 16"
proof -
  obtain k ks where r: "round_keys key = k # ks" using round_keys_ok(2) [OF assms(1)] by (cases "round_keys key") auto
  from round_keys_ok(1) [OF assms(1)] r show ?thesis
    by (simp add: aes_encrypt_def Let_def length_enc_rounds assms(2))
qed

lemma aes_decrypt_encrypt:
  assumes "aes_valid_key key" "length b = 16"
  shows "aes_decrypt key (aes_encrypt key b) = b"
proof -
  obtain k ks where r: "round_keys key = k # ks" using round_keys_ok(2) [OF assms(1)] by (cases "round_keys key") auto
  from round_keys_ok(1) [OF assms(1)] r show ?thesis
    by (simp add: aes_encrypt_def aes_decrypt_def Let_def dec_rounds_enc_rounds xor_bytes_cancel assms(2))
qed

section \<open>CBC mode\<close>

text \<open>
  \<open>cipher.NewCBCEncrypter(block, iv).CryptBlocks\<close> and its inverse over a whole number
  of blocks; the code never calls them with anything else.
\<close>

fun cbc_encrypt :: "(bytes \<Rightarrow> bytes) \<Rightarrow> bytes \<Rightarrow> bytes \<Rightarrow> bytes" where
  "cbc_encrypt E iv [] = []"
| "cbc_encrypt E iv (x # xs) =
     (let c = E (xor_bytes (x # take 15 xs) iv) in c @ cbc_encrypt E c (drop 15 xs))"

fun cbc_decrypt :: "(bytes \<Rightarrow> bytes) \<Rightarrow> bytes \<Rightarrow> bytes \<Rightarrow> bytes" where
  "cbc_decrypt D iv [] = []"
| "cbc_decrypt D iv (x # xs) =
     (let c = x # take 15 xs in xor_bytes (D c) iv @ cbc_decrypt D c (drop 15 xs))"

lemma cbc_encrypt_step:
  "length c = 16 \<Longrightarrow> cbc_encrypt E iv (c @ rest) =
     E (xor_bytes c iv) @ cbc_encrypt E (E (xor_bytes c iv)) rest"
  by (cases c) (simp_all add: Let_def)

lemma cbc_decrypt_step:
  "length c = 16 \<Longrightarrow> cbc_decrypt D iv (c @ rest) = xor_bytes (D c) iv @ cbc_decrypt D c rest"
  by (cases c) (simp_all add: Let_def)

text \<open>Whole blocks, one at a time: the induction every CBC lemma uses.\<close>

lemma block_induct [consumes 1, case_names Nil Block]:
  assumes "16 dvd length xs"
    and "P []"
    and "\<And>c rest. length c = 16 \<Longrightarrow> 16 dvd length rest \<Longrightarrow> P rest \<Longrightarrow> P (c @ rest)"
  shows "P xs"
  using assms(1)
proof (induction "length xs" arbitrary: xs rule: less_induct)
  case less
  show ?case
  proof (cases "xs = []")
    case False
    with less.prems have l: "16 \<le> length xs" by (auto dest: dvd_imp_le)
    have "P (take 16 xs @ drop 16 xs)"
      using less l by (intro assms(3)) (simp_all add: dvd_drop)
    then show ?thesis by simp
  qed (simp add: assms(2))
qed

section \<open>The interfaces the packages above rely on\<close>

locale keyed_function =
  fixes enc :: "'k \<Rightarrow> bytes \<Rightarrow> bytes"
    and valid :: "'k \<Rightarrow> bool"
  assumes enc_length: "valid k \<Longrightarrow> length b = 16 \<Longrightarrow> length (enc k b) = 16"

locale block_cipher = keyed_function enc valid
  for enc :: "'k \<Rightarrow> bytes \<Rightarrow> bytes" and valid :: "'k \<Rightarrow> bool" +
  fixes dec :: "'k \<Rightarrow> bytes \<Rightarrow> bytes"
  assumes dec_enc: "valid k \<Longrightarrow> length b = 16 \<Longrightarrow> dec k (enc k b) = b"
begin

lemma enc_inject:
  "valid k \<Longrightarrow> length a = 16 \<Longrightarrow> length b = 16 \<Longrightarrow> enc k a = enc k b \<Longrightarrow> a = b"
  by (metis dec_enc)

lemma cbc_length:
  assumes k: "valid k" and d: "16 dvd length data" and v: "length iv = 16"
  shows "length (cbc_encrypt (enc k) iv data) = length data"
  using d v
proof (induction data arbitrary: iv rule: block_induct)
  case (Block c rest)
  then show ?case by (simp add: cbc_encrypt_step enc_length [OF k])
qed simp

lemma cbc_roundtrip:
  assumes k: "valid k" and d: "16 dvd length data" and v: "length iv = 16"
  shows "cbc_decrypt (dec k) iv (cbc_encrypt (enc k) iv data) = data"
  using d v
proof (induction data arbitrary: iv rule: block_induct)
  case (Block c rest)
  then show ?case
    by (simp add: cbc_encrypt_step cbc_decrypt_step enc_length [OF k] dec_enc [OF k] xor_bytes_cancel)
qed simp

end

interpretation aesc: block_cipher aes_encrypt aes_valid_key aes_decrypt
  by unfold_locales (simp_all add: length_aes_encrypt aes_decrypt_encrypt)

end
