(* ===== verification/Cmac.thy ===== *)
theory Cmac
  imports Aes
begin

text \<open>
  \<open>nfc/ev2/cmac.go\<close> and \<open>nfc/ev2/keys.go\<close>: AES-CMAC over a block cipher, its subkeys,
  the chained form \<open>CMACFrom\<close> the DESFire EV1 session uses, and the truncation a card
  sends. \<open>cmac_ref\<close> is the reference: RFC 4493 as a recursion over the message, one
  block at a time. It is proved equal to the code's head/last-block computation inside the
  interface \<open>keyed_function\<close>, so the same theorem serves AES here and the leakage
  resilient primitive in \<open>Lrp\<close>.
\<close>

section \<open>The code\<close>

definition copy16 :: "bytes \<Rightarrow> bytes" where
  "copy16 v = take 16 (v @ replicate 16 0)"

fun shl1 :: "bytes \<Rightarrow> bytes" where
  "shl1 [] = []"
| "shl1 [x] = [push_bit 1 x]"
| "shl1 (x # y # r) = (push_bit 1 x OR drop_bit 7 y) # shl1 (y # r)"

definition shift_left :: "bytes \<Rightarrow> bytes" where
  "shift_left b =
     (let out = shl1 b
      in if b ! 0 AND 0x80 \<noteq> 0
         then out[length out - 1 := out ! (length out - 1) XOR 0x87] else out)"

definition cmac_subkeys :: "(bytes \<Rightarrow> bytes) \<Rightarrow> bytes \<times> bytes" where
  "cmac_subkeys E = (let l = E (replicate 16 0); k1 = shift_left l; k2 = shift_left k1 in (k1, k2))"

definition cmac_from :: "(bytes \<Rightarrow> bytes) \<Rightarrow> bytes \<Rightarrow> bytes \<Rightarrow> bytes" where
  "cmac_from E iv msg =
     (let (k1, k2) = cmac_subkeys E;
          complete = (0 < length msg \<and> length msg mod 16 = 0);
          n = (if complete then length msg - 16 else length msg - length msg mod 16);
          head = take n msg;
          final = (if complete then xor_bytes (drop n msg) k1
                   else xor_bytes ((copy16 (drop n msg))[length msg - n := 0x80]) k2);
          chain = foldl (\<lambda>c b. E (xor_bytes c b)) (copy16 iv) (chunks 16 head)
      in E (xor_bytes chain final))"

definition cmac :: "(bytes \<Rightarrow> bytes) \<Rightarrow> bytes \<Rightarrow> bytes" where
  "cmac E msg = cmac_from E (replicate 16 0) msg"

text \<open>\<open>TruncateMAC\<close> keeps the bytes at odd indices.\<close>

fun truncate_mac :: "bytes \<Rightarrow> bytes" where
  "truncate_mac (_ # y # r) = y # truncate_mac r"
| "truncate_mac _ = []"

datatype key_error = ErrKeySize nat

text \<open>\<open>NewCipher\<close> refuses any key that is not AES-128; the cipher is its key.\<close>

definition new_cipher :: "bytes \<Rightarrow> key_error + bytes" where
  "new_cipher key = (if length key \<noteq> 16 then Inl (ErrKeySize (length key)) else Inr key)"

section \<open>The reference\<close>

definition pad_last :: "bytes \<Rightarrow> bytes" where
  "pad_last m = m @ 0x80 # replicate (15 - length m) 0"

function cmac_ref :: "(bytes \<Rightarrow> bytes) \<Rightarrow> bytes \<Rightarrow> bytes \<Rightarrow> bytes \<Rightarrow> bytes \<Rightarrow> bytes" where
  "cmac_ref E k1 k2 c msg =
     (if 16 < length msg then cmac_ref E k1 k2 (E (xor_bytes c (take 16 msg))) (drop 16 msg)
      else if length msg = 16 then E (xor_bytes c (xor_bytes msg k1))
      else E (xor_bytes c (xor_bytes (pad_last msg) k2)))"
  by pat_completeness auto
termination by (relation "measure (\<lambda>(E, k1, k2, c, msg). length msg)") auto

declare cmac_ref.simps [simp del]

lemma copy16_16 [simp]: "length v = 16 \<Longrightarrow> copy16 v = v"
  by (simp add: copy16_def)

lemma length_copy16 [simp]: "length (copy16 v) = 16"
  by (simp add: copy16_def)

lemma copy16_pad:
  assumes "length m < 16"
  shows "(copy16 m)[length m := 0x80] = pad_last m"
proof -
  obtain j where j: "16 = Suc (length m + j)" using assms less_imp_Suc_add by blast
  have "copy16 m = m @ replicate (16 - length m) 0"
    using assms by (simp add: copy16_def)
  also have "16 - length m = Suc j" using j by arith
  finally have "(copy16 m)[length m := 0x80] = m @ 0x80 # replicate j 0"
    by (simp add: list_update_append)
  moreover have "15 - length m = j" using j by arith
  ultimately show ?thesis by (simp add: pad_last_def)
qed

lemma length_shl1 [simp]: "length (shl1 b) = length b"
  by (induction b rule: shl1.induct) simp_all

lemma length_shift_left [simp]: "length (shift_left b) = length b"
  by (simp add: shift_left_def Let_def)

lemma truncate_mac_length: "length (truncate_mac m) = length m div 2"
  by (induction m rule: truncate_mac.induct) simp_all

lemma truncate_mac_nth: "i < length m div 2 \<Longrightarrow> truncate_mac m ! i = m ! (2 * i + 1)"
proof (induction m arbitrary: i rule: truncate_mac.induct)
  case (1 x y r)
  then show ?case by (cases i) simp_all
qed simp_all

lemma cmac_ref_head:
  "16 dvd n \<Longrightarrow> n \<le> length msg \<Longrightarrow> length msg - n \<le> 16 \<Longrightarrow> msg = [] \<or> n < length msg \<Longrightarrow>
   cmac_ref E k1 k2 c msg =
     E (xor_bytes (foldl (\<lambda>c b. E (xor_bytes c b)) c (chunks 16 (take n msg)))
        (if length msg - n = 16 then xor_bytes (drop n msg) k1
         else xor_bytes (pad_last (drop n msg)) k2))"
proof (induction n arbitrary: c msg rule: less_induct)
  case (less n)
  show ?case
  proof (cases "n = 0")
    case True
    with less.prems show ?thesis by (simp add: cmac_ref.simps [of E k1 k2 c msg])
  next
    case False
    then have n: "16 \<le> n" using less.prems by (auto dest: dvd_imp_le)
    then have l: "16 < length msg" using less.prems by auto
    let ?c = "E (xor_bytes c (take 16 msg))" and ?m = "drop 16 msg"
    have t: "take n msg = take 16 msg @ take (n - 16) ?m"
      using n by (metis le_add_diff_inverse take_add)
    have "cmac_ref E k1 k2 c msg = cmac_ref E k1 k2 ?c ?m"
      using l by (simp add: cmac_ref.simps [of E k1 k2 c msg])
    also have "\<dots> = E (xor_bytes (foldl (\<lambda>c b. E (xor_bytes c b)) ?c (chunks 16 (take (n - 16) ?m)))
        (if length ?m - (n - 16) = 16 then xor_bytes (drop (n - 16) ?m) k1
         else xor_bytes (pad_last (drop (n - 16) ?m)) k2))"
      using less.prems n l by (intro less.IH) (auto simp: dvd_diff_nat)
    finally show ?thesis
      using n l by (simp add: t chunks_append)
  qed
qed

lemma cmac_from_ref:
  assumes "length iv = 16"
  shows "cmac_from E iv msg = cmac_ref E (fst (cmac_subkeys E)) (snd (cmac_subkeys E)) iv msg"
proof -
  obtain k1 k2 where k: "cmac_subkeys E = (k1, k2)" by fastforce
  have m: "length msg mod 16 < 16" "length msg mod 16 \<le> length msg" by simp_all
  show ?thesis
  proof (cases "0 < length msg \<and> length msg mod 16 = 0")
    case True
    then have "16 dvd length msg" "16 \<le> length msg" by (auto dest: dvd_imp_le)
    with True show ?thesis
      by (subst cmac_ref_head [where n = "length msg - 16"])
         (auto simp: cmac_from_def Let_def k assms dvd_diff_nat)
  next
    case False
    define n where "n = length msg - length msg mod 16"
    have d: "16 dvd n" "n \<le> length msg" by (simp_all add: n_def dvd_minus_mod)
    have d3: "msg = [] \<or> n < length msg" using False by (auto simp: n_def intro: diff_less)
    have r: "length msg - n < 16" using m by (simp add: n_def)
    have "length (drop n msg) = length msg - n" by simp
    then have p: "(copy16 (drop n msg))[length msg - n := 0x80] = pad_last (drop n msg)"
      using copy16_pad [of "drop n msg"] r by simp
    have "cmac_from E iv msg =
        E (xor_bytes (foldl (\<lambda>c b. E (xor_bytes c b)) iv (chunks 16 (take n msg)))
          (xor_bytes (pad_last (drop n msg)) k2))"
      unfolding cmac_from_def Let_def k prod.case if_not_P [OF False] n_def [symmetric] p
      using assms by simp
    then show ?thesis
      using cmac_ref_head [OF d(1,2) _ d3, of E k1 k2 iv] r by (simp add: k)
  qed
qed

context keyed_function
begin

lemma cmac_subkeys_length:
  "valid k \<Longrightarrow> length (fst (cmac_subkeys (enc k))) = 16 \<and> length (snd (cmac_subkeys (enc k))) = 16"
  by (simp add: cmac_subkeys_def Let_def enc_length)

lemma cmac_ref_length:
  assumes "valid k" "length k1 = 16" "length k2 = 16"
  shows "length c = 16 \<Longrightarrow> length (cmac_ref (enc k) k1 k2 c msg) = 16"
proof (induction "length msg" arbitrary: c msg rule: less_induct)
  case less
  show ?case
  proof (cases "16 < length msg")
    case True
    with less assms show ?thesis by (subst cmac_ref.simps) (simp add: enc_length)
  next
    case False
    with less.prems assms show ?thesis
      by (subst cmac_ref.simps) (auto simp: enc_length pad_last_def)
  qed
qed

lemma cmac_from_length: "valid k \<Longrightarrow> length iv = 16 \<Longrightarrow> length (cmac_from (enc k) iv msg) = 16"
  using cmac_ref_length cmac_subkeys_length by (simp add: cmac_from_ref)

lemma cmac_length: "valid k \<Longrightarrow> length (cmac (enc k) msg) = 16"
  by (simp add: cmac_def cmac_from_length)

lemma truncated_length: "valid k \<Longrightarrow> length (truncate_mac (cmac (enc k) msg)) = 8"
  by (simp add: truncate_mac_length cmac_length)

end

lemma new_cipher_valid: "new_cipher key = Inr b \<Longrightarrow> b = key \<and> length key = 16 \<and> aes_valid_key key"
  by (auto simp: new_cipher_def aes_valid_key_def split: if_splits)

end
