(* ===== verification/Lrp.thy ===== *)
theory Lrp
  imports Cmac
begin

text \<open>
  \<open>nfc/lrp/lrp.go\<close>: the Leakage Resilient Primitive of NXP's AN12304. A key is expanded
  into sixteen plaintexts and one updated key; a value is evaluated by walking its nibbles
  through the plaintexts. On that evaluation stand the counter mode LRICB and the CMAC
  construction. Shown here: the expansion is well formed, LRICB decryption inverts
  encryption, the counter is big-endian addition of one modulo its width, and the CMAC is
  the RFC 4493 recursion over the evaluation.
\<close>

section \<open>Keys\<close>

record lrp_key =
  plaintexts :: "bytes list"
  updated :: bytes

datatype lrp_error =
    LrpKeySize nat
  | LrpNoUpdatedKey int
  | LrpEmptyCounter
  | LrpNotBlocks nat

definition constant_block :: "byte \<Rightarrow> bytes" where
  "constant_block v = replicate 16 v"

fun key_chain :: "nat \<Rightarrow> bytes \<Rightarrow> bytes list" where
  "key_chain 0 h = []"
| "key_chain (Suc n) h =
     aes_encrypt h (constant_block 0xAA) # key_chain n (aes_encrypt h (constant_block 0x55))"

definition lrp_plaintexts :: "bytes \<Rightarrow> bytes list" where
  "lrp_plaintexts key = key_chain 16 (aes_encrypt key (constant_block 0x55))"

definition lrp_updated_keys :: "bytes \<Rightarrow> bytes list" where
  "lrp_updated_keys key = key_chain 4 (aes_encrypt key (constant_block 0xAA))"

definition UpdateMAC :: int where "UpdateMAC = 0"
definition UpdateENC :: int where "UpdateENC = 1"

definition lrp_new :: "bytes \<Rightarrow> int \<Rightarrow> lrp_error + lrp_key" where
  "lrp_new key update =
     (if length key \<noteq> 16 then Inl (LrpKeySize (length key))
      else if update < 0 \<or> 4 \<le> update then Inl (LrpNoUpdatedKey update)
      else Inr \<lparr>plaintexts = lrp_plaintexts key, updated = lrp_updated_keys key ! nat update\<rparr>)"

section \<open>Evaluation\<close>

definition nibbles :: "bytes \<Rightarrow> nat list" where
  "nibbles input = concat (map (\<lambda>b. [unat (drop_bit 4 b), unat (b AND 0x0F)]) input)"

definition eval_nibbles :: "lrp_key \<Rightarrow> nat list \<Rightarrow> bool \<Rightarrow> bytes" where
  "eval_nibbles k ns final =
     (let y = foldl (\<lambda>y n. aes_encrypt y (plaintexts k ! n)) (updated k) ns
      in if final then aes_encrypt y (replicate 16 0) else y)"

definition lrp_eval :: "lrp_key \<Rightarrow> bytes \<Rightarrow> bool \<Rightarrow> bytes" where
  "lrp_eval k input final = eval_nibbles k (nibbles input) final"

section \<open>Counter mode\<close>

fun increment_rev :: "bytes \<Rightarrow> bytes" where
  "increment_rev [] = []"
| "increment_rev (x # xs) = (if x + 1 \<noteq> 0 then (x + 1) # xs else (x + 1) # increment_rev xs)"

definition increment :: "bytes \<Rightarrow> bytes" where
  "increment ctr = rev (increment_rev (rev ctr))"

fun lricb_loop :: "lrp_key \<Rightarrow> bool \<Rightarrow> bytes \<Rightarrow> bytes \<Rightarrow> bytes" where
  "lricb_loop k enc ctr [] = []"
| "lricb_loop k enc ctr (x # xs) =
     (let y = lrp_eval k ctr True; blk = x # take 15 xs
      in (if enc then aes_encrypt y blk else aes_decrypt y blk)
         @ lricb_loop k enc (increment ctr) (drop 15 xs))"

definition lricb :: "lrp_key \<Rightarrow> bytes \<Rightarrow> bytes \<Rightarrow> bool \<Rightarrow> lrp_error + bytes" where
  "lricb k counter data enc =
     (if counter = [] then Inl LrpEmptyCounter
      else if length data mod 16 \<noteq> 0 then Inl (LrpNotBlocks (length data))
      else Inr (lricb_loop k enc counter data))"

definition lrp_encrypt :: "lrp_key \<Rightarrow> bytes \<Rightarrow> bytes \<Rightarrow> lrp_error + bytes" where
  "lrp_encrypt k counter data = lricb k counter data True"

definition lrp_decrypt :: "lrp_key \<Rightarrow> bytes \<Rightarrow> bytes \<Rightarrow> lrp_error + bytes" where
  "lrp_decrypt k counter data = lricb k counter data False"

section \<open>CMAC\<close>

definition doubled :: "bytes \<Rightarrow> bytes" where
  "doubled b =
     (let out = shl1 b
      in if b ! 0 AND 0x80 \<noteq> 0
         then out[length out - 1 := out ! (length out - 1) XOR 0x87] else out)"

definition lrp_cmac :: "lrp_key \<Rightarrow> bytes \<Rightarrow> bytes" where
  "lrp_cmac k msg =
     (let k1 = doubled (lrp_eval k (replicate 16 0) True);
          k2 = doubled k1;
          head = (if 16 < length msg then (length msg - 1) div 16 * 16 else 0);
          chain = foldl (\<lambda>c b. lrp_eval k (xor_bytes c b) True) (replicate 16 0)
                    (chunks 16 (take head msg));
          rest = drop head msg;
          final = (if length rest = 16 then xor_bytes (copy16 rest) k1
                   else xor_bytes ((copy16 rest)[length rest := 0x80]) k2)
      in lrp_eval k (xor_bytes chain final) True)"

section \<open>Well-formed keys\<close>

definition lrp_key_ok :: "lrp_key \<Rightarrow> bool" where
  "lrp_key_ok k \<longleftrightarrow> length (plaintexts k) = 16 \<and> list_all (\<lambda>p. length p = 16) (plaintexts k) \<and>
     length (updated k) = 16"

lemma aes16 [simp]: "length h = 16 \<Longrightarrow> length b = 16 \<Longrightarrow> length (aes_encrypt h b) = 16"
  by (simp add: length_aes_encrypt aes_valid_key_def)

lemma aes16_inv [simp]:
  "length h = 16 \<Longrightarrow> length b = 16 \<Longrightarrow> aes_decrypt h (aes_encrypt h b) = b"
  by (simp add: aes_decrypt_encrypt aes_valid_key_def)

lemma length_constant_block [simp]: "length (constant_block v) = 16"
  by (simp add: constant_block_def)

lemma key_chain_ok:
  "length h = 16 \<Longrightarrow> length (key_chain n h) = n \<and> list_all (\<lambda>p. length p = 16) (key_chain n h)"
  by (induction n arbitrary: h) simp_all

lemma lrp_new_ok: "lrp_new key u = Inr k \<Longrightarrow> lrp_key_ok k"
proof -
  assume h: "lrp_new key u = Inr k"
  then have l: "length key = 16" and u: "0 \<le> u" "u < 4"
    and k: "k = \<lparr>plaintexts = lrp_plaintexts key, updated = lrp_updated_keys key ! nat u\<rparr>"
    by (auto simp: lrp_new_def split: if_splits)
  have "list_all (\<lambda>p. length p = 16) (lrp_updated_keys key)" "length (lrp_updated_keys key) = 4"
    using l by (simp_all add: lrp_updated_keys_def key_chain_ok)
  moreover have "nat u < 4" using u by simp
  ultimately have "length (lrp_updated_keys key ! nat u) = 16" by (simp add: list_all_length)
  then show "lrp_key_ok k" using l by (simp add: k lrp_key_ok_def lrp_plaintexts_def key_chain_ok)
qed

lemma lrp_new_total:
  "length key = 16 \<Longrightarrow> 0 \<le> u \<Longrightarrow> u < 4 \<Longrightarrow> \<exists>k. lrp_new key u = Inr k \<and> lrp_key_ok k"
  by (metis lrp_new_def lrp_new_ok linorder_not_le)

lemma nibbles_bound: "n \<in> set (nibbles input) \<Longrightarrow> n < 16"
proof -
  assume "n \<in> set (nibbles input)"
  then obtain b :: byte where "n = unat (drop_bit 4 b) \<or> n = unat (b AND 0x0F)"
    by (auto simp: nibbles_def)
  moreover have "unat (drop_bit 4 b) < 16"
    using unat_byte_less [of b]
    by (simp only: unsigned_drop_bit_eq) (simp add: drop_bit_eq_div take_bit_eq_mod)
  moreover have "b AND 0x0F = take_bit 4 b"
    by (simp add: take_bit_eq_mask mask_eq_exp_minus_1)
  moreover have "unat (take_bit 4 b) < 16"
    by (simp only: unsigned_take_bit_eq) (simp add: take_bit_eq_mod)
  ultimately show "n < 16" by auto
qed

lemma eval_fold_length:
  "lrp_key_ok k \<Longrightarrow> \<forall>n \<in> set ns. n < 16 \<Longrightarrow> length y = 16 \<Longrightarrow>
   length (foldl (\<lambda>y n. aes_encrypt y (plaintexts k ! n)) y ns) = 16"
proof (induction ns arbitrary: y)
  case (Cons n ns)
  then have "length (plaintexts k ! n) = 16" by (simp add: lrp_key_ok_def list_all_length)
  with Cons show ?case by simp
qed simp

lemma length_lrp_eval: "lrp_key_ok k \<Longrightarrow> length (lrp_eval k input final) = 16"
  using eval_fold_length [of k "nibbles input" "updated k"] nibbles_bound
  by (auto simp: lrp_eval_def eval_nibbles_def Let_def lrp_key_ok_def)

section \<open>The counter\<close>

definition be_nat :: "bytes \<Rightarrow> nat" where
  "be_nat b = foldl (\<lambda>a x. a * 256 + unat x) 0 b"

fun le_nat :: "bytes \<Rightarrow> nat" where
  "le_nat [] = 0"
| "le_nat (x # xs) = unat x + 256 * le_nat xs"

lemma foldl_be: "foldl (\<lambda>a x. a * 256 + unat x) a b = a * 256 ^ length b + foldl (\<lambda>a x. a * 256 + unat x) 0 b"
proof (induction b arbitrary: a)
  case (Cons x b)
  show ?case
    using Cons.IH [of "a * 256 + unat x"] Cons.IH [of "unat x"]
    by (simp add: distrib_right mult.assoc)
qed simp

lemma be_nat_Cons: "be_nat (x # b) = unat x * 256 ^ length b + be_nat b"
  by (simp add: be_nat_def foldl_be [of "unat x"])

lemma be_nat_snoc: "be_nat (b @ [x]) = be_nat b * 256 + unat x"
  by (simp add: be_nat_def)

lemma be_nat_rev: "be_nat (rev b) = le_nat b"
  by (induction b) (simp_all add: be_nat_snoc, simp add: be_nat_def)

lemma le_nat_less: "le_nat b < 256 ^ length b"
proof (induction b)
  case (Cons x b)
  then show ?case using unat_byte_less [of x] by simp
qed simp

lemma length_increment_rev [simp]: "length (increment_rev b) = length b"
  by (induction b) simp_all

lemma length_increment [simp]: "length (increment b) = length b"
  by (simp add: increment_def)

lemma increment_rev_nat: "le_nat (increment_rev b) = (le_nat b + 1) mod 256 ^ length b"
proof (induction b)
  case (Cons x b)
  have e: "256 ^ length (x # b) = 256 * 256 ^ length b" by simp
  show ?case
  proof (cases "x + 1 = 0")
    case True
    then have "x = - 1" by (simp add: eq_neg_iff_add_eq_0)
    then have x: "unat x = 255" by (simp add: unsigned_minus_1_eq_mask mask_eq_exp_minus_1)
    have "(256 + 256 * le_nat b) mod (256 * 256 ^ length b) = 256 * ((1 + le_nat b) mod 256 ^ length b)"
      by (metis mult_mod_right distrib_left mult.right_neutral)
    with True x Cons.IH show ?thesis by simp
  next
    case False
    then have x: "unat (x + 1) = unat x + 1" using unatSuc [of x] by (simp add: add.commute)
    have "unat x + 1 < 256" using x unat_byte_less [of "x + 1"] by simp
    then have "le_nat ((x + 1) # b) = le_nat (x # b) + 1" using x by simp
    moreover have "le_nat ((x + 1) # b) < 256 ^ length (x # b)"
      using le_nat_less [of "(x + 1) # b"] by simp
    ultimately show ?thesis using False by simp
  qed
qed simp

lemma increment_nat: "be_nat (increment b) = (be_nat b + 1) mod 256 ^ length b"
  using increment_rev_nat [of "rev b"] be_nat_rev [of "rev b"] be_nat_rev [of "increment_rev (rev b)"]
  by (simp add: increment_def)

section \<open>LRICB\<close>

lemma lricb_step:
  "length c = 16 \<Longrightarrow> lricb_loop k enc ctr (c @ rest) =
     (let y = lrp_eval k ctr True in if enc then aes_encrypt y c else aes_decrypt y c)
     @ lricb_loop k enc (increment ctr) rest"
  by (cases c) (simp_all add: Let_def)

lemma lricb_loop_length:
  assumes k: "lrp_key_ok k" and d: "16 dvd length data"
  shows "length (lricb_loop k True ctr data) = length data"
  using d
  by (induction data arbitrary: ctr rule: block_induct)
     (simp_all add: lricb_step Let_def length_lrp_eval [OF k])

lemma lricb_loop_roundtrip:
  assumes k: "lrp_key_ok k" and d: "16 dvd length data"
  shows "lricb_loop k False ctr (lricb_loop k True ctr data) = data"
  using d
  by (induction data arbitrary: ctr rule: block_induct)
     (simp_all add: lricb_step Let_def length_lrp_eval [OF k])

lemma lrp_encrypt_ok:
  "lrp_key_ok k \<Longrightarrow> ctr \<noteq> [] \<Longrightarrow> 16 dvd length data \<Longrightarrow>
   \<exists>c. lrp_encrypt k ctr data = Inr c \<and> length c = length data \<and> lrp_decrypt k ctr c = Inr data"
  by (auto simp: lrp_encrypt_def lrp_decrypt_def lricb_def lricb_loop_length lricb_loop_roundtrip
      simp flip: dvd_eq_mod_eq_0)

section \<open>CMAC against the reference\<close>

interpretation lrpf: keyed_function "\<lambda>k b. lrp_eval k b True" lrp_key_ok
  by unfold_locales (rule length_lrp_eval)

lemma doubled_shift_left: "doubled b = shift_left b"
  by (simp add: doubled_def shift_left_def)

lemma lrp_cmac_ref:
  "lrp_cmac k msg =
     cmac_ref (\<lambda>b. lrp_eval k b True) (fst (cmac_subkeys (\<lambda>b. lrp_eval k b True)))
       (snd (cmac_subkeys (\<lambda>b. lrp_eval k b True))) (replicate 16 0) msg"
proof -
  let ?E = "\<lambda>b. lrp_eval k b True"
  define head where "head = (if 16 < length msg then (length msg - 1) div 16 * 16 else 0)"
  have d: "16 dvd head" by (simp add: head_def)
  have n: "head \<le> length msg \<and> length msg - head \<le> 16 \<and> (msg = [] \<or> head < length msg)"
    by (cases "length msg") (auto simp: head_def)
  have p: "length (drop head msg) \<noteq> 16 \<Longrightarrow>
      (copy16 (drop head msg))[length msg - head := 0x80] = pad_last (drop head msg)"
    using copy16_pad [of "drop head msg"] n by simp
  have "lrp_cmac k msg =
      ?E (xor_bytes (foldl (\<lambda>c b. ?E (xor_bytes c b)) (replicate 16 0) (chunks 16 (take head msg)))
        (if length msg - head = 16 then xor_bytes (drop head msg) (fst (cmac_subkeys ?E))
         else xor_bytes (pad_last (drop head msg)) (snd (cmac_subkeys ?E))))"
    using p by (simp add: lrp_cmac_def Let_def head_def [symmetric] cmac_subkeys_def doubled_shift_left)
  then show ?thesis using cmac_ref_head [OF d] n by simp
qed

lemma lrp_cmac_is_cmac: "lrp_cmac k msg = cmac (\<lambda>b. lrp_eval k b True) msg"
  by (simp add: lrp_cmac_ref cmac_def cmac_from_ref)

lemma length_lrp_cmac: "lrp_key_ok k \<Longrightarrow> length (lrp_cmac k msg) = 16"
  by (simp add: lrp_cmac_is_cmac lrpf.cmac_length)

end
