(* ===== verification/Ev2Session.thy ===== *)
theory Ev2Session
  imports Lrp
begin

text \<open>
  NXP's EV2 secure messaging under AES: \<open>nfc/ev2/session.go\<close> (the reader's half,
  \<open>Command\<close> and \<open>Response\<close>), \<open>nfc/ev2/responder.go\<close> (the card's half,
  \<open>VerifyCommand\<close> and \<open>Answer\<close>) and the APDU framing of \<open>nfc/ev2/auth.go\<close> both use.
  A method on \<open>*Session\<close> takes the session and returns it updated next to its result.
  The command counter is a \<open>uint16\<close> and wraps.
\<close>

datatype comm_mode = CommPlain | CommMAC | CommFull | CommOther int

datatype ev2_error =
    EShortResponse nat | ECardAnswered byte byte | EFrameSize nat nat
  | ETooFewForMAC nat | ETooFewForHeader nat nat | EMACMismatch
  | ENotBlocks nat | ENotPadded | EUnknownMode int
  | ENotWrapped | EDeclaredLength nat nat
  | ETISize nat | EAesKeySize nat | EKeySize nat | ERandomSizes nat nat
  | EAuthState | EAuthFailed | ENeedTI | ERandom | EAuthMode byte | EAuthMessage nat
  | ELrp lrp_error

section \<open>APDU framing and status words\<close>

definition wrap_apdu :: "byte \<Rightarrow> bytes \<Rightarrow> bytes" where
  "wrap_apdu ins data =
     [0x90, ins, 0x00, 0x00]
     @ (if 0 < length data then byteN (length data) # data else []) @ [0x00]"

definition unwrap_apdu :: "bytes \<Rightarrow> ev2_error + byte \<times> bytes" where
  "unwrap_apdu apdu =
     (if length apdu < 5 \<or> apdu ! 0 \<noteq> 0x90 then Inl ENotWrapped
      else if length apdu = 5 then Inr (apdu ! 1, [])
      else let lc = unat (apdu ! 4)
           in if length apdu \<noteq> 6 + lc then Inl (EDeclaredLength lc (length apdu - 6))
              else Inr (apdu ! 1, slice 5 (5 + lc) apdu))"

definition status_ok :: "byte \<Rightarrow> byte \<Rightarrow> bool" where
  "status_ok sw1 sw2 \<longleftrightarrow> (sw1 = 0x91 \<or> sw1 = 0x90) \<and> sw2 = 0x00"

definition status_more_frames :: "byte \<Rightarrow> byte \<Rightarrow> bool" where
  "status_more_frames sw1 sw2 \<longleftrightarrow> sw1 = 0x91 \<and> sw2 = 0xAF"

definition frame_data :: "bytes \<Rightarrow> nat \<Rightarrow> ev2_error + bytes" where
  "frame_data response want =
     (if length response < 2 then Inl (EShortResponse (length response))
      else let n = length response - 2; data = take n response;
               sw1 = response ! n; sw2 = response ! (n + 1)
           in if \<not> status_ok sw1 sw2 \<and> \<not> status_more_frames sw1 sw2
              then Inl (ECardAnswered sw1 sw2)
              else if length data \<noteq> want then Inl (EFrameSize (length data) want)
              else Inr data)"

section \<open>ISO 9797-1 padding, method 2\<close>

function pad_zeros :: "bytes \<Rightarrow> bytes" where
  "pad_zeros out = (if length out mod 16 \<noteq> 0 then pad_zeros (out @ [0x00]) else out)"
  by pat_completeness auto
termination by (relation "measure (\<lambda>out. (16 - length out mod 16) mod 16)") (auto simp: mod_Suc)

declare pad_zeros.simps [simp del]

definition pad_iso9797 :: "bytes \<Rightarrow> bytes" where
  "pad_iso9797 data = pad_zeros (data @ [0x80])"

fun unpad_rev :: "nat \<Rightarrow> bytes \<Rightarrow> ev2_error + bytes" where
  "unpad_rev 0 _ = Inl ENotPadded"
| "unpad_rev _ [] = Inl ENotPadded"
| "unpad_rev (Suc n) (x # xs) =
     (if x = 0x00 then unpad_rev n xs
      else if x = 0x80 then Inr (rev xs) else Inl ENotPadded)"

text \<open>The loop walks at most sixteen bytes back from the end.\<close>

definition unpad_iso9797 :: "bytes \<Rightarrow> ev2_error + bytes" where
  "unpad_iso9797 data = unpad_rev 16 (rev data)"

section \<open>The session\<close>

record session =
  ti :: bytes
  encKey :: bytes
  macKey :: bytes
  encBlock :: bytes
  macBlock :: bytes
  counter :: uint16

definition new_session_at :: "bytes \<Rightarrow> bytes \<Rightarrow> bytes \<Rightarrow> uint16 \<Rightarrow> ev2_error + session" where
  "new_session_at t enc mac ctr =
     (if length t \<noteq> 4 then Inl (ETISize (length t))
      else if \<not> aes_valid_key enc then Inl (EAesKeySize (length enc))
      else if \<not> aes_valid_key mac then Inl (EAesKeySize (length mac))
      else Inr \<lparr>ti = t, encKey = enc, macKey = mac, encBlock = enc, macBlock = mac, counter = ctr\<rparr>)"

definition new_session :: "bytes \<Rightarrow> bytes \<Rightarrow> bytes \<Rightarrow> ev2_error + session" where
  "new_session t enc mac = new_session_at t enc mac 0"

definition mac_input :: "byte \<Rightarrow> uint16 \<Rightarrow> bytes \<Rightarrow> bytes \<Rightarrow> bytes" where
  "mac_input first ctr t body = first # le16 ctr @ t @ body"

definition command_mac :: "session \<Rightarrow> byte \<Rightarrow> bytes \<Rightarrow> bytes" where
  "command_mac s ins payload =
     truncate_mac (cmac (aes_encrypt (macBlock s)) (mac_input ins (counter s) (ti s) payload))"

definition response_mac :: "session \<Rightarrow> byte \<Rightarrow> bytes \<Rightarrow> bytes" where
  "response_mac s status body =
     truncate_mac (cmac (aes_encrypt (macBlock s)) (mac_input status (counter s + 1) (ti s) body))"

definition session_iv :: "session \<Rightarrow> byte \<Rightarrow> byte \<Rightarrow> uint16 \<Rightarrow> bytes" where
  "session_iv s a b ctr =
     aes_encrypt (encBlock s) (copy16 ([a, b] @ ti s @ le16 ctr))"

definition encrypt_with_iv :: "session \<Rightarrow> bytes \<Rightarrow> bytes \<Rightarrow> bytes" where
  "encrypt_with_iv s iv data = cbc_encrypt (aes_encrypt (encBlock s)) iv (pad_iso9797 data)"

definition decrypt_with_iv :: "session \<Rightarrow> bytes \<Rightarrow> bytes \<Rightarrow> ev2_error + bytes" where
  "decrypt_with_iv s iv data =
     (if length data mod 16 \<noteq> 0 then Inl (ENotBlocks (length data))
      else unpad_iso9797 (cbc_decrypt (aes_decrypt (encBlock s)) iv data))"

definition session_encrypt :: "session \<Rightarrow> bytes \<Rightarrow> bytes" where
  "session_encrypt s data = encrypt_with_iv s (session_iv s 0xA5 0x5A (counter s)) data"

definition session_decrypt :: "session \<Rightarrow> bytes \<Rightarrow> ev2_error + bytes" where
  "session_decrypt s data = decrypt_with_iv s (session_iv s 0x5A 0xA5 (counter s + 1)) data"

subsection \<open>The reader's half\<close>

definition session_command ::
    "session \<Rightarrow> byte \<Rightarrow> bytes \<Rightarrow> bytes \<Rightarrow> comm_mode \<Rightarrow> ev2_error + bytes" where
  "session_command s ins header data mode =
     (case mode of
        CommPlain \<Rightarrow> Inr (wrap_apdu ins (header @ data))
      | CommMAC \<Rightarrow>
          (let payload = header @ data in Inr (wrap_apdu ins (payload @ command_mac s ins payload)))
      | CommFull \<Rightarrow>
          (let payload = header @ (if 0 < length data then session_encrypt s data else [])
           in Inr (wrap_apdu ins (payload @ command_mac s ins payload)))
      | CommOther m \<Rightarrow> Inl (EUnknownMode m))"

definition session_response ::
    "session \<Rightarrow> bytes \<Rightarrow> comm_mode \<Rightarrow> (ev2_error + bytes) \<times> session" where
  "session_response s response mode =
     (if length response < 2 then (Inl (EShortResponse (length response)), s)
      else let n = length response - 2; data = take n response;
               sw1 = response ! n; sw2 = response ! (n + 1)
           in if \<not> status_ok sw1 sw2 then (Inl (ECardAnswered sw1 sw2), s)
              else if mode = CommPlain then (Inr data, s\<lparr>counter := counter s + 1\<rparr>)
              else if length data < 8 then (Inl (ETooFewForMAC (length data)), s)
              else let body = take (length data - 8) data; mac = drop (length data - 8) data
                   in if response_mac s sw2 body \<noteq> mac then (Inl EMACMismatch, s)
                      else if mode = CommFull \<and> 0 < length body
                      then (case session_decrypt s body of
                              Inl e \<Rightarrow> (Inl e, s)
                            | Inr plain \<Rightarrow> (Inr plain, s\<lparr>counter := counter s + 1\<rparr>))
                      else (Inr body, s\<lparr>counter := counter s + 1\<rparr>))"

subsection \<open>The card's half\<close>

definition session_verify ::
    "session \<Rightarrow> bytes \<Rightarrow> comm_mode \<Rightarrow> nat \<Rightarrow> ev2_error + bytes \<times> bytes" where
  "session_verify s apdu mode headerLen =
     bindE (unwrap_apdu apdu) (\<lambda>(ins, raw).
     bindE (if mode = CommPlain then Inr raw
            else if length raw < 8 then Inl (ETooFewForMAC (length raw))
            else let body = take (length raw - 8) raw; mac = drop (length raw - 8) raw
                 in if command_mac s ins body \<noteq> mac then Inl EMACMismatch else Inr body)
       (\<lambda>payload.
     if length payload < headerLen then Inl (ETooFewForHeader (length payload) headerLen)
     else let header = take headerLen payload; data = drop headerLen payload
          in if mode = CommFull \<and> 0 < length data
             then bindE (decrypt_with_iv s (session_iv s 0xA5 0x5A (counter s)) data)
                    (\<lambda>plain. Inr (header, plain))
             else Inr (header, data)))"

definition session_answer ::
    "session \<Rightarrow> byte \<Rightarrow> bytes \<Rightarrow> comm_mode \<Rightarrow> (ev2_error + bytes) \<times> session" where
  "session_answer s status data mode =
     (case mode of
        CommPlain \<Rightarrow> (Inr (data @ [0x91, status]), s\<lparr>counter := counter s + 1\<rparr>)
      | CommOther m \<Rightarrow> (Inl (EUnknownMode m), s)
      | _ \<Rightarrow>
          (let body = (if mode = CommFull \<and> 0 < length data
                       then encrypt_with_iv s (session_iv s 0x5A 0xA5 (counter s + 1)) data
                       else data)
           in (Inr (body @ response_mac s status body @ [0x91, status]),
               s\<lparr>counter := counter s + 1\<rparr>)))"

section \<open>Facts about the framing and the padding\<close>

lemma unwrap_wrap_apdu: "length data < 256 \<Longrightarrow> unwrap_apdu (wrap_apdu ins data) = Inr (ins, data)"
  by (simp add: unwrap_apdu_def wrap_apdu_def Let_def slice_def nth_append)

lemma pad_zeros_shape: "\<exists>z<16. pad_zeros out = out @ replicate z 0 \<and> 16 dvd length (pad_zeros out)"
proof -
  have "\<exists>z. z = (16 - length out mod 16) mod 16 \<and> pad_zeros out = out @ replicate z 0 \<and>
      16 dvd length (pad_zeros out)"
  proof (induction out rule: pad_zeros.induct)
    case (1 out)
    show ?case
    proof (cases "length out mod 16 = 0")
      case True
      then show ?thesis by (subst (1 2) pad_zeros.simps) auto
    next
      case False
      then have s: "pad_zeros out = pad_zeros (out @ [0])" by (subst pad_zeros.simps) simp
      have "Suc ((16 - Suc (length out) mod 16) mod 16) = (16 - length out mod 16) mod 16"
        using False by (auto simp: mod_Suc)
      with 1 False s show ?thesis by (auto simp flip: replicate_Suc)
    qed
  qed
  then show ?thesis by (metis mod_less_divisor zero_less_numeral)
qed

lemma pad_shape:
  obtains z where "z < 16" "pad_iso9797 data = data @ 0x80 # replicate z 0"
    "16 dvd length (pad_iso9797 data)"
  using pad_zeros_shape [of "data @ [0x80]"] by (auto simp: pad_iso9797_def)

lemma pad_length_dvd: "16 dvd length (pad_iso9797 data)"
  by (rule pad_shape)

lemma pad_length: "length (pad_iso9797 data) = (length data div 16 + 1) * 16"
proof (rule pad_shape [of data])
  fix z :: nat
  assume z: "z < 16" "pad_iso9797 data = data @ 0x80 # replicate z 0" "16 dvd length (pad_iso9797 data)"
  then have l: "length (pad_iso9797 data) = length data + 1 + z" by simp
  from z(3) obtain k where k: "length (pad_iso9797 data) = 16 * k" by (auto elim: dvdE)
  with l obtain j where j: "k = Suc j" by (cases k) auto
  with l k z(1) have "length data = (15 - z) + 16 * j" by simp
  then have "length data div 16 = j" by simp
  with k j show ?thesis by simp
qed

lemma unpad_rev_zeros: "z < n \<Longrightarrow> unpad_rev n (replicate z 0 @ 0x80 # xs) = Inr (rev xs)"
proof (induction z arbitrary: n)
  case 0
  then show ?case by (cases n) simp_all
next
  case (Suc z)
  then show ?case by (cases n) simp_all
qed

lemma unpad_pad [simp]: "unpad_iso9797 (pad_iso9797 data) = Inr data"
proof (rule pad_shape [of data])
  fix z :: nat
  assume z: "z < 16" "pad_iso9797 data = data @ 0x80 # replicate z 0"
  then show ?thesis using unpad_rev_zeros [OF z(1), of "rev data"] by (simp add: unpad_iso9797_def)
qed

lemma unpad_rev_Inr:
  "unpad_rev n ys = Inr data \<Longrightarrow> \<exists>z<n. ys = replicate z 0 @ 0x80 # rev data"
proof (induction n ys rule: unpad_rev.induct)
  case (3 n x xs)
  show ?case
  proof (cases "x = 0")
    case True
    with 3 obtain z where "z < n" "xs = replicate z 0 @ 0x80 # rev data" by auto
    with True show ?thesis by (intro exI [of _ "Suc z"]) simp
  next
    case False
    with "3.prems" have "x = 0x80" "data = rev xs" by (auto split: if_splits)
    then show ?thesis by (intro exI [of _ 0]) simp
  qed
qed simp_all

section \<open>Both halves of a session\<close>

definition session_ok :: "session \<Rightarrow> bool" where
  "session_ok s \<longleftrightarrow> length (ti s) = 4 \<and> aes_valid_key (encBlock s) \<and> aes_valid_key (macBlock s)"

lemma new_session_at_ok [wf_intros]: "new_session_at t e m c = Inr s \<Longrightarrow> session_ok s \<and> counter s = c"
  by (auto simp: new_session_at_def session_ok_def split: if_splits)

lemma session_ok_counter [simp]: "session_ok (s\<lparr>counter := c\<rparr>) = session_ok s"
  by (simp add: session_ok_def)

lemma length_command_mac [simp]: "session_ok s \<Longrightarrow> length (command_mac s ins p) = 8"
  by (simp add: command_mac_def session_ok_def aesc.truncated_length)

lemma length_response_mac [simp]: "session_ok s \<Longrightarrow> length (response_mac s st p) = 8"
  by (simp add: response_mac_def session_ok_def aesc.truncated_length)

lemma length_session_iv: "session_ok s \<Longrightarrow> length (session_iv s a b c) = 16"
  by (simp add: session_iv_def session_ok_def length_aes_encrypt)

lemma encrypt_with_iv_length:
  "session_ok s \<Longrightarrow> length iv = 16 \<Longrightarrow>
   length (encrypt_with_iv s iv data) = (length data div 16 + 1) * 16"
  by (simp add: encrypt_with_iv_def session_ok_def aesc.cbc_length pad_length_dvd pad_length)

lemma decrypt_encrypt_with_iv:
  assumes "session_ok s" "length iv = 16"
  shows "decrypt_with_iv s iv (encrypt_with_iv s iv data) = Inr data"
proof -
  have "length (encrypt_with_iv s iv data) mod 16 = 0"
    using assms by (simp add: encrypt_with_iv_length)
  then show ?thesis
    using assms by (simp add: decrypt_with_iv_def encrypt_with_iv_def session_ok_def aesc.cbc_roundtrip pad_length_dvd)
qed

text \<open>
  \<open>wire_length\<close> is how many bytes of payload a command of this mode carries; one that
  does not fit the single-byte Lc is cut off by the code's \<open>byte(len(data))\<close>.
\<close>

fun wire_length :: "comm_mode \<Rightarrow> nat \<Rightarrow> nat \<Rightarrow> nat" where
  "wire_length CommPlain h d = h + d"
| "wire_length CommMAC h d = h + d + 8"
| "wire_length CommFull h d = h + (if d = 0 then 0 else (d div 16 + 1) * 16) + 8"
| "wire_length (CommOther m) h d = 0"

fun known_mode :: "comm_mode \<Rightarrow> bool" where
  "known_mode (CommOther m) = False"
| "known_mode _ = True"

lemma session_command_verify:
  assumes s: "session_ok s" and m: "known_mode mode"
    and fits: "wire_length mode (length header) (length data) < 256"
  shows "\<exists>apdu. session_command s ins header data mode = Inr apdu \<and>
           session_verify s apdu mode (length header) = Inr (header, data)"
proof (cases mode)
  case CommPlain
  with fits show ?thesis
    by (simp add: session_command_def session_verify_def unwrap_wrap_apdu)
next
  case CommMAC
  with s fits show ?thesis
    by (simp add: session_command_def session_verify_def unwrap_wrap_apdu Let_def)
next
  case CommFull
  let ?iv = "session_iv s 0xA5 0x5A (counter s)"
  have l: "length (encrypt_with_iv s ?iv data) = (length data div 16 + 1) * 16"
    using s by (simp add: encrypt_with_iv_length length_session_iv)
  then have ne: "encrypt_with_iv s ?iv data \<noteq> []" by auto
  have d: "decrypt_with_iv s ?iv (encrypt_with_iv s ?iv data) = Inr data"
    using s by (simp add: decrypt_encrypt_with_iv length_session_iv)
  show ?thesis
  proof (cases "data = []")
    case True
    with CommFull s fits show ?thesis
      by (simp add: session_command_def session_verify_def unwrap_wrap_apdu Let_def)
  next
    case False
    with CommFull s fits l d ne show ?thesis
      by (simp add: session_command_def session_verify_def unwrap_wrap_apdu Let_def session_encrypt_def)
  qed
next
  case (CommOther x)
  with m show ?thesis by simp
qed

lemma session_answer_response:
  assumes s: "session_ok s" and m: "known_mode mode"
  shows "\<exists>resp. session_answer s 0x00 data mode = (Inr resp, s\<lparr>counter := counter s + 1\<rparr>) \<and>
           session_response s resp mode = (Inr data, s\<lparr>counter := counter s + 1\<rparr>)"
proof (cases mode)
  case CommPlain
  then show ?thesis
    by (simp add: session_answer_def session_response_def Let_def nth_append status_ok_def)
next
  case CommMAC
  with s show ?thesis
    by (simp add: session_answer_def session_response_def Let_def nth_append status_ok_def)
next
  case CommFull
  let ?iv = "session_iv s 0x5A 0xA5 (counter s + 1)"
  have l: "length (encrypt_with_iv s ?iv data) = (length data div 16 + 1) * 16"
    using s by (simp add: encrypt_with_iv_length length_session_iv)
  then have ne: "encrypt_with_iv s ?iv data \<noteq> []" by auto
  have d: "decrypt_with_iv s ?iv (encrypt_with_iv s ?iv data) = Inr data"
    using s by (simp add: decrypt_encrypt_with_iv length_session_iv)
  show ?thesis
  proof (cases "data = []")
    case True
    with CommFull s show ?thesis
      by (simp add: session_answer_def session_response_def Let_def nth_append status_ok_def)
  next
    case False
    with CommFull s l d ne show ?thesis
      by (simp add: session_answer_def session_response_def Let_def nth_append status_ok_def
          session_decrypt_def)
  qed
next
  case (CommOther x)
  with m show ?thesis by simp
qed

text \<open>A response that is refused leaves the session as it was; one accepted counts once.\<close>

lemma session_response_refused: "session_response s r m = (Inl e, s') \<Longrightarrow> s' = s"
  by (auto simp: session_response_def Let_def split: if_splits sum.splits)

lemma session_response_accepted:
  "session_response s r m = (Inr d, s') \<Longrightarrow> s' = s\<lparr>counter := counter s + 1\<rparr>"
  by (auto simp: session_response_def Let_def split: if_splits sum.splits)

lemma session_response_mac:
  assumes "session_response s r m = (Inr d, s')" "m \<noteq> CommPlain"
  shows "\<exists>body sw1. r = body @ response_mac s 0 body @ [sw1, 0] \<and> (sw1 = 0x90 \<or> sw1 = 0x91)"
proof -
  define n where "n = length r - 2"
  define data where "data = take n r"
  define body where "body = take (length data - 8) data"
  from assms have l: "2 \<le> length r" and st: "status_ok (r ! n) (r ! (n + 1))"
    and mac: "response_mac s (r ! (n + 1)) body = drop (length data - 8) data"
    by (auto simp: session_response_def Let_def n_def data_def body_def
        split: if_splits sum.splits)
  have "r = data @ drop n r" by (simp add: data_def)
  moreover have "drop n r = [r ! n, r ! (n + 1)]"
    using l by (simp add: n_def Cons_nth_drop_Suc [symmetric])
  moreover have "data = body @ drop (length data - 8) data" by (simp add: body_def)
  ultimately have "r = body @ response_mac s 0 body @ [r ! n, 0]"
    using mac st by (metis append.assoc status_ok_def)
  then show ?thesis using st by (auto simp: status_ok_def)
qed

lemma mac_input_inject:
  assumes "length t = 4" "length t' = 4" "mac_input a c t b = mac_input a' c' t' b'"
  shows "a = a' \<and> c = c' \<and> t = t' \<and> b = b'"
proof -
  from assms(3) have "a = a'" "le16 c @ t @ b = le16 c' @ t' @ b'"
    by (simp_all add: mac_input_def)
  then have "le16 c = le16 c'" "t @ b = t' @ b'" by (simp_all add: append_eq_append_conv)
  with assms(1,2) \<open>a = a'\<close> show ?thesis by (simp add: le16_inject append_eq_append_conv)
qed

end
