(* ===== verification/LrpSession.thy ===== *)
theory LrpSession
  imports Ev2Session
begin

text \<open>
  \<open>nfc/ev2/lrp_session.go\<close>: secure messaging on a card in LRP mode. The shape is that of
  \<open>Ev2Session\<close>; the MAC is CMAC over the LRP evaluation and the encryption is LRICB, whose
  32-bit counter is a count of the blocks enciphered so far. \<open>cmdBlocks\<close> holds how many
  of them the command just built or verified used, which the response continues from.
\<close>

record lrp_session =
  lti :: bytes
  lmacKey :: lrp_key
  lencKey :: lrp_key
  lcounter :: uint16
  encCounter :: uint32
  cmdBlocks :: uint32

definition new_lrp_session :: "bytes \<Rightarrow> bytes \<Rightarrow> uint16 \<Rightarrow> uint32 \<Rightarrow> ev2_error + lrp_session" where
  "new_lrp_session t master ctr ectr =
     (if length t \<noteq> 4 then Inl (ETISize (length t))
      else bindE (mapErr ELrp (lrp_new master UpdateMAC)) (\<lambda>mk.
           bindE (mapErr ELrp (lrp_new master UpdateENC)) (\<lambda>ek.
           Inr \<lparr>lti = t, lmacKey = mk, lencKey = ek, lcounter = ctr, encCounter = ectr, cmdBlocks = 0\<rparr>)))"

definition lrp_command_mac :: "lrp_session \<Rightarrow> byte \<Rightarrow> bytes \<Rightarrow> bytes" where
  "lrp_command_mac s ins payload =
     truncate_mac (lrp_cmac (lmacKey s) (mac_input ins (lcounter s) (lti s) payload))"

definition lrp_response_mac :: "lrp_session \<Rightarrow> byte \<Rightarrow> bytes \<Rightarrow> bytes" where
  "lrp_response_mac s status body =
     truncate_mac (lrp_cmac (lmacKey s) (mac_input status (lcounter s + 1) (lti s) body))"

definition lrp_session_decrypt :: "lrp_session \<Rightarrow> bytes \<Rightarrow> uint32 \<Rightarrow> ev2_error + bytes" where
  "lrp_session_decrypt s data ctr =
     (if length data mod 16 \<noteq> 0 then Inl (ENotBlocks (length data))
      else bindE (mapErr ELrp (lrp_decrypt (lencKey s) (be32 ctr) data)) unpad_iso9797)"

definition lrp_session_command ::
    "lrp_session \<Rightarrow> byte \<Rightarrow> bytes \<Rightarrow> bytes \<Rightarrow> comm_mode \<Rightarrow> (ev2_error + bytes) \<times> lrp_session" where
  "lrp_session_command s0 ins header data mode =
     (let s = s0\<lparr>cmdBlocks := 0\<rparr> in
      case mode of
        CommPlain \<Rightarrow> (Inr (wrap_apdu ins (header @ data)), s)
      | CommMAC \<Rightarrow>
          (let payload = header @ data
           in (Inr (wrap_apdu ins (payload @ lrp_command_mac s ins payload)), s))
      | CommFull \<Rightarrow>
          (if 0 < length data
           then let padded = pad_iso9797 data
                in case lrp_encrypt (lencKey s) (be32 (encCounter s)) padded of
                     Inl e \<Rightarrow> (Inl (ELrp e), s)
                   | Inr encrypted \<Rightarrow>
                       (let payload = header @ encrypted
                        in (Inr (wrap_apdu ins (payload @ lrp_command_mac s ins payload)),
                            s\<lparr>cmdBlocks := of_nat (length padded div 16)\<rparr>))
           else (Inr (wrap_apdu ins (header @ lrp_command_mac s ins header)), s))
      | CommOther m \<Rightarrow> (Inl (EUnknownMode m), s))"

definition lrp_session_response ::
    "lrp_session \<Rightarrow> bytes \<Rightarrow> comm_mode \<Rightarrow> (ev2_error + bytes) \<times> lrp_session" where
  "lrp_session_response s response mode =
     (if length response < 2 then (Inl (EShortResponse (length response)), s)
      else let n = length response - 2; data = take n response;
               sw1 = response ! n; sw2 = response ! (n + 1)
           in if \<not> status_ok sw1 sw2 then (Inl (ECardAnswered sw1 sw2), s)
              else if mode = CommPlain then (Inr data, s\<lparr>lcounter := lcounter s + 1\<rparr>)
              else if length data < 8 then (Inl (ETooFewForMAC (length data)), s)
              else let body = take (length data - 8) data; mac = drop (length data - 8) data
                   in if lrp_response_mac s sw2 body \<noteq> mac then (Inl EMACMismatch, s)
                      else if mode = CommFull \<and> 0 < length body
                      then (case lrp_session_decrypt s body (encCounter s + cmdBlocks s) of
                              Inl e \<Rightarrow> (Inl e, s)
                            | Inr plain \<Rightarrow>
                                (Inr plain,
                                 s\<lparr>lcounter := lcounter s + 1,
                                   encCounter := encCounter s + (cmdBlocks s + of_nat (length body div 16)),
                                   cmdBlocks := 0\<rparr>))
                      else (Inr body,
                            s\<lparr>lcounter := lcounter s + 1, encCounter := encCounter s + cmdBlocks s,
                              cmdBlocks := 0\<rparr>))"

definition lrp_session_verify ::
    "lrp_session \<Rightarrow> bytes \<Rightarrow> comm_mode \<Rightarrow> nat \<Rightarrow> (ev2_error + bytes \<times> bytes) \<times> lrp_session" where
  "lrp_session_verify s apdu mode headerLen =
     (case bindE (unwrap_apdu apdu) (\<lambda>(ins, raw).
             if mode = CommPlain then Inr raw
             else if length raw < 8 then Inl (ETooFewForMAC (length raw))
             else let body = take (length raw - 8) raw; mac = drop (length raw - 8) raw
                  in if lrp_command_mac s ins body \<noteq> mac then Inl EMACMismatch else Inr body) of
        Inl e \<Rightarrow> (Inl e, s)
      | Inr payload \<Rightarrow>
          (if length payload < headerLen then (Inl (ETooFewForHeader (length payload) headerLen), s)
           else let header = take headerLen payload; data = drop headerLen payload;
                    s' = s\<lparr>cmdBlocks := 0\<rparr>
                in if mode = CommFull \<and> 0 < length data
                   then (case lrp_session_decrypt s' data (encCounter s') of
                           Inl e \<Rightarrow> (Inl e, s')
                         | Inr plain \<Rightarrow>
                             (Inr (header, plain), s'\<lparr>cmdBlocks := of_nat (length data div 16)\<rparr>))
                   else (Inr (header, data), s')))"

definition lrp_session_answer ::
    "lrp_session \<Rightarrow> byte \<Rightarrow> bytes \<Rightarrow> comm_mode \<Rightarrow> (ev2_error + bytes) \<times> lrp_session" where
  "lrp_session_answer s status data mode =
     (case mode of
        CommPlain \<Rightarrow> (Inr (data @ [0x91, status]), s\<lparr>lcounter := lcounter s + 1\<rparr>)
      | CommOther m \<Rightarrow> (Inl (EUnknownMode m), s)
      | _ \<Rightarrow>
          (if mode = CommFull \<and> 0 < length data
           then let padded = pad_iso9797 data
                in case lrp_encrypt (lencKey s) (be32 (encCounter s + cmdBlocks s)) padded of
                     Inl e \<Rightarrow> (Inl (ELrp e), s)
                   | Inr enc \<Rightarrow>
                       (Inr (enc @ lrp_response_mac s status enc @ [0x91, status]),
                        s\<lparr>lcounter := lcounter s + 1,
                          encCounter := encCounter s + (cmdBlocks s + of_nat (length padded div 16)),
                          cmdBlocks := 0\<rparr>)
           else (Inr (data @ lrp_response_mac s status data @ [0x91, status]),
                 s\<lparr>lcounter := lcounter s + 1, encCounter := encCounter s + cmdBlocks s,
                   cmdBlocks := 0\<rparr>)))"

section \<open>Both halves\<close>

definition lrp_session_ok :: "lrp_session \<Rightarrow> bool" where
  "lrp_session_ok s \<longleftrightarrow> length (lti s) = 4 \<and> lrp_key_ok (lmacKey s) \<and> lrp_key_ok (lencKey s)"

lemma new_lrp_session_ok [wf_intros]:
  "new_lrp_session t m c e = Inr s \<Longrightarrow> lrp_session_ok s \<and> lcounter s = c \<and> encCounter s = e"
  by (auto simp: new_lrp_session_def lrp_session_ok_def bindE_eq_Inr dest: lrp_new_ok split: if_splits)

lemma lrp_session_ok_upd [simp]:
  "lrp_session_ok (s\<lparr>lcounter := c\<rparr>) = lrp_session_ok s"
  "lrp_session_ok (s\<lparr>encCounter := e\<rparr>) = lrp_session_ok s"
  "lrp_session_ok (s\<lparr>cmdBlocks := b\<rparr>) = lrp_session_ok s"
  by (simp_all add: lrp_session_ok_def)

lemma length_lrp_command_mac [simp]: "lrp_session_ok s \<Longrightarrow> length (lrp_command_mac s ins p) = 8"
  by (simp add: lrp_command_mac_def lrp_session_ok_def truncate_mac_length length_lrp_cmac)

lemma length_lrp_response_mac [simp]: "lrp_session_ok s \<Longrightarrow> length (lrp_response_mac s st p) = 8"
  by (simp add: lrp_response_mac_def lrp_session_ok_def truncate_mac_length length_lrp_cmac)

lemma lrp_mac_upd [simp]:
  "lrp_command_mac (s\<lparr>cmdBlocks := b\<rparr>) ins p = lrp_command_mac s ins p"
  "lrp_response_mac (s\<lparr>cmdBlocks := b\<rparr>) ins p = lrp_response_mac s ins p"
  by (simp_all add: lrp_command_mac_def lrp_response_mac_def)

lemma lrp_session_encrypt:
  assumes "lrp_session_ok s"
  obtains c where "lrp_encrypt (lencKey s) (be32 ctr) (pad_iso9797 data) = Inr c"
    "length c = (length data div 16 + 1) * 16" "lrp_session_decrypt s c ctr = Inr data"
    "length (pad_iso9797 data) = length c"
proof -
  have "be32 ctr \<noteq> []" by (simp add: be32_def)
  with assms obtain c where c: "lrp_encrypt (lencKey s) (be32 ctr) (pad_iso9797 data) = Inr c"
    "length c = length (pad_iso9797 data)" "lrp_decrypt (lencKey s) (be32 ctr) c = Inr (pad_iso9797 data)"
    using lrp_encrypt_ok [of "lencKey s" "be32 ctr" "pad_iso9797 data"]
    by (auto simp: lrp_session_ok_def pad_length_dvd)
  show thesis
    by (rule that [OF c(1)]) (use c in \<open>simp_all add: pad_length lrp_session_decrypt_def\<close>)
qed

lemma lrp_session_command_verify:
  assumes s: "lrp_session_ok s" and m: "known_mode mode"
    and fits: "wire_length mode (length header) (length data) < 256"
  shows "\<exists>apdu n. lrp_session_command s ins header data mode = (Inr apdu, s\<lparr>cmdBlocks := n\<rparr>) \<and>
           lrp_session_verify (s\<lparr>cmdBlocks := k\<rparr>) apdu mode (length header) =
             (Inr (header, data), s\<lparr>cmdBlocks := n\<rparr>)"
proof (cases "mode = CommFull \<and> data \<noteq> []")
  case True
  obtain c where c: "lrp_encrypt (lencKey s) (be32 (encCounter s)) (pad_iso9797 data) = Inr c"
    "length c = (length data div 16 + 1) * 16" "lrp_session_decrypt s c (encCounter s) = Inr data"
    "length (pad_iso9797 data) = length c"
    using lrp_session_encrypt [OF s] by blast
  have "lrp_session_decrypt (s\<lparr>cmdBlocks := 0\<rparr>) c (encCounter s) = Inr data"
    using c(3) by (simp add: lrp_session_decrypt_def split: if_splits)
  moreover have "c \<noteq> []" using c(2) by auto
  ultimately show ?thesis
    using True s fits c
    by (simp add: lrp_session_command_def lrp_session_verify_def unwrap_wrap_apdu Let_def) blast
next
  case False
  with s m fits show ?thesis
    by (cases mode)
       (auto simp: lrp_session_command_def lrp_session_verify_def unwrap_wrap_apdu Let_def)
qed

lemma lrp_session_answer_response:
  assumes s: "lrp_session_ok s" and m: "known_mode mode"
  shows "\<exists>resp s'. lrp_session_answer s 0x00 data mode = (Inr resp, s') \<and>
           lrp_session_response s resp mode = (Inr data, s') \<and>
           lrp_session_ok s' \<and> lcounter s' = lcounter s + 1"
proof (cases "mode = CommFull \<and> data \<noteq> []")
  case True
  obtain c where c: "lrp_encrypt (lencKey s) (be32 (encCounter s + cmdBlocks s)) (pad_iso9797 data) = Inr c"
    "length c = (length data div 16 + 1) * 16"
    "lrp_session_decrypt s c (encCounter s + cmdBlocks s) = Inr data"
    "length (pad_iso9797 data) = length c"
    using lrp_session_encrypt [OF s] by blast
  moreover have "c \<noteq> []" using c(2) by auto
  ultimately show ?thesis
    using True s
    by (simp add: lrp_session_answer_def lrp_session_response_def Let_def nth_append status_ok_def)
next
  case False
  with s m show ?thesis
    by (cases mode)
       (auto simp: lrp_session_answer_def lrp_session_response_def Let_def nth_append status_ok_def)
qed

lemma lrp_session_response_refused: "lrp_session_response s r m = (Inl e, s') \<Longrightarrow> s' = s"
  by (auto simp: lrp_session_response_def Let_def split: if_splits sum.splits)

lemma lrp_session_response_counts:
  "lrp_session_response s r m = (Inr d, s') \<Longrightarrow> lcounter s' = lcounter s + 1"
  by (auto simp: lrp_session_response_def Let_def split: if_splits sum.splits)

end
