(* ===== verification/Channel.thy ===== *)
theory Channel
  imports LrpSession
begin

text \<open>
  \<open>nfc/ev2/channel.go\<close>: the interface \<open>Channel\<close> a command builder takes, and its card
  half \<open>CardChannel\<close>. The interface is the locale \<open>secure_channel\<close>: what one side
  sends the other accepts, with the data unchanged and both counters in step. Whole
  conversations are proved from it once and the locale is interpreted on the AES session and
  on the LRP session. The Go interface value is the datatype \<open>channel\<close>, whose methods
  dispatch on the session inside.
\<close>

section \<open>The interface value\<close>

datatype channel = AesChannel session | LrpChannel lrp_session

fun chan_command ::
    "channel \<Rightarrow> byte \<Rightarrow> bytes \<Rightarrow> bytes \<Rightarrow> comm_mode \<Rightarrow> (ev2_error + bytes) \<times> channel" where
  "chan_command (AesChannel s) ins header data mode =
     (session_command s ins header data mode, AesChannel s)"
| "chan_command (LrpChannel s) ins header data mode =
     map_prod id LrpChannel (lrp_session_command s ins header data mode)"

fun chan_response :: "channel \<Rightarrow> bytes \<Rightarrow> comm_mode \<Rightarrow> (ev2_error + bytes) \<times> channel" where
  "chan_response (AesChannel s) resp mode = map_prod id AesChannel (session_response s resp mode)"
| "chan_response (LrpChannel s) resp mode = map_prod id LrpChannel (lrp_session_response s resp mode)"

fun chan_ti :: "channel \<Rightarrow> bytes" where
  "chan_ti (AesChannel s) = ti s"
| "chan_ti (LrpChannel s) = lti s"

fun chan_counter :: "channel \<Rightarrow> uint16" where
  "chan_counter (AesChannel s) = counter s"
| "chan_counter (LrpChannel s) = lcounter s"

fun chan_verify ::
    "channel \<Rightarrow> bytes \<Rightarrow> comm_mode \<Rightarrow> nat \<Rightarrow> (ev2_error + bytes \<times> bytes) \<times> channel" where
  "chan_verify (AesChannel s) apdu mode h = (session_verify s apdu mode h, AesChannel s)"
| "chan_verify (LrpChannel s) apdu mode h = map_prod id LrpChannel (lrp_session_verify s apdu mode h)"

fun chan_answer :: "channel \<Rightarrow> byte \<Rightarrow> bytes \<Rightarrow> comm_mode \<Rightarrow> (ev2_error + bytes) \<times> channel" where
  "chan_answer (AesChannel s) st data mode = map_prod id AesChannel (session_answer s st data mode)"
| "chan_answer (LrpChannel s) st data mode = map_prod id LrpChannel (lrp_session_answer s st data mode)"

section \<open>Conversations\<close>

text \<open>
  One exchange: the reader builds a command, the card verifies it and answers with success,
  the reader checks the answer. The result is what the card received and what the reader got
  back, with both sessions as they end; the first failure stops the conversation.
\<close>

record exchange =
  xins :: byte
  xheader :: bytes
  xdata :: bytes
  xmode :: comm_mode
  xreply :: bytes

definition exchange_fits :: "exchange \<Rightarrow> bool" where
  "exchange_fits x \<longleftrightarrow> known_mode (xmode x) \<and>
     wire_length (xmode x) (length (xheader x)) (length (xdata x)) < 256"

definition exchange_once ::
    "('s \<Rightarrow> byte \<Rightarrow> bytes \<Rightarrow> bytes \<Rightarrow> comm_mode \<Rightarrow> (ev2_error + bytes) \<times> 's) \<Rightarrow>
     ('s \<Rightarrow> bytes \<Rightarrow> comm_mode \<Rightarrow> (ev2_error + bytes) \<times> 's) \<Rightarrow>
     ('s \<Rightarrow> bytes \<Rightarrow> comm_mode \<Rightarrow> nat \<Rightarrow> (ev2_error + bytes \<times> bytes) \<times> 's) \<Rightarrow>
     ('s \<Rightarrow> byte \<Rightarrow> bytes \<Rightarrow> comm_mode \<Rightarrow> (ev2_error + bytes) \<times> 's) \<Rightarrow>
     's \<Rightarrow> 's \<Rightarrow> exchange \<Rightarrow> (ev2_error + (bytes \<times> bytes) \<times> bytes) \<times> 's \<times> 's" where
  "exchange_once cmd rsp ver ans r c x =
     (case cmd r (xins x) (xheader x) (xdata x) (xmode x) of
        (Inl e, r1) \<Rightarrow> (Inl e, r1, c)
      | (Inr apdu, r1) \<Rightarrow>
          (case ver c apdu (xmode x) (length (xheader x)) of
             (Inl e, c1) \<Rightarrow> (Inl e, r1, c1)
           | (Inr got, c1) \<Rightarrow>
               (case ans c1 0x00 (xreply x) (xmode x) of
                  (Inl e, c2) \<Rightarrow> (Inl e, r1, c2)
                | (Inr resp, c2) \<Rightarrow>
                    (case rsp r1 resp (xmode x) of
                       (Inl e, r2) \<Rightarrow> (Inl e, r2, c2)
                     | (Inr reply, r2) \<Rightarrow> (Inr (got, reply), r2, c2)))))"

fun converse ::
    "('s \<Rightarrow> 's \<Rightarrow> exchange \<Rightarrow> (ev2_error + (bytes \<times> bytes) \<times> bytes) \<times> 's \<times> 's) \<Rightarrow>
     's \<Rightarrow> 's \<Rightarrow> exchange list \<Rightarrow> (ev2_error + ((bytes \<times> bytes) \<times> bytes) list) \<times> 's \<times> 's" where
  "converse once r c [] = (Inr [], r, c)"
| "converse once r c (x # xs) =
     (case once r c x of
        (Inl e, r', c') \<Rightarrow> (Inl e, r', c')
      | (Inr y, r', c') \<Rightarrow>
          (case converse once r' c' xs of
             (Inl e, r'', c'') \<Rightarrow> (Inl e, r'', c'')
           | (Inr ys, r'', c'') \<Rightarrow> (Inr (y # ys), r'', c'')))"

locale secure_channel =
  fixes cmd :: "'s \<Rightarrow> byte \<Rightarrow> bytes \<Rightarrow> bytes \<Rightarrow> comm_mode \<Rightarrow> (ev2_error + bytes) \<times> 's"
    and rsp :: "'s \<Rightarrow> bytes \<Rightarrow> comm_mode \<Rightarrow> (ev2_error + bytes) \<times> 's"
    and ver :: "'s \<Rightarrow> bytes \<Rightarrow> comm_mode \<Rightarrow> nat \<Rightarrow> (ev2_error + bytes \<times> bytes) \<times> 's"
    and ans :: "'s \<Rightarrow> byte \<Rightarrow> bytes \<Rightarrow> comm_mode \<Rightarrow> (ev2_error + bytes) \<times> 's"
    and synced :: "'s \<Rightarrow> 's \<Rightarrow> bool"
    and pending :: "'s \<Rightarrow> 's \<Rightarrow> bool"
    and cnt :: "'s \<Rightarrow> uint16"
  assumes command_verify:
      "synced r c \<Longrightarrow> known_mode m \<Longrightarrow> wire_length m (length h) (length d) < 256 \<Longrightarrow>
       \<exists>apdu r' c'. cmd r ins h d m = (Inr apdu, r') \<and> ver c apdu m (length h) = (Inr (h, d), c') \<and>
         pending r' c' \<and> cnt r' = cnt r"
    and answer_response:
      "pending r c \<Longrightarrow> known_mode m \<Longrightarrow>
       \<exists>resp r' c'. ans c 0x00 d m = (Inr resp, c') \<and> rsp r resp m = (Inr d, r') \<and>
         synced r' c' \<and> cnt r' = cnt r + 1"
    and refused_unchanged: "rsp s resp m = (Inl e, s') \<Longrightarrow> s' = s"
    and synced_counter: "synced r c \<Longrightarrow> cnt r = cnt c"
begin

lemma exchange_once_delivers:
  assumes "synced r c" "exchange_fits x"
  shows "\<exists>r' c'. exchange_once cmd rsp ver ans r c x =
           (Inr ((xheader x, xdata x), xreply x), r', c') \<and> synced r' c' \<and> cnt r' = cnt r + 1"
proof -
  from assms(2) have m: "known_mode (xmode x)"
    and f: "wire_length (xmode x) (length (xheader x)) (length (xdata x)) < 256"
    by (simp_all add: exchange_fits_def)
  obtain apdu r1 c1 where 1: "cmd r (xins x) (xheader x) (xdata x) (xmode x) = (Inr apdu, r1)"
    "ver c apdu (xmode x) (length (xheader x)) = (Inr (xheader x, xdata x), c1)"
    "pending r1 c1" "cnt r1 = cnt r"
    using command_verify [OF assms(1) m f] by blast
  obtain resp r2 c2 where 2: "ans c1 0x00 (xreply x) (xmode x) = (Inr resp, c2)"
    "rsp r1 resp (xmode x) = (Inr (xreply x), r2)" "synced r2 c2" "cnt r2 = cnt r1 + 1"
    using answer_response [OF 1(3) m] by blast
  from 1 2 show ?thesis by (simp add: exchange_once_def)
qed

lemma converse_delivers:
  "synced r c \<Longrightarrow> list_all exchange_fits xs \<Longrightarrow>
   \<exists>r' c'. converse (exchange_once cmd rsp ver ans) r c xs =
       (Inr (map (\<lambda>x. ((xheader x, xdata x), xreply x)) xs), r', c') \<and>
     synced r' c' \<and> cnt r' = cnt r + of_nat (length xs) \<and> cnt c' = cnt r'"
proof (induction xs arbitrary: r c)
  case Nil
  then show ?case by (simp add: synced_counter)
next
  case (Cons x xs)
  then obtain r1 c1 where 1: "exchange_once cmd rsp ver ans r c x =
      (Inr ((xheader x, xdata x), xreply x), r1, c1)" "synced r1 c1" "cnt r1 = cnt r + 1"
    using exchange_once_delivers [of r c x] by auto
  obtain r' c' where 2: "converse (exchange_once cmd rsp ver ans) r1 c1 xs =
       (Inr (map (\<lambda>x. ((xheader x, xdata x), xreply x)) xs), r', c')"
     "synced r' c'" "cnt r' = cnt r1 + of_nat (length xs)" "cnt c' = cnt r'"
    using Cons.IH [OF 1(2)] Cons.prems(2) by auto
  from 1 2 show ?case by (simp add: add.assoc)
qed

end

section \<open>The AES session provides it\<close>

definition aes_synced :: "session \<Rightarrow> session \<Rightarrow> bool" where
  "aes_synced r c \<longleftrightarrow> session_ok r \<and> c = r"

definition aes_exchange :: "session \<Rightarrow> session \<Rightarrow> exchange \<Rightarrow>
    (ev2_error + (bytes \<times> bytes) \<times> bytes) \<times> session \<times> session" where
  "aes_exchange = exchange_once (\<lambda>s ins h d m. (session_command s ins h d m, s)) session_response
     (\<lambda>s apdu m h. (session_verify s apdu m h, s)) session_answer"

interpretation aesch: secure_channel
  "\<lambda>s ins h d m. (session_command s ins h d m, s)" session_response
  "\<lambda>s apdu m h. (session_verify s apdu m h, s)" session_answer aes_synced aes_synced counter
proof unfold_locales
  fix r c :: session and m and h d :: bytes and ins
  assume "aes_synced r c" "known_mode m" "wire_length m (length h) (length d) < 256"
  then show "\<exists>apdu r' c'. (session_command r ins h d m, r) = (Inr apdu, r') \<and>
      (session_verify c apdu m (length h), c) = (Inr (h, d), c') \<and> aes_synced r' c' \<and> counter r' = counter r"
    using session_command_verify [of r m h d ins] by (auto simp: aes_synced_def)
next
  fix r c :: session and m and d :: bytes
  assume "aes_synced r c" "known_mode m"
  then show "\<exists>resp r' c'. session_answer c 0x00 d m = (Inr resp, c') \<and>
      session_response r resp m = (Inr d, r') \<and> aes_synced r' c' \<and> counter r' = counter r + 1"
    using session_answer_response [of r m d] by (auto simp: aes_synced_def)
qed (auto simp: aes_synced_def dest: session_response_refused)

section \<open>The LRP session provides it\<close>

definition lrp_synced :: "lrp_session \<Rightarrow> lrp_session \<Rightarrow> bool" where
  "lrp_synced r c \<longleftrightarrow> lrp_session_ok r \<and> (\<exists>n. c = r\<lparr>cmdBlocks := n\<rparr>)"

definition lrp_pending :: "lrp_session \<Rightarrow> lrp_session \<Rightarrow> bool" where
  "lrp_pending r c \<longleftrightarrow> lrp_session_ok r \<and> c = r"

definition lrp_exchange :: "lrp_session \<Rightarrow> lrp_session \<Rightarrow> exchange \<Rightarrow>
    (ev2_error + (bytes \<times> bytes) \<times> bytes) \<times> lrp_session \<times> lrp_session" where
  "lrp_exchange = exchange_once lrp_session_command lrp_session_response
     lrp_session_verify lrp_session_answer"

interpretation lrpch: secure_channel lrp_session_command lrp_session_response
  lrp_session_verify lrp_session_answer lrp_synced lrp_pending lcounter
proof unfold_locales
  fix r c :: lrp_session and m and h d :: bytes and ins
  assume a: "lrp_synced r c" "known_mode m" "wire_length m (length h) (length d) < 256"
  then obtain k where c: "c = r\<lparr>cmdBlocks := k\<rparr>" "lrp_session_ok r" by (auto simp: lrp_synced_def)
  from lrp_session_command_verify [OF c(2) a(2,3), of ins k]
  obtain apdu n where x: "lrp_session_command r ins h d m = (Inr apdu, r\<lparr>cmdBlocks := n\<rparr>)"
    "lrp_session_verify c apdu m (length h) = (Inr (h, d), r\<lparr>cmdBlocks := n\<rparr>)"
    by (auto simp: c)
  with c show "\<exists>apdu r' c'. lrp_session_command r ins h d m = (Inr apdu, r') \<and>
      lrp_session_verify c apdu m (length h) = (Inr (h, d), c') \<and> lrp_pending r' c' \<and>
      lcounter r' = lcounter r"
    by (intro exI [of _ apdu] exI [of _ "r\<lparr>cmdBlocks := n\<rparr>"]) (simp add: lrp_pending_def)
next
  fix r c :: lrp_session and m and d :: bytes
  assume a: "lrp_pending r c" "known_mode m"
  then have c: "c = r" "lrp_session_ok r" by (simp_all add: lrp_pending_def)
  from lrp_session_answer_response [OF c(2) a(2), of d] obtain resp s'
    where x: "lrp_session_answer r 0x00 d m = (Inr resp, s')" "lrp_session_response r resp m = (Inr d, s')"
      "lrp_session_ok s'" "lcounter s' = lcounter r + 1"
    by blast
  moreover have "lrp_synced s' s'"
    using x(3) unfolding lrp_synced_def by (metis lrp_session.surjective lrp_session.update_convs(6))
  ultimately show "\<exists>resp r' c'. lrp_session_answer c 0x00 d m = (Inr resp, c') \<and>
      lrp_session_response r resp m = (Inr d, r') \<and> lrp_synced r' c' \<and> lcounter r' = lcounter r + 1"
    using c by blast
qed (auto simp: lrp_synced_def dest: lrp_session_response_refused)

section \<open>The interface value provides it\<close>

fun chan_synced :: "channel \<Rightarrow> channel \<Rightarrow> bool" where
  "chan_synced (AesChannel r) (AesChannel c) = aes_synced r c"
| "chan_synced (LrpChannel r) (LrpChannel c) = lrp_synced r c"
| "chan_synced _ _ = False"

fun chan_pending :: "channel \<Rightarrow> channel \<Rightarrow> bool" where
  "chan_pending (AesChannel r) (AesChannel c) = aes_synced r c"
| "chan_pending (LrpChannel r) (LrpChannel c) = lrp_pending r c"
| "chan_pending _ _ = False"

lemma chan_command_verify:
  assumes "chan_synced r c" "known_mode m" "wire_length m (length h) (length d) < 256"
  shows "\<exists>apdu r' c'. chan_command r ins h d m = (Inr apdu, r') \<and>
    chan_verify c apdu m (length h) = (Inr (h, d), c') \<and> chan_pending r' c' \<and>
    chan_counter r' = chan_counter r"
proof (cases "(r, c)" rule: chan_synced.cases)
  case (1 a b)
  with assms aesch.command_verify [of a b m h d ins] show ?thesis by auto
next
  case (2 a b)
  with assms(1) have "lrp_synced a b" by simp
  from lrpch.command_verify [OF this assms(2,3), of ins] obtain apdu r' c' where
    "lrp_session_command a ins h d m = (Inr apdu, r')" "lrp_session_verify b apdu m (length h) = (Inr (h, d), c')"
    "lrp_pending r' c'" "lcounter r' = lcounter a" by blast
  with 2 show ?thesis
    by (intro exI [of _ apdu] exI [of _ "LrpChannel r'"] exI [of _ "LrpChannel c'"]) simp
qed (use assms(1) in auto)

lemma chan_answer_response:
  assumes "chan_pending r c" "known_mode m"
  shows "\<exists>resp r' c'. chan_answer c 0x00 d m = (Inr resp, c') \<and> chan_response r resp m = (Inr d, r') \<and>
    chan_synced r' c' \<and> chan_counter r' = chan_counter r + 1"
proof (cases "(r, c)" rule: chan_synced.cases)
  case (1 a b)
  with assms(1) have "aes_synced a b" by simp
  from aesch.answer_response [OF this assms(2), of d] obtain resp r' c' where
    "session_answer b 0x00 d m = (Inr resp, c')" "session_response a resp m = (Inr d, r')"
    "aes_synced r' c'" "counter r' = counter a + 1" by blast
  with 1 show ?thesis
    by (intro exI [of _ resp] exI [of _ "AesChannel r'"] exI [of _ "AesChannel c'"]) simp
next
  case (2 a b)
  with assms(1) have "lrp_pending a b" by simp
  from lrpch.answer_response [OF this assms(2), of d] obtain resp r' c' where
    "lrp_session_answer b 0x00 d m = (Inr resp, c')" "lrp_session_response a resp m = (Inr d, r')"
    "lrp_synced r' c'" "lcounter r' = lcounter a + 1" by blast
  with 2 show ?thesis
    by (intro exI [of _ resp] exI [of _ "LrpChannel r'"] exI [of _ "LrpChannel c'"]) simp
qed (use assms(1) in auto)

lemma chan_refused: "chan_response s resp m = (Inl e, s') \<Longrightarrow> s' = s"
  by (cases s) (auto dest: session_response_refused lrp_session_response_refused
      simp: map_prod_def split: prod.splits)

lemma chan_synced_counter: "chan_synced r c \<Longrightarrow> chan_counter r = chan_counter c"
  by (cases "(r, c)" rule: chan_synced.cases) (auto simp: aes_synced_def lrp_synced_def)

interpretation chanch: secure_channel chan_command chan_response chan_verify chan_answer
  chan_synced chan_pending chan_counter
  by unfold_locales (fact chan_command_verify chan_answer_response chan_refused chan_synced_counter)+

end
