(* ===== verification/Ev2Auth.thy ===== *)
theory Ev2Auth
  imports Channel
begin

text \<open>
  \<open>nfc/ev2/auth.go\<close>, \<open>nfc/ev2/lrp_auth.go\<close> and \<open>DeriveSessionKeys\<close> of
  \<open>nfc/ev2/responder.go\<close>: the authentication exchange of both cipher suites, the reader's
  half as the state machine the code keeps in \<open>stage\<close> (0 before the challenge, 1 before the
  card's proof, 2 done) and the card's half of the LRP exchange, \<open>LRPAnswer\<close>.
  A step out of order is \<open>EAuthState\<close>. The source of random numbers is the bytes it will
  still deliver; \<open>io.ReadFull\<close> on it fails when fewer than sixteen are left.
\<close>

datatype auth_mode = AuthFirst | AuthNonFirst | AuthOther int

section \<open>Random numbers and session vectors\<close>

definition rotate_left :: "bytes \<Rightarrow> bytes" where
  "rotate_left b = tl b @ [hd b]"

definition rotate_right :: "bytes \<Rightarrow> bytes" where
  "rotate_right b = last b # butlast b"

definition session_vector_ssm :: "bytes \<Rightarrow> bytes \<Rightarrow> bytes \<Rightarrow> bytes" where
  "session_vector_ssm prefix rndA rndB =
     prefix @ slice 0 2 rndA @ map (\<lambda>i. rndA ! (2 + i) XOR rndB ! i) [0..<6]
     @ slice 6 16 rndB @ slice 8 16 rndA"

definition ssm_sv1_prefix :: bytes where
  "ssm_sv1_prefix = [0xA5, 0x5A, 0x00, 0x01, 0x00, 0x80]"

definition ssm_sv2_prefix :: bytes where
  "ssm_sv2_prefix = [0x5A, 0xA5, 0x00, 0x01, 0x00, 0x80]"

definition encrypt_cbc :: "bytes \<Rightarrow> bytes \<Rightarrow> bytes" where
  "encrypt_cbc block src = cbc_encrypt (aes_encrypt block) (replicate 16 0) src"

definition decrypt_cbc :: "bytes \<Rightarrow> bytes \<Rightarrow> bytes" where
  "decrypt_cbc block src = cbc_decrypt (aes_decrypt block) (replicate 16 0) src"

fun key_err :: "key_error \<Rightarrow> ev2_error" where
  "key_err (ErrKeySize n) = EKeySize n"

definition derive_session_keys :: "bytes \<Rightarrow> bytes \<Rightarrow> bytes \<Rightarrow> ev2_error + bytes \<times> bytes" where
  "derive_session_keys key rndA rndB =
     bindE (mapErr key_err (new_cipher key)) (\<lambda>block.
     if length rndA \<noteq> 16 \<or> length rndB \<noteq> 16 then Inl (ERandomSizes (length rndA) (length rndB))
     else Inr (cmac (aes_encrypt block) (session_vector_ssm ssm_sv1_prefix rndA rndB),
               cmac (aes_encrypt block) (session_vector_ssm ssm_sv2_prefix rndA rndB)))"

text \<open>\<open>io.ReadFull\<close> into sixteen bytes: what was read, the rest, and whether it sufficed.\<close>

definition read_random :: "bytes \<Rightarrow> bytes \<times> bytes \<times> bool" where
  "read_random r = (copy16 r, drop 16 r, 16 \<le> length r)"

section \<open>The AES exchange, reader's half\<close>

record authenticator =
  amode :: auth_mode
  akeyNo :: byte
  ablock :: bytes
  arandom :: bytes
  ati :: bytes
  acounter :: uint16
  arndA :: bytes
  arndB :: bytes
  astage :: nat

definition new_authenticator ::
    "bytes \<Rightarrow> auth_mode \<Rightarrow> byte \<Rightarrow> bytes \<Rightarrow> bytes \<Rightarrow> ev2_error + authenticator" where
  "new_authenticator random mode keyNo key t =
     bindE (mapErr key_err (new_cipher key)) (\<lambda>block.
     if mode = AuthNonFirst \<and> length t \<noteq> 4 then Inl ENeedTI
     else Inr \<lparr>amode = mode, akeyNo = keyNo, ablock = block, arandom = random, ati = t,
               acounter = 0, arndA = [], arndB = [], astage = 0\<rparr>)"

definition auth_set_counter :: "authenticator \<Rightarrow> uint16 \<Rightarrow> authenticator" where
  "auth_set_counter a c = a\<lparr>acounter := c\<rparr>"

definition auth_command :: "authenticator \<Rightarrow> bytes" where
  "auth_command a =
     (if amode a = AuthNonFirst then wrap_apdu 0x77 [akeyNo a] else wrap_apdu 0x71 [akeyNo a, 0x00])"

definition auth_challenge :: "authenticator \<Rightarrow> bytes \<Rightarrow> (ev2_error + bytes) \<times> authenticator" where
  "auth_challenge a response =
     (if astage a \<noteq> 0 then (Inl EAuthState, a)
      else case frame_data response 16 of
        Inl e \<Rightarrow> (Inl e, a)
      | Inr data \<Rightarrow>
          (let a1 = a\<lparr>arndB := decrypt_cbc (ablock a) data\<rparr>;
               (rnd, rest, ok) = read_random (arandom a);
               a2 = a1\<lparr>arndA := rnd, arandom := rest\<rparr>
           in if \<not> ok then (Inl ERandom, a2)
              else let payload = arndA a2 @ rotate_left (arndB a2)
                   in (Inr (wrap_apdu 0xAF (encrypt_cbc (ablock a) payload)), a2\<lparr>astage := 1\<rparr>)))"

definition auth_finish :: "authenticator \<Rightarrow> bytes \<Rightarrow> (ev2_error + session) \<times> authenticator" where
  "auth_finish a response =
     (if astage a \<noteq> 1 then (Inl EAuthState, a)
      else let size = (if amode a = AuthFirst then 4 + 16 + 12 else 16)
           in case frame_data response size of
             Inl e \<Rightarrow> (Inl e, a)
           | Inr data \<Rightarrow>
               (let plain = decrypt_cbc (ablock a) data;
                    t = (if amode a = AuthFirst then take 4 plain else ati a);
                    rotated = (if amode a = AuthFirst then slice 4 20 plain else plain)
                in if rotate_right rotated \<noteq> arndA a then (Inl EAuthFailed, a)
                   else let a' = a\<lparr>astage := 2\<rparr>;
                            enc = cmac (aes_encrypt (ablock a))
                                    (session_vector_ssm ssm_sv1_prefix (arndA a) (arndB a));
                            mac = cmac (aes_encrypt (ablock a))
                                    (session_vector_ssm ssm_sv2_prefix (arndA a) (arndB a))
                        in if amode a = AuthNonFirst
                           then (new_session_at t enc mac (acounter a), a')
                           else (new_session t enc mac, a')))"

section \<open>The LRP exchange\<close>

definition lrp_pcd_cap2 :: bytes where
  "lrp_pcd_cap2 = [0x02, 0, 0, 0, 0, 0]"

definition derive_lrp_session_key :: "bytes \<Rightarrow> bytes \<Rightarrow> bytes \<Rightarrow> ev2_error + bytes" where
  "derive_lrp_session_key key rndA rndB =
     bindE (mapErr ELrp (lrp_new key UpdateMAC)) (\<lambda>k.
     if length rndA \<noteq> 16 \<or> length rndB \<noteq> 16 then Inl (ERandomSizes (length rndA) (length rndB))
     else Inr (lrp_cmac k
       ([0x00, 0x01, 0x00, 0x80] @ slice 0 2 rndA @ map (\<lambda>i. rndA ! (2 + i) XOR rndB ! i) [0..<6]
        @ slice 6 16 rndB @ slice 8 16 rndA @ [0x96, 0x69])))"

definition lrp_picc_proof :: "bytes \<Rightarrow> bytes \<Rightarrow> bytes \<Rightarrow> bytes" where
  "lrp_picc_proof rndB rndA picc = rndB @ rndA @ picc"

record lrp_authenticator =
  lamode :: auth_mode
  lakeyNo :: byte
  lakey :: bytes
  larandom :: bytes
  lati :: bytes
  lacounter :: uint16
  larndA :: bytes
  larndB :: bytes
  lasession :: "lrp_session option"
  lastage :: nat

definition new_lrp_authenticator ::
    "bytes \<Rightarrow> auth_mode \<Rightarrow> byte \<Rightarrow> bytes \<Rightarrow> bytes \<Rightarrow> ev2_error + lrp_authenticator" where
  "new_lrp_authenticator random mode keyNo key t =
     (if length key \<noteq> 16 then Inl (EKeySize (length key))
      else if mode = AuthNonFirst \<and> length t \<noteq> 4 then Inl ENeedTI
      else Inr \<lparr>lamode = mode, lakeyNo = keyNo, lakey = key, larandom = random, lati = t,
                lacounter = 0, larndA = [], larndB = [], lasession = None, lastage = 0\<rparr>)"

definition lrp_auth_set_counter :: "lrp_authenticator \<Rightarrow> uint16 \<Rightarrow> lrp_authenticator" where
  "lrp_auth_set_counter a c = a\<lparr>lacounter := c\<rparr>"

definition lrp_auth_command :: "lrp_authenticator \<Rightarrow> bytes" where
  "lrp_auth_command a =
     wrap_apdu (if lamode a = AuthNonFirst then 0x77 else 0x71) ([lakeyNo a, 0x06] @ lrp_pcd_cap2)"

definition lrp_auth_challenge ::
    "lrp_authenticator \<Rightarrow> bytes \<Rightarrow> (ev2_error + bytes) \<times> lrp_authenticator" where
  "lrp_auth_challenge a response =
     (if lastage a \<noteq> 0 then (Inl EAuthState, a)
      else case frame_data response 17 of
        Inl e \<Rightarrow> (Inl e, a)
      | Inr data \<Rightarrow>
          if data ! 0 \<noteq> 0x01 then (Inl (EAuthMode (data ! 0)), a)
          else let (rnd, rest, ok) = read_random (larandom a);
                   a1 = a\<lparr>larndB := drop 1 data, larndA := rnd, larandom := rest\<rparr>
               in if \<not> ok then (Inl ERandom, a1)
                  else case derive_lrp_session_key (lakey a) rnd (larndB a1) of
                    Inl e \<Rightarrow> (Inl e, a1)
                  | Inr master \<Rightarrow>
                      (case lrp_new master UpdateMAC of
                         Inl e \<Rightarrow> (Inl (ELrp e), a1)
                       | Inr mk \<Rightarrow>
                           (case (if lamode a = AuthNonFirst
                                  then new_lrp_session (lati a) master (lacounter a) 0
                                  else new_lrp_session (replicate 4 0) master 0 1) of
                              Inl e \<Rightarrow> (Inl e, a1\<lparr>lasession := None\<rparr>)
                            | Inr s \<Rightarrow>
                                (Inr (wrap_apdu 0xAF (rnd @ lrp_cmac mk (rnd @ larndB a1))),
                                 a1\<lparr>lasession := Some s, lastage := 1\<rparr>))))"

text \<open>\<open>Finish\<close> reads \<open>a.session\<close>, which stage 1 implies is set; without it the Go code
  dereferences nil, which the model answers with the wrong-stage error it never reaches.\<close>

definition lrp_auth_finish ::
    "lrp_authenticator \<Rightarrow> bytes \<Rightarrow> (ev2_error + lrp_session) \<times> lrp_authenticator" where
  "lrp_auth_finish a response =
     (if lastage a \<noteq> 1 then (Inl EAuthState, a)
      else let size = (if lamode a = AuthFirst then 16 + 16 else 16)
           in case frame_data response size of
             Inl e \<Rightarrow> (Inl e, a)
           | Inr data \<Rightarrow>
               (case lasession a of
                  None \<Rightarrow> (Inl EAuthState, a)
                | Some s \<Rightarrow>
                    if lamode a = AuthNonFirst
                    then (if lrp_cmac (lmacKey s) (lrp_picc_proof (larndB a) (larndA a) []) \<noteq> data
                          then (Inl EAuthFailed, a) else (Inr s, a\<lparr>lastage := 2\<rparr>))
                    else let enc = take 16 data; mac = drop 16 data
                         in if lrp_cmac (lmacKey s) (lrp_picc_proof (larndB a) (larndA a) enc) \<noteq> mac
                            then (Inl EAuthFailed, a)
                            else case lrp_decrypt (lencKey s) (be32 0) enc of
                              Inl e \<Rightarrow> (Inl (ELrp e), a)
                            | Inr plain \<Rightarrow>
                                if drop 10 plain \<noteq> lrp_pcd_cap2 then (Inl EAuthFailed, a)
                                else let s' = s\<lparr>lti := take 4 plain\<rparr>
                                     in (Inr s', a\<lparr>lasession := Some s', lastage := 2\<rparr>)))"

definition lrp_answer ::
    "bool \<Rightarrow> bytes \<Rightarrow> bytes \<Rightarrow> bytes \<Rightarrow> bytes \<Rightarrow> uint16 \<Rightarrow> ev2_error + bytes \<times> lrp_session" where
  "lrp_answer first key rndB payload t ctr =
     (if length payload \<noteq> 32 \<or> length rndB \<noteq> 16 then Inl (EAuthMessage (length payload))
      else let rndA = take 16 payload; proof = drop 16 payload
           in bindE (derive_lrp_session_key key rndA rndB) (\<lambda>master.
              bindE (mapErr ELrp (lrp_new master UpdateMAC)) (\<lambda>mk.
              if lrp_cmac mk (rndA @ rndB) \<noteq> proof then Inl EAuthFailed
              else if \<not> first
              then bindE (new_lrp_session t master ctr 0) (\<lambda>s.
                   Inr (lrp_cmac (lmacKey s) (lrp_picc_proof rndB rndA []), s))
              else bindE (new_lrp_session t master 0 1) (\<lambda>s.
                   bindE (mapErr ELrp (lrp_encrypt (lencKey s) (be32 0) (t @ lrp_pcd_cap2 @ lrp_pcd_cap2))) (\<lambda>enc.
                   Inr (enc @ lrp_cmac (lmacKey s) (lrp_picc_proof rndB rndA enc), s))))))"

section \<open>Facts\<close>

lemma rotate_right_left [simp]: "b \<noteq> [] \<Longrightarrow> rotate_right (rotate_left b) = b"
  by (simp add: rotate_right_def rotate_left_def)

lemma rotate_left_right: "b \<noteq> [] \<Longrightarrow> rotate_left (rotate_right b) = b"
  by (simp add: rotate_right_def rotate_left_def)

lemma length_rotate_left [simp]: "b \<noteq> [] \<Longrightarrow> length (rotate_left b) = length b"
  by (simp add: rotate_left_def)

lemma length_session_vector_ssm:
  "length a = 16 \<Longrightarrow> length b = 16 \<Longrightarrow> length (session_vector_ssm p a b) = length p + 26"
  by (simp add: session_vector_ssm_def)

lemma decrypt_encrypt_cbc:
  "aes_valid_key k \<Longrightarrow> 16 dvd length d \<Longrightarrow> decrypt_cbc k (encrypt_cbc k d) = d"
  by (simp add: decrypt_cbc_def encrypt_cbc_def aesc.cbc_roundtrip)

lemma length_encrypt_cbc:
  "aes_valid_key k \<Longrightarrow> 16 dvd length d \<Longrightarrow> length (encrypt_cbc k d) = length d"
  by (simp add: encrypt_cbc_def aesc.cbc_length)

lemma frame_data_ok: "length d = n \<Longrightarrow> frame_data (d @ [0x91, 0x00]) n = Inr d"
  by (simp add: frame_data_def status_ok_def nth_append Let_def)

lemma frame_data_more: "length d = n \<Longrightarrow> frame_data (d @ [0x91, 0xAF]) n = Inr d"
  by (simp add: frame_data_def status_more_frames_def nth_append Let_def)

lemma derive_session_keys_ok:
  assumes "derive_session_keys key a b = Inr (e, m)"
  shows "length e = 16 \<and> length m = 16 \<and> length key = 16"
proof -
  from assms have "aes_valid_key key" "length key = 16"
    by (auto simp: derive_session_keys_def bindE_eq_Inr dest: new_cipher_valid)
  moreover from assms have "e = cmac (aes_encrypt key) (session_vector_ssm ssm_sv1_prefix a b)"
    "m = cmac (aes_encrypt key) (session_vector_ssm ssm_sv2_prefix a b)"
    by (auto simp: derive_session_keys_def bindE_eq_Inr new_cipher_def split: if_splits)
  ultimately show ?thesis by (simp add: aesc.cmac_length)
qed

lemma derive_lrp_session_key_ok:
  assumes "length key = 16" "length a = 16" "length b = 16"
  obtains master where "derive_lrp_session_key key a b = Inr master" "length master = 16"
proof -
  obtain k where "lrp_new key UpdateMAC = Inr k" "lrp_key_ok k"
    using lrp_new_total [OF assms(1), of UpdateMAC] by (auto simp: UpdateMAC_def)
  with assms that show thesis by (simp add: derive_lrp_session_key_def length_lrp_cmac)
qed

lemma new_lrp_session_total:
  assumes "length t = 4" "length master = 16"
  obtains s where "new_lrp_session t master c e = Inr s" "lrp_session_ok s" "lti s = t"
    "lcounter s = c" "encCounter s = e" "cmdBlocks s = 0" "lrp_new master UpdateMAC = Inr (lmacKey s)"
    "lrp_new master UpdateENC = Inr (lencKey s)"
proof -
  obtain m where m: "lrp_new master UpdateMAC = Inr m"
    using lrp_new_total [OF assms(2), of UpdateMAC] by (auto simp: UpdateMAC_def)
  obtain k where k: "lrp_new master UpdateENC = Inr k"
    using lrp_new_total [OF assms(2), of UpdateENC] by (auto simp: UpdateENC_def)
  from m k assms(1) have
    "new_lrp_session t master c e =
       Inr \<lparr>lti = t, lmacKey = m, lencKey = k, lcounter = c, encCounter = e, cmdBlocks = 0\<rparr>"
    by (simp add: new_lrp_session_def)
  then show thesis
    by (rule that) (use assms m k in \<open>auto simp: lrp_session_ok_def dest: lrp_new_ok\<close>)
qed

section \<open>The LRP exchange comes out the same on both sides\<close>

text \<open>
  \<open>lrp_round\<close> is the second round trip of the exchange: the reader's authenticator takes the
  card's random number, the card verifies the reader's message and answers, the reader
  finishes. The first step that fails is the result.
\<close>

definition lrp_round ::
    "lrp_authenticator \<Rightarrow> bool \<Rightarrow> bytes \<Rightarrow> bytes \<Rightarrow> bytes \<Rightarrow> uint16 \<Rightarrow> ev2_error + lrp_session \<times> lrp_session" where
  "lrp_round a first cardKey rndB cardTI cardCtr =
     (case lrp_auth_challenge a (0x01 # rndB @ [0x91, 0xAF]) of
        (Inl e, _) \<Rightarrow> Inl e
      | (Inr apdu, a1) \<Rightarrow>
          bindE (unwrap_apdu apdu) (\<lambda>(ins, payload).
          bindE (lrp_answer first cardKey rndB payload cardTI cardCtr) (\<lambda>(reply, c).
          bindE (fst (lrp_auth_finish a1 (reply @ [0x91, 0x00]))) (\<lambda>r. Inr (r, c)))))"

lemma frame_data_lrp: "length b = 16 \<Longrightarrow> frame_data (0x01 # b @ [0x91, 0xAF]) 17 = Inr (0x01 # b)"
  using frame_data_more [of "0x01 # b" 17] by simp

lemma lrp_challenge_ok:
  assumes "new_lrp_authenticator random mode keyNo key t = Inr a0" "a = lrp_auth_set_counter a0 ctr"
    and "16 \<le> length random" "length b = 16"
  obtains master s where
    "lrp_auth_challenge a (0x01 # b @ [0x91, 0xAF]) =
       (Inr (wrap_apdu 0xAF (take 16 random @ lrp_cmac (lmacKey s) (take 16 random @ b))),
        a\<lparr>larndB := b, larndA := take 16 random, larandom := drop 16 random,
          lasession := Some s, lastage := 1\<rparr>)"
    "derive_lrp_session_key key (take 16 random) b = Inr master" "length master = 16"
    "lrp_session_ok s"
    "(if mode = AuthNonFirst then new_lrp_session t master ctr 0
      else new_lrp_session (replicate 4 0) master 0 1) = Inr s"
    "lrp_new master UpdateMAC = Inr (lmacKey s)"
proof -
  from assms(1) have k: "length key = 16" and t: "mode = AuthNonFirst \<Longrightarrow> length t = 4"
    and a0: "a0 = \<lparr>lamode = mode, lakeyNo = keyNo, lakey = key, larandom = random, lati = t,
                lacounter = 0, larndA = [], larndB = [], lasession = None, lastage = 0\<rparr>"
    by (auto simp: new_lrp_authenticator_def split: if_splits)
  have r: "read_random random = (take 16 random, drop 16 random, True)"
    using assms(3) by (simp add: read_random_def copy16_def)
  obtain master where m: "derive_lrp_session_key key (take 16 random) b = Inr master" "length master = 16"
    using derive_lrp_session_key_ok [of key "take 16 random" b] k assms(3,4) by auto
  obtain s where s: "(if mode = AuthNonFirst then new_lrp_session t master ctr 0
      else new_lrp_session (replicate 4 0) master 0 1) = Inr s" "lrp_session_ok s"
      "lrp_new master UpdateMAC = Inr (lmacKey s)"
  proof (cases "mode = AuthNonFirst")
    case True
    with t m(2) that show thesis by (metis new_lrp_session_total)
  next
    case False
    with m(2) that show thesis by (metis length_replicate new_lrp_session_total)
  qed
  show thesis
    by (rule that [OF _ m s(2,1,3)])
       (use s(1) in \<open>cases "mode = AuthNonFirst"; simp add: lrp_auth_challenge_def assms(2)
          lrp_auth_set_counter_def a0 r m(1) s(3) frame_data_lrp [OF assms(4)] Let_def\<close>)
qed

lemma lrp_round_nonfirst:
  assumes "new_lrp_authenticator random AuthNonFirst keyNo key t = Inr a" "16 \<le> length random" "length b = 16"
  shows "\<exists>s. lrp_round (lrp_auth_set_counter a ctr) False key b t ctr = Inr (s, s) \<and>
           lrp_session_ok s \<and> lti s = t \<and> lcounter s = ctr"
proof -
  obtain master s where 1: "lrp_auth_challenge (lrp_auth_set_counter a ctr) (0x01 # b @ [0x91, 0xAF]) =
       (Inr (wrap_apdu 0xAF (take 16 random @ lrp_cmac (lmacKey s) (take 16 random @ b))),
        (lrp_auth_set_counter a ctr)\<lparr>larndB := b, larndA := take 16 random, larandom := drop 16 random,
          lasession := Some s, lastage := 1\<rparr>)"
    "derive_lrp_session_key key (take 16 random) b = Inr master" "length master = 16"
    "lrp_session_ok s" "new_lrp_session t master ctr 0 = Inr s" "lrp_new master UpdateMAC = Inr (lmacKey s)"
    by (rule lrp_challenge_ok [OF assms(1) refl assms(2,3), of ctr]) (rule that; simp)
  from 1(4) have lm: "length (lrp_cmac (lmacKey s) x) = 16" for x
    by (simp add: lrp_session_ok_def length_lrp_cmac)
  from assms(1) have am: "lamode a = AuthNonFirst"
    by (auto simp: new_lrp_authenticator_def split: if_splits)
  have "lti s = t \<and> lcounter s = ctr"
    using 1(5) by (auto simp: new_lrp_session_def bindE_eq_Inr split: if_splits)
  then show ?thesis
    using 1 assms(2,3) am
    by (simp add: lrp_round_def unwrap_wrap_apdu lm lrp_answer_def lrp_auth_finish_def frame_data_ok
        lrp_auth_set_counter_def)
qed

lemma new_lrp_session_ti:
  "new_lrp_session (replicate 4 0) master c e = Inr s \<Longrightarrow> length t = 4 \<Longrightarrow>
   new_lrp_session t master c e = Inr (s\<lparr>lti := t\<rparr>)"
  by (auto simp: new_lrp_session_def bindE_eq_Inr split: if_splits)

lemma lrp_round_first:
  assumes "new_lrp_authenticator random AuthFirst keyNo key t0 = Inr a" "16 \<le> length random"
    "length b = 16" "length t = 4"
  shows "\<exists>s. lrp_round (lrp_auth_set_counter a ctr) True key b t cc = Inr (s, s) \<and>
           lrp_session_ok s \<and> lti s = t \<and> lcounter s = 0 \<and> encCounter s = 1"
proof -
  obtain master s where 1: "lrp_auth_challenge (lrp_auth_set_counter a ctr) (0x01 # b @ [0x91, 0xAF]) =
       (Inr (wrap_apdu 0xAF (take 16 random @ lrp_cmac (lmacKey s) (take 16 random @ b))),
        (lrp_auth_set_counter a ctr)\<lparr>larndB := b, larndA := take 16 random, larandom := drop 16 random,
          lasession := Some s, lastage := 1\<rparr>)"
    "derive_lrp_session_key key (take 16 random) b = Inr master" "length master = 16"
    "lrp_session_ok s" "new_lrp_session (replicate 4 0) master 0 1 = Inr s"
    "lrp_new master UpdateMAC = Inr (lmacKey s)"
    by (rule lrp_challenge_ok [OF assms(1) refl assms(2,3), of ctr]) (rule that; simp)
  from 1(4) have lm: "length (lrp_cmac (lmacKey s) x) = 16" for x
    by (simp add: lrp_session_ok_def length_lrp_cmac)
  from assms(1) have am: "lamode a = AuthFirst"
    by (auto simp: new_lrp_authenticator_def split: if_splits)
  have n: "new_lrp_session t master 0 1 = Inr (s\<lparr>lti := t\<rparr>)"
    using 1(5) assms(4) by (rule new_lrp_session_ti)
  have c: "lcounter s = 0 \<and> encCounter s = 1"
    using 1(5) by (auto dest: new_lrp_session_ok)
  have "lrp_key_ok (lencKey s)" using 1(4) by (simp add: lrp_session_ok_def)
  moreover have "be32 0 \<noteq> []" by (simp add: be32_def)
  moreover have cap: "length (t @ lrp_pcd_cap2 @ lrp_pcd_cap2) = 16"
    using assms(4) by (simp add: lrp_pcd_cap2_def)
  ultimately obtain x where x: "lrp_encrypt (lencKey s) (be32 0) (t @ lrp_pcd_cap2 @ lrp_pcd_cap2) = Inr x"
    "length x = 16" "lrp_decrypt (lencKey s) (be32 0) x = Inr (t @ lrp_pcd_cap2 @ lrp_pcd_cap2)"
    by (metis dvd_refl lrp_encrypt_ok)
  have d: "drop 10 (t @ lrp_pcd_cap2 @ lrp_pcd_cap2) = lrp_pcd_cap2"
    using assms(4) by (simp add: lrp_pcd_cap2_def)
  have f: "frame_data (x @ lrp_cmac (lmacKey s) p @ [0x91, 0x00]) 32 = Inr (x @ lrp_cmac (lmacKey s) p)" for p
    using frame_data_ok [of "x @ lrp_cmac (lmacKey s) p" 32] x(2) lm by simp
  have "lrp_round (lrp_auth_set_counter a ctr) True key b t cc = Inr (s\<lparr>lti := t\<rparr>, s\<lparr>lti := t\<rparr>)"
    using 1 assms(2,3,4) am n x f d
    by (simp add: lrp_round_def unwrap_wrap_apdu lm lrp_answer_def lrp_auth_finish_def
        lrp_auth_set_counter_def Let_def)
  with 1(4) c assms(4) show ?thesis by (simp add: lrp_session_ok_def)
qed

section \<open>The AES exchange accepts only the proof\<close>

text \<open>
  What the reader's \<open>Finish\<close> accepts: at stage 1, a frame that deciphers to its own
  random number rotated; the session it returns has the keys both numbers derive.
\<close>

lemma auth_finish_proof:
  assumes "auth_finish a resp = (Inr s, a')"
  shows "astage a = 1 \<and> astage a' = 2 \<and> session_ok s \<and>
    (\<exists>data. frame_data resp (if amode a = AuthFirst then 32 else 16) = Inr data \<and>
      rotate_right (if amode a = AuthFirst then slice 4 20 (decrypt_cbc (ablock a) data)
                    else decrypt_cbc (ablock a) data) = arndA a) \<and>
    encBlock s = cmac (aes_encrypt (ablock a)) (session_vector_ssm ssm_sv1_prefix (arndA a) (arndB a)) \<and>
    macBlock s = cmac (aes_encrypt (ablock a)) (session_vector_ssm ssm_sv2_prefix (arndA a) (arndB a)) \<and>
    counter s = (if amode a = AuthNonFirst then acounter a else 0)"
  using assms
  by (auto simp: auth_finish_def Let_def new_session_def new_session_at_def session_ok_def
      split: if_splits sum.splits)

lemma auth_challenge_stage:
  "auth_challenge a resp = (Inr apdu, a') \<Longrightarrow> astage a = 0 \<and> astage a' = 1"
  by (auto simp: auth_challenge_def Let_def read_random_def split: if_splits sum.splits)

lemma auth_challenge_failed:
  "auth_challenge a resp = (Inl e, a') \<Longrightarrow> astage a' = astage a"
  by (auto simp: auth_challenge_def Let_def read_random_def split: if_splits sum.splits)

lemma auth_finish_failed:
  "auth_finish a resp = (Inl e, a') \<Longrightarrow> astage a' \<noteq> astage a \<Longrightarrow> astage a' = 2"
  by (auto simp: auth_finish_def Let_def split: if_splits sum.splits)

lemma auth_challenge_ok:
  assumes "new_authenticator random mode keyNo key t = Inr a0" "a = auth_set_counter a0 ctr"
    and "16 \<le> length random" "length b = 16"
  shows "auth_challenge a (encrypt_cbc key b @ [0x91, 0xAF]) =
       (Inr (wrap_apdu 0xAF (encrypt_cbc key (take 16 random @ rotate_left b))),
        a\<lparr>arndB := b, arndA := take 16 random, arandom := drop 16 random, astage := 1\<rparr>) \<and>
     length key = 16 \<and> aes_valid_key key \<and> amode a = mode \<and> ati a = t \<and> acounter a = ctr \<and>
     ablock a = key \<and> (mode = AuthNonFirst \<longrightarrow> length t = 4)"
proof -
  from assms(1) have k: "length key = 16" "aes_valid_key key"
    and t: "mode = AuthNonFirst \<Longrightarrow> length t = 4"
    and a0: "a0 = \<lparr>amode = mode, akeyNo = keyNo, ablock = key, arandom = random, ati = t,
               acounter = 0, arndA = [], arndB = [], astage = 0\<rparr>"
    by (auto simp: new_authenticator_def bindE_eq_Inr dest: new_cipher_valid split: if_splits)
  have l: "length (encrypt_cbc key b) = 16" using k assms(4) by (simp add: length_encrypt_cbc)
  have r: "read_random random = (take 16 random, drop 16 random, True)"
    using assms(3) by (simp add: read_random_def copy16_def)
  show ?thesis
    using k t assms(4)
    by (simp add: auth_challenge_def assms(2) a0 auth_set_counter_def frame_data_more [OF l] r
        decrypt_encrypt_cbc Let_def)
qed

lemma auth_finish_ok:
  assumes k: "length key = 16" "length rndA = 16" "length rndB = 16" "length t = 4"
    and a: "ablock a = key" "arndA a = rndA" "arndB a = rndB" "astage a = 1"
      "amode a = (if first then AuthFirst else AuthNonFirst)" "first \<or> ati a = t"
    and "derive_session_keys key rndA rndB = Inr (ek, mk)"
  shows "auth_finish a (encrypt_cbc key (if first then t @ rotate_left rndA @ replicate 12 0
                                         else rotate_left rndA) @ [0x91, 0x00]) =
     (new_session_at t ek mk (if first then 0 else acounter a), a\<lparr>astage := 2\<rparr>)"
proof -
  let ?p = "if first then t @ rotate_left rndA @ replicate 12 0 else rotate_left rndA"
  have v: "aes_valid_key key" using k by (simp add: aes_valid_key_def)
  have ne: "rndA \<noteq> []" using k(2) by auto
  then have lr: "length (rotate_left rndA) = 16" using k(2) by simp
  have lp: "length ?p = (if first then 32 else 16)" using k lr by simp
  have d: "decrypt_cbc key (encrypt_cbc key ?p) = ?p"
    using v lp by (intro decrypt_encrypt_cbc) simp_all
  have "length (encrypt_cbc key ?p) = (if first then 32 else 16)"
    using v lp length_encrypt_cbc [OF v, of ?p] by simp
  note f = frame_data_ok [OF this]
  have sl: "slice 4 20 (t @ rotate_left rndA @ replicate 12 0) = rotate_left rndA"
    using k(4) lr by (intro slice_middle) simp_all
  have keys: "ek = cmac (aes_encrypt key) (session_vector_ssm ssm_sv1_prefix rndA rndB)"
    "mk = cmac (aes_encrypt key) (session_vector_ssm ssm_sv2_prefix rndA rndB)"
    using assms(11) k by (simp_all add: derive_session_keys_def new_cipher_def)
  show ?thesis
    using f d sl a k(4) ne
    by (cases first) (simp_all add: auth_finish_def Let_def keys new_session_def)
qed

end
