(* ===== verification/FileSettings.thy ===== *)
theory FileSettings
  imports Ev2Auth
begin

text \<open>
  \<open>nfc/ntag424/filesettings.go\<close> and the two parsers of \<open>nfc/ntag424/files.go\<close>: the file
  settings of an NTAG 424 DNA as the card stores them. The layout is positional: an offset is
  on the wire only when the flag that uses it is set. \<open>settings_wire\<close> is what survives a
  round trip: unused fields read back as zero, offsets as their low three bytes.
\<close>

datatype settings_error =
    SUnknownMode comm_mode | SAccessRight byte | SShort nat | SCommBits byte
  | SSDMShort nat | SSDMEnds | SSDMTrailing nat

definition AccessFree :: byte where "AccessFree = 0x0E"
definition AccessNever :: byte where "AccessNever = 0x0F"

record file_settings =
  fsSDMEnabled :: bool
  fsCommMode :: comm_mode
  fsReadWrite :: byte
  fsChange :: byte
  fsRead :: byte
  fsWrite :: byte
  fsMirrorUID :: bool
  fsMirrorReadCounter :: bool
  fsReadCounterLimit :: bool
  fsEncryptFileData :: bool
  fsASCIIEncoding :: bool
  fsSDMMetaRead :: byte
  fsSDMFileRead :: byte
  fsSDMCounterRet :: byte
  fsFileType :: byte
  fsFileSize :: uint32
  fsUIDOffset :: uint32
  fsReadCounterOffset :: uint32
  fsPICCDataOffset :: uint32
  fsMACInputOffset :: uint32
  fsMACOffset :: uint32
  fsENCOffset :: uint32
  fsENCLength :: uint32
  fsReadCounterLimitValue :: uint32

text \<open>The zero value of the Go struct.\<close>

definition zero_settings :: file_settings where
  "zero_settings = \<lparr>fsSDMEnabled = False, fsCommMode = CommPlain, fsReadWrite = 0, fsChange = 0,
     fsRead = 0, fsWrite = 0, fsMirrorUID = False, fsMirrorReadCounter = False,
     fsReadCounterLimit = False, fsEncryptFileData = False, fsASCIIEncoding = False,
     fsSDMMetaRead = 0, fsSDMFileRead = 0, fsSDMCounterRet = 0, fsFileType = 0, fsFileSize = 0,
     fsUIDOffset = 0, fsReadCounterOffset = 0, fsPICCDataOffset = 0, fsMACInputOffset = 0,
     fsMACOffset = 0, fsENCOffset = 0, fsENCLength = 0, fsReadCounterLimitValue = 0\<rparr>"

section \<open>Encode\<close>

fun comm_mode_bits :: "comm_mode \<Rightarrow> settings_error + byte" where
  "comm_mode_bits CommPlain = Inr 0x00"
| "comm_mode_bits CommMAC = Inr 0x01"
| "comm_mode_bits CommFull = Inr 0x03"
| "comm_mode_bits m = Inl (SUnknownMode m)"

definition access_rights :: "byte \<Rightarrow> byte \<Rightarrow> byte \<Rightarrow> byte \<Rightarrow> settings_error + bytes" where
  "access_rights a b c d =
     (case filter (\<lambda>v. 0x0F < v) [a, b, c, d] of
        v # _ \<Rightarrow> Inl (SAccessRight v)
      | [] \<Rightarrow> Inr [push_bit 4 a OR b, push_bit 4 c OR d])"

definition offset24 :: "uint32 \<Rightarrow> bytes" where
  "offset24 v = take 3 [ucast v, ucast (drop_bit 8 v), ucast (drop_bit 16 v), ucast (drop_bit 24 v)]"

definition sdm_options :: "file_settings \<Rightarrow> byte" where
  "sdm_options f =
     (if fsMirrorUID f then 0x80 else 0) OR (if fsMirrorReadCounter f then 0x40 else 0)
     OR (if fsReadCounterLimit f then 0x20 else 0) OR (if fsEncryptFileData f then 0x10 else 0)
     OR (if fsASCIIEncoding f then 0x01 else 0)"

definition sdm_offsets :: "file_settings \<Rightarrow> bytes" where
  "sdm_offsets f =
     (if fsMirrorUID f \<and> fsSDMMetaRead f = AccessFree then offset24 (fsUIDOffset f) else [])
     @ (if fsMirrorReadCounter f \<and> fsSDMMetaRead f = AccessFree then offset24 (fsReadCounterOffset f) else [])
     @ (if fsSDMMetaRead f \<le> 0x04 then offset24 (fsPICCDataOffset f) else [])
     @ (if fsSDMFileRead f \<noteq> AccessNever then offset24 (fsMACInputOffset f) else [])
     @ (if fsEncryptFileData f then offset24 (fsENCOffset f) @ offset24 (fsENCLength f) else [])
     @ (if fsSDMFileRead f \<noteq> AccessNever then offset24 (fsMACOffset f) else [])
     @ (if fsReadCounterLimit f then offset24 (fsReadCounterLimitValue f) else [])"

definition settings_encode :: "file_settings \<Rightarrow> settings_error + bytes" where
  "settings_encode f =
     bindE (comm_mode_bits (fsCommMode f)) (\<lambda>comm.
     bindE (access_rights (fsReadWrite f) (fsChange f) (fsRead f) (fsWrite f)) (\<lambda>rights.
     let out = (if fsSDMEnabled f then comm OR 0x40 else comm) # rights
     in if \<not> fsSDMEnabled f then Inr out
        else bindE (access_rights 0x0F (fsSDMCounterRet f) (fsSDMMetaRead f) (fsSDMFileRead f)) (\<lambda>sdm_rights.
             Inr (out @ sdm_options f # sdm_rights @ sdm_offsets f))))"

section \<open>Parse\<close>

definition parse_settings_body :: "bytes \<Rightarrow> settings_error + file_settings" where
  "parse_settings_body head =
     (let option = head ! 0;
          f = zero_settings\<lparr>fsSDMEnabled := option AND 0x40 \<noteq> 0\<rparr>
      in bindE (if option AND 0x03 = 0x00 then Inr CommPlain
                else if option AND 0x03 = 0x01 then Inr CommMAC
                else if option AND 0x03 = 0x03 then Inr CommFull
                else Inl (SCommBits option)) (\<lambda>m.
         Inr (f\<lparr>fsCommMode := m,
                fsReadWrite := drop_bit 4 (head ! 1), fsChange := head ! 1 AND 0x0F,
                fsRead := drop_bit 4 (head ! 2), fsWrite := head ! 2 AND 0x0F\<rparr>)))"

fun sdm_steps ::
    "(bool \<times> (uint32 \<Rightarrow> file_settings \<Rightarrow> file_settings)) list \<Rightarrow> file_settings \<Rightarrow> bytes \<Rightarrow>
     settings_error + file_settings \<times> bytes" where
  "sdm_steps [] f rest = Inr (f, rest)"
| "sdm_steps ((present, put) # steps) f rest =
     (if \<not> present then sdm_steps steps f rest
      else if length rest < 3 then Inl SSDMEnds
      else sdm_steps steps (put (rd_le24 rest) f) (drop 3 rest))"

definition sdm_step_list :: "file_settings \<Rightarrow> (bool \<times> (uint32 \<Rightarrow> file_settings \<Rightarrow> file_settings)) list" where
  "sdm_step_list f =
     [(fsMirrorUID f \<and> fsSDMMetaRead f = AccessFree, \<lambda>v. fsUIDOffset_update (\<lambda>_. v)),
      (fsMirrorReadCounter f \<and> fsSDMMetaRead f = AccessFree, \<lambda>v. fsReadCounterOffset_update (\<lambda>_. v)),
      (fsSDMMetaRead f \<le> 0x04, \<lambda>v. fsPICCDataOffset_update (\<lambda>_. v)),
      (fsSDMFileRead f \<noteq> AccessNever, \<lambda>v. fsMACInputOffset_update (\<lambda>_. v)),
      (fsEncryptFileData f, \<lambda>v. fsENCOffset_update (\<lambda>_. v)),
      (fsEncryptFileData f, \<lambda>v. fsENCLength_update (\<lambda>_. v)),
      (fsSDMFileRead f \<noteq> AccessNever, \<lambda>v. fsMACOffset_update (\<lambda>_. v)),
      (fsReadCounterLimit f, \<lambda>v. fsReadCounterLimitValue_update (\<lambda>_. v))]"

definition sdm_head :: "file_settings \<Rightarrow> byte \<Rightarrow> byte \<Rightarrow> byte \<Rightarrow> file_settings" where
  "sdm_head f opts r1 r2 =
     f\<lparr>fsMirrorUID := opts AND 0x80 \<noteq> 0, fsMirrorReadCounter := opts AND 0x40 \<noteq> 0,
       fsReadCounterLimit := opts AND 0x20 \<noteq> 0, fsEncryptFileData := opts AND 0x10 \<noteq> 0,
       fsASCIIEncoding := opts AND 0x01 \<noteq> 0, fsSDMCounterRet := r1 AND 0x0F,
       fsSDMMetaRead := drop_bit 4 r2, fsSDMFileRead := r2 AND 0x0F\<rparr>"

definition parse_sdm :: "file_settings \<Rightarrow> bytes \<Rightarrow> settings_error + file_settings" where
  "parse_sdm f rest =
     (if \<not> fsSDMEnabled f then Inr f
      else if length rest < 3 then Inl (SSDMShort (length rest))
      else let f1 = sdm_head f (rest ! 0) (rest ! 1) (rest ! 2)
           in bindE (sdm_steps (sdm_step_list f1) f1 (drop 3 rest)) (\<lambda>(f2, rest').
              if length rest' \<noteq> 0 then Inl (SSDMTrailing (length rest')) else Inr f2))"

definition parse_encoded_settings :: "bytes \<Rightarrow> settings_error + file_settings" where
  "parse_encoded_settings b =
     (if length b < 3 then Inl (SShort (length b))
      else bindE (parse_settings_body (take 3 b)) (\<lambda>f. parse_sdm f (drop 3 b)))"

definition parse_file_settings :: "bytes \<Rightarrow> settings_error + file_settings" where
  "parse_file_settings b =
     (if length b < 7 then Inl (SShort (length b))
      else bindE (parse_settings_body (slice 1 4 b)) (\<lambda>f.
           parse_sdm (f\<lparr>fsFileType := b ! 0, fsFileSize := rd_le24 (slice 4 7 b)\<rparr>) (drop 7 b)))"

section \<open>The round trip\<close>

definition settings_wire :: "file_settings \<Rightarrow> file_settings" where
  "settings_wire f =
     (let g = zero_settings\<lparr>fsSDMEnabled := fsSDMEnabled f, fsCommMode := fsCommMode f,
                fsReadWrite := fsReadWrite f, fsChange := fsChange f, fsRead := fsRead f, fsWrite := fsWrite f\<rparr>;
          on = (\<lambda>present v. if present then take_bit 24 v else 0)
      in if \<not> fsSDMEnabled f then g
         else g\<lparr>fsMirrorUID := fsMirrorUID f, fsMirrorReadCounter := fsMirrorReadCounter f,
                fsReadCounterLimit := fsReadCounterLimit f, fsEncryptFileData := fsEncryptFileData f,
                fsASCIIEncoding := fsASCIIEncoding f, fsSDMCounterRet := fsSDMCounterRet f,
                fsSDMMetaRead := fsSDMMetaRead f, fsSDMFileRead := fsSDMFileRead f,
                fsUIDOffset := on (fsMirrorUID f \<and> fsSDMMetaRead f = AccessFree) (fsUIDOffset f),
                fsReadCounterOffset := on (fsMirrorReadCounter f \<and> fsSDMMetaRead f = AccessFree) (fsReadCounterOffset f),
                fsPICCDataOffset := on (fsSDMMetaRead f \<le> 0x04) (fsPICCDataOffset f),
                fsMACInputOffset := on (fsSDMFileRead f \<noteq> AccessNever) (fsMACInputOffset f),
                fsMACOffset := on (fsSDMFileRead f \<noteq> AccessNever) (fsMACOffset f),
                fsENCOffset := on (fsEncryptFileData f) (fsENCOffset f),
                fsENCLength := on (fsEncryptFileData f) (fsENCLength f),
                fsReadCounterLimitValue := on (fsReadCounterLimit f) (fsReadCounterLimitValue f)\<rparr>)"

lemma offset24_le24: "offset24 v = le24 v"
  by (simp add: offset24_def le24_def)

lemma length_offset24 [len_simps, simp]: "length (offset24 v) = 3"
  by (simp add: offset24_def)

lemma rd_le24_append: "length a = 3 \<Longrightarrow> rd_le24 (a @ b) = rd_le24 a"
  by (simp add: rd_le24_def nth_append)

lemma rd_offset24 [simp]: "rd_le24 (offset24 v @ rest) = take_bit 24 v"
  by (simp add: offset24_le24 rd_le24_append rd_le24_le24)

lemma nibble_bits: "(v :: byte) \<le> 0x0F \<Longrightarrow> bit v n \<Longrightarrow> n < 4"
proof (rule ccontr)
  assume v: "v \<le> 0x0F" and b: "bit v n" "\<not> n < 4"
  from v have "unat v \<le> 15" by (simp add: word_le_nat_alt)
  then have "take_bit 4 v = v"
    by (simp add: take_bit_eq_mod word_arith_nat_mod word_unat_eq_iff)
  with b show False by (metis bit_take_bit_iff)
qed

lemma nibble_hi [simp]: "(a :: byte) \<le> 0x0F \<Longrightarrow> b \<le> 0x0F \<Longrightarrow> drop_bit 4 (push_bit 4 a OR b) = a"
  by (rule bit_eqI) (auto simp: bit_simps dest: nibble_bits [of a] nibble_bits [of b])

declare drop_bit_or [simp del]

lemma and_0F: "(x :: byte) AND 0x0F = take_bit 4 x"
  by (simp add: take_bit_eq_mask mask_eq_exp_minus_1)

lemma nibble_lo [simp]: "(a :: byte) \<le> 0x0F \<Longrightarrow> b \<le> 0x0F \<Longrightarrow> (push_bit 4 a OR b) AND 0x0F = b"
  unfolding and_0F by (rule bit_eqI) (auto simp: bit_simps dest: nibble_bits [of b])

lemma access_rights_Inr:
  "access_rights a b c d = Inr r \<longleftrightarrow>
   a \<le> 0x0F \<and> b \<le> 0x0F \<and> c \<le> 0x0F \<and> d \<le> 0x0F \<and> r = [push_bit 4 a OR b, push_bit 4 c OR d]"
  by (auto simp: access_rights_def not_less)

lemma comm_mode_bits_Inr:
  "comm_mode_bits m = Inr c \<longleftrightarrow>
   m = CommPlain \<and> c = 0 \<or> m = CommMAC \<and> c = 1 \<or> m = CommFull \<and> c = 3"
  by (cases m) auto

lemma sdm_options_bits:
  "sdm_options f AND 0x80 \<noteq> 0 \<longleftrightarrow> fsMirrorUID f"
  "sdm_options f AND 0x40 \<noteq> 0 \<longleftrightarrow> fsMirrorReadCounter f"
  "sdm_options f AND 0x20 \<noteq> 0 \<longleftrightarrow> fsReadCounterLimit f"
  "sdm_options f AND 0x10 \<noteq> 0 \<longleftrightarrow> fsEncryptFileData f"
  "sdm_options f AND 0x01 \<noteq> 0 \<longleftrightarrow> fsASCIIEncoding f"
  by (simp_all add: sdm_options_def)

definition on_wire :: "bool \<Rightarrow> uint32 \<Rightarrow> uint32" where
  "on_wire p v = (if p then take_bit 24 v else 0)"

lemma sdm_steps_wire:
  "put 0 f = f \<Longrightarrow>
   sdm_steps ((p, put) # steps) f ((if p then offset24 v else []) @ rest) =
     sdm_steps steps (put (on_wire p v) f) rest"
  by (simp add: on_wire_def)

lemma sdm_steps_last:
  "put 0 f = f \<Longrightarrow>
   sdm_steps [(p, put)] f (if p then offset24 v else []) = Inr (put (on_wire p v) f, [])"
  using sdm_steps_wire [of put f p "[]" v "[]"] by simp

lemma sdm_offsets_wire:
  "sdm_offsets f =
     (if fsMirrorUID f \<and> fsSDMMetaRead f = AccessFree then offset24 (fsUIDOffset f) else [])
     @ (if fsMirrorReadCounter f \<and> fsSDMMetaRead f = AccessFree then offset24 (fsReadCounterOffset f) else [])
     @ (if fsSDMMetaRead f \<le> 0x04 then offset24 (fsPICCDataOffset f) else [])
     @ (if fsSDMFileRead f \<noteq> AccessNever then offset24 (fsMACInputOffset f) else [])
     @ (if fsEncryptFileData f then offset24 (fsENCOffset f) else [])
     @ (if fsEncryptFileData f then offset24 (fsENCLength f) else [])
     @ (if fsSDMFileRead f \<noteq> AccessNever then offset24 (fsMACOffset f) else [])
     @ (if fsReadCounterLimit f then offset24 (fsReadCounterLimitValue f) else [])"
  by (simp add: sdm_offsets_def)

lemma settings_wire_on:
  "settings_wire f =
     (let g = zero_settings\<lparr>fsSDMEnabled := fsSDMEnabled f, fsCommMode := fsCommMode f,
                fsReadWrite := fsReadWrite f, fsChange := fsChange f, fsRead := fsRead f, fsWrite := fsWrite f\<rparr>
      in if \<not> fsSDMEnabled f then g
         else g\<lparr>fsMirrorUID := fsMirrorUID f, fsMirrorReadCounter := fsMirrorReadCounter f,
                fsReadCounterLimit := fsReadCounterLimit f, fsEncryptFileData := fsEncryptFileData f,
                fsASCIIEncoding := fsASCIIEncoding f, fsSDMCounterRet := fsSDMCounterRet f,
                fsSDMMetaRead := fsSDMMetaRead f, fsSDMFileRead := fsSDMFileRead f,
                fsUIDOffset := on_wire (fsMirrorUID f \<and> fsSDMMetaRead f = AccessFree) (fsUIDOffset f),
                fsReadCounterOffset := on_wire (fsMirrorReadCounter f \<and> fsSDMMetaRead f = AccessFree) (fsReadCounterOffset f),
                fsPICCDataOffset := on_wire (fsSDMMetaRead f \<le> 0x04) (fsPICCDataOffset f),
                fsMACInputOffset := on_wire (fsSDMFileRead f \<noteq> AccessNever) (fsMACInputOffset f),
                fsMACOffset := on_wire (fsSDMFileRead f \<noteq> AccessNever) (fsMACOffset f),
                fsENCOffset := on_wire (fsEncryptFileData f) (fsENCOffset f),
                fsENCLength := on_wire (fsEncryptFileData f) (fsENCLength f),
                fsReadCounterLimitValue := on_wire (fsReadCounterLimit f) (fsReadCounterLimitValue f)\<rparr>)"
  by (simp only: settings_wire_def on_wire_def [abs_def] Let_def)

text \<open>A body with the parsed head, and the rest of the block.\<close>

lemma parse_body_encode:
  assumes "comm_mode_bits (fsCommMode f) = Inr c" "fsReadWrite f \<le> 0x0F" "fsChange f \<le> 0x0F"
    "fsRead f \<le> 0x0F" "fsWrite f \<le> 0x0F"
  shows "parse_settings_body [if fsSDMEnabled f then c OR 0x40 else c,
      push_bit 4 (fsReadWrite f) OR fsChange f, push_bit 4 (fsRead f) OR fsWrite f] =
    Inr (zero_settings\<lparr>fsSDMEnabled := fsSDMEnabled f, fsCommMode := fsCommMode f,
                fsReadWrite := fsReadWrite f, fsChange := fsChange f, fsRead := fsRead f, fsWrite := fsWrite f\<rparr>)"
  using assms unfolding comm_mode_bits_Inr
  by (cases "fsSDMEnabled f") (auto simp: parse_settings_body_def Let_def)

lemma parse_sdm_encode:
  assumes "fsSDMEnabled f" "fsSDMCounterRet f \<le> 0x0F" "fsSDMMetaRead f \<le> 0x0F" "fsSDMFileRead f \<le> 0x0F"
    "g = zero_settings\<lparr>fsSDMEnabled := fsSDMEnabled f, fsCommMode := fsCommMode f,
                fsReadWrite := fsReadWrite f, fsChange := fsChange f, fsRead := fsRead f, fsWrite := fsWrite f,
                fsFileType := ty, fsFileSize := sz\<rparr>"
  shows "parse_sdm g (sdm_options f # (push_bit 4 0x0F OR fsSDMCounterRet f)
      # (push_bit 4 (fsSDMMetaRead f) OR fsSDMFileRead f) # sdm_offsets f) =
    Inr ((settings_wire f)\<lparr>fsFileType := ty, fsFileSize := sz\<rparr>)"
proof -
  define f1 where "f1 = sdm_head g (sdm_options f) (push_bit 4 0x0F OR fsSDMCounterRet f)
    (push_bit 4 (fsSDMMetaRead f) OR fsSDMFileRead f)"
  have f1: "f1 = g\<lparr>fsMirrorUID := fsMirrorUID f, fsMirrorReadCounter := fsMirrorReadCounter f,
       fsReadCounterLimit := fsReadCounterLimit f, fsEncryptFileData := fsEncryptFileData f,
       fsASCIIEncoding := fsASCIIEncoding f, fsSDMCounterRet := fsSDMCounterRet f,
       fsSDMMetaRead := fsSDMMetaRead f, fsSDMFileRead := fsSDMFileRead f\<rparr>"
    unfolding f1_def sdm_head_def sdm_options_bits using assms(2-4)
    by (simp only: nibble_hi nibble_lo order.refl)
  have l: "sdm_step_list f1 = sdm_step_list f"
    by (simp add: sdm_step_list_def f1)
  have z: "fsUIDOffset f1 = 0" "fsReadCounterOffset f1 = 0" "fsPICCDataOffset f1 = 0"
     "fsMACInputOffset f1 = 0" "fsMACOffset f1 = 0" "fsENCOffset f1 = 0" "fsENCLength f1 = 0"
     "fsReadCounterLimitValue f1 = 0"
    by (simp_all add: f1 assms(5) zero_settings_def)
  have "sdm_steps (sdm_step_list f1) f1 (sdm_offsets f) =
     Inr (f1\<lparr>fsUIDOffset := on_wire (fsMirrorUID f \<and> fsSDMMetaRead f = AccessFree) (fsUIDOffset f),
                fsReadCounterOffset := on_wire (fsMirrorReadCounter f \<and> fsSDMMetaRead f = AccessFree) (fsReadCounterOffset f),
                fsPICCDataOffset := on_wire (fsSDMMetaRead f \<le> 0x04) (fsPICCDataOffset f),
                fsMACInputOffset := on_wire (fsSDMFileRead f \<noteq> AccessNever) (fsMACInputOffset f),
                fsENCOffset := on_wire (fsEncryptFileData f) (fsENCOffset f),
                fsENCLength := on_wire (fsEncryptFileData f) (fsENCLength f),
                fsMACOffset := on_wire (fsSDMFileRead f \<noteq> AccessNever) (fsMACOffset f),
                fsReadCounterLimitValue := on_wire (fsReadCounterLimit f) (fsReadCounterLimitValue f)\<rparr>, [])"
    unfolding l unfolding sdm_step_list_def sdm_offsets_wire
    by (cases f1) (use z in \<open>simp only: sdm_steps_wire sdm_steps_last file_settings.select_convs
          file_settings.update_convs\<close>)
  moreover have "f1\<lparr>fsUIDOffset := on_wire (fsMirrorUID f \<and> fsSDMMetaRead f = AccessFree) (fsUIDOffset f),
                fsReadCounterOffset := on_wire (fsMirrorReadCounter f \<and> fsSDMMetaRead f = AccessFree) (fsReadCounterOffset f),
                fsPICCDataOffset := on_wire (fsSDMMetaRead f \<le> 0x04) (fsPICCDataOffset f),
                fsMACInputOffset := on_wire (fsSDMFileRead f \<noteq> AccessNever) (fsMACInputOffset f),
                fsENCOffset := on_wire (fsEncryptFileData f) (fsENCOffset f),
                fsENCLength := on_wire (fsEncryptFileData f) (fsENCLength f),
                fsMACOffset := on_wire (fsSDMFileRead f \<noteq> AccessNever) (fsMACOffset f),
                fsReadCounterLimitValue := on_wire (fsReadCounterLimit f) (fsReadCounterLimitValue f)\<rparr> =
      (settings_wire f)\<lparr>fsFileType := ty, fsFileSize := sz\<rparr>"
    using assms(1) unfolding settings_wire_on Let_def f1 assms(5) zero_settings_def
    by (simp only: not_True_eq_False if_False if_True file_settings.select_convs
          file_settings.update_convs)
  moreover have "fsSDMEnabled g" using assms(1,5) by (simp add: zero_settings_def)
  ultimately show ?thesis by (simp add: parse_sdm_def f1_def)
qed

lemma settings_encode_Inr:
  assumes "settings_encode f = Inr b"
  obtains c where "comm_mode_bits (fsCommMode f) = Inr c"
    "fsReadWrite f \<le> 0x0F" "fsChange f \<le> 0x0F" "fsRead f \<le> 0x0F" "fsWrite f \<le> 0x0F"
    "fsSDMEnabled f \<Longrightarrow> fsSDMCounterRet f \<le> 0x0F \<and> fsSDMMetaRead f \<le> 0x0F \<and> fsSDMFileRead f \<le> 0x0F"
    "b = [if fsSDMEnabled f then c OR 0x40 else c, push_bit 4 (fsReadWrite f) OR fsChange f,
          push_bit 4 (fsRead f) OR fsWrite f]
        @ (if fsSDMEnabled f then sdm_options f # (push_bit 4 0x0F OR fsSDMCounterRet f)
             # (push_bit 4 (fsSDMMetaRead f) OR fsSDMFileRead f) # sdm_offsets f else [])"
  using assms
  by (cases "fsSDMEnabled f")
     (auto simp: settings_encode_def bindE_eq_Inr access_rights_Inr Let_def)

lemma settings_encode_parse:
  assumes "settings_encode f = Inr b"
  shows "parse_encoded_settings b = Inr (settings_wire f)"
proof -
  obtain c where c: "comm_mode_bits (fsCommMode f) = Inr c"
    "fsReadWrite f \<le> 0x0F" "fsChange f \<le> 0x0F" "fsRead f \<le> 0x0F" "fsWrite f \<le> 0x0F"
    and sdm: "fsSDMEnabled f \<Longrightarrow> fsSDMCounterRet f \<le> 0x0F \<and> fsSDMMetaRead f \<le> 0x0F \<and> fsSDMFileRead f \<le> 0x0F"
    and b: "b = [if fsSDMEnabled f then c OR 0x40 else c, push_bit 4 (fsReadWrite f) OR fsChange f,
          push_bit 4 (fsRead f) OR fsWrite f]
        @ (if fsSDMEnabled f then sdm_options f # (push_bit 4 0x0F OR fsSDMCounterRet f)
             # (push_bit 4 (fsSDMMetaRead f) OR fsSDMFileRead f) # sdm_offsets f else [])"
    using settings_encode_Inr [OF assms] by blast
  note body = parse_body_encode [OF c]
  show ?thesis
  proof (cases "fsSDMEnabled f")
    case True
    have sw: "(settings_wire f)\<lparr>fsFileType := 0, fsFileSize := 0\<rparr> = settings_wire f"
      by (simp add: settings_wire_def zero_settings_def Let_def)
    have "parse_sdm (zero_settings\<lparr>fsSDMEnabled := fsSDMEnabled f, fsCommMode := fsCommMode f,
                fsReadWrite := fsReadWrite f, fsChange := fsChange f, fsRead := fsRead f, fsWrite := fsWrite f\<rparr>)
        (sdm_options f # (push_bit 4 0x0F OR fsSDMCounterRet f)
             # (push_bit 4 (fsSDMMetaRead f) OR fsSDMFileRead f) # sdm_offsets f) = Inr (settings_wire f)"
      using parse_sdm_encode [OF True, of _ 0 0] sdm [OF True] sw
      by (simp add: zero_settings_def)
    with True body show ?thesis by (simp add: parse_encoded_settings_def b)
  next
    case False
    with body show ?thesis
      by (simp add: parse_encoded_settings_def b parse_sdm_def settings_wire_def zero_settings_def)
  qed
qed

text \<open>The block a card answers \<open>GetFileSettings\<close> with: type, settings, size, SDM fields.\<close>

lemma settings_block_parse:
  assumes "settings_encode f = Inr b"
  shows "parse_file_settings (ty # take 3 b @ offset24 sz @ drop 3 b) =
    Inr ((settings_wire f)\<lparr>fsFileType := ty, fsFileSize := take_bit 24 sz\<rparr>)"
proof -
  obtain c where c: "comm_mode_bits (fsCommMode f) = Inr c"
    "fsReadWrite f \<le> 0x0F" "fsChange f \<le> 0x0F" "fsRead f \<le> 0x0F" "fsWrite f \<le> 0x0F"
    and sdm: "fsSDMEnabled f \<Longrightarrow> fsSDMCounterRet f \<le> 0x0F \<and> fsSDMMetaRead f \<le> 0x0F \<and> fsSDMFileRead f \<le> 0x0F"
    and b: "b = [if fsSDMEnabled f then c OR 0x40 else c, push_bit 4 (fsReadWrite f) OR fsChange f,
          push_bit 4 (fsRead f) OR fsWrite f]
        @ (if fsSDMEnabled f then sdm_options f # (push_bit 4 0x0F OR fsSDMCounterRet f)
             # (push_bit 4 (fsSDMMetaRead f) OR fsSDMFileRead f) # sdm_offsets f else [])"
    using settings_encode_Inr [OF assms] by blast
  define h where "h = take 3 b"
  have h: "h = [if fsSDMEnabled f then c OR 0x40 else c, push_bit 4 (fsReadWrite f) OR fsChange f,
          push_bit 4 (fsRead f) OR fsWrite f]"
    by (simp add: h_def b)
  then have l: "length h = 3" by simp
  let ?x = "ty # h @ offset24 sz @ drop 3 b"
  have s1: "slice 1 4 ?x = h" and s2: "slice 4 7 ?x = offset24 sz" and s3: "drop 7 ?x = drop 3 b"
    using l slice_middle [of 1 "[ty]" 4 h] slice_middle [of 4 "ty # h" 7 "offset24 sz"] by simp_all
  have sz: "rd_le24 (offset24 sz) = take_bit 24 sz" using rd_offset24 [of sz "[]"] by simp
  note body = parse_body_encode [OF c, folded h]
  let ?g = "zero_settings\<lparr>fsSDMEnabled := fsSDMEnabled f, fsCommMode := fsCommMode f,
                fsReadWrite := fsReadWrite f, fsChange := fsChange f, fsRead := fsRead f, fsWrite := fsWrite f\<rparr>"
  have "parse_sdm (?g\<lparr>fsFileType := ty, fsFileSize := take_bit 24 sz\<rparr>) (drop 3 b) =
      Inr ((settings_wire f)\<lparr>fsFileType := ty, fsFileSize := take_bit 24 sz\<rparr>)"
  proof (cases "fsSDMEnabled f")
    case True
    then show ?thesis using parse_sdm_encode [OF True _ _ _ refl, where ty = ty and sz = "take_bit 24 sz"] sdm [OF True]
      by (simp add: b zero_settings_def)
  next
    case False
    then show ?thesis by (simp add: parse_sdm_def settings_wire_def zero_settings_def)
  qed
  moreover have "parse_file_settings ?x =
      parse_sdm (?g\<lparr>fsFileType := ty, fsFileSize := take_bit 24 sz\<rparr>) (drop 3 b)"
    unfolding parse_file_settings_def s1 s2 s3 body using l by (simp add: sz)
  ultimately show ?thesis by (simp add: h_def)
qed

text \<open>Settings already in the form a card keeps come back as they were.\<close>

definition settings_small :: "file_settings \<Rightarrow> bool" where
  "settings_small f \<longleftrightarrow>
     list_all (\<lambda>v. v < 0x1000000) [fsUIDOffset f, fsReadCounterOffset f, fsPICCDataOffset f,
       fsMACInputOffset f, fsMACOffset f, fsENCOffset f, fsENCLength f, fsReadCounterLimitValue f]"

lemma settings_wire_idem: "settings_wire (settings_wire f) = settings_wire f"
  unfolding settings_wire_on Let_def zero_settings_def on_wire_def
  by (cases "fsSDMEnabled f") (simp_all add: take_bit_take_bit [where 'a="32 word"])

end
