(* ===== verification/Sdm.thy ===== *)
theory Sdm
  imports FileSettings
begin

text \<open>
  \<open>nfc/ntag424/sdm.go\<close>: verifying what a tag mirrors into its URL. PICCData is one enciphered
  block holding the UID and the read counter; the session keys and the MAC of a tap are derived
  from them, by AES-CMAC or, on a tag in LRP mode, by the leakage resilient primitive.
\<close>

datatype sdm_error =
    DKeySize nat | DLrp lrp_error | DAesKey nat
  | DPICCSize nat | DPICCTag byte nat | DPICCRoom | DMACMismatch | DFileDataSize nat

record sdm_keys =
  kMetaRead :: bytes
  kFileRead :: bytes
  kLRP :: bool

record picc_data =
  pUID :: bytes
  pReadCounter :: uint32
  pUIDMirrored :: bool
  pCounterMirrored :: bool
  pLRP :: bool

fun sdm_key_err :: "key_error \<Rightarrow> sdm_error" where
  "sdm_key_err (ErrKeySize n) = DKeySize n"

section \<open>PICCData\<close>

definition decode_counter :: "bytes \<Rightarrow> uint32" where
  "decode_counter b = ucast (b ! 0) OR push_bit 8 (ucast (b ! 1)) OR push_bit 16 (ucast (b ! 2))"

definition encode_counter :: "uint32 \<Rightarrow> bytes" where
  "encode_counter c = [ucast c, ucast (drop_bit 8 c), ucast (drop_bit 16 c)]"

definition parse_picc_data :: "bytes \<Rightarrow> sdm_error + picc_data" where
  "parse_picc_data plain =
     (let tag = plain ! 0;
          uidM = tag AND 0x80 \<noteq> 0; ctrM = tag AND 0x40 \<noteq> 0;
          n = unat (tag AND 0x0F)
      in if uidM \<and> n \<noteq> 7 then Inl (DPICCTag tag n)
         else let uid = (if uidM then slice 1 8 plain else []);
                  offset = (if uidM then 8 else 1)
              in if ctrM \<and> length plain < offset + 3 then Inl DPICCRoom
                 else Inr \<lparr>pUID = uid,
                    pReadCounter = (if ctrM then decode_counter (slice offset (offset + 3) plain) else 0),
                    pUIDMirrored = uidM, pCounterMirrored = ctrM, pLRP = False\<rparr>)"

definition decrypt_picc_data :: "bytes \<Rightarrow> bytes \<Rightarrow> sdm_error + picc_data" where
  "decrypt_picc_data metaReadKey encrypted =
     bindE (mapErr sdm_key_err (new_cipher metaReadKey)) (\<lambda>block.
     if length encrypted \<noteq> 16 then Inl (DPICCSize (length encrypted))
     else parse_picc_data (cbc_decrypt (aes_decrypt block) (replicate 16 0) encrypted))"

definition decrypt_picc_data_lrp :: "bytes \<Rightarrow> bytes \<Rightarrow> sdm_error + picc_data" where
  "decrypt_picc_data_lrp metaReadKey mirrored =
     bindE (mapErr DLrp (lrp_new metaReadKey UpdateMAC)) (\<lambda>key.
     if length mirrored \<noteq> 24 then Inl (DPICCSize (length mirrored))
     else bindE (mapErr DLrp (lrp_decrypt key (take 8 mirrored) (drop 8 mirrored))) (\<lambda>plain.
          bindE (parse_picc_data plain) (\<lambda>d. Inr (d\<lparr>pLRP := True\<rparr>))))"

section \<open>Session keys\<close>

definition sv1_prefix :: bytes where "sv1_prefix = [0xC3, 0x3C, 0x00, 0x01, 0x00, 0x80]"
definition sv2_prefix :: bytes where "sv2_prefix = [0x3C, 0xC3, 0x00, 0x01, 0x00, 0x80]"
definition lrp_sv_prefix :: bytes where "lrp_sv_prefix = [0x00, 0x01, 0x00, 0x80]"
definition lrp_sv_suffix :: bytes where "lrp_sv_suffix = [0x1E, 0xE1]"

text \<open>The part both vectors share: the prefix and the mirrored fields copied into a zero block.\<close>

definition mirror_vector :: "bytes \<Rightarrow> picc_data \<Rightarrow> bytes" where
  "mirror_vector prefix d =
     (let sv = copy_at 0 (replicate 16 0) prefix; n = min 16 (length prefix);
          sv1 = (if pUIDMirrored d then copy_at n sv (pUID d) else sv);
          n1 = (if pUIDMirrored d then n + min (16 - n) (length (pUID d)) else n)
      in if pCounterMirrored d then copy_at n1 sv1 (encode_counter (pReadCounter d)) else sv1)"

definition session_vector :: "bytes \<Rightarrow> picc_data \<Rightarrow> bytes" where
  "session_vector prefix d = mirror_vector prefix d"

definition sdm_session_keys :: "bytes \<Rightarrow> picc_data \<Rightarrow> sdm_error + bytes \<times> bytes" where
  "sdm_session_keys fileReadKey d =
     bindE (mapErr sdm_key_err (new_cipher fileReadKey)) (\<lambda>block.
     Inr (cmac (aes_encrypt block) (session_vector sv1_prefix d),
          cmac (aes_encrypt block) (session_vector sv2_prefix d)))"

definition lrp_session_master :: "bytes \<Rightarrow> picc_data \<Rightarrow> sdm_error + bytes" where
  "lrp_session_master fileReadKey d =
     bindE (mapErr DLrp (lrp_new fileReadKey UpdateMAC)) (\<lambda>key.
     Inr (lrp_cmac key (copy_at (16 - length lrp_sv_suffix) (mirror_vector lrp_sv_prefix d) lrp_sv_suffix)))"

definition sdm_mac :: "bytes \<Rightarrow> picc_data \<Rightarrow> bytes \<Rightarrow> sdm_error + bytes" where
  "sdm_mac fileReadKey d input =
     (if pLRP d
      then bindE (lrp_session_master fileReadKey d) (\<lambda>master.
           bindE (mapErr DLrp (lrp_new master UpdateMAC)) (\<lambda>key.
           Inr (truncate_mac (lrp_cmac key input))))
      else bindE (sdm_session_keys fileReadKey d) (\<lambda>(_, macKey).
           if \<not> aes_valid_key macKey then Inl (DAesKey (length macKey))
           else Inr (truncate_mac (cmac (aes_encrypt macKey) input))))"

definition verify_mac :: "bytes \<Rightarrow> picc_data \<Rightarrow> bytes \<Rightarrow> bytes \<Rightarrow> sdm_error + unit" where
  "verify_mac fileReadKey d input mac =
     bindE (sdm_mac fileReadKey d input) (\<lambda>want.
     if want \<noteq> mac then Inl DMACMismatch else Inr ())"

section \<open>Encrypted file data\<close>

definition decrypt_file_data_lrp :: "bytes \<Rightarrow> picc_data \<Rightarrow> bytes \<Rightarrow> sdm_error + bytes" where
  "decrypt_file_data_lrp fileReadKey d encrypted =
     bindE (lrp_session_master fileReadKey d) (\<lambda>master.
     bindE (mapErr DLrp (lrp_new master UpdateENC)) (\<lambda>key.
     mapErr DLrp (lrp_decrypt key (encode_counter (pReadCounter d) @ [0, 0, 0]) encrypted)))"

definition decrypt_file_data :: "bytes \<Rightarrow> picc_data \<Rightarrow> bytes \<Rightarrow> sdm_error + bytes" where
  "decrypt_file_data fileReadKey d encrypted =
     (if length encrypted = 0 \<or> length encrypted mod 16 \<noteq> 0 then Inl (DFileDataSize (length encrypted))
      else if pLRP d then decrypt_file_data_lrp fileReadKey d encrypted
      else bindE (sdm_session_keys fileReadKey d) (\<lambda>(encKey, _).
           if \<not> aes_valid_key encKey then Inl (DAesKey (length encKey))
           else let iv = aes_encrypt encKey (copy_at 0 (replicate 16 0) (encode_counter (pReadCounter d)))
                in Inr (cbc_decrypt (aes_decrypt encKey) iv encrypted)))"

definition uid_string :: "bytes \<Rightarrow> bytes" where
  "uid_string uid = hex_upper uid"

section \<open>Facts\<close>

lemma encode_counter_le24: "encode_counter c = le24 c"
  by (simp add: encode_counter_def le24_def)

lemma decode_encode_counter [simp]: "decode_counter (encode_counter c) = take_bit 24 c"
  using rd_le24_le24 [of c] by (simp add: encode_counter_le24 decode_counter_def rd_le24_def)

lemma length_encode_counter [simp]: "length (encode_counter c) = 3"
  by (simp add: encode_counter_def)

lemma length_mirror_vector [simp, len_simps]: "length (mirror_vector p d) = 16"
  by (simp add: mirror_vector_def Let_def)

text \<open>With both fields mirrored and a 7-byte UID the vector holds them whole.\<close>

lemma session_vector_full:
  assumes "length p = 6" "length (pUID d) = 7" "pUIDMirrored d" "pCounterMirrored d"
  shows "session_vector p d = p @ pUID d @ encode_counter (pReadCounter d)"
  using assms by (simp add: session_vector_def mirror_vector_def Let_def copy_at_fits)

lemma sdm_session_keys_ok:
  assumes "length key = 16"
  shows "\<exists>e m. sdm_session_keys key d = Inr (e, m) \<and> length e = 16 \<and> length m = 16"
proof -
  have "aes_valid_key key" using assms by (simp add: aes_valid_key_def)
  with assms show ?thesis by (simp add: sdm_session_keys_def new_cipher_def aesc.cmac_length)
qed

lemma aes_valid_16: "length k = 16 \<Longrightarrow> aes_valid_key k"
  by (simp add: aes_valid_key_def)

lemma lrp_session_master_ok:
  assumes "length key = 16"
  shows "\<exists>m. lrp_session_master key d = Inr m \<and> length m = 16"
proof -
  obtain k where "lrp_new key UpdateMAC = Inr k" "lrp_key_ok k"
    using lrp_new_total [OF assms, of UpdateMAC] by (auto simp: UpdateMAC_def)
  then show ?thesis by (simp add: lrp_session_master_def length_lrp_cmac)
qed

lemma sdm_mac_ok:
  assumes "length key = 16"
  shows "\<exists>m. sdm_mac key d input = Inr m \<and> length m = 8"
proof (cases "pLRP d")
  case True
  obtain m where m: "lrp_session_master key d = Inr m" "length m = 16"
    using lrp_session_master_ok [OF assms] by blast
  obtain k where "lrp_new m UpdateMAC = Inr k" "lrp_key_ok k"
    using lrp_new_total [OF m(2), of UpdateMAC] by (auto simp: UpdateMAC_def)
  with True m show ?thesis by (simp add: sdm_mac_def truncate_mac_length length_lrp_cmac)
next
  case False
  obtain e m where "sdm_session_keys key d = Inr (e, m)" "length m = 16"
    using sdm_session_keys_ok [OF assms] by blast
  with False show ?thesis by (simp add: sdm_mac_def aes_valid_16 aesc.truncated_length)
qed

lemma verify_mac_iff: "verify_mac key d input mac = Inr () \<longleftrightarrow> sdm_mac key d input = Inr mac"
  by (auto simp: verify_mac_def bindE_eq_Inr split: if_splits)

lemma parse_picc_block:
  assumes "length uid = 7"
  shows "parse_picc_data (0xC7 # uid @ encode_counter c @ rest) =
    Inr \<lparr>pUID = uid, pReadCounter = take_bit 24 c, pUIDMirrored = True, pCounterMirrored = True, pLRP = False\<rparr>"
proof -
  let ?p = "0xC7 # uid @ encode_counter c @ rest"
  have "slice 1 8 ?p = uid" using slice_middle [of 1 "[0xC7]" 8 uid] assms by simp
  moreover have "slice 8 11 ?p = encode_counter c"
    using slice_middle [of 8 "0xC7 # uid" 11 "encode_counter c" rest] assms by simp
  ultimately show ?thesis using assms by (simp add: parse_picc_data_def Let_def)
qed

lemma decrypt_picc_data_cbc:
  assumes "length key = 16" "length plain = 16"
  shows "decrypt_picc_data key (cbc_encrypt (aes_encrypt key) (replicate 16 0) plain) = parse_picc_data plain"
  using assms by (simp add: decrypt_picc_data_def new_cipher_def aes_valid_16 aesc.cbc_length aesc.cbc_roundtrip)

lemma decrypt_picc_data_lricb:
  assumes "lrp_new key UpdateMAC = Inr k" "length rnd = 8" "length plain = 16"
    "lrp_encrypt k rnd plain = Inr enc"
  shows "decrypt_picc_data_lrp key (rnd @ enc) =
    bindE (parse_picc_data plain) (\<lambda>d. Inr (d\<lparr>pLRP := True\<rparr>))"
proof -
  have "lrp_key_ok k" using assms(1) by (rule lrp_new_ok)
  moreover have "rnd \<noteq> []" using assms(2) by auto
  ultimately have "length enc = 16" "lrp_decrypt k rnd enc = Inr plain"
    using lrp_encrypt_ok [of k rnd plain] assms(3,4) by auto
  with assms show ?thesis by (simp add: decrypt_picc_data_lrp_def)
qed

lemma decrypt_file_data_cbc:
  assumes "length key = 16" "\<not> pLRP d" "16 dvd length plain" "plain \<noteq> []"
    and e: "sdm_session_keys key d = Inr (e, m)"
  shows "decrypt_file_data key d (cbc_encrypt (aes_encrypt e)
      (aes_encrypt e (copy_at 0 (replicate 16 0) (encode_counter (pReadCounter d)))) plain) = Inr plain"
proof -
  have v: "aes_valid_key e" using sdm_session_keys_ok [OF assms(1), of d] e by (auto intro: aes_valid_16)
  let ?iv = "aes_encrypt e (copy_at 0 (replicate 16 0) (encode_counter (pReadCounter d)))"
  have iv: "length ?iv = 16" using v by (simp add: length_aes_encrypt)
  have l: "length (cbc_encrypt (aes_encrypt e) ?iv plain) = length plain"
    using v iv assms(3) by (simp add: aesc.cbc_length)
  with assms(3,4) have "0 < length (cbc_encrypt (aes_encrypt e) ?iv plain)"
    "length (cbc_encrypt (aes_encrypt e) ?iv plain) mod 16 = 0" by simp_all
  then show ?thesis
    using assms v iv by (simp add: decrypt_file_data_def aesc.cbc_roundtrip Let_def)
qed

end
