(* ===== verification/Commands.thy ===== *)
theory Commands
  imports FileSettings
begin

text \<open>
  The command builders and answer parsers of \<open>nfc/ntag424\<close>: \<open>commands.go\<close>,
  \<open>files.go\<close>, \<open>config.go\<close>, \<open>status.go\<close>, and the key sets of \<open>keys.go\<close>. A builder
  takes the channel, nil being \<open>None\<close>, and hands it back as \<open>Command\<close> leaves it; a parser
  hands it back as \<open>Response\<close> leaves it.
\<close>

datatype cmd_error =
    CNoSession | CSession ev2_error | CKeySize nat | COldKeySize nat | CNoSettings
  | COffset24 | CWriteSize nat nat | CShort nat | CStatus byte byte | CCardUID nat
  | CFileCounters nat | CKeyVersion nat | CSigSize nat | CTTStatus nat
  | CSettings settings_error | CNoUID | CDiversification nat

type_synonym chan = "channel option"

section \<open>Status words\<close>

datatype status_class = SessionLost | AuthDelay | PermissionDenied

text \<open>\<open>StatusError.Unwrap\<close>.\<close>

definition status_class_of :: "byte \<Rightarrow> byte \<Rightarrow> status_class option" where
  "status_class_of sw1 sw2 =
     (if sw1 \<noteq> 0x91 then None
      else if sw2 \<in> {0xAE, 0x1E, 0x7E} then Some SessionLost
      else if sw2 = 0xAD then Some AuthDelay
      else if sw2 = 0x9D then Some PermissionDenied else None)"

definition status_of :: "bytes \<Rightarrow> cmd_error + bytes" where
  "status_of resp =
     (if length resp < 2 then Inl (CShort (length resp))
      else let n = length resp - 2; sw1 = resp ! n; sw2 = resp ! (n + 1)
           in if \<not> status_ok sw1 sw2 then Inl (CStatus sw1 sw2) else Inr (take n resp))"

definition with_chan :: "(ev2_error + 'a) \<times> channel \<Rightarrow> (cmd_error + 'a) \<times> chan" where
  "with_chan r = (mapErr CSession (fst r), Some (snd r))"

definition check_response :: "chan \<Rightarrow> bytes \<Rightarrow> comm_mode \<Rightarrow> (cmd_error + bytes) \<times> chan" where
  "check_response s resp mode =
     (case status_of resp of
        Inl e \<Rightarrow> (Inl e, s)
      | Inr data \<Rightarrow> (case s of None \<Rightarrow> (Inr data, None) | Some ch \<Rightarrow> with_chan (chan_response ch resp mode)))"

definition check_change_key_response ::
    "chan \<Rightarrow> bytes \<Rightarrow> byte \<Rightarrow> byte \<Rightarrow> (cmd_error + unit) \<times> chan" where
  "check_change_key_response s resp keyNo authKeyNo =
     (if keyNo = authKeyNo then (bindE (status_of resp) (\<lambda>_. Inr ()), s)
      else let (r, s') = check_response s resp CommFull in (bindE r (\<lambda>_. Inr ()), s'))"

definition is_lrp_auth_response :: "bytes \<Rightarrow> bool" where
  "is_lrp_auth_response resp \<longleftrightarrow>
     length resp = 1 + 16 + 2 \<and> resp ! (length resp - 2) = 0x91 \<and> resp ! (length resp - 1) = 0xAF
     \<and> resp ! 0 = 0x01"

section \<open>Builders\<close>

definition send_in :: "chan \<Rightarrow> byte \<Rightarrow> bytes \<Rightarrow> bytes \<Rightarrow> comm_mode \<Rightarrow> (cmd_error + bytes) \<times> chan" where
  "send_in s ins header data mode =
     (case s of None \<Rightarrow> (Inl CNoSession, None)
      | Some ch \<Rightarrow> with_chan (chan_command ch ins header data mode))"

subsection \<open>CRC-32\<close>

text \<open>\<open>crc32.ChecksumIEEE\<close>: the reflected polynomial, inverted at both ends.\<close>

fun crc_bits :: "nat \<Rightarrow> uint32 \<Rightarrow> uint32" where
  "crc_bits 0 c = c"
| "crc_bits (Suc n) c =
     crc_bits n (if bit c 0 then drop_bit 1 c XOR 0xEDB88320 else drop_bit 1 c)"

definition crc32_ieee :: "bytes \<Rightarrow> uint32" where
  "crc32_ieee b = NOT (foldl (\<lambda>c x. crc_bits 8 (c XOR ucast x)) (NOT 0) b)"

definition le32 :: "uint32 \<Rightarrow> bytes" where
  "le32 v = [ucast v, ucast (drop_bit 8 v), ucast (drop_bit 16 v), ucast (drop_bit 24 v)]"

definition key_crc :: "bytes \<Rightarrow> bytes" where
  "key_crc key = le32 (NOT (crc32_ieee key))"

subsection \<open>Keys and settings\<close>

definition change_key ::
    "chan \<Rightarrow> byte \<Rightarrow> byte \<Rightarrow> bytes \<Rightarrow> bytes \<Rightarrow> byte \<Rightarrow> (cmd_error + bytes) \<times> chan" where
  "change_key s keyNo authKeyNo oldKey newKey version =
     (if s = None then (Inl CNoSession, s)
      else if length newKey \<noteq> 16 then (Inl (CKeySize (length newKey)), s)
      else if keyNo = authKeyNo then send_in s 0xC4 [keyNo] (newKey @ [version]) CommFull
      else if length oldKey \<noteq> 16 then (Inl (COldKeySize (length oldKey)), s)
      else send_in s 0xC4 [keyNo] (xor_bytes oldKey newKey @ [version] @ key_crc newKey) CommFull)"

definition change_file_settings :: "chan \<Rightarrow> byte \<Rightarrow> bytes \<Rightarrow> (cmd_error + bytes) \<times> chan" where
  "change_file_settings s fileNo settings =
     (if s = None then (Inl CNoSession, s)
      else if length settings = 0 then (Inl CNoSettings, s)
      else send_in s 0x5F [fileNo] settings CommFull)"

definition get_file_settings :: "chan \<Rightarrow> byte \<Rightarrow> (cmd_error + bytes) \<times> chan" where
  "get_file_settings s fileNo = send_in s 0xF5 [fileNo] [] CommMAC"

definition get_file_settings_plain :: "byte \<Rightarrow> bytes" where
  "get_file_settings_plain fileNo = wrap_apdu 0xF5 [fileNo]"

definition parse_file_settings_response :: "chan \<Rightarrow> bytes \<Rightarrow> (cmd_error + file_settings) \<times> chan" where
  "parse_file_settings_response s resp =
     (let (r, s') = check_response s resp CommMAC
      in (bindE r (\<lambda>data. mapErr CSettings (parse_file_settings data)), s'))"

definition get_card_uid :: "chan \<Rightarrow> (cmd_error + bytes) \<times> chan" where
  "get_card_uid s = send_in s 0x51 [] [] CommFull"

text \<open>\<open>ParseCardUID\<close> calls the session without the nil check the other parsers have.\<close>

definition parse_card_uid :: "channel \<Rightarrow> bytes \<Rightarrow> (cmd_error + bytes) \<times> channel" where
  "parse_card_uid s response =
     (let (r, s') = chan_response s response CommFull
      in (bindE (mapErr CSession r) (\<lambda>data.
          if length data \<noteq> 7 then Inl (CCardUID (length data)) else Inr data), s'))"

subsection \<open>File data\<close>

definition data_header :: "byte \<Rightarrow> uint32 \<Rightarrow> uint32 \<Rightarrow> cmd_error + bytes" where
  "data_header fileNo offset len =
     (if 0xFFFFFF < offset \<or> 0xFFFFFF < len then Inl COffset24
      else Inr (fileNo # offset24 offset @ offset24 len))"

definition read_data :: "chan \<Rightarrow> byte \<Rightarrow> uint32 \<Rightarrow> uint32 \<Rightarrow> comm_mode \<Rightarrow> (cmd_error + bytes) \<times> chan" where
  "read_data s fileNo offset len mode =
     (if s = None then (Inl CNoSession, s)
      else case data_header fileNo offset len of
        Inl e \<Rightarrow> (Inl e, s) | Inr header \<Rightarrow> send_in s 0xAD header [] mode)"

definition read_data_plain :: "byte \<Rightarrow> uint32 \<Rightarrow> uint32 \<Rightarrow> cmd_error + bytes" where
  "read_data_plain fileNo offset len =
     bindE (data_header fileNo offset len) (\<lambda>header. Inr (wrap_apdu 0xAD header))"

definition parse_read_data :: "chan \<Rightarrow> bytes \<Rightarrow> comm_mode \<Rightarrow> (cmd_error + bytes) \<times> chan" where
  "parse_read_data s resp mode = check_response s resp mode"

definition max_write_chunk :: "comm_mode \<Rightarrow> nat" where
  "max_write_chunk mode =
     (case mode of CommMAC \<Rightarrow> 255 - 7 - 8
      | CommFull \<Rightarrow> (255 - 7 - 8) div 16 * 16 - 1
      | _ \<Rightarrow> 255 - 7)"

definition check_write_size :: "bytes \<Rightarrow> comm_mode \<Rightarrow> cmd_error + unit" where
  "check_write_size data mode =
     (if max_write_chunk mode < length data then Inl (CWriteSize (length data) (max_write_chunk mode))
      else Inr ())"

definition write_data :: "chan \<Rightarrow> byte \<Rightarrow> uint32 \<Rightarrow> bytes \<Rightarrow> comm_mode \<Rightarrow> (cmd_error + bytes) \<times> chan" where
  "write_data s fileNo offset data mode =
     (if s = None then (Inl CNoSession, s)
      else case check_write_size data mode of
        Inl e \<Rightarrow> (Inl e, s)
      | Inr _ \<Rightarrow> (case data_header fileNo offset (of_nat (length data)) of
                  Inl e \<Rightarrow> (Inl e, s) | Inr header \<Rightarrow> send_in s 0x8D header data mode))"

definition write_data_plain :: "byte \<Rightarrow> uint32 \<Rightarrow> bytes \<Rightarrow> cmd_error + bytes" where
  "write_data_plain fileNo offset data =
     bindE (check_write_size data CommPlain) (\<lambda>_.
     bindE (data_header fileNo offset (of_nat (length data))) (\<lambda>header.
     Inr (wrap_apdu 0x8D (header @ data))))"

definition parse_write_data :: "chan \<Rightarrow> bytes \<Rightarrow> comm_mode \<Rightarrow> (cmd_error + unit) \<times> chan" where
  "parse_write_data s resp mode =
     (let (r, s') = check_response s resp mode in (bindE r (\<lambda>_. Inr ()), s'))"

definition get_file_counters :: "chan \<Rightarrow> byte \<Rightarrow> (cmd_error + bytes) \<times> chan" where
  "get_file_counters s fileNo = send_in s 0xF6 [fileNo] [] CommFull"

definition parse_file_counters :: "chan \<Rightarrow> bytes \<Rightarrow> (cmd_error + uint32) \<times> chan" where
  "parse_file_counters s resp =
     (let (r, s') = check_response s resp CommFull
      in (bindE r (\<lambda>data. if length data < 3 then Inl (CFileCounters (length data))
                          else Inr (rd_le24 (take 3 data))), s'))"

subsection \<open>Configuration\<close>

definition get_key_version_plain :: "byte \<Rightarrow> bytes" where
  "get_key_version_plain keyNo = wrap_apdu 0x64 [keyNo]"

definition get_key_version :: "chan \<Rightarrow> byte \<Rightarrow> (cmd_error + bytes) \<times> chan" where
  "get_key_version s keyNo = send_in s 0x64 [keyNo] [] CommMAC"

definition parse_key_version :: "chan \<Rightarrow> bytes \<Rightarrow> (cmd_error + byte) \<times> chan" where
  "parse_key_version s resp =
     (let (r, s') = check_response s resp CommMAC
      in (bindE r (\<lambda>data. if length data \<noteq> 1 then Inl (CKeyVersion (length data)) else Inr (data ! 0)), s'))"

definition set_configuration :: "chan \<Rightarrow> byte \<Rightarrow> bytes \<Rightarrow> (cmd_error + bytes) \<times> chan" where
  "set_configuration s option data = send_in s 0x5C [option] data CommFull"

definition set_random_id :: "chan \<Rightarrow> bool \<Rightarrow> (cmd_error + bytes) \<times> chan" where
  "set_random_id s enable = set_configuration s 0x00 [if enable then 0x02 else 0x00]"

definition set_failed_auth_counter ::
    "chan \<Rightarrow> bool \<Rightarrow> uint16 \<Rightarrow> uint16 \<Rightarrow> (cmd_error + bytes) \<times> chan" where
  "set_failed_auth_counter s enable limit decrement =
     set_configuration s 0x0A ((if enable then 0x01 else 0x00) # le16 limit @ le16 decrement)"

definition enable_lrp :: "chan \<Rightarrow> (cmd_error + bytes) \<times> chan" where
  "enable_lrp s = set_configuration s 0x05 ((replicate 10 0)[4 := 0x02])"

definition parse_set_configuration :: "chan \<Rightarrow> bytes \<Rightarrow> (cmd_error + unit) \<times> chan" where
  "parse_set_configuration s resp =
     (let (r, s') = check_response s resp CommFull in (bindE r (\<lambda>_. Inr ()), s'))"

definition read_sig :: "chan \<Rightarrow> (cmd_error + bytes) \<times> chan" where
  "read_sig s = send_in s 0x3C [0x00] [] CommFull"

definition parse_read_sig :: "chan \<Rightarrow> bytes \<Rightarrow> (cmd_error + bytes) \<times> chan" where
  "parse_read_sig s resp =
     (let (r, s') = check_response s resp CommFull
      in (bindE r (\<lambda>data. if length data \<noteq> 56 then Inl (CSigSize (length data)) else Inr data), s'))"

record tt_status =
  ttPermanent :: byte
  ttCurrent :: byte

definition get_tt_status :: "chan \<Rightarrow> (cmd_error + bytes) \<times> chan" where
  "get_tt_status s = send_in s 0xF7 [] [] CommFull"

definition parse_tt_status :: "chan \<Rightarrow> bytes \<Rightarrow> (cmd_error + tt_status) \<times> chan" where
  "parse_tt_status s resp =
     (let (r, s') = check_response s resp CommFull
      in (bindE r (\<lambda>data. if length data \<noteq> 2 then Inl (CTTStatus (length data))
                          else Inr \<lparr>ttPermanent = data ! 0, ttCurrent = data ! 1\<rparr>), s'))"

section \<open>Key sets\<close>

definition diversify_key :: "bytes \<Rightarrow> bytes \<Rightarrow> bytes \<Rightarrow> cmd_error + bytes" where
  "diversify_key masterKey uid systemID =
     bindE (mapErr (\<lambda>e. case e of ErrKeySize n \<Rightarrow> CKeySize n) (new_cipher masterKey)) (\<lambda>block.
     if length uid = 0 then Inl CNoUID
     else let input = 0x01 # uid @ systemID
          in if 32 < length input then Inl (CDiversification (length input))
             else Inr (cmac (aes_encrypt block) input))"

text \<open>\<open>Slots\<close> is the Go map as an association list.\<close>

record key_set =
  ksMaster :: bytes
  ksSystemID :: bytes
  ksSlots :: "(byte \<times> bytes) list"
  ksDiversify :: bool
  ksAllowLRP :: bool

definition key_set_key :: "key_set \<Rightarrow> byte \<Rightarrow> bytes \<Rightarrow> bytes option" where
  "key_set_key k keyNo uid =
     (case map_of (ksSlots k) keyNo of
        Some key \<Rightarrow> if length key \<noteq> 16 then None else Some key
      | None \<Rightarrow>
          if 4 < keyNo \<or> length (ksMaster k) \<noteq> 16 then None
          else if \<not> ksDiversify k then Some (ksMaster k)
          else case diversify_key (ksMaster k) uid (ksSystemID k) of Inl _ \<Rightarrow> None | Inr key \<Rightarrow> Some key)"

definition key_set_empty :: "key_set \<Rightarrow> bool" where
  "key_set_empty k \<longleftrightarrow> length (ksMaster k) = 0 \<and> length (ksSlots k) = 0"

section \<open>Facts\<close>

lemma length_le32 [simp]: "length (le32 v) = 4"
  by (simp add: le32_def)

lemma length_key_crc [simp]: "length (key_crc k) = 4"
  by (simp add: key_crc_def)

lemma data_header_length: "data_header f o' l = Inr h \<Longrightarrow> length h = 7"
  by (auto simp: data_header_def split: if_splits)

lemma write_chunk_fits:
  "known_mode m \<Longrightarrow> n \<le> max_write_chunk m \<longleftrightarrow> wire_length m 7 n < 256"
  by (cases m; simp add: max_write_chunk_def; presburger)

lemma with_chan_Inr: "with_chan r = (Inr x, s) \<longleftrightarrow> (\<exists>ch. r = (Inr x, ch) \<and> s = Some ch)"
  by (cases r) (auto simp: with_chan_def)

lemma send_in_Inr:
  "send_in s ins h d m = (Inr apdu, s') \<longleftrightarrow>
   (\<exists>ch ch'. s = Some ch \<and> s' = Some ch' \<and> chan_command ch ins h d m = (Inr apdu, ch'))"
  by (auto simp: send_in_def with_chan_Inr split: option.splits)

text \<open>A write that is built reaches the card whole: it always fits one frame.\<close>

lemma write_data_reaches:
  assumes "write_data (Some r) fileNo off data m = (Inr apdu, r1)" "chan_synced r c" "known_mode m"
  shows "\<exists>r' c'. r1 = Some r' \<and>
    chan_verify c apdu m 7 = (Inr (fileNo # offset24 off @ offset24 (of_nat (length data)), data), c') \<and>
    chan_pending r' c' \<and> off \<le> 0xFFFFFF \<and> length data \<le> max_write_chunk m"
proof -
  let ?h = "fileNo # offset24 off @ offset24 (of_nat (length data))"
  from assms(1) obtain r' where h: "data_header fileNo off (of_nat (length data)) = Inr ?h"
      and sz: "length data \<le> max_write_chunk m" and c: "chan_command r 0x8D ?h data m = (Inr apdu, r')"
      "r1 = Some r'" "off \<le> 0xFFFFFF"
    by (auto simp: write_data_def check_write_size_def data_header_def send_in_Inr not_less split: if_splits)
  have l: "length ?h = 7" by simp
  have "wire_length m (length ?h) (length data) < 256"
    unfolding l using sz assms(3) by (simp flip: write_chunk_fits)
  from chan_command_verify [OF assms(2,3) this, where ins = "0x8D"] c sz l show ?thesis by auto
qed

lemma diversify_key_length:
  assumes "diversify_key m u s = Inr k"
  shows "length k = 16 \<and> length m = 16 \<and> u \<noteq> [] \<and> length u + length s < 32"
proof -
  from assms have v: "aes_valid_key m" "length m = 16"
    by (auto simp: diversify_key_def bindE_eq_Inr dest: new_cipher_valid)
  with assms show ?thesis
    by (auto simp: diversify_key_def new_cipher_def aesc.cmac_length Let_def split: if_splits)
qed

lemma key_set_key_length: "key_set_key k n uid = Some key \<Longrightarrow> length key = 16"
  by (auto simp: key_set_key_def dest: diversify_key_length split: option.splits if_splits sum.splits)

lemma with_chan_Inl: "with_chan r = (Inl x, s) \<longleftrightarrow> (\<exists>e ch. r = (Inl e, ch) \<and> x = CSession e \<and> s = Some ch)"
  by (cases r) (auto simp: with_chan_def mapErr_def split: sum.splits)

text \<open>A refused answer leaves the channel as it was.\<close>

lemma check_response_refused:
  assumes "check_response s resp m = (Inl e, s')"
  shows "s' = s"
proof (cases "status_of resp")
  case (Inl e')
  with assms show ?thesis by (simp add: check_response_def)
next
  case (Inr d)
  with assms show ?thesis
    by (cases s) (auto simp: check_response_def with_chan_Inl dest: chan_refused)
qed

end
