(* ===== verification/Ntag424Card.thy ===== *)
theory Ntag424Card
  imports Sdm Commands
begin

text \<open>
  \<open>nfc/nfctest/ntag424_emulator.go\<close>: the emulated NTAG 424 DNA the agent's drivers are
  tested against, as a state machine over APDUs. The card holds five keys, three files with
  their settings, an authentication in progress and an open session; SDM fills the mirrors in
  when the NDEF file is read. A Go run-time panic (an index or a slice out of range) is the
  result \<open>None\<close>. The card's random numbers are an infinite supply of bytes in the state;
  the mutex around a command makes each one atomic.
\<close>

section \<open>State\<close>

record n4_file =
  nfSettings :: file_settings
  nfData :: bytes

record ntag424_state =
  nUID :: bytes
  nKeys :: "bytes list"
  nVersions :: "byte list"
  nFiles :: "n4_file list"
  nSignature :: "bytes option"
  nRandomID :: bool
  nPresented :: bytes
  nFailEnabled :: bool
  nFailLimit :: uint16
  nFailDec :: uint16
  nFailTotal :: uint16
  nTamper :: "(byte \<times> byte) option"
  nPendStage :: nat
  nPendFirst :: bool
  nPendKey :: byte
  nRndB :: bytes
  nSession :: "channel option"
  nAuthKey :: byte
  nLRP :: bool
  nAppSelected :: bool
  nSelected :: nat
  nSDMCounter :: uint32
  nSDMCounted :: bool
  nSDMCurrent :: uint32
  nFrame :: nat
  nVersion :: "bytes list"
  nRandom :: "nat \<Rightarrow> byte"

definition ntag424_file_sizes :: "nat list" where
  "ntag424_file_sizes = [32, 256, 128]"

definition ntag424_signature :: bytes where
  "ntag424_signature = map (\<lambda>i. byteN (0xA0 + i)) [0..<56]"

definition cc_file :: bytes where
  "cc_file = [0x00, 0x17, 0x20, 0x00, 0xFF, 0x00, 0xFF, 0x04, 0x06, 0xE1, 0x04, 0x01, 0x00, 0x00, 0x00,
     0x05, 0x06, 0xE1, 0x05, 0x00, 0x80, 0x82, 0x83]"

definition new_ntag424_state :: "bytes \<Rightarrow> bytes list \<Rightarrow> (nat \<Rightarrow> byte) \<Rightarrow> ntag424_state" where
  "new_ntag424_state uid version random =
     (let s1 = zero_settings\<lparr>fsRead := AccessFree, fsFileSize := 32\<rparr>;
          s2 = zero_settings\<lparr>fsReadWrite := AccessFree, fsRead := AccessFree, fsWrite := AccessFree,
                 fsFileSize := 256\<rparr>;
          s3 = zero_settings\<lparr>fsCommMode := CommFull, fsReadWrite := 3, fsRead := 2, fsWrite := 3,
                 fsFileSize := 128\<rparr>
      in \<lparr>nUID = uid, nKeys = replicate 5 (replicate 16 0), nVersions = replicate 5 0,
          nFiles = [\<lparr>nfSettings = s1, nfData = copy_at 0 (replicate 32 0) cc_file\<rparr>,
                    \<lparr>nfSettings = s2, nfData = replicate 256 0\<rparr>,
                    \<lparr>nfSettings = s3, nfData = replicate 128 0\<rparr>],
          nSignature = None, nRandomID = False, nPresented = uid,
          nFailEnabled = True, nFailLimit = 1000, nFailDec = 10, nFailTotal = 0, nTamper = None,
          nPendStage = 0, nPendFirst = False, nPendKey = 0, nRndB = [], nSession = None,
          nAuthKey = 0, nLRP = False, nAppSelected = False, nSelected = 0, nSDMCounter = 0,
          nSDMCounted = False, nSDMCurrent = 0, nFrame = 0, nVersion = version, nRandom = random\<rparr>)"

definition rand_read :: "nat \<Rightarrow> ntag424_state \<Rightarrow> bytes \<times> ntag424_state" where
  "rand_read n s = (map (nRandom s) [0..<n], s\<lparr>nRandom := \<lambda>i. nRandom s (i + n)\<rparr>)"

definition n4_sw :: "byte \<Rightarrow> bytes" where "n4_sw st = [0x91, st]"
definition n4_plain :: "bytes \<Rightarrow> bytes" where "n4_plain data = data @ [0x91, 0x00]"
definition apdu_sw :: "uint16 \<Rightarrow> bytes" where "apdu_sw sw = [ucast (drop_bit 8 sw), ucast sw]"
definition apdu_data :: "bytes \<Rightarrow> bytes" where "apdu_data data = data @ [0x90, 0x00]"

definition drop_session :: "ntag424_state \<Rightarrow> ntag424_state" where
  "drop_session s = s\<lparr>nSession := None, nPendStage := 0\<rparr>"

definition clear_selection :: "ntag424_state \<Rightarrow> ntag424_state" where
  "clear_selection s = (drop_session s)\<lparr>nSelected := 0, nSDMCounted := False\<rparr>"

definition reroll :: "ntag424_state \<Rightarrow> ntag424_state" where
  "reroll s = (if \<not> nRandomID s then s\<lparr>nPresented := nUID s\<rparr>
     else let (b, s') = rand_read 4 s in s'\<lparr>nPresented := b[0 := 0x08]\<rparr>)"

definition set_card_random_id :: "bool \<Rightarrow> ntag424_state \<Rightarrow> ntag424_state" where
  "set_card_random_id on s = reroll (s\<lparr>nRandomID := on\<rparr>)"

definition new_presentation :: "ntag424_state \<Rightarrow> bytes \<times> ntag424_state" where
  "new_presentation s =
     (let s' = reroll ((clear_selection s)\<lparr>nAppSelected := False, nFrame := 0\<rparr>) in (nPresented s', s'))"

section \<open>Authentication\<close>

definition auth_first_step :: "bool \<Rightarrow> bytes \<Rightarrow> ntag424_state \<Rightarrow> bytes \<times> ntag424_state" where
  "auth_first_step first payload s =
     (if length payload < 1 \<or> first \<and> length payload < 2 then (n4_sw 0x7E, s)
      else let keyNo = payload ! 0
           in if 4 < keyNo then (n4_sw 0x40, s)
              else if \<not> first \<and> nSession s = None then (n4_sw 0x1C, s)
              else if nFailEnabled s \<and> nFailLimit s \<le> nFailTotal s then (n4_sw 0xAD, s)
              else case new_cipher (nKeys s ! unat keyNo) of
                Inl _ \<Rightarrow> (n4_sw 0xAE, s)
              | Inr block \<Rightarrow>
                  (let (b, s1) = rand_read 16 s;
                       s2 = s1\<lparr>nRndB := b, nPendStage := 1, nPendFirst := first, nPendKey := keyNo\<rparr>
                   in if nLRP s2 then (0x01 # b @ [0x91, 0xAF], s2)
                      else (encrypt_cbc block b @ [0x91, 0xAF], s2)))"

definition fail_auth :: "ntag424_state \<Rightarrow> bytes \<times> ntag424_state" where
  "fail_auth s =
     (let s' = drop_session s
      in (n4_sw 0xAE, if nFailTotal s' < 0xFFFF then s'\<lparr>nFailTotal := nFailTotal s' + 1\<rparr> else s'))"

definition lower_failures :: "ntag424_state \<Rightarrow> ntag424_state" where
  "lower_failures s =
     (if nFailTotal s \<le> nFailDec s then s\<lparr>nFailTotal := 0\<rparr>
      else s\<lparr>nFailTotal := nFailTotal s - nFailDec s\<rparr>)"

text \<open>A second step that continues a transaction reads the open session; with none the Go code
  calls a method on a nil interface, a panic.\<close>

definition auth_second_lrp :: "bytes \<Rightarrow> bytes \<Rightarrow> ntag424_state \<Rightarrow> (bytes \<times> ntag424_state) option" where
  "auth_second_lrp key payload s =
     (case (if nPendFirst s then let (t, s1) = rand_read 4 s in Some (t, 0, s1)
            else map_option (\<lambda>ch. (chan_ti ch, chan_counter ch, s)) (nSession s)) of
        None \<Rightarrow> None
      | Some (t, ctr, s1) \<Rightarrow>
          Some (case lrp_answer (nPendFirst s1) key (nRndB s1) payload t ctr of
             Inl _ \<Rightarrow> fail_auth s1
           | Inr (reply, sess) \<Rightarrow>
               (reply @ [0x91, 0x00],
                lower_failures (s1\<lparr>nSession := Some (LrpChannel sess), nAuthKey := nPendKey s1\<rparr>))))"

definition auth_second_aes :: "bytes \<Rightarrow> bytes \<Rightarrow> ntag424_state \<Rightarrow> (bytes \<times> ntag424_state) option" where
  "auth_second_aes key payload s =
     (case new_cipher key of
        Inl _ \<Rightarrow> Some (fail_auth s)
      | Inr block \<Rightarrow>
          let plain = decrypt_cbc block payload; rndA = take 16 plain
          in if drop 16 plain \<noteq> rotate_left (nRndB s) then Some (fail_auth s)
             else case (if nPendFirst s
                        then let (t, s1) = rand_read 4 s
                             in Some (t, 0, t @ rotate_left rndA @ replicate 12 0, s1)
                        else map_option (\<lambda>ch. (chan_ti ch, chan_counter ch, rotate_left rndA, s)) (nSession s)) of
               None \<Rightarrow> None
             | Some (t, ctr, reply, s1) \<Rightarrow>
                 Some (case bindE (derive_session_keys key rndA (nRndB s1))
                              (\<lambda>(encK, macK). new_session_at t encK macK ctr) of
                    Inl _ \<Rightarrow> fail_auth s1
                  | Inr sess \<Rightarrow>
                      (encrypt_cbc block reply @ [0x91, 0x00],
                       lower_failures (s1\<lparr>nSession := Some (AesChannel sess), nAuthKey := nPendKey s1\<rparr>))))"

definition auth_second :: "bytes \<Rightarrow> ntag424_state \<Rightarrow> (bytes \<times> ntag424_state) option" where
  "auth_second payload s0 =
     (let s = s0\<lparr>nPendStage := 0\<rparr>
      in if length payload \<noteq> 32 then Some (n4_sw 0x7E, s)
         else let key = nKeys s ! unat (nPendKey s)
              in if nLRP s then auth_second_lrp key payload s else auth_second_aes key payload s)"

section \<open>Commands inside and outside a session\<close>

definition secure :: "bytes \<Rightarrow> comm_mode \<Rightarrow> nat \<Rightarrow> ntag424_state \<Rightarrow> (bytes + bytes \<times> bytes) \<times> ntag424_state" where
  "secure cmd mode headerLen s =
     (case nSession s of
        None \<Rightarrow> (Inl (n4_sw 0xAE), s)
      | Some ch \<Rightarrow>
          (case chan_verify ch cmd mode headerLen of
             (Inl EMACMismatch, ch') \<Rightarrow> (Inl (n4_sw 0x1E), drop_session s)
           | (Inl _, ch') \<Rightarrow> (Inl (n4_sw 0x7E), drop_session s)
           | (Inr (hdr, data), ch') \<Rightarrow> (Inr (hdr, data), s\<lparr>nSession := Some ch'\<rparr>)))"

definition answer :: "bytes \<Rightarrow> comm_mode \<Rightarrow> ntag424_state \<Rightarrow> (bytes \<times> ntag424_state) option" where
  "answer data mode s =
     (case nSession s of
        None \<Rightarrow> None
      | Some ch \<Rightarrow>
          Some (case chan_answer ch 0x00 data mode of
             (Inl _, ch') \<Rightarrow> (n4_sw 0x1C, drop_session s)
           | (Inr resp, ch') \<Rightarrow> (resp, s\<lparr>nSession := Some ch'\<rparr>)))"

definition permitted :: "file_settings \<Rightarrow> bool \<Rightarrow> ntag424_state \<Rightarrow> bool \<times> byte" where
  "permitted fs wr s =
     (let rights = [if wr then fsWrite fs else fsRead fs, fsReadWrite fs];
          grants = (\<lambda>r. r = AccessFree \<or> r \<le> 4 \<and> nSession s \<noteq> None \<and> r = nAuthKey s);
          needsKey = list_ex (\<lambda>r. r \<le> 4) rights
      in if list_ex grants rights then (True, 0)
         else if needsKey \<and> nSession s = None then (False, 0xAE) else (False, 0x9D))"

definition card_file :: "byte \<Rightarrow> ntag424_state \<Rightarrow> n4_file option" where
  "card_file fileNo s = (if fileNo < 1 \<or> 3 < fileNo then None else Some (nFiles s ! (unat fileNo - 1)))"

definition settings_block :: "n4_file \<Rightarrow> bytes" where
  "settings_block f =
     (case settings_encode (nfSettings f) of
        Inl _ \<Rightarrow> []
      | Inr enc \<Rightarrow> 0x00 # take 3 enc @ offset24 (of_nat (length (nfData f))) @ drop 3 enc)"

definition card_get_file_settings :: "bytes \<Rightarrow> bytes \<Rightarrow> ntag424_state \<Rightarrow> (bytes \<times> ntag424_state) option" where
  "card_get_file_settings cmd payload s =
     (if nSession s = None
      then Some (if length payload \<noteq> 1 then n4_sw 0x7E
                 else case card_file (payload ! 0) s of
                   None \<Rightarrow> n4_sw 0xF0
                 | Some f \<Rightarrow> if fsRead (nfSettings f) \<noteq> AccessFree \<and> fsReadWrite (nfSettings f) \<noteq> AccessFree
                                \<and> fsChange (nfSettings f) \<noteq> AccessFree then n4_sw 0xAE
                             else n4_plain (settings_block f), s)
      else case secure cmd CommMAC 1 s of
        (Inl fail, s1) \<Rightarrow> Some (fail, s1)
      | (Inr (hdr, _), s1) \<Rightarrow>
          (case card_file (hdr ! 0) s1 of
             None \<Rightarrow> Some (n4_sw 0xF0, s1)
           | Some f \<Rightarrow> answer (settings_block f) CommMAC s1))"

definition card_get_key_version :: "bytes \<Rightarrow> bytes \<Rightarrow> ntag424_state \<Rightarrow> (bytes \<times> ntag424_state) option" where
  "card_get_key_version cmd payload s =
     (if nSession s = None
      then Some (if length payload \<noteq> 1 then n4_sw 0x7E
                 else if 4 < payload ! 0 then n4_sw 0x40
                 else n4_plain [nVersions s ! unat (payload ! 0)], s)
      else case secure cmd CommMAC 1 s of
        (Inl fail, s1) \<Rightarrow> Some (fail, s1)
      | (Inr (hdr, _), s1) \<Rightarrow>
          if 4 < hdr ! 0 then Some (n4_sw 0x40, s1)
          else answer [nVersions s1 ! unat (hdr ! 0)] CommMAC s1)"

definition n4_offset :: "bytes \<Rightarrow> nat" where
  "n4_offset b = unat (b ! 0) + 256 * unat (b ! 1) + 65536 * unat (b ! 2)"

section \<open>Secure dynamic messaging\<close>

text \<open>\<open>fmt.Sprintf("%06X", v)\<close>: at least six digits, more when the value needs them.\<close>

definition fmt_06X :: "uint32 \<Rightarrow> bytes" where
  "fmt_06X v = drop (if v < 0x1000000 then 2 else if v < 0x10000000 then 1 else 0) (hex_upper (be32 v))"

text \<open>\<open>copy(out[off:], text)\<close>, a panic when the offset is past the end.\<close>

definition put_text :: "uint32 \<Rightarrow> bytes \<Rightarrow> bytes \<Rightarrow> bytes option" where
  "put_text off txt out = (if length out < unat off then None else Some (copy_at (unat off) out txt))"

definition picc_block :: "file_settings \<Rightarrow> bytes \<Rightarrow> bytes \<Rightarrow> bytes" where
  "picc_block fs uid ctr3 =
     (let tag = 0x07 OR (if fsMirrorUID fs then 0x80 else 0) OR (if fsMirrorReadCounter fs then 0x40 else 0);
          p0 = replicate 16 0;
          (p1, n) = (if fsMirrorUID fs then (copy_at 1 p0 uid, 1 + min 15 (length uid)) else (p0, 1));
          p2 = (if fsMirrorReadCounter fs then copy_at n p1 ctr3 else p1)
      in p2[0 := tag])"

text \<open>The PICCData mirror: the block enciphered, or the fields in the clear.\<close>

definition view_picc ::
    "file_settings \<Rightarrow> uint32 \<Rightarrow> bytes \<Rightarrow> ntag424_state \<Rightarrow> ((bool \<times> bytes) \<times> ntag424_state) option" where
  "view_picc fs ctr out s =
     (if fsSDMMetaRead fs \<le> 4
      then let plain = picc_block fs (nUID s) (encode_counter ctr); k = nKeys s ! unat (fsSDMMetaRead fs)
           in if nLRP s
              then (case lrp_new k UpdateMAC of
                      Inl _ \<Rightarrow> Some ((False, out), s)
                    | Inr key \<Rightarrow>
                        (let (rnd, s1) = rand_read 8 s
                         in case lrp_encrypt key rnd plain of
                              Inl _ \<Rightarrow> Some ((False, out), s1)
                            | Inr enc \<Rightarrow>
                                map_option (\<lambda>o'. ((True, o'), s1))
                                  (put_text (fsPICCDataOffset fs) (hex_upper (rnd @ enc)) out)))
              else if \<not> aes_valid_key k then Some ((False, out), s)
              else map_option (\<lambda>o'. ((True, o'), s))
                     (put_text (fsPICCDataOffset fs)
                        (hex_upper (cbc_encrypt (aes_encrypt k) (replicate 16 0) plain)) out)
      else if fsSDMMetaRead fs = AccessFree
      then (case (if fsMirrorUID fs then put_text (fsUIDOffset fs) (hex_upper (nUID s)) out else Some out) of
              None \<Rightarrow> None
            | Some o1 \<Rightarrow>
                map_option (\<lambda>o'. ((True, o'), s))
                  (if fsMirrorReadCounter fs then put_text (fsReadCounterOffset fs) (fmt_06X ctr) o1 else Some o1))
      else Some ((True, out), s))"

text \<open>The file data enciphered in place, and the MAC over what then lies before it. \<open>picc\<close> is
  what the card says of itself on this read. Slices out of range, and a length CBC refuses,
  are panics.\<close>

definition view_mac :: "file_settings \<Rightarrow> uint32 \<Rightarrow> bytes \<Rightarrow> ntag424_state \<Rightarrow> bytes option" where
  "view_mac fs ctr out s =
     (let picc = \<lparr>pUID = nUID s, pReadCounter = ctr, pUIDMirrored = fsMirrorUID fs,
                  pCounterMirrored = fsMirrorReadCounter fs, pLRP = nLRP s\<rparr>;
          fileKey = nKeys s ! unat (fsSDMFileRead fs);
          mac_step = (\<lambda>out.
            if unat (fsMACOffset fs) < unat (fsMACInputOffset fs) \<or> length out < unat (fsMACOffset fs) then None
            else case sdm_mac fileKey picc (slice (unat (fsMACInputOffset fs)) (unat (fsMACOffset fs)) out) of
              Inl _ \<Rightarrow> Some out
            | Inr mac \<Rightarrow> put_text (fsMACOffset fs) (hex_upper mac) out)
      in if \<not> fsEncryptFileData fs then mac_step out
         else case sdm_session_keys fileKey picc of
           Inl _ \<Rightarrow> Some out
         | Inr (ek, _) \<Rightarrow>
             if \<not> aes_valid_key ek then Some out
             else let iv = aes_encrypt ek (copy_at 0 (replicate 16 0) (encode_counter ctr));
                      i = unat (fsENCOffset fs); j = unat (fsENCOffset fs + fsENCLength fs div 2)
                  in if j < i \<or> length out < j \<or> (j - i) mod 16 \<noteq> 0 then None
                     else case put_text (fsENCOffset fs)
                                 (hex_upper (cbc_encrypt (aes_encrypt ek) iv (slice i j out))) out of
                       None \<Rightarrow> None
                     | Some out' \<Rightarrow> mac_step out')"

definition count_read :: "ntag424_state \<Rightarrow> ntag424_state" where
  "count_read s =
     (if nSDMCounted s then s
      else s\<lparr>nSDMCurrent := nSDMCounter s,
             nSDMCounter := (if nSDMCounter s < 0xFFFFFF then nSDMCounter s + 1 else nSDMCounter s),
             nSDMCounted := True\<rparr>)"

definition view :: "byte \<Rightarrow> n4_file \<Rightarrow> ntag424_state \<Rightarrow> (bytes \<times> ntag424_state) option" where
  "view fileNo f s =
     (let fs = nfSettings f
      in if fileNo \<noteq> 0x02 \<or> \<not> fsSDMEnabled fs then Some (nfData f, s)
         else let s1 = count_read s; ctr = nSDMCurrent s1
              in case view_picc fs ctr (nfData f) s1 of
                   None \<Rightarrow> None
                 | Some ((False, out), s2) \<Rightarrow> Some (out, s2)
                 | Some ((True, out), s2) \<Rightarrow>
                     if 4 < fsSDMFileRead fs then Some (out, s2)
                     else map_option (\<lambda>o'. (o', s2)) (view_mac fs ctr out s2))"

section \<open>Reading and writing\<close>

definition read_result :: "bytes \<Rightarrow> comm_mode \<Rightarrow> ntag424_state \<Rightarrow> (bytes \<times> ntag424_state) option" where
  "read_result hdr mode s =
     (case card_file (hdr ! 0) s of
        None \<Rightarrow> Some (n4_sw 0xF0, s)
      | Some f \<Rightarrow>
          let (ok, st) = permitted (nfSettings f) False s
          in if \<not> ok then Some (n4_sw st, s)
             else let off = n4_offset (slice 1 4 hdr); n0 = n4_offset (slice 4 7 hdr);
                      fsize = length (nfData f); n = (if n0 = 0 then fsize - off else n0)
                  in if fsize < off \<or> fsize < off + n then Some (n4_sw 0xBE, s)
                     else if 224 < n then Some (n4_sw 0x7E, s)
                     else case view (hdr ! 0) f s of
                       None \<Rightarrow> None
                     | Some (v, s1) \<Rightarrow>
                         let data = slice off (off + n) v
                         in if nSession s1 = None then Some (n4_plain data, s1) else answer data mode s1)"

definition card_read_data :: "bytes \<Rightarrow> bytes \<Rightarrow> ntag424_state \<Rightarrow> (bytes \<times> ntag424_state) option" where
  "card_read_data cmd payload s =
     (if nSession s = None
      then if length payload \<noteq> 7 then Some (n4_sw 0x7E, s) else read_result payload CommPlain s
      else if length payload < 1 then Some (n4_sw 0x7E, s)
      else case card_file (payload ! 0) s of
        None \<Rightarrow> Some (n4_sw 0xF0, s)
      | Some f \<Rightarrow>
          (case secure cmd (fsCommMode (nfSettings f)) 7 s of
             (Inl fail, s1) \<Rightarrow> Some (fail, s1)
           | (Inr (hdr, _), s1) \<Rightarrow> read_result hdr (fsCommMode (nfSettings f)) s1))"

definition set_file_data :: "byte \<Rightarrow> bytes \<Rightarrow> ntag424_state \<Rightarrow> ntag424_state" where
  "set_file_data fileNo data s =
     s\<lparr>nFiles := (nFiles s)[unat fileNo - 1 := (nFiles s ! (unat fileNo - 1))\<lparr>nfData := data\<rparr>]\<rparr>"

definition write_result ::
    "bytes \<Rightarrow> bytes \<Rightarrow> comm_mode \<Rightarrow> ntag424_state \<Rightarrow> (bytes \<times> ntag424_state) option" where
  "write_result hdr data mode s =
     (case card_file (hdr ! 0) s of
        None \<Rightarrow> Some (n4_sw 0xF0, s)
      | Some f \<Rightarrow>
          let (ok, st) = permitted (nfSettings f) True s
          in if \<not> ok then Some (n4_sw st, s)
             else let off = n4_offset (slice 1 4 hdr); n = n4_offset (slice 4 7 hdr)
                  in if n \<noteq> length data then Some (n4_sw 0x7E, s)
                     else if length (nfData f) < off + n then Some (n4_sw 0xBE, s)
                     else let s1 = set_file_data (hdr ! 0) (copy_at off (nfData f) data) s
                          in if nSession s1 = None then Some (n4_plain [], s1) else answer [] mode s1)"

definition card_write_data :: "bytes \<Rightarrow> bytes \<Rightarrow> ntag424_state \<Rightarrow> (bytes \<times> ntag424_state) option" where
  "card_write_data cmd payload s =
     (if nSession s = None
      then if length payload < 7 then Some (n4_sw 0x7E, s)
           else write_result (take 7 payload) (drop 7 payload) CommPlain s
      else if length payload < 1 then Some (n4_sw 0x7E, s)
      else case card_file (payload ! 0) s of
        None \<Rightarrow> Some (n4_sw 0xF0, s)
      | Some f \<Rightarrow>
          (case secure cmd (fsCommMode (nfSettings f)) 7 s of
             (Inl fail, s1) \<Rightarrow> Some (fail, s1)
           | (Inr (hdr, data), s1) \<Rightarrow> write_result hdr data (fsCommMode (nfSettings f)) s1))"

section \<open>Changing the card\<close>

definition may_change :: "n4_file \<Rightarrow> ntag424_state \<Rightarrow> bool" where
  "may_change f s \<longleftrightarrow>
     (let c = fsChange (nfSettings f)
      in if c = AccessFree then True else if c = AccessNever then False else c = nAuthKey s)"

definition mirror_fits :: "uint32 \<Rightarrow> uint32 \<Rightarrow> uint32 \<Rightarrow> bool" where
  "mirror_fits fsize off width \<longleftrightarrow> off + width \<le> fsize"

definition check_settings :: "bool \<Rightarrow> byte \<Rightarrow> file_settings \<Rightarrow> byte" where
  "check_settings lrp fileNo fs =
     (if \<not> isOk (settings_encode fs) then 0x9E
      else if \<not> fsSDMEnabled fs then 0x00
      else let fsize = of_nat (ntag424_file_sizes ! (unat fileNo - 1)); fits = mirror_fits fsize
           in if fileNo \<noteq> 0x02 \<or> \<not> fsASCIIEncoding fs then 0x9E
              else if fsMirrorUID fs \<and> fsSDMMetaRead fs = AccessFree \<and> \<not> fits (fsUIDOffset fs) 14 then 0xBE
              else if fsMirrorReadCounter fs \<and> fsSDMMetaRead fs = AccessFree \<and> \<not> fits (fsReadCounterOffset fs) 6 then 0xBE
              else if fsSDMMetaRead fs \<le> 4 \<and> \<not> fits (fsPICCDataOffset fs) (if lrp then 48 else 32) then 0xBE
              else if fsSDMFileRead fs \<le> 4 \<and>
                      (fsMACOffset fs < fsMACInputOffset fs \<or> \<not> fits (fsMACOffset fs) 16) then 0xBE
              else if fsEncryptFileData fs \<and>
                      (lrp \<or> 4 < fsSDMFileRead fs \<or> fsENCLength fs = 0 \<or> fsENCLength fs mod 32 \<noteq> 0
                       \<or> \<not> fits (fsENCOffset fs) (fsENCLength fs)) then 0x9E
              else 0x00)"

definition set_card_settings :: "byte \<Rightarrow> file_settings \<Rightarrow> ntag424_state \<Rightarrow> ntag424_state" where
  "set_card_settings fileNo fs s =
     (let i = unat fileNo - 1; f = nFiles s ! i
      in s\<lparr>nFiles := (nFiles s)[i := f\<lparr>nfSettings := fs\<lparr>fsFileType := 0x00,
                                    fsFileSize := of_nat (length (nfData f))\<rparr>\<rparr>]\<rparr>)"

definition card_change_file_settings :: "bytes \<Rightarrow> ntag424_state \<Rightarrow> (bytes \<times> ntag424_state) option" where
  "card_change_file_settings cmd s =
     (case secure cmd CommFull 1 s of
        (Inl fail, s1) \<Rightarrow> Some (fail, s1)
      | (Inr (hdr, data), s1) \<Rightarrow>
          (case card_file (hdr ! 0) s1 of
             None \<Rightarrow> Some (n4_sw 0xF0, s1)
           | Some f \<Rightarrow>
               if \<not> may_change f s1 then Some (n4_sw 0x9D, s1)
               else case parse_encoded_settings data of
                 Inl _ \<Rightarrow> Some (n4_sw 0x9E, s1)
               | Inr fs \<Rightarrow>
                   let st = check_settings (nLRP s1) (hdr ! 0) fs
                   in if st \<noteq> 0x00 then Some (n4_sw st, s1)
                      else answer [] CommFull (set_card_settings (hdr ! 0) fs s1)))"

definition n4_key_crc :: "bytes \<Rightarrow> bytes" where
  "n4_key_crc key = le32 (NOT (crc32_ieee key))"

definition card_change_key :: "bytes \<Rightarrow> ntag424_state \<Rightarrow> (bytes \<times> ntag424_state) option" where
  "card_change_key cmd s =
     (case secure cmd CommFull 1 s of
        (Inl fail, s1) \<Rightarrow> Some (fail, s1)
      | (Inr (hdr, data), s1) \<Rightarrow>
          let keyNo = hdr ! 0; i = unat keyNo;
              store = (\<lambda>newKey version s2.
                let s3 = s2\<lparr>nKeys := (nKeys s2)[i := newKey], nVersions := (nVersions s2)[i := version]\<rparr>
                in if keyNo = nAuthKey s3 then Some (n4_sw 0x00, drop_session s3) else answer [] CommFull s3)
          in if 4 < keyNo then Some (n4_sw 0x40, s1)
             else if nAuthKey s1 \<noteq> 0 then Some (n4_sw 0x9D, s1)
             else if keyNo = 0
             then if length data \<noteq> 16 + 1 then Some (n4_sw 0x7E, s1) else store (take 16 data) (data ! 16) s1
             else if length data \<noteq> 16 + 5 then Some (n4_sw 0x7E, s1)
             else let newKey = xor_bytes (take 16 data) (nKeys s1 ! i)
                  in if drop 17 data \<noteq> n4_key_crc newKey then Some (n4_sw 0x1E, drop_session s1)
                     else store newKey (data ! 16) s1)"

definition card_get_uid :: "bytes \<Rightarrow> ntag424_state \<Rightarrow> (bytes \<times> ntag424_state) option" where
  "card_get_uid cmd s =
     (case secure cmd CommFull 0 s of
        (Inl fail, s1) \<Rightarrow> Some (fail, s1)
      | (Inr _, s1) \<Rightarrow> answer (nUID s1) CommFull s1)"

definition card_get_file_counters :: "bytes \<Rightarrow> ntag424_state \<Rightarrow> (bytes \<times> ntag424_state) option" where
  "card_get_file_counters cmd s =
     (case secure cmd CommFull 1 s of
        (Inl fail, s1) \<Rightarrow> Some (fail, s1)
      | (Inr (hdr, _), s1) \<Rightarrow>
          (case card_file (hdr ! 0) s1 of
             None \<Rightarrow> Some (n4_sw 0xF0, s1)
           | Some f \<Rightarrow>
               let fs = nfSettings f
               in if \<not> fsSDMEnabled fs \<or> fsSDMCounterRet fs \<noteq> AccessFree \<and> fsSDMCounterRet fs \<noteq> nAuthKey s1
                  then Some (n4_sw 0x9D, s1)
                  else answer (encode_counter (nSDMCounter s1)) CommFull s1))"

definition rd_le16 :: "bytes \<Rightarrow> uint16" where
  "rd_le16 b = ucast (b ! 0) OR push_bit 8 (ucast (b ! 1))"

definition card_set_configuration :: "bytes \<Rightarrow> ntag424_state \<Rightarrow> (bytes \<times> ntag424_state) option" where
  "card_set_configuration cmd s =
     (case secure cmd CommFull 1 s of
        (Inl fail, s1) \<Rightarrow> Some (fail, s1)
      | (Inr (hdr, data), s1) \<Rightarrow>
          if nAuthKey s1 \<noteq> 0 then Some (n4_sw 0x9D, s1)
          else if hdr ! 0 = 0x00
          then if length data < 1 then Some (n4_sw 0x7E, s1)
               else answer [] CommFull (set_card_random_id (data ! 0 AND 0x02 \<noteq> 0) s1)
          else if hdr ! 0 = 0x0A
          then if length data \<noteq> 5 then Some (n4_sw 0x7E, s1)
               else answer [] CommFull (s1\<lparr>nFailEnabled := data ! 0 AND 1 \<noteq> 0,
                      nFailLimit := rd_le16 (drop 1 data), nFailDec := rd_le16 (drop 3 data)\<rparr>)
          else if hdr ! 0 = 0x05
          then if length data \<noteq> 10 then Some (n4_sw 0x7E, s1)
               else if data ! 4 AND 0x02 = 0 then answer [] CommFull s1
               else map_option (\<lambda>(reply, s2).
                      (reply, s2\<lparr>nLRP := True,
                         nFiles := map (\<lambda>f. f\<lparr>nfSettings := (nfSettings f)\<lparr>fsSDMEnabled := False\<rparr>\<rparr>) (nFiles s2)\<rparr>))
                      (answer [] CommFull s1)
          else Some (n4_sw 0x9E, s1))"

definition card_read_sig :: "bytes \<Rightarrow> ntag424_state \<Rightarrow> (bytes \<times> ntag424_state) option" where
  "card_read_sig cmd s =
     (case secure cmd CommFull 1 s of
        (Inl fail, s1) \<Rightarrow> Some (fail, s1)
      | (Inr (hdr, _), s1) \<Rightarrow>
          if hdr ! 0 \<noteq> 0x00 then Some (n4_sw 0x9E, s1)
          else case nSignature s1 of
            Some sig \<Rightarrow> answer sig CommFull s1
          | None \<Rightarrow> answer ntag424_signature CommFull s1)"

definition card_get_tt_status :: "bytes \<Rightarrow> ntag424_state \<Rightarrow> (bytes \<times> ntag424_state) option" where
  "card_get_tt_status cmd s =
     (case secure cmd CommFull 0 s of
        (Inl fail, s1) \<Rightarrow> Some (fail, s1)
      | (Inr _, s1) \<Rightarrow>
          (case nTamper s1 of
             None \<Rightarrow> Some (n4_sw 0x1C, s1)
           | Some (p, c) \<Rightarrow> answer [p, c] CommFull s1))"

section \<open>The ISO path\<close>

definition type4_ndef_app_aid :: bytes where
  "type4_ndef_app_aid = [0xD2, 0x76, 0x00, 0x00, 0x85, 0x01, 0x01]"

definition iso_select :: "bytes \<Rightarrow> ntag424_state \<Rightarrow> bytes \<times> ntag424_state" where
  "iso_select cmd s0 =
     (let s = clear_selection s0
      in if length cmd < 5 then (apdu_sw 0x6700, s)
         else let lc = unat (cmd ! 4)
              in if length cmd < 5 + lc then (apdu_sw 0x6700, s)
                 else let p1 = cmd ! 2; p2 = cmd ! 3; data = slice 5 (5 + lc) cmd
                      in if p1 = 0x04
                         then if p2 = 0x00 \<and> data = type4_ndef_app_aid
                              then (apdu_sw 0x9000, s\<lparr>nAppSelected := True\<rparr>)
                              else (apdu_sw 0x6A82, s)
                         else if p1 = 0x00
                         then if p2 \<noteq> 0x0C then (apdu_sw 0x6A86, s)
                              else if \<not> nAppSelected s then (apdu_sw 0x6985, s)
                              else if data = [0xE1, 0x03] then (apdu_sw 0x9000, s\<lparr>nSelected := 1\<rparr>)
                              else if data = [0xE1, 0x04] then (apdu_sw 0x9000, s\<lparr>nSelected := 2\<rparr>)
                              else if data = [0xE1, 0x05] then (apdu_sw 0x9000, s\<lparr>nSelected := 3\<rparr>)
                              else (apdu_sw 0x6A82, s)
                         else (apdu_sw 0x6A86, s))"

definition iso_offset :: "bytes \<Rightarrow> nat" where
  "iso_offset cmd = 256 * unat (cmd ! 2 AND 0x7F) + unat (cmd ! 3)"

definition iso_read :: "bytes \<Rightarrow> ntag424_state \<Rightarrow> (bytes \<times> ntag424_state) option" where
  "iso_read cmd s =
     (if length cmd < 5 then Some (apdu_sw 0x6700, s)
      else if nSelected s = 0 then Some (apdu_sw 0x6986, s)
      else let le = (if unat (cmd ! 4) = 0 then 256 else unat (cmd ! 4));
               f = nFiles s ! (nSelected s - 1)
           in if \<not> fst (permitted (nfSettings f) False s) then Some (apdu_sw 0x6982, s)
              else let off = iso_offset cmd
                   in if length (nfData f) < off then Some (apdu_sw 0x6B00, s)
                      else case view (byteN (nSelected s)) f s of
                        None \<Rightarrow> None
                      | Some (v, s1) \<Rightarrow> Some (apdu_data (slice off (min (off + le) (length v)) v), s1))"

definition iso_update :: "bytes \<Rightarrow> ntag424_state \<Rightarrow> bytes \<times> ntag424_state" where
  "iso_update cmd s =
     (if length cmd < 5 then (apdu_sw 0x6700, s)
      else let lc = unat (cmd ! 4)
           in if length cmd < 5 + lc then (apdu_sw 0x6700, s)
              else if nSelected s = 0 then (apdu_sw 0x6986, s)
              else let f = nFiles s ! (nSelected s - 1)
                   in if \<not> fst (permitted (nfSettings f) True s) then (apdu_sw 0x6982, s)
                      else let off = iso_offset cmd
                           in if length (nfData f) < off + lc then (apdu_sw 0x6A84, s)
                              else (apdu_sw 0x9000,
                                    set_file_data (byteN (nSelected s))
                                      (copy_at off (nfData f) (slice 5 (5 + lc) cmd)) s))"

section \<open>Dispatch\<close>

text \<open>\<open>n4Payload\<close>: outside the option, the index \<open>cmd[4]\<close> of a four-byte command (a panic);
  inside, a length that does not match.\<close>

definition n4_payload :: "bytes \<Rightarrow> bytes option option" where
  "n4_payload cmd =
     (if length cmd = 5 then Some (Some [])
      else if length cmd < 5 then None
      else let lc = unat (cmd ! 4)
           in Some (if length cmd \<noteq> 6 + lc then None else Some (slice 5 (5 + lc) cmd)))"

definition version_frame :: "ntag424_state \<Rightarrow> bytes \<times> ntag424_state" where
  "version_frame s =
     (if length (nVersion s) \<le> nFrame s then (n4_sw 0x1C, s)
      else let frame = nVersion s ! nFrame s; s1 = s\<lparr>nFrame := nFrame s + 1\<rparr>
           in (frame @ [0x91, if nFrame s1 = length (nVersion s1) then 0x00 else 0xAF], s1))"

definition native :: "bytes \<Rightarrow> ntag424_state \<Rightarrow> (bytes \<times> ntag424_state) option" where
  "native cmd s0 =
     (let ins = cmd ! 1
      in case n4_payload cmd of
           None \<Rightarrow> None
         | Some None \<Rightarrow> Some (n4_sw 0x7E, s0)
         | Some (Some payload) \<Rightarrow>
             if ins = 0xAF \<and> nPendStage s0 = 1 then auth_second payload s0
             else let s = s0\<lparr>nPendStage := 0\<rparr>
                  in if ins = 0x60 then Some (version_frame ((drop_session s)\<lparr>nFrame := 0\<rparr>))
                     else if ins = 0xAF
                     then Some (if nFrame s = 0 then (n4_sw 0x1C, s) else version_frame s)
                     else if ins = 0x71 \<or> ins = 0x77 then Some (auth_first_step (ins = 0x71) payload s)
                     else if ins = 0xF5 then card_get_file_settings cmd payload s
                     else if ins = 0x64 then card_get_key_version cmd payload s
                     else if ins = 0xAD then card_read_data cmd payload s
                     else if ins = 0x8D then card_write_data cmd payload s
                     else if ins = 0x5F then card_change_file_settings cmd s
                     else if ins = 0xC4 then card_change_key cmd s
                     else if ins = 0x51 then card_get_uid cmd s
                     else if ins = 0xF6 then card_get_file_counters cmd s
                     else if ins = 0x5C then card_set_configuration cmd s
                     else if ins = 0x3C then card_read_sig cmd s
                     else if ins = 0xF7 then card_get_tt_status cmd s
                     else Some (n4_sw 0x1C, s))"

text \<open>\<open>type4Emulator.Transceive\<close> on a card with a secure side, then \<open>ntag424State.transceive\<close>.\<close>

definition transceive :: "bytes \<Rightarrow> ntag424_state \<Rightarrow> (bytes \<times> ntag424_state) option" where
  "transceive cmd s =
     (if length cmd < 4 then Some (apdu_sw 0x6700, s)
      else if cmd ! 0 = 0x90 then native cmd s
      else if cmd ! 0 = 0x00
      then if cmd ! 1 = 0xA4 then Some (iso_select cmd s)
           else if cmd ! 1 = 0xB0 then iso_read cmd s
           else if cmd ! 1 = 0xD6 then Some (iso_update cmd s)
           else Some (apdu_sw 0x6D00, s)
      else Some (apdu_sw 0x6E00, s))"

end
