(* ===== verification/CardInvariant.thy ===== *)
theory CardInvariant
  imports Ntag424Card
begin

text \<open>
  The invariant of the emulated NTAG 424 DNA (\<open>Ntag424Card\<close>) and the safety it gives: every
  APDU the card is sent is answered with a status word and leaves the card well formed, so no
  index, slice, nil session or block mode of the Go code can panic. The one exception is the
  four-byte wrapped command, whose missing length byte the code reads.
\<close>

section \<open>Parsed offsets are 24-bit\<close>

lemma rd_le24_small: "rd_le24 b < 0x1000000"
proof -
  have "take_bit 24 (rd_le24 b) = rd_le24 b"
  proof (rule bit_eqI)
    fix n
    have "\<not> bit (x :: byte) m" if "8 \<le> m" for x m
      using that bit_imp_possible_bit [of x m] by auto
    then show "bit (take_bit 24 (rd_le24 b)) n = bit (rd_le24 b) n"
      by (cases "n < 24") (auto simp: rd_le24_def bit_simps)
  qed
  then have "unat (rd_le24 b) < 2 ^ 24"
    by (metis take_bit_nat_less_exp unsigned_take_bit_eq)
  then show ?thesis by (simp add: word_less_nat_alt)
qed

lemma sdm_steps_inv:
  assumes "sdm_steps steps f r = Inr (f', r')" "P f"
    and "\<And>p put v g. (p, put) \<in> set steps \<Longrightarrow> v < 0x1000000 \<Longrightarrow> P g \<Longrightarrow> P (put v g)"
  shows "P f'"
  using assms
proof (induction steps f r rule: sdm_steps.induct)
  case (2 present put steps f rest)
  show ?case
  proof (cases present)
    case False
    with 2 show ?thesis by auto
  next
    case True
    with "2.prems"(1) have l: "3 \<le> length rest"
      and s: "sdm_steps steps (put (rd_le24 rest) f) (drop 3 rest) = Inr (f', r')"
      by (auto split: if_splits)
    have "P (put (rd_le24 rest) f)"
      by (rule "2.prems"(3) [of present]) (simp_all add: rd_le24_small "2.prems"(2))
    with 2 True l s show ?thesis by (meson list.set_intros(2) not_less)
  qed
qed simp

lemma parse_encoded_small:
  assumes "parse_encoded_settings b = Inr fs"
  shows "settings_small fs"
proof -
  from assms obtain f where f: "parse_settings_body (take 3 b) = Inr f" "parse_sdm f (drop 3 b) = Inr fs"
    by (auto simp: parse_encoded_settings_def bindE_eq_Inr split: if_splits)
  from f(1) have z: "settings_small f"
    by (auto simp: parse_settings_body_def bindE_eq_Inr settings_small_def zero_settings_def Let_def
        split: if_splits)
  show ?thesis
  proof (cases "fsSDMEnabled f")
    case False
    with f z show ?thesis by (simp add: parse_sdm_def)
  next
    case True
    then obtain o1 r1 r2 rest rest' where
      s: "sdm_steps (sdm_step_list (sdm_head f o1 r1 r2)) (sdm_head f o1 r1 r2) rest = Inr (fs, rest')"
      using f(2) by (auto simp: parse_sdm_def bindE_eq_Inr Let_def split: if_splits)
    show ?thesis
    proof (rule sdm_steps_inv [OF s])
      show "settings_small (sdm_head f o1 r1 r2)"
        using z by (simp add: settings_small_def sdm_head_def)
    qed (auto simp: sdm_step_list_def settings_small_def)
  qed
qed

section \<open>Channels stay well formed\<close>

fun chan_ok :: "channel \<Rightarrow> bool" where
  "chan_ok (AesChannel s) = session_ok s"
| "chan_ok (LrpChannel s) = lrp_session_ok s"

lemma chan_ok_ti: "chan_ok ch \<Longrightarrow> length (chan_ti ch) = 4"
  by (cases ch) (simp_all add: session_ok_def lrp_session_ok_def)

lemma chan_verify_ok:
  "chan_verify ch cmd m h = (r, ch') \<Longrightarrow> chan_ok ch \<Longrightarrow> chan_ok ch'"
  by (cases ch) (auto simp: lrp_session_verify_def Let_def split: sum.splits if_splits prod.splits)

lemma session_verify_header: "session_verify s apdu m h = Inr (hdr, data) \<Longrightarrow> length hdr = h"
  by (auto simp: session_verify_def bindE_eq_Inr Let_def not_less split: if_splits prod.splits)

lemma lrp_session_verify_header: "lrp_session_verify s apdu m h = (Inr (hdr, data), s') \<Longrightarrow> length hdr = h"
  by (auto simp: lrp_session_verify_def Let_def not_less split: sum.splits if_splits)

lemma chan_verify_header: "chan_verify ch cmd m h = (Inr (hdr, data), ch') \<Longrightarrow> length hdr = h"
  by (cases ch) (auto dest: session_verify_header lrp_session_verify_header simp: map_prod_def
      split: prod.splits)

lemma chan_answer_ok:
  "chan_answer ch st d m = (r, ch') \<Longrightarrow> chan_ok ch \<Longrightarrow>
   chan_ok ch' \<and> (\<forall>resp. r = Inr resp \<longrightarrow> 2 \<le> length resp)"
  by (cases ch; cases m)
     (auto simp: session_answer_def lrp_session_answer_def Let_def split: sum.splits if_splits)

section \<open>The invariant\<close>

definition file_ok :: "bool \<Rightarrow> nat \<Rightarrow> n4_file \<Rightarrow> bool" where
  "file_ok lrp i f \<longleftrightarrow>
     length (nfData f) = ntag424_file_sizes ! i \<and> settings_small (nfSettings f) \<and>
     check_settings lrp (byteN (i + 1)) (nfSettings f) = 0"

definition files_ok :: "bool \<Rightarrow> n4_file list \<Rightarrow> bool" where
  "files_ok lrp fs \<longleftrightarrow> length fs = 3 \<and> list_all (\<lambda>i. file_ok lrp i (fs ! i)) [0..<3]"

definition keys_ok :: "bytes list \<Rightarrow> bool" where
  "keys_ok ks \<longleftrightarrow> length ks = 5 \<and> list_all (\<lambda>k. length k = 16) ks"

definition card_ok :: "ntag424_state \<Rightarrow> bool" where
  "card_ok s \<longleftrightarrow>
     keys_ok (nKeys s) \<and> length (nVersions s) = 5 \<and> files_ok (nLRP s) (nFiles s) \<and>
     pred_option chan_ok (nSession s) \<and> nSelected s \<le> 3 \<and>
     (nPendStage s = 1 \<longrightarrow> nPendKey s \<le> 4 \<and> (nPendFirst s \<or> nSession s \<noteq> None))"

lemma files_okD: "files_ok lrp fs \<Longrightarrow> i < 3 \<Longrightarrow> file_ok lrp i (fs ! i)"
  by (auto simp: files_ok_def list_all_iff)

lemma files_ok_update:
  assumes "files_ok lrp fs" "i < 3 \<Longrightarrow> file_ok lrp i f"
  shows "files_ok lrp (fs[i := f])"
proof -
  have "file_ok lrp j (fs[i := f] ! j)" if "j < 3" for j
    using assms that files_okD [OF assms(1) that]
    by (cases "i = j") (simp_all add: files_ok_def)
  with assms(1) show ?thesis by (simp add: files_ok_def list_all_iff)
qed

lemma keys_okD: "keys_ok ks \<Longrightarrow> k \<le> (4 :: byte) \<Longrightarrow> length (ks ! unat k) = 16"
  by (auto simp: keys_ok_def list_all_length word_le_nat_alt)

lemma keys_ok_update: "keys_ok ks \<Longrightarrow> length k = 16 \<Longrightarrow> keys_ok (ks[i := k])"
  by (auto simp: keys_ok_def list_all_length)
     (metis nth_list_update_eq nth_list_update_neq)

lemma unat_mod_32: "x mod 32 = 0 \<Longrightarrow> unat (x :: uint32) mod 32 = 0"
proof -
  assume "x mod 32 = 0"
  then have "unat (x mod 32) = 0" by simp
  then show ?thesis by (simp add: unat_mod)
qed

text \<open>What a settings check that passed guarantees of every mirror, in natural numbers.\<close>

lemma mirror_fits_nat:
  assumes "mirror_fits 256 off w" "off < 0x1000000" "w < 0x1000000"
  shows "unat off + unat w \<le> 256"
proof -
  have "unat off + unat w < 2 ^ 32" using assms(2,3) by (simp add: word_less_nat_alt)
  then have "unat (off + w) = unat off + unat w" by (simp add: unat_word_ariths)
  then show ?thesis using assms(1) by (simp add: mirror_fits_def word_le_nat_alt)
qed

lemma check_settings_off: "check_settings lrp n fs = 0 \<Longrightarrow> isOk (settings_encode fs)"
  by (auto simp: check_settings_def split: if_splits)

lemma check_settings_on:
  assumes c: "check_settings lrp n fs = 0" and e: "fsSDMEnabled fs" and s: "settings_small fs"
  shows "n = 2"
    "fsMirrorUID fs \<Longrightarrow> fsSDMMetaRead fs = AccessFree \<Longrightarrow> unat (fsUIDOffset fs) + 14 \<le> 256"
    "fsMirrorReadCounter fs \<Longrightarrow> fsSDMMetaRead fs = AccessFree \<Longrightarrow> unat (fsReadCounterOffset fs) + 6 \<le> 256"
    "fsSDMMetaRead fs \<le> 4 \<Longrightarrow> unat (fsPICCDataOffset fs) + (if lrp then 48 else 32) \<le> 256"
    "fsSDMFileRead fs \<le> 4 \<Longrightarrow> unat (fsMACInputOffset fs) \<le> unat (fsMACOffset fs) \<and> unat (fsMACOffset fs) + 16 \<le> 256"
    "fsEncryptFileData fs \<Longrightarrow> \<not> lrp \<and> fsSDMFileRead fs \<le> 4 \<and> unat (fsENCLength fs) mod 32 = 0 \<and>
       unat (fsENCOffset fs) + unat (fsENCLength fs) \<le> 256"
proof -
  have d: "isOk (settings_encode fs)" "n = 2" using c e by (auto simp: check_settings_def Let_def split: if_splits)
  from d(2) show n: "n = 2" .
  have "ntag424_file_sizes ! (unat n - 1) = 256" by (simp add: n ntag424_file_sizes_def)
  note c' = c [unfolded check_settings_def Let_def this]
  note small = s [unfolded settings_small_def, simplified]
  show "unat (fsUIDOffset fs) + 14 \<le> 256" if "fsMirrorUID fs" "fsSDMMetaRead fs = AccessFree"
    using c' d e that mirror_fits_nat [of "fsUIDOffset fs" 14] small by (simp split: if_splits)
  show "unat (fsReadCounterOffset fs) + 6 \<le> 256" if "fsMirrorReadCounter fs" "fsSDMMetaRead fs = AccessFree"
    using c' d e that mirror_fits_nat [of "fsReadCounterOffset fs" 6] small by (simp split: if_splits)
  show "unat (fsPICCDataOffset fs) + (if lrp then 48 else 32) \<le> 256" if "fsSDMMetaRead fs \<le> 4"
    using c' d e that mirror_fits_nat [of "fsPICCDataOffset fs" 32] mirror_fits_nat [of "fsPICCDataOffset fs" 48]
      small by (simp split: if_splits)
  show "unat (fsMACInputOffset fs) \<le> unat (fsMACOffset fs) \<and> unat (fsMACOffset fs) + 16 \<le> 256"
    if "fsSDMFileRead fs \<le> 4"
    using c' d e that mirror_fits_nat [of "fsMACOffset fs" 16] small
    by (simp add: not_less word_le_nat_alt split: if_splits)
  show "\<not> lrp \<and> fsSDMFileRead fs \<le> 4 \<and> unat (fsENCLength fs) mod 32 = 0 \<and>
       unat (fsENCOffset fs) + unat (fsENCLength fs) \<le> 256" if "fsEncryptFileData fs"
    using c' d e that mirror_fits_nat [of "fsENCOffset fs" "fsENCLength fs"] small
    by (auto simp: not_less unat_mod_32 split: if_splits)
qed

section \<open>Mirroring never panics\<close>

lemma put_text_ok:
  "unat off \<le> length out \<Longrightarrow> \<exists>o'. put_text off t out = Some o' \<and> length o' = length out"
  by (simp add: put_text_def)

text \<open>What a read may change: the SDM counters and the supply of random numbers.\<close>

definition same_card :: "ntag424_state \<Rightarrow> ntag424_state \<Rightarrow> bool" where
  "same_card s s' \<longleftrightarrow>
     s'\<lparr>nSDMCounter := nSDMCounter s, nSDMCurrent := nSDMCurrent s, nSDMCounted := nSDMCounted s,
        nRandom := nRandom s\<rparr> = s"

lemma same_card_refl [simp, intro]: "same_card s s"
  by (simp add: same_card_def)

lemma same_cardD:
  assumes "same_card s s'"
  shows "nUID s' = nUID s" "nKeys s' = nKeys s" "nVersions s' = nVersions s" "nFiles s' = nFiles s"
    "nSession s' = nSession s" "nAuthKey s' = nAuthKey s" "nLRP s' = nLRP s" "nSelected s' = nSelected s"
    "nPendStage s' = nPendStage s" "nPendFirst s' = nPendFirst s" "nPendKey s' = nPendKey s"
  using assms by (cases s, cases s', simp add: same_card_def)+

lemma same_card_random [simp]: "same_card s (s\<lparr>nRandom := r\<rparr>)"
  by (simp add: same_card_def)

lemma same_card_trans: "same_card a b \<Longrightarrow> same_card b c \<Longrightarrow> same_card a c"
  unfolding same_card_def by (cases a; cases b; cases c; simp)

lemma same_card_count_read [simp]: "same_card s (count_read s)"
  by (simp add: same_card_def count_read_def)

lemma view_picc_ok:
  assumes c: "check_settings (nLRP s) n fs = 0" "fsSDMEnabled fs" "settings_small fs"
    and out: "length out = 256"
  shows "\<exists>b o' s'. view_picc fs ctr out s = Some ((b, o'), s') \<and> length o' = 256 \<and> same_card s s'"
proof -
  note on = check_settings_on [OF c]
  consider (enc) "fsSDMMetaRead fs \<le> 4" | (plain) "\<not> fsSDMMetaRead fs \<le> 4" "fsSDMMetaRead fs = AccessFree"
    | (none) "\<not> fsSDMMetaRead fs \<le> 4" "fsSDMMetaRead fs \<noteq> AccessFree" by blast
  then show ?thesis
  proof cases
    case enc
    then have "unat (fsPICCDataOffset fs) \<le> length out" using on(4) out by (auto split: if_splits)
    then obtain o' :: "bytes \<Rightarrow> bytes" where o': "\<And>t. put_text (fsPICCDataOffset fs) t out = Some (o' t)"
      "\<And>t. length (o' t) = length out"
      by (metis put_text_ok)
    show ?thesis
      using enc out
      by (simp add: view_picc_def Let_def rand_read_def o' ex_bool_eq split: sum.splits)
  next
    case plain
    define o1 where "o1 = (if fsMirrorUID fs then put_text (fsUIDOffset fs) (hex_upper (nUID s)) out else Some out)"
    have "\<exists>x. o1 = Some x \<and> length x = 256"
      using on(2) plain out put_text_ok [of "fsUIDOffset fs" out "hex_upper (nUID s)"] by (auto simp: o1_def)
    then obtain x where x: "o1 = Some x" "length x = 256" by blast
    have "\<exists>y. (if fsMirrorReadCounter fs then put_text (fsReadCounterOffset fs) (fmt_06X ctr) x else Some x) = Some y
        \<and> length y = 256"
      using on(3) plain x put_text_ok [of "fsReadCounterOffset fs" x "fmt_06X ctr"] by auto
    then obtain y where
      "(if fsMirrorReadCounter fs then put_text (fsReadCounterOffset fs) (fmt_06X ctr) x else Some x) = Some y"
      "length y = 256" by blast
    then show ?thesis using plain(1) x unfolding view_picc_def o1_def [symmetric]
      by (simp add: plain(2) ex_bool_eq)
  next
    case none
    then show ?thesis using out by (simp add: view_picc_def ex_bool_eq)
  qed
qed

lemma view_mac_ok:
  assumes c: "check_settings (nLRP s) n fs = 0" "fsSDMEnabled fs" "settings_small fs"
    and out: "length out = 256" and k: "keys_ok (nKeys s)" "fsSDMFileRead fs \<le> 4"
  shows "\<exists>o'. view_mac fs ctr out s = Some o' \<and> length o' = 256"
proof -
  note on = check_settings_on [OF c]
  define picc where "picc = \<lparr>pUID = nUID s, pReadCounter = ctr, pUIDMirrored = fsMirrorUID fs,
                  pCounterMirrored = fsMirrorReadCounter fs, pLRP = nLRP s\<rparr>"
  define key where "key = nKeys s ! unat (fsSDMFileRead fs)"
  have kl: "length key = 16" using keys_okD [OF k] by (simp add: key_def)
  define mac_step where "mac_step = (\<lambda>out.
      if unat (fsMACOffset fs) < unat (fsMACInputOffset fs) \<or> length out < unat (fsMACOffset fs) then None
      else case sdm_mac key picc (slice (unat (fsMACInputOffset fs)) (unat (fsMACOffset fs)) out) of
              Inl _ \<Rightarrow> Some out | Inr mac \<Rightarrow> put_text (fsMACOffset fs) (hex_upper mac) out)"
  have mac: "\<exists>o'. mac_step x = Some o' \<and> length o' = 256" if "length x = 256" for x
    using on(5) [OF k(2)] that put_text_ok [of "fsMACOffset fs" x]
    by (auto simp: mac_step_def split: sum.splits)
  have def_: "view_mac fs ctr out s =
     (if \<not> fsEncryptFileData fs then mac_step out
      else case sdm_session_keys key picc of
           Inl _ \<Rightarrow> Some out
         | Inr (ek, _) \<Rightarrow>
             if \<not> aes_valid_key ek then Some out
             else let iv = aes_encrypt ek (copy_at 0 (replicate 16 0) (encode_counter ctr));
                      i = unat (fsENCOffset fs); j = unat (fsENCOffset fs + fsENCLength fs div 2)
                  in if j < i \<or> length out < j \<or> (j - i) mod 16 \<noteq> 0 then None
                     else case put_text (fsENCOffset fs)
                                 (hex_upper (cbc_encrypt (aes_encrypt ek) iv (slice i j out))) out of
                       None \<Rightarrow> None
                     | Some out' \<Rightarrow> mac_step out')"
    by (simp only: view_mac_def Let_def mac_step_def key_def picc_def)
  show ?thesis
  proof (cases "fsEncryptFileData fs")
    case False
    with mac [OF out] show ?thesis by (simp add: def_)
  next
    case True
    note e = on(6) [OF True]
    have half: "unat (fsENCLength fs div 2) = unat (fsENCLength fs) div 2" by (simp add: unat_div)
    then have j: "unat (fsENCOffset fs + fsENCLength fs div 2) = unat (fsENCOffset fs) + unat (fsENCLength fs) div 2"
    proof -
      have "unat (fsENCOffset fs) + unat (fsENCLength fs) div 2 < 2 ^ 32" using e by auto
      then show ?thesis by (simp add: unat_word_ariths half [simplified])
    qed
    obtain q where q: "unat (fsENCLength fs) = 32 * q" using e by (auto elim: dvdE simp: mod_eq_0_iff_dvd)
    obtain ek mk where sk: "sdm_session_keys key picc = Inr (ek, mk)" "length ek = 16"
      using sdm_session_keys_ok [OF kl] by blast
    have off: "unat (fsENCOffset fs) \<le> length out" using e out by simp
    obtain o1 where "put_text (fsENCOffset fs) (hex_upper (cbc_encrypt (aes_encrypt ek)
        (aes_encrypt ek (copy_at 0 (replicate 16 0) (encode_counter ctr)))
        (slice (unat (fsENCOffset fs)) (unat (fsENCOffset fs) + unat (fsENCLength fs) div 2) out))) out = Some o1"
      "length o1 = 256"
      using put_text_ok [OF off] out by metis
    then show ?thesis
      using True sk e q out mac [of o1] by (simp add: def_ Let_def j aes_valid_16)
  qed
qed

text \<open>A read of any file: the view is as long as the file.\<close>

lemma view_ok:
  assumes s: "card_ok s" and i: "i < 3"
  shows "\<exists>v s'. view (byteN (i + 1)) (nFiles s ! i) s = Some (v, s') \<and> same_card s s' \<and>
      length v = length (nfData (nFiles s ! i))"
proof -
  define f where "f = nFiles s ! i"
  define fs where "fs = nfSettings f"
  have f: "file_ok (nLRP s) i f" and k: "keys_ok (nKeys s)"
    using s i files_okD by (auto simp: card_ok_def f_def)
  show ?thesis unfolding f_def [symmetric]
  proof (cases "byteN (i + 1) = 0x02 \<and> fsSDMEnabled fs")
    case False
    then show "\<exists>v s'. view (byteN (i + 1)) f s = Some (v, s') \<and> same_card s s' \<and> length v = length (nfData f)"
      by (auto simp: view_def fs_def)
  next
    case True
    have c: "check_settings (nLRP s) (byteN (i + 1)) fs = 0" "fsSDMEnabled fs" "settings_small fs"
      using f True by (simp_all add: file_ok_def fs_def)
    from True have "unat (byteN (i + 1)) = 2" by simp
    then have "i = 1" using i by (simp add: unat_byteN)
    then have out: "length (nfData f) = 256" using f by (simp add: file_ok_def ntag424_file_sizes_def)
    define s1 where "s1 = count_read s"
    have s1: "same_card s s1" by (simp add: s1_def)
    have c1: "check_settings (nLRP s1) (byteN (i + 1)) fs = 0"
      using c(1) by (simp only: same_cardD [OF s1])
    obtain bb o1 s2 where p: "view_picc fs (nSDMCurrent s1) (nfData f) s1 = Some ((bb, o1), s2)"
        "length o1 = 256" "same_card s1 s2"
      using view_picc_ok [OF c1 c(2,3) out] by blast
    have s2: "same_card s s2" using s1 p(3) by (rule same_card_trans)
    have c2: "check_settings (nLRP s2) (byteN (i + 1)) fs = 0" "keys_ok (nKeys s2)"
      using c(1) k by (simp_all only: same_cardD [OF s2])
    have m: "\<exists>o'. view_mac fs ctr o1 s2 = Some o' \<and> length o' = 256"
      if "\<not> 4 < fsSDMFileRead fs" for ctr
      using view_mac_ok [OF c2(1) c(2,3) p(2) c2(2)] that by (auto simp: not_less)
    have v: "view (byteN (i + 1)) f s =
       (if bb \<and> \<not> 4 < fsSDMFileRead fs then map_option (\<lambda>o'. (o', s2)) (view_mac fs (nSDMCurrent s1) o1 s2)
        else Some (o1, s2))"
      using True by (cases bb) (auto simp: view_def fs_def [symmetric] Let_def s1_def [symmetric] p(1))
    show "\<exists>v s'. view (byteN (i + 1)) f s = Some (v, s') \<and> same_card s s' \<and> length v = length (nfData f)"
    proof (cases "bb \<and> \<not> 4 < fsSDMFileRead fs")
      case T: True
      obtain o' where "view_mac fs (nSDMCurrent s1) o1 s2 = Some o'" "length o' = 256"
        using m T by blast
      then show ?thesis unfolding v using T s2 out by simp
    next
      case F: False
      then have "view (byteN (i + 1)) f s = Some (o1, s2)" unfolding v by (simp only: if_False)
      then show ?thesis using s2 out p(2) by auto
    qed
  qed
qed

section \<open>Every command is answered\<close>

definition answered :: "(bytes \<times> ntag424_state) option \<Rightarrow> bool" where
  "answered r = (case r of None \<Rightarrow> False | Some (resp, s) \<Rightarrow> card_ok s \<and> 2 \<le> length resp)"

lemma answered_Some [simp]: "answered (Some (resp, s)) \<longleftrightarrow> card_ok s \<and> 2 \<le> length resp"
  by (simp add: answered_def)

lemma answered_None [simp]: "\<not> answered None"
  by (simp add: answered_def)

lemma answered_pair: "answered (Some x) \<longleftrightarrow> card_ok (snd x) \<and> 2 \<le> length (fst x)"
  by (cases x) simp

lemma sw_length [simp, len_simps]:
  "length (n4_sw st) = 2" "length (n4_plain d) = length d + 2" "length (apdu_sw w) = 2"
  "length (apdu_data d) = length d + 2"
  by (simp_all add: n4_sw_def n4_plain_def apdu_sw_def apdu_data_def)

lemma card_ok_pend [simp, wf_intros]: "card_ok s \<Longrightarrow> card_ok (s\<lparr>nPendStage := 0\<rparr>)"
  by (simp add: card_ok_def)

lemma card_ok_drop [simp, wf_intros]: "card_ok s \<Longrightarrow> card_ok (drop_session s)"
  by (simp add: card_ok_def drop_session_def)

lemma card_ok_clear [simp, wf_intros]: "card_ok s \<Longrightarrow> card_ok (clear_selection s)"
  by (simp add: card_ok_def drop_session_def clear_selection_def)

lemma card_ok_frame [simp]: "card_ok (s\<lparr>nFrame := n\<rparr>) = card_ok s"
  by (simp add: card_ok_def)

lemma card_ok_random [simp]: "card_ok (s\<lparr>nRandom := r\<rparr>) = card_ok s"
  by (simp add: card_ok_def)

lemma card_ok_same: "same_card s s' \<Longrightarrow> card_ok s' = card_ok s"
  by (simp add: card_ok_def same_cardD)

lemma card_ok_session: "card_ok s \<Longrightarrow> chan_ok ch \<Longrightarrow> card_ok (s\<lparr>nSession := Some ch\<rparr>)"
  by (simp add: card_ok_def)

lemma card_ok_reroll [simp]: "card_ok s \<Longrightarrow> card_ok (reroll s)"
  by (simp add: card_ok_def reroll_def rand_read_def)

lemma card_ok_random_id [simp]: "card_ok s \<Longrightarrow> card_ok (set_card_random_id b s)"
  unfolding set_card_random_id_def by (rule card_ok_reroll) (simp add: card_ok_def)

lemma card_fileD:
  assumes "card_file n s = Some f"
  obtains i where "i < 3" "f = nFiles s ! i" "n = byteN (i + 1)" "unat n = i + 1"
proof -
  from assms have n: "n \<noteq> 0" "n \<le> 3" and f: "f = nFiles s ! (unat n - 1)"
    by (auto simp: card_file_def not_less split: if_splits)
  have u: "1 \<le> unat n" "unat n \<le> 3"
    using n by (simp_all add: word_le_nat_alt Suc_le_eq unat_gt_0)
  show thesis
  proof (rule that [of "unat n - 1"])
    show "n = byteN (unat n - 1 + 1)" using u by simp
  qed (use u f in simp_all)
qed

lemma secure_ok:
  assumes "card_ok s" "secure cmd m h s = (x, s')"
  shows "card_ok s' \<and> (\<forall>r. x = Inl r \<longrightarrow> 2 \<le> length r) \<and>
    (\<forall>hdr d. x = Inr (hdr, d) \<longrightarrow> length hdr = h \<and> nSession s' \<noteq> None)"
proof (cases "nSession s")
  case None
  with assms show ?thesis by (auto simp: secure_def)
next
  case (Some ch)
  obtain r ch' where v: "chan_verify ch cmd m h = (r, ch')" by fastforce
  have ch: "chan_ok ch'" using chan_verify_ok [OF v] assms(1) Some by (simp add: card_ok_def)
  show ?thesis
  proof (cases r)
    case (Inl e)
    with assms Some v show ?thesis by (cases e) (auto simp: secure_def)
  next
    case (Inr p)
    obtain hdr d where p: "p = (hdr, d)" by fastforce
    with Inr Some v assms have "x = Inr (hdr, d)" "s' = s\<lparr>nSession := Some ch'\<rparr>"
      by (auto simp: secure_def)
    moreover have "length hdr = h" using chan_verify_header v Inr p by blast
    ultimately show ?thesis using assms(1) ch by (simp add: card_ok_session)
  qed
qed

lemma answer_ok:
  assumes "card_ok s" "nSession s \<noteq> None"
  shows "answered (answer d m s)"
proof -
  obtain ch where ch: "nSession s = Some ch" "chan_ok ch" using assms by (auto simp: card_ok_def)
  obtain r ch' where a: "chan_answer ch 0x00 d m = (r, ch')" by fastforce
  from chan_answer_ok [OF a ch(2)] assms(1) show ?thesis
    by (cases r) (simp_all add: answer_def ch(1) a card_ok_session)
qed

text \<open>What a handler does with the outcome of \<open>secure\<close>.\<close>

lemma secured:
  assumes "card_ok s"
    and "\<And>hdr d s1. card_ok s1 \<Longrightarrow> length hdr = h \<Longrightarrow> nSession s1 \<noteq> None \<Longrightarrow> answered (k hdr d s1)"
  shows "answered (case secure cmd m h s of (Inl fail, s1) \<Rightarrow> Some (fail, s1) | (Inr (hdr, d), s1) \<Rightarrow> k hdr d s1)"
proof -
  obtain x s1 where x: "secure cmd m h s = (x, s1)" by fastforce
  from secure_ok [OF assms(1) x] assms(2) show ?thesis
    by (cases x) (auto simp: x split: prod.splits)
qed

lemma settings_encode_meta: "settings_encode (fs\<lparr>fsFileType := t, fsFileSize := z\<rparr>) = settings_encode fs"
  by (simp add: settings_encode_def sdm_offsets_def sdm_options_def cong: if_cong)

lemma check_settings_meta: "check_settings l n (fs\<lparr>fsFileType := t, fsFileSize := z\<rparr>) = check_settings l n fs"
  by (simp add: check_settings_def settings_encode_meta Let_def cong: if_cong)

lemma settings_files_ok:
  assumes "card_ok s" "i < 3" "check_settings (nLRP s) (byteN (i + 1)) fs = 0" "settings_small fs"
  shows "card_ok (set_card_settings (byteN (i + 1)) fs s)"
proof -
  let ?f = "nFiles s ! i"
  let ?g = "?f\<lparr>nfSettings := fs\<lparr>fsFileType := 0x00, fsFileSize := of_nat (length (nfData ?f))\<rparr>\<rparr>"
  have u: "unat (byteN (Suc i)) = Suc i" using assms(2) by simp
  have "check_settings (nLRP s) (byteN (i + 1)) (nfSettings ?g) = 0"
    using assms(3) by (cases ?f) (simp only: n4_file.select_convs n4_file.update_convs check_settings_meta)
  then have "file_ok (nLRP s) i ?g"
    using files_okD [of "nLRP s" "nFiles s" i] assms
    by (simp add: card_ok_def file_ok_def settings_small_def)
  then have "files_ok (nLRP s) ((nFiles s)[i := ?g])"
    using assms(1) by (intro files_ok_update) (simp_all add: card_ok_def)
  then show ?thesis using assms(1) by (simp add: card_ok_def set_card_settings_def Let_def u)
qed

lemma set_file_data_ok:
  assumes "card_ok s" "i < 3" "unat n = i + 1" "length d = length (nfData (nFiles s ! i))"
  shows "card_ok (set_file_data n d s)"
proof -
  have "file_ok (nLRP s) i ((nFiles s ! i)\<lparr>nfData := d\<rparr>)"
    using files_okD [of "nLRP s" "nFiles s" i] assms by (simp add: card_ok_def file_ok_def)
  then have "files_ok (nLRP s) ((nFiles s)[i := (nFiles s ! i)\<lparr>nfData := d\<rparr>])"
    using assms(1) by (intro files_ok_update) (simp_all add: card_ok_def)
  then show ?thesis using assms(1,3) by (simp add: card_ok_def set_file_data_def)
qed

section \<open>The handlers\<close>

lemma rand_read_ok [simp]: "card_ok (snd (rand_read n s)) = card_ok s"
  by (simp add: rand_read_def)

lemma auth_first_step_ok: "card_ok s \<Longrightarrow> answered (Some (auth_first_step first p s))"
  by (auto simp: auth_first_step_def Let_def rand_read_def card_ok_def not_less split: sum.splits)

lemma fail_auth_ok: "card_ok s \<Longrightarrow> answered (Some (fail_auth s))"
  by (simp add: fail_auth_def Let_def card_ok_def drop_session_def)

lemma card_ok_lower: "card_ok (lower_failures s) = card_ok s"
  by (simp add: lower_failures_def card_ok_def)

lemma lrp_answer_ok: "lrp_answer first key b p t c = Inr (reply, s) \<Longrightarrow> lrp_session_ok s"
  by (auto simp: lrp_answer_def bindE_eq_Inr Let_def dest: new_lrp_session_ok split: if_splits)

lemma auth_second_ok:
  assumes s: "card_ok s" and p: "nPendStage s = 1"
  shows "answered (auth_second payload s)"
proof -
  let ?s = "s\<lparr>nPendStage := 0\<rparr>"
  let ?key = "nKeys s ! unat (nPendKey s)"
  have ok: "card_ok ?s" and pend: "nPendFirst s \<or> nSession s \<noteq> None" "nPendKey s \<le> 4"
    using s p by (simp_all add: card_ok_def)
  have key: "length ?key = 16" using s pend(2) by (simp add: card_ok_def keys_okD)
  have fin: "card_ok (lower_failures (x\<lparr>nSession := Some ch, nAuthKey := k\<rparr>))"
    if "card_ok x" "chan_ok ch" for x ch k
    using that by (simp add: card_ok_lower) (simp add: card_ok_def)
  have lrp: "answered (auth_second_lrp ?key payload ?s)"
  proof (cases "nPendFirst s")
    case True
    then show ?thesis
      using ok fail_auth_ok [of "?s\<lparr>nRandom := \<lambda>i. nRandom s (i + 4)\<rparr>"]
      by (auto simp: auth_second_lrp_def rand_read_def intro!: fin dest: lrp_answer_ok split: sum.splits)
  next
    case False
    with pend obtain ch where "nSession s = Some ch" by auto
    with False ok show ?thesis
      using fail_auth_ok [of ?s]
      by (auto simp: auth_second_lrp_def intro!: fin dest: lrp_answer_ok split: sum.splits)
  qed
  have aes: "answered (auth_second_aes ?key payload ?s)"
  proof (cases "drop 16 (decrypt_cbc ?key payload) = rotate_left (nRndB s)")
    case F: False
    then show ?thesis using fail_auth_ok [OF ok] key by (simp add: auth_second_aes_def new_cipher_def Let_def)
  next
    case T: True
    show ?thesis
    proof (cases "nPendFirst s")
      case True
      then show ?thesis
        using ok T key fail_auth_ok [of "?s\<lparr>nRandom := \<lambda>i. nRandom s (i + 4)\<rparr>"]
        by (auto simp: auth_second_aes_def rand_read_def new_cipher_def Let_def bindE_eq_Inr
            intro!: fin dest: new_session_at_ok split: sum.splits)
    next
      case False
      with pend obtain ch where "nSession s = Some ch" by auto
      with False ok T key show ?thesis
        using fail_auth_ok [of ?s]
        by (auto simp: auth_second_aes_def new_cipher_def Let_def bindE_eq_Inr
            intro!: fin dest: new_session_at_ok split: sum.splits)
    qed
  qed
  show ?thesis using lrp aes ok by (simp add: auth_second_def Let_def)
qed

lemma read_result_ok:
  assumes "card_ok s"
  shows "answered (read_result hdr m s)"
proof (cases "card_file (hdr ! 0) s")
  case None
  with assms show ?thesis by (simp add: read_result_def)
next
  case (Some f)
  then obtain i where i: "i < 3" "f = nFiles s ! i" "hdr ! 0 = byteN (i + 1)" by (rule card_fileD)
  obtain v s' where v: "view (hdr ! 0) f s = Some (v, s')" "same_card s s'"
    using view_ok [OF assms i(1)] by (auto simp: i)
  have "card_ok s'" using assms v(2) by (simp add: card_ok_same)
  then show ?thesis
    using assms Some v answer_ok [of s'] by (simp add: read_result_def Let_def split: prod.split)
qed

lemma card_read_data_ok:
  assumes "card_ok s"
  shows "answered (card_read_data cmd p s)"
proof -
  have "answered (case secure cmd m 7 s of (Inl fail, s1) \<Rightarrow> Some (fail, s1)
      | (Inr (hdr, _), s1) \<Rightarrow> read_result hdr m s1)" for m
    using assms by (rule secured) (rule read_result_ok)
  with assms show ?thesis
    by (auto simp: card_read_data_def read_result_ok split: option.splits)
qed

lemma write_result_ok:
  assumes "card_ok s"
  shows "answered (write_result hdr d m s)"
proof (cases "card_file (hdr ! 0) s")
  case None
  with assms show ?thesis by (simp add: write_result_def)
next
  case (Some f)
  then obtain i where i: "i < 3" "f = nFiles s ! i" "unat (hdr ! 0) = i + 1" by (rule card_fileD)
  have ok: "card_ok (set_file_data (hdr ! 0) x s)" if "length x = length (nfData f)" for x
    using assms i that by (intro set_file_data_ok) simp_all
  show ?thesis
    using assms Some answer_ok [OF ok] ok
    by (auto simp: write_result_def Let_def not_less split: prod.split)
qed

lemma card_write_data_ok:
  assumes "card_ok s"
  shows "answered (card_write_data cmd p s)"
proof -
  have "answered (case secure cmd m 7 s of (Inl fail, s1) \<Rightarrow> Some (fail, s1)
      | (Inr (hdr, d), s1) \<Rightarrow> write_result hdr d m s1)" for m
    using assms by (rule secured) (rule write_result_ok)
  with assms show ?thesis
    by (auto simp: card_write_data_def write_result_ok split: option.splits)
qed

lemma settings_session [simp]: "nSession (set_card_settings n fs s) = nSession s"
  by (simp add: set_card_settings_def Let_def)

lemma card_change_file_settings_ok:
  assumes "card_ok s"
  shows "answered (card_change_file_settings cmd s)"
  unfolding card_change_file_settings_def
proof (rule secured [OF assms])
  fix hdr d :: bytes and s1
  assume s1: "card_ok s1" "length hdr = 1" "nSession s1 \<noteq> None"
  have upd: "card_ok (set_card_settings (hdr ! 0) fs s1)"
    if "card_file (hdr ! 0) s1 = Some f" "parse_encoded_settings d = Inr fs"
      "check_settings (nLRP s1) (hdr ! 0) fs = 0" for f fs
    using that s1(1) by (metis card_fileD parse_encoded_small settings_files_ok)
  then have "answered (answer [] CommFull (set_card_settings (hdr ! 0) fs s1))"
    if "card_file (hdr ! 0) s1 = Some f" "parse_encoded_settings d = Inr fs"
      "check_settings (nLRP s1) (hdr ! 0) fs = 0" for f fs
    using that s1 by (intro answer_ok) auto
  with s1 show "answered (case card_file (hdr ! 0) s1 of None \<Rightarrow> Some (n4_sw 0xF0, s1)
      | Some f \<Rightarrow> if \<not> may_change f s1 then Some (n4_sw 0x9D, s1)
               else case parse_encoded_settings d of Inl _ \<Rightarrow> Some (n4_sw 0x9E, s1)
               | Inr fs \<Rightarrow> let st = check_settings (nLRP s1) (hdr ! 0) fs
                   in if st \<noteq> 0x00 then Some (n4_sw st, s1)
                      else answer [] CommFull (set_card_settings (hdr ! 0) fs s1))"
    by (auto simp: Let_def split: option.splits sum.splits)
qed

lemma card_ok_keys:
  "card_ok s \<Longrightarrow> length k = 16 \<Longrightarrow>
   card_ok (s\<lparr>nKeys := (nKeys s)[i := k], nVersions := (nVersions s)[i := v]\<rparr>)"
  by (simp add: card_ok_def keys_ok_update)

lemma card_change_key_ok:
  assumes "card_ok s"
  shows "answered (card_change_key cmd s)"
  unfolding card_change_key_def
proof (rule secured [OF assms])
  fix hdr d :: bytes and s1
  assume s1: "card_ok s1" "length hdr = 1" "nSession s1 \<noteq> None"
  have a: "answered (answer [] CommFull (s1\<lparr>nKeys := (nKeys s1)[i := k], nVersions := (nVersions s1)[i := v]\<rparr>))"
    "card_ok (drop_session (s1\<lparr>nKeys := (nKeys s1)[i := k], nVersions := (nVersions s1)[i := v]\<rparr>))"
    if "length k = 16" for i k v
    using card_ok_keys [OF s1(1) that] s1(3) by (auto intro!: answer_ok)
  have x: "length (xor_bytes (take 16 d) (nKeys s1 ! unat (hdr ! 0))) = 16" if "hdr ! 0 \<le> 4" "length d = 21"
    using that s1(1) keys_okD [of "nKeys s1" "hdr ! 0"] by (simp add: card_ok_def)
  show "answered (let keyNo = hdr ! 0; i = unat keyNo;
              store = (\<lambda>newKey version s2.
                let s3 = s2\<lparr>nKeys := (nKeys s2)[i := newKey], nVersions := (nVersions s2)[i := version]\<rparr>
                in if keyNo = nAuthKey s3 then Some (n4_sw 0x00, drop_session s3) else answer [] CommFull s3)
          in if 4 < keyNo then Some (n4_sw 0x40, s1)
             else if nAuthKey s1 \<noteq> 0 then Some (n4_sw 0x9D, s1)
             else if keyNo = 0
             then if length d \<noteq> 16 + 1 then Some (n4_sw 0x7E, s1) else store (take 16 d) (d ! 16) s1
             else if length d \<noteq> 16 + 5 then Some (n4_sw 0x7E, s1)
             else let newKey = xor_bytes (take 16 d) (nKeys s1 ! i)
                  in if drop 17 d \<noteq> n4_key_crc newKey then Some (n4_sw 0x1E, drop_session s1)
                     else store newKey (d ! 16) s1)"
    using s1 a x by (simp add: Let_def)
qed

lemma card_get_file_settings_ok:
  assumes "card_ok s"
  shows "answered (card_get_file_settings cmd p s)"
proof -
  have "answered (case secure cmd CommMAC 1 s of (Inl fail, s1) \<Rightarrow> Some (fail, s1)
      | (Inr (hdr, _), s1) \<Rightarrow> (case card_file (hdr ! 0) s1 of None \<Rightarrow> Some (n4_sw 0xF0, s1)
           | Some f \<Rightarrow> answer (settings_block f) CommMAC s1))"
    using assms by (rule secured) (auto intro: answer_ok split: option.splits)
  with assms show ?thesis
    by (auto simp: card_get_file_settings_def split: option.splits)
qed

lemma card_get_key_version_ok:
  assumes "card_ok s"
  shows "answered (card_get_key_version cmd p s)"
proof -
  have "answered (case secure cmd CommMAC 1 s of (Inl fail, s1) \<Rightarrow> Some (fail, s1)
      | (Inr (hdr, _), s1) \<Rightarrow> if 4 < hdr ! 0 then Some (n4_sw 0x40, s1)
          else answer [nVersions s1 ! unat (hdr ! 0)] CommMAC s1)"
    using assms by (rule secured) (auto intro: answer_ok)
  with assms show ?thesis by (simp add: card_get_key_version_def)
qed

lemma card_get_uid_ok: "card_ok s \<Longrightarrow> answered (card_get_uid cmd s)"
proof -
  assume "card_ok s"
  then have "answered (case secure cmd CommFull 0 s of (Inl fail, s1) \<Rightarrow> Some (fail, s1)
      | (Inr (hdr, d), s1) \<Rightarrow> answer (nUID s1) CommFull s1)"
    by (rule secured) (rule answer_ok)
  then show ?thesis by (auto simp: card_get_uid_def split: prod.splits sum.splits)
qed

lemma card_get_file_counters_ok: "card_ok s \<Longrightarrow> answered (card_get_file_counters cmd s)"
  unfolding card_get_file_counters_def
  by (rule secured) (auto intro!: answer_ok simp: Let_def split: option.splits)

lemma card_read_sig_ok: "card_ok s \<Longrightarrow> answered (card_read_sig cmd s)"
  unfolding card_read_sig_def
  by (rule secured) (auto intro!: answer_ok split: option.splits)

lemma card_get_tt_status_ok: "card_ok s \<Longrightarrow> answered (card_get_tt_status cmd s)"
proof -
  assume "card_ok s"
  then have "answered (case secure cmd CommFull 0 s of (Inl fail, s1) \<Rightarrow> Some (fail, s1)
      | (Inr (hdr, d), s1) \<Rightarrow> (case nTamper s1 of None \<Rightarrow> Some (n4_sw 0x1C, s1)
           | Some (p, c) \<Rightarrow> answer [p, c] CommFull s1))"
    by (rule secured) (auto intro!: answer_ok split: option.splits)
  then show ?thesis by (auto simp: card_get_tt_status_def split: prod.splits sum.splits)
qed

text \<open>The switch to LRP keeps the invariant because it turns SDM off in the same step: the
  wider PICCData mirror need not fit where the AES one did.\<close>

lemma settings_encode_off:
  "isOk (settings_encode fs) \<Longrightarrow> isOk (settings_encode (fs\<lparr>fsSDMEnabled := False\<rparr>))"
  by (elim isOkE) (auto simp: settings_encode_def bindE_eq_Inr Let_def split: if_splits)

lemma lrp_switch_ok:
  assumes "card_ok s"
  shows "card_ok (s\<lparr>nLRP := True,
     nFiles := map (\<lambda>f. f\<lparr>nfSettings := (nfSettings f)\<lparr>fsSDMEnabled := False\<rparr>\<rparr>) (nFiles s)\<rparr>)"
proof -
  have l: "length (nFiles s) = 3" using assms by (simp add: card_ok_def files_ok_def)
  have "file_ok True i ((nFiles s ! i)\<lparr>nfSettings := (nfSettings (nFiles s ! i))\<lparr>fsSDMEnabled := False\<rparr>\<rparr>)"
    if "i < 3" for i
  proof -
    have f: "file_ok (nLRP s) i (nFiles s ! i)" using assms that by (simp add: card_ok_def files_okD)
    then have "isOk (settings_encode ((nfSettings (nFiles s ! i))\<lparr>fsSDMEnabled := False\<rparr>))"
      by (intro settings_encode_off) (auto simp: file_ok_def dest: check_settings_off)
    with f show ?thesis by (simp add: file_ok_def settings_small_def check_settings_def)
  qed
  with l have "files_ok True (map (\<lambda>f. f\<lparr>nfSettings := (nfSettings f)\<lparr>fsSDMEnabled := False\<rparr>\<rparr>) (nFiles s))"
    by (simp add: files_ok_def list_all_iff)
  with assms show ?thesis by (simp add: card_ok_def)
qed

lemma random_id_session [simp]: "nSession (set_card_random_id b s) = nSession s"
  by (simp add: set_card_random_id_def reroll_def rand_read_def)

lemma card_set_configuration_ok:
  assumes "card_ok s"
  shows "answered (card_set_configuration cmd s)"
  unfolding card_set_configuration_def
proof (rule secured [OF assms])
  fix hdr d :: bytes and s1
  assume s1: "card_ok s1" "length hdr = 1" "nSession s1 \<noteq> None"
  let ?sw = "\<lambda>s2. s2\<lparr>nLRP := True,
     nFiles := map (\<lambda>f. f\<lparr>nfSettings := (nfSettings f)\<lparr>fsSDMEnabled := False\<rparr>\<rparr>) (nFiles s2)\<rparr>"
  have a: "answered (answer [] CommFull s1)" using s1 by (intro answer_ok)
  have "answered (map_option (\<lambda>(reply, s2). (reply, ?sw s2)) (answer [] CommFull s1))"
    using a lrp_switch_ok by (cases "answer [] CommFull s1") auto
  moreover have "answered (answer [] CommFull (set_card_random_id b s1))" for b
    using s1 by (intro answer_ok) auto
  moreover have "answered (answer [] CommFull (s1\<lparr>nFailEnabled := e, nFailLimit := l, nFailDec := x\<rparr>))" for e l x
    using s1 by (intro answer_ok) (auto simp: card_ok_def)
  ultimately show "answered (if nAuthKey s1 \<noteq> 0 then Some (n4_sw 0x9D, s1)
          else if hdr ! 0 = 0x00
          then if length d < 1 then Some (n4_sw 0x7E, s1)
               else answer [] CommFull (set_card_random_id (d ! 0 AND 0x02 \<noteq> 0) s1)
          else if hdr ! 0 = 0x0A
          then if length d \<noteq> 5 then Some (n4_sw 0x7E, s1)
               else answer [] CommFull (s1\<lparr>nFailEnabled := d ! 0 AND 1 \<noteq> 0,
                      nFailLimit := rd_le16 (drop 1 d), nFailDec := rd_le16 (drop 3 d)\<rparr>)
          else if hdr ! 0 = 0x05
          then if length d \<noteq> 10 then Some (n4_sw 0x7E, s1)
               else if d ! 4 AND 0x02 = 0 then answer [] CommFull s1
               else map_option (\<lambda>(reply, s2). (reply, ?sw s2)) (answer [] CommFull s1)
          else Some (n4_sw 0x9E, s1))"
    using s1 a by simp
qed

lemma version_frame_ok: "card_ok s \<Longrightarrow> answered (Some (version_frame s))"
  by (simp add: version_frame_def Let_def)

lemma native_ok:
  assumes "card_ok s" "5 \<le> length cmd"
  shows "answered (native cmd s)"
proof -
  obtain pl where pl: "n4_payload cmd = Some pl"
    using assms(2) unfolding n4_payload_def Let_def by (cases "length cmd = 5") simp_all
  let ?s = "s\<lparr>nPendStage := 0\<rparr>"
  have ok: "card_ok ?s" using assms(1) by simp
  note h = card_get_file_settings_ok [OF ok] card_get_key_version_ok [OF ok] card_read_data_ok [OF ok]
    card_write_data_ok [OF ok] card_change_file_settings_ok [OF ok] card_change_key_ok [OF ok]
    card_get_uid_ok [OF ok] card_get_file_counters_ok [OF ok] card_set_configuration_ok [OF ok]
    card_read_sig_ok [OF ok] card_get_tt_status_ok [OF ok] auth_first_step_ok [OF ok]
    version_frame_ok [OF ok] auth_second_ok [OF assms(1)]
  have v: "answered (Some (version_frame ((drop_session ?s)\<lparr>nFrame := 0\<rparr>)))"
    using ok by (intro version_frame_ok) simp
  show ?thesis
  proof (cases pl)
    case None
    then show ?thesis using pl assms(1) by (simp add: native_def)
  next
    case (Some p)
    show ?thesis
      unfolding native_def pl Some Let_def option.case
      using h v ok by (simp split del: if_split) (simp add: if_distrib [of "\<lambda>x. answered (Some x)"])
  qed
qed

lemma iso_select_ok: "card_ok s \<Longrightarrow> answered (Some (iso_select cmd s))"
proof -
  assume "card_ok s"
  then have c: "card_ok (clear_selection s)" by simp
  then have "card_ok ((clear_selection s)\<lparr>nAppSelected := b\<rparr>)"
    "n \<le> 3 \<Longrightarrow> card_ok ((clear_selection s)\<lparr>nSelected := n\<rparr>)" for b n
    by (simp_all add: card_ok_def)
  with c show ?thesis by (simp add: iso_select_def Let_def)
qed

lemma iso_read_ok:
  assumes "card_ok s"
  shows "answered (iso_read cmd s)"
proof (cases "nSelected s = 0")
  case True
  with assms show ?thesis by (simp add: iso_read_def)
next
  case False
  then have i: "nSelected s - 1 < 3" "byteN (nSelected s - 1 + 1) = byteN (nSelected s)"
    using assms by (auto simp: card_ok_def)
  obtain v s' where "view (byteN (nSelected s)) (nFiles s ! (nSelected s - 1)) s = Some (v, s')" "same_card s s'"
    using view_ok [OF assms i(1)] i(2) by auto
  then show ?thesis
    using assms False by (simp add: iso_read_def Let_def card_ok_same)
qed

lemma iso_update_ok:
  assumes "card_ok s"
  shows "answered (Some (iso_update cmd s))"
proof (cases "nSelected s = 0")
  case True
  with assms show ?thesis by (simp add: iso_update_def Let_def)
next
  case False
  then have i: "nSelected s - 1 < 3" "unat (byteN (nSelected s)) = nSelected s - 1 + 1"
    using assms by (auto simp: card_ok_def)
  have "card_ok (set_file_data (byteN (nSelected s)) x s)"
    if "length x = length (nfData (nFiles s ! (nSelected s - 1)))" for x
    using set_file_data_ok [OF assms i that] .
  then show ?thesis using assms False by (simp add: iso_update_def Let_def)
qed

lemma transceive_ok:
  assumes "card_ok s" "length cmd \<noteq> 4 \<or> cmd ! 0 \<noteq> 0x90"
  shows "answered (transceive cmd s)"
  using assms native_ok [OF assms(1), of cmd] iso_select_ok [OF assms(1), of cmd]
    iso_read_ok [OF assms(1), of cmd] iso_update_ok [OF assms(1), of cmd]
  by (auto simp: transceive_def)

lemma list_all_replicate: "list_all P (replicate n x) \<longleftrightarrow> n = 0 \<or> P x"
  by (induction n) auto

lemma new_state_ok: "card_ok (new_ntag424_state uid ver rnd)"
proof -
  have "[0..<3] = [0, 1, 2::nat]" by (simp add: upt_rec)
  then show ?thesis
    by (simp add: new_ntag424_state_def card_ok_def keys_ok_def files_ok_def file_ok_def
        ntag424_file_sizes_def check_settings_def settings_encode_def access_rights_def Let_def
        zero_settings_def settings_small_def AccessFree_def cc_file_def byteN_def
        list_all_replicate)
qed

lemma new_presentation_ok: "card_ok s \<Longrightarrow> card_ok (snd (new_presentation s))"
proof -
  assume "card_ok s"
  then have "card_ok ((clear_selection s)\<lparr>nAppSelected := False, nFrame := 0\<rparr>)"
    by (simp add: card_ok_def clear_selection_def drop_session_def)
  then show ?thesis by (simp add: new_presentation_def Let_def)
qed

text \<open>A conversation with the card: the commands in order, the replies, and the card at the end.\<close>

fun transceive_all :: "bytes list \<Rightarrow> ntag424_state \<Rightarrow> (bytes list \<times> ntag424_state) option" where
  "transceive_all [] s = Some ([], s)"
| "transceive_all (c # cs) s =
     (case transceive c s of None \<Rightarrow> None
      | Some (r, s1) \<Rightarrow>
          (case transceive_all cs s1 of None \<Rightarrow> None | Some (rs, s2) \<Rightarrow> Some (r # rs, s2)))"

lemma transceive_all_ok:
  "card_ok s \<Longrightarrow> list_all (\<lambda>c. length c \<noteq> 4 \<or> c ! 0 \<noteq> 0x90) cmds \<Longrightarrow>
   \<exists>rs s'. transceive_all cmds s = Some (rs, s') \<and> card_ok s' \<and> length rs = length cmds \<and>
     list_all (\<lambda>r. 2 \<le> length r) rs"
proof (induction cmds arbitrary: s)
  case (Cons c cs)
  then have "answered (transceive c s)" by (intro transceive_ok) auto
  then obtain r s1 where "transceive c s = Some (r, s1)" "card_ok s1" "2 \<le> length r"
    by (auto simp: answered_def split: option.splits prod.splits)
  with Cons show ?case by fastforce
qed simp

end
