(* ===== verification/CardExchange.thy ===== *)
theory CardExchange
  imports CardInvariant
begin

text \<open>
  The agent's commands (\<open>Commands\<close>, \<open>Ev2Auth\<close>) against the emulated card (\<open>Ntag424Card\<close>):
  what an operation of the reader's side leaves on the card, and what the reader gets back,
  end to end over the APDUs both sides exchange.
\<close>

section \<open>A command reaches its handler\<close>

lemma session_command_apdu:
  assumes "session_command s ins h d m = Inr apdu" "known_mode m"
  shows "\<exists>rest. apdu = wrap_apdu ins (h @ rest)"
  using assms by (cases m) (auto simp: session_command_def Let_def)

lemma lrp_session_command_apdu:
  assumes "lrp_session_command s ins h d m = (Inr apdu, s')" "known_mode m"
  shows "\<exists>rest. apdu = wrap_apdu ins (h @ rest)"
  using assms by (cases m) (auto simp: lrp_session_command_def Let_def split: if_splits sum.splits)

lemma chan_command_apdu:
  assumes "chan_command ch ins h d m = (Inr apdu, ch')" "known_mode m"
  shows "\<exists>rest. apdu = wrap_apdu ins (h @ rest)"
  using assms by (cases ch) (auto dest: session_command_apdu lrp_session_command_apdu
      simp: map_prod_def split: prod.splits)

lemma unwrap_payload:
  "unwrap_apdu apdu = Inr (ins, p) \<Longrightarrow>
   n4_payload apdu = Some (Some p) \<and> apdu ! 0 = 0x90 \<and> apdu ! 1 = ins \<and> 5 \<le> length apdu"
  by (auto simp: unwrap_apdu_def n4_payload_def Let_def split: if_splits)

lemma session_verify_unwrap: "session_verify s apdu m h = Inr x \<Longrightarrow> \<exists>y. unwrap_apdu apdu = Inr y"
  by (cases "unwrap_apdu apdu") (auto simp: session_verify_def)

lemma lrp_session_verify_unwrap: "lrp_session_verify s apdu m h = (Inr x, s') \<Longrightarrow> \<exists>y. unwrap_apdu apdu = Inr y"
  by (cases "unwrap_apdu apdu") (auto simp: lrp_session_verify_def)

lemma chan_verify_unwrap: "chan_verify ch apdu m h = (Inr x, ch') \<Longrightarrow> \<exists>y. unwrap_apdu apdu = Inr y"
  by (cases ch) (auto dest: session_verify_unwrap lrp_session_verify_unwrap
      simp: map_prod_def split: prod.splits)

text \<open>A wrapped payload that unwraps is shorter than 256 bytes, so it comes out whole.\<close>

lemma wrap_apdu_nth: "wrap_apdu ins p ! 0 = 0x90" "wrap_apdu ins p ! 1 = ins"
  by (simp_all add: wrap_apdu_def)

lemma unwrap_wrap_whole:
  assumes "unwrap_apdu (wrap_apdu ins p) = Inr (i, q)"
  shows "i = ins \<and> q = p"
proof (cases "p = []")
  case True
  with assms show ?thesis by (simp add: wrap_apdu_def unwrap_apdu_def)
next
  case False
  then have "length (wrap_apdu ins p) = 6 + length p" by (simp add: wrap_apdu_def)
  moreover have "wrap_apdu ins p ! 4 = byteN (length p)" using False by (simp add: wrap_apdu_def)
  ultimately have "length p = unat (byteN (length p))"
    using assms False by (auto simp: unwrap_apdu_def Let_def split: if_splits)
  then have "length p < 256" using unat_byte_less [of "byteN (length p)"] by simp
  with assms show ?thesis by (simp add: unwrap_wrap_apdu)
qed

text \<open>The card as the reader's counterpart: its session is the other half of the channel.\<close>

definition in_sync :: "channel \<Rightarrow> ntag424_state \<Rightarrow> bool" where
  "in_sync r s \<longleftrightarrow> (case nSession s of None \<Rightarrow> False | Some c \<Rightarrow> chan_synced r c)"

text \<open>A command inside a session leaves the card as it was, but for the session and the files.\<close>

definition card_stays :: "ntag424_state \<Rightarrow> ntag424_state \<Rightarrow> bool" where
  "card_stays s s' \<longleftrightarrow> s' = s\<lparr>nPendStage := nPendStage s', nSession := nSession s', nFiles := nFiles s'\<rparr>"

lemma card_staysD:
  assumes "card_stays s s'"
  shows "nKeys s' = nKeys s" "nVersions s' = nVersions s" "nAuthKey s' = nAuthKey s" "nLRP s' = nLRP s"
    "nUID s' = nUID s" "nRandomID s' = nRandomID s" "nSelected s' = nSelected s"
    "nSDMCounter s' = nSDMCounter s" "nSDMCounted s' = nSDMCounted s"
    "nFailEnabled s' = nFailEnabled s" "nFailLimit s' = nFailLimit s" "nFailTotal s' = nFailTotal s"
  by (subst assms [unfolded card_stays_def], simp)+

lemma card_stays_refl [simp]: "card_stays s s"
  by (simp add: card_stays_def)

lemma card_stays_trans:
  assumes "card_stays a b" "card_stays b c"
  shows "card_stays a c"
proof -
  have "c = b\<lparr>nPendStage := nPendStage c, nSession := nSession c, nFiles := nFiles c\<rparr>"
    using assms(2) by (simp add: card_stays_def)
  also have "\<dots> = a\<lparr>nPendStage := nPendStage c, nSession := nSession c, nFiles := nFiles c\<rparr>"
    by (subst assms(1) [unfolded card_stays_def]) simp
  finally show ?thesis by (simp add: card_stays_def)
qed

lemma secure_verified:
  "nSession s = Some c \<Longrightarrow> chan_verify c cmd m n = (Inr (h, d), c') \<Longrightarrow>
   secure cmd m n s = (Inr (h, d), s\<lparr>nSession := Some c'\<rparr>)"
  by (simp add: secure_def)

lemma command_secure:
  assumes "in_sync r s" "chan_command r ins h d m = (Inr apdu, r')" "known_mode m"
    and "wire_length m (length h) (length d) < 256"
  obtains c' rest where
    "secure apdu m (length h) (s\<lparr>nPendStage := 0\<rparr>) = (Inr (h, d), s\<lparr>nPendStage := 0, nSession := Some c'\<rparr>)"
    "chan_pending r' c'" "n4_payload apdu = Some (Some (h @ rest))" "apdu ! 0 = 0x90" "apdu ! 1 = ins"
    "5 \<le> length apdu"
proof -
  obtain c where c: "nSession s = Some c" "chan_synced r c"
    using assms(1) by (auto simp: in_sync_def split: option.splits)
  obtain c' where v: "chan_verify c apdu m (length h) = (Inr (h, d), c')" "chan_pending r' c'"
    using chan_command_verify [OF c(2) assms(3,4), of ins] assms(2) by auto
  obtain rest where a: "apdu = wrap_apdu ins (h @ rest)"
    using chan_command_apdu [OF assms(2,3)] by blast
  obtain i p where u: "unwrap_apdu apdu = Inr (i, p)" using chan_verify_unwrap [OF v(1)] by auto
  then have ip: "i = ins" "p = h @ rest" using a unwrap_wrap_whole by blast+
  show thesis
  proof (rule that)
    show "secure apdu m (length h) (s\<lparr>nPendStage := 0\<rparr>) = (Inr (h, d), s\<lparr>nPendStage := 0, nSession := Some c'\<rparr>)"
      using secure_verified [of "s\<lparr>nPendStage := 0\<rparr>", OF _ v(1)] c(1) by simp
  qed (use v(2) unwrap_payload [OF u] ip in auto)
qed

lemma answer_response:
  assumes "nSession s = Some c" "chan_pending r c" "known_mode m"
  obtains resp r' c' where "answer d m s = Some (resp, s\<lparr>nSession := Some c'\<rparr>)"
    "chan_response r resp m = (Inr d, r')" "chan_synced r' c'" "chan_counter r' = chan_counter r + 1"
  using chan_answer_response [OF assms(2,3), of d] assms(1) that by (auto simp: answer_def)

lemma session_answer_status: "session_answer s 0x00 d m = (Inr resp, s') \<Longrightarrow> \<exists>b. resp = b @ [0x91, 0x00]"
  by (cases m) (auto simp: session_answer_def Let_def split: if_splits)

lemma lrp_session_answer_status:
  "lrp_session_answer s 0x00 d m = (Inr resp, s') \<Longrightarrow> \<exists>b. resp = b @ [0x91, 0x00]"
  by (cases m) (auto simp: lrp_session_answer_def Let_def split: if_splits sum.splits)

text \<open>What the reader's parsers make of an answer the channel accepts.\<close>

lemma chan_response_status:
  assumes "chan_response r resp m = (Inr d, r')"
  shows "\<exists>x. status_of resp = Inr x"
proof (cases r)
  case (AesChannel s)
  with assms obtain s' where "session_response s resp m = (Inr d, s')" by (auto simp: map_prod_def split: prod.splits)
  then show ?thesis
    by (auto simp: session_response_def status_of_def Let_def split: if_splits)
next
  case (LrpChannel s)
  with assms obtain s' where "lrp_session_response s resp m = (Inr d, s')" by (auto simp: map_prod_def split: prod.splits)
  then show ?thesis
    by (auto simp: lrp_session_response_def status_of_def Let_def split: if_splits)
qed

lemma check_response_ok:
  assumes "chan_response r resp m = (Inr d, r')"
  shows "check_response (Some r) resp m = (Inr d, Some r')"
  using chan_response_status [OF assms] assms by (auto simp: check_response_def with_chan_def)

section \<open>Changing a key\<close>

lemma known_full [simp]: "known_mode CommFull" by simp

text \<open>
  A key change under key 0, whichever of the two forms the builder chose: the card ends with
  the new key and version, every other key as it was, and the reader accepts the answer. After
  changing its own key the card has no session; otherwise both sides are in step.
\<close>

lemma change_key_on_card:
  assumes ok: "card_ok s" and sync: "in_sync r s" and a0: "nAuthKey s = 0" and k: "k \<le> 4"
    and old: "k \<noteq> 0 \<Longrightarrow> old = nKeys s ! unat k"
    and b: "change_key (Some r) k 0 old new v = (Inr apdu, r1)"
  shows "\<exists>resp s' r2. transceive apdu s = Some (resp, s') \<and> card_ok s' \<and>
    nKeys s' = (nKeys s)[unat k := new] \<and> nVersions s' = (nVersions s)[unat k := v] \<and>
    check_change_key_response r1 resp k 0 = (Inr (), r2) \<and>
    nFiles s' = nFiles s \<and> nAuthKey s' = nAuthKey s \<and> nLRP s' = nLRP s \<and>
    (if k = 0 then nSession s' = None else \<exists>ch. r2 = Some ch \<and> in_sync ch s')"
proof -
  have new: "length new = 16" using b by (auto simp: change_key_def split: if_splits)
  define d where "d = (if k = 0 then new @ [v] else xor_bytes old new @ [v] @ key_crc new)"
  have oldl: "length old = 16" if "k \<noteq> 0"
    using b that by (auto simp: change_key_def split: if_splits)
  have dl: "length d = (if k = 0 then 17 else 21)" using new oldl by (simp add: d_def)
  from b obtain ch where c: "chan_command r 0xC4 [k] d CommFull = (Inr apdu, ch)" "r1 = Some ch"
    by (auto simp: change_key_def d_def send_in_Inr split: if_splits)
  have w: "wire_length CommFull (length [k]) (length d) < 256" using dl by simp
  let ?s = "s\<lparr>nPendStage := 0\<rparr>"
  obtain c' rest where s: "secure apdu CommFull (length [k]) ?s = (Inr ([k], d), ?s\<lparr>nSession := Some c'\<rparr>)"
    "chan_pending ch c'" "n4_payload apdu = Some (Some ([k] @ rest))" "apdu ! 0 = 0x90" "apdu ! 1 = 0xC4"
    "5 \<le> length apdu"
    by (rule command_secure [OF sync c(1) known_full w])
  have s0: "secure apdu CommFull 1 ?s = (Inr ([k], d), ?s\<lparr>nSession := Some c'\<rparr>)" using s(1) by simp
  have t: "transceive apdu s = card_change_key apdu ?s"
    using s(3-6) by (simp add: transceive_def native_def)
  let ?s1 = "?s\<lparr>nSession := Some c', nKeys := (nKeys s)[unat k := new], nVersions := (nVersions s)[unat k := v]\<rparr>"
  have x: "xor_bytes (xor_bytes old new) (nKeys s ! unat k) = new" if "k \<noteq> 0"
    using old [OF that] oldl [OF that] new by (metis xor_bytes_cancel xor_bytes_commute)
  have nk: "\<not> 4 < k" using k by simp
  have h: "card_change_key apdu ?s =
     (if k = 0 then Some (n4_sw 0x00, drop_session ?s1) else answer [] CommFull ?s1)"
    using s0 dl a0 nk new oldl x
    by (simp add: card_change_key_def d_def Let_def nth_append n4_key_crc_def key_crc_def)
  have okr: "answered (transceive apdu s)" using ok s(4,6) by (intro transceive_ok) auto
  show ?thesis
  proof (cases "k = 0")
    case True
    then show ?thesis
      using okr t h c(2)
      by (simp add: check_change_key_response_def status_of_def n4_sw_def status_ok_def drop_session_def Let_def)
  next
    case False
    obtain resp r' c'' where r: "answer [] CommFull ?s1 = Some (resp, ?s1\<lparr>nSession := Some c''\<rparr>)"
      "chan_response ch resp CommFull = (Inr [], r')" "chan_synced r' c''"
      by (rule answer_response [of ?s1 c' ch CommFull "[]"]) (use s(2) in simp_all)
    have "check_change_key_response r1 resp k 0 = (Inr (), Some r')"
      using False c(2) check_response_ok [OF r(2)] by (simp add: check_change_key_response_def)
    with False okr t h r show ?thesis by (simp add: in_sync_def)
  qed
qed

section \<open>Writing and reading a file\<close>

lemma le24_split: "n mod 256 + 256 * (n div 256 mod 256) + 65536 * (n div 65536) = (n :: nat)"
proof -
  have a: "n mod 256 + 256 * (n div 256) = n" by simp
  have b: "n div 256 mod 256 + 256 * (n div 256 div 256) = n div 256" by simp
  have "n div 65536 = n div 256 div 256" by (simp add: div_mult2_eq [symmetric])
  with a b show ?thesis by linarith
qed

lemma n4_offset_le24: "off \<le> 0xFFFFFF \<Longrightarrow> n4_offset (offset24 off) = unat off"
proof -
  assume "off \<le> 0xFFFFFF"
  then have u: "unat off < 16777216" by (simp add: word_le_nat_alt)
  have b: "unat (ucast (drop_bit k off) :: byte) = unat off div 2 ^ k mod 256" for k
    by (simp add: unsigned_ucast_eq take_bit_eq_mod) (subst unat_drop_bit_eq, simp add: drop_bit_eq_div)
  have "n4_offset (offset24 off) = unat off mod 256 + 256 * (unat off div 256 mod 256) + 65536 * (unat off div 65536 mod 256)"
    using b [of 0] b [of 8] b [of 16] by (simp add: n4_offset_def offset24_def)
  also have "unat off div 65536 mod 256 = unat off div 65536" using u by simp
  finally show ?thesis by (simp only: le24_split)
qed

lemma data_header_slices:
  "slice (Suc 0) 4 (f # offset24 a @ offset24 b) = offset24 a"
  "slice 4 7 (f # offset24 a @ offset24 b) = offset24 b"
  using slice_middle [of 1 "[f]" 4 "offset24 a" "offset24 b"]
    slice_middle [of 4 "f # offset24 a" 7 "offset24 b" "[]"] by simp_all

lemma data_header_Inr:
  "data_header f a b = Inr h \<longleftrightarrow> a \<le> 0xFFFFFF \<and> b \<le> 0xFFFFFF \<and> h = f # offset24 a @ offset24 b"
  by (auto simp: data_header_def not_less)

lemma permitted_same:
  "nSession s = Some c \<Longrightarrow> permitted fs w (s\<lparr>nPendStage := 0, nSession := Some c'\<rparr>) = permitted fs w s"
  by (cases w) (auto simp: permitted_def)

lemma card_file_same [simp]: "card_file n (s\<lparr>nPendStage := 0, nSession := c\<rparr>) = card_file n s"
  by (simp add: card_file_def)

lemma card_file_pend [simp]: "card_file n (s\<lparr>nPendStage := 0\<rparr>) = card_file n s"
  by (simp add: card_file_def)

lemma in_syncE:
  assumes "in_sync r s"
  obtains c where "nSession s = Some c" "chan_synced r c"
  using assms by (auto simp: in_sync_def split: option.splits)

text \<open>
  A write in the file's communication mode that its rights permit: the bytes are in the file,
  nothing else of the card's memory changed, and the reader accepts the answer.
\<close>

lemma write_data_on_card:
  assumes ok: "card_ok s" and sync: "in_sync r s"
    and f: "card_file n s = Some f" and m: "fsCommMode (nfSettings f) = m" "known_mode m"
    and p: "fst (permitted (nfSettings f) True s)"
    and fits: "unat off + length data \<le> length (nfData f)"
    and b: "write_data (Some r) n off data m = (Inr apdu, r1)"
  shows "\<exists>resp s' ch. transceive apdu s = Some (resp, s') \<and> card_ok s' \<and>
    nFiles s' = (nFiles s)[unat n - 1 := f\<lparr>nfData := copy_at (unat off) (nfData f) data\<rparr>] \<and>
    nKeys s' = nKeys s \<and> nAuthKey s' = nAuthKey s \<and>
    parse_write_data r1 resp m = (Inr (), Some ch) \<and> in_sync ch s' \<and> card_stays s s'"
proof -
  let ?h = "n # offset24 off @ offset24 (of_nat (length data))"
  from b obtain ch where c: "chan_command r 0x8D ?h data m = (Inr apdu, ch)" "r1 = Some ch"
    and o: "off \<le> 0xFFFFFF" and sz: "length data \<le> max_write_chunk m"
    by (auto simp: write_data_def check_write_size_def data_header_Inr send_in_Inr not_less
        split: if_splits sum.splits)
  have l: "length ?h = 7" by simp
  have w: "wire_length m (length ?h) (length data) < 256"
    unfolding l using sz m(2) by (simp flip: write_chunk_fits)
  let ?s = "s\<lparr>nPendStage := 0\<rparr>"
  obtain c' rest where s: "secure apdu m (length ?h) ?s = (Inr (?h, data), ?s\<lparr>nSession := Some c'\<rparr>)"
    "chan_pending ch c'" "n4_payload apdu = Some (Some (?h @ rest))" "apdu ! 0 = 0x90" "apdu ! 1 = 0x8D"
    "5 \<le> length apdu"
    by (rule command_secure [OF sync c(1) m(2) w])
  obtain c0 where c0: "nSession s = Some c0" using sync by (rule in_syncE)
  have ld: "length data \<le> 248" using sz m(2) by (cases m) (simp_all add: max_write_chunk_def)
  then have dl: "(of_nat (length data) :: uint32) \<le> 0xFFFFFF" "unat (of_nat (length data) :: uint32) = length data"
    by (simp_all add: word_le_nat_alt unat_of_nat)
  have t: "transceive apdu s = card_write_data apdu (?h @ rest) ?s"
    using s(3-6) by (simp add: transceive_def native_def)
  let ?s1 = "?s\<lparr>nSession := Some c'\<rparr>"
  let ?s2 = "set_file_data n (copy_at (unat off) (nfData f) data) ?s1"
  have "card_write_data apdu (?h @ rest) ?s = write_result ?h data m ?s1"
    using s(1) f m(1) c0 by (simp add: card_write_data_def l [simplified])
  also have "\<dots> = answer [] m ?s2"
  proof -
    obtain ok' st where pr: "permitted (nfSettings f) True s = (ok', st)" by fastforce
    have "nSession ?s2 = Some c'" by (simp add: set_file_data_def)
    then show ?thesis
      using f p fits dl pr permitted_same [OF c0, of "nfSettings f" True c']
      by (simp add: write_result_def Let_def data_header_slices n4_offset_le24 o)
  qed
  finally have h: "card_write_data apdu (?h @ rest) ?s = answer [] m ?s2" .
  obtain resp r' c'' where r: "answer [] m ?s2 = Some (resp, ?s2\<lparr>nSession := Some c''\<rparr>)"
    "chan_response ch resp m = (Inr [], r')" "chan_synced r' c''"
    by (rule answer_response [of ?s2 c' ch m "[]"]) (use s(2) m(2) in \<open>simp_all add: set_file_data_def\<close>)
  have okr: "answered (transceive apdu s)" using ok s(4,6) by (intro transceive_ok) auto
  have pw: "parse_write_data r1 resp m = (Inr (), Some r')"
    using c(2) check_response_ok [OF r(2)] by (simp add: parse_write_data_def)
  have ff: "f = nFiles s ! (unat n - 1)" using f by (auto simp: card_file_def split: if_splits)
  show ?thesis
    using okr t h r(1,3) pw by (simp add: in_sync_def set_file_data_def ff card_stays_def)
qed

text \<open>A read of a file SDM does not touch gives the reader the file's bytes.\<close>

lemma read_data_on_card:
  assumes ok: "card_ok s" and sync: "in_sync r s"
    and f: "card_file n s = Some f" and m: "fsCommMode (nfSettings f) = m" "known_mode m"
    and p: "fst (permitted (nfSettings f) False s)" and sdm: "n \<noteq> 0x02 \<or> \<not> fsSDMEnabled (nfSettings f)"
    and fits: "0 < len" "unat len \<le> 224" "unat off + unat len \<le> length (nfData f)"
    and b: "read_data (Some r) n off len m = (Inr apdu, r1)"
  shows "\<exists>resp s' ch. transceive apdu s = Some (resp, s') \<and> card_ok s' \<and> nFiles s' = nFiles s \<and>
    parse_read_data r1 resp m = (Inr (slice (unat off) (unat off + unat len) (nfData f)), Some ch) \<and>
    in_sync ch s' \<and> card_stays s s'"
proof -
  let ?h = "n # offset24 off @ offset24 len"
  from b obtain ch where c: "chan_command r 0xAD ?h [] m = (Inr apdu, ch)" "r1 = Some ch"
    and o: "off \<le> 0xFFFFFF" "len \<le> 0xFFFFFF"
    by (auto simp: read_data_def data_header_Inr send_in_Inr not_less split: if_splits sum.splits)
  have w: "wire_length m (length ?h) (length []) < 256" using m(2) by (cases m) simp_all
  let ?s = "s\<lparr>nPendStage := 0\<rparr>"
  obtain c' rest where s: "secure apdu m (length ?h) ?s = (Inr (?h, []), ?s\<lparr>nSession := Some c'\<rparr>)"
    "chan_pending ch c'" "n4_payload apdu = Some (Some (?h @ rest))" "apdu ! 0 = 0x90" "apdu ! 1 = 0xAD"
    "5 \<le> length apdu"
    by (rule command_secure [OF sync c(1) m(2) w])
  obtain c0 where c0: "nSession s = Some c0" using sync by (rule in_syncE)
  have t: "transceive apdu s = card_read_data apdu (?h @ rest) ?s"
    using s(3-6) by (simp add: transceive_def native_def)
  let ?s1 = "?s\<lparr>nSession := Some c'\<rparr>"
  let ?d = "slice (unat off) (unat off + unat len) (nfData f)"
  have "card_read_data apdu (?h @ rest) ?s = read_result ?h m ?s1"
    using s(1) f m(1) c0 by (simp add: card_read_data_def)
  also have "\<dots> = answer ?d m ?s1"
  proof -
    obtain ok' st where pr: "permitted (nfSettings f) False s = (ok', st)" by fastforce
    have "unat len \<noteq> 0" using fits(1) by (simp add: word_less_nat_alt)
    then show ?thesis
      using f p fits sdm pr permitted_same [OF c0, of "nfSettings f" False c']
      by (auto simp add: read_result_def Let_def data_header_slices n4_offset_le24 o view_def)
  qed
  finally have h: "card_read_data apdu (?h @ rest) ?s = answer ?d m ?s1" .
  obtain resp r' c'' where r: "answer ?d m ?s1 = Some (resp, ?s1\<lparr>nSession := Some c''\<rparr>)"
    "chan_response ch resp m = (Inr ?d, r')" "chan_synced r' c''"
    by (rule answer_response [of ?s1 c' ch m ?d]) (use s(2) m(2) in simp_all)
  have okr: "answered (transceive apdu s)" using ok s(4,6) by (intro transceive_ok) auto
  have pr: "parse_read_data r1 resp m = (Inr ?d, Some r')"
    using c(2) check_response_ok [OF r(2)] by (simp add: parse_read_data_def)
  show ?thesis using okr t h r(1,3) pr by (simp add: in_sync_def card_stays_def)
qed

section \<open>Changing and reading the settings\<close>

lemma settings_encode_length: "settings_encode f = Inr b \<Longrightarrow> 0 < length b \<and> length b \<le> 36"
  by (erule settings_encode_Inr) (auto simp: sdm_offsets_def)

lemma may_change_same [simp]: "may_change f (s\<lparr>nPendStage := 0, nSession := c\<rparr>) = may_change f s"
  by (simp add: may_change_def)

lemma change_settings_on_card:
  assumes ok: "card_ok s" and sync: "in_sync r s" and f: "card_file n s = Some f"
    and p: "may_change f s" and enc: "settings_encode fs = Inr enc"
    and chk: "check_settings (nLRP s) n (settings_wire fs) = 0"
    and b: "change_file_settings (Some r) n enc = (Inr apdu, r1)"
  shows "\<exists>resp s' ch. transceive apdu s = Some (resp, s') \<and> card_ok s' \<and>
    nFiles s' = (nFiles s)[unat n - 1 := f\<lparr>nfSettings := (settings_wire fs)\<lparr>fsFileType := 0x00,
                   fsFileSize := of_nat (length (nfData f))\<rparr>\<rparr>] \<and>
    check_response r1 resp CommFull = (Inr [], Some ch) \<and> in_sync ch s' \<and> card_stays s s'"
proof -
  from b obtain ch where c: "chan_command r 0x5F [n] enc CommFull = (Inr apdu, ch)" "r1 = Some ch"
    by (auto simp: change_file_settings_def send_in_Inr split: if_splits)
  have w: "wire_length CommFull (length [n]) (length enc) < 256"
  proof -
    have "length enc div 16 \<le> 36 div 16" using settings_encode_length [OF enc] by (intro div_le_mono) simp
    then show ?thesis by simp
  qed
  let ?s = "s\<lparr>nPendStage := 0\<rparr>"
  obtain c' rest where s: "secure apdu CommFull (length [n]) ?s = (Inr ([n], enc), ?s\<lparr>nSession := Some c'\<rparr>)"
    "chan_pending ch c'" "n4_payload apdu = Some (Some ([n] @ rest))" "apdu ! 0 = 0x90" "apdu ! 1 = 0x5F"
    "5 \<le> length apdu"
    by (rule command_secure [OF sync c(1) known_full w])
  let ?s1 = "?s\<lparr>nSession := Some c'\<rparr>"
  let ?s2 = "set_card_settings n (settings_wire fs) ?s1"
  have h: "transceive apdu s = answer [] CommFull ?s2"
    using s(1,3-6) f p chk
    by (simp add: transceive_def native_def card_change_file_settings_def settings_encode_parse [OF enc] Let_def)
  obtain resp r' c'' where r: "answer [] CommFull ?s2 = Some (resp, ?s2\<lparr>nSession := Some c''\<rparr>)"
    "chan_response ch resp CommFull = (Inr [], r')" "chan_synced r' c''"
    by (rule answer_response [of ?s2 c' ch CommFull "[]"]) (use s(2) in simp_all)
  have okr: "answered (transceive apdu s)" using ok s(4,6) by (intro transceive_ok) auto
  have ff: "f = nFiles s ! (unat n - 1)" using f by (auto simp: card_file_def split: if_splits)
  show ?thesis
    using okr h r(1,3) check_response_ok [OF r(2)] c(2)
    by (simp add: in_sync_def set_card_settings_def ff Let_def card_stays_def)
qed

text \<open>What the card reports of a file, the reader parses back.\<close>

lemma settings_block_shown:
  assumes ok: "card_ok s" and f: "card_file n s = Some f"
  shows "parse_file_settings (settings_block f) =
    Inr ((settings_wire (nfSettings f))\<lparr>fsFileType := 0x00, fsFileSize := of_nat (length (nfData f))\<rparr>)"
proof -
  obtain i where i: "i < 3" "f = nFiles s ! i" using f by (rule card_fileD)
  then have fo: "file_ok (nLRP s) i f" using ok by (simp add: card_ok_def files_okD)
  obtain enc where e: "settings_encode (nfSettings f) = Inr enc"
    using fo by (auto simp: file_ok_def dest: check_settings_off elim: isOkE)
  have "length (nfData f) \<le> 256"
    using fo i(1) by (auto simp: file_ok_def ntag424_file_sizes_def less_Suc_eq numeral_eq_Suc)
  then have sz: "take_bit 24 (of_nat (length (nfData f)) :: uint32) = of_nat (length (nfData f))"
    by (intro le24_small) (simp add: word_less_nat_alt unat_of_nat)
  show ?thesis
    using settings_block_parse [OF e, of 0 "of_nat (length (nfData f))"] by (simp add: settings_block_def e sz)
qed

lemma get_settings_on_card:
  assumes ok: "card_ok s" and sync: "in_sync r s" and f: "card_file n s = Some f"
    and b: "get_file_settings (Some r) n = (Inr apdu, r1)"
  shows "\<exists>resp s' ch. transceive apdu s = Some (resp, s') \<and> card_ok s' \<and> nFiles s' = nFiles s \<and>
    parse_file_settings_response r1 resp =
      (Inr ((settings_wire (nfSettings f))\<lparr>fsFileType := 0x00, fsFileSize := of_nat (length (nfData f))\<rparr>), Some ch) \<and>
    in_sync ch s' \<and> card_stays s s'"
proof -
  from b obtain ch where c: "chan_command r 0xF5 [n] [] CommMAC = (Inr apdu, ch)" "r1 = Some ch"
    by (auto simp: get_file_settings_def send_in_Inr)
  have w: "known_mode CommMAC" "wire_length CommMAC (length [n]) (length []) < 256" by simp_all
  let ?s = "s\<lparr>nPendStage := 0\<rparr>"
  obtain c' rest where s: "secure apdu CommMAC (length [n]) ?s = (Inr ([n], []), ?s\<lparr>nSession := Some c'\<rparr>)"
    "chan_pending ch c'" "n4_payload apdu = Some (Some ([n] @ rest))" "apdu ! 0 = 0x90" "apdu ! 1 = 0xF5"
    "5 \<le> length apdu"
    by (rule command_secure [OF sync c(1) w])
  obtain c0 where c0: "nSession s = Some c0" using sync by (rule in_syncE)
  let ?s1 = "?s\<lparr>nSession := Some c'\<rparr>"
  have h: "transceive apdu s = answer (settings_block f) CommMAC ?s1"
    using s(1,3-6) f c0 by (simp add: transceive_def native_def card_get_file_settings_def)
  obtain resp r' c'' where r: "answer (settings_block f) CommMAC ?s1 = Some (resp, ?s1\<lparr>nSession := Some c''\<rparr>)"
    "chan_response ch resp CommMAC = (Inr (settings_block f), r')" "chan_synced r' c''"
    by (rule answer_response [of ?s1 c' ch CommMAC "settings_block f"]) (use s(2) in simp_all)
  have okr: "answered (transceive apdu s)" using ok s(4,6) by (intro transceive_ok) auto
  have "parse_file_settings (settings_block f) =
      Inr ((settings_wire (nfSettings f))\<lparr>fsFileType := 0x00, fsFileSize := of_nat (length (nfData f))\<rparr>)"
    using ok f by (rule settings_block_shown)
  then show ?thesis
    using okr h r(1,3) check_response_ok [OF r(2)] c(2)
    by (simp add: in_sync_def parse_file_settings_response_def card_stays_def)
qed

section \<open>Authentication against the card\<close>

text \<open>
  The two round trips of an authentication over the card's APDUs: \<open>Command\<close>, the card's
  answer to \<open>Challenge\<close>, its message to the card, the card's answer to \<open>Finish\<close>. The
  result is the reader's session and the card after the exchange, or the reader's error.
\<close>

definition aes_login ::
    "authenticator \<Rightarrow> ntag424_state \<Rightarrow> (ev2_error + session \<times> ntag424_state) option" where
  "aes_login a s =
     (case transceive (auth_command a) s of
        None \<Rightarrow> None
      | Some (r1, s1) \<Rightarrow>
          (case auth_challenge a r1 of
             (Inl e, _) \<Rightarrow> Some (Inl e)
           | (Inr cmd, a1) \<Rightarrow>
               (case transceive cmd s1 of
                  None \<Rightarrow> None
                | Some (r2, s2) \<Rightarrow>
                    Some (bindE (fst (auth_finish a1 r2)) (\<lambda>sess. Inr (sess, s2))))))"

definition lrp_login ::
    "lrp_authenticator \<Rightarrow> ntag424_state \<Rightarrow> (ev2_error + lrp_session \<times> ntag424_state) option" where
  "lrp_login a s =
     (case transceive (lrp_auth_command a) s of
        None \<Rightarrow> None
      | Some (r1, s1) \<Rightarrow>
          (case lrp_auth_challenge a r1 of
             (Inl e, _) \<Rightarrow> Some (Inl e)
           | (Inr cmd, a1) \<Rightarrow>
               (case transceive cmd s1 of
                  None \<Rightarrow> None
                | Some (r2, s2) \<Rightarrow>
                    Some (bindE (fst (lrp_auth_finish a1 r2)) (\<lambda>sess. Inr (sess, s2))))))"

definition not_delayed :: "ntag424_state \<Rightarrow> bool" where
  "not_delayed s \<longleftrightarrow> \<not> (nFailEnabled s \<and> nFailLimit s \<le> nFailTotal s)"

lemma wrapped_native:
  assumes "length p < 256" "p \<noteq> []"
  shows "n4_payload (wrap_apdu ins p) = Some (Some p)" "5 \<le> length (wrap_apdu ins p)"
    "transceive (wrap_apdu ins p) s = native (wrap_apdu ins p) s"
  using unwrap_payload [OF unwrap_wrap_apdu [OF assms(1), of ins]]
  by (simp_all add: transceive_def)

text \<open>The first step on the card: its random number offered, the exchange pending.\<close>

definition offered :: "ntag424_state \<Rightarrow> bool \<Rightarrow> byte \<Rightarrow> ntag424_state" where
  "offered s first k = s\<lparr>nRandom := \<lambda>i. nRandom s (i + 16), nRndB := map (nRandom s) [0..<16],
     nPendStage := 1, nPendFirst := first, nPendKey := k\<rparr>"

lemma first_step_on_card:
  assumes ok: "card_ok s" and k: "k \<le> 4" "not_delayed s" "length (nKeys s ! unat k) = 16"
    and first: "\<not> first \<longrightarrow> nSession s \<noteq> None"
    and cmd: "cmd = wrap_apdu (if first then 0x71 else 0x77) (k # rest)" "length rest < 255"
      "first \<longrightarrow> rest \<noteq> []"
  shows "transceive cmd s =
    Some ((if nLRP s then 0x01 # map (nRandom s) [0..<16]
           else encrypt_cbc (nKeys s ! unat k) (map (nRandom s) [0..<16])) @ [0x91, 0xAF], offered s first k)"
proof -
  have kk: "\<not> 4 < k" using k(1) by simp
  have l: "length (k # rest) < 256" using cmd(2) by simp
  note w = wrapped_native [OF l list.distinct(2)]
  have "native cmd s = Some (auth_first_step first (k # rest) (s\<lparr>nPendStage := 0\<rparr>))"
    using w(1) unfolding cmd(1) by (cases first) (simp_all add: native_def wrap_apdu_nth [simplified])
  then have "transceive cmd s = Some (auth_first_step first (k # rest) (s\<lparr>nPendStage := 0\<rparr>))"
    using w(3) by (simp add: cmd(1))
  moreover have "first \<longrightarrow> \<not> length (k # rest) < 2" using cmd(3) by (cases rest) auto
  moreover have "\<not> (nFailEnabled s \<and> nFailLimit s \<le> nFailTotal s)"
    using k(2) by (simp add: not_delayed_def)
  moreover have "\<not> first \<longrightarrow> (nSession s = None) = False" using first by simp
  ultimately show ?thesis
    using k(3) kk unfolding auth_first_step_def Let_def
    by (cases first; cases "nFailEnabled s") (simp_all add: new_cipher_def rand_read_def offered_def)
qed

lemma second_step_on_card:
  assumes "length p = 32"
  shows "transceive (wrap_apdu 0xAF p) (offered s first k) =
    (let s1 = (offered s first k)\<lparr>nPendStage := 0\<rparr>; key = nKeys s ! unat k
     in if nLRP s then auth_second_lrp key p s1 else auth_second_aes key p s1)"
proof -
  have "length p < 256" "p \<noteq> []" using assms by auto
  note w = wrapped_native [OF this]
  show ?thesis
    unfolding w(3) using w(1) assms
    by (simp add: native_def wrap_apdu_nth [simplified] auth_second_def offered_def Let_def)
qed

lemma wrap_challenge_payload:
  assumes "aes_valid_key key" "length r = 16" "length b = 16"
  shows "length (encrypt_cbc key (r @ rotate_left b)) = 32"
    "decrypt_cbc key (encrypt_cbc key (r @ rotate_left b)) = r @ rotate_left b"
proof -
  have "length (r @ rotate_left b) = 32" using assms by (subst length_append, subst length_rotate_left) auto
  then have d: "16 dvd length (r @ rotate_left b)" by simp
  show "length (encrypt_cbc key (r @ rotate_left b)) = 32"
    using length_encrypt_cbc [OF assms(1) d] \<open>length (r @ rotate_left b) = 32\<close> by simp
  show "decrypt_cbc key (encrypt_cbc key (r @ rotate_left b)) = r @ rotate_left b"
    by (rule decrypt_encrypt_cbc [OF assms(1) d])
qed

lemma card_ok_offered:
  "card_ok s \<Longrightarrow> k \<le> 4 \<Longrightarrow> first \<or> nSession s \<noteq> None \<Longrightarrow> card_ok (offered s first k)"
  by (simp add: card_ok_def offered_def)

lemma lower_session [simp]:
  "nSession (lower_failures s) = nSession s" "nAuthKey (lower_failures s) = nAuthKey s"
  "nKeys (lower_failures s) = nKeys s" "nFiles (lower_failures s) = nFiles s"
  "nLRP (lower_failures s) = nLRP s"
  by (simp_all add: lower_failures_def)

lemma lower_not_delayed:
  assumes "not_delayed s"
  shows "not_delayed (lower_failures s)"
proof (cases "nFailTotal s \<le> nFailDec s")
  case False
  then have "nFailTotal s - nFailDec s \<le> nFailTotal s" by (intro word_sub_le) simp
  then show ?thesis using assms False by (auto simp: not_delayed_def lower_failures_def)
qed (use assms in \<open>auto simp: not_delayed_def lower_failures_def\<close>)

text \<open>
  AES: with the card's own key the exchange ends with both sides holding the same session, on
  a first authentication with a fresh identifier and counter 0, on a later one with those of
  the session it replaces.
\<close>

lemma aes_login_ok:
  fixes first :: bool
  assumes ok: "card_ok s" and lrp: "\<not> nLRP s" and k: "k \<le> 4" and nd: "not_delayed s"
    and n: "new_authenticator random (if first then AuthFirst else AuthNonFirst) k (nKeys s ! unat k) t0 = Inr a"
    and r: "16 \<le> length random"
    and op: "\<not> first \<Longrightarrow> nSession s = Some ch \<and> chan_ti ch = t0 \<and> chan_counter ch = ctr"
  shows "\<exists>sess s2. aes_login (auth_set_counter a ctr) s = Some (Inr (sess, s2)) \<and> card_ok s2 \<and>
    in_sync (AesChannel sess) s2 \<and> nAuthKey s2 = k \<and> nKeys s2 = nKeys s \<and> nFiles s2 = nFiles s \<and> nLRP s2 = nLRP s \<and> not_delayed s2 \<and>
    counter sess = (if first then 0 else ctr) \<and> (\<not> first \<longrightarrow> ti sess = t0)"
proof -
  define key where "key = nKeys s ! unat k"
  define b where "b = map (nRandom s) [0..<16]"
  define rA where "rA = take 16 random"
  have lb: "length b = 16" and lr: "length rA = 16" using r by (simp_all add: b_def rA_def)
  let ?a = "auth_set_counter a ctr"
  note ch = auth_challenge_ok [OF n refl r lb, of ctr, folded key_def rA_def]
  have kl: "length key = 16" "aes_valid_key key" and am: "amode ?a = (if first then AuthFirst else AuthNonFirst)"
    and at: "ati ?a = t0" "acounter ?a = ctr" "ablock ?a = key" "akeyNo ?a = k"
    using ch n by (auto simp: new_authenticator_def bindE_eq_Inr auth_set_counter_def split: if_splits)
  have t4: "\<not> first \<Longrightarrow> length t0 = 4" using ch by auto
  define p where "p = encrypt_cbc key (rA @ rotate_left b)"
  have p: "length p = 32" "decrypt_cbc key p = rA @ rotate_left b"
    using wrap_challenge_payload [OF kl(2) lr lb] by (simp_all add: p_def)
  define a1 where "a1 = ?a\<lparr>arndB := b, arndA := rA, arandom := drop 16 random, astage := 1\<rparr>"
  have c1: "auth_challenge ?a (encrypt_cbc key b @ [0x91, 0xAF]) = (Inr (wrap_apdu 0xAF p), a1)"
    using ch by (simp add: p_def a1_def)
  have cmd: "auth_command ?a = wrap_apdu (if first then 0x71 else 0x77) (k # (if first then [0x00] else []))"
    using am at(4) by (simp add: auth_command_def)
  have t1: "transceive (auth_command ?a) s = Some (encrypt_cbc key b @ [0x91, 0xAF], offered s first k)"
    using first_step_on_card [OF ok k nd, of first, OF _ _ cmd] lrp kl(1) op
    by (auto simp: key_def b_def)
  have "\<exists>ek mk. derive_session_keys key rA b = Inr (ek, mk)"
    using kl(1) lr lb by (simp add: derive_session_keys_def new_cipher_def)
  then obtain ek mk where dk1: "derive_session_keys key rA b = Inr (ek, mk)" by blast
  note dk = dk1 derive_session_keys_ok [OF dk1, THEN conjunct1]
    derive_session_keys_ok [OF dk1, THEN conjunct2, THEN conjunct1]
  let ?o = "(offered s first k)\<lparr>nPendStage := 0\<rparr>"
  define t where "t = (if first then map (nRandom ?o) [0..<4] else t0)"
  define cc where "cc = (if first then 0 else ctr)"
  have lt: "length t = 4" using t4 by (auto simp: t_def)
  obtain sess where sess: "new_session_at t ek mk cc = Inr sess" "session_ok sess" "counter sess = cc"
      "ti sess = t"
    using lt dk(2,3) by (simp add: new_session_at_def session_ok_def aes_valid_key_def)
  define o1 where "o1 = (if first then ?o\<lparr>nRandom := \<lambda>i. nRandom ?o (i + 4)\<rparr> else ?o)"
  define s2 where "s2 = lower_failures (o1\<lparr>nSession := Some (AesChannel sess), nAuthKey := k\<rparr>)"
  define reply where "reply = (if first then t @ rotate_left rA @ replicate 12 0 else rotate_left rA)"
  have t2: "transceive (wrap_apdu 0xAF p) (offered s first k) = Some (encrypt_cbc key reply @ [0x91, 0x00], s2)"
  proof (cases first)
    case True
    then show ?thesis
      using lrp p(2) lr dk(1) sess(1) kl(1)
      unfolding second_step_on_card [OF p(1)]
      by (simp add: auth_second_aes_def key_def [symmetric] new_cipher_def
          rand_read_def Let_def offered_def b_def [symmetric] t_def cc_def s2_def o1_def reply_def)
  next
    case False
    then show ?thesis
      using lrp p(2) lr dk(1) sess(1) kl(1) op
      unfolding second_step_on_card [OF p(1)]
      by (simp add: auth_second_aes_def key_def [symmetric] new_cipher_def
          Let_def offered_def b_def [symmetric] t_def cc_def s2_def o1_def reply_def)
  qed
  have f: "auth_finish a1 (encrypt_cbc key reply @ [0x91, 0x00]) = (Inr sess, a1\<lparr>astage := 2\<rparr>)"
    using auth_finish_ok [OF kl(1) lr lb lt, of a1 first ek mk] dk(1) am at sess(1)
    by (simp add: a1_def reply_def cc_def t_def split: if_splits)
  have "aes_login ?a s = Some (Inr (sess, s2))"
    by (simp add: aes_login_def t1 c1 t2 f)
  moreover have "answered (transceive (wrap_apdu 0xAF p) (offered s first k))"
    using ok k op p(1) by (intro transceive_ok card_ok_offered) (auto simp: wrap_apdu_def)
  then have "card_ok s2" by (simp add: t2)
  moreover have "not_delayed s2" 
    unfolding s2_def by (rule lower_not_delayed) (use nd in \<open>simp add: o1_def offered_def not_delayed_def\<close>)
  moreover have "nKeys s2 = nKeys s" "nFiles s2 = nFiles s" "in_sync (AesChannel sess) s2" "nAuthKey s2 = k"
      "nLRP s2 = nLRP s"
    using sess(2) by (simp_all add: s2_def o1_def offered_def in_sync_def aes_synced_def)
  ultimately show ?thesis using sess(3,4) by (auto simp: cc_def t_def)
qed

lemma lrp_round_steps:
  assumes "lrp_round a first key b t cc = Inr (r, c)"
  obtains p a1 reply a2 where
    "lrp_auth_challenge a (0x01 # b @ [0x91, 0xAF]) = (Inr (wrap_apdu 0xAF p), a1)" "length p = 32"
    "lrp_answer first key b p t cc = Inr (reply, c)"
    "lrp_auth_finish a1 (reply @ [0x91, 0x00]) = (Inr r, a2)"
proof -
  from assms obtain apdu a1 ins q reply where
    1: "lrp_auth_challenge a (0x01 # b @ [0x91, 0xAF]) = (Inr apdu, a1)" and u: "unwrap_apdu apdu = Inr (ins, q)"
    and 2: "lrp_answer first key b q t cc = Inr (reply, c)"
    and 3: "fst (lrp_auth_finish a1 (reply @ [0x91, 0x00])) = Inr r"
    by (auto simp: lrp_round_def bindE_eq_Inr split: prod.splits sum.splits)
  from 1 obtain p where p: "apdu = wrap_apdu 0xAF p"
    by (auto simp: lrp_auth_challenge_def Let_def read_random_def split: sum.splits if_splits)
  with u have "q = p" using unwrap_wrap_whole by blast
  moreover have "length q = 32" using 2 by (auto simp: lrp_answer_def split: if_splits)
  moreover obtain a2 where "lrp_auth_finish a1 (reply @ [0x91, 0x00]) = (Inr r, a2)"
    using 3 by (metis prod.collapse)
  ultimately show thesis using that 1 2 p by blast
qed

text \<open>LRP: the same of a card switched to the leakage resilient primitive.\<close>

lemma lrp_login_ok:
  fixes first :: bool
  assumes ok: "card_ok s" and lrp: "nLRP s" and k: "k \<le> 4" and nd: "not_delayed s"
    and n: "new_lrp_authenticator random (if first then AuthFirst else AuthNonFirst) k (nKeys s ! unat k) t0 = Inr a"
    and r: "16 \<le> length random"
    and op: "\<not> first \<Longrightarrow> nSession s = Some ch \<and> chan_ti ch = t0 \<and> chan_counter ch = ctr"
  shows "\<exists>sess s2. lrp_login (lrp_auth_set_counter a ctr) s = Some (Inr (sess, s2)) \<and> card_ok s2 \<and>
    in_sync (LrpChannel sess) s2 \<and> nAuthKey s2 = k \<and> nKeys s2 = nKeys s \<and> nFiles s2 = nFiles s \<and> nLRP s2 = nLRP s \<and> not_delayed s2 \<and>
    lcounter sess = (if first then 0 else ctr) \<and> (\<not> first \<longrightarrow> lti sess = t0)"
proof -
  define key where "key = nKeys s ! unat k"
  define b where "b = map (nRandom s) [0..<16]"
  have lb: "length b = 16" by (simp add: b_def)
  let ?a = "lrp_auth_set_counter a ctr"
  from n have am: "lamode ?a = (if first then AuthFirst else AuthNonFirst)" "lakeyNo ?a = k"
    and kl: "length key = 16"
    by (auto simp: new_lrp_authenticator_def lrp_auth_set_counter_def key_def split: if_splits)
  have cmd: "lrp_auth_command ?a = wrap_apdu (if first then 0x71 else 0x77) (k # 0x06 # lrp_pcd_cap2)"
    using am by (simp add: lrp_auth_command_def)
  have t1: "transceive (lrp_auth_command ?a) s = Some (0x01 # b @ [0x91, 0xAF], offered s first k)"
    using first_step_on_card [OF ok k nd, of first, OF _ _ cmd] lrp kl op
    by (auto simp: key_def b_def lrp_pcd_cap2_def)
  let ?o = "(offered s first k)\<lparr>nPendStage := 0\<rparr>"
  define t where "t = (if first then map (nRandom ?o) [0..<4] else t0)"
  define cc where "cc = (if first then 0 else ctr)"
  define o1 where "o1 = (if first then ?o\<lparr>nRandom := \<lambda>i. nRandom ?o (i + 4)\<rparr> else ?o)"
  have "\<exists>sess. lrp_round ?a first key b t cc = Inr (sess, sess) \<and> lrp_session_ok sess \<and>
      lcounter sess = cc \<and> lti sess = t"
  proof (cases first)
    case True
    then show ?thesis
      using lrp_round_first [OF _ r lb, of k key t0 a t ctr cc] n
      by (auto simp: key_def t_def cc_def)
  next
    case False
    then show ?thesis
      using lrp_round_nonfirst [OF _ r lb, of k key t0 a ctr] n
      by (auto simp: key_def t_def cc_def)
  qed
  then obtain sess where sess: "lrp_round ?a first key b t cc = Inr (sess, sess)" "lrp_session_ok sess"
    "lcounter sess = cc" "lti sess = t" by blast
  obtain p a1 reply a2 where
    c1: "lrp_auth_challenge ?a (0x01 # b @ [0x91, 0xAF]) = (Inr (wrap_apdu 0xAF p), a1)" and p: "length p = 32"
    and ans: "lrp_answer first key b p t cc = Inr (reply, sess)"
    and f: "lrp_auth_finish a1 (reply @ [0x91, 0x00]) = (Inr sess, a2)"
    using sess(1) by (rule lrp_round_steps)
  define s2 where "s2 = lower_failures (o1\<lparr>nSession := Some (LrpChannel sess), nAuthKey := k\<rparr>)"
  have t2: "transceive (wrap_apdu 0xAF p) (offered s first k) = Some (reply @ [0x91, 0x00], s2)"
  proof (cases first)
    case True
    then show ?thesis
      using lrp ans unfolding second_step_on_card [OF p]
      by (simp add: auth_second_lrp_def key_def [symmetric] rand_read_def Let_def offered_def
          b_def [symmetric] t_def cc_def s2_def o1_def)
  next
    case False
    then show ?thesis
      using lrp ans op unfolding second_step_on_card [OF p]
      by (simp add: auth_second_lrp_def key_def [symmetric] Let_def offered_def
          b_def [symmetric] t_def cc_def s2_def o1_def)
  qed
  have "lrp_login ?a s = Some (Inr (sess, s2))"
    by (simp add: lrp_login_def t1 c1 t2 f)
  moreover have "answered (transceive (wrap_apdu 0xAF p) (offered s first k))"
    using ok k op p by (intro transceive_ok card_ok_offered) (auto simp: wrap_apdu_def)
  then have "card_ok s2" by (simp add: t2)
  moreover have "not_delayed s2" 
    unfolding s2_def by (rule lower_not_delayed) (use nd in \<open>simp add: o1_def offered_def not_delayed_def\<close>)
  moreover have "lrp_synced sess sess"
    using sess(2) unfolding lrp_synced_def by (metis lrp_session.surjective lrp_session.update_convs(6))
  then have "nKeys s2 = nKeys s" "nFiles s2 = nFiles s" "in_sync (LrpChannel sess) s2" "nAuthKey s2 = k"
      "nLRP s2 = nLRP s"
    by (simp_all add: s2_def o1_def offered_def in_sync_def)
  ultimately show ?thesis using sess(3,4) by (auto simp: cc_def t_def)
qed

end
