(* ===== verification/Plan.thy ===== *)
theory Plan
  imports Sdm
begin

text \<open>
  \<open>nfc/ntag424/plan.go\<close>: laying out an SDM URL. A template names where each mirror goes;
  the plan is the NDEF file with every mirror as zeros of its width, and the file settings whose
  offsets point at them.
\<close>

section \<open>Templates\<close>

datatype placeholder = PhPicc | PhUid | PhCtr | PhEnc | PhMac

fun ph_text :: "placeholder \<Rightarrow> bytes" where
  "ph_text PhPicc = ascii ''{picc}''"
| "ph_text PhUid = ascii ''{uid}''"
| "ph_text PhCtr = ascii ''{ctr}''"
| "ph_text PhEnc = ascii ''{enc}''"
| "ph_text PhMac = ascii ''{mac}''"

definition placeholders :: "placeholder list" where
  "placeholders = [PhPicc, PhUid, PhCtr, PhEnc, PhMac]"

record sdm_options =
  oMetaRead :: byte
  oFileRead :: byte
  oCounterRet :: byte
  oChange :: byte
  oRead :: byte
  oWrite :: byte
  oReadWrite :: byte
  oEncLength :: uint32
  oLRP :: bool

datatype plan_error =
    PUnknown bytes | PTwice placeholder | PNeedsMac | PPiccMixed | PUidCtrApart | PNoPicc
  | PFileRead byte | PMetaRead byte | PEncLrp | PEncLength uint32 | PTooLong nat
  | PEncBeforeMirror | PMacBeforeEnc | PMacBeforeMirror | PSettings settings_error

definition picc_width :: "sdm_options \<Rightarrow> nat" where
  "picc_width opts = (if oLRP opts then 48 else 32)"

definition enc_length :: "sdm_options \<Rightarrow> uint32" where
  "enc_length opts = (if oEncLength opts = 0 then 32 else oEncLength opts)"

fun ph_width :: "sdm_options \<Rightarrow> placeholder \<Rightarrow> nat" where
  "ph_width opts PhPicc = picc_width opts"
| "ph_width opts PhUid = 14"
| "ph_width opts PhCtr = 6"
| "ph_width opts PhEnc = unat (enc_length opts)"
| "ph_width opts PhMac = 16"

lemma ph_text_nonempty [simp]: "ph_text p \<noteq> []" "0 < length (ph_text p)"
  by (cases p; simp add: ascii_def)+

function expand_loop ::
    "sdm_options \<Rightarrow> bytes \<Rightarrow> bytes \<Rightarrow> (placeholder \<Rightarrow> nat option) \<Rightarrow>
     plan_error + bytes \<times> (placeholder \<Rightarrow> nat option)" where
  "expand_loop opts rest out pos =
     (let lit = takeWhile (\<lambda>c. c \<noteq> 0x7B) rest; r = dropWhile (\<lambda>c. c \<noteq> 0x7B) rest
      in if r = [] then Inr (out @ lit, pos)
         else case find (\<lambda>p. take (length (ph_text p)) r = ph_text p) placeholders of
           None \<Rightarrow> Inl (PUnknown r)
         | Some p \<Rightarrow>
             if pos p \<noteq> None then Inl (PTwice p)
             else expand_loop opts (drop (length (ph_text p)) r)
                    (out @ lit @ replicate (ph_width opts p) 0x30) (pos(p \<mapsto> length (out @ lit))))"
  by pat_completeness auto
termination
proof (relation "measure (\<lambda>(opts, rest, out, pos). length rest)", goal_cases)
  case (2 opts rest out pos lit r p)
  then have "0 < length r" "length r \<le> length rest" using length_dropWhile_le by (blast, simp)
  moreover have "0 < length (ph_text p)" by simp
  ultimately show ?case unfolding in_measure prod.case length_drop by linarith
qed simp

declare expand_loop.simps [simp del]

definition expand_template ::
    "bytes \<Rightarrow> sdm_options \<Rightarrow> plan_error + bytes \<times> (placeholder \<Rightarrow> nat option)" where
  "expand_template tmpl opts = expand_loop opts tmpl [] (\<lambda>_. None)"

section \<open>The plan\<close>

record sdm_plan =
  planNDEF :: bytes
  planSettings :: file_settings

definition uri_prefixes :: "(byte \<times> bytes) list" where
  "uri_prefixes = [(0x02, ascii ''https://www.''), (0x01, ascii ''http://www.''),
     (0x04, ascii ''https://''), (0x03, ascii ''http://'')]"

definition uri_prefix_of :: "bytes \<Rightarrow> byte \<times> bytes" where
  "uri_prefix_of txt =
     (case find (\<lambda>(c, p). take (length p) txt = p) uri_prefixes of None \<Rightarrow> (0x00, []) | Some cp \<Rightarrow> cp)"

definition plan_check :: "sdm_options \<Rightarrow> (placeholder \<Rightarrow> nat option) \<Rightarrow> plan_error option" where
  "plan_check opts pos =
     (let has = (\<lambda>p. pos p \<noteq> None)
      in if \<not> has PhMac then Some PNeedsMac
         else if has PhPicc \<and> (has PhUid \<or> has PhCtr) then Some PPiccMixed
         else if has PhUid \<noteq> has PhCtr then Some PUidCtrApart
         else if \<not> has PhPicc \<and> \<not> has PhUid then Some PNoPicc
         else if 0x04 < oFileRead opts then Some (PFileRead (oFileRead opts))
         else if has PhPicc \<and> 0x04 < oMetaRead opts then Some (PMetaRead (oMetaRead opts))
         else if oLRP opts \<and> has PhEnc then Some PEncLrp
         else if has PhEnc \<and> enc_length opts mod 32 \<noteq> 0 then Some (PEncLength (enc_length opts))
         else None)"

definition uri_record :: "byte \<Rightarrow> bytes \<Rightarrow> bytes" where
  "uri_record code body = [0xD1, 0x01, byteN (1 + length body), 0x55, code] @ body"

definition plan_settings ::
    "sdm_options \<Rightarrow> (placeholder \<Rightarrow> nat option) \<Rightarrow> nat \<Rightarrow> plan_error + file_settings" where
  "plan_settings opts pos prefixLen =
     (let posn = (\<lambda>p. case pos p of None \<Rightarrow> 0 | Some n \<Rightarrow> n); has = (\<lambda>p. pos p \<noteq> None);
          at = (\<lambda>p. of_int (7 - int prefixLen + int (posn p)) :: uint32);
          s0 = zero_settings\<lparr>fsSDMEnabled := True, fsCommMode := CommPlain, fsReadWrite := oReadWrite opts,
                 fsChange := oChange opts, fsRead := oRead opts, fsWrite := oWrite opts,
                 fsASCIIEncoding := True, fsSDMFileRead := oFileRead opts,
                 fsSDMCounterRet := oCounterRet opts, fsMACOffset := at PhMac,
                 fsMirrorUID := True, fsMirrorReadCounter := True\<rparr>;
          (s1, mirrorEnd) =
            (if has PhPicc
             then (s0\<lparr>fsSDMMetaRead := oMetaRead opts, fsPICCDataOffset := at PhPicc\<rparr>,
                   posn PhPicc + picc_width opts)
             else (s0\<lparr>fsSDMMetaRead := AccessFree, fsUIDOffset := at PhUid, fsReadCounterOffset := at PhCtr\<rparr>,
                   max (posn PhUid + 14) (posn PhCtr + 6)))
      in if has PhEnc
         then if posn PhEnc < mirrorEnd then Inl PEncBeforeMirror
              else if posn PhMac < posn PhEnc + unat (enc_length opts) then Inl PMacBeforeEnc
              else Inr (s1\<lparr>fsEncryptFileData := True, fsENCOffset := at PhEnc,
                           fsENCLength := enc_length opts, fsMACInputOffset := at PhEnc\<rparr>)
         else if posn PhMac < mirrorEnd then Inl PMacBeforeMirror
         else Inr (s1\<lparr>fsMACInputOffset := fsMACOffset s1\<rparr>))"

definition plan_sdm :: "bytes \<Rightarrow> sdm_options \<Rightarrow> plan_error + sdm_plan" where
  "plan_sdm tmpl opts =
     bindE (expand_template tmpl opts) (\<lambda>(txt, pos).
     case plan_check opts pos of
       Some e \<Rightarrow> Inl e
     | None \<Rightarrow>
         let (code, prefix) = uri_prefix_of txt; body = drop (length prefix) txt;
             payloadLen = 1 + length body
         in if 256 < 2 + 4 + payloadLen then Inl (PTooLong (2 + 4 + payloadLen))
            else let rec = uri_record code body
                 in bindE (plan_settings opts pos (length prefix)) (\<lambda>settings.
                    bindE (mapErr PSettings (settings_encode settings)) (\<lambda>_.
                    Inr \<lparr>planNDEF = [byteN (length rec div 256), byteN (length rec)] @ rec,
                         planSettings = settings\<rparr>)))"

end
