(* ===== verification/Url.thy ===== *)
theory Url
  imports Sdm
begin

text \<open>
  \<open>nfc/ntag424/url.go\<close> and \<open>replay.go\<close>: verifying the URL a tag serves, and telling a
  fresh tap from a captured one. Go strings are byte lists. Of \<open>net/url\<close> the query of a URL and
  its decoding are modelled; whether the library accepts a URL's scheme, host, path and
  fragment, whose rules vary between Go releases, is the predicate \<open>accepts\<close>.
\<close>

section \<open>Strings and queries of the standard library\<close>

text \<open>\<open>strings.Index\<close>, and \<open>strings.Cut\<close> at a single byte.\<close>

fun index_of :: "bytes \<Rightarrow> bytes \<Rightarrow> nat option" where
  "index_of pat [] = (if pat = [] then Some 0 else None)"
| "index_of pat (c # r) =
     (if take (length pat) (c # r) = pat then Some 0 else map_option Suc (index_of pat r))"

definition cut_at :: "byte \<Rightarrow> bytes \<Rightarrow> bytes \<times> bytes" where
  "cut_at c s = (takeWhile (\<lambda>x. x \<noteq> c) s, drop 1 (dropWhile (\<lambda>x. x \<noteq> c) s))"

lemma length_cut_at: "s \<noteq> [] \<Longrightarrow> length (snd (cut_at c s)) < length s"
proof -
  assume "s \<noteq> []"
  then have "0 < length s" by simp
  with length_dropWhile_le [of "\<lambda>x. x \<noteq> c" s] show ?thesis unfolding cut_at_def snd_conv length_drop by linarith
qed

text \<open>\<open>url.QueryUnescape\<close>: a percent sign must introduce two hexadecimal digits.\<close>

fun query_unescape :: "bytes \<Rightarrow> bytes option" where
  "query_unescape [] = Some []"
| "query_unescape (c # r) =
     (if c = 0x25
      then (case r of
              a # b # r' \<Rightarrow>
                (case (hex_value a, hex_value b) of
                   (Some x, Some y) \<Rightarrow> map_option ((#) (push_bit 4 x OR y)) (query_unescape r')
                 | _ \<Rightarrow> None)
            | _ \<Rightarrow> None)
      else map_option ((#) (if c = 0x2B then 0x20 else c)) (query_unescape r))"

text \<open>\<open>URL.Query\<close>: pairs separated by \<open>&\<close>; one with a semicolon or a bad escape is left out.\<close>

definition query_pair :: "bytes \<Rightarrow> (bytes \<times> bytes) list" where
  "query_pair p =
     (if 0x3B \<in> set p \<or> p = [] then []
      else let (k, v) = cut_at 0x3D p
           in case (query_unescape k, query_unescape v) of (Some k', Some v') \<Rightarrow> [(k', v')] | _ \<Rightarrow> [])"

function parse_query :: "bytes \<Rightarrow> (bytes \<times> bytes) list" where
  "parse_query s = (if s = [] then [] else query_pair (fst (cut_at 0x26 s)) @ parse_query (snd (cut_at 0x26 s)))"
  by pat_completeness auto
termination by (relation "measure length") (auto simp: length_cut_at)

declare parse_query.simps [simp del]

definition query_get :: "(bytes \<times> bytes) list \<Rightarrow> bytes \<Rightarrow> bytes" where
  "query_get q name = (case map_of q name of None \<Rightarrow> [] | Some v \<Rightarrow> v)"

text \<open>\<open>RawQuery\<close>: what follows the first question mark, without the fragment.\<close>

definition raw_query :: "bytes \<Rightarrow> bytes" where
  "raw_query rawURL = snd (cut_at 0x3F (fst (cut_at 0x23 rawURL)))"

section \<open>Parsing a tapped URL\<close>

record names =
  nmPICCData :: "bytes list"
  nmEncFileData :: "bytes list"
  nmMAC :: "bytes list"
  nmUID :: "bytes list"
  nmCounter :: "bytes list"

definition default_names :: names where
  "default_names = \<lparr>
     nmPICCData = [ascii ''picc_data'', ascii ''e'', ascii ''picc''],
     nmEncFileData = [ascii ''enc'', ascii ''d'', ascii ''encdata''],
     nmMAC = [ascii ''cmac'', ascii ''c'', ascii ''mac''],
     nmUID = [ascii ''uid''],
     nmCounter = [ascii ''ctr'', ascii ''cnt'', ascii ''counter'']\<rparr>"

record url_data =
  uPICCData :: bytes
  uUID :: bytes
  uCounter :: uint32
  uHasPlain :: bool
  uEncFileData :: bytes
  uMAC :: bytes
  uMACInput :: bytes

record tap =
  tUID :: bytes
  tReadCounter :: uint32
  tFileData :: bytes

datatype url_error =
    UParse | UNoMAC | UNoPICC | UNoEncInQuery | UNoMACInQuery | UMACPrecedes
  | UNotHex bytes | USize bytes nat | UPICCSize nat | USdm sdm_error
  | UNoStore | UReplay

definition value_offset :: "bytes \<Rightarrow> bytes list \<Rightarrow> nat option" where
  "value_offset raw ns =
     (let attempt = (\<lambda>p. case index_of p raw of
            None \<Rightarrow> None
          | Some i \<Rightarrow> if hd p \<noteq> 0x26 \<and> i \<noteq> 0 then None else Some (i + length p));
          tries = concat (map (\<lambda>n. [n @ [0x3D], 0x26 # n @ [0x3D]]) ns)
      in case filter (\<lambda>r. r \<noteq> None) (map attempt tries) of [] \<Rightarrow> None | r # _ \<Rightarrow> r)"

definition mac_text :: "bytes \<Rightarrow> names \<Rightarrow> url_error + bytes" where
  "mac_text raw ns =
     (case value_offset raw (nmEncFileData ns) of
        None \<Rightarrow> Inl UNoEncInQuery
      | Some start \<Rightarrow>
          (case value_offset raw (nmMAC ns) of
             None \<Rightarrow> Inl UNoMACInQuery
           | Some stop \<Rightarrow> if stop < start then Inl UMACPrecedes else Inr (slice start stop raw)))"

fun hex_param :: "(bytes \<times> bytes) list \<Rightarrow> bytes list \<Rightarrow> nat \<Rightarrow> url_error + bytes" where
  "hex_param q [] width = Inr []"
| "hex_param q (n # ns) width =
     (let v = query_get q n
      in if v = [] then hex_param q ns width
         else case hex_decode v of
           None \<Rightarrow> Inl (UNotHex n)
         | Some raw \<Rightarrow> if 0 < width \<and> length raw \<noteq> width then Inl (USize n (length raw)) else Inr raw)"

definition plain_mirrors :: "(bytes \<times> bytes) list \<Rightarrow> names \<Rightarrow> url_error + bytes \<times> uint32 \<times> bool" where
  "plain_mirrors q ns =
     bindE (hex_param q (nmUID ns) 7) (\<lambda>uid.
     bindE (hex_param q (nmCounter ns) 3) (\<lambda>raw.
     if length uid = 0 \<and> length raw = 0 then Inr ([], 0, False)
     else Inr (uid, foldl (\<lambda>c b. push_bit 8 c OR ucast b) 0 raw, True)))"

definition parse_url_with :: "(bytes \<Rightarrow> bool) \<Rightarrow> bytes \<Rightarrow> names \<Rightarrow> url_error + url_data" where
  "parse_url_with accepts rawURL ns =
     (if \<not> accepts rawURL then Inl UParse
      else let raw = raw_query rawURL; q = parse_query raw
      in bindE (hex_param q (nmMAC ns) 8) (\<lambda>mac.
         if length mac = 0 then Inl UNoMAC
         else bindE (hex_param q (nmPICCData ns) 0) (\<lambda>picc.
         if length picc \<noteq> 0 \<and> length picc \<noteq> 16 \<and> length picc \<noteq> 24 then Inl (UPICCSize (length picc))
         else bindE (if length picc = 0 then plain_mirrors q ns else Inr ([], 0, False)) (\<lambda>(uid, ctr, plain).
         bindE (hex_param q (nmEncFileData ns) 0) (\<lambda>enc.
         bindE (if 0 < length enc then mac_text raw ns else Inr []) (\<lambda>input.
         Inr \<lparr>uPICCData = picc, uUID = uid, uCounter = ctr, uHasPlain = plain,
              uEncFileData = enc, uMAC = mac, uMACInput = input\<rparr>))))))"

definition parse_url :: "(bytes \<Rightarrow> bool) \<Rightarrow> bytes \<Rightarrow> url_error + url_data" where
  "parse_url accepts rawURL = parse_url_with accepts rawURL default_names"

section \<open>Verifying\<close>

definition picc_data_for :: "url_data \<Rightarrow> sdm_keys \<Rightarrow> url_error + picc_data" where
  "picc_data_for d keys =
     (if 0 < length (uPICCData d)
      then mapErr USdm (if kLRP keys then decrypt_picc_data_lrp (kMetaRead keys) (uPICCData d)
                        else decrypt_picc_data (kMetaRead keys) (uPICCData d))
      else if uHasPlain d
      then Inr \<lparr>pUID = uUID d, pReadCounter = uCounter d, pUIDMirrored = 0 < length (uUID d),
                pCounterMirrored = True, pLRP = kLRP keys\<rparr>
      else Inl UNoPICC)"

definition verify_data :: "url_data \<Rightarrow> sdm_keys \<Rightarrow> url_error + tap" where
  "verify_data d keys =
     bindE (picc_data_for d keys) (\<lambda>picc.
     bindE (mapErr USdm (verify_mac (kFileRead keys) picc (uMACInput d) (uMAC d))) (\<lambda>_.
     if 0 < length (uEncFileData d)
     then bindE (mapErr USdm (decrypt_file_data (kFileRead keys) picc (uEncFileData d))) (\<lambda>plain.
          Inr \<lparr>tUID = pUID picc, tReadCounter = pReadCounter picc, tFileData = plain\<rparr>)
     else Inr \<lparr>tUID = pUID picc, tReadCounter = pReadCounter picc, tFileData = []\<rparr>))"

definition verify_url_with :: "(bytes \<Rightarrow> bool) \<Rightarrow> bytes \<Rightarrow> sdm_keys \<Rightarrow> names \<Rightarrow> url_error + tap" where
  "verify_url_with accepts rawURL keys ns =
     bindE (parse_url_with accepts rawURL ns) (\<lambda>d. verify_data d keys)"

definition verify_url :: "(bytes \<Rightarrow> bool) \<Rightarrow> bytes \<Rightarrow> sdm_keys \<Rightarrow> url_error + tap" where
  "verify_url accepts rawURL keys = verify_url_with accepts rawURL keys default_names"

section \<open>Replay\<close>

text \<open>\<open>MemoryCounterStore\<close>: its mutex makes one \<open>Seen\<close> a single step on the map.\<close>

type_synonym counter_store = "bytes \<Rightarrow> uint32 option"

definition memory_seen :: "bytes \<Rightarrow> uint32 \<Rightarrow> counter_store \<Rightarrow> bool \<times> counter_store" where
  "memory_seen uid ctr m =
     (case m uid of
        Some l \<Rightarrow> if ctr \<le> l then (False, m) else (True, m(uid \<mapsto> ctr))
      | None \<Rightarrow> (True, m(uid \<mapsto> ctr)))"

text \<open>\<open>VerifyURLFresh\<close> over any store \<open>Seen\<close> works on; no store is \<open>None\<close>, and a store that
  fails is not modelled, as the one of the code never does.\<close>

definition verify_url_fresh ::
    "(bytes \<Rightarrow> bool) \<Rightarrow> (bytes \<Rightarrow> uint32 \<Rightarrow> 's \<Rightarrow> bool \<times> 's) \<Rightarrow> bytes \<Rightarrow> sdm_keys \<Rightarrow> 's option \<Rightarrow>
     (url_error + tap) \<times> 's option" where
  "verify_url_fresh accepts seen rawURL keys store =
     (case store of
        None \<Rightarrow> (Inl UNoStore, None)
      | Some m \<Rightarrow>
          (case verify_url accepts rawURL keys of
             Inl e \<Rightarrow> (Inl e, store)
           | Inr t \<Rightarrow>
               let (fresh, m') = seen (uid_string (tUID t)) (tReadCounter t) m
               in if \<not> fresh then (Inl UReplay, Some m') else (Inr t, Some m')))"

text \<open>A sequence of taps against one store, each with the keys of its tag.\<close>

fun verify_taps ::
    "(bytes \<Rightarrow> bool) \<Rightarrow> (bytes \<Rightarrow> uint32 \<Rightarrow> 's \<Rightarrow> bool \<times> 's) \<Rightarrow> (bytes \<times> sdm_keys) list \<Rightarrow> 's \<Rightarrow>
     tap list \<times> 's" where
  "verify_taps accepts seen [] m = ([], m)"
| "verify_taps accepts seen ((u, keys) # us) m =
     (case verify_url_fresh accepts seen u keys (Some m) of
        (r, None) \<Rightarrow> ([], m)
      | (r, Some m') \<Rightarrow>
          let (ts, m2) = verify_taps accepts seen us m'
          in (case r of Inl _ \<Rightarrow> ts | Inr t \<Rightarrow> t # ts, m2))"

text \<open>The contract of \<open>CounterStore\<close>: a counter is fresh when it exceeds the last one recorded
  for its tag, a fresh one is recorded, and one that is not leaves the record alone.\<close>

locale counter_store_laws =
  fixes seen :: "bytes \<Rightarrow> uint32 \<Rightarrow> 's \<Rightarrow> bool \<times> 's"
    and last_of :: "'s \<Rightarrow> bytes \<Rightarrow> uint32 option"
  assumes fresh_iff: "fst (seen u c s) \<longleftrightarrow> (\<forall>l. last_of s u = Some l \<longrightarrow> l < c)"
    and fresh_recorded: "fst (seen u c s) \<Longrightarrow> last_of (snd (seen u c s)) = (last_of s)(u \<mapsto> c)"
    and stale_kept: "\<not> fst (seen u c s) \<Longrightarrow> last_of (snd (seen u c s)) = last_of s"
begin

lemma fresh_step:
  assumes "verify_url_fresh accepts seen url keys (Some m) = (r, m')"
  shows "(\<exists>e. r = Inl e \<and> (\<exists>m2. m' = Some m2 \<and> last_of m2 = last_of m)) \<or>
    (\<exists>t m2. r = Inr t \<and> m' = Some m2 \<and> verify_url accepts url keys = Inr t \<and>
       (\<forall>l. last_of m (uid_string (tUID t)) = Some l \<longrightarrow> l < tReadCounter t) \<and>
       last_of m2 = (last_of m)(uid_string (tUID t) \<mapsto> tReadCounter t))"
proof (cases "verify_url accepts url keys")
  case (Inl e)
  then have "r = Inl e \<and> m' = Some m" using assms by (simp add: verify_url_fresh_def)
  then show ?thesis by blast
next
  case (Inr t)
  then show ?thesis
    using assms fresh_iff [of "uid_string (tUID t)" "tReadCounter t" m]
      fresh_recorded [of "uid_string (tUID t)" "tReadCounter t" m]
      stale_kept [of "uid_string (tUID t)" "tReadCounter t" m]
    by (auto simp: verify_url_fresh_def Let_def split_def split: if_splits)
qed

text \<open>The counters accepted for one tag rise strictly, from above what was recorded before.\<close>

lemma taps_rise:
  assumes "verify_taps accepts seen us m = (ts, m')"
  shows "sorted_wrt (<) (map tReadCounter (filter (\<lambda>t. tUID t = u) ts)) \<and>
    (\<forall>t\<in>set ts. \<forall>l. last_of m (uid_string (tUID t)) = Some l \<longrightarrow> l < tReadCounter t)"
  using assms
proof (induction us arbitrary: m ts m')
  case (Cons x us)
  obtain url keys where x: "x = (url, keys)" by (cases x)
  obtain r mo where v: "verify_url_fresh accepts seen url keys (Some m) = (r, mo)" by fastforce
  from fresh_step [OF v] obtain m1 where m1: "mo = Some m1" by blast
  obtain ts1 m2 where rest: "verify_taps accepts seen us m1 = (ts1, m2)" by fastforce
  note IH = Cons.IH [OF rest]
  show ?case
  proof (cases r)
    case (Inl e)
    then have "last_of m1 = last_of m" using fresh_step [OF v] m1 by auto
    moreover have "ts = ts1" using Cons.prems x v m1 rest Inl by simp
    ultimately show ?thesis using IH by simp
  next
    case (Inr t)
    then have f: "\<forall>l. last_of m (uid_string (tUID t)) = Some l \<longrightarrow> l < tReadCounter t"
      "last_of m1 = (last_of m)(uid_string (tUID t) \<mapsto> tReadCounter t)"
      using fresh_step [OF v] m1 by auto
    have ts: "ts = t # ts1" using Cons.prems x v m1 rest Inr by simp
    have above: "tReadCounter t < tReadCounter t'" if "t' \<in> set ts1" "tUID t' = tUID t" for t'
      using IH that f(2) by auto
    have "\<forall>t'\<in>set ts1. \<forall>l. last_of m (uid_string (tUID t')) = Some l \<longrightarrow> l < tReadCounter t'"
    proof (intro ballI allI impI)
      fix t' l assume t': "t' \<in> set ts1" and l: "last_of m (uid_string (tUID t')) = Some l"
      show "l < tReadCounter t'"
      proof (cases "uid_string (tUID t') = uid_string (tUID t)")
        case True
        then have "l < tReadCounter t" using f(1) l by auto
        moreover have "tReadCounter t < tReadCounter t'"
          using IH t' True f(2) by auto
        ultimately show ?thesis by simp
      next
        case False
        then show ?thesis using IH t' l f(2) by auto
      qed
    qed
    then show ?thesis using IH f(1) above by (auto simp: ts)
  qed
qed simp

end

interpretation mems: counter_store_laws memory_seen "\<lambda>s. s"
  by unfold_locales (auto simp: memory_seen_def split: option.splits if_splits)

end
