(* ===== verification/UrlFacts.thy ===== *)
theory UrlFacts
  imports Url
begin

text \<open>
  Facts about \<open>url.go\<close>: a query written as \<open>name=value\<close> fields is parsed back into them, the
  named parameters are read from it, and the text the MAC covers is the text between the
  values' positions.
\<close>

section \<open>Well-formed queries\<close>

definition clean :: "bytes \<Rightarrow> bool" where
  "clean t = list_all (\<lambda>c. c \<notin> {0x26, 0x3B, 0x3D, 0x25, 0x2B, 0x23}) t"

definition field_text :: "bytes \<times> bytes \<Rightarrow> bytes" where
  "field_text f = fst f @ 0x3D # snd f"

definition tail_fields :: "(bytes \<times> bytes) list \<Rightarrow> bytes" where
  "tail_fields fs = concat (map (\<lambda>f. 0x26 # field_text f) fs)"

definition join_fields :: "(bytes \<times> bytes) list \<Rightarrow> bytes" where
  "join_fields fs = drop 1 (tail_fields fs)"

definition fields_ok :: "(bytes \<times> bytes) list \<Rightarrow> bool" where
  "fields_ok fs = list_all (\<lambda>f. clean (fst f) \<and> clean (snd f)) fs"

lemma join_fields_Cons [simp]: "join_fields (f # fs) = field_text f @ tail_fields fs"
  by (simp add: join_fields_def tail_fields_def)

lemma join_fields_Nil [simp]: "join_fields [] = []"
  by (simp add: join_fields_def tail_fields_def)

lemma tail_fields_simps [simp]:
  "tail_fields [] = []" "tail_fields (f # fs) = 0x26 # field_text f @ tail_fields fs"
  by (simp_all add: tail_fields_def)

lemma field_text_not_Nil [simp]: "field_text f \<noteq> []"
  by (simp add: field_text_def)

lemma clean_append [simp]: "clean (a @ b) \<longleftrightarrow> clean a \<and> clean b"
  by (simp add: clean_def)

lemma cleanD: "clean t \<Longrightarrow> c \<in> {0x26, 0x3B, 0x3D, 0x25, 0x2B, 0x23} \<Longrightarrow> c \<notin> set t"
  unfolding clean_def list_all_iff by blast

lemma nibble_clean: "n < 16 \<Longrightarrow> clean [hex_digit_upper n]"
  by (rule nibble_list [where n = n]) (simp_all add: hex_digit_upper_def clean_def)

lemma hex_upper_Cons:
  "hex_upper (x # b) = hex_digit_upper (drop_bit 4 x) # hex_digit_upper (x AND 0x0F) # hex_upper b"
proof -
  have "hex_upper (x # b) = to_upper [hex_digit (drop_bit 4 x)] @ to_upper [hex_digit (x AND 0x0F)] @ hex_upper b"
    by (simp add: hex_upper_def to_upper_def)
  then show ?thesis by (simp add: upper_hex_digit nibbles_less)
qed

lemma clean_hex_upper [simp]: "clean (hex_upper b)"
proof (induction b)
  case (Cons x b)
  have "clean [hex_digit_upper (drop_bit 4 x)]" "clean [hex_digit_upper (x AND 0x0F)]"
    by (simp_all add: nibble_clean nibbles_less)
  with Cons show ?case by (simp add: hex_upper_Cons clean_def)
qed (simp add: clean_def)

section \<open>Cutting and unescaping\<close>

lemma cut_at_append: "c \<notin> set a \<Longrightarrow> cut_at c (a @ c # b) = (a, b)"
proof -
  assume "c \<notin> set a"
  then have "takeWhile (\<lambda>x. x \<noteq> c) (a @ c # b) = a" "dropWhile (\<lambda>x. x \<noteq> c) (a @ c # b) = c # b"
    by (induction a) auto
  then show ?thesis by (simp add: cut_at_def)
qed

lemma cut_at_absent: "c \<notin> set a \<Longrightarrow> cut_at c a = (a, [])"
proof -
  assume "c \<notin> set a"
  then have "takeWhile (\<lambda>x. x \<noteq> c) a = a" "dropWhile (\<lambda>x. x \<noteq> c) a = []"
    by (induction a) auto
  then show ?thesis unfolding cut_at_def by (simp only: drop_Nil)
qed

lemma query_unescape_clean: "clean t \<Longrightarrow> query_unescape t = Some t"
  by (induction t) (auto simp: clean_def)

lemma query_pair_field:
  assumes "clean n" "clean v" "n @ v \<noteq> []"
  shows "query_pair (field_text (n, v)) = [(n, v)]"
proof -
  have "0x3B \<notin> set (field_text (n, v))"
    using assms(1,2) [THEN cleanD, of "0x3B"] by (simp add: field_text_def)
  moreover have "cut_at 0x3D (field_text (n, v)) = (n, v)"
    using assms(1) [THEN cleanD, of "0x3D"] by (simp add: field_text_def cut_at_append)
  ultimately show ?thesis using assms by (simp add: query_pair_def query_unescape_clean)
qed

lemma amp_not_in_field: "clean (fst f) \<Longrightarrow> clean (snd f) \<Longrightarrow> 0x26 \<notin> set (field_text f)"
  using cleanD [of "fst f" "0x26"] cleanD [of "snd f" "0x26"] by (simp add: field_text_def)

lemma parse_query_join:
  assumes "fields_ok fs" "list_all (\<lambda>f. fst f \<noteq> []) fs"
  shows "parse_query (join_fields fs) = fs"
  using assms
proof (induction fs)
  case Nil
  then show ?case by (simp add: parse_query.simps)
next
  case (Cons f fs)
  obtain n v where f: "f = (n, v)" by (cases f)
  have c: "clean n" "clean v" "n \<noteq> []" using Cons.prems by (auto simp: f fields_ok_def)
  have na: "0x26 \<notin> set (field_text f)" using amp_not_in_field [of f] c by (simp add: f)
  have cut: "cut_at 0x26 (join_fields (f # fs)) = (field_text f, join_fields fs)"
    using na by (cases fs) (simp_all add: cut_at_append cut_at_absent)
  have "parse_query (join_fields (f # fs)) = query_pair (field_text f) @ parse_query (join_fields fs)"
    using cut by (subst parse_query.simps) simp
  also have "\<dots> = f # fs" using Cons c by (simp add: f query_pair_field fields_ok_def)
  finally show ?case .
qed

lemma raw_query_fields:
  assumes "0x3F \<notin> set base" "0x23 \<notin> set base" "0x23 \<notin> set q"
  shows "raw_query (base @ 0x3F # q) = q"
  using assms by (simp add: raw_query_def cut_at_absent cut_at_append)

lemma hash_not_in_fields: "fields_ok fs \<Longrightarrow> 0x23 \<notin> set (join_fields fs)"
proof -
  assume "fields_ok fs"
  then have "0x23 \<notin> set (tail_fields fs)"
    by (induction fs) (auto simp: fields_ok_def field_text_def dest: cleanD)
  then show ?thesis using in_set_dropD [of "0x23" 1 "tail_fields fs"] by (auto simp: join_fields_def)
qed

section \<open>Where a value starts\<close>

fun field_pos :: "(bytes \<times> bytes) list \<Rightarrow> bytes \<Rightarrow> nat option" where
  "field_pos [] n = None"
| "field_pos ((k, v) # fs) n =
     (if k = n then Some (length k + 1)
      else map_option (\<lambda>p. length k + 1 + length v + 1 + p) (field_pos fs n))"

lemma index_of_skip: "c \<notin> set a \<Longrightarrow> index_of (c # p) (a @ s) = map_option (\<lambda>i. length a + i) (index_of (c # p) s)"
proof (induction a)
  case Nil
  show ?case by (cases "index_of (c # p) s") simp_all
next
  case (Cons x a)
  then show ?case by (cases "index_of (c # p) s") auto
qed

lemma index_of_hit: "take (length p) s = p \<Longrightarrow> index_of p s = Some 0"
  by (cases s) auto

lemma index_of_Some_0: "index_of p s = Some 0 \<Longrightarrow> take (length p) s = p"
  by (cases s) (auto split: if_splits)

lemma name_prefix_iff:
  assumes "0x3D \<notin> set n" "0x3D \<notin> set k"
  shows "take (length n + 1) (k @ 0x3D # r) = n @ [0x3D] \<longleftrightarrow> k = n"
proof
  assume h: "take (length n + 1) (k @ 0x3D # r) = n @ [0x3D]"
  show "k = n"
  proof (cases "length k" "length n" rule: linorder_cases)
    case less
    then have "(n @ [0x3D]) ! length k = 0x3D" using h by (metis Suc_eq_plus1 less_SucI nth_append_length nth_take)
    moreover have "(n @ [0x3D]) ! length k \<in> set n" using less by (simp add: nth_append)
    ultimately show ?thesis using assms by simp
  next
    case equal
    then show ?thesis using h by simp
  next
    case greater
    then have "(k @ 0x3D # r) ! length n = 0x3D"
      using h by (metis Suc_eq_plus1 lessI nth_append_length nth_take)
    moreover have "(k @ 0x3D # r) ! length n \<in> set k" using greater by (simp add: nth_append)
    ultimately show ?thesis using assms by simp
  qed
qed simp

lemma index_of_amp:
  assumes "fields_ok fs" "clean n"
  shows "map_option (\<lambda>i. i + length n + 1) (index_of (0x26 # n @ [0x3D]) (tail_fields fs)) = field_pos fs n"
  using assms(1)
proof (induction fs)
  case (Cons f fs)
  obtain k v where f: "f = (k, v)" by (cases f)
  have c: "clean k" "clean v" "fields_ok fs" using Cons.prems by (auto simp: f fields_ok_def)
  have e: "0x3D \<notin> set n" "0x3D \<notin> set k" using assms(2) c(1) by (auto dest: cleanD)
  show ?case
  proof (cases "k = n")
    case True
    then show ?thesis by (simp add: f field_text_def)
  next
    case False
    then have m: "take (length n + 1) (field_text (k, v) @ tail_fields fs) \<noteq> n @ [0x3D]"
      using name_prefix_iff [OF e, of "v @ tail_fields fs"] by (simp add: field_text_def)
    have "index_of (0x26 # n @ [0x3D]) (tail_fields (f # fs)) =
        map_option Suc (index_of (0x26 # n @ [0x3D]) (field_text (k, v) @ tail_fields fs))"
      using m by (simp add: f)
    also have "index_of (0x26 # n @ [0x3D]) (field_text (k, v) @ tail_fields fs) =
        map_option (\<lambda>i. length (field_text (k, v)) + i) (index_of (0x26 # n @ [0x3D]) (tail_fields fs))"
      using amp_not_in_field [of "(k, v)"] c by (intro index_of_skip) simp
    finally have "index_of (0x26 # n @ [0x3D]) (tail_fields (f # fs)) =
        map_option (\<lambda>i. Suc (length (field_text (k, v)) + i)) (index_of (0x26 # n @ [0x3D]) (tail_fields fs))"
      by (simp add: option.map_comp o_def)
    then have "map_option (\<lambda>i. i + length n + 1) (index_of (0x26 # n @ [0x3D]) (tail_fields (f # fs))) =
        map_option (\<lambda>p. length k + 1 + length v + 1 + p)
          (map_option (\<lambda>i. i + length n + 1) (index_of (0x26 # n @ [0x3D]) (tail_fields fs)))"
      by (simp add: option.map_comp o_def field_text_def ac_simps del: index_of.simps tail_fields_simps)
    then show ?thesis using False Cons.IH [OF c(3)]
      by (cases "field_pos fs n") (simp_all add: f del: index_of.simps tail_fields_simps)
  qed
qed simp

text \<open>One parameter name: the bare spelling at the start, or the one after a separator.\<close>

definition offset_try :: "bytes \<Rightarrow> bytes \<Rightarrow> nat option" where
  "offset_try raw p =
     (case index_of p raw of
        None \<Rightarrow> None
      | Some i \<Rightarrow> if hd p \<noteq> 0x26 \<and> i \<noteq> 0 then None else Some (i + length p))"

lemma value_offset_first:
  "value_offset raw ns =
     (case filter (\<lambda>r. r \<noteq> None) (map (offset_try raw)
        (concat (map (\<lambda>n. [n @ [0x3D], 0x26 # n @ [0x3D]]) ns))) of [] \<Rightarrow> None | r # _ \<Rightarrow> r)"
  unfolding value_offset_def offset_try_def [abs_def] Let_def ..

lemma value_offset_simps:
  "value_offset raw [] = None"
  "value_offset raw (n # ns) =
     (case offset_try raw (n @ [0x3D]) of Some p \<Rightarrow> Some p
      | None \<Rightarrow> case offset_try raw (0x26 # n @ [0x3D]) of Some p \<Rightarrow> Some p
      | None \<Rightarrow> value_offset raw ns)"
  by (simp_all add: value_offset_first split: option.splits)

lemma offset_try_bare:
  assumes "clean n" "clean (fst f)"
  shows "offset_try (join_fields (f # fs)) (n @ [0x3D]) = (if fst f = n then Some (length n + 1) else None)"
proof -
  have e: "0x3D \<notin> set n" "0x3D \<notin> set (fst f)" using assms by (auto dest: cleanD)
  have h: "hd (n @ [0x3D]) \<noteq> 0x26" using assms(1) by (cases n) (auto simp: clean_def)
  have m: "take (length n + 1) (join_fields (f # fs)) = n @ [0x3D] \<longleftrightarrow> fst f = n"
    using name_prefix_iff [OF e, of "snd f @ tail_fields fs"] by (simp add: field_text_def)
  show ?thesis
  proof (cases "fst f = n")
    case True
    then have "index_of (n @ [0x3D]) (join_fields (f # fs)) = Some 0" using m by (intro index_of_hit) simp
    with True show ?thesis by (simp add: offset_try_def)
  next
    case False
    then have "index_of (n @ [0x3D]) (join_fields (f # fs)) \<noteq> Some 0"
      using m index_of_Some_0 [of "n @ [0x3D]" "join_fields (f # fs)"] by auto
    with False h show ?thesis by (auto simp: offset_try_def split: option.splits)
  qed
qed

lemma offset_try_amp:
  assumes "fields_ok (f # fs)" "clean n"
  shows "offset_try (join_fields (f # fs)) (0x26 # n @ [0x3D]) =
    map_option (\<lambda>p. length (field_text f) + 1 + p) (field_pos fs n)"
proof -
  have "index_of (0x26 # n @ [0x3D]) (join_fields (f # fs)) =
      map_option (\<lambda>i. length (field_text f) + i) (index_of (0x26 # n @ [0x3D]) (tail_fields fs))"
    unfolding join_fields_Cons using assms
    by (intro index_of_skip amp_not_in_field) (simp_all add: fields_ok_def)
  moreover have "fields_ok fs" using assms(1) by (simp add: fields_ok_def)
  note index_of_amp [OF this assms(2), symmetric]
  ultimately show ?thesis
    by (cases "index_of (0x26 # n @ [0x3D]) (tail_fields fs)") (simp_all add: offset_try_def)
qed

lemma field_pos_None: "field_pos fs n = None \<longleftrightarrow> n \<notin> fst ` set fs"
  by (induction fs n rule: field_pos.induct) auto

lemma value_offset_fields:
  assumes "fields_ok fs" "fs \<noteq> []" "list_all clean ns"
  shows "value_offset (join_fields fs) ns =
    (case find (\<lambda>n. n \<in> fst ` set fs) ns of None \<Rightarrow> None | Some n \<Rightarrow> field_pos fs n)"
  using assms(3)
proof (induction ns)
  case (Cons n ns)
  obtain f gs where fs: "fs = f # gs" using assms(2) by (cases fs) auto
  obtain k v where f: "f = (k, v)" by (cases f)
  have c: "clean n" "clean (fst f)" using Cons.prems assms(1) by (simp_all add: fs fields_ok_def)
  have "value_offset (join_fields fs) (n # ns) =
      (case field_pos fs n of Some p \<Rightarrow> Some p | None \<Rightarrow> value_offset (join_fields fs) ns)"
    using c assms(1)
    by (simp only: value_offset_simps fs offset_try_bare offset_try_amp)
      (auto simp: f field_text_def split: option.splits)
  then show ?case
    using Cons field_pos_None [of fs n] by (auto split: option.splits)
qed (simp add: value_offset_simps)

section \<open>Reading parameters\<close>

lemma map_of_key: "n \<in> fst ` set fs \<Longrightarrow> \<exists>v. map_of fs n = Some v"
  by (metis map_of_eq_None_iff not_None_eq)

lemma query_get_absent: "n \<notin> fst ` set fs \<Longrightarrow> query_get fs n = []"
  using map_of_eq_None_iff [of fs n] by (simp add: query_get_def)

lemma hex_param_absent:
  assumes "find (\<lambda>n. n \<in> fst ` set fs) ns = None"
  shows "hex_param fs ns w = Inr []"
  using assms by (induction ns) (simp_all add: query_get_absent split: if_splits)

lemma hex_param_first:
  assumes "find (\<lambda>n. n \<in> fst ` set fs) ns = Some n" "map_of fs n = Some v" "v \<noteq> []"
    and "hex_decode v = Some b" "w = 0 \<or> length b = w"
  shows "hex_param fs ns w = Inr b"
  using assms(1)
proof (induction ns)
  case (Cons m ns)
  show ?case
  proof (cases "m \<in> fst ` set fs")
    case True
    with Cons.prems have "m = n" by simp
    with assms show ?thesis by (auto simp: query_get_def)
  next
    case False
    then have "query_get fs m = []" by (rule query_get_absent)
    with False Cons show ?thesis by simp
  qed
qed simp

end
