(* ===== verification/PlanFacts.thy ===== *)
theory PlanFacts
  imports Plan UrlFacts
begin

text \<open>
  Facts about \<open>plan.go\<close>. A template is seen as a list of segments, literal text and holes; the
  expansion finds exactly the holes, and copying a mirror over the zeros of a hole fills that
  hole in and leaves the rest of the text alone.
\<close>

section \<open>Segments\<close>

datatype seg = Lit bytes | Hole placeholder

fun seg_text :: "seg \<Rightarrow> bytes" where
  "seg_text (Lit t) = t"
| "seg_text (Hole p) = ph_text p"

fun seg_value :: "(placeholder \<Rightarrow> bytes) \<Rightarrow> seg \<Rightarrow> bytes" where
  "seg_value \<sigma> (Lit t) = t"
| "seg_value \<sigma> (Hole p) = \<sigma> p"

definition template :: "seg list \<Rightarrow> bytes" where
  "template ss = concat (map seg_text ss)"

definition render :: "(placeholder \<Rightarrow> bytes) \<Rightarrow> seg list \<Rightarrow> bytes" where
  "render \<sigma> ss = concat (map (seg_value \<sigma>) ss)"

fun holes :: "seg list \<Rightarrow> placeholder list" where
  "holes [] = []"
| "holes (Lit t # ss) = holes ss"
| "holes (Hole p # ss) = p # holes ss"

fun hole_pos :: "(placeholder \<Rightarrow> bytes) \<Rightarrow> seg list \<Rightarrow> placeholder \<Rightarrow> nat option" where
  "hole_pos \<sigma> [] p = None"
| "hole_pos \<sigma> (Lit t # ss) p = map_option ((+) (length t)) (hole_pos \<sigma> ss p)"
| "hole_pos \<sigma> (Hole q # ss) p = (if p = q then Some 0 else map_option ((+) (length (\<sigma> q))) (hole_pos \<sigma> ss p))"

definition plain_segs :: "seg list \<Rightarrow> bool" where
  "plain_segs ss = (\<forall>t. Lit t \<in> set ss \<longrightarrow> 0x7B \<notin> set t)"

definition zeros :: "sdm_options \<Rightarrow> placeholder \<Rightarrow> bytes" where
  "zeros opts p = replicate (ph_width opts p) 0x30"

lemma template_simps [simp]: "template [] = []" "template (s # ss) = seg_text s @ template ss"
  by (simp_all add: template_def)

lemma render_simps [simp]: "render \<sigma> [] = []" "render \<sigma> (s # ss) = seg_value \<sigma> s @ render \<sigma> ss"
  by (simp_all add: render_def)

lemma plain_segs_simps [simp]:
  "plain_segs []" "plain_segs (Lit t # ss) \<longleftrightarrow> 0x7B \<notin> set t \<and> plain_segs ss"
  "plain_segs (Hole p # ss) \<longleftrightarrow> plain_segs ss"
  by (auto simp: plain_segs_def)

lemma length_zeros [simp]: "length (zeros opts p) = ph_width opts p"
  by (simp add: zeros_def)

lemma hole_pos_None: "hole_pos \<sigma> ss p = None \<longleftrightarrow> p \<notin> set (holes ss)"
  by (induction \<sigma> ss p rule: hole_pos.induct) auto

lemma hole_pos_cong: "(\<And>p. length (\<sigma> p) = length (\<tau> p)) \<Longrightarrow> hole_pos \<sigma> ss p = hole_pos \<tau> ss p"
  by (induction \<sigma> ss p rule: hole_pos.induct) auto

section \<open>Expansion\<close>

lemma expand_lit:
  assumes "0x7B \<notin> set t"
  shows "expand_loop opts (t @ r) out pos = expand_loop opts r (out @ t) pos"
proof -
  have "takeWhile (\<lambda>c. c \<noteq> 0x7B) (t @ r) = t @ takeWhile (\<lambda>c. c \<noteq> 0x7B) r"
    "dropWhile (\<lambda>c. c \<noteq> 0x7B) (t @ r) = dropWhile (\<lambda>c. c \<noteq> 0x7B) r"
    using assms by (induction t) auto
  then show ?thesis
    by (subst (1 2) expand_loop.simps) (simp add: Let_def cong: if_cong option.case_cong)
qed

lemma find_placeholder:
  "find (\<lambda>q. take (length (ph_text q)) (ph_text p @ r) = ph_text q) placeholders = Some p"
  by (cases p) (simp_all add: placeholders_def ascii_def)

lemma ph_text_brace: "\<exists>t. ph_text p = 0x7B # t"
  by (cases p) (simp_all add: ascii_def)

lemma expand_hole:
  "expand_loop opts (ph_text p @ r) out pos =
    (if pos p \<noteq> None then Inl (PTwice p)
     else expand_loop opts r (out @ zeros opts p) (pos(p \<mapsto> length out)))"
proof -
  obtain t where t: "ph_text p = 0x7B # t" using ph_text_brace by blast
  have w: "takeWhile (\<lambda>c. c \<noteq> 0x7B) (ph_text p @ r) = []" "dropWhile (\<lambda>c. c \<noteq> 0x7B) (ph_text p @ r) = ph_text p @ r"
    by (simp_all add: t)
  show ?thesis
    by (subst expand_loop.simps) (simp add: w find_placeholder Let_def zeros_def del: take_append cong: if_cong)
qed

lemma expand_segs:
  assumes "plain_segs ss" "distinct (holes ss)" "\<forall>p \<in> set (holes ss). pos p = None"
  shows "expand_loop opts (template ss) out pos =
    Inr (out @ render (zeros opts) ss,
         \<lambda>p. case hole_pos (zeros opts) ss p of Some n \<Rightarrow> Some (length out + n) | None \<Rightarrow> pos p)"
  using assms
proof (induction ss arbitrary: out pos)
  case Nil
  then show ?case by (simp add: expand_loop.simps)
next
  case (Cons s ss)
  show ?case
  proof (cases s)
    case (Lit t)
    with Cons.prems have "expand_loop opts (template (s # ss)) out pos = expand_loop opts (template ss) (out @ t) pos"
      by (simp add: expand_lit)
    also have "\<dots> = Inr ((out @ t) @ render (zeros opts) ss,
        \<lambda>p. case hole_pos (zeros opts) ss p of Some n \<Rightarrow> Some (length (out @ t) + n) | None \<Rightarrow> pos p)"
      using Cons Lit by simp
    finally show ?thesis by (auto simp: Lit fun_eq_iff split: option.splits)
  next
    case (Hole q)
    with Cons.prems have "expand_loop opts (template (s # ss)) out pos =
        expand_loop opts (template ss) (out @ zeros opts q) (pos(q \<mapsto> length out))"
      by (simp add: expand_hole)
    also have "\<dots> = Inr ((out @ zeros opts q) @ render (zeros opts) ss,
        \<lambda>p. case hole_pos (zeros opts) ss p of Some n \<Rightarrow> Some (length (out @ zeros opts q) + n)
            | None \<Rightarrow> (pos(q \<mapsto> length out)) p)"
      using Cons Hole by (intro Cons.IH) auto
    finally show ?thesis
      using Cons.prems Hole hole_pos_None [of "zeros opts" ss q]
      by (auto simp: fun_eq_iff split: option.splits)
  qed
qed

lemma expand_segs_distinct:
  assumes "plain_segs ss" "expand_loop opts (template ss) out pos = Inr x"
  shows "distinct (holes ss) \<and> (\<forall>p \<in> set (holes ss). pos p = None)"
  using assms
proof (induction ss arbitrary: out pos)
  case (Cons s ss)
  show ?case
  proof (cases s)
    case (Lit t)
    with Cons.prems have "expand_loop opts (template ss) (out @ t) pos = Inr x" by (simp add: expand_lit)
    with Cons Lit show ?thesis by auto
  next
    case (Hole q)
    with Cons.prems have q: "pos q = None"
      "expand_loop opts (template ss) (out @ zeros opts q) (pos(q \<mapsto> length out)) = Inr x"
      by (simp_all add: expand_hole split: if_splits)
    from Cons.IH [OF _ q(2)] Cons.prems Hole q(1) show ?thesis by (auto split: if_splits)
  qed
qed simp

lemma expand_complete:
  assumes "expand_loop opts tmpl out pos = Inr x"
  shows "\<exists>ss. plain_segs ss \<and> template ss = tmpl"
  using assms
proof (induction opts tmpl out pos rule: expand_loop.induct)
  case (1 opts rest out pos)
  define l r where "l = takeWhile (\<lambda>c. c \<noteq> 0x7B) rest" and "r = dropWhile (\<lambda>c. c \<noteq> 0x7B) rest"
  have e: "rest = l @ r" and l: "0x7B \<notin> set l" by (auto simp: l_def r_def dest: set_takeWhileD)
  show ?case
  proof (cases "r = []")
    case True
    with e l have "plain_segs [Lit l] \<and> template [Lit l] = rest" by simp
    then show ?thesis by blast
  next
    case False
    with 1(2) obtain p where p: "find (\<lambda>p. take (length (ph_text p)) r = ph_text p) placeholders = Some p" "pos p = None"
      and x: "expand_loop opts (drop (length (ph_text p)) r) (out @ l @ replicate (ph_width opts p) 0x30)
        (pos(p \<mapsto> length (out @ l))) = Inr x"
      by (subst (asm) expand_loop.simps) (auto simp: Let_def l_def r_def split: option.splits if_splits)
    from 1(1) [OF l_def r_def False p(1) _ x] p(2)
    obtain ss where ss: "plain_segs ss" "template ss = drop (length (ph_text p)) r" by auto
    have "take (length (ph_text p)) r = ph_text p" using p(1) by (auto simp: find_Some_iff)
    then have "r = ph_text p @ template ss" using ss(2) by (metis append_take_drop_id)
    with ss(1) l e have "plain_segs (Lit l # Hole p # ss) \<and> template (Lit l # Hole p # ss) = rest" by simp
    then show ?thesis by blast
  qed
qed

section \<open>Filling a hole in\<close>

lemma length_render: "(\<And>p. length (\<sigma> p) = length (\<tau> p)) \<Longrightarrow> length (render \<sigma> ss) = length (render \<tau> ss)"
proof (induction ss)
  case (Cons s ss)
  then show ?case by (cases s) simp_all
qed simp

lemma render_fresh: "p \<notin> set (holes ss) \<Longrightarrow> render (\<sigma>(p := t)) ss = render \<sigma> ss"
proof (induction ss)
  case (Cons s ss)
  then show ?case by (cases s) auto
qed simp

lemma hole_pos_bound: "hole_pos \<sigma> ss p = Some i \<Longrightarrow> i + length (\<sigma> p) \<le> length (render \<sigma> ss)"
proof (induction \<sigma> ss p arbitrary: i rule: hole_pos.induct)
  case (3 \<sigma> q ss p)
  then show ?case by (auto split: if_splits)
qed auto

lemma hole_slice: "hole_pos \<sigma> ss p = Some i \<Longrightarrow> slice i (i + length (\<sigma> p)) (render \<sigma> ss) = \<sigma> p"
proof (induction \<sigma> ss p arbitrary: i rule: hole_pos.induct)
  case (2 \<sigma> t ss p)
  then show ?case by (auto simp: slice_def)
next
  case (3 \<sigma> q ss p)
  then show ?case by (auto simp: slice_def split: if_splits)
qed simp

lemma copy_at_append: "copy_at (length a + i) (a @ b) t = a @ copy_at i b t"
  by (simp add: copy_at_def Let_def)

lemma copy_at_render:
  assumes "distinct (holes ss)" "hole_pos \<sigma> ss p = Some i" "length t = length (\<sigma> p)"
  shows "copy_at i (render \<sigma> ss) t = render (\<sigma>(p := t)) ss"
  using assms
proof (induction ss arbitrary: i)
  case (Cons s ss)
  show ?case
  proof (cases s)
    case (Lit l)
    with Cons show ?thesis by (auto simp: copy_at_append)
  next
    case (Hole q)
    show ?thesis
    proof (cases "p = q")
      case True
      with Cons.prems Hole show ?thesis
        using render_fresh [of q ss \<sigma> t] by (simp add: copy_at_fits fun_upd_def)
    next
      case False
      with Cons Hole show ?thesis by (auto simp: copy_at_append)
    qed
  qed
qed simp

text \<open>The same inside a file: a header, the text without its prefix, and what follows it.\<close>

lemma copy_at_body:
  assumes "length hdr = h" "n \<le> i" "i + length t \<le> length txt"
  shows "copy_at (h + (i - n)) (hdr @ drop n txt @ rest) t = hdr @ drop n (copy_at i txt t) @ rest"
proof -
  obtain a b where ab: "txt = a @ b" "length a = n"
    using assms(2,3) by (metis append_take_drop_id length_take min.absorb2 le_trans trans_le_add1)
  obtain j where j: "i = n + j" using assms(2) le_Suc_ex by blast
  have l: "j + length t \<le> length b" using assms(3) ab j by simp
  have "copy_at (h + (i - n)) (hdr @ drop n txt @ rest) t = hdr @ copy_at j (b @ rest) t"
    using ab j assms(1) by (simp add: copy_at_append [of hdr, symmetric])
  also have "copy_at j (b @ rest) t = copy_at j b t @ rest"
    using l by (simp add: copy_at_fits)
  also have "copy_at j b t = drop n (copy_at i txt t)"
    using ab j copy_at_append [of a j b t] by simp
  finally show ?thesis .
qed

lemma take_copy_at: "n \<le> i \<Longrightarrow> i \<le> length txt \<Longrightarrow> take n (copy_at i txt t) = take n txt"
  by (simp add: copy_at_def Let_def min_absorb1)

end
