(* ===== verification/Ndef.thy ===== *)
theory Ndef
  imports Prelude
begin

text \<open>
  \<open>nfc/ndef.go\<close> and \<open>nfc/message.go\<close>: NDEF messages as lists of records, their wire form, the
  payloads of text and URI records, and the builders a caller describes a message with. Go
  strings are byte lists. The parser walks the message by an offset; here it consumes the bytes
  that are left.
\<close>

section \<open>Records on the wire\<close>

record ndef_record =
  rTNF :: byte
  rType :: bytes
  rID :: bytes
  rPayload :: bytes

datatype ndef_error =
    NEmpty | NTypeLength | NPayloadLength | NIDLength | NType | NID | NPayload
  | NTextShort | NTextLang | NUTF16 nat | NURIShort | NNoText | NNoURI | NNoRecords

definition rd_be32 :: "bytes \<Rightarrow> nat" where
  "rd_be32 b = 16777216 * unat (b ! 0) + 65536 * unat (b ! 1) + 256 * unat (b ! 2) + unat (b ! 3)"

text \<open>One record: it, whether it ends the message, and what follows it.\<close>

definition parse_record :: "bytes \<Rightarrow> ndef_error + ndef_record \<times> bool \<times> bytes" where
  "parse_record m =
     (let header = m ! 0; me = header AND 0x40 \<noteq> 0; sr = header AND 0x10 \<noteq> 0; il = header AND 0x08 \<noteq> 0
      in if length m < 2 then Inl NTypeLength
         else let typeLen = unat (m ! 1)
         in if length m < (if sr then 3 else 6) then Inl NPayloadLength
            else let payloadLen = (if sr then unat (m ! 2) else rd_be32 (slice 2 6 m)); p1 = (if sr then 3 else 6)
            in if il \<and> length m < p1 + 1 then Inl NIDLength
               else let idLen = (if il then unat (m ! p1) else 0); p2 = (if il then p1 + 1 else p1)
               in if length m < p2 + typeLen then Inl NType
                  else let p3 = p2 + typeLen
                  in if length m < p3 + idLen then Inl NID
                     else let p4 = p3 + idLen
                     in if length m < p4 + payloadLen then Inl NPayload
                        else Inr (\<lparr>rTNF = header AND 0x07, rType = slice p2 p3 m, rID = slice p3 p4 m,
                                   rPayload = slice p4 (p4 + payloadLen) m\<rparr>, me, drop (p4 + payloadLen) m))"

lemma parse_record_shrinks: "parse_record m = Inr (r, me, m') \<Longrightarrow> length m' < length m"
  by (auto simp: parse_record_def Let_def split: if_splits)

function parse_records :: "bytes \<Rightarrow> ndef_error + ndef_record list" where
  "parse_records m =
     (if m = [] then Inr []
      else case parse_record m of
        Inl e \<Rightarrow> Inl e
      | Inr (r, me, m') \<Rightarrow> if me then Inr [r] else bindE (parse_records m') (\<lambda>rs. Inr (r # rs)))"
  by pat_completeness auto
termination by (relation "measure length") (auto simp: parse_record_shrinks)

declare parse_records.simps [simp del]

definition parse_ndef_records :: "bytes \<Rightarrow> ndef_error + ndef_record list" where
  "parse_ndef_records m = (if length m = 0 then Inl NEmpty else parse_records m)"

definition encode_record :: "bool \<Rightarrow> bool \<Rightarrow> ndef_record \<Rightarrow> bytes" where
  "encode_record isFirst isLast r =
     (let payloadLen = length (rPayload r); short = payloadLen \<le> 255; hasID = 0 < length (rID r);
          header = (rTNF r AND 0x07) OR (if isFirst then 0x80 else 0) OR (if isLast then 0x40 else 0)
                   OR (if short then 0x10 else 0) OR (if hasID then 0x08 else 0)
      in [header, byteN (length (rType r))]
         @ (if short then [byteN payloadLen] else be32 (of_nat payloadLen))
         @ (if hasID then [byteN (length (rID r))] else [])
         @ rType r @ rID r @ rPayload r)"

fun encode_records_from :: "bool \<Rightarrow> ndef_record list \<Rightarrow> bytes" where
  "encode_records_from isFirst [] = []"
| "encode_records_from isFirst (r # rs) = encode_record isFirst (rs = []) r @ encode_records_from False rs"

definition encode_ndef_records :: "ndef_record list \<Rightarrow> ndef_error + bytes" where
  "encode_ndef_records rs = (if length rs = 0 then Inl NNoRecords else Inr (encode_records_from True rs))"

section \<open>Text records\<close>

definition make_text_payload :: "bytes \<Rightarrow> bytes \<Rightarrow> bytes" where
  "make_text_payload txt lang =
     (let lang1 = (if lang = [] then ascii ''en'' else lang);
          lang2 = (if 0x3F < length lang1 then take 0x3F lang1 else lang1)
      in byteN (length lang2) # lang2 @ txt)"

text \<open>\<open>string(utf16.Decode(u))\<close> and \<open>strings.TrimSpace\<close>: code points, then their UTF-8 form.\<close>

fun utf16_decode :: "nat list \<Rightarrow> nat list" where
  "utf16_decode [] = []"
| "utf16_decode [u] = [if 0xD800 \<le> u \<and> u < 0xE000 then 0xFFFD else u]"
| "utf16_decode (u # v # r) =
     (if u < 0xD800 \<or> 0xE000 \<le> u then u # utf16_decode (v # r)
      else if u < 0xDC00 \<and> 0xDC00 \<le> v \<and> v < 0xE000
      then ((u - 0xD800) * 0x400 + (v - 0xDC00) + 0x10000) # utf16_decode r
      else 0xFFFD # utf16_decode (v # r))"

definition utf8_rune :: "nat \<Rightarrow> bytes" where
  "utf8_rune c =
     (if c < 0x80 then [byteN c]
      else if c < 0x800 then [byteN (0xC0 + c div 64), byteN (0x80 + c mod 64)]
      else if c < 0x10000 then [byteN (0xE0 + c div 4096), byteN (0x80 + c div 64 mod 64), byteN (0x80 + c mod 64)]
      else [byteN (0xF0 + c div 262144), byteN (0x80 + c div 4096 mod 64),
            byteN (0x80 + c div 64 mod 64), byteN (0x80 + c mod 64)])"

definition unicode_space :: "nat \<Rightarrow> bool" where
  "unicode_space c \<longleftrightarrow> 0x09 \<le> c \<and> c \<le> 0x0D \<or> c \<in> {0x20, 0x85, 0xA0, 0x1680, 0x2028, 0x2029, 0x202F, 0x205F, 0x3000}
     \<or> 0x2000 \<le> c \<and> c \<le> 0x200A"

definition trim_space :: "nat list \<Rightarrow> nat list" where
  "trim_space cs = rev (dropWhile unicode_space (rev (dropWhile unicode_space cs)))"

fun le_pairs :: "bytes \<Rightarrow> nat list" where
  "le_pairs (a # b # r) = (unat a + 256 * unat b) # le_pairs r"
| "le_pairs _ = []"

definition decode_utf16 :: "bytes \<Rightarrow> bytes" where
  "decode_utf16 b = concat (map utf8_rune (trim_space (utf16_decode (le_pairs b))))"

definition parse_text_payload :: "bytes \<Rightarrow> ndef_error + bytes" where
  "parse_text_payload p =
     (if length p < 1 then Inl NTextShort
      else let status = p ! 0; start = 1 + unat (status AND 0x3F)
           in if length p < start then Inl NTextLang
              else let t = drop start p
                   in if status AND 0x80 = 0 then Inr t
                      else if length t = 0 then Inr []
                      else if length t mod 2 \<noteq> 0 then Inl (NUTF16 (length t))
                      else Inr (decode_utf16 t))"

definition text_language :: "bytes \<Rightarrow> bytes" where
  "text_language p =
     (if length p < 1 then ascii ''en''
      else let langLen = unat (p ! 0 AND 0x3F)
           in if 0 < langLen \<and> 1 + langLen < length p then slice 1 (1 + langLen) p else ascii ''en'')"

section \<open>URI records\<close>

definition uri_prefix_table :: "bytes list" where
  "uri_prefix_table = map ascii
     ['''', ''http://www.'', ''https://www.'', ''http://'', ''https://'', ''tel:'', ''mailto:'',
      ''ftp://anonymous:anonymous@'', ''ftp://ftp.'', ''ftps://'', ''sftp://'', ''smb://'', ''nfs://'',
      ''ftp://'', ''dav://'', ''news:'', ''telnet://'', ''imap:'', ''rtsp://'', ''urn:'', ''pop:'', ''sip:'',
      ''sips:'', ''tftp:'', ''btspp://'', ''btl2cap://'', ''btgoep://'', ''tcpobex://'', ''irdaobex://'',
      ''file://'', ''urn:epc:id:'', ''urn:epc:tag:'', ''urn:epc:pat:'', ''urn:epc:raw:'', ''urn:epc:'', ''urn:nfc:'']"

text \<open>The loop of \<open>MakeURIRecordPayload\<close>: the longest prefix so far and its code.\<close>

definition best_prefix_step :: "bytes \<Rightarrow> nat \<times> bytes \<Rightarrow> nat \<times> nat \<Rightarrow> nat \<times> nat" where
  "best_prefix_step uri cp best =
     (case (cp, best) of ((code, p), (bestCode, bestLen)) \<Rightarrow>
        if bestLen < length p \<and> take (length p) uri = p then (code, length p) else (bestCode, bestLen))"

definition best_prefix :: "bytes \<Rightarrow> nat \<times> nat" where
  "best_prefix uri = fold (best_prefix_step uri) (drop 1 (enumerate 0 uri_prefix_table)) (0, 0)"

definition make_uri_payload :: "bytes \<Rightarrow> bytes" where
  "make_uri_payload uri = (let (code, n) = best_prefix uri in byteN code # drop n uri)"

definition parse_uri_payload :: "bytes \<Rightarrow> ndef_error + bytes" where
  "parse_uri_payload p =
     (if length p < 1 then Inl NURIShort
      else let code = unat (p ! 0)
           in Inr ((if 0 < code \<and> code < length uri_prefix_table then uri_prefix_table ! code else []) @ drop 1 p))"

section \<open>Messages\<close>

definition is_text_record :: "ndef_record \<Rightarrow> bool" where
  "is_text_record r \<longleftrightarrow> rTNF r = 0x01 \<and> rType r = ascii ''T''"

definition is_uri_record :: "ndef_record \<Rightarrow> bool" where
  "is_uri_record r \<longleftrightarrow> rTNF r = 0x01 \<and> rType r = ascii ''U''"

definition get_text :: "ndef_record \<Rightarrow> bytes option" where
  "get_text r = (if \<not> is_text_record r then None
     else case parse_text_payload (rPayload r) of Inl _ \<Rightarrow> None | Inr t \<Rightarrow> Some t)"

definition get_uri :: "ndef_record \<Rightarrow> bytes option" where
  "get_uri r = (if \<not> is_uri_record r then None
     else case parse_uri_payload (rPayload r) of Inl _ \<Rightarrow> None | Inr u \<Rightarrow> Some u)"

text \<open>The first record that gives a value, as every loop over the records takes it.\<close>

fun first_some :: "('a \<Rightarrow> 'b option) \<Rightarrow> 'a list \<Rightarrow> 'b option" where
  "first_some f [] = None"
| "first_some f (x # xs) = (case f x of Some y \<Rightarrow> Some y | None \<Rightarrow> first_some f xs)"

definition message_text :: "ndef_record list \<Rightarrow> ndef_error + bytes" where
  "message_text rs = (case first_some get_text rs of Some t \<Rightarrow> Inr t | None \<Rightarrow> Inl NNoText)"

definition message_uri :: "ndef_record list \<Rightarrow> ndef_error + bytes" where
  "message_uri rs = (case first_some get_uri rs of Some u \<Rightarrow> Inr u | None \<Rightarrow> Inl NNoURI)"

definition parse_message_text :: "bytes \<Rightarrow> ndef_error + bytes" where
  "parse_message_text m =
     (if length m = 0 then Inr []
      else bindE (parse_ndef_records m) (\<lambda>rs.
           Inr (case first_some get_text rs of Some t \<Rightarrow> t | None \<Rightarrow> [])))"

definition parse_message_uri :: "bytes \<Rightarrow> ndef_error + bytes" where
  "parse_message_uri m =
     (if length m = 0 then Inr []
      else bindE (parse_ndef_records m) (\<lambda>rs.
           Inr (case first_some get_uri rs of Some u \<Rightarrow> u | None \<Rightarrow> [])))"

definition encode_text_message :: "bytes \<Rightarrow> bytes \<Rightarrow> bytes" where
  "encode_text_message txt lang =
     (let payload = make_text_payload txt lang; n = length payload; short = n \<le> 255;
          header = 0x01 OR 0x80 OR 0x40 OR (if short then 0x10 else 0)
      in [header, 0x01] @ (if short then [byteN n] else be32 (of_nat n)) @ [0x54] @ payload)"

section \<open>Builders\<close>

datatype ndef_builder =
    BText bytes bytes
  | BURI bytes
  | BMIME bytes bytes
  | BExternal bytes bytes
  | BSmartPoster bytes bytes bytes
  | BRaw byte bytes bytes bytes
  | BEmpty

definition text_record :: "bytes \<Rightarrow> bytes \<Rightarrow> ndef_record" where
  "text_record content lang =
     \<lparr>rTNF = 0x01, rType = ascii ''T'', rID = [],
      rPayload = make_text_payload content (if lang = [] then ascii ''en'' else lang)\<rparr>"

definition uri_record_of :: "bytes \<Rightarrow> ndef_record" where
  "uri_record_of uri = \<lparr>rTNF = 0x01, rType = ascii ''U'', rID = [], rPayload = make_uri_payload uri\<rparr>"

fun to_record :: "ndef_builder \<Rightarrow> ndef_record" where
  "to_record (BText content lang) = text_record content lang"
| "to_record (BURI content) = uri_record_of content"
| "to_record (BMIME t d) = \<lparr>rTNF = 0x02, rType = t, rID = [], rPayload = d\<rparr>"
| "to_record (BExternal domain d) = \<lparr>rTNF = 0x04, rType = domain, rID = [], rPayload = d\<rparr>"
| "to_record (BSmartPoster uri title lang) =
     \<lparr>rTNF = 0x01, rType = ascii ''Sp'', rID = [],
      rPayload = encode_records_from True
        ((if title \<noteq> [] then [text_record title lang] else []) @ [uri_record_of uri])\<rparr>"
| "to_record (BRaw tnf t i p) = \<lparr>rTNF = tnf AND 0x07, rType = t, rID = i, rPayload = p\<rparr>"
| "to_record BEmpty = \<lparr>rTNF = 0x00, rType = [], rID = [], rPayload = []\<rparr>"

definition build_message :: "ndef_builder list \<Rightarrow> ndef_error + ndef_record list" where
  "build_message bs = (if length bs = 0 then Inl NNoRecords else Inr (map to_record bs))"

definition encode_builder :: "ndef_builder list \<Rightarrow> ndef_error + bytes" where
  "encode_builder bs = bindE (build_message bs) encode_ndef_records"

definition record_to_builder :: "ndef_record \<Rightarrow> ndef_builder option" where
  "record_to_builder r =
     (if rTNF r = 0x00 then Some BEmpty
      else if rTNF r = 0x01
      then if rType r = ascii ''T''
           then (case parse_text_payload (rPayload r) of
                   Inl _ \<Rightarrow> None | Inr t \<Rightarrow> Some (BText t (text_language (rPayload r))))
           else if rType r = ascii ''U''
           then (case parse_uri_payload (rPayload r) of Inl _ \<Rightarrow> None | Inr u \<Rightarrow> Some (BURI u))
           else None
      else if rTNF r = 0x02 then Some (BMIME (rType r) (rPayload r))
      else if rTNF r = 0x04 then Some (BExternal (rType r) (rPayload r))
      else None)"

definition to_builder :: "ndef_record list \<Rightarrow> ndef_builder list" where
  "to_builder rs = List.map_filter record_to_builder rs"

section \<open>The JSON view\<close>

record record_payload =
  jType :: bytes
  jContent :: bytes
  jLanguage :: bytes
  jTNF :: byte
  jID :: bytes
  jPayload :: bytes

definition record_to_payload :: "ndef_record \<Rightarrow> record_payload" where
  "record_to_payload r =
     (let base = \<lparr>jType = rType r, jContent = [], jLanguage = [], jTNF = rTNF r, jID = rID r, jPayload = rPayload r\<rparr>
      in case get_text r of
           Some t \<Rightarrow> base\<lparr>jType := ascii ''text'', jContent := t, jLanguage := text_language (rPayload r)\<rparr>
         | None \<Rightarrow>
             (case get_uri r of
                Some u \<Rightarrow> base\<lparr>jType := ascii ''uri'', jContent := u\<rparr>
              | None \<Rightarrow> base))"

definition message_to_payload :: "ndef_record list \<Rightarrow> record_payload list" where
  "message_to_payload rs = map record_to_payload rs"

section \<open>Encoding and parsing agree\<close>

text \<open>What the wire can carry: lengths that fit their fields. The TNF keeps three bits.\<close>

definition record_ok :: "ndef_record \<Rightarrow> bool" where
  "record_ok r \<longleftrightarrow> length (rType r) < 256 \<and> length (rID r) < 256 \<and> length (rPayload r) < 4294967296"

definition norm_record :: "ndef_record \<Rightarrow> ndef_record" where
  "norm_record r = r\<lparr>rTNF := rTNF r AND 0x07\<rparr>"

lemma rd_be32_be32:
  assumes "n < 4294967296"
  shows "rd_be32 (be32 (of_nat n)) = n"
proof -
  let ?v = "of_nat n :: uint32"
  have u: "unat ?v = n" using assms by (simp add: unat_of_nat)
  have b: "unat (ucast (drop_bit k ?v) :: byte) = n div 2 ^ k mod 256" for k
  proof -
    have "unat (drop_bit k ?v) = n div 2 ^ k" unfolding unat_drop_bit_eq u by (simp add: drop_bit_eq_div)
    then show ?thesis by (simp add: unsigned_ucast_eq take_bit_eq_mod)
  qed
  have "unat (ucast ?v :: byte) = n mod 256" using b [of 0] by simp
  then have "rd_be32 (be32 ?v) = 16777216 * (n div 16777216 mod 256) + 65536 * (n div 65536 mod 256)
      + 256 * (n div 256 mod 256) + n mod 256"
    using b [of 24] b [of 16] b [of 8] by (simp add: rd_be32_def be32_def)
  also have "\<dots> = n"
  proof -
    define a b c where "a = n div 256" and "b = a div 256" and "c = b div 256"
    have "n div 65536 = b" "n div 16777216 = c"
      by (simp_all add: a_def b_def c_def div_mult2_eq [symmetric])
    moreover have "c < 256" using assms by (simp add: a_def b_def c_def div_mult2_eq [symmetric] less_mult_imp_div_less)
    moreover have "n = 256 * a + n mod 256" "a = 256 * b + a mod 256" "b = 256 * c + b mod 256"
      by (simp_all add: a_def b_def c_def)
    ultimately show ?thesis unfolding a_def [symmetric] by simp
  qed
  finally show ?thesis .
qed

lemma tnf_cases: "(t :: byte) AND 7 \<in> {0, 1, 2, 3, 4, 5, 6, 7}"
proof -
  have "t AND 7 = take_bit 3 t" by (simp add: take_bit_eq_mask mask_eq_exp_minus_1)
  then have "unat (t AND 7) < 8" by (simp add: take_bit_eq_mod word_arith_nat_mod unat_of_nat)
  then have "t AND 7 < 8" by (simp add: word_less_nat_alt)
  moreover have "t AND 7 < 16 \<Longrightarrow> t AND 7 < 8 \<longrightarrow> t AND 7 \<in> {0, 1, 2, 3, 4, 5, 6, 7}"
    by (rule nibble_list [where n = "t AND 7"]) simp_all
  ultimately show ?thesis using order.strict_trans [of "t AND 7" 8 16] by simp
qed

lemma header_bits:
  fixes t :: byte and f l s i :: bool
  defines "h \<equiv> (t AND 7) OR (if f then 0x80 else 0) OR (if l then 0x40 else 0) OR (if s then 0x10 else 0)
    OR (if i then 0x08 else 0)"
  shows "h AND 0x40 \<noteq> 0 \<longleftrightarrow> l" "h AND 0x10 \<noteq> 0 \<longleftrightarrow> s" "h AND 0x08 \<noteq> 0 \<longleftrightarrow> i" "h AND 0x07 = t AND 7"
  using tnf_cases [of t] unfolding h_def by (cases f; cases l; cases s; cases i; auto)+

lemma parse_encode_record:
  assumes "record_ok r"
  shows "parse_record (encode_record f l r @ rest) = Inr (norm_record r, l, rest)"
proof -
  define h where "h = (rTNF r AND 7) OR (if f then 0x80 else 0) OR (if l then 0x40 else 0)
    OR (if length (rPayload r) \<le> 255 then 0x10 else 0) OR (if 0 < length (rID r) then 0x08 else 0)"
  note hb = header_bits [of "rTNF r" f l "length (rPayload r) \<le> 255" "0 < length (rID r)", folded h_def]
  define tl il pl where "tl = length (rType r)" and "il = length (rID r)" and "pl = length (rPayload r)"
  define plf where "plf = (if pl \<le> 255 then [byteN pl] else be32 (of_nat pl))"
  define ilf where "ilf = (if 0 < il then [byteN il] else [])"
  have lens: "unat (byteN tl) = tl" "unat (byteN il) = il"
    using assms by (simp_all add: record_ok_def tl_def il_def unat_byteN)
  define m where "m = encode_record f l r @ rest"
  have m: "m = [h, byteN tl] @ plf @ ilf @ rType r @ rID r @ rPayload r @ rest"
    by (simp add: m_def encode_record_def Let_def h_def tl_def il_def pl_def plf_def ilf_def)
  have p1: "(if h AND 0x10 \<noteq> 0 then 3 else 6) = 2 + length plf"
    using hb(2) by (simp add: plf_def pl_def)
  have pay: "(if h AND 0x10 \<noteq> 0 then unat (m ! 2) else rd_be32 (slice 2 6 m)) = pl"
  proof (cases "pl \<le> 255")
    case True
    then show ?thesis using hb(2) by (simp add: m plf_def pl_def unat_byteN)
  next
    case False
    have "slice 2 6 m = be32 (of_nat pl)"
      unfolding m using False slice_middle [of 2 "[h, byteN tl]" 6 "be32 (of_nat pl)"] by (simp add: plf_def)
    then show ?thesis
      using False hb(2) assms by (simp add: rd_be32_be32 record_ok_def pl_def)
  qed
  have idl: "(if h AND 0x08 \<noteq> 0 then unat (m ! (2 + length plf)) else 0) = il"
    using hb(3) lens by (auto simp: m ilf_def il_def nth_append)
  have p2: "(if h AND 0x08 \<noteq> 0 then 2 + length plf + 1 else 2 + length plf) = 2 + length plf + length ilf"
    using hb(3) by (simp add: ilf_def il_def)
  let ?p = "2 + length plf + length ilf"
  have lm: "length m = ?p + tl + il + pl + length rest"
    by (simp add: m tl_def il_def pl_def)
  have sl: "slice ?p (?p + tl) m = rType r" "slice (?p + tl) (?p + tl + il) m = rID r"
    "slice (?p + tl + il) (?p + tl + il + pl) m = rPayload r" "drop (?p + tl + il + pl) m = rest"
    using slice_middle [of ?p "[h, byteN tl] @ plf @ ilf" "?p + tl" "rType r" "rID r @ rPayload r @ rest"]
      slice_middle [of "?p + tl" "[h, byteN tl] @ plf @ ilf @ rType r" "?p + tl + il" "rID r" "rPayload r @ rest"]
      slice_middle [of "?p + tl + il" "[h, byteN tl] @ plf @ ilf @ rType r @ rID r" "?p + tl + il + pl" "rPayload r" rest]
    by (simp_all add: m tl_def il_def pl_def)
  have m0: "m ! 0 = h" "unat (m ! 1) = tl" "2 \<le> length m" using lens by (simp_all add: m)
  have il: "h AND 0x08 \<noteq> 0 \<Longrightarrow> length ilf = 1" using hb(3) by (simp add: ilf_def il_def)
  show ?thesis
    unfolding m_def [symmetric] parse_record_def m0(1,2) Let_def p1 pay idl p2
    using lm il m0(3) hb(1,4) sl by (auto simp: norm_record_def)
qed

lemma encode_record_not_Nil [simp]: "encode_record f l r \<noteq> []"
  by (simp add: encode_record_def Let_def)

lemma parse_encode_records:
  assumes "list_all record_ok rs" "rs \<noteq> []"
  shows "parse_records (encode_records_from f rs @ rest) = Inr (map norm_record rs)"
  using assms
proof (induction rs arbitrary: f)
  case (Cons r rs)
  then show ?case
    by (cases rs) (subst parse_records.simps, simp add: parse_encode_record)+
qed simp

section \<open>Payload round trips\<close>

lemma parse_make_text: "parse_text_payload (make_text_payload txt lang) = Inr txt"
proof -
  define l1 l2 where "l1 = (if lang = [] then ascii ''en'' else lang)"
    and "l2 = (if 0x3F < length l1 then take 0x3F l1 else l1)"
  have e: "make_text_payload txt lang = byteN (length l2) # l2 @ txt"
    by (simp add: make_text_payload_def l1_def l2_def Let_def)
  have "length l2 \<le> 63" by (simp add: l2_def)
  then have "length l2 < 64" by simp
  have u: "unat (byteN (length l2) AND 0x3F) = length l2"
  proof -
    have "byteN (length l2) AND 0x3F = take_bit 6 (byteN (length l2))"
      by (simp add: take_bit_eq_mask mask_eq_exp_minus_1)
    then show ?thesis using \<open>length l2 < 64\<close>
      by (simp add: take_bit_eq_mod word_arith_nat_mod unat_of_nat unat_byteN)
  qed
  have "byteN (length l2) AND 0x80 = 0"
  proof -
    have "byteN (length l2) = byteN (length l2) AND 0x3F"
      using u by (metis byteN_unat)
    then have "byteN (length l2) AND 0x80 = byteN (length l2) AND (0x3F AND 0x80)"
      by (metis and.assoc)
    then show ?thesis by simp
  qed
  with u show ?thesis by (simp add: e parse_text_payload_def Let_def)
qed

text \<open>The prefix chosen is one of the table, the URI starts with it, and none is longer.\<close>

lemma best_prefix_step_pair [simp]:
  "best_prefix_step uri (code, p) (bc, bl) =
    (if bl < length p \<and> take (length p) uri = p then (code, length p) else (bc, bl))"
  by (simp add: best_prefix_step_def)

lemma best_prefix_fold:
  assumes "\<forall>(c, p) \<in> set cps. P c p"
    and "fold (best_prefix_step uri) cps (bc, bl) = (c, n)"
  shows "(c = bc \<and> n = bl \<or> (\<exists>p. P c p \<and> n = length p \<and> take (length p) uri = p)) \<and> bl \<le> n \<and>
    (\<forall>(c', p) \<in> set cps. take (length p) uri = p \<longrightarrow> length p \<le> n)"
  using assms
proof (induction cps arbitrary: bc bl)
  case (Cons cp cps)
  obtain c1 p1 where cp: "cp = (c1, p1)" by (cases cp)
  show ?case
  proof (cases "bl < length p1 \<and> take (length p1) uri = p1")
    case True
    with Cons.prems(2) have "fold (best_prefix_step uri) cps (c1, length p1) = (c, n)"
      by (simp add: cp)
    from Cons.IH [OF _ this] Cons.prems(1) True show ?thesis by (auto simp: cp)
  next
    case False
    with Cons.prems(2) have "fold (best_prefix_step uri) cps (bc, bl) = (c, n)"
      by (auto simp add: cp)
    from Cons.IH [OF _ this] Cons.prems(1) False show ?thesis by (auto simp: cp)
  qed
qed auto

lemma uri_table: "length uri_prefix_table = 36" "uri_prefix_table ! 0 = []"
  by (simp_all add: uri_prefix_table_def ascii_def)

lemma uri_table_entries: "(c, p) \<in> set (enumerate 0 uri_prefix_table) \<longleftrightarrow> c < 36 \<and> p = uri_prefix_table ! c"
  by (auto simp: in_set_enumerate_eq uri_table(1))

lemma best_prefix_facts:
  assumes "best_prefix uri = (c, n)"
  shows "c < 36" "take n uri = uri_prefix_table ! c" "n = length (uri_prefix_table ! c)"
    "\<And>p. p \<in> set uri_prefix_table \<Longrightarrow> take (length p) uri = p \<Longrightarrow> length p \<le> n"
proof -
  have t: "enumerate 0 uri_prefix_table = (0, []) # drop 1 (enumerate 0 uri_prefix_table)"
    by (simp add: uri_prefix_table_def ascii_def)
  let ?cps = "drop 1 (enumerate 0 uri_prefix_table)"
  have "\<forall>(c, p) \<in> set ?cps. c < 36 \<and> p = uri_prefix_table ! c"
    using uri_table_entries by (auto dest: in_set_dropD)
  from best_prefix_fold [OF this, of uri 0 0 c n] assms
  have f: "c = 0 \<and> n = 0 \<or> (\<exists>p. (c < 36 \<and> p = uri_prefix_table ! c) \<and> n = length p \<and> take (length p) uri = p)"
    "\<forall>(c', p) \<in> set ?cps. take (length p) uri = p \<longrightarrow> length p \<le> n"
    by (simp_all add: best_prefix_def)
  note z = uri_table(2)
  show "c < 36" "take n uri = uri_prefix_table ! c" "n = length (uri_prefix_table ! c)"
    using f(1) z by auto
  show "length p \<le> n" if p: "p \<in> set uri_prefix_table" "take (length p) uri = p" for p
  proof -
    obtain c' where "c' < 36" "p = uri_prefix_table ! c'"
      using p(1) by (auto simp: in_set_conv_nth uri_table(1))
    then have "(c', p) \<in> set (enumerate 0 uri_prefix_table)" by (simp add: uri_table_entries)
    then have "(c', p) = (0, []) \<or> (c', p) \<in> set ?cps" by (subst (asm) t) auto
    then show ?thesis using f(2) p(2) by auto
  qed
qed

lemma parse_make_uri: "parse_uri_payload (make_uri_payload uri) = Inr uri"
proof -
  obtain c n where b: "best_prefix uri = (c, n)" by fastforce
  note f = best_prefix_facts [OF b]
  note l = uri_table(1) and z = uri_table(2)
  have "unat (byteN c) = c" using f(1) by (simp add: unat_byteN)
  moreover have "(if 0 < c \<and> c < length uri_prefix_table then uri_prefix_table ! c else []) = take n uri"
    using f(1,2) z l by (cases "c = 0") simp_all
  ultimately show ?thesis by (simp add: make_uri_payload_def b parse_uri_payload_def)
qed

end
