(* ===== verification/SdmTap.thy ===== *)
theory SdmTap
  imports PlanFacts CardInvariant Ndef
begin

text \<open>
  A planned tag at work: the plan \<open>PlanSDM\<close> makes is one the card accepts, the file the card
  then serves is the template with every mirror filled in, and the URL in it verifies.
\<close>

section \<open>What a plan guarantees\<close>

lemma ph_width_pos: "0 < ph_width opts p"
  by (cases p) (simp_all add: picc_width_def enc_length_def unat_gt_0)

lemma uri_prefixes_no_zero: "(c, p) \<in> set uri_prefixes \<Longrightarrow> 0x30 \<notin> set p \<and> length p \<le> 12"
  by (auto simp: uri_prefixes_def ascii_def)

lemma find_SomeD: "find P xs = Some x \<Longrightarrow> P x \<and> x \<in> set xs"
  by (induction xs) (auto split: if_splits)

lemma uri_prefix_of_facts:
  assumes "uri_prefix_of tx = (c, p)"
  shows "take (length p) tx = p" "0x30 \<notin> set p" "length p \<le> 12"
    "c = 0 \<and> p = [] \<or> (c, p) \<in> set uri_prefixes"
proof -
  have "c = 0 \<and> p = [] \<or> take (length p) tx = p \<and> (c, p) \<in> set uri_prefixes"
    using assms by (auto simp: uri_prefix_of_def dest: find_SomeD split: option.splits)
  then show "take (length p) tx = p" "0x30 \<notin> set p" "length p \<le> 12"
    "c = 0 \<and> p = [] \<or> (c, p) \<in> set uri_prefixes"
    using uri_prefixes_no_zero [of c p] by auto
qed

text \<open>The segments of the template, where its text divides into prefix and body, and that no
  mirror lies in the prefix.\<close>

lemma plan_template:
  assumes "plan_sdm tmpl opts = Inr plan"
  obtains ss where "plain_segs ss" "template ss = tmpl"
proof -
  obtain tx pos where e: "expand_template tmpl opts = Inr (tx, pos)"
    using assms by (auto simp: plan_sdm_def bindE_eq_Inr)
  then show thesis using expand_complete that unfolding expand_template_def by metis
qed

lemma plan_sdm_facts:
  assumes "plan_sdm (template ss) opts = Inr plan" "plain_segs ss"
  obtains c n where "distinct (holes ss)"
    "plan_check opts (hole_pos (zeros opts) ss) = None"
    "uri_prefix_of (render (zeros opts) ss) = (c, take n (render (zeros opts) ss))"
    "n \<le> length (render (zeros opts) ss)" "length (render (zeros opts) ss) - n \<le> 249" "n \<le> 12"
    "plan_settings opts (hole_pos (zeros opts) ss) n = Inr (planSettings plan)"
    "isOk (settings_encode (planSettings plan))"
    "planNDEF plan = [0, byteN (5 + (length (render (zeros opts) ss) - n)), 0xD1, 0x01,
       byteN (1 + (length (render (zeros opts) ss) - n)), 0x55, c] @ drop n (render (zeros opts) ss)"
    "\<And>p i. hole_pos (zeros opts) ss p = Some i \<Longrightarrow> n \<le> i"
proof -
  obtain tx pos where e: "expand_template (template ss) opts = Inr (tx, pos)"
    using assms by (auto simp: plan_sdm_def bindE_eq_Inr)
  note ss = assms(2)
  then have d: "distinct (holes ss)"
    using expand_segs_distinct e ss unfolding expand_template_def by metis
  have ex: "tx = render (zeros opts) ss" "pos = hole_pos (zeros opts) ss"
  proof -
    have "expand_loop opts (template ss) [] (\<lambda>_. None) = Inr ([] @ render (zeros opts) ss,
        \<lambda>p. case hole_pos (zeros opts) ss p of Some n \<Rightarrow> Some (length ([] :: bytes) + n) | None \<Rightarrow> None)"
      by (rule expand_segs [OF ss d]) simp
    moreover have "(\<lambda>p. case hole_pos (zeros opts) ss p of Some n \<Rightarrow> Some (length ([] :: bytes) + n) | None \<Rightarrow> None) =
        hole_pos (zeros opts) ss"
      by (auto simp: fun_eq_iff split: option.splits)
    ultimately show "tx = render (zeros opts) ss" "pos = hole_pos (zeros opts) ss"
      using e by (simp_all add: expand_template_def)
  qed
  obtain c prefix where p: "uri_prefix_of tx = (c, prefix)" by fastforce
  note pf = uri_prefix_of_facts [OF p]
  have pl: "length prefix \<le> length tx" using pf(1) by (metis length_take min.cobounded1 min.commute)
  have rest: "plan_check opts pos = None" "\<not> 256 < 2 + 4 + (1 + length (drop (length prefix) tx))"
    "plan_settings opts pos (length prefix) = Inr (planSettings plan)"
    "isOk (settings_encode (planSettings plan))"
    "planNDEF plan = [byteN (length (uri_record c (drop (length prefix) tx)) div 256),
       byteN (length (uri_record c (drop (length prefix) tx)))] @ uri_record c (drop (length prefix) tx)"
    using assms e p
    by (auto simp: plan_sdm_def Let_def bindE_eq_Inr split: option.splits if_splits)
  show thesis
  proof (rule that [of c "length prefix"])
    show "uri_prefix_of (render (zeros opts) ss) = (c, take (length prefix) (render (zeros opts) ss))"
      using p pf(1) ex by simp
    have "(5 + (length tx - length prefix)) div 256 = 0" using rest(2) by simp
    then show "planNDEF plan = [0, byteN (5 + (length (render (zeros opts) ss) - length prefix)), 0xD1, 0x01,
       byteN (1 + (length (render (zeros opts) ss) - length prefix)), 0x55, c] @
       drop (length prefix) (render (zeros opts) ss)"
      using rest(5) ex by (simp add: uri_record_def byteN_def)
  next
    fix p i assume h: "hole_pos (zeros opts) ss p = Some i"
    show "length prefix \<le> i"
    proof (rule ccontr)
      assume "\<not> length prefix \<le> i"
      then have i: "i < length prefix" by simp
      have "slice i (i + ph_width opts p) tx = replicate (ph_width opts p) 0x30"
        using hole_slice [OF h] ex by (simp add: zeros_def)
      then have "slice i (i + ph_width opts p) tx ! 0 = 0x30" using ph_width_pos by simp
      then have "tx ! i = 0x30"
        using i pl ph_width_pos [of opts p] by (simp add: slice_def)
      moreover have "tx ! i \<in> set prefix" using i pf(1) by (metis nth_mem nth_take)
      ultimately show False using pf(2) by simp
    qed
  qed (use d rest ex pl pf(3) in \<open>simp_all\<close>)
qed

definition at_off :: "nat \<Rightarrow> nat \<Rightarrow> uint32" where
  "at_off n i = of_int (7 - int n + int i)"

lemma unat_at_off: "n \<le> i \<Longrightarrow> i - n \<le> 249 \<Longrightarrow> unat (at_off n i) = 7 + (i - n)"
proof -
  assume h: "n \<le> i" "i - n \<le> 249"
  then have "7 - int n + int i = int (7 + (i - n))" by simp
  then have "at_off n i = of_nat (7 + (i - n))" unfolding at_off_def by (metis of_int_of_nat_eq)
  moreover have "unat (of_nat (7 + (i - n)) :: uint32) = 7 + (i - n)"
    using h(2) by (subst unat_of_nat) simp
  ultimately show ?thesis by simp
qed

lemma plan_check_None:
  assumes "plan_check opts pos = None"
  shows "pos PhMac \<noteq> None" "pos PhPicc \<noteq> None \<Longrightarrow> pos PhUid = None \<and> pos PhCtr = None \<and> oMetaRead opts \<le> 4"
    "pos PhPicc = None \<Longrightarrow> pos PhUid \<noteq> None \<and> pos PhCtr \<noteq> None" "oFileRead opts \<le> 4"
    "pos PhEnc \<noteq> None \<Longrightarrow> \<not> oLRP opts \<and> enc_length opts mod 32 = 0"
  using assms unfolding plan_check_def Let_def not_less [symmetric]
  by (simp_all only: option.distinct simp_thms split: if_split_asm)

text \<open>The two choices a plan makes: which of the mirrors of UID and counter, and whether there is
  file data, with how their offsets lie.\<close>

definition plan_meta :: "sdm_options \<Rightarrow> (placeholder \<Rightarrow> nat option) \<Rightarrow> nat \<Rightarrow> file_settings \<Rightarrow> bool" where
  "plan_meta opts pos n fs \<longleftrightarrow>
     (\<exists>ip. pos PhPicc = Some ip \<and> pos PhUid = None \<and> pos PhCtr = None \<and> oMetaRead opts \<le> 4 \<and>
        fsSDMMetaRead fs = oMetaRead opts \<and> fsPICCDataOffset fs = at_off n ip \<and>
        fsUIDOffset fs = 0 \<and> fsReadCounterOffset fs = 0 \<and>
        (\<forall>i \<in> {i. pos PhEnc = Some i \<or> pos PhEnc = None \<and> pos PhMac = Some i}. ip + picc_width opts \<le> i)) \<or>
     (\<exists>iu ic. pos PhPicc = None \<and> pos PhUid = Some iu \<and> pos PhCtr = Some ic \<and> fsSDMMetaRead fs = AccessFree \<and>
        fsPICCDataOffset fs = 0 \<and> fsUIDOffset fs = at_off n iu \<and> fsReadCounterOffset fs = at_off n ic \<and>
        (\<forall>i \<in> {i. pos PhEnc = Some i \<or> pos PhEnc = None \<and> pos PhMac = Some i}. iu + 14 \<le> i \<and> ic + 6 \<le> i))"

definition plan_enc ::
    "sdm_options \<Rightarrow> (placeholder \<Rightarrow> nat option) \<Rightarrow> nat \<Rightarrow> nat \<Rightarrow> file_settings \<Rightarrow> bool" where
  "plan_enc opts pos n im fs \<longleftrightarrow>
     (\<exists>ie. pos PhEnc = Some ie \<and> \<not> oLRP opts \<and> fsEncryptFileData fs \<and> fsENCOffset fs = at_off n ie \<and>
        fsENCLength fs = enc_length opts \<and> enc_length opts mod 32 = 0 \<and> fsMACInputOffset fs = at_off n ie \<and>
        ie + unat (enc_length opts) \<le> im) \<or>
     pos PhEnc = None \<and> \<not> fsEncryptFileData fs \<and> fsENCOffset fs = 0 \<and> fsENCLength fs = 0 \<and>
        fsMACInputOffset fs = fsMACOffset fs"

text \<open>The settings of a plan, by which placeholders the template has.\<close>

lemma plan_settings_shape:
  assumes "plan_check opts pos = None" "plan_settings opts pos n = Inr fs"
  obtains im where "pos PhMac = Some im" "fsMACOffset fs = at_off n im"
    "fsSDMEnabled fs" "fsCommMode fs = CommPlain" "fsASCIIEncoding fs" "fsMirrorUID fs" "fsMirrorReadCounter fs"
    "\<not> fsReadCounterLimit fs" "fsReadCounterLimitValue fs = 0" "fsSDMFileRead fs = oFileRead opts" "oFileRead opts \<le> 4"
    "fsFileType fs = 0" "fsFileSize fs = 0"
    "plan_meta opts pos n fs"
    "plan_enc opts pos n im fs"
proof -
  note c = plan_check_None [OF assms(1)]
  obtain im where im: "pos PhMac = Some im" using c(1) by blast
  have a: "7 - of_nat n + of_nat i = at_off n i" for i by (simp add: at_off_def)
  note le = c(4)
  consider (picc) ip where "pos PhPicc = Some ip" "pos PhUid = None" "pos PhCtr = None" "oMetaRead opts \<le> 4"
    | (clear) iu ic where "pos PhPicc = None" "pos PhUid = Some iu" "pos PhCtr = Some ic"
  proof (cases "pos PhPicc")
    case None
    from c(3) [OF this] show ?thesis using None that(2) by blast
  next
    case (Some ip)
    then have "pos PhPicc \<noteq> None" by simp
    from c(2) [OF this] Some show ?thesis by (elim conjE) (rule that(1))
  qed
  note meta = this
  consider (enc) ie where "pos PhEnc = Some ie" "\<not> oLRP opts" "enc_length opts mod 32 = 0" | (noenc) "pos PhEnc = None"
  proof (cases "pos PhEnc")
    case (Some ie)
    then have "pos PhEnc \<noteq> None" by simp
    from c(5) [OF this] Some show ?thesis by (elim conjE) (rule that(1))
  qed (rule that(2))
  then show thesis
  proof cases
    case enc
    from meta show thesis
    proof cases
      case picc
      show ?thesis by (rule that [of im]; use assms(2) im le enc picc in
        \<open>auto simp: plan_meta_def plan_enc_def plan_settings_def Let_def a zero_settings_def not_less split: if_splits\<close>)
    next
      case clear
      show ?thesis by (rule that [of im]; use assms(2) im le enc clear in
        \<open>auto simp: plan_meta_def plan_enc_def plan_settings_def Let_def a zero_settings_def not_less split: if_splits\<close>)
    qed
  next
    case noenc
    from meta show thesis
    proof cases
      case picc
      show ?thesis by (rule that [of im]; use assms(2) im le noenc picc in
        \<open>auto simp: plan_meta_def plan_enc_def plan_settings_def Let_def a zero_settings_def not_less split: if_splits\<close>)
    next
      case clear
      show ?thesis by (rule that [of im]; use assms(2) im le noenc clear in
        \<open>auto simp: plan_meta_def plan_enc_def plan_settings_def Let_def a zero_settings_def not_less split: if_splits\<close>)
    qed
  qed
qed

lemma access_not_keys [simp]: "\<not> AccessFree \<le> 4" "\<not> AccessNever \<le> 4" "AccessFree \<noteq> AccessNever"
  by (simp_all add: AccessFree_def AccessNever_def)

lemma enc_length_nonzero: "enc_length opts \<noteq> 0"
  by (simp add: enc_length_def)

lemma nat_mirror_fits:
  assumes "unat off + w \<le> 256" "unat v = w"
  shows "mirror_fits 256 off v"
proof -
  have "unat (off + v) = unat off + w" using assms by (subst unat_add_lem [THEN iffD1]) simp_all
  with assms show ?thesis by (simp add: mirror_fits_def word_le_nat_alt)
qed

lemma take_bit_24_small: "unat v \<le> 256 \<Longrightarrow> take_bit 24 v = (v :: uint32)"
  by (rule le24_small) (simp add: word_less_nat_alt)

text \<open>The card's rules accept every plan, and the wire carries its settings unchanged.\<close>

lemma plan_accepted:
  assumes "plan_sdm tmpl opts = Inr plan"
  shows "check_settings (oLRP opts) 0x02 (planSettings plan) = 0 \<and>
    settings_wire (planSettings plan) = planSettings plan \<and> length (planNDEF plan) \<le> 256"
proof -
  obtain ss where ss: "plain_segs ss" "template ss = tmpl" using plan_template [OF assms] .
  obtain c n where f: "plan_check opts (hole_pos (zeros opts) ss) = None"
    "n \<le> length (render (zeros opts) ss)" "length (render (zeros opts) ss) - n \<le> 249"
    "plan_settings opts (hole_pos (zeros opts) ss) n = Inr (planSettings plan)"
    "isOk (settings_encode (planSettings plan))"
    "planNDEF plan = [0, byteN (5 + (length (render (zeros opts) ss) - n)), 0xD1, 0x01,
       byteN (1 + (length (render (zeros opts) ss) - n)), 0x55, c] @ drop n (render (zeros opts) ss)"
    "\<And>p i. hole_pos (zeros opts) ss p = Some i \<Longrightarrow> n \<le> i"
    using plan_sdm_facts [OF assms [folded ss(2)] ss(1)] by metis
  define fs where "fs = planSettings plan"
  define pos where "pos = hole_pos (zeros opts) ss"
  have bound: "unat (at_off n i) + ph_width opts p \<le> 256" "unat (at_off n i) = 7 + (i - n)" "n \<le> i"
    if "pos p = Some i" for p i
  proof -
    have "i + ph_width opts p \<le> length (render (zeros opts) ss)" "n \<le> i"
      using hole_pos_bound that f(7) by (fastforce simp: pos_def)+
    with f(3) show "unat (at_off n i) + ph_width opts p \<le> 256" "unat (at_off n i) = 7 + (i - n)" "n \<le> i"
      using unat_at_off [of n i] by linarith+
  qed
  note fits = nat_mirror_fits [OF bound(1)]
  note small = take_bit_24_small
  have small_off: "unat (at_off n i) \<le> 256" if "pos p = Some i" for p i
    using bound(1) [OF that] by linarith
  obtain im where im: "pos PhMac = Some im" "fsMACOffset fs = at_off n im"
    and b: "fsSDMEnabled fs" "fsCommMode fs = CommPlain" "fsASCIIEncoding fs" "fsMirrorUID fs" "fsMirrorReadCounter fs"
      "\<not> fsReadCounterLimit fs" "fsReadCounterLimitValue fs = 0" "fsSDMFileRead fs = oFileRead opts" "oFileRead opts \<le> 4"
      "fsFileType fs = 0" "fsFileSize fs = 0"
    and meta: "plan_meta opts pos n fs"
    and enc: "plan_enc opts pos n im fs"
    by (rule plan_settings_shape [OF f(1) f(4), folded pos_def fs_def]) (rule that)
  have mac: "mirror_fits 256 (fsMACOffset fs) 16" "unat (fsMACOffset fs) \<le> 256"
    using fits [OF im(1), of 16] bound(1) [OF im(1)] by (simp_all add: im(2))
  have m1: "\<not> (fsMirrorUID fs \<and> fsSDMMetaRead fs = AccessFree \<and> \<not> mirror_fits 256 (fsUIDOffset fs) 14)"
    "\<not> (fsMirrorReadCounter fs \<and> fsSDMMetaRead fs = AccessFree \<and> \<not> mirror_fits 256 (fsReadCounterOffset fs) 6)"
    "\<not> (fsSDMMetaRead fs \<le> 4 \<and> \<not> mirror_fits 256 (fsPICCDataOffset fs) (if oLRP opts then 48 else 32))"
    using meta [unfolded plan_meta_def] fits [of PhUid _ 14] fits [of PhCtr _ 6] fits [of PhPicc _ "if oLRP opts then 48 else 32"]
    by (auto simp: AccessFree_def picc_width_def)
  have m2: "unat (fsUIDOffset fs) \<le> 256" "unat (fsReadCounterOffset fs) \<le> 256" "unat (fsPICCDataOffset fs) \<le> 256"
    using meta [unfolded plan_meta_def] small_off by auto
  have e1: "\<not> (fsEncryptFileData fs \<and>
      (oLRP opts \<or> 4 < fsSDMFileRead fs \<or> fsENCLength fs = 0 \<or> fsENCLength fs mod 32 \<noteq> 0
       \<or> \<not> mirror_fits 256 (fsENCOffset fs) (fsENCLength fs)))"
    using enc [unfolded plan_enc_def] fits [of PhEnc _ "enc_length opts"] b(8,9) enc_length_nonzero [of opts]
    by (elim disjE exE conjE) (simp_all add: not_less)
  have e2: "fsMACInputOffset fs \<le> fsMACOffset fs" "unat (fsENCOffset fs) \<le> 256" "unat (fsENCLength fs) \<le> 256"
    "unat (fsMACInputOffset fs) \<le> 256"
    using enc [unfolded plan_enc_def] bound [of PhEnc] bound [OF im(1)] mac(2) im(2) small_off
    by (auto simp: word_le_nat_alt)
  have chk: "check_settings (oLRP opts) 0x02 fs = 0"
    using f(5) b m1 e1 e2(1) mac(1)
    by (simp add: check_settings_def fs_def [symmetric] ntag424_file_sizes_def Let_def not_less)
  moreover have "settings_wire fs = fs"
    using b meta [unfolded plan_meta_def] enc [unfolded plan_enc_def] m2 e2 mac(2) by (cases fs) (auto simp: settings_wire_def zero_settings_def Let_def small access_not_keys)
  moreover have "length (planNDEF plan) \<le> 256" using f(2,3,6) by simp
  ultimately show ?thesis by (simp add: fs_def)
qed

section \<open>The file as the card serves it\<close>

text \<open>A planned file: the header, the text behind its prefix with the holes filled by \<open>\<sigma>\<close>, and what
  the file holds after it.\<close>

definition content :: "bytes \<Rightarrow> nat \<Rightarrow> seg list \<Rightarrow> bytes \<Rightarrow> (placeholder \<Rightarrow> bytes) \<Rightarrow> bytes" where
  "content hdr n ss rest \<sigma> = hdr @ drop n (render \<sigma> ss) @ rest"

definition widths :: "sdm_options \<Rightarrow> (placeholder \<Rightarrow> bytes) \<Rightarrow> bool" where
  "widths opts \<sigma> \<longleftrightarrow> (\<forall>p. length (\<sigma> p) = ph_width opts p)"

lemma widths_upd: "widths opts \<sigma> \<Longrightarrow> length t = ph_width opts p \<Longrightarrow> widths opts (\<sigma>(p := t))"
  by (simp add: widths_def)

lemma widths_pos: "widths opts \<sigma> \<Longrightarrow> hole_pos \<sigma> ss p = hole_pos (zeros opts) ss p"
  by (rule hole_pos_cong) (simp add: widths_def)

lemma widths_length: "widths opts \<sigma> \<Longrightarrow> length (render \<sigma> ss) = length (render (zeros opts) ss)"
  by (rule length_render) (simp add: widths_def)

lemma slice_content:
  assumes "length hdr = 7" "n \<le> i" "n \<le> j" "j \<le> length (render \<sigma> ss)"
  shows "slice (7 + (i - n)) (7 + (j - n)) (content hdr n ss rest \<sigma>) = slice i j (render \<sigma> ss)"
  using assms by (simp add: content_def slice_def)

definition planned :: "sdm_options \<Rightarrow> bytes \<Rightarrow> nat \<Rightarrow> seg list \<Rightarrow> bool" where
  "planned opts hdr n ss \<longleftrightarrow> length hdr = 7 \<and> distinct (holes ss) \<and>
     (\<forall>p i. hole_pos (zeros opts) ss p = Some i \<longrightarrow> n \<le> i) \<and> length (render (zeros opts) ss) - n \<le> 249"

lemma plannedD:
  assumes "planned opts hdr n ss"
  shows "length hdr = 7" "distinct (holes ss)" "hole_pos (zeros opts) ss p = Some i \<Longrightarrow> n \<le> i"
    "length (render (zeros opts) ss) - n \<le> 249"
  using assms by (auto simp: planned_def)

lemma put_mirror:
  assumes P: "planned opts hdr n ss" and "widths opts \<sigma>" "hole_pos (zeros opts) ss p = Some i" "length t = ph_width opts p"
  shows "put_text (at_off n i) t (content hdr n ss rest \<sigma>) = Some (content hdr n ss rest (\<sigma>(p := t)))"
proof -
  note hdr = plannedD(1) [OF P] and dist = plannedD(2) [OF P] and low = plannedD(3) [OF P] and short = plannedD(4) [OF P]
  have i: "hole_pos \<sigma> ss p = Some i" "length (\<sigma> p) = ph_width opts p"
    using assms(2,3) by (simp_all add: widths_pos) (simp add: widths_def)
  have b: "i + ph_width opts p \<le> length (render \<sigma> ss)" using hole_pos_bound [OF i(1)] i(2) by simp
  have u: "unat (at_off n i) = 7 + (i - n)"
    using low [OF assms(3)] short b widths_length [OF assms(2), of ss] by (intro unat_at_off) simp_all
  have "copy_at (7 + (i - n)) (content hdr n ss rest \<sigma>) t = content hdr n ss rest (\<sigma>(p := t))"
    unfolding content_def using copy_at_body [OF hdr low [OF assms(3)], of t "render \<sigma> ss" rest] b assms(4)
      copy_at_render [OF dist i(1)] i(2) by simp
  then show ?thesis using hdr b low [OF assms(3)] by (simp add: put_text_def u content_def)
qed

lemma text_before_mirror:
  assumes P: "planned opts hdr n ss" and "widths opts \<sigma>" "hole_pos (zeros opts) ss p = Some j" "length t = ph_width opts p"
  shows "slice i j (render (\<sigma>(p := t)) ss) = slice i j (render \<sigma> ss)"
proof -
  note hdr = plannedD(1) [OF P] and dist = plannedD(2) [OF P] and low = plannedD(3) [OF P] and short = plannedD(4) [OF P]
  have h: "hole_pos \<sigma> ss p = Some j" "length t = length (\<sigma> p)"
    using assms by (simp_all add: widths_pos) (simp add: widths_def)
  have "take j (render (\<sigma>(p := t)) ss) = take j (render \<sigma> ss)"
    using copy_at_render [OF dist h] hole_pos_bound [OF h(1)] by (metis add_leD1 order.refl take_copy_at)
  then show ?thesis by (simp add: slice_def drop_take [symmetric])
qed

lemma mac_text:
  assumes P: "planned opts hdr n ss" and "widths opts \<sigma>" "hole_pos (zeros opts) ss p = Some i" "hole_pos (zeros opts) ss q = Some j"
  shows "slice (unat (at_off n i)) (unat (at_off n j)) (content hdr n ss rest \<sigma>) = slice i j (render \<sigma> ss)"
proof -
  note hdr = plannedD(1) [OF P] and dist = plannedD(2) [OF P] and low = plannedD(3) [OF P] and short = plannedD(4) [OF P]
  have b: "i + length (\<sigma> p) \<le> length (render \<sigma> ss)" "j + length (\<sigma> q) \<le> length (render \<sigma> ss)"
    using assms hole_pos_bound by (simp_all add: widths_pos [symmetric])
  then have "unat (at_off n i) = 7 + (i - n)" "unat (at_off n j) = 7 + (j - n)"
    using low [OF assms(3)] low [OF assms(4)] short widths_length [OF assms(2), of ss]
    by (intro unat_at_off; simp)+
  then show ?thesis
    using b low [OF assms(3)] low [OF assms(4)] hdr by (simp only: slice_content)
qed

section \<open>Mirrors\<close>

lemma picc_block_full:
  assumes "fsMirrorUID fs" "fsMirrorReadCounter fs" "length uid = 7"
  shows "picc_block fs uid (encode_counter c) = 0xC7 # uid @ encode_counter c @ replicate 5 0"
proof -
  have z: "replicate 16 (0 :: byte) = 0 # replicate 15 0" "replicate 15 (0 :: byte) = replicate 7 0 @ replicate 8 0"
    "replicate 8 (0 :: byte) = replicate 3 0 @ replicate 5 0"
    by (simp_all add: numeral_eq_Suc)
  have "copy_at 1 (replicate 16 0) uid = 0 # uid @ replicate 8 0"
    using copy_at_append [of "[0]" 0 "replicate 15 0" uid] assms(3) z by (simp add: copy_at_fits)
  moreover have "copy_at 8 (0 # uid @ replicate 8 0) (encode_counter c) = 0 # uid @ encode_counter c @ replicate 5 0"
    using copy_at_append [of "0 # uid" 0 "replicate 8 0" "encode_counter c"] assms(3) z(3) by (simp add: copy_at_fits)
  ultimately show ?thesis using assms by (simp add: picc_block_def Let_def)
qed

lemma fmt_06X_small:
  assumes "v < 0x1000000"
  shows "fmt_06X v = hex_upper [ucast (drop_bit 16 v), ucast (drop_bit 8 v), ucast v]"
proof -
  have "hex_upper (be32 v) = hex_upper [ucast (drop_bit 24 v)] @ hex_upper [ucast (drop_bit 16 v), ucast (drop_bit 8 v), ucast v]"
    unfolding hex_upper_append [symmetric] by (simp add: be32_def)
  then show ?thesis using assms by (simp add: fmt_06X_def)
qed

lemma fold_counter:
  assumes "v < (0x1000000 :: uint32)"
  shows "foldl (\<lambda>c (b :: byte). push_bit 8 c OR ucast b) 0
    [ucast (drop_bit 16 v), ucast (drop_bit 8 v), ucast v] = v"
proof -
  have "take_bit 24 v = v" using assms by (rule le24_small)
  then have hi: "\<not> bit v n" if "24 \<le> n" for n using that by (metis bit_take_bit_iff not_le)
  show ?thesis
  proof (rule bit_eqI)
    fix n assume "possible_bit TYPE(32 word) n"
    then have n: "n < 32" by simp
    consider "n < 8" | "8 \<le> n" "n < 16" | "16 \<le> n" "n < 24" | "24 \<le> n" by linarith
    then show "bit (foldl (\<lambda>c (b :: byte). push_bit 8 c OR ucast b) (0 :: uint32)
        [ucast (drop_bit 16 v), ucast (drop_bit 8 v), ucast v]) n = bit v n"
      by cases (use n hi in \<open>auto simp: bit_simps\<close>)
  qed
qed

text \<open>What the card says of itself on a read, and what the mirror of it must decrypt to.\<close>

definition picc_of :: "ntag424_state \<Rightarrow> uint32 \<Rightarrow> picc_data" where
  "picc_of s ctr = \<lparr>pUID = nUID s, pReadCounter = ctr, pUIDMirrored = True, pCounterMirrored = True, pLRP = nLRP s\<rparr>"

definition picc_mirrored :: "ntag424_state \<Rightarrow> uint32 \<Rightarrow> byte \<Rightarrow> bytes \<Rightarrow> bool" where
  "picc_mirrored s ctr k b \<longleftrightarrow> length b = (if nLRP s then 24 else 16) \<and>
     (if nLRP s then decrypt_picc_data_lrp (nKeys s ! unat k) b else decrypt_picc_data (nKeys s ! unat k) b) =
       Inr (picc_of s ctr)"

lemma view_picc_planned:
  assumes P: "planned opts hdr n ss" and w: "widths opts \<sigma>"
    and meta: "plan_meta opts (hole_pos (zeros opts) ss) n fs" and m: "fsMirrorUID fs" "fsMirrorReadCounter fs"
    and k: "keys_ok (nKeys s)" and uid: "length (nUID s) = 7" and l: "nLRP s = oLRP opts" and c: "ctr < 0x1000000"
  obtains \<sigma>' r where
    "view_picc fs ctr (content hdr n ss rest \<sigma>) s = Some ((True, content hdr n ss rest \<sigma>'), s\<lparr>nRandom := r\<rparr>)"
    "widths opts \<sigma>'" "\<sigma>' PhEnc = \<sigma> PhEnc" "\<sigma>' PhMac = \<sigma> PhMac"
    "hole_pos (zeros opts) ss PhPicc \<noteq> None \<Longrightarrow>
       \<exists>b. \<sigma>' PhPicc = hex_upper b \<and> picc_mirrored s ctr (oMetaRead opts) b"
    "hole_pos (zeros opts) ss PhPicc = None \<Longrightarrow> \<sigma>' PhUid = hex_upper (nUID s) \<and> \<sigma>' PhCtr = fmt_06X ctr"
proof -
  define pos where "pos = hole_pos (zeros opts) ss"
  note put = put_mirror [OF P w, folded pos_def]
  have same: "s\<lparr>nRandom := nRandom s\<rparr> = s" by simp
  from meta [unfolded plan_meta_def, folded pos_def] show thesis
  proof (elim disjE exE conjE)
    fix ip assume ip: "pos PhPicc = Some ip" and mr: "oMetaRead opts \<le> 4" "fsSDMMetaRead fs = oMetaRead opts"
      and off: "fsPICCDataOffset fs = at_off n ip"
    define key plain where "key = nKeys s ! unat (oMetaRead opts)"
      and "plain = picc_block fs (nUID s) (encode_counter ctr)"
    have kl: "length key = 16" using keys_okD [OF k mr(1)] by (simp add: key_def)
    have pb: "plain = 0xC7 # nUID s @ encode_counter ctr @ replicate 5 0"
      using picc_block_full [OF m uid] by (simp add: plain_def)
    have pl: "length plain = 16" using uid by (simp add: pb)
    have tb: "take_bit 24 ctr = ctr" using c by (rule le24_small)
    note parse = parse_picc_block [OF uid, of ctr "replicate 5 0", folded pb, unfolded tb]
    show thesis
    proof (cases "nLRP s")
      case False
      define b where "b = cbc_encrypt (aes_encrypt key) (replicate 16 0) plain"
      have bl: "length b = 16" using kl pl by (simp add: b_def aesc.cbc_length aes_valid_16)
      have pm: "picc_mirrored s ctr (oMetaRead opts) b"
        using False decrypt_picc_data_cbc [OF kl pl] parse bl
        by (simp add: picc_mirrored_def picc_of_def key_def [symmetric] b_def [symmetric])
      have t: "length (hex_upper b) = ph_width opts PhPicc" using bl False l by (simp add: picc_width_def)
      show thesis
      proof (rule that [of "\<sigma>(PhPicc := hex_upper b)" "nRandom s"])
        show "view_picc fs ctr (content hdr n ss rest \<sigma>) s =
            Some ((True, content hdr n ss rest (\<sigma>(PhPicc := hex_upper b))), s\<lparr>nRandom := nRandom s\<rparr>)"
          using put [OF ip t] False mr aes_valid_16 [OF kl]
          by (simp add: view_picc_def Let_def off key_def [symmetric] plain_def [symmetric] b_def [symmetric])
      qed (use widths_upd [OF w t] pm ip in \<open>auto simp: pos_def\<close>)
    next
      case True
      define rnd where "rnd = map (nRandom s) [0..<8]"
      obtain kk where kk: "lrp_new key UpdateMAC = Inr kk" "lrp_key_ok kk"
        using lrp_new_total [OF kl, of UpdateMAC] by (auto simp: UpdateMAC_def)
      have rl: "length rnd = 8" "rnd \<noteq> []" by (simp_all add: rnd_def)
      obtain enc where enc: "lrp_encrypt kk rnd plain = Inr enc" "length enc = 16"
        using lrp_encrypt_ok [OF kk(2) rl(2), of plain] pl by auto
      define b where "b = rnd @ enc"
      have pm: "picc_mirrored s ctr (oMetaRead opts) b"
        using True decrypt_picc_data_lricb [OF kk(1) rl(1) pl enc(1)] parse rl enc(2)
        by (simp add: picc_mirrored_def picc_of_def key_def [symmetric] b_def)
      have t: "length (hex_upper b) = ph_width opts PhPicc" using rl enc(2) True l by (simp add: picc_width_def b_def)
      show thesis
      proof (rule that [of "\<sigma>(PhPicc := hex_upper b)" "\<lambda>i. nRandom s (i + 8)"])
        show "view_picc fs ctr (content hdr n ss rest \<sigma>) s =
            Some ((True, content hdr n ss rest (\<sigma>(PhPicc := hex_upper b))), s\<lparr>nRandom := \<lambda>i. nRandom s (i + 8)\<rparr>)"
          using put [OF ip t] True mr kk enc
          by (simp add: view_picc_def Let_def off key_def [symmetric] plain_def [symmetric] b_def rand_read_def
              rnd_def [symmetric])
      qed (use widths_upd [OF w t] pm ip in \<open>auto simp: pos_def\<close>)
    qed
  next
    fix iu ic assume h: "pos PhPicc = None" "pos PhUid = Some iu" "pos PhCtr = Some ic"
      and mr: "fsSDMMetaRead fs = AccessFree" and off: "fsUIDOffset fs = at_off n iu" "fsReadCounterOffset fs = at_off n ic"
    have t1: "length (hex_upper (nUID s)) = ph_width opts PhUid" using uid by simp
    have t2: "length (fmt_06X ctr) = ph_width opts PhCtr" using c by (simp add: fmt_06X_small)
    define \<tau> where "\<tau> = \<sigma>(PhUid := hex_upper (nUID s))"
    have w2: "widths opts \<tau>" unfolding \<tau>_def by (rule widths_upd [OF w t1])
    note put2 = put_mirror [OF P w2, folded pos_def, OF h(3) t2]
    show thesis
    proof (rule that [of "\<tau>(PhCtr := fmt_06X ctr)" "nRandom s"])
      show "view_picc fs ctr (content hdr n ss rest \<sigma>) s =
          Some ((True, content hdr n ss rest (\<tau>(PhCtr := fmt_06X ctr))), s\<lparr>nRandom := nRandom s\<rparr>)"
        using put [OF h(2) t1, folded \<tau>_def] put2 m
        by (simp add: view_picc_def mr off)
    qed (use widths_upd [OF w2 t2] h in \<open>auto simp: pos_def \<tau>_def\<close>)
  qed
qed

text \<open>The MAC step alone, and the MAC step behind the enciphered file data.\<close>

lemma mac_step_planned:
  assumes P: "planned opts hdr n ss" and w: "widths opts \<sigma>"
    and pos: "hole_pos (zeros opts) ss PhMac = Some im" and q: "hole_pos (zeros opts) ss q = Some iq" "iq \<le> im"
    and fs: "\<not> fsEncryptFileData fs" "fsMACInputOffset fs = at_off n iq" "fsMACOffset fs = at_off n im"
    and key: "length (nKeys s ! unat (fsSDMFileRead fs)) = 16" and m: "fsMirrorUID fs" "fsMirrorReadCounter fs"
  obtains mac where "length mac = 8"
    "sdm_mac (nKeys s ! unat (fsSDMFileRead fs)) (picc_of s ctr) (slice iq im (render (\<sigma>(PhMac := hex_upper mac)) ss)) = Inr mac"
    "view_mac fs ctr (content hdr n ss rest \<sigma>) s = Some (content hdr n ss rest (\<sigma>(PhMac := hex_upper mac)))"
proof -
  obtain mac where mac: "sdm_mac (nKeys s ! unat (fsSDMFileRead fs)) (picc_of s ctr) (slice iq im (render \<sigma> ss)) = Inr mac"
    "length mac = 8" using sdm_mac_ok [OF key] by blast
  have t: "length (hex_upper mac) = ph_width opts PhMac" using mac(2) by simp
  have b: "im + ph_width opts PhMac \<le> length (render (zeros opts) ss)" "n \<le> im" "n \<le> iq"
    using hole_pos_bound [OF pos] plannedD(3) [OF P pos] plannedD(3) [OF P q(1)] by simp_all
  have u: "unat (at_off n im) = 7 + (im - n)" "unat (at_off n iq) = 7 + (iq - n)"
    using b q(2) plannedD(4) [OF P] by (intro unat_at_off; simp)+
  have len: "7 + (im - n) \<le> length (content hdr n ss rest \<sigma>)"
    using b plannedD(1) [OF P] widths_length [OF w, of ss] by (simp add: content_def)
  show thesis
  proof (rule that [of mac])
    show "view_mac fs ctr (content hdr n ss rest \<sigma>) s = Some (content hdr n ss rest (\<sigma>(PhMac := hex_upper mac)))"
      using mac mac_text [OF P w q(1) pos] put_mirror [OF P w pos t] len b q(2)
      by (simp add: view_mac_def fs m u picc_of_def Let_def not_less)
  qed (use mac text_before_mirror [OF P w pos t] in simp_all)
qed

lemma view_mac_split:
  assumes "fsEncryptFileData fs" "sdm_session_keys (nKeys s ! unat (fsSDMFileRead fs)) (picc_of s ctr) = Inr (ek, mk)"
    "aes_valid_key ek" "fsMirrorUID fs" "fsMirrorReadCounter fs"
    and "unat (fsENCOffset fs) = i" "unat (fsENCOffset fs + fsENCLength fs div 2) = i + k" "i + k \<le> length out" "16 dvd k"
    and "put_text (fsENCOffset fs) (hex_upper (cbc_encrypt (aes_encrypt ek)
      (aes_encrypt ek (copy_at 0 (replicate 16 0) (encode_counter ctr))) (slice i (i + k) out))) out = Some out'"
  shows "view_mac fs ctr out s = view_mac (fs\<lparr>fsEncryptFileData := False\<rparr>) ctr out' s"
  using assms by (simp add: view_mac_def picc_of_def Let_def split: sum.splits)

text \<open>File data the plan holds: the zeros of the first half of its hole.\<close>

definition planned_data :: "sdm_options \<Rightarrow> bytes" where
  "planned_data opts = replicate (unat (enc_length opts) div 2) 0x30"

lemma view_mac_planned:
  assumes P: "planned opts hdr n ss" and w: "widths opts \<sigma>" and z: "\<sigma> PhEnc = zeros opts PhEnc"
    and pos: "hole_pos (zeros opts) ss PhMac = Some im" and off: "fsMACOffset fs = at_off n im"
    and enc: "plan_enc opts (hole_pos (zeros opts) ss) n im fs"
    and key: "length (nKeys s ! unat (fsSDMFileRead fs)) = 16" and m: "fsMirrorUID fs" "fsMirrorReadCounter fs"
    and l: "nLRP s = oLRP opts"
  obtains \<sigma>' mac where "view_mac fs ctr (content hdr n ss rest \<sigma>) s = Some (content hdr n ss rest \<sigma>')"
    "widths opts \<sigma>'" "\<sigma>' PhPicc = \<sigma> PhPicc" "\<sigma>' PhUid = \<sigma> PhUid" "\<sigma>' PhCtr = \<sigma> PhCtr"
    "\<sigma>' PhMac = hex_upper mac" "length mac = 8"
    "sdm_mac (nKeys s ! unat (fsSDMFileRead fs)) (picc_of s ctr)
       (case hole_pos (zeros opts) ss PhEnc of None \<Rightarrow> [] | Some ie \<Rightarrow> slice ie im (render \<sigma>' ss)) = Inr mac"
    "hole_pos (zeros opts) ss PhEnc \<noteq> None \<Longrightarrow> \<exists>e. \<sigma>' PhEnc = hex_upper e \<and> e \<noteq> [] \<and>
       decrypt_file_data (nKeys s ! unat (fsSDMFileRead fs)) (picc_of s ctr) e = Inr (planned_data opts)"
proof -
  define k where "k = nKeys s ! unat (fsSDMFileRead fs)"
  note mw = widths_upd [OF _ trans [OF length_hex_upper]]
  from enc [unfolded plan_enc_def] show thesis
  proof (elim disjE exE conjE)
    assume e: "hole_pos (zeros opts) ss PhEnc = None" "\<not> fsEncryptFileData fs" "fsMACInputOffset fs = fsMACOffset fs"
    obtain mac where mac: "length mac = 8"
      "sdm_mac (nKeys s ! unat (fsSDMFileRead fs)) (picc_of s ctr) (slice im im (render (\<sigma>(PhMac := hex_upper mac)) ss)) = Inr mac"
      "view_mac fs ctr (content hdr n ss rest \<sigma>) s = Some (content hdr n ss rest (\<sigma>(PhMac := hex_upper mac)))"
      by (rule mac_step_planned [OF P w pos pos order.refl e(2) _ off key m]) (use e(3) off in simp_all)
    show thesis
      by (rule that [of "\<sigma>(PhMac := hex_upper mac)" mac]) (use mac e w in \<open>auto intro: widths_upd simp: slice_def\<close>)
  next
    fix ie assume ie: "hole_pos (zeros opts) ss PhEnc = Some ie" and lr: "\<not> oLRP opts"
      and e: "fsEncryptFileData fs" "fsENCOffset fs = at_off n ie" "fsENCLength fs = enc_length opts"
        "enc_length opts mod 32 = 0" "fsMACInputOffset fs = at_off n ie" "ie + unat (enc_length opts) \<le> im"
    define h where "h = unat (enc_length opts) div 2"
    have le: "unat (enc_length opts) = 2 * h" "16 dvd h" "h \<noteq> 0"
    proof -
      have "unat (enc_length opts mod 32) = unat (enc_length opts) mod 32" by (simp add: unat_mod_distrib)
      then have "unat (enc_length opts) mod 32 = 0" by (simp only: e(4) unsigned_0)
      then have "32 dvd unat (enc_length opts)" by (simp add: mod_eq_0_iff_dvd)
      moreover have "unat (enc_length opts) \<noteq> 0" using enc_length_nonzero by (simp add: unat_eq_0)
      ultimately show "unat (enc_length opts) = 2 * h" "16 dvd h" "h \<noteq> 0" by (auto simp: h_def elim!: dvdE)
    qed
    have b: "ie + 2 * h \<le> length (render (zeros opts) ss)" "n \<le> ie"
      using hole_pos_bound [OF ie] plannedD(3) [OF P ie] le(1) by simp_all
    have u: "unat (at_off n ie) = 7 + (ie - n)"
      using b plannedD(4) [OF P] by (intro unat_at_off) simp_all
    have half: "unat (fsENCOffset fs + fsENCLength fs div 2) = 7 + (ie - n) + h"
    proof -
      have hh: "unat (enc_length opts div 2) = h" by (simp add: unat_div h_def)
      have "7 + (ie - n) + h < 2 ^ 32" using b plannedD(4) [OF P] by simp
      then show ?thesis using hh u by (simp add: e(2,3) unat_word_ariths)
    qed
    obtain ek mk where sk: "sdm_session_keys k (picc_of s ctr) = Inr (ek, mk)" "length ek = 16"
      using sdm_session_keys_ok key unfolding k_def by blast
    define iv where "iv = aes_encrypt ek (copy_at 0 (replicate 16 0) (encode_counter ctr))"
    have wm: "render \<sigma> ss = render \<sigma> ss" "hole_pos \<sigma> ss PhEnc = Some ie" using widths_pos [OF w] ie by simp_all
    have lc: "length (content hdr n ss rest \<sigma>) = 7 + (length (render (zeros opts) ss) - n) + length rest"
      using plannedD(1) [OF P] widths_length [OF w, of ss] by (simp add: content_def)
    have pd: "slice (7 + (ie - n)) (7 + (ie - n) + h) (content hdr n ss rest \<sigma>) = planned_data opts"
    proof -
      have "slice (7 + (ie - n)) (7 + (ie + h - n)) (content hdr n ss rest \<sigma>) = slice ie (ie + h) (render \<sigma> ss)"
        using b widths_length [OF w, of ss] plannedD(1) [OF P] by (intro slice_content) simp_all
      moreover have "length (\<sigma> PhEnc) = h + h" using z le(1) by simp
      then have "slice ie (ie + h) (render \<sigma> ss) = take h (slice ie (ie + length (\<sigma> PhEnc)) (render \<sigma> ss))"
        by (simp add: slice_def)
      moreover have "take h (slice ie (ie + length (\<sigma> PhEnc)) (render \<sigma> ss)) = planned_data opts"
        unfolding hole_slice [OF wm(2)] using z le(1) by (simp add: zeros_def planned_data_def h_def [symmetric])
      moreover have "7 + (ie + h - n) = 7 + (ie - n) + h" using b by simp
      ultimately show ?thesis by (simp only:)
    qed
    define x where "x = cbc_encrypt (aes_encrypt ek) iv (planned_data opts)"
    have dl: "length (planned_data opts) = h" by (simp add: planned_data_def h_def)
    have ivl: "length iv = 16" using sk(2) by (simp add: iv_def length_aes_encrypt aes_valid_16)
    have xl: "length x = h" using sk(2) ivl dl le(2) by (simp add: x_def aesc.cbc_length aes_valid_16)
    have t: "length (hex_upper x) = ph_width opts PhEnc" using xl le(1) by simp
    have xd: "decrypt_file_data k (picc_of s ctr) x = Inr (planned_data opts)"
    proof -
      have "planned_data opts \<noteq> []" using le(3) dl by auto
      then show ?thesis
        using decrypt_file_data_cbc [of k "picc_of s ctr" "planned_data opts" ek mk] key sk(1) lr l le(2) dl
        by (simp add: x_def iv_def picc_of_def k_def)
    qed
    define \<tau> where "\<tau> = \<sigma>(PhEnc := hex_upper x)"
    have w2: "widths opts \<tau>" unfolding \<tau>_def by (rule widths_upd [OF w t])
    have split: "view_mac fs ctr (content hdr n ss rest \<sigma>) s =
        view_mac (fs\<lparr>fsEncryptFileData := False\<rparr>) ctr (content hdr n ss rest \<tau>) s"
    proof (rule view_mac_split [OF e(1) sk(1) [unfolded k_def] aes_valid_16 [OF sk(2)] m _ half _ le(2)])
      show "unat (fsENCOffset fs) = 7 + (ie - n)" by (simp add: e(2) u)
      show "7 + (ie - n) + h \<le> length (content hdr n ss rest \<sigma>)" using lc b by simp
      show "put_text (fsENCOffset fs) (hex_upper (cbc_encrypt (aes_encrypt ek)
          (aes_encrypt ek (copy_at 0 (replicate 16 0) (encode_counter ctr)))
          (slice (7 + (ie - n)) (7 + (ie - n) + h) (content hdr n ss rest \<sigma>)))) (content hdr n ss rest \<sigma>) =
          Some (content hdr n ss rest \<tau>)"
        unfolding pd e(2) iv_def [symmetric] x_def [symmetric] \<tau>_def by (rule put_mirror [OF P w ie t])
    qed
    obtain mac where mac: "length mac = 8"
      "sdm_mac k (picc_of s ctr) (slice ie im (render (\<tau>(PhMac := hex_upper mac)) ss)) = Inr mac"
      "view_mac (fs\<lparr>fsEncryptFileData := False\<rparr>) ctr (content hdr n ss rest \<tau>) s =
        Some (content hdr n ss rest (\<tau>(PhMac := hex_upper mac)))"
      using mac_step_planned [OF P w2 pos ie _, of "fs\<lparr>fsEncryptFileData := False\<rparr>" s] e(5,6) off key m
      unfolding k_def by auto
    show thesis
    proof (rule that [of "\<tau>(PhMac := hex_upper mac)" mac])
      have "x \<noteq> []" using xl le(3) by auto
      then show "\<exists>e. (\<tau>(PhMac := hex_upper mac)) PhEnc = hex_upper e \<and> e \<noteq> [] \<and>
         decrypt_file_data (nKeys s ! unat (fsSDMFileRead fs)) (picc_of s ctr) e = Inr (planned_data opts)"
        using xd by (auto simp: \<tau>_def k_def)
    qed (use mac ie w2 split in \<open>auto intro: widths_upd simp: \<tau>_def k_def\<close>)
  qed
qed

lemma take_render_low:
  assumes "\<And>p. length (\<sigma> p) = length (\<tau> p)" "\<And>p i. hole_pos \<tau> ss p = Some i \<Longrightarrow> n \<le> i"
  shows "take n (render \<sigma> ss) = take n (render \<tau> ss)"
  using assms(2)
proof (induction ss arbitrary: n)
  case (Cons s ss)
  show ?case
  proof (cases s)
    case (Lit t)
    have "n - length t \<le> i" if "hole_pos \<tau> ss p = Some i" for p i
      using Cons.prems [of p "length t + i"] that Lit by simp
    from Cons.IH [OF this] show ?thesis by (simp add: Lit)
  next
    case (Hole q)
    then have "n = 0" using Cons.prems [of q 0] by simp
    then show ?thesis by simp
  qed
qed simp

section \<open>A read of a planned tag\<close>

text \<open>A file holding a plan: its settings as the card keeps them and its message at the start.\<close>

definition holds_plan :: "n4_file \<Rightarrow> sdm_plan \<Rightarrow> bool" where
  "holds_plan f plan \<longleftrightarrow>
     nfSettings f = (settings_wire (planSettings plan))\<lparr>fsFileType := 0x00, fsFileSize := 256\<rparr> \<and>
     (\<exists>d. length d = 256 \<and> nfData f = copy_at 0 d (planNDEF plan))"

definition uri_header :: "sdm_options \<Rightarrow> seg list \<Rightarrow> nat \<Rightarrow> byte \<Rightarrow> bytes" where
  "uri_header opts ss n c = [0, byteN (5 + (length (render (zeros opts) ss) - n)), 0xD1, 0x01,
       byteN (1 + (length (render (zeros opts) ss) - n)), 0x55, c]"

text \<open>The mirrors a read leaves in the text.\<close>

definition mirrors_ok :: "sdm_options \<Rightarrow> ntag424_state \<Rightarrow> uint32 \<Rightarrow> seg list \<Rightarrow> (placeholder \<Rightarrow> bytes) \<Rightarrow> bool" where
  "mirrors_ok opts s ctr ss \<sigma> \<longleftrightarrow>
     widths opts \<sigma> \<and>
     (hole_pos (zeros opts) ss PhPicc \<noteq> None \<longrightarrow>
        hole_pos (zeros opts) ss PhUid = None \<and> hole_pos (zeros opts) ss PhCtr = None \<and>
        (\<exists>b. \<sigma> PhPicc = hex_upper b \<and> picc_mirrored s ctr (oMetaRead opts) b)) \<and>
     (hole_pos (zeros opts) ss PhPicc = None \<longrightarrow>
        hole_pos (zeros opts) ss PhUid \<noteq> None \<and> hole_pos (zeros opts) ss PhCtr \<noteq> None \<and>
        \<sigma> PhUid = hex_upper (nUID s) \<and> \<sigma> PhCtr = fmt_06X ctr) \<and>
     (hole_pos (zeros opts) ss PhEnc \<noteq> None \<longrightarrow> (\<exists>e. \<sigma> PhEnc = hex_upper e \<and> e \<noteq> [] \<and>
        decrypt_file_data (nKeys s ! unat (oFileRead opts)) (picc_of s ctr) e = Inr (planned_data opts))) \<and>
     (\<exists>im mac. hole_pos (zeros opts) ss PhMac = Some im \<and> \<sigma> PhMac = hex_upper mac \<and> length mac = 8 \<and>
        (\<forall>ie. hole_pos (zeros opts) ss PhEnc = Some ie \<longrightarrow> ie \<le> im) \<and>
        sdm_mac (nKeys s ! unat (oFileRead opts)) (picc_of s ctr)
          (case hole_pos (zeros opts) ss PhEnc of None \<Rightarrow> [] | Some ie \<Rightarrow> slice ie im (render \<sigma> ss)) = Inr mac)"

lemma view_planned:
  assumes plan: "plan_sdm (template ss) opts = Inr plan" "plain_segs ss" and f: "holds_plan f plan"
    and k: "keys_ok (nKeys s)" and uid: "length (nUID s) = 7" and l: "nLRP s = oLRP opts"
    and c: "nSDMCurrent (count_read s) < 0x1000000"
  obtains n code \<sigma> rest r where "n \<le> length (render \<sigma> ss)" "length (render \<sigma> ss) - n \<le> 249"
    "uri_prefix_of (render (zeros opts) ss) = (code, take n (render \<sigma> ss))"
    "view 0x02 f s = Some (content (uri_header opts ss n code) n ss rest \<sigma>, (count_read s)\<lparr>nRandom := r\<rparr>)"
    "mirrors_ok opts s (nSDMCurrent (count_read s)) ss \<sigma>"
proof -
  obtain n code where p: "distinct (holes ss)" "plan_check opts (hole_pos (zeros opts) ss) = None"
    "uri_prefix_of (render (zeros opts) ss) = (code, take n (render (zeros opts) ss))"
    "n \<le> length (render (zeros opts) ss)" "length (render (zeros opts) ss) - n \<le> 249"
    "plan_settings opts (hole_pos (zeros opts) ss) n = Inr (planSettings plan)"
    "planNDEF plan = [0, byteN (5 + (length (render (zeros opts) ss) - n)), 0xD1, 0x01,
       byteN (1 + (length (render (zeros opts) ss) - n)), 0x55, code] @ drop n (render (zeros opts) ss)"
    "\<And>p i. hole_pos (zeros opts) ss p = Some i \<Longrightarrow> n \<le> i"
    by (rule plan_sdm_facts [OF plan]) (rule that)
  define hdr where "hdr = uri_header opts ss n code"
  have P: "planned opts hdr n ss" using p(1,5,8) by (auto simp: planned_def hdr_def uri_header_def)
  obtain d where d: "length d = 256" "nfData f = copy_at 0 d (planNDEF plan)" using f by (auto simp: holds_plan_def)
  define rest where "rest = drop (length (planNDEF plan)) d"
  have nl: "length (planNDEF plan) \<le> 256" using plan_accepted [OF plan(1)] by simp
  have data: "nfData f = content hdr n ss rest (zeros opts)"
    using nl d p(7) by (simp add: copy_at_fits content_def rest_def hdr_def uri_header_def)
  define fs where "fs = nfSettings f"
  have fs: "fs = (planSettings plan)\<lparr>fsFileType := 0x00, fsFileSize := 256\<rparr>"
    using f plan_accepted [OF plan(1)] by (simp add: fs_def holds_plan_def)
  obtain im where im: "hole_pos (zeros opts) ss PhMac = Some im" "fsMACOffset fs = at_off n im"
    and b: "fsSDMEnabled fs" "fsMirrorUID fs" "fsMirrorReadCounter fs" "fsSDMFileRead fs = oFileRead opts" "oFileRead opts \<le> 4"
    and meta: "plan_meta opts (hole_pos (zeros opts) ss) n fs" and enc: "plan_enc opts (hole_pos (zeros opts) ss) n im fs"
    by (rule plan_settings_shape [OF p(2,6)]) (rule that; simp add: fs plan_meta_def plan_enc_def)
  have key: "length (nKeys s ! unat (fsSDMFileRead fs)) = 16" using keys_okD [OF k b(5)] b(4) by simp
  define s1 where "s1 = count_read s"
  define ctr where "ctr = nSDMCurrent s1"
  have s1: "nKeys s1 = nKeys s" "nUID s1 = nUID s" "nLRP s1 = nLRP s" by (simp_all add: s1_def count_read_def)
  have w0: "widths opts (zeros opts)" by (simp add: widths_def)
  have k1: "keys_ok (nKeys s1)" and u1: "length (nUID s1) = 7" and l1: "nLRP s1 = oLRP opts" and c1: "ctr < 0x1000000"
    using k uid l c by (simp_all add: s1 ctr_def s1_def [symmetric])
  obtain \<sigma> r where v1: "view_picc fs ctr (content hdr n ss rest (zeros opts)) s1 = Some ((True, content hdr n ss rest \<sigma>), s1\<lparr>nRandom := r\<rparr>)"
    and w: "widths opts \<sigma>" "\<sigma> PhEnc = zeros opts PhEnc"
    and m1: "hole_pos (zeros opts) ss PhPicc \<noteq> None \<Longrightarrow> \<exists>b. \<sigma> PhPicc = hex_upper b \<and> picc_mirrored s1 ctr (oMetaRead opts) b"
      "hole_pos (zeros opts) ss PhPicc = None \<Longrightarrow> \<sigma> PhUid = hex_upper (nUID s1) \<and> \<sigma> PhCtr = fmt_06X ctr"
    by (rule view_picc_planned [OF P w0 meta b(2,3) k1 u1 l1 c1]) (rule that)
  let ?s2 = "s1\<lparr>nRandom := r\<rparr>"
  have key2: "length (nKeys ?s2 ! unat (fsSDMFileRead fs)) = 16" and l2: "nLRP ?s2 = oLRP opts"
    using key l1 s1 by simp_all
  have po: "picc_of ?s2 ctr = picc_of s ctr" by (simp add: picc_of_def s1)
  obtain \<sigma>' mac where v2: "view_mac fs ctr (content hdr n ss rest \<sigma>) ?s2 = Some (content hdr n ss rest \<sigma>')"
    and w': "widths opts \<sigma>'" "\<sigma>' PhPicc = \<sigma> PhPicc" "\<sigma>' PhUid = \<sigma> PhUid" "\<sigma>' PhCtr = \<sigma> PhCtr"
    and mac: "\<sigma>' PhMac = hex_upper mac" "length mac = 8"
     "sdm_mac (nKeys s ! unat (oFileRead opts)) (picc_of s ctr)
       (case hole_pos (zeros opts) ss PhEnc of None \<Rightarrow> [] | Some ie \<Rightarrow> slice ie im (render \<sigma>' ss)) = Inr mac"
    and e: "hole_pos (zeros opts) ss PhEnc \<noteq> None \<Longrightarrow> \<exists>e. \<sigma>' PhEnc = hex_upper e \<and> e \<noteq> [] \<and>
       decrypt_file_data (nKeys s ! unat (oFileRead opts)) (picc_of s ctr) e = Inr (planned_data opts)"
    by (rule view_mac_planned [OF P w im enc key2 b(2,3) l2, of ctr rest])
      (rule that; simp add: po b(4) s1 [symmetric])
  have lr: "length (render \<sigma>' ss) = length (render (zeros opts) ss)" by (rule widths_length [OF w'(1)])
  have tk: "take n (render \<sigma>' ss) = take n (render (zeros opts) ss)"
    by (rule take_render_low) (use w'(1) p(8) in \<open>auto simp: widths_def\<close>)
  show thesis
  proof (rule that [of n \<sigma>' code rest r])
    have sv: "view 0x02 f s = Some (content hdr n ss rest \<sigma>', s1\<lparr>nRandom := r\<rparr>)"
      using b(1,4) leD [OF b(5)] v1 v2 by (simp add: view_def fs_def [symmetric] s1_def [symmetric] ctr_def [symmetric] data Let_def)
    then show "view 0x02 f s = Some (content (uri_header opts ss n code) n ss rest \<sigma>', (count_read s)\<lparr>nRandom := r\<rparr>)"
      by (simp add: hdr_def s1_def)
    have pm: "picc_mirrored s1 ctr (oMetaRead opts) b = picc_mirrored s ctr (oMetaRead opts) b" for b
      by (simp add: picc_mirrored_def picc_of_def s1)
    have h: "hole_pos (zeros opts) ss PhPicc = None \<Longrightarrow> hole_pos (zeros opts) ss PhUid \<noteq> None \<and> hole_pos (zeros opts) ss PhCtr \<noteq> None"
      using plan_check_None(3) [OF p(2)] by blast
    have h': "hole_pos (zeros opts) ss PhPicc \<noteq> None \<Longrightarrow> hole_pos (zeros opts) ss PhUid = None \<and> hole_pos (zeros opts) ss PhCtr = None"
      using plan_check_None(2) [OF p(2)] by blast
    have ord: "ie \<le> im" if "hole_pos (zeros opts) ss PhEnc = Some ie" for ie
      using enc that by (auto simp: plan_enc_def)
    show "mirrors_ok opts s (nSDMCurrent (count_read s)) ss \<sigma>'"
      unfolding mirrors_ok_def s1_def [symmetric] ctr_def [symmetric]
      using w'(1) m1 [unfolded pm s1 w'(2,3,4) [symmetric]] h h' e im(1) mac ord by blast
  qed (use p lr tk in simp_all)
qed

end
