(* ===== verification/TapVerify.thy ===== *)
theory TapVerify
  imports SdmTap
begin

text \<open>
  From the file a planned tag serves to the verified tap: the URI record in it decodes to the
  template with its mirrors filled in, the parser of \<open>url.go\<close> finds the mirrors and the text the
  MAC covers, and verification recovers the tag's UID, counter and file data.
\<close>

section \<open>Templates written as a URL with query fields\<close>

fun tail_segs :: "(bytes \<times> seg) list \<Rightarrow> seg list" where
  "tail_segs [] = []"
| "tail_segs ((k, x) # fs) = Lit (0x26 # k @ [0x3D]) # x # tail_segs fs"

fun url_segs :: "bytes \<Rightarrow> (bytes \<times> seg) list \<Rightarrow> seg list" where
  "url_segs base [] = [Lit (base @ [0x3F])]"
| "url_segs base ((k, x) # fs) = Lit (base @ 0x3F # k @ [0x3D]) # x # tail_segs fs"

definition field_values :: "(placeholder \<Rightarrow> bytes) \<Rightarrow> (bytes \<times> seg) list \<Rightarrow> (bytes \<times> bytes) list" where
  "field_values \<sigma> fs = map (\<lambda>f. (fst f, seg_value \<sigma> (snd f))) fs"

definition brace_free :: "bytes \<Rightarrow> bool" where
  "brace_free t \<longleftrightarrow> 0x7B \<notin> set t"

text \<open>Field names and literal values that stand for themselves in a query and in a template.\<close>

fun plain_value :: "seg \<Rightarrow> bool" where
  "plain_value (Lit t) \<longleftrightarrow> clean t \<and> brace_free t"
| "plain_value (Hole p) \<longleftrightarrow> True"

definition url_template_ok :: "bytes \<Rightarrow> (bytes \<times> seg) list \<Rightarrow> bool" where
  "url_template_ok base fs \<longleftrightarrow>
     brace_free base \<and> 0x3F \<notin> set base \<and> 0x23 \<notin> set base \<and> distinct (map fst fs) \<and>
     list_all (\<lambda>f. fst f \<noteq> [] \<and> clean (fst f) \<and> brace_free (fst f) \<and> plain_value (snd f)) fs"

lemma render_tail: "render \<sigma> (tail_segs fs) = tail_fields (field_values \<sigma> fs)"
  by (induction fs rule: tail_segs.induct) (simp_all add: field_values_def field_text_def)

lemma render_url: "render \<sigma> (url_segs base fs) = base @ 0x3F # join_fields (field_values \<sigma> fs)"
  by (cases fs) (auto simp: render_tail field_values_def field_text_def)

lemma plain_url: "url_template_ok base fs \<Longrightarrow> plain_segs (url_segs base fs)"
proof -
  assume ok: "url_template_ok base fs"
  have v: "plain_segs (x # ss) \<longleftrightarrow> plain_segs ss" if "plain_value x" for x ss
    using that by (cases x) (simp_all add: brace_free_def)
  have t: "plain_segs (tail_segs gs)" if "list_all (\<lambda>f. brace_free (fst f) \<and> plain_value (snd f)) gs" for gs
    using that by (induction gs rule: tail_segs.induct) (simp_all add: v brace_free_def)
  show ?thesis
    using ok by (cases fs) (auto simp: url_template_ok_def brace_free_def v list_all_iff intro!: t)
qed

lemma tail_hole:
  assumes "(k, Hole p) \<in> set fs" "distinct (map fst fs)" "distinct (holes (tail_segs fs))"
  shows "\<exists>j. field_pos (field_values \<sigma> fs) k = Some j \<and> hole_pos \<sigma> (tail_segs fs) p = Some (1 + j)"
  using assms
proof (induction fs rule: tail_segs.induct)
  case (2 k' x fs)
  show ?case
  proof (cases "(k, Hole p) = (k', x)")
    case True
    then show ?thesis by (auto simp: field_values_def)
  next
    case False
    then have m: "(k, Hole p) \<in> set fs" using 2 by auto
    then have k: "k \<noteq> k'" using 2(3) by force
    have h: "distinct (holes (tail_segs fs))" "p \<in> set (holes (tail_segs fs))"
    proof -
      show "distinct (holes (tail_segs fs))" using 2(4) by (cases x) simp_all
      have "p \<in> set (holes (tail_segs gs))" if "(k, Hole p) \<in> set gs" for gs
        using that
      proof (induction gs rule: tail_segs.induct)
        case (2 k'' y gs)
        then show ?case by (cases y) auto
      qed simp
      with m show "p \<in> set (holes (tail_segs fs))" by blast
    qed
    obtain j where j: "field_pos (field_values \<sigma> fs) k = Some j" "hole_pos \<sigma> (tail_segs fs) p = Some (1 + j)"
      using 2(1) [OF m _ h(1)] 2(3) by auto
    have "x \<noteq> Hole p" using 2(4) h(2) by (cases x) auto
    then show ?thesis using j k by (cases x) (auto simp: field_values_def)
  qed
qed simp

lemma url_hole:
  assumes "(k, Hole p) \<in> set fs" "distinct (map fst fs)" "distinct (holes (url_segs base fs))"
  shows "\<exists>j. field_pos (field_values \<sigma> fs) k = Some j \<and> hole_pos \<sigma> (url_segs base fs) p = Some (length base + 1 + j)"
proof -
  obtain k' x gs where fs: "fs = (k', x) # gs" using assms(1) by (cases fs) auto
  have h: "hole_pos \<sigma> (url_segs base fs) p = map_option (\<lambda>i. length base + i) (hole_pos \<sigma> (tail_segs fs) p)"
    unfolding fs by (cases x) (auto simp: option.map_comp o_def ac_simps)
  have "distinct (holes (tail_segs fs))" using assms(3) unfolding fs by (cases x) simp_all
  from tail_hole [OF assms(1,2) this, of \<sigma>] h show ?thesis by auto
qed

lemma url_holes: "p \<in> set (holes (url_segs base fs)) \<longleftrightarrow> Hole p \<in> snd ` set fs"
proof -
  have t: "p \<in> set (holes (tail_segs gs)) \<longleftrightarrow> Hole p \<in> snd ` set gs" for gs
  proof (induction gs rule: tail_segs.induct)
    case (2 k x gs)
    then show ?case by (cases x) auto
  qed simp
  show ?thesis
  proof (cases fs)
    case (Cons f gs)
    obtain k x where f: "f = (k, x)" by (cases f)
    show ?thesis using t [of gs] by (cases x) (auto simp: Cons f)
  qed simp
qed

section \<open>Reading the mirrors back\<close>

definition param :: "(bytes \<times> seg) list \<Rightarrow> bytes list \<Rightarrow> seg option" where
  "param fs l = (case find (\<lambda>n. n \<in> fst ` set fs) l of None \<Rightarrow> None | Some n \<Rightarrow> map_of fs n)"

text \<open>The names a URL is read with find each mirror of the template and take nothing else for one.\<close>

definition names_fit :: "(bytes \<times> seg) list \<Rightarrow> names \<Rightarrow> bool" where
  "names_fit fs ns \<longleftrightarrow>
     list_all clean (nmEncFileData ns) \<and> list_all clean (nmMAC ns) \<and>
     list_all (\<lambda>(l, p). param fs l = (if Hole p \<in> snd ` set fs then Some (Hole p) else None))
       [(nmPICCData ns, PhPicc), (nmEncFileData ns, PhEnc), (nmMAC ns, PhMac), (nmUID ns, PhUid), (nmCounter ns, PhCtr)]"

lemma fst_field_values [simp]: "fst ` set (field_values \<sigma> fs) = fst ` set fs"
  by (force simp: field_values_def)

lemma map_of_field_values: "map_of (field_values \<sigma> fs) k = map_option (seg_value \<sigma>) (map_of fs k)"
  by (induction fs) (auto simp: field_values_def)

lemma param_Some:
  assumes "param fs l = Some x"
  obtains k where "find (\<lambda>n. n \<in> fst ` set fs) l = Some k" "map_of fs k = Some x" "(k, x) \<in> set fs"
  using assms by (auto simp: param_def map_of_SomeD split: option.splits)

lemma param_None: "param fs l = None \<Longrightarrow> find (\<lambda>n. n \<in> fst ` set fs) l = None"
  by (auto simp: param_def map_of_eq_None_iff find_Some_iff split: option.splits)

lemma hex_param_field:
  assumes "param fs l = Some (Hole p)" "\<sigma> p = hex_upper b" "b \<noteq> []" "w = 0 \<or> length b = w"
  shows "hex_param (field_values \<sigma> fs) l w = Inr b"
proof -
  obtain k where k: "find (\<lambda>n. n \<in> fst ` set fs) l = Some k" "map_of fs k = Some (Hole p)"
    using param_Some [OF assms(1)] by metis
  have "hex_upper b \<noteq> []" using assms(3) by (metis length_hex_upper length_0_conv mult_eq_0_iff zero_neq_numeral)
  then show ?thesis
    using k assms by (intro hex_param_first [where n = k and v = "hex_upper b"]) (simp_all add: map_of_field_values)
qed

lemma hex_param_none: "param fs l = None \<Longrightarrow> hex_param (field_values \<sigma> fs) l w = Inr []"
  by (rule hex_param_absent) (simp add: param_None)

lemma value_offset_field:
  assumes "param fs l = Some (Hole p)" "list_all clean l" "fields_ok (field_values \<sigma> fs)"
    and "distinct (map fst fs)" "distinct (holes (url_segs base fs))"
  shows "\<exists>j. value_offset (join_fields (field_values \<sigma> fs)) l = Some j \<and>
    hole_pos \<sigma> (url_segs base fs) p = Some (length base + 1 + j)"
proof -
  obtain k where k: "find (\<lambda>n. n \<in> fst ` set fs) l = Some k" "(k, Hole p) \<in> set fs"
    using param_Some [OF assms(1)] by metis
  then have ne: "field_values \<sigma> fs \<noteq> []" by (auto simp: field_values_def)
  show ?thesis
    using value_offset_fields [OF assms(3) ne assms(2)] url_hole [OF k(2) assms(4,5), of \<sigma>] k(1) by auto
qed

lemma slice_shift: "slice (length a + i) (length a + j) (a @ b) = slice i j b"
  by (simp add: slice_def)

text \<open>The mirrors of a read, by which holes the template has.\<close>

lemma hole_in: "hole_pos \<sigma> (url_segs base fs) p \<noteq> None \<longleftrightarrow> Hole p \<in> snd ` set fs"
  using hole_pos_None [of \<sigma> "url_segs base fs" p] by (simp add: url_holes)

lemma tap_mirrors:
  assumes "mirrors_ok opts s ctr (url_segs base fs) \<sigma>" "ctr < 0x1000000"
  shows "\<exists>mac. \<sigma> PhMac = hex_upper mac \<and> length mac = 8" "Hole PhMac \<in> snd ` set fs"
    "Hole PhPicc \<in> snd ` set fs \<Longrightarrow> Hole PhUid \<notin> snd ` set fs \<and> Hole PhCtr \<notin> snd ` set fs \<and>
       (\<exists>b. \<sigma> PhPicc = hex_upper b \<and> (length b = 16 \<or> length b = 24))"
    "Hole PhPicc \<notin> snd ` set fs \<Longrightarrow> Hole PhUid \<in> snd ` set fs \<and> Hole PhCtr \<in> snd ` set fs \<and>
       \<sigma> PhUid = hex_upper (nUID s) \<and>
       \<sigma> PhCtr = hex_upper [ucast (drop_bit 16 ctr), ucast (drop_bit 8 ctr), ucast ctr]"
    "Hole PhEnc \<in> snd ` set fs \<Longrightarrow> \<exists>e. \<sigma> PhEnc = hex_upper e \<and> e \<noteq> []"
proof -
  note m = assms(1) [unfolded mirrors_ok_def hole_in]
  show "\<exists>mac. \<sigma> PhMac = hex_upper mac \<and> length mac = 8" using m by blast
  show "Hole PhMac \<in> snd ` set fs" using m hole_in [of "zeros opts" base fs PhMac] by auto
  show "Hole PhPicc \<in> snd ` set fs \<Longrightarrow> Hole PhUid \<notin> snd ` set fs \<and> Hole PhCtr \<notin> snd ` set fs \<and>
       (\<exists>b. \<sigma> PhPicc = hex_upper b \<and> (length b = 16 \<or> length b = 24))"
    using m hole_in [of "zeros opts" base fs] unfolding picc_mirrored_def by (metis (no_types, lifting))
  show "Hole PhPicc \<notin> snd ` set fs \<Longrightarrow> Hole PhUid \<in> snd ` set fs \<and> Hole PhCtr \<in> snd ` set fs \<and>
       \<sigma> PhUid = hex_upper (nUID s) \<and>
       \<sigma> PhCtr = hex_upper [ucast (drop_bit 16 ctr), ucast (drop_bit 8 ctr), ucast ctr]"
    using m hole_in [of "zeros opts" base fs] unfolding fmt_06X_small [OF assms(2)] by blast
  show "Hole PhEnc \<in> snd ` set fs \<Longrightarrow> \<exists>e. \<sigma> PhEnc = hex_upper e \<and> e \<noteq> []"
    using m by blast
qed

lemma tap_query:
  assumes t: "url_template_ok base fs" and m: "mirrors_ok opts s ctr (url_segs base fs) \<sigma>" and c: "ctr < 0x1000000"
  shows "fields_ok (field_values \<sigma> fs)"
    "raw_query (render \<sigma> (url_segs base fs)) = join_fields (field_values \<sigma> fs)"
    "parse_query (join_fields (field_values \<sigma> fs)) = field_values \<sigma> fs"
proof -
  note mt = tap_mirrors [OF m c]
  have cl: "clean (\<sigma> p)" if "Hole p \<in> snd ` set fs" for p
  proof -
    have "\<exists>b. \<sigma> p = hex_upper b" using that mt by (cases p) blast+
    then show ?thesis by auto
  qed
  have "clean (seg_value \<sigma> x)" if "(k, x) \<in> set fs" for k x
  proof (cases x)
    case (Lit l)
    with t that show ?thesis by (auto simp: url_template_ok_def list_all_iff)
  next
    case (Hole p)
    have "Hole p \<in> snd ` set fs" using that Hole by force
    then show ?thesis using cl Hole by simp
  qed
  then show fok: "fields_ok (field_values \<sigma> fs)"
    using t by (fastforce simp: fields_ok_def field_values_def list_all_iff url_template_ok_def)
  show "raw_query (render \<sigma> (url_segs base fs)) = join_fields (field_values \<sigma> fs)"
    unfolding render_url using t hash_not_in_fields [OF fok]
    by (intro raw_query_fields) (simp_all add: url_template_ok_def)
  have "list_all (\<lambda>f. fst f \<noteq> []) (field_values \<sigma> fs)"
    using t by (simp add: url_template_ok_def field_values_def list_all_iff)
  then show "parse_query (join_fields (field_values \<sigma> fs)) = field_values \<sigma> fs" by (rule parse_query_join [OF fok])
qed

text \<open>The text the MAC covers, in the query and in the file.\<close>

definition covered :: "seg list \<Rightarrow> (placeholder \<Rightarrow> bytes) \<Rightarrow> bytes" where
  "covered ss \<sigma> =
     (case (hole_pos \<sigma> ss PhEnc, hole_pos \<sigma> ss PhMac) of
        (Some ie, Some im) \<Rightarrow> slice ie im (render \<sigma> ss) | _ \<Rightarrow> [])"

lemma tap_mac_text:
  assumes t: "url_template_ok base fs" and m: "mirrors_ok opts s ctr (url_segs base fs) \<sigma>" and c: "ctr < 0x1000000"
    and d: "distinct (holes (url_segs base fs))"
    and n: "param fs (nmEncFileData ns) = Some (Hole PhEnc)" "param fs (nmMAC ns) = Some (Hole PhMac)"
      "list_all clean (nmEncFileData ns)" "list_all clean (nmMAC ns)"
  shows "mac_text (join_fields (field_values \<sigma> fs)) ns = Inr (covered (url_segs base fs) \<sigma>)"
proof -
  let ?q = "field_values \<sigma> fs" and ?ss = "url_segs base fs"
  have dn: "distinct (map fst fs)" using t by (simp add: url_template_ok_def)
  note fok = tap_query(1) [OF t m c]
  have w: "widths opts \<sigma>" using m by (simp add: mirrors_ok_def)
  obtain je where je: "value_offset (join_fields ?q) (nmEncFileData ns) = Some je"
    "hole_pos \<sigma> ?ss PhEnc = Some (length base + 1 + je)"
    using value_offset_field [OF n(1,3) fok dn d] by blast
  obtain jm where jm: "value_offset (join_fields ?q) (nmMAC ns) = Some jm"
    "hole_pos \<sigma> ?ss PhMac = Some (length base + 1 + jm)"
    using value_offset_field [OF n(2,4) fok dn d] by blast
  have "length base + 1 + je \<le> length base + 1 + jm"
    using m je(2) jm(2) unfolding mirrors_ok_def widths_pos [OF w] by auto
  then have "mac_text (join_fields ?q) ns = Inr (slice je jm (join_fields ?q))"
    by (simp add: mac_text_def je(1) jm(1))
  moreover have "covered ?ss \<sigma> = slice je jm (join_fields ?q)"
    unfolding covered_def je(2) jm(2) render_url
    using slice_shift [of "base @ [0x3F]" je jm "join_fields ?q"] by simp
  ultimately show ?thesis by simp
qed

text \<open>What \<open>ParseURL\<close> makes of the URL in a read with these mirrors.\<close>

definition tap_data :: "ntag424_state \<Rightarrow> uint32 \<Rightarrow> bytes \<Rightarrow> (bytes \<times> seg) list \<Rightarrow> (placeholder \<Rightarrow> bytes) \<Rightarrow> url_data" where
  "tap_data s ctr base fs \<sigma> =
     (let val = (\<lambda>p. if Hole p \<in> snd ` set fs then the (hex_decode (\<sigma> p)) else []);
          plain = Hole PhPicc \<notin> snd ` set fs
      in \<lparr>uPICCData = val PhPicc, uUID = (if plain then nUID s else []), uCounter = (if plain then ctr else 0),
          uHasPlain = plain, uEncFileData = val PhEnc, uMAC = val PhMac,
          uMACInput = covered (url_segs base fs) \<sigma>\<rparr>)"

lemma parse_tap_url:
  assumes t: "url_template_ok base fs" "names_fit fs ns" and d: "distinct (holes (url_segs base fs))"
    and m: "mirrors_ok opts s ctr (url_segs base fs) \<sigma>" and uid: "length (nUID s) = 7" and c: "ctr < 0x1000000"
    and acc: "accepts (render \<sigma> (url_segs base fs))"
  shows "parse_url_with accepts (render \<sigma> (url_segs base fs)) ns = Inr (tap_data s ctr base fs \<sigma>)"
proof -
  let ?q = "field_values \<sigma> fs" and ?has = "\<lambda>p. Hole p \<in> snd ` set fs"
  note mt = tap_mirrors [OF m c] and tq = tap_query [OF t(1) m c]
  define val where "val = (\<lambda>p. if ?has p then the (hex_decode (\<sigma> p)) else [])"
  have names: "param fs (nmMAC ns) = Some (Hole PhMac)"
    "param fs (nmPICCData ns) = (if ?has PhPicc then Some (Hole PhPicc) else None)"
    "param fs (nmEncFileData ns) = (if ?has PhEnc then Some (Hole PhEnc) else None)"
    "param fs (nmUID ns) = (if ?has PhUid then Some (Hole PhUid) else None)"
    "param fs (nmCounter ns) = (if ?has PhCtr then Some (Hole PhCtr) else None)"
    "list_all clean (nmEncFileData ns)" "list_all clean (nmMAC ns)"
    using t(2) mt(2) by (simp_all add: names_fit_def)
  have read: "hex_param ?q l w = Inr (val p)"
    if "param fs l = (if ?has p then Some (Hole p) else None)" "?has p \<Longrightarrow> \<sigma> p = hex_upper b \<and> b \<noteq> []" "w = 0 \<or> length b = w"
    for l p b w
    using that hex_param_field [where p = p and \<sigma> = \<sigma> and l = l and b = b and w = w]
      hex_param_none [of fs l \<sigma> w] by (auto simp: val_def)
  obtain mac where mac: "\<sigma> PhMac = hex_upper mac" "length mac = 8" using mt(1) by blast
  have mac_n: "mac \<noteq> []" using mac(2) by auto
  have mac_p: "hex_param ?q (nmMAC ns) 8 = Inr (val PhMac)" "val PhMac = mac"
    using read [of "nmMAC ns" PhMac mac 8] names(1) mac mac_n mt(2) by (auto simp: val_def)
  obtain e where e: "?has PhEnc \<Longrightarrow> \<sigma> PhEnc = hex_upper e \<and> e \<noteq> []" using mt(5) by blast
  have enc_p: "hex_param ?q (nmEncFileData ns) 0 = Inr (val PhEnc)" "val PhEnc \<noteq> [] \<longleftrightarrow> ?has PhEnc"
    using read [OF names(3) e, of 0] e by (auto simp: val_def)
  have inp: "(if val PhEnc \<noteq> [] then mac_text (join_fields ?q) ns else Inr []) = Inr (covered (url_segs base fs) \<sigma>)"
  proof (cases "?has PhEnc")
    case True
    then show ?thesis using tap_mac_text [OF t(1) m c d _ names(1,6,7)] names(3) enc_p(2) by simp
  next
    case False
    then have "hole_pos \<sigma> (url_segs base fs) PhEnc = None" using hole_in by blast
    then show ?thesis using False enc_p(2) by (simp add: covered_def)
  qed
  have picc_p: "hex_param ?q (nmPICCData ns) 0 = Inr (val PhPicc)"
    "?has PhPicc \<Longrightarrow> length (val PhPicc) = 16 \<or> length (val PhPicc) = 24"
  proof -
    obtain b where b: "?has PhPicc \<Longrightarrow> \<sigma> PhPicc = hex_upper b \<and> (length b = 16 \<or> length b = 24)" using mt(3) by blast
    then have "?has PhPicc \<Longrightarrow> \<sigma> PhPicc = hex_upper b \<and> b \<noteq> []" by auto
    from read [OF names(2) this, of 0] show "hex_param ?q (nmPICCData ns) 0 = Inr (val PhPicc)" by simp
    show "?has PhPicc \<Longrightarrow> length (val PhPicc) = 16 \<or> length (val PhPicc) = 24" using b by (auto simp: val_def)
  qed
  have plain: "plain_mirrors ?q ns = Inr (nUID s, ctr, True)" if "\<not> ?has PhPicc"
  proof -
    note mc = mt(4) [OF that]
    have "nUID s \<noteq> []" using uid by auto
    then have "hex_param ?q (nmUID ns) 7 = Inr (nUID s)"
      "hex_param ?q (nmCounter ns) 3 = Inr [ucast (drop_bit 16 ctr), ucast (drop_bit 8 ctr), ucast ctr]"
      using mc uid read [OF names(4), of "nUID s" 7]
        read [OF names(5), of "[ucast (drop_bit 16 ctr), ucast (drop_bit 8 ctr), ucast ctr]" 3]
      by (auto simp: val_def)
    then show ?thesis using uid fold_counter [OF c] by (simp add: plain_mirrors_def)
  qed
  have empty: "val PhPicc = [] \<longleftrightarrow> \<not> ?has PhPicc"
  proof (cases "?has PhPicc")
    case True
    from picc_p(2) [OF this] True show ?thesis by auto
  qed (simp add: val_def)
  show ?thesis
    unfolding parse_url_with_def Let_def tq(2,3) mac_p(1) enc_p(1) picc_p(1) bindE_Inr length_greater_0_conv inp
    using acc mac_p(2) mac(2) picc_p(2) plain empty
    by (cases "?has PhPicc") (auto simp: tap_data_def val_def [symmetric] Let_def)
qed

section \<open>Verification\<close>

definition tap_keys :: "sdm_options \<Rightarrow> ntag424_state \<Rightarrow> sdm_keys" where
  "tap_keys opts s = \<lparr>kMetaRead = nKeys s ! unat (oMetaRead opts), kFileRead = nKeys s ! unat (oFileRead opts),
     kLRP = nLRP s\<rparr>"

lemma tap_picc:
  assumes m: "mirrors_ok opts s ctr (url_segs base fs) \<sigma>" and uid: "length (nUID s) = 7"
  shows "picc_data_for (tap_data s ctr base fs \<sigma>) (tap_keys opts s) = Inr (picc_of s ctr)"
proof (cases "Hole PhPicc \<in> snd ` set fs")
  case True
  then obtain b where b: "\<sigma> PhPicc = hex_upper b" "picc_mirrored s ctr (oMetaRead opts) b"
    using m hole_in [of "zeros opts" base fs PhPicc] unfolding mirrors_ok_def by blast
  then have "uPICCData (tap_data s ctr base fs \<sigma>) = b" using True by (simp add: tap_data_def Let_def)
  moreover have "b \<noteq> []" using b(2) by (auto simp: picc_mirrored_def split: if_splits)
  ultimately show ?thesis
    using b(2) by (cases "nLRP s") (simp_all add: picc_data_for_def tap_keys_def picc_mirrored_def)
next
  case False
  then have "uPICCData (tap_data s ctr base fs \<sigma>) = []" "uHasPlain (tap_data s ctr base fs \<sigma>)"
    "uUID (tap_data s ctr base fs \<sigma>) = nUID s" "uCounter (tap_data s ctr base fs \<sigma>) = ctr"
    by (simp_all add: tap_data_def Let_def)
  moreover have "nUID s \<noteq> []" using uid by auto
  ultimately show ?thesis by (simp add: picc_data_for_def picc_of_def tap_keys_def)
qed

lemma verify_tap:
  assumes m: "mirrors_ok opts s ctr (url_segs base fs) \<sigma>" and uid: "length (nUID s) = 7" and c: "ctr < 0x1000000"
  shows "verify_data (tap_data s ctr base fs \<sigma>) (tap_keys opts s) =
    Inr \<lparr>tUID = nUID s, tReadCounter = ctr,
         tFileData = (if Hole PhEnc \<in> snd ` set fs then planned_data opts else [])\<rparr>"
proof -
  let ?d = "tap_data s ctr base fs \<sigma>"
  have w: "widths opts \<sigma>" using m by (simp add: mirrors_ok_def)
  obtain im mac where im: "hole_pos (zeros opts) (url_segs base fs) PhMac = Some im" "\<sigma> PhMac = hex_upper mac"
    "sdm_mac (nKeys s ! unat (oFileRead opts)) (picc_of s ctr)
      (case hole_pos (zeros opts) (url_segs base fs) PhEnc of None \<Rightarrow> []
       | Some ie \<Rightarrow> slice ie im (render \<sigma> (url_segs base fs))) = Inr mac"
    using m unfolding mirrors_ok_def by blast
  have cov: "covered (url_segs base fs) \<sigma> = (case hole_pos (zeros opts) (url_segs base fs) PhEnc of None \<Rightarrow> []
       | Some ie \<Rightarrow> slice ie im (render \<sigma> (url_segs base fs)))"
    using im(1) by (simp add: covered_def widths_pos [OF w] split: option.splits)
  have "uMAC ?d = mac" "uMACInput ?d = covered (url_segs base fs) \<sigma>"
    using tap_mirrors(2) [OF m c] im(2) by (simp_all add: tap_data_def Let_def)
  then have v: "verify_mac (kFileRead (tap_keys opts s)) (picc_of s ctr) (uMACInput ?d) (uMAC ?d) = Inr ()"
    using im(3) by (simp add: verify_mac_iff tap_keys_def cov)
  show ?thesis
  proof (cases "Hole PhEnc \<in> snd ` set fs")
    case True
    then obtain e where e: "\<sigma> PhEnc = hex_upper e" "e \<noteq> []"
      "decrypt_file_data (nKeys s ! unat (oFileRead opts)) (picc_of s ctr) e = Inr (planned_data opts)"
      using m hole_in [of "zeros opts" base fs PhEnc] unfolding mirrors_ok_def by blast
    then have "uEncFileData ?d = e" using True by (simp add: tap_data_def Let_def)
    then show ?thesis
      using e(2,3) True by (simp add: verify_data_def tap_picc [OF m uid] v) (simp add: tap_keys_def picc_of_def)
  next
    case False
    then have "uEncFileData ?d = []" by (simp add: tap_data_def Let_def)
    then show ?thesis using False by (simp add: verify_data_def tap_picc [OF m uid] v) (simp add: picc_of_def)
  qed
qed

section \<open>The URI record\<close>

text \<open>What a reader of the file takes from it: the message NLEN bounds, and the URI in it.\<close>

definition served_uri :: "bytes \<Rightarrow> ndef_error + bytes" where
  "served_uri v = parse_message_uri (slice 2 (2 + (256 * unat (v ! 0) + unat (v ! 1))) v)"

lemma uri_prefixes_table:
  assumes "(c, p) \<in> set uri_prefixes"
  shows "0 < unat c \<and> unat c < length uri_prefix_table \<and> uri_prefix_table ! unat c = p"
  using assms unfolding uri_table(1) by (auto simp: uri_prefixes_def uri_prefix_table_def)

lemma served_uri_content:
  assumes "n \<le> length (render \<sigma> ss)" "length (render \<sigma> ss) - n \<le> 249"
    and "uri_prefix_of x = (code, take n (render \<sigma> ss))" and w: "widths opts \<sigma>"
  shows "served_uri (content (uri_header opts ss n code) n ss rest \<sigma>) = Inr (render \<sigma> ss)"
proof -
  define body where "body = drop n (render \<sigma> ss)"
  have bl: "length body \<le> 249" "length (render (zeros opts) ss) - n = length body"
    using assms(2) widths_length [OF w, of ss] by (simp_all add: body_def)
  define r where "r = \<lparr>rTNF = 1, rType = [0x55], rID = [], rPayload = code # body\<rparr>"
  have enc: "encode_record True True r = [0xD1, 0x01, byteN (1 + length body), 0x55, code] @ body"
    using bl(1) by (simp add: encode_record_def r_def Let_def byteN_def)
  have c: "content (uri_header opts ss n code) n ss rest \<sigma> = [0, byteN (5 + length body)] @ encode_record True True r @ rest"
    by (simp add: content_def uri_header_def bl(2) enc body_def)
  have msg: "slice 2 (2 + (5 + length body)) (content (uri_header opts ss n code) n ss rest \<sigma>) = encode_record True True r"
    unfolding c by (rule slice_middle) (simp_all add: enc)
  have nlen: "256 * unat (content (uri_header opts ss n code) n ss rest \<sigma> ! 0) +
      unat (content (uri_header opts ss n code) n ss rest \<sigma> ! 1) = 5 + length body"
    unfolding c using bl(1) by (simp add: unat_byteN)
  have rok: "record_ok r" using bl(1) by (simp add: record_ok_def r_def)
  have nr: "norm_record r = r" by (simp add: norm_record_def r_def)
  have "parse_ndef_records (encode_record True True r) = Inr [r]"
    using parse_encode_records [of "[r]" True "[]"] rok nr by (simp add: parse_ndef_records_def)
  moreover have "parse_uri_payload (code # body) = Inr (render \<sigma> ss)"
  proof -
    have "code = 0 \<and> take n (render \<sigma> ss) = [] \<or> (code, take n (render \<sigma> ss)) \<in> set uri_prefixes"
      using uri_prefix_of_facts(4) [OF assms(3)] .
    then have "(if 0 < unat code \<and> unat code < length uri_prefix_table then uri_prefix_table ! unat code else []) =
        take n (render \<sigma> ss)"
      using uri_prefixes_table [of code "take n (render \<sigma> ss)"] by auto
    then show ?thesis by (simp add: parse_uri_payload_def body_def)
  qed
  ultimately have "parse_message_uri (encode_record True True r) = Inr (render \<sigma> ss)"
    by (simp add: parse_message_uri_def get_uri_def is_uri_record_def r_def ascii_def)
  then show ?thesis unfolding served_uri_def nlen msg .
qed

text \<open>Together: a read of a planned tag, the URL it serves, and what verifying it reports.\<close>

lemma planned_tap_verifies:
  assumes plan: "plan_sdm (template (url_segs base fs)) opts = Inr plan" "url_template_ok base fs" "names_fit fs ns"
    and f: "holds_plan f plan" and k: "keys_ok (nKeys s)" and uid: "length (nUID s) = 7" and l: "nLRP s = oLRP opts"
    and c: "nSDMCurrent (count_read s) < 0x1000000" and acc: "\<And>\<sigma>. accepts (render \<sigma> (url_segs base fs))"
  shows "\<exists>v s' url. view 0x02 f s = Some (v, s') \<and> served_uri v = Inr url \<and>
    verify_url_with accepts url (tap_keys opts s) ns =
      Inr \<lparr>tUID = nUID s, tReadCounter = nSDMCurrent s',
           tFileData = (if Hole PhEnc \<in> snd ` set fs then planned_data opts else [])\<rparr>"
proof -
  let ?ss = "url_segs base fs"
  note ps = plain_url [OF plan(2)]
  have d: "distinct (holes ?ss)" by (rule plan_sdm_facts [OF plan(1) ps])
  obtain n code \<sigma> rest r where v: "n \<le> length (render \<sigma> ?ss)" "length (render \<sigma> ?ss) - n \<le> 249"
    "uri_prefix_of (render (zeros opts) ?ss) = (code, take n (render \<sigma> ?ss))"
    "view 0x02 f s = Some (content (uri_header opts ?ss n code) n ?ss rest \<sigma>, (count_read s)\<lparr>nRandom := r\<rparr>)"
    "mirrors_ok opts s (nSDMCurrent (count_read s)) ?ss \<sigma>"
    by (rule view_planned [OF plan(1) ps f k uid l c])
  have w: "widths opts \<sigma>" using v(5) by (simp add: mirrors_ok_def)
  have "served_uri (content (uri_header opts ?ss n code) n ?ss rest \<sigma>) = Inr (render \<sigma> ?ss)"
    by (rule served_uri_content [OF v(1-3) w])
  moreover have "verify_url_with accepts (render \<sigma> ?ss) (tap_keys opts s) ns =
      Inr \<lparr>tUID = nUID s, tReadCounter = nSDMCurrent (count_read s),
           tFileData = (if Hole PhEnc \<in> snd ` set fs then planned_data opts else [])\<rparr>"
    by (simp add: verify_url_with_def parse_tap_url [where accepts = accepts, OF plan(2,3) d v(5) uid c acc [of \<sigma>]] verify_tap [OF v(5) uid c])
  ultimately show ?thesis using v(4) by auto
qed

end
