(* ===== verification/Examples.thy ===== *)
theory Examples
  imports CardExchange TapVerify
begin

text \<open>
  Concrete sessions and cards the instances of the properties are stated on: a session under
  all-zero keys with both halves in step, and a factory card holding one of them.
\<close>

definition zero_key :: bytes where
  "zero_key = replicate 16 0"

definition demo_session :: session where
  "demo_session = \<lparr>ti = [1, 2, 3, 4], encKey = zero_key, macKey = zero_key,
     encBlock = zero_key, macBlock = zero_key, counter = 0\<rparr>"

definition demo_card :: ntag424_state where
  "demo_card = (new_ntag424_state [4, 1, 2, 3, 4, 5, 6] [] (\<lambda>_. 0x5A))\<lparr>nSession := Some (AesChannel demo_session)\<rparr>"

definition fresh_card :: ntag424_state where
  "fresh_card = new_ntag424_state [4, 1, 2, 3, 4, 5, 6] [] (\<lambda>_. 0x5A)"

definition lrp_card :: ntag424_state where
  "lrp_card = fresh_card\<lparr>nLRP := True\<rparr>"

lemma demo_session_ok: "session_ok demo_session"
  by (simp add: session_ok_def demo_session_def zero_key_def aes_valid_key_def)

lemma demo_synced: "aes_synced demo_session demo_session"
  by (simp add: aes_synced_def demo_session_ok)

lemma fresh_card_ok: "card_ok fresh_card"
  by (simp add: fresh_card_def new_state_ok)

lemma demo_card_ok: "card_ok demo_card"
  unfolding demo_card_def by (rule card_ok_session) (simp_all add: new_state_ok demo_session_ok)

lemma demo_in_sync: "in_sync (AesChannel demo_session) demo_card"
  by (simp add: in_sync_def demo_card_def demo_synced)

lemma demo_card_fields:
  "nAuthKey demo_card = 0" "nKeys demo_card = replicate 5 zero_key" "nLRP demo_card = False"
  "nKeys fresh_card = replicate 5 zero_key" "not_delayed fresh_card" "nLRP fresh_card = False"
  "nSession fresh_card = None"
  by (simp_all add: demo_card_def fresh_card_def new_ntag424_state_def zero_key_def not_delayed_def Let_def)

lemma lrp_card_ok: "card_ok lrp_card"
  using lrp_switch_ok [OF fresh_card_ok]
  by (simp add: lrp_card_def card_ok_def files_ok_def file_ok_def fresh_card_def new_ntag424_state_def
      zero_settings_def Let_def list_all_iff)

text \<open>An SDM template with enciphered PICCData and file data, and its plan.\<close>

definition demo_base :: bytes where
  "demo_base = ascii ''https://t.io/''"

definition demo_fields :: "(bytes \<times> seg) list" where
  "demo_fields = [(ascii ''picc_data'', Hole PhPicc), (ascii ''enc'', Hole PhEnc), (ascii ''cmac'', Hole PhMac)]"

definition demo_options :: sdm_options where
  "demo_options = \<lparr>oMetaRead = 2, oFileRead = 1, oCounterRet = 0xE, oChange = 0, oRead = 0xE, oWrite = 0,
     oReadWrite = 0, oEncLength = 0, oLRP = False\<rparr>"

lemma demo_plan_made: "isOk (plan_sdm (template (url_segs demo_base demo_fields)) demo_options)"
  by code_simp

lemma demo_template_ok: "url_template_ok demo_base demo_fields"
  by code_simp

lemma demo_names_fit: "names_fit demo_fields default_names"
  by code_simp

definition demo_plan :: sdm_plan where
  "demo_plan = (case plan_sdm (template (url_segs demo_base demo_fields)) demo_options of
     Inr p \<Rightarrow> p | Inl _ \<Rightarrow> \<lparr>planNDEF = [], planSettings = zero_settings\<rparr>)"

lemma demo_plan: "plan_sdm (template (url_segs demo_base demo_fields)) demo_options = Inr demo_plan"
  using demo_plan_made by (auto simp: demo_plan_def elim: isOkE)

definition demo_plan_file :: n4_file where
  "demo_plan_file = \<lparr>nfSettings = (settings_wire (planSettings demo_plan))\<lparr>fsFileType := 0x00, fsFileSize := 256\<rparr>,
     nfData = copy_at 0 (replicate 256 0) (planNDEF demo_plan)\<rparr>"

lemma demo_plan_file: "holds_plan demo_plan_file demo_plan"
  by (auto simp: holds_plan_def demo_plan_file_def intro!: exI [of _ "replicate 256 0"])

definition demo_settings :: file_settings where
  "demo_settings = zero_settings\<lparr>fsReadWrite := AccessFree, fsRead := AccessFree, fsWrite := 3\<rparr>"

end
