(* ===== verification/Tlv.thy ===== *)
theory Tlv
  imports Prelude
begin

text \<open>
  \<open>nfc/tlv.go\<close>: the TLV blocks a tag's memory holds its NDEF message in. A block is scanned
  from an offset in the Go code; here from the bytes that are left.
\<close>

definition TLVNull :: byte where "TLVNull = 0x00"
definition TLVNDEF :: byte where "TLVNDEF = 0x03"
definition TLVTerminator :: byte where "TLVTerminator = 0xFE"

lemmas tlv_consts = TLVNull_def TLVNDEF_def TLVTerminator_def

definition tlv_encode :: "bytes \<Rightarrow> byte \<Rightarrow> bytes" where
  "tlv_encode d tlvType =
     tlvType # (if length d < 0xFF then [byteN (length d)] else [0xFF, byteN (length d div 256), byteN (length d mod 256)])
     @ d @ [TLVTerminator]"

definition tlv_record_length :: "bytes \<Rightarrow> nat \<times> nat" where
  "tlv_record_length d =
     (if length d < 2 then (0, 0)
      else if d ! 1 = 0xFF then if length d < 4 then (0, 0) else (1, 4)
      else (1, 2))"

definition tlv_get_length :: "bytes \<Rightarrow> nat" where
  "tlv_get_length d =
     (if length d < 2 then 0
      else if d ! 1 = 0xFF then if length d < 4 then 0 else 256 * unat (d ! 2) + unat (d ! 3)
      else unat (d ! 1))"

text \<open>\<open>TLVDecode\<close>: the value and type of the first TLV that is not null; nil and a type of 0
  when it is malformed, nil and the terminator at the end.\<close>

fun tlv_decode :: "bytes \<Rightarrow> bytes \<times> byte" where
  "tlv_decode [] = ([], 0)"
| "tlv_decode (t # r) =
     (if t = TLVNull then tlv_decode r
      else if t = TLVTerminator then ([], TLVTerminator)
      else if r = [] then ([], 0)
      else let (fls, fvs) = tlv_record_length (t # r)
           in if fls = 0 \<or> fvs = 0 then ([], 0)
              else let n = (if r ! 0 = 0xFF then 256 * unat (r ! 1) + unat (r ! 2) else unat (r ! 0))
                   in if length (t # r) < fvs + n then ([], 0)
                      else (slice fvs (fvs + n) (t # r), t))"

text \<open>\<open>TLVFindNDEF\<close>. A TLV of another type is skipped by its length, past the end if need be.\<close>

function tlv_find_ndef :: "bytes \<Rightarrow> bytes option" where
  "tlv_find_ndef d =
     (if d = [] then None
      else if d ! 0 = TLVNull then tlv_find_ndef (drop 1 d)
      else if d ! 0 = TLVTerminator then None
      else if length d < 2 then None
      else let (fls, fvs) = tlv_record_length d; n = tlv_get_length d
           in if fls = 0 \<or> fvs = 0 then None
              else if d ! 0 = TLVNDEF
              then if length d < fvs + n then None else Some (slice fvs (fvs + n) d)
              else tlv_find_ndef (drop (fvs + n) d))"
  by pat_completeness auto
termination by (relation "measure length") auto

declare tlv_find_ndef.simps [simp del]

text \<open>\<open>ParseTLVBlock\<close>: a later TLV of a type replaces an earlier one.\<close>

function parse_tlv_block :: "bytes \<Rightarrow> (byte \<Rightarrow> bytes option) \<Rightarrow> byte \<Rightarrow> bytes option" where
  "parse_tlv_block d result =
     (if d = [] then result
      else if d ! 0 = TLVNull then parse_tlv_block (drop 1 d) result
      else if d ! 0 = TLVTerminator then result
      else if length d < 2 then result
      else let (fls, fvs) = tlv_record_length d; n = tlv_get_length d
           in if fls = 0 \<or> fvs = 0 then result
              else if length d < fvs + n then result
              else parse_tlv_block (drop (fvs + n) d) (result(d ! 0 \<mapsto> slice fvs (fvs + n) d)))"
  by pat_completeness auto
termination by (relation "measure (\<lambda>(d, r). length d)") auto

declare parse_tlv_block.simps [simp del]

section \<open>Round trips\<close>

lemma be16_join: "n < 65536 \<Longrightarrow> 256 * unat (byteN (n div 256)) + unat (byteN (n mod 256)) = n"
  by (simp add: unat_byteN)

text \<open>The header of an encoded TLV, and where its value lies.\<close>

lemma tlv_encode_shape:
  assumes "length d < 65536"
  obtains h where "tlv_encode d t = (t # h) @ d @ [TLVTerminator]"
    "\<And>r. tlv_record_length ((t # h) @ r) = (1, length (t # h))"
    "\<And>r. tlv_get_length ((t # h) @ r) = length d"
    "\<And>r. (if (h @ r) ! 0 = 0xFF then 256 * unat ((h @ r) ! 1) + unat ((h @ r) ! 2) else unat ((h @ r) ! 0)) = length d"
    "h \<noteq> []"
proof (cases "length d < 0xFF")
  case True
  have "byteN (length d) \<noteq> 0xFF"
  proof
    assume "byteN (length d) = 0xFF"
    then have "unat (byteN (length d)) = 255" by simp
    then show False using True by (simp add: unat_byteN)
  qed
  with True show ?thesis
    by (intro that [of "[byteN (length d)]"])
      (simp_all add: tlv_encode_def tlv_record_length_def tlv_get_length_def unat_byteN)
next
  case False
  then show ?thesis using be16_join [OF assms]
    by (intro that [of "[0xFF, byteN (length d div 256), byteN (length d mod 256)]"])
      (simp_all add: tlv_encode_def tlv_record_length_def tlv_get_length_def)
qed

lemma tlv_decode_encode:
  assumes "length d < 65536" "t \<noteq> TLVNull" "t \<noteq> TLVTerminator"
  shows "tlv_decode (tlv_encode d t) = (d, t)"
proof -
  obtain h where h: "tlv_encode d t = (t # h) @ d @ [TLVTerminator]"
    "\<And>r. tlv_record_length ((t # h) @ r) = (1, length (t # h))"
    "\<And>r. (if (h @ r) ! 0 = 0xFF then 256 * unat ((h @ r) ! 1) + unat ((h @ r) ! 2) else unat ((h @ r) ! 0)) = length d"
    "h \<noteq> []"
    using tlv_encode_shape [OF assms(1), of t] by metis
  have s: "slice (length (t # h)) (length (t # h) + length d) ((t # h) @ d @ [TLVTerminator]) = d"
    by (rule slice_append_exact)
  note n = h(3) [of "d @ [TLVTerminator]"]
  show ?thesis
    unfolding h(1) using assms(2,3) h(2) [of "d @ [TLVTerminator]"] h(4) s
    by (simp only: append_Cons tlv_decode.simps n Let_def prod.case)
      (simp add: n)
qed

lemma tlv_find_encode:
  assumes "length d < 65536"
  shows "tlv_find_ndef (tlv_encode d TLVNDEF) = Some d"
proof -
  obtain h where h: "tlv_encode d TLVNDEF = (TLVNDEF # h) @ d @ [TLVTerminator]"
    "\<And>r. tlv_record_length ((TLVNDEF # h) @ r) = (1, length (TLVNDEF # h))"
    "\<And>r. tlv_get_length ((TLVNDEF # h) @ r) = length d"
    using tlv_encode_shape [OF assms, of TLVNDEF] by metis
  have s: "slice (length (TLVNDEF # h)) (length (TLVNDEF # h) + length d) ((TLVNDEF # h) @ d @ [TLVTerminator]) = d"
    by (rule slice_append_exact)
  have r: "tlv_record_length (TLVNDEF # h @ d @ [TLVTerminator]) = (1, Suc (length h))"
    "tlv_get_length (TLVNDEF # h @ d @ [TLVTerminator]) = length d"
    using h(2,3) [of "d @ [TLVTerminator]"] by simp_all
  have t: "TLVNDEF \<noteq> TLVNull" "TLVNDEF \<noteq> TLVTerminator" by (simp_all add: tlv_consts)
  show ?thesis
    unfolding h(1) using s by (subst tlv_find_ndef.simps) (simp add: r t Let_def)
qed

lemma tlv_find_skip_nulls: "tlv_find_ndef (replicate n TLVNull @ d) = tlv_find_ndef d"
  by (induction n) (simp_all add: tlv_find_ndef.simps [of "TLVNull # _"])

text \<open>The message is found behind any run of null TLVs and TLVs of other types.\<close>

definition tlv_block :: "(byte \<times> bytes) option \<Rightarrow> bytes" where
  "tlv_block b = (case b of None \<Rightarrow> [TLVNull] | Some (t, d) \<Rightarrow> butlast (tlv_encode d t))"

definition tlv_other :: "(byte \<times> bytes) option \<Rightarrow> bool" where
  "tlv_other b = (case b of None \<Rightarrow> True
     | Some (t, d) \<Rightarrow> t \<noteq> TLVNull \<and> t \<noteq> TLVNDEF \<and> t \<noteq> TLVTerminator \<and> length d < 65536)"

lemma tlv_find_skip_block:
  assumes "tlv_other b"
  shows "tlv_find_ndef (tlv_block b @ r) = tlv_find_ndef r"
proof (cases b)
  case None
  then show ?thesis by (simp add: tlv_block_def tlv_find_ndef.simps [of "TLVNull # _"])
next
  case (Some x)
  obtain t d where x: "x = (t, d)" by (cases x)
  have t: "t \<noteq> TLVNull" "t \<noteq> TLVNDEF" "t \<noteq> TLVTerminator" "length d < 65536"
    using assms by (simp_all add: tlv_other_def Some x)
  obtain h where h: "tlv_encode d t = (t # h) @ d @ [TLVTerminator]"
    "\<And>r. tlv_record_length ((t # h) @ r) = (1, length (t # h))"
    "\<And>r. tlv_get_length ((t # h) @ r) = length d" "h \<noteq> []"
    using tlv_encode_shape [OF t(4), of t] by metis
  have e: "tlv_block b @ r = t # h @ d @ r"
    by (simp add: tlv_block_def Some x h(1) butlast_append)
  have l: "tlv_record_length (t # h @ d @ r) = (1, Suc (length h))" "tlv_get_length (t # h @ d @ r) = length d"
    using h(2,3) [of "d @ r"] by simp_all
  show ?thesis
    unfolding e using t h(4) by (subst tlv_find_ndef.simps) (simp add: l Let_def Suc_le_eq)
qed

lemma tlv_find_behind:
  assumes "list_all tlv_other bs" "length d < 65536"
  shows "tlv_find_ndef (concat (map tlv_block bs) @ tlv_encode d TLVNDEF) = Some d"
  using assms(1) by (induction bs) (simp_all add: tlv_find_encode [OF assms(2)] tlv_find_skip_block)

end
