(* ===== verification/Apdu.thy ===== *)
theory Apdu
  imports Prelude
begin

text \<open>
  \<open>nfc/apdu.go\<close>: command APDUs in the short and the extended form, the reply they get, and the
  builders of every command the drivers send. A builder that returns nil has the empty list; no
  command is empty. Hexadecimal text is a list of bytes.
\<close>

section \<open>Replies\<close>

record apdu_response =
  arData :: bytes
  arSW1 :: byte
  arSW2 :: byte

definition is_success :: "apdu_response \<Rightarrow> bool" where
  "is_success r \<longleftrightarrow> arSW1 r = 0x90 \<and> arSW2 r = 0x00"

definition has_more_data :: "apdu_response \<Rightarrow> bool" where
  "has_more_data r \<longleftrightarrow> arSW1 r = 0x61"

definition response_error :: "apdu_response \<Rightarrow> (byte \<times> byte) option" where
  "response_error r = (if is_success r \<or> has_more_data r then None else Some (arSW1 r, arSW2 r))"

definition status_word :: "apdu_response \<Rightarrow> uint16" where
  "status_word r = push_bit 8 (ucast (arSW1 r)) OR ucast (arSW2 r)"

definition parse_apdu_response :: "bytes \<Rightarrow> apdu_response option" where
  "parse_apdu_response raw =
     (if length raw < 2 then None
      else Some \<lparr>arData = take (length raw - 2) raw, arSW1 = raw ! (length raw - 2), arSW2 = raw ! (length raw - 1)\<rparr>)"

section \<open>Commands\<close>

definition build_extended_apdu :: "byte \<Rightarrow> byte \<Rightarrow> byte \<Rightarrow> byte \<Rightarrow> bytes \<Rightarrow> int option \<Rightarrow> bytes" where
  "build_extended_apdu cla ins p1 p2 data le =
     (if 0xFFFF < length data \<or> (case le of None \<Rightarrow> False | Some v \<Rightarrow> v < 0 \<or> 0x10000 < v) then []
      else let leVal = (case le of None \<Rightarrow> 0 | Some v \<Rightarrow> if v = 0x10000 then 0 else nat v);
               leBytes = [byteN (leVal div 256), byteN leVal]; cmd = [cla, ins, p1, p2]
           in if data \<noteq> []
              then cmd @ [0x00, byteN (length data div 256), byteN (length data)] @ data
                   @ (if le \<noteq> None then leBytes else [])
              else if le \<noteq> None then cmd @ 0x00 # leBytes else cmd)"

definition build_apdu :: "byte \<Rightarrow> byte \<Rightarrow> byte \<Rightarrow> byte \<Rightarrow> bytes \<Rightarrow> byte option \<Rightarrow> bytes" where
  "build_apdu cla ins p1 p2 data le =
     (if 0xFF < length data
      then build_extended_apdu cla ins p1 p2 data
             (map_option (\<lambda>b. if b = 0 then 0x10000 else int (unat b)) le)
      else [cla, ins, p1, p2] @ (if data \<noteq> [] then byteN (length data) # data else [])
           @ (case le of None \<Rightarrow> [] | Some b \<Rightarrow> [b]))"

definition get_uid_apdu :: bytes where
  "get_uid_apdu = build_apdu 0xFF 0xCA 0x00 0x00 [] (Some 0x00)"

definition load_key_apdu :: "byte \<Rightarrow> bytes \<Rightarrow> bytes" where
  "load_key_apdu keySlot key =
     (if length key \<noteq> 6 then [] else build_apdu 0xFF 0x82 0x00 keySlot key None)"

definition mifare_auth_apdu :: "byte \<Rightarrow> byte \<Rightarrow> byte \<Rightarrow> bytes" where
  "mifare_auth_apdu blk keyType keySlot =
     build_apdu 0xFF 0x86 0x00 0x00 [0x01, 0x00, blk, keyType, keySlot] None"

definition read_binary_apdu :: "byte \<Rightarrow> byte \<Rightarrow> bytes" where
  "read_binary_apdu off len = build_apdu 0xFF 0xB0 0x00 off [] (Some len)"

definition update_binary_apdu :: "byte \<Rightarrow> bytes \<Rightarrow> bytes" where
  "update_binary_apdu off data = build_apdu 0xFF 0xD6 0x00 off data None"

definition direct_transmit_apdu :: "bytes \<Rightarrow> bytes" where
  "direct_transmit_apdu cmd = build_apdu 0xFF 0x00 0x00 0x00 cmd (Some 0x00)"

definition select_file_apdu :: "bytes \<Rightarrow> bytes" where
  "select_file_apdu fid = build_apdu 0x00 0xA4 0x00 0x0C fid None"

definition select_aid_apdu :: "bytes \<Rightarrow> bytes" where
  "select_aid_apdu aid = build_apdu 0x00 0xA4 0x04 0x00 aid (Some 0x00)"

definition read_binary_ext_apdu :: "uint16 \<Rightarrow> byte \<Rightarrow> bytes" where
  "read_binary_ext_apdu off len =
     build_apdu 0x00 0xB0 (ucast (drop_bit 8 off AND 0x7F)) (ucast (off AND 0xFF)) [] (Some len)"

definition update_binary_ext_apdu :: "uint16 \<Rightarrow> bytes \<Rightarrow> bytes" where
  "update_binary_ext_apdu off data =
     build_apdu 0x00 0xD6 (ucast (drop_bit 8 off AND 0x7F)) (ucast (off AND 0xFF)) data None"

definition get_version_apdu :: bytes where
  "get_version_apdu = direct_transmit_apdu [0x60]"

definition desfire_wrap_apdu :: "byte \<Rightarrow> bytes \<Rightarrow> bytes" where
  "desfire_wrap_apdu cmd data = build_apdu 0x90 cmd 0x00 0x00 data (Some 0x00)"

definition ntag424_get_version_apdu :: bytes where
  "ntag424_get_version_apdu = desfire_wrap_apdu 0x60 []"

definition desfire_aid :: "uint32 \<Rightarrow> bytes" where
  "desfire_aid aid = [ucast aid, ucast (drop_bit 8 aid), ucast (drop_bit 16 aid)]"

definition desfire_select_app_apdu :: "bytes \<Rightarrow> bytes" where
  "desfire_select_app_apdu aid = (if length aid \<noteq> 3 then [] else desfire_wrap_apdu 0x5A aid)"

definition desfire_get_app_ids_apdu :: bytes where
  "desfire_get_app_ids_apdu = desfire_wrap_apdu 0x6A []"

definition desfire_get_file_ids_apdu :: bytes where
  "desfire_get_file_ids_apdu = desfire_wrap_apdu 0x6F []"

definition desfire_read_data_apdu :: "byte \<Rightarrow> uint32 \<Rightarrow> uint32 \<Rightarrow> bytes" where
  "desfire_read_data_apdu fileNo off len = desfire_wrap_apdu 0xBD (fileNo # le24 off @ le24 len)"

definition desfire_write_data_apdu :: "byte \<Rightarrow> uint32 \<Rightarrow> bytes \<Rightarrow> bytes" where
  "desfire_write_data_apdu fileNo off writeData =
     desfire_wrap_apdu 0x3D (fileNo # le24 off @ le24 (of_nat (length writeData)) @ writeData)"

definition desfire_get_file_settings_apdu :: "byte \<Rightarrow> bytes" where
  "desfire_get_file_settings_apdu fileNo = desfire_wrap_apdu 0xF5 [fileNo]"

definition desfire_auth_apdu :: "byte \<Rightarrow> byte \<Rightarrow> bytes" where
  "desfire_auth_apdu keyNo authType = desfire_wrap_apdu authType [keyNo]"

definition desfire_additional_frame_apdu :: "bytes \<Rightarrow> bytes" where
  "desfire_additional_frame_apdu data = desfire_wrap_apdu 0xAF data"

section \<open>Text and integers\<close>

definition bytes_to_hex :: "bytes \<Rightarrow> bytes" where
  "bytes_to_hex data = concat (map (\<lambda>b. [hex_digit_upper (drop_bit 4 b), hex_digit_upper (b AND 0x0F)]) data)"

datatype hex_error = HOdd | HChar byte

fun hex_pairs :: "bytes \<Rightarrow> hex_error + bytes" where
  "hex_pairs (a # b # r) =
     (case hex_value a of None \<Rightarrow> Inl (HChar a) | Some x \<Rightarrow>
      case hex_value b of None \<Rightarrow> Inl (HChar b) | Some y \<Rightarrow>
      bindE (hex_pairs r) (\<lambda>bs. Inr ((push_bit 4 x OR y) # bs)))"
| "hex_pairs _ = Inr []"

definition hex_to_bytes :: "bytes \<Rightarrow> hex_error + bytes" where
  "hex_to_bytes hex = (if length hex mod 2 \<noteq> 0 then Inl HOdd else hex_pairs hex)"

definition uint16_to_bytes :: "uint16 \<Rightarrow> bytes" where
  "uint16_to_bytes v = [ucast (drop_bit 8 v), ucast v]"

definition bytes_to_uint16 :: "bytes \<Rightarrow> uint16" where
  "bytes_to_uint16 b = (if length b < 2 then 0 else push_bit 8 (ucast (b ! 0)) OR ucast (b ! 1))"

section \<open>Round trips\<close>

lemma length_bytes_to_hex [simp]: "length (bytes_to_hex b) = 2 * length b"
  by (induction b) (simp_all add: bytes_to_hex_def)

lemma bytes_to_hex_Cons:
  "bytes_to_hex (x # b) = hex_digit_upper (drop_bit 4 x) # hex_digit_upper (x AND 0x0F) # bytes_to_hex b"
  by (simp add: bytes_to_hex_def)

lemma hex_pairs_upper: "hex_pairs (bytes_to_hex b) = Inr b"
  by (induction b) (simp_all add: bytes_to_hex_Cons hex_value_digit_upper nibbles_less join_nibbles,
      simp add: bytes_to_hex_def)

lemma hex_to_bytes_upper: "hex_to_bytes (bytes_to_hex b) = Inr b"
  by (simp add: hex_to_bytes_def hex_pairs_upper)

lemma bytes_to_uint16_upper: "bytes_to_uint16 (uint16_to_bytes v @ r) = v"
proof (rule bit_eqI)
  fix n assume "possible_bit TYPE(16 word) n"
  then have "n < 16" by simp
  then show "bit (bytes_to_uint16 (uint16_to_bytes v @ r)) n = bit v n"
    by (cases "n < 8") (auto simp: bytes_to_uint16_def uint16_to_bytes_def bit_simps)
qed

lemma parse_apdu_response_split:
  "parse_apdu_response (d @ [a, b]) = Some \<lparr>arData = d, arSW1 = a, arSW2 = b\<rparr>"
  by (simp add: parse_apdu_response_def nth_append)

end
