(* ===== verification/Explain.thy ===== *)
theory Explain
  imports Apdu CardInvariant
begin

text \<open>
  \<open>nfc/apdu_explain.go\<close>: what a command does, decoded from its bytes, so that a caller can warn
  or refuse before it is sent. The one-line summaries are text for people and are left out; the
  warnings are the values of a datatype. The last section checks the classification against the
  emulated card.
\<close>

section \<open>Parts\<close>

datatype apdu_class =
    ClassRead | ClassWrite | ClassLock | ClassAuth | ClassSelect | ClassInfo | ClassReaderControl | ClassUnknown

datatype apdu_warning =
    WNoBytes | WTruncated | WExtended | WLength nat nat | WLockPage byte | WWrites | WLocks | WUnrecognised

datatype dialect = DISO7816 | DPCSC | DDESFire | DFraming

record apdu_fields =
  fCLA :: byte
  fINS :: byte
  fP1 :: byte
  fP2 :: byte
  fHasLc :: bool
  fLc :: nat
  fData :: bytes
  fHasLe :: bool
  fLe :: nat
  fExtended :: bool

record explanation =
  eClass :: apdu_class
  eMutating :: bool
  eWarnings :: "apdu_warning list"
  eDialect :: dialect
  eRecognized :: bool
  eFields :: apdu_fields

definition no_fields :: apdu_fields where
  "no_fields = \<lparr>fCLA = 0, fINS = 0, fP1 = 0, fP2 = 0, fHasLc = False, fLc = 0, fData = [],
     fHasLe = False, fLe = 0, fExtended = False\<rparr>"

definition explained :: "apdu_class \<Rightarrow> dialect \<Rightarrow> bool \<Rightarrow> explanation" where
  "explained c d r = \<lparr>eClass = c, eMutating = False, eWarnings = [], eDialect = d, eRecognized = r,
     eFields = no_fields\<rparr>"

definition le_value :: "byte \<Rightarrow> nat" where
  "le_value b = (if b = 0 then 256 else unat b)"

definition parse_apdu_body :: "bytes \<Rightarrow> apdu_fields \<times> apdu_warning option" where
  "parse_apdu_body cmd =
     (let f = no_fields\<lparr>fCLA := cmd ! 0, fINS := cmd ! 1, fP1 := cmd ! 2, fP2 := cmd ! 3\<rparr>; body = drop 4 cmd
      in if length body = 0 then (f, None)
         else if length body = 1 then (f\<lparr>fHasLe := True, fLe := le_value (body ! 0)\<rparr>, None)
         else if body ! 0 = 0x00 \<and> 3 \<le> length body then (f\<lparr>fExtended := True\<rparr>, Some WExtended)
         else let lc = unat (body ! 0); rest = drop 1 body; g = f\<lparr>fHasLc := True, fLc := lc\<rparr>
              in if length rest = lc then (g\<lparr>fData := rest\<rparr>, None)
                 else if length rest = lc + 1
                 then (g\<lparr>fData := take lc rest, fHasLe := True, fLe := le_value (rest ! lc)\<rparr>, None)
                 else (g\<lparr>fData := (if length rest < lc then rest else take lc rest)\<rparr>,
                       Some (WLength lc (length rest))))"

section \<open>Warnings\<close>

fun dedupe_from :: "'a set \<Rightarrow> 'a list \<Rightarrow> 'a list" where
  "dedupe_from seen [] = []"
| "dedupe_from seen (x # xs) =
     (if x \<in> seen then dedupe_from seen xs else x # dedupe_from (insert x seen) xs)"

definition dedupe :: "'a list \<Rightarrow> 'a list" where
  "dedupe xs = (if length xs < 2 then xs else dedupe_from {} xs)"

definition warn :: "apdu_warning list \<Rightarrow> explanation \<Rightarrow> explanation" where
  "warn ws e = e\<lparr>eWarnings := eWarnings e @ ws\<rparr>"

definition finalize :: "explanation \<Rightarrow> explanation" where
  "finalize e =
     (let e' = (case eClass e of
          ClassWrite \<Rightarrow> warn [WWrites] (e\<lparr>eMutating := True\<rparr>)
        | ClassLock \<Rightarrow> warn [WLocks] (e\<lparr>eMutating := True\<rparr>)
        | ClassUnknown \<Rightarrow> warn (if \<not> eRecognized e then [WUnrecognised] else []) (e\<lparr>eMutating := True\<rparr>)
        | _ \<Rightarrow> e)
      in e'\<lparr>eWarnings := dedupe (eWarnings e')\<rparr>)"

definition flag_page_write :: "byte \<Rightarrow> explanation \<Rightarrow> explanation" where
  "flag_page_write page e = (if page = 2 \<or> page = 3 then warn [WLockPage page] e else e)"

section \<open>Framing\<close>

definition explain_framing :: "bytes \<Rightarrow> explanation" where
  "explain_framing cmd =
     (let ex = (\<lambda>c. explained c DFraming True); oper = cmd ! 0
      in finalize
        (if oper = 0x30 then ex ClassRead
         else if oper = 0x3A then ex ClassRead
         else if oper = 0xA2
         then (if 2 \<le> length cmd then flag_page_write (cmd ! 1) (ex ClassWrite) else ex ClassWrite)
         else if oper = 0xA0 then ex ClassWrite
         else if oper = 0x60 then ex ClassInfo
         else if oper = 0x61 then ex ClassAuth
         else if oper = 0x1B then ex ClassAuth
         else if oper = 0x3C then ex ClassInfo
         else if oper = 0x39 then ex ClassRead
         else if oper = 0xA5 then ex ClassWrite
         else if oper = 0x1A then ex ClassAuth
         else if oper = 0x50 then ex ClassInfo
         else explained ClassUnknown DFraming False))"

definition explain_empty :: "bool \<Rightarrow> explanation" where
  "explain_empty raw = warn [WNoBytes] (explained ClassUnknown (if raw then DFraming else DISO7816) False)"

section \<open>The APDU families\<close>

text \<open>Each takes the explanation so far, whose fields and length warning are settled.\<close>

definition described :: "apdu_class \<Rightarrow> bool \<Rightarrow> explanation \<Rightarrow> explanation" where
  "described c r e = e\<lparr>eClass := c, eRecognized := r\<rparr>"

definition nested :: "explanation \<Rightarrow> explanation \<Rightarrow> explanation" where
  "nested inner e = warn (eWarnings inner) (described (eClass inner) (eRecognized inner) e)"

definition describe_pn532 :: "bytes \<Rightarrow> explanation \<Rightarrow> explanation" where
  "describe_pn532 data e =
     (if length data < 2 \<or> data ! 1 \<noteq> 0x42 then described ClassUnknown False e
      else if length data = 2 then described ClassUnknown False e
      else nested (explain_framing (drop 2 data)) e)"

definition describe_pcsc_direct :: "apdu_fields \<Rightarrow> explanation \<Rightarrow> explanation" where
  "describe_pcsc_direct f e =
     (if fP1 f = 0x40 then described ClassReaderControl True e
      else if fP1 f = 0x00
      then if length (fData f) = 0 then described ClassUnknown False e
           else if fData f ! 0 = 0xD4 then describe_pn532 (fData f) e
           else nested (explain_framing (fData f)) e
      else described ClassReaderControl True e)"

definition describe_pcsc :: "apdu_fields \<Rightarrow> explanation \<Rightarrow> explanation" where
  "describe_pcsc f e0 =
     (let e = e0\<lparr>eDialect := DPCSC, eRecognized := True\<rparr>; ins = fINS f
      in if ins = 0xCA then described ClassInfo True e
         else if ins = 0xB0 then described ClassRead True e
         else if ins = 0xD6 then flag_page_write (fP2 f) (described ClassWrite True e)
         else if ins = 0x82 then described ClassReaderControl True e
         else if ins = 0x86 then described ClassAuth True e
         else if ins = 0x00 then describe_pcsc_direct f e
         else described ClassUnknown False e)"

definition describe_desfire :: "apdu_fields \<Rightarrow> explanation \<Rightarrow> explanation" where
  "describe_desfire f e0 =
     (let e = e0\<lparr>eDialect := DDESFire\<rparr>; ins = fINS f
      in if ins = 0x60 then described ClassInfo True e
         else if ins = 0x5F then described ClassWrite True e
         else if ins = 0xF5 then described ClassInfo True e
         else if ins = 0x6A then described ClassRead True e
         else if ins = 0x6F then described ClassRead True e
         else if ins = 0x5A then described ClassSelect True e
         else if ins = 0xBD then described ClassRead True e
         else if ins = 0x3D then described ClassWrite True e
         else if ins \<in> {0x0A, 0x1A, 0xAA} then described ClassAuth True e
         else if ins = 0xAF then described ClassRead True e
         else described ClassUnknown False e)"

definition describe_iso :: "apdu_fields \<Rightarrow> explanation \<Rightarrow> explanation" where
  "describe_iso f e0 =
     (let e = e0\<lparr>eDialect := DISO7816\<rparr>; ins = fINS f
      in if ins = 0xA4 then described ClassSelect True e
         else if ins = 0xB0 then described ClassRead True e
         else if ins = 0xD6 then described ClassWrite True e
         else if ins = 0xC0 then described ClassRead True e
         else described ClassUnknown False e)"

definition explain_apdu :: "bytes \<Rightarrow> explanation" where
  "explain_apdu cmd =
     (if length cmd < 4 then warn [WTruncated] ((explained ClassUnknown DISO7816 False)\<lparr>eMutating := True\<rparr>)
      else let (f, w) = parse_apdu_body cmd;
               e = warn (case w of None \<Rightarrow> [] | Some x \<Rightarrow> [x])
                     ((explained ClassUnknown DISO7816 False)\<lparr>eFields := f\<rparr>)
           in finalize
             (if fCLA f = 0xFF then describe_pcsc f e
              else if fCLA f = 0x90 then describe_desfire f e
              else if fCLA f = 0x00 then describe_iso f e
              else described ClassUnknown False e))"

definition explain :: "bytes \<Rightarrow> bool \<Rightarrow> explanation" where
  "explain cmd raw =
     (if length cmd = 0 then explain_empty raw
      else if raw then explain_framing cmd else explain_apdu cmd)"

section \<open>Lengths are read as they are written\<close>

lemma parse_build_apdu:
  assumes "length data \<le> 255"
  shows "parse_apdu_body (build_apdu cla ins p1 p2 data le) =
    (no_fields\<lparr>fCLA := cla, fINS := ins, fP1 := p1, fP2 := p2, fHasLc := data \<noteq> [], fLc := length data,
       fData := data, fHasLe := le \<noteq> None, fLe := (case le of None \<Rightarrow> 0 | Some b \<Rightarrow> le_value b)\<rparr>, None)"
proof (cases "data = []")
  case True
  then show ?thesis by (cases le) (simp_all add: build_apdu_def parse_apdu_body_def Let_def no_fields_def)
next
  case False
  with assms have n: "unat (byteN (length data)) = length data" by simp
  with False have "byteN (length data) \<noteq> 0" by (metis length_0_conv unat_0)
  with n False assms show ?thesis
    by (cases le) (auto simp: build_apdu_def parse_apdu_body_def Let_def no_fields_def Suc_le_eq)
qed

section \<open>The mutating bit\<close>

lemma finalize_simps [simp]:
  "eClass (finalize e) = eClass e"
  "eMutating (finalize e) \<longleftrightarrow> eMutating e \<or> eClass e \<in> {ClassWrite, ClassLock, ClassUnknown}"
  by (simp_all add: finalize_def warn_def Let_def split: apdu_class.split)

lemma described_simps [simp]:
  "eClass (described c r e) = c" "eMutating (described c r e) = eMutating e"
  "eClass (warn w e) = eClass e" "eMutating (warn w e) = eMutating e"
  "eMutating (nested i e) = eMutating e" "eMutating (flag_page_write p e) = eMutating e"
  "eClass (flag_page_write p e) = eClass e" "eMutating (explained c d r) = False"
  by (simp_all add: described_def warn_def nested_def flag_page_write_def explained_def)

lemma describe_mutating [simp]:
  "eMutating (describe_pn532 d e) = eMutating e" "eMutating (describe_pcsc_direct f e) = eMutating e"
  "eMutating (describe_pcsc f e) = eMutating e" "eMutating (describe_desfire f e) = eMutating e"
  "eMutating (describe_iso f e) = eMutating e"
  by (simp_all add: describe_pn532_def describe_pcsc_direct_def describe_pcsc_def describe_desfire_def
      describe_iso_def Let_def)

text \<open>Every command but the empty one is mutating exactly when it writes, locks or is unknown.\<close>

lemma explain_mutating:
  assumes "cmd \<noteq> []"
  shows "eMutating (explain cmd raw) \<longleftrightarrow> eClass (explain cmd raw) \<in> {ClassWrite, ClassLock, ClassUnknown}"
proof -
  have f: "eMutating (explain_framing c) \<longleftrightarrow> eClass (explain_framing c) \<in> {ClassWrite, ClassLock, ClassUnknown}" for c
    by (simp add: explain_framing_def Let_def)
  have a: "eMutating (explain_apdu c) \<longleftrightarrow> eClass (explain_apdu c) \<in> {ClassWrite, ClassLock, ClassUnknown}" for c
    by (simp add: explain_apdu_def Let_def explained_def case_prod_beta)
  show ?thesis using assms f a by (simp add: explain_def)
qed

section \<open>Against the emulated card\<close>

text \<open>What a card keeps across presentations and a command may not alter unannounced.\<close>

definition durable :: "ntag424_state \<Rightarrow> (bytes list \<times> byte list \<times> n4_file list) \<times> bool \<times> bool \<times> bytes option" where
  "durable s = ((nKeys s, nVersions s, nFiles s), nLRP s, nRandomID s, nSignature s)"

lemma durable_upd [simp]:
  "durable (drop_session s) = durable s" "durable (clear_selection s) = durable s"
  "durable (s\<lparr>nPendStage := p\<rparr>) = durable s" "durable (s\<lparr>nFrame := n\<rparr>) = durable s"
  "durable (s\<lparr>nSession := c\<rparr>) = durable s" "durable (s\<lparr>nAppSelected := b\<rparr>) = durable s"
  "durable (s\<lparr>nSelected := i\<rparr>) = durable s" "durable (lower_failures s) = durable s"
  "durable (s\<lparr>nRandom := r\<rparr>) = durable s" "durable (s\<lparr>nAuthKey := k\<rparr>) = durable s"
  by (simp_all add: durable_def drop_session_def clear_selection_def lower_failures_def)

lemma durable_parts:
  "durable (snd (version_frame s)) = durable s" "durable (snd (fail_auth s)) = durable s"
  "durable (snd (auth_first_step first p s)) = durable s" "durable (snd (iso_select cmd s)) = durable s"
  by (simp_all add: version_frame_def fail_auth_def auth_first_step_def iso_select_def rand_read_def
      drop_session_def clear_selection_def durable_def Let_def split: sum.split)

lemma durable_secure: "secure cmd m h s = (r, s') \<Longrightarrow> durable s' = durable s"
  by (auto simp: secure_def split: option.splits sum.splits prod.splits ev2_error.splits)

lemma durable_answer: "answer d m s = Some (r, s') \<Longrightarrow> durable s' = durable s"
  by (auto simp: answer_def split: option.splits sum.splits prod.splits)

lemma durable_same_card: "same_card s s' \<Longrightarrow> durable s' = durable s"
  unfolding same_card_def durable_def by (cases s; cases s'; simp)

lemma durable_fail: "fail_auth s = (r, s') \<Longrightarrow> durable s' = durable s"
  using durable_parts(2) [of s] by simp

lemma durable_rand [simp]: "durable (snd (rand_read n s)) = durable s"
  by (simp add: rand_read_def)

lemma durable_auth_second_lrp:
  assumes "auth_second_lrp key p s = Some (r, s')"
  shows "durable s' = durable s"
  using assms by (auto simp: auth_second_lrp_def rand_read_def split: if_splits option.splits sum.splits
      dest!: durable_fail)

lemma durable_auth_second_aes:
  assumes "auth_second_aes key p s = Some (r, s')"
  shows "durable s' = durable s"
  using assms by (auto simp: auth_second_aes_def rand_read_def Let_def split: if_splits option.splits sum.splits
      dest!: durable_fail)

lemma durable_auth_second:
  assumes "auth_second p s = Some (r, s')"
  shows "durable s' = durable s"
  using assms by (auto simp: auth_second_def Let_def split: if_splits
      dest!: durable_auth_second_lrp durable_auth_second_aes)

lemma durable_get_settings:
  assumes "card_get_file_settings cmd p s = Some (r, s')"
  shows "durable s' = durable s"
  using assms by (auto simp: card_get_file_settings_def split: if_splits option.splits sum.splits prod.splits
      dest!: durable_answer durable_secure)

lemma durable_iso_read:
  assumes "card_ok s" "iso_read cmd s = Some (r, s')"
  shows "durable s' = durable s"
proof (cases "nSelected s = 0")
  case True
  with assms show ?thesis by (auto simp: iso_read_def split: if_splits)
next
  case False
  then have i: "nSelected s - 1 < 3" "byteN (nSelected s - 1 + 1) = byteN (nSelected s)"
    using assms by (auto simp: card_ok_def)
  obtain v s1 where v: "view (byteN (nSelected s)) (nFiles s ! (nSelected s - 1)) s = Some (v, s1)" "same_card s s1"
    using view_ok [OF assms(1) i(1)] i(2) by auto
  then show ?thesis
    using assms False durable_same_card [OF v(2)] by (auto simp: iso_read_def Let_def split: if_splits)
qed

text \<open>The instructions the decoder calls harmless.\<close>

lemma harmless_native:
  assumes "4 \<le> length cmd" "cmd ! 0 = 0x90" "\<not> eMutating (explain cmd False)"
  shows "cmd ! 1 \<in> {0x60, 0xF5, 0x6A, 0x6F, 0x5A, 0xBD, 0x0A, 0x1A, 0xAA, 0xAF}"
proof -
  obtain f w where p: "parse_apdu_body cmd = (f, w)" by fastforce
  have f: "fCLA f = cmd ! 0" "fINS f = cmd ! 1"
    using p by (auto simp: parse_apdu_body_def Let_def split: if_splits)
  have "explain cmd False = explain_apdu cmd" using assms(1) by (auto simp: explain_def)
  with assms(1,3) p f assms(2) have "eClass (describe_desfire f e) \<notin> {ClassWrite, ClassLock, ClassUnknown}"
    if "e = warn (case w of None \<Rightarrow> [] | Some x \<Rightarrow> [x]) ((explained ClassUnknown DISO7816 False)\<lparr>eFields := f\<rparr>)" for e
    using that by (simp add: explain_apdu_def)
  then show ?thesis using f by (auto simp: describe_desfire_def Let_def split: if_splits)
qed

lemma harmless_iso:
  assumes "4 \<le> length cmd" "cmd ! 0 = 0x00" "\<not> eMutating (explain cmd False)"
  shows "cmd ! 1 \<noteq> 0xD6"
proof -
  obtain f w where p: "parse_apdu_body cmd = (f, w)" by fastforce
  have f: "fCLA f = cmd ! 0" "fINS f = cmd ! 1"
    using p by (auto simp: parse_apdu_body_def Let_def split: if_splits)
  have "explain cmd False = explain_apdu cmd" using assms(1) by (auto simp: explain_def)
  with assms(1,3) p f assms(2) have "eClass (describe_iso f e) \<notin> {ClassWrite, ClassLock, ClassUnknown}"
    if "e = warn (case w of None \<Rightarrow> [] | Some x \<Rightarrow> [x]) ((explained ClassUnknown DISO7816 False)\<lparr>eFields := f\<rparr>)" for e
    using that by (simp add: explain_apdu_def)
  then show ?thesis using f by (auto simp: describe_iso_def Let_def split: if_splits)
qed

lemma harmless_keeps_card:
  assumes "card_ok s" "transceive cmd s = Some (r, s')" "\<not> eMutating (explain cmd False)"
  shows "durable s' = durable s"
proof (cases "length cmd < 4 \<or> cmd ! 0 \<noteq> 0x90 \<and> cmd ! 0 \<noteq> 0x00")
  case True
  with assms(2) show ?thesis by (auto simp: transceive_def split: if_splits)
next
  case False
  then have l: "4 \<le> length cmd" by simp
  show ?thesis
  proof (cases "cmd ! 0 = 0x90")
    case True
    have n: "native cmd s = Some (r, s')" using assms(2) l True by (simp add: transceive_def)
    note ins = harmless_native [OF l True assms(3)]
    have v: "durable (snd (version_frame t)) = durable t" "durable (snd (auth_first_step b p t)) = durable t" for t b p
      by (rule durable_parts)+
    from n ins show ?thesis
      apply (simp only: native_def Let_def)
      apply (auto simp: v split: if_splits option.splits dest!: durable_auth_second durable_get_settings)
      using v(1) by (metis durable_upd snd_conv)+
  next
    case F: False
    then have z: "cmd ! 0 = 0x00" using False by simp
    show ?thesis
      using assms(2) l z harmless_iso [OF l z assms(3)] durable_iso_read [OF assms(1)] durable_parts(4) [of cmd s]
      by (auto simp: transceive_def split: if_splits)
  qed
qed

end
