(* ===== verification/Chaining.thy ===== *)
theory Chaining
  imports Apdu
begin

text \<open>
  \<open>nfc/apdu_chain.go\<close> and the pure part of \<open>nfc/sequence.go\<close>: following a card's 61xx and 6Cxx
  answers, and running a list of commands with rules that stop it. What carries a command to the
  card is an argument: a function of the command and a state of its own, which either fails or
  replies. The last sections serve the chain from the emulated applet of
  \<open>nfc/nfctest/chaining_applet.go\<close>.
\<close>

type_synonym ('s, 'e) transport = "bytes \<Rightarrow> 's \<Rightarrow> ('e + bytes) \<times> 's"

section \<open>Chained exchanges\<close>

definition max_get_response_rounds :: nat where
  "max_get_response_rounds = 64"

definition get_response_cla :: "byte \<Rightarrow> byte" where
  "get_response_cla cla =
     (if cla AND 0x80 \<noteq> 0 then cla else if cla AND 0x40 \<noteq> 0 then cla AND 0x4F else cla AND 0x03)"

definition with_short_le :: "bytes \<Rightarrow> byte \<Rightarrow> bytes option" where
  "with_short_le cmd le =
     (if length cmd < 4 then None
      else let body = length cmd - 4
           in if body = 0 then Some (cmd @ [le])
              else if body = 1 then Some (cmd[4 := le])
              else let lc = unat (cmd ! 4)
                   in if lc = 0 then None
                      else if body = 1 + lc then Some (cmd @ [le])
                      else if body = 2 + lc then Some (cmd[length cmd - 1 := le])
                      else None)"

definition more_data :: "bytes \<Rightarrow> bool" where
  "more_data reply \<longleftrightarrow> 2 \<le> length reply \<and> reply ! (length reply - 2) = 0x61"

definition get_response :: "byte \<Rightarrow> bytes \<Rightarrow> bytes" where
  "get_response cla reply = [get_response_cla cla, 0xC0, 0x00, 0x00, reply ! (length reply - 1)]"

definition joined :: "bytes \<Rightarrow> bytes \<Rightarrow> bytes" where
  "joined body reply = (if length body = 0 \<or> length reply < 2 then reply else body @ reply)"

fun get_more ::
    "nat \<Rightarrow> ('s, 'e) transport \<Rightarrow> byte \<Rightarrow> bytes \<Rightarrow> bytes \<Rightarrow> bytes list \<Rightarrow> 's \<Rightarrow> ('e + bytes) \<times> bytes list \<times> 's" where
  "get_more 0 ex cla body reply follow s = (Inr (joined body reply), follow, s)"
| "get_more (Suc n) ex cla body reply follow s =
     (if \<not> more_data reply then (Inr (joined body reply), follow, s)
      else let next_cmd = get_response cla reply; follow' = follow @ [next_cmd]
           in case ex next_cmd s of
                (Inl e, s') \<Rightarrow> (Inl e, follow', s')
              | (Inr reply', s') \<Rightarrow>
                  get_more n ex cla (body @ take (length reply - 2) reply) reply' follow' s')"

definition exchange_chained ::
    "bytes \<Rightarrow> ('s, 'e) transport \<Rightarrow> 's \<Rightarrow> ('e + bytes) \<times> bytes list \<times> 's" where
  "exchange_chained cmd ex s =
     (case ex cmd s of
        (Inl e, s1) \<Rightarrow> (Inl e, [], s1)
      | (Inr reply, s1) \<Rightarrow>
          if length cmd < 4 \<or> length reply < 2 then (Inr reply, [], s1)
          else let more = get_more max_get_response_rounds ex (cmd ! 0) []
               in case (if reply ! (length reply - 2) = 0x6C
                        then with_short_le cmd (reply ! (length reply - 1)) else None) of
                    None \<Rightarrow> more reply [] s1
                  | Some retry \<Rightarrow>
                      (case ex retry s1 of
                         (Inl e, s2) \<Rightarrow> (Inl e, [retry], s2)
                       | (Inr reply', s2) \<Rightarrow> more reply' [retry] s2))"

section \<open>Sequences\<close>

record sequence_step =
  qData :: bytes
  qExpectSW :: "uint16 list"
  qStopOnSW :: "uint16 list"
  qAutoGetResponse :: bool

record sequence_result =
  qReplies :: "bytes list"
  qStoppedAt :: int
  qFollowups :: "bytes list list"

datatype sequence_error = QNoSteps | QTooMany nat | QNoCommand nat

definition max_sequence_steps :: nat where
  "max_sequence_steps = 32"

definition reply_sw :: "bytes \<Rightarrow> uint16" where
  "reply_sw reply =
     push_bit 8 (ucast (reply ! (length reply - 2))) OR ucast (reply ! (length reply - 1))"

definition step_stops :: "sequence_step \<Rightarrow> bytes \<Rightarrow> bool" where
  "step_stops st reply =
     (if length (qExpectSW st) = 0 \<and> length (qStopOnSW st) = 0 then False
      else if length reply < 2 then 0 < length (qExpectSW st)
      else if reply_sw reply \<in> set (qStopOnSW st) then True
      else if length (qExpectSW st) = 0 then False
      else reply_sw reply \<notin> set (qExpectSW st))"

fun first_empty :: "nat \<Rightarrow> sequence_step list \<Rightarrow> nat option" where
  "first_empty i [] = None"
| "first_empty i (st # sts) = (if length (qData st) = 0 then Some i else first_empty (i + 1) sts)"

definition validate_sequence :: "sequence_step list \<Rightarrow> sequence_error + unit" where
  "validate_sequence steps =
     (if length steps = 0 then Inl QNoSteps
      else if max_sequence_steps < length steps then Inl (QTooMany (length steps))
      else case first_empty 0 steps of Some i \<Rightarrow> Inl (QNoCommand i) | None \<Rightarrow> Inr ())"

definition run_step :: "sequence_step \<Rightarrow> ('s, 'e) transport \<Rightarrow> 's \<Rightarrow> ('e + bytes) \<times> bytes list \<times> 's" where
  "run_step st ex s =
     (if qAutoGetResponse st then exchange_chained (qData st) ex s
      else let (r, s') = ex (qData st) s in (r, [], s'))"

fun run_steps ::
    "nat \<Rightarrow> sequence_step list \<Rightarrow> ('s, 'e) transport \<Rightarrow> sequence_result \<Rightarrow> 's \<Rightarrow> ('e + sequence_result) \<times> 's" where
  "run_steps i [] ex res s = (Inr res, s)"
| "run_steps i (st # sts) ex res s =
     (case run_step st ex s of
        (Inl e, follow, s') \<Rightarrow> (Inl e, s')
      | (Inr reply, follow, s') \<Rightarrow>
          let res' = res\<lparr>qReplies := qReplies res @ [reply], qFollowups := qFollowups res @ [follow]\<rparr>
          in if step_stops st reply then (Inr (res'\<lparr>qStoppedAt := int i\<rparr>), s')
             else run_steps (i + 1) sts ex res' s')"

definition run_sequence :: "sequence_step list \<Rightarrow> ('s, 'e) transport \<Rightarrow> 's \<Rightarrow> ('e + sequence_result) \<times> 's" where
  "run_sequence steps ex s =
     run_steps 0 steps ex \<lparr>qReplies = [], qStoppedAt = -1, qFollowups = []\<rparr> s"

section \<open>What reaches the card\<close>

text \<open>The commands sent one by one, up to the first that fails.\<close>

fun send_all :: "('s, 'e) transport \<Rightarrow> bytes list \<Rightarrow> 's \<Rightarrow> ('e + bytes list) \<times> 's" where
  "send_all ex [] s = (Inr [], s)"
| "send_all ex (c # cs) s =
     (case ex c s of
        (Inl e, s') \<Rightarrow> (Inl e, s')
      | (Inr r, s') \<Rightarrow> (case send_all ex cs s' of
            (Inl e, s2) \<Rightarrow> (Inl e, s2) | (Inr rs, s2) \<Rightarrow> (Inr (r # rs), s2)))"

text \<open>The data fields of every reply, and the status word of the last.\<close>

definition data_field :: "bytes \<Rightarrow> bytes" where
  "data_field reply = take (length reply - 2) reply"

fun assembled :: "bytes list \<Rightarrow> bytes" where
  "assembled [] = []"
| "assembled [r] = r"
| "assembled (r # rs) = data_field r @ assembled rs"

lemma get_more_sends:
  assumes "get_more n ex cla body reply follow s = (r, follow', s')"
  shows "\<exists>more. follow' = follow @ more \<and> length more \<le> n \<and>
    (case r of Inl e \<Rightarrow> send_all ex more s = (Inl e, s')
     | Inr out \<Rightarrow> \<exists>rs. send_all ex more s = (Inr rs, s') \<and> length rs = length more \<and>
         list_all more_data (butlast (reply # rs)) \<and>
         (length more < n \<longrightarrow> \<not> more_data (last (reply # rs))) \<and>
         (2 \<le> length (last (reply # rs)) \<longrightarrow> out = body @ assembled (reply # rs)))"
  using assms
proof (induction n arbitrary: body reply follow s)
  case 0
  then show ?case by (auto simp: joined_def intro!: exI [of _ "[]"])
next
  case (Suc n)
  show ?case
  proof (cases "more_data reply")
    case False
    with Suc.prems show ?thesis by (auto simp: joined_def intro!: exI [of _ "[]"])
  next
    case True
    let ?c = "get_response cla reply"
    obtain x s1 where x: "ex ?c s = (x, s1)" by fastforce
    show ?thesis
    proof (cases x)
      case (Inl e)
      with Suc.prems True x show ?thesis by (auto simp: Let_def intro!: exI [of _ "[?c]"])
    next
      case (Inr reply')
      with Suc.prems True x have
        "get_more n ex cla (body @ data_field reply) reply' (follow @ [?c]) s1 = (r, follow', s')"
        by (simp add: Let_def data_field_def)
      from Suc.IH [OF this] obtain more where m: "follow' = follow @ ?c # more" "length more \<le> n"
        "case r of Inl e \<Rightarrow> send_all ex more s1 = (Inl e, s')
         | Inr out \<Rightarrow> \<exists>rs. send_all ex more s1 = (Inr rs, s') \<and> length rs = length more \<and>
             list_all more_data (butlast (reply' # rs)) \<and>
             (length more < n \<longrightarrow> \<not> more_data (last (reply' # rs))) \<and>
             (2 \<le> length (last (reply' # rs)) \<longrightarrow> out = (body @ data_field reply) @ assembled (reply' # rs))"
        by auto
      show ?thesis
      proof (cases r)
        case (Inl e)
        with m x \<open>x = Inr reply'\<close> show ?thesis by (intro exI [of _ "?c # more"]) simp
      next
        case out: (Inr out)
        then obtain rs where rs: "send_all ex more s1 = (Inr rs, s')" "length rs = length more"
          "list_all more_data (butlast (reply' # rs))"
          "length more < n \<longrightarrow> \<not> more_data (last (reply' # rs))"
          "2 \<le> length (last (reply' # rs)) \<longrightarrow> out = (body @ data_field reply) @ assembled (reply' # rs)"
          using m(3) by auto
        have "assembled (reply # reply' # rs) = data_field reply @ assembled (reply' # rs)" by simp
        with rs m(1,2) x \<open>x = Inr reply'\<close> True out show ?thesis
          by (intro exI [of _ "?c # more"]) (simp del: assembled.simps)
      qed
    qed
  qed
qed

text \<open>A chained exchange is the commands it reports, at most one repeat and 64 GET RESPONSE.\<close>

lemma chained_sends:
  assumes "exchange_chained cmd ex s = (r, follow, s')"
  shows "length follow \<le> 65 \<and>
    (case r of Inl e \<Rightarrow> send_all ex (cmd # follow) s = (Inl e, s')
     | Inr out \<Rightarrow> \<exists>rs. send_all ex (cmd # follow) s = (Inr rs, s') \<and> length rs = Suc (length follow))"
proof -
  obtain x s1 where x: "ex cmd s = (x, s1)" by fastforce
  have g: "length follow \<le> 64 + length f0 \<and>
     (case r of Inl e \<Rightarrow> \<exists>more. follow = f0 @ more \<and> send_all ex more t = (Inl e, s')
      | Inr out \<Rightarrow> \<exists>more rs. follow = f0 @ more \<and> send_all ex more t = (Inr rs, s') \<and> length rs = length more)"
    if "get_more max_get_response_rounds ex cla [] reply f0 t = (r, follow, s')" for cla reply f0 t
    using get_more_sends [OF that] by (cases r) (auto simp: max_get_response_rounds_def)
  show ?thesis
  proof (cases x)
    case (Inl e)
    with assms x show ?thesis by (auto simp: exchange_chained_def)
  next
    case x1: (Inr reply)
    show ?thesis
    proof (cases "length cmd < 4 \<or> length reply < 2")
      case True
      with assms x x1 show ?thesis by (auto simp: exchange_chained_def)
    next
      case long: False
      define le where "le = (if reply ! (length reply - 2) = 0x6C
          then with_short_le cmd (reply ! (length reply - 1)) else None)"
      show ?thesis
      proof (cases le)
        case None
        with assms x x1 long have "get_more max_get_response_rounds ex (cmd ! 0) [] reply [] s1 = (r, follow, s')"
          by (auto simp: exchange_chained_def le_def)
        from g [OF this] show ?thesis by (cases r) (auto simp: x x1)
      next
        case (Some retry)
        obtain y s2 where y: "ex retry s1 = (y, s2)" by fastforce
        show ?thesis
        proof (cases y)
          case (Inl e)
          with assms x x1 long Some y show ?thesis by (auto simp: exchange_chained_def le_def split: if_splits)
        next
          case (Inr reply')
          with assms x x1 long Some y have
            "get_more max_get_response_rounds ex (cmd ! 0) [] reply' [retry] s2 = (r, follow, s')"
            by (auto simp: exchange_chained_def le_def split: if_splits)
          from g [OF this] show ?thesis by (cases r) (auto simp: x x1 y Inr)
        qed
      qed
    qed
  qed
qed

section \<open>Runs of a sequence\<close>

lemma run_steps_result:
  assumes "run_steps i steps ex res s = (Inr res', s')" "qStoppedAt res = -1" "length (qReplies res) = i"
  shows "\<exists>rs. qReplies res' = qReplies res @ rs \<and> length rs \<le> length steps \<and>
    length (qFollowups res') = length (qFollowups res) + length rs \<and>
    (if qStoppedAt res' = -1 then length rs = length steps \<and> (\<forall>k < length rs. \<not> step_stops (steps ! k) (rs ! k))
     else qStoppedAt res' = int (i + length rs) - 1 \<and> rs \<noteq> [] \<and>
       step_stops (steps ! (length rs - 1)) (last rs) \<and>
       (\<forall>k < length rs - 1. \<not> step_stops (steps ! k) (rs ! k)))"
  using assms
proof (induction i steps ex res s rule: run_steps.induct)
  case (1 i ex res s)
  then show ?case by auto
next
  case (2 i st sts ex res s)
  obtain x follow s1 where x: "run_step st ex s = (x, follow, s1)" by (metis prod_cases3)
  with 2(2) obtain reply where r: "x = Inr reply" by (cases x) auto
  define res1 where "res1 = res\<lparr>qReplies := qReplies res @ [reply], qFollowups := qFollowups res @ [follow]\<rparr>"
  show ?case
  proof (cases "step_stops st reply")
    case True
    with 2 x r show ?thesis by (auto intro!: exI [of _ "[reply]"])
  next
    case False
    with 2(2) x r have n: "run_steps (i + 1) sts ex res1 s1 = (Inr res', s')" by (simp add: res1_def Let_def)
    have "qStoppedAt res1 = -1" "length (qReplies res1) = i + 1" using 2(3,4) by (simp_all add: res1_def)
    from 2(1) [OF x [symmetric] _ _ _ False n [unfolded res1_def] this [unfolded res1_def]] r x
    obtain rs where rs: "qReplies res' = qReplies res1 @ rs" "length rs \<le> length sts"
      "length (qFollowups res') = length (qFollowups res1) + length rs"
      "if qStoppedAt res' = -1 then length rs = length sts \<and> (\<forall>k < length rs. \<not> step_stops (sts ! k) (rs ! k))
       else qStoppedAt res' = int (i + 1 + length rs) - 1 \<and> rs \<noteq> [] \<and>
         step_stops (sts ! (length rs - 1)) (last rs) \<and>
         (\<forall>k < length rs - 1. \<not> step_stops (sts ! k) (rs ! k))"
      by (auto simp: res1_def)
    show ?thesis
      by (rule exI [of _ "reply # rs"])
        (use rs False in \<open>auto simp: res1_def less_Suc_eq_0_disj nth_Cons' split: if_splits\<close>)
  qed
qed

lemma get_more_stop: "\<not> more_data reply \<Longrightarrow> get_more n ex cla body reply follow s = (Inr (joined body reply), follow, s)"
  by (cases n) simp_all

lemma get_more_next:
  assumes "more_data reply" "ex (get_response cla reply) s = (Inr reply', s')"
  shows "get_more (Suc n) ex cla body reply follow s =
    get_more n ex cla (body @ data_field reply) reply' (follow @ [get_response cla reply]) s'"
  using assms by (simp add: Let_def data_field_def)

declare get_more.simps [simp del]

lemma data_field_split [simp]: "data_field (b @ [x, y]) = b"
  by (simp add: data_field_def)

lemma more_data_split [simp]: "more_data (b @ [x, y]) \<longleftrightarrow> x = 0x61" "more_data [x, y] \<longleftrightarrow> x = 0x61"
  by (simp_all add: more_data_def nth_append)

lemma exchange_chained_plain:
  assumes "ex cmd s = (Inr reply, s1)" "4 \<le> length cmd" "2 \<le> length reply" "reply ! (length reply - 2) \<noteq> 0x6C"
  shows "exchange_chained cmd ex s = get_more max_get_response_rounds ex (cmd ! 0) [] reply [] s1"
  using assms by (simp add: exchange_chained_def)

lemma exchange_chained_retry:
  assumes "ex cmd s = (Inr reply, s1)" "2 \<le> length reply" "reply ! (length reply - 2) = 0x6C"
    and "with_short_le cmd (reply ! (length reply - 1)) = Some retry" "ex retry s1 = (Inr reply', s2)"
  shows "exchange_chained cmd ex s = get_more max_get_response_rounds ex (cmd ! 0) [] reply' [retry] s2"
  using assms by (auto simp: exchange_chained_def with_short_le_def split: if_splits)

end
