(* ===== verification/ChainApplet.thy ===== *)
theory ChainApplet
  imports Chaining Ntag424Card
begin

text \<open>
  \<open>nfc/nfctest/chaining_applet.go\<close>: the emulated card that answers 61xx and 6Cxx, and what a
  chained exchange with it returns.
\<close>

record chain_applet =
  capReceived :: "bytes list"
  capPending :: bytes

definition chain_chunked :: bytes where
  "chain_chunked = map (\<lambda>i. byteN (0xA0 + i)) [0..<32]"

definition chain_short_le :: bytes where
  "chain_short_le = [0x01, 0x02, 0x03, 0x04, 0x05, 0x06, 0x07, 0x08]"

definition chain_release :: "nat \<Rightarrow> chain_applet \<Rightarrow> bytes \<times> chain_applet" where
  "chain_release n0 a =
     (let n = min n0 (length (capPending a)); out = take n (capPending a); left = drop n (capPending a);
          a' = a\<lparr>capPending := left\<rparr>
      in (if left = [] then apdu_data out else out @ [0x61, byteN (min (length left) 0xFF)], a'))"

definition chain_get_data :: "bytes \<Rightarrow> chain_applet \<Rightarrow> bytes \<times> chain_applet" where
  "chain_get_data cmd a =
     (if cmd ! 2 = 0x00 then (apdu_sw 0x6110, a\<lparr>capPending := chain_chunked\<rparr>)
      else if cmd ! 2 = 0x01
      then (if length cmd \<noteq> 5 \<or> cmd ! 4 \<noteq> 8 then apdu_sw 0x6C08 else apdu_data chain_short_le, a)
      else (apdu_sw 0x6A86, a))"

definition chain_get_response :: "bytes \<Rightarrow> chain_applet \<Rightarrow> bytes \<times> chain_applet" where
  "chain_get_response cmd a =
     (if length (capPending a) = 0 then (apdu_sw 0x6985, a)
      else let le0 = unat (cmd ! (length cmd - 1));
               le = (if length cmd \<noteq> 5 \<or> le0 = 0 then length (capPending a) else le0)
           in chain_release le a)"

definition chain_transceive :: "bytes \<Rightarrow> chain_applet \<Rightarrow> bytes \<times> chain_applet" where
  "chain_transceive cmd a0 =
     (let a = a0\<lparr>capReceived := capReceived a0 @ [cmd]\<rparr>
      in if length cmd < 4 then (apdu_sw 0x6700, a)
         else if cmd ! 1 = 0xCA then chain_get_data cmd a
         else if cmd ! 1 = 0xC0 then chain_get_response cmd a
         else (apdu_sw 0x6D00, a))"

text \<open>The emulator never fails to carry a command.\<close>

definition chain_exchange :: "(chain_applet, unit) transport" where
  "chain_exchange cmd a = (let (r, a') = chain_transceive cmd a in (Inr r, a'))"

section \<open>Fetching what the card holds\<close>

lemma joined_append: "2 \<le> length reply \<Longrightarrow> joined body reply = body @ reply"
  by (simp add: joined_def)

lemma chain_serves:
  assumes "0 < unat xx" "capPending a \<noteq> []"
  shows "chain_exchange (get_response cla (b @ [0x61, xx])) a =
    (let p = capPending a; n = min (unat xx) (length p); left = drop n p;
         a' = a\<lparr>capReceived := capReceived a @ [get_response cla (b @ [0x61, xx])], capPending := left\<rparr>
     in (Inr (take n p @ (if left = [] then [0x90, 0x00] else [0x61, byteN (min (length left) 0xFF)])), a'))"
  using assms by (simp add: chain_exchange_def chain_transceive_def get_response_def chain_get_response_def
      chain_release_def apdu_data_def Let_def nth_append)

lemma chain_fetches:
  assumes "0 < unat xx" "capPending a \<noteq> []" "length (capPending a) \<le> unat xx + 255 * n"
  shows "\<exists>follow' a'. get_more (Suc n) chain_exchange cla body (b @ [0x61, xx]) follow a =
      (Inr (body @ b @ capPending a @ [0x90, 0x00]), follow', a') \<and> capPending a' = []"
  using assms
proof (induction n arbitrary: xx a body b follow)
  case 0
  then have "drop (unat xx) (capPending a) = []" by simp
  with 0 have e: "chain_exchange (get_response cla (b @ [0x61, xx])) a = (Inr (capPending a @ [0x90, 0x00]),
      a\<lparr>capReceived := capReceived a @ [get_response cla (b @ [0x61, xx])], capPending := []\<rparr>)"
    by (simp add: chain_serves Let_def min_absorb2)
  show ?case by (subst get_more_next [where ex = chain_exchange, OF _ e]) (simp_all add: get_more_stop joined_append)
next
  case (Suc n)
  define left where "left = drop (unat xx) (capPending a)"
  define a1 where "a1 = a\<lparr>capReceived := capReceived a @ [get_response cla (b @ [0x61, xx])], capPending := left\<rparr>"
  show ?case
  proof (cases "left = []")
    case True
    with Suc.prems have e: "chain_exchange (get_response cla (b @ [0x61, xx])) a = (Inr (capPending a @ [0x90, 0x00]), a1)"
      by (simp add: chain_serves Let_def min_absorb2 left_def a1_def)
    show ?thesis using True
      by (subst get_more_next [where ex = chain_exchange, OF _ e]) (simp_all add: get_more_stop joined_append a1_def)
  next
    case False
    let ?y = "byteN (min (length left) 0xFF)"
    have m: "min (unat xx) (length (capPending a)) = unat xx" "take (unat xx) (capPending a) @ left = capPending a"
      using False by (simp_all add: left_def)
    have y: "unat ?y = min (length left) 255" by simp
    have long: "\<not> length (capPending a) \<le> unat xx" using False by (simp add: left_def)
    have h: "0 < unat ?y" "capPending a1 \<noteq> []" "length (capPending a1) \<le> unat ?y + 255 * n"
      using False Suc.prems(3) long by (simp_all add: y a1_def left_def)
    have e: "chain_exchange (get_response cla (b @ [0x61, xx])) a =
        (Inr (take (unat xx) (capPending a) @ [0x61, ?y]), a1)"
      using Suc.prems False by (simp add: chain_serves Let_def m(1) left_def [symmetric] a1_def long)
    from Suc.IH [OF h, of "body @ b" "take (unat xx) (capPending a)" "follow @ [get_response cla (b @ [0x61, xx])]"]
    show ?thesis using m(2) by (subst get_more_next [where ex = chain_exchange, OF _ e]) (auto simp: a1_def)
  qed
qed

text \<open>The applet's two data objects, by one chained exchange each.\<close>

lemma chain_chunked_fetched:
  assumes "4 \<le> length cmd" "cmd ! 1 = 0xCA" "cmd ! 2 = 0x00"
  shows "\<exists>follow a'. exchange_chained cmd chain_exchange a = (Inr (chain_chunked @ [0x90, 0x00]), follow, a')"
proof -
  define a1 where "a1 = a\<lparr>capReceived := capReceived a @ [cmd], capPending := chain_chunked\<rparr>"
  have s: "chain_exchange cmd a = (Inr ([] @ [0x61, 0x10]), a1)"
    using assms by (simp add: chain_exchange_def chain_transceive_def chain_get_data_def apdu_sw_def a1_def)
  have h: "0 < unat (0x10 :: byte)" "capPending a1 \<noteq> []" "length (capPending a1) \<le> unat (0x10 :: byte) + 255 * 63"
    by (simp_all add: a1_def chain_chunked_def)
  have r: "max_get_response_rounds = Suc 63" by (simp add: max_get_response_rounds_def)
  have "exchange_chained cmd chain_exchange a =
      get_more (Suc 63) chain_exchange (cmd ! 0) [] ([] @ [0x61, 0x10]) [] a1"
    using exchange_chained_plain [where ex = chain_exchange, OF s assms(1)] by (simp add: r)
  with chain_fetches [OF h, of "cmd ! 0" "[]" "[]" "[]"] show ?thesis by (auto simp: a1_def)
qed

lemma chain_short_le_fetched:
  assumes "cmd = [0x00, 0xCA, 0x01, p2] \<or> (\<exists>le. cmd = [0x00, 0xCA, 0x01, p2, le] \<and> le \<noteq> 8)"
  shows "\<exists>a'. exchange_chained cmd chain_exchange a =
    (Inr (chain_short_le @ [0x90, 0x00]), [[0x00, 0xCA, 0x01, p2, 8]], a')"
proof -
  define retry :: bytes where "retry = [0x00, 0xCA, 0x01, p2, 8]"
  have w: "with_short_le cmd 8 = Some retry"
    using assms by (auto simp: with_short_le_def retry_def Let_def)
  define a1 where "a1 = a\<lparr>capReceived := capReceived a @ [cmd]\<rparr>"
  have s: "chain_exchange cmd a = (Inr [0x6C, 0x08], a1)"
    using assms by (auto simp: chain_exchange_def chain_transceive_def chain_get_data_def apdu_sw_def a1_def)
  have "chain_exchange retry a1 = (Inr (chain_short_le @ [0x90, 0x00]), a1\<lparr>capReceived := capReceived a1 @ [retry]\<rparr>)"
    by (simp add: chain_exchange_def chain_transceive_def chain_get_data_def apdu_data_def retry_def)
  from exchange_chained_retry [OF s _ _ _ this] w show ?thesis
    by (simp add: get_more_stop joined_def retry_def)
qed

end
