(* ===== verification/Effects.thy ===== *)
theory Effects
  imports Apdu
begin

text \<open>
  Vocabulary of the tag drivers: computations that pass a state along and may fail, the errors
  a driver reports (\<open>nfc/errors.go\<close>), and the card exchange of \<open>nfc/tag_base.go\<close>. An error that
  the code wraps with more text keeps its kind, so a wrapped error is the error it wraps. The
  transport is an argument, with an error type of its own.
\<close>

type_synonym ('s, 'e, 'a) action = "'s \<Rightarrow> ('e + 'a) \<times> 's"

section \<open>Sequencing\<close>

definition doS :: "('s, 'e, 'a) action \<Rightarrow> ('a \<Rightarrow> ('s, 'e, 'b) action) \<Rightarrow> ('s, 'e, 'b) action" where
  "doS m f s = (case m s of (Inl e, s') \<Rightarrow> (Inl e, s') | (Inr x, s') \<Rightarrow> f x s')"

definition retS :: "'a \<Rightarrow> ('s, 'e, 'a) action" where
  "retS x s = (Inr x, s)"

definition failS :: "'e \<Rightarrow> ('s, 'e, 'a) action" where
  "failS e s = (Inl e, s)"

text \<open>The outcome of a step that does not touch the state.\<close>

definition pureS :: "'e + 'a \<Rightarrow> ('s, 'e, 'a) action" where
  "pureS r s = (r, s)"

text \<open>What the code does with an error, when it does not just return it.\<close>

definition tryS :: "('s, 'e, 'a) action \<Rightarrow> ('e + 'a \<Rightarrow> ('s, 'e, 'b) action) \<Rightarrow> ('s, 'e, 'b) action" where
  "tryS m f s = (let (r, s') = m s in f r s')"

lemma doS_step: "m s = (Inr x, s') \<Longrightarrow> doS m f s = f x s'"
  by (simp add: doS_def)

lemma doS_fail: "m s = (Inl e, s') \<Longrightarrow> doS m f s = (Inl e, s')"
  by (simp add: doS_def)

lemma doS_simps [simp]:
  "doS (retS x) f = f x" "doS (pureS (Inr x)) f = f x" "doS (failS e) f = failS e"
  "doS (pureS (Inl e)) f = failS e" "retS x s = (Inr x, s)" "failS e s = (Inl e, s)" "pureS r s = (r, s)"
  by (rule ext, simp add: doS_def retS_def failS_def pureS_def)+
    (simp_all add: retS_def failS_def pureS_def)

lemma doS_eq_Inr:
  "doS m f s = (Inr y, s') \<longleftrightarrow> (\<exists>x s1. m s = (Inr x, s1) \<and> f x s1 = (Inr y, s'))"
  by (auto simp: doS_def split: prod.splits sum.splits)

lemma doS_eq_Inl:
  "doS m f s = (Inl e, s') \<longleftrightarrow>
     m s = (Inl e, s') \<or> (\<exists>x s1. m s = (Inr x, s1) \<and> f x s1 = (Inl e, s'))"
  by (auto simp: doS_def split: prod.splits sum.splits)

lemma tryS_step: "m s = (r, s') \<Longrightarrow> tryS m f s = f r s'"
  by (simp add: tryS_def)

lemma doS_assoc: "doS (doS m f) g = doS m (\<lambda>x. doS (f x) g)"
  by (rule ext) (simp add: doS_def split: prod.split sum.split)

text \<open>What a relation between states asks of a computation: to lead only to related states.\<close>

definition leads :: "('s \<Rightarrow> 's \<Rightarrow> bool) \<Rightarrow> ('s, 'e, 'a) action \<Rightarrow> bool" where
  "leads R m \<longleftrightarrow> (\<forall>s. R s (snd (m s)))"

lemma leads_do:
  assumes "leads R m" "\<And>x. leads R (f x)" "\<And>a b c. R a b \<Longrightarrow> R b c \<Longrightarrow> R a c"
  shows "leads R (doS m f)"
  unfolding leads_def
proof
  fix s
  obtain r s1 where m: "m s = (r, s1)" by fastforce
  then have "R s s1" using assms(1) by (metis leads_def snd_conv)
  moreover have "R s1 (snd (f x s1))" for x using assms(2) by (simp add: leads_def)
  ultimately show "R s (snd (doS m f s))"
    using m assms(3) by (cases r) (auto simp: doS_def)
qed

lemma leads_unit:
  assumes "\<And>s. R s s"
  shows "leads R (retS x)" "leads R (failS e)" "leads R (pureS r)"
  using assms by (simp_all add: leads_def)

section \<open>Errors of a driver\<close>

text \<open>The codes of \<open>NFCError\<close> that the modelled drivers use, and the plain errors between them.\<close>

datatype 'e tag_error =
    TIO 'e
  | TNoStatus
  | TStatus byte byte
  | TNotSupported
  | TNoPayload "'e tag_error option"
  | TReadOnly "'e tag_error option"
  | TCapacity nat nat
  | TShortRead nat nat
  | TBadLength nat nat
  | TBadData

fun is_no_payload :: "'e tag_error \<Rightarrow> bool" where
  "is_no_payload (TNoPayload c) = True" | "is_no_payload _ = False"

section \<open>One exchange\<close>

definition transmit_raw :: "('s, 'e, bytes) action \<Rightarrow> ('s, 'e tag_error, bytes) action" where
  "transmit_raw exch s = (case exch s of (Inl e, s') \<Rightarrow> (Inl (TIO e), s') | (Inr r, s') \<Rightarrow> (Inr r, s'))"

definition tag_transceive ::
    "(bytes \<Rightarrow> ('s, 'e, bytes) action) \<Rightarrow> bytes \<Rightarrow> ('s, 'e tag_error, bytes) action" where
  "tag_transceive dev cmd =
     doS (transmit_raw (dev cmd)) (\<lambda>resp.
       case parse_apdu_response resp of
         None \<Rightarrow> failS TNoStatus
       | Some r \<Rightarrow> if \<not> is_success r \<and> \<not> has_more_data r then failS (TStatus (arSW1 r) (arSW2 r))
                   else retS (arData r))"

lemma tag_transceive_ok:
  assumes "dev cmd s = (Inr (d @ [0x90, 0x00]), s')"
  shows "tag_transceive dev cmd s = (Inr d, s')"
  using assms
  by (simp add: tag_transceive_def transmit_raw_def doS_def parse_apdu_response_split is_success_def)

lemma tag_transceive_refused:
  assumes "dev cmd s = (Inr [a, b], s')" "\<not> (a = 0x90 \<and> b = 0)" "a \<noteq> 0x61"
  shows "tag_transceive dev cmd s = (Inl (TStatus a b), s')"
  using assms parse_apdu_response_split [of "[]" a b]
  by (simp add: tag_transceive_def transmit_raw_def doS_def is_success_def has_more_data_def)

text \<open>\<open>ndefAreaLocked\<close>: bit 4 of the first static lock byte locks page 4.\<close>

definition ndef_area_locked ::
    "(bytes \<Rightarrow> ('s, 'e, bytes) action) \<Rightarrow> ('s, 'e tag_error, bool) action" where
  "ndef_area_locked dev =
     doS (tag_transceive dev (read_binary_apdu 2 4)) (\<lambda>resp.
       if length resp < 3 then failS (TShortRead (length resp) 4) else retS (bit (resp ! 2) 4))"

end
