(* ===== verification/Type4.thy ===== *)
theory Type4
  imports Effects Ntag424Card
begin

text \<open>
  \<open>nfc/tag_iso14443.go\<close>: the driver of an NFC Forum Type 4 tag, over any transport, and its
  NDEF file exchange run against the emulated NTAG 424 DNA.
\<close>

section \<open>The driver\<close>

definition ndef_app_aid :: bytes where
  "ndef_app_aid = [0xD2, 0x76, 0x00, 0x00, 0x85, 0x01, 0x01]"

record type4_cc =
  ccFileID :: bytes
  ccFileSize :: nat
  ccMLe :: nat
  ccMLc :: nat

text \<open>The File Control TLV, from the index the walk has reached.\<close>

function cc_walk :: "bytes \<Rightarrow> nat \<Rightarrow> type4_cc \<Rightarrow> type4_cc" where
  "cc_walk cc i out =
     (if \<not> i + 3 < length cc then out
      else let tag = cc ! i; n = unat (cc ! (i + 1))
           in if tag = 0x04 \<and> 6 \<le> n \<and> i + 2 + n \<le> length cc
              then out\<lparr>ccFileID := slice (i + 2) (i + 4) cc,
                       ccFileSize := 256 * unat (cc ! (i + 4)) + unat (cc ! (i + 5))\<rparr>
              else cc_walk cc (i + 2 + n) out)"
  by pat_completeness auto
termination by (relation "measure (\<lambda>(cc, i, out). length cc - i)") auto

declare cc_walk.simps [simp del]

definition parse_type4_cc :: "bytes \<Rightarrow> 'e tag_error + type4_cc" where
  "parse_type4_cc cc =
     (if length cc < 7 then Inl TBadData
      else Inr (cc_walk cc 7 \<lparr>ccFileID = [0xE1, 0x04], ccFileSize = 0,
                  ccMLe = 256 * unat (cc ! 3) + unat (cc ! 4),
                  ccMLc = 256 * unat (cc ! 5) + unat (cc ! 6)\<rparr>))"

definition chunk_limit :: "nat \<Rightarrow> nat" where
  "chunk_limit declared = (if 0 < declared \<and> declared < 253 then declared else 253)"

definition read_chunk :: "type4_cc \<Rightarrow> nat" where "read_chunk c = chunk_limit (ccMLe c)"
definition write_chunk :: "type4_cc \<Rightarrow> nat" where "write_chunk c = chunk_limit (ccMLc c)"

definition select_ndef_file :: "(bytes \<Rightarrow> ('s, 'e, bytes) action) \<Rightarrow> ('s, 'e tag_error, type4_cc) action" where
  "select_ndef_file dev =
     doS (tag_transceive dev (select_aid_apdu ndef_app_aid)) (\<lambda>_.
     doS (tag_transceive dev (select_file_apdu [0xE1, 0x03])) (\<lambda>_.
     doS (tag_transceive dev (read_binary_ext_apdu 0 15)) (\<lambda>ccData.
     doS (pureS (parse_type4_cc ccData)) (\<lambda>cc.
     doS (tag_transceive dev (select_file_apdu (ccFileID cc))) (\<lambda>_.
     retS cc)))))"

function read_ndef ::
    "(bytes \<Rightarrow> ('s, 'e, bytes) action) \<Rightarrow> nat \<Rightarrow> nat \<Rightarrow> nat \<Rightarrow> bytes \<Rightarrow> ('s, 'e tag_error, bytes) action" where
  "read_ndef dev maxRead off remaining acc s =
     (if remaining = 0 then (Inr acc, s)
      else case tag_transceive dev (read_binary_ext_apdu (of_nat off) (byteN (min remaining maxRead))) s of
             (Inl e, s') \<Rightarrow> (Inl e, s')
           | (Inr chunk, s') \<Rightarrow>
               if length chunk = 0 then (Inl (TShortRead 0 remaining), s')
               else read_ndef dev maxRead (off + length chunk) (remaining - length chunk) (acc @ chunk) s')"
  by pat_completeness auto
termination by (relation "measure (\<lambda>(dev, m, off, remaining, acc, s). remaining)") auto

declare read_ndef.simps [simp del]

definition type4_read_data :: "(bytes \<Rightarrow> ('s, 'e, bytes) action) \<Rightarrow> ('s, 'e tag_error, bytes) action" where
  "type4_read_data dev =
     doS (select_ndef_file dev) (\<lambda>cc.
     doS (tag_transceive dev (read_binary_ext_apdu 0 2)) (\<lambda>nlenData.
       if length nlenData < 2 then failS (TShortRead (length nlenData) 2)
       else let nlen = 256 * unat (nlenData ! 0) + unat (nlenData ! 1)
            in if nlen = 0 then failS (TNoPayload None)
               else if 2 < ccFileSize cc \<and> ccFileSize cc - 2 < nlen then failS (TBadLength nlen (ccFileSize cc - 2))
               else read_ndef dev (read_chunk cc) 2 nlen []))"

fun write_ndef ::
    "(bytes \<Rightarrow> ('s, 'e, bytes) action) \<Rightarrow> nat \<Rightarrow> bytes list \<Rightarrow> ('s, 'e tag_error, unit) action" where
  "write_ndef dev off [] = retS ()"
| "write_ndef dev off (c # cs) =
     doS (tag_transceive dev (update_binary_ext_apdu (of_nat off) c)) (\<lambda>_.
       write_ndef dev (off + length c) cs)"

definition nlen_bytes :: "nat \<Rightarrow> bytes" where
  "nlen_bytes n = [byteN (n div 256), byteN n]"

definition type4_write_data :: "(bytes \<Rightarrow> ('s, 'e, bytes) action) \<Rightarrow> bytes \<Rightarrow> ('s, 'e tag_error, unit) action" where
  "type4_write_data dev data =
     doS (select_ndef_file dev) (\<lambda>cc.
       if 2 < ccFileSize cc \<and> ccFileSize cc - 2 < length data
       then failS (TCapacity (length data) (ccFileSize cc - 2))
       else doS (tag_transceive dev (update_binary_ext_apdu 0 [0x00, 0x00])) (\<lambda>_.
            doS (write_ndef dev 2 (chunks (write_chunk cc) data)) (\<lambda>_.
            doS (tag_transceive dev (update_binary_ext_apdu 0 (nlen_bytes (length data)))) (\<lambda>_.
            retS ()))))"

text \<open>\<open>IsWritable\<close>: every failure reads as not writable.\<close>

function access_walk :: "bytes \<Rightarrow> nat \<Rightarrow> bool" where
  "access_walk cc i =
     (if \<not> i + 3 < length cc then False
      else let tag = cc ! i; n = unat (cc ! (i + 1))
           in if tag = 0x04 \<and> 6 \<le> n \<and> i + 2 + n \<le> length cc then cc ! (i + 7) = 0x00
              else access_walk cc (i + 2 + n))"
  by pat_completeness auto
termination by (relation "measure (\<lambda>(cc, i). length cc - i)") auto

declare access_walk.simps [simp del]

definition type4_is_writable :: "(bytes \<Rightarrow> ('s, 'e, bytes) action) \<Rightarrow> ('s, 'e tag_error, bool) action" where
  "type4_is_writable dev =
     tryS (doS (tag_transceive dev (select_aid_apdu ndef_app_aid)) (\<lambda>_.
           doS (tag_transceive dev (select_file_apdu [0xE1, 0x03])) (\<lambda>_.
                tag_transceive dev (read_binary_ext_apdu 0 15))))
       (\<lambda>r. case r of Inl _ \<Rightarrow> retS False | Inr ccData \<Rightarrow> retS (access_walk ccData 7))"

definition type4_can_make_read_only :: bool where
  "type4_can_make_read_only = False"

definition type4_make_read_only :: "('s, 'e tag_error, unit) action" where
  "type4_make_read_only = failS TNotSupported"

end
