(* ===== verification/Ntag424Driver.thy ===== *)
theory Ntag424Driver
  imports Type4 Url Plan Ndef
begin

text \<open>
  The NTAG 424 DNA driver: \<open>nfc/tag_ntag424.go\<close>, \<open>tag_ntag424_ops.go\<close>, \<open>tag_ntag424_session.go\<close>,
  \<open>ntag424_budget.go\<close> and \<open>ntag424_keys.go\<close>. The state is the tag's own and that of the device
  behind it; the device, what counts as its card leaving and its clock are the environment. A
  mutex section is one step. The session the code keeps a pointer to is the channel in the
  state, and the reader's random numbers are an infinite supply in it. Times are integers.
\<close>

section \<open>Errors\<close>

datatype sdm_step = StepConfigure | StepWriteNDEF | StepSettings | StepChangeKey

datatype sdm_state =
    SDMNothingWritten | SDMNDEFWritten | SDMNDEFIndeterminate | SDMSettingsIndeterminate | SDMConfiguredUnverified

datatype 'e n4_error =
    NTag "'e tag_error"
  | NCmd cmd_error
  | NEv2 ev2_error
  | NShort nat
  | NAuth "'e n4_error"
  | NNoKey
  | NKeyNotHeld byte
  | NNoUndiversified
  | NLRP
  | NDelay
  | NSelect bytes
  | NNoPayload "'e n4_error option"
  | NReadOnly "'e n4_error option"
  | NCapacity nat nat
  | NNotSupported
  | NReadCount nat nat
  | NNlen nat nat
  | NRouteNoKey
  | NRouteKey byte
  | NRouteDenied
  | NDeadline sdm_step nat int int
  | NNoPlan
  | NPlanLength nat nat
  | NSDMState sdm_state "'e n4_error"
  | NNdef ndef_error
  | NUrl url_error
  | NOtherUID
  | NChangeDenied byte
  | NSettings settings_error

text \<open>What \<open>errors.Is\<close> and \<open>errors.As\<close> find along the causes of an error.\<close>

fun card_removed :: "('e \<Rightarrow> bool) \<Rightarrow> 'e n4_error \<Rightarrow> bool" where
  "card_removed gone (NTag (TIO e)) = gone e"
| "card_removed gone (NAuth c) = card_removed gone c"
| "card_removed gone (NNoPayload (Some c)) = card_removed gone c"
| "card_removed gone (NReadOnly (Some c)) = card_removed gone c"
| "card_removed gone (NSDMState st c) = card_removed gone c"
| "card_removed gone _ = False"

fun is_auth_error :: "'e n4_error \<Rightarrow> bool" where
  "is_auth_error (NAuth c) = True"
| "is_auth_error (NSDMState st c) = is_auth_error c"
| "is_auth_error _ = False"

fun status_error :: "'e n4_error \<Rightarrow> (byte \<times> byte) option" where
  "status_error (NCmd (CStatus a b)) = Some (a, b)"
| "status_error (NAuth c) = status_error c"
| "status_error (NNoPayload (Some c)) = status_error c"
| "status_error (NReadOnly (Some c)) = status_error c"
| "status_error (NSDMState st c) = status_error c"
| "status_error _ = None"

definition has_class :: "status_class \<Rightarrow> 'e n4_error \<Rightarrow> bool" where
  "has_class k e \<longleftrightarrow> (case status_error e of None \<Rightarrow> False | Some (a, b) \<Rightarrow> status_class_of a b = Some k)"

fun is_delay :: "'e n4_error \<Rightarrow> bool" where
  "is_delay NDelay = True"
| "is_delay (NAuth c) = is_delay c"
| "is_delay e = has_class AuthDelay e"

definition settings_denied :: "'e n4_error \<Rightarrow> bool" where
  "settings_denied e \<longleftrightarrow>
     (case status_error e of None \<Rightarrow> False | Some (a, b) \<Rightarrow> b = 0xAE \<or> has_class PermissionDenied e)"

section \<open>State\<close>

record op_budget =
  bDeadline :: int
  bFloor :: int
  bSlowest :: int

record 'e ntag424_tag =
  gUid :: bytes
  gKeys :: key_set
  gSession :: "channel option"
  gSessionKeyNo :: byte
  gRealUID :: "bytes option"
  gResolved :: bool
  gResolveErr :: "'e n4_error option"
  gFailedAuth :: "byte \<Rightarrow> 'e n4_error option"
  gDelayed :: bool
  gLRP :: bool
  gNdefSettings :: "file_settings option"
  gBudget :: "op_budget option"
  gWritesSent :: nat
  gRandom :: "nat \<Rightarrow> byte"

record ('s, 'e) n4_env =
  envDev :: "bytes \<Rightarrow> ('s, 'e, bytes) action"
  envRemoved :: "'e \<Rightarrow> bool"
  envNow :: "'s \<Rightarrow> int"

type_synonym ('s, 'e, 'a) n4 = "('e ntag424_tag \<times> 's, 'e n4_error, 'a) action"

definition no_keys :: key_set where
  "no_keys = \<lparr>ksMaster = [], ksSystemID = [], ksSlots = [], ksDiversify = False, ksAllowLRP = False\<rparr>"

definition new_ntag424_tag :: "bytes \<Rightarrow> (nat \<Rightarrow> byte) \<Rightarrow> 'e ntag424_tag" where
  "new_ntag424_tag uid random =
     \<lparr>gUid = uid, gKeys = no_keys, gSession = None, gSessionKeyNo = 0, gRealUID = None, gResolved = False,
      gResolveErr = None, gFailedAuth = Map.empty, gDelayed = False, gLRP = False, gNdefSettings = None,
      gBudget = None, gWritesSent = 0, gRandom = random\<rparr>"

definition changeS :: "('e ntag424_tag \<Rightarrow> 'e ntag424_tag) \<Rightarrow> ('s, 'e, unit) n4" where
  "changeS f = (\<lambda>(t, s). (Inr (), (f t, s)))"

definition askS :: "('e ntag424_tag \<Rightarrow> 'a) \<Rightarrow> ('s, 'e, 'a) n4" where
  "askS f = (\<lambda>(t, s). (Inr (f t), (t, s)))"

definition mapES :: "('e \<Rightarrow> 'f) \<Rightarrow> ('s, 'e, 'a) action \<Rightarrow> ('s, 'f, 'a) action" where
  "mapES g m s = (let (r, s') = m s in (mapErr g r, s'))"

section \<open>Identity and keys\<close>

text \<open>\<open>hex.DecodeString\<close> with its error dropped: what was decoded before it.\<close>

fun hex_prefix :: "bytes \<Rightarrow> bytes" where
  "hex_prefix (a # b # r) =
     (case hex_value a of None \<Rightarrow> [] | Some x \<Rightarrow>
      case hex_value b of None \<Rightarrow> [] | Some y \<Rightarrow> (push_bit 4 x OR y) # hex_prefix r)"
| "hex_prefix _ = []"

definition tag_uid :: "'e ntag424_tag \<Rightarrow> bytes" where
  "tag_uid t = (case gRealUID t of Some u \<Rightarrow> bytes_to_hex u | None \<Rightarrow> gUid t)"

definition uid_aliases :: "'e ntag424_tag \<Rightarrow> bytes list" where
  "uid_aliases t = (case gRealUID t of
     Some u \<Rightarrow> if bytes_to_hex u \<noteq> gUid t then [gUid t] else [] | None \<Rightarrow> [])"

definition random_id :: "'e ntag424_tag \<Rightarrow> bool" where
  "random_id t = (case hex_decode (gUid t) of None \<Rightarrow> False | Some raw \<Rightarrow> length raw = 4 \<and> raw ! 0 = 0x08)"

text \<open>\<open>ntag424KeysEqual\<close>; two maps are equal when they hold the same key for every number.\<close>

definition keys_equal :: "key_set \<Rightarrow> key_set \<Rightarrow> bool" where
  "keys_equal a b \<longleftrightarrow> ksDiversify a = ksDiversify b \<and> ksAllowLRP a = ksAllowLRP b \<and>
     ksMaster a = ksMaster b \<and> ksSystemID a = ksSystemID b \<and>
     list_all (\<lambda>n. map_of (ksSlots a) n = map_of (ksSlots b) n) (map fst (ksSlots a) @ map fst (ksSlots b))"

definition set_ntag424_keys :: "key_set \<Rightarrow> 'e ntag424_tag \<Rightarrow> 'e ntag424_tag" where
  "set_ntag424_keys keys t =
     (if keys_equal (gKeys t) keys then t
      else t\<lparr>gKeys := keys, gSession := None, gFailedAuth := Map.empty, gDelayed := False,
             gResolved := False, gResolveErr := None\<rparr>)"

definition holds_key :: "'e ntag424_tag \<Rightarrow> byte \<Rightarrow> bool" where
  "holds_key t keyNo = (case map_of (ksSlots (gKeys t)) keyNo of
     Some key \<Rightarrow> length key = 16 | None \<Rightarrow> keyNo \<le> 4 \<and> length (ksMaster (gKeys t)) = 16)"

definition any_held_key :: "'e ntag424_tag \<Rightarrow> byte option" where
  "any_held_key t = find (holds_key t) [0, 1, 2, 3, 4]"

definition session_key :: "'e ntag424_tag \<Rightarrow> 'e n4_error + byte" where
  "session_key t =
     (if gSession t \<noteq> None then Inr (gSessionKeyNo t)
      else case any_held_key t of Some n \<Rightarrow> Inr n | None \<Rightarrow> Inl (NAuth NNoKey))"

definition key_uid :: "'e ntag424_tag \<Rightarrow> bytes" where
  "key_uid t = (case gRealUID t of Some u \<Rightarrow> u | None \<Rightarrow> hex_prefix (gUid t))"

definition resolver_key :: "key_set \<Rightarrow> byte option" where
  "resolver_key keys =
     (case find (\<lambda>n. case map_of (ksSlots keys) n of None \<Rightarrow> False | Some k \<Rightarrow> length k = 16) (map byteN [0..<256]) of
        Some n \<Rightarrow> Some n
      | None \<Rightarrow> if \<not> ksDiversify keys \<and> length (ksMaster keys) = 16 then Some 0 else None)"

section \<open>Exchanges\<close>

definition observe :: "int \<Rightarrow> op_budget \<Rightarrow> op_budget" where
  "observe d b = b\<lparr>bSlowest := max (bSlowest b) d\<rparr>"

definition per_exchange :: "op_budget \<Rightarrow> int" where
  "per_exchange b = max (bSlowest b) (bFloor b)"

text \<open>\<open>timedTransport\<close>, and the bare transport when there is no budget.\<close>

definition n4_exchange :: "('s, 'e) n4_env \<Rightarrow> bytes \<Rightarrow> ('e ntag424_tag \<times> 's, 'e, bytes) action" where
  "n4_exchange env cmd = (\<lambda>(t, s).
     let (r, s') = envDev env cmd s;
         t' = (case gBudget t of None \<Rightarrow> t
               | Some b \<Rightarrow> t\<lparr>gBudget := Some (observe (envNow env s' - envNow env s) b)\<rparr>)
     in (r, (t', s')))"

definition n4_send :: "('s, 'e) n4_env \<Rightarrow> bytes \<Rightarrow> ('s, 'e, bytes) n4" where
  "n4_send env cmd = mapES NTag (transmit_raw (n4_exchange env cmd))"

definition budget_require :: "('s, 'e) n4_env \<Rightarrow> sdm_step \<Rightarrow> nat \<Rightarrow> ('s, 'e, unit) n4" where
  "budget_require env step exchanges = (\<lambda>(t, s).
     case gBudget t of
       None \<Rightarrow> (Inr (), (t, s))
     | Some b \<Rightarrow>
         let per = per_exchange b; remaining = bDeadline b - envNow env s
         in if remaining < int exchanges * per then (Inl (NDeadline step exchanges per remaining), (t, s))
            else (Inr (), (t, s)))"

definition drop_tag_session :: "('s, 'e, unit) n4" where
  "drop_tag_session = changeS (\<lambda>t. t\<lparr>gSession := None\<rparr>)"

definition note_write :: "('s, 'e, unit) n4" where
  "note_write = changeS (\<lambda>t. t\<lparr>gWritesSent := gWritesSent t + 1\<rparr>)"

definition in_channel :: "(chan \<Rightarrow> (cmd_error + 'a) \<times> chan) \<Rightarrow> ('s, 'e, 'a) n4" where
  "in_channel f = (\<lambda>(t, s). let (r, c) = f (gSession t) in (mapErr NCmd r, (t\<lparr>gSession := c\<rparr>, s)))"

text \<open>A command of the session: built, sent and its answer read.\<close>

definition run_command ::
    "('s, 'e) n4_env \<Rightarrow> bool \<Rightarrow> (chan \<Rightarrow> (cmd_error + bytes) \<times> chan) \<Rightarrow>
     (chan \<Rightarrow> bytes \<Rightarrow> (cmd_error + 'a) \<times> chan) \<Rightarrow> ('s, 'e, 'a) n4" where
  "run_command env writes build parse =
     doS (in_channel build) (\<lambda>cmd.
     doS (if writes then note_write else retS ()) (\<lambda>_.
     doS (n4_send env cmd) (\<lambda>resp.
     in_channel (\<lambda>c. parse c resp))))"

definition transceive_raw_apdu :: "('s, 'e) n4_env \<Rightarrow> bytes \<Rightarrow> ('s, 'e, bytes) n4" where
  "transceive_raw_apdu env data =
     doS (changeS (\<lambda>t. t\<lparr>gSession := None, gNdefSettings := None\<rparr>)) (\<lambda>_. n4_send env data)"

end
