(* ===== verification/Ntag424Login.thy ===== *)
theory Ntag424Login
  imports Ntag424Driver
begin

text \<open>
  Opening and keeping a session: \<open>authenticate\<close>, \<open>withSession\<close>, and learning the UID of a card
  that presents a random one. The code's functions call each other in a circle: a key derived
  from the UID needs \<open>resolveUID\<close>, which opens a session under another key. That key is held
  explicitly, so the inner call never takes the branch that would resolve again (lemma
  \<open>resolver_key_direct\<close>); the functions here take what they call as an argument and are tied
  in that order.
\<close>

section \<open>Keys\<close>

definition needs_uid :: "byte \<Rightarrow> 'e ntag424_tag \<Rightarrow> bool" where
  "needs_uid keyNo t \<longleftrightarrow> gRealUID t = None \<and> random_id t \<and> ksDiversify (gKeys t) \<and>
     map_of (ksSlots (gKeys t)) keyNo = None"

definition key_for_with :: "('s, 'e, unit) n4 \<Rightarrow> byte \<Rightarrow> ('s, 'e, bytes) n4" where
  "key_for_with resolve keyNo = (\<lambda>(t, s).
     doS (if needs_uid keyNo t then resolve else retS ()) (\<lambda>_ (t', s').
       case key_set_key (gKeys t) keyNo (key_uid t') of
         Some key \<Rightarrow> (Inr key, (t', s'))
       | None \<Rightarrow> (Inl (if key_set_empty (gKeys t) then NNoKey else NKeyNotHeld keyNo), (t', s'))) (t, s))"

section \<open>Authentication\<close>

definition auth_status :: "bytes \<Rightarrow> 'e n4_error + unit" where
  "auth_status resp =
     (if length resp < 2 then Inl (NShort (length resp))
      else let sw1 = resp ! (length resp - 2); sw2 = resp ! (length resp - 1)
           in if (sw1 = 0x91 \<or> sw1 = 0x90) \<and> (sw2 = 0x00 \<or> sw2 = 0xAF) then Inr ()
              else Inl (NCmd (CStatus sw1 sw2)))"

definition auth_refused :: "byte \<Rightarrow> 'e n4_error \<Rightarrow> ('s, 'e, 'a) n4" where
  "auth_refused keyNo cause = (\<lambda>(t, s).
     (Inl (NAuth cause),
      (if is_delay cause then t\<lparr>gDelayed := True\<rparr> else t\<lparr>gFailedAuth := (gFailedAuth t)(keyNo \<mapsto> cause)\<rparr>, s)))"

definition select_ok :: "bytes \<Rightarrow> bool" where
  "select_ok resp \<longleftrightarrow> 2 \<le> length resp \<and> resp ! (length resp - 2) = 0x90 \<and> resp ! (length resp - 1) = 0x00"

definition take_random :: "('s, 'e, bytes) n4" where
  "take_random = (\<lambda>(t, s). (Inr (map (gRandom t) [0..<16]), (t\<lparr>gRandom := \<lambda>i. gRandom t (i + 16)\<rparr>, s)))"

definition known_lrp :: "'e ntag424_tag \<Rightarrow> bool" where
  "known_lrp t \<longleftrightarrow> gLRP t \<and> ksAllowLRP (gKeys t)"

definition open_session :: "channel \<Rightarrow> byte \<Rightarrow> ('s, 'e, unit) n4" where
  "open_session ch keyNo = changeS (\<lambda>t. t\<lparr>gSession := Some ch, gSessionKeyNo := keyNo\<rparr>)"

text \<open>The two round trips, for either suite: the challenge and the proof are the
  authenticator's, the answers the card's.\<close>

definition auth_rounds ::
    "('s, 'e) n4_env \<Rightarrow> byte \<Rightarrow> bytes \<Rightarrow> (bytes \<Rightarrow> (ev2_error + bytes) \<times> 'a) \<Rightarrow>
     ('a \<Rightarrow> bytes \<Rightarrow> ev2_error + channel) \<Rightarrow> ('s, 'e, unit) n4" where
  "auth_rounds env keyNo first challenge finish =
     (case auth_status first of
        Inl e \<Rightarrow> auth_refused keyNo e
      | Inr _ \<Rightarrow>
          (case challenge first of
             (Inl e, _) \<Rightarrow> failS (NAuth (NEv2 e))
           | (Inr second, a1) \<Rightarrow>
               doS (n4_send env second) (\<lambda>answer.
                 case auth_status answer of
                   Inl e \<Rightarrow> auth_refused keyNo e
                 | Inr _ \<Rightarrow>
                     (case finish a1 answer of
                        Inl e \<Rightarrow> auth_refused keyNo (NEv2 e)
                      | Inr ch \<Rightarrow> open_session ch keyNo))))"

definition authenticate_lrp :: "('s, 'e) n4_env \<Rightarrow> byte \<Rightarrow> bytes \<Rightarrow> ('s, 'e, unit) n4" where
  "authenticate_lrp env keyNo key =
     doS take_random (\<lambda>random.
       case new_lrp_authenticator random AuthFirst keyNo key [] of
         Inl e \<Rightarrow> failS (NAuth (NEv2 e))
       | Inr a \<Rightarrow>
           doS (n4_send env (lrp_auth_command a)) (\<lambda>first.
             auth_rounds env keyNo first (lrp_auth_challenge a)
               (\<lambda>a1 answer. map_sum id LrpChannel (fst (lrp_auth_finish a1 answer)))))"

definition authenticate_aes :: "('s, 'e) n4_env \<Rightarrow> byte \<Rightarrow> bytes \<Rightarrow> ('s, 'e, unit) n4" where
  "authenticate_aes env keyNo key =
     doS take_random (\<lambda>random.
       case new_authenticator random AuthFirst keyNo key [] of
         Inl e \<Rightarrow> failS (NAuth (NEv2 e))
       | Inr a \<Rightarrow>
           doS (n4_send env (auth_command a)) (\<lambda>first.
             if is_lrp_auth_response first
             then doS (changeS (\<lambda>t. t\<lparr>gLRP := True\<rparr>)) (\<lambda>_.
                  doS (askS (\<lambda>t. ksAllowLRP (gKeys t))) (\<lambda>allowed.
                    if \<not> allowed then failS (NAuth NLRP) else authenticate_lrp env keyNo key))
             else auth_rounds env keyNo first (auth_challenge a)
                    (\<lambda>a1 answer. map_sum id AesChannel (fst (auth_finish a1 answer)))))"

text \<open>Why an authentication is not tried: remembered from an earlier answer of the card.\<close>

definition refused_before :: "byte \<Rightarrow> 'e ntag424_tag \<Rightarrow> 'e n4_error option" where
  "refused_before keyNo t =
     (if gLRP t \<and> \<not> ksAllowLRP (gKeys t) then Some NLRP
      else if gDelayed t then Some NDelay else gFailedAuth t keyNo)"

definition select_for_auth :: "('s, 'e) n4_env \<Rightarrow> ('s, 'e, unit) n4" where
  "select_for_auth env =
     doS drop_tag_session (\<lambda>_.
     doS (n4_send env (select_aid_apdu ndef_app_aid)) (\<lambda>resp.
       if select_ok resp then retS () else failS (NAuth (NSelect resp))))"

definition authenticate_with ::
    "('s, 'e) n4_env \<Rightarrow> (byte \<Rightarrow> ('s, 'e, bytes) n4) \<Rightarrow> byte \<Rightarrow> ('s, 'e, unit) n4" where
  "authenticate_with env keyFor keyNo = (\<lambda>(t, s).
     if gSession t \<noteq> None \<and> gSessionKeyNo t = keyNo then (Inr (), (t, s))
     else case refused_before keyNo t of
       Some e \<Rightarrow> (Inl (NAuth e), (t, s))
     | None \<Rightarrow>
         doS (tryS (keyFor keyNo) (\<lambda>r. case r of
                Inr key \<Rightarrow> retS key
              | Inl e \<Rightarrow> failS (if card_removed (envRemoved env) e \<or> is_auth_error e then e else NAuth e)))
           (\<lambda>key.
         doS (select_for_auth env) (\<lambda>_.
         doS (askS known_lrp) (\<lambda>lrp.
           if lrp then authenticate_lrp env keyNo key else authenticate_aes env keyNo key))) (t, s))"

text \<open>\<open>withSession\<close>: the number is how many fresh tries a lost session still gets.\<close>

fun with_session_n ::
    "nat \<Rightarrow> ('s, 'e, unit) n4 \<Rightarrow> ('s, 'e, 'a) n4 \<Rightarrow> ('s, 'e, 'a) n4" where
  "with_session_n 0 auth fn =
     doS auth (\<lambda>_. tryS fn (\<lambda>r. case r of
       Inr x \<Rightarrow> retS x | Inl e \<Rightarrow> doS drop_tag_session (\<lambda>_. failS e)))"
| "with_session_n (Suc n) auth fn =
     doS auth (\<lambda>_. tryS fn (\<lambda>r. case r of
       Inr x \<Rightarrow> retS x
     | Inl e \<Rightarrow> doS drop_tag_session (\<lambda>_.
         if has_class SessionLost e then with_session_n n auth fn else failS e)))"

definition with_session_with ::
    "('s, 'e) n4_env \<Rightarrow> (byte \<Rightarrow> ('s, 'e, bytes) n4) \<Rightarrow> byte \<Rightarrow> ('s, 'e, 'a) n4 \<Rightarrow> ('s, 'e, 'a) n4" where
  "with_session_with env keyFor keyNo fn = with_session_n 1 (authenticate_with env keyFor keyNo) fn"

section \<open>The real UID\<close>

definition parse_uid_in :: "chan \<Rightarrow> bytes \<Rightarrow> (cmd_error + bytes) \<times> chan" where
  "parse_uid_in c resp = (case c of
     None \<Rightarrow> (Inl CNoSession, None)
   | Some ch \<Rightarrow> let (r, ch') = parse_card_uid ch resp in (r, Some ch'))"

definition fetch_real_uid :: "('s, 'e) n4_env \<Rightarrow> ('s, 'e, unit) n4" where
  "fetch_real_uid env =
     doS (askS gKeys) (\<lambda>keys.
       case resolver_key keys of
         None \<Rightarrow> failS (NAuth NNoUndiversified)
       | Some keyNo \<Rightarrow>
           with_session_with env (key_for_with (retS ())) keyNo
             (doS (run_command env False get_card_uid parse_uid_in) (\<lambda>uid.
              changeS (\<lambda>t. t\<lparr>gRealUID := Some uid\<rparr>))))"

definition resolve_uid :: "('s, 'e) n4_env \<Rightarrow> ('s, 'e, unit) n4" where
  "resolve_uid env = (\<lambda>(t, s).
     if gRealUID t \<noteq> None then (Inr (), (t, s))
     else if gResolved t
     then ((case gResolveErr t of None \<Rightarrow> Inr () | Some e \<Rightarrow> Inl e), (t, s))
     else tryS (fetch_real_uid env) (\<lambda>r. case r of
            Inl e \<Rightarrow> if card_removed (envRemoved env) e then failS e
                     else doS (changeS (\<lambda>t. t\<lparr>gResolved := True, gResolveErr := Some e\<rparr>)) (\<lambda>_. failS e)
          | Inr _ \<Rightarrow> changeS (\<lambda>t. t\<lparr>gResolved := True, gResolveErr := None\<rparr>)) (t, s))"

definition resolve_uid_once :: "('s, 'e) n4_env \<Rightarrow> ('s, 'e, unit) n4" where
  "resolve_uid_once env = (\<lambda>(t, s).
     if \<not> random_id t \<or> key_set_empty (gKeys t) then (Inr (), (t, s))
     else tryS (resolve_uid env) (\<lambda>_. retS ()) (t, s))"

definition key_for :: "('s, 'e) n4_env \<Rightarrow> byte \<Rightarrow> ('s, 'e, bytes) n4" where
  "key_for env = key_for_with (resolve_uid env)"

definition authenticate :: "('s, 'e) n4_env \<Rightarrow> byte \<Rightarrow> ('s, 'e, unit) n4" where
  "authenticate env = authenticate_with env (key_for env)"

definition with_session :: "('s, 'e) n4_env \<Rightarrow> byte \<Rightarrow> ('s, 'e, 'a) n4 \<Rightarrow> ('s, 'e, 'a) n4" where
  "with_session env keyNo fn = with_session_with env (key_for env) keyNo fn"

definition select_app :: "('s, 'e) n4_env \<Rightarrow> ('s, 'e, unit) n4" where
  "select_app env =
     doS drop_tag_session (\<lambda>_.
     doS (n4_send env (select_aid_apdu ndef_app_aid)) (\<lambda>resp.
       if select_ok resp then retS () else failS (NSelect resp)))"

section \<open>The circle is broken\<close>

lemma resolver_key_direct:
  assumes "resolver_key (gKeys t) = Some n"
  shows "\<not> needs_uid n t"
proof (cases "find (\<lambda>n. case map_of (ksSlots (gKeys t)) n of None \<Rightarrow> False | Some k \<Rightarrow> length k = 16)
    (map byteN [0..<256])")
  case None
  with assms show ?thesis by (auto simp: resolver_key_def needs_uid_def split: if_splits)
next
  case (Some m)
  then have "case map_of (ksSlots (gKeys t)) m of None \<Rightarrow> False | Some k \<Rightarrow> length k = 16"
    by (auto simp: find_Some_iff)
  with Some assms show ?thesis by (auto simp: resolver_key_def needs_uid_def split: option.splits)
qed

text \<open>So the inner key lookup is the code's, whatever resolves the UID.\<close>

lemma resolver_key_for:
  "resolver_key (gKeys t) = Some n \<Longrightarrow> key_for_with r n (t, s) = key_for_with (retS ()) n (t, s)"
  by (simp add: key_for_with_def resolver_key_direct)

section \<open>Refused keys are not tried again\<close>

lemma refused_sends_nothing:
  assumes "refused_before keyNo t = Some e" "gSession t = None \<or> gSessionKeyNo t \<noteq> keyNo"
  shows "with_session env keyNo fn (t, s) = (Inl (NAuth e), (t, s))"
proof -
  have "authenticate_with env (key_for env) keyNo (t, s) = (Inl (NAuth e), (t, s))"
    using assms by (auto simp: authenticate_with_def)
  then show ?thesis by (simp add: with_session_def with_session_with_def doS_def)
qed

text \<open>What a refusal leaves behind makes the next attempt one of those.\<close>

lemma auth_refused_remembers:
  assumes "auth_refused keyNo cause (t, s) = (r, (t', s'))"
  shows "s' = s \<and> refused_before keyNo t' \<noteq> None \<and> gSession t' = gSession t"
  using assms by (auto simp: auth_refused_def refused_before_def)

end
