(* ===== verification/Ntag424Files.thy ===== *)
theory Ntag424Files
  imports Ntag424Login
begin

text \<open>
  The NTAG 424 DNA driver's files: reading their settings, choosing how the NDEF file is reached,
  reading, writing and locking it (\<open>nfc/tag_ntag424.go\<close>), and the operations of
  \<open>nfc/tag_ntag424_ops.go\<close>, with the planning of an SDM configuration end to end.
\<close>

section \<open>Settings\<close>

definition cache_settings :: "byte \<Rightarrow> file_settings \<Rightarrow> ('s, 'e, unit) n4" where
  "cache_settings fileNo fs =
     (if fileNo \<noteq> 0x02 then retS () else changeS (\<lambda>t. t\<lparr>gNdefSettings := Some fs\<rparr>))"

definition settings_in_session :: "('s, 'e) n4_env \<Rightarrow> byte \<Rightarrow> ('s, 'e, file_settings) n4" where
  "settings_in_session env fileNo =
     run_command env False (\<lambda>c. get_file_settings c fileNo) parse_file_settings_response"

definition cached :: "byte \<Rightarrow> file_settings \<Rightarrow> ('s, 'e, file_settings) n4" where
  "cached fileNo fs = doS (cache_settings fileNo fs) (\<lambda>_. retS fs)"

definition settings_plainly :: "('s, 'e) n4_env \<Rightarrow> byte \<Rightarrow> ('s, 'e, file_settings) n4" where
  "settings_plainly env fileNo =
     doS (select_app env) (\<lambda>_.
     doS (n4_send env (get_file_settings_plain fileNo)) (\<lambda>resp (t, s).
       case mapErr NCmd (fst (parse_file_settings_response None resp)) of
         Inr fs \<Rightarrow> cached fileNo fs (t, s)
       | Inl e \<Rightarrow>
           if (case status_error e of Some (_, b) \<Rightarrow> b \<noteq> 0xAE | None \<Rightarrow> True) \<or> \<not> holds_key t 0
           then (Inl e, (t, s))
           else doS (with_session env 0 (settings_in_session env fileNo)) (cached fileNo) (t, s)))"

definition n4_get_file_settings :: "('s, 'e) n4_env \<Rightarrow> byte \<Rightarrow> ('s, 'e, file_settings) n4" where
  "n4_get_file_settings env fileNo = (\<lambda>(t, s).
     if gSession t = None then settings_plainly env fileNo (t, s)
     else tryS (settings_in_session env fileNo) (\<lambda>r. case r of
            Inr fs \<Rightarrow> cached fileNo fs
          | Inl e \<Rightarrow> doS drop_tag_session (\<lambda>_.
              if has_class SessionLost e then settings_plainly env fileNo else failS e)) (t, s))"

section \<open>Routes\<close>

record n4_route =
  rtNative :: bool
  rtKeyNo :: byte
  rtMode :: comm_mode

definition route_for :: "'e ntag424_tag \<Rightarrow> file_settings \<Rightarrow> bool \<Rightarrow> 'e n4_error + n4_route" where
  "route_for t fs wr =
     (let rights = [if wr then fsWrite fs else fsRead fs, fsReadWrite fs];
          free = AccessFree \<in> set rights
      in if free \<and> fsCommMode fs = CommPlain then Inr \<lparr>rtNative = False, rtKeyNo = 0, rtMode = CommPlain\<rparr>
         else if free
         then (case any_held_key t of
                 None \<Rightarrow> Inl NRouteNoKey
               | Some k \<Rightarrow> Inr \<lparr>rtNative = True, rtKeyNo = k, rtMode = fsCommMode fs\<rparr>)
         else case find (\<lambda>r. r \<le> 4) rights of
                None \<Rightarrow> Inl NRouteDenied
              | Some r \<Rightarrow> if \<not> holds_key t r then Inl (NRouteKey r)
                          else Inr \<lparr>rtNative = True, rtKeyNo = r, rtMode = fsCommMode fs\<rparr>)"

section \<open>Reading and writing the NDEF file\<close>

function read_chunks ::
    "('s, 'e) n4_env \<Rightarrow> comm_mode \<Rightarrow> nat \<Rightarrow> nat \<Rightarrow> bytes \<Rightarrow> ('s, 'e, bytes) n4" where
  "read_chunks env mode off len acc ts =
     (if len \<le> length acc then (Inr acc, ts)
      else let want = min (if mode = CommFull then 160 else 192) (len - length acc)
           in case run_command env False
                (\<lambda>c. read_data c 0x02 (of_nat (off + length acc)) (of_nat want) mode)
                (\<lambda>c resp. parse_read_data c resp mode) ts of
                (Inl e, ts') \<Rightarrow> (Inl e, ts')
              | (Inr data, ts') \<Rightarrow>
                  if length data \<noteq> want then (Inl (NReadCount (length data) want), ts')
                  else read_chunks env mode off len (acc @ data) ts')"
  by pat_completeness auto
termination by (relation "measure (\<lambda>(env, mode, off, len, acc, ts). len - length acc)") auto

declare read_chunks.simps [simp del]

fun write_parts :: "('s, 'e) n4_env \<Rightarrow> comm_mode \<Rightarrow> nat \<Rightarrow> bytes list \<Rightarrow> ('s, 'e, unit) n4" where
  "write_parts env mode off [] = retS ()"
| "write_parts env mode off (part # parts) =
     doS (run_command env True (\<lambda>c. write_data c 0x02 (of_nat off) part mode)
           (\<lambda>c resp. parse_write_data c resp mode)) (\<lambda>_.
       write_parts env mode (off + length part) parts)"

definition write_chunks :: "('s, 'e) n4_env \<Rightarrow> comm_mode \<Rightarrow> nat \<Rightarrow> bytes \<Rightarrow> ('s, 'e, unit) n4" where
  "write_chunks env mode off data = write_parts env mode off (chunks (max_write_chunk mode) data)"

definition write_chunk_count :: "nat \<Rightarrow> comm_mode \<Rightarrow> nat" where
  "write_chunk_count n mode = (n + max_write_chunk mode - 1) div max_write_chunk mode"

definition auth_exchanges :: "byte \<Rightarrow> 'e ntag424_tag \<Rightarrow> nat" where
  "auth_exchanges keyNo t = (if gSession t \<noteq> None \<and> gSessionKeyNo t = keyNo then 0 else 3)"

text \<open>The Type 4 driver the tag embeds, over the same exchange.\<close>

definition as_type4 :: "('e ntag424_tag \<times> 's, 'e tag_error, 'a) action \<Rightarrow> ('s, 'e, 'a) n4" where
  "as_type4 m = doS drop_tag_session (\<lambda>_. mapES NTag m)"

definition native_read :: "('s, 'e) n4_env \<Rightarrow> file_settings \<Rightarrow> comm_mode \<Rightarrow> ('s, 'e, bytes) n4" where
  "native_read env fs mode =
     doS (read_chunks env mode 0 2 []) (\<lambda>nlenData.
       let nlen = 256 * unat (nlenData ! 0) + unat (nlenData ! 1)
       in if nlen = 0 then retS []
          else if 2 < fsFileSize fs \<and> unat (fsFileSize fs) - 2 < nlen
          then failS (NNlen nlen (unat (fsFileSize fs) - 2))
          else read_chunks env mode 2 nlen [])"

definition n4_read_data :: "('s, 'e) n4_env \<Rightarrow> ('s, 'e, bytes) n4" where
  "n4_read_data env =
     tryS (n4_get_file_settings env 0x02) (\<lambda>r. case r of
       Inl e \<Rightarrow>
         if card_removed (envRemoved env) e then failS e
         else if settings_denied e then failS (NNoPayload (Some e))
         else as_type4 (type4_read_data (n4_exchange env))
     | Inr fs \<Rightarrow>
         doS (askS (\<lambda>t. route_for t fs False)) (\<lambda>route. case route of
           Inl e \<Rightarrow> failS (NNoPayload (Some e))
         | Inr rt \<Rightarrow>
             if \<not> rtNative rt then as_type4 (type4_read_data (n4_exchange env))
             else doS (with_session env (rtKeyNo rt) (native_read env fs (rtMode rt))) (\<lambda>out.
                    if out = [] then failS (NNoPayload None) else retS out)))"

definition native_write :: "('s, 'e) n4_env \<Rightarrow> comm_mode \<Rightarrow> bytes \<Rightarrow> ('s, 'e, unit) n4" where
  "native_write env mode data =
     doS (write_chunks env mode 0 [0x00, 0x00]) (\<lambda>_.
     doS (write_chunks env mode 2 data) (\<lambda>_.
     write_chunks env mode 0 (nlen_bytes (length data))))"

definition n4_write_data :: "('s, 'e) n4_env \<Rightarrow> bytes \<Rightarrow> ('s, 'e, unit) n4" where
  "n4_write_data env data =
     tryS (n4_get_file_settings env 0x02) (\<lambda>r. case r of
       Inl e \<Rightarrow>
         if card_removed (envRemoved env) e then failS e
         else if settings_denied e then failS (NReadOnly (Some e))
         else as_type4 (type4_write_data (n4_exchange env) data)
     | Inr fs \<Rightarrow>
         if 2 < fsFileSize fs \<and> unat (fsFileSize fs) - 2 < length data
         then failS (NCapacity (length data) (unat (fsFileSize fs) - 2))
         else doS (askS (\<lambda>t. route_for t fs True)) (\<lambda>route. case route of
           Inl e \<Rightarrow> failS (NReadOnly (Some e))
         | Inr rt \<Rightarrow>
             if \<not> rtNative rt
             then doS (budget_require env StepWriteNDEF (4 + 2 + write_chunk_count (length data) CommFull)) (\<lambda>_.
                  doS drop_tag_session (\<lambda>_.
                  doS note_write (\<lambda>_.
                  mapES NTag (type4_write_data (n4_exchange env) data))))
             else doS (askS (auth_exchanges (rtKeyNo rt))) (\<lambda>auth.
                  doS (budget_require env StepWriteNDEF (auth + 2 + write_chunk_count (length data) (rtMode rt))) (\<lambda>_.
                  with_session env (rtKeyNo rt) (native_write env (rtMode rt) data)))))"

definition n4_is_writable :: "('s, 'e) n4_env \<Rightarrow> ('s, 'e, bool) n4" where
  "n4_is_writable env =
     tryS (n4_get_file_settings env 0x02) (\<lambda>r. case r of
       Inl e \<Rightarrow>
         if card_removed (envRemoved env) e then failS e
         else if settings_denied e then retS False
         else as_type4 (type4_is_writable (n4_exchange env))
     | Inr fs \<Rightarrow> askS (\<lambda>t. isOk (route_for t fs True)))"

section \<open>Changing settings and locking\<close>

definition change_key_for :: "'e ntag424_tag \<Rightarrow> file_settings \<Rightarrow> byte option" where
  "change_key_for t fs =
     (if fsChange fs = AccessNever then None
      else if fsChange fs = AccessFree then any_held_key t
      else if fsChange fs \<le> 4 \<and> holds_key t (fsChange fs) then Some (fsChange fs) else None)"

definition can_lock :: "'e ntag424_tag \<Rightarrow> bool" where
  "can_lock t = (case gNdefSettings t of Some fs \<Rightarrow> change_key_for t fs \<noteq> None | None \<Rightarrow> holds_key t 0)"

text \<open>What \<open>Capabilities\<close> layers over the profile.\<close>

record n4_capabilities =
  capLock :: bool
  capWrite :: bool
  capReadOnly :: bool
  capSDM :: bool
  capKeysHeld :: "nat list"
  capRandomID :: bool
  capLRP :: bool

definition n4_capabilities_of :: "'e ntag424_tag \<Rightarrow> n4_capabilities" where
  "n4_capabilities_of t =
     (let wr = (case gNdefSettings t of None \<Rightarrow> True | Some fs \<Rightarrow> isOk (route_for t fs True))
      in \<lparr>capLock = can_lock t, capWrite = wr, capReadOnly = (gNdefSettings t \<noteq> None \<and> \<not> wr),
          capSDM = (case gNdefSettings t of None \<Rightarrow> False | Some fs \<Rightarrow> fsSDMEnabled fs),
          capKeysHeld = filter (\<lambda>n. holds_key t (byteN n)) [0..<5],
          capRandomID = random_id t, capLRP = gLRP t\<rparr>)"

definition probe_capabilities :: "('s, 'e) n4_env \<Rightarrow> ('s, 'e, unit) n4" where
  "probe_capabilities env = (\<lambda>(t, s).
     if gNdefSettings t \<noteq> None \<or> gSession t \<noteq> None then (Inr (), (t, s))
     else tryS (n4_get_file_settings env 0x02) (\<lambda>_. retS ()) (t, s))"

definition n4_change_file_settings :: "('s, 'e) n4_env \<Rightarrow> byte \<Rightarrow> file_settings \<Rightarrow> ('s, 'e, unit) n4" where
  "n4_change_file_settings env fileNo settings =
     doS (pureS (mapErr NSettings (settings_encode settings))) (\<lambda>encoded.
     doS (budget_require env StepSettings (1 + 3 + 1)) (\<lambda>_.
     doS (tryS (n4_get_file_settings env fileNo) (\<lambda>r. case r of
            Inr cur \<Rightarrow> doS (askS (\<lambda>t. change_key_for t cur)) (\<lambda>k. case k of
                None \<Rightarrow> failS (NAuth (NChangeDenied fileNo)) | Some n \<Rightarrow> retS n)
          | Inl e \<Rightarrow> if card_removed (envRemoved env) e then failS e else retS 0)) (\<lambda>keyNo.
     doS (with_session env keyNo
           (run_command env True (\<lambda>c. change_file_settings c fileNo encoded)
              (\<lambda>c resp. check_response c resp CommFull))) (\<lambda>_.
     changeS (\<lambda>t. t\<lparr>gNdefSettings := None\<rparr>)))))"

definition locked_settings :: "file_settings \<Rightarrow> file_settings" where
  "locked_settings fs =
     fs\<lparr>fsRead := (if fsRead fs = AccessNever then fsReadWrite fs else fsRead fs),
        fsWrite := AccessNever, fsReadWrite := AccessNever\<rparr>"

definition n4_make_read_only :: "('s, 'e) n4_env \<Rightarrow> ('s, 'e, unit) n4" where
  "n4_make_read_only env =
     tryS (n4_get_file_settings env 0x02) (\<lambda>r. case r of
       Inl e \<Rightarrow> failS (if card_removed (envRemoved env) e then e else NNotSupported)
     | Inr fs \<Rightarrow> doS (askS (\<lambda>t. change_key_for t fs)) (\<lambda>k.
         if k = None then failS NNotSupported
         else n4_change_file_settings env 0x02 (locked_settings fs)))"

section \<open>Keys and configuration\<close>

definition configured_key :: "('s, 'e) n4_env \<Rightarrow> byte \<Rightarrow> ('s, 'e, bytes) n4" where
  "configured_key env keyNo = mapES NAuth (key_for env keyNo)"

definition n4_change_key :: "('s, 'e) n4_env \<Rightarrow> byte \<Rightarrow> bytes \<Rightarrow> byte \<Rightarrow> byte \<Rightarrow> ('s, 'e, unit) n4" where
  "n4_change_key env keyNo newKey version authKeyNo =
     doS (if keyNo \<noteq> authKeyNo then mapES NAuth (key_for env keyNo) else retS []) (\<lambda>old.
     doS (askS (auth_exchanges authKeyNo)) (\<lambda>auth.
     doS (budget_require env StepChangeKey (auth + 1)) (\<lambda>_.
     doS (with_session env authKeyNo
           (run_command env True (\<lambda>c. change_key c keyNo authKeyNo old newKey version)
              (\<lambda>c resp. check_change_key_response c resp keyNo authKeyNo))) (\<lambda>_.
     if keyNo = authKeyNo then drop_tag_session else retS ()))))"

definition n4_enable_lrp :: "('s, 'e) n4_env \<Rightarrow> ('s, 'e, unit) n4" where
  "n4_enable_lrp env =
     doS (with_session env 0 (run_command env False enable_lrp parse_set_configuration)) (\<lambda>_.
     changeS (\<lambda>t. t\<lparr>gSession := None, gLRP := True\<rparr>))"

definition n4_get_card_uid :: "('s, 'e) n4_env \<Rightarrow> ('s, 'e, bytes) n4" where
  "n4_get_card_uid env = (\<lambda>(t, s).
     case gRealUID t of
       Some u \<Rightarrow> (Inr u, (t, s))
     | None \<Rightarrow>
         if \<not> random_id t then (Inr (key_uid t), (t, s))
         else if key_set_empty (gKeys t) then (Inl (NAuth NNoKey), (t, s))
         else doS (resolve_uid env) (\<lambda>_. askS key_uid) (t, s))"

definition n4_get_key_version :: "('s, 'e) n4_env \<Rightarrow> byte \<Rightarrow> ('s, 'e, byte) n4" where
  "n4_get_key_version env keyNo =
     (let plainly = doS (select_app env) (\<lambda>_.
            doS (n4_send env (get_key_version_plain keyNo)) (\<lambda>resp.
            pureS (mapErr NCmd (fst (parse_key_version None resp)))))
      in (\<lambda>(t, s).
        if gSession t = None then plainly (t, s)
        else tryS (run_command env False (\<lambda>c. get_key_version c keyNo) parse_key_version) (\<lambda>r. case r of
               Inr v \<Rightarrow> retS v
             | Inl e \<Rightarrow> doS drop_tag_session (\<lambda>_.
                 if has_class SessionLost e then plainly else failS e)) (t, s)))"

definition n4_read_sig :: "('s, 'e) n4_env \<Rightarrow> ('s, 'e, bytes) n4" where
  "n4_read_sig env =
     doS (askS session_key) (\<lambda>k. case k of
       Inl e \<Rightarrow> failS e
     | Inr keyNo \<Rightarrow> with_session env keyNo (run_command env False read_sig parse_read_sig))"

text \<open>The signature check is an argument: elliptic curve arithmetic of Go's library.\<close>

definition n4_read_originality ::
    "('s, 'e) n4_env \<Rightarrow> (bytes \<Rightarrow> bytes \<Rightarrow> bool) \<Rightarrow> ('s, 'e, bytes \<times> bool) n4" where
  "n4_read_originality env genuine =
     doS (n4_get_card_uid env) (\<lambda>uid.
     doS (n4_read_sig env) (\<lambda>sig.
     retS (sig, genuine uid sig)))"

section \<open>Configuring SDM\<close>

function name_start :: "bytes \<Rightarrow> nat \<Rightarrow> nat" where
  "name_start ndef start =
     (if 0 < start \<and> ndef ! (start - 1) \<noteq> 0x3F \<and> ndef ! (start - 1) \<noteq> 0x26
      then name_start ndef (start - 1) else start)"
  by pat_completeness auto
termination by (relation "measure snd") auto

declare name_start.simps [simp del]

definition param_name_before :: "bytes \<Rightarrow> uint32 \<Rightarrow> bytes" where
  "param_name_before ndef offset =
     (let fin = unat offset
      in if fin < 1 \<or> length ndef < fin \<or> ndef ! (fin - 1) \<noteq> 0x3D then []
         else slice (name_start ndef (fin - 1)) (fin - 1) ndef)"

definition plan_names :: "sdm_plan \<Rightarrow> names" where
  "plan_names plan =
     (let s = planSettings plan;
          add = (\<lambda>off ns. let n = param_name_before (planNDEF plan) off in if n \<noteq> [] then n # ns else ns);
          n1 = (if fsSDMMetaRead s \<le> 4
                then default_names\<lparr>nmPICCData := add (fsPICCDataOffset s) (nmPICCData default_names)\<rparr>
                else default_names\<lparr>nmUID := add (fsUIDOffset s) (nmUID default_names),
                                   nmCounter := add (fsReadCounterOffset s) (nmCounter default_names)\<rparr>);
          n2 = (if fsEncryptFileData s
                then n1\<lparr>nmEncFileData := add (fsENCOffset s) (nmEncFileData n1)\<rparr> else n1)
      in n2\<lparr>nmMAC := add (fsMACOffset s) (nmMAC n2)\<rparr>)"

record sdm_result =
  resURL :: bytes
  resTap :: "tap option"

text \<open>The Go pair of a result, possibly nil, and an error, possibly nil.\<close>

type_synonym 'e sdm_outcome = "sdm_result option \<times> 'e n4_error option"

text \<open>A key the settings name, or none when they name no key.\<close>

definition sdm_key :: "('s, 'e) n4_env \<Rightarrow> byte \<Rightarrow> ('s, 'e, bytes) n4" where
  "sdm_key env n = (if n \<le> 4 then key_for env n else retS [])"

definition verify_sdm ::
    "('s, 'e) n4_env \<Rightarrow> (bytes \<Rightarrow> bool) \<Rightarrow> sdm_plan \<Rightarrow> ('s, 'e, 'e sdm_outcome) n4" where
  "verify_sdm env accepts plan =
     tryS (doS (n4_read_data env) (\<lambda>data.
           doS (pureS (mapErr NNdef (parse_ndef_records data))) (\<lambda>recs.
           pureS (mapErr NNdef (message_uri recs)))))
       (\<lambda>r. case r of
         Inl e \<Rightarrow> retS (None, Some e)
       | Inr url \<Rightarrow>
           tryS (doS (askS known_lrp) (\<lambda>lrp.
                 doS (sdm_key env (fsSDMMetaRead (planSettings plan))) (\<lambda>meta.
                 doS (sdm_key env (fsSDMFileRead (planSettings plan))) (\<lambda>file.
                 doS (pureS (mapErr NUrl (verify_url_with accepts url
                        \<lparr>kMetaRead = meta, kFileRead = file, kLRP = lrp\<rparr> (plan_names plan)))) (\<lambda>tap (t, s).
                   if length (key_uid t) = length (tUID tap) \<and> \<not> random_id t \<and> key_uid t \<noteq> tUID tap
                   then (Inl NOtherUID, (t, s)) else (Inr tap, (t, s)))))))
             (\<lambda>r. case r of
               Inl e \<Rightarrow> retS (Some \<lparr>resURL = url, resTap = None\<rparr>, Some e)
             | Inr tap \<Rightarrow> retS (Some \<lparr>resURL = url, resTap = Some tap\<rparr>, None)))"

definition sdm_failed :: "sdm_state \<Rightarrow> 'e n4_error \<Rightarrow> ('s, 'e, 'e sdm_outcome) n4" where
  "sdm_failed st e = retS (None, Some (NSDMState st e))"

text \<open>A failed write left the file as it was only when no write command had been sent.\<close>

definition failed_after :: "nat \<Rightarrow> sdm_state \<Rightarrow> sdm_state \<Rightarrow> 'e n4_error \<Rightarrow> ('s, 'e, 'e sdm_outcome) n4" where
  "failed_after before unsent sent e =
     doS (askS gWritesSent) (\<lambda>now. sdm_failed (if before < now then sent else unsent) e)"

definition configure_sdm ::
    "('s, 'e) n4_env \<Rightarrow> (bytes \<Rightarrow> bool) \<Rightarrow> sdm_plan option \<Rightarrow> ('s, 'e, 'e sdm_outcome) n4" where
  "configure_sdm env accepts planOpt =
     (case planOpt of
        None \<Rightarrow> retS (None, Some NNoPlan)
      | Some plan \<Rightarrow>
          let ndef = planNDEF plan
          in if length ndef < 2 then retS (None, Some NNoPlan)
             else let nlen = 256 * unat (ndef ! 0) + unat (ndef ! 1)
                  in if nlen \<noteq> length ndef - 2 then retS (None, Some (NPlanLength nlen (length ndef - 2)))
                     else tryS (budget_require env StepConfigure (2 + 7 + 6)) (\<lambda>r. case r of
                       Inl e \<Rightarrow> sdm_failed SDMNothingWritten e
                     | Inr _ \<Rightarrow>
                         doS (askS gWritesSent) (\<lambda>before.
                         tryS (n4_write_data env (drop 2 ndef)) (\<lambda>r. case r of
                           Inl e \<Rightarrow> failed_after before SDMNothingWritten SDMNDEFIndeterminate e
                         | Inr _ \<Rightarrow>
                             doS (askS gWritesSent) (\<lambda>written.
                             tryS (n4_change_file_settings env 0x02 (planSettings plan)) (\<lambda>r. case r of
                               Inl e \<Rightarrow> failed_after written SDMNDEFWritten SDMSettingsIndeterminate e
                             | Inr _ \<Rightarrow>
                                 doS (verify_sdm env accepts plan) (\<lambda>(res, err).
                                 retS (res, map_option (NSDMState SDMConfiguredUnverified) err))))))))"

end
