(* ===== verification/Type4Card.thy ===== *)
theory Type4Card
  imports Type4 CardInvariant
begin

text \<open>
  The Type 4 driver against the emulated NTAG 424 DNA: what its selects, reads and updates do to
  the card, and that a message written is the message read back.
\<close>

text \<open>The emulator as a transport. A panic of the emulator would end the exchange.\<close>

definition n4_dev :: "bytes \<Rightarrow> (ntag424_state, unit, bytes) action" where
  "n4_dev cmd s = (case transceive cmd s of None \<Rightarrow> (Inl (), s) | Some (r, s') \<Rightarrow> (Inr r, s'))"

text \<open>A card whose Capability Container is the factory one and readable, and whose NDEF file
  anyone may read, write, or both, outside SDM.\<close>

definition open_right :: "bool \<Rightarrow> file_settings \<Rightarrow> bool" where
  "open_right wr fs \<longleftrightarrow> (if wr then fsWrite fs else fsRead fs) = AccessFree \<or> fsReadWrite fs = AccessFree"

definition ndef_file :: "ntag424_state \<Rightarrow> n4_file" where
  "ndef_file s = nFiles s ! 1"

definition type4_card :: "ntag424_state \<Rightarrow> bool" where
  "type4_card s \<longleftrightarrow> length (nFiles s) = 3 \<and>
     open_right False (nfSettings (nFiles s ! 0)) \<and> take 15 (nfData (nFiles s ! 0)) = take 15 cc_file \<and>
     length (nfData (ndef_file s)) = 256"

definition std_cc :: type4_cc where
  "std_cc = \<lparr>ccFileID = [0xE1, 0x04], ccFileSize = 256, ccMLe = 255, ccMLc = 255\<rparr>"

definition at_ndef :: "ntag424_state \<Rightarrow> ntag424_state" where
  "at_ndef s = (clear_selection s)\<lparr>nAppSelected := True, nSelected := 2\<rparr>"

lemma open_permitted: "open_right wr fs \<Longrightarrow> fst (permitted fs wr s)"
  by (auto simp: open_right_def permitted_def Let_def)

lemma select_aid_on_card:
  "n4_dev (select_aid_apdu ndef_app_aid) s = (Inr ([] @ [0x90, 0x00]), (clear_selection s)\<lparr>nAppSelected := True\<rparr>)"
  by (simp add: n4_dev_def transceive_def select_aid_apdu_def build_apdu_def ndef_app_aid_def iso_select_def
      type4_ndef_app_aid_def slice_def apdu_sw_def byteN_def)

lemma select_file_on_card:
  assumes "nAppSelected s"
  shows "n4_dev (select_file_apdu [0xE1, 0x03]) s = (Inr ([] @ [0x90, 0x00]), (clear_selection s)\<lparr>nSelected := 1\<rparr>)"
    "n4_dev (select_file_apdu [0xE1, 0x04]) s = (Inr ([] @ [0x90, 0x00]), (clear_selection s)\<lparr>nSelected := 2\<rparr>)"
  using assms
  by (simp_all add: n4_dev_def transceive_def select_file_apdu_def build_apdu_def iso_select_def slice_def
      apdu_sw_def byteN_def clear_selection_def drop_session_def)

lemma offset_bytes:
  assumes "off < 256"
  shows "ucast (drop_bit 8 (of_nat off :: uint16) AND 0x7F) = (0 :: byte)"
    "ucast (of_nat off AND 0xFF :: uint16) = byteN off"
proof -
  have u: "unat (of_nat off :: uint16) = off" using assms by (simp add: unat_of_nat)
  have "unat (drop_bit 8 (of_nat off :: uint16)) = 0"
    using assms by (simp add: drop_bit_eq_div unat_div u)
  then have "drop_bit 8 (of_nat off :: uint16) = 0" by (rule unat_eq_zero [THEN iffD1])
  then show "ucast (drop_bit 8 (of_nat off :: uint16) AND 0x7F) = (0 :: byte)" by simp
  have "(of_nat off AND 0xFF :: uint16) = take_bit 8 (of_nat off)"
    by (simp add: take_bit_eq_mask mask_eq_exp_minus_1)
  also have "\<dots> = of_nat off" using assms by (simp add: take_bit_eq_mod word_arith_nat_mod u)
  finally show "ucast (of_nat off AND 0xFF :: uint16) = byteN off"
    using assms by (simp add: byteN_def word_unat_eq_iff unsigned_ucast_eq unsigned_take_bit_eq u unat_of_nat take_bit_eq_mod)
qed

lemma read_on_card:
  assumes "nSelected s = i + 1" "open_right False (nfSettings (nFiles s ! i))"
    and "byteN (i + 1) \<noteq> 0x02 \<or> \<not> fsSDMEnabled (nfSettings (nFiles s ! i))"
    and "off < 256" "off \<le> length (nfData (nFiles s ! i))" "0 < n" "n < 256"
  shows "n4_dev (read_binary_ext_apdu (of_nat off) (byteN n)) s =
    (Inr (slice off (min (off + n) (length (nfData (nFiles s ! i)))) (nfData (nFiles s ! i)) @ [0x90, 0x00]), s)"
proof -
  let ?f = "nFiles s ! i"
  have v: "view (byteN (i + 1)) ?f s = Some (nfData ?f, s)"
    using assms(3) by (auto simp: view_def Let_def)
  have p: "fst (permitted (nfSettings ?f) False s)" using assms(2) by (rule open_permitted)
  have o: "iso_offset [0x00, 0xB0, 0x00, byteN off, byteN n] = off"
    using assms(4) by (simp add: iso_offset_def)
  have "iso_read [0x00, 0xB0, 0x00, byteN off, byteN n] s =
      Some (apdu_data (slice off (min (off + n) (length (nfData ?f))) (nfData ?f)), s)"
    using assms v p o by (simp add: iso_read_def Let_def)
  then show ?thesis
    using offset_bytes [OF assms(4)]
    by (simp add: n4_dev_def transceive_def read_binary_ext_apdu_def build_apdu_def apdu_data_def)
qed

lemma update_on_card:
  assumes "nSelected s = 2" "open_right True (nfSettings (ndef_file s))"
    and "off < 256" "off + length c \<le> length (nfData (ndef_file s))" "c \<noteq> []" "length c < 256"
  shows "n4_dev (update_binary_ext_apdu (of_nat off) c) s =
    (Inr ([] @ [0x90, 0x00]), set_file_data 2 (copy_at off (nfData (ndef_file s)) c) s)"
proof -
  have p: "fst (permitted (nfSettings (ndef_file s)) True s)" using assms(2) by (rule open_permitted)
  let ?cmd = "[0x00, 0xD6, 0x00, byteN off, byteN (length c)] @ c"
  have a: "update_binary_ext_apdu (of_nat off) c = ?cmd"
    using offset_bytes [OF assms(3)] assms(5,6) by (simp add: update_binary_ext_apdu_def build_apdu_def)
  have o: "iso_offset ?cmd = off" using assms(3) by (simp add: iso_offset_def)
  have "slice 5 (5 + length c) ?cmd = c" by (simp add: slice_def)
  then have "iso_update ?cmd s = ([0x90, 0x00], set_file_data 2 (copy_at off (nfData (ndef_file s)) c) s)"
    using assms p o by (simp add: iso_update_def Let_def ndef_file_def apdu_sw_def byteN_def [of 2])
  then show ?thesis by (simp add: a n4_dev_def transceive_def)
qed

section \<open>Selecting\<close>

lemma at_ndef_simps [simp]:
  "nFiles (at_ndef s) = nFiles s" "nSelected (at_ndef s) = 2" "nKeys (at_ndef s) = nKeys s"
  "ndef_file (at_ndef s) = ndef_file s"
  by (simp_all add: at_ndef_def clear_selection_def drop_session_def ndef_file_def)

lemma cc_on_card: "(parse_type4_cc (take 15 cc_file) :: unit tag_error + type4_cc) = Inr std_cc"
proof -
  have t: "take 15 cc_file = [0x00, 0x17, 0x20, 0x00, 0xFF, 0x00, 0xFF, 0x04, 0x06, 0xE1, 0x04, 0x01, 0x00, 0x00, 0x00]"
    by (simp add: cc_file_def)
  show ?thesis unfolding t
    by (simp add: parse_type4_cc_def std_cc_def cc_walk.simps slice_def)
qed

lemma select_ndef_on_card:
  assumes "type4_card s" "15 \<le> length (nfData (nFiles s ! 0))"
  shows "select_ndef_file n4_dev s = (Inr std_cc, at_ndef s)"
proof -
  let ?s1 = "(clear_selection s)\<lparr>nAppSelected := True\<rparr>"
  let ?s2 = "(clear_selection ?s1)\<lparr>nSelected := 1\<rparr>"
  let ?s3 = "(clear_selection ?s2)\<lparr>nSelected := 2\<rparr>"
  have f: "nFiles ?s2 = nFiles s" "nSelected ?s2 = 0 + 1" "nAppSelected ?s1" "nAppSelected ?s2"
    by (simp_all add: clear_selection_def drop_session_def)
  have o: "open_right False (nfSettings (nFiles ?s2 ! 0))" "take 15 (nfData (nFiles ?s2 ! 0)) = take 15 cc_file"
    using assms(1) f(1) by (simp_all add: type4_card_def)
  have "n4_dev (read_binary_ext_apdu (of_nat 0) (byteN 15)) ?s2 =
      (Inr (slice 0 (min (0 + 15) (length (nfData (nFiles ?s2 ! 0)))) (nfData (nFiles ?s2 ! 0)) @ [0x90, 0x00]), ?s2)"
    by (rule read_on_card [OF f(2) o(1)]) (simp_all add: byteN_def)
  then have r: "n4_dev (read_binary_ext_apdu 0 15) ?s2 = (Inr (take 15 cc_file @ [0x90, 0x00]), ?s2)"
    using assms(2) o(2) f(1) by (simp add: byteN_def min_absorb1)
  have e: "?s3 = at_ndef s"
    by (simp add: at_ndef_def clear_selection_def drop_session_def)
  note t = tag_transceive_ok [where dev = n4_dev, OF select_aid_on_card [of s]] tag_transceive_ok [where dev = n4_dev, OF select_file_on_card(1) [OF f(3)]]
    tag_transceive_ok [where dev = n4_dev, OF r] tag_transceive_ok [where dev = n4_dev, OF select_file_on_card(2) [OF f(4)]]
  have c: "ccFileID std_cc = [0xE1, 0x04]" by (simp add: std_cc_def)
  show ?thesis unfolding select_ndef_file_def by (simp add: doS_def t c cc_on_card e del: One_nat_def)
qed

section \<open>Writing and reading the file\<close>

text \<open>The card with other bytes in its NDEF file.\<close>

definition put_ndef :: "bytes \<Rightarrow> ntag424_state \<Rightarrow> ntag424_state" where
  "put_ndef d s = s\<lparr>nFiles := (nFiles s)[1 := (nFiles s ! 1)\<lparr>nfData := d\<rparr>]\<rparr>"

lemma set_file_data_ndef: "set_file_data 2 d s = put_ndef d s"
  by (simp add: set_file_data_def put_ndef_def)

lemma put_ndef_simps [simp]:
  "nSelected (put_ndef d s) = nSelected s" "length (nFiles (put_ndef d s)) = length (nFiles s)"
  "1 < length (nFiles s) \<Longrightarrow> put_ndef d (put_ndef e s) = put_ndef d s" "nKeys (put_ndef d s) = nKeys s"
  "1 < length (nFiles s) \<Longrightarrow> ndef_file (put_ndef d s) = (ndef_file s)\<lparr>nfData := d\<rparr>"
  "nFiles (put_ndef d s) ! 0 = nFiles s ! 0"
  by (simp_all add: put_ndef_def ndef_file_def)

lemma put_ndef_same: "1 < length (nFiles s) \<Longrightarrow> put_ndef (nfData (ndef_file s)) s = s"
  by (simp add: put_ndef_def ndef_file_def)

lemma update_step:
  assumes "nSelected s = 2" "open_right True (nfSettings (ndef_file s))"
    and "off < 256" "off + length c \<le> length (nfData (ndef_file s))" "c \<noteq> []" "length c < 256"
  shows "tag_transceive n4_dev (update_binary_ext_apdu (of_nat off) c) s =
    (Inr [], put_ndef (copy_at off (nfData (ndef_file s)) c) s)"
  using tag_transceive_ok [where dev = n4_dev, OF update_on_card [OF assms]] by (simp add: set_file_data_ndef)

lemma copy_at_after:
  "off + length c + length d \<le> length b \<Longrightarrow>
     copy_at (off + length c) (copy_at off b c) d = copy_at off b (c @ d)"
  by (simp add: copy_at_fits add.commute add.left_commute)

lemma copy_at_nil [simp]: "copy_at off b [] = b"
  by (simp add: copy_at_def)

lemma write_ndef_on_card:
  assumes "nSelected s = 2" "open_right True (nfSettings (ndef_file s))" "1 < length (nFiles s)"
    and "length (nfData (ndef_file s)) \<le> 256" "off + length (concat cs) \<le> length (nfData (ndef_file s))"
    and "list_all (\<lambda>c. c \<noteq> [] \<and> length c < 256) cs"
  shows "write_ndef n4_dev off cs s = (Inr (), put_ndef (copy_at off (nfData (ndef_file s)) (concat cs)) s)"
  using assms
proof (induction cs arbitrary: off s)
  case Nil
  then show ?case by (simp add: put_ndef_same)
next
  case (Cons c cs)
  let ?b = "nfData (ndef_file s)"
  have "0 < length c" using Cons.prems(6) by simp
  then have l: "off < 256" "off + length c \<le> length ?b" "c \<noteq> []" "length c < 256"
    using Cons.prems(4-6) by (simp_all, linarith)
  note u = update_step [OF Cons.prems(1,2) l]
  let ?s = "put_ndef (copy_at off ?b c) s"
  have b: "nfData (ndef_file ?s) = copy_at off ?b c" using Cons.prems(3) by simp
  have "write_ndef n4_dev (off + length c) cs ?s =
      (Inr (), put_ndef (copy_at (off + length c) (nfData (ndef_file ?s)) (concat cs)) ?s)"
  proof (rule Cons.IH)
    show "open_right True (nfSettings (ndef_file ?s))" "length (nfData (ndef_file ?s)) \<le> 256"
      "off + length c + length (concat cs) \<le> length (nfData (ndef_file ?s))"
      using Cons.prems(2-5) l(2) by simp_all
  qed (use Cons.prems in simp_all)
  then have "write_ndef n4_dev (off + length c) cs ?s = (Inr (), put_ndef (copy_at off ?b (c @ concat cs)) s)"
    unfolding b using Cons.prems(3,5) by (subst (asm) copy_at_after) simp_all
  then show ?case by (simp add: doS_def u)
qed

lemma chunks_bounds:
  assumes "0 < n"
  shows "list_all (\<lambda>c. c \<noteq> [] \<and> length c \<le> n) (chunks n xs)"
  using assms by (induction n xs rule: chunks.induct) (subst chunks.simps, auto)

lemma nlen_bytes_facts: "length (nlen_bytes n) = 2" "nlen_bytes n \<noteq> []"
  by (simp_all add: nlen_bytes_def)

lemma type4_write_on_card:
  assumes "type4_card s" "15 \<le> length (nfData (nFiles s ! 0))" "open_right True (nfSettings (ndef_file s))"
    and "length d \<le> 254"
  shows "type4_write_data n4_dev d s =
    (Inr (), put_ndef (copy_at 0 (nfData (ndef_file s)) (nlen_bytes (length d) @ d)) (at_ndef s))"
proof -
  let ?b = "nfData (ndef_file s)"
  have b: "length ?b = 256" and n: "1 < length (nFiles s)"
    using assms(1) by (simp_all add: type4_card_def)
  let ?s1 = "put_ndef (copy_at 0 ?b [0, 0]) (at_ndef s)"
  let ?s2 = "put_ndef (copy_at 0 ?b ([0, 0] @ d)) (at_ndef s)"
  have u1: "tag_transceive n4_dev (update_binary_ext_apdu 0 [0x00, 0x00]) (at_ndef s) = (Inr [], ?s1)"
    using update_step [of "at_ndef s" 0 "[0, 0]"] assms(3) b by simp
  have c: "list_all (\<lambda>c. c \<noteq> [] \<and> length c < 256) (chunks 253 d)"
    using chunks_bounds [of 253 d] by (auto simp: list_all_iff)
  have w: "concat (chunks 253 d) = d" by (rule concat_chunks) simp
  have "write_ndef n4_dev 2 (chunks 253 d) ?s1 =
      (Inr (), put_ndef (copy_at 2 (nfData (ndef_file ?s1)) d) ?s1)"
    using write_ndef_on_card [of ?s1 2 "chunks 253 d"] assms(3,4) b n c by (simp add: w)
  moreover have "copy_at 2 (copy_at 0 ?b [0, 0]) d = copy_at 0 ?b ([0, 0] @ d)"
    using copy_at_after [of 0 "[0, 0]" d ?b] assms(4) b by (simp add: eval_nat_numeral)
  ultimately have u2: "write_ndef n4_dev 2 (chunks 253 d) ?s1 = (Inr (), ?s2)" using n by simp
  have "tag_transceive n4_dev (update_binary_ext_apdu (of_nat 0) (nlen_bytes (length d))) ?s2 =
      (Inr [], put_ndef (copy_at 0 (nfData (ndef_file ?s2)) (nlen_bytes (length d))) ?s2)"
    by (rule update_step) (use assms(3,4) b n in \<open>simp_all add: nlen_bytes_facts\<close>)
  moreover have "copy_at 0 (copy_at 0 ?b ([0, 0] @ d)) (nlen_bytes (length d)) = copy_at 0 ?b (nlen_bytes (length d) @ d)"
    using b assms(4) by (simp add: copy_at_fits nlen_bytes_def)
  ultimately have u3: "tag_transceive n4_dev (update_binary_ext_apdu 0 (nlen_bytes (length d))) ?s2 =
      (Inr [], put_ndef (copy_at 0 ?b (nlen_bytes (length d) @ d)) (at_ndef s))"
    using n by simp
  have "write_chunk std_cc = 253" "ccFileSize std_cc = 256" by (simp_all add: write_chunk_def chunk_limit_def std_cc_def)
  then show ?thesis
    using assms(4) by (simp add: type4_write_data_def doS_def select_ndef_on_card [OF assms(1,2)] u1 u2 u3 [simplified])
qed

text \<open>A message that does not fit is refused before the file is touched.\<close>

lemma type4_write_too_long:
  assumes "type4_card s" "15 \<le> length (nfData (nFiles s ! 0))" "254 < length d"
  shows "type4_write_data n4_dev d s = (Inl (TCapacity (length d) 254), at_ndef s)"
  using assms(3) by (simp add: type4_write_data_def doS_def select_ndef_on_card [OF assms(1,2)] std_cc_def)

section \<open>Reading back\<close>

text \<open>The NDEF file as a read sees it: plain bytes, SDM off.\<close>

definition plain_ndef :: "ntag424_state \<Rightarrow> bool" where
  "plain_ndef s \<longleftrightarrow> open_right False (nfSettings (ndef_file s)) \<and> \<not> fsSDMEnabled (nfSettings (ndef_file s))"

lemma read_step:
  assumes "nSelected s = 2" "plain_ndef s" "off < 256" "off \<le> length (nfData (ndef_file s))" "0 < n" "n < 256"
  shows "tag_transceive n4_dev (read_binary_ext_apdu (of_nat off) (byteN n)) s =
    (Inr (slice off (min (off + n) (length (nfData (ndef_file s)))) (nfData (ndef_file s))), s)"
  using assms read_on_card [of s 1 off n]
  by (intro tag_transceive_ok [where dev = n4_dev]) (simp add: plain_ndef_def ndef_file_def)

lemma slice_join: "i \<le> j \<Longrightarrow> j \<le> k \<Longrightarrow> slice i j xs @ slice j k xs = slice i k xs"
  using take_add [of "j - i" "k - j" "drop i xs"] by (simp add: slice_def)

lemma read_ndef_on_card:
  assumes "nSelected s = 2" "plain_ndef s" "0 < m" "m < 256"
    and "length (nfData (ndef_file s)) \<le> 256" "off + n \<le> length (nfData (ndef_file s))"
  shows "read_ndef n4_dev m off n acc s = (Inr (acc @ slice off (off + n) (nfData (ndef_file s))), s)"
  using assms(6)
proof (induction n arbitrary: off acc rule: less_induct)
  case (less n)
  let ?b = "nfData (ndef_file s)"
  show ?case
  proof (cases "n = 0")
    case True
    then show ?thesis by (simp add: read_ndef.simps slice_def)
  next
    case False
    define k where "k = min n m"
    have k: "0 < k" "k < 256" "k \<le> n" "off < 256" "off \<le> length ?b" "off + k \<le> length ?b"
      using False less.prems assms(3-5) by (auto simp: k_def)
    have r: "tag_transceive n4_dev (read_binary_ext_apdu (of_nat off) (byteN k)) s = (Inr (slice off (off + k) ?b), s)"
      using read_step [OF assms(1,2) k(4,5) k(1,2)] k(6) by (simp add: min_absorb1)
    have l: "length (slice off (off + k) ?b) = k" using k(6) by simp
    have "read_ndef n4_dev m (off + k) (n - k) (acc @ slice off (off + k) ?b) s =
        (Inr ((acc @ slice off (off + k) ?b) @ slice (off + k) (off + k + (n - k)) ?b), s)"
      using less.IH [of "n - k" "off + k"] False k less.prems by simp
    moreover have "slice off (off + k) ?b @ slice (off + k) (off + k + (n - k)) ?b = slice off (off + n) ?b"
      using k(3) slice_join [of off "off + k" "off + n" ?b] by simp
    ultimately show ?thesis
      using False k(1) by (subst read_ndef.simps) (simp add: r l del: length_slice flip: k_def)
  qed
qed

lemma type4_read_on_card:
  assumes "type4_card s" "15 \<le> length (nfData (nFiles s ! 0))" "plain_ndef s"
    and "nfData (ndef_file s) = nlen_bytes (length d) @ d @ rest" "d \<noteq> []" "length d \<le> 254"
  shows "type4_read_data n4_dev s = (Inr d, at_ndef s)"
proof -
  have b: "length (nfData (ndef_file s)) = 256" using assms(1) by (simp add: type4_card_def)
  have p: "plain_ndef (at_ndef s)" using assms(3) by (simp add: plain_ndef_def)
  let ?nl = "nlen_bytes (length d)"
  have "tag_transceive n4_dev (read_binary_ext_apdu (of_nat 0) (byteN 2)) (at_ndef s) = (Inr ?nl, at_ndef s)"
    using read_step [OF _ p, of 0 2] b assms(4) by (simp add: nlen_bytes_def)
  then have r: "tag_transceive n4_dev (read_binary_ext_apdu 0 2) (at_ndef s) = (Inr ?nl, at_ndef s)"
    by (simp add: byteN_def)
  have n: "256 * unat (?nl ! 0) + unat (?nl ! 1) = length d"
    using assms(6) by (simp add: nlen_bytes_def unat_byteN)
  have "read_ndef n4_dev 253 2 (length d) [] (at_ndef s) = (Inr (slice 2 (2 + length d) (nfData (ndef_file s))), at_ndef s)"
    using read_ndef_on_card [of "at_ndef s" 253 2 "length d" "[]"] p b assms(6) by simp
  moreover have "slice 2 (2 + length d) (nfData (ndef_file s)) = d"
    unfolding assms(4) by (rule slice_middle) (simp_all add: nlen_bytes_facts)
  moreover have "read_chunk std_cc = 253" "ccFileSize std_cc = 256" by (simp_all add: read_chunk_def chunk_limit_def std_cc_def)
  ultimately show ?thesis
    using assms(5,6) n by (simp add: type4_read_data_def doS_def select_ndef_on_card [OF assms(1,2)] r nlen_bytes_facts Let_def)
qed

lemma type4_write_read:
  assumes "type4_card s" "15 \<le> length (nfData (nFiles s ! 0))" "plain_ndef s" "open_right True (nfSettings (ndef_file s))"
    and "d \<noteq> []" "length d \<le> 254"
  shows "\<exists>s1. type4_write_data n4_dev d s = (Inr (), s1) \<and> type4_read_data n4_dev s1 = (Inr d, at_ndef s1) \<and>
    nfData (ndef_file s1) = nlen_bytes (length d) @ d @ drop (2 + length d) (nfData (ndef_file s)) \<and>
    nFiles s1 ! 0 = nFiles s ! 0 \<and> nKeys s1 = nKeys s"
proof -
  let ?b = "nfData (ndef_file s)"
  let ?d = "copy_at 0 ?b (nlen_bytes (length d) @ d)"
  let ?s1 = "put_ndef ?d (at_ndef s)"
  have b: "length ?b = 256" and n: "length (nFiles s) = 3"
    using assms(1) by (simp_all add: type4_card_def)
  have d: "?d = nlen_bytes (length d) @ d @ drop (2 + length d) ?b"
    using b assms(6) by (simp add: copy_at_fits nlen_bytes_facts)
  have f: "ndef_file ?s1 = (ndef_file s)\<lparr>nfData := ?d\<rparr>" using n by simp
  have t: "type4_card ?s1" using assms(1,6) f b d
    by (auto simp: type4_card_def nlen_bytes_facts)
  have p: "plain_ndef ?s1" using assms(3) f by (simp add: plain_ndef_def)
  have l: "15 \<le> length (nfData (nFiles ?s1 ! 0))" using assms(2) by simp
  have "type4_read_data n4_dev ?s1 = (Inr d, at_ndef ?s1)"
    by (rule type4_read_on_card [OF t l p]) (use f d assms(5,6) in simp_all)
  then show ?thesis using type4_write_on_card [OF assms(1,2,4,6)] f d by auto
qed

end
