(* ===== verification/Ntag424OnCard.thy ===== *)
theory Ntag424OnCard
  imports Ntag424Files CardExchange Type4Card
begin

text \<open>
  The NTAG 424 DNA driver run against the emulated card: a session it opens is one the card
  shares, and the NDEF file it writes and reads through that session is the card's.
\<close>

definition card_env :: "(ntag424_state \<Rightarrow> int) \<Rightarrow> (ntag424_state, unit) n4_env" where
  "card_env clk = \<lparr>envDev = n4_dev, envRemoved = (\<lambda>_. False), envNow = clk\<rparr>"

text \<open>The tag's session is the card's, under the key the tag thinks; no deadline presses.\<close>

definition linked :: "unit ntag424_tag \<Rightarrow> ntag424_state \<Rightarrow> bool" where
  "linked t s \<longleftrightarrow> card_ok s \<and> (case gSession t of None \<Rightarrow> False | Some r \<Rightarrow> in_sync r s) \<and>
     gSessionKeyNo t = nAuthKey s \<and> gBudget t = None"

lemma linkedE:
  assumes "linked t s"
  obtains r where "gSession t = Some r" "in_sync r s" "card_ok s" "gSessionKeyNo t = nAuthKey s" "gBudget t = None"
  using assms by (auto simp: linked_def split: option.splits)

text \<open>What a command inside the session changes of the tag.\<close>

definition tag_stays :: "unit ntag424_tag \<Rightarrow> unit ntag424_tag \<Rightarrow> bool" where
  "tag_stays t t' \<longleftrightarrow> gKeys t' = gKeys t \<and> gSessionKeyNo t' = gSessionKeyNo t \<and> gUid t' = gUid t \<and>
     gRealUID t' = gRealUID t \<and> gFailedAuth t' = gFailedAuth t \<and> gDelayed t' = gDelayed t \<and> gLRP t' = gLRP t"

lemma tag_stays_refl [simp]: "tag_stays t t" by (simp add: tag_stays_def)
lemma tag_stays_trans: "tag_stays a b \<Longrightarrow> tag_stays b c \<Longrightarrow> tag_stays a c" by (simp add: tag_stays_def)

lemma tag_stays_holds:
  assumes "tag_stays t t'"
  shows "holds_key t' = holds_key t" "any_held_key t' = any_held_key t" "route_for t' = route_for t"
    "change_key_for t' = change_key_for t"
proof -
  show h: "holds_key t' = holds_key t" using assms by (simp add: fun_eq_iff holds_key_def tag_stays_def split: option.split)
  then show a: "any_held_key t' = any_held_key t" by (simp add: any_held_key_def)
  show "route_for t' = route_for t" by (rule ext)+ (simp only: route_for_def h a)
  show "change_key_for t' = change_key_for t" by (rule ext) (simp only: change_key_for_def h a)
qed

section \<open>One command\<close>

lemma n4_send_card:
  assumes "transceive cmd s = Some (resp, s')" "gBudget t = None"
  shows "n4_send (card_env clk) cmd (t, s) = (Inr resp, (t, s'))"
  using assms by (simp add: n4_send_def mapES_def transmit_raw_def n4_exchange_def card_env_def n4_dev_def)

lemma run_command_card:
  assumes "build (gSession t) = (Inr cmd, c1)" "transceive cmd s = Some (resp, s')" "parse c1 resp = (Inr x, c2)"
    and "gBudget t = None"
  shows "run_command (card_env clk) w build parse (t, s) =
    (Inr x, (t\<lparr>gSession := c2, gWritesSent := gWritesSent t + of_bool w\<rparr>, s'))"
proof -
  have b: "in_channel build (t, s) = (Inr cmd, (t\<lparr>gSession := c1\<rparr>, s))"
    using assms(1) by (simp add: in_channel_def)
  let ?t = "t\<lparr>gSession := c1, gWritesSent := gWritesSent t + of_bool w\<rparr>"
  have n: "(if w then note_write else retS ()) (t\<lparr>gSession := c1\<rparr>, s) = (Inr (), (?t, s))"
    by (cases w) (simp_all add: note_write_def changeS_def)
  have "n4_send (card_env clk) cmd (?t, s) = (Inr resp, (?t, s'))"
    using assms(2,4) by (intro n4_send_card) simp_all
  then show ?thesis
    using b n assms(3) by (simp add: run_command_def doS_def in_channel_def)
qed

text \<open>A command whose answer the reader accepts keeps the two halves linked.\<close>

lemma linked_command:
  assumes "linked t s" "build (gSession t) = (Inr cmd, c1)" "transceive cmd s = Some (resp, s')"
    and "parse c1 resp = (Inr x, Some ch)" "in_sync ch s'" "card_ok s'" "nAuthKey s' = nAuthKey s"
  shows "\<exists>t'. run_command (card_env clk) w build parse (t, s) = (Inr x, (t', s')) \<and> linked t' s' \<and> tag_stays t t'"
proof -
  from assms(1) have "gBudget t = None" "gSessionKeyNo t = nAuthKey s" by (auto elim: linkedE)
  with run_command_card [where build = build and parse = parse, OF assms(2-4)] assms(5-7) show ?thesis
    by (auto simp: linked_def tag_stays_def)
qed

lemma command_built:
  assumes "in_sync r s" "known_mode m" "wire_length m (length h) (length d) < 256"
  obtains apdu r1 where "send_in (Some r) ins h d m = (Inr apdu, Some r1)"
proof -
  obtain c where "chan_synced r c" using assms(1) by (auto simp: in_sync_def split: option.splits)
  from chan_command_verify [OF this assms(2,3), of ins] that show ?thesis
    by (auto simp: send_in_def with_chan_def)
qed

section \<open>Settings\<close>

definition shown :: "n4_file \<Rightarrow> file_settings" where
  "shown f = (settings_wire (nfSettings f))\<lparr>fsFileType := 0x00, fsFileSize := of_nat (length (nfData f))\<rparr>"

lemma shown_simps [simp]:
  "fsCommMode (shown f) = fsCommMode (nfSettings f)" "fsRead (shown f) = fsRead (nfSettings f)"
  "fsWrite (shown f) = fsWrite (nfSettings f)" "fsReadWrite (shown f) = fsReadWrite (nfSettings f)"
  "fsChange (shown f) = fsChange (nfSettings f)" "fsFileSize (shown f) = of_nat (length (nfData f))"
  by (simp_all add: shown_def settings_wire_def Let_def)

lemma settings_in_session_card:
  assumes "linked t s" "card_file n s = Some f"
  shows "\<exists>t' s'. settings_in_session (card_env clk) n (t, s) = (Inr (shown f), (t', s')) \<and> linked t' s' \<and>
    nFiles s' = nFiles s \<and> card_stays s s' \<and> tag_stays t t'"
proof -
  obtain r where r: "gSession t = Some r" "in_sync r s" "card_ok s" using assms(1) by (rule linkedE)
  obtain apdu r1 where b: "get_file_settings (Some r) n = (Inr apdu, Some r1)"
    using command_built [OF r(2), of CommMAC "[n]" "[]" "0xF5"] unfolding get_file_settings_def by auto
  obtain resp s' ch where c: "transceive apdu s = Some (resp, s')" "card_ok s'" "nFiles s' = nFiles s"
    "parse_file_settings_response (Some r1) resp = (Inr (shown f), Some ch)" "in_sync ch s'" "card_stays s s'"
    using get_settings_on_card [OF r(3,2) assms(2) b] by (auto simp: shown_def)
  have b': "(\<lambda>c. get_file_settings c n) (gSession t) = (Inr apdu, Some r1)" using b r(1) by simp
  from linked_command [where build = "\<lambda>c. get_file_settings c n" and parse = parse_file_settings_response,
      OF assms(1) b' c(1,4,5,2) card_staysD(3) [OF c(6)]] c(3,6) show ?thesis
    unfolding settings_in_session_def by blast
qed

lemma get_file_settings_card:
  assumes "linked t s" "card_file n s = Some f"
  shows "\<exists>t' s'. n4_get_file_settings (card_env clk) n (t, s) = (Inr (shown f), (t', s')) \<and> linked t' s' \<and>
    nFiles s' = nFiles s \<and> card_stays s s' \<and> tag_stays t t'"
proof -
  obtain r where r: "gSession t = Some r" using assms(1) by (rule linkedE)
  obtain t1 s' where c: "settings_in_session (card_env clk) n (t, s) = (Inr (shown f), (t1, s'))" "linked t1 s'"
    "nFiles s' = nFiles s" "card_stays s s'" "tag_stays t t1"
    using settings_in_session_card [OF assms] by blast
  have "\<exists>t'. cached n (shown f) (t1, s') = (Inr (shown f), (t', s')) \<and> linked t' s' \<and> tag_stays t1 t'"
    using c(2) by (simp add: cached_def cache_settings_def doS_def changeS_def linked_def tag_stays_def)
  with c r show ?thesis
    by (auto simp: n4_get_file_settings_def tryS_def intro: tag_stays_trans)
qed

section \<open>Writing through the session\<close>

lemma card_file_ndef [simp]: "card_file 0x02 s = Some (ndef_file s)"
  by (simp add: card_file_def ndef_file_def)

lemma card_ok_files: "card_ok s \<Longrightarrow> length (nFiles s) = 3 \<and> length (nfData (ndef_file s)) = 256"
  using files_okD [of "nLRP s" "nFiles s" 1]
  by (auto simp: card_ok_def files_ok_def file_ok_def ntag424_file_sizes_def ndef_file_def)

lemma permitted_linked:
  assumes "linked t s" "linked t' s'" "card_stays s s'"
  shows "permitted fs wr s' = permitted fs wr s"
proof -
  obtain c c' where "nSession s = Some c" "nSession s' = Some c'"
    using assms(1,2) by (auto elim!: linkedE simp: in_sync_def split: option.splits)
  then show ?thesis using card_staysD(3) [OF assms(3)] by (simp add: permitted_def Let_def) auto
qed

lemma small_uint32: "n \<le> 256 \<Longrightarrow> unat (of_nat n :: uint32) = n \<and> (of_nat n :: uint32) \<le> 0xFFFFFF"
  by (simp add: word_le_nat_alt unat_of_nat)

text \<open>The card's files after the NDEF file holds other bytes.\<close>

definition with_ndef :: "bytes \<Rightarrow> ntag424_state \<Rightarrow> n4_file list" where
  "with_ndef d s = (nFiles s)[1 := (ndef_file s)\<lparr>nfData := d\<rparr>]"

lemma with_ndef_simps:
  assumes "nFiles s' = with_ndef d s" "length (nFiles s) = 3"
  shows "ndef_file s' = (ndef_file s)\<lparr>nfData := d\<rparr>" "with_ndef e s' = with_ndef e s"
  using assms by (simp_all add: with_ndef_def ndef_file_def)

lemma with_ndef_same: "with_ndef (nfData (ndef_file s)) s = nFiles s"
  by (simp add: with_ndef_def ndef_file_def)

lemma write_part_card:
  assumes "linked t s" "fsCommMode (nfSettings (ndef_file s)) = m" "known_mode m"
    and "fst (permitted (nfSettings (ndef_file s)) True s)"
    and "off + length d \<le> 256" "length d \<le> max_write_chunk m"
  shows "\<exists>t' s'. run_command (card_env clk) True (\<lambda>c. write_data c 0x02 (of_nat off) d m)
        (\<lambda>c resp. parse_write_data c resp m) (t, s) = (Inr (), (t', s')) \<and> linked t' s' \<and>
    nFiles s' = with_ndef (copy_at off (nfData (ndef_file s)) d) s \<and> card_stays s s' \<and> tag_stays t t'"
proof -
  obtain r where r: "gSession t = Some r" "in_sync r s" "card_ok s" using assms(1) by (rule linkedE)
  have l: "length (nfData (ndef_file s)) = 256" using card_ok_files [OF r(3)] by simp
  have o: "unat (of_nat off :: uint32) = off" "(of_nat off :: uint32) \<le> 0xFFFFFF"
    using small_uint32 [of off] assms(5) by simp_all
  have n: "(of_nat (length d) :: uint32) \<le> 0xFFFFFF" using small_uint32 [of "length d"] assms(5) by simp
  have w: "wire_length m 7 (length d) < 256" using assms(3,6) by (simp flip: write_chunk_fits)
  have h: "length (0x02 # offset24 (of_nat off) @ offset24 (of_nat (length d))) = 7" by simp
  obtain apdu r1 where "send_in (Some r) 0x8D (0x02 # offset24 (of_nat off) @ offset24 (of_nat (length d))) d m =
      (Inr apdu, Some r1)"
    using command_built [OF r(2) assms(3), of "0x02 # offset24 (of_nat off) @ offset24 (of_nat (length d))"] w h by metis
  then have b: "write_data (Some r) 0x02 (of_nat off) d m = (Inr apdu, Some r1)"
    using assms(6) o(2) n by (simp add: write_data_def check_write_size_def data_header_def not_less)
  have fits: "unat (of_nat off :: uint32) + length d \<le> length (nfData (ndef_file s))" using o l assms(5) by simp
  obtain resp s' ch where c: "transceive apdu s = Some (resp, s')" "card_ok s'"
    "nFiles s' = with_ndef (copy_at off (nfData (ndef_file s)) d) s"
    "parse_write_data (Some r1) resp m = (Inr (), Some ch)" "in_sync ch s'" "card_stays s s'"
    using write_data_on_card [OF r(3,2) card_file_ndef assms(2-4) fits b] o(1) by (auto simp: with_ndef_def)
  have b': "(\<lambda>c. write_data c 0x02 (of_nat off) d m) (gSession t) = (Inr apdu, Some r1)" using b r(1) by simp
  from linked_command [where parse = "\<lambda>c resp. parse_write_data c resp m" and
      build = "\<lambda>c. write_data c 0x02 (of_nat off) d m", OF assms(1) b' c(1,4,5,2) card_staysD(3) [OF c(6)]] c(3,6)
  show ?thesis by blast
qed

lemma write_parts_card:
  assumes "linked t s" "fsCommMode (nfSettings (ndef_file s)) = m" "known_mode m"
    and "fst (permitted (nfSettings (ndef_file s)) True s)"
    and "off + length (concat parts) \<le> 256" "list_all (\<lambda>p. length p \<le> max_write_chunk m) parts"
  shows "\<exists>t' s'. write_parts (card_env clk) m off parts (t, s) = (Inr (), (t', s')) \<and> linked t' s' \<and>
    nFiles s' = with_ndef (copy_at off (nfData (ndef_file s)) (concat parts)) s \<and>
    card_stays s s' \<and> tag_stays t t'"
  using assms
proof (induction parts arbitrary: off t s)
  case Nil
  then show ?case by (simp add: with_ndef_same)
next
  case (Cons p parts)
  have ok: "length (nFiles s) = 3" "length (nfData (ndef_file s)) = 256"
    using Cons.prems(1) by (auto elim!: linkedE dest: card_ok_files)
  have a: "off + length p \<le> 256" "length p \<le> max_write_chunk m" using Cons.prems(5,6) by simp_all
  obtain t1 s1 where w: "run_command (card_env clk) True (\<lambda>c. write_data c 0x02 (of_nat off) p m)
        (\<lambda>c resp. parse_write_data c resp m) (t, s) = (Inr (), (t1, s1))" "linked t1 s1"
    "nFiles s1 = with_ndef (copy_at off (nfData (ndef_file s)) p) s" "card_stays s s1" "tag_stays t t1"
    using write_part_card [OF Cons.prems(1-4) a] by blast
  note f = with_ndef_simps [OF w(3) ok(1)]
  have "\<exists>t' s'. write_parts (card_env clk) m (off + length p) parts (t1, s1) = (Inr (), (t', s')) \<and> linked t' s' \<and>
    nFiles s' = with_ndef (copy_at (off + length p) (nfData (ndef_file s1)) (concat parts)) s1 \<and>
    card_stays s1 s' \<and> tag_stays t1 t'"
  proof (rule Cons.IH [OF w(2)])
    show "fst (permitted (nfSettings (ndef_file s1)) True s1)"
      using Cons.prems(4) permitted_linked [OF Cons.prems(1) w(2,4)] f(1) by simp
  qed (use Cons.prems f(1) in simp_all)
  moreover have "copy_at (off + length p) (copy_at off (nfData (ndef_file s)) p) (concat parts) =
      copy_at off (nfData (ndef_file s)) (p @ concat parts)"
    using Cons.prems(5) ok(2) by (intro copy_at_after) simp
  ultimately show ?case
    using w(1,4,5) f by (auto simp: doS_def intro: tag_stays_trans card_stays_trans)
qed

lemma max_write_chunk_pos: "known_mode m \<Longrightarrow> 0 < max_write_chunk m"
  by (cases m) (simp_all add: max_write_chunk_def)

lemma write_chunks_card:
  assumes "linked t s" "fsCommMode (nfSettings (ndef_file s)) = m" "known_mode m"
    and "fst (permitted (nfSettings (ndef_file s)) True s)" "off + length d \<le> 256"
  shows "\<exists>t' s'. write_chunks (card_env clk) m off d (t, s) = (Inr (), (t', s')) \<and> linked t' s' \<and>
    nFiles s' = with_ndef (copy_at off (nfData (ndef_file s)) d) s \<and>
    card_stays s s' \<and> tag_stays t t'"
proof -
  note p = max_write_chunk_pos [OF assms(3)]
  have c: "concat (chunks (max_write_chunk m) d) = d" using p by (rule concat_chunks)
  have "list_all (\<lambda>q. length q \<le> max_write_chunk m) (chunks (max_write_chunk m) d)"
    using chunks_bounds [OF p, of d] by (auto simp: list_all_iff)
  then show ?thesis
    using write_parts_card [where clk = clk, OF assms(1-4), of off "chunks (max_write_chunk m) d"] assms(5) c
    by (simp add: write_chunks_def)
qed

lemma native_write_card:
  assumes "linked t s" "fsCommMode (nfSettings (ndef_file s)) = m" "known_mode m"
    and "fst (permitted (nfSettings (ndef_file s)) True s)" "length d \<le> 254"
  shows "\<exists>t' s'. native_write (card_env clk) m d (t, s) = (Inr (), (t', s')) \<and> linked t' s' \<and>
    nFiles s' = with_ndef (nlen_bytes (length d) @ d @ drop (2 + length d) (nfData (ndef_file s))) s \<and>
    card_stays s s' \<and> tag_stays t t'"
proof -
  let ?b = "nfData (ndef_file s)"
  have ok: "length (nFiles s) = 3" "length ?b = 256"
    using assms(1) by (auto elim!: linkedE dest: card_ok_files)
  obtain t1 s1 where w1: "write_chunks (card_env clk) m 0 [0x00, 0x00] (t, s) = (Inr (), (t1, s1))" "linked t1 s1"
    "nFiles s1 = with_ndef (copy_at 0 ?b [0, 0]) s" "card_stays s s1" "tag_stays t t1"
    using write_chunks_card [where clk = clk, OF assms(1-4), of 0 "[0, 0]"] by auto
  note f1 = with_ndef_simps [OF w1(3) ok(1)]
  have p1: "fst (permitted (nfSettings (ndef_file s1)) True s1)" "fsCommMode (nfSettings (ndef_file s1)) = m"
    using assms(2,4) permitted_linked [OF assms(1) w1(2,4)] f1(1) by simp_all
  obtain t2 s2 where w2: "write_chunks (card_env clk) m 2 d (t1, s1) = (Inr (), (t2, s2))" "linked t2 s2"
    "nFiles s2 = with_ndef (copy_at 2 (nfData (ndef_file s1)) d) s1" "card_stays s1 s2" "tag_stays t1 t2"
    using write_chunks_card [where clk = clk, OF w1(2) p1(2) assms(3) p1(1), of 2 d] assms(5) by auto
  have l1: "length (nFiles s1) = 3" using w1(3) ok(1) by (simp add: with_ndef_def)
  note f2 = with_ndef_simps [OF w2(3) l1]
  have p2: "fst (permitted (nfSettings (ndef_file s2)) True s2)" "fsCommMode (nfSettings (ndef_file s2)) = m"
    using p1 permitted_linked [OF w1(2) w2(2,4)] f2(1) by simp_all
  obtain t3 s3 where w3: "write_chunks (card_env clk) m 0 (nlen_bytes (length d)) (t2, s2) = (Inr (), (t3, s3))"
    "linked t3 s3" "nFiles s3 = with_ndef (copy_at 0 (nfData (ndef_file s2)) (nlen_bytes (length d))) s2"
    "card_stays s2 s3" "tag_stays t2 t3"
    using write_chunks_card [where clk = clk, OF w2(2) p2(2) assms(3) p2(1), of 0 "nlen_bytes (length d)"]
    by (auto simp: nlen_bytes_facts)
  have "nfData (ndef_file s2) = copy_at 2 (copy_at 0 ?b [0, 0]) d" using f1 f2 by simp
  also have "\<dots> = [0, 0] @ d @ drop (2 + length d) ?b" using ok(2) assms(5) by (simp add: copy_at_fits)
  finally have "copy_at 0 (nfData (ndef_file s2)) (nlen_bytes (length d)) =
      nlen_bytes (length d) @ d @ drop (2 + length d) ?b"
    by (simp add: copy_at_fits nlen_bytes_facts)
  then have "nFiles s3 = with_ndef (nlen_bytes (length d) @ d @ drop (2 + length d) ?b) s"
    using w3(3) f2(2) f1(2) by simp
  then show ?thesis
    using w1 w2 w3 by (auto simp: native_write_def doS_def intro: tag_stays_trans card_stays_trans)
qed

section \<open>Reading through the session\<close>

lemma read_part_card:
  assumes "linked t s" "fsCommMode (nfSettings (ndef_file s)) = m" "known_mode m"
    and "fst (permitted (nfSettings (ndef_file s)) False s)" "\<not> fsSDMEnabled (nfSettings (ndef_file s))"
    and "0 < n" "n \<le> 224" "off + n \<le> 256"
  shows "\<exists>t' s'. run_command (card_env clk) False (\<lambda>c. read_data c 0x02 (of_nat off) (of_nat n) m)
        (\<lambda>c resp. parse_read_data c resp m) (t, s) =
        (Inr (slice off (off + n) (nfData (ndef_file s))), (t', s')) \<and>
    linked t' s' \<and> nFiles s' = nFiles s \<and> card_stays s s' \<and> tag_stays t t'"
proof -
  obtain r where r: "gSession t = Some r" "in_sync r s" "card_ok s" using assms(1) by (rule linkedE)
  have l: "length (nfData (ndef_file s)) = 256" using card_ok_files [OF r(3)] by simp
  have o: "unat (of_nat off :: uint32) = off" "(of_nat off :: uint32) \<le> 0xFFFFFF"
    "unat (of_nat n :: uint32) = n" "(of_nat n :: uint32) \<le> 0xFFFFFF" "0 < (of_nat n :: uint32)"
    using small_uint32 [of off] small_uint32 [of n] assms(6-8) by (simp_all add: word_less_nat_alt)
  have w: "wire_length m 7 0 < 256" using assms(3) by (cases m) simp_all
  have h: "length (0x02 # offset24 (of_nat off) @ offset24 (of_nat n)) = 7" by simp
  obtain apdu r1 where "send_in (Some r) 0xAD (0x02 # offset24 (of_nat off) @ offset24 (of_nat n)) [] m =
      (Inr apdu, Some r1)"
    using command_built [OF r(2) assms(3), of "0x02 # offset24 (of_nat off) @ offset24 (of_nat n)" "[]"] w h
    by (metis list.size(3))
  then have b: "read_data (Some r) 0x02 (of_nat off) (of_nat n) m = (Inr apdu, Some r1)"
    using o by (simp add: read_data_def data_header_def not_less)
  have fits: "unat (of_nat n :: uint32) \<le> 224"
    "unat (of_nat off :: uint32) + unat (of_nat n :: uint32) \<le> length (nfData (ndef_file s))"
    using o l assms(7,8) by simp_all
  have sdm: "(0x02 :: byte) \<noteq> 0x02 \<or> \<not> fsSDMEnabled (nfSettings (ndef_file s))" using assms(5) by simp
  obtain resp s' ch where c: "transceive apdu s = Some (resp, s')" "card_ok s'" "nFiles s' = nFiles s"
    "parse_read_data (Some r1) resp m = (Inr (slice off (off + n) (nfData (ndef_file s))), Some ch)"
    "in_sync ch s'" "card_stays s s'"
    using read_data_on_card [OF r(3,2) card_file_ndef assms(2-4) sdm o(5) fits b] o(1,3) by auto
  have b': "(\<lambda>c. read_data c 0x02 (of_nat off) (of_nat n) m) (gSession t) = (Inr apdu, Some r1)" using b r(1) by simp
  from linked_command [where parse = "\<lambda>c resp. parse_read_data c resp m" and
      build = "\<lambda>c. read_data c 0x02 (of_nat off) (of_nat n) m", OF assms(1) b' c(1,4,5,2) card_staysD(3) [OF c(6)]] c(3,6)
  show ?thesis by blast
qed

lemma read_chunks_card:
  assumes "linked t s" "fsCommMode (nfSettings (ndef_file s)) = m" "known_mode m"
    and "fst (permitted (nfSettings (ndef_file s)) False s)" "\<not> fsSDMEnabled (nfSettings (ndef_file s))"
    and "off + len \<le> 256" "acc = slice off (off + k) (nfData (ndef_file s))" "k \<le> len"
  shows "\<exists>t' s'. read_chunks (card_env clk) m off len acc (t, s) =
        (Inr (slice off (off + len) (nfData (ndef_file s))), (t', s')) \<and>
    linked t' s' \<and> nFiles s' = nFiles s \<and> card_stays s s' \<and> tag_stays t t'"
  using assms
proof (induction "len - k" arbitrary: k acc t s rule: less_induct)
  case less
  let ?b = "nfData (ndef_file s)"
  have l: "length ?b = 256" using less.prems(1) by (auto elim!: linkedE dest: card_ok_files)
  then have la: "length acc = k" using less.prems(6-8) by simp
  show ?case
  proof (cases "k = len")
    case True
    then show ?thesis using less.prems la by (auto simp: read_chunks.simps)
  next
    case False
    define n where "n = min (if m = CommFull then 160 else 192) (len - k)"
    have n: "0 < n" "n \<le> 224" "k + n \<le> len" "off + k + n \<le> 256"
      using False less.prems(6,8) by (auto simp: n_def)
    obtain t1 s1 where r: "run_command (card_env clk) False (\<lambda>c. read_data c 0x02 (of_nat (off + k)) (of_nat n) m)
        (\<lambda>c resp. parse_read_data c resp m) (t, s) = (Inr (slice (off + k) (off + k + n) ?b), (t1, s1))"
      "linked t1 s1" "nFiles s1 = nFiles s" "card_stays s s1" "tag_stays t t1"
      using read_part_card [OF less.prems(1-5) n(1,2,4), of clk] by blast
    have f: "ndef_file s1 = ndef_file s" using r(3) by (simp add: ndef_file_def)
    have p: "fst (permitted (nfSettings (ndef_file s1)) False s1)"
      using less.prems(4) permitted_linked [OF less.prems(1) r(2,4)] f by simp
    have j: "acc @ slice (off + k) (off + k + n) ?b = slice off (off + (k + n)) (nfData (ndef_file s1))"
      using slice_join [of off "off + k" "off + k + n" ?b] less.prems(7) f by (simp add: add.assoc)
    have d: "length (slice (off + k) (off + k + n) ?b) = n" using n(4) l by simp
    have "len - (k + n) < len - k" using n(1,3) by simp
    from less.hyps [OF this r(2) _ less.prems(3) p _ less.prems(6) j n(3)] less.prems(2,5) f
    obtain t2 s2 where i: "read_chunks (card_env clk) m off len (acc @ slice (off + k) (off + k + n) ?b) (t1, s1) =
        (Inr (slice off (off + len) ?b), (t2, s2))" "linked t2 s2" "nFiles s2 = nFiles s1" "card_stays s1 s2" "tag_stays t1 t2" by auto
    have "read_chunks (card_env clk) m off len acc (t, s) =
        (Inr (slice off (off + len) ?b), (t2, s2))"
      using False less.prems(8) la d r(1) i(1) by (subst read_chunks.simps) (simp add: Let_def del: length_slice flip: n_def)
    with i r show ?thesis by (auto intro: tag_stays_trans card_stays_trans)
  qed
qed

lemma native_read_card:
  assumes "linked t s" "fsCommMode (nfSettings (ndef_file s)) = m" "known_mode m"
    and "fst (permitted (nfSettings (ndef_file s)) False s)" "\<not> fsSDMEnabled (nfSettings (ndef_file s))"
    and "nfData (ndef_file s) = nlen_bytes (length d) @ d @ rest" "length d \<le> 254" "fsFileSize fs = 256"
  shows "\<exists>t' s'. native_read (card_env clk) fs m (t, s) = (Inr d, (t', s')) \<and>
    linked t' s' \<and> nFiles s' = nFiles s \<and> card_stays s s' \<and> tag_stays t t'"
proof -
  let ?b = "nfData (ndef_file s)"
  have n: "256 * unat (nlen_bytes (length d) ! 0) + unat (nlen_bytes (length d) ! 1) = length d"
    using assms(7) by (simp add: nlen_bytes_def unat_byteN)
  have b0: "slice 0 (0 + 2) ?b = nlen_bytes (length d)" using assms(6) by (simp add: nlen_bytes_def)
  obtain t1 s1 where r1: "read_chunks (card_env clk) m 0 2 [] (t, s) = (Inr (nlen_bytes (length d)), (t1, s1))"
    "linked t1 s1" "nFiles s1 = nFiles s" "card_stays s s1" "tag_stays t t1"
    using read_chunks_card [OF assms(1-5), of 0 2 "[]" 0 clk] b0 by auto
  have f: "ndef_file s1 = ndef_file s" using r1(3) by (simp add: ndef_file_def)
  have p: "fst (permitted (nfSettings (ndef_file s1)) False s1)"
    using assms(4) permitted_linked [OF assms(1) r1(2,4)] f by simp
  have b2: "slice 2 (2 + length d) ?b = d"
    unfolding assms(6) by (rule slice_middle) (simp_all add: nlen_bytes_facts)
  show ?thesis
  proof (cases "d = []")
    case True
    with r1 n show ?thesis by (auto simp: native_read_def doS_def Let_def)
  next
    case False
    obtain t2 s2 where r2: "read_chunks (card_env clk) m 2 (length d) [] (t1, s1) = (Inr d, (t2, s2))"
      "linked t2 s2" "nFiles s2 = nFiles s1" "card_stays s1 s2" "tag_stays t1 t2"
      using read_chunks_card [OF r1(2) _ assms(3) p, of 2 "length d" "[]" 0 clk] f assms(2,5,7) b2
      by (auto simp: slice_def)
    have "\<not> (2 < fsFileSize fs \<and> unat (fsFileSize fs) - 2 < length d)" using assms(7,8) by simp
    then have "native_read (card_env clk) fs m (t, s) = (Inr d, (t2, s2))"
      unfolding native_read_def Let_def doS_def using r1(1) r2(1) False by (simp add: n del: One_nat_def)
    with r1 r2 show ?thesis by (auto intro: tag_stays_trans card_stays_trans)
  qed
qed

section \<open>The NDEF file, end to end\<close>

lemma with_session_linked:
  assumes "linked t s" "k = nAuthKey s" "fn (t, s) = (Inr x, ts')"
  shows "with_session env k fn (t, s) = (Inr x, ts')"
proof -
  obtain r where "gSession t = Some r" "gSessionKeyNo t = nAuthKey s" using assms(1) by (rule linkedE)
  then have "authenticate_with env (key_for env) k (t, s) = (Inr (), (t, s))"
    using assms(2) by (simp add: authenticate_with_def)
  then show ?thesis using assms(3)
    by (simp add: with_session_def with_session_with_def doS_def tryS_def)
qed

lemma route_shown:
  assumes "route_for t (shown f) wr = Inr rt" "rtNative rt" "rtKeyNo rt = nAuthKey s" "nSession s \<noteq> None"
  shows "fst (permitted (nfSettings f) wr s) \<and> rtMode rt = fsCommMode (nfSettings f)"
  using assms by (auto simp: route_for_def permitted_def Let_def find_Some_iff
      split: if_splits option.splits) 

text \<open>The tag may reach the NDEF file natively, under the key of the session it holds.\<close>

definition native_route :: "unit ntag424_tag \<Rightarrow> ntag424_state \<Rightarrow> bool \<Rightarrow> bool" where
  "native_route t s wr \<longleftrightarrow> known_mode (fsCommMode (nfSettings (ndef_file s))) \<and>
     route_for t (shown (ndef_file s)) wr =
       Inr \<lparr>rtNative = True, rtKeyNo = nAuthKey s, rtMode = fsCommMode (nfSettings (ndef_file s))\<rparr>"

lemma native_route_permitted:
  assumes "linked t s" "native_route t s wr"
  shows "fst (permitted (nfSettings (ndef_file s)) wr s)"
proof -
  have "nSession s \<noteq> None" using assms(1) by (auto elim!: linkedE simp: in_sync_def split: option.splits)
  with route_shown [of t "ndef_file s" wr] assms(2) show ?thesis by (auto simp: native_route_def)
qed

lemma budget_free: "gBudget t = None \<Longrightarrow> budget_require env st n (t, s) = (Inr (), (t, s))"
  by (simp add: budget_require_def)

lemma write_data_card:
  assumes "linked t s" "native_route t s True" "length d \<le> 254"
  shows "\<exists>t' s'. n4_write_data (card_env clk) d (t, s) = (Inr (), (t', s')) \<and> linked t' s' \<and>
    nFiles s' = with_ndef (nlen_bytes (length d) @ d @ drop (2 + length d) (nfData (ndef_file s))) s \<and>
    card_stays s s' \<and> tag_stays t t'"
proof -
  obtain t1 s1 where g: "n4_get_file_settings (card_env clk) 0x02 (t, s) = (Inr (shown (ndef_file s)), (t1, s1))"
    "linked t1 s1" "nFiles s1 = nFiles s" "card_stays s s1" "tag_stays t t1"
    using get_file_settings_card [OF assms(1) card_file_ndef] by blast
  have f: "ndef_file s1 = ndef_file s" "with_ndef e s1 = with_ndef e s" for e
    using g(3) by (simp_all add: ndef_file_def with_ndef_def)
  have k: "nAuthKey s1 = nAuthKey s" using card_staysD [OF g(4)] by simp
  have rt: "route_for t1 (shown (ndef_file s)) True =
      Inr \<lparr>rtNative = True, rtKeyNo = nAuthKey s, rtMode = fsCommMode (nfSettings (ndef_file s))\<rparr>"
    and m: "known_mode (fsCommMode (nfSettings (ndef_file s)))"
    using assms(2) tag_stays_holds(3) [OF g(5)] by (simp_all add: native_route_def)
  have p: "fst (permitted (nfSettings (ndef_file s1)) True s1)"
    using native_route_permitted [OF assms(1,2)] permitted_linked [OF assms(1) g(2,4)] f(1) by simp
  obtain t2 s2 where w: "native_write (card_env clk) (fsCommMode (nfSettings (ndef_file s))) d (t1, s1) = (Inr (), (t2, s2))"
    "linked t2 s2" "nFiles s2 = with_ndef (nlen_bytes (length d) @ d @ drop (2 + length d) (nfData (ndef_file s1))) s1"
    "card_stays s1 s2" "tag_stays t1 t2"
    using native_write_card [where clk = clk, OF g(2) _ m p assms(3)] f(1) by auto
  have ws: "with_session (card_env clk) (nAuthKey s)
      (native_write (card_env clk) (fsCommMode (nfSettings (ndef_file s))) d) (t1, s1) = (Inr (), (t2, s2))"
    using g(2) k [symmetric] w(1) by (rule with_session_linked)
  have l: "length (nfData (ndef_file s)) = 256" "gBudget t1 = None"
    using assms(1) g(2) by (auto elim!: linkedE dest: card_ok_files)
  have "n4_write_data (card_env clk) d (t, s) = (Inr (), (t2, s2))"
    using g(1) rt ws l assms(3)
    by (simp add: n4_write_data_def tryS_def doS_def askS_def budget_free)
  with w g f show ?thesis by (auto intro: tag_stays_trans card_stays_trans)
qed

lemma read_data_card:
  assumes "linked t s" "native_route t s False" "\<not> fsSDMEnabled (nfSettings (ndef_file s))"
    and "nfData (ndef_file s) = nlen_bytes (length d) @ d @ rest" "d \<noteq> []" "length d \<le> 254"
  shows "\<exists>t' s'. n4_read_data (card_env clk) (t, s) = (Inr d, (t', s')) \<and> linked t' s' \<and>
    nFiles s' = nFiles s \<and> card_stays s s' \<and> tag_stays t t'"
proof -
  obtain t1 s1 where g: "n4_get_file_settings (card_env clk) 0x02 (t, s) = (Inr (shown (ndef_file s)), (t1, s1))"
    "linked t1 s1" "nFiles s1 = nFiles s" "card_stays s s1" "tag_stays t t1"
    using get_file_settings_card [OF assms(1) card_file_ndef] by blast
  have f: "ndef_file s1 = ndef_file s" using g(3) by (simp add: ndef_file_def)
  have k: "nAuthKey s1 = nAuthKey s" using card_staysD [OF g(4)] by simp
  have rt: "route_for t1 (shown (ndef_file s)) False =
      Inr \<lparr>rtNative = True, rtKeyNo = nAuthKey s, rtMode = fsCommMode (nfSettings (ndef_file s))\<rparr>"
    and m: "known_mode (fsCommMode (nfSettings (ndef_file s)))"
    using assms(2) tag_stays_holds(3) [OF g(5)] by (simp_all add: native_route_def)
  have p: "fst (permitted (nfSettings (ndef_file s1)) False s1)"
    using native_route_permitted [OF assms(1,2)] permitted_linked [OF assms(1) g(2,4)] f by simp
  have l: "length (nfData (ndef_file s)) = 256" using assms(1) by (auto elim!: linkedE dest: card_ok_files)
  have z: "fsFileSize (shown (ndef_file s)) = 256" using l by simp
  obtain t2 s2 where w: "native_read (card_env clk) (shown (ndef_file s)) (fsCommMode (nfSettings (ndef_file s))) (t1, s1) =
      (Inr d, (t2, s2))" "linked t2 s2" "nFiles s2 = nFiles s1" "card_stays s1 s2"
    "tag_stays t1 t2"
    using native_read_card [where clk = clk, OF g(2) _ m p _ _ assms(6) z] f assms(3,4) by auto
  have ws: "with_session (card_env clk) (nAuthKey s)
      (native_read (card_env clk) (shown (ndef_file s)) (fsCommMode (nfSettings (ndef_file s)))) (t1, s1) =
      (Inr d, (t2, s2))"
    using g(2) k [symmetric] w(1) by (rule with_session_linked)
  have "n4_read_data (card_env clk) (t, s) = (Inr d, (t2, s2))"
    using g(1) rt ws assms(5) by (simp add: n4_read_data_def tryS_def doS_def askS_def)
  with w g f show ?thesis by (auto intro: tag_stays_trans card_stays_trans)
qed

lemma write_read_card:
  assumes "linked t s" "native_route t s True" "native_route t s False"
    and "\<not> fsSDMEnabled (nfSettings (ndef_file s))" "d \<noteq> []" "length d \<le> 254"
  shows "\<exists>ts1 ts2. n4_write_data (card_env clk) d (t, s) = (Inr (), ts1) \<and>
    n4_read_data (card_env clk) ts1 = (Inr d, ts2) \<and> linked (fst ts2) (snd ts2)"
proof -
  obtain t1 s1 where w: "n4_write_data (card_env clk) d (t, s) = (Inr (), (t1, s1))" "linked t1 s1"
    "nFiles s1 = with_ndef (nlen_bytes (length d) @ d @ drop (2 + length d) (nfData (ndef_file s))) s"
    "card_stays s s1" "tag_stays t t1"
    using write_data_card [OF assms(1,2,6)] by blast
  have "length (nFiles s) = 3" using assms(1) by (auto elim!: linkedE dest: card_ok_files)
  note f = with_ndef_simps(1) [OF w(3) this]
  have sh: "shown (ndef_file s1) = (shown (ndef_file s))\<lparr>fsFileSize := of_nat (length (nfData (ndef_file s1)))\<rparr>"
    using f by (simp add: shown_def)
  have "length (nfData (ndef_file s)) = 256" "length (nfData (ndef_file s1)) = 256"
    using assms(1) w(2) by (auto elim!: linkedE dest: card_ok_files)
  then have sh': "shown (ndef_file s1) = shown (ndef_file s)" using sh by (simp add: shown_def)
  have r: "native_route t1 s1 False"
    using assms(3) sh' f card_staysD(3) [OF w(4)] tag_stays_holds(3) [OF w(5)] by (simp add: native_route_def)
  obtain t2 s2 where "n4_read_data (card_env clk) (t1, s1) = (Inr d, (t2, s2))" "linked t2 s2"
    using read_data_card [where clk = clk, OF w(2) r _ _ assms(5,6)] f assms(4) by auto
  with w(1) show ?thesis by auto
qed

end
