(* ===== verification/LockOnCard.thy ===== *)
theory LockOnCard
  imports Ntag424OnCard
begin

text \<open>
  Changing settings and locking through the driver: the card takes the locked settings, and
  from then on no session may write the NDEF file.
\<close>

section \<open>Settings the card takes\<close>

text \<open>The card checks the rights of a file only for their width, and nothing it reports of its
  own settings is refused when sent back.\<close>

lemma access_rights_ok: "isOk (access_rights a b c d) \<longleftrightarrow> a \<le> 0x0F \<and> b \<le> 0x0F \<and> c \<le> 0x0F \<and> d \<le> 0x0F"
  by (auto simp: access_rights_def not_le split: list.splits if_splits)

lemma settings_encode_ok:
  "isOk (settings_encode f) \<longleftrightarrow> isOk (comm_mode_bits (fsCommMode f)) \<and>
     fsReadWrite f \<le> 0x0F \<and> fsChange f \<le> 0x0F \<and> fsRead f \<le> 0x0F \<and> fsWrite f \<le> 0x0F \<and>
     (fsSDMEnabled f \<longrightarrow> fsSDMCounterRet f \<le> 0x0F \<and> fsSDMMetaRead f \<le> 0x0F \<and> fsSDMFileRead f \<le> 0x0F)"
  using access_rights_ok [of "fsReadWrite f" "fsChange f" "fsRead f" "fsWrite f"]
    access_rights_ok [of "0x0F" "fsSDMCounterRet f" "fsSDMMetaRead f" "fsSDMFileRead f"]
  by (cases "comm_mode_bits (fsCommMode f)"; cases "access_rights (fsReadWrite f) (fsChange f) (fsRead f) (fsWrite f)";
      cases "access_rights 0x0F (fsSDMCounterRet f) (fsSDMMetaRead f) (fsSDMFileRead f)")
    (auto simp: settings_encode_def Let_def)

text \<open>What the card asks of the SDM part of the settings.\<close>

definition sdm_fits :: "bool \<Rightarrow> byte \<Rightarrow> file_settings \<Rightarrow> bool" where
  "sdm_fits lrp n f \<longleftrightarrow>
     (let fits = mirror_fits (of_nat (ntag424_file_sizes ! (unat n - 1)))
      in (n = 0x02 \<and> fsASCIIEncoding f) \<and>
         (fsMirrorUID f \<and> fsSDMMetaRead f = AccessFree \<longrightarrow> fits (fsUIDOffset f) 14) \<and>
         (fsMirrorReadCounter f \<and> fsSDMMetaRead f = AccessFree \<longrightarrow> fits (fsReadCounterOffset f) 6) \<and>
         (fsSDMMetaRead f \<le> 4 \<longrightarrow> fits (fsPICCDataOffset f) (if lrp then 48 else 32)) \<and>
         (fsSDMFileRead f \<le> 4 \<longrightarrow> fsMACInputOffset f \<le> fsMACOffset f \<and> fits (fsMACOffset f) 16) \<and>
         (fsEncryptFileData f \<longrightarrow> \<not> lrp \<and> fsSDMFileRead f \<le> 4 \<and> fsENCLength f \<noteq> 0 \<and> fsENCLength f mod 32 = 0 \<and>
            fits (fsENCOffset f) (fsENCLength f)))"

lemma ladder_zero:
  "(if \<not> a then 0x9E else if \<not> b then 0x00 else if c then 0x9E else if d then 0xBE else if e then 0xBE
    else if f then 0xBE else if g then 0xBE else if h then 0x9E else (0x00 :: byte)) = 0 \<longleftrightarrow>
   a \<and> (b \<longrightarrow> \<not> c \<and> \<not> d \<and> \<not> e \<and> \<not> f \<and> \<not> g \<and> \<not> h)"
  by simp

lemma check_settings_iff:
  "check_settings lrp n f = 0 \<longleftrightarrow> isOk (settings_encode f) \<and> (fsSDMEnabled f \<longrightarrow> sdm_fits lrp n f)"
  unfolding check_settings_def Let_def sdm_fits_def ladder_zero
  by (intro conj_cong imp_cong refl; (blast | simp only: linorder_not_less [symmetric], blast)?)

lemma sdm_fits_rights: "sdm_fits lrp n (f\<lparr>fsRead := r, fsWrite := w, fsReadWrite := rw\<rparr>) = sdm_fits lrp n f"
  by (simp add: sdm_fits_def)

lemma check_settings_rights:
  assumes "check_settings lrp n f = 0" "r \<le> 0x0F" "w \<le> 0x0F" "rw \<le> 0x0F"
  shows "check_settings lrp n (f\<lparr>fsRead := r, fsWrite := w, fsReadWrite := rw\<rparr>) = 0"
  using assms by (simp add: check_settings_iff settings_encode_ok sdm_fits_rights)

lemma sdm_fits_wire:
  assumes "fsSDMEnabled f" "settings_small f"
  shows "sdm_fits lrp n (settings_wire f) = sdm_fits lrp n f"
proof -
  have l: "fsSDMFileRead f \<le> 4 \<Longrightarrow> fsSDMFileRead f \<noteq> AccessNever" by (auto simp: AccessNever_def)
  show ?thesis
    using assms l unfolding sdm_fits_def settings_wire_def Let_def settings_small_def
    by (simp add: le24_small cong: conj_cong imp_cong)
qed

lemma check_settings_wire:
  assumes "check_settings lrp n f = 0" "settings_small f"
  shows "check_settings lrp n (settings_wire f) = 0"
proof (cases "fsSDMEnabled f")
  case True
  then show ?thesis using assms
    by (simp add: check_settings_iff settings_encode_ok sdm_fits_wire) (simp add: settings_wire_def Let_def)
next
  case False
  then show ?thesis using assms
    by (simp add: check_settings_iff settings_encode_ok) (simp add: settings_wire_def Let_def zero_settings_def)
qed

section \<open>Changing settings through the driver\<close>

lemma change_settings_run:
  assumes "linked t s" "card_file n s = Some f" "may_change f s" "settings_encode fs = Inr enc"
    and "check_settings (nLRP s) n (settings_wire fs) = 0"
  shows "\<exists>t' s'. run_command (card_env clk) True (\<lambda>c. change_file_settings c n enc)
        (\<lambda>c resp. check_response c resp CommFull) (t, s) = (Inr [], (t', s')) \<and> linked t' s' \<and>
    nFiles s' = (nFiles s)[unat n - 1 := f\<lparr>nfSettings := (settings_wire fs)\<lparr>fsFileType := 0x00,
                   fsFileSize := of_nat (length (nfData f))\<rparr>\<rparr>] \<and> card_stays s s' \<and> tag_stays t t'"
proof -
  obtain r where r: "gSession t = Some r" "in_sync r s" "card_ok s" using assms(1) by (rule linkedE)
  have len: "0 < length enc \<and> length enc \<le> 36" using settings_encode_length [OF assms(4)] by auto
  then have "wire_length CommFull (length [n]) (length enc) < 256"
  proof -
    have "length enc div 16 \<le> 36 div 16" using len by (intro div_le_mono) simp
    then show ?thesis by simp
  qed
  then obtain apdu r1 where b: "change_file_settings (Some r) n enc = (Inr apdu, Some r1)"
    using command_built [OF r(2), of CommFull "[n]" enc "0x5F"] len unfolding change_file_settings_def by auto
  obtain resp s' ch where c: "transceive apdu s = Some (resp, s')" "card_ok s'"
    "nFiles s' = (nFiles s)[unat n - 1 := f\<lparr>nfSettings := (settings_wire fs)\<lparr>fsFileType := 0x00,
                   fsFileSize := of_nat (length (nfData f))\<rparr>\<rparr>]"
    "check_response (Some r1) resp CommFull = (Inr [], Some ch)" "in_sync ch s'" "card_stays s s'"
    using change_settings_on_card [OF r(3,2) assms(2-5) b] by blast
  have b': "(\<lambda>c. change_file_settings c n enc) (gSession t) = (Inr apdu, Some r1)" using b r(1) by simp
  from linked_command [where build = "\<lambda>c. change_file_settings c n enc" and
      parse = "\<lambda>c resp. check_response c resp CommFull", OF assms(1) b' c(1,4,5,2) card_staysD(3) [OF c(6)]] c(3,6)
  show ?thesis by blast
qed

lemma change_key_for_may:
  assumes "change_key_for t (shown f) = Some (nAuthKey s)"
  shows "may_change f s"
  using assms by (auto simp: change_key_for_def may_change_def Let_def split: if_splits)

lemma change_settings_card:
  assumes "linked t s" "card_file n s = Some f" "change_key_for t (shown f) = Some (nAuthKey s)"
    and "settings_encode fs = Inr enc" "check_settings (nLRP s) n (settings_wire fs) = 0"
  shows "\<exists>t' s'. n4_change_file_settings (card_env clk) n fs (t, s) = (Inr (), (t', s')) \<and> linked t' s' \<and>
    nFiles s' = (nFiles s)[unat n - 1 := f\<lparr>nfSettings := (settings_wire fs)\<lparr>fsFileType := 0x00,
                   fsFileSize := of_nat (length (nfData f))\<rparr>\<rparr>] \<and> card_stays s s' \<and> tag_stays t t'"
proof -
  obtain t1 s1 where g: "n4_get_file_settings (card_env clk) n (t, s) = (Inr (shown f), (t1, s1))" "linked t1 s1"
    "nFiles s1 = nFiles s" "card_stays s s1" "tag_stays t t1"
    using get_file_settings_card [OF assms(1,2)] by blast
  have s: "nAuthKey s1 = nAuthKey s" "nLRP s1 = nLRP s" using card_staysD [OF g(4)] by simp_all
  have k: "change_key_for t1 (shown f) = Some (nAuthKey s1)"
    using assms(3) tag_stays_holds(4) [OF g(5)] s by simp
  have f: "card_file n s1 = Some f" using assms(2) g(3) by (auto simp: card_file_def split: if_splits)
  have chk: "check_settings (nLRP s1) n (settings_wire fs) = 0" using assms(5) s by simp
  obtain t2 s2 where c: "run_command (card_env clk) True (\<lambda>c. change_file_settings c n enc)
        (\<lambda>c resp. check_response c resp CommFull) (t1, s1) = (Inr [], (t2, s2))" "linked t2 s2"
    "nFiles s2 = (nFiles s1)[unat n - 1 := f\<lparr>nfSettings := (settings_wire fs)\<lparr>fsFileType := 0x00,
                   fsFileSize := of_nat (length (nfData f))\<rparr>\<rparr>]" "card_stays s1 s2" "tag_stays t1 t2"
    using change_settings_run [where clk = clk, OF g(2) f change_key_for_may [OF k] assms(4) chk] by blast
  have w: "with_session (card_env clk) (nAuthKey s1) (run_command (card_env clk) True (\<lambda>c. change_file_settings c n enc)
        (\<lambda>c resp. check_response c resp CommFull)) (t1, s1) = (Inr [], (t2, s2))"
    using g(2) refl c(1) by (rule with_session_linked)
  have b: "gBudget t = None" using assms(1) by (rule linkedE)
  have "n4_change_file_settings (card_env clk) n fs (t, s) = (Inr (), (t2\<lparr>gNdefSettings := None\<rparr>, s2))"
    using assms(4) g(1) k w b
    by (simp add: n4_change_file_settings_def doS_def pureS_def tryS_def askS_def retS_def changeS_def
        mapErr_def budget_free)
  moreover have "linked (t2\<lparr>gNdefSettings := None\<rparr>) s2" using c(2) by (simp add: linked_def)
  moreover have "card_stays s s2" by (rule card_stays_trans [OF g(4) c(4)])
  moreover have "tag_stays t (t2\<lparr>gNdefSettings := None\<rparr>)"
    using tag_stays_trans [OF g(5) c(5)] by (simp add: tag_stays_def)
  ultimately show ?thesis using c(3) g(3) by auto
qed

section \<open>Locking\<close>

lemma settings_small_wire: "settings_small (settings_wire f)"
  unfolding settings_wire_on Let_def on_wire_def zero_settings_def
  by (cases "fsSDMEnabled f") (simp_all add: settings_small_def take_bit_eq_mod word_less_nat_alt unat_mod)

lemma settings_small_locked: "settings_small (locked_settings (shown f))"
  using settings_small_wire [of "nfSettings f"] by (simp add: locked_settings_def shown_def settings_small_def)

lemma locked_checks:
  assumes "card_ok s"
  shows "check_settings (nLRP s) 0x02 (settings_wire (locked_settings (shown (ndef_file s)))) = 0"
    "isOk (settings_encode (locked_settings (shown (ndef_file s))))"
proof -
  let ?f = "nfSettings (ndef_file s)"
  have "file_ok (nLRP s) 1 (ndef_file s)"
    using assms files_okD [of "nLRP s" "nFiles s" 1] by (simp add: card_ok_def ndef_file_def)
  then have f: "check_settings (nLRP s) 0x02 ?f = 0" "settings_small ?f" by (simp_all add: file_ok_def byteN_def)
  have c: "check_settings (nLRP s) 0x02 (shown (ndef_file s)) = 0"
    using check_settings_wire [OF f] by (simp add: shown_def check_settings_meta)
  then have "fsRead (shown (ndef_file s)) \<le> 0x0F" "fsReadWrite (shown (ndef_file s)) \<le> 0x0F"
    by (simp_all add: check_settings_iff settings_encode_ok)
  then have l: "check_settings (nLRP s) 0x02 (locked_settings (shown (ndef_file s))) = 0"
    unfolding locked_settings_def by (intro check_settings_rights [OF c]) (simp_all add: AccessNever_def)
  show "check_settings (nLRP s) 0x02 (settings_wire (locked_settings (shown (ndef_file s)))) = 0"
    by (rule check_settings_wire [OF l settings_small_locked])
  show "isOk (settings_encode (locked_settings (shown (ndef_file s))))" using l by (rule check_settings_off)
qed

text \<open>No session and no key writes a file with these rights, natively or through ISO commands.\<close>

definition write_locked :: "file_settings \<Rightarrow> bool" where
  "write_locked fs \<longleftrightarrow> fsWrite fs = AccessNever \<and> fsReadWrite fs = AccessNever"

lemma write_locked_denied: "write_locked fs \<Longrightarrow> \<not> fst (permitted fs True s)"
  by (simp add: write_locked_def permitted_def AccessNever_def AccessFree_def Let_def)

lemma write_locked_route: "write_locked fs \<Longrightarrow> \<exists>e. route_for t fs True = Inl e"
  by (auto simp: write_locked_def route_for_def Let_def AccessNever_def AccessFree_def split: option.splits)

lemma locked_settings_locked: "write_locked (settings_wire (locked_settings fs))"
  by (simp add: write_locked_def locked_settings_def settings_wire_def Let_def)

lemma make_read_only_card:
  assumes "linked t s" "change_key_for t (shown (ndef_file s)) = Some (nAuthKey s)"
  shows "\<exists>t' s'. n4_make_read_only (card_env clk) (t, s) = (Inr (), (t', s')) \<and> linked t' s' \<and>
    write_locked (nfSettings (ndef_file s')) \<and> nfData (ndef_file s') = nfData (ndef_file s) \<and>
    nAuthKey s' = nAuthKey s \<and> nKeys s' = nKeys s \<and> tag_stays t t'"
proof -
  let ?fs = "locked_settings (shown (ndef_file s))"
  obtain t1 s1 where g: "n4_get_file_settings (card_env clk) 0x02 (t, s) = (Inr (shown (ndef_file s)), (t1, s1))"
    "linked t1 s1" "nFiles s1 = nFiles s" "card_stays s s1" "tag_stays t t1"
    using get_file_settings_card [OF assms(1) card_file_ndef] by blast
  have n: "ndef_file s1 = ndef_file s" using g(3) by (simp add: ndef_file_def)
  have st: "nAuthKey s1 = nAuthKey s" "nLRP s1 = nLRP s" "nKeys s1 = nKeys s" using card_staysD [OF g(4)] by simp_all
  have ok: "card_ok s" using assms(1) by (rule linkedE)
  obtain enc where e: "settings_encode ?fs = Inr enc" using locked_checks(2) [OF ok] by (auto elim: isOkE)
  have k: "change_key_for t1 (shown (ndef_file s1)) = Some (nAuthKey s1)"
    using assms(2) tag_stays_holds(4) [OF g(5)] st n by simp
  have chk: "check_settings (nLRP s1) 0x02 (settings_wire ?fs) = 0" using locked_checks(1) [OF ok] st by simp
  obtain t2 s2 where c: "n4_change_file_settings (card_env clk) 0x02 ?fs (t1, s1) = (Inr (), (t2, s2))" "linked t2 s2"
    "nFiles s2 = (nFiles s1)[unat (0x02 :: byte) - 1 := (ndef_file s1)\<lparr>nfSettings := (settings_wire ?fs)\<lparr>fsFileType := 0x00,
                   fsFileSize := of_nat (length (nfData (ndef_file s1)))\<rparr>\<rparr>]" "card_stays s1 s2" "tag_stays t1 t2"
    using change_settings_card [where clk = clk, OF g(2) card_file_ndef k e chk] by blast
  have "length (nFiles s1) = 3" using card_ok_files [OF ok] g(3) by simp
  then have "ndef_file s2 = (ndef_file s1)\<lparr>nfSettings := (settings_wire ?fs)\<lparr>fsFileType := 0x00,
      fsFileSize := of_nat (length (nfData (ndef_file s1)))\<rparr>\<rparr>"
    using c(3) by (simp add: ndef_file_def)
  then have "write_locked (nfSettings (ndef_file s2))" "nfData (ndef_file s2) = nfData (ndef_file s)"
    using locked_settings_locked [of "shown (ndef_file s)"] n by (simp_all add: write_locked_def)
  moreover have "n4_make_read_only (card_env clk) (t, s) = (Inr (), (t2, s2))"
    using g(1) k n c(1) by (simp add: n4_make_read_only_def tryS_def doS_def askS_def)
  ultimately show ?thesis using c(2) st card_staysD [OF c(4)] tag_stays_trans [OF g(5) c(5)] by auto
qed

text \<open>And a write through the driver is then refused, the card's files as they were.\<close>

lemma locked_write_refused:
  assumes "linked t s" "write_locked (nfSettings (ndef_file s))" "length d \<le> 254"
  shows "\<exists>e t' s'. n4_write_data (card_env clk) d (t, s) = (Inl (NReadOnly (Some e)), (t', s')) \<and> nFiles s' = nFiles s"
proof -
  obtain t1 s1 where g: "n4_get_file_settings (card_env clk) 0x02 (t, s) = (Inr (shown (ndef_file s)), (t1, s1))"
    "linked t1 s1" "nFiles s1 = nFiles s"
    using get_file_settings_card [OF assms(1) card_file_ndef] by blast
  have "write_locked (shown (ndef_file s))" using assms(2) by (simp add: write_locked_def)
  then obtain e where "route_for t1 (shown (ndef_file s)) True = Inl e" using write_locked_route by blast
  moreover have "length (nfData (ndef_file s)) = 256" using assms(1) by (auto elim!: linkedE dest: card_ok_files)
  ultimately show ?thesis
    using g(1,3) assms(3) by (simp add: n4_write_data_def tryS_def doS_def askS_def failS_def)
qed

end
