(* ===== verification/LoginOnCard.thy ===== *)
theory LoginOnCard
  imports Ntag424OnCard
begin

text \<open>
  The driver's login on the emulated card: with the key the card holds, \<open>authenticate\<close> opens
  a session both sides share, in the suite the card is in, which an AES card and a card
  switched to LRP tell the driver by their first answer.
\<close>

section \<open>The two rounds\<close>

lemma auth_status_frame:
  assumes "frame_data resp n = Inr d"
  shows "auth_status resp = Inr ()" "length resp = n + 2"
proof -
  have r: "2 \<le> length resp" using assms by (auto simp: frame_data_def split: if_splits)
  then have "length resp - 1 = Suc (length resp - 2)" by simp
  then show "auth_status resp = Inr ()" "length resp = n + 2"
    using assms r
    by (auto simp: frame_data_def auth_status_def status_ok_def status_more_frames_def Let_def split: if_splits)
qed

lemma auth_challenge_frame:
  assumes "auth_challenge a resp = (Inr cmd, a1)"
  shows "\<exists>d. frame_data resp 16 = Inr d"
  using assms by (auto simp: auth_challenge_def split: if_splits sum.splits)

lemma auth_finish_frame:
  assumes "fst (auth_finish a resp) = Inr x"
  shows "\<exists>n d. frame_data resp n = Inr d"
  using assms by (auto simp: auth_finish_def Let_def split: if_splits sum.splits)

lemma lrp_challenge_frame:
  assumes "lrp_auth_challenge a resp = (Inr cmd, a1)"
  shows "\<exists>d. frame_data resp 17 = Inr d"
  using assms by (auto simp: lrp_auth_challenge_def split: if_splits sum.splits)

lemma lrp_finish_frame:
  assumes "fst (lrp_auth_finish a resp) = Inr x"
  shows "\<exists>n d. frame_data resp n = Inr d"
  using assms by (auto simp: lrp_auth_finish_def Let_def split: if_splits sum.splits option.splits)

lemma auth_rounds_card:
  assumes "frame_data r1 n1 = Inr d1" "challenge r1 = (Inr cmd, a1)" "transceive cmd s1 = Some (r2, s2)"
    and "frame_data r2 n2 = Inr d2" "finish a1 r2 = Inr ch" "gBudget t = None"
  shows "auth_rounds (card_env clk) k r1 challenge finish (t, s1) =
    (Inr (), (t\<lparr>gSession := Some ch, gSessionKeyNo := k\<rparr>, s2))"
  using assms(2,5)
  by (simp add: auth_rounds_def doS_def open_session_def changeS_def auth_status_frame(1) [OF assms(1)]
      auth_status_frame(1) [OF assms(4)] n4_send_card [OF assms(3,6)])

lemma aes_rounds_card:
  assumes "aes_login a s = Some (Inr (sess, s2))" "gBudget t = None"
  obtains r1 s1 where "transceive (auth_command a) s = Some (r1, s1)" "\<not> is_lrp_auth_response r1"
    "auth_rounds (card_env clk) k r1 (auth_challenge a) (\<lambda>a1 answer. map_sum id AesChannel (fst (auth_finish a1 answer)))
      (t, s1) = (Inr (), (t\<lparr>gSession := Some (AesChannel sess), gSessionKeyNo := k\<rparr>, s2))"
proof -
  from assms(1) obtain r1 s1 cmd a1 r2 where l: "transceive (auth_command a) s = Some (r1, s1)"
    "auth_challenge a r1 = (Inr cmd, a1)" "transceive cmd s1 = Some (r2, s2)" "fst (auth_finish a1 r2) = Inr sess"
    by (auto simp: aes_login_def bindE_eq_Inr split: option.splits sum.splits prod.splits)
  obtain d1 where d1: "frame_data r1 16 = Inr d1" using auth_challenge_frame [OF l(2)] by blast
  obtain n2 d2 where d2: "frame_data r2 n2 = Inr d2" using auth_finish_frame [OF l(4)] by blast
  have f: "(\<lambda>a1 answer. map_sum id AesChannel (fst (auth_finish a1 answer))) a1 r2 = Inr (AesChannel sess)"
    using l(4) by simp
  show thesis
    using that [OF l(1)] auth_rounds_card [where challenge = "auth_challenge a" and
        finish = "\<lambda>a1 answer. map_sum id AesChannel (fst (auth_finish a1 answer))", OF d1 l(2,3) d2 f assms(2)]
      auth_status_frame(2) [OF d1]
    by (simp add: is_lrp_auth_response_def)
qed

lemma lrp_rounds_card:
  assumes "lrp_login a s = Some (Inr (sess, s2))" "gBudget t = None"
  obtains r1 s1 where "transceive (lrp_auth_command a) s = Some (r1, s1)"
    "auth_rounds (card_env clk) k r1 (lrp_auth_challenge a)
      (\<lambda>a1 answer. map_sum id LrpChannel (fst (lrp_auth_finish a1 answer)))
      (t, s1) = (Inr (), (t\<lparr>gSession := Some (LrpChannel sess), gSessionKeyNo := k\<rparr>, s2))"
proof -
  from assms(1) obtain r1 s1 cmd a1 r2 where l: "transceive (lrp_auth_command a) s = Some (r1, s1)"
    "lrp_auth_challenge a r1 = (Inr cmd, a1)" "transceive cmd s1 = Some (r2, s2)" "fst (lrp_auth_finish a1 r2) = Inr sess"
    by (auto simp: lrp_login_def bindE_eq_Inr split: option.splits sum.splits prod.splits)
  obtain d1 where d1: "frame_data r1 17 = Inr d1" using lrp_challenge_frame [OF l(2)] by blast
  obtain n2 d2 where d2: "frame_data r2 n2 = Inr d2" using lrp_finish_frame [OF l(4)] by blast
  have f: "(\<lambda>a1 answer. map_sum id LrpChannel (fst (lrp_auth_finish a1 answer))) a1 r2 = Inr (LrpChannel sess)"
    using l(4) by simp
  show thesis
    using that [OF l(1)] auth_rounds_card [where challenge = "lrp_auth_challenge a" and
        finish = "\<lambda>a1 answer. map_sum id LrpChannel (fst (lrp_auth_finish a1 answer))", OF d1 l(2,3) d2 f assms(2)]
    by simp
qed

section \<open>Logging in\<close>

text \<open>The card after the select the driver sends first.\<close>

definition app_selected :: "ntag424_state \<Rightarrow> ntag424_state" where
  "app_selected s = (clear_selection s)\<lparr>nAppSelected := True\<rparr>"

lemma app_selected_simps [simp]:
  "nKeys (app_selected s) = nKeys s" "nFiles (app_selected s) = nFiles s" "nLRP (app_selected s) = nLRP s"
  "not_delayed (app_selected s) = not_delayed s"
  by (simp_all add: app_selected_def clear_selection_def drop_session_def not_delayed_def)

lemma select_transceive: "transceive (select_aid_apdu ndef_app_aid) s = Some ([0x90, 0x00], app_selected s)"
  using select_aid_on_card [of s] by (auto simp: n4_dev_def app_selected_def split: option.splits prod.splits)

lemma card_ok_selected: "card_ok s \<Longrightarrow> card_ok (app_selected s)"
  by (simp add: card_ok_def app_selected_def clear_selection_def drop_session_def)

lemma select_for_auth_card:
  assumes "gBudget t = None"
  shows "select_for_auth (card_env clk) (t, s) = (Inr (), (t\<lparr>gSession := None\<rparr>, app_selected s))"
  using assms n4_send_card [OF select_transceive, of "t\<lparr>gSession := None\<rparr>"]
  by (simp add: select_for_auth_def doS_def drop_tag_session_def changeS_def select_ok_def retS_def)

text \<open>The tag once it has drawn its random number and opened the session.\<close>

definition tag_logged :: "unit ntag424_tag \<Rightarrow> byte \<Rightarrow> unit ntag424_tag \<Rightarrow> bool" where
  "tag_logged t k t' \<longleftrightarrow> gKeys t' = gKeys t \<and> gSessionKeyNo t' = k \<and> gUid t' = gUid t \<and> gBudget t' = gBudget t \<and>
     gRealUID t' = gRealUID t \<and> gFailedAuth t' = gFailedAuth t \<and> gDelayed t' = gDelayed t"

lemma authenticate_lrp_card:
  assumes "card_ok s" "nLRP s" "k \<le> 4" "not_delayed s" "gBudget t = None"
  shows "\<exists>t' s'. authenticate_lrp (card_env clk) k (nKeys s ! unat k) (t, s) = (Inr (), (t', s')) \<and> linked t' s' \<and>
    nAuthKey s' = k \<and> nKeys s' = nKeys s \<and> nFiles s' = nFiles s \<and> nLRP s' = nLRP s \<and> not_delayed s' \<and>
    tag_logged t k t' \<and> (gLRP t' \<longrightarrow> gLRP t \<or> nLRP s)"
proof -
  let ?rnd = "map (gRandom t) [0..<16]" and ?t = "t\<lparr>gRandom := \<lambda>i. gRandom t (i + 16)\<rparr>"
  have "length (nKeys s ! unat k) = 16" using assms(1,3) by (simp add: card_ok_def keys_okD)
  then obtain a where a: "new_lrp_authenticator ?rnd AuthFirst k (nKeys s ! unat k) [] = Inr a"
      "lrp_auth_set_counter a 0 = a"
    by (simp add: new_lrp_authenticator_def lrp_auth_set_counter_def)
  from lrp_login_ok [where first = True and ctr = 0, OF assms(1-4)] a obtain sess s2 where
    l: "lrp_login a s = Some (Inr (sess, s2))" "card_ok s2" "in_sync (LrpChannel sess) s2" "nAuthKey s2 = k"
      "nKeys s2 = nKeys s" "nFiles s2 = nFiles s" "nLRP s2 = nLRP s" "not_delayed s2" by force
  have b: "gBudget ?t = None" using assms(5) by simp
  obtain r1 s1 where r: "transceive (lrp_auth_command a) s = Some (r1, s1)"
    "auth_rounds (card_env clk) k r1 (lrp_auth_challenge a)
      (\<lambda>a1 answer. map_sum id LrpChannel (fst (lrp_auth_finish a1 answer)))
      (?t, s1) = (Inr (), (?t\<lparr>gSession := Some (LrpChannel sess), gSessionKeyNo := k\<rparr>, s2))"
    by (rule lrp_rounds_card [OF l(1) b])
  have "authenticate_lrp (card_env clk) k (nKeys s ! unat k) (t, s) =
      (Inr (), (?t\<lparr>gSession := Some (LrpChannel sess), gSessionKeyNo := k\<rparr>, s2))"
    using a(1) r(2) n4_send_card [where clk = clk, OF r(1) b]
    by (simp add: authenticate_lrp_def doS_def take_random_def)
  with l assms(5) show ?thesis by (auto simp: linked_def tag_logged_def)
qed

lemma authenticate_aes_card:
  assumes "card_ok s" "\<not> nLRP s" "k \<le> 4" "not_delayed s" "gBudget t = None"
  shows "\<exists>t' s'. authenticate_aes (card_env clk) k (nKeys s ! unat k) (t, s) = (Inr (), (t', s')) \<and> linked t' s' \<and>
    nAuthKey s' = k \<and> nKeys s' = nKeys s \<and> nFiles s' = nFiles s \<and> nLRP s' = nLRP s \<and> not_delayed s' \<and>
    tag_logged t k t' \<and> (gLRP t' \<longrightarrow> gLRP t \<or> nLRP s)"
proof -
  let ?rnd = "map (gRandom t) [0..<16]" and ?t = "t\<lparr>gRandom := \<lambda>i. gRandom t (i + 16)\<rparr>"
  have "length (nKeys s ! unat k) = 16" using assms(1,3) by (simp add: card_ok_def keys_okD)
  then obtain a where a: "new_authenticator ?rnd AuthFirst k (nKeys s ! unat k) [] = Inr a" "auth_set_counter a 0 = a"
    by (simp add: new_authenticator_def auth_set_counter_def new_cipher_def)
  from aes_login_ok [where first = True and ctr = 0, OF assms(1-4)] a obtain sess s2 where
    l: "aes_login a s = Some (Inr (sess, s2))" "card_ok s2" "in_sync (AesChannel sess) s2" "nAuthKey s2 = k"
      "nKeys s2 = nKeys s" "nFiles s2 = nFiles s" "nLRP s2 = nLRP s" "not_delayed s2" by force
  have b: "gBudget ?t = None" using assms(5) by simp
  obtain r1 s1 where r: "transceive (auth_command a) s = Some (r1, s1)" "\<not> is_lrp_auth_response r1"
    "auth_rounds (card_env clk) k r1 (auth_challenge a)
      (\<lambda>a1 answer. map_sum id AesChannel (fst (auth_finish a1 answer)))
      (?t, s1) = (Inr (), (?t\<lparr>gSession := Some (AesChannel sess), gSessionKeyNo := k\<rparr>, s2))"
    by (rule aes_rounds_card [OF l(1) b])
  have "authenticate_aes (card_env clk) k (nKeys s ! unat k) (t, s) =
      (Inr (), (?t\<lparr>gSession := Some (AesChannel sess), gSessionKeyNo := k\<rparr>, s2))"
    using a(1) r(2,3) n4_send_card [where clk = clk, OF r(1) b]
    by (simp add: authenticate_aes_def doS_def take_random_def)
  with l assms(5) show ?thesis by (auto simp: linked_def tag_logged_def)
qed

text \<open>An LRP card answers the AES command in its own form; the driver remembers and starts over.\<close>

lemma authenticate_discovers_card:
  assumes "card_ok s" "nLRP s" "k \<le> 4" "not_delayed s" "gBudget t = None" "ksAllowLRP (gKeys t)"
  shows "\<exists>t' s'. authenticate_aes (card_env clk) k (nKeys s ! unat k) (t, s) = (Inr (), (t', s')) \<and> linked t' s' \<and>
    nAuthKey s' = k \<and> nKeys s' = nKeys s \<and> nFiles s' = nFiles s \<and> nLRP s' = nLRP s \<and> not_delayed s' \<and>
    tag_logged t k t' \<and> (gLRP t' \<longrightarrow> gLRP t \<or> nLRP s)"
proof -
  let ?rnd = "map (gRandom t) [0..<16]" and ?t = "t\<lparr>gRandom := \<lambda>i. gRandom t (i + 16)\<rparr>"
  let ?o = "offered s True k" and ?r = "0x01 # map (nRandom s) [0..<16] @ [0x91, 0xAF]"
  have l: "length (nKeys s ! unat k) = 16" using assms(1,3) by (simp add: card_ok_def keys_okD)
  obtain a where a: "new_authenticator ?rnd AuthFirst k (nKeys s ! unat k) [] = Inr a"
      and am: "amode a = AuthFirst" "akeyNo a = k"
    using l by (simp add: new_authenticator_def new_cipher_def)
  have c: "auth_command a = wrap_apdu (if True then 0x71 else 0x77) (k # [0x00])" using am by (simp add: auth_command_def)
  have t: "transceive (auth_command a) s = Some (?r, ?o)"
    using first_step_on_card [OF assms(1,3,4) l, of True, OF _ c] assms(2) by simp
  have b: "gBudget ?t = None" "gBudget (?t\<lparr>gLRP := True\<rparr>) = None" using assms(5) by simp_all
  have o: "card_ok ?o" "nLRP ?o" "not_delayed ?o" "nKeys ?o = nKeys s" "nFiles ?o = nFiles s"
    using assms card_ok_offered by (auto simp: offered_def not_delayed_def)
  have lr: "is_lrp_auth_response ?r" by (simp add: is_lrp_auth_response_def nth_append)
  obtain t' s' where f: "authenticate_lrp (card_env clk) k (nKeys ?o ! unat k) (?t\<lparr>gLRP := True\<rparr>, ?o) = (Inr (), (t', s'))"
    "linked t' s'" "nAuthKey s' = k" "nKeys s' = nKeys ?o" "nFiles s' = nFiles ?o"
    "nLRP s' = nLRP ?o" "not_delayed s'" "tag_logged (?t\<lparr>gLRP := True\<rparr>) k t'"
    using authenticate_lrp_card [OF o(1,2) assms(3) o(3) b(2)] by blast
  have "authenticate_aes (card_env clk) k (nKeys s ! unat k) (t, s) = (Inr (), (t', s'))"
    using a n4_send_card [where clk = clk, OF t b(1)] lr assms(6) f(1) o(4)
    by (simp add: authenticate_aes_def doS_def take_random_def changeS_def askS_def)
  with f o assms(2) show ?thesis by (auto simp: tag_logged_def)
qed

text \<open>What the tag must hold for a login under \<open>k\<close>: the card's key, no earlier refusal.\<close>

definition may_login :: "unit ntag424_tag \<Rightarrow> ntag424_state \<Rightarrow> byte \<Rightarrow> bool" where
  "may_login t s k \<longleftrightarrow> card_ok s \<and> not_delayed s \<and> k \<le> 4 \<and> \<not> needs_uid k t \<and>
     key_set_key (gKeys t) k (key_uid t) = Some (nKeys s ! unat k) \<and> refused_before k t = None \<and>
     (gLRP t \<longrightarrow> nLRP s) \<and> (nLRP s \<longrightarrow> ksAllowLRP (gKeys t)) \<and> gBudget t = None"

lemma authenticate_card:
  assumes "may_login t s k" "gSession t = None \<or> gSessionKeyNo t \<noteq> k"
  shows "\<exists>t' s'. authenticate (card_env clk) k (t, s) = (Inr (), (t', s')) \<and> linked t' s' \<and>
    nAuthKey s' = k \<and> nKeys s' = nKeys s \<and> nFiles s' = nFiles s \<and> nLRP s' = nLRP s \<and> not_delayed s' \<and>
    tag_logged t k t' \<and> (gLRP t' \<longrightarrow> gLRP t \<or> nLRP s)"
proof -
  note m = assms(1) [unfolded may_login_def]
  let ?t = "t\<lparr>gSession := None\<rparr>" and ?s = "app_selected s" and ?k = "nKeys s ! unat k"
  have s: "card_ok ?s" "not_delayed ?s" using m card_ok_selected by simp_all
  have b: "gBudget ?t = None" using m by simp
  have go: "\<exists>t' s'. (if known_lrp ?t then authenticate_lrp (card_env clk) k ?k else authenticate_aes (card_env clk) k ?k)
      (?t, ?s) = (Inr (), (t', s')) \<and> linked t' s' \<and> nAuthKey s' = k \<and> nKeys s' = nKeys s \<and> nFiles s' = nFiles s \<and>
      nLRP s' = nLRP s \<and> not_delayed s' \<and> tag_logged ?t k t' \<and> (gLRP t' \<longrightarrow> gLRP t \<or> nLRP s)"
  proof (cases "nLRP s")
    case True
    then show ?thesis
      using authenticate_lrp_card [where clk = clk, OF s(1) _ _ s(2) b, of k]
        authenticate_discovers_card [where clk = clk, OF s(1) _ _ s(2) b, of k] m
      by (cases "known_lrp ?t") simp_all
  next
    case False
    then have "\<not> known_lrp ?t" using m by (simp add: known_lrp_def)
    then show ?thesis
      using authenticate_aes_card [where clk = clk, OF s(1) _ _ s(2) b, of k] m False by simp
  qed
  have kf: "key_for (card_env clk) k (t, s) = (Inr ?k, (t, s))"
    using m by (simp add: key_for_def key_for_with_def doS_def retS_def)
  have na: "(gSession t \<noteq> None \<and> gSessionKeyNo t = k) = False" using assms(2) by auto
  have "authenticate (card_env clk) k (t, s) =
      (if known_lrp ?t then authenticate_lrp (card_env clk) k ?k else authenticate_aes (card_env clk) k ?k) (?t, ?s)"
    unfolding authenticate_def authenticate_with_def prod.case na
    using m kf select_for_auth_card [where clk = clk, of t s]
    by (simp add: doS_def tryS_def retS_def askS_def)
  with go show ?thesis by (auto simp: tag_logged_def)
qed

end
