(* ===== verification/ProvisionOnCard.thy ===== *)
theory ProvisionOnCard
  imports LockOnCard LoginOnCard
begin

text \<open>
  A tag that holds the card's keys works on the card from any point, with a session or without
  one: the driver learns the settings, chooses the route, logs in where it must, and does what
  the file's rights allow.
\<close>

text \<open>What the tag holds is the card's, and nothing the tag remembers keeps it from trying.\<close>

definition keyed :: "unit ntag424_tag \<Rightarrow> ntag424_state \<Rightarrow> bool" where
  "keyed t s \<longleftrightarrow> card_ok s \<and> not_delayed s \<and> gBudget t = None \<and> \<not> gDelayed t \<and>
     (gLRP t \<longrightarrow> nLRP s) \<and> (nLRP s \<longrightarrow> ksAllowLRP (gKeys t)) \<and>
     list_all (\<lambda>k. holds_key t k \<longrightarrow> \<not> needs_uid k t \<and> gFailedAuth t k = None \<and>
       key_set_key (gKeys t) k (key_uid t) = Some (nKeys s ! unat k)) [0, 1, 2, 3, 4]"

definition ready :: "unit ntag424_tag \<Rightarrow> ntag424_state \<Rightarrow> bool" where
  "ready t s \<longleftrightarrow> keyed t s \<and> (gSession t = None \<or> linked t s)"

lemma small_key: "k \<le> 4 \<Longrightarrow> k \<in> {0, 1, 2, 3, 4 :: byte}"
proof -
  assume "k \<le> 4"
  then have "unat k \<le> 4" by (simp add: word_le_nat_alt)
  then have "unat k = 0 \<or> unat k = 1 \<or> unat k = 2 \<or> unat k = 3 \<or> unat k = 4" by linarith
  then show ?thesis by (simp add: word_unat_eq_iff)
qed

lemma keyed_may_login:
  assumes "keyed t s" "k \<le> 4" "holds_key t k"
  shows "may_login t s k"
  using assms small_key [OF assms(2)]
  by (auto simp: keyed_def may_login_def refused_before_def)

text \<open>The tag's view of keys and UID, which is all that the driver's choices rest on.\<close>

definition same_keys :: "unit ntag424_tag \<Rightarrow> unit ntag424_tag \<Rightarrow> bool" where
  "same_keys t t' \<longleftrightarrow> gKeys t' = gKeys t \<and> gUid t' = gUid t \<and> gRealUID t' = gRealUID t \<and>
     gFailedAuth t' = gFailedAuth t \<and> gDelayed t' = gDelayed t"

lemma same_keys_refl [simp]: "same_keys t t" by (simp add: same_keys_def)
lemma same_keys_trans: "same_keys a b \<Longrightarrow> same_keys b c \<Longrightarrow> same_keys a c" by (simp add: same_keys_def)

lemma same_keys_views:
  assumes "same_keys t t'"
  shows "holds_key t' = holds_key t" "route_for t' = route_for t" "change_key_for t' = change_key_for t"
    "needs_uid k t' = needs_uid k t" "key_uid t' = key_uid t"
proof -
  show h: "holds_key t' = holds_key t" using assms by (simp add: fun_eq_iff holds_key_def same_keys_def split: option.split)
  then have a: "any_held_key t' = any_held_key t" by (simp add: any_held_key_def)
  show "route_for t' = route_for t" by (rule ext)+ (simp only: route_for_def h a)
  show "change_key_for t' = change_key_for t" by (rule ext) (simp only: change_key_for_def h a)
qed (use assms in \<open>simp_all add: same_keys_def needs_uid_def key_uid_def random_id_def cong: option.case_cong\<close>)

lemma keyed_moves:
  assumes "keyed t s" "same_keys t t'" "card_ok s'" "not_delayed s'" "nKeys s' = nKeys s" "nLRP s' = nLRP s"
    and "gBudget t' = None" "gLRP t' \<longrightarrow> gLRP t \<or> nLRP s"
  shows "keyed t' s'"
  using assms same_keys_views [OF assms(2)]
  by (auto simp: keyed_def same_keys_def list_all_iff)

lemma tag_stays_same: "tag_stays t t' \<Longrightarrow> same_keys t t'"
  by (simp add: tag_stays_def same_keys_def)

lemma keyed_stays:
  assumes "keyed t s" "linked t' s'" "tag_stays t t'" "card_stays s s'"
  shows "keyed t' s'"
proof (rule keyed_moves [OF assms(1) tag_stays_same [OF assms(3)]])
  show "card_ok s'" "gBudget t' = None" using assms(2) by (auto elim: linkedE)
  show "not_delayed s'" using assms(1) card_staysD [OF assms(4)] by (simp add: keyed_def not_delayed_def)
qed (use assms(3) card_staysD [OF assms(4)] in \<open>simp_all add: tag_stays_def\<close>)

section \<open>Entering a session\<close>

lemma enter_session:
  assumes "ready t s" "k \<le> 4" "holds_key t k"
    and "\<And>t1 s1. linked t1 s1 \<Longrightarrow> keyed t1 s1 \<Longrightarrow> nAuthKey s1 = k \<Longrightarrow> same_keys t t1 \<Longrightarrow> nFiles s1 = nFiles s \<Longrightarrow>
      nKeys s1 = nKeys s \<Longrightarrow> nLRP s1 = nLRP s \<Longrightarrow> \<exists>t' s'. fn (t1, s1) = (Inr x, (t', s')) \<and> Q t' s'"
  shows "\<exists>t' s'. with_session (card_env clk) k fn (t, s) = (Inr x, (t', s')) \<and> Q t' s'"
proof (cases "gSession t \<noteq> None \<and> gSessionKeyNo t = k")
  case True
  then have l: "linked t s" "nAuthKey s = k" using assms(1) by (auto simp: ready_def elim: linkedE)
  obtain t' s' where f: "fn (t, s) = (Inr x, (t', s'))" "Q t' s'"
    using assms(4) [OF l(1) _ l(2)] assms(1) by (auto simp: ready_def)
  have "with_session (card_env clk) k fn (t, s) = (Inr x, (t', s'))"
    using l(1) l(2) [symmetric] f(1) by (rule with_session_linked)
  with f(2) show ?thesis by blast
next
  case False
  have k: "keyed t s" using assms(1) by (simp add: ready_def)
  then obtain t1 s1 where a: "authenticate (card_env clk) k (t, s) = (Inr (), (t1, s1))" "linked t1 s1"
    "nAuthKey s1 = k" "nKeys s1 = nKeys s" "nFiles s1 = nFiles s" "nLRP s1 = nLRP s" "not_delayed s1" "tag_logged t k t1"
    "gLRP t1 \<longrightarrow> gLRP t \<or> nLRP s"
    using authenticate_card [where clk = clk, OF keyed_may_login [OF k assms(2,3)]] False by auto
  have sk: "same_keys t t1" using a(8) by (simp add: tag_logged_def same_keys_def)
  have "keyed t1 s1" using a(2)
    by (intro keyed_moves [OF k sk _ a(7) a(4) a(6) _ a(9)]) (auto elim: linkedE)
  with assms(4) [OF a(2) _ a(3) sk a(5,4,6)] obtain t' s' where f: "fn (t1, s1) = (Inr x, (t', s'))" "Q t' s'" by blast
  have "with_session (card_env clk) k fn (t, s) = (Inr x, (t', s'))"
    using a(1) f(1) by (simp add: with_session_def with_session_with_def authenticate_def doS_def tryS_def retS_def)
  with f(2) show ?thesis by blast
qed


section \<open>Learning the settings\<close>

text \<open>Whether the card shows the file's settings without a session.\<close>

definition shows_plainly :: "n4_file \<Rightarrow> bool" where
  "shows_plainly f \<longleftrightarrow> fsRead (nfSettings f) = AccessFree \<or> fsReadWrite (nfSettings f) = AccessFree \<or>
     fsChange (nfSettings f) = AccessFree"

lemma ask_plainly:
  assumes "nSession s = None" "nPendStage s = 0" "card_file n s = Some f"
  shows "transceive (get_file_settings_plain n) s =
    Some (if shows_plainly f then n4_plain (settings_block f) else n4_sw 0xAE, s)"
proof -
  note w = wrapped_native [of "[n]", simplified]
  have "s\<lparr>nPendStage := 0\<rparr> = s" using assms(2) by simp
  then show ?thesis
    using w(1,3) assms
    by (simp add: get_file_settings_plain_def native_def wrap_apdu_nth [simplified] card_get_file_settings_def
        shows_plainly_def)
qed

lemma select_app_card:
  assumes "gBudget t = None"
  shows "select_app (card_env clk) (t, s) = (Inr (), (t\<lparr>gSession := None\<rparr>, app_selected s))"
  using assms n4_send_card [OF select_transceive, of "t\<lparr>gSession := None\<rparr>"]
  by (simp add: select_app_def doS_def drop_tag_session_def changeS_def select_ok_def retS_def)

lemma keyed_selected:
  assumes "keyed t s"
  shows "keyed (t\<lparr>gSession := None\<rparr>) (app_selected s)"
  using assms card_ok_selected [of s]
  by (intro keyed_moves [OF assms]) (simp_all add: keyed_def same_keys_def)

lemma keyed_cached:
  assumes "keyed t s"
  shows "keyed (t\<lparr>gNdefSettings := x\<rparr>) s"
  using assms by (intro keyed_moves [OF assms]) (simp_all add: keyed_def same_keys_def)

lemma cached_card: "cached n fs (t, s) = (Inr fs, (if n = 0x02 then t\<lparr>gNdefSettings := Some fs\<rparr> else t, s))"
  by (simp add: cached_def cache_settings_def doS_def changeS_def retS_def)

lemma linked_cached: "linked t s \<Longrightarrow> linked (t\<lparr>gNdefSettings := x\<rparr>) s"
  by (simp add: linked_def)

lemma same_keys_cached: "same_keys t t' \<Longrightarrow> same_keys t (t'\<lparr>gNdefSettings := x\<rparr>)"
  by (simp add: same_keys_def)

lemma parse_shown:
  assumes "card_ok s" "card_file n s = Some f"
  shows "parse_file_settings_response None (n4_plain (settings_block f)) = (Inr (shown f), None)"
  using settings_block_shown [OF assms]
  by (simp add: parse_file_settings_response_def check_response_def status_of_def n4_plain_def status_ok_def shown_def Let_def
      nth_append)

lemma settings_plainly_ready:
  assumes "keyed t s" "card_file n s = Some f" "shows_plainly f \<or> holds_key t 0"
  shows "\<exists>t' s'. settings_plainly (card_env clk) n (t, s) = (Inr (shown f), (t', s')) \<and> ready t' s' \<and>
    nFiles s' = nFiles s \<and> nKeys s' = nKeys s \<and> same_keys t t'"
proof -
  have b: "gBudget t = None" and ok: "card_ok s" using assms(1) by (simp_all add: keyed_def)
  let ?t = "t\<lparr>gSession := None\<rparr>" and ?s = "app_selected s"
  have k: "keyed ?t ?s" by (rule keyed_selected [OF assms(1)])
  have f: "card_file n ?s = Some f" using assms(2) by (auto simp: card_file_def split: if_splits)
  have st: "nSession ?s = None" "nPendStage ?s = 0"
    by (simp_all add: app_selected_def clear_selection_def drop_session_def)
  have snd: "n4_send (card_env clk) (get_file_settings_plain n) (?t, ?s) =
      (Inr (if shows_plainly f then n4_plain (settings_block f) else n4_sw 0xAE), (?t, ?s))"
    using b by (intro n4_send_card [OF ask_plainly [OF st f]]) simp
  show ?thesis
  proof (cases "shows_plainly f")
    case True
    then show ?thesis
      using snd parse_shown [OF ok assms(2)] k
      by (simp add: settings_plainly_def doS_def select_app_card [OF b] mapErr_def cached_card ready_def keyed_cached
          same_keys_def)
  next
    case False
    then have h: "holds_key ?t 0" using assms(3) same_keys_views(1) [of t ?t] by (simp add: same_keys_def)
    have r: "ready ?t ?s" using k by (simp add: ready_def)
    have "\<exists>t' s'. with_session (card_env clk) 0 (settings_in_session (card_env clk) n) (?t, ?s) =
        (Inr (shown f), (t', s')) \<and> (linked t' s' \<and> keyed t' s' \<and> same_keys ?t t' \<and> nFiles s' = nFiles ?s \<and> nKeys s' = nKeys ?s)"
    proof (rule enter_session [OF r _ h])
      fix t1 s1
      assume 1: "linked t1 s1" "keyed t1 s1" "nAuthKey s1 = 0" "same_keys ?t t1" "nFiles s1 = nFiles ?s" "nKeys s1 = nKeys ?s"
      have "card_file n s1 = Some f" using f 1(5) by (auto simp: card_file_def split: if_splits)
      from settings_in_session_card [OF 1(1) this, of clk] obtain t2 s2 where
        "settings_in_session (card_env clk) n (t1, s1) = (Inr (shown f), (t2, s2))" "linked t2 s2"
        "nFiles s2 = nFiles s1" "card_stays s1 s2" "tag_stays t1 t2" by blast
      then show "\<exists>t' s'. settings_in_session (card_env clk) n (t1, s1) = (Inr (shown f), (t', s')) \<and>
          (linked t' s' \<and> keyed t' s' \<and> same_keys ?t t' \<and> nFiles s' = nFiles ?s \<and> nKeys s' = nKeys ?s)"
        using 1 keyed_stays [OF 1(2)] same_keys_trans [OF 1(4) tag_stays_same] card_staysD by auto
    qed simp
    then obtain t' s' where w: "with_session (card_env clk) 0 (settings_in_session (card_env clk) n) (?t, ?s) =
        (Inr (shown f), (t', s'))" "linked t' s'" "keyed t' s'" "same_keys ?t t'" "nFiles s' = nFiles ?s" "nKeys s' = nKeys ?s"
      by blast
    have p: "parse_file_settings_response None (n4_sw 0xAE) = (Inl (CStatus 0x91 0xAE), None)"
      by (simp add: parse_file_settings_response_def check_response_def status_of_def n4_sw_def status_ok_def
          status_more_frames_def Let_def)
    have "same_keys t t'" using w(4) by (simp add: same_keys_def)
    moreover have "settings_plainly (card_env clk) n (t, s) = cached n (shown f) (t', s')"
      using False snd h w(1) p
      by (simp add: settings_plainly_def doS_def select_app_card [OF b] mapErr_def)
    ultimately show ?thesis
      using w by (simp add: cached_card ready_def keyed_cached linked_cached same_keys_cached)
  qed
qed

lemma get_settings_ready:
  assumes "ready t s" "card_file n s = Some f" "shows_plainly f \<or> holds_key t 0"
  shows "\<exists>t' s'. n4_get_file_settings (card_env clk) n (t, s) = (Inr (shown f), (t', s')) \<and> ready t' s' \<and>
    nFiles s' = nFiles s \<and> nKeys s' = nKeys s \<and> same_keys t t'"
proof (cases "gSession t = None")
  case True
  then show ?thesis
    using settings_plainly_ready [where clk = clk, OF _ assms(2,3)] assms(1)
    by (simp add: n4_get_file_settings_def ready_def)
next
  case False
  then have l: "linked t s" "keyed t s" using assms(1) by (auto simp: ready_def)
  from get_file_settings_card [OF l(1) assms(2), of clk] obtain t' s' where
    g: "n4_get_file_settings (card_env clk) n (t, s) = (Inr (shown f), (t', s'))" "linked t' s'" "nFiles s' = nFiles s"
    "card_stays s s'" "tag_stays t t'" by blast
  with keyed_stays [OF l(2)] tag_stays_same [OF g(5)] card_staysD [OF g(4)] show ?thesis
    by (auto simp: ready_def)
qed

end
