(* ===== verification/IsoOnCard.thy ===== *)
theory IsoOnCard
  imports ProvisionOnCard
begin

text \<open>
  The plain path of the NTAG 424 DNA driver: what the Type 4 functions do over the bare
  transport they do over the driver's, the tag staying as it is.
\<close>

section \<open>A transport beside a tag\<close>

definition lifts :: "'t \<Rightarrow> ('s, 'e, 'a) action \<Rightarrow> ('t \<times> 's, 'e, 'a) action \<Rightarrow> bool" where
  "lifts t m m' \<longleftrightarrow> (\<forall>s. m' (t, s) = (fst (m s), (t, snd (m s))))"

lemma lifts_do:
  assumes "lifts t m m'" "\<And>x. lifts t (f x) (f' x)"
  shows "lifts t (doS m f) (doS m' f')"
proof -
  have "doS m' f' (t, s) = (fst (doS m f s), (t, snd (doS m f s)))" for s
  proof (cases "m s")
    case (Pair r s1)
    then have "m' (t, s) = (r, (t, s1))" using assms(1) by (simp add: lifts_def)
    with Pair assms(2) show ?thesis by (cases r) (simp_all add: doS_def lifts_def)
  qed
  then show ?thesis by (simp add: lifts_def)
qed

lemma lifts_unit [simp]: "lifts t (retS x) (retS x)" "lifts t (failS e) (failS e)" "lifts t (pureS r) (pureS r)"
  by (simp_all add: lifts_def)

lemma lifts_transmit: "lifts t m m' \<Longrightarrow> lifts t (transmit_raw m) (transmit_raw m')"
  by (auto simp: lifts_def transmit_raw_def split: prod.split sum.split)

lemma lifts_transceive:
  assumes "\<And>cmd. lifts t (dev cmd) (dev' cmd)"
  shows "lifts t (tag_transceive dev cmd) (tag_transceive dev' cmd)"
  unfolding tag_transceive_def
  by (rule lifts_do [OF lifts_transmit [OF assms]]) (simp split: option.split)

lemma lifts_select:
  assumes "\<And>cmd. lifts t (dev cmd) (dev' cmd)"
  shows "lifts t (select_ndef_file dev) (select_ndef_file dev')"
  unfolding select_ndef_file_def by (intro lifts_do lifts_transceive assms lifts_unit)

lemma lifts_read_ndef:
  assumes "\<And>cmd. lifts t (dev cmd) (dev' cmd)"
  shows "lifts t (read_ndef dev m off n acc) (read_ndef dev' m off n acc)"
proof -
  have "read_ndef dev' m off n acc (t, s) = (fst (read_ndef dev m off n acc s), (t, snd (read_ndef dev m off n acc s)))" for s
  proof (induction n arbitrary: off acc s rule: less_induct)
    case (less n)
    let ?cmd = "read_binary_ext_apdu (of_nat off) (byteN (min n m))"
    have x: "tag_transceive dev' ?cmd (t, s) = (fst (tag_transceive dev ?cmd s), (t, snd (tag_transceive dev ?cmd s)))"
      using lifts_transceive [OF assms, where cmd = ?cmd] by (simp add: lifts_def)
    show ?case
    proof (cases "tag_transceive dev ?cmd s")
      case (Pair r s1)
      with x less show ?thesis
        by (cases r) (simp_all add: read_ndef.simps [of _ m off n])
    qed
  qed
  then show ?thesis by (simp add: lifts_def)
qed

lemma lifts_write_ndef:
  assumes "\<And>cmd. lifts t (dev cmd) (dev' cmd)"
  shows "lifts t (write_ndef dev off cs) (write_ndef dev' off cs)"
proof (induction cs arbitrary: off)
  case (Cons c cs)
  then show ?case by (simp add: lifts_do lifts_transceive assms)
qed simp

lemma lifts_type4_write:
  assumes "\<And>cmd. lifts t (dev cmd) (dev' cmd)"
  shows "lifts t (type4_write_data dev d) (type4_write_data dev' d)"
  unfolding type4_write_data_def
  by (intro lifts_do lifts_select assms) (auto intro!: lifts_do lifts_transceive lifts_write_ndef assms)

lemma lifts_type4_read:
  assumes "\<And>cmd. lifts t (dev cmd) (dev' cmd)"
  shows "lifts t (type4_read_data dev) (type4_read_data dev')"
  unfolding type4_read_data_def
  by (intro lifts_do lifts_select lifts_transceive assms) (auto simp: Let_def intro!: lifts_read_ndef assms)

section \<open>Routes\<close>

lemma route_native:
  assumes "route_for t fs wr = Inr rt" "rtNative rt"
  shows "rtKeyNo rt \<le> 4 \<and> holds_key t (rtKeyNo rt) \<and> rtMode rt = fsCommMode fs"
  using assms by (auto simp: route_for_def any_held_key_def find_Some_iff Let_def nth_Cons
      split: if_splits option.splits nat.splits)

lemma route_plain:
  assumes "route_for t (shown f) wr = Inr rt" "\<not> rtNative rt"
  shows "open_right wr (nfSettings f)"
  using assms by (auto simp: route_for_def open_right_def Let_def split: if_splits option.splits)

section \<open>Writing\<close>

lemma exchange_lifts: "gBudget t = None \<Longrightarrow> lifts t (n4_dev cmd) (n4_exchange (card_env clk) cmd)"
  by (simp add: lifts_def n4_exchange_def card_env_def Let_def split: prod.split)

lemma write_native_ready:
  assumes "ready t s" "route_for t (shown (ndef_file s)) True = Inr rt" "rtNative rt"
    and "known_mode (fsCommMode (nfSettings (ndef_file s)))" "length d \<le> 254"
  shows "\<exists>t' s'. with_session (card_env clk) (rtKeyNo rt) (native_write (card_env clk) (rtMode rt) d) (t, s) =
      (Inr (), (t', s')) \<and> ready t' s' \<and>
    nFiles s' = with_ndef (nlen_bytes (length d) @ d @ drop (2 + length d) (nfData (ndef_file s))) s \<and>
    nKeys s' = nKeys s \<and> same_keys t t'"
proof -
  note r = route_native [OF assms(2,3)]
  let ?Q = "\<lambda>t' s'. ready t' s' \<and>
    nFiles s' = with_ndef (nlen_bytes (length d) @ d @ drop (2 + length d) (nfData (ndef_file s))) s \<and>
    nKeys s' = nKeys s \<and> same_keys t t'"
  have "\<exists>t' s'. with_session (card_env clk) (rtKeyNo rt) (native_write (card_env clk) (rtMode rt) d) (t, s) =
      (Inr (), (t', s')) \<and> ?Q t' s'"
  proof (rule enter_session [OF assms(1)])
    fix t1 s1
    assume 1: "linked t1 s1" "keyed t1 s1" "nAuthKey s1 = rtKeyNo rt" "same_keys t t1" "nFiles s1 = nFiles s"
      "nKeys s1 = nKeys s"
    have f: "ndef_file s1 = ndef_file s" using 1(5) by (simp add: ndef_file_def)
    have "nSession s1 \<noteq> None" using 1(1) by (auto elim!: linkedE simp: in_sync_def split: option.splits)
    then have p: "fst (permitted (nfSettings (ndef_file s1)) True s1)"
      using route_shown [OF assms(2,3), of s1] 1(3) f by simp
    have m: "fsCommMode (nfSettings (ndef_file s1)) = rtMode rt" "known_mode (rtMode rt)" using f r assms(4) by simp_all
    from native_write_card [where clk = clk, OF 1(1) m p assms(5)] obtain t2 s2 where
      w: "native_write (card_env clk) (rtMode rt) d (t1, s1) = (Inr (), (t2, s2))" "linked t2 s2"
      "nFiles s2 = with_ndef (nlen_bytes (length d) @ d @ drop (2 + length d) (nfData (ndef_file s1))) s1"
      "card_stays s1 s2" "tag_stays t1 t2" by blast
    have "with_ndef e s1 = with_ndef e s" for e using 1(5) f by (simp add: with_ndef_def)
    then have "?Q t2 s2"
      using w 1 f keyed_stays [OF 1(2) w(2,5,4)] same_keys_trans [OF 1(4) tag_stays_same [OF w(5)]] card_staysD [OF w(4)]
      by (simp add: ready_def)
    with w(1) show "\<exists>t' s'. native_write (card_env clk) (rtMode rt) d (t1, s1) = (Inr (), (t', s')) \<and> ?Q t' s'" by blast
  qed (use r in simp_all)
  then show ?thesis by blast
qed

text \<open>The card with another NDEF content is still a card, and a tag keyed to it stays so.\<close>

definition cc_std :: "ntag424_state \<Rightarrow> bool" where
  "cc_std s \<longleftrightarrow> type4_card s \<and> 15 \<le> length (nfData (nFiles s ! 0))"

lemma cc_std_files: "nFiles s' = nFiles s \<Longrightarrow> cc_std s' = cc_std s"
  by (simp add: cc_std_def type4_card_def ndef_file_def)

lemma at_ndef_fields [simp]:
  "nFiles (at_ndef s) = nFiles s" "nKeys (at_ndef s) = nKeys s" "nLRP (at_ndef s) = nLRP s"
  "not_delayed (at_ndef s) = not_delayed s"
  by (simp_all add: at_ndef_def clear_selection_def drop_session_def not_delayed_def)

lemma card_ok_at_ndef: "card_ok s \<Longrightarrow> card_ok (at_ndef s)"
  by (simp add: card_ok_def at_ndef_def clear_selection_def drop_session_def)

lemma card_ok_put_ndef:
  assumes "card_ok s" "length e = 256"
  shows "card_ok (put_ndef e s)"
proof -
  have f: "files_ok (nLRP s) (nFiles s)" using assms(1) by (simp add: card_ok_def)
  have "file_ok (nLRP s) 1 ((nFiles s ! 1)\<lparr>nfData := e\<rparr>)"
    using files_okD [OF f, of 1] assms(2) by (simp add: file_ok_def ntag424_file_sizes_def)
  with files_ok_update [OF f, of 1] assms(1) show ?thesis by (simp add: card_ok_def put_ndef_def)
qed

lemma put_ndef_files [simp]: "nFiles (put_ndef e s) = with_ndef e s" "nLRP (put_ndef e s) = nLRP s"
  "not_delayed (put_ndef e s) = not_delayed s"
  by (simp_all add: put_ndef_def with_ndef_def ndef_file_def not_delayed_def)

lemma with_ndef_at [simp]: "with_ndef e (at_ndef s) = with_ndef e s"
  by (simp add: with_ndef_def ndef_file_def)

lemma write_plain_ready:
  assumes "keyed t s" "cc_std s" "open_right True (nfSettings (ndef_file s))" "length d \<le> 254"
    and t': "t' = t\<lparr>gSession := None, gWritesSent := w\<rparr>"
  shows "\<exists>s'. mapES NTag (type4_write_data (n4_exchange (card_env clk)) d) (t', s) = (Inr (), (t', s')) \<and> ready t' s' \<and>
    nFiles s' = with_ndef (nlen_bytes (length d) @ d @ drop (2 + length d) (nfData (ndef_file s))) s \<and>
    nKeys s' = nKeys s"
proof -
  let ?b = "nfData (ndef_file s)"
  let ?e = "copy_at 0 ?b (nlen_bytes (length d) @ d)"
  let ?s = "put_ndef ?e (at_ndef s)"
  have b: "gBudget t' = None" "card_ok s" using assms(1) t' by (simp_all add: keyed_def)
  have l: "length ?b = 256" using card_ok_files [OF b(2)] by simp
  have e: "?e = nlen_bytes (length d) @ d @ drop (2 + length d) ?b"
    using l assms(4) by (simp add: copy_at_fits nlen_bytes_facts)
  have w: "type4_write_data n4_dev d s = (Inr (), ?s)"
    using assms(2) by (intro type4_write_on_card) (use assms(2-4) in \<open>simp_all add: cc_std_def\<close>)
  have "type4_write_data (n4_exchange (card_env clk)) d (t', s) = (Inr (), (t', ?s))"
    using lifts_type4_write [OF exchange_lifts [where clk = clk, OF b(1)], where d = d] w by (simp add: lifts_def)
  moreover have "keyed t' ?s"
    using assms(1) t' card_ok_put_ndef [OF card_ok_at_ndef [OF b(2)], of ?e] l
    by (intro keyed_moves [OF assms(1)]) (simp_all add: keyed_def same_keys_def)
  ultimately show ?thesis using t' by (simp add: mapES_def mapErr_def ready_def e)
qed

text \<open>A write whatever the route: the driver writes when the rights and its keys allow it.\<close>

lemma write_ready:
  assumes "ready t s" "shows_plainly (ndef_file s) \<or> holds_key t 0" "route_for t (shown (ndef_file s)) True = Inr rt"
    and "known_mode (fsCommMode (nfSettings (ndef_file s)))" "cc_std s" "length d \<le> 254"
  shows "\<exists>t' s'. n4_write_data (card_env clk) d (t, s) = (Inr (), (t', s')) \<and> ready t' s' \<and>
    nFiles s' = with_ndef (nlen_bytes (length d) @ d @ drop (2 + length d) (nfData (ndef_file s))) s \<and>
    nKeys s' = nKeys s \<and> same_keys t t'"
proof -
  obtain t1 s1 where g: "n4_get_file_settings (card_env clk) 0x02 (t, s) = (Inr (shown (ndef_file s)), (t1, s1))"
    "ready t1 s1" "nFiles s1 = nFiles s" "nKeys s1 = nKeys s" "same_keys t t1"
    using get_settings_ready [OF assms(1) card_file_ndef assms(2)] by blast
  have f: "ndef_file s1 = ndef_file s" "\<And>e. with_ndef e s1 = with_ndef e s" using g(3) by (simp_all add: ndef_file_def with_ndef_def)
  have k: "keyed t1 s1" using g(2) by (simp add: ready_def)
  then have b: "gBudget t1 = None" "length (nfData (ndef_file s)) = 256"
    using f card_ok_files [of s1] by (simp_all add: keyed_def)
  have rt: "route_for t1 (shown (ndef_file s1)) True = Inr rt" using assms(3) same_keys_views(2) [OF g(5)] f by simp
  show ?thesis
  proof (cases "rtNative rt")
    case True
    from write_native_ready [where clk = clk, OF g(2) rt True _ assms(6)] assms(4) f obtain t2 s2 where
      "with_session (card_env clk) (rtKeyNo rt) (native_write (card_env clk) (rtMode rt) d) (t1, s1) = (Inr (), (t2, s2))"
      "ready t2 s2" "nFiles s2 = with_ndef (nlen_bytes (length d) @ d @ drop (2 + length d) (nfData (ndef_file s))) s"
      "nKeys s2 = nKeys s1" "same_keys t1 t2" by auto
    then show ?thesis
      using g rt True b f assms(6) same_keys_trans [OF g(5)]
      by (simp add: n4_write_data_def tryS_def doS_def askS_def budget_free)
  next
    case False
    let ?t = "t1\<lparr>gSession := None, gWritesSent := gWritesSent t1 + 1\<rparr>"
    have o: "open_right True (nfSettings (ndef_file s1))" using route_plain [OF rt False] .
    have c: "cc_std s1" using assms(5) cc_std_files [OF g(3)] by simp
    from write_plain_ready [where clk = clk, OF k c o assms(6) refl, of "gWritesSent t1 + 1"] obtain s2 where
      w: "mapES NTag (type4_write_data (n4_exchange (card_env clk)) d) (?t, s1) = (Inr (), (?t, s2))" "ready ?t s2"
      "nFiles s2 = with_ndef (nlen_bytes (length d) @ d @ drop (2 + length d) (nfData (ndef_file s))) s" "nKeys s2 = nKeys s1"
      unfolding f by blast
    have "n4_write_data (card_env clk) d (t, s) = (Inr (), (?t, s2))"
      using g(1) rt False b f assms(6) w(1)
      by (simp add: n4_write_data_def tryS_def doS_def askS_def budget_free drop_tag_session_def note_write_def changeS_def)
    moreover have "same_keys t ?t" using g(5) by (simp add: same_keys_def)
    ultimately show ?thesis using w(2-4) g(4) by metis
  qed
qed

section \<open>Reading\<close>

lemma read_native_ready:
  assumes "ready t s" "route_for t (shown (ndef_file s)) False = Inr rt" "rtNative rt"
    and "known_mode (fsCommMode (nfSettings (ndef_file s)))" "\<not> fsSDMEnabled (nfSettings (ndef_file s))"
    and "nfData (ndef_file s) = nlen_bytes (length d) @ d @ rest" "length d \<le> 254" "fsFileSize fs = 256"
  shows "\<exists>t' s'. with_session (card_env clk) (rtKeyNo rt) (native_read (card_env clk) fs (rtMode rt)) (t, s) =
      (Inr d, (t', s')) \<and> ready t' s' \<and> nFiles s' = nFiles s \<and> nKeys s' = nKeys s \<and> same_keys t t'"
proof -
  note r = route_native [OF assms(2,3)]
  let ?Q = "\<lambda>t' s'. ready t' s' \<and> nFiles s' = nFiles s \<and> nKeys s' = nKeys s \<and> same_keys t t'"
  have "\<exists>t' s'. with_session (card_env clk) (rtKeyNo rt) (native_read (card_env clk) fs (rtMode rt)) (t, s) =
      (Inr d, (t', s')) \<and> ?Q t' s'"
  proof (rule enter_session [OF assms(1)])
    fix t1 s1
    assume 1: "linked t1 s1" "keyed t1 s1" "nAuthKey s1 = rtKeyNo rt" "same_keys t t1" "nFiles s1 = nFiles s"
      "nKeys s1 = nKeys s"
    have f: "ndef_file s1 = ndef_file s" using 1(5) by (simp add: ndef_file_def)
    have "nSession s1 \<noteq> None" using 1(1) by (auto elim!: linkedE simp: in_sync_def split: option.splits)
    then have p: "fst (permitted (nfSettings (ndef_file s1)) False s1)"
      using route_shown [OF assms(2,3), of s1] 1(3) f by simp
    have m: "fsCommMode (nfSettings (ndef_file s1)) = rtMode rt" "known_mode (rtMode rt)"
      "\<not> fsSDMEnabled (nfSettings (ndef_file s1))" "nfData (ndef_file s1) = nlen_bytes (length d) @ d @ rest"
      using f r assms(4-6) by simp_all
    from native_read_card [where clk = clk, OF 1(1) m(1,2) p m(3,4) assms(7,8)] obtain t2 s2 where
      w: "native_read (card_env clk) fs (rtMode rt) (t1, s1) = (Inr d, (t2, s2))" "linked t2 s2"
      "nFiles s2 = nFiles s1" "card_stays s1 s2" "tag_stays t1 t2" by blast
    have "?Q t2 s2"
      using w 1 keyed_stays [OF 1(2) w(2,5,4)] same_keys_trans [OF 1(4) tag_stays_same [OF w(5)]] card_staysD [OF w(4)]
      by (simp add: ready_def)
    with w(1) show "\<exists>t' s'. native_read (card_env clk) fs (rtMode rt) (t1, s1) = (Inr d, (t', s')) \<and> ?Q t' s'" by blast
  qed (use r in simp_all)
  then show ?thesis by blast
qed

lemma read_plain_ready:
  assumes "keyed t s" "cc_std s" "plain_ndef s" "nfData (ndef_file s) = nlen_bytes (length d) @ d @ rest" "d \<noteq> []"
    and "length d \<le> 254" and t': "t' = t\<lparr>gSession := None\<rparr>"
  shows "mapES NTag (type4_read_data (n4_exchange (card_env clk))) (t', s) = (Inr d, (t', at_ndef s)) \<and>
    ready t' (at_ndef s)"
proof -
  have b: "gBudget t' = None" "card_ok s" using assms(1) t' by (simp_all add: keyed_def)
  have "type4_read_data n4_dev s = (Inr d, at_ndef s)"
    using assms(2-6) by (intro type4_read_on_card) (simp_all add: cc_std_def)
  then have "type4_read_data (n4_exchange (card_env clk)) (t', s) = (Inr d, (t', at_ndef s))"
    using lifts_type4_read [OF exchange_lifts [where clk = clk, OF b(1)]] by (simp add: lifts_def)
  moreover have "keyed t' (at_ndef s)"
    using assms(1) t' card_ok_at_ndef [OF b(2)]
    by (intro keyed_moves [OF assms(1)]) (simp_all add: keyed_def same_keys_def)
  ultimately show ?thesis using t' by (simp add: mapES_def mapErr_def ready_def)
qed

lemma read_ready:
  assumes "ready t s" "shows_plainly (ndef_file s) \<or> holds_key t 0" "route_for t (shown (ndef_file s)) False = Inr rt"
    and "known_mode (fsCommMode (nfSettings (ndef_file s)))" "cc_std s" "\<not> fsSDMEnabled (nfSettings (ndef_file s))"
    and "nfData (ndef_file s) = nlen_bytes (length d) @ d @ rest" "d \<noteq> []" "length d \<le> 254"
  shows "\<exists>t' s'. n4_read_data (card_env clk) (t, s) = (Inr d, (t', s')) \<and> ready t' s' \<and>
    nFiles s' = nFiles s \<and> nKeys s' = nKeys s \<and> same_keys t t'"
proof -
  obtain t1 s1 where g: "n4_get_file_settings (card_env clk) 0x02 (t, s) = (Inr (shown (ndef_file s)), (t1, s1))"
    "ready t1 s1" "nFiles s1 = nFiles s" "nKeys s1 = nKeys s" "same_keys t t1"
    using get_settings_ready [OF assms(1) card_file_ndef assms(2)] by blast
  have f: "ndef_file s1 = ndef_file s" using g(3) by (simp add: ndef_file_def)
  have k: "keyed t1 s1" using g(2) by (simp add: ready_def)
  then have z: "fsFileSize (shown (ndef_file s)) = 256" using f card_ok_files [of s1] by (simp add: keyed_def)
  have rt: "route_for t1 (shown (ndef_file s1)) False = Inr rt" using assms(3) same_keys_views(2) [OF g(5)] f by simp
  show ?thesis
  proof (cases "rtNative rt")
    case True
    from read_native_ready [where clk = clk, OF g(2) rt True _ _ _ assms(9) z] assms(4,6,7) f obtain t2 s2 where
      "with_session (card_env clk) (rtKeyNo rt) (native_read (card_env clk) (shown (ndef_file s)) (rtMode rt)) (t1, s1) =
        (Inr d, (t2, s2))" "ready t2 s2" "nFiles s2 = nFiles s1" "nKeys s2 = nKeys s1" "same_keys t1 t2" by auto
    then show ?thesis
      using g rt True f assms(8) same_keys_trans [OF g(5)]
      by (simp add: n4_read_data_def tryS_def doS_def askS_def)
  next
    case False
    let ?t = "t1\<lparr>gSession := None\<rparr>"
    have o: "plain_ndef s1" using route_plain [OF rt False] assms(6) f by (simp add: plain_ndef_def)
    have c: "cc_std s1" using assms(5) cc_std_files [OF g(3)] by simp
    from read_plain_ready [where clk = clk, OF k c o _ assms(8,9) refl] assms(7) f have
      w: "mapES NTag (type4_read_data (n4_exchange (card_env clk))) (?t, s1) = (Inr d, (?t, at_ndef s1))" "ready ?t (at_ndef s1)"
      by auto
    have "n4_read_data (card_env clk) (t, s) = (Inr d, (?t, at_ndef s1))"
      using g(1) rt False f w(1)
      by (simp add: n4_read_data_def tryS_def doS_def askS_def as_type4_def drop_tag_session_def changeS_def)
    moreover have "same_keys t ?t" using g(5) by (simp add: same_keys_def)
    ultimately show ?thesis using w(2) g(3,4) by simp
  qed
qed

end
