(* ===== verification/DriverProps.thy ===== *)
theory DriverProps
  imports Examples Explain ChainApplet IsoOnCard
begin

text \<open>
  The properties of the driver stack: the NTAG 424 DNA driver against the emulated card,
  command explanation, APDU building, chaining and sequences.
\<close>

section \<open>Demonstration cards and tags\<close>

text \<open>A personalised card, its NDEF file read and written with key 1 under a MAC, and a tag
  that holds the (all zero) keys.\<close>

definition personal_card :: ntag424_state where
  "personal_card = fresh_card\<lparr>nFiles := (nFiles fresh_card)[1 := (nFiles fresh_card ! 1)\<lparr>nfSettings :=
     (nfSettings (nFiles fresh_card ! 1))\<lparr>fsCommMode := CommMAC, fsRead := 1, fsWrite := 1,
        fsReadWrite := AccessNever, fsChange := 0\<rparr>\<rparr>]\<rparr>"

definition demo_tag :: "unit ntag424_tag" where
  "demo_tag = (new_ntag424_tag (ascii ''04010203040506'') (\<lambda>_. 0x33))\<lparr>
     gKeys := \<lparr>ksMaster = zero_key, ksSystemID = [], ksSlots = [], ksDiversify = False, ksAllowLRP = False\<rparr>\<rparr>"

lemma personal_ndef: "ndef_file personal_card = (nFiles fresh_card ! 1)\<lparr>nfSettings :=
     (nfSettings (nFiles fresh_card ! 1))\<lparr>fsCommMode := CommMAC, fsRead := 1, fsWrite := 1,
        fsReadWrite := AccessNever, fsChange := 0\<rparr>\<rparr>"
  by (simp add: personal_card_def ndef_file_def fresh_card_def new_ntag424_state_def Let_def)

lemma fresh_ndef: "nfSettings (nFiles fresh_card ! 1) = zero_settings\<lparr>fsReadWrite := AccessFree, fsRead := AccessFree,
    fsWrite := AccessFree, fsFileSize := 256\<rparr>" "length (nfData (nFiles fresh_card ! 1)) = 256"
  "nLRP personal_card = False" "nKeys personal_card = replicate 5 zero_key" "length (nFiles fresh_card) = 3"
  by (simp_all add: personal_card_def demo_card_fields fresh_card_def new_ntag424_state_def Let_def zero_settings_def zero_key_def)

lemma personal_card_ok: "card_ok personal_card"
proof -
  have f: "files_ok False (nFiles fresh_card)" using fresh_card_ok by (simp add: card_ok_def demo_card_fields)
  have "files_ok False (nFiles personal_card)"
    unfolding personal_card_def
    by (simp del: One_nat_def, intro files_ok_update f)
      (simp add: file_ok_def check_settings_iff settings_encode_ok fresh_ndef settings_small_def zero_settings_def
        ntag424_file_sizes_def AccessNever_def del: One_nat_def)
  then show ?thesis using fresh_card_ok by (simp add: card_ok_def personal_card_def demo_card_fields)
qed

lemma personal_cc: "cc_std personal_card"
  by (simp add: cc_std_def type4_card_def personal_ndef fresh_ndef)
    (simp add: personal_card_def fresh_card_def new_ntag424_state_def Let_def open_right_def cc_file_def zero_settings_def
        copy_at_fits)

lemma demo_keyed: "keyed demo_tag personal_card"
  by (simp add: keyed_def personal_card_ok fresh_ndef demo_tag_def new_ntag424_tag_def holds_key_def needs_uid_def
      key_set_key_def zero_key_def not_delayed_def)
    (simp add: personal_card_def fresh_card_def new_ntag424_state_def Let_def)

lemma demo_tag_fields: "gSession demo_tag = None" "gSessionKeyNo demo_tag = 0" "holds_key demo_tag 0" "holds_key demo_tag 3"
  "gBudget demo_tag = None"
  by (simp_all add: demo_tag_def new_ntag424_tag_def holds_key_def zero_key_def)

lemma demo_routes:
  "route_for demo_tag (shown (ndef_file personal_card)) wr = Inr \<lparr>rtNative = True, rtKeyNo = 1, rtMode = CommMAC\<rparr>"
  by (simp add: route_for_def personal_ndef fresh_ndef zero_settings_def demo_tag_def new_ntag424_tag_def holds_key_def del: One_nat_def
      add: AccessFree_def AccessNever_def zero_key_def Let_def)

section \<open>The NTAG 424 DNA driver on the card\<close>

text \<open>
  C26. The driver and the card, end to end: a tag that holds the card's keys writes an NDEF
  message and reads the same message back, whatever the file's rights, communication mode and
  secure messaging suite, with a session open or none, as long as the rights and the keys held
  allow the route and SDM does not rewrite what is read.
\<close>

theorem driver_write_read:
  assumes "ready t s" "shows_plainly (ndef_file s) \<or> holds_key t 0"
    and "route_for t (shown (ndef_file s)) True = Inr rw" "route_for t (shown (ndef_file s)) False = Inr rr"
    and "known_mode (fsCommMode (nfSettings (ndef_file s)))" "cc_std s" "\<not> fsSDMEnabled (nfSettings (ndef_file s))"
    and "d \<noteq> []" "length d \<le> 254"
  shows "\<exists>ts1 ts2. n4_write_data (card_env clk) d (t, s) = (Inr (), ts1) \<and>
    n4_read_data (card_env clk) ts1 = (Inr d, ts2)"
proof -
  obtain t1 s1 where w: "n4_write_data (card_env clk) d (t, s) = (Inr (), (t1, s1))" "ready t1 s1"
    "nFiles s1 = with_ndef (nlen_bytes (length d) @ d @ drop (2 + length d) (nfData (ndef_file s))) s"
    "nKeys s1 = nKeys s" "same_keys t t1"
    using write_ready [OF assms(1-3,5,6,9)] by blast
  have l: "length (nFiles s) = 3" "length (nfData (ndef_file s)) = 256"
    using assms(1) card_ok_files [of s] by (simp_all add: ready_def keyed_def)
  note f = with_ndef_simps(1) [OF w(3) l(1)]
  have sh: "shown (ndef_file s1) = shown (ndef_file s)" using f l assms(9) by (simp add: shown_def nlen_bytes_facts)
  have c: "cc_std s1" using assms(6,9) f w(3) l by (simp add: cc_std_def type4_card_def with_ndef_def nlen_bytes_facts)
  have p: "shows_plainly (ndef_file s1) \<or> holds_key t1 0"
    using assms(2) f same_keys_views(1) [OF w(5)] by (simp add: shows_plainly_def)
  have r: "route_for t1 (shown (ndef_file s1)) False = Inr rr" using assms(4) sh same_keys_views(2) [OF w(5)] by simp
  have n: "known_mode (fsCommMode (nfSettings (ndef_file s1)))" "\<not> fsSDMEnabled (nfSettings (ndef_file s1))"
    "nfData (ndef_file s1) = nlen_bytes (length d) @ d @ drop (2 + length d) (nfData (ndef_file s))"
    using assms(5,7) f by simp_all
  obtain ts2 where "n4_read_data (card_env clk) (t1, s1) = (Inr d, ts2)"
    using read_ready [where clk = clk, OF w(2) p r n(1) c n(2,3) assms(8,9)] by blast
  with w(1) show ?thesis by blast
qed

theorem driver_write_read_witness:
  "\<exists>ts1 ts2. n4_write_data (card_env (\<lambda>_. 0)) [0xD1, 1, 0, 0x54] (demo_tag, personal_card) = (Inr (), ts1) \<and>
    n4_read_data (card_env (\<lambda>_. 0)) ts1 = (Inr [0xD1, 1, 0, 0x54], ts2)"
  by (rule driver_write_read [OF _ _ demo_routes demo_routes])
    (simp_all add: ready_def demo_keyed demo_tag_fields personal_cc personal_ndef fresh_ndef zero_settings_def
      del: One_nat_def)







text \<open>
  A refused key is not tried again: once the card, or the driver's memory of the card, has
  refused a key, an operation under that key fails with the same reason and sends nothing, so
  a wrong key does not run the card's failure counter up.
\<close>

theorem refused_key_sends_nothing:
  assumes "refused_before keyNo t = Some e" "gSession t = None \<or> gSessionKeyNo t \<noteq> keyNo"
  shows "with_session env keyNo fn (t, s) = (Inl (NAuth e), (t, s))"
  using assms by (rule refused_sends_nothing)

theorem refused_key_sends_nothing_witness:
  "\<exists>t' e. auth_refused 0 (NEv2 EAuthFailed) (demo_tag, personal_card) = (Inl (NAuth (NEv2 EAuthFailed)), (t', personal_card)) \<and>
     with_session (card_env (\<lambda>_. 0)) 0 (retS ()) (t', personal_card) = (Inl (NAuth e), (t', personal_card))"
  using refused_key_sends_nothing [of 0 "demo_tag\<lparr>gFailedAuth := [0 \<mapsto> NEv2 EAuthFailed]\<rparr>" "NEv2 EAuthFailed"
      "card_env (\<lambda>_. 0)" "retS ()" personal_card]
  by (simp add: auth_refused_def refused_before_def demo_tag_def new_ntag424_tag_def has_class_def)

section \<open>Commands: explained, built, chained, in sequence\<close>



text \<open>
  A command built is read back: parsing the body of what \<open>BuildAPDU\<close> makes gives the
  header, data and expected length it was made of and no warning, for every data a short
  command carries.
\<close>

theorem built_apdu_parses:
  assumes "length data \<le> 255"
  shows "parse_apdu_body (build_apdu cla ins p1 p2 data le) =
    (no_fields\<lparr>fCLA := cla, fINS := ins, fP1 := p1, fP2 := p2, fHasLc := data \<noteq> [], fLc := length data,
       fData := data, fHasLe := le \<noteq> None, fLe := (case le of None \<Rightarrow> 0 | Some b \<Rightarrow> le_value b)\<rparr>, None)"
  using assms by (rule parse_build_apdu)

theorem built_apdu_parses_witness:
  "fData (fst (parse_apdu_body (build_apdu 0x00 0xD6 0x00 0x02 [1, 2, 3] None))) = [1, 2, 3]"
  using built_apdu_parses [of "[1, 2, 3]" "0x00" "0xD6" "0x00" "0x02" None] by simp

text \<open>
  C32. A chained exchange ends: whatever the card answers, at most 65 commands follow the first
  (one repeat with the length the card asks for, 64 rounds of GET RESPONSE), the commands
  reported are exactly those that reached the card, in order, and an error is that of the last.
\<close>

theorem chained_exchange_bounded:
  shows "case exchange_chained cmd ex s of (r, follow, s') \<Rightarrow> length follow \<le> 65 \<and>
    (case r of Inl e \<Rightarrow> send_all ex (cmd # follow) s = (Inl e, s')
     | Inr out \<Rightarrow> (case send_all ex (cmd # follow) s of
         (Inl e, s2) \<Rightarrow> False | (Inr rs, s2) \<Rightarrow> s2 = s' \<and> length rs = Suc (length follow)))"
proof -
  obtain r follow s' where x: "exchange_chained cmd ex s = (r, follow, s')" by (metis prod_cases3)
  show ?thesis using chained_sends [OF x] by (cases r) (auto simp: x)
qed

text \<open>
  The chained data object arrives whole: one \<open>ExchangeChained\<close> of its GET DATA command
  collects from the applet, over as many GET RESPONSE as its chunks take, the 32 bytes in
  order under 9000.
\<close>

theorem chunked_object_fetched:
  assumes "4 \<le> length cmd" "cmd ! 1 = 0xCA" "cmd ! 2 = 0x00"
  shows "fst (exchange_chained cmd chain_exchange a) = Inr (chain_chunked @ [0x90, 0x00])"
  using chain_chunked_fetched [OF assms, of a] by auto

theorem chunked_object_fetched_witness:
  "fst (exchange_chained [0x00, 0xCA, 0x00, 0x01, 0x00] chain_exchange \<lparr>capReceived = [], capPending = []\<rparr>) =
    Inr (chain_chunked @ [0x90, 0x00])"
  by (rule chunked_object_fetched) simp_all

text \<open>
  A sequence stops where its rules say: \<open>RunSequence\<close> that does not fail returns one reply
  per step run, and the index of the stopping step is the first whose reply that step's
  condition stops on, or -1 when every step ran and none did.
\<close>

theorem sequence_stops_first:
  assumes "run_sequence steps ex s = (Inr res, s')"
  shows "length (qReplies res) \<le> length steps \<and> length (qFollowups res) = length (qReplies res) \<and>
    (if qStoppedAt res = -1
     then length (qReplies res) = length steps \<and>
       list_all (\<lambda>k. \<not> step_stops (steps ! k) (qReplies res ! k)) [0..<length steps]
     else qStoppedAt res = int (length (qReplies res)) - 1 \<and> qReplies res \<noteq> [] \<and>
       step_stops (steps ! (length (qReplies res) - 1)) (last (qReplies res)) \<and>
       list_all (\<lambda>k. \<not> step_stops (steps ! k) (qReplies res ! k)) [0..<length (qReplies res) - 1])"
proof -
  from assms have "run_steps 0 steps ex \<lparr>qReplies = [], qStoppedAt = -1, qFollowups = []\<rparr> s = (Inr res, s')"
    by (simp add: run_sequence_def)
  from run_steps_result [OF this] show ?thesis by (auto simp: list_all_iff)
qed

definition demo_steps :: "sequence_step list" where
  "demo_steps = [\<lparr>qData = [0x00, 0xCA, 0x01, 0x00], qExpectSW = [0x9000], qStopOnSW = [], qAutoGetResponse = True\<rparr>,
     \<lparr>qData = [0x00, 0xCA, 0x02, 0x00], qExpectSW = [0x9000], qStopOnSW = [], qAutoGetResponse = False\<rparr>,
     \<lparr>qData = [0x00, 0xCA, 0x00, 0x00], qExpectSW = [], qStopOnSW = [], qAutoGetResponse = False\<rparr>]"

theorem sequence_stops_first_witness:
  "\<exists>res a'. run_sequence demo_steps chain_exchange \<lparr>capReceived = [], capPending = []\<rparr> = (Inr res, a') \<and>
    qStoppedAt res = 1 \<and> length (qReplies res) = 2"
proof -
  have "(case run_sequence demo_steps chain_exchange \<lparr>capReceived = [], capPending = []\<rparr> of
      (Inr res, a') \<Rightarrow> qStoppedAt res = 1 | _ \<Rightarrow> False)" by code_simp
  then obtain res a' where r: "run_sequence demo_steps chain_exchange \<lparr>capReceived = [], capPending = []\<rparr> = (Inr res, a')"
    "qStoppedAt res = 1" by (auto split: prod.splits sum.splits)
  from sequence_stops_first [OF r(1)] r show ?thesis by auto
qed

end
