(* ===== verification/Errors.thy ===== *)
theory Errors
  imports Prelude "HOL-Library.Sublist"
begin

text \<open>
  Errors as Go values: \<open>nfc/errors.go\<close> and the classifiers of \<open>nfc/common.go\<close>. An error is a tree:
  a plain text, a sentinel compared by identity, an error wrapped in more text, or one of the
  package's typed errors with its cause. \<open>errors.As\<close> and \<open>errors.Is\<close> look along the chain of causes;
  some classifiers also read the rendered text, so the text is part of the model. Texts are ASCII.
\<close>

section \<open>Texts\<close>

fun text_contains :: "string \<Rightarrow> string \<Rightarrow> bool" where
  "text_contains p [] = (p = [])"
| "text_contains p (c # cs) = (prefix p (c # cs) \<or> text_contains p cs)"

definition lower_char :: "char \<Rightarrow> char" where
  "lower_char c = (let n = of_char c :: nat in if 65 \<le> n \<and> n \<le> 90 then char_of (n + 32) else c)"

definition text_lower :: "string \<Rightarrow> string" where
  "text_lower = map lower_char"

text \<open>\<open>strings.EqualFold\<close> on ASCII.\<close>

definition equal_fold :: "string \<Rightarrow> string \<Rightarrow> bool" where
  "equal_fold a b \<longleftrightarrow> text_lower a = text_lower b"

fun decimal :: "nat \<Rightarrow> string" where
  "decimal n = (if n < 10 then [char_of (48 + n)] else decimal (n div 10) @ [char_of (48 + n mod 10)])"

declare decimal.simps [simp del]

lemma text_contains_iff: "text_contains p t \<longleftrightarrow> (\<exists>a b. t = a @ p @ b)"
proof (induction t)
  case (Cons c cs)
  have "(\<exists>a b. c # cs = a @ p @ b) \<longleftrightarrow> (\<exists>b. c # cs = p @ b) \<or> (\<exists>a b. cs = a @ p @ b)"
    by (metis append_Cons append_Nil neq_Nil_conv list.inject)
  with Cons show ?case by (auto simp: prefix_def)
qed auto

lemma text_contains_grows: "text_contains p t \<Longrightarrow> text_contains p (a @ t @ b)"
  unfolding text_contains_iff by (metis append.assoc)

lemma text_lower_append [simp]: "text_lower (a @ b) = text_lower a @ text_lower b"
  by (simp add: text_lower_def)

lemma equal_fold_refl [simp]: "equal_fold a a"
  by (simp add: equal_fold_def)

section \<open>Values\<close>

datatype sentinel =
    ErrTimeout | ErrDeviceClosed | ErrTagUIDMismatch | ErrIO | ErrDeviceConfig
  | ErrCooldownRequired | ErrACR122Specific | ErrReaderBusy | ContextCanceled | DeadlineExceeded
  | ErrPermissionDenied | ErrAuthDelay | ErrLRP | ErrAuthFailed | ErrOperationDeadline

datatype error_code =
    ErrCodeNotSupported | ErrCodeTagRemoved | ErrCodeAuthFailed | ErrCodeReadFailed
  | ErrCodeWriteFailed | ErrCodeTransceiveFailed | ErrCodeTagNotConnected | ErrCodeReadOnly
  | ErrCodeCapacityExceeded | ErrCodeInvalidData | ErrCodeMultipleTags | ErrCodeBusy
  | ErrCodeNoPayload | ErrCodeRawSessionExpired

text \<open>
  The arguments of \<open>NFCError\<close>: its code, operation, tag UID, message and cause. \<open>CodedError\<close> is the
  agent's own refusal (\<open>protocol/coded_error.go\<close>): its wire code, message and cause.
\<close>

datatype go_error =
    PlainError string
  | Sentinel sentinel
  | Wrapped string go_error string
  | NoCardError string
  | UnsupportedTagError string
  | CardRemovedError "go_error option"
  | NFCError error_code string string string "go_error option"
  | CodedError string string "go_error option"

fun sentinel_text :: "sentinel \<Rightarrow> string" where
  "sentinel_text ErrTimeout = ''device operation timed out''"
| "sentinel_text ErrDeviceClosed = ''device closed''"
| "sentinel_text ErrTagUIDMismatch = ''tag UID mismatch''"
| "sentinel_text ErrIO = ''device I/O error''"
| "sentinel_text ErrDeviceConfig = ''device configuration error''"
| "sentinel_text ErrCooldownRequired = ''device cooldown required''"
| "sentinel_text ErrACR122Specific = ''ACR122 device error''"
| "sentinel_text ErrReaderBusy = ''reader is busy finishing an abandoned operation''"
| "sentinel_text ContextCanceled = ''context canceled''"
| "sentinel_text DeadlineExceeded = ''context deadline exceeded''"
| "sentinel_text ErrPermissionDenied = ''ntag424: permission denied''"
| "sentinel_text ErrAuthDelay = ''ntag424: authentication delayed''"
| "sentinel_text ErrLRP = ''ntag424: tag is in LRP mode, which is not enabled''"
| "sentinel_text ErrAuthFailed = ''ev2: authentication failed''"
| "sentinel_text ErrOperationDeadline = ''deadline would be exceeded, no write sent''"

fun error_text :: "go_error \<Rightarrow> string" where
  "error_text (PlainError t) = t"
| "error_text (Sentinel s) = sentinel_text s"
| "error_text (Wrapped a e b) = a @ error_text e @ b"
| "error_text (NoCardError r) = ''no card present in reader '' @ r"
| "error_text (UnsupportedTagError atr) = ''unsupported tag type (ATR: '' @ atr @ '')''"
| "error_text (CardRemovedError None) = ''card was removed''"
| "error_text (CardRemovedError (Some e)) = ''card was removed: '' @ error_text e"
| "error_text (NFCError c op uid msg None) = (if op = [] then msg else op @ '': '' @ msg)"
| "error_text (NFCError c op uid msg (Some e)) =
     (if op = [] then msg @ '': '' @ error_text e else op @ '': '' @ msg @ '': '' @ error_text e)"
| "error_text (CodedError code msg None) = msg"
| "error_text (CodedError code msg (Some e)) = msg @ '': '' @ error_text e"

text \<open>An error and what \<open>Unwrap\<close> reaches from it.\<close>

fun error_chain :: "go_error \<Rightarrow> go_error list" where
  "error_chain (Wrapped a e b) = Wrapped a e b # error_chain e"
| "error_chain (CardRemovedError (Some e)) = CardRemovedError (Some e) # error_chain e"
| "error_chain (NFCError c op uid msg (Some e)) = NFCError c op uid msg (Some e) # error_chain e"
| "error_chain (CodedError code msg (Some e)) = CodedError code msg (Some e) # error_chain e"
| "error_chain e = [e]"

section \<open>The constructors of \<open>errors.go\<close>\<close>

definition new_busy_error :: "string \<Rightarrow> go_error option \<Rightarrow> go_error" where
  "new_busy_error op cause =
     NFCError ErrCodeBusy op [] ''the reader is still finishing an earlier operation'' cause"

definition new_raw_session_expired_error :: "string \<Rightarrow> go_error" where
  "new_raw_session_expired_error op =
     NFCError ErrCodeRawSessionExpired op [] ''raw session is unknown, ended or expired'' None"

definition new_multiple_tags_error :: "string \<Rightarrow> nat \<Rightarrow> go_error" where
  "new_multiple_tags_error op n =
     NFCError ErrCodeMultipleTags op []
       (''multiple cards detected ('' @ decimal n @ '' tags), please present only one card'') None"

definition new_no_payload_error :: "string \<Rightarrow> string \<Rightarrow> go_error option \<Rightarrow> go_error" where
  "new_no_payload_error op uid cause = NFCError ErrCodeNoPayload op uid ''tag holds no NDEF message'' cause"

definition new_not_supported_error :: "string \<Rightarrow> go_error" where
  "new_not_supported_error op = NFCError ErrCodeNotSupported op [] ''operation not supported'' None"

definition new_tag_removed_error :: "string \<Rightarrow> go_error option \<Rightarrow> go_error" where
  "new_tag_removed_error op cause = NFCError ErrCodeTagRemoved op [] ''tag removed during operation'' cause"

definition new_auth_error :: "string \<Rightarrow> string \<Rightarrow> go_error option \<Rightarrow> go_error" where
  "new_auth_error op uid cause = NFCError ErrCodeAuthFailed op uid ''authentication failed'' cause"

definition new_read_error :: "string \<Rightarrow> go_error option \<Rightarrow> go_error" where
  "new_read_error op cause = NFCError ErrCodeReadFailed op [] ''read failed'' cause"

definition new_write_error :: "string \<Rightarrow> go_error option \<Rightarrow> go_error" where
  "new_write_error op cause = NFCError ErrCodeWriteFailed op [] ''write failed'' cause"

definition new_transceive_error :: "string \<Rightarrow> go_error option \<Rightarrow> go_error" where
  "new_transceive_error op cause = NFCError ErrCodeTransceiveFailed op [] ''transceive failed'' cause"

definition new_capacity_exceeded_error :: "string \<Rightarrow> string \<Rightarrow> nat \<Rightarrow> nat \<Rightarrow> go_error" where
  "new_capacity_exceeded_error op uid needed available =
     NFCError ErrCodeCapacityExceeded op uid
       (''data too large: '' @ decimal needed @ '' bytes exceeds tag NDEF capacity of ''
         @ decimal available @ '' bytes'') None"

definition new_read_only_error :: "string \<Rightarrow> string \<Rightarrow> go_error option \<Rightarrow> go_error" where
  "new_read_only_error op uid cause = NFCError ErrCodeReadOnly op uid ''tag is read-only'' cause"

definition wrap_error :: "error_code \<Rightarrow> string \<Rightarrow> string \<Rightarrow> go_error option \<Rightarrow> go_error" where
  "wrap_error code op msg cause = NFCError code op [] msg cause"

section \<open>Classifiers\<close>

text \<open>\<open>errors.As\<close> for an \<open>NFCError\<close>: the first one of the chain.\<close>

fun first_code :: "go_error list \<Rightarrow> error_code option" where
  "first_code [] = None"
| "first_code (NFCError c op uid msg cause # es) = Some c"
| "first_code (_ # es) = first_code es"

definition get_error_code :: "go_error \<Rightarrow> error_code option" where
  "get_error_code e = first_code (error_chain e)"

definition is_not_supported_error :: "go_error \<Rightarrow> bool" where
  "is_not_supported_error e \<longleftrightarrow> get_error_code e = Some ErrCodeNotSupported"

definition is_tag_removed_error :: "go_error \<Rightarrow> bool" where
  "is_tag_removed_error e \<longleftrightarrow> get_error_code e = Some ErrCodeTagRemoved"

definition is_auth_failed_error :: "go_error \<Rightarrow> bool" where
  "is_auth_failed_error e \<longleftrightarrow> get_error_code e = Some ErrCodeAuthFailed"

definition is_no_payload_error :: "go_error \<Rightarrow> bool" where
  "is_no_payload_error e \<longleftrightarrow> get_error_code e = Some ErrCodeNoPayload"

definition is_write_error :: "go_error \<Rightarrow> bool" where
  "is_write_error e \<longleftrightarrow> get_error_code e = Some ErrCodeWriteFailed"

definition is_capacity_exceeded_error :: "go_error \<Rightarrow> bool" where
  "is_capacity_exceeded_error e \<longleftrightarrow> get_error_code e = Some ErrCodeCapacityExceeded"

definition is_read_only_error :: "go_error \<Rightarrow> bool" where
  "is_read_only_error e \<longleftrightarrow> get_error_code e = Some ErrCodeReadOnly"

definition has_sentinel :: "sentinel \<Rightarrow> go_error \<Rightarrow> bool" where
  "has_sentinel s e \<longleftrightarrow> Sentinel s \<in> set (error_chain e)"

fun is_no_card :: "go_error \<Rightarrow> bool" where
  "is_no_card (NoCardError r) = True" | "is_no_card _ = False"

fun is_unsupported_tag :: "go_error \<Rightarrow> bool" where
  "is_unsupported_tag (UnsupportedTagError atr) = True" | "is_unsupported_tag _ = False"

fun is_card_removed :: "go_error \<Rightarrow> bool" where
  "is_card_removed (CardRemovedError c) = True" | "is_card_removed _ = False"

definition is_no_card_error :: "go_error \<Rightarrow> bool" where
  "is_no_card_error e \<longleftrightarrow> list_ex is_no_card (error_chain e) \<or>
     (let t = text_lower (error_text e) in
        text_contains ''no card present'' t \<or> text_contains ''no smart card'' t \<or>
        text_contains ''card is not present'' t)"

definition is_unsupported_tag_error :: "go_error \<Rightarrow> bool" where
  "is_unsupported_tag_error e \<longleftrightarrow> list_ex is_unsupported_tag (error_chain e)"

definition is_card_removed_error :: "go_error \<Rightarrow> bool" where
  "is_card_removed_error e \<longleftrightarrow> list_ex is_card_removed (error_chain e)"

definition is_timeout_error :: "go_error \<Rightarrow> bool" where
  "is_timeout_error e \<longleftrightarrow> has_sentinel ErrTimeout e \<or>
     (let t = error_text e in
        text_contains ''Operation timed out'' t \<or> text_contains ''operation timed out'' t \<or>
        text_contains ''Unable to write to USB'' t \<or> text_contains ''timeout'' t)"

definition is_device_closed_error :: "go_error \<Rightarrow> bool" where
  "is_device_closed_error e \<longleftrightarrow> has_sentinel ErrDeviceClosed e \<or>
     (let t = error_text e in text_contains ''device closed'' t \<or> text_contains ''device is closed'' t)"

definition is_io_error :: "go_error \<Rightarrow> bool" where
  "is_io_error e \<longleftrightarrow> has_sentinel ErrIO e \<or>
     (let t = error_text e in
        text_contains ''input / output error'' t \<or> text_contains ''Input/output error'' t \<or>
        text_contains ''i/o error'' t \<or> text_contains ''broken pipe'' t \<or>
        text_contains ''Operation not permitted'' t)"

definition is_device_config_error :: "go_error \<Rightarrow> bool" where
  "is_device_config_error e \<longleftrightarrow> has_sentinel ErrDeviceConfig e \<or>
     (let t = error_text e in
        text_contains ''device not configured'' t \<or> text_contains ''Device not configured'' t \<or>
        text_contains ''Unable to write to USB'' t \<or> text_contains ''RDR_to_PC_DataBlock'' t)"

definition is_acr122_error :: "go_error \<Rightarrow> bool" where
  "is_acr122_error e \<longleftrightarrow> has_sentinel ErrACR122Specific e \<or>
     (let t = error_text e in
        text_contains ''Operation not permitted'' t \<or> text_contains ''broken pipe'' t \<or>
        text_contains ''RDR_to_PC_DataBlock'' t)"

section \<open>Wrapping keeps what an error is\<close>

lemmas classifier_defs = is_not_supported_error_def is_tag_removed_error_def is_auth_failed_error_def
  is_no_payload_error_def is_write_error_def is_capacity_exceeded_error_def is_read_only_error_def
  get_error_code_def is_unsupported_tag_error_def is_card_removed_error_def

lemma code_wrapped [simp]: "get_error_code (Wrapped a e b) = get_error_code e"
  by (simp add: get_error_code_def)

lemma code_nfc [simp]: "get_error_code (NFCError c op uid msg cause) = Some c"
  by (cases cause) (simp_all add: get_error_code_def)

lemma removed_wrapped [simp]: "is_card_removed_error (Wrapped a e b) = is_card_removed_error e"
  by (simp add: is_card_removed_error_def)

lemma removed_caused [simp]:
  "is_card_removed_error (NFCError c op uid msg (Some e)) = is_card_removed_error e"
  "\<not> is_card_removed_error (NFCError c op uid msg None)"
  by (simp_all add: is_card_removed_error_def)

lemma unsupported_wrapped [simp]: "is_unsupported_tag_error (Wrapped a e b) = is_unsupported_tag_error e"
  by (simp add: is_unsupported_tag_error_def)

text \<open>
  The classifiers that also read the text hold of a wrapped error when they hold of the error,
  because the text only grows.
\<close>

lemma sentinel_wrapped [simp]: "has_sentinel s (Wrapped a e b) = has_sentinel s e"
  by (simp add: has_sentinel_def)

lemma text_wrapped: "text_contains p (error_text e) \<Longrightarrow> text_contains p (error_text (Wrapped a e b))"
  using text_contains_grows by simp

lemma lower_wrapped:
  "text_contains p (text_lower (error_text e)) \<Longrightarrow> text_contains p (text_lower (error_text (Wrapped a e b)))"
  using text_contains_grows by simp

lemma wrapped_keeps_class:
  "is_no_card_error e \<Longrightarrow> is_no_card_error (Wrapped a e b)"
  "is_timeout_error e \<Longrightarrow> is_timeout_error (Wrapped a e b)"
  "is_device_closed_error e \<Longrightarrow> is_device_closed_error (Wrapped a e b)"
  "is_io_error e \<Longrightarrow> is_io_error (Wrapped a e b)"
  "is_device_config_error e \<Longrightarrow> is_device_config_error (Wrapped a e b)"
  "is_acr122_error e \<Longrightarrow> is_acr122_error (Wrapped a e b)"
  unfolding is_no_card_error_def is_timeout_error_def is_device_closed_error_def is_io_error_def
    is_device_config_error_def is_acr122_error_def sentinel_wrapped Let_def
  by (auto simp del: error_text.simps intro: text_wrapped lower_wrapped)

end
