(* ===== verification/TagKinds.thy ===== *)
theory TagKinds
  imports Errors Apdu
begin

text \<open>
  Which tag is it and what can it do: detection from an ATR and from GET_VERSION
  (\<open>nfc/tagdetect.go\<close>, \<open>nfc/atr_caps.go\<close>), what this agent's drivers do for each kind
  (\<open>nfc/tag_profile.go\<close>, the layouts of \<open>nfc/tag_ultralight.go\<close>, \<open>NewTagForType\<close> of \<open>nfc/tag.go\<close>),
  and the capabilities of a tag and of a device (\<open>nfc/capabilities.go\<close>).
\<close>

section \<open>Kinds\<close>

datatype tag_kind =
    DetectedUnknown | DetectedClassic1K | DetectedClassic4K | DetectedMini
  | DetectedUltralight | DetectedUltralightC | DetectedUltralightEV1 | DetectedUltralightEV1_128
  | DetectedNTAG213 | DetectedNTAG215 | DetectedNTAG216
  | DetectedDESFire | DetectedDESFireEV1 | DetectedDESFireEV2 | DetectedDESFireEV3
  | DetectedISO14443_4 | DetectedNTAG424 | DetectedPlus2K | DetectedPlus4K | DetectedFeliCa

definition atr_card_names :: "nat \<Rightarrow> tag_kind option" where
  "atr_card_names n =
     (if n = 0x0001 then Some DetectedClassic1K
      else if n = 0x0002 then Some DetectedClassic4K
      else if n = 0x0003 then Some DetectedUltralight
      else if n = 0x0005 then Some DetectedUltralightC
      else if n = 0x0026 then Some DetectedMini
      else if n = 0x003B then Some DetectedFeliCa
      else if n = 0xFF20 then Some DetectedDESFire
      else None)"

section \<open>The historical bytes of an ATR\<close>

text \<open>The interface bytes: from a position, with the byte that says which of the next are present.\<close>

definition flag_count :: "byte \<Rightarrow> nat" where
  "flag_count td = (if bit td 4 then 1 else 0) + (if bit td 5 then 1 else 0) + (if bit td 6 then 1 else 0)"

function interface_walk :: "bytes \<Rightarrow> nat \<Rightarrow> byte \<Rightarrow> nat option" where
  "interface_walk atr pos td =
     (let pos = pos + flag_count td
      in if bit td 7 then if length atr \<le> pos then None else interface_walk atr (pos + 1) (atr ! pos)
         else Some pos)"
  by pat_completeness auto
termination by (relation "measure (\<lambda>(atr, pos, td). length atr - pos)") auto

declare interface_walk.simps [simp del]

definition find_historical_bytes_start :: "bytes \<Rightarrow> nat option" where
  "find_historical_bytes_start atr =
     (if length atr < 2 then None
      else if atr ! 0 \<noteq> 0x3B \<and> atr ! 0 \<noteq> 0x3F then None
      else if atr ! 1 AND 0x0F = 0 then None
      else case interface_walk atr 2 (atr ! 1) of
        None \<Rightarrow> None
      | Some pos \<Rightarrow> if length atr \<le> pos then None else Some pos)"

definition contains_iso14443_4_indicator :: "bytes \<Rightarrow> bool" where
  "contains_iso14443_4_indicator atr =
     (if length atr < 3 then False
      else let t0 = atr ! 1; pos = 2 + flag_count t0
           in bit t0 7 \<and> pos < length atr \<and> atr ! pos AND 0x0F = 0x01)"

text \<open>The PC/SC name at an index of the historical bytes, when the standard prefix stands there.\<close>

definition card_name_at :: "bytes \<Rightarrow> nat \<Rightarrow> tag_kind option" where
  "card_name_at h i =
     (if h ! i = 0x80 \<and> i + 11 < length h \<and> h ! (i + 1) = 0x4F \<and> h ! (i + 3) = 0xA0 \<and> h ! (i + 4) = 0x00 \<and>
         h ! (i + 5) = 0x00 \<and> h ! (i + 6) = 0x03 \<and> h ! (i + 7) = 0x06
      then atr_card_names (256 * unat (h ! (i + 9)) + unat (h ! (i + 10))) else None)"

fun first_some :: "('a \<Rightarrow> 'b option) \<Rightarrow> 'a list \<Rightarrow> 'b option" where
  "first_some f [] = None"
| "first_some f (x # xs) = (case f x of None \<Rightarrow> first_some f xs | Some y \<Rightarrow> Some y)"

definition detect_tag_type_from_atr :: "bytes \<Rightarrow> tag_kind" where
  "detect_tag_type_from_atr atr =
     (if length atr < 2 then DetectedUnknown
      else case find_historical_bytes_start atr of
        None \<Rightarrow> DetectedUnknown
      | Some start \<Rightarrow> let h = drop start atr
          in case first_some (card_name_at h) [0..<length h - 10] of
               Some k \<Rightarrow> k
             | None \<Rightarrow> if contains_iso14443_4_indicator atr then DetectedISO14443_4 else DetectedUnknown)"

text \<open>Compact TLV objects: the tag in the high nibble, the length in the low one.\<close>

function compact_walk :: "bytes \<Rightarrow> bool \<times> bool" where
  "compact_walk tlv =
     (case tlv of
        [] \<Rightarrow> (False, False)
      | b # rest \<Rightarrow> let n = unat (b AND 0x0F)
          in if length tlv < 1 + n then (False, False)
             else if drop_bit 4 b = 0x7 \<and> n = 3 then (tlv ! 3 AND 0x40 \<noteq> 0, True)
             else compact_walk (drop (1 + n) tlv))"
  by pat_completeness auto
termination by (relation "measure length") (auto simp: less_Suc_eq_le)

declare compact_walk.simps [simp del]

definition atr_extended_length :: "bytes \<Rightarrow> bool \<times> bool" where
  "atr_extended_length atr =
     (case find_historical_bytes_start atr of
        None \<Rightarrow> (False, False)
      | Some start \<Rightarrow>
          let hist = slice start (min (length atr) (start + unat (atr ! 1 AND 0x0F))) atr
          in if length hist < 2 then (False, False)
             else if hist ! 0 = 0x00
             then if length hist < 4 then (False, False) else compact_walk (slice 1 (length hist - 3) hist)
             else if hist ! 0 = 0x80 then compact_walk (drop 1 hist)
             else (False, False))"

section \<open>GET_VERSION\<close>

record wrapped_version =
  wvVendor :: byte
  wvProductType :: byte
  wvSubtype :: byte
  wvMajorVersion :: byte
  wvMinorVersion :: byte
  wvStorageSize :: byte
  wvProtocol :: byte

definition wrapped_version_kind :: "wrapped_version \<Rightarrow> tag_kind" where
  "wrapped_version_kind v =
     (if wvVendor v \<noteq> 0x04 then DetectedUnknown
      else if wvProductType v = 0x04
      then if wvProtocol v = 0x05 \<and> wvStorageSize v = 0x11 \<and> wvMajorVersion v = 0x30 then DetectedNTAG424
           else DetectedUnknown
      else if wvProductType v = 0x01
      then if wvMajorVersion v = 0x01 then DetectedDESFireEV1
           else if wvMajorVersion v = 0x12 then DetectedDESFireEV2
           else if wvMajorVersion v = 0x33 then DetectedDESFireEV3
           else DetectedDESFire
      else DetectedUnknown)"

definition version_memory_size :: "wrapped_version \<Rightarrow> nat" where
  "version_memory_size v =
     (let e = unat (drop_bit 1 (wvStorageSize v)) in if e < 1 \<or> 30 < e then 0 else 2 ^ e)"

definition parse_wrapped_version :: "bytes \<Rightarrow> wrapped_version option" where
  "parse_wrapped_version raw =
     (case parse_apdu_response raw of
        None \<Rightarrow> None
      | Some r \<Rightarrow>
          let wrapped = arSW1 r = 0x91 \<and> (arSW2 r = 0xAF \<or> arSW2 r = 0x00); d = arData r
          in if \<not> wrapped \<and> \<not> is_success r then None
             else if length d < 7 then None
             else Some \<lparr>wvVendor = d ! 0, wvProductType = d ! 1, wvSubtype = d ! 2, wvMajorVersion = d ! 3,
                        wvMinorVersion = d ! 4, wvStorageSize = d ! 5, wvProtocol = d ! 6\<rparr>)"

definition parse_get_version_response :: "bytes \<Rightarrow> tag_kind" where
  "parse_get_version_response r =
     (if length r < 8 then DetectedUnknown
      else if r ! 1 \<noteq> 0x04 then DetectedUnknown
      else if r ! 2 = 0x03
      then if r ! 6 = 0x0E then DetectedUltralightEV1_128 else DetectedUltralightEV1
      else if r ! 2 = 0x04
      then if r ! 7 = 0x05 then if r ! 6 = 0x11 then DetectedNTAG424 else DetectedUnknown
           else if r ! 6 = 0x0F then DetectedNTAG213
           else if r ! 6 = 0x11 then DetectedNTAG215
           else if r ! 6 = 0x13 then DetectedNTAG216
           else DetectedNTAG215
      else DetectedUnknown)"

definition parse_wrapped_get_version_response :: "bytes \<Rightarrow> tag_kind \<times> bool" where
  "parse_wrapped_get_version_response raw =
     (case parse_wrapped_version raw of
        None \<Rightarrow> (DetectedUnknown, False)
      | Some v \<Rightarrow> let k = wrapped_version_kind v in (k, k \<noteq> DetectedUnknown))"

section \<open>What the drivers do\<close>

record ultralight_layout =
  ulEndPage :: byte
  ulWritablePages :: nat
  ulDynamicLockPage :: byte
  ulLockable :: bool

definition ultralight_layout_for :: "tag_kind \<Rightarrow> ultralight_layout" where
  "ultralight_layout_for k =
     (if k = DetectedUltralightC
      then \<lparr>ulEndPage = 48, ulWritablePages = 36, ulDynamicLockPage = 0x28, ulLockable = True\<rparr>
      else if k = DetectedUltralightEV1_128
      then \<lparr>ulEndPage = 36, ulWritablePages = 32, ulDynamicLockPage = 0, ulLockable = False\<rparr>
      else \<lparr>ulEndPage = 16, ulWritablePages = 12, ulDynamicLockPage = 0, ulLockable = True\<rparr>)"

record tag_profile =
  tpName :: string
  tpNumericType :: int
  tpFamily :: string
  tpTechnology :: string
  tpMemorySize :: nat
  tpMaxNDEFSize :: nat
  tpCanWrite :: bool
  tpCanLock :: bool
  tpCanTransceive :: bool
  tpSupportsNDEF :: bool
  tpSupportsCrypto :: bool
  tpSupportsAuthentication :: bool
  tpSupportsPassword :: bool

record tag_caps =
  capCanRead :: bool
  capCanWrite :: bool
  capCanTransceive :: bool
  capSnapshot :: bool
  capCanLock :: bool
  capIsReadOnly :: bool
  capMemorySize :: nat
  capMaxNDEF :: nat
  capTechnology :: string
  capTagFamily :: string
  capNDEF :: bool
  capCrypto :: bool
  capAuthentication :: bool
  capPassword :: bool
  capSDMEnabled :: bool
  capKeyNumbers :: "nat list"
  capRandomUID :: bool
  capLRPMode :: bool

definition profile_capabilities :: "tag_profile \<Rightarrow> tag_caps" where
  "profile_capabilities p =
     \<lparr>capCanRead = True, capCanWrite = tpCanWrite p, capCanTransceive = tpCanTransceive p, capSnapshot = False,
      capCanLock = tpCanLock p, capIsReadOnly = False, capMemorySize = tpMemorySize p, capMaxNDEF = tpMaxNDEFSize p,
      capTechnology = tpTechnology p, capTagFamily = tpFamily p, capNDEF = tpSupportsNDEF p,
      capCrypto = tpSupportsCrypto p, capAuthentication = tpSupportsAuthentication p,
      capPassword = tpSupportsPassword p, capSDMEnabled = False, capKeyNumbers = [], capRandomUID = False,
      capLRPMode = False\<rparr>"

definition no_profile :: tag_profile where
  "no_profile =
     \<lparr>tpName = [], tpNumericType = 0, tpFamily = [], tpTechnology = [], tpMemorySize = 0, tpMaxNDEFSize = 0,
      tpCanWrite = False, tpCanLock = False, tpCanTransceive = False, tpSupportsNDEF = False,
      tpSupportsCrypto = False, tpSupportsAuthentication = False, tpSupportsPassword = False\<rparr>"

definition ultralight_profile :: "string \<Rightarrow> tag_kind \<Rightarrow> nat \<Rightarrow> nat \<Rightarrow> bool \<Rightarrow> tag_profile" where
  "ultralight_profile name k mem ndef crypto =
     no_profile\<lparr>tpName := name, tpNumericType := 0x00, tpFamily := ''MIFARE Ultralight'', tpTechnology := ''ISO14443A'',
       tpMemorySize := mem, tpMaxNDEFSize := ndef, tpCanWrite := True, tpCanLock := ulLockable (ultralight_layout_for k),
       tpSupportsNDEF := True, tpSupportsCrypto := crypto, tpSupportsAuthentication := crypto\<rparr>"

definition classic_profile :: "string \<Rightarrow> nat \<Rightarrow> nat \<Rightarrow> tag_profile" where
  "classic_profile name mem ndef =
     no_profile\<lparr>tpName := name, tpNumericType := 0x08, tpFamily := ''MIFARE Classic'', tpTechnology := ''ISO14443A'',
       tpMemorySize := mem, tpMaxNDEFSize := ndef, tpCanWrite := True, tpSupportsNDEF := True,
       tpSupportsCrypto := True, tpSupportsAuthentication := True\<rparr>"

definition ntag_profile :: "string \<Rightarrow> nat \<Rightarrow> nat \<Rightarrow> tag_profile" where
  "ntag_profile name mem ndef =
     no_profile\<lparr>tpName := name, tpNumericType := 0x00, tpFamily := ''NTAG'', tpTechnology := ''ISO14443A'',
       tpMemorySize := mem, tpMaxNDEFSize := ndef, tpCanWrite := True, tpCanLock := True, tpSupportsNDEF := True,
       tpSupportsPassword := True\<rparr>"

definition desfire_profile :: "string \<Rightarrow> tag_profile" where
  "desfire_profile family =
     no_profile\<lparr>tpName := ''DESFire'', tpNumericType := 0x20, tpFamily := family, tpTechnology := ''ISO14443A'',
       tpCanWrite := True, tpCanLock := True, tpCanTransceive := True, tpSupportsNDEF := True,
       tpSupportsCrypto := True, tpSupportsAuthentication := True\<rparr>"

fun profile_for :: "tag_kind \<Rightarrow> tag_profile option" where
  "profile_for DetectedClassic1K = Some (classic_profile ''MIFARE Classic 1K'' 1024 716)"
| "profile_for DetectedClassic4K = Some ((classic_profile ''MIFARE Classic 4K'' 4096 3356)\<lparr>tpNumericType := 0x18\<rparr>)"
| "profile_for DetectedUltralight = Some (ultralight_profile ''MIFARE Ultralight'' DetectedUltralight 64 46 False)"
| "profile_for DetectedUltralightC = Some (ultralight_profile ''MIFARE Ultralight'' DetectedUltralightC 192 137 True)"
| "profile_for DetectedUltralightEV1 = Some (ultralight_profile ''MIFARE Ultralight'' DetectedUltralightEV1 80 46 False)"
| "profile_for DetectedUltralightEV1_128 =
     Some (ultralight_profile ''MIFARE Ultralight'' DetectedUltralightEV1_128 164 126 False)"
| "profile_for DetectedNTAG213 = Some (ntag_profile ''NTAG213'' 180 144)"
| "profile_for DetectedNTAG215 = Some (ntag_profile ''NTAG215'' 540 504)"
| "profile_for DetectedNTAG216 = Some (ntag_profile ''NTAG216'' 924 888)"
| "profile_for DetectedDESFire = Some (desfire_profile ''DESFire'')"
| "profile_for DetectedDESFireEV1 = Some (desfire_profile ''DESFire EV1'')"
| "profile_for DetectedDESFireEV2 = Some (desfire_profile ''DESFire EV2'')"
| "profile_for DetectedDESFireEV3 = Some (desfire_profile ''DESFire EV3'')"
| "profile_for DetectedNTAG424 = Some (no_profile
     \<lparr>tpName := ''NTAG424'', tpNumericType := 0x20, tpFamily := ''NTAG'', tpTechnology := ''ISO14443A'',
      tpMemorySize := 416, tpMaxNDEFSize := 254, tpCanWrite := True, tpSupportsNDEF := True,
      tpCanTransceive := True, tpSupportsCrypto := True, tpSupportsAuthentication := True\<rparr>)"
| "profile_for DetectedFeliCa = Some (no_profile
     \<lparr>tpName := ''FeliCa'', tpNumericType := -1, tpFamily := ''FeliCa'', tpTechnology := ''ISO18092''\<rparr>)"
| "profile_for DetectedISO14443_4 = Some (no_profile
     \<lparr>tpName := ''Type4'', tpNumericType := 0x20, tpFamily := ''Type 4'', tpTechnology := ''ISO14443A/B'',
      tpCanWrite := True, tpSupportsNDEF := True, tpCanTransceive := True\<rparr>)"
| "profile_for _ = None"

text \<open>\<open>NewTagForType\<close>: which driver is built, if any.\<close>

datatype tag_driver = ClassicDriver | UltralightDriver | NtagDriver | DESFireDriver | Ntag424Driver | FeliCaDriver | Type4Driver

fun new_tag_for_type :: "tag_kind \<Rightarrow> tag_driver option" where
  "new_tag_for_type DetectedClassic1K = Some ClassicDriver" | "new_tag_for_type DetectedClassic4K = Some ClassicDriver"
| "new_tag_for_type DetectedUltralight = Some UltralightDriver" | "new_tag_for_type DetectedUltralightC = Some UltralightDriver"
| "new_tag_for_type DetectedUltralightEV1 = Some UltralightDriver"
| "new_tag_for_type DetectedUltralightEV1_128 = Some UltralightDriver"
| "new_tag_for_type DetectedNTAG213 = Some NtagDriver" | "new_tag_for_type DetectedNTAG215 = Some NtagDriver"
| "new_tag_for_type DetectedNTAG216 = Some NtagDriver"
| "new_tag_for_type DetectedDESFire = Some DESFireDriver" | "new_tag_for_type DetectedDESFireEV1 = Some DESFireDriver"
| "new_tag_for_type DetectedDESFireEV2 = Some DESFireDriver" | "new_tag_for_type DetectedDESFireEV3 = Some DESFireDriver"
| "new_tag_for_type DetectedNTAG424 = Some Ntag424Driver"
| "new_tag_for_type DetectedFeliCa = Some FeliCaDriver"
| "new_tag_for_type DetectedISO14443_4 = Some Type4Driver"
| "new_tag_for_type _ = None"

lemma profile_iff_driver: "profile_for k = None \<longleftrightarrow> new_tag_for_type k = None"
  by (cases k) simp_all

section \<open>Capabilities from a name, and of a device\<close>

definition infer_tag_capabilities :: "string \<Rightarrow> tag_caps" where
  "infer_tag_capabilities ty =
     (let t = text_lower ty; c = (profile_capabilities no_profile)\<lparr>capNDEF := True\<rparr>
      in if text_contains ''mifare classic'' t \<or> text_contains ''classic'' t
         then let c = c\<lparr>capCanWrite := True, capTagFamily := ''MIFARE Classic'', capTechnology := ''ISO14443A'',
                        capCrypto := True, capAuthentication := True\<rparr>
              in if text_contains ''1k'' t then c\<lparr>capMemorySize := 1024, capMaxNDEF := 716\<rparr>
                 else if text_contains ''4k'' t then c\<lparr>capMemorySize := 4096, capMaxNDEF := 3356\<rparr> else c
         else if text_contains ''felica'' t
         then c\<lparr>capNDEF := False, capTagFamily := ''FeliCa'', capTechnology := ''ISO18092''\<rparr>
         else if text_contains ''desfire'' t
         then c\<lparr>capCanWrite := True, capTagFamily := ''DESFire'', capTechnology := ''ISO14443A'', capCrypto := True,
                capAuthentication := True, capMemorySize := 8192\<rparr>
         else if text_contains ''ultralight'' t
         then let c = c\<lparr>capCanWrite := True, capCanLock := True, capTagFamily := ''MIFARE Ultralight'',
                        capTechnology := ''ISO14443A''\<rparr>
              in if text_contains ''c'' t then c\<lparr>capMemorySize := 192, capMaxNDEF := 137, capCrypto := True\<rparr>
                 else c\<lparr>capMemorySize := 64, capMaxNDEF := 46\<rparr>
         else if text_contains ''ntag424'' t \<or> text_contains ''ntag 424'' t
         then c\<lparr>capCanWrite := True, capCanTransceive := True, capTagFamily := ''NTAG'', capTechnology := ''ISO14443A'',
                capMemorySize := 416, capMaxNDEF := 254, capCrypto := True, capAuthentication := True\<rparr>
         else if text_contains ''ntag2'' t \<or> t = ''ntag'' \<or> prefix ''ntag '' t
         then let c = c\<lparr>capCanWrite := True, capCanLock := True, capPassword := True, capTagFamily := ''NTAG'',
                        capTechnology := ''ISO14443A''\<rparr>
              in if text_contains ''213'' t then c\<lparr>capMemorySize := 180, capMaxNDEF := 144\<rparr>
                 else if text_contains ''215'' t then c\<lparr>capMemorySize := 540, capMaxNDEF := 504\<rparr>
                 else if text_contains ''216'' t then c\<lparr>capMemorySize := 924, capMaxNDEF := 888\<rparr> else c
         else if text_contains ''type4'' t \<or> text_contains ''iso14443'' t
         then c\<lparr>capCanWrite := True, capCanTransceive := True, capTagFamily := ''Type 4'', capTechnology := ''ISO14443A/B''\<rparr>
         else c\<lparr>capTagFamily := ''Unknown''\<rparr>)"

text \<open>A device as the optional interfaces it implements.\<close>

record device_interfaces =
  diInfo :: "(string \<times> string list) option"
  diEvents :: "bool option"
  diTransceive :: "bool option"
  diTransceiveRaw :: "bool option"

record device_caps =
  dcCanTransceive :: bool
  dcCanPoll :: bool
  dcCanTransceiveRaw :: bool
  dcSupportedTagTypes :: "string list"
  dcDeviceType :: string
  dcSupportsEvents :: bool

definition build_device_capabilities :: "device_interfaces \<Rightarrow> device_caps" where
  "build_device_capabilities d =
     (let c = \<lparr>dcCanTransceive = True, dcCanPoll = True, dcCanTransceiveRaw = False, dcSupportedTagTypes = [],
               dcDeviceType = ''unknown'', dcSupportsEvents = False\<rparr>;
          c = (case diInfo d of None \<Rightarrow> c | Some (ty, tags) \<Rightarrow> c\<lparr>dcDeviceType := ty, dcSupportedTagTypes := tags\<rparr>);
          c = (if diEvents d = Some True then c\<lparr>dcSupportsEvents := True, dcCanPoll := False\<rparr> else c);
          c = (case diTransceive d of None \<Rightarrow> c | Some b \<Rightarrow> c\<lparr>dcCanTransceive := b\<rparr>)
      in case diTransceiveRaw d of None \<Rightarrow> c | Some b \<Rightarrow> c\<lparr>dcCanTransceiveRaw := b\<rparr>)"

section \<open>Facts\<close>

text \<open>A card that names itself in the standard form is recognised by that name.\<close>

lemma named_atr_detected:
  assumes "atr_card_names (256 * unat n1 + unat n0) = Some k"
  shows "detect_tag_type_from_atr
    [0x3B, 0x8F, 0x80, 0x01, 0x80, 0x4F, 0x0C, 0xA0, 0x00, 0x00, 0x03, 0x06, std, n1, n0, 0x00, 0x00, 0x00, 0x00, tck] = k"
proof -
  let ?a = "[0x3B, 0x8F, 0x80, 0x01, 0x80, 0x4F, 0x0C, 0xA0, 0x00, 0x00, 0x03, 0x06, std, n1, n0, 0x00, 0x00, 0x00, 0x00, tck]"
  have "find_historical_bytes_start ?a = Some 4"
    by (simp add: find_historical_bytes_start_def interface_walk.simps flag_count_def Let_def)
  then show ?thesis using assms
    by (simp add: detect_tag_type_from_atr_def card_name_at_def Let_def upt_rec)
qed

text \<open>The first frame of GET_VERSION, built from a version, is read back as that version.\<close>

lemma wrapped_version_roundtrip:
  "parse_wrapped_version ([wvVendor v, wvProductType v, wvSubtype v, wvMajorVersion v, wvMinorVersion v,
     wvStorageSize v, wvProtocol v, 0x91, 0xAF]) = Some v"
  by (simp add: parse_wrapped_version_def parse_apdu_response_def Let_def)

end
