(* ===== verification/CardWrite.thy ===== *)
theory CardWrite
  imports Ndef TagKinds Commands
begin

text \<open>
  Cards and confirmed writes: the tag interface of \<open>nfc/tag.go\<close>, \<open>Card\<close> of \<open>nfc/card.go\<close>, and the
  write path that every tag shares, \<open>writeMessageToCard\<close> and its parts in \<open>nfc/reader.go\<close> with
  \<open>WriteMessage\<close> of \<open>nfc/write_and_lock.go\<close>. A tag is a value of the Go interface: a record of its
  methods on a world of its own. The optional interfaces a tag may implement are options. Time
  stamps and log lines are left out.
\<close>

section \<open>The tag interface\<close>

record 's tag =
  tgUID :: "'s \<Rightarrow> string"
  tgType :: string
  tgCaps :: "'s \<Rightarrow> tag_caps"
  tgRead :: "'s \<Rightarrow> (go_error + bytes) \<times> 's"
  tgWrite :: "bytes \<Rightarrow> 's \<Rightarrow> (go_error + unit) \<times> 's"
  tgLock :: "'s \<Rightarrow> (go_error + unit) \<times> 's"
  tgTransceive :: "bytes \<Rightarrow> 's \<Rightarrow> (go_error + bytes) \<times> 's"
  tgAliases :: "('s \<Rightarrow> string list) option"
  tgResolve :: "('s \<Rightarrow> 's) option"
  tgClassicKeys :: "(bytes list \<Rightarrow> 's \<Rightarrow> 's) option"
  tgDESFireKeys :: "((byte \<times> bytes) list \<Rightarrow> 's \<Rightarrow> 's) option"
  tgNTAG424Keys :: "(key_set \<Rightarrow> 's \<Rightarrow> 's) option"
  tgWriteInit :: "(bytes \<Rightarrow> bool \<Rightarrow> 's \<Rightarrow> (go_error + unit) \<times> 's) option"
  tgWriteLock :: "(bytes \<Rightarrow> 's \<Rightarrow> (go_error + unit) \<times> 's) option"
  tgTransceiveRaw :: "(bytes \<Rightarrow> 's \<Rightarrow> (go_error + bytes) \<times> 's) option"

section \<open>Cards\<close>

datatype message = NdefMessage "ndef_record list" | TextMessage bytes

record 's card =
  cUID :: string
  cType :: string
  cTechnology :: string
  cTag :: "'s tag"
  cHasRead :: bool
  cBuffer :: bytes
  cOffset :: nat
  cMessage :: "message option"
  cNoPayload :: bool
  cWriteBuffer :: bytes

definition infer_technology :: "string \<Rightarrow> string" where
  "infer_technology ty =
     (let t = text_lower ty
      in if text_contains ''mifare'' t \<or> text_contains ''ntag'' t \<or> text_contains ''desfire'' t then ''ISO14443A''
         else if text_contains ''type4'' t then ''ISO14443A/B''
         else if text_contains ''felica'' t then ''ISO18092''
         else if text_contains ''iso15693'' t then ''ISO15693''
         else ''Unknown'')"

definition tag_technology :: "'s tag \<Rightarrow> 's \<Rightarrow> string" where
  "tag_technology g s =
     (if capTechnology (tgCaps g s) \<noteq> [] then capTechnology (tgCaps g s) else infer_technology (tgType g))"

definition new_card :: "'s tag \<Rightarrow> 's \<Rightarrow> 's card" where
  "new_card g s =
     \<lparr>cUID = tgUID g s, cType = tgType g, cTechnology = tag_technology g s, cTag = g, cHasRead = False,
      cBuffer = [], cOffset = 0, cMessage = None, cNoPayload = False, cWriteBuffer = []\<rparr>"

definition card_reset :: "'s card \<Rightarrow> 's card" where
  "card_reset c = c\<lparr>cHasRead := False, cBuffer := [], cOffset := 0, cNoPayload := False\<rparr>"

text \<open>\<open>Read\<close>: the first call fetches the message, each call hands out the next part of it.\<close>

definition card_fetch :: "'s card \<Rightarrow> 's \<Rightarrow> go_error option \<times> 's card \<times> 's" where
  "card_fetch c s =
     (if cHasRead c then (None, c, s)
      else case tgRead (cTag c) s of
        (Inl e, s') \<Rightarrow> (Some (Wrapped (''failed to read from card '' @ cUID c @ '': '') e []), c\<lparr>cBuffer := []\<rparr>, s')
      | (Inr d, s') \<Rightarrow> (None, c\<lparr>cBuffer := d, cHasRead := True, cOffset := 0\<rparr>, s'))"

datatype read_outcome = ReadBytes bytes | ReadEOF | ReadFailed go_error

definition card_read :: "nat \<Rightarrow> 's card \<Rightarrow> 's \<Rightarrow> read_outcome \<times> 's card \<times> 's" where
  "card_read n c s =
     (case card_fetch c s of
        (Some e, c', s') \<Rightarrow> (ReadFailed e, c', s')
      | (None, c', s') \<Rightarrow>
          if length (cBuffer c') \<le> cOffset c' then (ReadEOF, c', s')
          else let part = take n (drop (cOffset c') (cBuffer c'))
               in (ReadBytes part, c'\<lparr>cOffset := cOffset c' + length part\<rparr>, s'))"

text \<open>\<open>io.ReadAll\<close>, with a buffer that always has room: reads to the end or the first error.\<close>

fun read_all_fuel :: "nat \<Rightarrow> nat \<Rightarrow> bytes \<Rightarrow> 's card \<Rightarrow> 's \<Rightarrow> ((go_error + bytes) \<times> 's card \<times> 's) option" where
  "read_all_fuel 0 n out c s = None"
| "read_all_fuel (Suc fuel) n out c s =
     (case card_read n c s of
        (ReadFailed e, c', s') \<Rightarrow> Some (Inl e, c', s')
      | (ReadEOF, c', s') \<Rightarrow> Some (Inr out, c', s')
      | (ReadBytes b, c', s') \<Rightarrow> read_all_fuel fuel n (out @ b) c' s')"

definition read_all :: "'s card \<Rightarrow> 's \<Rightarrow> (go_error + bytes) \<times> 's card \<times> 's" where
  "read_all c s =
     (case card_fetch c s of
        (Some e, c', s') \<Rightarrow> (Inl e, c', s')
      | (None, c', s') \<Rightarrow> (Inr (drop (cOffset c') (cBuffer c')),
          c'\<lparr>cOffset := max (cOffset c') (length (cBuffer c'))\<rparr>, s'))"

definition card_read_message :: "'s card \<Rightarrow> 's \<Rightarrow> (go_error + message) \<times> 's card \<times> 's" where
  "card_read_message c s =
     (case cMessage c of
        Some m \<Rightarrow> (Inr m, c, s)
      | None \<Rightarrow>
          if cNoPayload c then (Inl (new_no_payload_error ''ReadMessage'' (cUID c) None), c, s)
          else if \<not> capNDEF (tgCaps (cTag c) s)
          then (Inl (new_no_payload_error ''ReadMessage'' (cUID c) None), c\<lparr>cNoPayload := True\<rparr>, s)
          else case read_all c s of
            (Inl e, c', s') \<Rightarrow> (Inl e, if is_no_payload_error e then c'\<lparr>cNoPayload := True\<rparr> else c', s')
          | (Inr d, c', s') \<Rightarrow>
              let m = (case parse_ndef_records d of Inr rs \<Rightarrow> NdefMessage rs | Inl e \<Rightarrow> TextMessage d)
              in (Inr m, c'\<lparr>cMessage := Some m\<rparr>, s'))"

text \<open>The writer half of a card: a buffer that \<open>Flush\<close> and \<open>Close\<close> put on the tag.\<close>

definition card_write :: "bytes \<Rightarrow> 's card \<Rightarrow> 's card" where
  "card_write p c = c\<lparr>cWriteBuffer := cWriteBuffer c @ p\<rparr>"

definition card_flush :: "'s card \<Rightarrow> 's \<Rightarrow> (go_error + unit) \<times> 's card \<times> 's" where
  "card_flush c s =
     (if cWriteBuffer c = [] then (Inr (), c, s)
      else case tgWrite (cTag c) (cWriteBuffer c) s of
        (Inl e, s') \<Rightarrow> (Inl (Wrapped (''failed to write to card '' @ cUID c @ '': '') e []), c, s')
      | (Inr u, s') \<Rightarrow> (Inr (), c\<lparr>cWriteBuffer := []\<rparr>, s'))"

definition encode_message :: "message \<Rightarrow> go_error + bytes" where
  "encode_message m = (case m of
     TextMessage d \<Rightarrow> Inr d
   | NdefMessage rs \<Rightarrow>
       if rs = [] then Inl (PlainError ''cannot encode empty NDEF message'')
       else mapErr (\<lambda>_. PlainError ''cannot encode empty record list'') (encode_ndef_records rs))"

definition card_write_message :: "message \<Rightarrow> 's card \<Rightarrow> 's \<Rightarrow> (go_error + unit) \<times> 's card \<times> 's" where
  "card_write_message m c s =
     (case encode_message m of
        Inl e \<Rightarrow> (Inl (Wrapped ''failed to encode message: '' e []), c, s)
      | Inr d \<Rightarrow> card_flush (card_write d c) s)"

section \<open>Confirmed writes\<close>

record write_options =
  woOverwrite :: bool
  woIndex :: int
  woForceInit :: bool
  woExpectUID :: string
  woSkipVerify :: bool
  woMaxAttempts :: int
  woSkipCapacity :: bool
  woLock :: bool

record write_result =
  wrUID :: string
  wrType :: string
  wrBytes :: nat
  wrVerified :: bool
  wrAttempts :: nat
  wrLocked :: bool

definition default_max_write_attempts :: nat where "default_max_write_attempts = 3"

definition is_permanent_write_error :: "go_error \<Rightarrow> bool" where
  "is_permanent_write_error e \<longleftrightarrow> is_card_removed_error e \<or> is_read_only_error e \<or>
     is_capacity_exceeded_error e \<or> is_not_supported_error e"

definition check_write_capacity :: "'s tag \<Rightarrow> nat \<Rightarrow> 's \<Rightarrow> go_error option" where
  "check_write_capacity g n s =
     (let m = capMaxNDEF (tgCaps g s)
      in if 0 < m \<and> m < n then Some (new_capacity_exceeded_error ''WriteMessage'' (tgUID g s) n m) else None)"

text \<open>Replacing one record, or appending, among the records the builders can express.\<close>

definition merge_records :: "int \<Rightarrow> ndef_builder list \<Rightarrow> ndef_builder list \<Rightarrow> ndef_builder list" where
  "merge_records index cached new =
     (if index \<le> -1 \<or> int (length cached) \<le> index then cached @ new
      else if 0 < length new then cached[nat index := new ! 0] else cached)"

definition resolve_write_message ::
    "'s card \<Rightarrow> ndef_record list \<Rightarrow> write_options \<Rightarrow> 's \<Rightarrow> (go_error + ndef_record list) \<times> 's card \<times> 's" where
  "resolve_write_message c msg opts s =
     (let (r, c', s') = card_read_message c s
      in case r of
           Inr (NdefMessage (rec # recs)) \<Rightarrow>
             if woOverwrite opts then (Inr msg, c', s')
             else (case build_message (merge_records (woIndex opts) (to_builder (rec # recs)) (to_builder msg)) of
                 Inl e \<Rightarrow> (Inl (Wrapped (''resolveWriteMessage (UID: '' @ cUID c @ ''): failed to build merged message: '')
                     (PlainError ''cannot build empty NDEF message (no records provided)'') []), c', s')
               | Inr rs \<Rightarrow> (Inr rs, c', s'))
         | _ \<Rightarrow> (Inr msg, c', s'))"

definition write_once ::
    "'s card \<Rightarrow> bytes \<Rightarrow> write_options \<Rightarrow> 's \<Rightarrow> (go_error + bool) \<times> 's card \<times> 's" where
  "write_once c data opts s =
     (let c = card_reset c;
          done = (\<lambda>locked (r, s'). (case r of Inl e \<Rightarrow> Inl e | Inr u \<Rightarrow> Inr locked, c, s'))
      in case (if woForceInit opts then tgWriteInit (cTag c) else None) of
           Some w \<Rightarrow> done False (w data True s)
         | None \<Rightarrow>
             (case (if woLock opts then tgWriteLock (cTag c) else None) of
                Some w \<Rightarrow> done True (w data s)
              | None \<Rightarrow> done False (tgWrite (cTag c) data s)))"

definition verify_write :: "'s card \<Rightarrow> bytes \<Rightarrow> 's \<Rightarrow> (go_error + bool) \<times> 's card \<times> 's" where
  "verify_write c expected s =
     (let c = card_reset c
      in case tgRead (cTag c) s of
           (Inl e, s') \<Rightarrow> (Inl e, c, s')
         | (Inr d, s') \<Rightarrow> (Inr (d = expected), c, s'))"

definition new_write_result :: "'s card \<Rightarrow> nat \<Rightarrow> bool \<Rightarrow> nat \<Rightarrow> bool \<Rightarrow> write_result" where
  "new_write_result c n verified attempts locked =
     \<lparr>wrUID = cUID c, wrType = cType c, wrBytes = n, wrVerified = verified, wrAttempts = attempts, wrLocked = locked\<rparr>"

text \<open>
  The attempts of \<open>writeMessageToCard\<close>: how many are left, the number of the next and the last
  error. The sleep before a retry is an argument.
\<close>

fun write_attempts ::
    "(nat \<Rightarrow> 's \<Rightarrow> 's) \<Rightarrow> bytes \<Rightarrow> write_options \<Rightarrow> bool \<Rightarrow> nat \<Rightarrow> nat \<Rightarrow> go_error \<Rightarrow> 's card \<Rightarrow> 's
      \<Rightarrow> (go_error + write_result) \<times> 's card \<times> 's" where
  "write_attempts sleep data opts verify 0 attempt lastErr c s =
     (Inl (new_write_error (''writeMessageToCard (UID: '' @ cUID c @ '')'')
        (Some (Wrapped (''failed after '' @ decimal (attempt - 1) @ '' attempt(s): '') lastErr []))), c, s)"
| "write_attempts sleep data opts verify (Suc left) attempt lastErr c s =
     (let s = (if 1 < attempt then sleep ((attempt - 1) * 50) s else s)
      in case write_once c data opts s of
           (Inl e, c', s') \<Rightarrow>
             if is_permanent_write_error e then (Inl e, c', s')
             else write_attempts sleep data opts verify left (attempt + 1) e c' s'
         | (Inr locked, c', s') \<Rightarrow>
             if \<not> verify then (Inr (new_write_result c' (length data) False attempt locked), c', s')
             else (case verify_write c' data s' of
                 (Inl e, c'', s'') \<Rightarrow>
                   if is_permanent_write_error e then (Inl e, c'', s'')
                   else write_attempts sleep data opts verify left (attempt + 1)
                          (Wrapped ''verification read failed: '' e []) c'' s''
               | (Inr True, c'', s'') \<Rightarrow> (Inr (new_write_result c'' (length data) True attempt locked), c'', s'')
               | (Inr False, c'', s'') \<Rightarrow>
                   write_attempts sleep data opts verify left (attempt + 1)
                     (PlainError ''write verification mismatch: data read back does not match data written'') c'' s''))"

definition write_attempt_limit :: "write_options \<Rightarrow> nat" where
  "write_attempt_limit opts = (if woMaxAttempts opts \<le> 0 then default_max_write_attempts else nat (woMaxAttempts opts))"

definition verifies :: "write_options \<Rightarrow> 's tag \<Rightarrow> 's \<Rightarrow> bool" where
  "verifies opts g s \<longleftrightarrow> \<not> woSkipVerify opts \<and> \<not> capSnapshot (tgCaps g s)"

definition write_message_to_card ::
    "(nat \<Rightarrow> 's \<Rightarrow> 's) \<Rightarrow> 's card \<Rightarrow> ndef_record list \<Rightarrow> write_options \<Rightarrow> 's
      \<Rightarrow> (go_error + write_result) \<times> 's card \<times> 's" where
  "write_message_to_card sleep c msg opts s =
     (case resolve_write_message c msg opts s of
        (Inl e, c', s') \<Rightarrow> (Inl e, c', s')
      | (Inr final, c', s') \<Rightarrow>
          (case encode_message (NdefMessage final) of
             Inl e \<Rightarrow> (Inl (Wrapped (''writeMessageToCard (UID: '' @ cUID c @ ''): error encoding message: '') e []), c', s')
           | Inr data \<Rightarrow>
               (case (if woSkipCapacity opts then None else check_write_capacity (cTag c) (length data) s') of
                  Some e \<Rightarrow> (Inl e, c', s')
                | None \<Rightarrow> write_attempts sleep data opts (verifies opts (cTag c) s') (write_attempt_limit opts) 1
                    (PlainError ''unknown write failure'') c' s')))"

record lock_result =
  lrUID :: string
  lrType :: string
  lrLocked :: bool

definition lock_card :: "'s card \<Rightarrow> 's \<Rightarrow> (go_error + lock_result) \<times> 's" where
  "lock_card c s =
     (case tgLock (cTag c) s of
        (Inl e, s') \<Rightarrow>
          (Inl (if is_card_removed_error e \<or> is_not_supported_error e then e
                else new_write_error (''lockCard (UID: '' @ cUID c @ '')'') (Some e)), s')
      | (Inr u, s') \<Rightarrow> (Inr \<lparr>lrUID = cUID c, lrType = cType c, lrLocked = True\<rparr>, s'))"

definition write_message ::
    "(nat \<Rightarrow> 's \<Rightarrow> 's) \<Rightarrow> 's card \<Rightarrow> ndef_record list \<Rightarrow> write_options \<Rightarrow> 's
      \<Rightarrow> (go_error + write_result) \<times> 's card \<times> 's" where
  "write_message sleep c msg opts s =
     (case write_message_to_card sleep c msg opts s of
        (Inl e, c', s') \<Rightarrow> (Inl e, c', s')
      | (Inr res, c', s') \<Rightarrow>
          if woLock opts \<and> \<not> wrLocked res
          then (case lock_card c' s' of
              (Inl e, s'') \<Rightarrow> (Inl (Wrapped (''write to card UID '' @ cUID c @ '' succeeded but lock failed: '') e []), c', s'')
            | (Inr l, s'') \<Rightarrow> (Inr (res\<lparr>wrLocked := True\<rparr>), c', s''))
          else (Inr res, c', s'))"

section \<open>Facts about cards\<close>

lemma card_fetch_tag:
  "card_fetch c s = (r, c', s') \<Longrightarrow> cTag c' = cTag c \<and> cUID c' = cUID c \<and> cType c' = cType c \<and> cMessage c' = cMessage c"
  by (auto simp: card_fetch_def split: if_splits prod.splits sum.splits)

lemma card_fetch_again: "card_fetch c s = (None, c', s') \<Longrightarrow> cHasRead c'"
  by (auto simp: card_fetch_def split: if_splits prod.splits sum.splits)

lemma new_card_fields [simp]:
  "cTag (new_card g s) = g" "cUID (new_card g s) = tgUID g s" "cType (new_card g s) = tgType g"
  by (simp_all add: new_card_def)

text \<open>Reading piece by piece, in pieces of any size, gives what one read of the whole gives.\<close>

lemma take_drop_length: "take n xs @ drop (length (take n xs)) xs = xs"
  by (cases "n \<le> length xs") simp_all

lemma read_rest_fuel:
  assumes "0 < n" "cHasRead c" "length (cBuffer c) - cOffset c < fuel"
  shows "read_all_fuel fuel n out c s = Some (Inr (out @ drop (cOffset c) (cBuffer c)),
    c\<lparr>cOffset := max (cOffset c) (length (cBuffer c))\<rparr>, s)"
  using assms
proof (induction fuel arbitrary: out c)
  case (Suc fuel)
  have f: "card_fetch c s = (None, c, s)" using Suc.prems(2) by (simp add: card_fetch_def)
  show ?case
  proof (cases "length (cBuffer c) \<le> cOffset c")
    case True
    then show ?thesis using f by (simp add: card_read_def max_def)
  next
    case False
    let ?part = "take n (drop (cOffset c) (cBuffer c))"
    let ?c = "c\<lparr>cOffset := cOffset c + length ?part\<rparr>"
    have l: "cOffset c + length ?part \<le> length (cBuffer c)" "0 < length ?part" using False Suc.prems(1) by auto
    have d: "?part @ drop (cOffset c + length ?part) (cBuffer c) = drop (cOffset c) (cBuffer c)"
      using take_drop_length [of n "drop (cOffset c) (cBuffer c)"] by (simp add: add.commute)
    have "read_all_fuel fuel n (out @ ?part) ?c s = Some (Inr ((out @ ?part) @ drop (cOffset ?c) (cBuffer ?c)),
        ?c\<lparr>cOffset := max (cOffset ?c) (length (cBuffer ?c))\<rparr>, s)"
      using Suc.prems l False by (intro Suc.IH) simp_all
    then show ?thesis using f False l d by (simp add: card_read_def max_def)
  qed
qed simp

lemma read_all_pieces:
  assumes "0 < n" "card_fetch c s = (r, c1, s1)" "length (cBuffer c1) < fuel"
  shows "read_all_fuel fuel n [] c s = Some (read_all c s)"
proof (cases r)
  case None
  obtain k where k: "fuel = Suc k" using assms(3) by (cases fuel) auto
  have f: "card_fetch c1 s1 = (None, c1, s1)"
    using card_fetch_again [of c s c1 s1] assms(2) None by (simp add: card_fetch_def [of c1])
  have "read_all_fuel fuel n [] c s = read_all_fuel fuel n [] c1 s1"
    using k assms(2) f None by (simp add: card_read_def)
  then show ?thesis
    using read_rest_fuel [of n c1 fuel "[]" s1] assms None card_fetch_again [of c s c1 s1] by (simp add: read_all_def)
next
  case (Some e)
  then show ?thesis using assms by (cases fuel) (simp_all add: card_read_def read_all_def)
qed

lemma read_all_tag:
  "read_all c s = (r, c', s') \<Longrightarrow> cTag c' = cTag c \<and> cUID c' = cUID c \<and> cType c' = cType c"
  by (auto simp: read_all_def dest: card_fetch_tag split: prod.splits option.splits)

lemma card_read_message_tag:
  "card_read_message c s = (r, c', s') \<Longrightarrow> cTag c' = cTag c \<and> cUID c' = cUID c \<and> cType c' = cType c"
  by (auto simp: card_read_message_def Let_def dest!: read_all_tag
      split: option.splits if_splits prod.splits sum.splits)

lemma resolve_tag:
  "resolve_write_message c msg opts s = (r, c', s') \<Longrightarrow> cTag c' = cTag c \<and> cUID c' = cUID c \<and> cType c' = cType c"
  by (auto simp: resolve_write_message_def Let_def dest!: card_read_message_tag
      split: prod.splits sum.splits message.splits list.splits if_splits)

lemma write_once_tag:
  "write_once c data opts s = (r, c', s') \<Longrightarrow> c' = card_reset c"
  by (auto simp: write_once_def Let_def split: option.splits prod.splits)

lemma card_reset_fields [simp]:
  "cTag (card_reset c) = cTag c" "cUID (card_reset c) = cUID c" "cType (card_reset c) = cType c"
  "card_reset (card_reset c) = card_reset c"
  by (simp_all add: card_reset_def)

lemma verify_write_effect:
  assumes "verify_write c data s = (r, c', s')"
  shows "c' = card_reset c" "r = Inr True \<Longrightarrow> tgRead (cTag c) s = (Inr data, s')"
  using assms by (auto simp: verify_write_def Let_def split: prod.splits sum.splits)

section \<open>What a write result says\<close>

lemma write_attempts_result:
  assumes "write_attempts sleep data opts verify left n e c s = (Inr res, c', s')"
  shows "cTag c' = cTag c \<and> cUID c' = cUID c \<and> cType c' = cType c \<and>
    n \<le> wrAttempts res \<and> wrAttempts res < n + left \<and> wrBytes res = length data \<and>
    wrVerified res = verify \<and> wrUID res = cUID c \<and> wrType res = cType c \<and>
    (verify \<longrightarrow> (\<exists>s0. tgRead (cTag c) s0 = (Inr data, s')))"
  using assms
proof (induction left arbitrary: n e c s)
  case (Suc left)
  let ?s = "if 1 < n then sleep ((n - 1) * 50) s else s"
  obtain r c1 s1 where w: "write_once c data opts ?s = (r, c1, s1)" by (metis prod_cases3)
  have c1: "c1 = card_reset c" using write_once_tag [OF w] .
  obtain r2 c2 s2 where v: "verify_write c1 data s1 = (r2, c2, s2)" by (metis prod_cases3)
  have c2: "c2 = card_reset c" using verify_write_effect(1) [OF v] c1 by simp
  show ?case
  proof (cases r)
    case (Inl e1)
    with Suc.prems w obtain e1 where x: "write_attempts sleep data opts verify left (n + 1) e1 c1 s1 = (Inr res, c', s')"
      by (auto simp: Let_def split: if_splits)
        from Suc.IH [OF x] c1 show ?thesis by simp
  next
    case (Inr locked)
    note step = Suc.prems w Inr c1
    show ?thesis
    proof (cases verify)
      case False
      then show ?thesis using step by (auto simp: new_write_result_def Let_def)
    next
      case True
      consider "r2 = Inr True" | e2 where "r2 = Inl e2" | "r2 = Inr False" by (cases r2) auto
      then show ?thesis
      proof cases
        case 1
        then show ?thesis
          using step True v c2 verify_write_effect(2) [OF v] by (auto simp: new_write_result_def Let_def)
      next
        case 2
        with step True v c2 obtain e1 where x: "write_attempts sleep data opts verify left (n + 1) e1 c2 s2 = (Inr res, c', s')"
          by (auto simp: Let_def split: if_splits)
        from Suc.IH [OF x] c2 True show ?thesis by simp
      next
        case 3
        with step True v c2 obtain e1 where x: "write_attempts sleep data opts verify left (n + 1) e1 c2 s2 = (Inr res, c', s')"
          by (auto simp: Let_def split: if_splits)
        from Suc.IH [OF x] c2 True show ?thesis by simp
      qed
    qed
  qed
qed simp

lemma write_once_locked: "write_once c data opts s = (Inr True, c', s') \<Longrightarrow> woLock opts"
  by (auto simp: write_once_def Let_def split: option.splits prod.splits sum.splits if_splits)

lemma write_attempts_locked:
  "write_attempts sleep data opts verify left n e c s = (Inr res, c', s') \<Longrightarrow> wrLocked res \<Longrightarrow> woLock opts"
proof (induction left arbitrary: n e c s)
  case (Suc left)
  let ?s = "if 1 < n then sleep ((n - 1) * 50) s else s"
  obtain r c1 s1 where w: "write_once c data opts ?s = (r, c1, s1)" by (metis prod_cases3)
  show ?case
    using Suc.prems w write_once_locked [of c data opts ?s c1 s1] Suc.IH
    by (auto simp: Let_def new_write_result_def split: sum.splits if_splits prod.splits bool.splits)
qed simp

text \<open>What was encoded and put on the tag by a write that succeeded.\<close>

lemma write_message_result:
  assumes "write_message sleep c msg opts s = (Inr res, c', s')"
  shows "\<exists>final c1 s1 data s2. resolve_write_message c msg opts s = (Inr final, c1, s1) \<and>
    encode_message (NdefMessage final) = Inr data \<and> wrBytes res = length data \<and>
    1 \<le> wrAttempts res \<and> wrAttempts res \<le> write_attempt_limit opts \<and> wrUID res = cUID c \<and> wrType res = cType c \<and>
    wrVerified res = verifies opts (cTag c) s1 \<and> wrLocked res = woLock opts \<and>
    (wrVerified res \<longrightarrow> (\<exists>s0. tgRead (cTag c) s0 = (Inr data, s2))) \<and>
    (s2 = s' \<or> woLock opts \<and> tgLock (cTag c) s2 = (Inr (), s'))"
proof -
  obtain w c2 s2 where m: "write_message_to_card sleep c msg opts s = (w, c2, s2)" by (metis prod_cases3)
  then obtain res0 where w: "w = Inr res0" using assms by (cases w) (simp_all add: write_message_def)
  obtain f c1 s1 where r: "resolve_write_message c msg opts s = (f, c1, s1)" by (metis prod_cases3)
  note t = resolve_tag [OF r]
  obtain final where f: "f = Inr final" using m w r by (cases f) (simp_all add: write_message_to_card_def)
  obtain data where d: "encode_message (NdefMessage final) = Inr data"
    using m w r f by (cases "encode_message (NdefMessage final)") (simp_all add: write_message_to_card_def)
  have a: "write_attempts sleep data opts (verifies opts (cTag c) s1) (write_attempt_limit opts) 1
      (PlainError ''unknown write failure'') c1 s1 = (Inr res0, c2, s2)"
    using m w r f d t by (simp add: write_message_to_card_def split: option.splits)
  note res0 = write_attempts_result [OF a] write_attempts_locked [OF a]
  have l: "wrLocked res = woLock opts" "res = res0 \<or> res = res0\<lparr>wrLocked := True\<rparr>"
    "s2 = s' \<or> woLock opts \<and> tgLock (cTag c) s2 = (Inr (), s')"
    using assms m w res0 t by (auto simp: write_message_def lock_card_def split: if_splits sum.splits prod.splits)
  show ?thesis
    by (rule exI [of _ final], rule exI [of _ c1], rule exI [of _ s1], rule exI [of _ data], rule exI [of _ s2])
      (use r f d res0 l t in auto)
qed

section \<open>What a partial update keeps\<close>

text \<open>A record the builders can express is one they give back.\<close>

definition editable :: "ndef_record \<Rightarrow> bool" where
  "editable r \<longleftrightarrow> (case record_to_builder r of None \<Rightarrow> False | Some b \<Rightarrow> to_record b = r)"

lemma editable_kept: "list_all editable rs \<Longrightarrow> map to_record (to_builder rs) = rs"
  by (induction rs) (auto simp: to_builder_def List.map_filter_simps editable_def split: option.splits)

lemma append_keeps_editable:
  assumes "card_read_message c s = (Inr (NdefMessage rs), c', s')" "rs \<noteq> []" "list_all editable rs"
    and "\<not> woOverwrite opts" "woIndex opts \<le> -1"
  shows "resolve_write_message c msg opts s = (Inr (rs @ map to_record (to_builder msg)), c', s')"
proof -
  obtain rec recs where rs: "rs = rec # recs" using assms(2) by (cases rs) auto
  have "length (to_builder rs) = length rs" using editable_kept [OF assms(3)] by (metis length_map)
  then have "to_builder rs \<noteq> []" using assms(2) by auto
  then show ?thesis
    using assms(1,4,5) editable_kept [OF assms(3)]
    by (simp add: resolve_write_message_def rs merge_records_def build_message_def)
qed

text \<open>What is encoded is not empty and parses back.\<close>

lemma encoded_message_parses:
  assumes "list_all record_ok msg" "msg \<noteq> []" "encode_message (NdefMessage msg) = Inr e"
  shows "e \<noteq> []" "parse_ndef_records e = Inr (map norm_record msg)"
proof -
  have e: "e = encode_records_from True msg"
    using assms(2,3) by (auto simp: encode_message_def encode_ndef_records_def mapErr_def split: sum.splits)
  then show ne: "e \<noteq> []" using assms(2) by (cases msg) simp_all
  show "parse_ndef_records e = Inr (map norm_record msg)"
    using parse_encode_records [OF assms(1,2), where rest = "[]"] ne e by (simp add: parse_ndef_records_def)
qed

section \<open>Tags that keep what is written\<close>

text \<open>
  The contract the write path relies on: a tag in working order that holds a message reads it
  back, takes any message that fits, and then holds that one.
\<close>

locale message_tag =
  fixes tag :: "'s tag" and holds :: "'s \<Rightarrow> bytes \<Rightarrow> bool" and fits :: "bytes \<Rightarrow> bool"
  assumes reads: "holds s d \<Longrightarrow> \<exists>r s'. tgRead tag s = (r, s') \<and> holds s' d \<and> (d \<noteq> [] \<longrightarrow> r = Inr d)"
    and writes: "holds s d \<Longrightarrow> fits e \<Longrightarrow> \<exists>s'. tgWrite tag e s = (Inr (), s') \<and> holds s' e"
    and capacity: "holds s d \<Longrightarrow> fits e \<Longrightarrow> check_write_capacity tag (length e) s = None"
    and live: "holds s d \<Longrightarrow> \<not> capSnapshot (tgCaps tag s)"
begin

lemma fetch_holds:
  assumes "holds s d"
  shows "\<exists>r c' s'. card_read_message (new_card tag s) s = (r, c', s') \<and> holds s' d \<and> cTag c' = tag"
proof -
  obtain r s' where r: "tgRead tag s = (r, s')" "holds s' d" using reads [OF assms] by blast
  obtain q c1 s1 where q: "card_read_message (new_card tag s) s = (q, c1, s1)" by (metis prod_cases3)
  have "s1 = s \<or> s1 = s'"
    using q r(1) by (auto simp: card_read_message_def new_card_def read_all_def card_fetch_def Let_def
        split: if_splits sum.splits prod.splits option.splits)
  then show ?thesis using q card_read_message_tag [OF q] r assms by (auto simp: new_card_def)
qed

text \<open>One attempt is enough, and what was asked for is on the tag.\<close>

lemma write_once_lands:
  assumes "holds s d" "cTag c = tag" "fits e" "e \<noteq> []" "\<not> woForceInit opts" "\<not> woLock opts"
  shows "\<exists>c' s'. write_attempts sleep e opts verify (Suc left) 1 err c s =
    (Inr (new_write_result c (length e) verify 1 False), c', s') \<and> holds s' e \<and> cTag c' = tag"
proof -
  obtain s1 where w: "tgWrite tag e s = (Inr (), s1)" "holds s1 e" using writes [OF assms(1,3)] by blast
  obtain s2 where r: "tgRead tag s1 = (Inr e, s2)" "holds s2 e" using reads [OF w(2)] assms(4) by blast
  have o: "write_once c e opts s = (Inr False, card_reset c, s1)"
    using assms(2,5,6) w(1) by (simp add: write_once_def Let_def)
  have v: "verify_write (card_reset c) e s1 = (Inr True, card_reset c, s2)"
    using assms(2) r(1) by (simp add: verify_write_def)
  show ?thesis using o v w r assms(2) by (cases verify) (auto simp: new_write_result_def)
qed

lemma write_message_lands:
  assumes "holds s d" "encode_message (NdefMessage msg) = Inr e" "fits e" "e \<noteq> []" "woOverwrite opts"
    and "\<not> woForceInit opts" "\<not> woLock opts"
  shows "\<exists>c' s'. write_message sleep (new_card tag s) msg opts s =
      (Inr (new_write_result (new_card tag s) (length e) (\<not> woSkipVerify opts) 1 False), c', s') \<and> holds s' e"
proof -
  let ?c = "new_card tag s"
  obtain r c1 s1 where r: "card_read_message ?c s = (r, c1, s1)" "holds s1 d" "cTag c1 = tag"
    using fetch_holds [OF assms(1)] by blast
  note same = card_read_message_tag [OF r(1)]
  have f: "resolve_write_message ?c msg opts s = (Inr msg, c1, s1)"
    using r(1) assms(5) by (auto simp: resolve_write_message_def split: sum.split message.split list.split)
  have v: "verifies opts tag s1 = (\<not> woSkipVerify opts)" using live [OF r(2)] by (simp add: verifies_def)
  obtain left where l: "write_attempt_limit opts = Suc left"
    by (cases "write_attempt_limit opts") (auto simp: write_attempt_limit_def default_max_write_attempts_def split: if_splits)
  obtain c2 s2 where w: "write_attempts sleep e opts (\<not> woSkipVerify opts) (Suc left) 1
      (PlainError ''unknown write failure'') c1 s1 =
      (Inr (new_write_result c1 (length e) (\<not> woSkipVerify opts) 1 False), c2, s2)" "holds s2 e"
    using write_once_lands [OF r(2,3) assms(3,4,6,7)] by blast
  have "new_write_result c1 n b k q = new_write_result ?c n b k q" for n b k q
    using same by (simp add: new_write_result_def)
  then show ?thesis
    using f w v l assms(2,7) r(3) capacity [OF r(2) assms(3)]
    by (simp add: write_message_def write_message_to_card_def del: write_attempts.simps)
qed

text \<open>The message is then read back through a card made anew.\<close>

lemma reads_message:
  assumes "holds s e" "e \<noteq> []" "parse_ndef_records e = Inr rs" "capNDEF (tgCaps tag s)"
  shows "\<exists>c' s'. card_read_message (new_card tag s) s = (Inr (NdefMessage rs), c', s') \<and> holds s' e"
proof -
  obtain s' where "tgRead tag s = (Inr e, s')" "holds s' e" using reads [OF assms(1)] assms(2) by blast
  then show ?thesis
    using assms(3,4) by (simp add: card_read_message_def new_card_def read_all_def card_fetch_def Let_def)
qed

end

end
