(* ===== verification/WriteOnCard.thy ===== *)
theory WriteOnCard
  imports IsoOnCard CardWrite
begin

text \<open>
  The shared write path on the NTAG 424 DNA: the driver is a tag of the Go interface, and on the
  emulated card it keeps the contract \<open>WriteMessage\<close> relies on. The driver's errors enter the
  interface through a translation, an argument here, because only their texts differ.
\<close>

section \<open>The driver as a tag\<close>

definition text_of :: "bytes \<Rightarrow> string" where
  "text_of b = map (\<lambda>x. char_of (unat x)) b"

definition n4_tag_caps :: "unit ntag424_tag \<Rightarrow> tag_caps" where
  "n4_tag_caps t =
     (let k = n4_capabilities_of t;
          p = profile_capabilities (case profile_for DetectedNTAG424 of Some q \<Rightarrow> q | None \<Rightarrow> no_profile)
      in p\<lparr>capCanLock := capLock k, capCanWrite := capWrite k, capIsReadOnly := capReadOnly k,
           capSDMEnabled := capSDM k, capKeyNumbers := capKeysHeld k, capRandomUID := capRandomID k,
           capLRPMode := capLRP k\<rparr>)"

lemma n4_tag_caps_simps [simp]:
  "capCanTransceive (n4_tag_caps t)" "\<not> capSnapshot (n4_tag_caps t)" "capMaxNDEF (n4_tag_caps t) = 254"
  "capTechnology (n4_tag_caps t) = ''ISO14443A''" "capNDEF (n4_tag_caps t)" "\<not> capPassword (n4_tag_caps t)"
  by (simp_all add: n4_tag_caps_def profile_capabilities_def no_profile_def Let_def)

definition n4_tag ::
    "(unit n4_error \<Rightarrow> go_error) \<Rightarrow> (ntag424_state \<Rightarrow> int) \<Rightarrow> (unit ntag424_tag \<times> ntag424_state) tag" where
  "n4_tag tr clk =
     \<lparr>tgUID = (\<lambda>(t, s). text_of (tag_uid t)), tgType = ''NTAG424'',
      tgCaps = (\<lambda>(t, s). n4_tag_caps t),
      tgRead = (\<lambda>s. map_prod (mapErr tr) id (n4_read_data (card_env clk) s)),
      tgWrite = (\<lambda>d s. map_prod (mapErr tr) id (n4_write_data (card_env clk) d s)),
      tgLock = (\<lambda>s. map_prod (mapErr tr) id (n4_make_read_only (card_env clk) s)),
      tgTransceive = (\<lambda>d s. map_prod (mapErr tr) id (transceive_raw_apdu (card_env clk) d s)),
      tgAliases = Some (\<lambda>(t, s). map text_of (uid_aliases t)),
      tgResolve = Some (\<lambda>s. snd (resolve_uid_once (card_env clk) s)),
      tgClassicKeys = None, tgDESFireKeys = None,
      tgNTAG424Keys = Some (\<lambda>keys (t, s). (set_ntag424_keys keys t, s)),
      tgWriteInit = None, tgWriteLock = None, tgTransceiveRaw = None\<rparr>"

text \<open>A card whose NDEF file holds a message, and a tag whose keys the file's rights let at it.\<close>

definition n4_holds :: "unit ntag424_tag \<times> ntag424_state \<Rightarrow> bytes \<Rightarrow> bool" where
  "n4_holds ts d = (case ts of (t, s) \<Rightarrow>
     ready t s \<and> (shows_plainly (ndef_file s) \<or> holds_key t 0) \<and>
     isOk (route_for t (shown (ndef_file s)) True) \<and> isOk (route_for t (shown (ndef_file s)) False) \<and>
     known_mode (fsCommMode (nfSettings (ndef_file s))) \<and> cc_std s \<and>
     \<not> fsSDMEnabled (nfSettings (ndef_file s)) \<and> length d \<le> 254 \<and>
     take (2 + length d) (nfData (ndef_file s)) = nlen_bytes (length d) @ d)"

lemma isOk_Inr: "isOk r \<longleftrightarrow> (\<exists>x. r = Inr x)"
  by (cases r) (simp_all add: isOk_def)

text \<open>What is held does not depend on where the card and the tag stand.\<close>

lemma n4_holds_moves:
  assumes "n4_holds (t, s) d" "ready t' s'" "nFiles s' = nFiles s" "same_keys t t'"
  shows "n4_holds (t', s') d"
proof -
  have "ndef_file s' = ndef_file s" using assms(3) by (simp add: ndef_file_def)
  then show ?thesis
    using assms(1,2) same_keys_views(1,2) [OF assms(4)] cc_std_files [OF assms(3)] by (simp add: n4_holds_def)
qed

section \<open>Reading a blank file\<close>

lemma type4_read_blank:
  assumes "type4_card s" "15 \<le> length (nfData (nFiles s ! 0))" "plain_ndef s"
    and "nfData (ndef_file s) = nlen_bytes 0 @ rest"
  shows "type4_read_data n4_dev s = (Inl (TNoPayload None), at_ndef s)"
proof -
  have b: "length (nfData (ndef_file s)) = 256" using assms(1) by (simp add: type4_card_def)
  have p: "plain_ndef (at_ndef s)" using assms(3) by (simp add: plain_ndef_def)
  have "tag_transceive n4_dev (read_binary_ext_apdu (of_nat 0) (byteN 2)) (at_ndef s) = (Inr (nlen_bytes 0), at_ndef s)"
    using read_step [OF _ p, of 0 2] b assms(4) by (simp add: nlen_bytes_def)
  then have r: "tag_transceive n4_dev (read_binary_ext_apdu 0 2) (at_ndef s) = (Inr (nlen_bytes 0), at_ndef s)"
    by (simp add: byteN_def)
  have "nlen_bytes 0 = [0, 0]" by (simp add: nlen_bytes_def byteN_def)
  then show ?thesis
    by (simp add: type4_read_data_def doS_def select_ndef_on_card [OF assms(1,2)] r Let_def)
qed

lemma read_plain_blank:
  assumes "keyed t s" "cc_std s" "plain_ndef s" "nfData (ndef_file s) = nlen_bytes 0 @ rest"
    and t': "t' = t\<lparr>gSession := None\<rparr>"
  shows "mapES NTag (type4_read_data (n4_exchange (card_env clk))) (t', s) = (Inl (NTag (TNoPayload None)), (t', at_ndef s)) \<and>
    ready t' (at_ndef s)"
proof -
  have b: "gBudget t' = None" "card_ok s" using assms(1) t' by (simp_all add: keyed_def)
  have "type4_read_data n4_dev s = (Inl (TNoPayload None), at_ndef s)"
    using assms(2-4) by (intro type4_read_blank) (simp_all add: cc_std_def)
  then have "type4_read_data (n4_exchange (card_env clk)) (t', s) = (Inl (TNoPayload None), (t', at_ndef s))"
    using lifts_type4_read [OF exchange_lifts [where clk = clk, OF b(1)]] by (simp add: lifts_def)
  moreover have "keyed t' (at_ndef s)"
    using assms(1) t' card_ok_at_ndef [OF b(2)]
    by (intro keyed_moves [OF assms(1)]) (simp_all add: keyed_def same_keys_def)
  ultimately show ?thesis using t' by (simp add: mapES_def mapErr_def ready_def)
qed

lemma read_blank_ready:
  assumes "ready t s" "shows_plainly (ndef_file s) \<or> holds_key t 0" "route_for t (shown (ndef_file s)) False = Inr rt"
    and "known_mode (fsCommMode (nfSettings (ndef_file s)))" "cc_std s" "\<not> fsSDMEnabled (nfSettings (ndef_file s))"
    and "nfData (ndef_file s) = nlen_bytes 0 @ rest"
  shows "\<exists>e t' s'. n4_read_data (card_env clk) (t, s) = (Inl e, (t', s')) \<and> ready t' s' \<and>
    nFiles s' = nFiles s \<and> same_keys t t'"
proof -
  obtain t1 s1 where g: "n4_get_file_settings (card_env clk) 0x02 (t, s) = (Inr (shown (ndef_file s)), (t1, s1))"
    "ready t1 s1" "nFiles s1 = nFiles s" "nKeys s1 = nKeys s" "same_keys t t1"
    using get_settings_ready [OF assms(1) card_file_ndef assms(2)] by blast
  have f: "ndef_file s1 = ndef_file s" using g(3) by (simp add: ndef_file_def)
  have k: "keyed t1 s1" using g(2) by (simp add: ready_def)
  then have z: "fsFileSize (shown (ndef_file s)) = 256" using f card_ok_files [of s1] by (simp add: keyed_def)
  have rt: "route_for t1 (shown (ndef_file s1)) False = Inr rt" using assms(3) same_keys_views(2) [OF g(5)] f by simp
  have blank: "nfData (ndef_file s1) = nlen_bytes (length []) @ [] @ rest" using f assms(7) by simp
  show ?thesis
  proof (cases "rtNative rt")
    case True
    from read_native_ready [where clk = clk, OF g(2) rt True _ _ blank _ z] assms(4,6) f obtain t2 s2 where
      "with_session (card_env clk) (rtKeyNo rt) (native_read (card_env clk) (shown (ndef_file s)) (rtMode rt)) (t1, s1) =
        (Inr [], (t2, s2))" "ready t2 s2" "nFiles s2 = nFiles s1" "nKeys s2 = nKeys s1" "same_keys t1 t2" by auto
    then show ?thesis
      using g rt True f same_keys_trans [OF g(5)]
      by (simp add: n4_read_data_def tryS_def doS_def askS_def)
  next
    case False
    let ?t = "t1\<lparr>gSession := None\<rparr>"
    have o: "plain_ndef s1" using route_plain [OF rt False] assms(6) f by (simp add: plain_ndef_def)
    have c: "cc_std s1" using assms(5) cc_std_files [OF g(3)] by simp
    from read_plain_blank [where clk = clk, OF k c o _ refl] assms(7) f have
      w: "mapES NTag (type4_read_data (n4_exchange (card_env clk))) (?t, s1) =
        (Inl (NTag (TNoPayload None)), (?t, at_ndef s1))" "ready ?t (at_ndef s1)"
      by auto
    have "n4_read_data (card_env clk) (t, s) = (Inl (NTag (TNoPayload None)), (?t, at_ndef s1))"
      using g(1) rt False f w(1)
      by (simp add: n4_read_data_def tryS_def doS_def askS_def as_type4_def drop_tag_session_def changeS_def)
    moreover have "same_keys t ?t" using g(5) by (simp add: same_keys_def)
    ultimately show ?thesis using w(2) g(3) by simp
  qed
qed

section \<open>The contract holds\<close>

lemma n4_reads:
  assumes "n4_holds ts d"
  shows "\<exists>r ts'. n4_read_data (card_env clk) ts = (r, ts') \<and> n4_holds ts' d \<and> (d \<noteq> [] \<longrightarrow> r = Inr d)"
proof -
  obtain t s where ts: "ts = (t, s)" by fastforce
  note h = assms [unfolded ts n4_holds_def prod.case]
  then obtain rr where rr: "route_for t (shown (ndef_file s)) False = Inr rr" by (auto simp: isOk_Inr)
  have d: "nfData (ndef_file s) = nlen_bytes (length d) @ d @ drop (2 + length d) (nfData (ndef_file s))"
    using h by (metis append.assoc append_take_drop_id)
  show ?thesis
  proof (cases "d = []")
    case True
    with d have b: "nfData (ndef_file s) = nlen_bytes 0 @ drop 2 (nfData (ndef_file s))" by simp
    obtain e t' s' where "n4_read_data (card_env clk) (t, s) = (Inl e, (t', s'))" "ready t' s'"
      "nFiles s' = nFiles s" "same_keys t t'" using read_blank_ready [OF _ _ rr _ _ _ b] h by blast
    then show ?thesis using True ts n4_holds_moves [of t s d t' s'] assms by auto
  next
    case False
    obtain t' s' where "n4_read_data (card_env clk) (t, s) = (Inr d, (t', s'))" "ready t' s'"
      "nFiles s' = nFiles s" "same_keys t t'" using read_ready [OF _ _ rr _ _ _ d False] h by blast
    then show ?thesis using ts n4_holds_moves [of t s d t' s'] assms by auto
  qed
qed

lemma n4_writes:
  assumes "n4_holds ts d" "length e \<le> 254"
  shows "\<exists>ts'. n4_write_data (card_env clk) e ts = (Inr (), ts') \<and> n4_holds ts' e"
proof -
  obtain t s where ts: "ts = (t, s)" by fastforce
  note h = assms(1) [unfolded ts n4_holds_def prod.case]
  then obtain rw where rw: "route_for t (shown (ndef_file s)) True = Inr rw" by (auto simp: isOk_Inr)
  obtain t' s' where w: "n4_write_data (card_env clk) e (t, s) = (Inr (), (t', s'))" "ready t' s'"
    "nFiles s' = with_ndef (nlen_bytes (length e) @ e @ drop (2 + length e) (nfData (ndef_file s))) s" "same_keys t t'"
    using write_ready [OF _ _ rw _ _ assms(2)] h by blast
  have l: "length (nFiles s) = 3" "length (nfData (ndef_file s)) = 256"
    using h card_ok_files [of s] by (simp_all add: ready_def keyed_def)
  note f = with_ndef_simps(1) [OF w(3) l(1)]
  have sh: "shown (ndef_file s') = shown (ndef_file s)" using f l assms(2) by (simp add: shown_def nlen_bytes_facts)
  have c: "cc_std s'" using h assms(2) f w(3) l by (simp add: cc_std_def type4_card_def with_ndef_def nlen_bytes_facts)
  show ?thesis
    using w(1,2) h sh c f assms(2) ts same_keys_views(1,2) [OF w(4)]
    by (auto simp: n4_holds_def shows_plainly_def nlen_bytes_facts)
qed

interpretation n4: message_tag "n4_tag tr clk" n4_holds "\<lambda>e. length e \<le> 254" for tr clk
proof
  show "\<exists>r s'. tgRead (n4_tag tr clk) s = (r, s') \<and> n4_holds s' d \<and> (d \<noteq> [] \<longrightarrow> r = Inr d)"
    if "n4_holds s d" for s d
    using n4_reads [of s d clk] that by (fastforce simp: n4_tag_def mapErr_def)
  show "\<exists>s'. tgWrite (n4_tag tr clk) e s = (Inr (), s') \<and> n4_holds s' e"
    if "n4_holds s d" "length e \<le> 254" for s d e
    using n4_writes [of s d e clk] that by (fastforce simp: n4_tag_def mapErr_def)
  show "check_write_capacity (n4_tag tr clk) (length e) s = None" if "n4_holds s d" "length e \<le> 254" for s d e
    using that by (simp add: check_write_capacity_def n4_tag_def Let_def split: prod.split)
  show "\<not> capSnapshot (tgCaps (n4_tag tr clk) s)" if "n4_holds s d" for s d
    by (simp add: n4_tag_def split: prod.split)
qed

lemma n4_tag_ndef: "capNDEF (tgCaps (n4_tag tr clk) s)"
  by (simp add: n4_tag_def split: prod.split)

end
