(* ===== verification/DeviceMgr.thy ===== *)
theory DeviceMgr
  imports Errors
begin

text \<open>
  The device manager, \<open>nfc/device_manager.go\<close>: one reader device, opened, closed and reopened, with
  its retries and its cooldown. The manager that opens devices and the devices are not part of it:
  they are the functions of an environment on a world of their own. Durations are milliseconds; a
  wait that the stop channel can cut short reports whether it did. Logging is left out.
\<close>

section \<open>Environment and state\<close>

record ('d, 's) dm_env =
  mgOpen :: "string \<Rightarrow> 's \<Rightarrow> (go_error + 'd) \<times> 's"
  mgReaders :: "'s \<Rightarrow> (go_error + string list) \<times> 's"
  dvClose :: "'d \<Rightarrow> 's \<Rightarrow> 's"
  dvHealthy :: "'d \<Rightarrow> ('s \<Rightarrow> go_error option \<times> 's) option"
  dvName :: "'d \<Rightarrow> string"
  clkWait :: "nat \<Rightarrow> 's \<Rightarrow> bool \<times> 's"
  clkSleep :: "nat \<Rightarrow> 's \<Rightarrow> 's"

datatype device_event_type =
    DeviceConnected | DeviceDisconnected | DeviceReconnecting | DeviceReconnectFailed
  | CooldownStarted | CooldownEnded | DeviceError

record 'd device_event =
  evType :: device_event_type
  evDevice :: "'d option"
  evMessage :: string
  evErr :: "go_error option"

record 'd device_manager =
  dmDevice :: "'d option"
  dmHasDevice :: bool
  dmPath :: string
  dmAssigned :: string
  dmRetry :: nat
  dmCooldown :: bool
  dmTimer :: "nat option"
  dmLastErr :: string
  dmEvents :: "'d device_event list"

definition max_retries :: nat where "max_retries = 5"
definition base_delay :: nat where "base_delay = 500"
definition max_reconnect_tries :: nat where "max_reconnect_tries = 10"
definition reconnect_delay :: nat where "reconnect_delay = 2000"
definition device_reset_wait_time :: nat where "device_reset_wait_time = 3000"
definition device_error_cooldown_period :: nat where "device_error_cooldown_period = 10000"
definition max_retries_cooldown_period :: nat where "max_retries_cooldown_period = 30000"
definition post_error_pause_time :: nat where "post_error_pause_time = 1000"

definition new_device_manager :: "string \<Rightarrow> 'd device_manager" where
  "new_device_manager path =
     \<lparr>dmDevice = None, dmHasDevice = False, dmPath = path, dmAssigned = path, dmRetry = 0,
      dmCooldown = False, dmTimer = None, dmLastErr = [], dmEvents = []\<rparr>"

text \<open>The event channel holds ten; an event that does not fit is dropped.\<close>

definition emit_event ::
    "device_event_type \<Rightarrow> string \<Rightarrow> go_error option \<Rightarrow> 'd device_manager \<Rightarrow> 'd device_manager" where
  "emit_event ty msg err m =
     (if length (dmEvents m) < 10
      then m\<lparr>dmEvents := dmEvents m @ [\<lparr>evType = ty, evDevice = dmDevice m, evMessage = msg, evErr = err\<rparr>]\<rparr>
      else m)"

section \<open>Connecting\<close>

text \<open>Whether a device is held and answers; one that does not is closed.\<close>

definition still_responsive ::
    "('d, 's) dm_env \<Rightarrow> 'd device_manager \<Rightarrow> 's \<Rightarrow> bool \<times> 'd device_manager \<times> 's" where
  "still_responsive env m s =
     (case (if dmHasDevice m then dmDevice m else None) of
        None \<Rightarrow> (False, m, s)
      | Some d \<Rightarrow> (case dvHealthy env d of
          None \<Rightarrow> (True, m, s)
        | Some check \<Rightarrow> (case check s of
            (None, s') \<Rightarrow> (True, m, s')
          | (Some e, s') \<Rightarrow> (False, m\<lparr>dmDevice := None, dmHasDevice := False\<rparr>, dvClose env d s'))))"

definition try_connect ::
    "('d, 's) dm_env \<Rightarrow> 'd device_manager \<Rightarrow> 's \<Rightarrow> go_error option \<times> 'd device_manager \<times> 's" where
  "try_connect env m s =
     (let (alive, m, s) = still_responsive env m s
      in if alive then (None, m, s)
         else if dmPath m = [] then (Some (PlainError ''no device path configured''), m, s)
         else case mgOpen env (dmPath m) s of
           (Inl e, s') \<Rightarrow> (Some (Wrapped (''failed to open device '' @ dmPath m @ '': '') e []), m, s')
         | (Inr d, s') \<Rightarrow>
             (None, emit_event DeviceConnected (''Connected to '' @ dvName env d) None
                (m\<lparr>dmDevice := Some d, dmHasDevice := True, dmLastErr := []\<rparr>), s'))"

definition close_held :: "('d, 's) dm_env \<Rightarrow> 'd device_manager \<Rightarrow> 's \<Rightarrow> 'd device_manager \<times> 's" where
  "close_held env m s =
     (case (if dmHasDevice m then dmDevice m else None) of
        None \<Rightarrow> (m, s)
      | Some d \<Rightarrow> (m\<lparr>dmDevice := None, dmHasDevice := False\<rparr>, dvClose env d s))"

text \<open>The attempts of \<open>reconnectDevice\<close>: how many are left, and the number of the next.\<close>

fun reconnect_attempts ::
    "('d, 's) dm_env \<Rightarrow> bool \<Rightarrow> nat \<Rightarrow> nat \<Rightarrow> string \<Rightarrow> 'd device_manager \<Rightarrow> 's
      \<Rightarrow> go_error option \<times> 'd device_manager \<times> 's" where
  "reconnect_attempts env force 0 attempt lastErr m s =
     (Some (PlainError ((if force then ''Force reconnect'' else ''Reconnect'') @ '' failed after ''
        @ decimal (attempt - 1) @ '' attempts: '' @ lastErr)), m, s)"
| "reconnect_attempts env force (Suc left) attempt lastErr m s =
     (case try_connect env m s of
        (None, m', s') \<Rightarrow> (None, m', s')
      | (Some e, m', s') \<Rightarrow>
          (case clkWait env ((if force then 1000 else reconnect_delay) * attempt) s' of
             (True, s'') \<Rightarrow> (Some (PlainError ''reconnection aborted by stop signal''), m', s'')
           | (False, s'') \<Rightarrow> reconnect_attempts env force left (attempt + 1) (error_text e) m' s''))"

definition reconnect_device ::
    "('d, 's) dm_env \<Rightarrow> bool \<Rightarrow> 'd device_manager \<Rightarrow> 's \<Rightarrow> go_error option \<times> 'd device_manager \<times> 's" where
  "reconnect_device env force m s =
     (let (m, s) = close_held env m s
      in if force
         then (case clkWait env device_reset_wait_time s of
                 (True, s') \<Rightarrow> (Some (PlainError ''reconnection aborted by stop signal''), m, s')
               | (False, s') \<Rightarrow> reconnect_attempts env True 3 1 [] m s')
         else reconnect_attempts env False max_reconnect_tries 1 [] m s)"

definition dm_close :: "('d, 's) dm_env \<Rightarrow> 'd device_manager \<Rightarrow> 's \<Rightarrow> 'd device_manager \<times> 's" where
  "dm_close env m s =
     (if dmHasDevice m \<and> dmDevice m \<noteq> None
      then let (m', s') = close_held env m s
           in (emit_event DeviceDisconnected ''Device manager closing'' None m', s')
      else (m, s))"

definition record_error :: "go_error \<Rightarrow> 'd device_manager \<Rightarrow> bool \<times> 'd device_manager" where
  "record_error e m = (dmLastErr m = error_text e, m\<lparr>dmLastErr := error_text e\<rparr>)"

definition clear_last_error :: "'d device_manager \<Rightarrow> 'd device_manager" where
  "clear_last_error m = m\<lparr>dmLastErr := []\<rparr>"

section \<open>Errors of the device\<close>

text \<open>The device is given up, whether or not the flag says it is held.\<close>

definition drop_device :: "('d, 's) dm_env \<Rightarrow> 'd device_manager \<Rightarrow> 's \<Rightarrow> 'd device_manager \<times> 's" where
  "drop_device env m s =
     (let s' = (case (if dmHasDevice m then dmDevice m else None) of None \<Rightarrow> s | Some d \<Rightarrow> dvClose env d s)
      in (m\<lparr>dmDevice := None, dmHasDevice := False\<rparr>, s'))"

definition enter_cooldown :: "nat \<Rightarrow> 'd device_manager \<Rightarrow> 'd device_manager" where
  "enter_cooldown d m = (if dmCooldown m then m else m\<lparr>dmCooldown := True, dmTimer := Some d\<rparr>)"

definition handle_io_error ::
    "('d, 's) dm_env \<Rightarrow> go_error \<Rightarrow> 'd device_manager \<Rightarrow> 's \<Rightarrow> bool \<times> 'd device_manager \<times> 's" where
  "handle_io_error env e m s =
     (let (m, s) = drop_device env m s;
          m = emit_event DeviceDisconnected ''Device closed due to IO/Config error'' (Some e) m
      in if is_acr122_error e
         then (True, emit_event CooldownStarted ''Entering cooldown for 10s'' (Some e)
                 (enter_cooldown device_error_cooldown_period m), s)
         else (case reconnect_device env True m (clkSleep env post_error_pause_time s) of
                 (None, m', s') \<Rightarrow> (False, m', s')
               | (Some e', m', s') \<Rightarrow> (False, m'\<lparr>dmPath := dmAssigned m'\<rparr>, s')))"

definition retry_connection ::
    "('d, 's) dm_env \<Rightarrow> 'd device_manager \<Rightarrow> 's \<Rightarrow> 'd device_manager \<times> 's" where
  "retry_connection env m s =
     (let n = dmRetry m + 1;
          m = emit_event DeviceReconnecting (''Retry attempt '' @ decimal n @ ''/'' @ decimal max_retries) None
                (m\<lparr>dmRetry := n\<rparr>)
      in case clkWait env (2 ^ (n - 1) * base_delay) s of
           (True, s') \<Rightarrow> (m, s')
         | (False, s') \<Rightarrow> (case reconnect_device env False m s' of
             (None, m', s'') \<Rightarrow> (m'\<lparr>dmRetry := 0, dmLastErr := []\<rparr>, s'')
           | (Some e, m', s'') \<Rightarrow>
               (emit_event DeviceReconnectFailed (''Reconnection attempt '' @ decimal n @ '' failed'') (Some e) m', s'')))"

definition give_up_retrying ::
    "('d, 's) dm_env \<Rightarrow> go_error \<Rightarrow> 'd device_manager \<Rightarrow> 's \<Rightarrow> 'd device_manager \<times> 's" where
  "give_up_retrying env e m s =
     (let (m, s) = drop_device env m s
      in (emit_event CooldownStarted ''Max retries reached, entering cooldown'' (Some e)
            (enter_cooldown max_retries_cooldown_period (m\<lparr>dmPath := dmAssigned m, dmRetry := 0\<rparr>)), s))"

definition handle_error ::
    "('d, 's) dm_env \<Rightarrow> go_error \<Rightarrow> 'd device_manager \<Rightarrow> 's \<Rightarrow> bool \<times> 'd device_manager \<times> 's" where
  "handle_error env e m s =
     (if is_no_card_error e then (False, clear_last_error m, s)
      else let m = snd (record_error e m)
           in if is_io_error e \<or> is_device_config_error e then handle_io_error env e m s
              else if is_timeout_error e \<or> is_device_closed_error e
              then if dmRetry m < max_retries
                   then let (m', s') = retry_connection env m s in (False, m', s')
                   else let (m', s') = give_up_retrying env e m s in (True, m', s')
              else (False, m, s))"

definition ensure_connected ::
    "('d, 's) dm_env \<Rightarrow> 'd device_manager \<Rightarrow> 's \<Rightarrow> go_error option \<times> 'd device_manager \<times> 's" where
  "ensure_connected env m s =
     (if dmCooldown m then (Some (PlainError ''device in cooldown period''), m, s)
      else case try_connect env m s of
        (None, m', s') \<Rightarrow> (None, m'\<lparr>dmRetry := 0\<rparr>, s')
      | (Some e, m', s') \<Rightarrow> (case handle_error env e m' s' of
          (cool, m'', s'') \<Rightarrow>
            if cool then (Some (Wrapped ''device entered cooldown after error: '' e []), m'', s'')
            else if dmHasDevice m'' then (None, m'', s'')
            else (Some (Wrapped ''failed to ensure device connection: '' e []), m'', s'')))"

definition end_cooldown :: "('d, 's) dm_env \<Rightarrow> 'd device_manager \<Rightarrow> 's \<Rightarrow> 'd device_manager \<times> 's" where
  "end_cooldown env m s =
     (let m = emit_event CooldownEnded ''Cooldown period ended, attempting reconnect'' None (m\<lparr>dmCooldown := False\<rparr>);
          (e, m', s') = reconnect_device env True m s
      in (m', s'))"

section \<open>What every operation keeps\<close>

text \<open>The flag and the device agree, the retries are bounded and so is the event queue.\<close>

definition dm_ok :: "'d device_manager \<Rightarrow> bool" where
  "dm_ok m \<longleftrightarrow> dmHasDevice m = (dmDevice m \<noteq> None) \<and> dmRetry m \<le> max_retries \<and> length (dmEvents m) \<le> 10"

text \<open>What an operation may change while it keeps the cooldown, the retries and the lane.\<close>

definition dm_keeps :: "'d device_manager \<Rightarrow> 'd device_manager \<Rightarrow> bool" where
  "dm_keeps m m' \<longleftrightarrow> (dm_ok m \<longrightarrow> dm_ok m') \<and> dmRetry m' = dmRetry m \<and> dmCooldown m' = dmCooldown m \<and>
     dmTimer m' = dmTimer m \<and> dmAssigned m' = dmAssigned m \<and> dmPath m' = dmPath m"

lemma dm_keeps_refl [simp]: "dm_keeps m m"
  by (simp add: dm_keeps_def)

lemma dm_keeps_trans: "dm_keeps a b \<Longrightarrow> dm_keeps b c \<Longrightarrow> dm_keeps a c"
  by (auto simp: dm_keeps_def)

lemma dm_ok_new: "dm_ok (new_device_manager path)"
  by (simp add: dm_ok_def new_device_manager_def)

lemma emit_event_keeps [simp]: "dm_keeps m (emit_event ty msg err m)"
  by (simp add: dm_keeps_def emit_event_def dm_ok_def)

lemma emit_event_fields [simp]:
  "dmDevice (emit_event ty msg err m) = dmDevice m" "dmHasDevice (emit_event ty msg err m) = dmHasDevice m"
  "dmRetry (emit_event ty msg err m) = dmRetry m" "dmCooldown (emit_event ty msg err m) = dmCooldown m"
  "dmPath (emit_event ty msg err m) = dmPath m" "dmAssigned (emit_event ty msg err m) = dmAssigned m"
  "dmLastErr (emit_event ty msg err m) = dmLastErr m" "dmTimer (emit_event ty msg err m) = dmTimer m"
  "dm_ok (emit_event ty msg err m) = dm_ok m"
  by (auto simp: emit_event_def dm_ok_def)

lemma still_responsive_keeps: "still_responsive env m s = (a, m', s') \<Longrightarrow> dm_keeps m m'"
  by (auto simp: still_responsive_def dm_keeps_def dm_ok_def split: option.splits if_splits prod.splits)

lemma try_connect_keeps:
  assumes "try_connect env m s = (r, m', s')"
  shows "dm_keeps m m'"
proof -
  obtain a m1 s1 where a: "still_responsive env m s = (a, m1, s1)" by (metis prod_cases3)
  have "dm_keeps m1 m'"
    using assms a by (auto simp: try_connect_def dm_keeps_def dm_ok_def emit_event_def
        split: if_splits prod.splits sum.splits)
  then show ?thesis using still_responsive_keeps [OF a] dm_keeps_trans by blast
qed

lemma try_connect_connected:
  assumes "try_connect env m s = (None, m', s')"
  shows "dmHasDevice m'"
  using assms
  by (auto simp: try_connect_def still_responsive_def split: if_splits prod.splits sum.splits option.splits)

lemma reconnect_attempts_keeps:
  "reconnect_attempts env force left n e m s = (r, m', s') \<Longrightarrow> dm_keeps m m' \<and> (r = None \<longrightarrow> dmHasDevice m')"
proof (induction env force left n e m s rule: reconnect_attempts.induct)
  case (2 env force left n e m s)
  obtain r1 m1 s1 where t: "try_connect env m s = (r1, m1, s1)" by (metis prod_cases3)
  note k = try_connect_keeps [OF t]
  show ?case
  proof (cases r1)
    case None
    then show ?thesis using 2 t k try_connect_connected [of env m s m1 s1] by auto
  next
    case (Some e1)
    then show ?thesis using 2 t k by (auto split: prod.splits bool.splits intro: dm_keeps_trans)
  qed
qed auto

lemma close_held_keeps: "close_held env m s = (m', s') \<Longrightarrow> dm_keeps m m'"
  by (auto simp: close_held_def dm_keeps_def dm_ok_def split: option.splits if_splits)

lemma reconnect_device_keeps:
  assumes "reconnect_device env force m s = (r, m', s')"
  shows "dm_keeps m m' \<and> (r = None \<longrightarrow> dmHasDevice m')"
proof -
  obtain m1 s1 where c: "close_held env m s = (m1, s1)" by fastforce
  have "dm_keeps m1 m' \<and> (r = None \<longrightarrow> dmHasDevice m')"
    using assms c
    by (auto simp: reconnect_device_def dest!: reconnect_attempts_keeps split: prod.splits bool.splits if_splits)
  then show ?thesis using close_held_keeps [OF c] dm_keeps_trans by blast
qed

lemma dm_close_keeps: "dm_close env m s = (m', s') \<Longrightarrow> dm_keeps m m'"
  by (auto simp: dm_close_def dest!: close_held_keeps intro: dm_keeps_trans
      split: if_splits prod.splits)

lemma dm_ok_update [simp]:
  "dm_ok m \<Longrightarrow> dm_ok (m\<lparr>dmDevice := None, dmHasDevice := False\<rparr>)"
  "dm_ok (m\<lparr>dmPath := p\<rparr>) = dm_ok m" "dm_ok (m\<lparr>dmLastErr := t\<rparr>) = dm_ok m"
  "dm_ok (m\<lparr>dmCooldown := b, dmTimer := d\<rparr>) = dm_ok m" "dm_ok (m\<lparr>dmCooldown := b\<rparr>) = dm_ok m"
  "dm_ok m \<Longrightarrow> n \<le> max_retries \<Longrightarrow> dm_ok (m\<lparr>dmRetry := n\<rparr>)"
  by (simp_all add: dm_ok_def)

lemma enter_cooldown_fields [simp]:
  "dm_ok (enter_cooldown d m) = dm_ok m" "dmCooldown (enter_cooldown d m)"
  "dmHasDevice (enter_cooldown d m) = dmHasDevice m" "dmRetry (enter_cooldown d m) = dmRetry m"
  "dmAssigned (enter_cooldown d m) = dmAssigned m" "dmPath (enter_cooldown d m) = dmPath m"
  by (auto simp: enter_cooldown_def)

lemma drop_device_effect:
  "drop_device env m s = (m', s') \<Longrightarrow> m' = m\<lparr>dmDevice := None, dmHasDevice := False\<rparr>"
  by (auto simp: drop_device_def)

section \<open>What a device error leads to\<close>

text \<open>
  The lane a manager was made for is never changed, and the path it works with only ever returns
  to that lane.
\<close>

definition lane_kept :: "'d device_manager \<Rightarrow> 'd device_manager \<Rightarrow> bool" where
  "lane_kept m m' \<longleftrightarrow> dmAssigned m' = dmAssigned m \<and> (dmPath m' = dmPath m \<or> dmPath m' = dmAssigned m)"

lemma lane_kept_refl [simp]: "lane_kept m m"
  by (simp add: lane_kept_def)

lemma keeps_lane: "dm_keeps m m' \<Longrightarrow> lane_kept m m'"
  by (simp add: dm_keeps_def lane_kept_def)

lemma handle_io_error_effect:
  assumes "handle_io_error env e m s = (cool, m', s')" "dm_ok m"
  shows "dm_ok m' \<and> lane_kept m m' \<and> dmRetry m' = dmRetry m \<and> (cool \<longrightarrow> dmCooldown m' \<and> \<not> dmHasDevice m') \<and>
    (\<not> cool \<longrightarrow> dmCooldown m' = dmCooldown m)"
proof -
  obtain m1 s1 where d: "drop_device env m s = (m1, s1)" by fastforce
  let ?m = "emit_event DeviceDisconnected ''Device closed due to IO/Config error'' (Some e) m1"
  have m1: "m1 = m\<lparr>dmDevice := None, dmHasDevice := False\<rparr>" using drop_device_effect [OF d] .
  obtain r m2 s2 where k: "reconnect_device env True ?m (clkSleep env post_error_pause_time s1) = (r, m2, s2)"
    by (metis prod_cases3)
  have "dm_ok ?m" using assms(2) m1 by simp
  with reconnect_device_keeps [OF k] have "dm_ok m2" "dmRetry m2 = dmRetry m" "dmCooldown m2 = dmCooldown m"
    "dmAssigned m2 = dmAssigned m" "dmPath m2 = dmPath m" by (simp_all add: dm_keeps_def m1)
  then show ?thesis
    using assms d m1 k by (auto simp: handle_io_error_def Let_def lane_kept_def split: if_splits option.splits)
qed

lemma retry_connection_effect:
  assumes "retry_connection env m s = (m', s')" "dm_ok m" "dmRetry m < max_retries"
  shows "dm_ok m' \<and> lane_kept m m' \<and> dmCooldown m' = dmCooldown m \<and>
    (dmRetry m' = dmRetry m + 1 \<or> dmRetry m' = 0 \<and> dmHasDevice m')"
proof -
  let ?m = "emit_event DeviceReconnecting
    (''Retry attempt '' @ decimal (dmRetry m + 1) @ ''/'' @ decimal max_retries) None (m\<lparr>dmRetry := dmRetry m + 1\<rparr>)"
  obtain st s1 where w: "clkWait env (2 ^ dmRetry m * base_delay) s = (st, s1)" by fastforce
  obtain r m2 s2 where k: "reconnect_device env False ?m s1 = (r, m2, s2)" by (metis prod_cases3)
  have ok: "dm_ok ?m" using assms(2,3) by simp
  with reconnect_device_keeps [OF k] have "dm_ok m2" "dmRetry m2 = dmRetry m + 1" "dmCooldown m2 = dmCooldown m"
    "dmAssigned m2 = dmAssigned m" "dmPath m2 = dmPath m" "r = None \<longrightarrow> dmHasDevice m2"
    by (simp_all add: dm_keeps_def)
  then show ?thesis
    using assms w k ok by (auto simp: retry_connection_def Let_def lane_kept_def split: bool.splits option.splits)
qed

lemma give_up_effect:
  assumes "give_up_retrying env e m s = (m', s')" "dm_ok m"
  shows "dm_ok m' \<and> lane_kept m m' \<and> dmRetry m' = 0 \<and> dmCooldown m' \<and> \<not> dmHasDevice m'"
proof -
  obtain m1 s1 where d: "drop_device env m s = (m1, s1)" by fastforce
  show ?thesis
    using assms d drop_device_effect [OF d] by (auto simp: give_up_retrying_def lane_kept_def)
qed

end
