(* ===== verification/Reader.thy ===== *)
theory Reader
  imports DeviceMgr CardWrite
begin

text \<open>
  The reader, \<open>nfc/reader.go\<close> with \<open>nfc/cache.go\<close> and \<open>nfc/password.go\<close>: polling, publishing scans,
  device errors, and the bodies of the tag operations. The operation slot serialises polls and
  operations, so each is one step on the reader's state and on the world of devices and tags; the
  slot and the lease themselves are in \<open>Lease\<close>. What a step cannot decide, such as whether the
  stop channel won a select, is a function of the environment.
\<close>

section \<open>The cache of the last scan\<close>

record tag_cache =
  tcUID :: string
  tcSeen :: "int option"

definition new_tag_cache :: tag_cache where
  "new_tag_cache = \<lparr>tcUID = [], tcSeen = None\<rparr>"

definition cache_has_changed :: "int \<Rightarrow> string \<Rightarrow> tag_cache \<Rightarrow> bool \<times> tag_cache" where
  "cache_has_changed now uid c =
     (let c = c\<lparr>tcSeen := Some now\<rparr>
      in if uid = tcUID c then (False, c) else (True, c\<lparr>tcUID := uid\<rparr>))"

definition cache_is_current :: "int \<Rightarrow> string \<Rightarrow> tag_cache \<Rightarrow> bool \<times> tag_cache" where
  "cache_is_current now uid c = (uid \<noteq> [] \<and> uid = tcUID c, c\<lparr>tcSeen := Some now\<rparr>)"

definition cache_clear :: "tag_cache \<Rightarrow> tag_cache" where
  "cache_clear c = c\<lparr>tcUID := [], tcSeen := None\<rparr>"

definition cache_card_present :: "int \<Rightarrow> tag_cache \<Rightarrow> bool" where
  "cache_card_present now c = (case tcSeen c of None \<Rightarrow> False | Some t \<Rightarrow> now - t < 1000)"

definition cache_seen :: "int \<Rightarrow> tag_cache \<Rightarrow> tag_cache" where
  "cache_seen now c = c\<lparr>tcSeen := Some now\<rparr>"

section \<open>Environment and state\<close>

datatype reader_mode = ModeReadWrite | ModeReadOnly | ModeWriteOnly

datatype signal = SignalSuccess | SignalFailure

record ('d, 's) rd_env =
  reDM :: "('d, 's) dm_env"
  reTags :: "'d \<Rightarrow> 's \<Rightarrow> (go_error + 's tag list) \<times> 's"
  reNow :: "'s \<Rightarrow> int"
  reStopped :: "'s \<Rightarrow> bool"
  reFeedback :: "'d \<Rightarrow> (signal \<Rightarrow> 's \<Rightarrow> 's) option"

record 's nfc_data =
  ndDevice :: string
  ndCard :: "'s card option"
  ndErr :: "go_error option"
  ndRemovedUID :: string

record device_status =
  dsDevice :: string
  dsConnected :: bool
  dsMessage :: string
  dsCardPresent :: bool

record ('d, 's) reader =
  rdDM :: "'d device_manager"
  rdCache :: tag_cache
  rdMode :: reader_mode
  rdCardPresent :: bool
  rdWriting :: bool
  rdLeaseUID :: "string option"
  rdSlotTaken :: bool
  rdFaulted :: bool
  rdFaultedUID :: string
  rdClassicKeys :: "bytes list"
  rdDESFireKeys :: "(byte \<times> bytes) list"
  rdNTAG424Keys :: key_set
  rdFeedbackOn :: bool
  rdSignalling :: bool
  rdData :: "'s nfc_data list"
  rdStatus :: "device_status list"

type_synonym ('d, 's, 'a) rd_step = "('d, 's) reader \<times> 's \<Rightarrow> 'a \<times> ('d, 's) reader \<times> 's"

definition reader_init :: "string \<Rightarrow> key_set \<Rightarrow> ('d, 's) reader" where
  "reader_init path keys =
     \<lparr>rdDM = new_device_manager path, rdCache = new_tag_cache, rdMode = ModeReadWrite, rdCardPresent = False,
      rdWriting = False, rdLeaseUID = None, rdSlotTaken = False, rdFaulted = False, rdFaultedUID = [],
      rdClassicKeys = [], rdDESFireKeys = [], rdNTAG424Keys = keys, rdFeedbackOn = False, rdSignalling = False,
      rdData = [], rdStatus = []\<rparr>"

section \<open>Status\<close>

definition get_device_status :: "('d, 's) rd_env \<Rightarrow> ('d, 's) reader \<Rightarrow> device_status" where
  "get_device_status env r =
     (let m = rdDM r
      in \<lparr>dsDevice = dmPath m, dsConnected = dmHasDevice m,
          dsMessage = (if dmHasDevice m
            then (case dmDevice m of Some d \<Rightarrow> ''Connected to '' @ dvName (reDM env) d | None \<Rightarrow> ''Connected'')
            else if dmCooldown m then ''Device in cooldown'' else ''Not connected''),
          dsCardPresent = rdCardPresent r\<rparr>)"

text \<open>The status channel holds one; a status that does not fit is dropped.\<close>

definition broadcast :: "('d, 's) rd_env \<Rightarrow> string \<Rightarrow> ('d, 's) reader \<Rightarrow> ('d, 's) reader" where
  "broadcast env msg r =
     (let st = get_device_status env r; st = (if msg \<noteq> [] then st\<lparr>dsMessage := msg\<rparr> else st)
      in if rdStatus r = [] then r\<lparr>rdStatus := [st]\<rparr> else r)"

definition clear_fault :: "('d, 's) reader \<Rightarrow> ('d, 's) reader" where
  "clear_fault r = r\<lparr>rdFaulted := False, rdFaultedUID := []\<rparr>"

definition fault_reported :: "string \<Rightarrow> ('d, 's) reader \<Rightarrow> bool \<times> ('d, 's) reader" where
  "fault_reported uid r =
     (if rdFaulted r \<and> rdFaultedUID r = uid then (True, r)
      else (False, r\<lparr>rdFaulted := True, rdFaultedUID := uid\<rparr>))"

definition set_card_present :: "('d, 's) rd_env \<Rightarrow> bool \<Rightarrow> ('d, 's) reader \<Rightarrow> ('d, 's) reader" where
  "set_card_present env present r =
     (if rdCardPresent r = present then r
      else let r = r\<lparr>rdCardPresent := present\<rparr>
           in if present
              then broadcast env (if tcUID (rdCache r) \<noteq> [] then ''Card detected (UID: '' @ tcUID (rdCache r) @ '')''
                                  else ''Card detected'') r
              else broadcast env ''Card removed'' (clear_fault (r\<lparr>rdCache := cache_clear (rdCache r)\<rparr>)))"

definition handle_card_check :: "('d, 's) rd_env \<Rightarrow> ('d, 's) reader \<times> 's \<Rightarrow> ('d, 's) reader \<times> 's" where
  "handle_card_check env = (\<lambda>(r, s).
     let present = cache_card_present (reNow env s) (rdCache r)
     in (if rdCardPresent r \<noteq> present then set_card_present env present r else r, s))"

definition handle_device_event ::
    "('d, 's) rd_env \<Rightarrow> 'd device_event \<Rightarrow> ('d, 's) reader \<Rightarrow> ('d, 's) reader" where
  "handle_device_event env ev r = (case evType ev of
     DeviceConnected \<Rightarrow> broadcast env [] r
   | DeviceDisconnected \<Rightarrow> broadcast env ''Device disconnected'' r
   | DeviceReconnecting \<Rightarrow> broadcast env (''Reconnecting: '' @ evMessage ev) r
   | DeviceReconnectFailed \<Rightarrow> broadcast env (''Connection failed: '' @ evMessage ev) r
   | CooldownStarted \<Rightarrow> broadcast env ''Device in cooldown'' r
   | CooldownEnded \<Rightarrow> broadcast env ''Attempting reconnection after cooldown'' r
   | DeviceError \<Rightarrow> r)"

text \<open>The worker takes the oldest event of the device manager.\<close>

definition take_device_event :: "('d, 's) rd_env \<Rightarrow> ('d, 's) reader \<Rightarrow> ('d, 's) reader" where
  "take_device_event env r = (case dmEvents (rdDM r) of
     [] \<Rightarrow> r
   | ev # evs \<Rightarrow> handle_device_event env ev (r\<lparr>rdDM := (rdDM r)\<lparr>dmEvents := evs\<rparr>\<rparr>))"

text \<open>One signal at a time, on a device that has something to signal with.\<close>

definition reader_signal :: "('d, 's) rd_env \<Rightarrow> signal \<Rightarrow> ('d, 's) reader \<times> 's \<Rightarrow> ('d, 's) reader \<times> 's" where
  "reader_signal env sig = (\<lambda>(r, s).
     if \<not> rdFeedbackOn r then (r, s)
     else case (case dmDevice (rdDM r) of None \<Rightarrow> None | Some d \<Rightarrow> reFeedback env d) of
       None \<Rightarrow> (r, s)
     | Some play \<Rightarrow> if rdSignalling r then (r, s) else (r\<lparr>rdSignalling := True\<rparr>, play sig s))"

section \<open>Tags on the reader\<close>

definition reader_get_tags :: "('d, 's) rd_env \<Rightarrow> ('d, 's) reader \<Rightarrow> 's \<Rightarrow> (go_error + 's tag list) \<times> 's" where
  "reader_get_tags env r s = (case dmDevice (rdDM r) of
     None \<Rightarrow> (Inl (PlainError ''getTags: no device connected or device is nil''), s)
   | Some d \<Rightarrow> (case reTags env d s of
       (Inl e, s') \<Rightarrow> (Inl (Wrapped ''getTags: error from device.GetTags: '' e []), s')
     | (Inr ts, s') \<Rightarrow> (Inr ts, s')))"

definition apply_keys :: "('d, 's) reader \<Rightarrow> 's tag \<Rightarrow> 's \<Rightarrow> 's" where
  "apply_keys r g s =
     (let s = (case (if rdClassicKeys r \<noteq> [] then tgClassicKeys g else None) of Some f \<Rightarrow> f (rdClassicKeys r) s | None \<Rightarrow> s);
          s = (case (if rdDESFireKeys r \<noteq> [] then tgDESFireKeys g else None) of Some f \<Rightarrow> f (rdDESFireKeys r) s | None \<Rightarrow> s)
      in case tgNTAG424Keys g of Some f \<Rightarrow> f (rdNTAG424Keys r) s | None \<Rightarrow> s)"

definition identify :: "('d, 's) reader \<Rightarrow> 's tag \<Rightarrow> 's \<Rightarrow> 's" where
  "identify r g s = (let s = apply_keys r g s in case tgResolve g of Some f \<Rightarrow> f s | None \<Rightarrow> s)"

definition tag_has_uid :: "'s tag \<Rightarrow> 's \<Rightarrow> string \<Rightarrow> bool" where
  "tag_has_uid g s uid \<longleftrightarrow> equal_fold (tgUID g s) uid \<or>
     (case tgAliases g of None \<Rightarrow> False | Some f \<Rightarrow> list_ex (\<lambda>a. equal_fold a uid) (f s))"

definition uid_mismatch :: "string \<Rightarrow> string \<Rightarrow> go_error" where
  "uid_mismatch expected found =
     Wrapped [] (Sentinel ErrTagUIDMismatch)
       ('': request named '' @ expected @ '' but the reader is holding '' @ found)"

definition sole_tag ::
    "('d, 's) rd_env \<Rightarrow> string \<Rightarrow> ('d, 's) reader \<Rightarrow> 's \<Rightarrow> (go_error + 's tag) \<times> 's" where
  "sole_tag env expectUID r s =
     (if \<not> dmHasDevice (rdDM r) then (Inl (PlainError ''no NFC device connected''), s)
      else case reader_get_tags env r s of
        (Inl e, s') \<Rightarrow> (Inl (Wrapped ''failed to get tags: '' e []), s')
      | (Inr [], s') \<Rightarrow> (Inl (PlainError ''no card detected''), s')
      | (Inr [g], s') \<Rightarrow>
          if expectUID \<noteq> [] \<and> \<not> tag_has_uid g s' expectUID
          then (Inl (uid_mismatch expectUID (tgUID g s')), s') else (Inr g, s')
      | (Inr (g # g' # gs), s') \<Rightarrow> (Inl (new_multiple_tags_error [] (length (g # g' # gs))), s'))"

section \<open>Device errors\<close>

definition on_dm ::
    "('d, 's) reader \<Rightarrow> 'd device_manager \<times> 's \<Rightarrow> ('d, 's) reader \<times> 's" where
  "on_dm r ms = (r\<lparr>rdDM := fst ms\<rparr>, snd ms)"

text \<open>The card left: the device is closed for reconnection.\<close>

definition card_gone :: "('d, 's) rd_env \<Rightarrow> ('d, 's) reader \<times> 's \<Rightarrow> ('d, 's) reader \<times> 's" where
  "card_gone env = (\<lambda>(r, s).
     let (r, s) = on_dm r (dm_close (reDM env) (rdDM r) s)
     in (broadcast env ''Card removed, waiting for new card'' (set_card_present env False r), s))"

definition send_data :: "('d, 's) rd_env \<Rightarrow> 's nfc_data \<Rightarrow> ('d, 's) reader \<times> 's \<Rightarrow> bool \<times> ('d, 's) reader \<times> 's" where
  "send_data env d = (\<lambda>(r, s). if reStopped env s then (False, r, s) else (True, r\<lparr>rdData := rdData r @ [d]\<rparr>, s))"

definition handle_device_errors ::
    "('d, 's) rd_env \<Rightarrow> go_error \<Rightarrow> ('d, 's) reader \<times> 's \<Rightarrow> ('d, 's) reader \<times> 's" where
  "handle_device_errors env e = (\<lambda>(r, s).
     let r = r\<lparr>rdWriting := False\<rparr>
     in if is_card_removed_error e then card_gone env (r, s)
        else if is_unsupported_tag_error e
        then (broadcast env ''Unsupported tag, please use a different card'' (set_card_present env True r), s)
        else let (cool, m, s) = handle_error (reDM env) e (rdDM r) s; r = r\<lparr>rdDM := m\<rparr>;
                 recognized = is_io_error e \<or> is_device_config_error e \<or> is_timeout_error e \<or> is_device_closed_error e
             in if cool then (broadcast env ''Device in cooldown'' r, s)
                else if dmHasDevice m
                then (broadcast env [] r, if recognized then s else clkSleep (reDM env) 1000 s)
                else if recognized then (r, s)
                else let (sent, r, s) = send_data env
                           \<lparr>ndDevice = dmPath m, ndCard = None,
                            ndErr = Some (PlainError (''get tags error: '' @ error_text e)), ndRemovedUID = []\<rparr> (r, s)
                     in if sent then (r, clkSleep (reDM env) 1000 s) else (r, s))"

section \<open>Polling\<close>

text \<open>In write-only mode a card is only noted, so that writes can proceed.\<close>

fun note_tags :: "('d, 's) rd_env \<Rightarrow> 's tag list \<Rightarrow> ('d, 's) reader \<times> 's \<Rightarrow> ('d, 's) reader \<times> 's" where
  "note_tags env [] rs = rs"
| "note_tags env (g # gs) (r, s) =
     (let uid = tgUID g s
      in note_tags env gs
           (if uid \<noteq> [] then r\<lparr>rdCache := snd (cache_has_changed (reNow env s) uid (cache_seen (reNow env s) (rdCache r)))\<rparr>
            else r, s))"

definition scan_of :: "('d, 's) reader \<Rightarrow> 's card \<Rightarrow> go_error option \<Rightarrow> 's nfc_data" where
  "scan_of r c e = \<lparr>ndDevice = dmPath (rdDM r), ndCard = Some c, ndErr = e, ndRemovedUID = []\<rparr>"

text \<open>
  A card that was read is published when it is not the last one; one that could not be read is
  published with its error, once. The flag says whether the loop over the tags goes on.
\<close>

definition publish_scan ::
    "('d, 's) rd_env \<Rightarrow> 's card \<Rightarrow> string \<Rightarrow> ('d, 's) reader \<times> 's \<Rightarrow> bool \<times> ('d, 's) reader \<times> 's" where
  "publish_scan env c uid = (\<lambda>(r, s).
     let (new, cache) = cache_has_changed (reNow env s) uid (rdCache r); r = r\<lparr>rdCache := cache\<rparr>
     in if new
        then let (sent, r, s) = send_data env (scan_of r c None) (clear_fault r, s)
             in if sent then let (r, s) = reader_signal env SignalSuccess (r, s) in (True, r, clkSleep (reDM env) 100 s)
                else (False, r, s)
        else (True, r, clkSleep (reDM env) 100 s))"

definition publish_tag ::
    "('d, 's) rd_env \<Rightarrow> 's tag \<Rightarrow> string \<Rightarrow> ('d, 's) reader \<times> 's \<Rightarrow> bool \<times> ('d, 's) reader \<times> 's" where
  "publish_tag env g uid = (\<lambda>(r, s).
     let (msg, c, s) = card_read_message (new_card g s) s
     in case msg of
          Inr m \<Rightarrow> publish_scan env c uid (r, s)
        | Inl e \<Rightarrow>
            if is_no_payload_error e then publish_scan env c uid (r, s)
            else if is_card_removed_error e then (False, card_gone env (r, s))
            else let (seen, r) = fault_reported uid r
                 in if seen then (True, r, s) else send_data env (scan_of r c (Some e)) (r, s))"

fun poll_tags :: "('d, 's) rd_env \<Rightarrow> 's tag list \<Rightarrow> ('d, 's) reader \<times> 's \<Rightarrow> ('d, 's) reader \<times> 's" where
  "poll_tags env [] rs = rs"
| "poll_tags env (g # gs) (r, s) =
     (let s = identify r g s; uid = tgUID g s;
          r = (if uid \<noteq> [] then r\<lparr>rdCache := cache_seen (reNow env s) (rdCache r)\<rparr> else r);
          (current, cache) = (if uid \<noteq> [] then cache_is_current (reNow env s) uid (rdCache r) else (False, rdCache r));
          r = r\<lparr>rdCache := cache\<rparr>
      in if current then poll_tags env gs (r, s)
         else let (go_on, rs) = publish_tag env g uid (r, s) in if go_on then poll_tags env gs rs else rs)"

definition handle_tag_polling ::
    "('d, 's) rd_env \<Rightarrow> 's tag list \<Rightarrow> ('d, 's) reader \<times> 's \<Rightarrow> ('d, 's) reader \<times> 's" where
  "handle_tag_polling env gs rs =
     (if rdMode (fst rs) = ModeWriteOnly then note_tags env gs rs else poll_tags env gs rs)"

text \<open>No device is held: one is looked for when no path is set, and then opened.\<close>

definition poll_open :: "('d, 's) rd_env \<Rightarrow> ('d, 's) reader \<times> 's \<Rightarrow> ('d, 's) reader \<times> 's" where
  "poll_open env = (\<lambda>(r, s).
     case try_connect (reDM env) (rdDM r) s of
       (None, m, s) \<Rightarrow> (r\<lparr>rdDM := clear_last_error m\<rparr>, s)
     | (Some e, m, s) \<Rightarrow> (r\<lparr>rdDM := if is_no_card_error e then m else snd (record_error e m)\<rparr>, s))"

definition poll_connect :: "('d, 's) rd_env \<Rightarrow> ('d, 's) reader \<times> 's \<Rightarrow> ('d, 's) reader \<times> 's" where
  "poll_connect env = (\<lambda>(r, s).
     if dmPath (rdDM r) = []
     then (case mgReaders (reDM env) s of
             (Inl e, s) \<Rightarrow> (r, s)
           | (Inr [], s) \<Rightarrow> (r, s)
           | (Inr (p # ps), s) \<Rightarrow> poll_open env (r\<lparr>rdDM := (rdDM r)\<lparr>dmPath := p\<rparr>\<rparr>, s))
     else poll_open env (r, s))"

definition do_poll :: "('d, 's) rd_env \<Rightarrow> ('d, 's) reader \<times> 's \<Rightarrow> ('d, 's) reader \<times> 's" where
  "do_poll env = (\<lambda>(r, s).
     if dmCooldown (rdDM r) then (r, s)
     else if \<not> dmHasDevice (rdDM r) then poll_connect env (r, s)
     else if rdWriting r then (r, s)
     else if rdLeaseUID r \<noteq> None then (r\<lparr>rdCache := cache_seen (reNow env s) (rdCache r)\<rparr>, s)
     else if rdSlotTaken r then (r, s)
     else (case reader_get_tags env r s of
         (Inl e, s) \<Rightarrow> handle_device_errors env e (r, s)
       | (Inr gs, s) \<Rightarrow> if gs \<noteq> [] then handle_tag_polling env gs (r, s) else (r, s)))"

end
