(* ===== verification/ReaderOps.thy ===== *)
theory ReaderOps
  imports Reader
begin

text \<open>
  The tag operations of \<open>nfc/reader.go\<close> and \<open>nfc/password.go\<close>, each the closure the reader runs
  while it holds the operation slot; then the reader as a transition system and what every
  reachable state of it satisfies.
\<close>

section \<open>Preparing a card for a write\<close>

definition prepare_card_for_write ::
    "('d, 's) rd_env \<Rightarrow> string \<Rightarrow> ('d, 's) reader \<times> 's \<Rightarrow> (go_error + 's card) \<times> ('d, 's) reader \<times> 's" where
  "prepare_card_for_write env expectUID = (\<lambda>(r, s).
     if rdMode r = ModeReadOnly
     then (Inl (PlainError ''reader is in read-only mode, write operations are not allowed''), r, s)
     else if \<not> dmHasDevice (rdDM r) then (Inl (PlainError ''no NFC device connected''), r, s)
     else let r = r\<lparr>rdWriting := True\<rparr>
          in case reader_get_tags env r s of
            (Inl e, s) \<Rightarrow> (Inl (Wrapped ''failed to get tags for writing: '' e []), r, s)
          | (Inr [], s) \<Rightarrow> (Inl (PlainError ''no card detected for writing''), r, s)
          | (Inr (g # g' # gs), s) \<Rightarrow> (Inl (new_multiple_tags_error ''WriteData'' (length (g # g' # gs))), r, s)
          | (Inr [g], s) \<Rightarrow>
              (let s = identify r g s
               in if expectUID \<noteq> [] \<and> \<not> tag_has_uid g s expectUID
                  then (Inl (uid_mismatch expectUID (tgUID g s)), r, s)
                  else let known = tcUID (rdCache r); now = reNow env s
                       in if known = []
                          then let r = r\<lparr>rdCache := snd (cache_has_changed now (tgUID g s) (cache_seen now (rdCache r)))\<rparr>;
                                   s = apply_keys r g s
                               in (Inr (new_card g s), r, s)
                          else if known \<noteq> tgUID g s
                          then (Inl (PlainError (''tag UID mismatch: cache has '' @ known @ '' but detected tag is ''
                                  @ tgUID g s)), r, s)
                          else let s = apply_keys r g s in (Inr (new_card g s), r, s)))"

text \<open>The operations that write share their frame: prepare, run, and clear the flag on the way out.\<close>

definition with_prepared_card ::
    "('d, 's) rd_env \<Rightarrow> string \<Rightarrow> ('s card \<Rightarrow> ('d, 's) reader \<times> 's \<Rightarrow> (go_error + 'a) \<times> ('d, 's) reader \<times> 's)
      \<Rightarrow> ('d, 's) reader \<times> 's \<Rightarrow> (go_error + 'a) \<times> ('d, 's) reader \<times> 's" where
  "with_prepared_card env expectUID body rs =
     (case prepare_card_for_write env expectUID rs of
        (Inl e, r, s) \<Rightarrow> (Inl e, r, s)
      | (Inr c, r, s) \<Rightarrow> (case body c (r, s) of (res, r, s) \<Rightarrow> (res, r\<lparr>rdWriting := False\<rparr>, s)))"

definition of_card :: "'s card \<Rightarrow> string" where
  "of_card c = cUID c @ '' (Type: '' @ cType c @ ''): ''"

definition signalled ::
    "('d, 's) rd_env \<Rightarrow> string \<Rightarrow> (go_error + 'a) \<Rightarrow> ('d, 's) reader \<times> 's
      \<Rightarrow> (go_error + 'a) \<times> ('d, 's) reader \<times> 's" where
  "signalled env what res rs =
     (case res of
        Inl e \<Rightarrow> (Inl (Wrapped what e []), reader_signal env SignalFailure rs)
      | Inr x \<Rightarrow> (Inr x, reader_signal env SignalSuccess rs))"

definition write_message_with_result ::
    "('d, 's) rd_env \<Rightarrow> ndef_record list \<Rightarrow> write_options \<Rightarrow> ('d, 's) reader \<times> 's
      \<Rightarrow> (go_error + write_result) \<times> ('d, 's) reader \<times> 's" where
  "write_message_with_result env msg opts =
     with_prepared_card env (woExpectUID opts) (\<lambda>c (r, s).
       let (res, c', s) = write_message (clkSleep (reDM env)) c msg opts s
       in signalled env (''failed to write to card UID '' @ of_card c) res (r, s))"

definition overwrite_options :: write_options where
  "overwrite_options =
     \<lparr>woOverwrite = True, woIndex = -1, woForceInit = False, woExpectUID = [], woSkipVerify = False,
      woMaxAttempts = 0, woSkipCapacity = False, woLock = False\<rparr>"

definition write_card_data ::
    "('d, 's) rd_env \<Rightarrow> bytes \<Rightarrow> ('d, 's) reader \<times> 's \<Rightarrow> (go_error + write_result) \<times> ('d, 's) reader \<times> 's" where
  "write_card_data env txt =
     write_message_with_result env [to_record (BText txt (ascii ''en''))] overwrite_options"

definition erase_card ::
    "('d, 's) rd_env \<Rightarrow> ('d, 's) reader \<times> 's \<Rightarrow> (go_error + write_result) \<times> ('d, 's) reader \<times> 's" where
  "erase_card env = write_message_with_result env [to_record BEmpty] overwrite_options"

definition lock_card_expecting ::
    "('d, 's) rd_env \<Rightarrow> string \<Rightarrow> ('d, 's) reader \<times> 's \<Rightarrow> (go_error + lock_result) \<times> ('d, 's) reader \<times> 's" where
  "lock_card_expecting env expectUID =
     with_prepared_card env expectUID (\<lambda>c (r, s).
       let (res, s) = lock_card c s
       in signalled env (''failed to lock card UID '' @ of_card c) res (r, s))"

record password_result =
  pwUID :: string
  pwType :: string
  pwProtected :: bool

definition password_not_enabled :: "'s card \<Rightarrow> 's \<Rightarrow> (go_error + unit) \<times> 's" where
  "password_not_enabled c s =
     (Inl (new_not_supported_error ''password protection (not yet enabled; pending hardware validation)''), s)"

definition password_operation ::
    "('d, 's) rd_env \<Rightarrow> string \<Rightarrow> ('s card \<Rightarrow> 's \<Rightarrow> (go_error + unit) \<times> 's) \<Rightarrow> ('d, 's) reader \<times> 's
      \<Rightarrow> (go_error + password_result) \<times> ('d, 's) reader \<times> 's" where
  "password_operation env op f =
     with_prepared_card env [] (\<lambda>c (r, s).
       if \<not> capPassword (tgCaps (cTag c) s)
       then (Inl (new_not_supported_error (op @ '' (tag type '' @ cType c @ '' does not support password protection)'')), r, s)
       else case f c s of
         (Inl e, s) \<Rightarrow> (Inl (Wrapped (op @ '' failed for UID '' @ of_card c) e []), r, s)
       | (Inr u, s) \<Rightarrow> (Inr \<lparr>pwUID = cUID c, pwType = cType c, pwProtected = (op = ''SetPassword'')\<rparr>, r, s))"

definition set_card_password ::
    "('d, 's) rd_env \<Rightarrow> ('d, 's) reader \<times> 's \<Rightarrow> (go_error + password_result) \<times> ('d, 's) reader \<times> 's" where
  "set_card_password env = password_operation env ''SetPassword'' password_not_enabled"

definition remove_card_password ::
    "('d, 's) rd_env \<Rightarrow> ('d, 's) reader \<times> 's \<Rightarrow> (go_error + password_result) \<times> ('d, 's) reader \<times> 's" where
  "remove_card_password env = password_operation env ''RemovePassword'' password_not_enabled"

section \<open>Operations that do not write\<close>

definition get_capabilities_expecting ::
    "('d, 's) rd_env \<Rightarrow> ('s tag \<Rightarrow> 's \<Rightarrow> 's) \<Rightarrow> string \<Rightarrow> ('d, 's) reader \<times> 's
      \<Rightarrow> (go_error + tag_caps) \<times> ('d, 's) reader \<times> 's" where
  "get_capabilities_expecting env probe expectUID = (\<lambda>(r, s).
     case sole_tag env expectUID r s of
       (Inl e, s) \<Rightarrow> (Inl e, r, s)
     | (Inr g, s) \<Rightarrow> let s = probe g (apply_keys r g s) in (Inr (tgCaps g s), r, s))"

definition transceive_expecting ::
    "('d, 's) rd_env \<Rightarrow> bytes \<Rightarrow> string \<Rightarrow> ('d, 's) reader \<times> 's \<Rightarrow> (go_error + bytes) \<times> ('d, 's) reader \<times> 's" where
  "transceive_expecting env data expectUID = (\<lambda>(r, s).
     if data = [] then (Inl (PlainError ''no command bytes to send''), r, s)
     else case sole_tag env expectUID r s of
       (Inl e, s) \<Rightarrow> (Inl e, r, s)
     | (Inr g, s) \<Rightarrow>
         if \<not> capCanTransceive (tgCaps g s) then (Inl (new_not_supported_error ''Transceive''), r, s)
         else case tgTransceive g data s of (res, s) \<Rightarrow> (res, r, s))"

definition transceive_raw_expecting ::
    "('d, 's) rd_env \<Rightarrow> bytes \<Rightarrow> string \<Rightarrow> ('d, 's) reader \<times> 's \<Rightarrow> (go_error + bytes) \<times> ('d, 's) reader \<times> 's" where
  "transceive_raw_expecting env frame expectUID = (\<lambda>(r, s).
     if frame = [] then (Inl (PlainError ''no command bytes to send''), r, s)
     else case sole_tag env expectUID r s of
       (Inl e, s) \<Rightarrow> (Inl e, r, s)
     | (Inr g, s) \<Rightarrow> (case tgTransceiveRaw g of
         None \<Rightarrow> (Inl (new_not_supported_error ''TransceiveRaw''), r, s)
       | Some f \<Rightarrow> (case f frame s of (res, s) \<Rightarrow> (res, r, s))))"

section \<open>The reader as a transition system\<close>

text \<open>
  The steps of the worker, of the callers and of the goroutines beside them. Nothing else in the
  program changes the reader's state.
\<close>

inductive reader_step ::
    "('d, 's) rd_env \<Rightarrow> ('d, 's) reader \<times> 's \<Rightarrow> ('d, 's) reader \<times> 's \<Rightarrow> bool"
  for env where
  step_poll: "reader_step env rs (do_poll env rs)"
| step_check: "reader_step env rs (handle_card_check env rs)"
| step_event: "reader_step env (r, s) (take_device_event env r, s)"
| step_status_read: "reader_step env (r, s) (r\<lparr>rdStatus := []\<rparr>, s)"
| step_write: "reader_step env rs (snd (write_message_with_result env msg opts rs))"
| step_lock: "reader_step env rs (snd (lock_card_expecting env uid rs))"
| step_password: "reader_step env rs (snd (password_operation env op password_not_enabled rs))"
| step_capabilities: "reader_step env rs (snd (get_capabilities_expecting env probe uid rs))"
| step_transceive: "reader_step env rs (snd (transceive_expecting env data uid rs))"
| step_transceive_raw: "reader_step env rs (snd (transceive_raw_expecting env data uid rs))"
| step_mode: "reader_step env (r, s) (r\<lparr>rdMode := m\<rparr>, s)"
| step_keys: "reader_step env (r, s) (r\<lparr>rdClassicKeys := ck, rdDESFireKeys := dk, rdNTAG424Keys := nk\<rparr>, s)"
| step_feedback: "reader_step env (r, s) (r\<lparr>rdFeedbackOn := on\<rparr>, s)"
| step_signalled: "reader_step env (r, s) (r\<lparr>rdSignalling := False\<rparr>, s)"
| step_lease: "reader_step env (r, s) (r\<lparr>rdLeaseUID := l, rdSlotTaken := t\<rparr>, s)"
| step_world: "reader_step env (r, s) (r, s')"

text \<open>
  What holds of every reader: the device manager's own invariant, no device held in a cooldown,
  a reader that was given a lane never works with another, at most one status waits, and a fault
  is remembered with its card or not at all.
\<close>

definition dm_reader_ok :: "'d device_manager \<Rightarrow> bool" where
  "dm_reader_ok m \<longleftrightarrow> dm_ok m \<and> (dmCooldown m \<longrightarrow> \<not> dmHasDevice m) \<and>
     (dmAssigned m \<noteq> [] \<longrightarrow> dmPath m = dmAssigned m)"

definition reader_ok :: "('d, 's) reader \<Rightarrow> bool" where
  "reader_ok r \<longleftrightarrow> dm_reader_ok (rdDM r) \<and> length (rdStatus r) \<le> 1 \<and> (\<not> rdFaulted r \<longrightarrow> rdFaultedUID r = [])"

text \<open>
  What a part of a step may do to the device manager and to the reader, as far as the invariant is
  concerned. A cooldown, once begun, stays.
\<close>

definition dm_step :: "'d device_manager \<Rightarrow> 'd device_manager \<Rightarrow> bool" where
  "dm_step m m' \<longleftrightarrow> (dm_reader_ok m \<longrightarrow>
     dm_reader_ok m' \<and> dmAssigned m' = dmAssigned m \<and> (dmCooldown m \<longrightarrow> dmCooldown m'))"

definition keeps_ok :: "('d, 's) reader \<Rightarrow> ('d, 's) reader \<Rightarrow> bool" where
  "keeps_ok r r' \<longleftrightarrow> (reader_ok r \<longrightarrow>
     reader_ok r' \<and> dmAssigned (rdDM r') = dmAssigned (rdDM r) \<and> (dmCooldown (rdDM r) \<longrightarrow> dmCooldown (rdDM r')))"

lemma keeps_ok_refl [simp]: "keeps_ok r r"
  by (simp add: keeps_ok_def)

lemma keeps_ok_trans: "keeps_ok a b \<Longrightarrow> keeps_ok b c \<Longrightarrow> keeps_ok a c"
  by (simp add: keeps_ok_def)

text \<open>Steps that leave the device manager, the status and the fault alone.\<close>

lemma keeps_ok_same:
  "rdDM r' = rdDM r \<Longrightarrow> rdStatus r' = rdStatus r \<Longrightarrow> rdFaulted r' = rdFaulted r \<Longrightarrow> rdFaultedUID r' = rdFaultedUID r \<Longrightarrow>
   keeps_ok r r'"
  by (simp add: keeps_ok_def reader_ok_def)

lemma keeps_ok_dm: "dm_step (rdDM r) m \<Longrightarrow> keeps_ok r (r\<lparr>rdDM := m\<rparr>)"
  by (simp add: keeps_ok_def reader_ok_def dm_step_def)

lemma keeps_ok_parts [simp]:
  "keeps_ok r (broadcast env msg r)" "keeps_ok r (clear_fault r)" "keeps_ok r (snd (fault_reported uid r))"
  "keeps_ok r (r\<lparr>rdWriting := b\<rparr>)" "keeps_ok r (r\<lparr>rdCache := c\<rparr>)" "keeps_ok r (r\<lparr>rdData := d\<rparr>)"
  "keeps_ok r (r\<lparr>rdCardPresent := p\<rparr>)" "keeps_ok r (r\<lparr>rdSignalling := q\<rparr>)"
  by (simp_all add: keeps_ok_def reader_ok_def broadcast_def clear_fault_def fault_reported_def Let_def)

text \<open>The same, after another part.\<close>

lemma keeps_ok_then:
  assumes "keeps_ok r r1"
  shows "keeps_ok r (broadcast env msg r1)" "keeps_ok r (clear_fault r1)" "keeps_ok r (snd (fault_reported uid r1))"
    "keeps_ok r (r1\<lparr>rdWriting := b\<rparr>)" "keeps_ok r (r1\<lparr>rdCache := c\<rparr>)"
  by (rule keeps_ok_trans [OF assms], simp)+

lemma set_card_present_keeps [simp]: "keeps_ok r (set_card_present env p r)"
proof -
  have "keeps_ok r (broadcast env m (clear_fault (r\<lparr>rdCardPresent := q, rdCache := c\<rparr>)))" for m q c
    by (intro keeps_ok_then keeps_ok_same) simp_all
  moreover have "keeps_ok r (broadcast env m (r\<lparr>rdCardPresent := q\<rparr>))" for m q
    by (intro keeps_ok_then keeps_ok_same) simp_all
  ultimately show ?thesis by (simp add: set_card_present_def Let_def)
qed

lemma reader_signal_keeps: "keeps_ok (fst rs) (fst (reader_signal env sig rs))"
  by (auto simp: reader_signal_def split: prod.split option.split)

lemma send_data_keeps: "send_data env d (r, s) = (b, r', s') \<Longrightarrow> keeps_ok r r'"
  by (auto simp: send_data_def split: if_splits)

lemma dm_keeps_step: "dm_keeps m m' \<Longrightarrow> \<not> dmCooldown m \<Longrightarrow> dm_step m m'"
  by (simp add: dm_keeps_def dm_step_def dm_reader_ok_def)

lemma dm_close_step:
  assumes "dm_close env m s = (m', s')"
  shows "dm_step m m'"
proof -
  have "dmHasDevice m' \<longrightarrow> dmHasDevice m"
    using assms by (auto simp: dm_close_def close_held_def Let_def split: if_splits prod.splits option.splits)
  then show ?thesis using dm_close_keeps [OF assms] by (auto simp: dm_keeps_def dm_step_def dm_reader_ok_def)
qed

lemma card_gone_keeps: "keeps_ok (fst rs) (fst (card_gone env rs))"
proof (cases rs)
  case (Pair r s)
  obtain m s' where c: "dm_close (reDM env) (rdDM r) s = (m, s')" by fastforce
  have "keeps_ok r (broadcast env msg (set_card_present env False (r\<lparr>rdDM := m\<rparr>)))" for msg
    by (intro keeps_ok_then keeps_ok_trans [OF keeps_ok_dm [OF dm_close_step [OF c]]]) simp
  then show ?thesis using Pair c by (simp add: card_gone_def on_dm_def)
qed

lemma handle_error_step:
  assumes "handle_error env e m s = (cool, m', s')" "\<not> dmCooldown m"
  shows "dm_step m m'"
proof -
  let ?m = "snd (record_error e m)"
  have m: "dmCooldown ?m = dmCooldown m" "dmHasDevice ?m = dmHasDevice m" "dmRetry ?m = dmRetry m"
    "dmAssigned ?m = dmAssigned m" "dmPath ?m = dmPath m" "dm_ok ?m = dm_ok m"
    by (simp_all add: record_error_def)
  have "dm_reader_ok m' \<and> dmAssigned m' = dmAssigned m" if ok: "dm_ok m" "dmAssigned m \<noteq> [] \<longrightarrow> dmPath m = dmAssigned m"
  proof -
    have okm: "dm_ok ?m" using ok m by simp
    consider "m' = clear_last_error m" | "m' = ?m" | b s1 where "handle_io_error env e ?m s = (b, m', s1)"
      | s1 where "retry_connection env ?m s = (m', s1)" "dmRetry ?m < max_retries"
      | s1 where "give_up_retrying env e ?m s = (m', s1)"
      using assms(1) by (auto simp: handle_error_def Let_def m split: if_splits prod.splits)
    then show ?thesis
    proof cases
      case 1
      then show ?thesis using ok assms(2) by (simp add: clear_last_error_def dm_reader_ok_def)
    next
      case 2
      then show ?thesis using ok m assms(2) by (simp add: dm_reader_ok_def)
    next
      case 3
      from handle_io_error_effect [OF this okm] show ?thesis
        using ok m assms(2) by (cases b) (auto simp: dm_reader_ok_def lane_kept_def)
    next
      case 4
      from retry_connection_effect [OF this(1) okm this(2)] show ?thesis
        using ok m assms(2) by (auto simp: dm_reader_ok_def lane_kept_def)
    next
      case 5
      from give_up_effect [OF this okm] show ?thesis
        using ok m assms(2) by (auto simp: dm_reader_ok_def lane_kept_def)
    qed
  qed
  then show ?thesis using assms(2) by (auto simp: dm_step_def dm_reader_ok_def [of m])
qed

text \<open>The reader after a step of a computation that passes it along with the world.\<close>

abbreviation keeps_pair :: "('d, 's) reader \<times> 's \<Rightarrow> ('d, 's) reader \<times> 's \<Rightarrow> bool" where
  "keeps_pair rs rs' \<equiv> keeps_ok (fst rs) (fst rs')"

lemma handle_device_errors_keeps:
  assumes "\<not> dmCooldown (rdDM (fst rs))"
  shows "keeps_pair rs (handle_device_errors env e rs)"
proof (cases rs)
  case (Pair r s)
  let ?r = "r\<lparr>rdWriting := False\<rparr>"
  have w: "keeps_ok r ?r" by simp
  have gone: "keeps_ok r (fst (card_gone env (?r, s)))"
    using keeps_ok_trans [OF w] card_gone_keeps [of "(?r, s)" env] by simp
  have unsupported: "keeps_ok r (broadcast env msg (set_card_present env True ?r))" for msg
    using keeps_ok_trans [OF w set_card_present_keeps] by (rule keeps_ok_then)
  obtain cool m s1 where h: "handle_error (reDM env) e (rdDM ?r) s = (cool, m, s1)" by (metis prod_cases3)
  have d: "keeps_ok r (?r\<lparr>rdDM := m\<rparr>)"
    using keeps_ok_trans [OF w keeps_ok_dm [OF handle_error_step [OF h]]] assms Pair by simp
  then have b: "keeps_ok r (broadcast env msg (?r\<lparr>rdDM := m\<rparr>))" for msg by (rule keeps_ok_then)
  have sent: "keeps_ok r r2" if "send_data env dat (?r\<lparr>rdDM := m\<rparr>, s1) = (bb, r2, s2)" for dat bb r2 s2
    using keeps_ok_trans [OF d send_data_keeps [OF that]] .
  show ?thesis
    using Pair gone unsupported h b d
    by (auto simp: handle_device_errors_def Let_def dest: sent split: prod.split)
qed

lemma note_tags_keeps: "keeps_pair rs (note_tags env gs rs)"
proof (induction env gs rs rule: note_tags.induct)
  case (2 env g gs r s)
  then show ?case using keeps_ok_trans [OF keeps_ok_parts(5)] by (auto simp: Let_def split: if_splits)
qed simp

lemma publish_scan_keeps:
  assumes "publish_scan env c uid (r, s) = (b, r', s')"
  shows "keeps_ok r r'"
proof -
  obtain new cache where h: "cache_has_changed (reNow env s) uid (rdCache r) = (new, cache)" by fastforce
  let ?r = "clear_fault (r\<lparr>rdCache := cache\<rparr>)"
  have k: "keeps_ok r ?r" by (intro keeps_ok_then keeps_ok_refl)
  obtain sent r1 s1 where d: "send_data env (scan_of (r\<lparr>rdCache := cache\<rparr>) c None) (?r, s) = (sent, r1, s1)"
    by (metis prod_cases3)
  note k1 = keeps_ok_trans [OF k send_data_keeps [OF d]]
  have "keeps_ok r (fst (reader_signal env SignalSuccess (r1, s1)))"
    using keeps_ok_trans [OF k1] reader_signal_keeps [of "(r1, s1)"] by simp
  then show ?thesis
    using assms h d k k1 by (auto simp: publish_scan_def Let_def split: if_splits prod.splits)
qed

lemma publish_tag_keeps:
  assumes "publish_tag env g uid (r, s) = (b, r', s')"
  shows "keeps_ok r r'"
proof -
  obtain msg c s1 where m: "card_read_message (new_card g s) s = (msg, c, s1)" by (metis prod_cases3)
  have gone: "keeps_ok r (fst (card_gone env (r, s1)))" using card_gone_keeps [of "(r, s1)"] by simp
  obtain seen rf where q: "fault_reported uid r = (seen, rf)" by fastforce
  have f: "keeps_ok r rf" using keeps_ok_parts(3) [of r uid] q by simp
  show ?thesis
  proof (cases "publish_scan env c uid (r, s1) = (b, r', s')")
    case True
    then show ?thesis by (rule publish_scan_keeps)
  next
    case False
    then obtain e where e: "msg = Inl e" "\<not> is_no_payload_error e"
      using assms m by (cases msg) (auto simp: publish_tag_def split: if_splits)
    show ?thesis
    proof (cases "is_card_removed_error e")
      case True
      then show ?thesis using assms m e gone by (simp add: publish_tag_def)
    next
      case False
      then consider "r' = rf" | dat where "send_data env dat (rf, s1) = (b, r', s')"
        using assms m e q by (auto simp: publish_tag_def split: if_splits)
      then show ?thesis using f keeps_ok_trans [OF f send_data_keeps] by cases auto
    qed
  qed
qed

lemma poll_tags_keeps: "keeps_pair rs (poll_tags env gs rs)"
proof (induction env gs rs rule: poll_tags.induct)
  case (2 env g gs r s)
  let ?s = "identify r g s"
  let ?uid = "tgUID g ?s"
  let ?r1 = "if ?uid \<noteq> [] then r\<lparr>rdCache := cache_seen (reNow env ?s) (rdCache r)\<rparr> else r"
  obtain current cache where c: "(if ?uid \<noteq> [] then cache_is_current (reNow env ?s) ?uid (rdCache ?r1)
      else (False, rdCache ?r1)) = (current, cache)" by fastforce
  let ?r2 = "?r1\<lparr>rdCache := cache\<rparr>"
  have k: "keeps_ok r ?r2" by (intro keeps_ok_then) simp
  obtain b r3 s3 where p: "publish_tag env g ?uid (?r2, ?s) = (b, r3, s3)" by (metis prod_cases3)
  note k3 = keeps_ok_trans [OF k publish_tag_keeps [OF p]]
  show ?case
  proof (cases current)
    case True
    have "keeps_pair (?r2, ?s) (poll_tags env gs (?r2, ?s))" using 2(1) [OF refl refl refl c [symmetric] refl refl True] by simp
    then show ?thesis using keeps_ok_trans [OF k] c True by (simp add: Let_def)
  next
    case False
    show ?thesis
    proof (cases b)
      case True
      have "keeps_pair (r3, s3) (poll_tags env gs (r3, s3))"
        using 2(2) [OF refl refl refl c [symmetric] refl refl False p [symmetric]] True by simp
      then show ?thesis using keeps_ok_trans [OF k3] c False p True by (simp add: Let_def)
    next
      case False
      then show ?thesis using k3 c p \<open>\<not> current\<close> by (simp add: Let_def)
    qed
  qed
qed simp

lemma try_connect_step: "try_connect env m s = (e, m', s') \<Longrightarrow> \<not> dmCooldown m \<Longrightarrow> dm_step m m'"
  by (blast intro: dm_keeps_step try_connect_keeps)

lemma dm_last_err_step:
  "\<not> dmCooldown m \<Longrightarrow> dm_step m m' \<Longrightarrow> dm_step m (clear_last_error m')"
  "\<not> dmCooldown m \<Longrightarrow> dm_step m m' \<Longrightarrow> dm_step m (snd (record_error e m'))"
  by (auto simp: dm_step_def dm_reader_ok_def clear_last_error_def record_error_def)

lemma poll_open_keeps:
  assumes "\<not> dmCooldown (rdDM r)"
  shows "keeps_ok r (fst (poll_open env (r, s)))"
proof -
  obtain e m s1 where t: "try_connect (reDM env) (rdDM r) s = (e, m, s1)" by (metis prod_cases3)
  have "dm_step (rdDM r) m" using try_connect_step [OF t assms] .
  then show ?thesis using t dm_last_err_step [OF assms] by (cases e) (auto simp: poll_open_def intro: keeps_ok_dm)
qed

lemma poll_connect_keeps:
  assumes "\<not> dmCooldown (rdDM (fst rs))"
  shows "keeps_pair rs (poll_connect env rs)"
proof (cases rs)
  case (Pair r s)
  have "keeps_ok r (fst (poll_open env (r\<lparr>rdDM := (rdDM r)\<lparr>dmPath := p\<rparr>\<rparr>, s1)))" if "dmPath (rdDM r) = []" for p s1
  proof (rule keeps_ok_trans)
    show "keeps_ok r (r\<lparr>rdDM := (rdDM r)\<lparr>dmPath := p\<rparr>\<rparr>)"
      using that by (intro keeps_ok_dm) (auto simp: dm_step_def dm_reader_ok_def)
  qed (use assms Pair in \<open>simp add: poll_open_keeps\<close>)
  then show ?thesis
    using Pair assms poll_open_keeps [of r env s] by (auto simp: poll_connect_def split: prod.split sum.split list.split)
qed

lemma handle_tag_polling_keeps: "keeps_pair rs (handle_tag_polling env gs rs)"
  by (simp add: handle_tag_polling_def note_tags_keeps poll_tags_keeps)

lemma do_poll_keeps: "keeps_pair rs (do_poll env rs)"
proof (cases "dmCooldown (rdDM (fst rs))")
  case True
  then show ?thesis by (cases rs) (simp add: do_poll_def)
next
  case False
  obtain r s where rs: "rs = (r, s)" by fastforce
  obtain res s1 where g: "reader_get_tags env r s = (res, s1)" by fastforce
  show ?thesis
    using False rs g poll_connect_keeps [of rs env] handle_device_errors_keeps [of "(r, s1)" env]
      handle_tag_polling_keeps [of "(r, s1)" env]
    by (auto simp: do_poll_def split: sum.split)
qed

lemma take_device_event_keeps: "keeps_ok r (take_device_event env r)"
proof (cases "dmEvents (rdDM r)")
  case (Cons ev evs)
  have k: "keeps_ok r (r\<lparr>rdDM := (rdDM r)\<lparr>dmEvents := evs\<rparr>\<rparr>)"
    using Cons by (intro keeps_ok_dm) (auto simp: dm_step_def dm_reader_ok_def dm_ok_def)
  have "keeps_ok r1 (handle_device_event env ev r1)" for r1
    by (cases "evType ev") (simp_all add: handle_device_event_def)
  then show ?thesis using keeps_ok_trans [OF k] Cons by (simp add: take_device_event_def)
qed (simp add: take_device_event_def)

lemma prepare_keeps:
  assumes "prepare_card_for_write env uid (r, s) = (res, r', s')"
  shows "keeps_ok r r'"
  using assms
  by (auto simp: prepare_card_for_write_def Let_def intro: keeps_ok_same
      split: if_splits prod.splits sum.splits list.splits)

lemma with_prepared_card_keeps:
  assumes "\<And>c r s. keeps_ok r (fst (snd (body c (r, s))))"
  shows "keeps_pair rs (snd (with_prepared_card env uid body rs))"
proof (cases rs)
  case (Pair r s)
  obtain res r1 s1 where p: "prepare_card_for_write env uid (r, s) = (res, r1, s1)" by (metis prod_cases3)
  note k = prepare_keeps [OF p]
  show ?thesis
  proof (cases res)
    case (Inl e)
    then show ?thesis using Pair p k by (simp add: with_prepared_card_def)
  next
    case (Inr c)
    obtain q r2 s2 where b: "body c (r1, s1) = (q, r2, s2)" by (metis prod_cases3)
    have "keeps_ok r (r2\<lparr>rdWriting := False\<rparr>)"
      using keeps_ok_then(4) [OF keeps_ok_trans [OF k], of r2 False] assms [of r1 c s1] b by simp
    then show ?thesis using Pair p b Inr by (simp add: with_prepared_card_def)
  qed
qed

lemma signalled_keeps: "keeps_ok r (fst (snd (signalled env what res (r, s))))"
  using reader_signal_keeps [of "(r, s)" env] by (cases res) (simp_all add: signalled_def)

lemma step_keeps: "reader_step env rs rs' \<Longrightarrow> keeps_pair rs rs'"
proof (induction rule: reader_step.induct)
  case (step_poll rs)
  show ?case by (rule do_poll_keeps)
next
  case (step_check rs)
  show ?case by (simp add: handle_card_check_def Let_def split: prod.split)
next
  case (step_event r s)
  show ?case by (simp add: take_device_event_keeps)
next
  case (step_status_read r s)
  show ?case by (simp add: keeps_ok_def reader_ok_def)
next
  case (step_write rs msg opts)
  show ?case
    unfolding write_message_with_result_def
    by (rule with_prepared_card_keeps) (simp add: signalled_keeps split: prod.split)
next
  case (step_lock rs uid)
  show ?case
    unfolding lock_card_expecting_def
    by (rule with_prepared_card_keeps) (simp add: signalled_keeps split: prod.split)
next
  case (step_password rs op)
  show ?case
    unfolding password_operation_def
    by (rule with_prepared_card_keeps) (simp add: password_not_enabled_def)
next
  case (step_capabilities rs probe uid)
  show ?case by (auto simp: get_capabilities_expecting_def Let_def split: prod.split sum.split)
next
  case (step_transceive rs data uid)
  show ?case by (auto simp: transceive_expecting_def split: prod.split sum.split)
next
  case (step_transceive_raw rs data uid)
  show ?case by (auto simp: transceive_raw_expecting_def split: prod.split sum.split option.split)
qed (auto intro: keeps_ok_same)

lemma steps_keep: "(reader_step env)\<^sup>*\<^sup>* rs rs' \<Longrightarrow> keeps_pair rs rs'"
  by (induction rule: rtranclp_induct) (auto intro: keeps_ok_trans dest: step_keeps)

text \<open>\<open>newDeviceReader\<close> makes the reader and tries to connect once.\<close>

definition new_device_reader ::
    "('d, 's) rd_env \<Rightarrow> string \<Rightarrow> key_set \<Rightarrow> 's \<Rightarrow> ('d, 's) reader \<times> 's" where
  "new_device_reader env path keys s =
     (let r = reader_init path keys; (e, m, s) = ensure_connected (reDM env) (rdDM r) s
      in (r\<lparr>rdDM := m\<rparr>, s))"

lemma ensure_connected_step:
  assumes "ensure_connected env m s = (e, m', s')" "\<not> dmCooldown m"
  shows "dm_step m m'"
proof -
  obtain e1 m1 s1 where t: "try_connect env m s = (e1, m1, s1)" by (metis prod_cases3)
  note k = dm_keeps_step [OF try_connect_keeps [OF t] assms(2)]
  have c: "\<not> dmCooldown m1" using try_connect_keeps [OF t] assms(2) by (simp add: dm_keeps_def)
  show ?thesis
  proof (cases e1)
    case None
    then show ?thesis
      using assms t k by (auto simp: ensure_connected_def dm_step_def dm_reader_ok_def dm_ok_def)
  next
    case (Some x)
    obtain q m2 s2 where h: "handle_error env x m1 s1 = (q, m2, s2)" by (metis prod_cases3)
    have "m' = m2" using assms t h Some by (auto simp: ensure_connected_def split: if_splits)
    with handle_error_step [OF h c] k assms(2) c show ?thesis by (simp add: dm_step_def)
  qed
qed

lemma new_device_reader_ok:
  assumes "new_device_reader env path keys s = (r, s')"
  shows "reader_ok r" "dmAssigned (rdDM r) = path"
proof -
  let ?i = "reader_init path keys :: ('a, 'b) reader"
  obtain e m s1 where t: "ensure_connected (reDM env) (rdDM ?i) s = (e, m, s1)" by (metis prod_cases3)
  have ok: "reader_ok ?i" "dmAssigned (rdDM ?i) = path" "\<not> dmCooldown (rdDM ?i)"
    by (simp_all add: reader_ok_def dm_reader_ok_def reader_init_def dm_ok_new) (simp_all add: new_device_manager_def)
  have "keeps_ok ?i (?i\<lparr>rdDM := m\<rparr>)" by (rule keeps_ok_dm [OF ensure_connected_step [OF t ok(3)]])
  then show "reader_ok r" "dmAssigned (rdDM r) = path"
    using assms t ok by (auto simp: new_device_reader_def Let_def keeps_ok_def)
qed

lemma reader_invariant_holds:
  assumes "(reader_step env)\<^sup>*\<^sup>* (new_device_reader env path keys s) (r, s')"
  shows "reader_ok r \<and> dmAssigned (rdDM r) = path"
proof -
  obtain r0 s0 where n: "new_device_reader env path keys s = (r0, s0)" by fastforce
  have "keeps_ok r0 r" using steps_keep [OF assms] n by simp
  then show ?thesis using new_device_reader_ok [OF n] by (simp add: keeps_ok_def)
qed

section \<open>A cooldown does not end, and a refused write stops the polling\<close>

text \<open>
  The cooldown is ended only by \<open>EndCooldown\<close>, which nothing calls: no step of the reader leaves a
  cooldown, a poll in one does nothing, and every operation that needs the device is refused.
\<close>

lemma cooldown_stays:
  assumes "reader_ok r" "dmCooldown (rdDM r)" "(reader_step env)\<^sup>*\<^sup>* (r, s) (r', s')"
  shows "dmCooldown (rdDM r') \<and> \<not> dmHasDevice (rdDM r') \<and> do_poll env (r', s') = (r', s') \<and>
    (\<exists>e. transceive_expecting env data uid (r', s') = (Inl e, r', s'))"
proof -
  have k: "dmCooldown (rdDM r')" "reader_ok r'" using steps_keep [OF assms(3)] assms(1,2) by (simp_all add: keeps_ok_def)
  then have "\<not> dmHasDevice (rdDM r')" by (simp add: reader_ok_def dm_reader_ok_def)
  then show ?thesis using k by (simp add: do_poll_def transceive_expecting_def sole_tag_def)
qed

text \<open>
  The flag that holds polls off during a write is set before the card is looked at, and is cleared
  only by an operation whose preparation succeeded: after a refused one, polls do nothing.
\<close>

lemma refused_preparation_stops_polling:
  assumes "rdMode r \<noteq> ModeReadOnly" "dmHasDevice (rdDM r)" "prepare_card_for_write env uid (r, s) = (Inl e, r', s')"
  shows "with_prepared_card env uid body (r, s) = (Inl e, r', s') \<and> rdWriting r' \<and>
    do_poll env (r', s2) = (r', s2)"
proof -
  have "rdWriting r' \<and> dmHasDevice (rdDM r')"
    using assms
    by (auto simp: prepare_card_for_write_def Let_def split: prod.splits sum.splits list.splits if_splits)
  then show ?thesis using assms(3) by (simp add: with_prepared_card_def do_poll_def)
qed

section \<open>The card that was meant\<close>

lemma identify_same [simp]:
  "apply_keys (r\<lparr>rdWriting := b\<rparr>) g s = apply_keys r g s" "identify (r\<lparr>rdWriting := b\<rparr>) g s = identify r g s"
  by (simp_all add: identify_def apply_keys_def Let_def split: option.split)

text \<open>An operation naming another card is refused before anything is written to the one present.\<close>

lemma wrong_card_refused:
  assumes "rdMode r \<noteq> ModeReadOnly" "dmHasDevice (rdDM r)" "dmDevice (rdDM r) = Some d" "reTags env d s = (Inr [g], s1)"
    and "uid \<noteq> []" "\<not> tag_has_uid g (identify r g s1) uid"
  shows "\<exists>e r'. with_prepared_card env uid body (r, s) = (Inl e, r', identify r g s1) \<and> has_sentinel ErrTagUIDMismatch e"
proof -
  show ?thesis
    using assms
    by (simp add: with_prepared_card_def prepare_card_for_write_def reader_get_tags_def Let_def uid_mismatch_def
        has_sentinel_def)
qed

text \<open>In read-only mode nothing is written, whatever is asked.\<close>

lemma read_only_mode_refuses:
  "rdMode r = ModeReadOnly \<Longrightarrow> \<exists>e. with_prepared_card env uid body (r, s) = (Inl e, r, s)"
  by (simp add: with_prepared_card_def prepare_card_for_write_def)

section \<open>A card is published once\<close>

text \<open>The card that was published last is identified and left alone.\<close>

lemma current_card_left_alone:
  assumes "tgUID g (identify r g s) = tcUID (rdCache r)" "tcUID (rdCache r) \<noteq> []"
  shows "\<exists>c. poll_tags env [g] (r, s) = (r\<lparr>rdCache := c\<rparr>, identify r g s) \<and> tcUID c = tcUID (rdCache r)"
  using assms
  by (intro exI [of _ "(rdCache r)\<lparr>tcSeen := Some (reNow env (identify r g s))\<rparr>"])
    (simp add: Let_def cache_is_current_def cache_seen_def)

lemma send_data_shape:
  "send_data env d (r, s) = (b, r', s') \<Longrightarrow>
     s' = s \<and> r' = r\<lparr>rdData := (if b then rdData r @ [d] else rdData r)\<rparr> \<and> b = (\<not> reStopped env s)"
  by (auto simp: send_data_def split: if_splits)

lemma publish_scan_publishes:
  assumes "uid \<noteq> tcUID (rdCache r)" "\<not> reStopped env s"
  shows "\<exists>r' s'. publish_scan env c uid (r, s) = (True, r', s') \<and> rdData r' = rdData r @ [scan_of r c None] \<and>
    tcUID (rdCache r') = uid"
  using assms
  by (auto simp: publish_scan_def cache_has_changed_def Let_def send_data_def clear_fault_def reader_signal_def scan_of_def
      split: option.split)

end
