(* ===== verification/ReaderOnCard.thy ===== *)
theory ReaderOnCard
  imports WriteOnCard ReaderOps
begin

text \<open>
  The reader writing to an NTAG 424 DNA: the reader's operation, the shared write path, the tag
  driver, secure messaging and the card, composed.
\<close>

text \<open>A reader that is connected, may write, and holds one NTAG 424 DNA whose keys it was given.\<close>

definition holds_n4 ::
    "('d, unit ntag424_tag \<times> ntag424_state) rd_env \<Rightarrow> (unit n4_error \<Rightarrow> go_error) \<Rightarrow> (ntag424_state \<Rightarrow> int)
      \<Rightarrow> ('d, unit ntag424_tag \<times> ntag424_state) reader \<Rightarrow> unit ntag424_tag \<times> ntag424_state \<Rightarrow> bool" where
  "holds_n4 env tr clk r ts \<longleftrightarrow>
     dmHasDevice (rdDM r) \<and> rdMode r \<noteq> ModeReadOnly \<and> \<not> rdFeedbackOn r \<and>
     (case dmDevice (rdDM r) of None \<Rightarrow> False | Some d \<Rightarrow> reTags env d ts = (Inr [n4_tag tr clk], ts)) \<and>
     gKeys (fst ts) = rdNTAG424Keys r \<and> \<not> random_id (fst ts) \<and>
     (tcUID (rdCache r) = [] \<or> tcUID (rdCache r) = tgUID (n4_tag tr clk) ts)"

lemma keys_equal_refl [simp]: "keys_equal k k"
  by (simp add: keys_equal_def list_all_iff)

lemma apply_keys_n4:
  assumes "gKeys (fst ts) = rdNTAG424Keys r"
  shows "apply_keys r (n4_tag tr clk) ts = ts"
proof (cases ts)
  case (Pair t s)
  then show ?thesis using assms by (simp add: apply_keys_def n4_tag_def set_ntag424_keys_def Let_def)
qed

lemma identify_n4:
  assumes "gKeys (fst ts) = rdNTAG424Keys r" "\<not> random_id (fst ts)"
  shows "identify r (n4_tag tr clk) ts = ts"
proof -
  have "snd (resolve_uid_once (card_env clk) ts) = ts" using assms(2) by (cases ts) (simp add: resolve_uid_once_def)
  then show ?thesis using apply_keys_n4 [OF assms(1)] by (simp add: identify_def Let_def) (simp add: n4_tag_def)
qed

lemma prepare_n4:
  assumes "holds_n4 env tr clk r ts" "uid = [] \<or> tag_has_uid (n4_tag tr clk) ts uid"
  shows "\<exists>r'. prepare_card_for_write env uid (r, ts) = (Inr (new_card (n4_tag tr clk) ts), r', ts) \<and>
    \<not> rdFeedbackOn r' \<and> rdDM r' = rdDM r"
proof -
  note h = assms(1) [unfolded holds_n4_def]
  obtain d where d: "dmDevice (rdDM r) = Some d" "reTags env d ts = (Inr [n4_tag tr clk], ts)"
    using h by (auto split: option.splits)
  have k: "identify r (n4_tag tr clk) ts = ts" "apply_keys r (n4_tag tr clk) ts = ts"
    "apply_keys (r\<lparr>rdWriting := w, rdCache := c\<rparr>) (n4_tag tr clk) ts = ts" for w c
    using h by (simp_all add: identify_n4 apply_keys_n4)
  show ?thesis
    using h d k assms(2) by (auto simp: prepare_card_for_write_def reader_get_tags_def Let_def)
qed

lemma reader_writes_n4:
  assumes "holds_n4 env tr clk r ts" "woExpectUID opts = [] \<or> tag_has_uid (n4_tag tr clk) ts (woExpectUID opts)"
    and "n4_holds ts m" "encode_message (NdefMessage msg) = Inr e" "length e \<le> 254" "e \<noteq> []"
    and "woOverwrite opts" "\<not> woForceInit opts" "\<not> woLock opts"
  shows "\<exists>res r' ts'. write_message_with_result env msg opts (r, ts) = (Inr res, r', ts') \<and> \<not> rdWriting r' \<and>
    wrBytes res = length e \<and> wrVerified res = (\<not> woSkipVerify opts) \<and> wrAttempts res = 1 \<and> n4_holds ts' e"
proof -
  obtain r1 where p: "prepare_card_for_write env (woExpectUID opts) (r, ts) = (Inr (new_card (n4_tag tr clk) ts), r1, ts)"
    "\<not> rdFeedbackOn r1" using prepare_n4 [OF assms(1,2)] by blast
  obtain c' ts' where w: "write_message (clkSleep (reDM env)) (new_card (n4_tag tr clk) ts) msg opts ts =
      (Inr (new_write_result (new_card (n4_tag tr clk) ts) (length e) (\<not> woSkipVerify opts) 1 False), c', ts')"
    "n4_holds ts' e"
    using n4.write_message_lands [OF assms(3,4,5,6,7,8,9)] by blast
  show ?thesis
    using p w
    by (simp add: write_message_with_result_def with_prepared_card_def signalled_def reader_signal_def new_write_result_def)
qed

end
