(* ===== verification/ReaderProps.thy ===== *)
theory ReaderProps
  imports DriverProps ReaderOnCard
begin

text \<open>
  The properties of the reader, with the reader, the device and the card they are shown on.
\<close>

section \<open>A demonstration reader\<close>












section \<open>Writing through the reader\<close>



section \<open>The reader's state\<close>



end
