(* ===== verification/Lease.thy ===== *)
theory Lease
  imports Prelude
begin

text \<open>
  The operation slot and the raw session lease, \<open>nfc/reader_lease.go\<close> with \<open>withTagOperation\<close>,
  \<open>acquireSlot\<close> and the slot of \<open>doPoll\<close> in \<open>nfc/reader.go\<close>. The goroutines interleave: each is a
  process in a phase, and a step is what a goroutine does between two points where another can run
  (one critical section of a mutex, one send or receive of the slot channel). A lease is named by
  its process, times are milliseconds, and the card's answers are left to the step taken.
\<close>

section \<open>Processes\<close>

definition default_raw_session_ttl :: int where "default_raw_session_ttl = 5000"
definition max_raw_session_ttl :: int where "max_raw_session_ttl = 30000"

definition clamp_raw_session_ttl :: "int \<Rightarrow> int" where
  "clamp_raw_session_ttl ttl =
     (if ttl \<le> 0 then default_raw_session_ttl else if max_raw_session_ttl < ttl then max_raw_session_ttl else ttl)"

record raw_lease =
  leUID :: string
  leTTL :: int
  leExpires :: int

text \<open>
  \<open>OpHeld\<close> and \<open>BeginHeld\<close> have the slot and have not registered yet; a lease that ends has first
  set its flag (\<open>Ending\<close>), then cleared the reader's pointer (\<open>Releasing\<close>), then freed the slot.
\<close>

datatype phase =
    Idle | OpHeld | OpRunning | PollRunning | BeginHeld | BeginChecking
  | Leased raw_lease | Ending | Releasing | Finished

text \<open>The exchange mutex of a lease, and its watcher.\<close>

datatype exec_state = ExecFree | ExecLocked | ExecRunning | ExecEnding

datatype watch_state = NotWatching | Watching | SawExpired

record lease_state =
  lsSlot :: bool
  lsPhase :: "nat \<Rightarrow> phase"
  lsLease :: "nat option"
  lsExec :: "nat \<Rightarrow> exec_state"
  lsWatch :: "nat \<Rightarrow> watch_state"
  lsClosed :: bool
  lsStopped :: bool
  lsNow :: int

definition lease_init :: lease_state where
  "lease_init = \<lparr>lsSlot = False, lsPhase = (\<lambda>_. Idle), lsLease = None, lsExec = (\<lambda>_. ExecFree),
     lsWatch = (\<lambda>_. NotWatching), lsClosed = False, lsStopped = False, lsNow = 0\<rparr>"

fun holds_slot :: "phase \<Rightarrow> bool" where
  "holds_slot Idle = False" | "holds_slot Finished = False" | "holds_slot _ = True"

fun was_leased :: "phase \<Rightarrow> bool" where
  "was_leased (Leased l) = True" | "was_leased Ending = True" | "was_leased Releasing = True"
| "was_leased Finished = True" | "was_leased _ = False"

definition set_phase :: "nat \<Rightarrow> phase \<Rightarrow> lease_state \<Rightarrow> lease_state" where
  "set_phase p ph s = s\<lparr>lsPhase := (lsPhase s)(p := ph)\<rparr>"

definition set_exec :: "nat \<Rightarrow> exec_state \<Rightarrow> lease_state \<Rightarrow> lease_state" where
  "set_exec p x s = s\<lparr>lsExec := (lsExec s)(p := x)\<rparr>"

definition set_watch :: "nat \<Rightarrow> watch_state \<Rightarrow> lease_state \<Rightarrow> lease_state" where
  "set_watch p w s = s\<lparr>lsWatch := (lsWatch s)(p := w)\<rparr>"

definition acquire :: "nat \<Rightarrow> phase \<Rightarrow> lease_state \<Rightarrow> lease_state" where
  "acquire p ph s = set_phase p ph (s\<lparr>lsSlot := True\<rparr>)"

definition release :: "nat \<Rightarrow> lease_state \<Rightarrow> lease_state" where
  "release p s = set_phase p Finished (s\<lparr>lsSlot := False\<rparr>)"

section \<open>Steps\<close>

text \<open>\<open>openLease\<close> publishes the lease and starts its watcher.\<close>

definition open_lease :: "nat \<Rightarrow> string \<Rightarrow> int \<Rightarrow> lease_state \<Rightarrow> lease_state" where
  "open_lease p uid ttl s =
     (let t = clamp_raw_session_ttl ttl
      in set_watch p Watching
           (set_phase p (Leased \<lparr>leUID = uid, leTTL = t, leExpires = lsNow s + t\<rparr>) (s\<lparr>lsLease := Some p\<rparr>)))"

text \<open>The first part of \<open>endLease\<close>: only the first caller gets past the flag.\<close>

definition end_lease :: "nat \<Rightarrow> lease_state \<Rightarrow> lease_state" where
  "end_lease p s = (case lsPhase s p of Leased l \<Rightarrow> set_phase p Ending s | _ \<Rightarrow> s)"

definition clear_pointer :: "nat \<Rightarrow> lease_state \<Rightarrow> lease_state" where
  "clear_pointer p s = set_phase p Releasing (if lsLease s = Some p then s\<lparr>lsLease := None\<rparr> else s)"

definition refresh_lease :: "nat \<Rightarrow> lease_state \<Rightarrow> lease_state" where
  "refresh_lease p s = (case lsPhase s p of
     Leased l \<Rightarrow> set_phase p (Leased (l\<lparr>leExpires := lsNow s + leTTL l\<rparr>)) s | _ \<Rightarrow> s)"

inductive lease_step :: "lease_state \<Rightarrow> lease_state \<Rightarrow> bool" where
  op_acquire: "lsPhase s p = Idle \<Longrightarrow> \<not> lsSlot s \<Longrightarrow> lease_step s (acquire p OpHeld s)"
| op_refused: "lsPhase s p = OpHeld \<Longrightarrow> lsClosed s \<Longrightarrow> lease_step s (release p s)"
| op_start: "lsPhase s p = OpHeld \<Longrightarrow> \<not> lsClosed s \<Longrightarrow> lease_step s (set_phase p OpRunning s)"
| op_finish: "lsPhase s p = OpRunning \<Longrightarrow> lease_step s (release p s)"
| poll_start: "lsPhase s p = Idle \<Longrightarrow> \<not> lsSlot s \<Longrightarrow> lsLease s = None \<Longrightarrow> lease_step s (acquire p PollRunning s)"
| poll_finish: "lsPhase s p = PollRunning \<Longrightarrow> lease_step s (release p s)"
| begin_acquire: "lsPhase s p = Idle \<Longrightarrow> \<not> lsSlot s \<Longrightarrow> lease_step s (acquire p BeginHeld s)"
| begin_refused: "lsPhase s p = BeginHeld \<Longrightarrow> lsClosed s \<Longrightarrow> lease_step s (release p s)"
| begin_register: "lsPhase s p = BeginHeld \<Longrightarrow> \<not> lsClosed s \<Longrightarrow> lease_step s (set_phase p BeginChecking s)"
| begin_no_tag: "lsPhase s p = BeginChecking \<Longrightarrow> lease_step s (release p s)"
| begin_open: "lsPhase s p = BeginChecking \<Longrightarrow> lease_step s (open_lease p uid ttl s)"
| end_by_client: "lsLease s = Some p \<Longrightarrow> lease_step s (end_lease p s)"
| end_clear: "lsPhase s p = Ending \<Longrightarrow> lease_step s (clear_pointer p s)"
| end_release: "lsPhase s p = Releasing \<Longrightarrow> lease_step s (release p s)"
| exec_lock: "lsExec s p = ExecFree \<Longrightarrow> was_leased (lsPhase s p) \<Longrightarrow> lease_step s (set_exec p ExecLocked s)"
| exec_refused: "lsExec s p = ExecLocked \<Longrightarrow> lsPhase s p \<in> {Ending, Releasing, Finished} \<Longrightarrow>
    lease_step s (set_exec p ExecFree s)"
| exec_cancelled: "lsExec s p = ExecLocked \<Longrightarrow> lsPhase s p = Leased l \<Longrightarrow> lease_step s (set_exec p ExecFree s)"
| exec_start: "lsExec s p = ExecLocked \<Longrightarrow> lsPhase s p = Leased l \<Longrightarrow> lease_step s (set_exec p ExecRunning s)"
| exec_answer: "lsExec s p = ExecRunning \<Longrightarrow> lease_step s (refresh_lease p (set_exec p ExecFree s))"
| exec_failed: "lsExec s p = ExecRunning \<Longrightarrow> lease_step s (set_exec p ExecFree s)"
| exec_removed: "lsExec s p = ExecRunning \<Longrightarrow> lsPhase s p = Leased l \<Longrightarrow>
    lease_step s (end_lease p (set_exec p ExecEnding s))"
| exec_ended: "lsExec s p = ExecEnding \<Longrightarrow> lsPhase s p = Finished \<Longrightarrow> lease_step s (set_exec p ExecFree s)"
| watch_expired: "lsWatch s p = Watching \<Longrightarrow> lsPhase s p = Leased l \<Longrightarrow> leExpires l \<le> lsNow s \<Longrightarrow>
    lsExec s p = ExecFree \<Longrightarrow> lease_step s (set_watch p SawExpired s)"
| watch_end: "lsWatch s p = SawExpired \<Longrightarrow> lease_step s (end_lease p (set_watch p NotWatching s))"
| watch_done: "lsWatch s p = Watching \<Longrightarrow> lsPhase s p \<in> {Ending, Releasing, Finished} \<Longrightarrow>
    lease_step s (set_watch p NotWatching s)"
| watch_stop: "lsWatch s p = Watching \<Longrightarrow> lsStopped s \<Longrightarrow> lease_step s (end_lease p (set_watch p NotWatching s))"
| stop: "lease_step s (s\<lparr>lsStopped := True\<rparr>)"
| end_any: "lsStopped s \<Longrightarrow> lsLease s = Some p \<Longrightarrow> lease_step s (end_lease p s)"
| close_operations: "lsStopped s \<Longrightarrow> lease_step s (s\<lparr>lsClosed := True\<rparr>)"
| tick: "0 \<le> d \<Longrightarrow> lease_step s (s\<lparr>lsNow := lsNow s + d\<rparr>)"

section \<open>One holder\<close>

text \<open>
  The slot is taken exactly when a process holds the reader, at most one does, the reader's
  pointer names the lease that is open or closing, and an open lease is the one it names, for a
  time to live between one millisecond and thirty seconds.
\<close>

definition lease_ok :: "lease_state \<Rightarrow> bool" where
  "lease_ok s \<longleftrightarrow>
     (lsSlot s \<longleftrightarrow> (\<exists>p. holds_slot (lsPhase s p))) \<and>
     (\<forall>p q. holds_slot (lsPhase s p) \<longrightarrow> holds_slot (lsPhase s q) \<longrightarrow> p = q) \<and>
     (\<forall>p. lsLease s = Some p \<longrightarrow> lsPhase s p = Ending \<or> (\<exists>l. lsPhase s p = Leased l)) \<and>
     (\<forall>p l. lsPhase s p = Leased l \<longrightarrow> lsLease s = Some p \<and> 0 < leTTL l \<and> leTTL l \<le> max_raw_session_ttl) \<and>
     (\<forall>p. lsExec s p \<noteq> ExecFree \<longrightarrow> was_leased (lsPhase s p)) \<and>
     (\<forall>p. lsWatch s p \<noteq> NotWatching \<longrightarrow> was_leased (lsPhase s p))"

lemma clamp_bounds: "0 < clamp_raw_session_ttl ttl \<and> clamp_raw_session_ttl ttl \<le> max_raw_session_ttl"
  by (simp add: clamp_raw_session_ttl_def default_raw_session_ttl_def max_raw_session_ttl_def)

lemma clamp_keeps: "0 < ttl \<Longrightarrow> ttl \<le> max_raw_session_ttl \<Longrightarrow> clamp_raw_session_ttl ttl = ttl"
  by (simp add: clamp_raw_session_ttl_def)

lemma lease_init_ok: "lease_ok lease_init"
  by (simp add: lease_ok_def lease_init_def)

lemma lease_okD:
  assumes "lease_ok s"
  shows "holds_slot (lsPhase s p) \<Longrightarrow> lsSlot s" "holds_slot (lsPhase s p) \<Longrightarrow> holds_slot (lsPhase s q) \<Longrightarrow> p = q"
    "lsSlot s \<Longrightarrow> \<exists>p. holds_slot (lsPhase s p)"
    "lsLease s = Some p \<Longrightarrow> lsPhase s p = Ending \<or> (\<exists>l. lsPhase s p = Leased l)"
    "lsPhase s p = Leased l \<Longrightarrow> lsLease s = Some p \<and> 0 < leTTL l \<and> leTTL l \<le> max_raw_session_ttl"
    "lsExec s p \<noteq> ExecFree \<Longrightarrow> was_leased (lsPhase s p)" "lsWatch s p \<noteq> NotWatching \<Longrightarrow> was_leased (lsPhase s p)"
  using assms unfolding lease_ok_def by blast+

lemma lease_okI:
  assumes "lsSlot s \<longleftrightarrow> (\<exists>p. holds_slot (lsPhase s p))"
    and "\<And>p q. holds_slot (lsPhase s p) \<Longrightarrow> holds_slot (lsPhase s q) \<Longrightarrow> p = q"
    and "\<And>p. lsLease s = Some p \<Longrightarrow> lsPhase s p = Ending \<or> (\<exists>l. lsPhase s p = Leased l)"
    and "\<And>p l. lsPhase s p = Leased l \<Longrightarrow> lsLease s = Some p \<and> 0 < leTTL l \<and> leTTL l \<le> max_raw_session_ttl"
    and "\<And>p. lsExec s p \<noteq> ExecFree \<Longrightarrow> was_leased (lsPhase s p)"
    and "\<And>p. lsWatch s p \<noteq> NotWatching \<Longrightarrow> was_leased (lsPhase s p)"
  shows "lease_ok s"
  using assms unfolding lease_ok_def by blast

text \<open>The ways a step changes who holds the reader, each keeping the invariant.\<close>

lemma acquire_ok:
  assumes "lease_ok s" "\<not> lsSlot s" "lsPhase s p = Idle" "holds_slot ph" "\<not> was_leased ph"
  shows "lease_ok (acquire p ph s)"
proof -
  have none: "\<not> holds_slot (lsPhase s q)" for q using lease_okD(1) [OF assms(1)] assms(2) by blast
  then have l: "lsPhase s q \<noteq> Leased l" "lsPhase s q \<noteq> Ending" for q l by (metis holds_slot.simps)+
  then have "lsLease s = None" using lease_okD(4) [OF assms(1)] by (cases "lsLease s") auto
  moreover have "lsExec s p = ExecFree" "lsWatch s p = NotWatching"
    using lease_okD(6,7) [OF assms(1), of p] assms(3) by auto
  moreover have "ph \<noteq> Leased k" for k using assms(5) by auto
  ultimately show ?thesis
    using none l assms(4) lease_okD(6,7) [OF assms(1)]
    by (intro lease_okI) (auto simp: acquire_def set_phase_def split: if_splits)
qed

lemma release_ok:
  assumes "lease_ok s" "holds_slot (lsPhase s p)" "lsLease s \<noteq> Some p"
  shows "lease_ok (release p s)"
proof -
  have only: "\<not> holds_slot (lsPhase s q)" if "q \<noteq> p" for q using lease_okD(2) [OF assms(1) _ assms(2)] that by blast
  then have l: "lsPhase s q \<noteq> Leased l" "lsPhase s q \<noteq> Ending" if "q \<noteq> p" for q l
    using that by (metis holds_slot.simps)+
  have "lsLease s = None" using lease_okD(4) [OF assms(1)] l assms(3) by (cases "lsLease s") auto
  then show ?thesis
    using only l lease_okD(6,7) [OF assms(1)]
    by (intro lease_okI) (auto simp: release_def set_phase_def split: if_splits)
qed

text \<open>A holder goes on to another phase, setting or clearing the pointer as the phase asks.\<close>

lemma move_ok:
  assumes "lease_ok s" "holds_slot (lsPhase s p)" "holds_slot ph" "was_leased (lsPhase s p) \<Longrightarrow> was_leased ph"
    and "ptr = Some p \<longleftrightarrow> ph = Ending \<or> (\<exists>l. ph = Leased l)" "ptr = None \<or> ptr = Some p"
    and "\<And>l. ph = Leased l \<Longrightarrow> 0 < leTTL l \<and> leTTL l \<le> max_raw_session_ttl"
  shows "lease_ok (set_phase p ph (s\<lparr>lsLease := ptr\<rparr>))"
proof -
  have only: "\<not> holds_slot (lsPhase s q)" if "q \<noteq> p" for q using lease_okD(2) [OF assms(1) _ assms(2)] that by blast
  then have l: "lsPhase s q \<noteq> Leased k" "lsPhase s q \<noteq> Ending" if "q \<noteq> p" for q k
    using that by (metis holds_slot.simps)+
  show ?thesis
    using only l lease_okD(6,7) [OF assms(1)] lease_okD(1) [OF assms(1,2)] assms(3-7)
    by (intro lease_okI) (auto simp: set_phase_def split: if_splits)
qed

lemma pointer_of:
  assumes "lease_ok s" "holds_slot (lsPhase s p)"
  shows "lsLease s = None \<or> lsLease s = Some p"
proof (cases "lsLease s")
  case (Some q)
  then have "holds_slot (lsPhase s q)" using lease_okD(4) [OF assms(1)] by force
  with lease_okD(2) [OF assms(1) _ assms(2)] Some show ?thesis by blast
qed simp

lemma set_phase_ok:
  assumes "lease_ok s" "holds_slot (lsPhase s p)" "holds_slot ph" "was_leased (lsPhase s p) \<Longrightarrow> was_leased ph"
    and "lsLease s = Some p \<longleftrightarrow> ph = Ending \<or> (\<exists>l. ph = Leased l)"
    and "\<And>l. ph = Leased l \<Longrightarrow> 0 < leTTL l \<and> leTTL l \<le> max_raw_session_ttl"
  shows "lease_ok (set_phase p ph s)"
  using move_ok [OF assms(1-4), of "lsLease s"] assms(5,6) pointer_of [OF assms(1,2)] by simp

lemma exec_ok: "lease_ok s \<Longrightarrow> (x \<noteq> ExecFree \<Longrightarrow> was_leased (lsPhase s p)) \<Longrightarrow> lease_ok (set_exec p x s)"
  unfolding lease_ok_def set_exec_def by simp

lemma watch_ok: "lease_ok s \<Longrightarrow> (w \<noteq> NotWatching \<Longrightarrow> was_leased (lsPhase s p)) \<Longrightarrow> lease_ok (set_watch p w s)"
  unfolding lease_ok_def set_watch_def by simp

lemmas aside_ok = exec_ok watch_ok

lemma fields_ok [simp]:
  "lease_ok (s\<lparr>lsStopped := b\<rparr>) = lease_ok s" "lease_ok (s\<lparr>lsClosed := b\<rparr>) = lease_ok s"
  "lease_ok (s\<lparr>lsNow := n\<rparr>) = lease_ok s"
  by (simp_all add: lease_ok_def)

lemma end_lease_ok:
  assumes "lease_ok s"
  shows "lease_ok (end_lease p s)"
proof (cases "lsPhase s p")
  case (Leased l)
  then have "lsLease s = Some p" using lease_okD(5) [OF assms] by blast
  then show ?thesis using assms Leased by (simp add: end_lease_def) (rule set_phase_ok, auto)
qed (simp_all add: end_lease_def assms)

lemma refresh_ok:
  assumes "lease_ok s"
  shows "lease_ok (refresh_lease p s)"
proof (cases "lsPhase s p")
  case (Leased l)
  note k = lease_okD(5) [OF assms Leased]
  show ?thesis using assms Leased k by (simp add: refresh_lease_def) (rule set_phase_ok, auto)
qed (simp_all add: refresh_lease_def assms)

lemma step_ok: "lease_step s s' \<Longrightarrow> lease_ok s \<Longrightarrow> lease_ok s'"
proof (induction rule: lease_step.induct)
  case (begin_open s p uid ttl)
  have "lease_ok (set_phase p (Leased \<lparr>leUID = uid, leTTL = clamp_raw_session_ttl ttl,
      leExpires = lsNow s + clamp_raw_session_ttl ttl\<rparr>) (s\<lparr>lsLease := Some p\<rparr>))"
    using begin_open clamp_bounds [of ttl] by (intro move_ok) auto
  then show ?case by (simp add: open_lease_def Let_def) (rule aside_ok, simp_all add: set_phase_def)
next
  case (end_clear s p)
  have "(if lsLease s = Some p then s\<lparr>lsLease := None\<rparr> else s) = s\<lparr>lsLease := None\<rparr>"
    using pointer_of [of s p] end_clear by auto
  then show ?case unfolding clear_pointer_def using end_clear by (simp only:) (intro move_ok, auto)
next
  case (op_start s p)
  then show ?case using lease_okD(4) by (intro set_phase_ok) fastforce+
next
  case (begin_register s p)
  then show ?case using lease_okD(4) by (intro set_phase_ok) fastforce+
next
  case (exec_answer s p)
  then show ?case using lease_okD(6) [of s p] by (intro refresh_ok aside_ok) auto
next
  case (exec_removed s p l)
  then show ?case using lease_okD(6) [of s p] by (intro end_lease_ok aside_ok) auto
next
  case (watch_end s p)
  then show ?case by (intro end_lease_ok aside_ok) auto
next
  case (watch_stop s p)
  then show ?case by (intro end_lease_ok aside_ok) auto
next
  case (exec_start s p l)
  then show ?case by (intro aside_ok) auto
next
  case (exec_lock s p)
  then show ?case by (intro aside_ok) auto
next
  case (watch_expired s p l)
  then show ?case by (intro aside_ok) auto
next
  case (end_release s p)
  then show ?case using lease_okD(4) [of s p] by (intro release_ok) auto
next
  case (op_finish s p)
  then show ?case using lease_okD(4) [of s p] by (intro release_ok) auto
next
  case (op_refused s p)
  then show ?case using lease_okD(4) [of s p] by (intro release_ok) auto
next
  case (poll_finish s p)
  then show ?case using lease_okD(4) [of s p] by (intro release_ok) auto
next
  case (begin_refused s p)
  then show ?case using lease_okD(4) [of s p] by (intro release_ok) auto
next
  case (begin_no_tag s p)
  then show ?case using lease_okD(4) [of s p] by (intro release_ok) auto
next
  case (op_acquire s p)
  then show ?case by (intro acquire_ok) simp_all
next
  case (poll_start s p)
  then show ?case by (intro acquire_ok) simp_all
next
  case (begin_acquire s p)
  then show ?case by (intro acquire_ok) simp_all
qed (auto intro: exec_ok watch_ok end_lease_ok)

lemma reachable_ok: "lease_step\<^sup>*\<^sup>* lease_init s \<Longrightarrow> lease_ok s"
  by (induction rule: rtranclp_induct) (simp_all add: lease_init_ok step_ok)

text \<open>What the invariant says of two processes, and of polls and operations during a lease.\<close>

lemma one_holder:
  assumes "lease_ok s" "holds_slot (lsPhase s p)" "q \<noteq> p"
  shows "lsPhase s q = Idle \<or> lsPhase s q = Finished"
proof -
  have "\<not> holds_slot (lsPhase s q)" using lease_okD(2) [OF assms(1) _ assms(2)] assms(3) by blast
  then show ?thesis by (cases "lsPhase s q") simp_all
qed

text \<open>An open lease is watched.\<close>

definition watched :: "lease_state \<Rightarrow> bool" where
  "watched s \<longleftrightarrow> (\<forall>p l. lsPhase s p = Leased l \<longrightarrow> lsWatch s p \<noteq> NotWatching)"

lemma step_watched: "lease_step s s' \<Longrightarrow> watched s \<Longrightarrow> watched s'"
  by (induction rule: lease_step.induct)
    (auto simp: watched_def acquire_def release_def set_phase_def set_exec_def set_watch_def open_lease_def Let_def
      end_lease_def clear_pointer_def refresh_lease_def split: if_splits phase.splits)

lemma reachable_watched: "lease_step\<^sup>*\<^sup>* lease_init s \<Longrightarrow> watched s"
  by (induction rule: rtranclp_induct) (auto simp: step_watched, simp add: watched_def lease_init_def)

section \<open>An idle lease ends\<close>

lemma run_step: "lease_step a b \<Longrightarrow> lease_step\<^sup>*\<^sup>* b c \<Longrightarrow> lease_step\<^sup>*\<^sup>* a c"
  by (rule converse_rtranclp_into_rtranclp)

text \<open>
  A lease whose time to live has passed and whose exchange mutex is free can always be ended by its
  watcher alone, in four steps, which frees the slot for the next operation.
\<close>

lemma ending_frees:
  assumes "lsPhase s p = Ending" "lease_ok s"
  shows "\<exists>s'. lease_step\<^sup>*\<^sup>* s s' \<and> \<not> lsSlot s' \<and> lsLease s' = None \<and> lsPhase s' p = Finished"
proof -
  let ?s1 = "clear_pointer p s"
  have ptr: "lsLease s = None \<or> lsLease s = Some p" using pointer_of [OF assms(2), of p] assms(1) by simp
  have 1: "lease_step s ?s1" using end_clear assms(1) by blast
  have f: "lsPhase ?s1 p = Releasing" "lsLease ?s1 = None"
    using ptr by (auto simp: clear_pointer_def set_phase_def)
  have 2: "lease_step ?s1 (release p ?s1)" using end_release f(1) by blast
  have "lease_step\<^sup>*\<^sup>* s (release p ?s1)" using 1 2 by (meson run_step rtranclp.rtrancl_refl)
  then show ?thesis using f by (intro exI [of _ "release p ?s1"]) (simp add: release_def set_phase_def)
qed

lemma expired_lease_frees_slot:
  assumes "lease_ok s" "lsPhase s p = Leased l" "leExpires l \<le> lsNow s" "lsExec s p = ExecFree" "lsWatch s p \<noteq> NotWatching"
  shows "\<exists>s'. lease_step\<^sup>*\<^sup>* s s' \<and> \<not> lsSlot s' \<and> lsLease s' = None \<and> lsPhase s' p = Finished"
proof -
  have ends: "\<exists>s'. lease_step\<^sup>*\<^sup>* t s' \<and> \<not> lsSlot s' \<and> lsLease s' = None \<and> lsPhase s' p = Finished"
    if "lease_ok t" "lsWatch t p = SawExpired" "lsPhase t p = Leased l" for t
  proof -
    let ?t = "end_lease p (set_watch p NotWatching t)"
    have 1: "lease_step t ?t" using watch_end that(2) by blast
    have "lsPhase ?t p = Ending" using that(3) by (simp add: end_lease_def set_watch_def set_phase_def)
    from ending_frees [OF this step_ok [OF 1 that(1)]] run_step [OF 1] show ?thesis by blast
  qed
  show ?thesis
  proof (cases "lsWatch s p")
    case Watching
    let ?t = "set_watch p SawExpired s"
    have 1: "lease_step s ?t" using watch_expired Watching assms(2-4) by blast
    have "lsWatch ?t p = SawExpired" "lsPhase ?t p = Leased l" using assms(2) by (simp_all add: set_watch_def)
    from ends [OF step_ok [OF 1 assms(1)] this] run_step [OF 1] show ?thesis by blast
  qed (use assms ends in auto)
qed

section \<open>An exchange outlives its lease\<close>

text \<open>
  Ending a lease does not wait for the exchange in flight: the flag is tested under the exchange
  mutex, and \<open>endLease\<close> does not take it. The slot is then free while the exchange is still with
  the card, and an operation can start beside it.
\<close>

lemma exchange_overlaps_operation:
  "\<exists>s. lease_step\<^sup>*\<^sup>* lease_init s \<and> lsExec s 0 = ExecRunning \<and> lsPhase s 0 = Finished \<and> lsPhase s 1 = OpRunning"
proof -
  define s1 where "s1 = acquire 0 BeginHeld lease_init"
  define s2 where "s2 = set_phase 0 BeginChecking s1"
  define s3 where "s3 = open_lease 0 ''04'' 0 s2"
  define s4 where "s4 = set_exec 0 ExecLocked s3"
  define s5 where "s5 = set_exec 0 ExecRunning s4"
  define s6 where "s6 = end_lease 0 s5"
  define s7 where "s7 = clear_pointer 0 s6"
  define s8 where "s8 = release 0 s7"
  define s9 where "s9 = acquire 1 OpHeld s8"
  define s10 where "s10 = set_phase 1 OpRunning s9"
  note defs = s1_def s2_def s3_def s4_def s5_def s6_def s7_def s8_def s9_def s10_def lease_init_def acquire_def
    release_def set_phase_def open_lease_def set_watch_def set_exec_def end_lease_def clear_pointer_def Let_def
  have "lease_step lease_init s1" unfolding s1_def by (rule begin_acquire) (simp_all add: lease_init_def)
  moreover have "lease_step s1 s2" unfolding s2_def by (rule begin_register) (simp_all add: defs)
  moreover have "lease_step s2 s3" unfolding s3_def by (rule begin_open) (simp add: defs)
  moreover have "lease_step s3 s4" unfolding s4_def by (rule exec_lock) (simp_all add: defs)
  moreover have "lease_step s4 s5" unfolding s5_def by (rule exec_start) (simp_all add: defs)
  moreover have "lease_step s5 s6" unfolding s6_def by (rule end_by_client) (simp add: defs)
  moreover have "lease_step s6 s7" unfolding s7_def by (rule end_clear) (simp add: defs)
  moreover have "lease_step s7 s8" unfolding s8_def by (rule end_release) (simp add: defs)
  moreover have "lease_step s8 s9" unfolding s9_def by (rule op_acquire) (simp_all add: defs)
  moreover have "lease_step s9 s10" unfolding s10_def by (rule op_start) (simp_all add: defs)
  ultimately have "lease_step\<^sup>*\<^sup>* lease_init s10" by (meson run_step rtranclp.rtrancl_refl)
  then show ?thesis by (intro exI [of _ s10]) (simp add: defs)
qed

end
