(* ===== verification/Access.thy ===== *)
theory Access
  imports Errors "HOL-Library.List_Lexorder" "HOL-Library.Char_ord" "HOL-Library.Multiset"
begin

text \<open>
  Who is let in: the registry of paired devices (\<open>secure/pairing/registry.go\<close>), the gate in front
  of the device endpoints (\<open>admit.go\<close>, \<open>manager.go\<close>), the credential checks of \<open>server/auth.go\<close>
  and the origin checks of \<open>server/origin.go\<close> and \<open>server/cors.go\<close>. The hash of a token
  (\<open>crypto/sha256\<close>), the parsers of addresses and URLs (\<open>net\<close>, \<open>net/url\<close>) and the outcome of
  writing the devices file are arguments. The registry's map is a list with one entry per ID, whose
  order is the order the map is iterated in; the file holds the devices themselves, without JSON.
\<close>

section \<open>The registry\<close>

record device =
  dvID :: string
  dvTitle :: string
  dvPlatform :: string
  dvTokenHash :: string
  dvPairedAt :: int
  dvLastSeen :: "int option"

record registry =
  rgConfigDir :: string
  rgDevices :: "device list"
  rgFile :: "device list option"

definition new_registry :: "string \<Rightarrow> device list option \<Rightarrow> registry" where
  "new_registry dir file =
     (if dir = [] then \<lparr>rgConfigDir = dir, rgDevices = [], rgFile = file\<rparr>
      else \<lparr>rgConfigDir = dir, rgDevices =
        (case file of None \<Rightarrow> [] | Some ds \<Rightarrow>
           foldl (\<lambda>m d. if dvID d \<noteq> [] then filter (\<lambda>x. dvID x \<noteq> dvID d) m @ [d] else m) [] ds),
       rgFile = file\<rparr>)"

definition save_devices :: "bool \<Rightarrow> registry \<Rightarrow> bool \<times> registry" where
  "save_devices writable r =
     (if rgConfigDir r = [] then (True, r)
      else if writable then (True, r\<lparr>rgFile := Some (sort_key dvID (rgDevices r))\<rparr>) else (False, r))"

text \<open>\<open>Pair\<close>: the random token and ID are arguments; only the hash of the token is kept.\<close>

definition pair_device ::
    "(string \<Rightarrow> string) \<Rightarrow> bool \<Rightarrow> string \<Rightarrow> string \<Rightarrow> string \<Rightarrow> string \<Rightarrow> int \<Rightarrow> registry \<Rightarrow> (string \<times> string) option \<times> registry" where
  "pair_device hash writable name platform fresh_id token now r =
     (let d = \<lparr>dvID = fresh_id, dvTitle = (if name = [] then ''Paired device'' else name), dvPlatform = platform,
               dvTokenHash = hash token, dvPairedAt = now, dvLastSeen = None\<rparr>;
          (saved, r) = save_devices writable
             (r\<lparr>rgDevices := filter (\<lambda>x. dvID x \<noteq> fresh_id) (rgDevices r) @ [d]\<rparr>)
      in (if saved then Some (fresh_id, token) else None, r))"

definition last_match :: "string \<Rightarrow> device list \<Rightarrow> device option" where
  "last_match want ds = fold (\<lambda>d m. if dvTokenHash d = want then Some d else m) ds None"

definition verify_token ::
    "(string \<Rightarrow> string) \<Rightarrow> string \<Rightarrow> int \<Rightarrow> registry \<Rightarrow> string option \<times> registry" where
  "verify_token hash token now r =
     (if token = [] then (None, r)
      else case last_match (hash token) (rgDevices r) of
        None \<Rightarrow> (None, r)
      | Some d \<Rightarrow> (Some (dvID d), r\<lparr>rgDevices :=
          map (\<lambda>x. if dvID x = dvID d then x\<lparr>dvLastSeen := Some now\<rparr> else x) (rgDevices r)\<rparr>))"

definition device_count :: "registry \<Rightarrow> nat" where
  "device_count r = length (rgDevices r)"

text \<open>\<open>List\<close>: most recently paired first.\<close>

definition list_devices :: "registry \<Rightarrow> device list" where
  "list_devices r = rev (sort_key dvPairedAt (rgDevices r))"

text \<open>\<open>Revoke\<close> reports whether the device existed and the IDs it publishes as revoked.\<close>

definition revoke_device :: "bool \<Rightarrow> string \<Rightarrow> registry \<Rightarrow> bool \<times> string list \<times> registry" where
  "revoke_device writable k r =
     (let existed = list_ex (\<lambda>d. dvID d = k) (rgDevices r);
          (saved, r) = save_devices writable (r\<lparr>rgDevices := filter (\<lambda>d. dvID d \<noteq> k) (rgDevices r)\<rparr>)
      in if existed then (saved, [k], r) else (False, [], r))"

definition revoke_all :: "bool \<Rightarrow> registry \<Rightarrow> bool \<times> string list \<times> registry" where
  "revoke_all writable r =
     (let ids = map dvID (rgDevices r); (saved, r) = save_devices writable (r\<lparr>rgDevices := []\<rparr>)
      in (saved, ids, r))"

section \<open>Credentials on a request\<close>

record request =
  rqSecretParam :: string
  rqAuthorization :: string
  rqRemoteAddr :: string
  rqOrigin :: string
  rqHost :: string
  rqMethod :: string

definition presented_credential :: "request \<Rightarrow> string" where
  "presented_credential q =
     (if rqSecretParam q \<noteq> [] then rqSecretParam q
      else let h = rqAuthorization q
           in if 7 < length h \<and> take 7 h = ''Bearer '' then drop 7 h else [])"

text \<open>Splitting a host from a port, and whether an address is a loopback IP, are the library's.\<close>

definition is_loopback_request ::
    "(string \<Rightarrow> string option) \<Rightarrow> (string \<Rightarrow> bool option) \<Rightarrow> request \<Rightarrow> bool" where
  "is_loopback_request split_host parse_ip q =
     (let host = (case split_host (rqRemoteAddr q) of Some h \<Rightarrow> h | None \<Rightarrow> rqRemoteAddr q)
      in case parse_ip host of None \<Rightarrow> False | Some loopback \<Rightarrow> loopback)"

text \<open>The verifier is a function that may remember when a device was last seen.\<close>

record 'v auth_options =
  aoSecret :: string
  aoVerifier :: "(string \<Rightarrow> 'v \<Rightarrow> string option \<times> 'v) option"
  aoAllowLoopback :: bool

definition check_auth :: "bool \<Rightarrow> request \<Rightarrow> 'v auth_options \<Rightarrow> 'v \<Rightarrow> string option \<times> 'v" where
  "check_auth loopback q opts v =
     (let presented = presented_credential q;
          (known, v) = (case (if presented \<noteq> [] then aoVerifier opts else None) of
                          None \<Rightarrow> (None, v) | Some verify \<Rightarrow> verify presented v)
      in case known of
           Some k \<Rightarrow> (Some k, v)
         | None \<Rightarrow>
             if aoSecret opts = [] then (Some [], v)
             else if aoAllowLoopback opts \<and> loopback then (Some [], v)
             else if presented = aoSecret opts then (Some [], v) else (None, v))"

definition check_api_secret :: "bool \<Rightarrow> request \<Rightarrow> string \<Rightarrow> bool" where
  "check_api_secret loopback q secret =
     (fst (check_auth loopback q \<lparr>aoSecret = secret, aoVerifier = None, aoAllowLoopback = False\<rparr> ()) \<noteq> None)"

definition check_paired_device ::
    "(string \<Rightarrow> 'v \<Rightarrow> string option \<times> 'v) option \<Rightarrow> request \<Rightarrow> 'v \<Rightarrow> string option \<times> 'v" where
  "check_paired_device verifier q v =
     (case verifier of None \<Rightarrow> (None, v) | Some verify \<Rightarrow> verify (presented_credential q) v)"

section \<open>The gate\<close>

text \<open>What the policy functions report when the request comes, and the sessions a revocation ends.\<close>

record policy =
  poSecret :: string
  poRequirePaired :: bool
  poAllowLoopback :: bool

definition authenticate_request ::
    "(string \<Rightarrow> string) \<Rightarrow> policy \<Rightarrow> bool \<Rightarrow> int \<Rightarrow> request \<Rightarrow> registry \<Rightarrow> string option \<times> registry" where
  "authenticate_request hash pol loopback now q r =
     (let verify = (\<lambda>t r. verify_token hash t now r)
      in if poRequirePaired pol then check_paired_device (Some verify) q r
         else check_auth loopback q
           \<lparr>aoSecret = poSecret pol, aoVerifier = Some verify, aoAllowLoopback = poAllowLoopback pol\<rparr> r)"

text \<open>The gate's subscription: a revoked device is disconnected.\<close>

definition end_sessions :: "string list \<Rightarrow> string list \<Rightarrow> string list" where
  "end_sessions ids sessions = filter (\<lambda>x. x \<notin> set ids) sessions"

section \<open>Origins\<close>

definition trim_spaces :: "string \<Rightarrow> string" where
  "trim_spaces t = (let sp = (\<lambda>c. of_char c \<in> {9, 10, 11, 12, 13, 32 :: nat})
     in rev (dropWhile sp (rev (dropWhile sp t))))"

text \<open>\<open>grantOrigin\<close>, with the host \<open>url.Parse\<close> finds; the second result is what is recorded as blocked.\<close>

definition grant_origin ::
    "(string \<Rightarrow> string option) \<Rightarrow> (string \<Rightarrow> bool) option \<Rightarrow> string \<Rightarrow> string \<Rightarrow> bool \<times> string option" where
  "grant_origin parse_host allowed origin host =
     (case parse_host origin of
        None \<Rightarrow> (False, Some origin)
      | Some h \<Rightarrow>
          if equal_fold h host then (True, None)
          else if (case allowed of None \<Rightarrow> False | Some f \<Rightarrow> f h) then (True, None)
          else (False, Some h))"

definition check_origin_with ::
    "(string \<Rightarrow> string option) \<Rightarrow> (string \<Rightarrow> bool) \<Rightarrow> request \<Rightarrow> bool \<times> string option" where
  "check_origin_with parse_host allowed q =
     (if rqOrigin q = [] then (True, None) else grant_origin parse_host (Some allowed) (rqOrigin q) (rqHost q))"

definition allowed_hosts :: "string list \<Rightarrow> string list" where
  "allowed_hosts extra = filter (\<lambda>e. e \<noteq> [] \<and> e \<noteq> ''*'') (map trim_spaces extra)"

definition check_origin :: "(string \<Rightarrow> string option) \<Rightarrow> string list \<Rightarrow> request \<Rightarrow> bool" where
  "check_origin parse_host extra q =
     fst (check_origin_with parse_host
       (\<lambda>h. ''*'' \<in> set (map trim_spaces extra) \<or> h \<in> set (allowed_hosts extra)) q)"

text \<open>\<open>CheckOriginPolicy\<close> and \<open>CORSPolicy\<close> ask the same question; CORS answers with the origin echoed.\<close>

definition check_origin_policy ::
    "(string \<Rightarrow> string option) \<Rightarrow> (string \<Rightarrow> bool) option \<Rightarrow> request \<Rightarrow> bool \<times> string option" where
  "check_origin_policy parse_host pol q = (case pol of
     None \<Rightarrow> (check_origin parse_host [] q, None)
   | Some allowed \<Rightarrow> check_origin_with parse_host allowed q)"

record cors_reply =
  crAllowOrigin :: "string option"
  crVary :: bool
  crRuns :: bool

definition cors :: "request \<Rightarrow> cors_reply" where
  "cors q = \<lparr>crAllowOrigin = Some ''*'', crVary = False, crRuns = (rqMethod q \<noteq> ''OPTIONS'')\<rparr>"

definition cors_policy ::
    "(string \<Rightarrow> string option) \<Rightarrow> (string \<Rightarrow> bool) option \<Rightarrow> request \<Rightarrow> cors_reply \<times> string option" where
  "cors_policy parse_host pol q =
     (let (ok, blocked) = (if rqOrigin q = [] then (False, None)
                           else grant_origin parse_host pol (rqOrigin q) (rqHost q))
      in (\<lparr>crAllowOrigin = (if ok then Some (rqOrigin q) else None), crVary = (rqOrigin q \<noteq> []),
           crRuns = (rqMethod q \<noteq> ''OPTIONS'')\<rparr>,
          if pol = None then None else blocked))"

section \<open>A history of pairings and revocations\<close>

datatype access_op =
    PairOp string string string string int bool
  | RevokeOp string bool
  | RevokeAllOp bool
  | VerifyOp string int

text \<open>\<open>PairOp k token name platform now writable\<close>; the other operations alike.\<close>

fun run_access :: "(string \<Rightarrow> string) \<Rightarrow> access_op list \<Rightarrow> registry \<Rightarrow> registry" where
  "run_access hash [] r = r"
| "run_access hash (PairOp k token name platform now w # ops) r =
     run_access hash ops (snd (pair_device hash w name platform k token now r))"
| "run_access hash (RevokeOp k w # ops) r = run_access hash ops (snd (snd (revoke_device w k r)))"
| "run_access hash (RevokeAllOp w # ops) r = run_access hash ops (snd (snd (revoke_all w r)))"
| "run_access hash (VerifyOp token now # ops) r = run_access hash ops (snd (verify_token hash token now r))"

text \<open>What the registry promises: the credentials issued and not withdrawn since.\<close>

fun live_after :: "access_op list \<Rightarrow> (string \<times> string) list \<Rightarrow> (string \<times> string) list" where
  "live_after [] l = l"
| "live_after (PairOp k token name platform now w # ops) l =
     live_after ops (filter (\<lambda>x. fst x \<noteq> k) l @ [(k, token)])"
| "live_after (RevokeOp k w # ops) l = live_after ops (filter (\<lambda>x. fst x \<noteq> k) l)"
| "live_after (RevokeAllOp w # ops) l = live_after ops []"
| "live_after (VerifyOp token now # ops) l = live_after ops l"

text \<open>The operations that withdraw the credential a device was issued.\<close>

fun withdraws :: "string \<Rightarrow> access_op \<Rightarrow> bool" where
  "withdraws k (PairOp j token name platform now w) = (j = k)"
| "withdraws k (RevokeOp j w) = (j = k)"
| "withdraws k (RevokeAllOp w) = True"
| "withdraws k (VerifyOp token now) = False"

fun tokens_of :: "access_op list \<Rightarrow> string list" where
  "tokens_of [] = []"
| "tokens_of (PairOp k token name platform now w # ops) = token # tokens_of ops"
| "tokens_of (_ # ops) = tokens_of ops"

text \<open>A credential that was issued and is not withdrawn by what follows.\<close>

definition issued :: "string \<Rightarrow> string \<Rightarrow> access_op list \<Rightarrow> bool" where
  "issued k t ops \<longleftrightarrow> (\<exists>pre post name platform now w.
     ops = pre @ PairOp k t name platform now w # post \<and> \<not> list_ex (withdraws k) post)"

lemma issued_simps [simp]:
  "\<not> issued k t []"
  "issued k t (PairOp j u name platform now w # ops) \<longleftrightarrow> j = k \<and> u = t \<and> \<not> list_ex (withdraws k) ops \<or> issued k t ops"
  "issued k t (RevokeOp j w # ops) = issued k t ops" "issued k t (RevokeAllOp w # ops) = issued k t ops"
  "issued k t (VerifyOp u now # ops) = issued k t ops"
proof -
  have step: "issued k t (x # ops) \<longleftrightarrow> (\<exists>name platform now w. x = PairOp k t name platform now w) \<and>
      \<not> list_ex (withdraws k) ops \<or> issued k t ops" for x
    unfolding issued_def by (auto simp: Cons_eq_append_conv) blast+
  show "issued k t (PairOp j u name platform now w # ops) \<longleftrightarrow>
      j = k \<and> u = t \<and> \<not> list_ex (withdraws k) ops \<or> issued k t ops"
    "issued k t (RevokeOp j w # ops) = issued k t ops" "issued k t (RevokeAllOp w # ops) = issued k t ops"
    "issued k t (VerifyOp u now # ops) = issued k t ops" unfolding step by auto
qed (simp add: issued_def)

lemma live_iff:
  "(k, t) \<in> set (live_after ops l) \<longleftrightarrow> (k, t) \<in> set l \<and> \<not> list_ex (withdraws k) ops \<or> issued k t ops"
  by (induction ops l rule: live_after.induct) auto

section \<open>The registry keeps its promise\<close>

definition credentials :: "registry \<Rightarrow> (string \<times> string) list" where
  "credentials r = map (\<lambda>d. (dvID d, dvTokenHash d)) (rgDevices r)"

definition hashed :: "(string \<Rightarrow> string) \<Rightarrow> (string \<times> string) list \<Rightarrow> (string \<times> string) list" where
  "hashed hash l = map (\<lambda>(k, t). (k, hash t)) l"

lemma credentials_simps [simp]:
  "credentials (snd (save_devices w r)) = credentials r"
  "credentials (r\<lparr>rgDevices := filter (\<lambda>d. dvID d \<noteq> k) (rgDevices r)\<rparr>) = filter (\<lambda>x. fst x \<noteq> k) (credentials r)"
  "credentials (r\<lparr>rgDevices := []\<rparr>) = []"
  by (auto simp: credentials_def save_devices_def filter_map o_def)

lemma hashed_simps [simp]:
  "hashed hash [] = []" "hashed hash (l @ [(k, t)]) = hashed hash l @ [(k, hash t)]"
  "hashed hash (filter (\<lambda>x. fst x \<noteq> k) l) = filter (\<lambda>x. fst x \<noteq> k) (hashed hash l)"
  by (auto simp: hashed_def filter_map o_def case_prod_unfold)

lemma credentials_pair:
  "credentials (snd (pair_device hash w name platform k token now r)) =
     filter (\<lambda>x. fst x \<noteq> k) (credentials r) @ [(k, hash token)]"
proof -
  let ?d = "\<lparr>dvID = k, dvTitle = (if name = [] then ''Paired device'' else name), dvPlatform = platform,
    dvTokenHash = hash token, dvPairedAt = now, dvLastSeen = None\<rparr>"
  let ?r = "r\<lparr>rgDevices := filter (\<lambda>x. dvID x \<noteq> k) (rgDevices r) @ [?d]\<rparr>"
  have "snd (pair_device hash w name platform k token now r) = snd (save_devices w ?r)"
    unfolding pair_device_def Let_def by (simp only: case_prod_unfold snd_conv)
  then have "credentials (snd (pair_device hash w name platform k token now r)) = credentials ?r" by simp
  then show ?thesis by (simp add: credentials_def filter_map o_def)
qed

lemma credentials_revoke:
  "credentials (snd (snd (revoke_device w k r))) = filter (\<lambda>x. fst x \<noteq> k) (credentials r)"
proof -
  have "snd (snd (revoke_device w k r)) = snd (save_devices w (r\<lparr>rgDevices := filter (\<lambda>d. dvID d \<noteq> k) (rgDevices r)\<rparr>))"
    by (simp add: revoke_device_def Let_def split: prod.split)
  then show ?thesis by simp
qed

lemma credentials_revoke_all: "credentials (snd (snd (revoke_all w r))) = []"
proof -
  have "snd (snd (revoke_all w r)) = snd (save_devices w (r\<lparr>rgDevices := []\<rparr>))"
    by (simp add: revoke_all_def Let_def split: prod.split)
  then show ?thesis by simp
qed

lemma credentials_verify: "credentials (snd (verify_token hash token now r)) = credentials r"
  by (auto simp: verify_token_def credentials_def split: option.split)

lemma registry_refines:
  "credentials r = hashed hash l \<Longrightarrow> credentials (run_access hash ops r) = hashed hash (live_after ops l)"
  by (induction hash ops r arbitrary: l rule: run_access.induct)
    (simp_all add: credentials_pair credentials_revoke credentials_revoke_all credentials_verify)

lemma last_match_cred:
  "map_option dvID (last_match want ds) =
     fold (\<lambda>x m. if snd x = want then Some (fst x) else m) (map (\<lambda>d. (dvID d, dvTokenHash d)) ds) None"
proof -
  have "map_option dvID (fold (\<lambda>d m. if dvTokenHash d = want then Some d else m) ds m) =
      fold (\<lambda>x m. if snd x = want then Some (fst x) else m) (map (\<lambda>d. (dvID d, dvTokenHash d)) ds) (map_option dvID m)" for m
    by (induction ds arbitrary: m) auto
  from this [of None] show ?thesis by (simp add: last_match_def)
qed

lemma fold_last:
  "fold (\<lambda>x m. if snd x = want then Some (fst x) else m) xs m0 = Some k \<Longrightarrow> m0 = Some k \<or> (k, want) \<in> set xs"
  by (induction xs arbitrary: m0) (fastforce split: if_splits)+

lemma fold_found:
  assumes "(k, want) \<in> set xs"
  shows "\<exists>j. fold (\<lambda>x m. if snd x = want then Some (fst x) else m) xs m0 = Some j"
proof -
  have some: "\<exists>j. fold (\<lambda>x m. if snd x = want then Some (fst x) else m) ys (Some i) = Some j" for ys i
    by (induction ys arbitrary: i) auto
  from assms show ?thesis by (induction xs arbitrary: m0) (auto simp: some)
qed

text \<open>\<open>VerifyToken\<close> answers with a device exactly when one holds the hash of what was presented.\<close>

lemma verify_token_iff:
  assumes "token \<noteq> []"
    and "\<And>i j. (i, hash token) \<in> set (credentials r) \<Longrightarrow> (j, hash token) \<in> set (credentials r) \<Longrightarrow> i = j"
  shows "fst (verify_token hash token now r) = Some k \<longleftrightarrow> (k, hash token) \<in> set (credentials r)"
proof -
  have f: "fst (verify_token hash token now r) = map_option dvID (last_match (hash token) (rgDevices r))"
    using assms(1) by (auto simp: verify_token_def split: option.split)
  note last = fold_last [of "hash token" "credentials r" None]
  show ?thesis
    unfolding f last_match_cred credentials_def [symmetric]
  proof
    assume "(k, hash token) \<in> set (credentials r)"
    then obtain j where "fold (\<lambda>x m. if snd x = hash token then Some (fst x) else m) (credentials r) None = Some j"
      using fold_found [of k "hash token" "credentials r" None] by blast
    with last [OF this] assms(2) \<open>(k, hash token) \<in> set (credentials r)\<close>
    show "fold (\<lambda>x m. if snd x = hash token then Some (fst x) else m) (credentials r) None = Some k" by auto
  qed (use last in auto)
qed

lemma issued_token: "issued k t ops \<Longrightarrow> t \<in> set (tokens_of ops)"
  by (induction ops rule: tokens_of.induct) auto

lemma issued_unique: "issued j t ops \<Longrightarrow> issued k t ops \<Longrightarrow> distinct (tokens_of ops) \<Longrightarrow> j = k"
  by (induction ops rule: tokens_of.induct) (auto dest: issued_token)

text \<open>
  With pairing required, a request is admitted as a device exactly when it presents a token that
  was issued to that device and not withdrawn since.
\<close>

lemma strict_admission:
  assumes "poRequirePaired pol" "distinct (tokens_of ops)"
    and "inj_on hash (insert (presented_credential q) (set (tokens_of ops)))"
  shows "fst (authenticate_request hash pol loopback now q (run_access hash ops (new_registry dir None))) = Some k \<longleftrightarrow>
    presented_credential q \<noteq> [] \<and> issued k (presented_credential q) ops"
proof -
  let ?t = "presented_credential q" and ?r = "run_access hash ops (new_registry dir None)"
  have c: "credentials ?r = hashed hash (live_after ops [])"
    by (rule registry_refines) (simp add: new_registry_def credentials_def)
  have live: "(j, hash ?t) \<in> set (credentials ?r) \<longleftrightarrow> issued j ?t ops" for j
  proof -
    have "(j, hash ?t) \<in> set (credentials ?r) \<longleftrightarrow> (\<exists>u. issued j u ops \<and> hash u = hash ?t)"
      using live_iff [of j _ ops "[]"] by (auto simp: c hashed_def) (metis case_prod_conv image_eqI)
    then show ?thesis using assms(3) issued_token by (metis inj_onD insertI1 insertI2)
  qed
  have "fst (verify_token hash ?t now ?r) = Some k \<longleftrightarrow> ?t \<noteq> [] \<and> issued k ?t ops"
  proof (cases "?t = []")
    case False
    then show ?thesis using verify_token_iff [of ?t hash ?r now k] live issued_unique assms(2) by auto
  qed (simp add: verify_token_def)
  then show ?thesis using assms(1) by (simp add: authenticate_request_def check_paired_device_def)
qed

text \<open>Without that requirement the shared secret is a peer of a paired token, and nothing else is.\<close>

lemma lenient_admission:
  assumes "\<not> poRequirePaired pol" "poSecret pol \<noteq> []" "\<not> (poAllowLoopback pol \<and> loopback)"
    and "fst (authenticate_request hash pol loopback now q r) = Some k"
  shows "k = [] \<and> presented_credential q = poSecret pol \<or>
    presented_credential q \<noteq> [] \<and> fst (verify_token hash (presented_credential q) now r) = Some k"
  using assms
  by (auto simp: authenticate_request_def check_auth_def Let_def split: if_splits prod.splits option.splits)

text \<open>A revocation leaves no session of the revoked device, and every other session alone.\<close>

lemma revocation_ends_session:
  assumes "revoke_device w k r = (ok, ids, r')" "k \<in> set (map dvID (rgDevices r))"
  shows "set (end_sessions ids sessions) = set sessions - {k}"
  using assms by (auto simp: revoke_device_def end_sessions_def Let_def list_ex_iff split: prod.splits if_splits)

section \<open>A page of another origin\<close>

lemma origin_granted_iff:
  "check_origin parse_host extra q \<longleftrightarrow>
     rqOrigin q = [] \<or> (\<exists>h. parse_host (rqOrigin q) = Some h \<and>
       (equal_fold h (rqHost q) \<or> ''*'' \<in> set (map trim_spaces extra) \<or>
        h \<in> set (map trim_spaces extra) \<and> h \<noteq> [] \<and> h \<noteq> ''*''))"
  by (auto simp: check_origin_def check_origin_with_def grant_origin_def allowed_hosts_def split: option.split)

text \<open>The WebSocket check and the CORS headers never disagree.\<close>

lemma cors_agrees:
  assumes "rqOrigin q \<noteq> []"
  shows "crAllowOrigin (fst (cors_policy parse_host (Some allowed) q)) = Some (rqOrigin q) \<longleftrightarrow>
    fst (check_origin_policy parse_host (Some allowed) q)"
  using assms
  by (simp add: cors_policy_def check_origin_policy_def check_origin_with_def case_prod_unfold Let_def)

section \<open>A registry read back\<close>

lemma load_distinct:
  assumes "distinct (map dvID (m @ ds))" "\<And>d. d \<in> set ds \<Longrightarrow> dvID d \<noteq> []"
  shows "foldl (\<lambda>m d. if dvID d \<noteq> [] then filter (\<lambda>x. dvID x \<noteq> dvID d) m @ [d] else m) m ds = m @ ds"
  using assms
proof (induction ds arbitrary: m)
  case (Cons d ds)
  then have "filter (\<lambda>x. dvID x \<noteq> dvID d) m = m" by (intro filter_True) (auto simp: image_iff)
  with Cons.prems Cons.IH [of "m @ [d]"] show ?case by simp
qed simp

text \<open>What was saved is what the next start reads, up to the order the file is sorted in.\<close>

lemma registry_reload:
  assumes "rgConfigDir r \<noteq> []" "distinct (map dvID (rgDevices r))" "[] \<notin> set (map dvID (rgDevices r))"
  shows "mset (rgDevices (new_registry (rgConfigDir r) (rgFile (snd (save_devices True r))))) = mset (rgDevices r)"
proof -
  have "distinct (map dvID (sort_key dvID (rgDevices r)))" using assms(2)
    by (metis distinct_map distinct_sort set_sort)
  then have "foldl (\<lambda>m d. if dvID d \<noteq> [] then filter (\<lambda>x. dvID x \<noteq> dvID d) m @ [d] else m) [] (sort_key dvID (rgDevices r)) =
      sort_key dvID (rgDevices r)"
    using load_distinct [of "[]" "sort_key dvID (rgDevices r)"] assms(3) by (metis append_Nil image_eqI set_map set_sort)
  then show ?thesis using assms(1) by (simp add: new_registry_def save_devices_def)
qed

end
