(* ===== verification/LogRing.thy ===== *)
theory LogRing
  imports Errors "HOL-Library.Word"
begin

text \<open>
  The in-memory log, \<open>logbuf/logbuf.go\<close>: a circular buffer of the last lines, fed by writers that
  each keep their own unfinished line. What a time stamp parses to (\<open>time.ParseInLocation\<close>) and the
  current time are arguments. Lines are character strings; the fan-out to subscribers is a bounded
  queue each.
\<close>

section \<open>Lines\<close>

datatype level = LevelInfo | LevelWarn | LevelError

record log_entry =
  leSeq :: "64 word"
  leTime :: int
  leLevel :: level
  leSource :: string
  leMessage :: string

text \<open>\<open>strings.TrimLeft\<close> of spaces, \<open>TrimRight\<close> of carriage returns, and whether \<open>TrimSpace\<close> leaves anything.\<close>

definition trim_left_spaces :: "string \<Rightarrow> string" where
  "trim_left_spaces = dropWhile (\<lambda>c. c = CHR '' '')"

definition trim_right_cr :: "string \<Rightarrow> string" where
  "trim_right_cr t = rev (dropWhile (\<lambda>c. c = CHR 0x0D) (rev t))"

definition blank :: "string \<Rightarrow> bool" where
  "blank t \<longleftrightarrow> list_all (\<lambda>c. of_char c \<in> {9, 10, 11, 12, 13, 32 :: nat}) t"

fun index_char :: "char \<Rightarrow> string \<Rightarrow> nat option" where
  "index_char c [] = None"
| "index_char c (x # xs) = (if x = c then Some 0 else map_option Suc (index_char c xs))"

definition parse_line :: "(string \<Rightarrow> int option) \<Rightarrow> int \<Rightarrow> string \<Rightarrow> int \<times> string \<times> string" where
  "parse_line stamp now line =
     (let (source, rest) =
        (case (if take 1 line = ''['' then index_char (CHR '']'') line else None) of
           None \<Rightarrow> ([], line)
         | Some end \<Rightarrow> if 0 < end then (take (end + 1) line, trim_left_spaces (drop (end + 1) line)) else ([], line))
      in case (if 19 < length rest \<and> rest ! 19 = CHR '' '' then stamp (take 19 rest) else None) of
           Some ts \<Rightarrow> (ts, source, trim_left_spaces (drop 20 rest))
         | None \<Rightarrow> (now, source, rest))"

lemma index_char_bound: "index_char c t = Some i \<Longrightarrow> i < length t"
  by (induction t arbitrary: i) (auto split: if_splits)

text \<open>The complete lines of what has been written, and the part after the last line feed.\<close>

function split_lines :: "string \<Rightarrow> string list \<times> string" where
  "split_lines buf = (case index_char (CHR 0x0A) buf of
     None \<Rightarrow> ([], buf)
   | Some i \<Rightarrow> let (ls, rest) = split_lines (drop (i + 1) buf) in (take i buf # ls, rest))"
  by pat_completeness auto

termination by (relation "measure length") (auto dest: index_char_bound)

declare split_lines.simps [simp del]

section \<open>The ring\<close>

text \<open>A subscriber's channel: its buffer, what is queued, and whether it has been closed.\<close>

record log_chan =
  lcRoom :: nat
  lcQueue :: "log_entry list"
  lcClosed :: bool

record log_ring =
  rgEntries :: "log_entry list"
  rgCapacity :: nat
  rgNext :: nat
  rgCount :: nat
  rgSeq :: "64 word"
  rgSubs :: "nat list"
  rgSubN :: nat
  rgChans :: "nat \<Rightarrow> log_chan"

definition default_capacity :: nat where "default_capacity = 5000"

definition zero_entry :: log_entry where
  "zero_entry = \<lparr>leSeq = 0, leTime = 0, leLevel = LevelInfo, leSource = [], leMessage = []\<rparr>"

definition new_ring :: "int \<Rightarrow> log_ring" where
  "new_ring capacity =
     (let c = (if capacity \<le> 0 then default_capacity else nat capacity)
      in \<lparr>rgEntries = replicate c zero_entry, rgCapacity = c, rgNext = 0, rgCount = 0, rgSeq = 0, rgSubs = [], rgSubN = 0,
          rgChans = (\<lambda>k. \<lparr>lcRoom = 0, lcQueue = [], lcClosed = False\<rparr>)\<rparr>)"

definition append_entry ::
    "(string \<Rightarrow> int option) \<Rightarrow> int \<Rightarrow> string \<Rightarrow> level \<Rightarrow> log_ring \<Rightarrow> log_entry \<times> log_ring" where
  "append_entry stamp now txt lv r =
     (let (ts, source, msg) = parse_line stamp now txt;
          e = \<lparr>leSeq = rgSeq r + 1, leTime = ts, leLevel = lv, leSource = source, leMessage = msg\<rparr>
      in (e, r\<lparr>rgSeq := rgSeq r + 1, rgEntries := (rgEntries r)[rgNext r := e],
               rgNext := (rgNext r + 1) mod rgCapacity r,
               rgCount := (if rgCount r < rgCapacity r then rgCount r + 1 else rgCount r)\<rparr>))"

fun append_lines ::
    "(string \<Rightarrow> int option) \<Rightarrow> int \<Rightarrow> level \<Rightarrow> string list \<Rightarrow> log_ring \<Rightarrow> log_entry list \<times> log_ring" where
  "append_lines stamp now lv [] r = ([], r)"
| "append_lines stamp now lv (l # ls) r =
     (let txt = trim_right_cr l
      in if blank txt then append_lines stamp now lv ls r
         else let (e, r) = append_entry stamp now txt lv r; (es, r) = append_lines stamp now lv ls r
              in (e # es, r))"

text \<open>
  \<open>write\<close> on behalf of a writer, in its two halves: what it does under the lock (its own unfinished
  line, the entries, and the subscribers of that moment), and the fan-out after the lock is released. A
  full channel is passed over; a send on a closed channel panics, which is None.
\<close>

definition ring_record ::
    "(string \<Rightarrow> int option) \<Rightarrow> int \<Rightarrow> string \<Rightarrow> level \<Rightarrow> string \<Rightarrow> log_ring
       \<Rightarrow> (string \<times> log_entry list \<times> nat list) \<times> log_ring" where
  "ring_record stamp now p lv partial r =
     (let (complete, rest) = split_lines (partial @ p); (added, r) = append_lines stamp now lv complete r
      in ((rest, added, rgSubs r), r))"

definition send_entry :: "log_entry \<Rightarrow> nat \<Rightarrow> log_ring \<Rightarrow> log_ring option" where
  "send_entry e k r =
     (let ch = rgChans r k
      in if lcClosed ch then None
         else if length (lcQueue ch) < lcRoom ch
         then Some (r\<lparr>rgChans := (rgChans r)(k := ch\<lparr>lcQueue := lcQueue ch @ [e]\<rparr>)\<rparr>)
         else Some r)"

fun fan_out :: "(log_entry \<times> nat) list \<Rightarrow> log_ring \<Rightarrow> log_ring option" where
  "fan_out [] r = Some r"
| "fan_out ((e, k) # xs) r = (case send_entry e k r of None \<Rightarrow> None | Some r \<Rightarrow> fan_out xs r)"

definition ring_write ::
    "(string \<Rightarrow> int option) \<Rightarrow> int \<Rightarrow> string \<Rightarrow> level \<Rightarrow> string \<Rightarrow> log_ring \<Rightarrow> (nat \<times> string \<times> log_ring) option" where
  "ring_write stamp now p lv partial r =
     (let ((rest, added, subs), r) = ring_record stamp now p lv partial r
      in map_option (\<lambda>r. (length p, rest, r)) (fan_out (List.product added subs) r))"

definition ring_since :: "64 word \<Rightarrow> log_ring \<Rightarrow> log_entry list" where
  "ring_since seq r =
     (let start = (if rgCount r = rgCapacity r then rgNext r else 0)
      in filter (\<lambda>e. seq < leSeq e) (map (\<lambda>i. rgEntries r ! ((start + i) mod rgCapacity r)) [0..<rgCount r]))"

definition ring_entries :: "log_ring \<Rightarrow> log_entry list" where
  "ring_entries r = ring_since 0 r"

definition ring_len :: "log_ring \<Rightarrow> nat" where
  "ring_len r = rgCount r"

definition ring_subscribe :: "int \<Rightarrow> log_ring \<Rightarrow> nat \<times> log_ring" where
  "ring_subscribe buffer r =
     (let b = (if buffer \<le> 0 then 256 else nat buffer)
      in (rgSubN r, r\<lparr>rgSubN := rgSubN r + 1, rgSubs := rgSubs r @ [rgSubN r],
            rgChans := (rgChans r)(rgSubN r := \<lparr>lcRoom = b, lcQueue = [], lcClosed = False\<rparr>)\<rparr>))"

text \<open>The function \<open>Subscribe\<close> returns; it acts once.\<close>

definition ring_unsubscribe :: "nat \<Rightarrow> log_ring \<Rightarrow> log_ring" where
  "ring_unsubscribe k r =
     (if lcClosed (rgChans r k) then r
      else r\<lparr>rgSubs := filter (\<lambda>x. x \<noteq> k) (rgSubs r), rgChans := (rgChans r)(k := (rgChans r k)\<lparr>lcClosed := True\<rparr>)\<rparr>)"

section \<open>The last lines\<close>

text \<open>
  The contract: the ring holds the last \<open>capacity\<close> of the entries ever recorded, oldest first. The
  entries recorded carry the numbers 1, 2, 3 and so on.
\<close>

definition last_n :: "nat \<Rightarrow> 'a list \<Rightarrow> 'a list" where
  "last_n n xs = drop (length xs - n) xs"

definition ring_view :: "log_ring \<Rightarrow> log_entry list" where
  "ring_view r =
     (let start = (if rgCount r = rgCapacity r then rgNext r else 0)
      in map (\<lambda>i. rgEntries r ! ((start + i) mod rgCapacity r)) [0..<rgCount r])"

definition ring_ok :: "log_ring \<Rightarrow> log_entry list \<Rightarrow> bool" where
  "ring_ok r all \<longleftrightarrow> 0 < rgCapacity r \<and> length (rgEntries r) = rgCapacity r \<and>
     rgCount r = min (length all) (rgCapacity r) \<and> rgNext r = length all mod rgCapacity r \<and>
     rgSeq r = of_nat (length all) \<and> map leSeq all = map (\<lambda>i. of_nat (Suc i)) [0..<length all] \<and>
     (\<forall>i < length all. length all - rgCapacity r \<le> i \<longrightarrow> rgEntries r ! (i mod rgCapacity r) = all ! i)"

text \<open>No subscriber on the list is closed, and those listed are of the past.\<close>

definition subs_open :: "log_ring \<Rightarrow> bool" where
  "subs_open r \<longleftrightarrow> (\<forall>k \<in> set (rgSubs r). k < rgSubN r \<and> \<not> lcClosed (rgChans r k))"

lemma new_ring_ok: "ring_ok (new_ring capacity) []"
  by (auto simp: ring_ok_def new_ring_def Let_def default_capacity_def)

lemma append_entry_ok:
  assumes "ring_ok r all" "append_entry stamp now txt lv r = (e, r')"
  shows "ring_ok r' (all @ [e])" "subs_open r' = subs_open r" "rgCapacity r' = rgCapacity r"
proof -
  let ?c = "rgCapacity r" and ?n = "length all"
  note ok = assms(1) [unfolded ring_ok_def]
  have r': "r' = r\<lparr>rgSeq := rgSeq r + 1, rgEntries := (rgEntries r)[rgNext r := e], rgNext := (rgNext r + 1) mod ?c,
      rgCount := (if rgCount r < ?c then rgCount r + 1 else rgCount r)\<rparr>" and e: "leSeq e = rgSeq r + 1"
    using assms(2) by (auto simp: append_entry_def Let_def split: prod.splits)
  show "subs_open r' = subs_open r" "rgCapacity r' = rgCapacity r" by (simp_all add: r' subs_open_def)
  have at: "(rgEntries r)[?n mod ?c := e] ! (i mod ?c) = (all @ [e]) ! i"
    if "i < Suc ?n" "Suc ?n - ?c \<le> i" for i
  proof (cases "i = ?n")
    case True
    then show ?thesis using ok by simp
  next
    case False
    have "i mod ?c \<noteq> ?n mod ?c"
    proof
      assume "i mod ?c = ?n mod ?c"
      then have "?c dvd ?n - i" using that(1) False mod_eq_dvd_iff_nat [of i ?n ?c] by simp
      moreover have "0 < ?n - i" "?n - i < ?c" using that False by auto
      ultimately show False by (auto dest: dvd_imp_le)
    qed
    then show ?thesis using ok that False by (simp add: nth_append)
  qed
  show "ring_ok r' (all @ [e])"
    unfolding ring_ok_def r'
    using ok e at by (auto simp: mod_Suc_eq min_def)
qed

lemma append_lines_ok:
  assumes "ring_ok r all" "append_lines stamp now lv ls r = (es, r')"
  shows "ring_ok r' (all @ es) \<and> subs_open r' = subs_open r \<and> rgCapacity r' = rgCapacity r"
  using assms
proof (induction stamp now lv ls r arbitrary: all es r' rule: append_lines.induct)
  case (2 stamp now lv l ls r)
  obtain e r1 where a: "append_entry stamp now (trim_right_cr l) lv r = (e, r1)" by fastforce
  obtain es1 r2 where b: "append_lines stamp now lv ls r1 = (es1, r2)" by fastforce
  show ?case
  proof (cases "blank (trim_right_cr l)")
    case True
    then show ?thesis using 2 by (simp add: Let_def)
  next
    case False
    have "ring_ok r2 ((all @ [e]) @ es1) \<and> subs_open r2 = subs_open r1 \<and> rgCapacity r2 = rgCapacity r1"
      using 2(2) [OF refl False a [symmetric] refl append_entry_ok(1) [OF 2(3) a] b] .
    then show ?thesis using False a b 2(3,4) append_entry_ok(2,3) [OF 2(3) a] by (simp add: Let_def)
  qed
qed simp

lemma oldest_position:
  fixes n c :: nat
  assumes "i < min n c"
  shows "((if min n c = c then n mod c else 0) + i) mod c = (n - c + i) mod c"
proof (cases "c \<le> n")
  case True
  then have e: "(n - c) mod c = n mod c" by (simp add: le_mod_geq)
  have "(n mod c + i) mod c = ((n - c) mod c + i) mod c" by (simp only: e)
  then have "(n mod c + i) mod c = (n - c + i) mod c" by (simp only: mod_add_left_eq)
  then show ?thesis using True by (simp add: min_absorb2)
qed (use assms in simp)

lemma ring_view_last:
  assumes "ring_ok r all"
  shows "ring_view r = last_n (rgCapacity r) all"
proof (rule nth_equalityI)
  let ?c = "rgCapacity r" and ?n = "length all"
  have c: "rgCount r = min ?n ?c" and x: "rgNext r = ?n mod ?c"
    and at: "\<And>i. i < ?n \<Longrightarrow> ?n - ?c \<le> i \<Longrightarrow> rgEntries r ! (i mod ?c) = all ! i"
    using assms by (simp_all only: ring_ok_def)
  show "length (ring_view r) = length (last_n ?c all)" by (simp add: ring_view_def last_n_def c)
  fix i
  assume "i < length (ring_view r)"
  then have i: "i < min ?n ?c" by (simp add: ring_view_def c)
  have "ring_view r ! i = rgEntries r ! (((if min ?n ?c = ?c then ?n mod ?c else 0) + i) mod ?c)"
    unfolding ring_view_def Let_def c x using i by simp
  also have "\<dots> = all ! (?n - ?c + i)"
    unfolding oldest_position [OF i] using i by (intro at) auto
  also have "\<dots> = last_n ?c all ! i" using i by (simp add: last_n_def)
  finally show "ring_view r ! i = last_n ?c all ! i" .
qed

lemma ring_since_view: "ring_since seq r = filter (\<lambda>e. seq < leSeq e) (ring_view r)"
  by (simp add: ring_since_def ring_view_def Let_def)

section \<open>Any use of the log\<close>

text \<open>Writers, each with its level and its own unfinished line, and subscribers that come and go.\<close>

datatype log_op = LogWrite nat level string | LogSubscribe int | LogUnsubscribe nat

fun log_step ::
    "(string \<Rightarrow> int option) \<Rightarrow> int \<Rightarrow> log_op \<Rightarrow> (nat \<Rightarrow> string) \<times> log_ring \<Rightarrow> ((nat \<Rightarrow> string) \<times> log_ring) option" where
  "log_step stamp now (LogWrite w lv p) (parts, r) =
     map_option (\<lambda>(n, rest, r). (parts(w := rest), r)) (ring_write stamp now p lv (parts w) r)"
| "log_step stamp now (LogSubscribe b) (parts, r) = Some (parts, snd (ring_subscribe b r))"
| "log_step stamp now (LogUnsubscribe k) (parts, r) =
     Some (parts, if k < rgSubN r then ring_unsubscribe k r else r)"

fun run_log ::
    "(string \<Rightarrow> int option) \<Rightarrow> int \<Rightarrow> log_op list \<Rightarrow> (nat \<Rightarrow> string) \<times> log_ring \<Rightarrow> ((nat \<Rightarrow> string) \<times> log_ring) option" where
  "run_log stamp now [] s = Some s"
| "run_log stamp now (x # xs) s = (case log_step stamp now x s of None \<Rightarrow> None | Some s \<Rightarrow> run_log stamp now xs s)"

text \<open>While the list holds open channels only, a fan-out never panics, and neither does any operation.\<close>

lemma fan_out_ok:
  "\<lbrakk>\<forall>(e, k) \<in> set xs. k \<in> set (rgSubs r); subs_open r\<rbrakk>
    \<Longrightarrow> \<exists>ch. fan_out xs r = Some (r\<lparr>rgChans := ch\<rparr>) \<and> subs_open (r\<lparr>rgChans := ch\<rparr>)"
proof (induction xs r rule: fan_out.induct)
  case (1 r)
  then show ?case by (intro exI [of _ "rgChans r"]) simp
next
  case (2 e k xs r)
  have k: "k \<in> set (rgSubs r)" "\<not> lcClosed (rgChans r k)" using 2(2,3) by (auto simp: subs_open_def)
  obtain ch where s: "send_entry e k r = Some (r\<lparr>rgChans := ch\<rparr>)" "subs_open (r\<lparr>rgChans := ch\<rparr>)"
  proof (cases "length (lcQueue (rgChans r k)) < lcRoom (rgChans r k)")
    case True
    show ?thesis
      by (rule that [of "(rgChans r)(k := (rgChans r k)\<lparr>lcQueue := lcQueue (rgChans r k) @ [e]\<rparr>)"])
        (use k 2(3) True in \<open>auto simp: send_entry_def subs_open_def Let_def\<close>)
  next
    case False
    show ?thesis by (rule that [of "rgChans r"]) (use k 2(3) False in \<open>auto simp: send_entry_def\<close>)
  qed
  from 2(1) [OF s(1) _ s(2)] 2(2) s(1) show ?case by (fastforce split: option.splits)
qed

lemma ring_write_ok:
  assumes "ring_ok r all" "subs_open r"
  shows "\<exists>n rest r' es. ring_write stamp now p lv part r = Some (n, rest, r') \<and> ring_ok r' (all @ es) \<and> subs_open r' \<and>
    rgCapacity r' = rgCapacity r"
proof -
  obtain ls rs where s: "split_lines (part @ p) = (ls, rs)" by fastforce
  obtain es r1 where a: "append_lines stamp now lv ls r = (es, r1)" by fastforce
  have ok: "ring_ok r1 (all @ es)" and op: "subs_open r1" and c: "rgCapacity r1 = rgCapacity r" using append_lines_ok [OF assms(1) a] assms(2) by auto
  obtain ch where f: "fan_out (List.product es (rgSubs r1)) r1 = Some (r1\<lparr>rgChans := ch\<rparr>)" "subs_open (r1\<lparr>rgChans := ch\<rparr>)"
    using fan_out_ok [OF _ op, of "List.product es (rgSubs r1)"] by auto
  have "ring_ok (r1\<lparr>rgChans := ch\<rparr>) (all @ es)" using ok by (simp add: ring_ok_def)
  then show ?thesis using s a f c by (auto simp: ring_write_def ring_record_def)
qed

lemma log_step_ok:
  assumes "ring_ok r all" "subs_open r"
  shows "\<exists>parts' r' es. log_step stamp now x (parts, r) = Some (parts', r') \<and> ring_ok r' (all @ es) \<and> subs_open r' \<and>
    rgCapacity r' = rgCapacity r"
proof (cases x)
  case (LogWrite w lv p)
  then show ?thesis using ring_write_ok [OF assms, of stamp now p lv "parts w"] by fastforce
next
  case (LogSubscribe b)
  then show ?thesis using assms
    by (intro exI [of _ parts] exI [of _ "snd (ring_subscribe b r)"] exI [of _ "[]"])
      (auto simp: ring_subscribe_def ring_ok_def subs_open_def)
next
  case (LogUnsubscribe k)
  then show ?thesis using assms
    by (intro exI [of _ parts] exI [of _ "if k < rgSubN r then ring_unsubscribe k r else r"] exI [of _ "[]"])
      (auto simp: ring_unsubscribe_def ring_ok_def subs_open_def)
qed

lemma run_log_ok:
  "\<lbrakk>ring_ok r all; subs_open r\<rbrakk>
    \<Longrightarrow> \<exists>parts' r' es. run_log stamp now xs (parts, r) = Some (parts', r') \<and> ring_ok r' (all @ es) \<and> subs_open r' \<and>
    rgCapacity r' = rgCapacity r"
proof (induction xs arbitrary: parts r all)
  case (Cons x xs)
  obtain parts1 r1 es where s: "log_step stamp now x (parts, r) = Some (parts1, r1)" "ring_ok r1 (all @ es)" "subs_open r1"
      "rgCapacity r1 = rgCapacity r"
    using log_step_ok [OF Cons.prems] by blast
  show ?case using Cons.IH [OF s(2,3), of parts1] s(1,4) by auto
qed (metis append_Nil2 run_log.simps(1))

section \<open>Closing while a line is on its way\<close>

text \<open>
  A subscriber that leaves between the two halves of a write, after the writer took its snapshot and
  before it sends: the send finds a closed channel, and the program panics.
\<close>

lemma leaving_mid_write_panics:
  assumes "ring_record stamp now p lv part r = ((rest, e # added, k # subs), r')" "\<not> lcClosed (rgChans r' k)"
  shows "fan_out (List.product (e # added) (k # subs)) (ring_unsubscribe k r') = None"
  using assms(2) by (simp add: ring_unsubscribe_def send_entry_def)

end
