(* ===== verification/Events.thy ===== *)
theory Events
  imports Prelude "HOL-Library.Word" "HOL-Library.Sublist"
begin

text \<open>
  Events: the signal and its connections (\<open>event/signal.go\<close>), the subscription that drains a signal
  through a bounded channel and counts what it turns away (\<open>event/subscription.go\<close>), the property
  (\<open>event/property.go\<close>), and the debouncer that sits in front of a scan feed
  (\<open>nfc/scan_debounce.go\<close>). A handler is a name of type \<open>'h\<close>; what it does is an argument, a function
  on the signal and the world, so a handler may connect, disconnect or emit again.
\<close>

section \<open>Signals\<close>

record 'h sig_slot =
  slID :: "64 word"
  slFn :: 'h
  slOnce :: bool

record 'h event_signal =
  sgNextID :: "64 word"
  sgSlots :: "'h sig_slot list"

text \<open>A connection: whether its once has been used, and the slot its function removes.\<close>

record connection =
  cnDone :: bool
  cnOff :: "64 word option"

definition new_signal :: "'h event_signal" where
  "new_signal = \<lparr>sgNextID = 0, sgSlots = []\<rparr>"

definition sig_connect :: "'h option \<Rightarrow> bool \<Rightarrow> 'h event_signal \<Rightarrow> connection \<times> 'h event_signal" where
  "sig_connect fn once s = (case fn of
     None \<Rightarrow> (\<lparr>cnDone = False, cnOff = None\<rparr>, s)
   | Some f \<Rightarrow> let i = sgNextID s + 1
               in (\<lparr>cnDone = False, cnOff = Some i\<rparr>,
                   s\<lparr>sgNextID := i, sgSlots := sgSlots s @ [\<lparr>slID = i, slFn = f, slOnce = once\<rparr>]\<rparr>))"

fun remove_slot :: "64 word \<Rightarrow> 'h sig_slot list \<Rightarrow> 'h sig_slot list" where
  "remove_slot i [] = []"
| "remove_slot i (x # xs) = (if slID x = i then xs else x # remove_slot i xs)"

definition sig_remove :: "64 word \<Rightarrow> 'h event_signal \<Rightarrow> 'h event_signal" where
  "sig_remove i s = s\<lparr>sgSlots := remove_slot i (sgSlots s)\<rparr>"

definition disconnect :: "connection option \<Rightarrow> 'h event_signal \<Rightarrow> connection option \<times> 'h event_signal" where
  "disconnect c s = (case c of
     None \<Rightarrow> (None, s)
   | Some k \<Rightarrow> if cnDone k then (Some k, s)
               else (Some (k\<lparr>cnDone := True\<rparr>), case cnOff k of None \<Rightarrow> s | Some i \<Rightarrow> sig_remove i s))"

text \<open>
  \<open>Emit\<close>: the handlers of the moment are copied and the single-shot ones removed under the lock; then
  each is called. The loop filters the slots in place; \<open>emit_loop\<close> is that loop on the slice, with the
  cursor of what is kept, and \<open>emit_filter\<close> says what it computes.
\<close>

fun emit_loop :: "nat \<Rightarrow> nat \<Rightarrow> 'h list \<Rightarrow> nat \<Rightarrow> 'h sig_slot list \<Rightarrow> 'h list \<times> 'h sig_slot list" where
  "emit_loop 0 i fns k slots = (fns, take k slots)"
| "emit_loop (Suc n) i fns k slots =
     (let sl = slots ! i; fns = fns @ [slFn sl]
      in if slOnce sl then emit_loop n (i + 1) fns k slots
         else emit_loop n (i + 1) fns (k + 1) (slots[k := sl]))"

definition emit_snapshot :: "'h event_signal \<Rightarrow> 'h list \<times> 'h event_signal" where
  "emit_snapshot s =
     (if sgSlots s = [] then ([], s)
      else let (fns, keep) = emit_loop (length (sgSlots s)) 0 [] 0 (sgSlots s) in (fns, s\<lparr>sgSlots := keep\<rparr>))"

definition sig_emit :: "('h \<Rightarrow> 'v \<Rightarrow> 'h event_signal \<times> 'w \<Rightarrow> 'h event_signal \<times> 'w) \<Rightarrow> 'v \<Rightarrow> 'h event_signal \<times> 'w
    \<Rightarrow> 'h event_signal \<times> 'w" where
  "sig_emit run v s = (let (fns, g) = emit_snapshot (fst s) in fold (\<lambda>f. run f v) fns (g, snd s))"

definition sig_len :: "'h event_signal \<Rightarrow> nat" where
  "sig_len s = length (sgSlots s)"

definition sig_clear :: "'h event_signal \<Rightarrow> 'h event_signal" where
  "sig_clear s = s\<lparr>sgSlots := []\<rparr>"

text \<open>\<open>Property\<close>: connecting replays the current value to the handler.\<close>

definition prop_value :: "('w \<Rightarrow> 'v) option \<Rightarrow> 'v \<Rightarrow> 'w \<Rightarrow> 'v" where
  "prop_value current zero w = (case current of None \<Rightarrow> zero | Some f \<Rightarrow> f w)"

definition prop_connect ::
    "('h \<Rightarrow> 'v \<Rightarrow> 'h event_signal \<times> 'w \<Rightarrow> 'h event_signal \<times> 'w) \<Rightarrow> ('w \<Rightarrow> 'v) option \<Rightarrow> 'h option
       \<Rightarrow> 'h event_signal \<times> 'w \<Rightarrow> connection \<times> 'h event_signal \<times> 'w" where
  "prop_connect run current fn s =
     (let (c, g) = sig_connect fn False (fst s)
      in (c, case (fn, current) of (Some f, Some cur) \<Rightarrow> run f (cur (snd s)) (g, snd s) | _ \<Rightarrow> (g, snd s)))"

lemma emit_filter_aux:
  assumes "k \<le> i" "i + n = length slots" "drop i slots = rest"
  shows "emit_loop n i fns k slots = (fns @ map slFn rest, take k slots @ filter (\<lambda>x. \<not> slOnce x) rest)"
  using assms
proof (induction n arbitrary: i fns k slots rest)
  case (Suc n)
  then obtain x ys where r: "rest = x # ys" "x = slots ! i" "drop (i + 1) slots = ys"
    by (metis Cons_nth_drop_Suc Suc_eq_plus1 le_add1 less_add_Suc1 order_less_le_trans add_Suc_right)
  have i: "i < length slots" using Suc.prems(2) by simp
  have t: "take (k + 1) (slots[k := x]) = take k slots @ [x]"
    using i Suc.prems(1) by (simp add: take_Suc_conv_app_nth)
  show ?case
  proof (cases "slOnce x")
    case True
    then show ?thesis using Suc.IH [of k "i + 1" slots ys "fns @ [slFn x]"] Suc.prems r by (simp add: Let_def)
  next
    case False
    then show ?thesis
      using Suc.IH [of "k + 1" "i + 1" "slots[k := x]" ys "fns @ [slFn x]"] Suc.prems r t by (simp add: Let_def)
  qed
qed simp

text \<open>Every handler of the moment is called, in the order they connected; the single-shot ones are gone.\<close>

lemma emit_snapshot_spec:
  "emit_snapshot s = (map slFn (sgSlots s), s\<lparr>sgSlots := filter (\<lambda>x. \<not> slOnce x) (sgSlots s)\<rparr>)"
  using emit_filter_aux [of 0 0 "length (sgSlots s)" "sgSlots s" "sgSlots s" "[]"]
  by (simp add: emit_snapshot_def)

text \<open>While fewer than \<open>2 ^ 64\<close> handlers have connected, the identifiers are distinct, so a connection removes its own handler and no other.\<close>

definition sig_ok :: "nat \<Rightarrow> 'h event_signal \<Rightarrow> bool" where
  "sig_ok n s \<longleftrightarrow> sgNextID s = of_nat n \<and> distinct (map slID (sgSlots s)) \<and>
     (\<forall>x \<in> set (sgSlots s). unat (slID x) \<le> n)"

lemma remove_slot_filter:
  "distinct (map slID xs) \<Longrightarrow> remove_slot i xs = filter (\<lambda>x. slID x \<noteq> i) xs"
  by (induction xs) (auto intro!: filter_True [symmetric] simp: image_iff)

lemma connect_ok:
  assumes "sig_ok n s" "Suc n < 2 ^ 64" "sig_connect (Some f) once s = (c, s')"
  shows "sig_ok (Suc n) s'" "snd (disconnect (Some c) s') = s\<lparr>sgNextID := sgNextID s'\<rparr>"
proof -
  have u: "unat (sgNextID s + 1) = Suc n" using assms(1,2) by (simp add: sig_ok_def unat_word_ariths take_bit_nat_eq_self unsigned_of_nat)
  have new: "slID x \<noteq> sgNextID s + 1" if "x \<in> set (sgSlots s)" for x using u that assms(1) by (auto simp: sig_ok_def)
  have s': "s' = s\<lparr>sgNextID := sgNextID s + 1, sgSlots := sgSlots s @ [\<lparr>slID = sgNextID s + 1, slFn = f, slOnce = once\<rparr>]\<rparr>"
    "c = \<lparr>cnDone = False, cnOff = Some (sgNextID s + 1)\<rparr>"
    using assms(3) by (auto simp: sig_connect_def Let_def)
  have d: "distinct (map slID (sgSlots s'))" using assms(1) new by (force simp: s' sig_ok_def)
  show "sig_ok (Suc n) s'" using assms(1) d u by (auto simp: sig_ok_def s' le_Suc_eq)
  have "filter (\<lambda>x. slID x \<noteq> sgNextID s + 1) (sgSlots s) = sgSlots s" using new by (simp add: filter_id_conv)
  then show "snd (disconnect (Some c) s') = s\<lparr>sgNextID := sgNextID s'\<rparr>"
    using remove_slot_filter [OF d, of "sgNextID s + 1"] by (simp add: disconnect_def s' sig_remove_def)
qed

section \<open>Subscriptions\<close>

record 'v subscription =
  suRoom :: nat
  suQueue :: "'v list"
  suDropped :: "64 word"
  suClosed :: bool
  suConnected :: bool

definition new_subscription :: "int \<Rightarrow> 'v subscription" where
  "new_subscription buffer =
     \<lparr>suRoom = (if buffer < 1 then 1 else nat buffer), suQueue = [], suDropped = 0, suClosed = False, suConnected = True\<rparr>"

definition offer :: "'v \<Rightarrow> 'v subscription \<Rightarrow> 'v subscription" where
  "offer v s =
     (if suClosed s then s
      else if length (suQueue s) < suRoom s then s\<lparr>suQueue := suQueue s @ [v]\<rparr>
      else s\<lparr>suDropped := suDropped s + 1\<rparr>)"

text \<open>The handler \<open>Subscribe\<close> connects: the filter first, which keeps a state of its own.\<close>

definition on_emit :: "('v \<Rightarrow> 'f \<Rightarrow> bool \<times> 'f) option \<Rightarrow> 'v \<Rightarrow> 'f \<times> 'v subscription \<Rightarrow> 'f \<times> 'v subscription" where
  "on_emit filt v fs = (case filt of
     None \<Rightarrow> (fst fs, offer v (snd fs))
   | Some p \<Rightarrow> let (pass, f) = p v (fst fs) in (f, if pass then offer v (snd fs) else snd fs))"

definition sub_receive :: "'v subscription \<Rightarrow> 'v option \<times> 'v subscription" where
  "sub_receive s = (case suQueue s of [] \<Rightarrow> (None, s) | v # q \<Rightarrow> (Some v, s\<lparr>suQueue := q\<rparr>))"

text \<open>\<open>Close\<close>, in its two steps: the handler is disconnected, then the channel closed.\<close>

definition sub_disconnect :: "'v subscription \<Rightarrow> 'v subscription" where
  "sub_disconnect s = s\<lparr>suConnected := False\<rparr>"

definition sub_close :: "'v subscription \<Rightarrow> 'v subscription" where
  "sub_close s = s\<lparr>suClosed := True\<rparr>"

section \<open>The debouncer\<close>

record debouncer =
  dbWindow :: int
  dbLast :: "string \<rightharpoonup> int"

definition default_debounce_window :: int where
  "default_debounce_window = 3000"

definition new_scan_debouncer :: "int \<Rightarrow> debouncer" where
  "new_scan_debouncer window =
     \<lparr>dbWindow = (if window \<le> 0 then default_debounce_window else window), dbLast = (\<lambda>_. None)\<rparr>"

definition allow_uid :: "int \<Rightarrow> string \<Rightarrow> debouncer \<Rightarrow> bool \<times> debouncer" where
  "allow_uid now uid d =
     (if uid = [] then (True, d)
      else case dbLast d uid of
        Some previous \<Rightarrow> if now - previous < dbWindow d then (False, d)
                         else (True, d\<lparr>dbLast := (dbLast d)(uid \<mapsto> now)\<rparr>)
      | None \<Rightarrow> (True, d\<lparr>dbLast := (dbLast d)(uid \<mapsto> now)\<rparr>))"

definition forget_uid :: "string \<Rightarrow> debouncer \<Rightarrow> debouncer" where
  "forget_uid uid d = (if uid = [] then d else d\<lparr>dbLast := (dbLast d)(uid := None)\<rparr>)"

text \<open>A scan as the feed sees it: the UID of its card, if it has one, the UID that left, and when.\<close>

record scan =
  scCard :: "string option"
  scRemoved :: string
  scAt :: int

definition allow :: "scan \<Rightarrow> debouncer \<Rightarrow> bool \<times> debouncer" where
  "allow x d = (case scCard x of None \<Rightarrow> (True, forget_uid (scRemoved x) d) | Some uid \<Rightarrow> allow_uid (scAt x) uid d)"

section \<open>The scan feed\<close>

text \<open>
  A subscription to the agent's scans behind the debouncer. What happens to it, in any order: a scan
  is emitted, which reaches the handler while it is connected or when the emission began before the
  disconnect; the consumer takes one; the two steps of closing.
\<close>

datatype feed_op = Emitted scan | Taken | Disconnected | Closed

record feed =
  fdFilter :: debouncer
  fdSub :: "scan subscription"
  fdPassed :: "scan list"
  fdTaken :: "scan list"

definition new_feed :: "int \<Rightarrow> int \<Rightarrow> feed" where
  "new_feed window buffer =
     \<lparr>fdFilter = new_scan_debouncer window, fdSub = new_subscription buffer, fdPassed = [], fdTaken = []\<rparr>"

definition feed_emit :: "scan \<Rightarrow> feed \<Rightarrow> feed" where
  "feed_emit x f =
     (let (d, s) = on_emit (Some allow) x (fdFilter f, fdSub f)
      in f\<lparr>fdFilter := d, fdSub := s,
           fdPassed := (if fst (allow x (fdFilter f)) \<and> \<not> suClosed (fdSub f) then fdPassed f @ [x] else fdPassed f)\<rparr>)"

definition feed_step :: "feed_op \<Rightarrow> feed \<Rightarrow> feed" where
  "feed_step x f = (case x of
     Emitted s \<Rightarrow> feed_emit s f
   | Taken \<Rightarrow> (case sub_receive (fdSub f) of
       (None, s) \<Rightarrow> f | (Some v, s) \<Rightarrow> f\<lparr>fdSub := s, fdTaken := fdTaken f @ [v]\<rparr>)
   | Disconnected \<Rightarrow> f\<lparr>fdSub := sub_disconnect (fdSub f)\<rparr>
   | Closed \<Rightarrow> f\<lparr>fdSub := sub_close (fdSub f)\<rparr>)"

definition run_feed :: "feed_op list \<Rightarrow> feed \<Rightarrow> feed" where
  "run_feed xs f = fold feed_step xs f"

text \<open>
  Nothing is lost unseen: what was taken and what is queued is, in order, what passed the filter less
  what the counter counts, and the queue never outgrows its buffer.
\<close>

definition feed_ok :: "feed \<Rightarrow> bool" where
  "feed_ok f \<longleftrightarrow> subseq (fdTaken f @ suQueue (fdSub f)) (fdPassed f) \<and>
     length (suQueue (fdSub f)) \<le> suRoom (fdSub f) \<and>
     (\<exists>n. suDropped (fdSub f) = of_nat n \<and>
        length (fdPassed f) = length (fdTaken f) + length (suQueue (fdSub f)) + n)"

lemma subseq_snoc: "subseq xs ys \<Longrightarrow> subseq xs (ys @ [y])"
  by (rule subseq_order.trans [of xs ys]) (simp_all add: list_emb_prefix)

lemma feed_emit_ok:
  assumes "feed_ok f"
  shows "feed_ok (feed_emit x f)"
proof -
  obtain n where n: "suDropped (fdSub f) = of_nat n"
      "length (fdPassed f) = length (fdTaken f) + length (suQueue (fdSub f)) + n"
    and s: "subseq (fdTaken f @ suQueue (fdSub f)) (fdPassed f)" and q: "length (suQueue (fdSub f)) \<le> suRoom (fdSub f)"
    using assms by (auto simp: feed_ok_def)
  obtain pass d where a: "allow x (fdFilter f) = (pass, d)" by fastforce
  have e: "feed_emit x f = f\<lparr>fdFilter := d, fdSub := (if pass then offer x (fdSub f) else fdSub f),
      fdPassed := (if pass \<and> \<not> suClosed (fdSub f) then fdPassed f @ [x] else fdPassed f)\<rparr>"
    by (simp add: feed_emit_def on_emit_def a)
  consider "\<not> pass \<or> suClosed (fdSub f)" | "pass" "\<not> suClosed (fdSub f)" "length (suQueue (fdSub f)) < suRoom (fdSub f)"
    | "pass" "\<not> suClosed (fdSub f)" "\<not> length (suQueue (fdSub f)) < suRoom (fdSub f)" by blast
  then show ?thesis
  proof cases
    case 1
    then show ?thesis using s q n by (auto simp: e feed_ok_def offer_def)
  next
    case 2
    have "subseq ((fdTaken f @ suQueue (fdSub f)) @ [x]) (fdPassed f @ [x])" using s by (rule list_emb_append_mono) simp
    then show ?thesis using 2 n by (auto simp: e feed_ok_def offer_def)
  next
    case 3
    then show ?thesis using subseq_snoc [OF s] q n
      by (auto simp: e feed_ok_def offer_def intro!: exI [of _ "Suc n"])
  qed
qed

lemma feed_step_ok: "feed_ok f \<Longrightarrow> feed_ok (feed_step x f)"
proof (cases x)
  case Taken
  assume "feed_ok f"
  then show ?thesis using Taken
    by (cases "suQueue (fdSub f)") (auto simp: feed_step_def sub_receive_def feed_ok_def)
qed (auto simp: feed_step_def feed_emit_ok, auto simp: feed_ok_def sub_disconnect_def sub_close_def)

lemma run_feed_ok: "feed_ok f \<Longrightarrow> feed_ok (run_feed xs f)"
  unfolding run_feed_def by (induction xs arbitrary: f) (simp_all add: feed_step_ok)

lemma new_feed_ok: "feed_ok (new_feed window buffer)"
  by (auto simp: feed_ok_def new_feed_def new_subscription_def)

text \<open>Once closed, the channel is never written again; it is only drained.\<close>

lemma closed_stays: "suClosed (fdSub f) \<Longrightarrow> suClosed (fdSub (feed_step x f)) \<and> fdPassed (feed_step x f) = fdPassed f"
  by (cases x; cases "suQueue (fdSub f)")
    (auto simp: feed_step_def feed_emit_def on_emit_def offer_def sub_receive_def sub_disconnect_def sub_close_def
      split: prod.splits)

lemma feed_step_room: "suRoom (fdSub (feed_step x f)) = suRoom (fdSub f)"
  by (cases x; cases "suQueue (fdSub f)")
    (auto simp: feed_step_def feed_emit_def on_emit_def offer_def sub_receive_def sub_disconnect_def sub_close_def
      split: prod.splits)

lemma run_feed_room: "suRoom (fdSub (run_feed xs f)) = suRoom (fdSub f)"
  unfolding run_feed_def by (induction xs arbitrary: f) (simp_all add: feed_step_room)

section \<open>One scan per presentation\<close>

text \<open>
  While a card is not reported gone, a scan of its UID passes only when a whole window has gone by
  since the previous one that passed; the debouncer remembers the last of them.
\<close>

definition spaced :: "string \<Rightarrow> int \<Rightarrow> scan list \<Rightarrow> bool" where
  "spaced uid w = sorted_wrt (\<lambda>x y. scCard x = Some uid \<and> scCard y = Some uid \<longrightarrow> scAt x + w \<le> scAt y)"

definition held_ok :: "string \<Rightarrow> int \<Rightarrow> feed \<Rightarrow> bool" where
  "held_ok uid w f \<longleftrightarrow> dbWindow (fdFilter f) = w \<and> spaced uid w (fdPassed f) \<and>
     (\<forall>x \<in> set (fdPassed f). scCard x = Some uid \<longrightarrow> (\<exists>t. dbLast (fdFilter f) uid = Some t \<and> scAt x \<le> t))"

lemma allow_held:
  assumes "allow x d = (p, d')" "uid \<noteq> []" "0 \<le> dbWindow d" "scCard x = None \<Longrightarrow> scRemoved x \<noteq> uid"
  shows "dbWindow d' = dbWindow d"
    and "dbLast d uid = Some t \<Longrightarrow> \<exists>t'. dbLast d' uid = Some t' \<and> t \<le> t'"
    and "p \<Longrightarrow> scCard x = Some uid \<Longrightarrow> dbLast d' uid = Some (scAt x)"
    and "p \<Longrightarrow> scCard x = Some uid \<Longrightarrow> dbLast d uid = Some t \<Longrightarrow> t + dbWindow d \<le> scAt x"
  using assms by (auto simp: allow_def allow_uid_def forget_uid_def split: option.splits if_splits)

lemma held_step:
  assumes "held_ok uid w f" "uid \<noteq> []" "0 \<le> w" "\<And>y. x = Emitted y \<Longrightarrow> scCard y = None \<Longrightarrow> scRemoved y \<noteq> uid"
  shows "held_ok uid w (feed_step x f)"
proof (cases x)
  case (Emitted y)
  obtain p d where a: "allow y (fdFilter f) = (p, d)" by fastforce
  have w: "dbWindow (fdFilter f) = w" and s: "spaced uid w (fdPassed f)"
    and l: "\<And>z. z \<in> set (fdPassed f) \<Longrightarrow> scCard z = Some uid \<Longrightarrow> \<exists>t. dbLast (fdFilter f) uid = Some t \<and> scAt z \<le> t"
    using assms(1) by (auto simp: held_ok_def)
  have gone: "scCard y = None \<Longrightarrow> scRemoved y \<noteq> uid" using assms(4) Emitted by blast
  note k = allow_held [OF a assms(2) _ gone, unfolded w, OF assms(3)]
  have old: "\<exists>t. dbLast d uid = Some t \<and> scAt z \<le> t" if z: "z \<in> set (fdPassed f)" "scCard z = Some uid" for z
    using l [OF z] k(2) by force
  have new: "scAt z + w \<le> scAt y" if z: "z \<in> set (fdPassed f)" "scCard z = Some uid" "p" "scCard y = Some uid" for z
    using l [OF z(1,2)] k(4) z(3,4) by force
  have e: "fdFilter (feed_step x f) = d"
      "fdPassed (feed_step x f) = (if p \<and> \<not> suClosed (fdSub f) then fdPassed f @ [y] else fdPassed f)"
    by (simp_all add: Emitted feed_step_def feed_emit_def on_emit_def a)
  show ?thesis
    unfolding held_ok_def e using k(1) k(3) s old new
    by (auto simp: spaced_def sorted_wrt_append)
next
  case Taken
  then show ?thesis using assms(1) by (cases "suQueue (fdSub f)") (auto simp: feed_step_def sub_receive_def held_ok_def)
qed (use assms(1) in \<open>simp_all add: feed_step_def held_ok_def\<close>)

lemma run_feed_held:
  "\<lbrakk>held_ok uid w f; uid \<noteq> []; 0 \<le> w; \<forall>y. Emitted y \<in> set xs \<longrightarrow> scCard y = None \<longrightarrow> scRemoved y \<noteq> uid\<rbrakk>
    \<Longrightarrow> held_ok uid w (run_feed xs f)"
  unfolding run_feed_def
proof (induction xs arbitrary: f)
  case (Cons x xs)
  have "held_ok uid w (feed_step x f)" using Cons.prems by (intro held_step) auto
  then show ?case using Cons by simp
qed simp

lemma new_feed_held: "held_ok uid (if window \<le> 0 then default_debounce_window else window) (new_feed window buffer)"
  by (simp add: held_ok_def new_feed_def new_scan_debouncer_def spaced_def)

end
