(* ===== verification/AgentProps.thy ===== *)
theory AgentProps
  imports Lease Access LogRing Events
begin

text \<open>
  The properties of what surrounds the reader in the agent: the operation slot and the lease, the
  gate in front of the device endpoints, the log, and the scan feed.
\<close>

section \<open>The operation slot\<close>



section \<open>The gate\<close>

text \<open>
  C38. Who is let in: when pairing is required, after any history of pairings, revocations, checks and
  failed saves, a request is admitted as a device exactly when it presents a token, and that token
  is the one last issued to that device with nothing since that withdraws it; the secret, a
  loopback address or another device's token open nothing. Tokens are distinct, and the hash has no
  collision among them and the credential presented.
\<close>

theorem admitted_iff_issued:
  assumes "poRequirePaired pol" "distinct (tokens_of ops)"
    and "inj_on hash (insert (presented_credential q) (set (tokens_of ops)))"
  shows "fst (authenticate_request hash pol loopback now q (run_access hash ops (new_registry dir None))) = Some k \<longleftrightarrow>
    presented_credential q \<noteq> [] \<and> issued k (presented_credential q) ops"
  using assms by (rule strict_admission)

definition demo_request :: request where
  "demo_request = \<lparr>rqSecretParam = [], rqAuthorization = ''Bearer t1'', rqRemoteAddr = ''127.0.0.1:9'', rqOrigin = [],
     rqHost = [], rqMethod = ''GET''\<rparr>"

theorem admitted_iff_issued_witness:
  "fst (authenticate_request (\<lambda>t. CHR ''#'' # t) \<lparr>poSecret = ''s'', poRequirePaired = True, poAllowLoopback = True\<rparr> True 7
     demo_request (run_access (\<lambda>t. CHR ''#'' # t)
       [PairOp ''d1'' ''t1'' ''phone'' ''ios'' 1 True, PairOp ''d2'' ''t2'' ''tablet'' ''ios'' 2 True, RevokeOp ''d2'' False]
       (new_registry ''c'' None))) = Some ''d1''"
  by (subst admitted_iff_issued)
    (auto simp: demo_request_def presented_credential_def inj_on_def Let_def)

section \<open>The log\<close>


section \<open>The scan feed\<close>

text \<open>
  C40. A scan feed accounts for every scan: a subscription behind the debouncer, however scans,
  reads and its closing interleave, holds and has delivered, in order and with none twice, scans that
  passed the filter while it was open; their number and the drop counter make up all that passed; and
  while a card is not reported gone, two of its scans that passed are a whole window apart.
\<close>

theorem feed_accounts:
  assumes "run_feed ops (new_feed window buffer) = f"
  shows "subseq (fdTaken f @ suQueue (fdSub f)) (fdPassed f) \<and>
    length (suQueue (fdSub f)) \<le> (if buffer < 1 then 1 else nat buffer) \<and>
    (\<exists>n. suDropped (fdSub f) = of_nat n \<and>
      length (fdPassed f) = length (fdTaken f) + length (suQueue (fdSub f)) + n) \<and>
    (\<forall>uid. uid \<noteq> [] \<and> (\<forall>y. Emitted y \<in> set ops \<longrightarrow> scCard y = None \<longrightarrow> scRemoved y \<noteq> uid) \<longrightarrow>
      spaced uid (if window \<le> 0 then 3000 else window) (fdPassed f))"
proof -
  have ok: "feed_ok f" using run_feed_ok [OF new_feed_ok] assms by blast
  have room: "suRoom (fdSub f) = (if buffer < 1 then 1 else nat buffer)"
    using run_feed_room [of ops "new_feed window buffer"] assms by (simp add: new_feed_def new_subscription_def)
  have "spaced uid (if window \<le> 0 then 3000 else window) (fdPassed f)"
    if "uid \<noteq> []" "\<forall>y. Emitted y \<in> set ops \<longrightarrow> scCard y = None \<longrightarrow> scRemoved y \<noteq> uid" for uid
  proof -
    have "0 \<le> (if window \<le> 0 then default_debounce_window else window)" by (simp add: default_debounce_window_def)
    from run_feed_held [OF new_feed_held that(1) this that(2), of buffer]
    have "spaced uid (if window \<le> 0 then default_debounce_window else window) (fdPassed f)"
      unfolding held_ok_def assms by (elim conjE)
    then show ?thesis by (cases "window \<le> 0") (simp_all add: default_debounce_window_def)
  qed
  then show ?thesis using ok room by (auto simp: feed_ok_def)
qed

definition demo_scan :: "int \<Rightarrow> scan" where
  "demo_scan t = \<lparr>scCard = Some ''04AB'', scRemoved = [], scAt = t\<rparr>"

text \<open>Three scans of a held card, the second within the window: one is queued, one counted as dropped.\<close>

theorem feed_accounts_witness:
  "\<exists>n. suDropped (fdSub (run_feed [Emitted (demo_scan 0), Emitted (demo_scan 100), Emitted (demo_scan 4000)] (new_feed 0 1))) = of_nat n \<and>
    length (fdPassed (run_feed [Emitted (demo_scan 0), Emitted (demo_scan 100), Emitted (demo_scan 4000)] (new_feed 0 1))) = Suc n \<and> n = 1"
proof -
  let ?f = "run_feed [Emitted (demo_scan 0), Emitted (demo_scan 100), Emitted (demo_scan 4000)] (new_feed 0 1)"
  have "fdTaken ?f = []" "length (suQueue (fdSub ?f)) = 1" "length (fdPassed ?f) = 2"
    by (simp_all add: run_feed_def feed_step_def feed_emit_def on_emit_def new_feed_def new_scan_debouncer_def
      default_debounce_window_def new_subscription_def allow_def allow_uid_def demo_scan_def offer_def)
  then show ?thesis
    using feed_accounts [of "[Emitted (demo_scan 0), Emitted (demo_scan 100), Emitted (demo_scan 4000)]" 0 1 ?f] by auto
qed

end
