(* ===== verification/PageTags.thy ===== *)
theory PageTags
  imports CardWrite Tlv Effects
begin

text \<open>
  Page-oriented tags: the drivers of \<open>nfc/tag_ultralight.go\<close> and \<open>nfc/tag_ntag.go\<close> over a card
  transport (\<open>nfc/tag_base.go\<close>), with the Go errors they report, and the emulated memory they run
  against, \<open>memEmulator\<close> of \<open>nfc/nfctest/emulator.go\<close> with its frames in \<open>rawframe.go\<close>.
\<close>

section \<open>The transport\<close>

record 's transport =
  trSend :: "bytes \<Rightarrow> ('s, go_error, bytes) action"
  trPresent :: "'s \<Rightarrow> bool"

text \<open>\<open>%02X\<close>, and the error of a status word.\<close>

definition hex_char :: "nat \<Rightarrow> char" where
  "hex_char n = (if n < 10 then char_of (48 + n) else char_of (55 + n))"

definition hex_byte :: "byte \<Rightarrow> string" where
  "hex_byte b = [hex_char (unat b div 16), hex_char (unat b mod 16)]"

definition apdu_error :: "byte \<Rightarrow> byte \<Rightarrow> go_error" where
  "apdu_error a b = PlainError (''APDU error: SW1='' @ hex_byte a @ '' SW2='' @ hex_byte b)"

definition base_transceive :: "'s transport \<Rightarrow> bytes \<Rightarrow> ('s, go_error, bytes) action" where
  "base_transceive tr cmd =
     doS (trSend tr cmd) (\<lambda>resp.
       case parse_apdu_response resp of
         None \<Rightarrow> failS (PlainError ''response too short'')
       | Some r \<Rightarrow> if \<not> is_success r \<and> \<not> has_more_data r then failS (apdu_error (arSW1 r) (arSW2 r))
                   else retS (arData r))"

definition base_area_locked :: "'s transport \<Rightarrow> ('s, go_error, bool) action" where
  "base_area_locked tr =
     doS (base_transceive tr (read_binary_apdu 2 4)) (\<lambda>resp.
       if length resp < 3
       then failS (PlainError (''short read of static lock bytes: got '' @ decimal (length resp) @ '' of 4''))
       else retS (resp ! 2 AND 0x10 \<noteq> 0))"

section \<open>What the two drivers share\<close>

definition read_page :: "'s transport \<Rightarrow> byte \<Rightarrow> ('s, go_error, bytes) action" where
  "read_page tr page = base_transceive tr (read_binary_apdu page 4)"

definition write_page :: "'s transport \<Rightarrow> byte \<Rightarrow> bytes \<Rightarrow> ('s, go_error, unit) action" where
  "write_page tr page data =
     (if length data \<noteq> 4 then failS (PlainError ''page data must be 4 bytes'')
      else doS (base_transceive tr (update_binary_apdu page data)) (\<lambda>_. retS ()))"

text \<open>The page loop of \<open>ReadData\<close>: the pages left, what has been read; a card that left ends it.\<close>

fun read_pages :: "'s transport \<Rightarrow> nat list \<Rightarrow> bytes \<Rightarrow> 's \<Rightarrow> (go_error + bytes \<times> go_error option) \<times> 's" where
  "read_pages tr [] acc s = (Inr (acc, None), s)"
| "read_pages tr (p # ps) acc s =
     (case read_page tr (of_nat p) s of
        (Inl e, s') \<Rightarrow> if is_card_removed_error e then (Inl e, s') else (Inr (acc, Some e), s')
      | (Inr d, s') \<Rightarrow> read_pages tr ps (acc @ d) s')"

definition read_message :: "'s transport \<Rightarrow> string \<Rightarrow> string \<Rightarrow> nat \<Rightarrow> ('s, go_error, bytes) action" where
  "read_message tr op uid endPage s =
     (case read_pages tr [4..<endPage] [] s of
        (Inl e, s') \<Rightarrow> (Inl e, s')
      | (Inr (d, lastErr), s') \<Rightarrow>
          if d = []
          then (Inl (case lastErr of
                  None \<Rightarrow> PlainError ''failed to read any data''
                | Some e \<Rightarrow> if \<not> trPresent tr s' then CardRemovedError (Some (PlainError ''card removed during read''))
                            else Wrapped ''failed to read any data: '' e []), s')
          else case tlv_find_ndef d of
                 None \<Rightarrow> (Inl (new_no_payload_error op uid None), s')
               | Some m \<Rightarrow> (Inr m, s'))"

text \<open>Padding to whole pages, and writing them in order from page 4.\<close>

definition pad_pages :: "bytes \<Rightarrow> bytes" where
  "pad_pages p = p @ replicate ((4 - length p mod 4) mod 4) 0"

fun write_pages :: "'s transport \<Rightarrow> nat \<Rightarrow> bytes list \<Rightarrow> ('s, go_error, unit) action" where
  "write_pages tr page [] = retS ()"
| "write_pages tr page (c # cs) =
     tryS (write_page tr (of_nat page) c) (\<lambda>r. case r of
       Inl e \<Rightarrow> failS (Wrapped (''failed to write page '' @ decimal page @ '': '') e [])
     | Inr _ \<Rightarrow> write_pages tr (page + 1) cs)"

definition write_payload :: "'s transport \<Rightarrow> nat \<Rightarrow> bytes \<Rightarrow> ('s, go_error, unit) action" where
  "write_payload tr avail data =
     (let p = tlv_encode data TLVNDEF; need = (length p + 3) div 4
      in if avail < need
         then failS (PlainError (''data too large: need '' @ decimal need @ '' pages, have '' @ decimal avail))
         else write_pages tr 4 (chunks 4 (pad_pages p)))"

definition write_unless_locked :: "'s transport \<Rightarrow> go_error \<Rightarrow> nat \<Rightarrow> bytes \<Rightarrow> ('s, go_error, unit) action" where
  "write_unless_locked tr readOnly avail data =
     tryS (base_area_locked tr) (\<lambda>r. case r of
       Inr True \<Rightarrow> failS readOnly
     | _ \<Rightarrow> write_payload tr avail data)"

definition page_is_writable :: "'s transport \<Rightarrow> ('s, go_error, bool) action" where
  "page_is_writable tr =
     tryS (read_page tr 4) (\<lambda>r. case r of
       Inl e \<Rightarrow> retS False
     | Inr _ \<Rightarrow> doS (base_area_locked tr) (\<lambda>l. retS (\<not> l)))"

text \<open>Setting bytes of a page that was read; a page shorter than the driver takes for granted panics, which is None.\<close>

definition set_bytes :: "nat \<Rightarrow> nat \<Rightarrow> bytes \<Rightarrow> bytes option" where
  "set_bytes i j p = (if j \<le> length p then Some (take i p @ replicate (j - i) 0xFF @ drop j p) else None)"

definition lock_dynamic :: "'s transport \<Rightarrow> byte \<Rightarrow> 's \<Rightarrow> ((go_error + unit) \<times> 's) option" where
  "lock_dynamic tr page s =
     (case read_page tr page s of
        (Inl e, s') \<Rightarrow> Some (Inl (Wrapped (''failed to read dynamic lock page '' @ decimal (unat page) @ '': '') e []), s')
      | (Inr d, s') \<Rightarrow> (case set_bytes 0 3 d of
          None \<Rightarrow> None
        | Some d' \<Rightarrow> (case write_page tr page d' s' of
            (Inl e, s'') \<Rightarrow> Some (Inl (Wrapped ''failed to set dynamic lock bytes: '' e []), s'')
          | (Inr _, s'') \<Rightarrow> Some (Inr (), s''))))"

definition lock_static :: "'s transport \<Rightarrow> 's \<Rightarrow> ((go_error + unit) \<times> 's) option" where
  "lock_static tr s =
     (case read_page tr 2 s of
        (Inl e, s') \<Rightarrow> Some (Inl (Wrapped ''failed to read page 2: '' e []), s')
      | (Inr d, s') \<Rightarrow> (case set_bytes 2 4 d of
          None \<Rightarrow> None
        | Some d' \<Rightarrow> Some (write_page tr 2 d' s')))"

definition lock_both :: "'s transport \<Rightarrow> byte \<Rightarrow> 's \<Rightarrow> ((go_error + unit) \<times> 's) option" where
  "lock_both tr page s =
     (case lock_dynamic tr page s of
        None \<Rightarrow> None
      | Some (Inl e, s') \<Rightarrow> Some (Inl e, s')
      | Some (Inr _, s') \<Rightarrow> lock_static tr s')"

section \<open>The Ultralight driver\<close>

record ultralight_tag =
  ulUID :: string
  ulKind :: tag_kind
  ulLayout :: ultralight_layout

definition new_ultralight_tag :: "string \<Rightarrow> tag_kind \<Rightarrow> ultralight_tag" where
  "new_ultralight_tag uid k = \<lparr>ulUID = uid, ulKind = k, ulLayout = ultralight_layout_for k\<rparr>"

definition ul_profile :: "ultralight_tag \<Rightarrow> tag_profile" where
  "ul_profile t = (case profile_for (ulKind t) of Some p \<Rightarrow> p
     | None \<Rightarrow> ultralight_profile ''MIFARE Ultralight'' DetectedUltralight 64 46 False)"

definition ul_read_data :: "ultralight_tag \<Rightarrow> 's transport \<Rightarrow> ('s, go_error, bytes) action" where
  "ul_read_data t tr = read_message tr ''ReadData (Ultralight)'' (ulUID t) (unat (ulEndPage (ulLayout t)))"

definition ul_write_data :: "ultralight_tag \<Rightarrow> 's transport \<Rightarrow> bytes \<Rightarrow> ('s, go_error, unit) action" where
  "ul_write_data t tr =
     write_unless_locked tr (new_read_only_error ''WriteData (Ultralight)'' (ulUID t) None) (ulWritablePages (ulLayout t))"

definition ul_make_read_only :: "ultralight_tag \<Rightarrow> 's transport \<Rightarrow> 's \<Rightarrow> ((go_error + unit) \<times> 's) option" where
  "ul_make_read_only t tr s =
     (if \<not> ulLockable (ulLayout t) then Some (Inl (new_not_supported_error ''MakeReadOnly''), s)
      else if ulDynamicLockPage (ulLayout t) \<noteq> 0 then lock_both tr (ulDynamicLockPage (ulLayout t)) s
      else lock_static tr s)"

definition ul_can_make_read_only :: "ultralight_tag \<Rightarrow> bool" where
  "ul_can_make_read_only t = ulLockable (ulLayout t)"

section \<open>The NTAG driver\<close>

record ntag_tag =
  ngUID :: string
  ngKind :: tag_kind
  ngMaxPages :: byte

definition new_ntag_tag :: "string \<Rightarrow> tag_kind \<Rightarrow> ntag_tag" where
  "new_ntag_tag uid k =
     \<lparr>ngUID = uid, ngKind = k, ngMaxPages = (if k = DetectedNTAG215 then 135 else if k = DetectedNTAG216 then 231 else 45)\<rparr>"

definition ng_profile :: "ntag_tag \<Rightarrow> tag_profile" where
  "ng_profile t = (case profile_for (ngKind t) of Some p \<Rightarrow> p | None \<Rightarrow> ntag_profile ''NTAG215'' 540 504)"

definition ng_user_end :: "ntag_tag \<Rightarrow> byte" where
  "ng_user_end t = ngMaxPages t - 5"

definition ng_avail :: "ntag_tag \<Rightarrow> nat" where
  "ng_avail t = unat (ngMaxPages t) - 9"

definition ng_read_data :: "ntag_tag \<Rightarrow> 's transport \<Rightarrow> ('s, go_error, bytes) action" where
  "ng_read_data t tr = read_message tr ''ReadData (NTAG)'' (ngUID t) (unat (ng_user_end t))"

definition ng_write_data :: "ntag_tag \<Rightarrow> 's transport \<Rightarrow> bytes \<Rightarrow> ('s, go_error, unit) action" where
  "ng_write_data t tr = write_unless_locked tr (new_read_only_error ''WriteData (NTAG)'' (ngUID t) None) (ng_avail t)"

definition dynamic_lock_page :: "ntag_tag \<Rightarrow> byte" where
  "dynamic_lock_page t = (if ngKind t = DetectedNTAG213 then 40 else if ngKind t = DetectedNTAG216 then 226 else 130)"

definition ng_make_read_only :: "ntag_tag \<Rightarrow> 's transport \<Rightarrow> 's \<Rightarrow> ((go_error + unit) \<times> 's) option" where
  "ng_make_read_only t tr s = lock_both tr (dynamic_lock_page t) s"

section \<open>The emulated memory\<close>

record mem_card =
  mcPages :: "bytes list"
  mcDynLock :: nat
  mcPresent :: bool
  mcOps :: nat
  mcRemoveAfter :: nat
  mcSignature :: "bytes option"
  mcFailWrites :: nat
  mcCorrupt :: bool

definition emu_signature :: bytes where
  "emu_signature = map (\<lambda>i. 0xA0 + of_nat i) [0..<32]"

definition blank_mem :: "nat \<Rightarrow> nat \<Rightarrow> bytes option \<Rightarrow> mem_card" where
  "blank_mem n dyn sig =
     \<lparr>mcPages = replicate n [0, 0, 0, 0], mcDynLock = dyn, mcPresent = True, mcOps = 0, mcRemoveAfter = 0,
      mcSignature = sig, mcFailWrites = 0, mcCorrupt = False\<rparr>"

definition new_ntag_emulator :: "tag_kind \<Rightarrow> mem_card" where
  "new_ntag_emulator k =
     (let (n, dyn) = (if k = DetectedNTAG213 then (45, 40) else if k = DetectedNTAG216 then (231, 226) else (135, 130))
      in blank_mem n dyn (Some emu_signature))"

definition new_ultralight_emulator :: mem_card where "new_ultralight_emulator = blank_mem 16 0 None"
definition new_ultralight_ev1_emulator :: mem_card where "new_ultralight_ev1_emulator = blank_mem 41 0 None"
definition new_ultralight_c_emulator :: mem_card where "new_ultralight_c_emulator = blank_mem 48 0x28 None"

text \<open>Reading from a page until enough bytes are there.\<close>

function mem_collect :: "bytes list \<Rightarrow> nat \<Rightarrow> nat \<Rightarrow> bytes \<Rightarrow> bytes option" where
  "mem_collect pages p le out =
     (if le \<le> length out then Some (take le out)
      else if length pages \<le> p then None
      else mem_collect pages (p + 1) le (out @ pages ! p))"
  by pat_completeness auto
termination by (relation "measure (\<lambda>(pages, p, le, out). length pages - p)") auto

declare mem_collect.simps [simp del]

definition mem_read :: "nat \<Rightarrow> nat \<Rightarrow> mem_card \<Rightarrow> bytes option" where
  "mem_read page le m = mem_collect (mcPages m) page le []"

definition mem_locked :: "nat \<Rightarrow> mem_card \<Rightarrow> bool" where
  "mem_locked page m =
     (let lock0 = mcPages m ! 2 ! 2; lock1 = mcPages m ! 2 ! 3
      in if page = 3 then bit lock0 3
         else if 4 \<le> page \<and> page \<le> 7 then bit lock0 page
         else if 8 \<le> page \<and> page \<le> 15 then bit lock1 (page - 8)
         else if 16 \<le> page \<and> mcDynLock m \<noteq> 0
         then let blk = (page - 16) div 16; byteIdx = blk div 8; bitIdx = blk mod 8
              in if 2 < byteIdx then False else bit (mcPages m ! mcDynLock m ! byteIdx) bitIdx
         else False)"

definition or_bytes :: "bytes \<Rightarrow> bytes \<Rightarrow> bytes" where
  "or_bytes a b = map (\<lambda>(x, y). x OR y) (zip a b)"

definition mem_write :: "nat \<Rightarrow> bytes \<Rightarrow> mem_card \<Rightarrow> mem_card option" where
  "mem_write page data m =
     (if length (mcPages m) \<le> page \<or> length data \<noteq> 4 then None
      else if page = 0 \<or> page = 1 then None
      else if page = 2
      then let p = mcPages m ! 2
           in Some (m\<lparr>mcPages := (mcPages m)[2 := p[2 := p ! 2 OR data ! 2, 3 := p ! 3 OR data ! 3]]\<rparr>)
      else if mcDynLock m \<noteq> 0 \<and> page = mcDynLock m
      then Some (m\<lparr>mcPages := (mcPages m)[page := or_bytes (mcPages m ! page) data]\<rparr>)
      else if mem_locked page m then None
      else Some (m\<lparr>mcPages := (mcPages m)[page := data]\<rparr>))"

text \<open>Type 2 frames, and the PN532 framing an ACR122 carries them in.\<close>

definition emu_get_version :: "mem_card \<Rightarrow> bytes" where
  "emu_get_version m =
     [0x00, 0x04, 0x04, 0x02, 0x01, 0x00,
      if length (mcPages m) = 45 then 0x0F else if length (mcPages m) = 231 then 0x13 else 0x11, 0x03]"

definition native_frame :: "bytes \<Rightarrow> mem_card \<Rightarrow> bytes option \<times> mem_card" where
  "native_frame f m =
     (if f = [] then (None, m)
      else if f ! 0 = 0x30 then if length f \<noteq> 2 then (None, m) else (mem_read (unat (f ! 1)) 16 m, m)
      else if f ! 0 = 0x3A
      then if length f \<noteq> 3 \<or> f ! 2 < f ! 1 \<or> mcSignature m = None then (None, m)
           else (mem_read (unat (f ! 1)) ((unat (f ! 2) - unat (f ! 1) + 1) * 4) m, m)
      else if f ! 0 = 0xA2
      then if length f \<noteq> 6 then (None, m)
           else if 0 < mcFailWrites m then (None, m\<lparr>mcFailWrites := mcFailWrites m - 1\<rparr>)
           else (case mem_write (unat (f ! 1)) (drop 2 f) m of None \<Rightarrow> (None, m) | Some m' \<Rightarrow> (Some [0x0A], m'))
      else if f ! 0 = 0x3C
      then if length f \<noteq> 2 \<or> f ! 1 \<noteq> 0x00 then (None, m) else (mcSignature m, m)
      else if f ! 0 = 0x60
      then if length f \<noteq> 1 \<or> mcSignature m = None then (None, m) else (Some (emu_get_version m), m)
      else if f ! 0 = 0x39
      then if length f \<noteq> 2 \<or> f ! 1 \<noteq> 0x02 \<or> mcSignature m = None then (None, m) else (Some [0, 0, 0], m)
      else (None, m))"

definition emu_fail :: bytes where "emu_fail = [0x63, 0x00]"

definition direct_transmit :: "bytes \<Rightarrow> mem_card \<Rightarrow> bytes \<times> mem_card" where
  "direct_transmit cmd m =
     (let lc = unat (cmd ! 4)
      in if length cmd \<noteq> 5 + lc \<or> lc < 3 \<or> cmd ! 5 \<noteq> 0xD4 \<or> cmd ! 6 \<noteq> 0x42 then (emu_fail, m)
         else let (reply, m') = native_frame (drop 7 cmd) m
              in (([0xD5, 0x43] @ (case reply of None \<Rightarrow> [0x01] | Some r \<Rightarrow> 0x00 # r)) @ [0x90, 0x00], m'))"

definition should_remove :: "mem_card \<Rightarrow> bool \<times> mem_card" where
  "should_remove m =
     (let m = m\<lparr>mcOps := mcOps m + 1\<rparr> in (0 < mcRemoveAfter m \<and> mcRemoveAfter m < mcOps m, m))"

definition emu_removed :: "nat \<Rightarrow> go_error" where
  "emu_removed n = CardRemovedError (Some (PlainError (''card removed (emulated) after '' @ decimal n @ '' operations'')))"

definition mem_command :: "bytes \<Rightarrow> mem_card \<Rightarrow> bytes \<times> mem_card" where
  "mem_command cmd m =
     (if length cmd < 5 \<or> cmd ! 0 \<noteq> 0xFF then (emu_fail, m)
      else if cmd ! 1 = 0x00 then direct_transmit cmd m
      else if cmd ! 1 = 0xB0
      then (case mem_read (unat (cmd ! 3)) (unat (cmd ! 4)) m of
              None \<Rightarrow> (emu_fail, m) | Some d \<Rightarrow> (d @ [0x90, 0x00], m))
      else if cmd ! 1 = 0xD6
      then let lc = unat (cmd ! 4)
           in if length cmd < 5 + lc then (emu_fail, m)
              else if 0 < mcFailWrites m then (emu_fail, m\<lparr>mcFailWrites := mcFailWrites m - 1\<rparr>)
              else let d = slice 5 (5 + lc) cmd; d = (if mcCorrupt m then map (\<lambda>b. b XOR 0xFF) d else d)
                   in (case mem_write (unat (cmd ! 3)) d m of None \<Rightarrow> (emu_fail, m) | Some m' \<Rightarrow> ([0x90, 0x00], m'))
      else (emu_fail, m))"

definition mem_transceive :: "bytes \<Rightarrow> (mem_card, go_error, bytes) action" where
  "mem_transceive cmd m =
     (let (gone, m) = should_remove m
      in if gone then (Inl (emu_removed (mcRemoveAfter m)), m\<lparr>mcPresent := False\<rparr>)
         else let (r, m) = mem_command cmd m in (Inr r, m))"

definition mem_transceive_raw :: "bytes \<Rightarrow> (mem_card, go_error, bytes) action" where
  "mem_transceive_raw frame m =
     (let (gone, m) = should_remove m
      in if gone then (Inl (emu_removed (mcRemoveAfter m)), m\<lparr>mcPresent := False\<rparr>)
         else case native_frame frame m of
           (None, m) \<Rightarrow> (Inl (PlainError ''nfctest: tag did not acknowledge the frame''), m)
         | (Some r, m) \<Rightarrow> (Inr r, m))"

definition mem_transport :: "mem_card transport" where
  "mem_transport = \<lparr>trSend = mem_transceive, trPresent = mcPresent\<rparr>"

section \<open>The drivers as tags\<close>

definition no_ops :: "'s tag" where
  "no_ops =
     \<lparr>tgUID = (\<lambda>_. []), tgType = [], tgCaps = (\<lambda>_. profile_capabilities no_profile),
      tgRead = (\<lambda>s. (Inl (PlainError []), s)), tgWrite = (\<lambda>d s. (Inl (new_not_supported_error ''WriteData''), s)),
      tgLock = (\<lambda>s. (Inl (new_not_supported_error ''MakeReadOnly''), s)),
      tgTransceive = (\<lambda>d s. (Inl (new_not_supported_error ''Transceive''), s)),
      tgAliases = None, tgResolve = None, tgClassicKeys = None, tgDESFireKeys = None, tgNTAG424Keys = None,
      tgWriteInit = None, tgWriteLock = None, tgTransceiveRaw = None\<rparr>"

text \<open>A lock that panics has no outcome; on a page of four bytes it does not happen.\<close>

definition outcome :: "((go_error + unit) \<times> 's) option \<Rightarrow> 's \<Rightarrow> (go_error + unit) \<times> 's" where
  "outcome r s = (case r of None \<Rightarrow> (Inl (PlainError ''panic''), s) | Some x \<Rightarrow> x)"

definition ultralight_as_tag :: "ultralight_tag \<Rightarrow> 's transport \<Rightarrow> 's tag" where
  "ultralight_as_tag t tr =
     no_ops\<lparr>tgUID := (\<lambda>_. ulUID t), tgType := tpName (ul_profile t),
       tgCaps := (\<lambda>_. profile_capabilities (ul_profile t)), tgRead := ul_read_data t tr, tgWrite := ul_write_data t tr,
       tgLock := (\<lambda>s. outcome (ul_make_read_only t tr s) s),
       tgTransceive := (\<lambda>d s. (Inl (new_not_supported_error ''Transceive (Ultralight)''), s))\<rparr>"

definition ntag_as_tag :: "ntag_tag \<Rightarrow> 's transport \<Rightarrow> 's tag" where
  "ntag_as_tag t tr =
     no_ops\<lparr>tgUID := (\<lambda>_. ngUID t), tgType := tpName (ng_profile t),
       tgCaps := (\<lambda>_. profile_capabilities (ng_profile t)), tgRead := ng_read_data t tr, tgWrite := ng_write_data t tr,
       tgLock := (\<lambda>s. outcome (ng_make_read_only t tr s) s),
       tgTransceive := (\<lambda>d s. (Inl (new_not_supported_error ''Transceive (NTAG)''), s))\<rparr>"

end
