(* ===== verification/PageTagsOnCard.thy ===== *)
theory PageTagsOnCard
  imports PageTags
begin

text \<open>
  The page drivers on the emulated memory: what is written is read back, a message that does not fit
  is refused with the card untouched, and a complete lock leaves no user page writable.
\<close>

section \<open>One exchange\<close>

text \<open>A card in good order, and the same card after an exchange.\<close>

definition mem_wf :: "nat \<Rightarrow> mem_card \<Rightarrow> bool" where
  "mem_wf n m \<longleftrightarrow> length (mcPages m) = n \<and> (\<forall>p \<in> set (mcPages m). length p = 4) \<and> mcRemoveAfter m = 0 \<and>
     mcFailWrites m = 0 \<and> \<not> mcCorrupt m \<and> 4 < n \<and> n \<le> 256"

definition tick :: "nat \<Rightarrow> mem_card \<Rightarrow> mem_card" where
  "tick k m = m\<lparr>mcOps := mcOps m + k\<rparr>"

lemma tick_simps [simp]:
  "mcPages (tick k m) = mcPages m" "mcDynLock (tick k m) = mcDynLock m" "mem_wf n (tick k m) = mem_wf n m"
  "mem_locked p (tick k m) = mem_locked p m" "tick 0 m = m" "tick j (tick k m) = tick (j + k) m"
  "mem_read p le (tick k m) = mem_read p le m"
  by (simp_all add: tick_def mem_wf_def mem_locked_def mem_read_def add_ac)

lemma should_remove_wf: "mem_wf n m \<Longrightarrow> should_remove m = (False, tick 1 m)"
  by (simp add: should_remove_def mem_wf_def tick_def)

lemma page_length: "mem_wf n m \<Longrightarrow> p < n \<Longrightarrow> length (mcPages m ! p) = 4"
  by (simp add: mem_wf_def)

lemma mem_read_page:
  assumes "mem_wf n m" "p < n"
  shows "mem_read p 4 m = Some (mcPages m ! p)"
proof -
  have l: "length (mcPages m ! p) = 4" "length (mcPages m) = n" using assms by (simp_all add: mem_wf_def)
  show ?thesis using l assms(2) by (simp add: mem_read_def mem_collect.simps [of _ _ 4])
qed

lemma read_page_card:
  assumes "mem_wf n m" "p < n"
  shows "read_page mem_transport (of_nat p) m = (Inr (mcPages m ! p), tick 1 m)"
proof -
  have p: "unat (of_nat p :: byte) = p" using assms by (simp add: mem_wf_def unat_of_nat take_bit_nat_eq_self)
  have c: "read_binary_apdu (of_nat p) 4 = [0xFF, 0xB0, 0x00, of_nat p, 4]"
    by (simp add: read_binary_apdu_def build_apdu_def)
  have "mem_command [0xFF, 0xB0, 0x00, of_nat p, 4] (tick 1 m) = (mcPages m ! p @ [0x90, 0x00], tick 1 m)"
    using mem_read_page [of n "tick 1 m" p] assms by (simp add: mem_command_def p)
  then have "trSend mem_transport (read_binary_apdu (of_nat p) 4) m = (Inr (mcPages m ! p @ [0x90, 0x00]), tick 1 m)"
    unfolding c by (simp add: mem_transport_def mem_transceive_def should_remove_wf [OF assms(1)])
  then show ?thesis
    by (simp add: read_page_def base_transceive_def doS_def parse_apdu_response_split is_success_def)
qed

definition put_page :: "nat \<Rightarrow> bytes \<Rightarrow> mem_card \<Rightarrow> mem_card" where
  "put_page p d m = m\<lparr>mcPages := (mcPages m)[p := d]\<rparr>"

lemma write_command:
  assumes "mem_wf n m" "p < n" "length d = 4"
  shows "write_page mem_transport (of_nat p) d m =
    (case mem_write p d (tick 1 m) of None \<Rightarrow> (Inl (apdu_error 0x63 0x00), tick 1 m) | Some m' \<Rightarrow> (Inr (), m'))"
proof -
  have p: "unat (of_nat p :: byte) = p" using assms by (simp add: mem_wf_def unat_of_nat take_bit_nat_eq_self)
  have c: "update_binary_apdu (of_nat p) d = [0xFF, 0xD6, 0x00, of_nat p, 4] @ d"
    using assms(3) by (auto simp: update_binary_apdu_def build_apdu_def byteN_def)
  have s: "slice 5 9 ([0xFF, 0xD6, 0x00, of_nat p, 4] @ d) = d" using assms(3) by (simp add: slice_def)
  have w: "mcFailWrites (tick 1 m) = 0" "\<not> mcCorrupt (tick 1 m)" using assms(1) by (simp_all add: mem_wf_def tick_def)
  have "mem_command ([0xFF, 0xD6, 0x00, of_nat p, 4] @ d) (tick 1 m) =
      (case mem_write p d (tick 1 m) of None \<Rightarrow> (emu_fail, tick 1 m) | Some m' \<Rightarrow> ([0x90, 0x00], m'))"
    using assms(3) w s by (simp add: mem_command_def p Let_def del: One_nat_def)
  then have "trSend mem_transport (update_binary_apdu (of_nat p) d) m =
      (case mem_write p d (tick 1 m) of None \<Rightarrow> (Inr emu_fail, tick 1 m) | Some m' \<Rightarrow> (Inr [0x90, 0x00], m'))"
    unfolding c mem_transport_def
    by (simp add: mem_transceive_def should_remove_wf [OF assms(1)] del: One_nat_def split: option.split)
  then show ?thesis
    using assms(3) parse_apdu_response_split [of "[]"]
    by (auto simp: write_page_def base_transceive_def doS_def is_success_def has_more_data_def emu_fail_def
        simp del: One_nat_def split: option.split)
qed

text \<open>An open page takes what is written.\<close>

lemma write_page_open:
  assumes "mem_wf n m" "p < n" "length d = 4" "3 \<le> p" "mcDynLock m = 0 \<or> p \<noteq> mcDynLock m" "\<not> mem_locked p m"
  shows "write_page mem_transport (of_nat p) d m = (Inr (), put_page p d (tick 1 m))"
proof -
  have "length (mcPages m) = n" using assms(1) by (simp add: mem_wf_def)
  then have "mem_write p d (tick 1 m) = Some (put_page p d (tick 1 m))"
    using assms by (auto simp: mem_write_def put_page_def)
  then show ?thesis using write_command [OF assms(1-3)] by simp
qed

lemma put_page_wf: "mem_wf n m \<Longrightarrow> length d = 4 \<Longrightarrow> mem_wf n (put_page p d m)"
  using set_update_subset_insert [of "mcPages m" p d] by (auto simp: mem_wf_def put_page_def)

lemma put_page_locked:
  "p \<noteq> 2 \<Longrightarrow> mcDynLock m = 0 \<or> p \<noteq> mcDynLock m \<Longrightarrow> mem_locked q (put_page p d m) = mem_locked q m"
  by (auto simp: mem_locked_def put_page_def Let_def)

section \<open>The user area\<close>

text \<open>The pages \<open>4\<close> to \<open>e - 1\<close>: within the card, before any dynamic lock page, none locked.\<close>

definition area_open :: "nat \<Rightarrow> mem_card \<Rightarrow> bool" where
  "area_open e m \<longleftrightarrow> e \<le> length (mcPages m) \<and> (mcDynLock m = 0 \<or> e \<le> mcDynLock m) \<and>
     (\<forall>p. 4 \<le> p \<longrightarrow> p < e \<longrightarrow> \<not> mem_locked p m)"

definition user_area :: "nat \<Rightarrow> mem_card \<Rightarrow> bytes" where
  "user_area e m = concat (drop 4 (take e (mcPages m)))"

lemma area_open_tick [simp]: "area_open e (tick k m) = area_open e m" "user_area e (tick k m) = user_area e m"
  by (simp_all add: area_open_def user_area_def)

lemma read_pages_card:
  assumes "mem_wf n m" "p \<le> e" "e \<le> n"
  shows "read_pages mem_transport [p..<e] acc m = (Inr (acc @ concat (drop p (take e (mcPages m))), None), tick (e - p) m)"
  using assms
proof (induction "e - p" arbitrary: p acc m)
  case (Suc k)
  then have p: "p < e" "p < n" by auto
  have l: "length (take e (mcPages m)) = e" using Suc.prems by (simp add: mem_wf_def)
  have "drop p (take e (mcPages m)) = mcPages m ! p # drop (Suc p) (take e (mcPages m))"
    using p l Cons_nth_drop_Suc [of p "take e (mcPages m)"] by simp
  then show ?case
    using Suc.hyps(1) [of "Suc p" "tick 1 m" "acc @ mcPages m ! p"] Suc.hyps(2) Suc.prems p
      read_page_card [OF Suc.prems(1) p(2)] Suc_diff_Suc [OF p(1)]
    by (simp add: upt_conv_Cons)
qed simp

text \<open>Writing whole pages from a page on.\<close>

lemma write_pages_card:
  assumes "mem_wf n m" "\<forall>c \<in> set cs. length c = 4" "3 \<le> p" "p + length cs \<le> e" "e \<le> n"
    and "mcDynLock m = 0 \<or> e \<le> mcDynLock m" "\<forall>q. p \<le> q \<longrightarrow> q < e \<longrightarrow> \<not> mem_locked q m"
  shows "\<exists>m'. write_pages mem_transport p cs m = (Inr (), m') \<and> mem_wf n m' \<and> mcDynLock m' = mcDynLock m \<and>
    mcPages m' = take p (mcPages m) @ cs @ drop (p + length cs) (mcPages m) \<and>
    (\<forall>q. mem_locked q m' = mem_locked q m)"
  using assms
proof (induction cs arbitrary: p m)
  case Nil
  then show ?case by (intro exI [of _ m]) simp
next
  case (Cons c cs)
  let ?m = "put_page p c (tick 1 m)"
  have p: "p < n" "p < e" "p \<noteq> 2" "mcDynLock m = 0 \<or> p \<noteq> mcDynLock m" using Cons.prems by auto
  have w: "write_page mem_transport (of_nat p) c m = (Inr (), ?m)"
    using Cons.prems p by (intro write_page_open [of n]) auto
  have k: "mem_locked q ?m = mem_locked q m" for q using put_page_locked [of p "tick 1 m"] p by simp
  have wf: "mem_wf n ?m" using Cons.prems by (intro put_page_wf) auto
  have d: "mcDynLock ?m = mcDynLock m" by (simp add: put_page_def)
  obtain m' where m': "write_pages mem_transport (p + 1) cs ?m = (Inr (), m')" "mem_wf n m'" "mcDynLock m' = mcDynLock m"
      "mcPages m' = take (p + 1) (mcPages ?m) @ cs @ drop (p + 1 + length cs) (mcPages ?m)"
      "\<And>q. mem_locked q m' = mem_locked q m"
    using Cons.IH [of ?m "p + 1"] Cons.prems wf k d by auto
  have l: "length (mcPages m) = n" using Cons.prems(1) by (simp add: mem_wf_def)
  have pages: "mcPages m' = take p (mcPages m) @ (c # cs) @ drop (p + length (c # cs)) (mcPages m)"
    using m'(4) p(1) l by (simp add: put_page_def take_Suc_conv_app_nth)
  show ?case using w m' pages by (intro exI [of _ m']) (simp add: tryS_def)
qed

lemma pad_pages_length: "4 dvd length (pad_pages p)" "length (pad_pages p) div 4 = (length p + 3) div 4"
proof -
  have "4 * q + r + (4 - r) mod 4 = 4 * ((4 * q + r + 3) div 4)" if "r < 4" for q r :: nat
  proof -
    have "r = 0 \<or> r = 1 \<or> r = 2 \<or> r = 3" using that by presburger
    then show ?thesis by (elim disjE) simp_all
  qed
  from this [of "n mod 4" "n div 4" for n] have "n + (4 - n mod 4) mod 4 = 4 * ((n + 3) div 4)" for n :: nat
    by (simp only: mult_div_mod_eq mod_less_divisor zero_less_numeral)
  then have "4 dvd n + (4 - n mod 4) mod 4" "(n + (4 - n mod 4) mod 4) div 4 = (n + 3) div 4" for n :: nat by simp_all
  then show "4 dvd length (pad_pages p)" "length (pad_pages p) div 4 = (length p + 3) div 4"
    by (simp_all only: pad_pages_def length_append length_replicate)
qed

lemma chunks_dvd:
  assumes "0 < k" "k dvd length xs"
  shows "length (chunks k xs) = length xs div k \<and> (\<forall>c \<in> set (chunks k xs). length c = k)"
  using assms(2)
proof (induction "length xs" arbitrary: xs rule: less_induct)
  case less
  show ?case
  proof (cases "xs = []")
    case False
    have l: "k \<le> length xs" using less.prems False by (auto dest: dvd_imp_le)
    have r: "length (chunks k (drop k xs)) = length (drop k xs) div k \<and> (\<forall>c \<in> set (chunks k (drop k xs)). length c = k)"
      by (rule less.hyps) (use assms(1) l False less.prems in \<open>auto intro: dvd_drop\<close>)
    have d: "length xs div k = Suc (length (drop k xs) div k)" using l assms(1) by (simp add: le_div_geq)
    have t: "length (take k xs) = k" using l by simp
    show ?thesis unfolding chunks_step [OF assms(1) False] using r d t by (simp only: length_Cons list.set) blast
  qed simp
qed

lemma tlv_find_encode_rest:
  assumes "length d < 65536"
  shows "tlv_find_ndef (tlv_encode d TLVNDEF @ r) = Some d"
proof -
  obtain h where h: "tlv_encode d TLVNDEF = (TLVNDEF # h) @ d @ [TLVTerminator]"
    "\<And>r. tlv_record_length ((TLVNDEF # h) @ r) = (1, length (TLVNDEF # h))"
    "\<And>r. tlv_get_length ((TLVNDEF # h) @ r) = length d"
    using tlv_encode_shape [OF assms, of TLVNDEF] by metis
  have s: "slice (length (TLVNDEF # h)) (length (TLVNDEF # h) + length d) ((TLVNDEF # h) @ d @ [TLVTerminator] @ r) = d"
    by (rule slice_append_exact)
  have l: "tlv_record_length (TLVNDEF # h @ d @ TLVTerminator # r) = (1, Suc (length h))"
    "tlv_get_length (TLVNDEF # h @ d @ TLVTerminator # r) = length d"
    using h(2,3) [of "d @ TLVTerminator # r"] by simp_all
  have t: "TLVNDEF \<noteq> TLVNull" "TLVNDEF \<noteq> TLVTerminator" by (simp_all add: tlv_consts)
  show ?thesis
    unfolding h(1) using s by (subst tlv_find_ndef.simps) (simp add: l t Let_def)
qed

section \<open>Messages\<close>

lemma base_area_open:
  assumes "mem_wf n m" "area_open e m" "4 < e"
  shows "base_area_locked mem_transport m = (Inr False, tick 1 m)"
proof -
  have l: "length (mcPages m ! 2) = 4" using assms(1) by (simp add: mem_wf_def)
  have "\<not> mem_locked 4 m" using assms(2,3) by (simp add: area_open_def)
  then have b: "mcPages m ! 2 ! 2 AND 0x10 = 0"
    using and_exp_eq_0_iff_not_bit [of "mcPages m ! 2 ! 2" 4] by (simp add: mem_locked_def Let_def)
  have "base_transceive mem_transport (read_binary_apdu 2 4) m = (Inr (mcPages m ! 2), tick 1 m)"
    using read_page_card [OF assms(1), of 2] assms(1) by (simp add: read_page_def mem_wf_def)
  then show ?thesis using l b by (simp add: base_area_locked_def doS_def)
qed

text \<open>A message is in the user area, or the area holds anything.\<close>

definition mem_holds :: "nat \<Rightarrow> nat \<Rightarrow> mem_card \<Rightarrow> bytes \<Rightarrow> bool" where
  "mem_holds n e m d \<longleftrightarrow> mem_wf n m \<and> area_open e m \<and> 4 < e \<and>
     (d \<noteq> [] \<longrightarrow> length d < 65536 \<and> (\<exists>r. user_area e m = tlv_encode d TLVNDEF @ r))"

lemma mem_holds_tick [simp]: "mem_holds n e (tick k m) d = mem_holds n e m d"
  by (simp add: mem_holds_def)

text \<open>Reading may go on past the pages a write may use.\<close>

lemma read_message_card:
  assumes "mem_holds n e m d" "e \<le> f" "f \<le> n"
  shows "\<exists>r k. read_message mem_transport op uid f m = (r, tick k m) \<and> (d \<noteq> [] \<longrightarrow> r = Inr d)"
proof -
  have wf: "mem_wf n m" "4 \<le> f" using assms by (auto simp: mem_holds_def)
  have r: "read_pages mem_transport [4..<f] [] m = (Inr (user_area f m, None), tick (f - 4) m)"
    using read_pages_card [OF wf(1,2) assms(3)] by (simp add: user_area_def)
  show ?thesis
  proof (cases "d = []")
    case True
    then show ?thesis by (auto simp: read_message_def r split: option.split)
  next
    case False
    then obtain rest where u: "user_area e m = tlv_encode d TLVNDEF @ rest" "length d < 65536"
      using assms by (auto simp: mem_holds_def)
    have "drop 4 (take f (mcPages m)) = drop 4 (take e (mcPages m)) @ drop (max 4 e) (take f (mcPages m))"
      using assms(1,2) take_add [of e "f - e" "mcPages m"]
      by (auto simp: mem_holds_def area_open_def max_def drop_append)
    then have "user_area f m = tlv_encode d TLVNDEF @ rest @ concat (drop (max 4 e) (take f (mcPages m)))"
      using u(1) by (simp add: user_area_def)
    then have v: "user_area f m \<noteq> []" "tlv_find_ndef (user_area f m) = Some d"
      using tlv_find_encode_rest [OF u(2)] by (simp_all add: tlv_encode_def)
    then show ?thesis by (auto simp: read_message_def r)
  qed
qed

lemma write_message_card:
  assumes "mem_holds n e m d" "(length (tlv_encode x TLVNDEF) + 3) div 4 \<le> e - 4" "length x < 65536"
  shows "\<exists>m'. write_unless_locked mem_transport ro (e - 4) x m = (Inr (), m') \<and> mem_holds n e m' x \<and> mcDynLock m' = mcDynLock m"
proof -
  let ?cs = "chunks 4 (pad_pages (tlv_encode x TLVNDEF))"
  have wf: "mem_wf n m" "area_open e m" "4 < e" using assms(1) by (simp_all add: mem_holds_def)
  have e: "e \<le> n" "mcDynLock m = 0 \<or> e \<le> mcDynLock m" "\<forall>q. 4 \<le> q \<longrightarrow> q < e \<longrightarrow> \<not> mem_locked q m"
    using wf by (auto simp: area_open_def mem_wf_def)
  have cs: "length ?cs = (length (tlv_encode x TLVNDEF) + 3) div 4" "\<forall>c \<in> set ?cs. length c = 4"
    using chunks_dvd [of 4, OF _ pad_pages_length(1)] pad_pages_length(2) by auto
  have fits: "4 + length ?cs \<le> e" using cs(1) assms(2) wf(3) by linarith
  obtain m' where m': "write_pages mem_transport 4 ?cs (tick 1 m) = (Inr (), m')" "mem_wf n m'" "mcDynLock m' = mcDynLock m"
      "mcPages m' = take 4 (mcPages m) @ ?cs @ drop (4 + length ?cs) (mcPages m)"
      "\<And>q. mem_locked q m' = mem_locked q m"
    using write_pages_card [of n "tick 1 m" ?cs 4 e] wf cs(2) fits e by auto
  have l: "length (mcPages m) = n" "length (mcPages m') = n" using wf(1) m'(2) by (simp_all add: mem_wf_def)
  have "user_area e m' = concat (?cs @ take (e - 4 - length ?cs) (drop (4 + length ?cs) (mcPages m)))"
    using l fits e(1) by (simp add: user_area_def m'(4))
  then have "user_area e m' = tlv_encode x TLVNDEF @
      (replicate ((4 - length (tlv_encode x TLVNDEF) mod 4) mod 4) 0 @
       concat (take (e - 4 - length ?cs) (drop (4 + length ?cs) (mcPages m))))"
    by (simp add: concat_chunks pad_pages_def)
  moreover have "area_open e m'" using e l m'(3,5) by (auto simp: area_open_def)
  ultimately have "mem_holds n e m' x" using m'(2) wf(3) assms(3) by (auto simp: mem_holds_def)
  moreover have "write_unless_locked mem_transport ro (e - 4) x m = (Inr (), m')"
    using base_area_open [OF wf] m'(1) assms(2)
    by (simp add: write_unless_locked_def tryS_def write_payload_def Let_def)
  ultimately show ?thesis using m'(3) by blast
qed

text \<open>A message that does not fit is refused, and the card is as it was.\<close>

lemma write_too_large:
  assumes "mem_holds n e m d" "\<not> (length (tlv_encode x TLVNDEF) + 3) div 4 \<le> e - 4"
  shows "\<exists>t. write_unless_locked mem_transport ro (e - 4) x m = (Inl (PlainError t), tick 1 m)"
  using base_area_open [of n m e] assms
  by (auto simp: mem_holds_def write_unless_locked_def tryS_def write_payload_def Let_def)

section \<open>The kinds with a memory to run on\<close>

definition page_kinds :: "tag_kind list" where
  "page_kinds = [DetectedUltralight, DetectedUltralightC, DetectedUltralightEV1_128, DetectedNTAG213, DetectedNTAG215,
     DetectedNTAG216]"

text \<open>The emulated card of a kind, the driver's tag for it, the end of its user pages, and the longest message.\<close>

definition page_card :: "tag_kind \<Rightarrow> mem_card" where
  "page_card k =
     (if k = DetectedUltralight then new_ultralight_emulator
      else if k = DetectedUltralightC then new_ultralight_c_emulator
      else if k = DetectedUltralightEV1_128 then new_ultralight_ev1_emulator
      else new_ntag_emulator k)"

definition page_tag :: "string \<Rightarrow> tag_kind \<Rightarrow> mem_card tag" where
  "page_tag uid k =
     (if new_tag_for_type k = Some UltralightDriver then ultralight_as_tag (new_ultralight_tag uid k) mem_transport
      else ntag_as_tag (new_ntag_tag uid k) mem_transport)"

definition page_end :: "tag_kind \<Rightarrow> nat" where
  "page_end k = (if new_tag_for_type k = Some UltralightDriver then 4 + ulWritablePages (ultralight_layout_for k)
     else 4 + ng_avail (new_ntag_tag [] k))"

definition page_space :: "tag_kind \<Rightarrow> nat" where
  "page_space k = (let n = 4 * (page_end k - 4) in if n < 258 then n - 3 else n - 5)"

definition page_room :: "tag_kind \<Rightarrow> nat" where
  "page_room k = min (page_space k) (capMaxNDEF (tgCaps (page_tag [] k) (page_card k)))"

definition page_holds :: "tag_kind \<Rightarrow> mem_card \<Rightarrow> bytes \<Rightarrow> bool" where
  "page_holds k m d \<longleftrightarrow> k \<in> set page_kinds \<and> mem_holds (length (mcPages (page_card k))) (page_end k) m d \<and>
     mcDynLock m = mcDynLock (page_card k)"

lemmas page_defs = page_card_def page_tag_def page_end_def page_space_def page_room_def new_ultralight_emulator_def
  new_ultralight_c_emulator_def new_ultralight_ev1_emulator_def new_ntag_emulator_def blank_mem_def
  ultralight_layout_for_def ng_avail_def new_ntag_tag_def new_ultralight_tag_def ultralight_as_tag_def ntag_as_tag_def
  ul_profile_def ng_profile_def ultralight_profile_def ntag_profile_def no_profile_def profile_capabilities_def

lemma page_kind_cases:
  assumes "k \<in> set page_kinds"
  obtains "k = DetectedUltralight" | "k = DetectedUltralightC" | "k = DetectedUltralightEV1_128"
    | "k = DetectedNTAG213" | "k = DetectedNTAG215" | "k = DetectedNTAG216"
  using assms by (auto simp: page_kinds_def)

text \<open>What the tag reads and writes, by kind, in terms of the shared parts.\<close>

lemma page_tag_ops:
  assumes "k \<in> set page_kinds"
  obtains op f ro where "tgRead (page_tag uid k) = read_message mem_transport op uid f"
    "page_end k \<le> f" "f \<le> length (mcPages (page_card k))"
    "tgWrite (page_tag uid k) = write_unless_locked mem_transport ro (page_end k - 4)"
  using assms
  by (cases k rule: page_kind_cases)
    (auto simp: page_defs ul_read_data_def ul_write_data_def ng_read_data_def ng_write_data_def ng_user_end_def Let_def)

lemma page_room_values:
  "map page_room page_kinds = [45, 137, 125, 141, 499, 883]"
  "map page_end page_kinds = [16, 40, 36, 40, 130, 226]"
  "map (\<lambda>k. capMaxNDEF (tgCaps (page_tag uid k) m)) page_kinds = [46, 137, 126, 144, 504, 888]"
  by (simp_all add: page_kinds_def page_defs Let_def)

lemma page_room_at:
  "page_room DetectedUltralight = 45" "page_room DetectedUltralightC = 137" "page_room DetectedUltralightEV1_128 = 125"
  "page_room DetectedNTAG213 = 141" "page_room DetectedNTAG215 = 499" "page_room DetectedNTAG216 = 883"
  "page_end DetectedUltralight = 16" "page_end DetectedUltralightC = 40" "page_end DetectedUltralightEV1_128 = 36"
  "page_end DetectedNTAG213 = 40" "page_end DetectedNTAG215 = 130" "page_end DetectedNTAG216 = 226"
  using page_room_values(1,2) by (simp_all add: page_kinds_def)

lemma tlv_encode_pages: "(length (tlv_encode x t) + 3) div 4 = (if length x < 255 then length x + 6 else length x + 8) div 4"
  by (simp add: tlv_encode_def add.commute)

lemma pages_needed: "n \<le> 4 * k + 3 \<Longrightarrow> n div 4 \<le> (k :: nat)"
  by presburger

lemma page_fits:
  assumes "k \<in> set page_kinds" "length x \<le> page_room k"
  shows "(length (tlv_encode x TLVNDEF) + 3) div 4 \<le> page_end k - 4" "length x < 65536"
  unfolding tlv_encode_pages
  by (use assms in \<open>cases k rule: page_kind_cases\<close>; rule pages_needed; use assms in \<open>simp add: page_room_at\<close>)
    (use assms in \<open>cases k rule: page_kind_cases; simp add: page_room_at\<close>)

lemma page_space_at:
  "map page_space page_kinds = [45, 141, 125, 141, 499, 883]"
  by (simp add: page_kinds_def page_defs Let_def)

lemma page_space_iff:
  assumes "k \<in> set page_kinds" "length x < 65536"
  shows "(length (tlv_encode x TLVNDEF) + 3) div 4 \<le> page_end k - 4 \<longleftrightarrow> length x \<le> page_space k"
proof -
  have q: "n div 4 \<le> j \<longleftrightarrow> n \<le> 4 * j + 3" for n j :: nat by presburger
  have s: "page_space DetectedUltralight = 45" "page_space DetectedUltralightC = 141"
    "page_space DetectedUltralightEV1_128 = 125" "page_space DetectedNTAG213 = 141" "page_space DetectedNTAG215 = 499"
    "page_space DetectedNTAG216 = 883" using page_space_at by (simp_all add: page_kinds_def)
  show ?thesis unfolding tlv_encode_pages q
    using assms by (cases k rule: page_kind_cases) (auto simp: page_room_at s)
qed

lemma page_room_capacity:
  assumes "k \<in> set page_kinds"
  shows "0 < capMaxNDEF (tgCaps (page_tag uid k) m)" "page_room k \<le> capMaxNDEF (tgCaps (page_tag uid k) m)"
    "capNDEF (tgCaps (page_tag uid k) m)" "\<not> capSnapshot (tgCaps (page_tag uid k) m)"
  using assms page_room_at by (cases k rule: page_kind_cases; simp add: page_defs Let_def)+

interpretation pages: message_tag "page_tag uid k" "page_holds k" "\<lambda>x. length x \<le> page_room k" for uid k
proof
  fix m d
  assume h: "page_holds k m d"
  then have k: "k \<in> set page_kinds" and d: "mcDynLock m = mcDynLock (page_card k)"
    and mh: "mem_holds (length (mcPages (page_card k))) (page_end k) m d" by (simp_all add: page_holds_def)
  obtain op f ro where o: "tgRead (page_tag uid k) = read_message mem_transport op uid f"
      "page_end k \<le> f" "f \<le> length (mcPages (page_card k))"
      "tgWrite (page_tag uid k) = write_unless_locked mem_transport ro (page_end k - 4)"
    using page_tag_ops [OF k] .
  obtain r j where "tgRead (page_tag uid k) m = (r, tick j m)" "d \<noteq> [] \<longrightarrow> r = Inr d"
    using read_message_card [OF mh o(2,3), of op uid] unfolding o(1) by blast
  moreover have "page_holds k (tick j m) d" using h by (simp add: page_holds_def)
  ultimately show "\<exists>r s'. tgRead (page_tag uid k) m = (r, s') \<and> page_holds k s' d \<and> (d \<noteq> [] \<longrightarrow> r = Inr d)" by blast
  show "\<not> capSnapshot (tgCaps (page_tag uid k) m)" using page_room_capacity [OF k] by blast
  fix x :: bytes
  assume x: "length x \<le> page_room k"
  obtain m' where "tgWrite (page_tag uid k) x m = (Inr (), m')"
      "mem_holds (length (mcPages (page_card k))) (page_end k) m' x" "mcDynLock m' = mcDynLock m"
    using write_message_card [OF mh page_fits [OF k x]] by (auto simp: o(4))
  then show "\<exists>s'. tgWrite (page_tag uid k) x m = (Inr (), s') \<and> page_holds k s' x" using k d by (auto simp: page_holds_def)
  show "check_write_capacity (page_tag uid k) (length x) m = None"
    using page_room_capacity(2) [OF k, of uid m] x by (simp add: check_write_capacity_def Let_def)
qed

text \<open>A card as it comes holds nothing.\<close>

lemma page_card_blank: "k \<in> set page_kinds \<Longrightarrow> page_holds k (page_card k) []"
proof -
  assume k: "k \<in> set page_kinds"
  have "mem_wf (length (mcPages (page_card k))) (page_card k)"
    using k by (cases k rule: page_kind_cases) (simp_all add: mem_wf_def page_defs)
  moreover have "\<not> mem_locked p (page_card k)" if "p < page_end k" for p
  proof -
    have "mcPages (page_card k) ! q ! i = 0" if "q < length (mcPages (page_card k))" "i < 4" for q i
      using k that by (cases k rule: page_kind_cases) (auto simp: page_defs nth_Cons split: nat.split)
    moreover have "2 < length (mcPages (page_card k))" "mcDynLock (page_card k) < length (mcPages (page_card k))"
      using k by (cases k rule: page_kind_cases; simp add: page_defs)+
    ultimately show ?thesis by (simp add: mem_locked_def Let_def)
  qed
  moreover have "page_end k \<le> length (mcPages (page_card k))" "4 < page_end k"
    "mcDynLock (page_card k) = 0 \<or> page_end k \<le> mcDynLock (page_card k)"
    using k by (cases k rule: page_kind_cases; simp add: page_room_at; simp add: page_defs)+
  ultimately show ?thesis using k by (simp add: page_holds_def mem_holds_def area_open_def)
qed

section \<open>A lock is one-way\<close>

text \<open>A locked page stays locked and keeps its bytes, whatever is written to the card.\<close>

definition mem_shape :: "mem_card \<Rightarrow> bool" where
  "mem_shape m \<longleftrightarrow> 2 < length (mcPages m) \<and> mcDynLock m < length (mcPages m) \<and> mcDynLock m \<noteq> 2 \<and>
     (\<forall>p \<in> set (mcPages m). length p = 4)"

definition keeps_page :: "nat \<Rightarrow> mem_card \<Rightarrow> mem_card \<Rightarrow> bool" where
  "keeps_page q m m' \<longleftrightarrow> (mem_shape m \<and> mem_locked q m \<and> (mcDynLock m \<noteq> 0 \<longrightarrow> q \<noteq> mcDynLock m) \<longrightarrow>
     mem_shape m' \<and> mem_locked q m' \<and> mcDynLock m' = mcDynLock m \<and> length (mcPages m') = length (mcPages m) \<and>
     mcPages m' ! q = mcPages m ! q)"

lemma keeps_page_refl [simp]: "keeps_page q m m"
  by (simp add: keeps_page_def)

lemma keeps_page_trans: "keeps_page q a b \<Longrightarrow> keeps_page q b c \<Longrightarrow> keeps_page q a c"
  by (simp add: keeps_page_def)

lemma keeps_page_fields [simp]:
  "keeps_page q m (m\<lparr>mcFailWrites := f\<rparr>)" "keeps_page q m (m\<lparr>mcOps := j\<rparr>)" "keeps_page q m (m\<lparr>mcPresent := b\<rparr>)"
  by (simp_all add: keeps_page_def mem_shape_def mem_locked_def)

lemma mem_locked_page: "mem_locked q m \<Longrightarrow> 3 \<le> q"
  by (auto simp: mem_locked_def Let_def split: if_splits)

lemma or_bytes_nth: "length a = 4 \<Longrightarrow> length b = 4 \<Longrightarrow> i < 4 \<Longrightarrow> or_bytes a b ! i = a ! i OR b ! i"
  by (simp add: or_bytes_def)

lemma mem_write_keeps:
  assumes "mem_write p d m = Some m'"
  shows "keeps_page q m m'"
proof -
  have d: "length d = 4" "p < length (mcPages m)" using assms by (auto simp: mem_write_def split: if_splits)
  have upd: "\<forall>x \<in> set ((mcPages m)[p := v]). length x = 4" if "mem_shape m" "length v = 4" for v
    using that set_update_subset_insert [of "mcPages m" p v] by (auto simp: mem_shape_def)
  have l: "length (mcPages m ! i) = 4" if "mem_shape m" "i < length (mcPages m)" for i
    using that by (simp add: mem_shape_def)
  consider "p = 2" "m' = m\<lparr>mcPages := (mcPages m)[2 := (mcPages m ! 2)
      [2 := mcPages m ! 2 ! 2 OR d ! 2, 3 := mcPages m ! 2 ! 3 OR d ! 3]]\<rparr>"
    | "p \<noteq> 2" "mcDynLock m \<noteq> 0" "p = mcDynLock m" "m' = m\<lparr>mcPages := (mcPages m)[p := or_bytes (mcPages m ! p) d]\<rparr>"
    | "p \<noteq> 2" "\<not> (mcDynLock m \<noteq> 0 \<and> p = mcDynLock m)" "\<not> mem_locked p m" "m' = m\<lparr>mcPages := (mcPages m)[p := d]\<rparr>"
    using assms by (auto simp: mem_write_def Let_def split: if_splits)
  then show ?thesis
  proof cases
    case 1
    show ?thesis
      unfolding keeps_page_def
    proof (intro impI, elim conjE)
      assume s: "mem_shape m" and q: "mem_locked q m" and n: "mcDynLock m \<noteq> 0 \<longrightarrow> q \<noteq> mcDynLock m"
      have "length (mcPages m ! 2) = 4" using l [OF s] s by (simp add: mem_shape_def)
      then have "\<forall>x \<in> set ((mcPages m)[2 := (mcPages m ! 2)[2 := mcPages m ! 2 ! 2 OR d ! 2, 3 := mcPages m ! 2 ! 3 OR d ! 3]]).
          length x = 4" by (intro upd [OF s, unfolded 1(1)]) simp
      then have "mem_shape m'" using s by (simp add: 1(2) mem_shape_def)
      moreover have "mem_locked q m'"
        using q s l [OF s] by (auto simp: 1 mem_locked_def mem_shape_def Let_def bit_or_iff split: if_splits)
      ultimately show "mem_shape m' \<and> mem_locked q m' \<and> mcDynLock m' = mcDynLock m \<and>
          length (mcPages m') = length (mcPages m) \<and> mcPages m' ! q = mcPages m ! q"
        using mem_locked_page [OF q] by (simp add: 1)
    qed
  next
    case 2
    show ?thesis
      unfolding keeps_page_def
    proof (intro impI, elim conjE)
      assume s: "mem_shape m" and q: "mem_locked q m" and n: "mcDynLock m \<noteq> 0 \<longrightarrow> q \<noteq> mcDynLock m"
      have "length (or_bytes (mcPages m ! p) d) = 4" using l [OF s d(2)] d(1) by (simp add: or_bytes_def)
      then have "mem_shape m'" using s d upd [OF s] by (auto simp: 2 mem_shape_def)
      moreover have "mem_locked q m'"
        using q s 2(1,3) d or_bytes_nth [OF l [OF s d(2)] d(1)]
        by (auto simp: 2(4) mem_locked_def mem_shape_def Let_def bit_or_iff split: if_splits)
      ultimately show "mem_shape m' \<and> mem_locked q m' \<and> mcDynLock m' = mcDynLock m \<and>
          length (mcPages m') = length (mcPages m) \<and> mcPages m' ! q = mcPages m ! q"
        using n 2 by simp
    qed
  next
    case 3
    show ?thesis
      unfolding keeps_page_def
    proof (intro impI, elim conjE)
      assume s: "mem_shape m" and q: "mem_locked q m" and n: "mcDynLock m \<noteq> 0 \<longrightarrow> q \<noteq> mcDynLock m"
      have "mem_shape m'" using s d upd [OF s] by (auto simp: 3 mem_shape_def)
      moreover have "mem_locked q m'"
        using q 3(1,2) by (auto simp: 3(4) mem_locked_def Let_def split: if_splits)
      moreover have "p \<noteq> q" using q 3(3) by blast
      ultimately show "mem_shape m' \<and> mem_locked q m' \<and> mcDynLock m' = mcDynLock m \<and>
          length (mcPages m') = length (mcPages m) \<and> mcPages m' ! q = mcPages m ! q"
        by (simp add: 3(4))
    qed
  qed
qed

lemma native_frame_keeps: "native_frame f m = (r, m') \<Longrightarrow> keeps_page q m m'"
  by (auto simp: native_frame_def dest: mem_write_keeps split: if_splits option.splits)

lemma mem_command_keeps: "mem_command c m = (r, m') \<Longrightarrow> keeps_page q m m'"
  by (auto simp: mem_command_def direct_transmit_def Let_def dest: mem_write_keeps native_frame_keeps
      split: if_splits option.splits prod.splits)

lemma mem_transceive_keeps: "keeps_page q m (snd (mem_transceive c m))"
proof -
  obtain g m1 where s: "should_remove m = (g, m1)" by fastforce
  then have "keeps_page q m m1" by (auto simp: should_remove_def Let_def)
  then show ?thesis using s mem_command_keeps keeps_page_trans
    by (auto simp: mem_transceive_def split: prod.split)
qed

lemma mem_transceive_raw_keeps: "keeps_page q m (snd (mem_transceive_raw c m))"
proof -
  obtain g m1 where s: "should_remove m = (g, m1)" by fastforce
  then have "keeps_page q m m1" by (auto simp: should_remove_def Let_def)
  then show ?thesis using s
    by (auto simp: mem_transceive_raw_def split: prod.split option.split)
      (blast intro: keeps_page_trans native_frame_keeps keeps_page_fields)+
qed

text \<open>Anything sent to the card, as an APDU or as a frame.\<close>

fun mem_traffic :: "(bytes + bytes) list \<Rightarrow> mem_card \<Rightarrow> mem_card" where
  "mem_traffic [] m = m"
| "mem_traffic (Inl c # cs) m = mem_traffic cs (snd (mem_transceive c m))"
| "mem_traffic (Inr f # cs) m = mem_traffic cs (snd (mem_transceive_raw f m))"

lemma mem_traffic_keeps: "keeps_page q m (mem_traffic cs m)"
  by (induction cs m rule: mem_traffic.induct)
    (auto intro: keeps_page_trans mem_transceive_keeps mem_transceive_raw_keeps)

lemma locked_area_stays:
  assumes "mem_shape m" "\<forall>q. 4 \<le> q \<longrightarrow> q < e \<longrightarrow> mem_locked q m" "mcDynLock m = 0 \<or> e \<le> mcDynLock m" "e \<le> length (mcPages m)"
  shows "user_area e (mem_traffic cs m) = user_area e m"
proof (cases "4 < e")
  case True
  have k: "mcPages (mem_traffic cs m) ! q = mcPages m ! q \<and> mem_shape (mem_traffic cs m)" if "4 \<le> q" "q < e" for q
    using mem_traffic_keeps [of q m cs] assms that by (auto simp: keeps_page_def)
  have l: "length (mcPages (mem_traffic cs m)) = length (mcPages m)"
    using mem_traffic_keeps [of 4 m cs] assms True by (auto simp: keeps_page_def)
  have "drop 4 (take e (mcPages (mem_traffic cs m))) = drop 4 (take e (mcPages m))"
    by (rule nth_equalityI) (use l k assms(4) in auto)
  then show ?thesis by (simp add: user_area_def)
qed (simp add: user_area_def)

section \<open>The drivers' lock is complete\<close>

lemma mem_wf_shape: "mem_wf n m \<Longrightarrow> mcDynLock m < n \<Longrightarrow> mcDynLock m \<noteq> 2 \<Longrightarrow> mem_shape m"
  by (auto simp: mem_wf_def mem_shape_def)

lemma bit_FF: "j < 8 \<Longrightarrow> bit (0xFF :: byte) j"
proof -
  have f: "(0xFF :: byte) = - 1" by simp
  show "j < 8 \<Longrightarrow> bit (0xFF :: byte) j" unfolding f by (simp add: bit_minus_1_iff)
qed

lemma lock_static_card:
  assumes "mem_wf n m"
  shows "\<exists>m'. lock_static mem_transport m = Some (Inr (), m') \<and> mem_wf n m' \<and> mcDynLock m' = mcDynLock m \<and>
    (\<forall>q. 4 \<le> q \<longrightarrow> q \<le> 15 \<longrightarrow> mem_locked q m') \<and>
    (\<forall>q. q \<noteq> 2 \<longrightarrow> mcPages m' ! q = mcPages m ! q)"
proof -
  let ?p = "mcPages m ! 2"
  have l: "length ?p = 4" "2 < n" "length (mcPages m) = n" using assms by (auto simp: mem_wf_def)
  let ?d = "take 2 ?p @ [0xFF, 0xFF]"
  have r: "read_page mem_transport 2 m = (Inr ?p, tick 1 m)" using read_page_card [OF assms l(2)] by simp
  have s: "set_bytes 2 4 ?p = Some ?d" using l(1) by (simp add: set_bytes_def numeral_2_eq_2)
  let ?q = "?p[2 := ?p ! 2 OR 0xFF, 3 := ?p ! 3 OR 0xFF]"
  let ?m = "tick 2 m\<lparr>mcPages := (mcPages m)[2 := ?q]\<rparr>"
  have "mem_write 2 ?d (tick 1 (tick 1 m)) = Some ?m"
    using l by (simp add: mem_write_def tick_def nth_append Let_def)
  then have w: "write_page mem_transport 2 ?d (tick 1 m) = (Inr (), ?m)"
    using write_command [of n "tick 1 m" 2 ?d] assms l by simp
  have "mem_wf n ?m" using assms l set_update_subset_insert [of "mcPages m" 2 ?q] by (auto simp: mem_wf_def tick_def)
  moreover have "mem_locked q ?m" if "4 \<le> q" "q \<le> 15" for q
  proof -
    have "q \<le> 7 \<Longrightarrow> bit (0xFF :: byte) q" "bit (0xFF :: byte) (q - 8)" using bit_FF that by simp_all
    then show ?thesis using that l by (auto simp: mem_locked_def Let_def bit_or_iff)
  qed
  ultimately show ?thesis
    using r s w by (intro exI [of _ ?m]) (simp add: lock_static_def tick_def)
qed

lemma lock_dynamic_card:
  assumes "mem_wf n m" "mcDynLock m = unat d" "16 \<le> unat d" "unat d < n"
  shows "\<exists>m'. lock_dynamic mem_transport d m = Some (Inr (), m') \<and> mem_wf n m' \<and> mcDynLock m' = mcDynLock m \<and>
    (\<forall>q. 16 \<le> q \<longrightarrow> q < 256 \<longrightarrow> mem_locked q m') \<and>
    (\<forall>q. q \<noteq> unat d \<longrightarrow> mcPages m' ! q = mcPages m ! q)"
proof -
  let ?p = "mcPages m ! unat d"
  have l: "length ?p = 4" "length (mcPages m) = n" using assms(1,4) by (auto simp: mem_wf_def)
  let ?d = "[0xFF, 0xFF, 0xFF] @ drop 3 ?p"
  let ?q = "or_bytes ?p ?d"
  let ?m = "tick 2 m\<lparr>mcPages := (mcPages m)[unat d := ?q]\<rparr>"
  have q: "length ?q = 4" "i < 3 \<Longrightarrow> ?q ! i = ?p ! i OR 0xFF" for i
    using l(1) or_bytes_nth [of ?p ?d i] by (auto simp: or_bytes_def nth_append numeral_3_eq_3 less_Suc_eq)
  have r: "read_page mem_transport d m = (Inr ?p, tick 1 m)" using read_page_card [OF assms(1,4)] by simp
  have s: "set_bytes 0 3 ?p = Some ?d" using l(1) by (simp add: set_bytes_def numeral_3_eq_3)
  have "mem_write (unat d) ?d (tick 1 (tick 1 m)) = Some ?m"
    using l assms(2-4) by (simp add: mem_write_def tick_def Let_def)
  then have w: "write_page mem_transport d ?d (tick 1 m) = (Inr (), ?m)"
    using write_command [of n "tick 1 m" "unat d" ?d] assms l by simp
  have "mem_wf n ?m" using assms(1) l q(1) set_update_subset_insert [of "mcPages m" "unat d" ?q]
    by (auto simp: mem_wf_def tick_def)
  moreover have "mem_locked j ?m" if "16 \<le> j" "j < 256" for j
  proof -
    have b: "(j - 16) div 16 div 8 < 3" "(j - 16) div 16 mod 8 < 8" using that by (auto simp: div_mult2_eq [symmetric])
    have f: "bit (0xFF :: byte) ((j - 16) div 16 mod 8)" using bit_FF b(2) by blast
    have "\<not> 2 < (j - 16) div 16 div 8" using b(1) by simp
    then show ?thesis using that f assms(2-4) l(2) q(2) [OF b(1)]
      by (simp add: mem_locked_def Let_def bit_or_iff tick_def)
  qed
  ultimately show ?thesis
    using r s w by (intro exI [of _ ?m]) (simp add: lock_dynamic_def tick_def)
qed

lemma lock_both_card:
  assumes "mem_wf n m" "mcDynLock m = unat d" "16 \<le> unat d" "unat d < n"
  shows "\<exists>m'. lock_both mem_transport d m = Some (Inr (), m') \<and> mem_wf n m' \<and> mcDynLock m' = mcDynLock m \<and>
    (\<forall>q. 4 \<le> q \<longrightarrow> q < 256 \<longrightarrow> mem_locked q m') \<and>
    (\<forall>q. q \<noteq> 2 \<longrightarrow> q \<noteq> unat d \<longrightarrow> mcPages m' ! q = mcPages m ! q)"
proof -
  obtain m1 where m1: "lock_dynamic mem_transport d m = Some (Inr (), m1)" "mem_wf n m1" "mcDynLock m1 = mcDynLock m"
      "\<And>q. 16 \<le> q \<Longrightarrow> q < 256 \<Longrightarrow> mem_locked q m1" "\<And>q. q \<noteq> unat d \<Longrightarrow> mcPages m1 ! q = mcPages m ! q"
    using lock_dynamic_card [OF assms] by blast
  obtain m2 where m2: "lock_static mem_transport m1 = Some (Inr (), m2)" "mem_wf n m2" "mcDynLock m2 = mcDynLock m1"
      "\<And>q. 4 \<le> q \<Longrightarrow> q \<le> 15 \<Longrightarrow> mem_locked q m2" "\<And>q. q \<noteq> 2 \<Longrightarrow> mcPages m2 ! q = mcPages m1 ! q"
    using lock_static_card [OF m1(2)] by blast
  have "mem_locked q m2" if "4 \<le> q" "q < 256" for q
  proof (cases "q \<le> 15")
    case False
    then have "mem_locked q m1" using m1(4) that by simp
    moreover have "mcPages m2 ! mcDynLock m1 = mcPages m1 ! mcDynLock m1" using m2(5) m1(3) assms(2,3) by simp
    ultimately show ?thesis using False m2(3) by (auto simp: mem_locked_def Let_def split: if_splits)
  qed (use m2(4) that in simp)
  then show ?thesis using m1 m2 by (intro exI [of _ m2]) (simp add: lock_both_def)
qed

text \<open>
  A kind the driver locks: the lock succeeds, keeps the message, and afterwards nothing sent to the
  card changes the user area.
\<close>

lemma page_lock_card:
  assumes "page_holds k m d" "capCanLock (tgCaps (page_tag uid k) m)"
  shows "\<exists>m'. tgLock (page_tag uid k) m = (Inr (), m') \<and> user_area (page_end k) m' = user_area (page_end k) m \<and>
    mem_wf (length (mcPages (page_card k))) m' \<and> mem_shape m' \<and> (\<forall>q. 4 \<le> q \<longrightarrow> q < page_end k \<longrightarrow> mem_locked q m') \<and>
    (mcDynLock m' = 0 \<or> page_end k \<le> mcDynLock m')"
proof -
  let ?n = "length (mcPages (page_card k))"
  have k: "k \<in> set page_kinds" and wf: "mem_wf ?n m" and o: "area_open (page_end k) m"
    and dyn: "mcDynLock m = mcDynLock (page_card k)"
    using assms(1) by (auto simp: page_holds_def mem_holds_def)
  have shape: "mcDynLock (page_card k) < ?n" "mcDynLock (page_card k) \<noteq> 2" "page_end k \<le> 256"
    using k by (cases k rule: page_kind_cases; simp add: page_defs)+
  have same: "user_area (page_end k) m' = user_area (page_end k) m"
    if wf': "mem_wf ?n m'" and same: "\<And>q. q \<noteq> 2 \<Longrightarrow> mcDynLock m = 0 \<or> q \<noteq> mcDynLock m \<Longrightarrow> mcPages m' ! q = mcPages m ! q" for m'
  proof -
    have "mcPages m' ! (4 + i) = mcPages m ! (4 + i)" if "i < page_end k - 4" for i
    proof -
      have "mcDynLock m = 0 \<or> 4 + i \<noteq> mcDynLock m" using o that by (auto simp: area_open_def)
      then show ?thesis using same [of "4 + i"] by simp
    qed
    then have "drop 4 (take (page_end k) (mcPages m')) = drop 4 (take (page_end k) (mcPages m))"
      by (intro nth_equalityI) (use wf' wf o in \<open>auto simp: mem_wf_def area_open_def\<close>)
    then show ?thesis by (simp add: user_area_def)
  qed
  let ?d = "if k = DetectedUltralightC then 0x28 else dynamic_lock_page (new_ntag_tag uid k)"
  consider "k = DetectedUltralight" "tgLock (page_tag uid k) m = outcome (lock_static mem_transport m) m"
    | d where "d = ?d" "mcDynLock (page_card k) = unat d" "16 \<le> unat d"
      "tgLock (page_tag uid k) m = outcome (lock_both mem_transport d m) m"
  proof (cases "k = DetectedUltralight")
    case True
    then show ?thesis by (intro that(1)) (simp_all add: page_defs ul_make_read_only_def)
  next
    case False
    have "mcDynLock (page_card k) = unat ?d" "16 \<le> unat ?d" "tgLock (page_tag uid k) m = outcome (lock_both mem_transport ?d m) m"
      using k assms(2) False
      by (cases k rule: page_kind_cases;
          simp add: page_defs ul_make_read_only_def ng_make_read_only_def dynamic_lock_page_def)+
    then show ?thesis by (intro that(2)) simp_all
  qed
  then show ?thesis
  proof cases
    case 1
    obtain m' where "lock_static mem_transport m = Some (Inr (), m')" "mem_wf ?n m'" "mcDynLock m' = mcDynLock m"
      "\<And>q. 4 \<le> q \<Longrightarrow> q \<le> 15 \<Longrightarrow> mem_locked q m'" "\<And>q. q \<noteq> 2 \<Longrightarrow> mcPages m' ! q = mcPages m ! q"
      using lock_static_card [OF wf] by blast
    then show ?thesis
      using 1 same [of m'] mem_wf_shape [of ?n m'] dyn shape o
      by (intro exI [of _ m']) (auto simp: outcome_def page_room_at area_open_def)
  next
    case (2 d)
    obtain m' where "lock_both mem_transport d m = Some (Inr (), m')" "mem_wf ?n m'" "mcDynLock m' = mcDynLock m"
      "\<And>q. 4 \<le> q \<Longrightarrow> q < 256 \<Longrightarrow> mem_locked q m'"
      "\<And>q. q \<noteq> 2 \<Longrightarrow> q \<noteq> unat d \<Longrightarrow> mcPages m' ! q = mcPages m ! q"
      using lock_both_card [OF wf, of d] 2(2,3) dyn shape by auto
    then show ?thesis
      using 2 same [of m'] mem_wf_shape [of ?n m'] dyn shape o
      by (intro exI [of _ m']) (auto simp: outcome_def area_open_def)
  qed
qed

text \<open>A message that does not fit is refused without touching the card, by an error that is not permanent.\<close>

lemma page_write_refused:
  assumes "page_holds k m d" "page_space k < length x" "length x < 65536"
  shows "\<exists>e m'. tgWrite (page_tag uid k) x m = (Inl e, m') \<and> mcPages m' = mcPages m \<and> \<not> is_permanent_write_error e"
proof -
  have k: "k \<in> set page_kinds" and h: "mem_holds (length (mcPages (page_card k))) (page_end k) m d"
    using assms(1) by (simp_all add: page_holds_def)
  obtain ro where o: "tgWrite (page_tag uid k) = write_unless_locked mem_transport ro (page_end k - 4)"
    using page_tag_ops [OF k, of uid] by metis
  have n: "\<not> (length (tlv_encode x TLVNDEF) + 3) div 4 \<le> page_end k - 4" using page_space_iff [OF k assms(3)] assms(2) by simp
  obtain t where "write_unless_locked mem_transport ro (page_end k - 4) x m = (Inl (PlainError t), tick 1 m)"
    using write_too_large [OF h n] by blast
  moreover have "\<not> is_permanent_write_error (PlainError t)"
    by (simp add: is_permanent_write_error_def is_card_removed_error_def is_read_only_error_def
        is_capacity_exceeded_error_def is_not_supported_error_def get_error_code_def)
  ultimately show ?thesis by (auto simp: o)
qed

lemma page_write_taken:
  assumes "page_holds k m d" "length x \<le> page_space k" "length x < 65536"
  shows "\<exists>m'. tgWrite (page_tag uid k) x m = (Inr (), m')"
proof -
  have k: "k \<in> set page_kinds" and h: "mem_holds (length (mcPages (page_card k))) (page_end k) m d"
    using assms(1) by (simp_all add: page_holds_def)
  obtain ro where o: "tgWrite (page_tag uid k) = write_unless_locked mem_transport ro (page_end k - 4)"
    using page_tag_ops [OF k, of uid] by metis
  show ?thesis
    using write_message_card [OF h _ assms(3), where ro = ro] page_space_iff [OF k assms(3)] assms(2) by (auto simp: o)
qed

lemma page_card_area: "page_holds k m d \<Longrightarrow> page_end k \<le> length (mcPages (page_card k))"
  by (auto simp: page_holds_def mem_holds_def area_open_def mem_wf_def)

end
