(* ===== verification/Classic.thy ===== *)
theory Classic
  imports PageTags
begin

text \<open>
  MIFARE Classic: the driver of \<open>nfc/tag_classic.go\<close>, the NDEF formatting of
  \<open>nfc/tag_classic_format.go\<close>, and the emulated card of \<open>nfc/nfctest/emulator.go\<close> that enforces keys,
  access conditions and the integrity of sector trailers.
\<close>

section \<open>Keys and blocks\<close>

definition classic_default_keys :: "bytes list" where
  "classic_default_keys =
     [replicate 6 0xFF, [0xD3, 0xF7, 0xD3, 0xF7, 0xD3, 0xF7], [0xA0, 0xA1, 0xA2, 0xA3, 0xA4, 0xA5], replicate 6 0x00]"

record classic_tag =
  clUID :: string
  clIs4K :: bool

definition set_candidate_keys :: "bytes list \<Rightarrow> bytes list" where
  "set_candidate_keys keys = filter (\<lambda>k. length k = 6) keys"

definition keys_to_try :: "bytes list \<Rightarrow> bytes list" where
  "keys_to_try candidates = (if candidates = [] then classic_default_keys else candidates @ classic_default_keys)"

definition new_classic_tag :: "string \<Rightarrow> tag_kind \<Rightarrow> classic_tag" where
  "new_classic_tag uid k = \<lparr>clUID = uid, clIs4K = (k = DetectedClassic4K)\<rparr>"

definition cl_profile :: "classic_tag \<Rightarrow> tag_profile" where
  "cl_profile t = (case profile_for (if clIs4K t then DetectedClassic4K else DetectedClassic1K) of
     Some p \<Rightarrow> p | None \<Rightarrow> no_profile)"

definition is_sector_trailer :: "bool \<Rightarrow> nat \<Rightarrow> bool" where
  "is_sector_trailer is4K blk = (if is4K \<and> 128 \<le> blk then (blk + 1) mod 16 = 0 else (blk + 1) mod 4 = 0)"

definition max_blocks :: "bool \<Rightarrow> nat" where
  "max_blocks is4K = (if is4K then 256 else 64)"

section \<open>One block\<close>

definition sw_ok :: "bytes \<Rightarrow> bool" where
  "sw_ok resp = (case parse_apdu_response resp of None \<Rightarrow> False | Some r \<Rightarrow> is_success r)"

text \<open>An APDU error; a status of more data is no error.\<close>

definition apdu_status_error :: "apdu_response \<Rightarrow> go_error option" where
  "apdu_status_error r = (if is_success r \<or> has_more_data r then None else Some (apdu_error (arSW1 r) (arSW2 r)))"

fun authenticate_sector :: "'s transport \<Rightarrow> string \<Rightarrow> nat \<Rightarrow> bytes list \<Rightarrow> ('s, go_error, unit) action" where
  "authenticate_sector tr uid sector [] s =
     (Inl (if \<not> trPresent tr s then CardRemovedError (Some (PlainError ''card removed during authentication''))
       else new_auth_error ''authenticateSector'' uid
         (Some (PlainError (''no valid key found for sector '' @ decimal sector)))), s)"
| "authenticate_sector tr uid sector (key # keys) s =
     (case trSend tr (load_key_apdu 0x00 key) s of
        (Inl e, s1) \<Rightarrow> if is_card_removed_error e then (Inl e, s1) else authenticate_sector tr uid sector keys s1
      | (Inr resp, s1) \<Rightarrow>
          if \<not> sw_ok resp then authenticate_sector tr uid sector keys s1
          else (case trSend tr (mifare_auth_apdu (of_nat (sector * 4 + 3)) 0x60 0x00) s1 of
            (Inl e, s2) \<Rightarrow> if is_card_removed_error e then (Inl e, s2) else authenticate_sector tr uid sector keys s2
          | (Inr resp, s2) \<Rightarrow>
              if sw_ok resp then (Inr (), s2)
              else (case trSend tr (mifare_auth_apdu (of_nat (sector * 4 + 3)) 0x61 0x00) s2 of
                (Inl e, s3) \<Rightarrow> if is_card_removed_error e then (Inl e, s3) else authenticate_sector tr uid sector keys s3
              | (Inr resp, s3) \<Rightarrow> if sw_ok resp then (Inr (), s3) else authenticate_sector tr uid sector keys s3)))"

text \<open>The sector authenticated last, which the callers of a block operation carry along.\<close>

definition with_sector ::
    "'s transport \<Rightarrow> string \<Rightarrow> bytes list \<Rightarrow> nat \<Rightarrow> nat option \<Rightarrow> 's \<Rightarrow> (go_error + unit) \<times> nat option \<times> 's" where
  "with_sector tr uid keys blk auth s =
     (if auth \<noteq> Some (blk div 4)
      then (case authenticate_sector tr uid (blk div 4) keys s of
              (Inl e, s') \<Rightarrow> (Inl e, auth, s')
            | (Inr _, s') \<Rightarrow> (Inr (), Some (blk div 4), s'))
      else (Inr (), auth, s))"

definition read_block ::
    "'s transport \<Rightarrow> string \<Rightarrow> bytes list \<Rightarrow> nat \<Rightarrow> nat option \<Rightarrow> 's \<Rightarrow> (go_error + bytes) \<times> nat option \<times> 's" where
  "read_block tr uid keys blk auth s =
     (case with_sector tr uid keys blk auth s of
        (Inl e, auth, s') \<Rightarrow> (Inl e, auth, s')
      | (Inr _, auth, s') \<Rightarrow>
          (case trSend tr (read_binary_apdu (of_nat blk) 16) s' of
             (Inl e, s'') \<Rightarrow> (Inl e, auth, s'')
           | (Inr resp, s'') \<Rightarrow>
               (case parse_apdu_response resp of
                  None \<Rightarrow> (Inl (PlainError ''response too short''), auth, s'')
                | Some r \<Rightarrow> if \<not> is_success r
                    then (case apdu_status_error r of None \<Rightarrow> (Inr [], auth, s'') | Some e \<Rightarrow> (Inl e, auth, s''))
                    else (Inr (arData r), auth, s''))))"

definition write_block ::
    "'s transport \<Rightarrow> string \<Rightarrow> bytes list \<Rightarrow> nat \<Rightarrow> bytes \<Rightarrow> nat option \<Rightarrow> 's \<Rightarrow> (go_error + unit) \<times> nat option \<times> 's" where
  "write_block tr uid keys blk data auth s =
     (if length data \<noteq> 16
      then (Inl (PlainError (''block data must be 16 bytes, got '' @ decimal (length data))), auth, s)
      else case with_sector tr uid keys blk auth s of
        (Inl e, auth, s') \<Rightarrow> (Inl e, auth, s')
      | (Inr _, auth, s') \<Rightarrow>
          (case trSend tr (update_binary_apdu (of_nat blk) data) s' of
             (Inl e, s'') \<Rightarrow> (Inl e, auth, s'')
           | (Inr resp, s'') \<Rightarrow>
               (case parse_apdu_response resp of
                  None \<Rightarrow> (Inl (PlainError ''response too short''), auth, s'')
                | Some r \<Rightarrow> if \<not> is_success r
                    then (case apdu_status_error r of None \<Rightarrow> (Inr (), auth, s'') | Some e \<Rightarrow> (Inl e, auth, s''))
                    else (Inr (), auth, s''))))"

section \<open>Messages\<close>

text \<open>The block loop of \<open>ReadData\<close>: it ends at an error or as soon as a whole message has been read.\<close>

fun read_blocks :: "'s transport \<Rightarrow> classic_tag \<Rightarrow> bytes list \<Rightarrow> nat list \<Rightarrow> bytes \<Rightarrow> nat option \<Rightarrow> 's
    \<Rightarrow> (go_error + bytes \<times> go_error option) \<times> 's" where
  "read_blocks tr t keys [] acc auth s = (Inr (acc, None), s)"
| "read_blocks tr t keys (b # bs) acc auth s =
     (if is_sector_trailer (clIs4K t) b then read_blocks tr t keys bs acc auth s
      else case read_block tr (clUID t) keys b auth s of
        (Inl e, auth', s') \<Rightarrow> if is_card_removed_error e then (Inl e, s') else (Inr (acc, Some e), s')
      | (Inr d, auth', s') \<Rightarrow>
          if tlv_find_ndef (acc @ d) \<noteq> None then (Inr (acc @ d, None), s')
          else read_blocks tr t keys bs (acc @ d) auth' s')"

definition cl_read_data :: "classic_tag \<Rightarrow> bytes list \<Rightarrow> 's transport \<Rightarrow> ('s, go_error, bytes) action" where
  "cl_read_data t keys tr s =
     (case read_blocks tr t keys [4..<max_blocks (clIs4K t)] [] None s of
        (Inl e, s') \<Rightarrow> (Inl e, s')
      | (Inr (d, lastErr), s') \<Rightarrow>
          if d = []
          then (Inl (case lastErr of
                  None \<Rightarrow> PlainError ''failed to read any data from tag''
                | Some e \<Rightarrow> if \<not> trPresent tr s' then CardRemovedError (Some (PlainError ''card removed during read''))
                            else if is_auth_failed_error e then new_no_payload_error ''ReadData (Classic)'' (clUID t) (Some e)
                            else Wrapped ''failed to read any data from tag: '' e []), s')
          else case tlv_find_ndef d of
                 None \<Rightarrow> (Inl (new_no_payload_error ''ReadData (Classic)'' (clUID t) None), s')
               | Some m \<Rightarrow> (Inr m, s'))"

definition pad_blocks :: "bytes \<Rightarrow> bytes" where
  "pad_blocks p = p @ replicate ((16 - length p mod 16) mod 16) 0"

lemma trailer_then_data: "is_sector_trailer is4K b \<Longrightarrow> \<not> is_sector_trailer is4K (b + 1)"
proof -
  assume t: "is_sector_trailer is4K b"
  have "(b + 1) mod 4 = 0"
    using t mod_mod_cancel [of 4 16 "b + 1"] by (auto simp: is_sector_trailer_def split: if_splits)
  then have n: "(b + 1 + 1) mod 4 \<noteq> 0" by presburger
  then have "(b + 1 + 1) mod 16 \<noteq> 0" using mod_mod_cancel [of 4 16 "b + 1 + 1"] by auto
  with n show ?thesis by (simp add: is_sector_trailer_def)
qed

function next_data_block :: "bool \<Rightarrow> nat \<Rightarrow> nat" where
  "next_data_block is4K b = (if is_sector_trailer is4K b then next_data_block is4K (b + 1) else b)"
  by pat_completeness auto
termination
  by (relation "measure (\<lambda>(is4K, b). if is_sector_trailer is4K b then 1 else 0)") (use trailer_then_data in auto)

declare next_data_block.simps [simp del]

fun write_blocks :: "'s transport \<Rightarrow> classic_tag \<Rightarrow> bytes list \<Rightarrow> nat \<Rightarrow> bytes list \<Rightarrow> nat option \<Rightarrow> ('s, go_error, unit) action" where
  "write_blocks tr t keys blk [] auth s = (Inr (), s)"
| "write_blocks tr t keys blk (c # cs) auth s =
     (let b = next_data_block (clIs4K t) blk
      in case write_block tr (clUID t) keys b c auth s of
           (Inl e, auth', s') \<Rightarrow> (Inl (Wrapped (''failed to write block '' @ decimal b @ '': '') e []), s')
         | (Inr _, auth', s') \<Rightarrow> write_blocks tr t keys (b + 1) cs auth' s')"

definition usable_blocks :: "bool \<Rightarrow> nat" where
  "usable_blocks is4K = length (filter (\<lambda>b. \<not> is_sector_trailer is4K b) [4..<max_blocks is4K])"

definition cl_write_data :: "classic_tag \<Rightarrow> bytes list \<Rightarrow> 's transport \<Rightarrow> bytes \<Rightarrow> ('s, go_error, unit) action" where
  "cl_write_data t keys tr data s =
     (let p = pad_blocks (tlv_encode data TLVNDEF); need = length p div 16; usable = usable_blocks (clIs4K t)
      in if usable < need
         then (Inl (PlainError (''data too large: need '' @ decimal need @ '' blocks, have '' @ decimal usable
                @ '' usable blocks'')), s)
         else write_blocks tr t keys 4 (chunks 16 p) None s)"

definition cl_is_writable :: "classic_tag \<Rightarrow> bytes list \<Rightarrow> 's transport \<Rightarrow> 's \<Rightarrow> bool \<times> 's" where
  "cl_is_writable t keys tr s =
     (case read_block tr (clUID t) keys 4 None s of (r, auth, s') \<Rightarrow> (isOk r, s'))"

section \<open>Reading and writing one block with a key\<close>

definition wrapped_response_error :: "string \<Rightarrow> apdu_response \<Rightarrow> go_error" where
  "wrapped_response_error t r =
     (case apdu_status_error r of None \<Rightarrow> PlainError (t @ ''%!w(<nil>)'') | Some e \<Rightarrow> Wrapped t e [])"

text \<open>What \<open>ParseAPDUResponse\<close> leaves when it fails: no data and a zero status.\<close>

definition parsed_or_zero :: "bytes \<Rightarrow> apdu_response" where
  "parsed_or_zero resp = (case parse_apdu_response resp of None \<Rightarrow> \<lparr>arData = [], arSW1 = 0, arSW2 = 0\<rparr> | Some r \<Rightarrow> r)"

definition authenticate_with_key :: "classic_tag \<Rightarrow> 's transport \<Rightarrow> nat \<Rightarrow> bytes \<Rightarrow> int \<Rightarrow> ('s, go_error, unit) action" where
  "authenticate_with_key t tr sector key keyType =
     (if length key \<noteq> 6 then failS (PlainError (''key must be 6 bytes, got '' @ decimal (length key)))
      else if keyType \<noteq> 0x60 \<and> keyType \<noteq> 0x61
      then failS (PlainError ''invalid key type: must be KeyTypeA (0x60) or KeyTypeB (0x61)'')
      else let authBlock = (if clIs4K t \<and> 32 \<le> sector then 128 + (sector - 32) * 16 + 15 else sector * 4 + 3)
           in tryS (trSend tr (load_key_apdu 0x00 key)) (\<lambda>x. case x of
                Inl e \<Rightarrow> failS (Wrapped ''failed to load key: '' e [])
              | Inr resp \<Rightarrow> (let r = parsed_or_zero resp
                  in if \<not> is_success r then failS (wrapped_response_error ''failed to load key: '' r)
                     else tryS (trSend tr (mifare_auth_apdu (of_nat authBlock) (of_int keyType) 0x00)) (\<lambda>x. case x of
                       Inl e \<Rightarrow> failS (Wrapped ''authentication failed: '' e [])
                     | Inr resp \<Rightarrow> (let r = parsed_or_zero resp
                         in if is_success r then retS ()
                            else failS (wrapped_response_error
                                   (''authentication failed for sector '' @ decimal sector @ '': '') r))))))"

definition sector_to_absolute_block :: "classic_tag \<Rightarrow> byte \<Rightarrow> byte \<Rightarrow> go_error + nat" where
  "sector_to_absolute_block t sector blk =
     (let s = unat sector; b = unat blk; maxSector = (if clIs4K t then 31 else 15)
      in if clIs4K t \<and> 32 \<le> s
         then if 39 < s then Inl (PlainError (''sector '' @ decimal s @ '' out of range for 4K card (max 39)''))
              else if 15 < b then Inl (PlainError (''block '' @ decimal b @ '' out of range for sector (max 15)''))
              else Inr (128 + (s - 32) * 16 + b)
         else if maxSector < s
         then Inl (PlainError (''sector '' @ decimal s @ '' out of range (max '' @ decimal maxSector @ '')''))
         else if 3 < b then Inl (PlainError (''block '' @ decimal b @ '' out of range for sector (max 3)''))
         else Inr (s * 4 + b))"

definition cl_read :: "classic_tag \<Rightarrow> 's transport \<Rightarrow> byte \<Rightarrow> byte \<Rightarrow> bytes \<Rightarrow> int \<Rightarrow> ('s, go_error, bytes) action" where
  "cl_read t tr sector blk key keyType =
     doS (pureS (sector_to_absolute_block t sector blk)) (\<lambda>n.
     doS (authenticate_with_key t tr (unat sector) key keyType) (\<lambda>_.
     tryS (trSend tr (read_binary_apdu (of_nat n) 16)) (\<lambda>x. case x of
       Inl e \<Rightarrow> failS (Wrapped ''failed to read block: '' e [])
     | Inr resp \<Rightarrow> (case parse_apdu_response resp of
         None \<Rightarrow> failS (PlainError ''response too short'')
       | Some r \<Rightarrow> if is_success r then retS (arData r) else failS (wrapped_response_error ''read failed: '' r)))))"

definition cl_write :: "classic_tag \<Rightarrow> 's transport \<Rightarrow> byte \<Rightarrow> byte \<Rightarrow> bytes \<Rightarrow> bytes \<Rightarrow> int \<Rightarrow> ('s, go_error, unit) action" where
  "cl_write t tr sector blk data key keyType =
     (if length data \<noteq> 16 then failS (PlainError (''data must be exactly 16 bytes, got '' @ decimal (length data)))
      else doS (pureS (sector_to_absolute_block t sector blk)) (\<lambda>n.
        doS (authenticate_with_key t tr (unat sector) key keyType) (\<lambda>_.
        tryS (trSend tr (update_binary_apdu (of_nat n) data)) (\<lambda>x. case x of
          Inl e \<Rightarrow> failS (Wrapped ''failed to write block: '' e [])
        | Inr resp \<Rightarrow> (case parse_apdu_response resp of
            None \<Rightarrow> failS (PlainError ''response too short'')
          | Some r \<Rightarrow> if is_success r then retS () else failS (wrapped_response_error ''write failed: '' r))))))"

section \<open>Formatting\<close>

definition mad_sector_trailer :: bytes where
  "mad_sector_trailer =
     [0xA0, 0xA1, 0xA2, 0xA3, 0xA4, 0xA5, 0x78, 0x77, 0x88, 0xC1, 0xFF, 0xFF, 0xFF, 0xFF, 0xFF, 0xFF]"

definition ndef_sector_trailer :: bytes where
  "ndef_sector_trailer =
     [0xD3, 0xF7, 0xD3, 0xF7, 0xD3, 0xF7, 0x7F, 0x07, 0x88, 0x40, 0xFF, 0xFF, 0xFF, 0xFF, 0xFF, 0xFF]"

definition mad_crc_bit :: "byte \<Rightarrow> byte" where
  "mad_crc_bit crc = (if crc AND 0x80 \<noteq> 0 then push_bit 1 crc XOR 0x1D else push_bit 1 crc)"

definition mad_crc :: "bytes \<Rightarrow> byte" where
  "mad_crc data = foldl (\<lambda>crc b. (mad_crc_bit ^^ 8) (crc XOR b)) 0xC7 data"

definition access_bits_consistent :: "byte \<Rightarrow> byte \<Rightarrow> byte \<Rightarrow> bool" where
  "access_bits_consistent b6 b7 b8 =
     (let c1 = drop_bit 4 b7 AND 0x0F; c2 = b8 AND 0x0F; c3 = drop_bit 4 b8 AND 0x0F
      in b6 AND 0x0F = NOT c1 AND 0x0F \<and> drop_bit 4 b6 AND 0x0F = NOT c2 AND 0x0F \<and> b7 AND 0x0F = NOT c3 AND 0x0F)"

definition trailer_access_condition :: "byte \<Rightarrow> byte \<Rightarrow> byte \<Rightarrow> byte" where
  "trailer_access_condition b6 b7 b8 =
     (let c1 = drop_bit 4 b7 AND 0x0F; c2 = b8 AND 0x0F; c3 = drop_bit 4 b8 AND 0x0F; bt = (\<lambda>n. drop_bit 3 n AND 1)
      in push_bit 2 (bt c1) OR push_bit 1 (bt c2) OR bt c3)"

definition hex3 :: "byte \<Rightarrow> byte \<Rightarrow> byte \<Rightarrow> string" where
  "hex3 a b c = hex_byte a @ '' '' @ hex_byte b @ '' '' @ hex_byte c"

definition validate_ndef_trailer :: "bytes \<Rightarrow> go_error option" where
  "validate_ndef_trailer tr16 =
     (if length tr16 \<noteq> 16 then Some (PlainError (''sector trailer must be 16 bytes, got '' @ decimal (length tr16)))
      else if \<not> access_bits_consistent (tr16 ! 6) (tr16 ! 7) (tr16 ! 8)
      then Some (PlainError (''access bits '' @ hex3 (tr16 ! 6) (tr16 ! 7) (tr16 ! 8)
             @ '' are inconsistent (would invalidate the sector)''))
      else if trailer_access_condition (tr16 ! 6) (tr16 ! 7) (tr16 ! 8) \<noteq> 3
      then Some (PlainError (''access bits '' @ hex3 (tr16 ! 6) (tr16 ! 7) (tr16 ! 8)
             @ '' do not keep the trailer rewritable with Key B (not recoverable)''))
      else None)"

definition mad_block1 :: bytes where
  "mad_block1 =
     (let info = 0x01 # concat (replicate 7 [0x03, 0xE1]); b2 = concat (replicate 8 [0x03, 0xE1])
      in mad_crc (info @ b2) # info)"

definition mad_block2 :: bytes where
  "mad_block2 = concat (replicate 8 [0x03, 0xE1])"

text \<open>Blocks written one after the other, each with the text its error is wrapped in.\<close>

fun write_block_list :: "'s transport \<Rightarrow> string \<Rightarrow> bytes list \<Rightarrow> (nat \<times> bytes \<times> string) list \<Rightarrow> nat option \<Rightarrow> 's
    \<Rightarrow> (go_error + unit) \<times> nat option \<times> 's" where
  "write_block_list tr uid keys [] auth s = (Inr (), auth, s)"
| "write_block_list tr uid keys ((b, d, t) # ws) auth s =
     (case write_block tr uid keys b d auth s of
        (Inl e, auth', s') \<Rightarrow> (Inl (Wrapped t e []), auth', s')
      | (Inr _, auth', s') \<Rightarrow> write_block_list tr uid keys ws auth' s')"

definition write_mad :: "classic_tag \<Rightarrow> bytes list \<Rightarrow> 's transport \<Rightarrow> ('s, go_error, unit) action" where
  "write_mad t keys tr s =
     (case write_block_list tr (clUID t) keys
        [(1, mad_block1, ''write MAD block 1: ''), (2, mad_block2, ''write MAD block 2: ''),
         (3, mad_sector_trailer, ''write MAD sector trailer: '')] None s of (r, auth, s') \<Rightarrow> (r, s'))"

fun preflight :: "classic_tag \<Rightarrow> bytes list \<Rightarrow> 's transport \<Rightarrow> nat list \<Rightarrow> ('s, go_error, unit) action" where
  "preflight t keys tr [] s = (Inr (), s)"
| "preflight t keys tr (sec # secs) s =
     (case authenticate_sector tr (clUID t) sec keys s of
        (Inl e, s') \<Rightarrow> (Inl (Wrapped (''formatNDEF (UID: '' @ clUID t @ ''): sector '' @ decimal sec
            @ '' not accessible, aborting before any write: '') e []), s')
      | (Inr _, s') \<Rightarrow> preflight t keys tr secs s')"

text \<open>What a data sector is given: three blocks of the message, zeros after it, and the trailer.\<close>

definition format_chunk :: "bytes \<Rightarrow> nat \<Rightarrow> bytes" where
  "format_chunk tlv i = (let c = take 16 (drop (16 * i) tlv) in c @ replicate (16 - length c) 0)"

definition format_sector :: "classic_tag \<Rightarrow> bytes \<Rightarrow> nat \<Rightarrow> (nat \<times> bytes \<times> string) list" where
  "format_sector t tlv sec =
     map (\<lambda>b. (sec * 4 + b, format_chunk tlv (3 * (sec - 1) + b),
       ''formatNDEF (UID: '' @ clUID t @ ''): writing block '' @ decimal (sec * 4 + b) @ '': '')) [0..<3]
     @ [(sec * 4 + 3, ndef_sector_trailer,
         ''formatNDEF (UID: '' @ clUID t @ ''): writing trailer for sector '' @ decimal sec @ '': '')]"

definition format_and_write_ndef :: "classic_tag \<Rightarrow> bytes list \<Rightarrow> 's transport \<Rightarrow> bytes \<Rightarrow> ('s, go_error, unit) action" where
  "format_and_write_ndef t keys tr data s =
     (if clIs4K t then (Inl (new_not_supported_error ''ForceInitialize formatting for MIFARE Classic 4K''), s)
      else let tlv = pad_blocks (tlv_encode data TLVNDEF); capacity = 15 * 3 * 16
      in if capacity < length tlv
         then (Inl (new_capacity_exceeded_error ''FormatNDEF'' (clUID t) (length tlv) capacity), s)
         else case validate_ndef_trailer mad_sector_trailer of
           Some e \<Rightarrow> (Inl (Wrapped ''formatNDEF: refusing to write MAD trailer: '' e []), s)
         | None \<Rightarrow> (case validate_ndef_trailer ndef_sector_trailer of
             Some e \<Rightarrow> (Inl (Wrapped ''formatNDEF: refusing to write NDEF trailer: '' e []), s)
           | None \<Rightarrow> (case preflight t keys tr [0..<16] s of
               (Inl e, s1) \<Rightarrow> (Inl e, s1)
             | (Inr _, s1) \<Rightarrow> (case write_mad t keys tr s1 of
                 (Inl e, s2) \<Rightarrow> (Inl (Wrapped (''formatNDEF (UID: '' @ clUID t @ ''): writing MAD: '') e []), s2)
               | (Inr _, s2) \<Rightarrow>
                   (case write_block_list tr (clUID t) keys (concat (map (format_sector t tlv) [1..<16])) None s2 of
                      (r, auth, s3) \<Rightarrow> (r, s3))))))"

definition cl_write_data_with_options :: "classic_tag \<Rightarrow> bytes list \<Rightarrow> 's transport \<Rightarrow> bytes \<Rightarrow> bool \<Rightarrow> ('s, go_error, unit) action" where
  "cl_write_data_with_options t keys tr data forceInitialize =
     (if forceInitialize then format_and_write_ndef t keys tr data else cl_write_data t keys tr data)"

text \<open>The driver as a tag: its state is the configured keys beside the transport's.\<close>

definition on_device :: "(bytes list \<Rightarrow> 's \<Rightarrow> 'a \<times> 's) \<Rightarrow> bytes list \<times> 's \<Rightarrow> 'a \<times> (bytes list \<times> 's)" where
  "on_device f ks = (case ks of (cands, s) \<Rightarrow> let (r, s') = f (keys_to_try cands) s in (r, (cands, s')))"

definition classic_as_tag :: "classic_tag \<Rightarrow> 's transport \<Rightarrow> (bytes list \<times> 's) tag" where
  "classic_as_tag t tr =
     no_ops\<lparr>tgUID := (\<lambda>_. clUID t), tgType := tpName (cl_profile t),
       tgCaps := (\<lambda>_. profile_capabilities (cl_profile t)),
       tgRead := on_device (\<lambda>keys. cl_read_data t keys tr),
       tgWrite := (\<lambda>d. on_device (\<lambda>keys. cl_write_data t keys tr d)),
       tgLock := (\<lambda>s. (Inl (new_not_supported_error ''MIFARE Classic MakeReadOnly''), s)),
       tgTransceive := (\<lambda>d s. (Inl (new_not_supported_error ''Transceive (MIFARE Classic)''), s)),
       tgClassicKeys := Some (\<lambda>keys (cands, s). (set_candidate_keys keys, s)),
       tgWriteInit := Some (\<lambda>d force. on_device (\<lambda>keys. cl_write_data_with_options t keys tr d force))\<rparr>"

end
