(* ===== verification/ClassicCard.thy ===== *)
theory ClassicCard
  imports Classic
begin

text \<open>
  The emulated MIFARE Classic card, \<open>classicEmulator\<close> of \<open>nfc/nfctest/emulator.go\<close>: keys and access
  conditions live in the sector trailers, and a trailer whose access bits contradict themselves
  disables its sector for good.
\<close>

record classic_card =
  ccBlocks :: "bytes list"
  ccLoadedKey :: "bytes option"
  ccAuthed :: "nat option"
  ccAuthedKey :: byte
  ccBricked :: "nat \<Rightarrow> bool"
  ccPresent :: bool
  ccIs4K :: bool
  ccOps :: nat
  ccRemoveAfter :: nat

definition classic_sector_of :: "nat \<Rightarrow> bool \<Rightarrow> nat" where
  "classic_sector_of b is4K = (if is4K \<and> 128 \<le> b then 32 + (b - 128) div 16 else b div 4)"

definition classic_trailer_block :: "nat \<Rightarrow> bool \<Rightarrow> nat" where
  "classic_trailer_block s is4K = (if is4K \<and> 32 \<le> s then 128 + (s - 32) * 16 + 15 else s * 4 + 3)"

definition classic_area_index :: "nat \<Rightarrow> bool \<Rightarrow> nat" where
  "classic_area_index b is4K =
     (let s = classic_sector_of b is4K
      in if is4K \<and> 32 \<le> s
         then let i = b - (128 + (s - 32) * 16) in if i = 15 then 3 else if i div 5 < 3 then i div 5 else 2
         else b mod 4)"

definition transport_trailer :: bytes where
  "transport_trailer = replicate 6 0xFF @ [0xFF, 0x07, 0x80, 0x69] @ replicate 6 0xFF"

definition new_classic_emulator :: classic_card where
  "new_classic_emulator =
     \<lparr>ccBlocks = map (\<lambda>b. if b mod 4 = 3 then transport_trailer else replicate 16 0) [0..<64], ccLoadedKey = None,
      ccAuthed = None, ccAuthedKey = 0, ccBricked = (\<lambda>_. False), ccPresent = True, ccIs4K = False, ccOps = 0,
      ccRemoveAfter = 0\<rparr>"

definition new_classic4k_emulator :: classic_card where
  "new_classic4k_emulator =
     new_classic_emulator\<lparr>ccBlocks := map (\<lambda>b. if b \<in> set (map (\<lambda>s. classic_trailer_block s True) [0..<40])
        then transport_trailer else replicate 16 0) [0..<256], ccIs4K := True\<rparr>"

section \<open>Access conditions\<close>

datatype classic_perm = permNever | permKeyA | permKeyB | permKeyAB

fun perm_allows :: "classic_perm \<Rightarrow> bool \<Rightarrow> bool" where
  "perm_allows permKeyAB keyB = True"
| "perm_allows permKeyA keyB = (\<not> keyB)"
| "perm_allows permKeyB keyB = keyB"
| "perm_allows permNever keyB = False"

definition access_conditions :: "bytes \<Rightarrow> (byte \<times> byte \<times> byte) list option" where
  "access_conditions t =
     (let b6 = t ! 6; b7 = t ! 7; b8 = t ! 8; c1 = drop_bit 4 b7 AND 0x0F; c2 = b8 AND 0x0F; c3 = drop_bit 4 b8 AND 0x0F
      in if b6 AND 0x0F \<noteq> NOT c1 AND 0x0F \<or> drop_bit 4 b6 AND 0x0F \<noteq> NOT c2 AND 0x0F \<or> b7 AND 0x0F \<noteq> NOT c3 AND 0x0F
         then None
         else Some (map (\<lambda>i. (drop_bit i c1 AND 1, drop_bit i c2 AND 1, drop_bit i c3 AND 1)) [0..<4]))"

definition cond_index :: "byte \<times> byte \<times> byte \<Rightarrow> byte" where
  "cond_index c = (case c of (c1, c2, c3) \<Rightarrow> push_bit 2 c1 OR push_bit 1 c2 OR c3)"

definition classic_data_read_perm :: "byte \<Rightarrow> classic_perm" where
  "classic_data_read_perm ci =
     (if ci = 0 \<or> ci = 2 \<or> ci = 4 \<or> ci = 6 \<or> ci = 1 then permKeyAB else if ci = 3 \<or> ci = 5 then permKeyB else permNever)"

definition classic_data_write_perm :: "byte \<Rightarrow> classic_perm" where
  "classic_data_write_perm ci =
     (if ci = 0 then permKeyAB else if ci = 4 \<or> ci = 6 \<or> ci = 3 then permKeyB else permNever)"

definition classic_trailer_write_perm :: "byte \<Rightarrow> classic_perm" where
  "classic_trailer_write_perm ci =
     (if ci = 0 \<or> ci = 1 then permKeyA else if ci = 4 \<or> ci = 3 then permKeyB else permNever)"

definition classic_authenticate :: "nat \<Rightarrow> byte \<Rightarrow> classic_card \<Rightarrow> bool \<times> classic_card" where
  "classic_authenticate blk keyType m =
     (let sec = classic_sector_of blk (ccIs4K m); trb = classic_trailer_block sec (ccIs4K m)
      in if ccLoadedKey m = None \<or> length (ccBlocks m) \<le> trb \<or> ccBricked m sec then (False, m)
         else let stored = (if keyType = 0x61 then slice 10 16 (ccBlocks m ! trb) else slice 0 6 (ccBlocks m ! trb))
              in if ccLoadedKey m = Some stored then (True, m\<lparr>ccAuthed := Some sec, ccAuthedKey := keyType\<rparr>)
                 else (False, m))"

definition is_authed_for :: "nat \<Rightarrow> classic_card \<Rightarrow> bool" where
  "is_authed_for blk m \<longleftrightarrow> ccAuthed m = Some (classic_sector_of blk (ccIs4K m))"

definition trailer_of :: "nat \<Rightarrow> classic_card \<Rightarrow> bytes" where
  "trailer_of blk m = ccBlocks m ! classic_trailer_block (classic_sector_of blk (ccIs4K m)) (ccIs4K m)"

definition trailer_grants :: "bool \<Rightarrow> nat \<Rightarrow> bool \<Rightarrow> bytes \<Rightarrow> bool" where
  "trailer_grants keyB area write t =
     (case access_conditions t of
        None \<Rightarrow> False
      | Some conds \<Rightarrow>
          let ci = cond_index (conds ! area)
          in if area = 3 then write \<longrightarrow> perm_allows (classic_trailer_write_perm ci) keyB
             else if write then perm_allows (classic_data_write_perm ci) keyB
             else perm_allows (classic_data_read_perm ci) keyB)"

definition access_allows :: "nat \<Rightarrow> bool \<Rightarrow> classic_card \<Rightarrow> bool" where
  "access_allows blk write m \<longleftrightarrow> \<not> ccBricked m (classic_sector_of blk (ccIs4K m)) \<and>
     trailer_grants (ccAuthedKey m = 0x61) (classic_area_index blk (ccIs4K m)) write (trailer_of blk m)"

section \<open>Commands\<close>

definition store_block :: "nat \<Rightarrow> bytes \<Rightarrow> classic_card \<Rightarrow> classic_card" where
  "store_block blk d m =
     (let m = m\<lparr>ccBlocks := (ccBlocks m)[blk := d]\<rparr>; sec = classic_sector_of blk (ccIs4K m)
      in if blk = classic_trailer_block sec (ccIs4K m) \<and> access_conditions d = None
         then m\<lparr>ccBricked := (ccBricked m)(sec := True)\<rparr> else m)"

definition classic_command :: "bytes \<Rightarrow> classic_card \<Rightarrow> bytes \<times> classic_card" where
  "classic_command cmd m =
     (if length cmd < 5 \<or> cmd ! 0 \<noteq> 0xFF then (emu_fail, m)
      else if cmd ! 1 = 0x82
      then let lc = unat (cmd ! 4)
           in if length cmd < 5 + lc then (emu_fail, m)
              else ([0x90, 0x00], m\<lparr>ccLoadedKey := (if lc = 0 then None else Some (slice 5 (5 + lc) cmd))\<rparr>)
      else if cmd ! 1 = 0x86
      then if length cmd < 10 then (emu_fail, m)
           else let (ok, m) = classic_authenticate (unat (cmd ! 7)) (cmd ! 8) m
                in (if ok then [0x90, 0x00] else emu_fail, m)
      else if cmd ! 1 = 0xB0
      then let blk = unat (cmd ! 3)
           in if length (ccBlocks m) \<le> blk \<or> \<not> is_authed_for blk m then (emu_fail, m)
              else if \<not> access_allows blk False m then (emu_fail, m)
              else (ccBlocks m ! blk @ [0x90, 0x00], m)
      else if cmd ! 1 = 0xD6
      then let blk = unat (cmd ! 3); lc = unat (cmd ! 4)
           in if lc \<noteq> 16 \<or> length cmd < 5 + lc \<or> blk = 0 \<or> length (ccBlocks m) \<le> blk \<or> \<not> is_authed_for blk m
              then (emu_fail, m)
              else if \<not> access_allows blk True m then (emu_fail, m)
              else ([0x90, 0x00], store_block blk (slice 5 (5 + lc) cmd) m)
      else (emu_fail, m))"

definition classic_transceive :: "bytes \<Rightarrow> (classic_card, go_error, bytes) action" where
  "classic_transceive cmd m =
     (let m = m\<lparr>ccOps := ccOps m + 1\<rparr>
      in if 0 < ccRemoveAfter m \<and> ccRemoveAfter m < ccOps m
         then (Inl (emu_removed (ccRemoveAfter m)), m\<lparr>ccPresent := False\<rparr>)
         else let (r, m) = classic_command cmd m in (Inr r, m))"

definition classic_transport :: "classic_card transport" where
  "classic_transport = \<lparr>trSend = classic_transceive, trPresent = ccPresent\<rparr>"

end
