(* ===== verification/ClassicSafe.thy ===== *)
theory ClassicSafe
  imports ClassicCard PageTagsOnCard
begin

text \<open>
  What the MIFARE Classic driver can do to a card at all: whatever the card, its keys and access
  conditions and wherever it leaves the field, a message write changes data blocks only and a format
  writes only sector trailers that stay valid and rewritable.
\<close>

section \<open>The order of the data blocks\<close>

definition data_blocks :: "bool \<Rightarrow> nat \<Rightarrow> nat list" where
  "data_blocks is4K b = filter (\<lambda>i. \<not> is_sector_trailer is4K i) [b..<max_blocks is4K]"

lemma data_blocks_next:
  "data_blocks is4K b = d # ds \<Longrightarrow> next_data_block is4K b = d \<and> ds = data_blocks is4K (d + 1)"
proof (induction is4K b rule: next_data_block.induct)
  case (1 is4K b)
  have b: "b < max_blocks is4K" using "1.prems" by (rule contrapos_pp) (simp add: data_blocks_def)
  then have u: "[b..<max_blocks is4K] = b # [b + 1..<max_blocks is4K]" by (simp add: upt_conv_Cons)
  show ?case
  proof (cases "is_sector_trailer is4K b")
    case True
    then show ?thesis
      using "1.IH" [OF True] "1.prems" by (simp add: data_blocks_def u next_data_block.simps [of is4K b])
  next
    case False
    then have "b = d" "ds = data_blocks is4K (b + 1)" using "1.prems" by (auto simp: data_blocks_def u)
    then show ?thesis using False by (simp add: next_data_block.simps [of is4K d])
  qed
qed

lemma data_blocks_at:
  "b \<in> set (data_blocks is4K a) \<Longrightarrow> a \<le> b \<and> b < max_blocks is4K \<and> \<not> is_sector_trailer is4K b"
  by (auto simp: data_blocks_def)

lemma data_blocks_distinct: "distinct (data_blocks is4K a)"
  by (simp add: data_blocks_def)

definition block_text :: "nat \<Rightarrow> string" where
  "block_text b = ''failed to write block '' @ decimal b @ '': ''"

lemma write_blocks_list:
  "length cs \<le> length (data_blocks (clIs4K t) b) \<Longrightarrow>
   write_blocks tr t keys b cs auth s =
     (case write_block_list tr (clUID t) keys (map (\<lambda>(b, c). (b, c, block_text b)) (zip (data_blocks (clIs4K t) b) cs)) auth s
      of (r, a, s') \<Rightarrow> (r, s'))"
proof (induction cs arbitrary: b auth s)
  case (Cons c cs)
  then obtain d ds where d: "data_blocks (clIs4K t) b = d # ds" by (cases "data_blocks (clIs4K t) b") auto
  note n = data_blocks_next [OF d]
  have l: "length cs \<le> length (data_blocks (clIs4K t) (d + 1))" using Cons.prems d n by simp
  show ?case
    using Cons.IH [OF l] n by (simp add: d block_text_def split: prod.split sum.split)
qed simp

lemma read_blocks_filter:
  "read_blocks tr t keys bs acc auth s = read_blocks tr t keys (filter (\<lambda>b. \<not> is_sector_trailer (clIs4K t) b) bs) acc auth s"
  by (induction tr t keys bs acc auth s rule: read_blocks.induct) (auto split: prod.split sum.split)

lemma pad_blocks_length: "16 dvd length (pad_blocks p)" "length (pad_blocks p) div 16 = (length p + 15) div 16"
proof -
  let ?n = "length p"
  have "n + (16 - n mod 16) mod 16 = 16 * ((n + 15) div 16)" for n :: nat
  proof -
    obtain q r where n: "n = 16 * q + r" "r < 16" using mod_less_divisor [of 16 n] by (metis mult_div_mod_eq zero_less_numeral)
    show ?thesis
    proof (cases "r = 0")
      case True
      then show ?thesis using n by simp
    next
      case False
      have "(r + 15) div 16 = 1" using False n(2) by (intro div_nat_eqI) auto
      then have "(16 * q + r + 15) div 16 = q + 1" by (simp add: add.assoc)
      then show ?thesis using False n by simp
    qed
  qed
  then have e: "length (pad_blocks p) = 16 * ((?n + 15) div 16)" by (simp add: pad_blocks_def)
  show "16 dvd length (pad_blocks p)" "length (pad_blocks p) div 16 = (?n + 15) div 16" unfolding e by simp_all
qed

lemma message_chunks:
  "length (chunks 16 (pad_blocks p)) = length (pad_blocks p) div 16" "\<forall>c \<in> set (chunks 16 (pad_blocks p)). length c = 16"
  using chunks_dvd [of 16, OF _ pad_blocks_length(1)] by auto

section \<open>What every exchange keeps\<close>

locale classic_io =
  fixes tr :: "'s transport" and I :: "'s \<Rightarrow> bool" and W :: "nat \<Rightarrow> bytes \<Rightarrow> bool"
  assumes load: "I s \<Longrightarrow> I (snd (trSend tr (load_key_apdu 0x00 k) s))"
    and auth: "I s \<Longrightarrow> I (snd (trSend tr (mifare_auth_apdu p kt 0x00) s))"
    and read: "I s \<Longrightarrow> I (snd (trSend tr (read_binary_apdu p 16) s))"
    and "write": "W b d \<Longrightarrow> length d = 16 \<Longrightarrow> I s \<Longrightarrow> I (snd (trSend tr (update_binary_apdu (of_nat b) d) s))"
begin

lemma authenticate_sector_keeps: "I s \<Longrightarrow> I (snd (authenticate_sector tr uid sec keys s))"
proof (induction keys arbitrary: s)
  case (Cons k keys)
  obtain x s1 where x: "trSend tr (load_key_apdu 0x00 k) s = (x, s1)" by fastforce
  obtain y s2 where y: "trSend tr (mifare_auth_apdu (of_nat (sec * 4 + 3)) 0x60 0x00) s1 = (y, s2)" by fastforce
  obtain z s3 where z: "trSend tr (mifare_auth_apdu (of_nat (sec * 4 + 3)) 0x61 0x00) s2 = (z, s3)" by fastforce
  have i: "I s1" "I s2" "I s3"
    using load [OF Cons.prems, of k] auth [of s1] auth [of s2] x y z by (metis snd_conv)+
  note st = authenticate_sector.simps(2) [of tr uid sec k keys s] x y z prod.case sum.case
  show ?case
    by (cases x; cases y; cases z; simp only: st split: if_split; use Cons.IH i in simp)
qed simp

lemma with_sector_keeps: "I s \<Longrightarrow> with_sector tr uid keys b a s = (r, a', s') \<Longrightarrow> I s'"
  using authenticate_sector_keeps [of s uid "b div 4" keys]
  by (auto simp: with_sector_def split: if_splits prod.splits sum.splits)

lemma read_block_keeps:
  assumes "I s" "read_block tr uid keys b a s = (r, a', s')"
  shows "I s'"
proof -
  obtain x a1 s1 where x: "with_sector tr uid keys b a s = (x, a1, s1)" by (metis prod_cases3)
  have i: "I s1" by (rule with_sector_keeps [OF assms(1) x])
  obtain y s2 where y: "trSend tr (read_binary_apdu (of_nat b) 16) s1 = (y, s2)" by fastforce
  have "I s2" using read [OF i, of "of_nat b"] y by simp
  with i show ?thesis using assms(2)
    by (auto simp: read_block_def x y split: sum.splits option.splits if_splits)
qed

lemma write_block_keeps:
  assumes "I s" "W b d" "write_block tr uid keys b d a s = (r, a', s')"
  shows "I s'"
proof (cases "length d = 16")
  case True
  obtain x a1 s1 where x: "with_sector tr uid keys b a s = (x, a1, s1)" by (metis prod_cases3)
  have i: "I s1" by (rule with_sector_keeps [OF assms(1) x])
  obtain y s2 where y: "trSend tr (update_binary_apdu (of_nat b) d) s1 = (y, s2)" by fastforce
  have "I s2" using "write" [OF assms(2) True i] y by simp
  with i show ?thesis using assms(3) True
    by (auto simp: write_block_def x y split: sum.splits option.splits if_splits)
next
  case False
  then show ?thesis using assms by (simp add: write_block_def)
qed

lemma write_block_list_keeps:
  "I s \<Longrightarrow> \<forall>(b, d, e) \<in> set ws. W b d \<Longrightarrow> write_block_list tr uid keys ws a s = (r, a', s') \<Longrightarrow> I s'"
proof (induction ws arbitrary: a s)
  case (Cons w ws)
  obtain b d e where w: "w = (b, d, e)" by (metis prod_cases3)
  obtain x a1 s1 where x: "write_block tr uid keys b d a s = (x, a1, s1)" by (metis prod_cases3)
  have "W b d" using Cons.prems(2) w by simp
  then have "I s1" by (rule write_block_keeps [OF Cons.prems(1) _ x])
  then show ?case using Cons w by (cases x) (auto simp: x)
qed simp

lemma read_blocks_keeps: "I s \<Longrightarrow> I (snd (read_blocks tr t keys bs acc a s))"
proof (induction bs arbitrary: acc a s)
  case (Cons b bs)
  obtain x a1 s1 where x: "read_block tr (clUID t) keys b a s = (x, a1, s1)" by (metis prod_cases3)
  then have "I s1" using Cons.prems read_block_keeps by blast
  then show ?case using Cons by (auto simp: x split: sum.split)
qed simp

lemma preflight_keeps: "I s \<Longrightarrow> I (snd (preflight t keys tr secs s))"
proof (induction secs arbitrary: s)
  case (Cons sec secs)
  obtain x s1 where x: "authenticate_sector tr (clUID t) sec keys s = (x, s1)" by fastforce
  then have "I s1" using authenticate_sector_keeps [OF Cons.prems, of "clUID t" sec keys] by simp
  then show ?case using Cons.IH by (simp add: x split: sum.split)
qed simp

lemma write_data_keeps:
  assumes "I s" "\<And>b d. b \<in> set (data_blocks (clIs4K t) 4) \<Longrightarrow> length d = 16 \<Longrightarrow> W b d"
  shows "I (snd (cl_write_data t keys tr x s))"
proof -
  let ?cs = "chunks 16 (pad_blocks (tlv_encode x TLVNDEF))"
  show ?thesis
  proof (cases "usable_blocks (clIs4K t) < length (pad_blocks (tlv_encode x TLVNDEF)) div 16")
    case True
    then show ?thesis using assms(1) by (simp add: cl_write_data_def Let_def)
  next
    case False
    note cs = message_chunks [of "tlv_encode x TLVNDEF"]
    have l: "length ?cs \<le> length (data_blocks (clIs4K t) 4)"
      using cs False by (simp add: usable_blocks_def data_blocks_def)
    have w: "\<forall>(b, d, e) \<in> set (map (\<lambda>(b, c). (b, c, block_text b)) (zip (data_blocks (clIs4K t) 4) ?cs)). W b d"
      using assms(2) cs(2) by (auto dest: set_zip_leftD set_zip_rightD)
    show ?thesis
      using write_block_list_keeps [OF assms(1) w] False
      by (simp add: cl_write_data_def Let_def write_blocks_list [OF l] split: prod.split)
  qed
qed

lemma format_keeps:
  assumes "I s" "W 1 mad_block1" "W 2 mad_block2" "W 3 mad_sector_trailer"
    and "\<And>sec b d. 1 \<le> sec \<Longrightarrow> sec < 16 \<Longrightarrow> b < 3 \<Longrightarrow> W (sec * 4 + b) d"
    and "\<And>sec. 1 \<le> sec \<Longrightarrow> sec < 16 \<Longrightarrow> W (sec * 4 + 3) ndef_sector_trailer"
  shows "I (snd (format_and_write_ndef t keys tr x s))"
proof -
  let ?tlv = "pad_blocks (tlv_encode x TLVNDEF)"
  let ?ws = "concat (map (format_sector t ?tlv) [1..<16])"
  obtain p s1 where p: "preflight t keys tr [0..<16] s = (p, s1)" by fastforce
  have i1: "I s1" using preflight_keeps [OF assms(1)] p by (metis snd_conv)
  obtain q s2 where q: "write_mad t keys tr s1 = (q, s2)" by fastforce
  have i2: "I s2"
  proof -
    let ?ms = "[(1, mad_block1, ''write MAD block 1: ''), (2, mad_block2, ''write MAD block 2: ''),
         (3, mad_sector_trailer, ''write MAD sector trailer: '')]"
    obtain x a' s' where x: "write_block_list tr (clUID t) keys ?ms None s1 = (x, a', s')" by (metis prod_cases3)
    have "I s'" by (rule write_block_list_keeps [OF i1 _ x]) (use assms(2-4) in simp)
    moreover have "s' = s2" using q x by (simp add: write_mad_def del: One_nat_def write_block_list.simps)
    ultimately show ?thesis by simp
  qed
  obtain r a s3 where r: "write_block_list tr (clUID t) keys ?ws None s2 = (r, a, s3)" by (metis prod_cases3)
  have "\<forall>(b, d, e) \<in> set ?ws. W b d" using assms(5,6) by (auto simp: format_sector_def)
  then have i3: "I s3" using write_block_list_keeps [OF i2 _ r] by blast
  show ?thesis
    using assms(1) i1 i2 i3
    by (auto simp: format_and_write_ndef_def Let_def p q r split: option.split sum.split simp del: upt.simps One_nat_def)
qed

end

section \<open>On the emulated card\<close>

lemma last_of_group: "(c :: nat) = c div n * n + (n - 1) \<longleftrightarrow> (c + 1) mod n = 0" if "0 < n"
proof -
  have "c = c div n * n + c mod n" by simp
  then have "c = c div n * n + (n - 1) \<longleftrightarrow> c mod n = n - 1" by linarith
  then show ?thesis using that mod_Suc [of c n] mod_less_divisor [of n c] by (auto split: if_splits)
qed

lemma trailer_block_iff:
  "b = classic_trailer_block (classic_sector_of b k) k \<longleftrightarrow> is_sector_trailer k b"
proof (cases "k \<and> 128 \<le> b")
  case True
  obtain c where c: "b = 128 + c" using True by (metis le_iff_add)
  have "(b + 1) mod 16 = (c + 1 + 8 * 16) mod 16" by (simp add: c)
  then have m: "(b + 1) mod 16 = (c + 1) mod 16" by (simp only: mod_mult_self1)
  have "b = classic_trailer_block (classic_sector_of b k) k \<longleftrightarrow> c = c div 16 * 16 + (16 - 1)"
    using True by (simp add: classic_trailer_block_def classic_sector_of_def c add.commute)
  then show ?thesis using True m last_of_group [of 16 c] by (simp add: is_sector_trailer_def)
next
  case False
  then have "\<not> (k \<and> 32 \<le> b div 4)" by auto
  then have "b = classic_trailer_block (classic_sector_of b k) k \<longleftrightarrow> b = b div 4 * 4 + (4 - 1)"
    using False by (auto simp: classic_trailer_block_def classic_sector_of_def)
  moreover have "is_sector_trailer k b \<longleftrightarrow> (b + 1) mod 4 = 0" using False by (auto simp: is_sector_trailer_def)
  ultimately show ?thesis using last_of_group [of 4 b] by simp
qed

text \<open>Only an update changes the card's memory, and only the block it names.\<close>

definition same_memory :: "classic_card \<Rightarrow> classic_card \<Rightarrow> bool" where
  "same_memory m m' \<longleftrightarrow> ccBlocks m' = ccBlocks m \<and> ccBricked m' = ccBricked m \<and> ccIs4K m' = ccIs4K m"

lemma authenticate_memory: "same_memory m (snd (classic_authenticate b kt m))"
  by (simp add: classic_authenticate_def same_memory_def Let_def)

lemma classic_command_memory:
  assumes "length cmd < 5 \<or> cmd ! 1 \<noteq> 0xD6"
  shows "same_memory m (snd (classic_command cmd m))"
proof -
  have r: "same_memory m m" "same_memory m (m\<lparr>ccLoadedKey := k\<rparr>)" for k by (simp_all add: same_memory_def)
  have a: "same_memory m (snd (let (ok, m) = classic_authenticate b kt m in (if ok then [0x90, 0x00] else emu_fail, m)))" for b kt
    using authenticate_memory [of m b kt] by (simp add: Let_def split_def)
  show ?thesis
    using assms by (elim disjE) (use r a in \<open>simp_all add: classic_command_def Let_def\<close>)
qed

lemma command_memory:
  assumes "length cmd < 5 \<or> cmd ! 1 \<noteq> 0xD6"
  shows "ccBlocks (snd (classic_transceive cmd m)) = ccBlocks m \<and> ccBricked (snd (classic_transceive cmd m)) = ccBricked m \<and>
    ccIs4K (snd (classic_transceive cmd m)) = ccIs4K m"
  using classic_command_memory [OF assms, of "m\<lparr>ccOps := ccOps m + 1\<rparr>"]
  by (simp add: classic_transceive_def same_memory_def Let_def split_def)

lemma update_memory:
  assumes "length d = 16" "b < 256"
  shows "(\<exists>p. snd (classic_transceive (update_binary_apdu (of_nat b) d) m) = m\<lparr>ccOps := ccOps m + 1, ccPresent := p\<rparr>)
    \<or> (b \<noteq> 0 \<and> b < length (ccBlocks m) \<and>
       snd (classic_transceive (update_binary_apdu (of_nat b) d) m) = store_block b d (m\<lparr>ccOps := ccOps m + 1\<rparr>))"
proof -
  have p: "unat (of_nat b :: byte) = b" using assms by (simp add: unat_of_nat)
  have c: "update_binary_apdu (of_nat b) d = [0xFF, 0xD6, 0x00, of_nat b, 16] @ d"
    using assms(1) by (auto simp: update_binary_apdu_def build_apdu_def byteN_def)
  have s: "slice 5 21 ([0xFF, 0xD6, 0x00, of_nat b, 16] @ d) = d" using assms(1) by (simp add: slice_def)
  let ?m = "m\<lparr>ccOps := ccOps m + 1\<rparr>"
  let ?s = "snd (classic_transceive (update_binary_apdu (of_nat b) d) m)"
  have "?s = ?m \<or> ?s = ?m\<lparr>ccPresent := False\<rparr> \<or> (b \<noteq> 0 \<and> b < length (ccBlocks m) \<and> ?s = store_block b d ?m)"
    unfolding c using s assms(1) by (simp add: classic_transceive_def classic_command_def Let_def p del: One_nat_def)
  moreover have "?m = m\<lparr>ccOps := ccOps m + 1, ccPresent := ccPresent m\<rparr>" by simp
  ultimately show ?thesis by metis
qed

text \<open>The memory of a card but for a set of blocks, and whether its sectors work, as on another card.\<close>

definition agrees_except :: "nat set \<Rightarrow> classic_card \<Rightarrow> classic_card \<Rightarrow> bool" where
  "agrees_except B m0 m \<longleftrightarrow> ccIs4K m = ccIs4K m0 \<and> ccBricked m = ccBricked m0 \<and> length (ccBlocks m) = length (ccBlocks m0) \<and>
     (\<forall>b. b \<notin> B \<longrightarrow> ccBlocks m ! b = ccBlocks m0 ! b)"

lemma agrees_store:
  assumes "agrees_except B m0 m" "b \<in> B" "\<not> is_sector_trailer (ccIs4K m) b \<or> access_conditions d \<noteq> None"
  shows "agrees_except B m0 (store_block b d m)"
proof -
  have "(ccBlocks m)[b := d] ! q = ccBlocks m ! q" if "q \<notin> B" for q
    using assms(2) that by (intro nth_list_update_neq) auto
  then show ?thesis
    using assms(1,3) trailer_block_iff [of b "ccIs4K m"] by (auto simp: agrees_except_def store_block_def Let_def)
qed

lemma agrees_other:
  assumes "agrees_except B m0 m" "length cmd < 5 \<or> cmd ! 1 \<noteq> 0xD6"
  shows "agrees_except B m0 (snd (classic_transceive cmd m))"
  using assms(1) command_memory [OF assms(2)] by (simp add: agrees_except_def)

lemma reader_commands:
  "length (load_key_apdu 0x00 k) < 5 \<or> load_key_apdu 0x00 k ! 1 \<noteq> 0xD6"
  "mifare_auth_apdu p kt 0x00 ! 1 \<noteq> 0xD6" "read_binary_apdu p 16 ! 1 \<noteq> 0xD6"
  by (auto simp: load_key_apdu_def mifare_auth_apdu_def read_binary_apdu_def build_apdu_def)

definition may_write :: "bool \<Rightarrow> nat set \<Rightarrow> nat \<Rightarrow> bytes \<Rightarrow> bool" where
  "may_write is4K B b d \<longleftrightarrow> b < 256 \<and> b \<in> B \<and> (\<not> is_sector_trailer is4K b \<or> access_conditions d \<noteq> None)"

lemma agrees_update:
  assumes "agrees_except B m0 m" "may_write (ccIs4K m0) B b d" "length d = 16"
  shows "agrees_except B m0 (snd (classic_transceive (update_binary_apdu (of_nat b) d) m))"
proof -
  have k: "ccIs4K m = ccIs4K m0" using assms(1) by (simp add: agrees_except_def)
  have tick: "agrees_except B m0 (m\<lparr>ccOps := n, ccPresent := p\<rparr>) = agrees_except B m0 m" for n p
    by (simp add: agrees_except_def)
  have "agrees_except B m0 (m\<lparr>ccOps := ccOps m + 1\<rparr>)" using assms(1) by (simp add: agrees_except_def)
  then have "agrees_except B m0 (store_block b d (m\<lparr>ccOps := ccOps m + 1\<rparr>))"
    by (rule agrees_store) (use assms(2) k in \<open>auto simp: may_write_def\<close>)
  then show ?thesis
    using update_memory [OF assms(3), of b m] assms(1,2) tick by (auto simp: may_write_def)
qed

interpretation classic_mem: classic_io classic_transport "agrees_except B m0" "may_write (ccIs4K m0) B" for B m0
  by unfold_locales (auto simp: classic_transport_def intro: agrees_update agrees_other [OF _ reader_commands(1)]
      agrees_other [OF _ disjI2 [OF reader_commands(2)]] agrees_other [OF _ disjI2 [OF reader_commands(3)]])

section \<open>Writing and formatting are safe\<close>

lemma write_data_safe:
  assumes "clIs4K t = ccIs4K m"
  shows "agrees_except (set (data_blocks (ccIs4K m) 4)) m (snd (cl_write_data t keys classic_transport x m))"
proof (rule classic_mem.write_data_keeps)
  show "agrees_except (set (data_blocks (ccIs4K m) 4)) m m" by (simp add: agrees_except_def)
  fix b d assume "b \<in> set (data_blocks (clIs4K t) 4)"
  from data_blocks_at [OF this] have "b < max_blocks (ccIs4K m)" "\<not> is_sector_trailer (ccIs4K m) b" using assms by simp_all
  then show "may_write (ccIs4K m) (set (data_blocks (ccIs4K m) 4)) b d"
    using \<open>b \<in> set (data_blocks (clIs4K t) 4)\<close> assms by (auto simp: may_write_def max_blocks_def split: if_splits)
qed

text \<open>
  A format: block 0 is kept, no sector is disabled, and every sector trailer is as it was or the one
  that formatting gives that sector.
\<close>

definition format_trailer :: "nat \<Rightarrow> bytes" where
  "format_trailer sec = (if sec = 0 then mad_sector_trailer else ndef_sector_trailer)"

definition partly_formatted :: "classic_card \<Rightarrow> classic_card \<Rightarrow> bool" where
  "partly_formatted m0 m \<longleftrightarrow> agrees_except {1..<64} m0 m \<and>
     (\<forall>sec < 16. ccBlocks m ! (sec * 4 + 3) \<in> {ccBlocks m0 ! (sec * 4 + 3), format_trailer sec})"

definition format_write :: "nat \<Rightarrow> bytes \<Rightarrow> bool" where
  "format_write b d \<longleftrightarrow> 1 \<le> b \<and> b < 64 \<and> (b mod 4 = 3 \<longrightarrow> d = format_trailer (b div 4))"

lemma format_trailers_valid:
  "access_conditions mad_sector_trailer = Some [(1, 0, 0), (1, 0, 0), (1, 0, 0), (0, 1, 1)]"
  "access_conditions ndef_sector_trailer = Some [(0, 0, 0), (0, 0, 0), (0, 0, 0), (0, 1, 1)]"
  "validate_ndef_trailer mad_sector_trailer = None" "validate_ndef_trailer ndef_sector_trailer = None"
  "length mad_sector_trailer = 16" "length ndef_sector_trailer = 16"
  by code_simp+

lemma partly_formatted_update:
  assumes "partly_formatted m0 m" "format_write b d" "length d = 16" "\<not> ccIs4K m0"
  shows "partly_formatted m0 (snd (classic_transceive (update_binary_apdu (of_nat b) d) m))"
proof -
  let ?m = "snd (classic_transceive (update_binary_apdu (of_nat b) d) m)"
  have a: "agrees_except {1..<64} m0 m" using assms(1) by (simp add: partly_formatted_def)
  have "b mod 4 = 3 \<longrightarrow> access_conditions d \<noteq> None"
    using assms(2) format_trailers_valid(1,2) by (auto simp: format_write_def format_trailer_def)
  moreover have "(b + 1) mod 4 = 0 \<longrightarrow> b mod 4 = 3" by presburger
  ultimately have w: "may_write (ccIs4K m0) {1..<64} b d"
    using assms(2,4) by (auto simp: may_write_def format_write_def is_sector_trailer_def)
  have "ccBlocks ?m ! (sec * 4 + 3) \<in> {ccBlocks m ! (sec * 4 + 3), format_trailer sec}" if "sec < 16" for sec
  proof -
    consider p where "?m = m\<lparr>ccOps := ccOps m + 1, ccPresent := p\<rparr>"
      | "b < length (ccBlocks m)" "?m = store_block b d (m\<lparr>ccOps := ccOps m + 1\<rparr>)"
      using update_memory [OF assms(3), of b m] assms(2) by (auto simp: format_write_def)
    then show ?thesis
    proof cases
      case 2
      have "ccBlocks ?m = (ccBlocks m)[b := d]" by (simp add: 2 store_block_def Let_def)
      moreover have "d = format_trailer sec" if "b = sec * 4 + 3" using assms(2) that by (simp add: format_write_def)
      ultimately show ?thesis using 2(1) by (cases "b = sec * 4 + 3") auto
    qed simp
  qed
  then show ?thesis
    using agrees_update [OF a w assms(3)] assms(1) by (fastforce simp: partly_formatted_def)
qed

lemma partly_formatted_other:
  "partly_formatted m0 m \<Longrightarrow> length cmd < 5 \<or> cmd ! 1 \<noteq> 0xD6 \<Longrightarrow> partly_formatted m0 (snd (classic_transceive cmd m))"
  using agrees_other command_memory by (simp add: partly_formatted_def)

interpretation classic_format: classic_io classic_transport "\<lambda>m. \<not> ccIs4K m0 \<and> partly_formatted m0 m" format_write for m0
  by unfold_locales (auto simp: classic_transport_def intro: partly_formatted_update partly_formatted_other [OF _ reader_commands(1)]
      partly_formatted_other [OF _ disjI2 [OF reader_commands(2)]] partly_formatted_other [OF _ disjI2 [OF reader_commands(3)]])

lemma format_safe:
  assumes "\<not> ccIs4K m"
  shows "partly_formatted m (snd (format_and_write_ndef t keys classic_transport x m))"
proof -
  have "\<not> ccIs4K m \<and> partly_formatted m (snd (format_and_write_ndef t keys classic_transport x m))"
  proof (rule classic_format.format_keeps)
    show "\<not> ccIs4K m \<and> partly_formatted m m" using assms by (simp add: partly_formatted_def agrees_except_def)
  qed (auto simp: format_write_def format_trailer_def)
  then show ?thesis ..
qed

end
