(* ===== verification/ClassicOnCard.thy ===== *)
theory ClassicOnCard
  imports ClassicSafe
begin

text \<open>
  The MIFARE Classic driver on the emulated card: what a sector's keys and access conditions grant is
  what succeeds, a message written is read back, and a format leaves a card that holds its message.
\<close>

section \<open>One sector\<close>

text \<open>The key type under which the driver's keys open a sector, if they do.\<close>

fun opens_with :: "bytes list \<Rightarrow> bytes \<Rightarrow> byte option" where
  "opens_with [] t = None"
| "opens_with (k # ks) t = (if slice 0 6 t = k then Some 0x60 else if slice 10 16 t = k then Some 0x61 else opens_with ks t)"

definition cl_wf :: "classic_card \<Rightarrow> bool" where
  "cl_wf m \<longleftrightarrow> length (ccBlocks m) = max_blocks (ccIs4K m) \<and> (\<forall>d \<in> set (ccBlocks m). length d = 16) \<and>
     ccRemoveAfter m = 0 \<and> ccPresent m"

definition cl_keys_ok :: "bytes list \<Rightarrow> bool" where
  "cl_keys_ok keys \<longleftrightarrow> (\<forall>k \<in> set keys. length k = 6)"

text \<open>The same card, but for what the reader has loaded and opened.\<close>

definition cl_same :: "classic_card \<Rightarrow> classic_card \<Rightarrow> bool" where
  "cl_same m m' \<longleftrightarrow> ccBlocks m' = ccBlocks m \<and> ccBricked m' = ccBricked m \<and> ccIs4K m' = ccIs4K m \<and>
     ccRemoveAfter m' = ccRemoveAfter m \<and> ccPresent m' = ccPresent m"

lemma cl_same_refl [simp]: "cl_same m m"
  by (simp add: cl_same_def)

lemma cl_same_trans: "cl_same a b \<Longrightarrow> cl_same b c \<Longrightarrow> cl_same a c"
  by (simp add: cl_same_def)

lemma cl_same_keeps:
  assumes "cl_same m m'"
  shows "cl_wf m' = cl_wf m" "trailer_of b m' = trailer_of b m" "ccIs4K m' = ccIs4K m" "ccBlocks m' = ccBlocks m"
    "ccBricked m' = ccBricked m"
  using assms by (simp_all add: cl_same_def cl_wf_def trailer_of_def)

definition granted :: "bytes list \<Rightarrow> bool \<Rightarrow> nat \<Rightarrow> classic_card \<Rightarrow> bool" where
  "granted keys w b m \<longleftrightarrow> \<not> ccBricked m (classic_sector_of b (ccIs4K m)) \<and>
     (\<exists>kt. opens_with keys (trailer_of b m) = Some kt \<and>
        trailer_grants (kt = 0x61) (classic_area_index b (ccIs4K m)) w (trailer_of b m))"

definition opened_for :: "bytes list \<Rightarrow> nat \<Rightarrow> classic_card \<Rightarrow> bool" where
  "opened_for keys b m \<longleftrightarrow> is_authed_for b m \<and> opens_with keys (trailer_of b m) = Some (ccAuthedKey m)"

lemma group_end: "(c :: nat) < j * n \<Longrightarrow> c div n * n + (n - 1) < j * n"
proof -
  assume c: "c < j * n"
  then have "c div n < j" by (simp add: less_mult_imp_div_less)
  then have "(c div n + 1) * n \<le> j * n" by (intro mult_le_mono1) simp
  moreover have "0 < n" using c by (cases n) auto
  ultimately show ?thesis by (simp add: add_mult_distrib)
qed

lemma sector_of_group: "classic_sector_of (b div 4 * 4 + 3) k = classic_sector_of b k"
proof (cases "k \<and> 128 \<le> b")
  case True
  obtain c where c: "b = 128 + c" using True by (metis le_iff_add)
  have "x div 16 = x div 4 div 4" for x :: nat using div_mult2_eq [of x 4 4] by simp
  then have "(c div 4 * 4 + 3) div 16 = c div 16" by simp
  moreover have "(128 + c) div 4 = 32 + c div 4" by presburger
  then have "b div 4 * 4 + 3 = 128 + (c div 4 * 4 + 3)" by (simp add: c)
  ultimately show ?thesis using True by (simp add: classic_sector_of_def c)
next
  case False
  then have "k \<Longrightarrow> b div 4 * 4 + 3 < 128" using group_end [of b 32 4] by simp
  then show ?thesis using False by (auto simp: classic_sector_of_def)
qed

lemma trailer_in_card:
  assumes "b < max_blocks k"
  shows "classic_trailer_block (classic_sector_of b k) k < max_blocks k"
proof (cases "k \<and> 128 \<le> b")
  case True
  then have "b - 128 < 8 * 16" using assms by (simp add: max_blocks_def)
  from group_end [OF this] show ?thesis
    using True by (simp add: classic_trailer_block_def classic_sector_of_def max_blocks_def)
next
  case False
  then have "b < (if k then 32 else 16) * 4" "\<not> (k \<and> 32 \<le> b div 4)" using assms by (auto simp: max_blocks_def)
  with group_end [OF this(1)] show ?thesis
    using False by (auto simp: classic_trailer_block_def classic_sector_of_def max_blocks_def split: if_splits)
qed

text \<open>The two reader commands of an authentication.\<close>

lemma load_key_card:
  assumes "length k = 6" "ccRemoveAfter m = 0"
  shows "classic_transceive (load_key_apdu 0x00 k) m = (Inr [0x90, 0x00], m\<lparr>ccOps := ccOps m + 1, ccLoadedKey := Some k\<rparr>)"
proof -
  have c: "load_key_apdu 0x00 k = [0xFF, 0x82, 0x00, 0x00, 6] @ k"
    using assms(1) by (auto simp: load_key_apdu_def build_apdu_def byteN_def)
  have s: "slice 5 11 ([0xFF, 0x82, 0x00, 0x00, 6] @ k) = k" using assms(1) by (simp add: slice_def)
  show ?thesis unfolding c using assms s
    by (simp add: classic_transceive_def classic_command_def Let_def)
qed

lemma auth_card:
  assumes "ccRemoveAfter m = 0" "b < 256"
  shows "classic_transceive (mifare_auth_apdu (of_nat b) kt 0x00) m =
    (let (ok, m') = classic_authenticate b kt (m\<lparr>ccOps := ccOps m + 1\<rparr>) in (Inr (if ok then [0x90, 0x00] else emu_fail), m'))"
proof -
  have p: "unat (of_nat b :: byte) = b" using assms by (simp add: unat_of_nat)
  have c: "mifare_auth_apdu (of_nat b) kt 0x00 = [0xFF, 0x86, 0x00, 0x00, 5, 1, 0, of_nat b, kt, 0]"
    by (simp add: mifare_auth_apdu_def build_apdu_def byteN_def)
  show ?thesis unfolding c using assms(1)
    by (simp add: classic_transceive_def classic_command_def Let_def p split: prod.split)
qed

lemma sw_ok_simps [simp]: "sw_ok [0x90, 0x00]" "\<not> sw_ok emu_fail"
  by (simp_all add: sw_ok_def emu_fail_def parse_apdu_response_def is_success_def)

lemma authenticate_sector_card:
  assumes "cl_wf m" "cl_keys_ok keys" "b < max_blocks (ccIs4K m)" "\<not> ccBricked m (classic_sector_of b (ccIs4K m))"
    and "opens_with keys (trailer_of b m) = Some kt"
  shows "\<exists>m'. authenticate_sector classic_transport uid (b div 4) keys m = (Inr (), m') \<and> cl_same m m' \<and>
    is_authed_for b m' \<and> ccAuthedKey m' = kt"
  using assms
proof (induction keys arbitrary: m)
  case (Cons k keys)
  let ?s = "classic_sector_of b (ccIs4K m)"
  have k: "length k = 6" and wf: "ccRemoveAfter m = 0" "length (ccBlocks m) = max_blocks (ccIs4K m)"
    using Cons.prems by (simp_all add: cl_keys_ok_def cl_wf_def)
  have r: "b div 4 * 4 + 3 < 256"
  proof -
    have "b < 256" using Cons.prems(3) by (simp add: max_blocks_def split: if_splits)
    then have "b div 4 < 64" by simp
    then show ?thesis by simp
  qed
  let ?m1 = "m\<lparr>ccOps := ccOps m + 1, ccLoadedKey := Some k\<rparr>"
  let ?m2 = "?m1\<lparr>ccOps := ccOps ?m1 + 1\<rparr>"
  have l: "trSend classic_transport (load_key_apdu 0x00 k) m = (Inr [0x90, 0x00], ?m1)"
    using load_key_card [OF k wf(1)] by (simp add: classic_transport_def)
  have au: "classic_authenticate (b div 4 * 4 + 3) kt' x = (if (if kt' = 0x61 then slice 10 16 (trailer_of b m) else slice 0 6 (trailer_of b m)) = k
      then (True, x\<lparr>ccAuthed := Some ?s, ccAuthedKey := kt'\<rparr>) else (False, x))"
    if "cl_same m x" "ccLoadedKey x = Some k" for x kt'
    using that trailer_in_card [OF Cons.prems(3)] Cons.prems(4) wf(2)
    by (auto simp: classic_authenticate_def sector_of_group cl_same_def trailer_of_def Let_def)
  have a: "trSend classic_transport (mifare_auth_apdu (of_nat (b div 4 * 4 + 3)) 0x60 0x00) ?m1 =
      (if slice 0 6 (trailer_of b m) = k then (Inr [0x90, 0x00], ?m2\<lparr>ccAuthed := Some ?s, ccAuthedKey := 0x60\<rparr>)
       else (Inr emu_fail, ?m2))"
    using auth_card [OF _ r, of ?m1 "0x60"] wf(1) au [of ?m2 "0x60"]
    by (simp add: classic_transport_def cl_same_def)
  have c: "trSend classic_transport (mifare_auth_apdu (of_nat (b div 4 * 4 + 3)) 0x61 0x00) ?m2 =
      (if slice 10 16 (trailer_of b m) = k
       then (Inr [0x90, 0x00], ?m2\<lparr>ccOps := ccOps ?m2 + 1, ccAuthed := Some ?s, ccAuthedKey := 0x61\<rparr>)
       else (Inr emu_fail, ?m2\<lparr>ccOps := ccOps ?m2 + 1\<rparr>))"
    using auth_card [OF _ r, of ?m2 "0x61"] wf(1) au [of "?m2\<lparr>ccOps := ccOps ?m2 + 1\<rparr>" "0x61"]
    by (simp add: classic_transport_def cl_same_def)
  note st = authenticate_sector.simps(2) [of classic_transport uid "b div 4" k keys m] l a c prod.case sum.case
  let ?m3 = "?m2\<lparr>ccOps := ccOps ?m2 + 1\<rparr>"
  consider "slice 0 6 (trailer_of b m) = k" "kt = 0x60"
    | "slice 0 6 (trailer_of b m) \<noteq> k" "slice 10 16 (trailer_of b m) = k" "kt = 0x61"
    | "slice 0 6 (trailer_of b m) \<noteq> k" "slice 10 16 (trailer_of b m) \<noteq> k" "opens_with keys (trailer_of b m) = Some kt"
    using Cons.prems(5) by (auto split: if_splits)
  then show ?case
  proof cases
    case 1
    have e: "authenticate_sector classic_transport uid (b div 4) (k # keys) m =
        (Inr (), ?m2\<lparr>ccAuthed := Some ?s, ccAuthedKey := 0x60\<rparr>)"
      by (simp only: st 1(1) sw_ok_simps if_True if_False HOL.simp_thms)
    show ?thesis unfolding e using 1 by (auto simp: cl_same_def is_authed_for_def)
  next
    case 2
    have e: "authenticate_sector classic_transport uid (b div 4) (k # keys) m =
        (Inr (), ?m2\<lparr>ccOps := ccOps ?m2 + 1, ccAuthed := Some ?s, ccAuthedKey := 0x61\<rparr>)"
      by (simp only: st 2(1) 2(2) sw_ok_simps if_True if_False HOL.simp_thms)
    show ?thesis unfolding e using 2 by (auto simp: cl_same_def is_authed_for_def)
  next
    case 3
    have e: "authenticate_sector classic_transport uid (b div 4) (k # keys) m =
        authenticate_sector classic_transport uid (b div 4) keys ?m3"
      by (simp only: st 3(1) 3(2) sw_ok_simps if_True if_False HOL.simp_thms)
    have sm: "cl_same m ?m3" by (simp add: cl_same_def)
    have "\<exists>m'. authenticate_sector classic_transport uid (b div 4) keys ?m3 = (Inr (), m') \<and> cl_same ?m3 m' \<and>
        is_authed_for b m' \<and> ccAuthedKey m' = kt"
      by (rule Cons.IH) (use Cons.prems 3(3) cl_same_keeps [OF sm] in \<open>simp_all add: cl_keys_ok_def\<close>)
    then show ?thesis unfolding e using cl_same_trans [OF sm] by blast
  qed
qed simp

section \<open>One block\<close>

lemma opened_same: "cl_same m m' \<Longrightarrow> is_authed_for b m' \<Longrightarrow> ccAuthedKey m' = kt \<Longrightarrow>
    opens_with keys (trailer_of b m) = Some kt \<Longrightarrow> opened_for keys b m'"
  by (simp add: opened_for_def cl_same_keeps(2))

lemma with_sector_card:
  assumes "cl_wf m" "cl_keys_ok keys" "b < max_blocks (ccIs4K m)" "granted keys w b m"
    and "a = Some (b div 4) \<Longrightarrow> opened_for keys b m"
  shows "\<exists>m'. with_sector classic_transport uid keys b a m = (Inr (), Some (b div 4), m') \<and> cl_same m m' \<and> opened_for keys b m'"
proof (cases "a = Some (b div 4)")
  case True
  then show ?thesis using assms(5) by (auto simp: with_sector_def)
next
  case False
  obtain kt where kt: "opens_with keys (trailer_of b m) = Some kt" using assms(4) by (auto simp: granted_def)
  have br: "\<not> ccBricked m (classic_sector_of b (ccIs4K m))" using assms(4) by (simp add: granted_def)
  obtain m' where m': "authenticate_sector classic_transport uid (b div 4) keys m = (Inr (), m')" "cl_same m m'"
      "is_authed_for b m'" "ccAuthedKey m' = kt"
    using authenticate_sector_card [OF assms(1-3) br kt] by blast
  then show ?thesis using False opened_same [OF m'(2-4) kt] by (auto simp: with_sector_def)
qed

lemma granted_access: "granted keys w b m \<Longrightarrow> opened_for keys b m \<Longrightarrow> is_authed_for b m \<and> access_allows b w m"
  by (auto simp: granted_def opened_for_def access_allows_def)

lemma granted_same: "cl_same m m' \<Longrightarrow> granted keys w b m' = granted keys w b m"
  by (simp add: granted_def cl_same_keeps)

lemma read_block_card:
  assumes "cl_wf m" "cl_keys_ok keys" "b < max_blocks (ccIs4K m)" "granted keys False b m"
    and "a = Some (b div 4) \<Longrightarrow> opened_for keys b m"
  shows "\<exists>m'. read_block classic_transport uid keys b a m = (Inr (ccBlocks m ! b), Some (b div 4), m') \<and> cl_same m m' \<and>
    opened_for keys b m'"
proof -
  obtain m1 where m1: "with_sector classic_transport uid keys b a m = (Inr (), Some (b div 4), m1)" "cl_same m m1"
      "opened_for keys b m1"
    using with_sector_card [OF assms] by blast
  note k = cl_same_keeps [OF m1(2)]
  have b: "b < 256" "b < length (ccBlocks m1)" "ccRemoveAfter m1 = 0" using assms(1,3) k m1(2)
    by (auto simp: cl_wf_def max_blocks_def cl_same_def split: if_splits)
  have p: "unat (of_nat b :: byte) = b" using b by (simp add: unat_of_nat)
  have c: "read_binary_apdu (of_nat b) 16 = [0xFF, 0xB0, 0x00, of_nat b, 16]"
    by (simp add: read_binary_apdu_def build_apdu_def)
  let ?m2 = "m1\<lparr>ccOps := ccOps m1 + 1\<rparr>"
  have "is_authed_for b ?m2 \<and> access_allows b False ?m2"
    using granted_access [OF _ m1(3)] assms(4) granted_same [OF m1(2)]
    by (auto simp: is_authed_for_def access_allows_def trailer_of_def)
  then have r: "trSend classic_transport (read_binary_apdu (of_nat b) 16) m1 = (Inr (ccBlocks m ! b @ [0x90, 0x00]), ?m2)"
    unfolding c using b k by (simp add: classic_transport_def classic_transceive_def classic_command_def Let_def p)
  have "opened_for keys b ?m2" "cl_same m ?m2"
    using m1(2,3) by (simp_all add: opened_for_def is_authed_for_def trailer_of_def cl_same_def)
  then show ?thesis
    by (simp add: read_block_def m1(1) r parse_apdu_response_split is_success_def)
qed

lemma write_block_card:
  assumes "cl_wf m" "cl_keys_ok keys" "b < max_blocks (ccIs4K m)" "granted keys True b m" "length d = 16" "b \<noteq> 0"
    and "a = Some (b div 4) \<Longrightarrow> opened_for keys b m"
  shows "\<exists>m' m1. write_block classic_transport uid keys b d a m = (Inr (), Some (b div 4), store_block b d m1) \<and>
    cl_same m m1 \<and> opened_for keys b m1"
proof -
  obtain m1 where m1: "with_sector classic_transport uid keys b a m = (Inr (), Some (b div 4), m1)" "cl_same m m1"
      "opened_for keys b m1"
    using with_sector_card [OF assms(1-4,7)] by blast
  note k = cl_same_keeps [OF m1(2)]
  have b: "b < 256" "b < length (ccBlocks m1)" "ccRemoveAfter m1 = 0" using assms(1,3) k m1(2)
    by (auto simp: cl_wf_def max_blocks_def cl_same_def split: if_splits)
  have p: "unat (of_nat b :: byte) = b" using b by (simp add: unat_of_nat)
  have c: "update_binary_apdu (of_nat b) d = [0xFF, 0xD6, 0x00, of_nat b, 16] @ d"
    using assms(5) by (auto simp: update_binary_apdu_def build_apdu_def byteN_def)
  have s: "slice 5 21 ([0xFF, 0xD6, 0x00, of_nat b, 16] @ d) = d" using assms(5) by (simp add: slice_def)
  let ?m2 = "m1\<lparr>ccOps := ccOps m1 + 1\<rparr>"
  have "is_authed_for b ?m2 \<and> access_allows b True ?m2"
    using granted_access [OF _ m1(3)] assms(4) granted_same [OF m1(2)]
    by (auto simp: is_authed_for_def access_allows_def trailer_of_def)
  then have r: "trSend classic_transport (update_binary_apdu (of_nat b) d) m1 = (Inr [0x90, 0x00], store_block b d ?m2)"
    unfolding c using b k assms(5,6) s
    by (simp add: classic_transport_def classic_transceive_def classic_command_def Let_def p del: One_nat_def)
  have "opened_for keys b ?m2" "cl_same m ?m2"
    using m1(2,3) by (simp_all add: opened_for_def is_authed_for_def trailer_of_def cl_same_def)
  then show ?thesis
    using assms(5) parse_apdu_response_split [of "[]"] by (auto simp: write_block_def m1(1) r is_success_def)
qed

section \<open>Many blocks\<close>

lemma same_group: "b' div 4 = b div 4 \<Longrightarrow> classic_sector_of b' k = classic_sector_of b k"
  by (metis sector_of_group)

lemma sector_of_trailer: "classic_sector_of (classic_trailer_block s k) k = s"
  by (auto simp: classic_sector_of_def classic_trailer_block_def)

lemma trailer_untouched:
  "\<not> is_sector_trailer (ccIs4K m) b \<Longrightarrow> trailer_of q (m\<lparr>ccBlocks := (ccBlocks m)[b := d]\<rparr>) = trailer_of q m"
  using trailer_block_iff [of b "ccIs4K m"] sector_of_trailer by (auto simp: trailer_of_def intro!: nth_list_update_neq)

definition stores :: "(nat \<times> bytes \<times> string) list \<Rightarrow> bytes list \<Rightarrow> bytes list" where
  "stores ws bl = fold (\<lambda>(b, d, e) bl. bl[b := d]) ws bl"

definition data_writes :: "bytes list \<Rightarrow> (nat \<times> bytes \<times> string) list \<Rightarrow> classic_card \<Rightarrow> bool" where
  "data_writes keys ws m \<longleftrightarrow> (\<forall>(b, d, e) \<in> set ws. b \<noteq> 0 \<and> b < max_blocks (ccIs4K m) \<and>
     \<not> is_sector_trailer (ccIs4K m) b \<and> length d = 16 \<and> granted keys True b m)"

definition carried :: "bytes list \<Rightarrow> nat option \<Rightarrow> classic_card \<Rightarrow> bool" where
  "carried keys a m \<longleftrightarrow> (\<forall>b. a = Some (b div 4) \<longrightarrow> opened_for keys b m)"

lemma opened_group: "opened_for keys b m \<Longrightarrow> b' div 4 = b div 4 \<Longrightarrow> opened_for keys b' m"
  using same_group [of b' b "ccIs4K m"] by (simp add: opened_for_def is_authed_for_def trailer_of_def)

lemma carried_opened: "opened_for keys b m \<Longrightarrow> carried keys (Some (b div 4)) m"
  using opened_group by (auto simp: carried_def)

text \<open>Writing one data block changes that block.\<close>

lemma write_data_block:
  assumes "cl_wf m" "cl_keys_ok keys" "carried keys a m" "data_writes keys [(b, d, e)] m"
  shows "\<exists>m'. write_block classic_transport uid keys b d a m = (Inr (), Some (b div 4), m') \<and>
    cl_same (m\<lparr>ccBlocks := (ccBlocks m)[b := d]\<rparr>) m' \<and> cl_wf m' \<and> carried keys (Some (b div 4)) m' \<and>
    (\<forall>q w. granted keys w q m' = granted keys w q m)"
proof -
  have d: "b \<noteq> 0" "b < max_blocks (ccIs4K m)" "\<not> is_sector_trailer (ccIs4K m) b" "length d = 16" "granted keys True b m"
    using assms(4) by (simp_all add: data_writes_def)
  obtain m1 where m1: "write_block classic_transport uid keys b d a m = (Inr (), Some (b div 4), store_block b d m1)"
      "cl_same m m1" "opened_for keys b m1"
    using write_block_card [OF assms(1,2) d(2,5,4,1), of a uid] assms(3) by (auto simp: carried_def)
  note k = cl_same_keeps [OF m1(2)]
  let ?m = "m1\<lparr>ccBlocks := (ccBlocks m1)[b := d]\<rparr>"
  have s: "store_block b d m1 = ?m" using d(3) k trailer_block_iff [of b "ccIs4K m"] by (auto simp: store_block_def Let_def)
  have t: "trailer_of q ?m = trailer_of q m" for q using trailer_untouched [of m1 b] d(3) k by simp
  have "cl_same (m\<lparr>ccBlocks := (ccBlocks m)[b := d]\<rparr>) ?m" using m1(2) by (simp add: cl_same_def)
  moreover have "cl_wf ?m"
    using assms(1) d(4) m1(2) set_update_subset_insert [of "ccBlocks m1" b d] by (auto simp: cl_wf_def cl_same_def)
  moreover have "opened_for keys b ?m" using m1(3) t [of b] k by (simp add: opened_for_def is_authed_for_def)
  moreover have "granted keys w q ?m = granted keys w q m" for q w using t k by (simp add: granted_def)
  ultimately show ?thesis using m1(1) s carried_opened by auto
qed

lemma write_list_card:
  assumes "cl_wf m" "cl_keys_ok keys" "carried keys a m" "data_writes keys ws m"
  shows "\<exists>a' m'. write_block_list classic_transport uid keys ws a m = (Inr (), a', m') \<and>
    cl_same (m\<lparr>ccBlocks := stores ws (ccBlocks m)\<rparr>) m' \<and> cl_wf m' \<and> carried keys a' m' \<and>
    (\<forall>q w. granted keys w q m' = granted keys w q m) \<and> (ws \<noteq> [] \<longrightarrow> a' = Some (fst (hd (rev ws)) div 4)) \<and> (ws = [] \<longrightarrow> a' = a)"
  using assms
proof (induction ws arbitrary: a m)
  case Nil
  then show ?case by (simp add: stores_def)
next
  case (Cons w ws)
  obtain b d e where w: "w = (b, d, e)" by (metis prod_cases3)
  have o: "data_writes keys [(b, d, e)] m" using Cons.prems(4) by (simp add: data_writes_def w)
  obtain m1 where m1: "write_block classic_transport uid keys b d a m = (Inr (), Some (b div 4), m1)"
      "cl_same (m\<lparr>ccBlocks := (ccBlocks m)[b := d]\<rparr>) m1" "cl_wf m1" "carried keys (Some (b div 4)) m1"
      "\<And>q w. granted keys w q m1 = granted keys w q m"
    using write_data_block [OF Cons.prems(1-3) o] by blast
  have "data_writes keys ws m1"
    using Cons.prems(4) m1(5) m1(2) by (auto simp: data_writes_def cl_same_def)
  from Cons.IH [OF m1(3) Cons.prems(2) m1(4) this] obtain a' m' where
    m': "write_block_list classic_transport uid keys ws (Some (b div 4)) m1 = (Inr (), a', m')"
      "cl_same (m1\<lparr>ccBlocks := stores ws (ccBlocks m1)\<rparr>) m'" "cl_wf m'" "carried keys a' m'"
      "\<And>q w. granted keys w q m' = granted keys w q m1" "ws \<noteq> [] \<longrightarrow> a' = Some (fst (hd (rev ws)) div 4)"
      "ws = [] \<longrightarrow> a' = Some (b div 4)"
    by blast
  have "cl_same (m\<lparr>ccBlocks := stores (w # ws) (ccBlocks m)\<rparr>) m'"
    using m1(2) m'(2) by (simp add: cl_same_def stores_def w)
  moreover have "write_block_list classic_transport uid keys (w # ws) a m = (Inr (), a', m')" by (simp add: w m1(1) m'(1))
  moreover have "a' = Some (fst (hd (rev (w # ws))) div 4)" using m'(6,7) w by (cases "ws = []") (simp_all add: hd_append)
  ultimately show ?case using m'(3-5) m1(5) by (intro exI conjI) auto
qed

text \<open>The block loop of a read: it stops as soon as a whole message is there.\<close>

lemma read_blocks_card:
  assumes "cl_wf m" "cl_keys_ok keys" "carried keys a m" "clIs4K t = ccIs4K m"
    and "\<forall>b \<in> set bs. \<not> is_sector_trailer (ccIs4K m) b \<and> b < max_blocks (ccIs4K m) \<and> granted keys False b m"
  shows "\<exists>n m'. read_blocks classic_transport t keys bs acc a m = (Inr (acc @ concat (map (\<lambda>b. ccBlocks m ! b) (take n bs)), None), m') \<and>
    cl_same m m' \<and> (n < length bs \<longrightarrow> tlv_find_ndef (acc @ concat (map (\<lambda>b. ccBlocks m ! b) (take n bs))) \<noteq> None) \<and>
    (bs \<noteq> [] \<longrightarrow> 0 < n)"
  using assms
proof (induction bs arbitrary: acc a m)
  case Nil
  then show ?case by (intro exI [of _ 0] exI [of _ m]) simp
next
  case (Cons b bs)
  obtain m1 where m1: "read_block classic_transport (clUID t) keys b a m = (Inr (ccBlocks m ! b), Some (b div 4), m1)"
      "cl_same m m1" "opened_for keys b m1"
    using read_block_card [of m keys b a "clUID t"] Cons.prems by (auto simp: carried_def)
  note k = cl_same_keeps [OF m1(2)]
  show ?case
  proof (cases "tlv_find_ndef (acc @ ccBlocks m ! b) = None")
    case False
    then show ?thesis using m1 Cons.prems by (intro exI [of _ 1] exI [of _ m1]) simp
  next
    case True
    have c: "carried keys (Some (b div 4)) m1" by (rule carried_opened [OF m1(3)])
    obtain n m' where n: "read_blocks classic_transport t keys bs (acc @ ccBlocks m ! b) (Some (b div 4)) m1 =
        (Inr ((acc @ ccBlocks m ! b) @ concat (map (\<lambda>b. ccBlocks m1 ! b) (take n bs)), None), m')" "cl_same m1 m'"
        "n < length bs \<longrightarrow> tlv_find_ndef ((acc @ ccBlocks m ! b) @ concat (map (\<lambda>b. ccBlocks m1 ! b) (take n bs))) \<noteq> None"
      using Cons.IH [of m1 "Some (b div 4)" "acc @ ccBlocks m ! b"] Cons.prems c k granted_same [OF m1(2)] by auto
    show ?thesis
      using n m1 True Cons.prems k cl_same_trans [OF m1(2) n(2)] by (intro exI [of _ "Suc n"] exI [of _ m']) simp
  qed
qed

section \<open>Messages\<close>

lemma tlv_find_prefix:
  assumes "length d < 65536" "4 \<le> k"
  shows "tlv_find_ndef (take k (tlv_encode d TLVNDEF @ r)) \<in> {None, Some d}"
proof -
  obtain h where h: "tlv_encode d TLVNDEF = (TLVNDEF # h) @ d @ [TLVTerminator]"
    "\<And>r. tlv_record_length ((TLVNDEF # h) @ r) = (1, length (TLVNDEF # h))"
    "\<And>r. tlv_get_length ((TLVNDEF # h) @ r) = length d"
    using tlv_encode_shape [OF assms(1), of TLVNDEF] by metis
  have l: "length (TLVNDEF # h) \<le> 4"
  proof -
    have "length (tlv_encode d TLVNDEF) = length (TLVNDEF # h) + length d + 1" unfolding h(1) by simp
    then show ?thesis by (simp add: tlv_encode_def split: if_splits)
  qed
  define q where "q = take (k - length (TLVNDEF # h)) (d @ TLVTerminator # r)"
  have t: "take k (tlv_encode d TLVNDEF @ r) = (TLVNDEF # h) @ q"
    using l assms(2) take_append [of k "TLVNDEF # h" "d @ TLVTerminator # r"] by (simp add: h(1) q_def)
  have s: "slice (Suc (length h)) (Suc (length h) + length d) (TLVNDEF # h @ q) = d" if "length d \<le> length q"
  proof -
    have "slice (Suc (length h)) (Suc (length h) + length d) (TLVNDEF # h @ q) = take (length d) q" by (simp add: slice_def)
    also have "\<dots> = take (length d) (d @ TLVTerminator # r)" using that by (simp add: q_def)
    finally show ?thesis by simp
  qed
  have n: "TLVNDEF \<noteq> TLVNull" "TLVNDEF \<noteq> TLVTerminator" by (simp_all add: tlv_consts)
  have a: "tlv_record_length (TLVNDEF # h @ q) = (1, Suc (length h))" "tlv_get_length (TLVNDEF # h @ q) = length d"
    using h(2,3) [of q] by simp_all
  show ?thesis
    unfolding t using s by (subst tlv_find_ndef.simps) (auto simp: n a Let_def)
qed

definition classic_area :: "classic_card \<Rightarrow> bytes" where
  "classic_area m = concat (map (\<lambda>b. ccBlocks m ! b) (data_blocks (ccIs4K m) 4))"

text \<open>Every data block can be read and written with the keys at hand.\<close>

definition classic_open :: "bytes list \<Rightarrow> classic_card \<Rightarrow> bool" where
  "classic_open keys m \<longleftrightarrow> (\<forall>b \<in> set (data_blocks (ccIs4K m) 4). \<forall>w. granted keys w b m)"

definition classic_holds :: "classic_tag \<Rightarrow> bytes list \<times> classic_card \<Rightarrow> bytes \<Rightarrow> bool" where
  "classic_holds t s d \<longleftrightarrow> (case s of (cands, m) \<Rightarrow> clIs4K t = ccIs4K m \<and> cl_wf m \<and> cl_keys_ok cands \<and>
     classic_open (keys_to_try cands) m \<and>
     (d \<noteq> [] \<longrightarrow> length d < 65536 \<and> (\<exists>r. classic_area m = tlv_encode d TLVNDEF @ r)))"

lemma cl_keys_ok_try: "cl_keys_ok cands \<Longrightarrow> cl_keys_ok (keys_to_try cands)"
  by (auto simp: cl_keys_ok_def keys_to_try_def classic_default_keys_def)

lemma classic_holds_same:
  "cl_same m m' \<Longrightarrow> classic_holds t (cands, m') d = classic_holds t (cands, m) d"
  using cl_same_keeps [of m m'] by (simp add: classic_holds_def classic_open_def classic_area_def granted_same)

lemma data_blocks_card:
  assumes "b \<in> set (data_blocks k 4)"
  shows "b \<noteq> 0" "b < max_blocks k" "\<not> is_sector_trailer k b"
  using data_blocks_at [OF assms] by auto

lemma take_concat_16:
  "\<forall>x \<in> set xs. length x = 16 \<Longrightarrow> concat (take n xs) = take (16 * n) (concat xs)"
proof (induction xs arbitrary: n)
  case (Cons x xs)
  then show ?case by (cases n) simp_all
qed simp

lemma cl_read_card:
  assumes "classic_holds t (cands, m) d"
  shows "\<exists>r m'. cl_read_data t (keys_to_try cands) classic_transport m = (r, m') \<and> cl_same m m' \<and> (d \<noteq> [] \<longrightarrow> r = Inr d)"
proof -
  have h: "clIs4K t = ccIs4K m" "cl_wf m" "cl_keys_ok cands" "classic_open (keys_to_try cands) m"
    using assms by (simp_all add: classic_holds_def)
  let ?bs = "data_blocks (ccIs4K m) 4"
  let ?c = "\<lambda>n. concat (map (\<lambda>b. ccBlocks m ! b) (take n ?bs))"
  have "\<forall>b \<in> set ?bs. \<not> is_sector_trailer (ccIs4K m) b \<and> b < max_blocks (ccIs4K m) \<and> granted (keys_to_try cands) False b m"
    using h(4) data_blocks_card by (auto simp: classic_open_def)
  then obtain n m' where n: "read_blocks classic_transport t (keys_to_try cands) ?bs [] None m = (Inr (?c n, None), m')" "cl_same m m'"
      "n < length ?bs \<longrightarrow> tlv_find_ndef (?c n) \<noteq> None" "?bs \<noteq> [] \<longrightarrow> 0 < n"
    using read_blocks_card [OF h(2) cl_keys_ok_try [OF h(3)] _ h(1), of None ?bs "[]"] by (auto simp: carried_def)
  have r: "read_blocks classic_transport t (keys_to_try cands) [4..<max_blocks (clIs4K t)] [] None m = (Inr (?c n, None), m')"
    using n(1) h(1) read_blocks_filter [of classic_transport t _ "[4..<max_blocks (clIs4K t)]"] by (simp add: data_blocks_def)
  show ?thesis
  proof (cases "d = []")
    case True
    then show ?thesis using n(2) by (auto simp: cl_read_data_def r split: option.split)
  next
    case False
    then obtain q where a: "classic_area m = tlv_encode d TLVNDEF @ q" "length d < 65536" using assms by (auto simp: classic_holds_def)
    have l: "\<forall>x \<in> set (map (\<lambda>b. ccBlocks m ! b) ?bs). length x = 16"
      using h(2) data_blocks_card(2) by (auto simp: cl_wf_def)
    have c: "?c n = take (16 * n) (tlv_encode d TLVNDEF @ q)"
      using take_concat_16 [OF l, of n] a(1) by (simp add: classic_area_def take_map)
    have b: "?bs \<noteq> []" using a(1) by (auto simp: classic_area_def tlv_encode_def)
    then have p: "4 \<le> 16 * n" using n(4) by simp
    have ne: "?c n \<noteq> []" using p unfolding c by (simp add: tlv_encode_def)
    have "tlv_find_ndef (?c n) = Some d"
    proof (cases "n < length ?bs")
      case True
      then show ?thesis using n(3) tlv_find_prefix [OF a(2) p, of q] unfolding c by auto
    next
      case False
      then have "?c n = tlv_encode d TLVNDEF @ q" using a(1) by (simp add: classic_area_def)
      then show ?thesis using tlv_find_encode_rest [OF a(2)] by simp
    qed
    moreover have "cl_read_data t (keys_to_try cands) classic_transport m = (Inr d, m')"
      if "read_blocks classic_transport t (keys_to_try cands) [4..<max_blocks (clIs4K t)] [] None m = (Inr (g, None), m')"
        "g \<noteq> []" "tlv_find_ndef g = Some d" for g
      using that by (simp add: cl_read_data_def)
    ultimately show ?thesis using n(2) r ne by blast
  qed
qed

lemma stores_other: "b \<notin> fst ` set ws \<Longrightarrow> stores ws bl ! b = bl ! b"
proof (induction ws arbitrary: bl)
  case (Cons w ws)
  obtain p d e where w: "w = (p, d, e)" by (metis prod_cases3)
  have "stores (w # ws) bl ! b = bl[p := d] ! b" using Cons by (simp add: stores_def w)
  also have "\<dots> = bl ! b" by (rule nth_list_update_neq) (use Cons.prems w in auto)
  finally show ?case .
qed (simp add: stores_def)

lemma stores_length [simp]: "length (stores ws bl) = length bl"
  by (induction ws arbitrary: bl) (auto simp: stores_def)

lemma stores_zip:
  assumes "distinct bs" "length cs \<le> length bs" "\<forall>b \<in> set bs. b < length bl"
  shows "map (\<lambda>b. stores (map (\<lambda>(b, c). (b, c, f b)) (zip bs cs)) bl ! b) bs = cs @ map (\<lambda>b. bl ! b) (drop (length cs) bs)"
  using assms
proof (induction cs arbitrary: bs bl)
  case Nil
  then show ?case by (simp add: stores_def)
next
  case (Cons c cs)
  then obtain d ds where d: "bs = d # ds" by (cases bs) auto
  let ?ws = "map (\<lambda>(b, c). (b, c, f b)) (zip ds cs)"
  have st: "stores (map (\<lambda>(b, c). (b, c, f b)) (zip bs (c # cs))) bl = stores ?ws (bl[d := c])"
    by (simp add: d stores_def)
  have "d \<notin> fst ` set ?ws" using Cons.prems(1) d by (auto dest: set_zip_leftD)
  then have h: "stores ?ws (bl[d := c]) ! d = c" using stores_other Cons.prems(3) d by simp
  have t: "map (\<lambda>b. stores ?ws (bl[d := c]) ! b) ds = cs @ map (\<lambda>b. bl[d := c] ! b) (drop (length cs) ds)"
    using Cons.IH [of ds "bl[d := c]"] Cons.prems d by auto
  have "map (\<lambda>b. bl[d := c] ! b) (drop (length cs) ds) = map (\<lambda>b. bl ! b) (drop (length cs) ds)"
  proof (rule map_cong [OF refl])
    fix q assume "q \<in> set (drop (length cs) ds)"
    then have "q \<noteq> d" using Cons.prems(1) d by (auto dest: in_set_dropD)
    then show "bl[d := c] ! q = bl ! q" by simp
  qed
  then show ?case using st h t by (simp add: d)
qed

definition classic_space :: "bool \<Rightarrow> nat" where
  "classic_space is4K = 16 * usable_blocks is4K - 5"

lemma usable_values: "usable_blocks False = 45" "usable_blocks True = 213"
  by code_simp+

lemma classic_need:
  assumes "length x < 65536"
  shows "\<not> usable_blocks k < length (pad_blocks (tlv_encode x TLVNDEF)) div 16 \<longleftrightarrow> length x \<le> classic_space k"
proof -
  have q: "n div 16 \<le> j \<longleftrightarrow> n < 16 * j + 16" for n j :: nat by (simp add: less_Suc_eq_le [symmetric] div_less_iff_less_mult algebra_simps)
  show ?thesis
    unfolding not_less pad_blocks_length(2) q
    by (cases k) (auto simp: classic_space_def usable_values tlv_encode_def)
qed

lemma cl_write_card:
  assumes "classic_holds t (cands, m) d" "length x \<le> classic_space (clIs4K t)" "length x < 65536"
  shows "\<exists>m'. cl_write_data t (keys_to_try cands) classic_transport x m = (Inr (), m') \<and> classic_holds t (cands, m') x"
proof -
  have h: "clIs4K t = ccIs4K m" "cl_wf m" "cl_keys_ok cands" "classic_open (keys_to_try cands) m"
    using assms by (simp_all add: classic_holds_def)
  let ?p = "pad_blocks (tlv_encode x TLVNDEF)"
  let ?cs = "chunks 16 ?p"
  let ?bs = "data_blocks (clIs4K t) 4"
  let ?ws = "map (\<lambda>(b, c). (b, c, block_text b)) (zip ?bs ?cs)"
  have u: "\<not> usable_blocks (clIs4K t) < length ?p div 16" using classic_need [OF assms(3)] assms(2) by blast
  note cs = message_chunks [of "tlv_encode x TLVNDEF"]
  have l: "length ?cs \<le> length ?bs" using u cs(1) by (simp add: usable_blocks_def data_blocks_def)
  have "data_writes (keys_to_try cands) ?ws m"
    unfolding data_writes_def
  proof (clarify)
    fix b c e assume "(b, c, e) \<in> set ?ws"
    then have b: "b \<in> set ?bs" "c \<in> set ?cs" by (auto dest: set_zip_leftD set_zip_rightD)
    then show "b \<noteq> 0 \<and> b < max_blocks (ccIs4K m) \<and> \<not> is_sector_trailer (ccIs4K m) b \<and> length c = 16 \<and>
        granted (keys_to_try cands) True b m"
      using data_blocks_card [OF b(1)] h(1,4) cs(2) by (auto simp: classic_open_def)
  qed
  then obtain a' m' where w: "write_block_list classic_transport (clUID t) (keys_to_try cands) ?ws None m = (Inr (), a', m')"
      "cl_same (m\<lparr>ccBlocks := stores ?ws (ccBlocks m)\<rparr>) m'" "cl_wf m'"
      "\<And>q w. granted (keys_to_try cands) w q m' = granted (keys_to_try cands) w q m"
    using write_list_card [OF h(2) cl_keys_ok_try [OF h(3)], of None ?ws "clUID t"] by (auto simp: carried_def)
  have k: "ccIs4K m' = ccIs4K m" "ccBlocks m' = stores ?ws (ccBlocks m)" using w(2) by (simp_all add: cl_same_def)
  have bl: "\<forall>b \<in> set ?bs. b < length (ccBlocks m)" using data_blocks_card(2) h(1,2) by (auto simp: cl_wf_def)
  have "map (\<lambda>b. ccBlocks m' ! b) ?bs = ?cs @ map (\<lambda>b. ccBlocks m ! b) (drop (length ?cs) ?bs)"
    unfolding k(2) by (rule stores_zip [OF data_blocks_distinct l bl])
  then have "classic_area m' = tlv_encode x TLVNDEF @ (replicate ((16 - length (tlv_encode x TLVNDEF) mod 16) mod 16) 0 @
      concat (map (\<lambda>b. ccBlocks m ! b) (drop (length ?cs) ?bs)))"
    using k(1) h(1) by (simp add: classic_area_def concat_chunks pad_blocks_def)
  then have "classic_holds t (cands, m') x"
    using h(1,3,4) w(3,4) k(1) assms(3) by (auto simp: classic_holds_def classic_open_def)
  moreover have "cl_write_data t (keys_to_try cands) classic_transport x m = (Inr (), m')"
    using u w(1) by (simp add: cl_write_data_def Let_def write_blocks_list [OF l])
  ultimately show ?thesis by blast
qed

lemma write_data_too_large:
  assumes "classic_space (clIs4K t) < length x" "length x < 65536"
  shows "\<exists>e. cl_write_data t keys tr x s = (Inl (PlainError e), s)"
  using classic_need [OF assms(2), of "clIs4K t"] assms(1) by (simp add: cl_write_data_def Let_def)

section \<open>The driver as a tag\<close>

definition classic_room :: "bool \<Rightarrow> nat" where
  "classic_room is4K = (if is4K then 3356 else 715)"

definition classic_tag_on :: "classic_tag \<Rightarrow> (bytes list \<times> classic_card) tag" where
  "classic_tag_on t = classic_as_tag t classic_transport"

lemma classic_caps:
  "capMaxNDEF (tgCaps (classic_tag_on t) s) = (if clIs4K t then 3356 else 716)" "capNDEF (tgCaps (classic_tag_on t) s)"
  "\<not> capSnapshot (tgCaps (classic_tag_on t) s)" "\<not> capCanLock (tgCaps (classic_tag_on t) s)"
  by (simp_all add: classic_tag_on_def classic_as_tag_def no_ops_def cl_profile_def profile_capabilities_def classic_profile_def no_profile_def)

interpretation classic: message_tag "classic_tag_on t" "classic_holds t" "\<lambda>x. length x \<le> classic_room (clIs4K t)" for t
proof
  fix s d
  assume h: "classic_holds t s d"
  obtain cands m where s: "s = (cands, m)" by fastforce
  obtain r m' where r: "cl_read_data t (keys_to_try cands) classic_transport m = (r, m')" "cl_same m m'" "d \<noteq> [] \<longrightarrow> r = Inr d"
    using cl_read_card h s by blast
  have "tgRead (classic_tag_on t) s = (r, (cands, m'))"
    using r(1) by (simp add: classic_tag_on_def classic_as_tag_def on_device_def s)
  moreover have "classic_holds t (cands, m') d" using h classic_holds_same [OF r(2)] s by simp
  ultimately show "\<exists>r s'. tgRead (classic_tag_on t) s = (r, s') \<and> classic_holds t s' d \<and> (d \<noteq> [] \<longrightarrow> r = Inr d)"
    using r(3) by blast
  show "\<not> capSnapshot (tgCaps (classic_tag_on t) s)" by (rule classic_caps(3))
  fix x :: bytes
  assume x: "length x \<le> classic_room (clIs4K t)"
  have "length x \<le> classic_space (clIs4K t)" "length x < 65536"
    using x by (auto simp: classic_room_def classic_space_def usable_values split: if_splits)
  then obtain m2 where "cl_write_data t (keys_to_try cands) classic_transport x m = (Inr (), m2)" "classic_holds t (cands, m2) x"
    using cl_write_card h s by blast
  then show "\<exists>s'. tgWrite (classic_tag_on t) x s = (Inr (), s') \<and> classic_holds t s' x"
    by (intro exI [of _ "(cands, m2)"]) (simp add: classic_tag_on_def classic_as_tag_def on_device_def s)
  show "check_write_capacity (classic_tag_on t) (length x) s = None"
    using x classic_caps(1) [of t s] by (simp add: check_write_capacity_def Let_def classic_room_def split: if_splits)
qed

end
