(* ===== verification/ClassicFormat.thy ===== *)
theory ClassicFormat
  imports ClassicOnCard
begin

text \<open>
  Formatting a MIFARE Classic 1K: on a card whose sectors the driver's keys open for writing it
  succeeds and leaves a card that holds the message, and that can be formatted again with the keys
  every driver knows.
\<close>

section \<open>A sector and its trailer\<close>

lemma write_block_list_append:
  "write_block_list tr uid keys (ws @ vs) a s =
     (case write_block_list tr uid keys ws a s of
        (Inl e, a', s') \<Rightarrow> (Inl e, a', s')
      | (Inr _, a', s') \<Rightarrow> write_block_list tr uid keys vs a' s')"
  by (induction tr uid keys ws a s rule: write_block_list.induct) (auto split: prod.split sum.split)

text \<open>A sector other than the one opened last is opened afresh.\<close>

lemma write_block_fresh:
  assumes "a \<noteq> Some (b div 4)" "write_block tr uid keys b d None s = (Inr (), a', s')"
  shows "write_block tr uid keys b d a s = (Inr (), a', s')"
proof -
  obtain x a1 s1 where x: "with_sector tr uid keys b None s = (x, a1, s1)" by (metis prod_cases3)
  show ?thesis
  proof (cases x)
    case (Inr u)
    then have n: "with_sector tr uid keys b None s = (Inr u, a1, s1)" using x by simp
    then have "with_sector tr uid keys b a s = (Inr u, a1, s1)"
      using assms(1) by (auto simp: with_sector_def split: prod.splits sum.splits)
    then show ?thesis using assms(2) n by (cases "length d = 16") (simp_all add: write_block_def)
  qed (use assms(2) x in \<open>simp add: write_block_def split: if_splits\<close>)
qed

lemma write_block_list_fresh:
  assumes "a \<noteq> Some (fst (hd ws) div 4)" "ws \<noteq> []" "write_block_list tr uid keys ws None s = (Inr (), a', s')"
  shows "write_block_list tr uid keys ws a s = (Inr (), a', s')"
proof -
  obtain b d e vs where ws: "ws = (b, d, e) # vs" using assms(2) by (metis list.exhaust prod_cases3)
  obtain x a1 s1 where x: "write_block tr uid keys b d None s = (x, a1, s1)" by (metis prod_cases3)
  show ?thesis
  proof (cases x)
    case (Inr u)
    then have "write_block tr uid keys b d a s = (Inr (), a1, s1)" using write_block_fresh x assms(1) ws by simp
    then show ?thesis using assms(3) x Inr by (simp add: ws)
  qed (use assms(3) x in \<open>simp add: ws\<close>)
qed

text \<open>Data blocks of one sector of a 1K card and then its trailer.\<close>

lemma sector_write_card:
  assumes "cl_wf m" "\<not> ccIs4K m" "cl_keys_ok keys" "a \<noteq> Some sec" "ws \<noteq> []" "data_writes keys ws m"
    and "\<forall>w \<in> set ws. fst w div 4 = sec" "granted keys True (sec * 4 + 3) m" "length T = 16" "access_conditions T \<noteq> None" "sec < 16"
  shows "\<exists>m'. write_block_list classic_transport uid keys (ws @ [(sec * 4 + 3, T, e)]) a m = (Inr (), Some sec, m') \<and>
    cl_same (m\<lparr>ccBlocks := stores (ws @ [(sec * 4 + 3, T, e)]) (ccBlocks m)\<rparr>) m' \<and> cl_wf m'"
proof -
  let ?b = "sec * 4 + 3"
  obtain a' m1 where m1: "write_block_list classic_transport uid keys ws None m = (Inr (), a', m1)"
      "cl_same (m\<lparr>ccBlocks := stores ws (ccBlocks m)\<rparr>) m1" "cl_wf m1" "carried keys a' m1"
      "\<And>q w. granted keys w q m1 = granted keys w q m"
    using write_list_card [OF assms(1,3) _ assms(6), of None uid] by (auto simp: carried_def)
  have "fst (hd ws) div 4 = sec" using assms(5,7) by simp
  then have w: "write_block_list classic_transport uid keys ws a m = (Inr (), a', m1)"
    using write_block_list_fresh [OF _ assms(5) m1(1)] assms(4) by simp
  have k: "ccIs4K m1 = ccIs4K m" using m1(2) by (simp add: cl_same_def)
  have b: "?b < max_blocks (ccIs4K m1)" "?b div 4 = sec" "?b \<noteq> 0" using assms(2,11) k by (simp_all add: max_blocks_def)
  have g: "granted keys True ?b m1" using m1(5) assms(8) by simp
  obtain m3 m2 where m2: "write_block classic_transport uid keys ?b T a' m1 = (Inr (), Some sec, store_block ?b T m2)"
      "cl_same m1 m2" "opened_for keys ?b m2"
    using write_block_card [OF m1(3) assms(3) b(1) g assms(9) b(3), of a' uid] m1(4) b(2) by (auto simp: carried_def)
  have s: "store_block ?b T m2 = m2\<lparr>ccBlocks := (ccBlocks m2)[?b := T]\<rparr>" using assms(10) by (auto simp: store_block_def Let_def)
  have l: "cl_same (m\<lparr>ccBlocks := stores (ws @ [(?b, T, e)]) (ccBlocks m)\<rparr>) (store_block ?b T m2)"
    using m1(2) m2(2) by (simp add: s cl_same_def stores_def)
  have "cl_wf (store_block ?b T m2)"
    using m1(3) m2(2) assms(9) set_update_subset_insert [of "ccBlocks m2" ?b T] by (auto simp: s cl_wf_def cl_same_def)
  then show ?thesis using l by (simp add: write_block_list_append w m2(1))
qed

text \<open>What one sector is given leaves the other sectors as granted as they were.\<close>

lemma granted_other_sector:
  assumes "\<not> ccIs4K m" "\<forall>w \<in> set ws. fst w div 4 = sec" "q div 4 \<noteq> sec" "cl_same (m\<lparr>ccBlocks := stores ws (ccBlocks m)\<rparr>) m'"
  shows "granted keys w q m' = granted keys w q m"
proof -
  have "q div 4 * 4 + 3 \<notin> fst ` set ws" using assms(2,3) by auto
  then have "stores ws (ccBlocks m) ! (q div 4 * 4 + 3) = ccBlocks m ! (q div 4 * 4 + 3)" by (rule stores_other)
  then have "trailer_of q m' = trailer_of q m"
    using assms(1,4) by (simp add: trailer_of_def cl_same_def classic_trailer_block_def classic_sector_of_def)
  then show ?thesis using assms(4) by (simp add: granted_def cl_same_def)
qed

lemma stores_append: "stores (ws @ vs) bl = stores vs (stores ws bl)"
  by (simp add: stores_def)

text \<open>The sectors one after the other.\<close>

definition sector_job :: "nat \<Rightarrow> (nat \<times> bytes \<times> string) list \<Rightarrow> bool" where
  "sector_job sec job \<longleftrightarrow> (\<exists>ws T e. job = ws @ [(sec * 4 + 3, T, e)] \<and> ws \<noteq> [] \<and> length T = 16 \<and> access_conditions T \<noteq> None \<and>
     (\<forall>(b, d, x) \<in> set ws. b div 4 = sec \<and> b mod 4 \<noteq> 3 \<and> b \<noteq> 0 \<and> length d = 16)) \<and> sec < 16"

lemma sectors_card:
  assumes "cl_wf m" "\<not> ccIs4K m" "cl_keys_ok keys" "distinct secs" "a \<notin> Some ` set secs"
    and "\<forall>sec \<in> set secs. sector_job sec (F sec)" "\<forall>sec \<in> set secs. \<forall>b. b \<noteq> 0 \<longrightarrow> b div 4 = sec \<longrightarrow> granted keys True b m"
  shows "\<exists>a' m'. write_block_list classic_transport uid keys (concat (map F secs)) a m = (Inr (), a', m') \<and>
    cl_same (m\<lparr>ccBlocks := stores (concat (map F secs)) (ccBlocks m)\<rparr>) m' \<and> cl_wf m'"
  using assms
proof (induction secs arbitrary: a m)
  case Nil
  then show ?case by (simp add: stores_def)
next
  case (Cons sec secs)
  obtain ws T e where job: "F sec = ws @ [(sec * 4 + 3, T, e)]" "ws \<noteq> []" "length T = 16" "access_conditions T \<noteq> None" "sec < 16"
      "\<forall>(b, d, x) \<in> set ws. b div 4 = sec \<and> b mod 4 \<noteq> 3 \<and> b \<noteq> 0 \<and> length d = 16"
    using Cons.prems(6) by (auto simp: sector_job_def)
  have g: "granted keys True b m" if "b \<noteq> 0" "b div 4 = sec" for b using Cons.prems(7) that by simp
  have nt: "\<not> is_sector_trailer False b" if "b mod 4 \<noteq> 3" for b
  proof -
    have "(b + 1) mod 4 = 0 \<Longrightarrow> b mod 4 = 3" by presburger
    then show ?thesis using that by (auto simp: is_sector_trailer_def)
  qed
  have lt: "b < 64" if "b div 4 = sec" for b using that job(5) by simp
  have d: "data_writes keys ws m"
    unfolding data_writes_def using job(6) g nt lt Cons.prems(2) by (fastforce simp: max_blocks_def)
  have d4: "\<forall>w \<in> set ws. fst w div 4 = sec" using job(6) by auto
  obtain m1 where m1: "write_block_list classic_transport uid keys (F sec) a m = (Inr (), Some sec, m1)"
      "cl_same (m\<lparr>ccBlocks := stores (F sec) (ccBlocks m)\<rparr>) m1" "cl_wf m1"
    using sector_write_card [OF Cons.prems(1-3) _ job(2) d d4 g job(3,4,5), of a uid e] Cons.prems(5) by (auto simp: job(1))
  have f4: "\<forall>w \<in> set (F sec). fst w div 4 = sec" using d4 by (auto simp: job(1))
  have k: "\<not> ccIs4K m1" using m1(2) Cons.prems(2) by (simp add: cl_same_def)
  have g1: "\<forall>s \<in> set secs. \<forall>b. b \<noteq> 0 \<longrightarrow> b div 4 = s \<longrightarrow> granted keys True b m1"
  proof (intro ballI allI impI)
    fix s b assume "s \<in> set secs" "b \<noteq> 0" "b div 4 = s"
    then have "b div 4 \<noteq> sec" "granted keys True b m" using Cons.prems(4,7) by auto
    then show "granted keys True b m1" using granted_other_sector [OF Cons.prems(2) f4 _ m1(2)] by simp
  qed
  obtain a' m' where m': "write_block_list classic_transport uid keys (concat (map F secs)) (Some sec) m1 = (Inr (), a', m')"
      "cl_same (m1\<lparr>ccBlocks := stores (concat (map F secs)) (ccBlocks m1)\<rparr>) m'" "cl_wf m'"
    using Cons.IH [OF m1(3) k Cons.prems(3) _ _ _ g1, of "Some sec"] Cons.prems(4,6) by auto
  have "cl_same (m\<lparr>ccBlocks := stores (concat (map F (sec # secs))) (ccBlocks m)\<rparr>) m'"
    using m1(2) m'(2) by (simp add: cl_same_def stores_append)
  moreover have "write_block_list classic_transport uid keys (concat (map F (sec # secs))) a m = (Inr (), a', m')"
    by (simp add: write_block_list_append m1(1) m'(1))
  ultimately show ?case using m'(3) by blast
qed

section \<open>Formatting\<close>

text \<open>Every sector of a 1K card opens, and lets its blocks but the first of the card be written.\<close>

definition format_ready :: "bytes list \<Rightarrow> classic_card \<Rightarrow> bool" where
  "format_ready keys m \<longleftrightarrow> \<not> ccIs4K m \<and> cl_wf m \<and> (\<forall>b. 1 \<le> b \<longrightarrow> b < 64 \<longrightarrow> granted keys True b m)"

lemma format_ready_same: "cl_same m m' \<Longrightarrow> format_ready keys m' = format_ready keys m"
  using cl_same_keeps [of m m'] by (simp add: format_ready_def granted_same)

text \<open>The preflight asks that some key open every sector, no more.\<close>

definition sectors_open :: "bytes list \<Rightarrow> classic_card \<Rightarrow> bool" where
  "sectors_open keys m \<longleftrightarrow> \<not> ccIs4K m \<and> cl_wf m \<and> (\<forall>b. 1 \<le> b \<longrightarrow> b < 64 \<longrightarrow>
     \<not> ccBricked m (classic_sector_of b (ccIs4K m)) \<and> (\<exists>kt. opens_with keys (trailer_of b m) = Some kt))"

lemma sectors_open_same: "cl_same m m' \<Longrightarrow> sectors_open keys m' = sectors_open keys m"
  using cl_same_keeps [of m m'] by (simp add: sectors_open_def)

lemma format_ready_open: "format_ready keys m \<Longrightarrow> sectors_open keys m"
  by (auto simp: format_ready_def sectors_open_def granted_def)

lemma preflight_card:
  assumes "sectors_open keys m" "cl_keys_ok keys" "\<forall>sec \<in> set secs. sec < 16"
  shows "\<exists>m'. preflight t keys classic_transport secs m = (Inr (), m') \<and> cl_same m m'"
  using assms
proof (induction secs arbitrary: m)
  case (Cons sec secs)
  have b: "(sec * 4 + 3) div 4 = sec" "1 \<le> sec * 4 + 3" "sec * 4 + 3 < 64" using Cons.prems(3) by auto
  have wf: "cl_wf m" "sec * 4 + 3 < max_blocks (ccIs4K m)" using Cons.prems(1) b(3) by (simp_all add: sectors_open_def max_blocks_def)
  obtain kt where kt: "opens_with keys (trailer_of (sec * 4 + 3) m) = Some kt"
      "\<not> ccBricked m (classic_sector_of (sec * 4 + 3) (ccIs4K m))"
    using Cons.prems(1) b(2,3) unfolding sectors_open_def by blast
  obtain m1 where m1: "authenticate_sector classic_transport (clUID t) sec keys m = (Inr (), m1)" "cl_same m m1"
    using authenticate_sector_card [OF wf(1) Cons.prems(2) wf(2) kt(2,1), of "clUID t"] b(1) by auto
  obtain m' where m': "preflight t keys classic_transport secs m1 = (Inr (), m')" "cl_same m1 m'"
    using Cons.IH [of m1] Cons.prems sectors_open_same [OF m1(2)] by auto
  then show ?case using m1 cl_same_trans [OF m1(2)] by auto
qed simp

definition mad_writes :: "(nat \<times> bytes \<times> string) list" where
  "mad_writes = [(1, mad_block1, ''write MAD block 1: ''), (2, mad_block2, ''write MAD block 2: ''),
     (3, mad_sector_trailer, ''write MAD sector trailer: '')]"

lemma mad_lengths: "length mad_block1 = 16" "length mad_block2 = 16"
  by (simp_all add: mad_block1_def mad_block2_def Let_def eval_nat_numeral)

lemma mad_job: "sector_job 0 mad_writes"
  unfolding sector_job_def mad_writes_def
  using format_trailers_valid(1,5) mad_lengths
  by (intro conjI exI [of _ "[(1, mad_block1, ''write MAD block 1: ''), (2, mad_block2, ''write MAD block 2: '')]"]
      exI [of _ mad_sector_trailer]) auto

lemma format_chunk_length: "length (format_chunk tlv i) = 16"
  by (simp add: format_chunk_def Let_def)

lemma data_job: "1 \<le> sec \<Longrightarrow> sec < 16 \<Longrightarrow> sector_job sec (format_sector t tlv sec)"
proof -
  let ?ws = "map (\<lambda>b. (sec * 4 + b, format_chunk tlv (3 * (sec - 1) + b),
       ''formatNDEF (UID: '' @ clUID t @ ''): writing block '' @ decimal (sec * 4 + b) @ '': '')) [0..<3]"
  assume "1 \<le> sec" "sec < 16"
  then have "\<forall>(b, d, x) \<in> set ?ws. b div 4 = sec \<and> b mod 4 \<noteq> 3 \<and> b \<noteq> 0 \<and> length d = 16"
    using format_chunk_length by auto
  moreover have "format_sector t tlv sec = ?ws @ [(sec * 4 + 3, ndef_sector_trailer,
      ''formatNDEF (UID: '' @ clUID t @ ''): writing trailer for sector '' @ decimal sec @ '': '')]"
    by (simp only: format_sector_def)
  moreover have "?ws \<noteq> []" "access_conditions ndef_sector_trailer \<noteq> None" by (simp_all add: format_trailers_valid)
  ultimately show ?thesis
    unfolding sector_job_def using format_trailers_valid(6) \<open>sec < 16\<close> by blast
qed

lemma format_chunks:
  assumes "length tlv \<le> 16 * n"
  shows "concat (map (format_chunk tlv) [0..<n]) = tlv @ replicate (16 * n - length tlv) 0"
proof -
  let ?z = "tlv @ replicate (16 * n - length tlv) 0"
  have l: "length ?z = 16 * n" using assms by simp
  have c: "format_chunk tlv i = take 16 (drop (16 * i) ?z)" if "i < n" for i
  proof (rule nth_equalityI)
    have j: "16 * i + 16 \<le> 16 * n" using that by linarith
    show le: "length (format_chunk tlv i) = length (take 16 (drop (16 * i) ?z))"
      using l j by (simp add: format_chunk_length)
    fix q assume "q < length (format_chunk tlv i)"
    then have "q < 16" by (simp add: format_chunk_length)
    then show "format_chunk tlv i ! q = take 16 (drop (16 * i) ?z) ! q"
      using l j by (auto simp: format_chunk_def Let_def nth_append)
  qed
  have "concat (map (\<lambda>i. take 16 (drop (16 * i) z)) [0..<k]) = take (16 * k) z" if "16 * k \<le> length z" for z :: bytes and k
    using that
  proof (induction k)
    case (Suc k)
    then show ?case using take_add [of "16 * k" 16 z] by (simp add: add.commute)
  qed simp
  from this [of n ?z] have "concat (map (\<lambda>i. take 16 (drop (16 * i) ?z)) [0..<n]) = ?z" using l by simp
  moreover have "map (format_chunk tlv) [0..<n] = map (\<lambda>i. take 16 (drop (16 * i) ?z)) [0..<n]"
    by (rule map_cong [OF refl]) (use c in \<open>simp only: set_upt atLeastLessThan_iff\<close>)
  ultimately show ?thesis by (simp only:)
qed

lemma stores_in:
  assumes "distinct (map fst ws)" "(b, d, e) \<in> set ws" "b < length bl"
  shows "stores ws bl ! b = d"
  using assms
proof (induction ws arbitrary: bl)
  case (Cons w ws)
  obtain p x y where w: "w = (p, x, y)" by (metis prod_cases3)
  have s: "stores (w # ws) bl = stores ws (bl[p := x])" by (simp add: stores_def w)
  show ?case
  proof (cases "(b, d, e) = w")
    case True
    then have "b \<notin> fst ` set ws" using Cons.prems(1) by (metis distinct.simps(2) fst_conv list.set_map list.simps(9))
    then show ?thesis unfolding s using stores_other [of b ws "bl[p := x]"] True Cons.prems(3) by (simp add: w)
  next
    case False
    then have "(b, d, e) \<in> set ws" "distinct (map fst ws)" "b < length (bl[p := x])" using Cons.prems by auto
    then show ?thesis unfolding s using Cons.IH by blast
  qed
qed simp

lemma opens_with_mem: "k \<in> set keys \<Longrightarrow> slice 10 16 t = k \<Longrightarrow> \<exists>kt. opens_with keys t = Some kt"
  by (induction keys) auto

lemma formatted_grants:
  "a < 3 \<Longrightarrow> trailer_grants kb a w ndef_sector_trailer"
  "a \<le> 3 \<Longrightarrow> trailer_grants True a True ndef_sector_trailer"
  "a \<le> 3 \<Longrightarrow> trailer_grants True a True mad_sector_trailer"
  "opens_with classic_default_keys ndef_sector_trailer = Some 0x61"
  "opens_with classic_default_keys mad_sector_trailer = Some 0x61"
  "slice 10 16 ndef_sector_trailer \<in> set classic_default_keys"
proof -
  have a: "a < 3 \<Longrightarrow> a = 0 \<or> a = 1 \<or> a = 2" "a \<le> 3 \<Longrightarrow> a = 0 \<or> a = 1 \<or> a = 2 \<or> a = 3" for a :: nat by auto
  show "trailer_grants kb a w ndef_sector_trailer" if "a < 3"
    using a(1) [OF that] by (elim disjE) (simp_all add: trailer_grants_def format_trailers_valid cond_index_def Let_def
        classic_data_read_perm_def classic_data_write_perm_def)
  show "trailer_grants True a True ndef_sector_trailer" if "a \<le> 3"
    using a(2) [OF that] by (elim disjE) (simp_all add: trailer_grants_def format_trailers_valid cond_index_def Let_def
        classic_data_write_perm_def classic_trailer_write_perm_def)
  show "trailer_grants True a True mad_sector_trailer" if "a \<le> 3"
    using a(2) [OF that] by (elim disjE) (simp_all add: trailer_grants_def format_trailers_valid cond_index_def Let_def
        classic_data_write_perm_def classic_trailer_write_perm_def)
  show "opens_with classic_default_keys ndef_sector_trailer = Some 0x61"
    "opens_with classic_default_keys mad_sector_trailer = Some 0x61"
    "slice 10 16 ndef_sector_trailer \<in> set classic_default_keys" by code_simp+
qed

definition format_jobs :: "classic_tag \<Rightarrow> bytes \<Rightarrow> (nat \<times> bytes \<times> string) list" where
  "format_jobs t tlv = concat (map (format_sector t tlv) [1..<16])"

lemma format_jobs_blocks: "map fst (format_jobs t tlv) = [4..<64]"
proof -
  have "map fst (format_sector t tlv sec) = [sec * 4, sec * 4 + 1, sec * 4 + 2, sec * 4 + 3]" for sec
    by (simp add: format_sector_def eval_nat_numeral)
  then have "map fst (format_jobs t tlv) = concat (map (\<lambda>sec. [sec * 4, sec * 4 + 1, sec * 4 + 2, sec * 4 + 3]) [1..<16])"
    by (simp add: format_jobs_def map_concat o_def)
  also have "\<dots> = [4..<64]" by code_simp
  finally show ?thesis .
qed

lemma format_job_at:
  assumes "1 \<le> sec" "sec < 16"
  shows "b < 3 \<Longrightarrow> \<exists>e. (sec * 4 + b, format_chunk tlv (3 * (sec - 1) + b), e) \<in> set (format_jobs t tlv)"
    "\<exists>e. (sec * 4 + 3, ndef_sector_trailer, e) \<in> set (format_jobs t tlv)"
proof -
  have i: "set (format_sector t tlv sec) \<subseteq> set (format_jobs t tlv)" using assms by (auto simp: format_jobs_def)
  show "b < 3 \<Longrightarrow> \<exists>e. (sec * 4 + b, format_chunk tlv (3 * (sec - 1) + b), e) \<in> set (format_jobs t tlv)"
    using i by (fastforce simp: format_sector_def)
  show "\<exists>e. (sec * 4 + 3, ndef_sector_trailer, e) \<in> set (format_jobs t tlv)"
    using i by (fastforce simp: format_sector_def)
qed

lemma data_blocks_1k: "data_blocks False 4 = concat (map (\<lambda>s. map (\<lambda>b. s * 4 + b) [0..<3]) [1..<16])"
  by code_simp

lemma data_order: "concat (map (\<lambda>s. map (\<lambda>b. 3 * (s - 1) + b) [0..<3]) [1..<16]) = [0..<45]"
  by code_simp

text \<open>A formatted card, by its blocks.\<close>

definition formatted :: "bytes \<Rightarrow> classic_card \<Rightarrow> bool" where
  "formatted tlv m \<longleftrightarrow> \<not> ccIs4K m \<and> cl_wf m \<and> (\<forall>s < 16. \<not> ccBricked m s) \<and> ccBlocks m ! 3 = mad_sector_trailer \<and>
     (\<forall>s. 1 \<le> s \<longrightarrow> s < 16 \<longrightarrow> ccBlocks m ! (s * 4 + 3) = ndef_sector_trailer \<and>
        (\<forall>b < 3. ccBlocks m ! (s * 4 + b) = format_chunk tlv (3 * (s - 1) + b)))"

lemma format_card:
  assumes "format_ready keys m" "cl_keys_ok keys" "\<not> clIs4K t" "length x \<le> 715"
  shows "\<exists>m'. format_and_write_ndef t keys classic_transport x m = (Inr (), m') \<and> formatted (pad_blocks (tlv_encode x TLVNDEF)) m'"
proof -
  let ?tlv = "pad_blocks (tlv_encode x TLVNDEF)"
  have need: "length ?tlv div 16 \<le> 45"
    using classic_need [of x False] assms(4) by (simp add: classic_space_def usable_values)
  have cap: "length ?tlv \<le> 720" using need pad_blocks_length(1) [of "tlv_encode x TLVNDEF"] by (auto elim!: dvdE)
  obtain m1 where m1: "preflight t keys classic_transport [0..<16] m = (Inr (), m1)" "cl_same m m1"
    using preflight_card [OF format_ready_open [OF assms(1)] assms(2), of "[0..<16]" t] by auto
  have r1: "\<not> ccIs4K m1" "cl_wf m1" "\<And>b. 1 \<le> b \<Longrightarrow> b < 64 \<Longrightarrow> granted keys True b m1"
    using assms(1) format_ready_same [OF m1(2)] by (auto simp: format_ready_def)
  have g0: "\<forall>sec \<in> set [0]. \<forall>b. b \<noteq> 0 \<longrightarrow> b div 4 = sec \<longrightarrow> granted keys True b m1" using r1(3) by auto
  obtain a2 m2 where m2: "write_block_list classic_transport (clUID t) keys mad_writes None m1 = (Inr (), a2, m2)"
      "cl_same (m1\<lparr>ccBlocks := stores mad_writes (ccBlocks m1)\<rparr>) m2" "cl_wf m2"
    using sectors_card [OF r1(2,1) assms(2) _ _ _ g0, of None "\<lambda>_. mad_writes" "clUID t"] mad_job by auto
  have k2: "\<not> ccIs4K m2" using m2(2) r1(1) by (simp add: cl_same_def)
  have d4: "\<forall>w \<in> set mad_writes. fst w div 4 = 0" by (simp add: mad_writes_def)
  have g2: "\<forall>sec \<in> set [1..<16]. \<forall>b. b \<noteq> 0 \<longrightarrow> b div 4 = sec \<longrightarrow> granted keys True b m2"
  proof (intro ballI allI impI)
    fix sec b assume s: "sec \<in> set [1..<16]" "b \<noteq> 0" "b div 4 = sec"
    then have "1 \<le> b" "b < 64" "b div 4 \<noteq> 0" by auto
    then show "granted keys True b m2" using granted_other_sector [OF r1(1) d4 _ m2(2)] r1(3) by simp
  qed
  have jobs: "\<forall>sec \<in> set [1..<16]. sector_job sec (format_sector t ?tlv sec)" using data_job by simp
  obtain a3 m3 where m3: "write_block_list classic_transport (clUID t) keys (format_jobs t ?tlv) None m2 = (Inr (), a3, m3)"
      "cl_same (m2\<lparr>ccBlocks := stores (format_jobs t ?tlv) (ccBlocks m2)\<rparr>) m3" "cl_wf m3"
    using sectors_card [OF m2(3) k2 assms(2) distinct_upt _ jobs g2, of None "clUID t"] unfolding format_jobs_def by auto
  have mad: "write_mad t keys classic_transport m1 = (Inr (), m2)" using m2(1) by (simp only: write_mad_def mad_writes_def prod.case)
  have run: "format_and_write_ndef t keys classic_transport x m = (Inr (), m3)"
    using assms(3) cap m1(1) mad m3(1)
    by (simp add: format_and_write_ndef_def Let_def format_trailers_valid format_jobs_def del: upt.simps One_nat_def)
  have bl: "ccBlocks m3 = stores (format_jobs t ?tlv) (stores mad_writes (ccBlocks m))" "ccBricked m3 = ccBricked m" "\<not> ccIs4K m3"
    using m1(2) m2(2) m3(2) k2 by (simp_all add: cl_same_def)
  have dist: "distinct (map fst (format_jobs t ?tlv))" by (simp add: format_jobs_blocks)
  have l: "length (ccBlocks m) = 64" using assms(1) by (simp add: format_ready_def cl_wf_def max_blocks_def)
  have "formatted ?tlv m3"
    unfolding formatted_def
  proof (intro conjI allI impI)
    show "\<not> ccIs4K m3" "cl_wf m3" by (rule bl(3), rule m3(3))
    fix s :: nat assume "s < 16"
    then have "granted keys True (s * 4 + 3) m" "classic_sector_of (s * 4 + 3) (ccIs4K m) = s"
      using assms(1) by (auto simp: format_ready_def classic_sector_of_def)
    then show "\<not> ccBricked m3 s" by (simp add: granted_def bl(2))
  next
    have "(3 :: nat) \<notin> set (map fst (format_jobs t ?tlv))" unfolding format_jobs_blocks by simp
    then have "(3 :: nat) \<notin> fst ` set (format_jobs t ?tlv)" by simp
    then have "ccBlocks m3 ! 3 = stores mad_writes (ccBlocks m) ! 3" unfolding bl(1) by (rule stores_other)
    then show "ccBlocks m3 ! 3 = mad_sector_trailer" using l by (simp add: stores_def mad_writes_def)
  next
    fix s :: nat assume s: "1 \<le> s" "s < 16"
    then obtain e where "(s * 4 + 3, ndef_sector_trailer, e) \<in> set (format_jobs t ?tlv)" using format_job_at(2) by blast
    from stores_in [OF dist this] show "ccBlocks m3 ! (s * 4 + 3) = ndef_sector_trailer" using s l by (simp add: bl(1))
    fix b :: nat assume b: "b < 3"
    then obtain e where "(s * 4 + b, format_chunk ?tlv (3 * (s - 1) + b), e) \<in> set (format_jobs t ?tlv)"
      using format_job_at(1) [OF s b] by blast
    from stores_in [OF dist this] show "ccBlocks m3 ! (s * 4 + b) = format_chunk ?tlv (3 * (s - 1) + b)" using s b l by (simp add: bl(1))
  qed
  then show ?thesis using run by blast
qed

section \<open>A formatted card\<close>

lemma formatted_trailer:
  assumes "formatted tlv m" "1 \<le> b" "b < 64"
  shows "trailer_of b m = (if b < 4 then mad_sector_trailer else ndef_sector_trailer)" "\<not> ccBricked m (classic_sector_of b (ccIs4K m))"
    "classic_area_index b (ccIs4K m) = b mod 4"
proof -
  have k: "\<not> ccIs4K m" using assms(1) by (simp add: formatted_def)
  have s: "b div 4 < 16" using assms(3) by simp
  have "b < 4 \<longleftrightarrow> \<not> 1 \<le> b div 4" by linarith
  then show "trailer_of b m = (if b < 4 then mad_sector_trailer else ndef_sector_trailer)"
    using assms(1) k s by (auto simp: formatted_def trailer_of_def classic_trailer_block_def classic_sector_of_def)
  show "\<not> ccBricked m (classic_sector_of b (ccIs4K m))" using assms(1) k s by (simp add: formatted_def classic_sector_of_def)
  show "classic_area_index b (ccIs4K m) = b mod 4" using k by (simp add: classic_area_index_def)
qed

lemma formatted_open:
  assumes "formatted tlv m"
  shows "classic_open (keys_to_try cands) m"
  unfolding classic_open_def
proof (intro ballI allI)
  fix b w assume b: "b \<in> set (data_blocks (ccIs4K m) 4)"
  have k: "\<not> ccIs4K m" using assms by (simp add: formatted_def)
  have b': "4 \<le> b" "b < 64" "b mod 4 < 3"
  proof -
    show "4 \<le> b" "b < 64" using data_blocks_at [OF b] k by (simp_all add: max_blocks_def)
    have "(b + 1) mod 4 \<noteq> 0" using data_blocks_card(3) [OF b] k by (simp add: is_sector_trailer_def)
    then show "b mod 4 < 3" by presburger
  qed
  have "set classic_default_keys \<subseteq> set (keys_to_try cands)" by (simp add: keys_to_try_def)
  then obtain kt where "opens_with (keys_to_try cands) ndef_sector_trailer = Some kt"
    using opens_with_mem [OF _ refl] formatted_grants(6) by blast
  then show "granted (keys_to_try cands) w b m"
    using formatted_trailer [OF assms, of b] b' formatted_grants(1) [OF b'(3)] by (simp add: granted_def)
qed

lemma formatted_area:
  assumes "formatted tlv m" "length tlv \<le> 720"
  shows "classic_area m = tlv @ replicate (720 - length tlv) 0"
proof -
  have k: "\<not> ccIs4K m" using assms by (simp add: formatted_def)
  have "map (\<lambda>b. ccBlocks m ! b) (data_blocks False 4) =
      concat (map (\<lambda>s. map (\<lambda>b. ccBlocks m ! (s * 4 + b)) [0..<3]) [1..<16])"
    unfolding data_blocks_1k by (simp only: map_concat map_map o_def)
  also have "\<dots> = concat (map (\<lambda>s. map (\<lambda>b. format_chunk tlv (3 * (s - 1) + b)) [0..<3]) [1..<16])"
    by (rule arg_cong [where f = concat], intro map_cong refl) (use assms(1) in \<open>auto simp: formatted_def\<close>)
  also have "\<dots> = map (format_chunk tlv) (concat (map (\<lambda>s. map (\<lambda>b. 3 * (s - 1) + b) [0..<3]) [1..<16]))"
    by (simp only: map_concat map_map o_def)
  finally have "classic_area m = concat (map (format_chunk tlv) [0..<45])" unfolding data_order using k by (simp add: classic_area_def)
  then show ?thesis using format_chunks [of tlv 45] assms(2) by simp
qed

lemma formatted_holds:
  assumes "formatted (pad_blocks (tlv_encode x TLVNDEF)) m" "length x \<le> 715" "\<not> clIs4K t" "cl_keys_ok cands"
  shows "classic_holds t (cands, m) x"
proof -
  let ?tlv = "pad_blocks (tlv_encode x TLVNDEF)"
  have "length ?tlv div 16 \<le> 45" using classic_need [of x False] assms(2) by (simp add: classic_space_def usable_values)
  then have "length ?tlv \<le> 720" using pad_blocks_length(1) [of "tlv_encode x TLVNDEF"] by (auto elim!: dvdE)
  then have "\<exists>r. classic_area m = tlv_encode x TLVNDEF @ r" using formatted_area [OF assms(1)] by (simp add: pad_blocks_def)
  then show ?thesis using assms formatted_open [OF assms(1)] by (simp add: classic_holds_def formatted_def)
qed

lemma formatted_ready:
  assumes "formatted tlv m"
  shows "format_ready (keys_to_try []) m"
proof -
  have "granted (keys_to_try []) True b m" if b: "1 \<le> b" "b < 64" for b
  proof -
    have "b mod 4 \<le> 3" by (simp add: less_Suc_eq_le [symmetric])
    note g = formatted_grants(2,3) [OF this]
    have "opens_with (keys_to_try []) (trailer_of b m) = Some 0x61 \<and> trailer_grants True (b mod 4) True (trailer_of b m)"
      unfolding formatted_trailer(1) [OF assms b]
      by (cases "b < 4") (simp_all only: if_True if_False g formatted_grants(4,5) keys_to_try_def simp_thms refl)
    then show ?thesis using formatted_trailer(2,3) [OF assms b] by (simp add: granted_def)
  qed
  then show ?thesis using assms by (simp add: format_ready_def formatted_def)
qed

text \<open>A card as it comes from the factory.\<close>

lemma transport_conditions: "access_conditions transport_trailer = Some [(0, 0, 0), (0, 0, 0), (0, 0, 0), (0, 0, 1)]"
  "slice 0 6 transport_trailer = replicate 6 0xFF" "slice 10 16 transport_trailer = replicate 6 0xFF" "length transport_trailer = 16"
  by code_simp+

lemma transport_opens: "opens_with (keys_to_try cands) transport_trailer = Some 0x60"
proof -
  have "opens_with keys transport_trailer = Some 0x60" if "replicate 6 0xFF \<in> set keys" for keys
    using that transport_conditions(2,3) by (induction keys) (auto simp del: slice_0)
  then show ?thesis by (simp add: keys_to_try_def classic_default_keys_def)
qed

lemma blank_format_ready: "format_ready (keys_to_try cands) new_classic_emulator"
proof -
  have wf: "cl_wf new_classic_emulator" by (auto simp: cl_wf_def new_classic_emulator_def max_blocks_def transport_conditions)
  have "granted (keys_to_try cands) True b new_classic_emulator" if "b < 64" for b
  proof -
    have "b div 4 * 4 + 3 < 64" "(b div 4 * 4 + 3) mod 4 = 3" using group_end [of b 16 4] that by simp_all
    then have t: "trailer_of b new_classic_emulator = transport_trailer"
      by (simp add: trailer_of_def new_classic_emulator_def classic_trailer_block_def classic_sector_of_def)
    have "b mod 4 = 0 \<or> b mod 4 = 1 \<or> b mod 4 = 2 \<or> b mod 4 = 3" by presburger
    then have "trailer_grants False (b mod 4) True transport_trailer"
      by (elim disjE) (simp_all add: trailer_grants_def transport_conditions cond_index_def Let_def
          classic_data_write_perm_def classic_trailer_write_perm_def)
    then show ?thesis
      unfolding granted_def t transport_opens by (simp add: new_classic_emulator_def classic_area_index_def)
  qed
  then show ?thesis using wf by (simp add: format_ready_def new_classic_emulator_def)
qed

section \<open>A format that stops half way\<close>

text \<open>
  The preflight authenticates every sector but does not ask whether the key it found may rewrite the
  trailer. With the NFC Forum key configured, it opens a formatted sector as key A, which may write the
  data and not the trailer: the format overwrites the directory and the first sector, and stops.
\<close>

definition forum_key :: bytes where
  "forum_key = [0xD3, 0xF7, 0xD3, 0xF7, 0xD3, 0xF7]"

lemma write_block_refused:
  assumes "cl_wf m" "cl_keys_ok keys" "b < max_blocks (ccIs4K m)" "granted keys False b m" "length d = 16" "b \<noteq> 0"
    and "carried keys a m" "opens_with keys (trailer_of b m) = Some 0x60"
    and "\<not> trailer_grants False (classic_area_index b (ccIs4K m)) True (trailer_of b m)"
  shows "\<exists>m'. write_block classic_transport uid keys b d a m = (Inl (apdu_error 0x63 0x00), Some (b div 4), m') \<and> cl_same m m'"
proof -
  obtain m1 where m1: "with_sector classic_transport uid keys b a m = (Inr (), Some (b div 4), m1)" "cl_same m m1"
      "opened_for keys b m1"
    using with_sector_card [OF assms(1-4), of a uid] assms(7) by (auto simp: carried_def)
  note k = cl_same_keeps [OF m1(2)]
  have b: "b < 256" "ccRemoveAfter m1 = 0" using assms(1,3) k m1(2)
    by (auto simp: cl_wf_def max_blocks_def cl_same_def split: if_splits)
  have p: "unat (of_nat b :: byte) = b" using b by (simp add: unat_of_nat)
  have c: "update_binary_apdu (of_nat b) d = [0xFF, 0xD6, 0x00, of_nat b, 16] @ d"
    using assms(5) by (auto simp: update_binary_apdu_def build_apdu_def byteN_def)
  let ?m2 = "m1\<lparr>ccOps := ccOps m1 + 1\<rparr>"
  have "ccAuthedKey m1 = 0x60" using m1(3) assms(8) k by (simp add: opened_for_def)
  then have "\<not> access_allows b True ?m2" using assms(9) k by (simp add: access_allows_def trailer_of_def)
  then have r: "trSend classic_transport (update_binary_apdu (of_nat b) d) m1 = (Inr emu_fail, ?m2)"
    unfolding c using b assms(5)
    by (simp add: classic_transport_def classic_transceive_def classic_command_def Let_def p del: One_nat_def)
  have "cl_same m ?m2" using m1(2) by (simp add: cl_same_def)
  then show ?thesis
    using assms(5) parse_apdu_response_split [of "[]"]
    by (auto simp: write_block_def m1(1) r is_success_def emu_fail_def apdu_status_error_def has_more_data_def)
qed

lemma forum_key_b: "slice 10 16 ndef_sector_trailer = replicate 6 0xFF" "slice 10 16 mad_sector_trailer = replicate 6 0xFF"
  by code_simp+

lemma forum_key_opens:
  "opens_with (keys_to_try [forum_key]) ndef_sector_trailer = Some 0x60"
  "opens_with (keys_to_try [forum_key]) mad_sector_trailer = Some 0x61"
  "\<not> trailer_grants False 3 True ndef_sector_trailer" "trailer_grants False 3 False ndef_sector_trailer"
  by code_simp+

lemma format_stops_halfway:
  assumes "formatted tlv m" "\<not> clIs4K t" "length x \<le> 715"
  shows "\<exists>e m'. format_and_write_ndef t (keys_to_try [forum_key]) classic_transport x m = (Inl e, m') \<and>
    (\<forall>b < 3. ccBlocks m' ! (4 + b) = format_chunk (pad_blocks (tlv_encode x TLVNDEF)) b) \<and>
    (\<forall>b. 8 \<le> b \<longrightarrow> ccBlocks m' ! b = ccBlocks m ! b)"
proof -
  let ?ks = "keys_to_try [forum_key]"
  let ?tlv = "pad_blocks (tlv_encode x TLVNDEF)"
  have ks: "cl_keys_ok ?ks" by (rule cl_keys_ok_try) (simp add: cl_keys_ok_def forum_key_def)
  have "length ?tlv div 16 \<le> 45" using classic_need [of x False] assms(3) by (simp add: classic_space_def usable_values)
  then have cap: "length ?tlv \<le> 720" using pad_blocks_length(1) [of "tlv_encode x TLVNDEF"] by (auto elim!: dvdE)
  note tr = formatted_trailer [OF assms(1)]
  have k: "\<not> ccIs4K m" "cl_wf m" "length (ccBlocks m) = 64" using assms(1) by (auto simp: formatted_def cl_wf_def max_blocks_def)
  have op: "\<exists>kt. opens_with ?ks (trailer_of b m) = Some kt" if "1 \<le> b" "b < 64" for b
    unfolding tr(1) [OF that] using forum_key_opens by simp
  obtain m1 where m1: "preflight t ?ks classic_transport [0..<16] m = (Inr (), m1)" "cl_same m m1"
    using preflight_card [of ?ks m "[0..<16]" t] ks k tr(2) op by (auto simp: sectors_open_def)
  note k1 = cl_same_keeps [OF m1(2)]
  have g0: "\<forall>sec \<in> set [0]. \<forall>b. b \<noteq> 0 \<longrightarrow> b div 4 = sec \<longrightarrow> granted ?ks True b m1"
  proof (intro ballI allI impI)
    fix sec b :: nat assume "sec \<in> set [0]" "b \<noteq> 0" "b div 4 = sec"
    then have b: "1 \<le> b" "b < 64" "b < 4" by auto
    have "granted ?ks True b m"
      using tr [OF b(1,2)] b(3) forum_key_opens(2) formatted_grants(3) [of b] by (simp add: granted_def)
    then show "granted ?ks True b m1" using granted_same [OF m1(2)] by simp
  qed
  have r1: "\<not> ccIs4K m1" "cl_wf m1" using k k1 by simp_all
  obtain a2 m2 where m2: "write_block_list classic_transport (clUID t) ?ks mad_writes None m1 = (Inr (), a2, m2)"
      "cl_same (m1\<lparr>ccBlocks := stores mad_writes (ccBlocks m1)\<rparr>) m2" "cl_wf m2"
    using sectors_card [OF r1(2,1) ks _ _ _ g0, of None "\<lambda>_. mad_writes" "clUID t"] mad_job by auto
  have k2: "\<not> ccIs4K m2" "ccBlocks m2 = stores mad_writes (ccBlocks m)" using m2(2) r1(1) k1 by (simp_all add: cl_same_def)
  have d4: "\<forall>w \<in> set mad_writes. fst w div 4 = 0" by (simp add: mad_writes_def)
  have g2: "granted ?ks w b m2 = granted ?ks w b m" if "b div 4 \<noteq> 0" for b w
    using granted_other_sector [OF r1(1) d4 that m2(2)] granted_same [OF m1(2)] by simp
  let ?ws = "map (\<lambda>b. (1 * 4 + b, format_chunk ?tlv (3 * (1 - 1) + b),
       ''formatNDEF (UID: '' @ clUID t @ ''): writing block '' @ decimal (1 * 4 + b) @ '': '')) [0..<3]"
  have dw: "data_writes ?ks ?ws m2"
    unfolding data_writes_def
  proof (clarsimp simp: format_chunk_length k2)
    fix b :: nat assume b: "b < 3"
    have c: "4 + b < 8" "(4 + b) mod 4 = b" using b by auto
    have n: "(4 + b + 1) mod 4 \<noteq> 0" using b by presburger
    have "granted ?ks True (4 + b) m"
      using tr [of "4 + b"] c b forum_key_opens(1) formatted_grants(1) [OF b] by (simp add: granted_def)
    then show "4 + b < max_blocks False \<and> \<not> is_sector_trailer False (4 + b) \<and> granted ?ks True (4 + b) m2"
      using g2 [of "4 + b"] c n by (simp add: max_blocks_def is_sector_trailer_def)
  qed
  obtain a3 m3 where m3: "write_block_list classic_transport (clUID t) ?ks ?ws None m2 = (Inr (), a3, m3)"
      "cl_same (m2\<lparr>ccBlocks := stores ?ws (ccBlocks m2)\<rparr>) m3" "cl_wf m3" "carried ?ks a3 m3"
      "\<And>q w. granted ?ks w q m3 = granted ?ks w q m2"
    using write_list_card [OF m2(3) ks _ dw, of None "clUID t"] by (auto simp: carried_def)
  have k3: "\<not> ccIs4K m3" "ccBlocks m3 = stores ?ws (stores mad_writes (ccBlocks m))" using m3(2) k2 by (simp_all add: cl_same_def)
  have t7: "trailer_of 7 m3 = ndef_sector_trailer"
  proof -
    have "(7 :: nat) \<notin> fst ` set ?ws" "(7 :: nat) \<notin> fst ` set mad_writes" by (auto simp: mad_writes_def)
    then have "ccBlocks m3 ! 7 = ccBlocks m ! 7" unfolding k3(2) by (rule trans [OF stores_other stores_other])
    moreover have "ccBlocks m ! 7 = ndef_sector_trailer"
      using tr(1) [of 7] k(1) by (simp add: trailer_of_def classic_trailer_block_def classic_sector_of_def)
    ultimately show ?thesis using k3(1) by (simp add: trailer_of_def classic_trailer_block_def classic_sector_of_def)
  qed
  have "granted ?ks False 7 m"
    using tr [of 7] forum_key_opens(1,4) by (simp add: granted_def)
  then have g7: "granted ?ks False 7 m3" using m3(5) g2 [of 7] by simp
  have refused: "\<exists>m'. write_block classic_transport (clUID t) ?ks 7 ndef_sector_trailer a3 m3 =
      (Inl (apdu_error 0x63 0x00), Some (7 div 4), m') \<and> cl_same m3 m'"
    by (rule write_block_refused [OF m3(3) ks _ g7 format_trailers_valid(6) _ m3(4)])
      (use k3(1) t7 forum_key_opens(1,3) in \<open>simp_all add: max_blocks_def classic_area_index_def\<close>)
  then obtain m4 where m4: "write_block classic_transport (clUID t) ?ks 7 ndef_sector_trailer a3 m3 =
      (Inl (apdu_error 0x63 0x00), Some (7 div 4), m4)" "cl_same m3 m4" by blast
  let ?rest = "concat (map (format_sector t ?tlv) [2..<16])"
  have u: "[1..<16] = 1 # [2..<(16 :: nat)]" by (simp add: upt_rec)
  have jobs: "concat (map (format_sector t ?tlv) [1..<16]) = ?ws @ ((7, ndef_sector_trailer,
      ''formatNDEF (UID: '' @ clUID t @ ''): writing trailer for sector '' @ decimal 1 @ '': '') # ?rest)"
    unfolding u list.map concat.simps by (simp only: format_sector_def append.assoc append_Cons append_Nil) simp
  obtain e a4 where stop: "write_block_list classic_transport (clUID t) ?ks (concat (map (format_sector t ?tlv) [1..<16])) None m2 = (Inl e, a4, m4)"
    unfolding jobs write_block_list_append m3(1) prod.case sum.case write_block_list.simps(2) m4(1) by blast
  have mad: "write_mad t ?ks classic_transport m1 = (Inr (), m2)" using m2(1) by (simp only: write_mad_def mad_writes_def prod.case)
  have run: "format_and_write_ndef t ?ks classic_transport x m = (Inl e, m4)"
    using assms(2) cap m1(1) mad stop
    by (simp add: format_and_write_ndef_def Let_def format_trailers_valid del: upt.simps One_nat_def)
  have b4: "ccBlocks m4 = stores ?ws (stores mad_writes (ccBlocks m))" using m4(2) k3(2) by (simp add: cl_same_def)
  have "\<forall>b < 3. ccBlocks m4 ! (4 + b) = format_chunk ?tlv b"
  proof (intro allI impI)
    fix b :: nat assume b: "b < 3"
    have "distinct (map fst ?ws)" by (simp add: eval_nat_numeral)
    from stores_in [OF this, of "4 + b" "format_chunk ?tlv b"] show "ccBlocks m4 ! (4 + b) = format_chunk ?tlv b"
      unfolding b4 using b k(3) by fastforce
  qed
  moreover have "\<forall>b. 8 \<le> b \<longrightarrow> ccBlocks m4 ! b = ccBlocks m ! b"
  proof (intro allI impI)
    fix b :: nat assume "8 \<le> b"
    then have "b \<notin> fst ` set ?ws" "b \<notin> fst ` set mad_writes" by (auto simp: mad_writes_def)
    then show "ccBlocks m4 ! b = ccBlocks m ! b" unfolding b4 by (rule trans [OF stores_other stores_other])
  qed
  ultimately show ?thesis using run by blast
qed

end
