(* ===== verification/TagProps.thy ===== *)
theory TagProps
  imports PageTagsOnCard ClassicFormat
begin

text \<open>
  The properties of the tag drivers other than the NTAG 424 DNA's, each on the emulated card.
\<close>

section \<open>Page tags\<close>

text \<open>
  C19. What a page tag holds, exactly: on every page-oriented kind the driver takes a message if
  and only if it and its TLV frame fit the user pages (45, 141, 125, 141, 499 and 883 bytes for the
  Ultralight, Ultralight C, MF0UL21, NTAG213, NTAG215 and NTAG216); a longer one is refused with the card
  unchanged, by an error the write path retries. The capacity the tag advertises is larger for all but
  the Ultralight C, so there some messages pass the capacity check and are then refused.
\<close>

theorem page_room_is_tight:
  assumes "page_holds k m d" "length x < 65536"
  shows "((\<exists>m'. tgWrite (page_tag uid k) x m = (Inr (), m')) \<longleftrightarrow> length x \<le> page_space k) \<and>
    (page_space k < length x \<longrightarrow> (\<exists>e m'. tgWrite (page_tag uid k) x m = (Inl e, m') \<and> mcPages m' = mcPages m \<and>
      \<not> is_permanent_write_error e)) \<and>
    map page_space page_kinds = [45, 141, 125, 141, 499, 883] \<and>
    map (\<lambda>j. capMaxNDEF (tgCaps (page_tag uid j) m)) page_kinds = [46, 137, 126, 144, 504, 888]"
proof (intro conjI)
  have r: "\<exists>e m'. tgWrite (page_tag uid k) x m = (Inl e, m') \<and> mcPages m' = mcPages m \<and> \<not> is_permanent_write_error e"
    if "page_space k < length x" by (rule page_write_refused [OF assms(1) that assms(2)])
  have t: "\<exists>m'. tgWrite (page_tag uid k) x m = (Inr (), m')" if "length x \<le> page_space k"
    by (rule page_write_taken [OF assms(1) that assms(2)])
  show "(\<exists>m'. tgWrite (page_tag uid k) x m = (Inr (), m')) \<longleftrightarrow> length x \<le> page_space k"
    using r t by (cases "length x \<le> page_space k") auto
  show "page_space k < length x \<longrightarrow> (\<exists>e m'. tgWrite (page_tag uid k) x m = (Inl e, m') \<and>
      mcPages m' = mcPages m \<and> \<not> is_permanent_write_error e)" using r by blast
qed (rule page_space_at page_room_values(3))+

theorem page_room_is_tight_witness:
  "\<exists>e m'. tgWrite (page_tag ''04'' DetectedNTAG213) (replicate 144 7) (page_card DetectedNTAG213) = (Inl e, m') \<and>
     \<not> is_permanent_write_error e \<and>
     capMaxNDEF (tgCaps (page_tag ''04'' DetectedNTAG213) (page_card DetectedNTAG213)) = 144"
proof -
  have k: "DetectedNTAG213 \<in> set page_kinds" by (simp add: page_kinds_def)
  have l: "length (replicate 144 (7 :: byte)) < 65536" by simp
  note c = page_room_is_tight [OF page_card_blank [OF k] l, of "''04''"]
  have "map page_space page_kinds ! 3 = 141" using c by (simp add: page_kinds_def)
  then have p: "page_space DetectedNTAG213 < length (replicate 144 (7 :: byte))" by (simp add: page_kinds_def)
  have q: "capMaxNDEF (tgCaps (page_tag ''04'' DetectedNTAG213) (page_card DetectedNTAG213)) = 144"
    using c by (simp add: page_kinds_def)
  show ?thesis using c p q by blast
qed

text \<open>
  C20. A confirmed write on a page tag lands: for every page-oriented kind and any card in working
  order, overwriting it with a message that fits succeeds at the first attempt, reports the bytes
  written and that they were verified, and leaves a card that holds the message and from which the same
  records are read back.
\<close>

theorem page_tags_confirmed_write:
  assumes "page_holds k m d" "list_all record_ok msg" "msg \<noteq> []" "encode_message (NdefMessage msg) = Inr e"
    and "length e \<le> page_room k" "woOverwrite opts" "\<not> woForceInit opts" "\<not> woLock opts"
  shows "\<exists>res c' m'. write_message sleep (new_card (page_tag uid k) m) msg opts m = (Inr res, c', m') \<and>
    wrBytes res = length e \<and> wrVerified res = (\<not> woSkipVerify opts) \<and> wrAttempts res = 1 \<and> page_holds k m' e \<and>
    (\<exists>c2 m2. card_read_message (new_card (page_tag uid k) m') m' = (Inr (NdefMessage (map norm_record msg)), c2, m2))"
proof -
  note b = encoded_message_parses [OF assms(2-4)]
  have k: "k \<in> set page_kinds" using assms(1) by (simp add: page_holds_def)
  obtain c' m' where w: "write_message sleep (new_card (page_tag uid k) m) msg opts m =
      (Inr (new_write_result (new_card (page_tag uid k) m) (length e) (\<not> woSkipVerify opts) 1 False), c', m')"
    "page_holds k m' e"
    using pages.write_message_lands [OF assms(1,4,5) b(1) assms(6-8)] by blast
  then show ?thesis
    using pages.reads_message [OF w(2) b page_room_capacity(3) [OF k]] by (fastforce simp: new_write_result_def)
qed

definition uri_message :: "ndef_record list" where
  "uri_message = [\<lparr>rTNF = 1, rType = [0x55], rID = [], rPayload = [4, 0x61]\<rparr>]"

theorem page_tags_confirmed_write_witness:
  "\<exists>res c' m'. write_message (\<lambda>n s. s) (new_card (page_tag ''04'' DetectedUltralight) (page_card DetectedUltralight))
     uri_message (\<lparr>woOverwrite = True, woIndex = -1, woForceInit = False, woExpectUID = [], woSkipVerify = False,
      woMaxAttempts = 0, woSkipCapacity = False, woLock = False\<rparr>) (page_card DetectedUltralight) = (Inr res, c', m') \<and>
     wrVerified res \<and> wrBytes res = 6"
proof -
  have e: "encode_message (NdefMessage uri_message) = Inr [0xD1, 1, 2, 0x55, 4, 0x61]"
    by (simp add: encode_message_def uri_message_def encode_ndef_records_def encode_record_def byteN_def Let_def mapErr_def)
  have k: "DetectedUltralight \<in> set page_kinds" by (simp add: page_kinds_def)
  have "list_all record_ok uri_message" "uri_message \<noteq> []" by (simp_all add: uri_message_def record_ok_def)
  from page_tags_confirmed_write [OF page_card_blank [OF k] this e, where sleep = "\<lambda>n s. s" and uid = "''04''"
      and opts = "\<lparr>woOverwrite = True, woIndex = -1, woForceInit = False, woExpectUID = [], woSkipVerify = False,
      woMaxAttempts = 0, woSkipCapacity = False, woLock = False\<rparr>"]
  have "\<exists>res c' m'. write_message (\<lambda>n s. s) (new_card (page_tag ''04'' DetectedUltralight) (page_card DetectedUltralight))
     uri_message (\<lparr>woOverwrite = True, woIndex = -1, woForceInit = False, woExpectUID = [], woSkipVerify = False,
      woMaxAttempts = 0, woSkipCapacity = False, woLock = False\<rparr>) (page_card DetectedUltralight) = (Inr res, c', m') \<and>
     wrBytes res = length [0xD1, 1, 2, 0x55, 4, 0x61 :: byte] \<and> wrVerified res = (\<not> False)"
    unfolding page_room_at by (simp only: write_options.simps) fastforce
  then show ?thesis by (elim exE conjE) (intro exI conjI, assumption, simp_all)
qed



section \<open>MIFARE Classic\<close>

text \<open>
  C14. Nothing the Classic driver writes can cost a card: whatever the card, its keys and access conditions,
  the keys the driver tries and the moment the card leaves the field, a message write changes data blocks
  only, and a format leaves every sector working, the manufacturer block as it was and every sector trailer
  either untouched or the one formatting gives it, which the known key B may rewrite.
\<close>

theorem classic_writes_are_recoverable:
  assumes "clIs4K t = ccIs4K m" "cl_write_data_with_options t keys classic_transport x force m = (r, m')"
  shows "ccBricked m' = ccBricked m \<and> ccBlocks m' ! 0 = ccBlocks m ! 0 \<and>
    (\<not> force \<longrightarrow> (\<forall>b. b < 4 \<or> is_sector_trailer (ccIs4K m) b \<longrightarrow> ccBlocks m' ! b = ccBlocks m ! b)) \<and>
    (\<forall>sec < 16. ccBlocks m' ! (sec * 4 + 3) = ccBlocks m ! (sec * 4 + 3) \<or>
       ccBlocks m' ! (sec * 4 + 3) = format_trailer sec \<and> slice 10 16 (format_trailer sec) = replicate 6 0xFF \<and>
         trailer_grants True 3 True (format_trailer sec))"
proof -
  have key: "slice 10 16 (format_trailer sec) = replicate 6 0xFF" "trailer_grants True 3 True (format_trailer sec)" for sec
    using formatted_grants(2,3) [of 3] forum_key_b by (simp_all add: format_trailer_def)
  have t: "is_sector_trailer k (sec * 4 + 3)" if "sec < 16" for sec k using that by (auto simp: is_sector_trailer_def)
  show ?thesis
  proof (cases "force \<and> \<not> ccIs4K m")
    case True
    then have "partly_formatted m m'"
      using format_safe [of m t keys x] assms(2) by (simp add: cl_write_data_with_options_def)
    then show ?thesis using True key by (auto simp: partly_formatted_def agrees_except_def)
  next
    case False
    have same: "m' = m" if force "ccIs4K m"
      using that assms by (simp add: cl_write_data_with_options_def format_and_write_ndef_def)
    have "agrees_except (set (data_blocks (ccIs4K m) 4)) m m'"
    proof (cases force)
      case False
      then show ?thesis using write_data_safe [OF assms(1), of keys x] assms(2) by (simp add: cl_write_data_with_options_def)
    qed (use False same in \<open>simp add: agrees_except_def\<close>)
    moreover have "b \<notin> set (data_blocks (ccIs4K m) 4)" if "b < 4 \<or> is_sector_trailer (ccIs4K m) b" for b
      using that data_blocks_at by fastforce
    ultimately show ?thesis using t by (simp add: agrees_except_def)
  qed
qed

theorem classic_writes_are_recoverable_witness:
  "\<exists>r m'. cl_write_data_with_options (new_classic_tag ''04'' DetectedClassic1K) [] classic_transport [0xD0, 0, 0] True
      new_classic_emulator = (r, m') \<and> ccBricked m' = ccBricked new_classic_emulator"
proof -
  obtain r m' where e: "cl_write_data_with_options (new_classic_tag ''04'' DetectedClassic1K) [] classic_transport [0xD0, 0, 0] True
      new_classic_emulator = (r, m')" by fastforce
  have k: "clIs4K (new_classic_tag ''04'' DetectedClassic1K) = ccIs4K new_classic_emulator"
    by (simp add: new_classic_tag_def new_classic_emulator_def)
  from classic_writes_are_recoverable [OF k e] show ?thesis using e by blast
qed

text \<open>
  C24. Formatting makes a tag: on a MIFARE Classic 1K whose sectors the driver's keys open for writing, a
  factory-fresh one among them, a forced write of any message of at most 715 bytes succeeds; the message
  and any written later without force are read back by a driver with any keys of its own, and the card
  can be formatted again with the default keys alone.
\<close>

theorem classic_format_makes_a_tag:
  assumes "format_ready (keys_to_try cands) m" "cl_keys_ok cands" "\<not> clIs4K t" "length x \<le> 715" "x \<noteq> []"
    and "cl_keys_ok cands'" "length y \<le> 715" "y \<noteq> []"
  shows "\<exists>m1 m2. cl_write_data_with_options t (keys_to_try cands) classic_transport x True m = (Inr (), m1) \<and>
    fst (cl_read_data t (keys_to_try cands') classic_transport m1) = Inr x \<and> format_ready (keys_to_try []) m1 \<and>
    cl_write_data_with_options t (keys_to_try cands') classic_transport y False m1 = (Inr (), m2) \<and>
    fst (cl_read_data t (keys_to_try cands') classic_transport m2) = Inr y"
proof -
  obtain m1 where m1: "format_and_write_ndef t (keys_to_try cands) classic_transport x m = (Inr (), m1)"
      "formatted (pad_blocks (tlv_encode x TLVNDEF)) m1"
    using format_card [OF assms(1) cl_keys_ok_try [OF assms(2)] assms(3,4)] by blast
  have h: "classic_holds t (cands', m1) x" by (rule formatted_holds [OF m1(2) assms(4,3,6)])
  have l: "length y \<le> classic_space (clIs4K t)" "length y < 65536" using assms(3,7) by (simp_all add: classic_space_def usable_values)
  obtain m2 where m2: "cl_write_data t (keys_to_try cands') classic_transport y m1 = (Inr (), m2)" "classic_holds t (cands', m2) y"
    using cl_write_card [OF h l] by blast
  show ?thesis
    using m1(1) m2(1) formatted_ready [OF m1(2)] cl_read_card [OF h] cl_read_card [OF m2(2)] assms(5,8)
    by (auto simp: cl_write_data_with_options_def)
qed

theorem classic_format_makes_a_tag_witness:
  "\<exists>m1. cl_write_data_with_options (new_classic_tag ''04'' DetectedClassic1K) (keys_to_try []) classic_transport
       [0xD0, 0, 0] True new_classic_emulator = (Inr (), m1) \<and>
     fst (cl_read_data (new_classic_tag ''04'' DetectedClassic1K) (keys_to_try []) classic_transport m1) = Inr [0xD0, 0, 0]"
proof -
  have k: "cl_keys_ok []" "\<not> clIs4K (new_classic_tag ''04'' DetectedClassic1K)" by (simp_all add: cl_keys_ok_def new_classic_tag_def)
  have l: "length [0xD0, 0, 0 :: byte] \<le> 715" "[0xD0, 0, 0 :: byte] \<noteq> []" by simp_all
  from classic_format_makes_a_tag [OF blank_format_ready k l k(1) l] show ?thesis by blast
qed

end
