(* ===== verification/Supervisor.thy ===== *)
theory Supervisor
  imports ReaderOps Chaining "HOL-Library.List_Lexorder" "HOL-Library.Char_ord" "HOL-Library.AList"
begin

text \<open>
  The supervisor of every reader, \<open>nfc/supervisor.go\<close> and \<open>nfc/supervisor_ops.go\<close>, with the tag
  holders it routes to (\<open>nfc/tagholder.go\<close>, \<open>nfc/tag_ntag424_session.go\<close>) and the raw sessions and
  sequences of a reader as one caller sees them (\<open>nfc/reader_lease.go\<close>, \<open>nfc/sequence.go\<close>). Each
  operation is one step here; what can happen between the sections of its lock is not modelled. The
  map of readers is a list with one entry per name, in the order the map is iterated in. A phone's
  NTAG 424 session and the operator a tag may offer are arguments of the operations that use them.
\<close>

section \<open>A reader that can be leased\<close>

record 's held_lease =
  hlID :: string
  hlUID :: string
  hlTag :: "'s tag"
  hlTTL :: int
  hlExpires :: int

record ('d, 's) op_reader =
  orReader :: "('d, 's) reader"
  orLease :: "'s held_lease option"
  orClosed :: bool

type_synonym ('d, 's, 'a) op_step = "('d, 's) op_reader \<times> 's \<Rightarrow> (go_error + 'a) \<times> ('d, 's) op_reader \<times> 's"

text \<open>
  \<open>withTagOperation\<close>: the slot is taken while a lease is held, and a caller that waits its bound out
  is refused; one that waits the lease out is the operation after the lease has ended.
\<close>

definition stopping_error :: go_error where
  "stopping_error = PlainError ''nfc: reader is stopping''"

definition with_tag_operation ::
    "(('d, 's) reader \<times> 's \<Rightarrow> (go_error + 'a) \<times> ('d, 's) reader \<times> 's) \<Rightarrow> ('d, 's, 'a) op_step" where
  "with_tag_operation op = (\<lambda>(o1, s).
     if orLease o1 \<noteq> None then (Inl (new_busy_error ''acquire'' (Some (Sentinel ErrReaderBusy))), o1, s)
     else if orClosed o1 then (Inl stopping_error, o1, s)
     else case op (orReader o1, s) of (res, r, s) \<Rightarrow> (res, o1\<lparr>orReader := r\<rparr>, s))"

text \<open>\<open>clampRawSessionTTL\<close> is \<open>clamp_ttl\<close>; times are milliseconds.\<close>

definition clamp_ttl :: "int \<Rightarrow> int" where
  "clamp_ttl ttl = (if ttl \<le> 0 then 5000 else if 30000 < ttl then 30000 else ttl)"

text \<open>\<open>openLease\<close>, with the identifier the random source gave or none.\<close>

definition begin_raw_session ::
    "('d, 's) rd_env \<Rightarrow> string option \<Rightarrow> string \<Rightarrow> int \<Rightarrow> ('d, 's, string) op_step" where
  "begin_raw_session env fresh expectUID ttl = (\<lambda>(o1, s).
     if orLease o1 \<noteq> None then (Inl (new_busy_error ''acquire'' (Some (Sentinel ErrReaderBusy))), o1, s)
     else if orClosed o1 then (Inl stopping_error, o1, s)
     else case sole_tag env expectUID (orReader o1) s of
       (Inl e, s) \<Rightarrow> (Inl e, o1, s)
     | (Inr g, s) \<Rightarrow>
         if \<not> capCanTransceive (tgCaps g s) then (Inl (new_not_supported_error ''Transceive''), o1, s)
         else case fresh of
           None \<Rightarrow> (Inl (PlainError ''random source failed''), o1, s)
         | Some i \<Rightarrow>
             (Inr i, o1\<lparr>orLease := Some \<lparr>hlID = i, hlUID = tgUID g s, hlTag = g, hlTTL = clamp_ttl ttl,
                                        hlExpires = reNow env s + clamp_ttl ttl\<rparr>,
                       orReader := (orReader o1)\<lparr>rdLeaseUID := Some (tgUID g s), rdSlotTaken := True\<rparr>\<rparr>, s))"

definition end_held_lease :: "('d, 's) op_reader \<Rightarrow> ('d, 's) op_reader" where
  "end_held_lease o1 = o1\<lparr>orLease := None, orReader := (orReader o1)\<lparr>rdLeaseUID := None, rdSlotTaken := False\<rparr>\<rparr>"

definition lease_by_id :: "string \<Rightarrow> ('d, 's) op_reader \<Rightarrow> go_error + 's held_lease" where
  "lease_by_id i o1 = (case orLease o1 of
     None \<Rightarrow> Inl (new_raw_session_expired_error ''RawSession'')
   | Some l \<Rightarrow> if hlID l \<noteq> i then Inl (new_raw_session_expired_error ''RawSession'') else Inr l)"

definition end_raw_session :: "string \<Rightarrow> ('d, 's) op_reader \<Rightarrow> (go_error + unit) \<times> ('d, 's) op_reader" where
  "end_raw_session i o1 = (case lease_by_id i o1 of
     Inl e \<Rightarrow> (Inl e, o1)
   | Inr l \<Rightarrow> (Inr (), end_held_lease o1))"

text \<open>The watcher ends a lease whose time has passed.\<close>

definition expire_lease :: "('d, 's) rd_env \<Rightarrow> ('d, 's) op_reader \<times> 's \<Rightarrow> ('d, 's) op_reader \<times> 's" where
  "expire_lease env = (\<lambda>(o1, s). (case orLease o1 of
     Some l \<Rightarrow> if hlExpires l \<le> reNow env s then end_held_lease o1 else o1
   | None \<Rightarrow> o1, s))"

text \<open>One exchange inside a lease: it renews the lease, and a card that has left ends it.\<close>

definition lease_exchange ::
    "('d, 's) rd_env \<Rightarrow> bytes \<Rightarrow> ('d, 's, bytes) op_step" where
  "lease_exchange env data = (\<lambda>(o1, s). case orLease o1 of
     None \<Rightarrow> (Inl (new_raw_session_expired_error ''RawSession''), o1, s)
   | Some l \<Rightarrow> (case tgTransceive (hlTag l) data s of
       (Inl e, s) \<Rightarrow>
         (Inl e, if is_card_removed_error e \<or> is_tag_removed_error e then end_held_lease o1 else o1, s)
     | (Inr resp, s) \<Rightarrow> (Inr resp, o1\<lparr>orLease := Some (l\<lparr>hlExpires := reNow env s + hlTTL l\<rparr>)\<rparr>, s)))"

definition transceive_in_session ::
    "('d, 's) rd_env \<Rightarrow> string \<Rightarrow> bytes \<Rightarrow> ('d, 's, bytes) op_step" where
  "transceive_in_session env i data = (\<lambda>(o1, s).
     if data = [] then (Inl (PlainError ''no command bytes to send''), o1, s)
     else case lease_by_id i o1 of
       Inl e \<Rightarrow> (Inl e, o1, s)
     | Inr l \<Rightarrow> lease_exchange env data (o1, s))"

section \<open>Sequences on a reader\<close>

definition sequence_refusal :: "sequence_error \<Rightarrow> go_error" where
  "sequence_refusal e = PlainError (case e of
     QNoSteps \<Rightarrow> ''no steps to send''
   | QTooMany n \<Rightarrow> ''a sequence carries at most 32 steps, got '' @ decimal n
   | QNoCommand i \<Rightarrow> ''step '' @ decimal i @ '' has no command bytes'')"

definition transceive_sequence_expecting ::
    "('d, 's) rd_env \<Rightarrow> sequence_step list \<Rightarrow> string \<Rightarrow> ('d, 's, sequence_result) op_step" where
  "transceive_sequence_expecting env steps expectUID os = (case validate_sequence steps of
     Inl e \<Rightarrow> (Inl (sequence_refusal e), os)
   | Inr u \<Rightarrow> with_tag_operation (\<lambda>(r, s). case sole_tag env expectUID r s of
       (Inl e, s) \<Rightarrow> (Inl e, r, s)
     | (Inr g, s) \<Rightarrow>
         if \<not> capCanTransceive (tgCaps g s) then (Inl (new_not_supported_error ''Transceive''), r, s)
         else case run_sequence steps (tgTransceive g) s of (res, s) \<Rightarrow> (res, r, s)) os)"

definition transceive_sequence_in_session ::
    "('d, 's) rd_env \<Rightarrow> string \<Rightarrow> sequence_step list \<Rightarrow> ('d, 's, sequence_result) op_step" where
  "transceive_sequence_in_session env i steps os = (case validate_sequence steps of
     Inl e \<Rightarrow> (Inl (sequence_refusal e), os)
   | Inr u \<Rightarrow> (case lease_by_id i (fst os) of
       Inl e \<Rightarrow> (Inl e, os)
     | Inr l \<Rightarrow> run_sequence steps (lease_exchange env) os))"

definition reader_with_ntag424 ::
    "('d, 's) rd_env \<Rightarrow> ('s tag \<Rightarrow> 'o option) \<Rightarrow> string \<Rightarrow> ('o \<Rightarrow> 's \<Rightarrow> (go_error + 'a) \<times> 's)
      \<Rightarrow> ('d, 's, 'a) op_step" where
  "reader_with_ntag424 env operator expectUID fn = with_tag_operation (\<lambda>(r, s).
     case sole_tag env expectUID r s of
       (Inl e, s) \<Rightarrow> (Inl e, r, s)
     | (Inr g, s) \<Rightarrow> (case operator g of
         None \<Rightarrow> (Inl (new_not_supported_error ''NTAG424''), r, s)
       | Some op \<Rightarrow> (case fn op (apply_keys r g s) of (res, s) \<Rightarrow> (res, r, s))))"

section \<open>Holders of tags\<close>

text \<open>
  \<open>TagHolder\<close> and the optional interfaces beside it, as a value of the Go interface. A tag session is
  its two ends: what takes the tag, with the number of the device object it took, and what lets that
  go; the function it is given runs between them.
\<close>

record 's tag_holder =
  thTagOn :: "string \<Rightarrow> 's \<Rightarrow> (string \<times> string) option"
  thHolding :: "'s \<Rightarrow> string list"
  thWrite :: "string \<Rightarrow> string \<Rightarrow> ndef_record list \<Rightarrow> bool \<Rightarrow> string \<Rightarrow> 's \<Rightarrow> (go_error + write_result) \<times> 's"
  thLock :: "string \<Rightarrow> string \<Rightarrow> string \<Rightarrow> 's \<Rightarrow> (go_error + lock_result) \<times> 's"
  thTransceive :: "string \<Rightarrow> string \<Rightarrow> bytes \<Rightarrow> bool \<Rightarrow> 's \<Rightarrow> (go_error + bytes) \<times> 's"
  thCaps :: "string \<Rightarrow> string \<Rightarrow> 's \<Rightarrow> (go_error + tag_caps) \<times> 's"
  thSequence :: "(string \<Rightarrow> string \<Rightarrow> sequence_step list \<Rightarrow> 's \<Rightarrow> (go_error + sequence_result) \<times> 's) option"
  thSession :: "(string \<Rightarrow> string \<Rightarrow> 's \<Rightarrow> (go_error + nat) \<times> 's) option"
  thRelease :: "nat \<Rightarrow> 's \<Rightarrow> 's"
  thTypeOn :: "(string \<Rightarrow> 's \<Rightarrow> string) option"

text \<open>\<open>ntag424Excluded\<close>: the device named another family.\<close>

definition ntag424_excluded :: "string \<Rightarrow> bool" where
  "ntag424_excluded ty =
     (let t = text_lower ty
      in t \<noteq> [] \<and> list_ex (\<lambda>other. text_contains other t)
           [''classic'', ''ultralight'', ''desfire'', ''ntag21'', ''ntag 21'', ''ntag20'', ''ntag 20''])"

text \<open>\<open>TagTransport\<close>: a held tag as a card transport, by exchanges at the APDU level.\<close>

definition tag_transport :: "'s tag_holder \<Rightarrow> string \<Rightarrow> string \<Rightarrow> bytes \<Rightarrow> 's \<Rightarrow> (go_error + bytes) \<times> 's" where
  "tag_transport h device uid cmd = thTransceive h device uid cmd False"

section \<open>The supervisor\<close>

record sv_policy =
  poMode :: reader_mode
  poFeedback :: bool
  poClassic :: "bytes list"
  poDESFire :: "(byte \<times> bytes) list"
  poNTAG424 :: key_set

record ('d, 's) supervisor =
  svReaders :: "(string \<times> ('d, 's) op_reader) list"
  svHolder :: "'s tag_holder option"
  svStarted :: bool
  svDone :: bool
  svPolicy :: sv_policy
  svPhoneTimeout :: int

definition no_ntag424_keys :: key_set where
  "no_ntag424_keys = \<lparr>ksMaster = [], ksSystemID = [], ksSlots = [], ksDiversify = False, ksAllowLRP = False\<rparr>"

definition new_supervisor :: "'s tag_holder option \<Rightarrow> ('d, 's) supervisor" where
  "new_supervisor holder =
     \<lparr>svReaders = [], svHolder = holder, svStarted = False, svDone = False,
      svPolicy = \<lparr>poMode = ModeReadWrite, poFeedback = False, poClassic = [], poDESFire = [],
                  poNTAG424 = no_ntag424_keys\<rparr>,
      svPhoneTimeout = 0\<rparr>"

definition reader_names :: "('d, 's) supervisor \<Rightarrow> string list" where
  "reader_names sv = sort (map fst (svReaders sv))"

definition operates :: "string \<Rightarrow> ('d, 's) supervisor \<Rightarrow> bool" where
  "operates device sv = (map_of (svReaders sv) device \<noteq> None)"

definition set_reader :: "string \<Rightarrow> ('d, 's) op_reader \<Rightarrow> ('d, 's) supervisor \<Rightarrow> ('d, 's) supervisor" where
  "set_reader name o1 sv = sv\<lparr>svReaders := AList.update name o1 (svReaders sv)\<rparr>"

text \<open>Applying a policy to a reader, as the setters and a reader just opened do.\<close>

definition apply_policy :: "sv_policy \<Rightarrow> ('d, 's) reader \<Rightarrow> ('d, 's) reader" where
  "apply_policy p r =
     r\<lparr>rdMode := poMode p, rdFeedbackOn := poFeedback p, rdClassicKeys := poClassic p,
       rdDESFireKeys := poDESFire p, rdNTAG424Keys := poNTAG424 p\<rparr>"

datatype setting =
    SetMode reader_mode | SetFeedback bool | SetClassicKeys "bytes list"
  | SetDESFireKeys "(byte \<times> bytes) list" | SetNTAG424Keys key_set

fun policy_with :: "setting \<Rightarrow> sv_policy \<Rightarrow> sv_policy" where
  "policy_with (SetMode m) p = p\<lparr>poMode := m\<rparr>"
| "policy_with (SetFeedback b) p = p\<lparr>poFeedback := b\<rparr>"
| "policy_with (SetClassicKeys ks) p = p\<lparr>poClassic := ks\<rparr>"
| "policy_with (SetDESFireKeys ks) p = p\<lparr>poDESFire := ks\<rparr>"
| "policy_with (SetNTAG424Keys ks) p = p\<lparr>poNTAG424 := ks\<rparr>"

fun reader_with :: "setting \<Rightarrow> ('d, 's) reader \<Rightarrow> ('d, 's) reader" where
  "reader_with (SetMode m) r = r\<lparr>rdMode := m\<rparr>"
| "reader_with (SetFeedback b) r = r\<lparr>rdFeedbackOn := b\<rparr>"
| "reader_with (SetClassicKeys ks) r = r\<lparr>rdClassicKeys := ks\<rparr>"
| "reader_with (SetDESFireKeys ks) r = r\<lparr>rdDESFireKeys := ks\<rparr>"
| "reader_with (SetNTAG424Keys ks) r = r\<lparr>rdNTAG424Keys := ks\<rparr>"

definition supervisor_set :: "setting \<Rightarrow> ('d, 's) supervisor \<Rightarrow> ('d, 's) supervisor" where
  "supervisor_set c sv =
     sv\<lparr>svPolicy := policy_with c (svPolicy sv),
        svReaders := map (\<lambda>(n, o1). (n, o1\<lparr>orReader := reader_with c (orReader o1)\<rparr>)) (svReaders sv)\<rparr>"

section \<open>Opening and dropping readers\<close>

text \<open>\<open>ListReaders\<close>: a manager lists devices; those that can be polled are readers.\<close>

record device_listing =
  dlPath :: string
  dlID :: string
  dlCanPoll :: bool

definition list_readers :: "go_error + device_listing list \<Rightarrow> go_error + string list" where
  "list_readers listed = (case listed of
     Inl e \<Rightarrow> Inl e
   | Inr ds \<Rightarrow> Inr (map dlPath (filter dlCanPoll ds)))"

text \<open>\<open>Stop\<close> and \<open>Close\<close> of a reader: its lease ends, its gate closes, its device is released.\<close>

definition stop_reader :: "('d, 's) rd_env \<Rightarrow> ('d, 's) op_reader \<Rightarrow> 's \<Rightarrow> ('d, 's) op_reader \<times> 's" where
  "stop_reader env o1 s =
     (let o1 = (end_held_lease o1)\<lparr>orClosed := True\<rparr>; (m, s) = dm_close (reDM env) (rdDM (orReader o1)) s
      in (o1\<lparr>orReader := (orReader o1)\<lparr>rdDM := m\<rparr>\<rparr>, s))"

fun stop_readers ::
    "(string \<Rightarrow> ('d, 's) rd_env) \<Rightarrow> (string \<times> ('d, 's) op_reader) list \<Rightarrow> 's \<Rightarrow> 's" where
  "stop_readers envs [] s = s"
| "stop_readers envs ((n, o1) # os) s = stop_readers envs os (snd (stop_reader (envs n) o1 s))"

fun open_readers ::
    "(string \<Rightarrow> ('d, 's) rd_env) \<Rightarrow> string list \<Rightarrow> ('d, 's) supervisor \<times> 's \<Rightarrow> ('d, 's) supervisor \<times> 's" where
  "open_readers envs [] svs = svs"
| "open_readers envs (n # ns) (sv, s) =
     (case new_device_reader (envs n) n no_ntag424_keys s of
        (r, s) \<Rightarrow> open_readers envs ns
          (set_reader n \<lparr>orReader = apply_policy (svPolicy sv) r, orLease = None, orClosed = False\<rparr> sv, s))"

definition reconcile ::
    "(string \<Rightarrow> ('d, 's) rd_env) \<Rightarrow> go_error + device_listing list \<Rightarrow> ('d, 's) supervisor \<times> 's
      \<Rightarrow> ('d, 's) supervisor \<times> 's" where
  "reconcile envs listed = (\<lambda>(sv, s). case list_readers listed of
     Inl e \<Rightarrow> (sv, s)
   | Inr wanted \<Rightarrow>
       if \<not> svStarted sv then (sv, s)
       else let dropped = filter (\<lambda>(n, _). n \<notin> set wanted) (svReaders sv);
                sv = sv\<lparr>svReaders := filter (\<lambda>(n, _). n \<in> set wanted) (svReaders sv)\<rparr>;
                opened = filter (\<lambda>n. \<not> operates n sv) (remdups wanted)
            in open_readers envs opened (sv, stop_readers envs dropped s))"

definition supervisor_start ::
    "(string \<Rightarrow> ('d, 's) rd_env) \<Rightarrow> go_error + device_listing list \<Rightarrow> ('d, 's) supervisor \<times> 's
      \<Rightarrow> go_error option \<times> ('d, 's) supervisor \<times> 's" where
  "supervisor_start envs listed = (\<lambda>(sv, s).
     if svDone sv then (Some (PlainError ''nfc: the supervisor has been stopped; build another''), sv, s)
     else if svStarted sv then (Some (PlainError ''nfc: the supervisor is already started''), sv, s)
     else (None, reconcile envs listed (sv\<lparr>svStarted := True\<rparr>, s)))"

definition supervisor_stop ::
    "(string \<Rightarrow> ('d, 's) rd_env) \<Rightarrow> ('d, 's) supervisor \<times> 's \<Rightarrow> ('d, 's) supervisor \<times> 's" where
  "supervisor_stop envs = (\<lambda>(sv, s).
     if \<not> svStarted sv then (sv, s)
     else (sv\<lparr>svStarted := False, svDone := True, svReaders := []\<rparr>, stop_readers envs (svReaders sv) s))"

text \<open>\<open>process\<close>: a scan as a device reported it becomes what consumers get.\<close>

record 's scanned_tag =
  stDevice :: string
  stTag :: "'s tag option"
  stErr :: "go_error option"
  stRemovedUID :: string

definition process_scan :: "'s scanned_tag \<Rightarrow> 's \<Rightarrow> 's nfc_data" where
  "process_scan sc s =
     \<lparr>ndDevice = stDevice sc, ndCard = (case stTag sc of None \<Rightarrow> None | Some g \<Rightarrow> Some (new_card g s)),
      ndErr = stErr sc, ndRemovedUID = stRemovedUID sc\<rparr>"

section \<open>Where a tag is\<close>

definition tag_on_reader :: "string \<Rightarrow> ('d, 's) supervisor \<Rightarrow> (string \<times> string) option" where
  "tag_on_reader device sv = (case map_of (svReaders sv) device of
     None \<Rightarrow> None
   | Some o1 \<Rightarrow>
       if tcUID (rdCache (orReader o1)) \<noteq> [] then Some (device, tcUID (rdCache (orReader o1)))
       else if rdCardPresent (orReader o1) then Some (device, [])
       else None)"

definition tag_on_device :: "string \<Rightarrow> ('d, 's) supervisor \<Rightarrow> 's \<Rightarrow> (string \<times> string) option" where
  "tag_on_device device sv s = (case svHolder sv of None \<Rightarrow> None | Some h \<Rightarrow> thTagOn h device s)"

text \<open>The first reader whose tag has a name, and else the first with a card at all.\<close>

fun named_reader :: "string list \<Rightarrow> ('d, 's) supervisor \<Rightarrow> (string \<times> string) option" where
  "named_reader [] sv = None"
| "named_reader (n # ns) sv = (case tag_on_reader n sv of
     Some (h, uid) \<Rightarrow> if uid \<noteq> [] then Some (h, uid) else named_reader ns sv
   | None \<Rightarrow> named_reader ns sv)"

fun unnamed_reader :: "string list \<Rightarrow> ('d, 's) supervisor \<Rightarrow> (string \<times> string) option" where
  "unnamed_reader [] sv = None"
| "unnamed_reader (n # ns) sv = (case tag_on_reader n sv of
     Some (h, uid) \<Rightarrow> Some (h, [])
   | None \<Rightarrow> unnamed_reader ns sv)"

definition tag_on :: "string \<Rightarrow> ('d, 's) supervisor \<Rightarrow> 's \<Rightarrow> (string \<times> string) option" where
  "tag_on device sv s =
     (if device \<noteq> []
      then (if operates device sv then tag_on_reader device sv else tag_on_device device sv s)
      else case named_reader (reader_names sv) sv of
        Some r \<Rightarrow> Some r
      | None \<Rightarrow> (case tag_on_device [] sv s of
          Some d \<Rightarrow> Some d
        | None \<Rightarrow> unnamed_reader (reader_names sv) sv))"

definition devices_holding_tags :: "('d, 's) supervisor \<Rightarrow> 's \<Rightarrow> string list" where
  "devices_holding_tags sv s =
     filter (\<lambda>n. tag_on_reader n sv \<noteq> None) (reader_names sv) @
     (case svHolder sv of None \<Rightarrow> [] | Some h \<Rightarrow> thHolding h s)"

definition held_elsewhere :: "string \<Rightarrow> ('d, 's) supervisor \<Rightarrow> 's tag_holder option" where
  "held_elsewhere device sv = (case svHolder sv of
     None \<Rightarrow> None
   | Some h \<Rightarrow>
       if device = [] then (if reader_names sv \<noteq> [] then None else Some h)
       else if operates device sv then None
       else Some h)"

fun go_list :: "string list \<Rightarrow> string" where
  "go_list [] = []"
| "go_list [x] = x"
| "go_list (x # xs) = x @ '' '' @ go_list xs"

definition reader_for :: "string \<Rightarrow> ('d, 's) supervisor \<Rightarrow> go_error + string \<times> ('d, 's) op_reader" where
  "reader_for device sv =
     (if device \<noteq> []
      then (case map_of (svReaders sv) device of
              None \<Rightarrow> Inl (PlainError (''nfc: no reader '' @ device))
            | Some o1 \<Rightarrow> Inr (device, o1))
      else case svReaders sv of
        [] \<Rightarrow> Inl (PlainError ''nfc: no reader is connected'')
      | [(name, o1)] \<Rightarrow> Inr (name, o1)
      | _ \<Rightarrow> Inl (PlainError (''nfc: name the reader the operation is for, one of ['' @
                go_list (reader_names sv) @ '']'')))"

section \<open>Operations\<close>

type_synonym ('d, 's, 'a) sv_step = "('d, 's) supervisor \<times> 's \<Rightarrow> (go_error + 'a) \<times> ('d, 's) supervisor \<times> 's"

text \<open>Every operation resolves its reader and hands it the operation.\<close>

definition on_reader ::
    "string \<Rightarrow> (string \<Rightarrow> ('d, 's, 'a) op_step) \<Rightarrow> ('d, 's, 'a) sv_step" where
  "on_reader device op = (\<lambda>(sv, s). case reader_for device sv of
     Inl e \<Rightarrow> (Inl e, sv, s)
   | Inr (name, o1) \<Rightarrow> (case op name (o1, s) of (res, o1, s) \<Rightarrow> (res, set_reader name o1 sv, s)))"

text \<open>An operation on a tag goes to whoever holds it.\<close>

definition on_holder ::
    "string \<Rightarrow> ('s tag_holder \<Rightarrow> 's \<Rightarrow> (go_error + 'a) \<times> 's) \<Rightarrow> ('d, 's, 'a) sv_step \<Rightarrow> ('d, 's, 'a) sv_step" where
  "on_holder device held op = (\<lambda>(sv, s). case held_elsewhere device sv of
     Some h \<Rightarrow> (case held h s of (res, s) \<Rightarrow> (res, sv, s))
   | None \<Rightarrow> op (sv, s))"

definition supervisor_write_message ::
    "(string \<Rightarrow> ('d, 's) rd_env) \<Rightarrow> string \<Rightarrow> ndef_record list \<Rightarrow> write_options \<Rightarrow> ('d, 's, write_result) sv_step" where
  "supervisor_write_message envs device msg opts =
     on_reader device (\<lambda>n. with_tag_operation (write_message_with_result (envs n) msg opts))"

definition supervisor_lock ::
    "(string \<Rightarrow> ('d, 's) rd_env) \<Rightarrow> string \<Rightarrow> string \<Rightarrow> ('d, 's, lock_result) sv_step" where
  "supervisor_lock envs device uid =
     on_reader device (\<lambda>n. with_tag_operation (lock_card_expecting (envs n) uid))"

definition supervisor_transceive ::
    "(string \<Rightarrow> ('d, 's) rd_env) \<Rightarrow> string \<Rightarrow> bytes \<Rightarrow> string \<Rightarrow> ('d, 's, bytes) sv_step" where
  "supervisor_transceive envs device data uid =
     on_reader device (\<lambda>n. with_tag_operation (transceive_expecting (envs n) data uid))"

definition supervisor_transceive_raw ::
    "(string \<Rightarrow> ('d, 's) rd_env) \<Rightarrow> string \<Rightarrow> bytes \<Rightarrow> string \<Rightarrow> ('d, 's, bytes) sv_step" where
  "supervisor_transceive_raw envs device data uid =
     on_reader device (\<lambda>n. with_tag_operation (transceive_raw_expecting (envs n) data uid))"

definition supervisor_capabilities ::
    "(string \<Rightarrow> ('d, 's) rd_env) \<Rightarrow> ('s tag \<Rightarrow> 's \<Rightarrow> 's) \<Rightarrow> string \<Rightarrow> string \<Rightarrow> ('d, 's, tag_caps) sv_step" where
  "supervisor_capabilities envs probe device uid =
     on_reader device (\<lambda>n. with_tag_operation (get_capabilities_expecting (envs n) probe uid))"

definition write_tag ::
    "(string \<Rightarrow> ('d, 's) rd_env) \<Rightarrow> string \<Rightarrow> string \<Rightarrow> ndef_record list \<Rightarrow> bool \<Rightarrow> string
      \<Rightarrow> ('d, 's, write_result) sv_step" where
  "write_tag envs device uid msg lck key =
     on_holder device (\<lambda>h. thWrite h device uid msg lck key)
       (supervisor_write_message envs device msg (overwrite_options\<lparr>woLock := lck, woExpectUID := uid\<rparr>))"

definition lock_tag ::
    "(string \<Rightarrow> ('d, 's) rd_env) \<Rightarrow> string \<Rightarrow> string \<Rightarrow> string \<Rightarrow> ('d, 's, lock_result) sv_step" where
  "lock_tag envs device uid key =
     on_holder device (\<lambda>h. thLock h device uid key) (supervisor_lock envs device uid)"

definition transceive_tag ::
    "(string \<Rightarrow> ('d, 's) rd_env) \<Rightarrow> string \<Rightarrow> string \<Rightarrow> bytes \<Rightarrow> bool \<Rightarrow> ('d, 's, bytes) sv_step" where
  "transceive_tag envs device uid data raw =
     on_holder device (\<lambda>h. thTransceive h device uid data raw)
       (if raw then supervisor_transceive_raw envs device data uid else supervisor_transceive envs device data uid)"

definition tag_capabilities ::
    "(string \<Rightarrow> ('d, 's) rd_env) \<Rightarrow> ('s tag \<Rightarrow> 's \<Rightarrow> 's) \<Rightarrow> string \<Rightarrow> string \<Rightarrow> ('d, 's, tag_caps) sv_step" where
  "tag_capabilities envs probe device uid =
     on_holder device (\<lambda>h. thCaps h device uid) (supervisor_capabilities envs probe device uid)"

definition transceive_sequence_tag ::
    "(string \<Rightarrow> ('d, 's) rd_env) \<Rightarrow> string \<Rightarrow> string \<Rightarrow> sequence_step list \<Rightarrow> ('d, 's, sequence_result) sv_step" where
  "transceive_sequence_tag envs device uid steps =
     on_holder device (\<lambda>h s. case thSequence h of
         None \<Rightarrow> (Inl (new_not_supported_error ''TransceiveSequence''), s)
       | Some f \<Rightarrow> f device uid steps s)
       (on_reader device (\<lambda>n. transceive_sequence_expecting (envs n) steps uid))"

text \<open>\<open>withNTAG424Held\<close>: the deadline is the earlier of the operation's own and the caller's.\<close>

definition phone_operation_timeout :: int where "phone_operation_timeout = 15000"

definition phone_deadline :: "int \<Rightarrow> int \<Rightarrow> int option \<Rightarrow> int" where
  "phone_deadline now timeout caller =
     (let own = now + (if timeout \<le> 0 then phone_operation_timeout else timeout)
      in case caller of Some d \<Rightarrow> if d < own then d else own | None \<Rightarrow> own)"

definition with_tag_session ::
    "(string \<Rightarrow> string \<Rightarrow> 's \<Rightarrow> (go_error + nat) \<times> 's) \<Rightarrow> (nat \<Rightarrow> 's \<Rightarrow> 's) \<Rightarrow> string \<Rightarrow> string
      \<Rightarrow> ('s \<Rightarrow> (go_error + 'a) \<times> 's) \<Rightarrow> 's \<Rightarrow> (go_error + 'a) \<times> 's" where
  "with_tag_session take_tag let_go device uid fn s = (case take_tag device uid s of
     (Inl e, s) \<Rightarrow> (Inl e, s)
   | (Inr d, s) \<Rightarrow> (case fn s of (res, s) \<Rightarrow> (res, let_go d s)))"

definition ntag424_held ::
    "('s \<Rightarrow> int) \<Rightarrow> (('s, go_error) transport \<Rightarrow> string \<Rightarrow> key_set \<Rightarrow> int \<Rightarrow> 'o) \<Rightarrow> int option \<Rightarrow> string \<Rightarrow> string
      \<Rightarrow> ('o \<Rightarrow> 's \<Rightarrow> (go_error + 'a) \<times> 's) \<Rightarrow> ('d, 's) supervisor \<Rightarrow> 's tag_holder \<Rightarrow> 's \<Rightarrow> (go_error + 'a) \<times> 's" where
  "ntag424_held now mk_session caller device uid fn sv h s = (case thSession h of
     None \<Rightarrow> (Inl (new_not_supported_error ''NTAG424''), s)
   | Some take_tag \<Rightarrow>
       if (case thTypeOn h of None \<Rightarrow> False | Some ty \<Rightarrow> ntag424_excluded (ty device s))
       then (Inl (new_not_supported_error ''NTAG424''), s)
       else with_tag_session take_tag (thRelease h) device uid
              (\<lambda>s. fn (mk_session (tag_transport h device uid) uid (poNTAG424 (svPolicy sv))
                        (phone_deadline (now s) (svPhoneTimeout sv) caller)) s) s)"

definition with_ntag424_tag ::
    "(string \<Rightarrow> ('d, 's) rd_env) \<Rightarrow> ('s \<Rightarrow> int) \<Rightarrow> ('s tag \<Rightarrow> 'o option)
      \<Rightarrow> (('s, go_error) transport \<Rightarrow> string \<Rightarrow> key_set \<Rightarrow> int \<Rightarrow> 'o) \<Rightarrow> int option \<Rightarrow> string \<Rightarrow> string
      \<Rightarrow> ('o \<Rightarrow> 's \<Rightarrow> (go_error + 'a) \<times> 's) \<Rightarrow> ('d, 's, 'a) sv_step" where
  "with_ntag424_tag envs now operator mk_session caller device uid fn = (\<lambda>(sv, s).
     on_holder device (ntag424_held now mk_session caller device uid fn sv)
       (on_reader device (\<lambda>n. reader_with_ntag424 (envs n) operator uid fn)) (sv, s))"

section \<open>Raw sessions\<close>

definition begin_raw_session_tag ::
    "(string \<Rightarrow> ('d, 's) rd_env) \<Rightarrow> string option \<Rightarrow> string \<Rightarrow> string \<Rightarrow> int \<Rightarrow> ('d, 's, string) sv_step" where
  "begin_raw_session_tag envs fresh device uid ttl =
     on_holder device (\<lambda>h s. (Inl (NFCError ErrCodeNotSupported ''RawSession'' []
         (''a tag held by a phone cannot be leased: the phone's operating system owns the tag session; '' @
          ''send a sequence instead'') None), s))
       (on_reader device (\<lambda>n. begin_raw_session (envs n) fresh uid ttl))"

text \<open>An operation inside a lease names no reader: the readers are asked for the lease in turn.\<close>

fun leased_reader :: "string \<Rightarrow> (string \<times> ('d, 's) op_reader) list \<Rightarrow> (string \<times> ('d, 's) op_reader) option" where
  "leased_reader i [] = None"
| "leased_reader i ((n, o1) # os) = (case lease_by_id i o1 of Inr l \<Rightarrow> Some (n, o1) | Inl e \<Rightarrow> leased_reader i os)"

definition in_lease ::
    "string \<Rightarrow> (string \<Rightarrow> ('d, 's, 'a) op_step) \<Rightarrow> ('d, 's, 'a) sv_step" where
  "in_lease i op = (\<lambda>(sv, s). case leased_reader i (svReaders sv) of
     None \<Rightarrow> (Inl (new_raw_session_expired_error ''RawSession''), sv, s)
   | Some (n, o1) \<Rightarrow> (case op n (o1, s) of (res, o1, s) \<Rightarrow> (res, set_reader n o1 sv, s)))"

definition end_raw_session_tag :: "string \<Rightarrow> ('d, 's, unit) sv_step" where
  "end_raw_session_tag i = in_lease i (\<lambda>n (o1, s). case end_raw_session i o1 of (res, o1) \<Rightarrow> (res, o1, s))"

definition transceive_in_session_tag ::
    "(string \<Rightarrow> ('d, 's) rd_env) \<Rightarrow> string \<Rightarrow> bytes \<Rightarrow> ('d, 's, bytes) sv_step" where
  "transceive_in_session_tag envs i data = in_lease i (\<lambda>n. transceive_in_session (envs n) i data)"

definition transceive_sequence_in_session_tag ::
    "(string \<Rightarrow> ('d, 's) rd_env) \<Rightarrow> string \<Rightarrow> sequence_step list \<Rightarrow> ('d, 's, sequence_result) sv_step" where
  "transceive_sequence_in_session_tag envs i steps =
     in_lease i (\<lambda>n. transceive_sequence_in_session (envs n) i steps)"

end
