(* ===== verification/Wire.thy ===== *)
theory Wire
  imports Errors Ndef
begin

text \<open>
  What crosses the wire between the agent and its clients and devices: the error codes of
  \<open>protocol/errors.go\<close> and their translation (\<open>protocol/errors_nfc.go\<close>, \<open>protocol/coded_error.go\<close>),
  and the records of a write request (\<open>server/handlers.go\<close>, \<open>nfc/remotenfc/convert_ndef.go\<close>). The JSON
  around them is left out: a payload is the value it decodes to.
\<close>

section \<open>Error codes\<close>

text \<open>An NFC code and the string that stands for it.\<close>

fun wire_code :: "error_code \<Rightarrow> string" where
  "wire_code ErrCodeNotSupported = ''NOT_SUPPORTED''"
| "wire_code ErrCodeTagRemoved = ''TAG_REMOVED''"
| "wire_code ErrCodeAuthFailed = ''AUTH_FAILED''"
| "wire_code ErrCodeReadFailed = ''READ_FAILED''"
| "wire_code ErrCodeWriteFailed = ''WRITE_FAILED''"
| "wire_code ErrCodeTransceiveFailed = ''TRANSCEIVE_FAILED''"
| "wire_code ErrCodeTagNotConnected = ''TAG_NOT_CONNECTED''"
| "wire_code ErrCodeReadOnly = ''READ_ONLY''"
| "wire_code ErrCodeCapacityExceeded = ''CAPACITY_EXCEEDED''"
| "wire_code ErrCodeInvalidData = ''INVALID_DATA''"
| "wire_code ErrCodeMultipleTags = ''MULTIPLE_TAGS''"
| "wire_code ErrCodeBusy = ''BUSY''"
| "wire_code ErrCodeNoPayload = ''NO_PAYLOAD''"
| "wire_code ErrCodeRawSessionExpired = ''RAW_SESSION_EXPIRED''"

definition all_codes :: "error_code list" where
  "all_codes = [ErrCodeNotSupported, ErrCodeTagRemoved, ErrCodeAuthFailed, ErrCodeReadFailed, ErrCodeWriteFailed,
     ErrCodeTransceiveFailed, ErrCodeTagNotConnected, ErrCodeReadOnly, ErrCodeCapacityExceeded, ErrCodeInvalidData,
     ErrCodeMultipleTags, ErrCodeBusy, ErrCodeNoPayload, ErrCodeRawSessionExpired]"

definition internal_error_code :: "string \<Rightarrow> error_code \<Rightarrow> error_code" where
  "internal_error_code wire fallback = (case find (\<lambda>c. wire_code c = wire) all_codes of Some c \<Rightarrow> c | None \<Rightarrow> fallback)"

definition retryable :: "string \<Rightarrow> bool" where
  "retryable code \<longleftrightarrow> code \<in> set [''TAG_REMOVED'', ''READ_FAILED'', ''WRITE_FAILED'', ''TRANSCEIVE_FAILED'',
     ''TAG_NOT_CONNECTED'', ''TAG_SEND_FAILED'', ''READ_ERROR'', ''NO_CARD'', ''TIMEOUT'', ''INTERNAL_ERROR'', ''BUSY'']"

record error_payload =
  epCode :: string
  epRetryable :: bool
  epOp :: string
  epTagUID :: string

definition new_error_payload :: "string \<Rightarrow> error_payload" where
  "new_error_payload code = \<lparr>epCode = code, epRetryable = retryable code, epOp = [], epTagUID = []\<rparr>"

text \<open>\<open>errors.As\<close> for a \<open>CodedError\<close> and for an \<open>NFCError\<close>: the first one of the chain.\<close>

fun first_coded :: "go_error list \<Rightarrow> string option" where
  "first_coded [] = None"
| "first_coded (CodedError code msg cause # es) = Some code"
| "first_coded (_ # es) = first_coded es"

fun first_nfc :: "go_error list \<Rightarrow> (error_code \<times> string \<times> string) option" where
  "first_nfc [] = None"
| "first_nfc (NFCError c op uid msg cause # es) = Some (c, op, uid)"
| "first_nfc (_ # es) = first_nfc es"

definition error_payload_for :: "go_error \<Rightarrow> error_payload" where
  "error_payload_for e = (case first_coded (error_chain e) of
     Some code \<Rightarrow> new_error_payload code
   | None \<Rightarrow> (case first_nfc (error_chain e) of
       None \<Rightarrow> new_error_payload ''UNKNOWN_ERROR''
     | Some (c, op, uid) \<Rightarrow>
         \<lparr>epCode = wire_code c, epRetryable = retryable (wire_code c), epOp = op, epTagUID = uid\<rparr>))"

definition refused :: "string \<Rightarrow> string \<Rightarrow> go_error" where
  "refused code msg = CodedError code msg None"

definition wrap_coded :: "string \<Rightarrow> go_error \<Rightarrow> string \<Rightarrow> go_error" where
  "wrap_coded code cause msg = CodedError code msg (Some cause)"

definition code_or :: "string \<Rightarrow> string \<Rightarrow> string" where
  "code_or code fallback = (if code = [] then fallback else code)"

section \<open>The records of a write request\<close>

record write_record =
  wqType :: string
  wqContent :: bytes
  wqLanguage :: bytes
  wqTitle :: bytes
  wqMimeType :: bytes
  wqTNF :: "byte option"
  wqTypeBytes :: bytes
  wqID :: bytes
  wqPayload :: bytes

definition trim_type :: "string \<Rightarrow> string" where
  "trim_type t = rev (dropWhile (\<lambda>c. c \<in> set '' '') (rev (dropWhile (\<lambda>c. c \<in> set '' '') t)))"

definition lower_byte :: "byte \<Rightarrow> byte" where
  "lower_byte b = (if 65 \<le> b \<and> b \<le> 90 then b + 32 else b)"

definition uri_with_scheme :: "string \<Rightarrow> bytes \<Rightarrow> go_error + ndef_builder" where
  "uri_with_scheme scheme content =
     (if content = [] then Inl (PlainError (butlast scheme @ '' record requires content''))
      else Inr (BURI (if prefix (ascii scheme) (map lower_byte content) then content else ascii scheme @ content)))"

definition needs_content :: "bytes \<Rightarrow> string \<Rightarrow> ndef_builder \<Rightarrow> go_error + ndef_builder" where
  "needs_content content msg b = (if content = [] then Inl (PlainError msg) else Inr b)"

definition build_record :: "write_record \<Rightarrow> go_error + ndef_builder" where
  "build_record r =
     (let t = text_lower (trim_type (wqType r))
      in if t \<in> {[], ''text''}
         then Inr (BText (wqContent r) (if wqLanguage r = [] then ascii ''en'' else wqLanguage r))
         else if t \<in> {''uri'', ''url''}
         then needs_content (wqContent r) ''uri record requires content'' (BURI (wqContent r))
         else if t \<in> {''mailto'', ''email''} then uri_with_scheme ''mailto:'' (wqContent r)
         else if t = ''tel'' then uri_with_scheme ''tel:'' (wqContent r)
         else if t = ''sms'' then uri_with_scheme ''sms:'' (wqContent r)
         else if t = ''geo'' then uri_with_scheme ''geo:'' (wqContent r)
         else if t \<in> {''smartposter'', ''smart-poster'', ''sp''}
         then needs_content (wqContent r) ''smartposter record requires a URI in content''
                (BSmartPoster (wqContent r) (wqTitle r) (wqLanguage r))
         else if t = ''mime''
         then Inr (BMIME (if wqMimeType r = [] then ascii ''application/octet-stream'' else wqMimeType r)
                (if wqPayload r = [] \<and> wqContent r \<noteq> [] then wqContent r else wqPayload r))
         else if t \<in> {''vcard'', ''vcf''}
         then (let d = if wqPayload r = [] then wqContent r else wqPayload r
               in if d = [] then Inl (PlainError ''vcard record requires content or payload'')
                  else Inr (BMIME (ascii ''text/vcard'') d))
         else if t = ''external''
         then needs_content (wqContent r) ''external record requires a domain:type in content''
                (BExternal (wqContent r) (wqPayload r))
         else if t \<in> {''aar'', ''android''}
         then needs_content (wqContent r) ''aar record requires an Android package name in content''
                (BExternal (ascii ''android.com:pkg'') (wqContent r))
         else if t \<in> {''empty'', ''erase''} then Inr BEmpty
         else if t \<in> {''raw'', ''custom''}
         then (case wqTNF r of
                 None \<Rightarrow> Inl (PlainError ''raw record requires tnf'')
               | Some tnf \<Rightarrow>
                   if 0x07 < tnf then Inl (PlainError ''invalid tnf value'')
                   else Inr (BRaw tnf (wqTypeBytes r) (wqID r) (wqPayload r)))
         else Inl (PlainError (''unsupported record type '' @ wqType r)))"

fun build_records :: "nat \<Rightarrow> write_record list \<Rightarrow> go_error + ndef_builder list" where
  "build_records i [] = Inr []"
| "build_records i (r # rs) = (case build_record r of
     Inl e \<Rightarrow> Inl (Wrapped (''record '' @ decimal i @ '': '') e [])
   | Inr b \<Rightarrow> (case build_records (i + 1) rs of Inl e \<Rightarrow> Inl e | Inr bs \<Rightarrow> Inr (b # bs)))"

definition build_ndef_message :: "write_record list \<Rightarrow> go_error + ndef_record list" where
  "build_ndef_message rs =
     (if rs = [] then Inl (PlainError ''no records provided in write request'')
      else case build_records 0 rs of
        Inl e \<Rightarrow> Inl e
      | Inr bs \<Rightarrow> (case build_message bs of
          Inl e \<Rightarrow> Inl (PlainError ''failed to build NDEF message'')
        | Inr m \<Rightarrow> Inr m))"

text \<open>A record as a device reports it: with a TNF it is taken as it is.\<close>

record ndef_input =
  niType :: string
  niContent :: bytes
  niLanguage :: bytes
  niMimeType :: bytes
  niTNF :: "byte option"
  niTypeBytes :: bytes
  niID :: bytes
  niPayload :: bytes

definition convert_ndef_record :: "ndef_input \<Rightarrow> go_error + ndef_record" where
  "convert_ndef_record d = (case niTNF d of
     Some tnf \<Rightarrow>
       if 0x07 < tnf then Inl (PlainError ''invalid TNF value'')
       else Inr \<lparr>rTNF = tnf, rType = niTypeBytes d, rID = niID d, rPayload = niPayload d\<rparr>
   | None \<Rightarrow>
       if niType d \<in> {''text'', []}
       then (if niContent d = [] \<and> niType d = [] then Inl (PlainError ''text record requires content'')
             else Inr (to_record (BText (niContent d) (if niLanguage d = [] then ascii ''en'' else niLanguage d))))
       else if niType d = ''uri''
       then (if niContent d = [] then Inl (PlainError ''URI record requires content'')
             else Inr (to_record (BURI (niContent d))))
       else if niType d = ''mime''
       then Inr (to_record (BMIME (if niMimeType d = [] then ascii ''application/octet-stream'' else niMimeType d)
                              (niPayload d)))
       else if niType d = ''external''
       then (if niContent d = [] then Inl (PlainError ''external record requires domain in content field'')
             else Inr (to_record (BExternal (niContent d) (niPayload d))))
       else Inl (PlainError (''unsupported record type: '' @ niType d)))"

fun convert_ndef_records :: "nat \<Rightarrow> ndef_input list \<Rightarrow> go_error + ndef_record list" where
  "convert_ndef_records i [] = Inr []"
| "convert_ndef_records i (d # ds) = (case convert_ndef_record d of
     Inl e \<Rightarrow> Inl (Wrapped (''failed to convert record '' @ decimal i @ '': '') e [])
   | Inr r \<Rightarrow> (case convert_ndef_records (i + 1) ds of Inl e \<Rightarrow> Inl e | Inr rs \<Rightarrow> Inr (r # rs)))"

definition convert_ndef_input :: "ndef_input list \<Rightarrow> go_error + ndef_record list" where
  "convert_ndef_input ds = (if ds = [] then Inl (PlainError ''empty NDEF message'') else convert_ndef_records 0 ds)"

text \<open>\<open>BuildNDEFInput\<close>: a write request in the form a device takes.\<close>

definition build_ndef_input :: "write_record list \<Rightarrow> ndef_input list" where
  "build_ndef_input = map (\<lambda>r. \<lparr>niType = wqType r, niContent = wqContent r, niLanguage = wqLanguage r,
     niMimeType = wqMimeType r, niTNF = wqTNF r, niTypeBytes = wqTypeBytes r, niID = wqID r, niPayload = wqPayload r\<rparr>)"

section \<open>Replies\<close>

text \<open>\<open>splitReply\<close>: the status word and the body, absent when there is none; base64 is left out.\<close>

record transceive_reply =
  trData :: bytes
  trSW :: bytes
  trBody :: bytes

definition split_reply :: "bytes \<Rightarrow> transceive_reply" where
  "split_reply reply =
     (if 2 \<le> length reply
      then \<lparr>trData = reply, trSW = hex_upper (drop (length reply - 2) reply), trBody = take (length reply - 2) reply\<rparr>
      else \<lparr>trData = reply, trSW = [], trBody = []\<rparr>)"

definition parse_sw :: "bytes \<Rightarrow> uint16 option" where
  "parse_sw text = (case hex_decode text of
     None \<Rightarrow> None
   | Some b \<Rightarrow> if length b \<noteq> 2 then None else Some (push_bit 8 (ucast (b ! 0)) OR ucast (b ! 1)))"

section \<open>What holds of the codes and the records\<close>

lemma all_codes_complete: "c \<in> set all_codes"
  by (cases c) (simp_all add: all_codes_def)

lemma wire_code_inject: "wire_code a = wire_code b \<Longrightarrow> a = b"
  by (cases a; cases b; simp)

lemma internal_error_code_wire: "internal_error_code (wire_code c) fallback = c"
proof -
  obtain d where d: "find (\<lambda>x. wire_code x = wire_code c) all_codes = Some d"
    using all_codes_complete [of c] by (cases "find (\<lambda>x. wire_code x = wire_code c) all_codes") (auto simp: find_None_iff)
  then have "wire_code d = wire_code c" by (auto simp: find_Some_iff)
  then show ?thesis using d wire_code_inject by (simp add: internal_error_code_def)
qed

text \<open>The error a device reported, as the tag interface rewraps it, keeps its code on the way to a client.\<close>

lemma reported_code_survives:
  "epCode (error_payload_for (NFCError (internal_error_code (wire_code c) fallback) op uid msg None)) = wire_code c"
  by (simp add: internal_error_code_wire error_payload_for_def)

text \<open>What a request builds can be written: the message encodes, and no TNF uses more than three bits.\<close>

lemma built_message_encodes:
  assumes "build_ndef_message rs = Inr m"
  shows "length m = length rs" "\<exists>bs. m = map to_record bs" "isOk (encode_ndef_records m)"
proof -
  obtain bs where b: "build_records 0 rs = Inr bs" "m = map to_record bs" "rs \<noteq> []"
    using assms by (auto simp: build_ndef_message_def build_message_def split: if_splits sum.splits)
  have "length bs = length rs" if "build_records i rs = Inr bs" for i
    using that by (induction rs arbitrary: i bs) (auto split: sum.splits)
  then show "length m = length rs" "\<exists>bs. m = map to_record bs" using b by auto
  then show "isOk (encode_ndef_records m)" using b(3) by (simp add: encode_ndef_records_def isOk_def)
qed

end
