(* ===== verification/Virtual.thy ===== *)
theory Virtual
  imports Supervisor Wire
begin

text \<open>
  Tags whose operations happen elsewhere, \<open>nfc/virtualnfc\<close>: the UID forms a device may report
  (\<open>uid.go\<close>), the merge of what a tag declared with what its source can carry (\<open>capabilities.go\<close>),
  the routed tag as a value of the tag interface (\<open>route.go\<close>), the in-process store behind a virtual
  reader (\<open>reader_store.go\<close>), and the virtual device, manager and reader (\<open>device.go\<close>, \<open>manager.go\<close>,
  \<open>reader.go\<close>). A device is plugged at one path at a time. Texts are ASCII.
\<close>

section \<open>UIDs\<close>

definition upper_char :: "char \<Rightarrow> char" where
  "upper_char c = (let n = of_char c :: nat in if 97 \<le> n \<and> n \<le> 122 then char_of (n - 32) else c)"

definition uid_digit :: "char \<Rightarrow> bool" where
  "uid_digit c \<longleftrightarrow> (let n = of_char c :: nat in 48 \<le> n \<and> n \<le> 57 \<or> 65 \<le> n \<and> n \<le> 70)"

definition uid_separator :: "char \<Rightarrow> bool" where
  "uid_separator c \<longleftrightarrow> c = CHR '':'' \<or> c = CHR '' '' \<or> c = CHR ''-''"

fun colon_pairs :: "string \<Rightarrow> string" where
  "colon_pairs (a # b # []) = [a, b]"
| "colon_pairs (a # b # r) = a # b # CHR '':'' # colon_pairs r"
| "colon_pairs r = r"

definition uid_cleaned :: "string \<Rightarrow> string" where
  "uid_cleaned uid = map upper_char (filter (\<lambda>c. \<not> uid_separator c) uid)"

definition parse_uid :: "string \<Rightarrow> go_error + string" where
  "parse_uid uid =
     (if uid = [] then Inl (PlainError ''empty UID'')
      else let cleaned = uid_cleaned uid
           in if cleaned = [] \<or> \<not> list_all uid_digit cleaned
              then Inl (PlainError (''UID contains invalid characters: '' @ uid))
              else if length cleaned mod 2 \<noteq> 0
              then Inl (PlainError (''UID has odd number of hex characters: '' @ uid))
              else if length cleaned < 2 then Inl (PlainError (''UID too short: '' @ uid))
              else Inr (colon_pairs cleaned))"

text \<open>\<open>sameUID\<close> of \<open>remotenfc/sequence.go\<close>.\<close>

definition normal_uid :: "string \<Rightarrow> string" where
  "normal_uid a = (case parse_uid a of Inr n \<Rightarrow> n | Inl e \<Rightarrow> a)"

definition same_uid :: "string \<Rightarrow> string \<Rightarrow> bool" where
  "same_uid a b = equal_fold (normal_uid a) (normal_uid b)"

section \<open>What a routed tag can do\<close>

record cap_source =
  csWrite :: bool
  csLock :: bool
  csTransceive :: bool

definition read_only_declared :: "tag_caps option \<Rightarrow> bool" where
  "read_only_declared declared = (case declared of None \<Rightarrow> False | Some c \<Rightarrow> capIsReadOnly c)"

definition declared_for :: "tag_caps option \<Rightarrow> (tag_caps \<Rightarrow> bool) \<Rightarrow> bool \<Rightarrow> bool" where
  "declared_for declared of_tag source_can = (case declared of
     Some c \<Rightarrow> if \<not> of_tag c then False else source_can
   | None \<Rightarrow> source_can)"

definition write_allowed :: "tag_caps option \<Rightarrow> cap_source option \<Rightarrow> bool" where
  "write_allowed declared src = (case src of
     None \<Rightarrow> False
   | Some c \<Rightarrow> if read_only_declared declared then False else declared_for declared capCanWrite (csWrite c))"

definition lock_allowed :: "tag_caps option \<Rightarrow> cap_source option \<Rightarrow> bool" where
  "lock_allowed declared src = (case src of
     None \<Rightarrow> False
   | Some c \<Rightarrow> if read_only_declared declared then False else declared_for declared capCanLock (csLock c))"

definition transceive_allowed :: "tag_caps option \<Rightarrow> cap_source option \<Rightarrow> bool" where
  "transceive_allowed declared src = (case src of
     None \<Rightarrow> False
   | Some c \<Rightarrow> declared_for declared capCanTransceive (csTransceive c))"

definition no_caps :: tag_caps where
  "no_caps =
     \<lparr>capCanRead = False, capCanWrite = False, capCanTransceive = False, capSnapshot = False, capCanLock = False,
      capIsReadOnly = False, capMemorySize = 0, capMaxNDEF = 0, capTechnology = [], capTagFamily = [],
      capNDEF = False, capCrypto = False, capAuthentication = False, capPassword = False, capSDMEnabled = False,
      capKeyNumbers = [], capRandomUID = False, capLRPMode = False\<rparr>"

definition merge_capabilities :: "tag_caps option \<Rightarrow> cap_source option \<Rightarrow> string \<Rightarrow> string \<Rightarrow> bool \<Rightarrow> tag_caps" where
  "merge_capabilities declared src ty tech has_ndef =
     (let caps = (case declared of None \<Rightarrow> no_caps | Some c \<Rightarrow> c)
      in caps\<lparr>capTagFamily := (if capTagFamily caps = [] then ty else capTagFamily caps),
              capTechnology := (if capTechnology caps = [] then tech else capTechnology caps),
              capNDEF := (if \<not> capNDEF caps then has_ndef else capNDEF caps),
              capCanRead := True, capSnapshot := True,
              capCanWrite := write_allowed declared src, capCanLock := lock_allowed declared src,
              capCanTransceive := transceive_allowed declared src\<rparr>)"

section \<open>The routed tag\<close>

record 's tag_route =
  roSource :: "'s \<Rightarrow> cap_source"
  roWrite :: "string \<Rightarrow> bytes \<Rightarrow> bool \<Rightarrow> 's \<Rightarrow> (go_error + unit) \<times> 's"
  roLock :: "string \<Rightarrow> 's \<Rightarrow> (go_error + unit) \<times> 's"
  roTransceive :: "string \<Rightarrow> bytes \<Rightarrow> bool \<Rightarrow> 's \<Rightarrow> (go_error + bytes) \<times> 's"

record 's routed_config =
  rcUID :: string
  rcType :: string
  rcTechnology :: string
  rcDeclared :: "tag_caps option"
  rcSnapshot :: "bytes option"
  rcNDEF :: "ndef_record list option"
  rcRoute :: "'s tag_route option"

text \<open>An operation goes to the route when the merged capabilities permit it.\<close>

definition through_route ::
    "(tag_caps option \<Rightarrow> cap_source option \<Rightarrow> bool) \<Rightarrow> string \<Rightarrow> 's routed_config
      \<Rightarrow> ('s tag_route \<Rightarrow> 's \<Rightarrow> (go_error + 'a) \<times> 's) \<Rightarrow> 's \<Rightarrow> (go_error + 'a) \<times> 's" where
  "through_route allowed op cfg go s = (case rcRoute cfg of
     None \<Rightarrow> (Inl (new_not_supported_error op), s)
   | Some ro \<Rightarrow>
       if \<not> allowed (rcDeclared cfg) (Some (roSource ro s)) then (Inl (new_not_supported_error op), s)
       else go ro s)"

definition routed_caps :: "'s routed_config \<Rightarrow> 's \<Rightarrow> tag_caps" where
  "routed_caps cfg s =
     merge_capabilities (rcDeclared cfg) (map_option (\<lambda>ro. roSource ro s) (rcRoute cfg)) (rcType cfg) (rcTechnology cfg)
       (rcNDEF cfg \<noteq> None \<or> rcSnapshot cfg \<noteq> None)"

definition routed_read :: "'s routed_config \<Rightarrow> go_error + bytes" where
  "routed_read cfg = (case rcSnapshot cfg of
     Some d \<Rightarrow> if length d = 0 then Inl (new_no_payload_error ''ReadData'' (rcUID cfg) None) else Inr d
   | None \<Rightarrow> Inl (new_no_payload_error ''ReadData'' (rcUID cfg) None))"

definition routed_message :: "'s routed_config \<Rightarrow> go_error + ndef_record list" where
  "routed_message cfg = (case rcNDEF cfg of
     Some m \<Rightarrow> Inr m | None \<Rightarrow> Inl (PlainError ''no NDEF message available''))"

definition routed_write :: "'s routed_config \<Rightarrow> bytes \<Rightarrow> 's \<Rightarrow> (go_error + unit) \<times> 's" where
  "routed_write cfg data = through_route write_allowed ''WriteData'' cfg (\<lambda>ro. roWrite ro (rcUID cfg) data False)"

definition routed_write_and_lock :: "'s routed_config \<Rightarrow> bytes \<Rightarrow> 's \<Rightarrow> (go_error + unit) \<times> 's" where
  "routed_write_and_lock cfg data =
     through_route write_allowed ''WriteData'' cfg (\<lambda>_.
       through_route lock_allowed ''MakeReadOnly'' cfg (\<lambda>ro. roWrite ro (rcUID cfg) data True))"

definition routed_lock :: "'s routed_config \<Rightarrow> 's \<Rightarrow> (go_error + unit) \<times> 's" where
  "routed_lock cfg = through_route lock_allowed ''MakeReadOnly'' cfg (\<lambda>ro. roLock ro (rcUID cfg))"

definition routed_transceive :: "'s routed_config \<Rightarrow> bytes \<Rightarrow> 's \<Rightarrow> (go_error + bytes) \<times> 's" where
  "routed_transceive cfg data = through_route transceive_allowed ''Transceive'' cfg (\<lambda>ro. roTransceive ro (rcUID cfg) data False)"

definition routed_is_writable :: "'s routed_config \<Rightarrow> 's \<Rightarrow> bool" where
  "routed_is_writable cfg s = write_allowed (rcDeclared cfg) (map_option (\<lambda>ro. roSource ro s) (rcRoute cfg))"

definition routed_can_make_read_only :: "'s routed_config \<Rightarrow> 's \<Rightarrow> bool" where
  "routed_can_make_read_only cfg s = lock_allowed (rcDeclared cfg) (map_option (\<lambda>ro. roSource ro s) (rcRoute cfg))"

definition routed_tag :: "'s routed_config \<Rightarrow> 's tag" where
  "routed_tag cfg =
     \<lparr>tgUID = (\<lambda>s. rcUID cfg), tgType = rcType cfg, tgCaps = routed_caps cfg, tgRead = (\<lambda>s. (routed_read cfg, s)),
      tgWrite = routed_write cfg, tgLock = routed_lock cfg, tgTransceive = routed_transceive cfg,
      tgAliases = None, tgResolve = None, tgClassicKeys = None, tgDESFireKeys = None, tgNTAG424Keys = None,
      tgWriteInit = None, tgWriteLock = Some (routed_write_and_lock cfg), tgTransceiveRaw = None\<rparr>"

section \<open>The store behind a virtual reader\<close>

record vmem_store =
  msContent :: "string \<rightharpoonup> bytes"
  msLocked :: "string \<rightharpoonup> bool"

definition vmem_seed :: "string \<Rightarrow> bytes \<Rightarrow> bool \<Rightarrow> vmem_store \<Rightarrow> vmem_store" where
  "vmem_seed uid content ro m = m\<lparr>msContent := (msContent m)(uid \<mapsto> content), msLocked := (msLocked m)(uid \<mapsto> ro)\<rparr>"

definition vmem_forget :: "string \<Rightarrow> vmem_store \<Rightarrow> vmem_store" where
  "vmem_forget uid m = m\<lparr>msContent := (msContent m)(uid := None), msLocked := (msLocked m)(uid := None)\<rparr>"

definition vmem_content :: "string \<Rightarrow> vmem_store \<Rightarrow> bytes" where
  "vmem_content uid m = (case msContent m uid of Some d \<Rightarrow> d | None \<Rightarrow> [])"

definition vmem_locked :: "string \<Rightarrow> vmem_store \<Rightarrow> bool" where
  "vmem_locked uid m = (msLocked m uid = Some True)"

definition vmem_write :: "string \<Rightarrow> bytes \<Rightarrow> bool \<Rightarrow> vmem_store \<Rightarrow> (go_error + unit) \<times> vmem_store" where
  "vmem_write uid ndef lck m =
     (if vmem_locked uid m then (Inl (PlainError (''virtualnfc: tag '' @ uid @ '' is read-only'')), m)
      else (Inr (), m\<lparr>msContent := (msContent m)(uid \<mapsto> ndef),
                      msLocked := (if lck then (msLocked m)(uid \<mapsto> True) else msLocked m)\<rparr>))"

definition vmem_lock :: "string \<Rightarrow> vmem_store \<Rightarrow> (go_error + unit) \<times> vmem_store" where
  "vmem_lock uid m = (Inr (), m\<lparr>msLocked := (msLocked m)(uid \<mapsto> True)\<rparr>)"

definition vmem_transceive :: "string \<Rightarrow> bytes \<Rightarrow> bool \<Rightarrow> vmem_store \<Rightarrow> (go_error + bytes) \<times> vmem_store" where
  "vmem_transceive uid data raw m = (Inl (new_not_supported_error ''Transceive''), m)"

definition vmem_route :: "vmem_store tag_route" where
  "vmem_route = \<lparr>roSource = (\<lambda>m. \<lparr>csWrite = True, csLock = True, csTransceive = False\<rparr>),
     roWrite = vmem_write, roLock = vmem_lock, roTransceive = vmem_transceive\<rparr>"

section \<open>Virtual devices\<close>

datatype read_out = PollMode | EventMode

text \<open>The field is the map of cards in the order they arrived; the report is the path it is plugged at.\<close>

record 's virtual_device =
  vdID :: string
  vdType :: string
  vdMode :: read_out
  vdCards :: "(string \<times> 's tag) list"
  vdClosed :: bool
  vdReport :: "string option"

definition new_virtual_device :: "string \<Rightarrow> read_out \<Rightarrow> string \<Rightarrow> 's virtual_device" where
  "new_virtual_device i mode ty =
     \<lparr>vdID = i, vdType = (if ty = [] then ''virtual'' else ty), vdMode = mode, vdCards = [], vdClosed = False,
      vdReport = None\<rparr>"

definition reports :: "'s virtual_device \<Rightarrow> 's scanned_tag list \<Rightarrow> 's scanned_tag list" where
  "reports d scans = (case vdReport d of
     Some path \<Rightarrow> if vdMode d = EventMode then map (\<lambda>sc. sc\<lparr>stDevice := path\<rparr>) scans else []
   | None \<Rightarrow> [])"

definition device_present ::
    "(string \<times> 's tag) list \<Rightarrow> 's virtual_device \<Rightarrow> 's scanned_tag list \<times> 's virtual_device" where
  "device_present cards d =
     (reports d (map (\<lambda>(u, g). \<lparr>stDevice = [], stTag = Some g, stErr = None, stRemovedUID = []\<rparr>) cards),
      d\<lparr>vdCards := fold (\<lambda>(u, g). AList.update u g) cards (vdCards d)\<rparr>)"

definition device_remove :: "string \<Rightarrow> 's virtual_device \<Rightarrow> 's scanned_tag list \<times> 's virtual_device" where
  "device_remove uid d =
     (if map_of (vdCards d) uid = None then ([], d)
      else (reports d [\<lparr>stDevice = [], stTag = None, stErr = None, stRemovedUID = uid\<rparr>],
            d\<lparr>vdCards := AList.delete uid (vdCards d)\<rparr>))"

definition device_get_tags :: "'s virtual_device \<Rightarrow> go_error + 's tag list" where
  "device_get_tags d = (if vdClosed d then Inl (Sentinel ErrDeviceClosed) else Inr (map snd (vdCards d)))"

definition device_close :: "'s virtual_device \<Rightarrow> 's virtual_device" where
  "device_close d = d\<lparr>vdClosed := True\<rparr>"

section \<open>The virtual manager and reader\<close>

type_synonym 's virtual_manager = "(string \<times> 's virtual_device) list"

definition no_virtual_device :: "string \<Rightarrow> go_error" where
  "no_virtual_device path = PlainError (''virtualnfc: no device '' @ path)"

definition manager_plug :: "string \<Rightarrow> 's virtual_device \<Rightarrow> 's virtual_manager \<Rightarrow> 's virtual_manager" where
  "manager_plug path d m = AList.update path (d\<lparr>vdReport := Some path\<rparr>) m"

definition manager_unplug :: "string \<Rightarrow> 's virtual_manager \<Rightarrow> 's virtual_manager" where
  "manager_unplug path m = AList.delete path m"

definition on_virtual_device ::
    "string \<Rightarrow> ('s virtual_device \<Rightarrow> 's scanned_tag list \<times> 's virtual_device) \<Rightarrow> 's virtual_manager
      \<Rightarrow> (go_error + 's scanned_tag list) \<times> 's virtual_manager" where
  "on_virtual_device path op m = (case map_of m path of
     None \<Rightarrow> (Inl (no_virtual_device path), m)
   | Some d \<Rightarrow> (case op d of (scans, d) \<Rightarrow> (Inr scans, AList.update path d m)))"

definition manager_present ::
    "string \<Rightarrow> (string \<times> 's tag) list \<Rightarrow> 's virtual_manager \<Rightarrow> (go_error + 's scanned_tag list) \<times> 's virtual_manager" where
  "manager_present path cards = on_virtual_device path (device_present cards)"

definition manager_remove ::
    "string \<Rightarrow> string \<Rightarrow> 's virtual_manager \<Rightarrow> (go_error + 's scanned_tag list) \<times> 's virtual_manager" where
  "manager_remove path uid = on_virtual_device path (device_remove uid)"

definition manager_open_device :: "string \<Rightarrow> 's virtual_manager \<Rightarrow> go_error + 's virtual_device" where
  "manager_open_device path m = (case map_of m path of None \<Rightarrow> Inl (no_virtual_device path) | Some d \<Rightarrow> Inr d)"

definition manager_devices :: "'s virtual_manager \<Rightarrow> device_listing list" where
  "manager_devices m =
     map (\<lambda>p. \<lparr>dlPath = p, dlID = p, dlCanPoll = (case map_of m p of Some d \<Rightarrow> vdMode d = PollMode | None \<Rightarrow> False)\<rparr>)
       (sort (map fst m))"

text \<open>A tag as it is declared for a virtual reader, and the reader's own state.\<close>

record tag_spec =
  tsUID :: string
  tsType :: string
  tsTech :: string
  tsText :: bytes
  tsURI :: bytes
  tsRecords :: "ndef_builder list"
  tsReadOnly :: bool

definition spec_records :: "tag_spec \<Rightarrow> ndef_builder list" where
  "spec_records t =
     (if 0 < length (tsRecords t) then tsRecords t
      else if tsText t \<noteq> [] then [BText (tsText t) (ascii ''en'')]
      else if tsURI t \<noteq> [] then [BURI (tsURI t)]
      else [])"

record virtual_reader =
  vrDevices :: "vmem_store virtual_manager"
  vrFirst :: string
  vrStore :: vmem_store

definition new_virtual_reader :: "string list \<Rightarrow> virtual_reader" where
  "new_virtual_reader names =
     (let names = (if names = [] then [''virtual-0''] else names)
      in \<lparr>vrDevices = fold (\<lambda>n. manager_plug n (new_virtual_device n PollMode ''virtual-reader'')) names [],
          vrFirst = hd names, vrStore = \<lparr>msContent = Map.empty, msLocked = Map.empty\<rparr>\<rparr>)"

definition resolve_device :: "string \<Rightarrow> virtual_reader \<Rightarrow> go_error + string" where
  "resolve_device device v =
     (let d = (if device = [] then vrFirst v else device)
      in case map_of (vrDevices v) d of None \<Rightarrow> Inl (no_virtual_device d) | Some _ \<Rightarrow> Inr d)"

definition make_card :: "tag_spec \<Rightarrow> vmem_store \<Rightarrow> (go_error + string \<times> vmem_store tag) \<times> vmem_store" where
  "make_card spec store =
     (let content =
            (if spec_records spec = [] then Inr None
             else case build_message (spec_records spec) of
               Inl e \<Rightarrow> Inl (Wrapped (''virtualnfc: build NDEF for '' @ tsUID spec @ '': '') (PlainError ''failed to build NDEF message'') [])
             | Inr m \<Rightarrow> (case encode_ndef_records m of
                 Inl e \<Rightarrow> Inl (Wrapped (''virtualnfc: encode NDEF for '' @ tsUID spec @ '': '') (PlainError ''failed to encode NDEF message'') [])
               | Inr enc \<Rightarrow> Inr (Some (m, enc))))
      in case content of
           Inl e \<Rightarrow> (Inl e, store)
         | Inr c \<Rightarrow>
             (Inr (tsUID spec, routed_tag
                \<lparr>rcUID = tsUID spec, rcType = (if tsType spec = [] then ''Virtual'' else tsType spec),
                 rcTechnology = (if tsTech spec = [] then ''virtual'' else tsTech spec),
                 rcDeclared = (if tsReadOnly spec then Some (no_caps\<lparr>capIsReadOnly := True\<rparr>) else None),
                 rcSnapshot = map_option snd c, rcNDEF = map_option fst c, rcRoute = Some vmem_route\<rparr>),
              vmem_seed (tsUID spec) (case c of Some (m, enc) \<Rightarrow> enc | None \<Rightarrow> []) (tsReadOnly spec) store))"

definition reader_present :: "string \<Rightarrow> tag_spec \<Rightarrow> virtual_reader \<Rightarrow> go_error option \<times> virtual_reader" where
  "reader_present device spec v =
     (if tsUID spec = [] then (Some (PlainError ''virtualnfc: tag needs a UID''), v)
      else case resolve_device device v of
        Inl e \<Rightarrow> (Some e, v)
      | Inr d \<Rightarrow> (case make_card spec (vrStore v) of
          (Inl e, store) \<Rightarrow> (Some e, v\<lparr>vrStore := store\<rparr>)
        | (Inr crd, store) \<Rightarrow>
            (None, v\<lparr>vrStore := store, vrDevices := snd (manager_present d [crd] (vrDevices v))\<rparr>)))"

definition reader_remove :: "string \<Rightarrow> string \<Rightarrow> virtual_reader \<Rightarrow> go_error option \<times> virtual_reader" where
  "reader_remove device uid v = (case resolve_device device v of
     Inl e \<Rightarrow> (Some e, v)
   | Inr d \<Rightarrow> (None, v\<lparr>vrDevices := snd (manager_remove d uid (vrDevices v)), vrStore := vmem_forget uid (vrStore v)\<rparr>))"

section \<open>UIDs have one form\<close>

lemma uid_digit_plain: "uid_digit c \<Longrightarrow> upper_char c = c" "uid_digit c \<Longrightarrow> \<not> uid_separator c"
  by (auto simp: uid_digit_def upper_char_def uid_separator_def Let_def)

lemma colon_separates [simp]: "uid_separator CHR '':''"
  by (simp add: uid_separator_def)

lemma cleaned_pairs: "list_all uid_digit cs \<Longrightarrow> uid_cleaned (colon_pairs cs) = cs"
  by (induction cs rule: colon_pairs.induct) (auto simp: uid_cleaned_def uid_digit_plain)

lemma colon_pairs_nil [simp]: "colon_pairs cs = [] \<longleftrightarrow> cs = []"
  by (cases cs rule: colon_pairs.cases) auto

text \<open>A parsed UID parses to itself, and two texts name one tag when their digits are the same.\<close>

lemma parse_uid_stable: "parse_uid u = Inr v \<Longrightarrow> parse_uid v = Inr v"
  using cleaned_pairs [of "uid_cleaned u"] by (auto simp: parse_uid_def Let_def split: if_splits)

lemma parse_uid_cleaned:
  assumes "u \<noteq> []" "v \<noteq> []" "uid_cleaned u = uid_cleaned v"
  shows "isOk (parse_uid u) = isOk (parse_uid v) \<and> (isOk (parse_uid u) \<longrightarrow> parse_uid u = parse_uid v)"
  using assms by (auto simp: parse_uid_def Let_def isOk_def)

lemma same_uid_refl [simp]: "same_uid a a"
  by (simp add: same_uid_def)

lemma same_uid_sym: "same_uid a b \<Longrightarrow> same_uid b a"
  by (simp add: same_uid_def equal_fold_def)

lemma same_uid_trans: "same_uid a b \<Longrightarrow> same_uid b c \<Longrightarrow> same_uid a c"
  by (simp add: same_uid_def equal_fold_def)

section \<open>What is reported is what is done\<close>

text \<open>
  The operations a routed tag performs are those its capabilities name: an operation that is not
  among them is refused with nothing sent.
\<close>

lemma routed_caps_honest:
  "capCanWrite (routed_caps cfg s) = routed_is_writable cfg s"
  "capCanLock (routed_caps cfg s) = routed_can_make_read_only cfg s"
  "\<not> capCanWrite (routed_caps cfg s) \<Longrightarrow> routed_write cfg d s = (Inl (new_not_supported_error ''WriteData''), s)"
  "\<not> capCanLock (routed_caps cfg s) \<Longrightarrow> routed_lock cfg s = (Inl (new_not_supported_error ''MakeReadOnly''), s)"
  "\<not> capCanTransceive (routed_caps cfg s) \<Longrightarrow>
     routed_transceive cfg d s = (Inl (new_not_supported_error ''Transceive''), s)"
  "rcRoute cfg = Some ro \<Longrightarrow> capCanWrite (routed_caps cfg s) \<Longrightarrow> routed_write cfg d s = roWrite ro (rcUID cfg) d False s"
  "rcRoute cfg = Some ro \<Longrightarrow> capCanLock (routed_caps cfg s) \<Longrightarrow> routed_lock cfg s = roLock ro (rcUID cfg) s"
  by (auto simp: routed_caps_def merge_capabilities_def routed_is_writable_def routed_can_make_read_only_def
      routed_write_def routed_lock_def routed_transceive_def through_route_def write_allowed_def lock_allowed_def
      transceive_allowed_def Let_def split: option.splits)

lemma declared_read_only_refuses:
  assumes "rcDeclared cfg = Some c" "capIsReadOnly c"
  shows "routed_write cfg d s = (Inl (new_not_supported_error ''WriteData''), s)"
    "routed_lock cfg s = (Inl (new_not_supported_error ''MakeReadOnly''), s)"
    "routed_write_and_lock cfg d s = (Inl (new_not_supported_error ''WriteData''), s)"
  using assms by (auto simp: routed_write_def routed_lock_def routed_write_and_lock_def through_route_def write_allowed_def
      lock_allowed_def read_only_declared_def split: option.split)

text \<open>A locked virtual tag keeps its content until it is presented again or removed.\<close>

lemma locked_store_keeps:
  assumes "vmem_locked uid m"
  shows "snd (vmem_write v d lck m) = m \<or> v \<noteq> uid" "vmem_locked uid (snd (vmem_write v d lck m))"
    "vmem_content uid (snd (vmem_write v d lck m)) = vmem_content uid m"
    "vmem_locked uid (snd (vmem_lock v m))" "vmem_content uid (snd (vmem_lock v m)) = vmem_content uid m"
  using assms by (auto simp: vmem_write_def vmem_lock_def vmem_locked_def vmem_content_def)

end
