(* ===== verification/Remote.thy ===== *)
theory Remote
  imports Virtual
begin

text \<open>
  The manager of phones and other networked devices, \<open>nfc/remotenfc\<close>: what a device declares and the
  tag it reports (\<open>wire.go\<close>, \<open>protocol.go\<close>, \<open>tag.go\<close>), the device (\<open>device.go\<close>), and the registry of
  devices, sessions and requests with the handlers of a session's frames (\<open>manager.go\<close>,
  \<open>requests.go\<close>, \<open>server.go\<close>, \<open>version.go\<close>). A connection is a number; a frame is the value its JSON
  decodes to. Maps are lists with one entry per key, in the order the map is iterated in. The time,
  a fresh identity and whether the scan queue made room are arguments.
\<close>

section \<open>What a device declares\<close>

record dev_caps =
  dcCanRead :: bool
  dcCanWrite :: bool
  dcNFCType :: string
  dcCanTransceive :: bool
  dcCanTransceiveRaw :: bool
  dcCanLock :: bool
  dcCanSequence :: bool
  dcTagTypes :: "string list"
  dcDeviceType :: string
  dcMaxBaud :: int
  dcMaxHold :: int

record registration =
  rgName :: string
  rgPlatform :: string
  rgAppVersion :: string
  rgProtocol :: int
  rgCaps :: "dev_caps option"
  rgMetadata :: "(string \<times> string) list"

section \<open>The tag a device reports\<close>

record tag_data =
  tdDevice :: string
  tdUID :: string
  tdTechnology :: string
  tdType :: string
  tdScannedAt :: int
  tdNDEF :: "ndef_input list option"
  tdRaw :: bytes
  tdCaps :: "tag_caps option"

record phone_tag =
  ptUID :: string
  ptType :: string
  ptTechnology :: string
  ptNDEF :: "(ndef_record list \<times> bytes) option"
  ptRaw :: bytes
  ptScannedAt :: int
  ptSource :: string
  ptDeclared :: "tag_caps option"
  ptRouted :: bool

definition wrap_tag_data_error :: "string \<Rightarrow> string \<Rightarrow> string \<Rightarrow> go_error \<Rightarrow> go_error" where
  "wrap_tag_data_error op uid msg cause =
     NFCError (case get_error_code cause of Some c \<Rightarrow> c | None \<Rightarrow> ErrCodeInvalidData) op uid msg (Some cause)"

definition convert_tag_data :: "tag_data \<Rightarrow> bool \<Rightarrow> go_error + phone_tag" where
  "convert_tag_data d linked =
     (let op = ''ConvertTagData''
      in if tdUID d = [] then Inl (NFCError ErrCodeInvalidData op [] ''tag UID is required'' None)
         else if tdTechnology d = [] then Inl (NFCError ErrCodeInvalidData op [] ''tag technology is required'' None)
         else let uid = normal_uid (tdUID d);
                  content = (case tdNDEF d of
                      None \<Rightarrow> Inr None
                    | Some input \<Rightarrow> (case convert_ndef_input input of
                        Inl e \<Rightarrow> Inl (wrap_tag_data_error op uid ''failed to parse NDEF message'' e)
                      | Inr m \<Rightarrow> (case encode_ndef_records m of
                          Inl e \<Rightarrow> Inl (wrap_tag_data_error op uid ''failed to encode NDEF message''
                                     (PlainError ''failed to encode NDEF message''))
                        | Inr enc \<Rightarrow> Inr (Some (m, enc)))))
              in case content of
                   Inl e \<Rightarrow> Inl e
                 | Inr c \<Rightarrow> Inr \<lparr>ptUID = uid, ptType = tdType d, ptTechnology = tdTechnology d, ptNDEF = c,
                     ptRaw = tdRaw d, ptScannedAt = tdScannedAt d, ptSource = tdDevice d, ptDeclared = tdCaps d,
                     ptRouted = linked\<rparr>)"

definition phone_tag_read :: "phone_tag \<Rightarrow> go_error + bytes" where
  "phone_tag_read t =
     (let ndef = (case ptNDEF t of Some (m, enc) \<Rightarrow> enc | None \<Rightarrow> [])
      in if 0 < length ndef then Inr ndef
         else if 0 < length (ptRaw t) then Inr (ptRaw t)
         else Inl (new_no_payload_error ''ReadData'' (ptUID t) None))"

definition phone_tag_message :: "phone_tag \<Rightarrow> go_error + ndef_record list" where
  "phone_tag_message t = (case ptNDEF t of
     Some (m, enc) \<Rightarrow> Inr m | None \<Rightarrow> Inl (PlainError ''no NDEF message available''))"

section \<open>Devices\<close>

definition heartbeat_interval :: int where "heartbeat_interval = 30000"
definition device_timeout :: int where "device_timeout = 90000"
definition scan_queue_depth :: nat where "scan_queue_depth = 256"

text \<open>\<open>phObject\<close> is the identity of the Go object, which a registration that replaces it does not share.\<close>

record phone =
  phObject :: nat
  phName :: string
  phPlatform :: string
  phAppVersion :: string
  phProtocol :: int
  phActive :: bool
  phLastSeen :: int
  phCaps :: "dev_caps option"
  phTag :: "phone_tag option"
  phMetadata :: "(string \<times> string) list"
  phSlot :: bool

definition new_phone :: "nat \<Rightarrow> int \<Rightarrow> registration \<Rightarrow> phone" where
  "new_phone i now r =
     \<lparr>phObject = i, phName = rgName r, phPlatform = rgPlatform r, phAppVersion = rgAppVersion r,
      phProtocol = rgProtocol r, phActive = True, phLastSeen = now, phCaps = rgCaps r, phTag = None,
      phMetadata = rgMetadata r, phSlot = False\<rparr>"

definition phone_healthy :: "int \<Rightarrow> phone \<Rightarrow> go_error option" where
  "phone_healthy now p =
     (if \<not> phActive p then Some (PlainError ''device is not active'')
      else if device_timeout < now - phLastSeen p then Some (PlainError ''device timeout'')
      else None)"

definition phone_device_type :: "phone \<Rightarrow> string" where
  "phone_device_type p = (case phCaps p of
     Some c \<Rightarrow> if dcDeviceType c \<noteq> [] then dcDeviceType c else ''smartphone'' | None \<Rightarrow> ''smartphone'')"

definition phone_tag_types :: "phone \<Rightarrow> string list" where
  "phone_tag_types p = (case phCaps p of
     None \<Rightarrow> [] | Some c \<Rightarrow> if 0 < length (dcTagTypes c) then dcTagTypes c else [dcNFCType c])"

definition phone_get_tags :: "phone \<Rightarrow> go_error + phone_tag list" where
  "phone_get_tags p =
     (if \<not> phActive p then Inl (Sentinel ErrDeviceClosed)
      else case phTag p of Some t \<Rightarrow> Inr [t] | None \<Rightarrow> Inr [])"

section \<open>The manager\<close>

datatype published = Scan string phone_tag | Removal string string

record device_reply =
  dySuccess :: bool
  dyData :: bytes
  dyReplies :: "bytes list"
  dyStoppedAt :: int
  dyError :: string
  dyCode :: string

text \<open>
  \<open>rmAnswers\<close> holds what has been put in the channel of a request; a payload that does not decode
  into the response asked for is none. \<open>rmClosing\<close> are the connections the agent has closed: the
  session of each ends when its read fails. \<open>rmAllow\<close> is what the agent's policy answers now.
\<close>

record remote =
  rmDevices :: "(string \<times> phone) list"
  rmTimeout :: int
  rmClosed :: bool
  rmQueue :: "published list"
  rmDropped :: nat
  rmChanged :: bool
  rmAllow :: "bool option"
  rmSessions :: "(string \<times> nat) list"
  rmSessionConn :: "(nat \<times> string) list"
  rmClosing :: "nat list"
  rmPending :: "(string \<times> string) list"
  rmAnswers :: "(string \<times> (go_error + device_reply option)) list"
  rmLatest :: string
  rmReqSeq :: nat
  rmObjects :: nat

definition new_remote :: "int \<Rightarrow> bool option \<Rightarrow> remote" where
  "new_remote timeout allow =
     \<lparr>rmDevices = [], rmTimeout = (if timeout = 0 then device_timeout else timeout), rmClosed = False, rmQueue = [],
      rmDropped = 0, rmChanged = False, rmAllow = allow, rmSessions = [], rmSessionConn = [], rmClosing = [],
      rmPending = [], rmAnswers = [], rmLatest = [], rmReqSeq = 0, rmObjects = 0\<rparr>"

definition get_device :: "string \<Rightarrow> remote \<Rightarrow> phone option" where
  "get_device d rm = map_of (rmDevices rm) d"

definition update_device :: "string \<Rightarrow> (phone \<Rightarrow> phone) \<Rightarrow> remote \<Rightarrow> remote" where
  "update_device d f rm = (case get_device d rm of
     None \<Rightarrow> rm | Some p \<Rightarrow> rm\<lparr>rmDevices := AList.update d (f p) (rmDevices rm)\<rparr>)"

definition strip_smartphone :: "string \<Rightarrow> string" where
  "strip_smartphone s = (if prefix ''smartphone:'' s then drop 11 s else s)"

definition remote_open_device :: "string \<Rightarrow> remote \<Rightarrow> go_error + phone" where
  "remote_open_device s rm =
     (let d = strip_smartphone s
      in case get_device d rm of
           None \<Rightarrow> Inl (PlainError (''smartphone device not found: '' @ d))
         | Some p \<Rightarrow> if \<not> phActive p then Inl (PlainError (''smartphone device is inactive: '' @ d)) else Inr p)"

definition remote_devices :: "remote \<Rightarrow> device_listing list" where
  "remote_devices rm =
     map (\<lambda>(d, p). \<lparr>dlPath = d, dlID = d, dlCanPoll = False\<rparr>) (filter (\<lambda>(d, p). phActive p) (rmDevices rm))"

text \<open>Sessions: a device's connection, and the device a connection is.\<close>

definition session_of :: "string \<Rightarrow> remote \<Rightarrow> nat option" where
  "session_of d rm = map_of (rmSessions rm) d"

definition add_session :: "string \<Rightarrow> nat \<Rightarrow> remote \<Rightarrow> remote" where
  "add_session d c rm =
     rm\<lparr>rmSessions := AList.update d c (rmSessions rm), rmSessionConn := AList.update c d (rmSessionConn rm)\<rparr>"

definition remove_session_for :: "nat \<Rightarrow> string \<Rightarrow> remote \<Rightarrow> bool \<times> remote" where
  "remove_session_for c d rm =
     (if session_of d rm \<noteq> Some c then (False, rm\<lparr>rmSessionConn := AList.delete c (rmSessionConn rm)\<rparr>)
      else (True, rm\<lparr>rmSessionConn := AList.delete c (rmSessionConn rm), rmSessions := AList.delete d (rmSessions rm)\<rparr>))"

definition remove_session :: "string \<Rightarrow> remote \<Rightarrow> remote" where
  "remove_session d rm = (case session_of d rm of
     None \<Rightarrow> rm
   | Some c \<Rightarrow> rm\<lparr>rmSessionConn := AList.delete c (rmSessionConn rm), rmSessions := AList.delete d (rmSessions rm)\<rparr>)"

definition device_id_for_conn :: "nat \<Rightarrow> remote \<Rightarrow> string" where
  "device_id_for_conn c rm = (case map_of (rmSessionConn rm) c of Some d \<Rightarrow> d | None \<Rightarrow> [])"

definition close_conn :: "nat \<Rightarrow> remote \<Rightarrow> remote" where
  "close_conn c rm = rm\<lparr>rmClosing := c # rmClosing rm\<rparr>"

definition close_session :: "string \<Rightarrow> remote \<Rightarrow> bool \<times> remote" where
  "close_session d rm = (case session_of d rm of None \<Rightarrow> (False, rm) | Some c \<Rightarrow> (True, close_conn c rm))"

definition disconnect_device :: "string \<Rightarrow> remote \<Rightarrow> bool \<times> remote" where
  "disconnect_device d rm = (case session_of d rm of None \<Rightarrow> (False, rm) | Some c \<Rightarrow> (True, close_conn c rm))"

section \<open>Registration\<close>

definition replace_session :: "string \<Rightarrow> remote \<Rightarrow> remote" where
  "replace_session d rm = (case session_of d rm of
     None \<Rightarrow> rm | Some c \<Rightarrow> close_conn c (remove_session d rm))"

definition register_device :: "string \<Rightarrow> int \<Rightarrow> string \<Rightarrow> registration \<Rightarrow> remote \<Rightarrow> (go_error + string) \<times> remote" where
  "register_device fresh now device req rm =
     (if rgName req = [] then (Inl (PlainError ''device name is required''), rm)
      else let req = (if rgPlatform req = [] then req\<lparr>rgPlatform := ''unknown''\<rparr> else req);
               d = (if device = [] then fresh else device);
               rm = replace_session d rm
           in (Inr d, rm\<lparr>rmDevices := AList.update d (new_phone (rmObjects rm) now req) (rmDevices rm),
                         rmObjects := rmObjects rm + 1, rmChanged := True\<rparr>))"

definition unregister_device :: "string \<Rightarrow> remote \<Rightarrow> go_error option \<times> remote" where
  "unregister_device d rm = (case get_device d rm of
     None \<Rightarrow> (Some (PlainError (''device not found: '' @ d)), rm)
   | Some p \<Rightarrow> (None, rm\<lparr>rmDevices := AList.delete d (rmDevices rm), rmChanged := True\<rparr>))"

definition negotiate_device_version :: "int \<Rightarrow> int" where
  "negotiate_device_version declared = (if declared < 1 then 1 else if 1 < declared then 1 else declared)"

definition register_session ::
    "string \<Rightarrow> int \<Rightarrow> nat \<Rightarrow> registration \<Rightarrow> int \<Rightarrow> string \<Rightarrow> remote \<Rightarrow> (error_payload + string) \<times> remote" where
  "register_session fresh now c req version admitted rm =
     (if rgName req = [] then (Inl (new_error_payload ''INVALID_REQUEST''), rm)
      else case register_device fresh now admitted (req\<lparr>rgProtocol := version\<rparr>) rm of
        (Inl e, rm) \<Rightarrow> (Inl (new_error_payload ''REGISTRATION_FAILED''), rm)
      | (Inr d, rm) \<Rightarrow> (Inr d, add_session d c rm))"

text \<open>The answer to a registration could not be sent: undone when the session is still this one.\<close>

definition registration_unsent :: "nat \<Rightarrow> string \<Rightarrow> remote \<Rightarrow> remote" where
  "registration_unsent c d rm = (case remove_session_for c d rm of
     (removed, rm) \<Rightarrow> if removed then snd (unregister_device d rm) else rm)"

section \<open>The tags devices hold\<close>

definition held_tag :: "string \<Rightarrow> remote \<Rightarrow> phone_tag option" where
  "held_tag d rm = (case get_device d rm of None \<Rightarrow> None | Some p \<Rightarrow> phTag p)"

definition active_tag :: "string \<Rightarrow> remote \<Rightarrow> (string \<times> phone_tag) option" where
  "active_tag device rm =
     (let d = (if device = [] then rmLatest rm else device)
      in if d = [] then None
         else case held_tag d rm of None \<Rightarrow> None | Some t \<Rightarrow> Some (d, t))"

definition active_tag_devices :: "remote \<Rightarrow> string list" where
  "active_tag_devices rm =
     (let holders = map fst (filter (\<lambda>(d, p). d \<noteq> rmLatest rm \<and> phTag p \<noteq> None) (rmDevices rm))
      in (if rmLatest rm \<noteq> [] then [rmLatest rm] else []) @ holders)"

definition any_device_holding_tag :: "string \<Rightarrow> remote \<Rightarrow> string" where
  "any_device_holding_tag except rm = (case find (\<lambda>(d, p). d \<noteq> except \<and> phTag p \<noteq> None) (rmDevices rm) of
     Some (d, p) \<Rightarrow> d | None \<Rightarrow> [])"

definition set_active_tag :: "string \<Rightarrow> phone_tag \<Rightarrow> remote \<Rightarrow> remote" where
  "set_active_tag d t rm = (case get_device d rm of
     None \<Rightarrow> rm
   | Some p \<Rightarrow> (update_device d (\<lambda>p. p\<lparr>phTag := Some t\<rparr>) rm)\<lparr>rmLatest := d\<rparr>)"

definition clear_active_tag :: "string \<Rightarrow> string \<Rightarrow> remote \<Rightarrow> remote" where
  "clear_active_tag d uid rm = (case held_tag d rm of
     None \<Rightarrow> rm
   | Some t \<Rightarrow>
       if uid \<noteq> [] \<and> ptUID t \<noteq> [] \<and> ptUID t \<noteq> uid then rm
       else let rm = update_device d (\<lambda>p. p\<lparr>phTag := None\<rparr>) rm
            in if rmLatest rm \<noteq> d then rm else rm\<lparr>rmLatest := any_device_holding_tag d rm\<rparr>)"

section \<open>Scans\<close>

text \<open>\<open>publish\<close>: \<open>room\<close> is whether the broadcast loop took a scan before the wait ended.\<close>

definition publish :: "bool \<Rightarrow> published \<Rightarrow> remote \<Rightarrow> go_error option \<times> remote" where
  "publish room p rm =
     (if length (rmQueue rm) < scan_queue_depth then (None, rm\<lparr>rmQueue := rmQueue rm @ [p]\<rparr>)
      else if room then (None, rm\<lparr>rmQueue := tl (rmQueue rm) @ [p]\<rparr>)
      else if rmClosed rm then (Some (PlainError ''manager closed''), rm)
      else (Some (PlainError ''scan queue full: subscribers are not keeping up''), rm\<lparr>rmDropped := rmDropped rm + 1\<rparr>))"

definition next_scan :: "remote \<Rightarrow> published option \<times> remote" where
  "next_scan rm = (case rmQueue rm of [] \<Rightarrow> (None, rm) | p # ps \<Rightarrow> (Some p, rm\<lparr>rmQueue := ps\<rparr>))"

definition touch :: "int \<Rightarrow> string \<Rightarrow> remote \<Rightarrow> remote" where
  "touch now d = update_device d (\<lambda>p. p\<lparr>phLastSeen := now\<rparr>)"

definition device_not_found :: "string \<Rightarrow> go_error" where
  "device_not_found d = PlainError (''device not found: '' @ d)"

definition send_tag_data :: "int \<Rightarrow> bool \<Rightarrow> string \<Rightarrow> tag_data \<Rightarrow> remote \<Rightarrow> go_error option \<times> remote" where
  "send_tag_data now room d data rm = (case get_device d rm of
     None \<Rightarrow> (Some (device_not_found d), rm)
   | Some p \<Rightarrow> (case convert_tag_data data True of
       Inl e \<Rightarrow> (Some (Wrapped ''failed to convert tag data: '' e []), rm)
     | Inr t \<Rightarrow> publish room (Scan d t) (touch now d (set_active_tag d t rm))))"

definition send_tag_removed :: "int \<Rightarrow> bool \<Rightarrow> string \<Rightarrow> string \<Rightarrow> remote \<Rightarrow> go_error option \<times> remote" where
  "send_tag_removed now room d uid rm = (case get_device d rm of
     None \<Rightarrow> (Some (device_not_found d), rm)
   | Some p \<Rightarrow> publish room (Removal d uid) (touch now d rm))"

definition update_heartbeat :: "int \<Rightarrow> string \<Rightarrow> remote \<Rightarrow> go_error option \<times> remote" where
  "update_heartbeat now d rm = (case get_device d rm of
     None \<Rightarrow> (Some (device_not_found d), rm)
   | Some p \<Rightarrow> (None, touch now d rm))"

section \<open>Requests awaiting a device\<close>

definition put_answer :: "string \<Rightarrow> go_error + device_reply option \<Rightarrow> remote \<Rightarrow> remote" where
  "put_answer rid a rm = rm\<lparr>rmAnswers := AList.update rid a (rmAnswers rm)\<rparr>"

definition begin_request :: "string \<Rightarrow> string \<Rightarrow> remote \<Rightarrow> remote" where
  "begin_request rid d rm =
     rm\<lparr>rmPending := AList.update rid d (rmPending rm), rmAnswers := AList.delete rid (rmAnswers rm)\<rparr>"

definition end_request :: "string \<Rightarrow> remote \<Rightarrow> remote" where
  "end_request rid rm = rm\<lparr>rmPending := AList.delete rid (rmPending rm)\<rparr>"

definition handle_device_response ::
    "string \<Rightarrow> string \<Rightarrow> device_reply option \<Rightarrow> remote \<Rightarrow> go_error option \<times> remote" where
  "handle_device_response d rid payload rm = (case map_of (rmPending rm) rid of
     None \<Rightarrow> (None, rm)
   | Some owner \<Rightarrow>
       if owner \<noteq> d then (Some (PlainError (''response for '' @ owner @ '' came from '' @ d)), rm)
       else (None, put_answer rid (Inr payload) (end_request rid rm)))"

definition gone_error :: go_error where
  "gone_error = NFCError ErrCodeTagNotConnected ''request'' [] ''device disconnected before reporting the outcome'' None"

definition fail_pending_requests :: "string \<Rightarrow> remote \<Rightarrow> remote" where
  "fail_pending_requests d rm =
     (let owned = (\<lambda>rid. map_of (rmPending rm) rid = Some d)
      in rm\<lparr>rmAnswers := map (\<lambda>rid. (rid, Inl gone_error)) (filter owned (map fst (rmPending rm))) @ rmAnswers rm,
            rmPending := filter (\<lambda>(rid, owner). \<not> owned rid) (rmPending rm)\<rparr>)"

section \<open>A session's frames\<close>

text \<open>
  A reply carries the request it answers in its payload, and else as the frame's own identifier. A
  goodbye that does not decode is one without a reason.
\<close>

datatype device_frame =
    FHello int registration
  | FRegister registration
  | FTagScanned tag_data
  | FTagRemoved string string
  | FHeartbeat string
  | FGoodbye string
  | FReply string string "device_reply option"
  | FUnknown string
  | FUndecodable "string option"
  | FUnparsable

definition awaiting_registration ::
    "string \<Rightarrow> int \<Rightarrow> nat \<Rightarrow> string \<Rightarrow> device_frame \<Rightarrow> remote \<Rightarrow> (error_payload + string) \<times> remote" where
  "awaiting_registration fresh now c admitted f rm = (case f of
     FHello v req \<Rightarrow> register_session fresh now c req (negotiate_device_version v) admitted rm
   | FRegister req \<Rightarrow> register_session fresh now c req 0 admitted rm
   | FUnparsable \<Rightarrow> (Inl (new_error_payload ''PARSE_ERROR''), rm)
   | FUndecodable ty \<Rightarrow>
       (Inl (new_error_payload (if ty \<in> {Some ''hello'', Some ''registerDevice''} then ''INVALID_PAYLOAD''
                                else ''INVALID_MESSAGE_TYPE'')), rm)
   | _ \<Rightarrow> (Inl (new_error_payload ''INVALID_MESSAGE_TYPE''), rm))"

definition tag_error_payload :: "go_error \<Rightarrow> error_payload" where
  "tag_error_payload e =
     (let p = error_payload_for e in if epCode p = ''UNKNOWN_ERROR'' then new_error_payload ''TAG_SEND_FAILED'' else p)"

definition handle_tag_scanned ::
    "int \<Rightarrow> bool \<Rightarrow> string \<Rightarrow> tag_data \<Rightarrow> remote \<Rightarrow> error_payload option \<times> remote" where
  "handle_tag_scanned now room d data rm =
     (if tdDevice data \<noteq> [] \<and> tdDevice data \<noteq> d then (Some (new_error_payload ''INVALID_DEVICE''), rm)
      else case send_tag_data now room d (data\<lparr>tdDevice := d\<rparr>) rm of
        (Some e, rm) \<Rightarrow> (Some (tag_error_payload e), rm)
      | (None, rm) \<Rightarrow> (None, rm))"

definition handle_tag_removed ::
    "int \<Rightarrow> bool \<Rightarrow> string \<Rightarrow> string \<Rightarrow> string \<Rightarrow> remote \<Rightarrow> error_payload option \<times> remote" where
  "handle_tag_removed now room d named uid rm =
     (if named \<noteq> [] \<and> named \<noteq> d then (Some (new_error_payload ''INVALID_DEVICE''), rm)
      else case send_tag_removed now room d uid (clear_active_tag d uid rm) of
        (Some e, rm) \<Rightarrow> (Some (tag_error_payload e), rm)
      | (None, rm) \<Rightarrow> (None, rm))"

definition handle_heartbeat :: "int \<Rightarrow> string \<Rightarrow> string \<Rightarrow> remote \<Rightarrow> remote" where
  "handle_heartbeat now d named rm =
     (if named \<noteq> [] \<and> named \<noteq> d then rm else snd (update_heartbeat now d rm))"

text \<open>What the device is told, and whether the session goes on.\<close>

definition serve_frame ::
    "int \<Rightarrow> bool \<Rightarrow> string \<Rightarrow> device_frame \<Rightarrow> remote \<Rightarrow> error_payload option \<times> bool \<times> remote" where
  "serve_frame now room d f rm = (case f of
     FTagScanned data \<Rightarrow> (case handle_tag_scanned now room d data rm of (e, rm) \<Rightarrow> (e, True, rm))
   | FTagRemoved named uid \<Rightarrow> (case handle_tag_removed now room d named uid rm of (e, rm) \<Rightarrow> (e, True, rm))
   | FHeartbeat named \<Rightarrow> (None, True, handle_heartbeat now d named rm)
   | FGoodbye reason \<Rightarrow> (None, False, rm)
   | FReply inner outer payload \<Rightarrow>
       (None, True, snd (handle_device_response d (if inner = [] then outer else inner) payload rm))
   | FUndecodable ty \<Rightarrow>
       (if ty \<in> {Some ''tagScanned'', Some ''tagRemoved''} then Some (new_error_payload ''INVALID_PAYLOAD'') else None, True, rm)
   | FUnparsable \<Rightarrow> (Some (new_error_payload ''PARSE_ERROR''), True, rm)
   | _ \<Rightarrow> (Some (new_error_payload ''UNKNOWN_TYPE''), True, rm))"

definition end_session :: "nat \<Rightarrow> string \<Rightarrow> remote \<Rightarrow> remote" where
  "end_session c d rm = (case remove_session_for c d rm of
     (removed, rm) \<Rightarrow>
       if \<not> removed then rm
       else snd (unregister_device d (clear_active_tag d [] (fail_pending_requests d rm))))"

text \<open>The sweep for silent devices: a session is closed, and a registration without one dropped.\<close>

definition stale_devices :: "int \<Rightarrow> remote \<Rightarrow> string list" where
  "stale_devices now rm = map fst (filter (\<lambda>(d, p). rmTimeout rm < now - phLastSeen p) (rmDevices rm))"

definition drop_stale :: "string \<Rightarrow> remote \<Rightarrow> remote" where
  "drop_stale d rm = (case close_session d rm of (closed, rm) \<Rightarrow> if closed then rm else snd (unregister_device d rm))"

definition cleanup_inactive_devices :: "int \<Rightarrow> remote \<Rightarrow> remote" where
  "cleanup_inactive_devices now rm = fold drop_stale (stale_devices now rm) rm"

definition close_manager :: "remote \<Rightarrow> remote" where
  "close_manager rm =
     (if rmClosed rm then rm
      else rm\<lparr>rmClosed := True, rmClosing := map snd (rmSessions rm) @ rmClosing rm, rmDevices := []\<rparr>)"

end
