(* ===== verification/Sha256.thy ===== *)
theory Sha256
  imports Prelude
begin

text \<open>
  SHA-256 (FIPS 180-4), as Go's \<open>crypto/sha256\<close> computes it and the agent uses it for the key that
  names a logical operation on a tag (\<open>operationKey\<close> in \<open>nfc/remotenfc/requests.go\<close>).
\<close>

unbundle bit_operations_syntax

section \<open>The compression function\<close>

text \<open>
  The constants are the first 32 bits of the fractional parts of roots of the first primes: cube roots
  for the rounds, square roots for the start.
\<close>

definition sha_k :: "uint32 list" where
  "sha_k =
    [1116352408, 1899447441, 3049323471, 3921009573, 961987163, 1508970993, 2453635748, 2870763221,
     3624381080, 310598401, 607225278, 1426881987, 1925078388, 2162078206, 2614888103, 3248222580,
     3835390401, 4022224774, 264347078, 604807628, 770255983, 1249150122, 1555081692, 1996064986,
     2554220882, 2821834349, 2952996808, 3210313671, 3336571891, 3584528711, 113926993, 338241895,
     666307205, 773529912, 1294757372, 1396182291, 1695183700, 1986661051, 2177026350, 2456956037,
     2730485921, 2820302411, 3259730800, 3345764771, 3516065817, 3600352804, 4094571909, 275423344,
     430227734, 506948616, 659060556, 883997877, 958139571, 1322822218, 1537002063, 1747873779,
     1955562222, 2024104815, 2227730452, 2361852424, 2428436474, 2756734187, 3204031479, 3329325298]"

definition sha_init :: "uint32 list" where
  "sha_init =
    [1779033703, 3144134277, 1013904242, 2773480762, 1359893119, 2600822924, 528734635, 1541459225]"

definition rotr :: "nat \<Rightarrow> uint32 \<Rightarrow> uint32" where
  "rotr n w = drop_bit n w OR push_bit (32 - n) w"

fun sha_schedule :: "nat \<Rightarrow> uint32 list \<Rightarrow> uint32 list" where
  "sha_schedule 0 w = w"
| "sha_schedule (Suc n) w =
     (let i = length w; a = w ! (i - 15); b = w ! (i - 2);
          s0 = rotr 7 a XOR rotr 18 a XOR drop_bit 3 a; s1 = rotr 17 b XOR rotr 19 b XOR drop_bit 10 b
      in sha_schedule n (w @ [w ! (i - 16) + s0 + w ! (i - 7) + s1]))"

fun sha_round :: "uint32 list \<Rightarrow> uint32 \<times> uint32 \<Rightarrow> uint32 list" where
  "sha_round [a, b, c, d, e, f, g, h] (k, w) =
     (let t1 = h + (rotr 6 e XOR rotr 11 e XOR rotr 25 e) + ((e AND f) XOR (NOT e AND g)) + k + w;
          t2 = (rotr 2 a XOR rotr 13 a XOR rotr 22 a) + ((a AND b) XOR (a AND c) XOR (b AND c))
      in [t1 + t2, a, b, c, d + t1, e, f, g])"
| "sha_round st kw = st"

definition sha_block :: "uint32 list \<Rightarrow> uint32 list \<Rightarrow> uint32 list" where
  "sha_block st w = map2 (+) st (foldl sha_round st (zip sha_k (sha_schedule 48 w)))"

section \<open>Padding\<close>

definition word_of_bytes :: "bytes \<Rightarrow> uint32" where
  "word_of_bytes b = foldl (\<lambda>w x. push_bit 8 w OR ucast x) 0 b"

definition sha_pad :: "bytes \<Rightarrow> bytes" where
  "sha_pad m =
     (let z = (119 - length m mod 64) mod 64
      in m @ 0x80 # replicate z 0 @
         map (\<lambda>k. ucast (drop_bit k (word_of_nat (8 * length m) :: uint64))) [56, 48, 40, 32, 24, 16, 8, 0])"

definition sha256 :: "bytes \<Rightarrow> bytes" where
  "sha256 m =
     (let p = sha_pad m;
          st = foldl sha_block sha_init (map (\<lambda>b. map word_of_bytes (chunks 4 b)) (chunks 64 p))
      in concat (map be32 st))"

lemma length_sha_round [simp]: "length (sha_round st kw) = length st"
  by (cases "(st, kw)" rule: sha_round.cases) (auto simp: Let_def)

lemma length_sha_block [simp]: "length (sha_block st w) = length st"
proof -
  have "length (foldl sha_round s ks) = length s" for s ks by (induction ks arbitrary: s) auto
  then show ?thesis by (simp add: sha_block_def)
qed

lemma length_sha256 [simp]: "length (sha256 m) = 32"
proof -
  have b: "length (be32 w) = 4" for w by (simp add: be32_def)
  have "length (concat (map be32 st)) = 4 * length st" for st by (induction st) (auto simp: b)
  moreover have "length (foldl sha_block st bs) = length st" for st bs by (induction bs arbitrary: st) auto
  ultimately show ?thesis by (simp add: sha256_def Let_def sha_init_def)
qed

end
