(* ===== verification/RemoteOps.thy ===== *)
theory RemoteOps
  imports Remote Sha256
begin

text \<open>
  Operations on the tags phones hold, \<open>nfc/remotenfc\<close>: a request to a device and the wait for its
  answer (\<open>requests.go\<close>), the tag as a value of the tag interface (\<open>tag.go\<close>), the operations of a tag
  holder (\<open>deviceops.go\<close>) and sequences with the check of what a device answers (\<open>sequence.go\<close>). While
  a request waits the rest of the world moves: \<open>pwWait\<close> is whatever happens to the manager until the
  request is answered or given up. Contexts and wall-clock limits are left to it.
\<close>

section \<open>Requests\<close>

datatype device_message =
    MWrite string string string bytes bool string
  | MTransceive string string string bytes bool int
  | MSequence string string string "(bytes \<times> string list \<times> string list) list" int

text \<open>
  The world beside the manager: the time, sending on a connection, and the wait, which ends with an
  answer or with the error that ended it (the caller's context, or the time limit of the request).
\<close>

record 's phone_world =
  pwNow :: "'s \<Rightarrow> int"
  pwSend :: "nat \<Rightarrow> device_message \<Rightarrow> 's \<Rightarrow> go_error option \<times> 's"
  pwWait :: "string \<Rightarrow> remote \<times> 's \<Rightarrow> go_error option \<times> remote \<times> 's"

type_synonym ('s, 'a) remote_op = "remote \<times> 's \<Rightarrow> (go_error + 'a) \<times> remote \<times> 's"

definition send_to_device ::
    "'s phone_world \<Rightarrow> string \<Rightarrow> device_message \<Rightarrow> remote \<Rightarrow> 's \<Rightarrow> go_error option \<times> 's" where
  "send_to_device pw d msg rm s = (case session_of d rm of
     None \<Rightarrow> (Some (PlainError (''device not connected: '' @ d)), s)
   | Some c \<Rightarrow> pwSend pw c msg s)"

definition no_response :: "string \<Rightarrow> go_error" where
  "no_response d = PlainError (''device '' @ d @ '' did not respond within the time limit'')"

definition device_request ::
    "'s phone_world \<Rightarrow> string \<Rightarrow> string \<Rightarrow> device_message \<Rightarrow> ('s, device_reply option) remote_op" where
  "device_request pw d rid msg = (\<lambda>(rm, s).
     let rm = begin_request rid d rm
     in case send_to_device pw d msg rm s of
          (Some e, s) \<Rightarrow> (Inl e, end_request rid rm, s)
        | (None, s) \<Rightarrow> (case pwWait pw rid (rm, s) of
            (Some e, rm, s) \<Rightarrow> (Inl e, end_request rid rm, s)
          | (None, rm, s) \<Rightarrow>
              (case map_of (rmAnswers rm) rid of Some a \<Rightarrow> a | None \<Rightarrow> Inl (no_response d), end_request rid rm, s)))"

text \<open>The payload as the response that was asked for.\<close>

definition decoded :: "string \<Rightarrow> (go_error + device_reply option) \<times> 'w \<Rightarrow> (go_error + device_reply) \<times> 'w" where
  "decoded what rw = (case rw of
     (Inl e, w) \<Rightarrow> (Inl e, w)
   | (Inr None, w) \<Rightarrow> (Inl (Wrapped (''failed to parse '' @ what @ '' response: '') (PlainError ''unexpected JSON'') []), w)
   | (Inr (Some r), w) \<Rightarrow> (Inr r, w))"

definition device_transceive_timeout :: int where "device_transceive_timeout = 5000"

definition write_to_device ::
    "'s phone_world \<Rightarrow> string \<Rightarrow> string \<Rightarrow> string \<Rightarrow> bytes \<Rightarrow> bool \<Rightarrow> string \<Rightarrow> ('s, device_reply) remote_op" where
  "write_to_device pw d rid uid ndef lck key w =
     decoded ''write'' (device_request pw d rid (MWrite rid d uid ndef lck key) w)"

definition transceive_with_device ::
    "'s phone_world \<Rightarrow> string \<Rightarrow> string \<Rightarrow> string \<Rightarrow> bytes \<Rightarrow> bool \<Rightarrow> int \<Rightarrow> ('s, device_reply) remote_op" where
  "transceive_with_device pw d rid uid data raw timeout w =
     decoded ''transceive'' (device_request pw d rid
       (MTransceive rid d uid data raw (if timeout = 0 then device_transceive_timeout else timeout)) w)"

definition sw_char :: "nat \<Rightarrow> char" where
  "sw_char n = (if n < 10 then char_of (48 + n) else char_of (55 + n))"

definition format_sw :: "uint16 \<Rightarrow> string" where
  "format_sw sw = map (\<lambda>k. sw_char (unat sw div 16 ^ k mod 16)) [3, 2, 1, 0]"

definition transceive_sequence_with_device ::
    "'s phone_world \<Rightarrow> string \<Rightarrow> string \<Rightarrow> string \<Rightarrow> sequence_step list \<Rightarrow> int \<Rightarrow> ('s, device_reply) remote_op" where
  "transceive_sequence_with_device pw d rid uid steps timeout w =
     decoded ''sequence'' (device_request pw d rid
       (MSequence rid d uid (map (\<lambda>st. (qData st, map format_sw (qExpectSW st), map format_sw (qStopOnSW st))) steps)
          (if timeout = 0 then device_transceive_timeout else timeout)) w)"

definition next_request_id :: "string \<Rightarrow> remote \<Rightarrow> string \<times> remote" where
  "next_request_id op rm = (op @ ''-'' @ decimal (rmReqSeq rm + 1), rm\<lparr>rmReqSeq := rmReqSeq rm + 1\<rparr>)"

section \<open>What a device can be asked\<close>

definition tag_modification_allowed :: "remote \<Rightarrow> bool" where
  "tag_modification_allowed rm = (case rmAllow rm of None \<Rightarrow> True | Some b \<Rightarrow> b)"

definition device_connected :: "string \<Rightarrow> remote \<Rightarrow> bool" where
  "device_connected d rm = (case get_device d rm of
     None \<Rightarrow> False | Some p \<Rightarrow> if \<not> phActive p then False else session_of d rm \<noteq> None)"

definition device_reachable :: "string \<Rightarrow> remote \<Rightarrow> bool" where
  "device_reachable d rm = (if \<not> tag_modification_allowed rm then False else device_connected d rm)"

definition device_declared_as :: "string \<Rightarrow> bool \<Rightarrow> (dev_caps \<Rightarrow> bool) \<Rightarrow> remote \<Rightarrow> bool" where
  "device_declared_as d with_mode want rm =
     (if with_mode \<and> \<not> device_reachable d rm then False
      else if \<not> with_mode \<and> \<not> device_connected d rm then False
      else case get_device d rm of
        None \<Rightarrow> False
      | Some p \<Rightarrow> (case phCaps p of None \<Rightarrow> True | Some c \<Rightarrow> want c))"

definition device_source :: "string \<Rightarrow> remote \<Rightarrow> cap_source" where
  "device_source d rm =
     \<lparr>csWrite = device_declared_as d True dcCanWrite rm, csLock = device_declared_as d True dcCanLock rm,
      csTransceive = device_declared_as d True dcCanTransceive rm\<rparr>"

definition exchange_source :: "string \<Rightarrow> remote \<Rightarrow> cap_source" where
  "exchange_source d rm =
     \<lparr>csWrite = False, csLock = False, csTransceive = device_declared_as d False dcCanTransceive rm\<rparr>"

definition can_exchange :: "string \<Rightarrow> phone_tag \<Rightarrow> remote \<Rightarrow> bool" where
  "can_exchange d t rm = transceive_allowed (ptDeclared t) (Some (exchange_source d rm))"

definition device_can_sequence :: "string \<Rightarrow> remote \<Rightarrow> bool" where
  "device_can_sequence d rm = (case get_device d rm of
     None \<Rightarrow> False
   | Some p \<Rightarrow> (case phCaps p of None \<Rightarrow> False | Some c \<Rightarrow> dcCanTransceive c \<and> dcCanSequence c))"

definition device_max_hold :: "string \<Rightarrow> remote \<Rightarrow> int" where
  "device_max_hold d rm = (case get_device d rm of
     None \<Rightarrow> 0 | Some p \<Rightarrow> if \<not> phActive p then 0 else (case phCaps p of None \<Rightarrow> 0 | Some c \<Rightarrow> dcMaxHold c))"

section \<open>The tag interface\<close>

text \<open>\<open>operationKey\<close>: what is hashed, and the key.\<close>

definition operation_material :: "string \<Rightarrow> string \<Rightarrow> string \<Rightarrow> bytes \<Rightarrow> bool \<Rightarrow> bytes" where
  "operation_material d uid op payload lck =
     ascii d @ [0] @ ascii uid @ [0] @ ascii op @ [0] @ (if lck then [1] else []) @ payload"

definition operation_key :: "string \<Rightarrow> string \<Rightarrow> string \<Rightarrow> bytes \<Rightarrow> bool \<Rightarrow> string" where
  "operation_key d uid op payload lck =
     concat (map (\<lambda>b. [char_of (unat (hex_digit (drop_bit 4 b))), char_of (unat (hex_digit (b AND 0x0F)))])
       (take 16 (sha256 (operation_material d uid op payload lck))))"

definition read_only_mode_error :: "string \<Rightarrow> string \<Rightarrow> go_error" where
  "read_only_mode_error op uid = NFCError ErrCodeReadOnly op uid ''agent is in read-only mode'' None"

definition write_response_error :: "string \<Rightarrow> string \<Rightarrow> device_reply \<Rightarrow> go_error" where
  "write_response_error op uid r =
     NFCError (internal_error_code (dyCode r) (if op = ''MakeReadOnly'' then ErrCodeReadOnly else ErrCodeWriteFailed))
       op uid (if dyError r = [] then ''device reported the operation failed'' else dyError r) None"

definition route_write ::
    "'s phone_world \<Rightarrow> string \<Rightarrow> string \<Rightarrow> string \<Rightarrow> bytes \<Rightarrow> bool \<Rightarrow> ('s, unit) remote_op" where
  "route_write pw fresh d uid ndef lck w =
     (if \<not> tag_modification_allowed (fst w) then (Inl (read_only_mode_error ''WriteData'' uid), w)
      else case write_to_device pw d fresh uid ndef lck (operation_key d uid ''write'' ndef lck) w of
        (Inl e, w) \<Rightarrow> (Inl e, w)
      | (Inr r, w) \<Rightarrow> (if \<not> dySuccess r then Inl (write_response_error ''WriteData'' uid r) else Inr (), w))"

definition route_lock :: "'s phone_world \<Rightarrow> string \<Rightarrow> string \<Rightarrow> string \<Rightarrow> ('s, unit) remote_op" where
  "route_lock pw fresh d uid w =
     (if \<not> tag_modification_allowed (fst w) then (Inl (read_only_mode_error ''MakeReadOnly'' uid), w)
      else case write_to_device pw d fresh uid [] True (operation_key d uid ''lock'' [] True) w of
        (Inl e, w) \<Rightarrow> (Inl e, w)
      | (Inr r, w) \<Rightarrow> (if \<not> dySuccess r then Inl (write_response_error ''MakeReadOnly'' uid r) else Inr (), w))"

definition route_transceive ::
    "'s phone_world \<Rightarrow> string \<Rightarrow> string \<Rightarrow> string \<Rightarrow> bytes \<Rightarrow> bool \<Rightarrow> ('s, bytes) remote_op" where
  "route_transceive pw fresh d uid data raw w =
     (if \<not> tag_modification_allowed (fst w) then (Inl (read_only_mode_error ''Transceive'' uid), w)
      else case transceive_with_device pw d fresh uid data raw 0 w of
        (Inl e, w) \<Rightarrow> (Inl e, w)
      | (Inr r, w) \<Rightarrow>
          (if \<not> dySuccess r
           then Inl (NFCError (internal_error_code (dyCode r) ErrCodeTransceiveFailed) ''Transceive'' uid
                  (if dyError r = [] then ''device reported the exchange failed'' else dyError r) None)
           else Inr (dyData r), w))"

definition phone_cap_source :: "phone_tag \<Rightarrow> remote \<Rightarrow> cap_source option" where
  "phone_cap_source t rm = (if ptRouted t then Some (device_source (ptSource t) rm) else None)"

definition phone_capabilities :: "phone_tag \<Rightarrow> remote \<Rightarrow> tag_caps" where
  "phone_capabilities t rm =
     merge_capabilities (ptDeclared t) (phone_cap_source t rm) (ptType t) (ptTechnology t) (ptNDEF t \<noteq> None)"

definition phone_write :: "'s phone_world \<Rightarrow> string \<Rightarrow> phone_tag \<Rightarrow> bytes \<Rightarrow> ('s, unit) remote_op" where
  "phone_write pw fresh t data w =
     (if \<not> write_allowed (ptDeclared t) (phone_cap_source t (fst w)) then (Inl (new_not_supported_error ''WriteData''), w)
      else route_write pw fresh (ptSource t) (ptUID t) data False w)"

definition phone_write_and_lock :: "'s phone_world \<Rightarrow> string \<Rightarrow> phone_tag \<Rightarrow> bytes \<Rightarrow> ('s, unit) remote_op" where
  "phone_write_and_lock pw fresh t data w =
     (if \<not> write_allowed (ptDeclared t) (phone_cap_source t (fst w)) then (Inl (new_not_supported_error ''WriteData''), w)
      else if \<not> lock_allowed (ptDeclared t) (phone_cap_source t (fst w))
      then (Inl (new_not_supported_error ''MakeReadOnly''), w)
      else route_write pw fresh (ptSource t) (ptUID t) data True w)"

definition phone_lock :: "'s phone_world \<Rightarrow> string \<Rightarrow> phone_tag \<Rightarrow> ('s, unit) remote_op" where
  "phone_lock pw fresh t w =
     (if \<not> lock_allowed (ptDeclared t) (phone_cap_source t (fst w))
      then (Inl (new_not_supported_error ''MakeReadOnly''), w)
      else route_lock pw fresh (ptSource t) (ptUID t) w)"

definition phone_transceive :: "'s phone_world \<Rightarrow> string \<Rightarrow> phone_tag \<Rightarrow> bytes \<Rightarrow> ('s, bytes) remote_op" where
  "phone_transceive pw fresh t data w =
     (if \<not> transceive_allowed (ptDeclared t) (phone_cap_source t (fst w))
      then (Inl (new_not_supported_error ''Transceive''), w)
      else route_transceive pw fresh (ptSource t) (ptUID t) data False w)"

definition phone_tag_value :: "'s phone_world \<Rightarrow> (remote \<times> 's \<Rightarrow> string) \<Rightarrow> phone_tag \<Rightarrow> (remote \<times> 's) tag" where
  "phone_tag_value pw fresh t =
     \<lparr>tgUID = (\<lambda>w. ptUID t), tgType = ptType t, tgCaps = (\<lambda>w. phone_capabilities t (fst w)),
      tgRead = (\<lambda>w. (phone_tag_read t, w)), tgWrite = (\<lambda>d w. phone_write pw (fresh w) t d w),
      tgLock = (\<lambda>w. phone_lock pw (fresh w) t w), tgTransceive = (\<lambda>d w. phone_transceive pw (fresh w) t d w),
      tgAliases = None, tgResolve = None, tgClassicKeys = None, tgDESFireKeys = None, tgNTAG424Keys = None,
      tgWriteInit = None, tgWriteLock = Some (\<lambda>d w. phone_write_and_lock pw (fresh w) t d w), tgTransceiveRaw = None\<rparr>"

section \<open>The operations of a tag holder\<close>

definition remote_tag_on :: "string \<Rightarrow> remote \<Rightarrow> (string \<times> string) option" where
  "remote_tag_on d rm = map_option (\<lambda>(d, t). (d, ptUID t)) (active_tag d rm)"

definition tag_type_of :: "(string \<times> phone_tag) option \<Rightarrow> string" where
  "tag_type_of a = (case a of None \<Rightarrow> [] | Some (d, t) \<Rightarrow> ptType t)"

definition confirmable :: "(string \<times> phone_tag) option \<Rightarrow> remote \<Rightarrow> bool" where
  "confirmable a rm = (case a of None \<Rightarrow> False | Some (d, t) \<Rightarrow> \<not> capSnapshot (phone_capabilities t rm))"

definition remote_write_frame ::
    "'s phone_world \<Rightarrow> string \<Rightarrow> string \<Rightarrow> bytes \<Rightarrow> bool \<Rightarrow> string \<Rightarrow> ('s, unit) remote_op" where
  "remote_write_frame pw d uid ndef lck key = (\<lambda>(rm, s). case next_request_id ''write'' rm of
     (rid, rm) \<Rightarrow> (case write_to_device pw d rid uid ndef lck key (rm, s) of
       (Inl e, w) \<Rightarrow> (Inl e, w)
     | (Inr r, w) \<Rightarrow> (if \<not> dySuccess r then Inl (refused (code_or (dyCode r) ''WRITE_FAILED'') (dyError r)) else Inr (), w)))"

definition remote_write_tag ::
    "'s phone_world \<Rightarrow> string \<Rightarrow> string \<Rightarrow> ndef_record list \<Rightarrow> bool \<Rightarrow> string \<Rightarrow> ('s, write_result) remote_op" where
  "remote_write_tag pw d uid msg lck key w = (case encode_ndef_records msg of
     Inl e \<Rightarrow> (Inl (wrap_coded ''INVALID_REQUEST'' (PlainError ''failed to encode NDEF message'') ''could not encode the message''), w)
   | Inr ndef \<Rightarrow> (case remote_write_frame pw d uid ndef lck key w of
       (Inl e, w) \<Rightarrow> (Inl e, w)
     | (Inr u, w) \<Rightarrow>
         (Inr \<lparr>wrUID = uid, wrType = tag_type_of (active_tag d (fst w)), wrBytes = length ndef,
               wrVerified = confirmable (active_tag d (fst w)) (fst w), wrAttempts = 1, wrLocked = lck\<rparr>, w)))"

definition remote_lock_tag :: "'s phone_world \<Rightarrow> string \<Rightarrow> string \<Rightarrow> string \<Rightarrow> ('s, lock_result) remote_op" where
  "remote_lock_tag pw d uid key w = (case remote_write_frame pw d uid [] True key w of
     (Inl e, w) \<Rightarrow> (Inl e, w)
   | (Inr u, w) \<Rightarrow> (Inr \<lparr>lrUID = uid, lrType = [], lrLocked = True\<rparr>, w))"

definition remote_tag_capabilities :: "string \<Rightarrow> string \<Rightarrow> ('s, tag_caps) remote_op" where
  "remote_tag_capabilities d uid w = (case active_tag d (fst w) of
     None \<Rightarrow> (Inl (refused ''NO_CARD'' (''device '' @ d @ '' is not holding a tag'')), w)
   | Some (d, t) \<Rightarrow> (Inr (phone_capabilities t (fst w)), w))"

definition remote_transceive_tag ::
    "'s phone_world \<Rightarrow> string \<Rightarrow> string \<Rightarrow> bytes \<Rightarrow> bool \<Rightarrow> ('s, bytes) remote_op" where
  "remote_transceive_tag pw d uid data raw = (\<lambda>(rm, s). case next_request_id ''transceive'' rm of
     (rid, rm) \<Rightarrow> (case transceive_with_device pw d rid uid data raw 0 (rm, s) of
       (Inl e, w) \<Rightarrow> (Inl e, w)
     | (Inr r, w) \<Rightarrow>
         (if \<not> dySuccess r then Inl (refused (code_or (dyCode r) ''TRANSCEIVE_FAILED'') (dyError r)) else Inr (dyData r), w)))"

section \<open>Sequences\<close>

text \<open>The two ends of \<open>WithTagSession\<close>; a caller that waits the slot out is refused by its context.\<close>

definition take_tag_session :: "string \<Rightarrow> string \<Rightarrow> ('s, nat) remote_op" where
  "take_tag_session device uid = (\<lambda>(rm, s). case active_tag device rm of
     None \<Rightarrow> (Inl (refused ''NO_CARD'' (''device '' @ device @ '' is not holding a tag'')), rm, s)
   | Some (d, t) \<Rightarrow>
       if uid \<noteq> [] \<and> \<not> same_uid uid (ptUID t)
       then (Inl (NFCError ErrCodeTagRemoved ''TagSession'' uid
              (''device '' @ d @ '' is holding '' @ ptUID t @ '', not '' @ uid) None), rm, s)
       else if \<not> can_exchange d t rm then (Inl (new_not_supported_error ''Transceive''), rm, s)
       else case get_device d rm of
         None \<Rightarrow> (Inl (refused ''NO_CARD'' (''device '' @ d @ '' is not connected'')), rm, s)
       | Some p \<Rightarrow>
           if phSlot p then (Inl (Sentinel ContextCanceled), rm, s)
           else (Inr (phObject p), update_device d (\<lambda>p. p\<lparr>phSlot := True\<rparr>) rm, s))"

definition release_tag :: "nat \<Rightarrow> remote \<times> 's \<Rightarrow> remote \<times> 's" where
  "release_tag i = (\<lambda>(rm, s).
     (rm\<lparr>rmDevices := map (\<lambda>(d, p). (d, if phObject p = i then p\<lparr>phSlot := False\<rparr> else p)) (rmDevices rm)\<rparr>, s))"

definition remote_chained :: "sequence_step list \<Rightarrow> bool" where
  "remote_chained steps = list_ex qAutoGetResponse steps"

definition inconsistent :: "string \<Rightarrow> go_error" where
  "inconsistent msg =
     NFCError ErrCodeTransceiveFailed ''TransceiveSequence'' [] (''device answered the sequence inconsistently: '' @ msg) None"

text \<open>The replies of the device, given out one by one and the last again.\<close>

definition replay :: "bytes list \<Rightarrow> (nat, go_error) transport" where
  "replay replies cmd n = (Inr (replies ! min n (length replies - 1)), n + 1)"

definition check_device_sequence :: "sequence_step list \<Rightarrow> device_reply \<Rightarrow> go_error + sequence_result" where
  "check_device_sequence steps r =
     (let rs = dyReplies r
      in if length rs = 0 \<or> length steps < length rs then Inl (inconsistent ''wrong number of replies'')
         else case run_sequence steps (replay rs) 0 of
           (Inl e, n) \<Rightarrow> Inl e
         | (Inr expected, n) \<Rightarrow>
             if length rs < n \<or> length (qReplies expected) \<noteq> length rs
             then Inl (inconsistent ''the stop rules end the run elsewhere'')
             else if qStoppedAt expected \<noteq> dyStoppedAt r then Inl (inconsistent ''wrong stoppedAt'')
             else Inr \<lparr>qReplies = rs, qStoppedAt = dyStoppedAt r, qFollowups = []\<rparr>)"

definition device_sequence ::
    "'s phone_world \<Rightarrow> string \<Rightarrow> string \<Rightarrow> sequence_step list \<Rightarrow> ('s, sequence_result) remote_op" where
  "device_sequence pw d uid steps = (\<lambda>(rm, s). case next_request_id ''sequence'' rm of
     (rid, rm) \<Rightarrow> (case transceive_sequence_with_device pw d rid uid steps 0 (rm, s) of
       (Inl e, w) \<Rightarrow> (Inl e, w)
     | (Inr r, w) \<Rightarrow>
         (if \<not> dySuccess r
          then Inl (NFCError (internal_error_code (dyCode r) ErrCodeTransceiveFailed) ''TransceiveSequence'' uid
                 (if dyError r = [] then ''device reported the sequence failed'' else dyError r) None)
          else check_device_sequence steps r, w)))"

definition remote_sequence_tag ::
    "'s phone_world \<Rightarrow> string \<Rightarrow> string \<Rightarrow> sequence_step list \<Rightarrow> ('s, sequence_result) remote_op" where
  "remote_sequence_tag pw device uid steps w = (case validate_sequence steps of
     Inl e \<Rightarrow> (Inl (wrap_coded ''INVALID_REQUEST'' (sequence_refusal e) ''invalid sequence''), w)
   | Inr u \<Rightarrow> with_tag_session take_tag_session release_tag device uid
       (\<lambda>w. let d = (case active_tag device (fst w) of Some (d, t) \<Rightarrow> d | None \<Rightarrow> [])
            in if device_can_sequence d (fst w) \<and> \<not> remote_chained steps then device_sequence pw d uid steps w
               else run_sequence steps (\<lambda>data. remote_transceive_tag pw d uid data False) w) w)"

text \<open>The manager as what holds the tags.\<close>

definition remote_holder :: "'s phone_world \<Rightarrow> (remote \<times> 's) tag_holder" where
  "remote_holder pw =
     \<lparr>thTagOn = (\<lambda>d w. remote_tag_on d (fst w)), thHolding = (\<lambda>w. active_tag_devices (fst w)),
      thWrite = remote_write_tag pw, thLock = remote_lock_tag pw, thTransceive = remote_transceive_tag pw,
      thCaps = remote_tag_capabilities, thSequence = Some (remote_sequence_tag pw),
      thSession = Some take_tag_session, thRelease = release_tag,
      thTypeOn = Some (\<lambda>d w. tag_type_of (active_tag d (fst w)))\<rparr>"

end
