(* ===== verification/RemoteFacts.thy ===== *)
theory RemoteFacts
  imports RemoteOps
begin

text \<open>
  What the manager of phones guarantees however its sessions interleave: sessions and registrations
  stand and fall together, an answer reaches only the request of the device that gave it, a device's
  run of a sequence is believed exactly when it is a run, and a tag advertises what would be sent.
  \<open>remote_step\<close> has registration and the end of a session as one step each; the last section shows
  what happens where the code lets the end of a session be interrupted.
\<close>

section \<open>The steps of a manager\<close>

datatype remote_event =
    EvRegister string int nat string device_frame
  | EvUnsent nat string
  | EvFrame int bool string device_frame
  | EvEnd nat string
  | EvSweep int
  | EvDisconnect string
  | EvPolicy "bool option"
  | EvBegin string string
  | EvFinish string
  | EvTaken
  | EvTake string string
  | EvRelease nat

fun remote_act :: "remote_event \<Rightarrow> remote \<Rightarrow> remote" where
  "remote_act (EvRegister fresh now c admitted f) rm = snd (awaiting_registration fresh now c admitted f rm)"
| "remote_act (EvUnsent c d) rm = registration_unsent c d rm"
| "remote_act (EvFrame now room d f) rm = snd (snd (serve_frame now room d f rm))"
| "remote_act (EvEnd c d) rm = end_session c d rm"
| "remote_act (EvSweep now) rm = cleanup_inactive_devices now rm"
| "remote_act (EvDisconnect d) rm = snd (disconnect_device d rm)"
| "remote_act (EvPolicy a) rm = rm\<lparr>rmAllow := a\<rparr>"
| "remote_act (EvBegin rid d) rm = begin_request rid d rm"
| "remote_act (EvFinish rid) rm = end_request rid rm"
| "remote_act EvTaken rm = snd (next_scan rm)"
| "remote_act (EvTake d uid) rm = fst (snd (take_tag_session d uid (rm, ())))"
| "remote_act (EvRelease i) rm = fst (release_tag i (rm, ()))"

definition remote_run :: "remote_event list \<Rightarrow> remote \<Rightarrow> remote" where
  "remote_run es rm = fold remote_act es rm"

text \<open>
  The connections being served, and the device each is: a connection registers once, and its session
  ends when its loop does.
\<close>

inductive remote_step :: "remote \<times> (nat \<rightharpoonup> string) \<Rightarrow> remote \<times> (nat \<rightharpoonup> string) \<Rightarrow> bool" where
  registers: "ls c = None \<Longrightarrow> fresh \<noteq> [] \<Longrightarrow> awaiting_registration fresh now c admitted f rm = (Inr d, rm') \<Longrightarrow>
    remote_step (rm, ls) (rm', ls(c \<mapsto> d))"
| turned_away: "ls c = None \<Longrightarrow> awaiting_registration fresh now c admitted f rm = (Inl p, rm') \<Longrightarrow>
    remote_step (rm, ls) (rm', ls)"
| unsent: "ls c = Some d \<Longrightarrow> remote_step (rm, ls) (registration_unsent c d rm, ls(c := None))"
| replaced: "ls c = Some d \<Longrightarrow> device_id_for_conn c rm = [] \<Longrightarrow> remote_step (rm, ls) (rm, ls(c := None))"
| frame: "ls c = Some d \<Longrightarrow> remote_step (rm, ls) (remote_act (EvFrame now room d f) rm, ls)"
| ended: "ls c = Some d \<Longrightarrow> remote_step (rm, ls) (end_session c d rm, ls(c := None))"
| agent: "e \<in> {EvSweep now, EvDisconnect d, EvPolicy a, EvBegin rid d, EvFinish rid, EvTaken, EvTake d uid, EvRelease i} \<Longrightarrow>
    remote_step (rm, ls) (remote_act e rm, ls)"

section \<open>Sessions and registrations\<close>

definition registry_ok :: "(string \<rightharpoonup> nat) \<Rightarrow> (nat \<rightharpoonup> string) \<Rightarrow> string set \<Rightarrow> (nat \<rightharpoonup> string) \<Rightarrow> bool" where
  "registry_ok ss cs ds ls \<longleftrightarrow>
     (\<forall>d c. ss d = Some c \<longrightarrow> ls c = Some d \<and> cs c = Some d \<and> d \<in> ds) \<and> (\<forall>c d. cs c = Some d \<longrightarrow> ss d = Some c)"

text \<open>
  A live session's device is registered, and its connection is served as that device and known as
  that device alone.
\<close>

definition registered :: "remote \<Rightarrow> string set" where
  "registered rm = dom (map_of (rmDevices rm))"

definition sessions_ok :: "remote \<Rightarrow> (nat \<rightharpoonup> string) \<Rightarrow> bool" where
  "sessions_ok rm ls \<longleftrightarrow> registry_ok (map_of (rmSessions rm)) (map_of (rmSessionConn rm)) (registered rm) ls"

definition tags_ok :: "remote \<Rightarrow> bool" where
  "tags_ok rm \<longleftrightarrow> (\<forall>d t. held_tag d rm = Some t \<longrightarrow> ptSource t = d \<and> ptRouted t)"

named_theorems remote_simps

lemmas [remote_simps] = session_of_def get_device_def held_tag_def update_device_def add_session_def remove_session_def
  remove_session_for_def close_conn_def update_conv' delete_conv'

text \<open>What leaves the sessions, the registrations and the tags as they are.\<close>

definition same_registry :: "remote \<Rightarrow> remote \<Rightarrow> bool" where
  "same_registry rm rm' \<longleftrightarrow> rmSessions rm' = rmSessions rm \<and> rmSessionConn rm' = rmSessionConn rm \<and>
     (\<forall>d. map_option phTag (get_device d rm') = map_option phTag (get_device d rm))"

lemma same_registry_refl [simp]: "same_registry rm rm"
  by (simp add: same_registry_def)

lemma same_registry_trans: "same_registry a b \<Longrightarrow> same_registry b c \<Longrightarrow> same_registry a c"
  by (simp add: same_registry_def)

lemma registered_iff: "d \<in> registered rm \<longleftrightarrow> get_device d rm \<noteq> None"
  by (auto simp: registered_def get_device_def)

lemma same_registry_ok:
  assumes "same_registry rm rm'"
  shows "sessions_ok rm' ls = sessions_ok rm ls" "tags_ok rm' = tags_ok rm"
proof -
  have m: "map_option phTag (get_device d rm') = map_option phTag (get_device d rm)" for d
    using assms by (simp add: same_registry_def)
  have "d \<in> registered rm' \<longleftrightarrow> d \<in> registered rm" for d
    using m [of d] by (cases "get_device d rm"; cases "get_device d rm'") (simp_all add: registered_iff)
  then have "registered rm' = registered rm" by blast
  moreover have "rmSessions rm' = rmSessions rm" "rmSessionConn rm' = rmSessionConn rm"
    using assms by (simp_all add: same_registry_def)
  ultimately show "sessions_ok rm' ls = sessions_ok rm ls" by (simp add: sessions_ok_def)
  have "held_tag d rm' = held_tag d rm" for d
    using m [of d] by (auto simp: held_tag_def split: option.split)
  then show "tags_ok rm' = tags_ok rm" by (simp add: tags_ok_def)
qed

lemma get_device_update [simp]:
  "get_device e (update_device d f rm) = (if e = d then map_option f (get_device d rm) else get_device e rm)"
  by (auto simp: remote_simps split: option.split)

lemma update_device_rest [simp]:
  "rmSessions (update_device d f rm) = rmSessions rm" "rmSessionConn (update_device d f rm) = rmSessionConn rm"
  "rmPending (update_device d f rm) = rmPending rm" "rmAnswers (update_device d f rm) = rmAnswers rm"
  "rmLatest (update_device d f rm) = rmLatest rm"
  by (auto simp: update_device_def split: option.split)

lemma get_device_rest [simp]:
  "get_device d (rm\<lparr>rmQueue := q\<rparr>) = get_device d rm" "get_device d (rm\<lparr>rmDropped := n\<rparr>) = get_device d rm"
  "get_device d (rm\<lparr>rmAllow := a\<rparr>) = get_device d rm" "get_device d (rm\<lparr>rmPending := p\<rparr>) = get_device d rm"
  "get_device d (rm\<lparr>rmAnswers := x\<rparr>) = get_device d rm" "get_device d (rm\<lparr>rmLatest := l\<rparr>) = get_device d rm"
  "get_device d (rm\<lparr>rmClosing := cs\<rparr>) = get_device d rm" "get_device d (rm\<lparr>rmReqSeq := n\<rparr>) = get_device d rm"
  by (simp_all add: get_device_def)

lemma publish_registry: "same_registry rm (snd (publish room p rm))"
  by (simp add: publish_def same_registry_def)

lemma touch_registry: "same_registry rm (touch now d rm)"
  by (simp add: touch_def same_registry_def map_option.compositionality comp_def)

lemma response_registry: "same_registry rm (snd (handle_device_response d rid p rm))"
  by (auto simp: handle_device_response_def put_answer_def end_request_def same_registry_def split: option.split)

lemma map_of_map_values: "map_of (map (\<lambda>(e, p). (e, f p)) ps) d = map_option f (map_of ps d)"
  by (induction ps) auto

lemma agent_registry:
  "same_registry rm (snd (disconnect_device d rm))" "same_registry rm (rm\<lparr>rmAllow := a\<rparr>)"
  "same_registry rm (begin_request rid d rm)" "same_registry rm (end_request rid rm)"
  "same_registry rm (snd (next_scan rm))" "same_registry rm (fst (snd (take_tag_session d uid (rm, ()))))"
  "same_registry rm (fst (release_tag i (rm, ())))"
proof -
  show "same_registry rm (fst (release_tag i (rm, ())))"
    by (subst same_registry_def)
      (auto simp: release_tag_def get_device_def map_of_map_values map_option.compositionality comp_def
        intro!: option.map_cong)
qed (auto simp: disconnect_device_def close_conn_def begin_request_def end_request_def next_scan_def take_tag_session_def
    same_registry_def map_option.compositionality comp_def split: option.split list.split)


text \<open>A tag is set on the device that reported it, and cleared.\<close>

lemma set_tag_registry [simp]:
  "rmSessions (set_active_tag d t rm) = rmSessions rm" "rmSessionConn (set_active_tag d t rm) = rmSessionConn rm"
  "registered (set_active_tag d t rm) = registered rm"
  by (auto simp: set_active_tag_def set_eq_iff registered_iff split: option.splits)

lemma clear_tag_registry [simp]:
  "rmSessions (clear_active_tag d u rm) = rmSessions rm" "rmSessionConn (clear_active_tag d u rm) = rmSessionConn rm"
  "registered (clear_active_tag d u rm) = registered rm"
  by (auto simp: clear_active_tag_def set_eq_iff registered_iff Let_def split: option.splits)

lemma set_tag_ok:
  assumes "ptSource t = d" "ptRouted t"
  shows "sessions_ok (set_active_tag d t rm) ls = sessions_ok rm ls" "tags_ok rm \<Longrightarrow> tags_ok (set_active_tag d t rm)"
proof -
  show "tags_ok rm \<Longrightarrow> tags_ok (set_active_tag d t rm)"
    using assms by (auto simp: tags_ok_def held_tag_def set_active_tag_def split: option.splits if_splits)
qed (simp add: sessions_ok_def)

lemma clear_tag_ok:
  "sessions_ok (clear_active_tag d u rm) ls = sessions_ok rm ls" "tags_ok rm \<Longrightarrow> tags_ok (clear_active_tag d u rm)"
proof -
  show "tags_ok rm \<Longrightarrow> tags_ok (clear_active_tag d u rm)"
    by (auto simp: tags_ok_def held_tag_def clear_active_tag_def Let_def split: option.splits if_splits)
qed (simp add: sessions_ok_def)

lemma converted_tag: "convert_tag_data data linked = Inr t \<Longrightarrow> ptSource t = tdDevice data \<and> ptRouted t = linked"
  by (auto simp: convert_tag_data_def Let_def split: if_splits sum.splits option.splits)

lemmas frame_registry = same_registry_ok [OF publish_registry] same_registry_ok [OF touch_registry]
  same_registry_ok [OF response_registry]

lemma frame_state:
  "remote_act (EvFrame now room d (FTagScanned data)) rm =
     (if tdDevice data \<noteq> [] \<and> tdDevice data \<noteq> d then rm else snd (send_tag_data now room d (data\<lparr>tdDevice := d\<rparr>) rm))"
  "remote_act (EvFrame now room d (FTagRemoved named uid)) rm =
     (if named \<noteq> [] \<and> named \<noteq> d then rm else snd (send_tag_removed now room d uid (clear_active_tag d uid rm)))"
  "remote_act (EvFrame now room d (FHeartbeat named)) rm = handle_heartbeat now d named rm"
  "remote_act (EvFrame now room d (FReply inner outer payload)) rm =
     snd (handle_device_response d (if inner = [] then outer else inner) payload rm)"
  "remote_act (EvFrame now room d f) rm \<noteq> rm \<Longrightarrow>
     (\<exists>data. f = FTagScanned data) \<or> (\<exists>a u. f = FTagRemoved a u) \<or> (\<exists>a. f = FHeartbeat a) \<or> (\<exists>i q p. f = FReply i q p)"
  by (auto simp: serve_frame_def handle_tag_scanned_def handle_tag_removed_def
      split: option.split prod.split device_frame.splits if_splits)

lemma frame_ok:
  "sessions_ok (remote_act (EvFrame now room d f) rm) ls = sessions_ok rm ls \<and>
   (tags_ok rm \<longrightarrow> tags_ok (remote_act (EvFrame now room d f) rm))"
proof (cases "remote_act (EvFrame now room d f) rm = rm")
  case False
  then consider (s) data where "f = FTagScanned data" | (r) a u where "f = FTagRemoved a u"
    | (h) a where "f = FHeartbeat a" | (y) i q p where "f = FReply i q p"
    using frame_state(5) by blast
  then show ?thesis
  proof cases
    case s
    then show ?thesis
      using set_tag_ok [of _ d] converted_tag [of "data\<lparr>tdDevice := d\<rparr>" True]
      by (simp add: frame_state send_tag_data_def frame_registry del: remote_act.simps split: option.split sum.split)
  next
    case r
    then show ?thesis
      by (simp add: frame_state send_tag_removed_def frame_registry clear_tag_ok del: remote_act.simps split: option.split)
  next
    case h
    then show ?thesis
      by (simp add: frame_state handle_heartbeat_def update_heartbeat_def frame_registry del: remote_act.simps split: option.split)
  next
    case y
    then show ?thesis by (simp add: frame_state frame_registry del: remote_act.simps)
  qed
qed simp

text \<open>Registering, and the end of a session, on the maps.\<close>

lemma registry_okI:
  assumes "\<And>d c. ss d = Some c \<Longrightarrow> ls c = Some d \<and> cs c = Some d \<and> d \<in> ds" "\<And>c d. cs c = Some d \<Longrightarrow> ss d = Some c"
  shows "registry_ok ss cs ds ls"
  using assms unfolding registry_ok_def by blast

lemma registry_okD:
  assumes "registry_ok ss cs ds ls"
  shows "ss d = Some c \<Longrightarrow> ls c = Some d \<and> cs c = Some d \<and> d \<in> ds" "cs c = Some d \<Longrightarrow> ss d = Some c"
  using assms unfolding registry_ok_def by blast+

lemma registry_add:
  assumes "registry_ok ss cs ds ls" "ss d = None" "ls c = None"
  shows "registry_ok (ss(d \<mapsto> c)) (cs(c \<mapsto> d)) (insert d ds) (ls(c \<mapsto> d))"
proof (rule registry_okI)
  show "(ls(c \<mapsto> d)) k = Some e \<and> (cs(c \<mapsto> d)) k = Some e \<and> e \<in> insert d ds" if "(ss(d \<mapsto> c)) e = Some k" for e k
    using that registry_okD(1) [OF assms(1), of e k] assms(3) by (auto split: if_splits)
  show "(ss(d \<mapsto> c)) e = Some k" if "(cs(c \<mapsto> d)) k = Some e" for e k
    using that registry_okD(2) [OF assms(1), of k e] assms(2) by (auto split: if_splits)
qed

lemma registry_remove:
  assumes "registry_ok ss cs ds ls" "ss d = Some c"
  shows "registry_ok (ss(d := None)) (cs(c := None)) ds ls" "registry_ok (ss(d := None)) (cs(c := None)) (ds - {d}) (ls(c := None))"
proof -
  have n: "k \<noteq> c \<and> ls k = Some e \<and> cs k = Some e \<and> e \<in> ds" if "(ss(d := None)) e = Some k" for e k
    using that registry_okD(1) [OF assms(1), of e k] registry_okD(1) [OF assms(1,2)] by (auto split: if_splits)
  have m: "(ss(d := None)) e = Some k" if "(cs(c := None)) k = Some e" for e k
    using that registry_okD(2) [OF assms(1), of k e] assms(2) by (auto split: if_splits)
  show "registry_ok (ss(d := None)) (cs(c := None)) ds ls"
  proof (rule registry_okI)
    show "ls k = Some e \<and> (cs(c := None)) k = Some e \<and> e \<in> ds" if "(ss(d := None)) e = Some k" for e k
      using n [OF that] by simp
  qed (rule m)
  show "registry_ok (ss(d := None)) (cs(c := None)) (ds - {d}) (ls(c := None))"
  proof (rule registry_okI)
    show "(ls(c := None)) k = Some e \<and> (cs(c := None)) k = Some e \<and> e \<in> ds - {d}" if "(ss(d := None)) e = Some k" for e k
      using n [OF that] that by (auto split: if_splits)
  qed (rule m)
qed

lemma registry_unserved:
  assumes "registry_ok ss cs ds ls" "ls c = Some d" "ss d \<noteq> Some c"
  shows "cs c = None" "registry_ok ss cs ds (ls(c := None))"
proof -
  note D = registry_okD [OF assms(1)]
  show "cs c = None"
  proof (cases "cs c")
    case (Some e)
    then show ?thesis using D(1) [OF D(2) [OF Some]] D(2) [OF Some] assms(2,3) by simp
  qed simp
  show "registry_ok ss cs ds (ls(c := None))"
  proof (rule registry_okI)
    show "(ls(c := None)) k = Some e \<and> cs k = Some e \<and> e \<in> ds" if "ss e = Some k" for e k
      using that D(1) [OF that] assms(2,3) by auto
  qed (rule D(2))
qed

lemma registry_unregister:
  assumes "registry_ok ss cs ds ls" "ss d = None"
  shows "registry_ok ss cs (ds - {d}) ls"
proof (rule registry_okI)
  show "ls k = Some e \<and> cs k = Some e \<and> e \<in> ds - {d}" if "ss e = Some k" for e k
    using registry_okD(1) [OF assms(1) that] that assms(2) by auto
qed (rule registry_okD(2) [OF assms(1)])

lemma replace_session_maps:
  "map_of (rmSessions (replace_session d rm)) = (map_of (rmSessions rm))(d := None)"
  "map_of (rmSessionConn (replace_session d rm)) =
     (case session_of d rm of None \<Rightarrow> map_of (rmSessionConn rm) | Some c \<Rightarrow> (map_of (rmSessionConn rm))(c := None))"
  "rmDevices (replace_session d rm) = rmDevices rm" "rmObjects (replace_session d rm) = rmObjects rm"
  by (auto simp: replace_session_def remote_simps split: option.split)

lemma replace_session_ok: "sessions_ok rm ls \<Longrightarrow> sessions_ok (replace_session d rm) ls"
  using registry_remove(1) [of "map_of (rmSessions rm)" "map_of (rmSessionConn rm)" "registered rm" ls d]
  by (cases "map_of (rmSessions rm) d")
    (auto simp: sessions_ok_def replace_session_maps session_of_def registered_def fun_upd_idem)

lemma registration_ok:
  assumes "sessions_ok rm ls" "tags_ok rm" "ls c = None"
    and "awaiting_registration fresh now c admitted f rm = (Inr d, rm')"
  shows "sessions_ok rm' (ls(c \<mapsto> d)) \<and> tags_ok rm' \<and> d = (if admitted = [] then fresh else admitted)"
proof -
  obtain req v where "register_session fresh now c req v admitted rm = (Inr d, rm')"
    using assms(4) by (auto simp: awaiting_registration_def split: device_frame.splits if_splits)
  then obtain req' where e: "d = (if admitted = [] then fresh else admitted)"
    "rm' = add_session d c ((replace_session d rm)\<lparr>rmDevices := AList.update d (new_phone (rmObjects rm) now req') (rmDevices rm),
       rmObjects := rmObjects rm + 1, rmChanged := True\<rparr>)"
    by (auto simp: register_session_def register_device_def Let_def replace_session_maps split: if_splits)
  let ?rm = "replace_session d rm"
  have s: "registry_ok (map_of (rmSessions ?rm)) (map_of (rmSessionConn ?rm)) (registered rm) ls"
    using replace_session_ok [OF assms(1), of d] by (simp add: sessions_ok_def registered_def replace_session_maps)
  have n: "map_of (rmSessions ?rm) d = None" by (simp add: replace_session_maps)
  have "sessions_ok rm' (ls(c \<mapsto> d))"
    using registry_add [OF s n assms(3)] by (simp add: e(2) sessions_ok_def add_session_def update_conv' registered_def)
  moreover have "tags_ok rm'"
    using assms(2) by (auto simp: e(2) tags_ok_def held_tag_def get_device_def add_session_def update_conv'
        new_phone_def split: option.splits if_splits)
  ultimately show ?thesis using e(1) by simp
qed

lemma refused_registration: "awaiting_registration fresh now c admitted f rm = (Inl p, rm') \<Longrightarrow> rm' = rm"
  by (auto simp: awaiting_registration_def register_session_def register_device_def Let_def
      split: device_frame.splits if_splits prod.splits sum.splits)

lemma unregister_maps:
  "rmSessions (snd (unregister_device d rm)) = rmSessions rm"
  "rmSessionConn (snd (unregister_device d rm)) = rmSessionConn rm"
  "registered (snd (unregister_device d rm)) = registered rm - {d}"
  by (auto simp: unregister_device_def registered_def get_device_def delete_conv' split: option.split)

lemma unregister_tags: "tags_ok rm \<Longrightarrow> tags_ok (snd (unregister_device d rm))"
  by (auto simp: unregister_device_def tags_ok_def held_tag_def get_device_def delete_conv' split: option.splits if_splits)

text \<open>Either teardown: what the session removed leaves to be unregistered.\<close>

lemma teardown_ok:
  assumes "sessions_ok rm ls" "tags_ok rm" "ls c = Some d" "remove_session_for c d rm = (removed, rm1)"
    and "removed \<Longrightarrow> rmSessions rm2 = rmSessions rm1 \<and> rmSessionConn rm2 = rmSessionConn rm1 \<and>
      registered rm2 = registered rm1 - {d} \<and> (tags_ok rm1 \<longrightarrow> tags_ok rm2)"
    and "\<not> removed \<Longrightarrow> rm2 = rm1"
  shows "sessions_ok rm2 (ls(c := None)) \<and> tags_ok rm2"
proof (cases "map_of (rmSessions rm) d = Some c")
  case True
  then have r: "removed" "map_of (rmSessions rm1) = (map_of (rmSessions rm))(d := None)"
    "map_of (rmSessionConn rm1) = (map_of (rmSessionConn rm))(c := None)" "rmDevices rm1 = rmDevices rm"
    using assms(4) by (auto simp: remote_simps)
  have "tags_ok rm1" using assms(2) r(4) by (simp add: tags_ok_def held_tag_def get_device_def)
  then show ?thesis
    using registry_remove(2) [OF assms(1) [unfolded sessions_ok_def] True] r assms(5) by (simp add: sessions_ok_def registered_def)
next
  case False
  note u = registry_unserved [OF assms(1) [unfolded sessions_ok_def] assms(3) False]
  have "\<not> removed" "rm1 = rm\<lparr>rmSessionConn := AList.delete c (rmSessionConn rm)\<rparr>"
    using assms(4) False by (auto simp: remove_session_for_def session_of_def)
  then show ?thesis
    using u assms(2,6) by (simp add: sessions_ok_def registered_def tags_ok_def held_tag_def get_device_def delete_conv' fun_upd_idem)
qed


lemma drop_stale_ok:
  assumes "sessions_ok rm ls" "tags_ok rm"
  shows "sessions_ok (drop_stale d rm) ls \<and> tags_ok (drop_stale d rm)"
proof (cases "session_of d rm")
  case None
  then show ?thesis
    using registry_unregister [OF assms(1) [unfolded sessions_ok_def], of d] unregister_tags [OF assms(2), of d]
    by (simp add: drop_stale_def close_session_def sessions_ok_def unregister_maps session_of_def)
next
  case (Some c)
  have "same_registry rm (close_conn c rm)" by (simp add: close_conn_def same_registry_def)
  then show ?thesis using assms Some by (simp add: drop_stale_def close_session_def same_registry_ok)
qed

lemma sweep_ok:
  assumes "sessions_ok rm ls" "tags_ok rm"
  shows "sessions_ok (cleanup_inactive_devices now rm) ls \<and> tags_ok (cleanup_inactive_devices now rm)"
proof -
  have "sessions_ok (fold drop_stale ds r) ls \<and> tags_ok (fold drop_stale ds r)" if "sessions_ok r ls \<and> tags_ok r" for ds r
    using that drop_stale_ok by (induction ds arbitrary: r) auto
  then show ?thesis using assms by (simp add: cleanup_inactive_devices_def)
qed

lemma fail_pending_registry: "same_registry rm (fail_pending_requests d rm)"
  by (simp add: fail_pending_requests_def same_registry_def Let_def)

lemma end_session_ok:
  assumes "sessions_ok rm ls" "tags_ok rm" "ls c = Some d"
  shows "sessions_ok (end_session c d rm) (ls(c := None)) \<and> tags_ok (end_session c d rm)"
proof -
  obtain removed rm1 where r: "remove_session_for c d rm = (removed, rm1)" by fastforce
  let ?rm = "clear_active_tag d [] (fail_pending_requests d rm1)"
  have "rmSessions (fail_pending_requests d rm1) = rmSessions rm1" "registered (fail_pending_requests d rm1) = registered rm1"
    "rmSessionConn (fail_pending_requests d rm1) = rmSessionConn rm1"
    by (simp_all add: fail_pending_requests_def registered_def Let_def)
  then show ?thesis
    using clear_tag_ok(2) [of "fail_pending_requests d rm1" d "[]"] unregister_tags [of ?rm d] same_registry_ok(2) [OF fail_pending_registry [of rm1 d]]
    by (intro teardown_ok [OF assms r]) (auto simp: end_session_def r unregister_maps)
qed

lemma unsent_ok:
  assumes "sessions_ok rm ls" "tags_ok rm" "ls c = Some d"
  shows "sessions_ok (registration_unsent c d rm) (ls(c := None)) \<and> tags_ok (registration_unsent c d rm)"
proof -
  obtain removed rm1 where r: "remove_session_for c d rm = (removed, rm1)" by fastforce
  show ?thesis
    using unregister_tags [of rm1 d] by (intro teardown_ok [OF assms r]) (auto simp: registration_unsent_def r unregister_maps)
qed

lemma replaced_ok:
  assumes "sessions_ok rm ls" "ls c = Some d" "d \<noteq> []" "device_id_for_conn c rm = []"
  shows "sessions_ok rm (ls(c := None))"
proof (cases "map_of (rmSessions rm) d = Some c")
  case True
  then show ?thesis
    using registry_okD(1) [OF assms(1) [unfolded sessions_ok_def] True] assms(3,4) by (simp add: device_id_for_conn_def)
next
  case False
  then show ?thesis using registry_unserved(2) [OF assms(1) [unfolded sessions_ok_def] assms(2)] by (simp add: sessions_ok_def)
qed

definition remote_ok :: "remote \<Rightarrow> (nat \<rightharpoonup> string) \<Rightarrow> bool" where
  "remote_ok rm ls \<longleftrightarrow> sessions_ok rm ls \<and> tags_ok rm \<and> (\<forall>c. ls c \<noteq> Some [])"

lemma new_remote_ok: "remote_ok (new_remote t a) Map.empty"
  by (simp add: remote_ok_def new_remote_def sessions_ok_def registry_ok_def tags_ok_def held_tag_def get_device_def)

lemma unserved_ok:
  "sessions_ok rm' (ls(c := None)) \<Longrightarrow> tags_ok rm' \<Longrightarrow> remote_ok rm ls \<Longrightarrow> remote_ok rm' (ls(c := None))"
  by (auto simp: remote_ok_def simp del: fun_upd_apply) (simp add: fun_upd_def split: if_splits)

lemma remote_step_ok: "remote_step x y \<Longrightarrow> remote_ok (fst x) (snd x) \<Longrightarrow> remote_ok (fst y) (snd y)"
proof (induction rule: remote_step.induct)
  case (registers ls c fresh now admitted f rm d rm')
  have r: "sessions_ok rm' (ls(c \<mapsto> d)) \<and> tags_ok rm' \<and> d \<noteq> []"
    using registers registration_ok [of rm ls c fresh now admitted f d rm'] by (auto simp: remote_ok_def)
  then have "\<forall>k. (ls(c \<mapsto> d)) k \<noteq> Some []" using registers(4) by (simp add: remote_ok_def)
  then show ?case using r by (simp add: remote_ok_def del: fun_upd_apply)
next
  case (turned_away ls c fresh now admitted f rm p rm')
  then show ?case using refused_registration by fastforce
next
  case (unsent ls c d rm)
  then show ?case using unsent_ok [of rm ls c d] unserved_ok [of "registration_unsent c d rm" ls c rm] by (simp add: remote_ok_def del: fun_upd_apply)
next
  case (replaced ls c d rm)
  then have "d \<noteq> []" by (auto simp: remote_ok_def)
  then show ?case using replaced replaced_ok [of rm ls c d] unserved_ok [of rm ls c rm] by (simp add: remote_ok_def del: fun_upd_apply)
next
  case (frame ls c d rm now room f)
  then show ?case using frame_ok [of now room d f rm ls] by (auto simp: remote_ok_def simp del: remote_act.simps)
next
  case (ended ls c d rm)
  then show ?case using end_session_ok [of rm ls c d] unserved_ok [of "end_session c d rm" ls c rm] by (simp add: remote_ok_def del: fun_upd_apply)
next
  case (agent e now d a rid uid i rm ls)
  then show ?case
    using sweep_ok [of rm ls now] same_registry_ok [OF agent_registry(1) [of rm d]] same_registry_ok [OF agent_registry(2) [of rm a]]
      same_registry_ok [OF agent_registry(3) [of rm rid d]] same_registry_ok [OF agent_registry(4) [of rm rid]]
      same_registry_ok [OF agent_registry(5) [of rm]] same_registry_ok [OF agent_registry(6) [of rm d uid]]
      same_registry_ok [OF agent_registry(7) [of rm i]]
    by (auto simp: remote_ok_def)
qed

lemma reachable_remote_ok: "remote_step\<^sup>*\<^sup>* (new_remote t a, Map.empty) (rm, ls) \<Longrightarrow> remote_ok rm ls"
proof -
  assume "remote_step\<^sup>*\<^sup>* (new_remote t a, Map.empty) (rm, ls)"
  then have "remote_ok (fst (rm, ls)) (snd (rm, ls))"
    by (induction rule: rtranclp_induct) (simp_all only: fst_conv snd_conv new_remote_ok, use remote_step_ok in fastforce)
  then show ?thesis by simp
qed

section \<open>Answers reach the request they answer\<close>

text \<open>An event in which the owner of a request answers it.\<close>

fun answers_with :: "string \<Rightarrow> string \<Rightarrow> remote_event \<Rightarrow> device_reply option option" where
  "answers_with owner rid (EvFrame now room d (FReply inner outer payload)) =
     (if d = owner \<and> (if inner = [] then outer else inner) = rid then Some payload else None)"
| "answers_with owner rid e = None"

definition request_state :: "string \<Rightarrow> remote \<Rightarrow> string option \<times> (go_error + device_reply option) option" where
  "request_state rid rm = (map_of (rmPending rm) rid, map_of (rmAnswers rm) rid)"

lemma request_state_cong: "rmPending rm' = rmPending rm \<Longrightarrow> rmAnswers rm' = rmAnswers rm \<Longrightarrow> request_state rid rm' = request_state rid rm"
  by (simp add: request_state_def)

definition same_requests :: "remote \<Rightarrow> remote \<Rightarrow> bool" where
  "same_requests rm rm' \<longleftrightarrow> rmPending rm' = rmPending rm \<and> rmAnswers rm' = rmAnswers rm"

lemma request_frames [simp]:
  "rmPending (snd (publish room p rm)) = rmPending rm" "rmAnswers (snd (publish room p rm)) = rmAnswers rm"
  "rmPending (touch now d rm) = rmPending rm" "rmAnswers (touch now d rm) = rmAnswers rm"
  "rmPending (set_active_tag d t rm) = rmPending rm" "rmAnswers (set_active_tag d t rm) = rmAnswers rm"
  "rmPending (clear_active_tag d u rm) = rmPending rm" "rmAnswers (clear_active_tag d u rm) = rmAnswers rm"
  "rmPending (snd (unregister_device d rm)) = rmPending rm" "rmAnswers (snd (unregister_device d rm)) = rmAnswers rm"
  "rmPending (replace_session d rm) = rmPending rm" "rmAnswers (replace_session d rm) = rmAnswers rm"
  "rmPending (snd (remove_session_for c d rm)) = rmPending rm" "rmAnswers (snd (remove_session_for c d rm)) = rmAnswers rm"
  "rmPending (drop_stale d rm) = rmPending rm" "rmAnswers (drop_stale d rm) = rmAnswers rm"
  by (auto simp: publish_def touch_def set_active_tag_def clear_active_tag_def unregister_device_def replace_session_def
      remove_session_for_def remove_session_def close_conn_def drop_stale_def close_session_def Let_def split: option.split)

lemma register_requests:
  "rmPending (snd (awaiting_registration fresh now c admitted f rm)) = rmPending rm"
  "rmAnswers (snd (awaiting_registration fresh now c admitted f rm)) = rmAnswers rm"
  by (auto simp: awaiting_registration_def register_session_def register_device_def add_session_def Let_def split: device_frame.split)

lemma sweep_requests:
  "rmPending (cleanup_inactive_devices now rm) = rmPending rm" "rmAnswers (cleanup_inactive_devices now rm) = rmAnswers rm"
proof -
  have "rmPending (fold drop_stale ds r) = rmPending r \<and> rmAnswers (fold drop_stale ds r) = rmAnswers r" for ds r
    by (induction ds arbitrary: r) auto
  then show "rmPending (cleanup_inactive_devices now rm) = rmPending rm" "rmAnswers (cleanup_inactive_devices now rm) = rmAnswers rm"
    by (simp_all add: cleanup_inactive_devices_def)
qed

lemma map_of_filter_keys: "map_of (filter (\<lambda>(k, v). P k) xs) k = (if P k then map_of xs k else None)"
  by (induction xs) auto

lemma map_of_const: "map_of (map (\<lambda>k. (k, v)) ks) k = (if k \<in> set ks then Some v else None)"
  by (induction ks) auto

lemma fail_pending_state:
  "request_state rid (fail_pending_requests d rm) =
     (if map_of (rmPending rm) rid = Some d then (None, Some (Inl gone_error)) else request_state rid rm)"
  using map_of_eq_None_iff [of "rmPending rm" rid]
  by (auto simp: request_state_def fail_pending_requests_def Let_def map_of_filter_keys map_of_const map_add_def
      split: option.split)

lemma response_state:
  "request_state rid (snd (handle_device_response d r payload rm)) =
     (if r = rid \<and> map_of (rmPending rm) rid = Some d then (None, Some (Inr payload)) else request_state rid rm)"
  by (auto simp: request_state_def handle_device_response_def put_answer_def end_request_def update_conv' delete_conv'
      split: option.split)

lemma frame_requests:
  "request_state rid (remote_act (EvFrame now room d f) rm) =
     (case f of FReply inner outer payload \<Rightarrow>
        if (if inner = [] then outer else inner) = rid \<and> map_of (rmPending rm) rid = Some d
        then (None, Some (Inr payload)) else request_state rid rm
      | _ \<Rightarrow> request_state rid rm)"
proof (cases "remote_act (EvFrame now room d f) rm = rm")
  case True
  show ?thesis
  proof (cases f)
    case (FReply i q p)
    then show ?thesis using response_state [of rid d "if i = [] then q else i" p rm] by (simp add: frame_state del: remote_act.simps)
  qed (use True in \<open>simp_all del: remote_act.simps\<close>)
next
  case False
  then consider (s) data where "f = FTagScanned data" | (r) a u where "f = FTagRemoved a u"
    | (h) a where "f = FHeartbeat a" | (y) i q p where "f = FReply i q p"
    using frame_state(5) by blast
  then show ?thesis
  proof cases
    case s
    then show ?thesis by (auto simp: frame_state send_tag_data_def simp del: remote_act.simps intro!: request_state_cong split: option.split sum.split)
  next
    case r
    then show ?thesis by (auto simp: frame_state send_tag_removed_def simp del: remote_act.simps intro!: request_state_cong split: option.split)
  next
    case h
    then show ?thesis
      by (auto simp: frame_state handle_heartbeat_def update_heartbeat_def simp del: remote_act.simps intro!: request_state_cong split: option.split)
  next
    case y
    then show ?thesis using response_state [of rid d "if i = [] then q else i" p rm] by (simp add: frame_state del: remote_act.simps)
  qed
qed


lemma end_session_requests:
  "request_state rid (end_session c d rm) =
     (if fst (remove_session_for c d rm) then request_state rid (fail_pending_requests d (snd (remove_session_for c d rm)))
      else request_state rid rm)"
  by (auto simp: end_session_def case_prod_unfold intro!: request_state_cong)

lemma agent_requests:
  "rmPending (snd (next_scan rm)) = rmPending rm" "rmAnswers (snd (next_scan rm)) = rmAnswers rm"
  "rmPending (snd (disconnect_device d rm)) = rmPending rm" "rmAnswers (snd (disconnect_device d rm)) = rmAnswers rm"
  "rmPending (fst (snd (take_tag_session d uid (rm, ())))) = rmPending rm"
  "rmAnswers (fst (snd (take_tag_session d uid (rm, ())))) = rmAnswers rm"
  "rmPending (fst (release_tag i (rm, ()))) = rmPending rm" "rmAnswers (fst (release_tag i (rm, ()))) = rmAnswers rm"
  by (auto simp: next_scan_def disconnect_device_def close_conn_def take_tag_session_def release_tag_def
      split: list.split option.split)

lemma act_requests:
  assumes "\<forall>d. e \<noteq> EvBegin rid d" "e \<noteq> EvFinish rid"
  shows "request_state rid (remote_act e rm) = request_state rid rm \<or>
     (\<exists>owner. map_of (rmPending rm) rid = Some owner \<and>
        (\<exists>p. answers_with owner rid e = Some p \<and> request_state rid (remote_act e rm) = (None, Some (Inr p)) \<or>
           (\<exists>c. e = EvEnd c owner \<and> request_state rid (remote_act e rm) = (None, Some (Inl gone_error)))))"
proof (cases e)
  case (EvFrame now room d f)
  then show ?thesis
    using frame_requests [of rid now room d f rm] by (cases f) (auto simp del: remote_act.simps)
next
  case (EvEnd c d)
  then show ?thesis
    using end_session_requests [of rid c d rm] fail_pending_state [of rid d "snd (remove_session_for c d rm)"]
    by (auto simp: request_state_def split: if_splits)
next
  case (EvBegin r d)
  then show ?thesis using assms by (auto simp: request_state_def begin_request_def update_conv' delete_conv')
next
  case (EvFinish r)
  then show ?thesis using assms by (auto simp: request_state_def end_request_def delete_conv')
next
  case (EvUnsent c d)
  then show ?thesis
    by (auto simp: registration_unsent_def case_prod_unfold intro!: request_state_cong)
qed (auto intro!: request_state_cong simp: register_requests sweep_requests agent_requests)

lemma owner_answers:
  assumes "map_of (rmPending rm) rid = Some owner" "answers_with owner rid e = Some p"
  shows "request_state rid (remote_act e rm) = (None, Some (Inr p))"
  using assms frame_requests by (cases "(owner, rid, e)" rule: answers_with.cases) (auto simp del: remote_act.simps split: if_splits)

text \<open>
  Whatever happens while a request waits: it is still waiting and its owner has not answered; or it has
  the first answer of its owner, and no one else's; or its owner's session ended first.
\<close>

lemma settled_stays:
  assumes "request_state rid rm = (None, Some a)" "\<forall>e \<in> set es. e \<noteq> EvFinish rid \<and> (\<forall>d. e \<noteq> EvBegin rid d)"
  shows "request_state rid (remote_run es rm) = (None, Some a)"
  using assms
proof (induction es arbitrary: rm)
  case (Cons e es)
  have "request_state rid (remote_act e rm) = (None, Some a)"
    using act_requests [of e rid rm] Cons.prems by (auto simp: request_state_def)
  then show ?case using Cons by (simp add: remote_run_def)
qed (simp add: remote_run_def)

lemma run_requests:
  assumes "request_state rid rm = (Some owner, None)" "\<forall>e \<in> set es. e \<noteq> EvFinish rid \<and> (\<forall>d. e \<noteq> EvBegin rid d)"
  shows "request_state rid (remote_run es rm) = (Some owner, None) \<and> (\<forall>e \<in> set es. answers_with owner rid e = None) \<or>
    (\<exists>p pre e post. request_state rid (remote_run es rm) = (None, Some (Inr p)) \<and> es = pre @ e # post \<and>
       answers_with owner rid e = Some p \<and> (\<forall>x \<in> set pre. answers_with owner rid x = None)) \<or>
    (\<exists>c pre post. request_state rid (remote_run es rm) = (None, Some (Inl gone_error)) \<and> es = pre @ EvEnd c owner # post \<and>
       (\<forall>x \<in> set pre. answers_with owner rid x = None))"
  using assms
proof (induction es arbitrary: rm)
  case (Cons e es)
  have w: "map_of (rmPending rm) rid = Some owner" using Cons.prems(1) by (simp add: request_state_def)
  have g: "remote_run (e # es) rm = remote_run es (remote_act e rm)" by (simp add: remote_run_def)
  have q: "\<forall>e \<in> set es. e \<noteq> EvFinish rid \<and> (\<forall>d. e \<noteq> EvBegin rid d)" using Cons.prems(2) by simp
  show ?case
  proof (cases "answers_with owner rid e")
    case (Some p)
    then have "request_state rid (remote_run (e # es) rm) = (None, Some (Inr p))"
      using owner_answers [OF w Some] settled_stays [OF _ q] g by simp
    then show ?thesis using Some
      by (intro disjI2 disjI1 exI [of _ p] exI [of _ "[]"] exI [of _ e] exI [of _ es]) simp
  next
    case None
    consider (same) "request_state rid (remote_act e rm) = (Some owner, None)"
      | (gone) c where "e = EvEnd c owner" "request_state rid (remote_act e rm) = (None, Some (Inl gone_error))"
      using act_requests [of e rid rm] Cons.prems w None by auto
    then show ?thesis
    proof cases
      case same
      from Cons.IH [OF same q] show ?thesis
        unfolding g
      proof (elim disjE exE conjE, goal_cases)
        case 1
        then show ?case using None by simp
      next
        case (2 p pre x post)
        then show ?case using None
          by (intro disjI2 disjI1 exI [of _ p] exI [of _ "e # pre"] exI [of _ x] exI [of _ post]) simp
      next
        case (3 c pre post)
        then show ?case using None
          by (intro disjI2 exI [of _ c] exI [of _ "e # pre"] exI [of _ post]) simp
      qed
    next
      case gone
      then show ?thesis using settled_stays [OF gone(2) q] g
        by (intro disjI2 exI [of _ c] exI [of _ "[]"] exI [of _ es]) simp
    qed
  qed
qed (simp add: remote_run_def)

end
