(* ===== verification/RemoteTags.thy ===== *)
theory RemoteTags
  imports RemoteFacts
begin

text \<open>
  The tags phones hold: a run of a sequence is believed exactly when the stop rules describe it, a tag
  advertises exactly what would be sent, and two places where the registry loses track of a tag or of
  a device.
\<close>

section \<open>The runs the stop rules describe\<close>

text \<open>The replies of a run and where it stopped, with what stands for a run that did not.\<close>

fun genuine :: "nat \<Rightarrow> sequence_step list \<Rightarrow> bytes list \<Rightarrow> int \<Rightarrow> int option" where
  "genuine i [] [] d = Some d"
| "genuine i [] (r # rs) d = None"
| "genuine i (st # sts) [] d = None"
| "genuine i (st # sts) (r # rs) d =
     (if step_stops st r then (if rs = [] then Some (int i) else None) else genuine (i + 1) sts rs d)"

lemma run_is_genuine:
  assumes "\<not> remote_chained sts" "run_steps i sts ex res s = (Inr out, s')"
  shows "\<exists>rs. qReplies out = qReplies res @ rs \<and> genuine i sts rs (qStoppedAt res) = Some (qStoppedAt out)"
  using assms
proof (induction sts arbitrary: i res s)
  case (Cons st sts)
  obtain y s1 where x: "ex (qData st) s = (y, s1)" by fastforce
  then have "run_step st ex s = (y, [], s1)" using Cons.prems(1) by (simp add: run_step_def remote_chained_def)
  then obtain r where r: "run_step st ex s = (Inr r, [], s1)" using Cons.prems(2) by (cases y) auto
  let ?res = "res\<lparr>qReplies := qReplies res @ [r], qFollowups := qFollowups res @ [[]]\<rparr>"
  show ?case
  proof (cases "step_stops st r")
    case True
    then show ?thesis using Cons.prems(2) r by (intro exI [of _ "[r]"]) (auto simp: Let_def)
  next
    case False
    then have "run_steps (i + 1) sts ex ?res s1 = (Inr out, s')" using Cons.prems(2) r by (simp add: Let_def)
    from Cons.IH [OF _ this] Cons.prems(1) obtain rs where
      "qReplies out = qReplies ?res @ rs" "genuine (i + 1) sts rs (qStoppedAt ?res) = Some (qStoppedAt out)"
      by (auto simp: remote_chained_def)
    then show ?thesis using False by (intro exI [of _ "r # rs"]) simp
  qed
qed auto

lemma genuine_replays:
  assumes "\<not> remote_chained sts" "genuine i sts rs (qStoppedAt res) = Some x" "al = pre @ rs"
  shows "\<exists>out. run_steps i sts (replay al) res (length pre) = (Inr out, length al) \<and>
    qReplies out = qReplies res @ rs \<and> qStoppedAt out = x"
  using assms
proof (induction i sts rs "qStoppedAt res" arbitrary: res pre rule: genuine.induct)
  case (4 i st sts r rs)
  let ?res = "res\<lparr>qReplies := qReplies res @ [r], qFollowups := qFollowups res @ [[]]\<rparr>"
  have "replay al (qData st) (length pre) = (Inr r, length pre + 1)"
    using 4(4) by (simp add: replay_def min_def nth_append)
  then have s: "run_step st (replay al) (length pre) = (Inr r, [], length pre + 1)"
    using 4(2) by (simp add: run_step_def remote_chained_def)
  show ?case
  proof (cases "step_stops st r")
    case True
    then show ?thesis using s 4(3,4) by (auto simp: Let_def split: if_splits)
  next
    case False
    have "\<exists>out. run_steps (i + 1) sts (replay al) ?res (length (pre @ [r])) = (Inr out, length al) \<and>
        qReplies out = qReplies ?res @ rs \<and> qStoppedAt out = x"
      by (rule 4(1) [OF False]) (use 4(2,3,4) False in \<open>auto simp: remote_chained_def\<close>)
    then show ?thesis using s False by (auto simp: Let_def)
  qed
qed auto

lemma replayed:
  assumes "\<not> remote_chained sts" "run_steps i sts (replay al) res n = (Inr out, n')"
  shows "n \<le> n' \<and> qReplies out = qReplies res @ map (\<lambda>k. al ! min k (length al - 1)) [n..<n']"
  using assms
proof (induction sts arbitrary: i res n)
  case (Cons st sts)
  let ?r = "al ! min n (length al - 1)"
  let ?res = "res\<lparr>qReplies := qReplies res @ [?r], qFollowups := qFollowups res @ [[]]\<rparr>"
  have s: "run_step st (replay al) n = (Inr ?r, [], n + 1)"
    using Cons.prems(1) by (simp add: run_step_def remote_chained_def replay_def)
  show ?case
  proof (cases "step_stops st ?r")
    case True
    then show ?thesis using Cons.prems(2) s by (auto simp: Let_def)
  next
    case False
    then have "run_steps (i + 1) sts (replay al) ?res (n + 1) = (Inr out, n')" using Cons.prems(2) s by (simp add: Let_def)
    from Cons.IH [OF _ this] Cons.prems(1) show ?thesis by (auto simp: remote_chained_def upt_conv_Cons)
  qed
qed auto

text \<open>The device is believed exactly when what it answered is a run.\<close>

lemma check_genuine:
  assumes "steps \<noteq> []" "\<not> remote_chained steps"
  shows "check_device_sequence steps r =
      Inr \<lparr>qReplies = dyReplies r, qStoppedAt = dyStoppedAt r, qFollowups = []\<rparr> \<longleftrightarrow>
    genuine 0 steps (dyReplies r) (- 1) = Some (dyStoppedAt r)" (is "?a \<longleftrightarrow> ?g")
    "check_device_sequence steps r = Inr out \<Longrightarrow>
      out = \<lparr>qReplies = dyReplies r, qStoppedAt = dyStoppedAt r, qFollowups = []\<rparr>"
proof -
  show "check_device_sequence steps r = Inr out \<Longrightarrow> out = \<lparr>qReplies = dyReplies r, qStoppedAt = dyStoppedAt r, qFollowups = []\<rparr>"
    by (auto simp: check_device_sequence_def Let_def split: if_splits prod.splits sum.splits)
  let ?e = "\<lparr>qReplies = [], qStoppedAt = -1, qFollowups = []\<rparr>"
  show "?a \<longleftrightarrow> ?g"
  proof
    assume a: ?a
    then obtain out n where r: "run_steps 0 steps (replay (dyReplies r)) ?e 0 = (Inr out, n)"
      "n \<le> length (dyReplies r)" "length (qReplies out) = length (dyReplies r)" "qStoppedAt out = dyStoppedAt r"
      by (auto simp: check_device_sequence_def run_sequence_def Let_def split: if_splits prod.splits sum.splits)
    note q = replayed [OF assms(2) r(1)]
    have "n = length (dyReplies r)" using q r(3) by simp
    then have "qReplies out = dyReplies r"
      using q by (auto simp: min_def intro!: nth_equalityI)
    then show ?g using run_is_genuine [OF assms(2) r(1)] r(4) by auto
  next
    assume g: ?g
    then have "dyReplies r \<noteq> []" using assms(1) by (cases steps; cases "dyReplies r") auto
    moreover have "length rs \<le> length sts" if "genuine i sts rs d = Some x" for i sts rs d x
      using that by (induction i sts rs d rule: genuine.induct) (auto split: if_splits)
    then have "length (dyReplies r) \<le> length steps" using g by blast
    moreover obtain out where "run_steps 0 steps (replay (dyReplies r)) ?e 0 = (Inr out, length (dyReplies r))"
      "qReplies out = dyReplies r" "qStoppedAt out = dyStoppedAt r"
      using genuine_replays [OF assms(2), of 0 "dyReplies r" ?e "dyStoppedAt r" "dyReplies r" "[]"] g by auto
    ultimately show ?a by (simp add: check_device_sequence_def run_sequence_def Let_def)
  qed
qed

section \<open>A tag advertises what would be sent\<close>

lemma advertised:
  "capCanWrite (phone_capabilities t rm) = write_allowed (ptDeclared t) (phone_cap_source t rm)"
  "capCanLock (phone_capabilities t rm) = lock_allowed (ptDeclared t) (phone_cap_source t rm)"
  "capCanTransceive (phone_capabilities t rm) = transceive_allowed (ptDeclared t) (phone_cap_source t rm)"
  by (simp_all add: phone_capabilities_def merge_capabilities_def Let_def)

lemma declared_reachable: "device_declared_as d True want rm \<Longrightarrow> tag_modification_allowed rm \<and> device_connected d rm"
  by (simp add: device_declared_as_def device_reachable_def split: if_splits)

lemma advertised_reachable:
  assumes "capCanWrite (phone_capabilities t rm) \<or> capCanLock (phone_capabilities t rm) \<or> capCanTransceive (phone_capabilities t rm)"
  shows "ptRouted t \<and> tag_modification_allowed rm \<and> device_connected (ptSource t) rm"
  using assms
  by (auto simp: advertised phone_cap_source_def write_allowed_def lock_allowed_def transceive_allowed_def declared_for_def
      device_source_def dest: declared_reachable split: if_splits option.splits)

lemma advertised_write:
  assumes "capCanWrite (phone_capabilities t rm)"
  shows "phone_write pw fresh t data (rm, s) =
    (case write_to_device pw (ptSource t) fresh (ptUID t) data False
        (operation_key (ptSource t) (ptUID t) ''write'' data False) (rm, s) of
       (Inl e, w) \<Rightarrow> (Inl e, w)
     | (Inr r, w) \<Rightarrow> (if \<not> dySuccess r then Inl (write_response_error ''WriteData'' (ptUID t) r) else Inr (), w))"
  using assms advertised_reachable [of t rm] by (simp add: phone_write_def route_write_def advertised)

lemma advertised_lock:
  assumes "capCanLock (phone_capabilities t rm)"
  shows "phone_lock pw fresh t (rm, s) =
    (case write_to_device pw (ptSource t) fresh (ptUID t) [] True
        (operation_key (ptSource t) (ptUID t) ''lock'' [] True) (rm, s) of
       (Inl e, w) \<Rightarrow> (Inl e, w)
     | (Inr r, w) \<Rightarrow> (if \<not> dySuccess r then Inl (write_response_error ''MakeReadOnly'' (ptUID t) r) else Inr (), w))"
  using assms advertised_reachable [of t rm] by (simp add: phone_lock_def route_lock_def advertised)

lemma not_advertised:
  "\<not> capCanWrite (phone_capabilities t rm) \<Longrightarrow>
     phone_write pw fresh t data (rm, s) = (Inl (new_not_supported_error ''WriteData''), rm, s)"
  "\<not> capCanLock (phone_capabilities t rm) \<Longrightarrow>
     phone_lock pw fresh t (rm, s) = (Inl (new_not_supported_error ''MakeReadOnly''), rm, s)"
  "\<not> capCanTransceive (phone_capabilities t rm) \<Longrightarrow>
     phone_transceive pw fresh t data (rm, s) = (Inl (new_not_supported_error ''Transceive''), rm, s)"
  by (simp_all add: phone_write_def phone_lock_def phone_transceive_def advertised)

text \<open>A retried operation has its key again, and another operation another hashed text.\<close>

lemma split_at_zero:
  assumes "0 \<notin> set a" "0 \<notin> set a'" "a @ (0 :: byte) # r = a' @ 0 # r'"
  shows "a = a' \<and> r = r'"
  using assms
proof (induction a arbitrary: a')
  case Nil
  then show ?case by (cases a') auto
next
  case (Cons b a)
  then show ?case by (cases a') auto
qed

lemma operation_material_inject:
  assumes "operation_material d u op p lck = operation_material d' u' op' p' lck'"
    and "0 \<notin> set (ascii d)" "0 \<notin> set (ascii d')" "0 \<notin> set (ascii u)" "0 \<notin> set (ascii u')"
    and "0 \<notin> set (ascii op)" "0 \<notin> set (ascii op')"
    and "p = [] \<or> hd p \<noteq> 1" "p' = [] \<or> hd p' \<noteq> 1"
  shows "ascii d = ascii d' \<and> ascii u = ascii u' \<and> ascii op = ascii op' \<and> p = p' \<and> lck = lck'"
proof -
  let ?t = "\<lambda>lck p. (if lck then [1] else []) @ (p :: byte list)"
  have "ascii d = ascii d' \<and> ascii u @ 0 # ascii op @ 0 # ?t lck p = ascii u' @ 0 # ascii op' @ 0 # ?t lck' p'"
    using split_at_zero [OF assms(2,3), of "ascii u @ 0 # ascii op @ 0 # ?t lck p" "ascii u' @ 0 # ascii op' @ 0 # ?t lck' p'"]
      assms(1) by (simp add: operation_material_def)
  moreover from this have "ascii u = ascii u' \<and> ascii op @ 0 # ?t lck p = ascii op' @ 0 # ?t lck' p'"
    using split_at_zero [OF assms(4,5)] by blast
  moreover from this have "ascii op = ascii op' \<and> ?t lck p = ?t lck' p'" using split_at_zero [OF assms(6,7)] by blast
  ultimately show ?thesis using assms(8,9) by (auto split: if_splits)
qed

section \<open>What the registry loses\<close>

text \<open>
  A phone that held the latest scan registers again: the manager still names it for a request that
  names none, so the tag another phone holds is not found, and a device that holds none is listed.
\<close>

definition demo_phone :: "string \<Rightarrow> registration" where
  "demo_phone n = \<lparr>rgName = n, rgPlatform = ''ios'', rgAppVersion = ''1'', rgProtocol = 1, rgCaps = None, rgMetadata = []\<rparr>"

definition phone_scan :: "string \<Rightarrow> tag_data" where
  "phone_scan u = \<lparr>tdDevice = [], tdUID = u, tdTechnology = ''ISO14443A'', tdType = ''NTAG215'', tdScannedAt = 0,
     tdNDEF = None, tdRaw = [], tdCaps = None\<rparr>"

definition two_phones :: remote where
  "two_phones = remote_run
     [EvRegister [] 0 1 ''a'' (FHello 1 (demo_phone ''A'')), EvRegister [] 0 2 ''b'' (FHello 1 (demo_phone ''B'')),
      EvFrame 0 True ''b'' (FTagScanned (phone_scan ''04AABBCC'')), EvFrame 0 True ''a'' (FTagScanned (phone_scan ''04112233''))]
     (new_remote 0 None)"

lemma reregistration_hides_tags:
  "remote_tag_on [] two_phones = Some (''a'', ''04:11:22:33'')"
  "remote_tag_on ''b'' two_phones = Some (''b'', ''04:AA:BB:CC'')"
  "let rm = remote_run [EvRegister [] 1 3 ''a'' (FHello 1 (demo_phone ''A''))] two_phones
   in remote_tag_on [] rm = None \<and> remote_tag_on ''b'' rm = Some (''b'', ''04:AA:BB:CC'') \<and>
      remote_tag_on ''a'' rm = None \<and> active_tag_devices rm = [''a'', ''b'']"
  by code_simp+

text \<open>
  The end of a session is not one step in the code: the session is removed first and the device
  unregistered last, and the device may register again in between. The new session is then live and
  its device unknown, so every frame it sends is refused.
\<close>

definition torn_teardown :: remote where
  "torn_teardown =
     (let rm = remote_run [EvRegister [] 0 1 ''a'' (FHello 1 (demo_phone ''A''))] (new_remote 0 None);
          rm = snd (remove_session_for 1 ''a'' rm);
          rm = remote_run [EvRegister [] 0 2 ''a'' (FHello 1 (demo_phone ''A''))] rm
      in snd (unregister_device ''a'' (clear_active_tag ''a'' [] (fail_pending_requests ''a'' rm))))"

lemma torn_teardown_leaves_a_session:
  "session_of ''a'' torn_teardown = Some 2" "get_device ''a'' torn_teardown = None"
  "fst (serve_frame 0 True ''a'' (FTagScanned (phone_scan ''04AABBCC'')) torn_teardown) = Some (new_error_payload ''TAG_SEND_FAILED'')"
  by code_simp+

end
