(* ===== verification/Router.thy ===== *)
theory Router
  imports Supervisor Wire Explain Ntag424Files
begin

text \<open>
  The tag router of the client server: \<open>server/clientserver/tagresolve.go\<close> decides which source an
  operation goes to, \<open>tagops.go\<close> and \<open>ntag424.go\<close> perform it behind the gates of the mode and of the
  raw channel, and \<open>audit.go\<close> records every raw exchange. What holds the tags is a value of the Go
  interfaces, over a world of its own; \<open>RouterFacts\<close> gives the supervisor as one. The audit log is
  a list of lines beside that world: a line carries what the decoder said of a command, never its
  bytes.
\<close>

section \<open>What holds the tags\<close>

record 'w raw_sessions =
  rsBegin :: "string \<Rightarrow> string \<Rightarrow> int \<Rightarrow> 'w \<Rightarrow> (go_error + string) \<times> 'w"
  rsEnd :: "string \<Rightarrow> 'w \<Rightarrow> (go_error + unit) \<times> 'w"
  rsIn :: "string \<Rightarrow> bytes \<Rightarrow> 'w \<Rightarrow> (go_error + bytes) \<times> 'w"

record 'w sequences =
  sqTag :: "string \<Rightarrow> string \<Rightarrow> sequence_step list \<Rightarrow> 'w \<Rightarrow> (go_error + sequence_result) \<times> 'w"
  sqIn :: "string \<Rightarrow> sequence_step list \<Rightarrow> 'w \<Rightarrow> (go_error + sequence_result) \<times> 'w"

text \<open>
  \<open>NTAG424Operator\<close> with \<open>NTAG424KeySource\<close> and \<open>TagLocker\<close>, and the request and reply of an
  NTAG 424 operation. File settings go to the client field by field; they are a value here.
\<close>

record 's n4_operator =
  noGetFileSettings :: "byte \<Rightarrow> 's \<Rightarrow> (go_error + file_settings) \<times> 's"
  noChangeKey :: "byte \<Rightarrow> bytes \<Rightarrow> byte \<Rightarrow> byte \<Rightarrow> 's \<Rightarrow> (go_error + unit) \<times> 's"
  noGetCardUID :: "'s \<Rightarrow> (go_error + bytes) \<times> 's"
  noGetKeyVersion :: "byte \<Rightarrow> 's \<Rightarrow> (go_error + byte) \<times> 's"
  noReadOriginality :: "'s \<Rightarrow> (go_error + bytes \<times> bool) \<times> 's"
  noConfigureSDM :: "sdm_plan \<Rightarrow> 's \<Rightarrow> (sdm_result option \<times> go_error option) \<times> 's"
  noConfiguredKey :: "(byte \<Rightarrow> 's \<Rightarrow> (go_error + bytes) \<times> 's) option"
  noMakeReadOnly :: "('s \<Rightarrow> (go_error + unit) \<times> 's) option"

record sdm_args =
  saMetaRead :: "int option"
  saFileRead :: "int option"
  saCounterRet :: "int option"
  saChange :: "int option"
  saRead :: "int option"
  saWrite :: "int option"
  saReadWrite :: "int option"
  saEncLength :: int

record n4_request =
  nqOp :: string
  nqFileNo :: int
  nqTemplate :: bytes
  nqSDM :: "sdm_args option"
  nqKeyNo :: int
  nqAuthKeyNo :: int
  nqVersion :: int
  nqKeySource :: string
  nqNewKey :: bytes
  nqConfirm :: bool

record sdm_reply =
  srURL :: bytes
  srTap :: "tap option"
  srError :: "go_error option"

record n4_reply =
  nrOp :: string
  nrPlan :: "sdm_plan option"
  nrSettings :: "file_settings option"
  nrSDM :: "sdm_reply option"
  nrUID :: bytes
  nrKeyVersion :: "(int \<times> byte) option"
  nrSignature :: "(bytes \<times> bool) option"
  nrLocked :: bool
  nrChanged :: bool

type_synonym 's n4_run = "'s n4_operator \<Rightarrow> 's \<Rightarrow> (go_error + n4_reply) \<times> 's"

record ('w, 's) tag_source = "'w tag_holder" +
  tsRaw :: "'w raw_sessions option"
  tsSequences :: "'w sequences option"
  tsNTAG424 :: "(string \<Rightarrow> string \<Rightarrow> 's n4_run \<Rightarrow> 'w \<Rightarrow> (go_error + n4_reply) \<times> 'w) option"

record ('w, 's) tag_ops =
  toTags :: "('w, 's) tag_source option"
  toAllowModification :: "('w \<Rightarrow> bool) option"
  toAllowRaw :: "('w \<Rightarrow> bool) option"

section \<open>Routes\<close>

record target =
  tgtUID :: string
  tgtDevice :: string
  tgtUntargeted :: bool

text \<open>A route's holder is the one the router was given, so it is the device and the UID.\<close>

record route =
  rtDevice :: string
  rtUID :: string

definition holding :: "('w, 's) tag_ops \<Rightarrow> string \<Rightarrow> 'w \<Rightarrow> route option" where
  "holding ops device w = (case toTags ops of
     None \<Rightarrow> None
   | Some h \<Rightarrow> map_option (\<lambda>(d, u). \<lparr>rtDevice = d, rtUID = u\<rparr>) (thTagOn h device w))"

fun first_holding :: "('w, 's) tag_source \<Rightarrow> string \<Rightarrow> string list \<Rightarrow> 'w \<Rightarrow> route option" where
  "first_holding h uid [] w = None"
| "first_holding h uid (d # ds) w = (case thTagOn h d w of
     Some (held, u) \<Rightarrow> if equal_fold u uid then Some \<lparr>rtDevice = held, rtUID = u\<rparr> else first_holding h uid ds w
   | None \<Rightarrow> first_holding h uid ds w)"

definition holding_uid :: "('w, 's) tag_ops \<Rightarrow> string \<Rightarrow> 'w \<Rightarrow> route option" where
  "holding_uid ops uid w = (case toTags ops of
     None \<Rightarrow> None
   | Some h \<Rightarrow> first_holding h uid (thHolding h w) w)"

definition guess_route :: "('w, 's) tag_ops \<Rightarrow> 'w \<Rightarrow> go_error + route" where
  "guess_route ops w = (case holding ops [] w of
     Some rt \<Rightarrow> Inr rt
   | None \<Rightarrow> Inl (refused ''NO_CARD'' ''no reader or device is holding a tag''))"

definition resolve_route :: "('w, 's) tag_ops \<Rightarrow> target \<Rightarrow> 'w \<Rightarrow> go_error + route" where
  "resolve_route ops t w =
     (let uid = tgtUID t; device = tgtDevice t
      in if device \<noteq> []
         then (case holding ops device w of
                 None \<Rightarrow> Inl (refused ''NO_CARD'' (''device '' @ device @ '' is not holding a tag''))
               | Some rt \<Rightarrow>
                   if uid = [] then Inr rt
                   else if rtUID rt \<noteq> [] \<and> \<not> equal_fold (rtUID rt) uid
                   then Inl (refused ''TAG_MISMATCH'' (''request named tag '' @ uid @ '' but device '' @ device @
                               '' is holding '' @ rtUID rt))
                   else Inr (rt\<lparr>rtUID := uid\<rparr>))
         else if uid \<noteq> []
         then (case holding_uid ops uid w of
                 Some rt \<Rightarrow> Inr rt
               | None \<Rightarrow> Inl (refused ''NO_CARD'' (''no reader or device is holding tag '' @ uid)))
         else if \<not> tgtUntargeted t
         then Inl (refused ''TAG_NOT_NAMED'' (''request must name the tag it applies to (uid), '' @
                     ''or the device holding it (deviceID)''))
         else guess_route ops w)"

section \<open>Gates and failures\<close>

definition modification_allowed :: "('w, 's) tag_ops \<Rightarrow> 'w \<Rightarrow> bool" where
  "modification_allowed ops w = (case toAllowModification ops of None \<Rightarrow> True | Some f \<Rightarrow> f w)"

definition raw_transceive_allowed :: "('w, 's) tag_ops \<Rightarrow> 'w \<Rightarrow> bool" where
  "raw_transceive_allowed ops w = (case toAllowRaw ops of None \<Rightarrow> True | Some f \<Rightarrow> f w)"

definition read_only_mode :: "string \<Rightarrow> go_error" where
  "read_only_mode operations =
     refused ''READ_ONLY'' (''Agent is in read-only mode; '' @ operations @ '' are refused'')"

definition raw_channel_gate :: "('w, 's) tag_ops \<Rightarrow> string \<Rightarrow> 'w \<Rightarrow> go_error option" where
  "raw_channel_gate ops what w =
     (if \<not> modification_allowed ops w
      then Some (refused ''READ_ONLY'' (''Reader is in read-only mode; '' @ what @ '' are refused because they can write''))
      else if \<not> raw_transceive_allowed ops w
      then Some (refused ''RAW_CHANNEL_DISABLED'' ''Raw APDU channel is disabled; enable it to send raw exchanges'')
      else None)"

definition operation_error_code :: "go_error \<Rightarrow> string \<Rightarrow> string" where
  "operation_error_code e fallback =
     (let c = epCode (error_payload_for e) in if c \<noteq> ''UNKNOWN_ERROR'' then c else fallback)"

definition source_failure :: "go_error \<Rightarrow> string \<Rightarrow> string \<Rightarrow> string \<Rightarrow> go_error" where
  "source_failure e device op failed = (case first_coded (error_chain e) of
     Some c \<Rightarrow> e
   | None \<Rightarrow> wrap_coded (operation_error_code e failed) e (''device '' @ device @ '' did not complete the '' @ op))"

definition unsupported_here :: "string \<Rightarrow> string \<Rightarrow> go_error" where
  "unsupported_here op msg = wrap_coded ''NOT_SUPPORTED'' (new_not_supported_error op) msg"

section \<open>The audit trail\<close>

datatype audit_level = AuditInfo | AuditWarn

datatype audit_line =
    AuditExchange audit_level apdu_class "apdu_warning list" string string
  | AuditFollowup audit_level apdu_class "apdu_warning list" string string string
  | AuditSequence nat string string string
  | AuditSession string string string string
  | AuditNTAG424 audit_level string string string

definition audit_level_of :: "explanation \<Rightarrow> audit_level" where
  "audit_level_of ex = (if eMutating ex \<or> eWarnings ex \<noteq> [] then AuditWarn else AuditInfo)"

definition raw_exchange_audit :: "bytes \<Rightarrow> bool \<Rightarrow> string \<Rightarrow> string \<Rightarrow> audit_line" where
  "raw_exchange_audit cmd raw device uid =
     (let ex = explain cmd raw in AuditExchange (audit_level_of ex) (eClass ex) (eWarnings ex) device uid)"

definition audit_raw_sequence :: "sequence_step list \<Rightarrow> string \<Rightarrow> string \<Rightarrow> string \<Rightarrow> audit_line list" where
  "audit_raw_sequence steps device uid session =
     AuditSequence (length steps) device uid session #
     map (\<lambda>st. raw_exchange_audit (qData st) False device uid) steps"

definition audit_raw_followups :: "bytes list list \<Rightarrow> string \<Rightarrow> string \<Rightarrow> string \<Rightarrow> audit_line list" where
  "audit_raw_followups followups device uid session =
     map (\<lambda>cmd. let ex = explain cmd False
                in AuditFollowup (audit_level_of ex) (eClass ex) (eWarnings ex) device uid session) (concat followups)"

type_synonym ('w, 'a) routed = "audit_line list \<times> 'w \<Rightarrow> (go_error + 'a) \<times> audit_line list \<times> 'w"

definition on_route ::
    "('w, 's) tag_ops \<Rightarrow> target \<Rightarrow> (('w, 's) tag_source \<Rightarrow> route \<Rightarrow> ('w, 'a) routed) \<Rightarrow> ('w, 'a) routed" where
  "on_route ops t go = (\<lambda>(log, w). case (resolve_route ops t w, toTags ops) of
     (Inr rt, Some h) \<Rightarrow> go h rt (log, w)
   | (Inr rt, None) \<Rightarrow> (Inl (refused ''NO_CARD'' []), log, w)
   | (Inl e, _) \<Rightarrow> (Inl e, log, w))"

definition told ::
    "string \<Rightarrow> string \<Rightarrow> string \<Rightarrow> audit_line list \<Rightarrow> (go_error + 'a) \<times> 'w \<Rightarrow> (go_error + 'a) \<times> audit_line list \<times> 'w" where
  "told device op failed log rw = (case rw of
     (Inl e, w) \<Rightarrow> (Inl (source_failure e device op failed), log, w)
   | (Inr x, w) \<Rightarrow> (Inr x, log, w))"

section \<open>The operations\<close>

definition ops_write ::
    "('w, 's) tag_ops \<Rightarrow> target \<Rightarrow> write_record list \<Rightarrow> bool \<Rightarrow> string \<Rightarrow> ('w, write_result) routed" where
  "ops_write ops t records lck key = (\<lambda>(log, w).
     if \<not> modification_allowed ops w then (Inl (read_only_mode ''writes''), log, w)
     else on_route ops t (\<lambda>h rt (log, w). case build_ndef_message records of
         Inl e \<Rightarrow> (Inl (wrap_coded ''INVALID_REQUEST'' e ''invalid write request''), log, w)
       | Inr msg \<Rightarrow> told (rtDevice rt) ''write'' ''WRITE_FAILED'' log
           (thWrite h (rtDevice rt) (rtUID rt) msg lck key w)) (log, w))"

definition ops_lock :: "('w, 's) tag_ops \<Rightarrow> target \<Rightarrow> string \<Rightarrow> ('w, lock_result) routed" where
  "ops_lock ops t key = (\<lambda>(log, w).
     if \<not> modification_allowed ops w then (Inl (read_only_mode ''locks''), log, w)
     else on_route ops t (\<lambda>h rt (log, w). told (rtDevice rt) ''lock'' ''LOCK_FAILED'' log
            (thLock h (rtDevice rt) (rtUID rt) key w)) (log, w))"

definition ops_capabilities :: "('w, 's) tag_ops \<Rightarrow> target \<Rightarrow> ('w, tag_caps) routed" where
  "ops_capabilities ops t = on_route ops t (\<lambda>h rt (log, w).
     told (rtDevice rt) ''capability report'' ''CAPABILITIES_FAILED'' log (thCaps h (rtDevice rt) (rtUID rt) w))"

text \<open>An exchange inside a session carries the target of the request only for the log.\<close>

definition in_raw_session ::
    "('w, 's) tag_ops \<Rightarrow> target \<Rightarrow> string \<Rightarrow> bytes \<Rightarrow> bool \<Rightarrow> ('w, bytes) routed" where
  "in_raw_session ops t session data raw = (\<lambda>(log, w).
     if raw then (Inl (unsupported_here ''TransceiveRaw''
                    ''framing-level exchanges are not supported inside a raw session''), log, w)
     else case (case toTags ops of None \<Rightarrow> None | Some h \<Rightarrow> tsRaw h) of
       None \<Rightarrow> (Inl (unsupported_here ''RawSession'' ''raw sessions are not supported here''), log, w)
     | Some rs \<Rightarrow> told (tgtDevice t) ''exchange'' ''TRANSCEIVE_FAILED''
         (log @ [raw_exchange_audit data raw (tgtDevice t) (tgtUID t)]) (rsIn rs session data w))"

definition chained_step :: "bytes \<Rightarrow> sequence_step list" where
  "chained_step data = [\<lparr>qData = data, qExpectSW = [], qStopOnSW = [], qAutoGetResponse = True\<rparr>]"

definition first_reply :: "audit_line list \<Rightarrow> sequence_result \<Rightarrow> string \<Rightarrow> string \<Rightarrow> string \<Rightarrow> 'w
    \<Rightarrow> (go_error + bytes) \<times> audit_line list \<times> 'w" where
  "first_reply log res device uid session w =
     (Inr (hd (qReplies res)), log @ audit_raw_followups (qFollowups res) device uid session, w)"

text \<open>
  \<open>transceiveChained\<close>: as a sequence of one step where the holder runs sequences, and over its single
  exchanges where it answers that it does not.
\<close>

definition transceive_chained ::
    "('w, 's) tag_ops \<Rightarrow> target \<Rightarrow> string \<Rightarrow> bytes \<Rightarrow> ('w, bytes) routed" where
  "transceive_chained ops t session data = (\<lambda>(log, w).
     let seqs = (case toTags ops of None \<Rightarrow> None | Some h \<Rightarrow> tsSequences h)
     in if session \<noteq> []
        then (case seqs of
                None \<Rightarrow> (Inl (unsupported_here ''TransceiveSequence'' ''raw sessions are not supported here''), log, w)
              | Some sq \<Rightarrow>
                  let log = log @ [raw_exchange_audit data False (tgtDevice t) (tgtUID t)]
                  in (case sqIn sq session (chained_step data) w of
                       (Inl e, w) \<Rightarrow> (Inl (source_failure e (tgtDevice t) ''exchange'' ''TRANSCEIVE_FAILED''), log, w)
                     | (Inr res, w) \<Rightarrow> first_reply log res (tgtDevice t) (tgtUID t) session w))
        else on_route ops t (\<lambda>h rt (log, w).
          let log = log @ [raw_exchange_audit data False (rtDevice rt) (rtUID rt)];
              stepwise = (\<lambda>w. case exchange_chained data (\<lambda>cmd. thTransceive h (rtDevice rt) (rtUID rt) cmd False) w of
                  (res, follow, w) \<Rightarrow> told (rtDevice rt) ''exchange'' ''TRANSCEIVE_FAILED''
                     (log @ audit_raw_followups [follow] (rtDevice rt) (rtUID rt) []) (res, w))
          in (case tsSequences h of
               None \<Rightarrow> stepwise w
             | Some sq \<Rightarrow> (case sqTag sq (rtDevice rt) (rtUID rt) (chained_step data) w of
                 (Inr res, w) \<Rightarrow> first_reply log res (rtDevice rt) (rtUID rt) [] w
               | (Inl e, w) \<Rightarrow>
                   if \<not> is_not_supported_error e
                   then (Inl (source_failure e (rtDevice rt) ''exchange'' ''TRANSCEIVE_FAILED''), log, w)
                   else stepwise w))) (log, w))"

definition ops_transceive ::
    "('w, 's) tag_ops \<Rightarrow> target \<Rightarrow> bytes \<Rightarrow> bool \<Rightarrow> string \<Rightarrow> bool \<Rightarrow> ('w, bytes) routed" where
  "ops_transceive ops t data raw session auto = (\<lambda>(log, w). case raw_channel_gate ops ''raw exchanges'' w of
     Some e \<Rightarrow> (Inl e, log, w)
   | None \<Rightarrow>
       if auto \<and> \<not> raw then transceive_chained ops t session data (log, w)
       else if session \<noteq> [] then in_raw_session ops t session data raw (log, w)
       else on_route ops t (\<lambda>h rt (log, w). told (rtDevice rt) ''exchange'' ''TRANSCEIVE_FAILED''
              (log @ [raw_exchange_audit data raw (rtDevice rt) (rtUID rt)])
              (thTransceive h (rtDevice rt) (rtUID rt) data raw w)) (log, w))"

definition ops_transceive_sequence ::
    "('w, 's) tag_ops \<Rightarrow> target \<Rightarrow> sequence_step list \<Rightarrow> string \<Rightarrow> ('w, sequence_result) routed" where
  "ops_transceive_sequence ops t steps session = (\<lambda>(log, w). case raw_channel_gate ops ''raw exchanges'' w of
     Some e \<Rightarrow> (Inl e, log, w)
   | None \<Rightarrow> (case (case toTags ops of None \<Rightarrow> None | Some h \<Rightarrow> tsSequences h) of
       None \<Rightarrow> (Inl (unsupported_here ''TransceiveSequence'' ''raw sequences are not supported here''), log, w)
     | Some sq \<Rightarrow>
         if session \<noteq> []
         then (let log = log @ audit_raw_sequence steps (tgtDevice t) (tgtUID t) session
               in case sqIn sq session steps w of
                    (Inl e, w) \<Rightarrow> (Inl (source_failure e (tgtDevice t) ''sequence'' ''TRANSCEIVE_FAILED''), log, w)
                  | (Inr res, w) \<Rightarrow>
                      (Inr res, log @ audit_raw_followups (qFollowups res) (tgtDevice t) (tgtUID t) session, w))
         else on_route ops t (\<lambda>h rt (log, w).
                let log = log @ audit_raw_sequence steps (rtDevice rt) (rtUID rt) []
                in case sqTag sq (rtDevice rt) (rtUID rt) steps w of
                     (Inl e, w) \<Rightarrow> (Inl (source_failure e (rtDevice rt) ''sequence'' ''TRANSCEIVE_FAILED''), log, w)
                   | (Inr res, w) \<Rightarrow>
                       (Inr res, log @ audit_raw_followups (qFollowups res) (rtDevice rt) (rtUID rt) [], w)) (log, w)))"

definition ops_begin_raw_session :: "('w, 's) tag_ops \<Rightarrow> target \<Rightarrow> int \<Rightarrow> ('w, string \<times> int) routed" where
  "ops_begin_raw_session ops t ttl = (\<lambda>(log, w). case raw_channel_gate ops ''raw sessions'' w of
     Some e \<Rightarrow> (Inl e, log, w)
   | None \<Rightarrow> (case (case toTags ops of None \<Rightarrow> None | Some h \<Rightarrow> tsRaw h) of
       None \<Rightarrow> (Inl (unsupported_here ''RawSession'' ''raw sessions are not supported here''), log, w)
     | Some rs \<Rightarrow> on_route ops t (\<lambda>h rt (log, w).
         let log = log @ [AuditSession ''begin'' (rtDevice rt) (rtUID rt) []]
         in case rsBegin rs (rtDevice rt) (rtUID rt) ttl w of
              (Inl e, w) \<Rightarrow> (Inl (source_failure e (rtDevice rt) ''raw session'' ''TRANSCEIVE_FAILED''), log, w)
            | (Inr i, w) \<Rightarrow> (Inr (i, min (if ttl \<le> 0 then 5000 else ttl) 30000), log, w)) (log, w)))"

definition ops_end_raw_session :: "('w, 's) tag_ops \<Rightarrow> string \<Rightarrow> ('w, unit) routed" where
  "ops_end_raw_session ops session = (\<lambda>(log, w). case (case toTags ops of None \<Rightarrow> None | Some h \<Rightarrow> tsRaw h) of
     None \<Rightarrow> (Inl (unsupported_here ''RawSession'' ''raw sessions are not supported here''), log, w)
   | Some rs \<Rightarrow> told [] ''raw session'' ''TRANSCEIVE_FAILED''
       (log @ [AuditSession ''end'' [] [] session]) (rsEnd rs session w))"

section \<open>NTAG 424 operations\<close>

definition invalid_request :: "string \<Rightarrow> go_error" where
  "invalid_request msg = refused ''INVALID_REQUEST'' msg"

definition ntag424_mutating :: "string \<Rightarrow> bool" where
  "ntag424_mutating op \<longleftrightarrow> op \<in> {''configureSDM'', ''changeKey'', ''lock''}"

definition ntag424_ops :: "string list" where
  "ntag424_ops = [''getFileSettings'', ''configureSDM'', ''changeKey'', ''getCardUID'', ''getKeyVersion'', ''readSig'',
     ''lock'', ''planSDM'']"

text \<open>\<open>sdmOptions\<close>: an access right is a key number, 14 or 15; the last bad one is named.\<close>

definition access_right :: "int \<Rightarrow> bool" where
  "access_right n \<longleftrightarrow> 0 \<le> n \<and> n \<le> 4 \<or> n = 14 \<or> n = 15"

definition pick :: "int option \<Rightarrow> byte \<Rightarrow> byte" where
  "pick v d = (case v of None \<Rightarrow> d | Some n \<Rightarrow> word_of_int n)"

definition no_sdm_args :: sdm_args where
  "no_sdm_args = \<lparr>saMetaRead = None, saFileRead = None, saCounterRet = None, saChange = None, saRead = None,
     saWrite = None, saReadWrite = None, saEncLength = 0\<rparr>"

definition sdm_options_of :: "sdm_args option \<Rightarrow> go_error + sdm_options" where
  "sdm_options_of args =
     (let a = (case args of None \<Rightarrow> no_sdm_args | Some a \<Rightarrow> a);
          rights = [(''metaRead'', saMetaRead a), (''fileRead'', saFileRead a), (''counterRet'', saCounterRet a),
            (''change'', saChange a), (''read'', saRead a), (''write'', saWrite a), (''readWrite'', saReadWrite a)];
          bad = filter (\<lambda>(name, v). case v of None \<Rightarrow> False | Some n \<Rightarrow> \<not> access_right n) rights
      in if saEncLength a < 0 then Inl (PlainError ''encLength must not be negative'')
         else if bad \<noteq> []
         then Inl (PlainError (fst (last bad) @ '' is not a key number 0 to 4, 14 or 15''))
         else Inr \<lparr>oMetaRead = pick (saMetaRead a) 0, oFileRead = pick (saFileRead a) 0,
                oCounterRet = pick (saCounterRet a) 15, oChange = pick (saChange a) 0, oRead = pick (saRead a) 14,
                oWrite = pick (saWrite a) 0, oReadWrite = pick (saReadWrite a) 0,
                oEncLength = word_of_int (saEncLength a), oLRP = False\<rparr>)"

definition blank_text :: "bytes \<Rightarrow> bool" where
  "blank_text t = list_all (\<lambda>b. b \<in> set [9, 10, 11, 12, 13, 32]) t"

definition requested_plan :: "n4_request \<Rightarrow> go_error + sdm_plan" where
  "requested_plan r =
     (if blank_text (nqTemplate r) then Inl (invalid_request ''urlTemplate is required'')
      else case sdm_options_of (nqSDM r) of
        Inl e \<Rightarrow> Inl (invalid_request (error_text e))
      | Inr opts \<Rightarrow> (case plan_sdm (nqTemplate r) opts of
          Inl e \<Rightarrow> Inl (invalid_request ''the template cannot be planned'')
        | Inr plan \<Rightarrow> Inr plan))"

definition empty_reply :: "string \<Rightarrow> n4_reply" where
  "empty_reply op = \<lparr>nrOp = op, nrPlan = None, nrSettings = None, nrSDM = None, nrUID = [], nrKeyVersion = None,
     nrSignature = None, nrLocked = False, nrChanged = False\<rparr>"

definition run_reply ::
    "('s \<Rightarrow> (go_error + 'a) \<times> 's) \<Rightarrow> ('a \<Rightarrow> n4_reply) \<Rightarrow> 's \<Rightarrow> (go_error + n4_reply) \<times> 's" where
  "run_reply m f s = (case m s of (Inl e, s) \<Rightarrow> (Inl e, s) | (Inr x, s) \<Rightarrow> (Inr (f x), s))"

definition run_change_key :: "n4_request \<Rightarrow> bytes option \<Rightarrow> 's n4_run" where
  "run_change_key r explicit op s =
     (let change = (\<lambda>key s. run_reply (noChangeKey op (word_of_int (nqKeyNo r)) key (word_of_int (nqVersion r))
             (word_of_int (nqAuthKeyNo r))) (\<lambda>u. (empty_reply (nqOp r))\<lparr>nrChanged := True\<rparr>) s)
      in case explicit of
           Some key \<Rightarrow> change key s
         | None \<Rightarrow> (case noConfiguredKey op of
             None \<Rightarrow> (Inl (new_not_supported_error ''ConfiguredKey''), s)
           | Some configured \<Rightarrow> (case configured (word_of_int (nqKeyNo r)) s of
               (Inl e, s) \<Rightarrow> (Inl e, s)
             | (Inr key, s) \<Rightarrow> change key s)))"

definition run_configure_sdm :: "n4_request \<Rightarrow> sdm_plan \<Rightarrow> 's n4_run" where
  "run_configure_sdm r plan op s = (case noConfigureSDM op plan s of
     ((None, Some e), s) \<Rightarrow> (Inl e, s)
   | ((None, None), s) \<Rightarrow> (Inr (empty_reply (nqOp r)), s)
   | ((Some res, err), s) \<Rightarrow>
       (Inr ((empty_reply (nqOp r))\<lparr>nrSDM := Some \<lparr>srURL = resURL res, srTap = resTap res, srError = err\<rparr>\<rparr>), s))"

definition key_no_ok :: "int \<Rightarrow> bool" where
  "key_no_ok n \<longleftrightarrow> 0 \<le> n \<and> n \<le> 4"

definition new_key :: "n4_request \<Rightarrow> go_error + bytes option" where
  "new_key r =
     (if nqKeySource r = ''configured''
      then (if nqNewKey r \<noteq> [] then Inl (invalid_request ''newKey is for the explicit key source only'') else Inr None)
      else if nqKeySource r = ''explicit''
      then (case hex_decode (nqNewKey r) of
              None \<Rightarrow> Inl (invalid_request ''newKey must be 32 hex characters'')
            | Some key \<Rightarrow> if length key \<noteq> 16 then Inl (invalid_request ''newKey must be 32 hex characters'')
                          else Inr (Some key))
      else Inl (invalid_request ''newKeySource must be configured or explicit''))"

text \<open>\<open>ntag424Plan\<close>: the request checked, and what runs it.\<close>

definition ntag424_plan :: "n4_request \<Rightarrow> go_error + 's n4_run" where
  "ntag424_plan r =
     (let out = empty_reply (nqOp r)
      in if nqOp r = ''getFileSettings''
         then (let n = (if nqFileNo r = 0 then 2 else nqFileNo r)
               in if n < 1 \<or> 3 < n then Inl (invalid_request ''fileNo must be 1 to 3'')
                  else Inr (\<lambda>op. run_reply (noGetFileSettings op (word_of_int n)) (\<lambda>fs. out\<lparr>nrSettings := Some fs\<rparr>)))
         else if nqOp r = ''configureSDM''
         then (case requested_plan r of Inl e \<Rightarrow> Inl e | Inr plan \<Rightarrow> Inr (run_configure_sdm r plan))
         else if nqOp r = ''changeKey''
         then (if \<not> nqConfirm r then Inl (invalid_request ''changeKey is irreversible; set confirm to true'')
               else if \<not> key_no_ok (nqKeyNo r) \<or> \<not> key_no_ok (nqAuthKeyNo r)
               then Inl (invalid_request ''keyNo and authKeyNo must be 0 to 4'')
               else if nqVersion r < 0 \<or> 0xFF < nqVersion r then Inl (invalid_request ''version must be 0 to 255'')
               else case new_key r of Inl e \<Rightarrow> Inl e | Inr k \<Rightarrow> Inr (run_change_key r k))
         else if nqOp r = ''getCardUID''
         then Inr (\<lambda>op. run_reply (noGetCardUID op) (\<lambda>uid. out\<lparr>nrUID := bytes_to_hex uid\<rparr>))
         else if nqOp r = ''getKeyVersion''
         then (if \<not> key_no_ok (nqKeyNo r) then Inl (invalid_request ''keyNo must be 0 to 4'')
               else Inr (\<lambda>op. run_reply (noGetKeyVersion op (word_of_int (nqKeyNo r)))
                      (\<lambda>v. out\<lparr>nrKeyVersion := Some (nqKeyNo r, v)\<rparr>)))
         else if nqOp r = ''readSig''
         then Inr (\<lambda>op. run_reply (noReadOriginality op) (\<lambda>sg. out\<lparr>nrSignature := Some sg\<rparr>))
         else if \<not> nqConfirm r then Inl (invalid_request ''lock is irreversible; set confirm to true'')
         else Inr (\<lambda>op s. case noMakeReadOnly op of
             None \<Rightarrow> (Inl (new_not_supported_error ''MakeReadOnly''), s)
           | Some f \<Rightarrow> run_reply f (\<lambda>u. out\<lparr>nrLocked := True\<rparr>) s))"

definition ntag424_failure :: "go_error \<Rightarrow> string \<Rightarrow> string \<Rightarrow> go_error" where
  "ntag424_failure e device op =
     (if has_sentinel ErrOperationDeadline e then wrap_coded ''TIMEOUT'' e (''NTAG 424 '' @ op @ '' was not started'')
      else if first_coded (error_chain e) \<noteq> None \<or> first_nfc (error_chain e) \<noteq> None
      then source_failure e device (''NTAG 424 '' @ op) ''TRANSCEIVE_FAILED''
      else if has_sentinel ErrPermissionDenied e \<or> has_sentinel ErrAuthDelay e \<or> has_sentinel ErrLRP e \<or>
        has_sentinel ErrAuthFailed e
      then wrap_coded ''AUTH_FAILED'' e (''NTAG 424 '' @ op @ '' was refused'')
      else wrap_coded ''TRANSCEIVE_FAILED'' e (''NTAG 424 '' @ op @ '' failed''))"

definition ops_ntag424 :: "('w, 's) tag_ops \<Rightarrow> target \<Rightarrow> n4_request \<Rightarrow> ('w, n4_reply) routed" where
  "ops_ntag424 ops t r = (\<lambda>(log, w).
     if nqOp r \<notin> set ntag424_ops then (Inl (invalid_request (''unknown ntag424 op '' @ nqOp r)), log, w)
     else if nqOp r = ''planSDM''
     then ((case requested_plan r of Inl e \<Rightarrow> Inl e
            | Inr plan \<Rightarrow> Inr ((empty_reply (nqOp r))\<lparr>nrPlan := Some plan\<rparr>)), log, w)
     else if ntag424_mutating (nqOp r) \<and> \<not> modification_allowed ops w
     then (Inl (read_only_mode ''NTAG 424 changes''), log, w)
     else case ntag424_plan r of
       Inl e \<Rightarrow> (Inl e, log, w)
     | Inr run \<Rightarrow> (case (case toTags ops of None \<Rightarrow> None | Some h \<Rightarrow> tsNTAG424 h) of
         None \<Rightarrow> (Inl (unsupported_here ''NTAG424'' ''NTAG 424 operations are not supported here''), log, w)
       | Some with_tag \<Rightarrow> on_route ops t (\<lambda>h rt (log, w).
           let log = log @ [AuditNTAG424 (if ntag424_mutating (nqOp r) then AuditWarn else AuditInfo) (nqOp r)
                              (rtDevice rt) (rtUID rt)]
           in case with_tag (rtDevice rt) (rtUID rt) run w of
                (Inl e, w) \<Rightarrow> (Inl (ntag424_failure e (rtDevice rt) (nqOp r)), log, w)
              | (Inr out, w) \<Rightarrow> (Inr out, log, w)) (log, w)))"

end
