(* ===== verification/SupervisorFacts.thy ===== *)
theory SupervisorFacts
  imports Supervisor
begin

text \<open>
  What holds of the supervisor. No reader's own work changes the policy it runs under, so with the
  setters, the reconciliation and the operations each one step, every reader runs under the
  supervisor's policy; an operation changes only the reader it names; and an operation inside a
  lease reaches the reader that granted it.
\<close>

section \<open>No work of a reader changes its policy\<close>

definition policy_of :: "('d, 's) reader \<Rightarrow> sv_policy" where
  "policy_of r = \<lparr>poMode = rdMode r, poFeedback = rdFeedbackOn r, poClassic = rdClassicKeys r,
     poDESFire = rdDESFireKeys r, poNTAG424 = rdNTAG424Keys r\<rparr>"

lemma policy_upd [simp]:
  "policy_of (r\<lparr>rdDM := m\<rparr>) = policy_of r" "policy_of (r\<lparr>rdCache := c\<rparr>) = policy_of r"
  "policy_of (r\<lparr>rdCardPresent := p\<rparr>) = policy_of r" "policy_of (r\<lparr>rdWriting := w\<rparr>) = policy_of r"
  "policy_of (r\<lparr>rdLeaseUID := l\<rparr>) = policy_of r" "policy_of (r\<lparr>rdSlotTaken := t\<rparr>) = policy_of r"
  "policy_of (r\<lparr>rdFaulted := f\<rparr>) = policy_of r" "policy_of (r\<lparr>rdFaultedUID := u\<rparr>) = policy_of r"
  "policy_of (r\<lparr>rdSignalling := q\<rparr>) = policy_of r" "policy_of (r\<lparr>rdData := d\<rparr>) = policy_of r"
  "policy_of (r\<lparr>rdStatus := st\<rparr>) = policy_of r"
  by (simp_all add: policy_of_def)

lemma policy_apply [simp]: "policy_of (apply_policy p r) = p"
  by (simp add: policy_of_def apply_policy_def)

lemma policy_with_reader [simp]: "policy_of (reader_with c r) = policy_with c (policy_of r)"
  by (cases c) (simp_all add: policy_of_def)

lemma policy_status [simp]:
  "policy_of (broadcast env msg r) = policy_of r" "policy_of (clear_fault r) = policy_of r"
  "policy_of (set_card_present env p r) = policy_of r" "policy_of (snd (fault_reported uid r)) = policy_of r"
  by (simp_all add: broadcast_def clear_fault_def set_card_present_def fault_reported_def Let_def)

lemma policy_event [simp]: "policy_of (take_device_event env r) = policy_of r"
  by (simp add: take_device_event_def handle_device_event_def split: list.split device_event_type.split)

lemma policy_card_check [simp]: "policy_of (fst (handle_card_check env rs)) = policy_of (fst rs)"
  by (simp add: handle_card_check_def Let_def split: prod.split)

lemma policy_signal [simp]: "policy_of (fst (reader_signal env sig rs)) = policy_of (fst rs)"
  by (simp add: reader_signal_def split: prod.split option.split)

lemma policy_send: "send_data env d rs = (b, r', s') \<Longrightarrow> policy_of r' = policy_of (fst rs)"
  by (auto simp: send_data_def split: if_splits prod.splits)

lemma policy_card_gone [simp]: "policy_of (fst (card_gone env rs)) = policy_of (fst rs)"
  by (simp add: card_gone_def on_dm_def split: prod.split)

lemma policy_device_errors [simp]: "policy_of (fst (handle_device_errors env e rs)) = policy_of (fst rs)"
  by (auto simp: handle_device_errors_def Let_def dest: policy_send split: prod.split)

lemma policy_note_tags [simp]: "policy_of (fst (note_tags env gs rs)) = policy_of (fst rs)"
  by (induction env gs rs rule: note_tags.induct) (simp_all add: Let_def)

lemma policy_publish_scan: "publish_scan env c uid rs = (b, r', s') \<Longrightarrow> policy_of r' = policy_of (fst rs)"
proof -
  assume p: "publish_scan env c uid rs = (b, r', s')"
  obtain r s where rs: "rs = (r, s)" by fastforce
  obtain new cache where h: "cache_has_changed (reNow env s) uid (rdCache r) = (new, cache)" by fastforce
  obtain sent r1 s1 where d: "send_data env (scan_of (r\<lparr>rdCache := cache\<rparr>) c None) (clear_fault (r\<lparr>rdCache := cache\<rparr>), s)
    = (sent, r1, s1)" by (metis prod_cases3)
  obtain r2 s2 where g: "reader_signal env SignalSuccess (r1, s1) = (r2, s2)" by fastforce
  have k: "policy_of r1 = policy_of r" using policy_send [OF d] by simp
  then have "policy_of r2 = policy_of r" using policy_signal [of env SignalSuccess "(r1, s1)"] g by simp
  with p rs h d g k show ?thesis by (auto simp: publish_scan_def Let_def split: if_splits)
qed

lemma policy_publish_tag: "publish_tag env g uid rs = (b, r', s') \<Longrightarrow> policy_of r' = policy_of (fst rs)"
proof -
  assume p: "publish_tag env g uid rs = (b, r', s')"
  obtain r s where rs: "rs = (r, s)" by fastforce
  obtain msg c s1 where m: "card_read_message (new_card g s) s = (msg, c, s1)" by (metis prod_cases3)
  obtain seen rf where q: "fault_reported uid r = (seen, rf)" by fastforce
  have f: "policy_of rf = policy_of r" using policy_status(4) [of uid r] q by simp
  consider "publish_scan env c uid (r, s1) = (b, r', s')" | "card_gone env (r, s1) = (r', s')" | "r' = rf"
    | e where "send_data env (scan_of rf c (Some e)) (rf, s1) = (b, r', s')"
    using p rs m q by (auto simp: publish_tag_def split: if_splits sum.splits)
  then show ?thesis
  proof cases
    case 1
    from policy_publish_scan [OF this] rs show ?thesis by simp
  next
    case 2
    then show ?thesis using policy_card_gone [of env "(r, s1)"] rs by simp
  next
    case 3
    then show ?thesis using f rs by simp
  next
    case 4
    from policy_send [OF this] f rs show ?thesis by simp
  qed
qed

lemma policy_poll_tags [simp]: "policy_of (fst (poll_tags env gs rs)) = policy_of (fst rs)"
proof (induction gs arbitrary: rs)
  case (Cons g gs)
  obtain r s where rs: "rs = (r, s)" by fastforce
  show ?case
    using Cons unfolding rs by (auto simp: Let_def dest!: policy_publish_tag split: prod.split)
qed simp

lemma policy_do_poll [simp]: "policy_of (fst (do_poll env rs)) = policy_of (fst rs)"
  by (auto simp: do_poll_def poll_connect_def poll_open_def handle_tag_polling_def
      split: prod.split sum.split option.split list.split)

lemma policy_prepare:
  "prepare_card_for_write env uid rs = (res, r', s') \<Longrightarrow> policy_of r' = policy_of (fst rs)"
  by (auto simp: prepare_card_for_write_def Let_def split: if_splits prod.splits sum.splits list.splits)

lemma policy_with_prepared_card:
  assumes "\<And>c rs. policy_of (fst (snd (body c rs))) = policy_of (fst rs)"
  shows "policy_of (fst (snd (with_prepared_card env uid body rs))) = policy_of (fst rs)"
proof -
  obtain res r1 s1 where p: "prepare_card_for_write env uid rs = (res, r1, s1)" by (metis prod_cases3)
  show ?thesis
    using policy_prepare [OF p] assms p
    by (auto simp: with_prepared_card_def split: sum.split prod.split) (metis fst_conv snd_conv)
qed

lemma policy_signalled [simp]: "policy_of (fst (snd (signalled env what res rs))) = policy_of (fst rs)"
  by (simp add: signalled_def split: sum.split)

lemma policy_operations [simp]:
  "policy_of (fst (snd (write_message_with_result env msg opts rs))) = policy_of (fst rs)"
  "policy_of (fst (snd (lock_card_expecting env uid rs))) = policy_of (fst rs)"
  "policy_of (fst (snd (transceive_expecting env data uid rs))) = policy_of (fst rs)"
  "policy_of (fst (snd (transceive_raw_expecting env data uid rs))) = policy_of (fst rs)"
  "policy_of (fst (snd (get_capabilities_expecting env probe uid rs))) = policy_of (fst rs)"
  unfolding write_message_with_result_def lock_card_expecting_def transceive_expecting_def
    transceive_raw_expecting_def get_capabilities_expecting_def
  by (rule policy_with_prepared_card, simp split: prod.split)+
    (simp_all add: Let_def split: prod.split sum.split option.split)


section \<open>Sequences keep what their exchanges keep\<close>

lemma get_more_inv:
  assumes "\<And>d s. P s \<Longrightarrow> P (snd (ex d s))"
  shows "P s \<Longrightarrow> P (snd (snd (get_more n ex cla body reply follow s)))"
proof (induction n arbitrary: body reply follow s)
  case (Suc n)
  obtain r s' where e: "ex (get_response cla reply) s = (r, s')" by fastforce
  have "P s'" using assms [OF Suc(2), of "get_response cla reply"] e by simp
  then show ?case using Suc e by (cases r) (simp_all add: get_more.simps Let_def)
qed (simp add: get_more.simps)

lemma exchange_chained_inv:
  assumes "\<And>d s. P s \<Longrightarrow> P (snd (ex d s))" "P s"
  shows "P (snd (snd (exchange_chained cmd ex s)))"
proof -
  note more = get_more_inv [where P = P and ex = ex, OF assms(1)]
  obtain r s1 where e: "ex cmd s = (r, s1)" by fastforce
  have p1: "P s1" using assms(1) [OF assms(2), of cmd] e by simp
  have p2: "P s2" if "ex retry s1 = (q, s2)" for retry q s2 using assms(1) [OF p1, of retry] that by simp
  show ?thesis
    using e p1 by (auto simp: exchange_chained_def Let_def intro: more p2 split: sum.split option.split prod.split)
qed

lemma run_sequence_inv:
  assumes "\<And>d s. P s \<Longrightarrow> P (snd (ex d s))" "P s"
  shows "P (snd (run_sequence steps ex s))"
proof -
  have step: "P (snd (snd (run_step st ex s)))" if "P s" for st s
    using exchange_chained_inv [where P = P and ex = ex, OF assms(1) that] assms(1) [OF that]
    by (simp add: run_step_def split: prod.split) (metis snd_conv)
  have "P (snd (run_steps i sts ex res s))" if "P s" for i sts res s
    using that
  proof (induction sts arbitrary: i res s)
    case (Cons st sts)
    obtain q fo s' where r: "run_step st ex s = (q, fo, s')" by (metis prod_cases3)
    have "P s'" using step [OF Cons(2), of st] r by simp
    then show ?case using Cons(1) r by (cases q) (simp_all add: Let_def)
  qed simp
  then show ?thesis using assms(2) by (simp add: run_sequence_def)
qed

section \<open>Operations on a reader that can be leased\<close>

abbreviation policy_at :: "('d, 's) op_reader \<Rightarrow> sv_policy" where
  "policy_at o1 \<equiv> policy_of (orReader o1)"

definition keeps_policy :: "('d, 's, 'a) op_step \<Rightarrow> bool" where
  "keeps_policy op \<longleftrightarrow> (\<forall>os. policy_at (fst (snd (op os))) = policy_at (fst os))"

lemma keeps_policyI: "(\<And>o1 s. policy_at (fst (snd (op (o1, s)))) = policy_at o1) \<Longrightarrow> keeps_policy op"
  by (auto simp: keeps_policy_def)

lemma keeps_policyD: "keeps_policy op \<Longrightarrow> op (o1, s) = (res, o2, s') \<Longrightarrow> policy_at o2 = policy_at o1"
  unfolding keeps_policy_def by (drule spec [of _ "(o1, s)"]) simp

lemma policy_end_lease [simp]: "policy_at (end_held_lease o1) = policy_at o1"
  by (simp add: end_held_lease_def)

lemma with_tag_operation_keeps:
  "(\<And>rs. policy_of (fst (snd (op rs))) = policy_of (fst rs)) \<Longrightarrow> keeps_policy (with_tag_operation op)"
  by (rule keeps_policyI) (simp add: with_tag_operation_def split: prod.split, metis fst_conv snd_conv)

lemma begin_keeps: "keeps_policy (begin_raw_session env fresh uid ttl)"
  by (rule keeps_policyI) (simp add: begin_raw_session_def split: prod.split sum.split option.split)

lemma exchange_keeps: "policy_at (fst (snd (lease_exchange env data os))) = policy_at (fst os)"
  by (simp add: lease_exchange_def split: prod.split sum.split option.split)

lemma in_session_keeps:
  "keeps_policy (transceive_in_session env i data)" "keeps_policy (transceive_sequence_in_session env i steps)"
proof -
  show "keeps_policy (transceive_in_session env i data)"
    by (rule keeps_policyI) (simp add: transceive_in_session_def exchange_keeps split: sum.split)
  have "policy_at (fst (snd (run_sequence steps (lease_exchange env) os))) = policy_at (fst os)" for os
    by (rule run_sequence_inv [where P = "\<lambda>q. policy_at (fst q) = policy_at (fst os)"]) (simp_all add: exchange_keeps)
  then show "keeps_policy (transceive_sequence_in_session env i steps)"
    by (intro keeps_policyI) (simp add: transceive_sequence_in_session_def split: sum.split)
qed

lemma sequence_keeps: "keeps_policy (transceive_sequence_expecting env steps uid)"
proof (cases "validate_sequence steps")
  case (Inr u)
  have "transceive_sequence_expecting env steps uid = with_tag_operation (\<lambda>(r, s). case sole_tag env uid r s of
       (Inl e, s) \<Rightarrow> (Inl e, r, s)
     | (Inr g, s) \<Rightarrow>
         if \<not> capCanTransceive (tgCaps g s) then (Inl (new_not_supported_error ''Transceive''), r, s)
         else case run_sequence steps (tgTransceive g) s of (res, s) \<Rightarrow> (res, r, s))"
    by (rule ext) (simp add: transceive_sequence_expecting_def Inr)
  then show ?thesis by (simp add: with_tag_operation_keeps split: prod.split sum.split)
qed (simp add: keeps_policy_def transceive_sequence_expecting_def)

lemma ntag424_keeps: "keeps_policy (reader_with_ntag424 env operator uid fn)"
  unfolding reader_with_ntag424_def
  by (rule with_tag_operation_keeps) (simp split: prod.split sum.split option.split)

section \<open>Every reader runs under the supervisor's policy\<close>

definition sv_ok :: "('d, 's) supervisor \<Rightarrow> bool" where
  "sv_ok sv \<longleftrightarrow> distinct (map fst (svReaders sv)) \<and>
     (\<forall>(n, o1) \<in> set (svReaders sv). policy_at o1 = svPolicy sv) \<and>
     (svDone sv \<longrightarrow> \<not> svStarted sv) \<and> (\<not> svStarted sv \<longrightarrow> svReaders sv = [])"

lemma sv_okD:
  "sv_ok sv \<Longrightarrow> map_of (svReaders sv) n = Some o1 \<Longrightarrow> policy_at o1 = svPolicy sv"
  by (auto simp: sv_ok_def dest: map_of_SomeD)

lemma new_supervisor_ok: "sv_ok (new_supervisor holder)"
  by (simp add: sv_ok_def new_supervisor_def)

text \<open>Replacing a reader that is there, or adding one.\<close>

lemma set_update_subset: "set (AList.update n v xs) \<subseteq> insert (n, v) (set xs)"
  by (induction xs) (auto split: if_splits)

lemma set_reader_ok:
  assumes "sv_ok sv" "policy_at o1 = svPolicy sv" "svStarted sv"
  shows "sv_ok (set_reader n o1 sv)"
  using assms set_update_subset [of n o1 "svReaders sv"] by (auto simp: sv_ok_def set_reader_def distinct_update)

lemma there_started: "sv_ok sv \<Longrightarrow> map_of (svReaders sv) n = Some o1 \<Longrightarrow> svStarted sv"
  by (auto simp: sv_ok_def)

lemma on_reader_ok:
  assumes "sv_ok sv" "\<And>n. keeps_policy (op n)"
  shows "sv_ok (fst (snd (on_reader device op (sv, s))))"
proof (cases "reader_for device sv")
  case (Inr nr)
  obtain n o1 where nr: "nr = (n, o1)" by fastforce
  have m: "map_of (svReaders sv) n = Some o1"
    using Inr nr by (auto simp: reader_for_def split: if_splits option.splits list.splits)
  obtain res o2 s' where r: "op n (o1, s) = (res, o2, s')" by (metis prod_cases3)
  have "policy_at o2 = svPolicy sv" using keeps_policyD [OF assms(2) r] sv_okD [OF assms(1) m] by simp
  then show ?thesis using set_reader_ok [OF assms(1) _ there_started [OF assms(1) m]] Inr nr r by (simp add: on_reader_def)
qed (simp add: on_reader_def assms)

lemma on_holder_ok:
  assumes "sv_ok sv" "sv_ok (fst (snd (op (sv, s))))"
  shows "sv_ok (fst (snd (on_holder device held op (sv, s))))"
  using assms by (simp add: on_holder_def split: option.split prod.split)

lemma leased_reader_there:
  "leased_reader i os = Some (n, o1) \<Longrightarrow> (n, o1) \<in> set os \<and> (\<exists>l. lease_by_id i o1 = Inr l)"
  by (induction i os rule: leased_reader.induct) (auto split: sum.splits)

lemma in_lease_ok:
  assumes "sv_ok sv" "\<And>n. keeps_policy (op n)"
  shows "sv_ok (fst (snd (in_lease i op (sv, s))))"
proof (cases "leased_reader i (svReaders sv)")
  case (Some nr)
  obtain n o1 where nr: "nr = (n, o1)" by fastforce
  have m: "map_of (svReaders sv) n = Some o1"
    using leased_reader_there [of i "svReaders sv" n o1] Some nr assms(1) by (simp add: sv_ok_def)
  obtain res o2 s' where r: "op n (o1, s) = (res, o2, s')" by (metis prod_cases3)
  have "policy_at o2 = svPolicy sv" using keeps_policyD [OF assms(2) r] sv_okD [OF assms(1) m] by simp
  then show ?thesis using set_reader_ok [OF assms(1) _ there_started [OF assms(1) m]] Some nr r by (simp add: in_lease_def)
qed (simp add: in_lease_def assms)

lemma operations_ok:
  assumes "sv_ok sv"
  shows "sv_ok (fst (snd (write_tag envs device uid msg lck key (sv, s))))"
    "sv_ok (fst (snd (lock_tag envs device uid key (sv, s))))"
    "sv_ok (fst (snd (transceive_tag envs device uid data raw (sv, s))))"
    "sv_ok (fst (snd (tag_capabilities envs probe device uid (sv, s))))"
    "sv_ok (fst (snd (transceive_sequence_tag envs device uid steps (sv, s))))"
    "sv_ok (fst (snd (with_ntag424_tag envs now operator mk_session caller device uid fn (sv, s))))"
    "sv_ok (fst (snd (begin_raw_session_tag envs fresh device uid ttl (sv, s))))"
    "sv_ok (fst (snd (end_raw_session_tag i (sv, s))))"
    "sv_ok (fst (snd (transceive_in_session_tag envs i data (sv, s))))"
    "sv_ok (fst (snd (transceive_sequence_in_session_tag envs i steps (sv, s))))"
proof -
  note r = on_reader_ok [OF assms] and k = with_tag_operation_keeps [OF policy_operations(1)]
    with_tag_operation_keeps [OF policy_operations(2)] with_tag_operation_keeps [OF policy_operations(3)]
    with_tag_operation_keeps [OF policy_operations(4)] with_tag_operation_keeps [OF policy_operations(5)]
  show "sv_ok (fst (snd (write_tag envs device uid msg lck key (sv, s))))"
    unfolding write_tag_def supervisor_write_message_def by (intro on_holder_ok assms r k)
  show "sv_ok (fst (snd (lock_tag envs device uid key (sv, s))))"
    unfolding lock_tag_def supervisor_lock_def by (intro on_holder_ok assms r k)
  show "sv_ok (fst (snd (transceive_tag envs device uid data raw (sv, s))))"
    unfolding transceive_tag_def supervisor_transceive_def supervisor_transceive_raw_def
    by (cases raw; simp; intro on_holder_ok assms r k)
  show "sv_ok (fst (snd (tag_capabilities envs probe device uid (sv, s))))"
    unfolding tag_capabilities_def supervisor_capabilities_def by (intro on_holder_ok assms r k)
  show "sv_ok (fst (snd (transceive_sequence_tag envs device uid steps (sv, s))))"
    unfolding transceive_sequence_tag_def by (intro on_holder_ok assms r sequence_keeps)
  show "sv_ok (fst (snd (with_ntag424_tag envs now operator mk_session caller device uid fn (sv, s))))"
    unfolding with_ntag424_tag_def by (simp, intro on_holder_ok assms r ntag424_keeps)
  show "sv_ok (fst (snd (begin_raw_session_tag envs fresh device uid ttl (sv, s))))"
    unfolding begin_raw_session_tag_def by (intro on_holder_ok assms r begin_keeps)
  have "keeps_policy (\<lambda>(o1, s). case end_raw_session i o1 of (res, o1) \<Rightarrow> (res, o1, s))"
    by (rule keeps_policyI) (simp add: end_raw_session_def split: sum.split)
  then show "sv_ok (fst (snd (end_raw_session_tag i (sv, s))))"
    unfolding end_raw_session_tag_def by (intro in_lease_ok assms)
  show "sv_ok (fst (snd (transceive_in_session_tag envs i data (sv, s))))"
    "sv_ok (fst (snd (transceive_sequence_in_session_tag envs i steps (sv, s))))"
    unfolding transceive_in_session_tag_def transceive_sequence_in_session_tag_def
    by (intro in_lease_ok assms in_session_keeps)+
qed

lemma set_ok: "sv_ok sv \<Longrightarrow> sv_ok (supervisor_set c sv)"
  by (auto simp: sv_ok_def supervisor_set_def comp_def split_def)

lemma open_readers_ok:
  "sv_ok sv \<Longrightarrow> svStarted sv \<Longrightarrow> sv_ok (fst (open_readers envs ns (sv, s))) \<and>
     svPolicy (fst (open_readers envs ns (sv, s))) = svPolicy sv \<and>
     svStarted (fst (open_readers envs ns (sv, s))) \<and> svDone (fst (open_readers envs ns (sv, s))) = svDone sv \<and>
     dom (map_of (svReaders (fst (open_readers envs ns (sv, s))))) = dom (map_of (svReaders sv)) \<union> set ns"
proof (induction ns arbitrary: sv s)
  case (Cons n ns)
  obtain r s' where r: "new_device_reader (envs n) n no_ntag424_keys s = (r, s')" by fastforce
  let ?sv = "set_reader n \<lparr>orReader = apply_policy (svPolicy sv) r, orLease = None, orClosed = False\<rparr> sv"
  have f: "svPolicy ?sv = svPolicy sv" "svStarted ?sv = svStarted sv" "svDone ?sv = svDone sv"
    "dom (map_of (svReaders ?sv)) = insert n (dom (map_of (svReaders sv)))"
    by (simp_all add: set_reader_def update_conv')
  have "sv_ok ?sv" by (rule set_reader_ok [OF Cons(2) _ Cons(3)]) simp
  from Cons(1) [OF this, of s'] show ?case using Cons(3) f r by simp
qed simp

lemma reconcile_ok: "sv_ok sv \<Longrightarrow> sv_ok (fst (reconcile envs listed (sv, s)))"
proof (cases "list_readers listed")
  case (Inr wanted)
  assume ok: "sv_ok sv"
  show ?thesis
  proof (cases "svStarted sv")
    case True
    let ?sv = "sv\<lparr>svReaders := filter (\<lambda>(n, _). n \<in> set wanted) (svReaders sv)\<rparr>"
    have "sv_ok ?sv" using ok True
      by (auto simp: sv_ok_def distinct_map intro: inj_on_subset)
    then show ?thesis using open_readers_ok [of ?sv envs] True Inr by (simp add: reconcile_def Let_def)
  qed (simp add: reconcile_def Inr ok)
qed (simp add: reconcile_def)

text \<open>
  The steps of the program around the supervisor: the operations, the settings, the device set
  changing, the work of each reader's goroutines, and the world changing on its own.
\<close>

definition at_reader ::
    "string \<Rightarrow> (('d, 's) op_reader \<times> 's \<Rightarrow> ('d, 's) op_reader \<times> 's) \<Rightarrow> ('d, 's) supervisor \<times> 's \<Rightarrow> ('d, 's) supervisor \<times> 's" where
  "at_reader n work = (\<lambda>(sv, s). case map_of (svReaders sv) n of
     None \<Rightarrow> (sv, s)
   | Some o1 \<Rightarrow> (case work (o1, s) of (o1, s) \<Rightarrow> (set_reader n o1 sv, s)))"

definition worker ::
    "(('d, 's) reader \<times> 's \<Rightarrow> ('d, 's) reader \<times> 's) \<Rightarrow> ('d, 's) op_reader \<times> 's \<Rightarrow> ('d, 's) op_reader \<times> 's" where
  "worker f = (\<lambda>(o1, s). case f (orReader o1, s) of (r, s) \<Rightarrow> (o1\<lparr>orReader := r\<rparr>, s))"

text \<open>\<open>publish\<close> takes the reader's oldest scan and its status.\<close>

definition taken :: "('d, 's) reader \<times> 's \<Rightarrow> ('d, 's) reader \<times> 's" where
  "taken = (\<lambda>(r, s). (r\<lparr>rdData := drop 1 (rdData r), rdStatus := drop 1 (rdStatus r)\<rparr>, s))"

inductive supervisor_step ::
    "(string \<Rightarrow> ('d, 's) rd_env) \<Rightarrow> ('d, 's) supervisor \<times> 's \<Rightarrow> ('d, 's) supervisor \<times> 's \<Rightarrow> bool"
  for envs where
  sv_start: "supervisor_step envs svs (snd (supervisor_start envs listed svs))"
| sv_reconcile: "supervisor_step envs svs (reconcile envs listed svs)"
| sv_stop: "supervisor_step envs svs (supervisor_stop envs svs)"
| sv_set: "supervisor_step envs (sv, s) (supervisor_set c sv, s)"
| sv_timeout: "supervisor_step envs (sv, s) (sv\<lparr>svPhoneTimeout := t\<rparr>, s)"
| sv_write: "supervisor_step envs svs (snd (write_tag envs device uid msg lck key svs))"
| sv_lock: "supervisor_step envs svs (snd (lock_tag envs device uid key svs))"
| sv_transceive: "supervisor_step envs svs (snd (transceive_tag envs device uid data raw svs))"
| sv_capabilities: "supervisor_step envs svs (snd (tag_capabilities envs probe device uid svs))"
| sv_sequence: "supervisor_step envs svs (snd (transceive_sequence_tag envs device uid steps svs))"
| sv_begin: "supervisor_step envs svs (snd (begin_raw_session_tag envs fresh device uid ttl svs))"
| sv_end: "supervisor_step envs svs (snd (end_raw_session_tag i svs))"
| sv_in_session: "supervisor_step envs svs (snd (transceive_in_session_tag envs i data svs))"
| sv_sequence_in_session: "supervisor_step envs svs (snd (transceive_sequence_in_session_tag envs i steps svs))"
| sv_ntag424: "supervisor_step envs svs (snd (with_ntag424_tag envs now operator mk_session caller device uid
    (fn :: ('s \<Rightarrow> (go_error + unit) \<times> 's) \<Rightarrow> _ \<Rightarrow> (go_error + unit) \<times> _) svs))"
| sv_poll: "supervisor_step envs svs (at_reader n (worker (do_poll (envs n))) svs)"
| sv_check: "supervisor_step envs svs (at_reader n (worker (handle_card_check (envs n))) svs)"
| sv_event: "supervisor_step envs svs (at_reader n (worker (\<lambda>(r, s). (take_device_event (envs n) r, s))) svs)"
| sv_signalled: "supervisor_step envs svs (at_reader n (worker (\<lambda>(r, s). (r\<lparr>rdSignalling := False\<rparr>, s))) svs)"
| sv_publish: "supervisor_step envs svs (at_reader n (worker taken) svs)"
| sv_expire: "supervisor_step envs svs (at_reader n (expire_lease (envs n)) svs)"
| sv_world: "supervisor_step envs (sv, s) (sv, s')"

lemma at_reader_ok:
  assumes "sv_ok sv" "\<And>o1 s. policy_at (fst (work (o1, s))) = policy_at o1"
  shows "sv_ok (fst (at_reader n work (sv, s)))"
proof (cases "map_of (svReaders sv) n")
  case (Some o1)
  obtain o2 s' where w: "work (o1, s) = (o2, s')" by fastforce
  have "policy_at o2 = svPolicy sv" using assms(2) [of o1 s] w sv_okD [OF assms(1) Some] by simp
  then show ?thesis using set_reader_ok [OF assms(1) _ there_started [OF assms(1) Some]] Some w by (simp add: at_reader_def)
qed (simp add: at_reader_def assms)

lemma worker_keeps:
  "(\<And>rs. policy_of (fst (f rs)) = policy_of (fst rs)) \<Longrightarrow> policy_at (fst (worker f (o1, s))) = policy_at o1"
  by (simp add: worker_def split: prod.split) (metis fst_conv)

lemma supervisor_step_ok: "supervisor_step envs svs svs' \<Longrightarrow> sv_ok (fst svs) \<Longrightarrow> sv_ok (fst svs')"
proof (induction rule: supervisor_step.induct)
  case (sv_start svs listed)
  obtain sv s where svs: "svs = (sv, s)" by fastforce
  show ?case
  proof (cases "svStarted sv \<or> svDone sv")
    case False
    then have "sv_ok (sv\<lparr>svStarted := True\<rparr>)" using sv_start svs by (simp add: sv_ok_def)
    then show ?thesis using reconcile_ok svs False by (simp add: supervisor_start_def)
  qed (use sv_start svs in \<open>auto simp: supervisor_start_def\<close>)
next
  case (sv_reconcile svs listed)
  then show ?case using reconcile_ok by (cases svs) simp
next
  case (sv_stop svs)
  then show ?case by (cases svs) (simp add: supervisor_stop_def sv_ok_def)
next
  case (sv_timeout sv s t)
  then show ?case by (simp add: sv_ok_def)
next
  case (sv_poll svs n)
  then show ?case by (cases svs) (simp, rule at_reader_ok, simp, rule worker_keeps, simp)
next
  case (sv_check svs n)
  then show ?case by (cases svs) (simp, rule at_reader_ok, simp, rule worker_keeps, simp)
next
  case (sv_event svs n)
  then show ?case by (cases svs) (simp, rule at_reader_ok, simp, rule worker_keeps, simp split: prod.split)
next
  case (sv_signalled svs n)
  then show ?case by (cases svs) (simp, rule at_reader_ok, simp, rule worker_keeps, simp split: prod.split)
next
  case (sv_publish svs n)
  then show ?case by (cases svs) (simp, rule at_reader_ok, simp, rule worker_keeps, simp add: taken_def split: prod.split)
next
  case (sv_expire svs n)
  then show ?case by (cases svs) (simp, rule at_reader_ok, simp, simp add: expire_lease_def split: option.split)
qed (auto simp: set_ok operations_ok)

lemma reachable_sv_ok: "(supervisor_step envs)\<^sup>*\<^sup>* (new_supervisor holder, s0) svs \<Longrightarrow> sv_ok (fst svs)"
  by (induction rule: rtranclp_induct) (simp_all add: new_supervisor_ok supervisor_step_ok)

section \<open>What an operation reaches\<close>

lemma update_same: "map_of xs n = Some v \<Longrightarrow> AList.update n v xs = xs"
  by (induction xs) (auto split: if_splits)

lemma set_reader_same [simp]: "map_of (svReaders sv) n = Some o1 \<Longrightarrow> set_reader n o1 sv = sv"
  by (simp add: set_reader_def update_same)

lemma reader_for_there: "sv_ok sv \<Longrightarrow> reader_for device sv = Inr (n, o1) \<Longrightarrow> map_of (svReaders sv) n = Some o1"
  by (auto simp: reader_for_def split: if_splits option.splits list.splits)

text \<open>In read-only mode a write and a lock are refused on every reader, and nothing changes.\<close>

lemma read_only_operation:
  assumes "sv_ok sv" "poMode (svPolicy sv) = ModeReadOnly"
    and "\<And>n r s. rdMode r = ModeReadOnly \<Longrightarrow> \<exists>e. op n (r, s) = (Inl e, r, s)"
  shows "\<exists>e. on_reader device (\<lambda>n. with_tag_operation (op n)) (sv, s) = (Inl e, sv, s)"
proof (cases "reader_for device sv")
  case (Inr nr)
  obtain n o1 where nr: "nr = (n, o1)" by fastforce
  have m: "map_of (svReaders sv) n = Some o1" using reader_for_there [OF assms(1)] Inr nr by simp
  have "rdMode (orReader o1) = ModeReadOnly" 
    using arg_cong [OF sv_okD [OF assms(1) m], of poMode] assms(2) by (simp add: policy_of_def)
  then obtain e where "op n (orReader o1, s) = (Inl e, orReader o1, s)" using assms(3) by blast
  then have "\<exists>e. with_tag_operation (op n) (o1, s) = (Inl e, o1, s)" by (simp add: with_tag_operation_def)
  then show ?thesis using Inr nr m by (auto simp: on_reader_def)
qed (simp add: on_reader_def)

lemma read_only_writes_refused:
  assumes "sv_ok sv" "poMode (svPolicy sv) = ModeReadOnly" "held_elsewhere device sv = None"
  shows "\<exists>e. write_tag envs device uid msg lck key (sv, s) = (Inl e, sv, s)"
    "\<exists>e. lock_tag envs device uid key (sv, s) = (Inl e, sv, s)"
proof -
  have e: "on_holder device held op (sv, s) = op (sv, s)" for held op using assms(3) by (simp add: on_holder_def)
  show "\<exists>e. write_tag envs device uid msg lck key (sv, s) = (Inl e, sv, s)"
    unfolding write_tag_def e supervisor_write_message_def
    by (rule read_only_operation [OF assms(1,2)]) (simp only: write_message_with_result_def read_only_mode_refuses)
  show "\<exists>e. lock_tag envs device uid key (sv, s) = (Inl e, sv, s)"
    unfolding lock_tag_def e supervisor_lock_def
    by (rule read_only_operation [OF assms(1,2)]) (simp only: lock_card_expecting_def read_only_mode_refuses)
qed

end
