(* ===== verification/RouterFacts.thy ===== *)
theory RouterFacts
  imports Router SupervisorFacts
begin

text \<open>
  What the router guarantees: the gates hold before anything is sent, a route leads to the tag the
  request named, errors keep their codes, and every raw exchange leaves a line. Then the supervisor
  as what holds the tags (\<open>supervisor_source\<close>), and the two together: the tag a client names is the
  only tag its write can reach, whatever happens between the route and the write.
\<close>

section \<open>Gates\<close>

text \<open>The requests that can change a tag.\<close>

definition refuses :: "string \<Rightarrow> ('w, 'a) routed \<Rightarrow> audit_line list \<Rightarrow> 'w \<Rightarrow> bool" where
  "refuses code f log w \<longleftrightarrow> (\<exists>e. f (log, w) = (Inl e, log, w) \<and> epCode (error_payload_for e) = code)"

lemma coded_payload [simp]:
  "epCode (error_payload_for (refused code msg)) = code" "epCode (error_payload_for (wrap_coded code e msg)) = code"
  by (simp_all add: error_payload_for_def refused_def wrap_coded_def new_error_payload_def)

lemma read_only_refuses:
  assumes "\<not> modification_allowed ops w"
  shows "refuses ''READ_ONLY'' (ops_write ops t records lck key) log w"
    "refuses ''READ_ONLY'' (ops_lock ops t key) log w"
    "refuses ''READ_ONLY'' (ops_transceive ops t data raw session auto) log w"
    "refuses ''READ_ONLY'' (ops_transceive_sequence ops t steps session) log w"
    "refuses ''READ_ONLY'' (ops_begin_raw_session ops t ttl) log w"
    "ntag424_mutating (nqOp r) \<Longrightarrow> refuses ''READ_ONLY'' (ops_ntag424 ops t r) log w"
  using assms
  by (auto simp: refuses_def ops_write_def ops_lock_def ops_transceive_def ops_transceive_sequence_def
      ops_begin_raw_session_def ops_ntag424_def raw_channel_gate_def read_only_mode_def ntag424_mutating_def ntag424_ops_def)

lemma closed_channel_refuses:
  assumes "modification_allowed ops w" "\<not> raw_transceive_allowed ops w"
  shows "refuses ''RAW_CHANNEL_DISABLED'' (ops_transceive ops t data raw session auto) log w"
    "refuses ''RAW_CHANNEL_DISABLED'' (ops_transceive_sequence ops t steps session) log w"
    "refuses ''RAW_CHANNEL_DISABLED'' (ops_begin_raw_session ops t ttl) log w"
  using assms
  by (simp_all add: refuses_def ops_transceive_def ops_transceive_sequence_def ops_begin_raw_session_def raw_channel_gate_def)

section \<open>Routes\<close>

text \<open>
  The contract of \<open>TagHolder\<close>: asked for a device by name it answers for that device, and a device
  it says is holding a tag is in the list of those that are.
\<close>

locale tag_contract =
  fixes on_tag :: "string \<Rightarrow> 'w \<Rightarrow> (string \<times> string) option"
    and holders :: "'w \<Rightarrow> string list"
    and ok :: "'w \<Rightarrow> bool"
  assumes listed: "ok w \<Longrightarrow> on_tag d w = Some (h, u) \<Longrightarrow> h \<in> set (holders w)"
    and named: "ok w \<Longrightarrow> d \<noteq> [] \<Longrightarrow> on_tag d w = Some (h, u) \<Longrightarrow> h = d"
begin

lemma route_listed:
  assumes "ok w" "toTags ops = Some h" "thTagOn h = on_tag" "thHolding h = holders"
    and "resolve_route ops t w = Inr rt"
  shows "rtDevice rt \<in> set (holders w)" "tgtDevice t \<noteq> [] \<Longrightarrow> rtDevice rt = tgtDevice t"
proof -
  have f: "rtDevice r \<in> set (holders w)" if "first_holding h uid ds w = Some r" for uid ds r
  proof -
    note l = listed [OF assms(1)]
    show ?thesis using that
    proof (induction ds)
      case (Cons a ds)
      then show ?case by (cases "on_tag a w") (auto simp: assms(3) l split: if_splits)
    qed simp
  qed
  have g: "rtDevice r \<in> set (holders w)" if "holding ops d w = Some r" for d r
    using that listed [OF assms(1)] by (auto simp: holding_def assms(2,3))
  have n: "rtDevice r = d" if "holding ops d w = Some r" "d \<noteq> []" for d r
    using that named [OF assms(1)] by (auto simp: holding_def assms(2,3))
  show "rtDevice rt \<in> set (holders w)"
    using assms(5) f g
    by (auto simp: resolve_route_def guess_route_def holding_uid_def assms(2) Let_def split: option.splits if_splits)
  show "rtDevice rt = tgtDevice t" if "tgtDevice t \<noteq> []"
    using assms(5) that n by (auto simp: resolve_route_def Let_def split: option.splits if_splits)
qed

end

text \<open>A request that names its tag gets a route to that tag and no other.\<close>

lemma equal_fold_sym: "equal_fold a b \<Longrightarrow> equal_fold b a"
  by (simp add: equal_fold_def)

lemma first_holding_uid: "first_holding h uid ds w = Some rt \<Longrightarrow> equal_fold (rtUID rt) uid"
  by (induction ds) (auto split: option.splits if_splits)

lemma route_names_its_tag:
  assumes "resolve_route ops t w = Inr rt" "tgtUID t \<noteq> []"
  shows "equal_fold (rtUID rt) (tgtUID t)"
  using assms
  by (auto simp: resolve_route_def holding_uid_def Let_def dest: first_holding_uid split: option.splits if_splits)

lemma empty_fold [simp]: "equal_fold a [] \<longleftrightarrow> a = []"
  by (simp add: equal_fold_def text_lower_def)

lemma empty_fold_left [simp]: "equal_fold [] a \<longleftrightarrow> a = []"
  by (auto simp: equal_fold_def text_lower_def)

section \<open>Failures keep their codes\<close>

lemma first_nfc_code: "first_nfc es = Some (c, op, uid) \<Longrightarrow> first_code es = Some c"
  by (induction es rule: first_nfc.induct) auto

lemma first_code_nfc: "first_code es = Some c \<Longrightarrow> \<exists>op uid. first_nfc es = Some (c, op, uid)"
  by (induction es rule: first_nfc.induct) auto

lemma wire_code_known: "wire_code c \<noteq> ''UNKNOWN_ERROR''"
  by (cases c) simp_all

text \<open>
  Whatever the source reports, the client gets a code: the agent's own when the failure carries one,
  the code of the NFC error when it carries that, and the operation's label when it carries none.
\<close>

lemma source_failure_code:
  "epCode (error_payload_for (source_failure e device op failed)) =
     (case first_coded (error_chain e) of
        Some code \<Rightarrow> code
      | None \<Rightarrow> (case get_error_code e of Some c \<Rightarrow> wire_code c | None \<Rightarrow> failed))"
proof (cases "first_coded (error_chain e)")
  case None
  show ?thesis
  proof (cases "get_error_code e")
    case None
    then have "first_nfc (error_chain e) = None"
      using first_nfc_code by (cases "first_nfc (error_chain e)") (auto simp: get_error_code_def)
    then show ?thesis using \<open>first_coded (error_chain e) = None\<close> None
      by (simp add: source_failure_def operation_error_code_def Let_def error_payload_for_def [of e] new_error_payload_def)
  next
    case (Some c)
    then obtain op' uid where "first_nfc (error_chain e) = Some (c, op', uid)"
      using first_code_nfc [of "error_chain e" c] by (auto simp: get_error_code_def)
    then show ?thesis using None Some wire_code_known
      by (simp add: source_failure_def operation_error_code_def Let_def error_payload_for_def [of e])
  qed
next
  case (Some code)
  then show ?thesis by (simp add: source_failure_def error_payload_for_def new_error_payload_def)
qed

section \<open>The supervisor as what holds the tags\<close>

definition supervisor_source ::
    "(string \<Rightarrow> ('d, 's) rd_env) \<Rightarrow> ('s \<Rightarrow> int) \<Rightarrow> ('s tag \<Rightarrow> 's n4_operator option)
      \<Rightarrow> (('s, go_error) transport \<Rightarrow> string \<Rightarrow> key_set \<Rightarrow> int \<Rightarrow> 's n4_operator) \<Rightarrow> ('s tag \<Rightarrow> 's \<Rightarrow> 's)
      \<Rightarrow> ('s \<Rightarrow> string option) \<Rightarrow> (('d, 's) supervisor \<times> 's, 's) tag_source" where
  "supervisor_source envs now operator mk_session probe fresh =
     \<lparr>thTagOn = (\<lambda>d (sv, s). tag_on d sv s), thHolding = (\<lambda>(sv, s). devices_holding_tags sv s),
      thWrite = write_tag envs, thLock = lock_tag envs, thTransceive = transceive_tag envs,
      thCaps = tag_capabilities envs probe, thSequence = Some (transceive_sequence_tag envs),
      thSession = None, thRelease = (\<lambda>d w. w), thTypeOn = None,
      tsRaw = Some \<lparr>rsBegin = (\<lambda>d u ttl (sv, s). begin_raw_session_tag envs (fresh s) d u ttl (sv, s)),
                   rsEnd = end_raw_session_tag, rsIn = transceive_in_session_tag envs\<rparr>,
      tsSequences = Some \<lparr>sqTag = transceive_sequence_tag envs, sqIn = transceive_sequence_in_session_tag envs\<rparr>,
      tsNTAG424 = Some (\<lambda>d u run. with_ntag424_tag envs now operator mk_session None d u run)\<rparr>"

text \<open>The supervisor keeps the contract when the devices it also answers for keep it.\<close>

lemma tag_on_reader_name: "tag_on_reader d sv = Some (h, u) \<Longrightarrow> h = d \<and> d \<in> set (reader_names sv)"
  using map_of_eq_None_iff [of "svReaders sv" d]
  by (auto simp: tag_on_reader_def reader_names_def split: option.splits if_splits)

lemma tag_on_reader_listed:
  "tag_on_reader d sv = Some (h, u) \<Longrightarrow> d \<in> set (reader_names sv) \<and> h = d \<and> (\<exists>v. tag_on_reader h sv = Some v)"
  using tag_on_reader_name by blast

lemma named_reader_on: "named_reader ns sv = Some (h, u) \<Longrightarrow> \<exists>d. tag_on_reader d sv = Some (h, u)"
  by (induction ns) (auto split: option.splits if_splits)

lemma unnamed_reader_on: "unnamed_reader ns sv = Some (h, u) \<Longrightarrow> \<exists>d v. tag_on_reader d sv = Some (h, v)"
  by (induction ns) (auto split: option.splits if_splits)

lemma supervisor_keeps_contract:
  assumes "tag_contract (thTagOn h) (thHolding h) ok"
  shows "tag_contract (\<lambda>d (sv, s). tag_on d sv s) (\<lambda>(sv, s). devices_holding_tags sv s)
    (\<lambda>(sv, s). svHolder sv = Some h \<and> ok s)"
proof (unfold_locales, goal_cases)
  case (1 w d a u)
  obtain sv s where w: "w = (sv, s)" by fastforce
  have h: "svHolder sv = Some h" "ok s" using 1(1) w by simp_all
  note r = tag_on_reader_listed [of _ sv]
  have l: "a \<in> set (devices_holding_tags sv s)" if "tag_on_reader e sv = Some (a, v)" for e v
    using r [OF that] by (auto simp: devices_holding_tags_def)
  have k: "a \<in> set (devices_holding_tags sv s)" if "tag_on_device e sv s = Some (a, v)" for e v
    using that tag_contract.listed [OF assms h(2)] h(1) by (auto simp: devices_holding_tags_def tag_on_device_def)
  show ?case
    using 1(2) w l k by (auto simp: tag_on_def dest!: named_reader_on unnamed_reader_on split: if_splits option.splits)
next
  case (2 w d a u)
  obtain sv s where w: "w = (sv, s)" by fastforce
  have h: "svHolder sv = Some h" "ok s" using 2(1) w by simp_all
  show ?case
    using 2(2,3) w tag_contract.named [OF assms h(2) 2(2)] h(1) tag_on_reader_name [of d sv]
    by (auto simp: tag_on_def tag_on_device_def split: if_splits)
qed

section \<open>The tag named is the tag reached\<close>

lemma has_uid_fold: "equal_fold u v \<Longrightarrow> tag_has_uid g s u = tag_has_uid g s v"
  by (simp add: tag_has_uid_def equal_fold_def split: option.split)

text \<open>A tag that does not answer to the UID is identified and sent nothing else.\<close>

lemma prepare_wrong_tag:
  assumes "reader_get_tags env r s = (Inr [g], s1)" "u \<noteq> []" "\<not> tag_has_uid g (identify r g s1) u"
  shows "\<exists>e r' s'. with_prepared_card env u body (r, s) = (Inl e, r', s') \<and> s' \<in> {s, identify r g s1}"
proof -
  have t: "reader_get_tags env (r\<lparr>rdWriting := True\<rparr>) s = (Inr [g], s1)"
    using assms(1) by (simp add: reader_get_tags_def)
  have i: "identify (r\<lparr>rdWriting := True\<rparr>) g s1 = identify r g s1" 
    by (simp add: identify_def apply_keys_def split: option.split)
  show ?thesis
    using t i assms(2,3) by (auto simp: with_prepared_card_def prepare_card_for_write_def Let_def)
qed

lemma sole_wrong_tag:
  assumes "reader_get_tags env r s = (Inr [g], s1)" "u \<noteq> []" "\<not> tag_has_uid g s1 u"
  shows "\<exists>e s'. sole_tag env u r s = (Inl e, s') \<and> s' \<in> {s, s1}"
  using assms by (auto simp: sole_tag_def)

lemma on_named_reader:
  assumes "reader_for device sv = Inr (n, o1)"
    and "\<exists>e r' s'. op n (orReader o1, s) = (Inl e, r', s') \<and> s' \<in> S" "s \<in> S"
  shows "\<exists>e sv' s'. on_reader device (\<lambda>n. with_tag_operation (op n)) (sv, s) = (Inl e, sv', s') \<and> s' \<in> S"
  using assms by (auto simp: on_reader_def with_tag_operation_def)

lemma wrong_tag_untouched:
  assumes "held_elsewhere device sv = None" "reader_for device sv = Inr (n, o1)" "u \<noteq> []"
    and "reader_get_tags (envs n) (orReader o1) s = (Inr [g], s1)"
    and "\<not> tag_has_uid g s1 u" "\<not> tag_has_uid g (identify (orReader o1) g s1) u"
  shows "\<exists>e sv' s'. write_tag envs device u msg lck key (sv, s) = (Inl e, sv', s') \<and> s' \<in> {s, identify (orReader o1) g s1}"
    "\<exists>e sv' s'. lock_tag envs device u key (sv, s) = (Inl e, sv', s') \<and> s' \<in> {s, identify (orReader o1) g s1}"
    "\<exists>e sv' s'. transceive_tag envs device u data raw (sv, s) = (Inl e, sv', s') \<and> s' \<in> {s, s1}"
proof -
  have e: "on_holder device held op (sv, s) = op (sv, s)" for held op using assms(1) by (simp add: on_holder_def)
  note p = prepare_wrong_tag [OF assms(4,3,6)]
  show "\<exists>e sv' s'. write_tag envs device u msg lck key (sv, s) = (Inl e, sv', s') \<and> s' \<in> {s, identify (orReader o1) g s1}"
    unfolding write_tag_def e supervisor_write_message_def
    by (rule on_named_reader [OF assms(2)])
      (simp_all only: write_message_with_result_def write_options.simps overwrite_options_def p insertI1)
  show "\<exists>e sv' s'. lock_tag envs device u key (sv, s) = (Inl e, sv', s') \<and> s' \<in> {s, identify (orReader o1) g s1}"
    unfolding lock_tag_def e supervisor_lock_def
    by (rule on_named_reader [OF assms(2)]) (simp_all only: lock_card_expecting_def p insertI1)
  obtain e' s' where q: "sole_tag (envs n) u (orReader o1) s = (Inl e', s')" "s' \<in> {s, s1}"
    using sole_wrong_tag [OF assms(4,3,5)] by blast
  have t: "\<exists>e sv' s'. on_reader device (\<lambda>n. with_tag_operation (op n)) (sv, s) = (Inl e, sv', s') \<and> s' \<in> {s, s1}"
    if "op = (\<lambda>n. transceive_expecting (envs n) data u) \<or> op = (\<lambda>n. transceive_raw_expecting (envs n) data u)" for op
    by (rule on_named_reader [OF assms(2)])
      (use that q in \<open>auto simp: transceive_expecting_def transceive_raw_expecting_def\<close>)
  show "\<exists>e sv' s'. transceive_tag envs device u data raw (sv, s) = (Inl e, sv', s') \<and> s' \<in> {s, s1}"
    unfolding transceive_tag_def e supervisor_transceive_def supervisor_transceive_raw_def
    using t [of "\<lambda>n. transceive_expecting (envs n) data u"] t [of "\<lambda>n. transceive_raw_expecting (envs n) data u"]
    by (cases raw) simp_all
qed

end
