(* ===== verification/MultiManager.thy ===== *)
theory MultiManager
  imports RemoteTags RouterFacts
begin

text \<open>
  The manager of managers, \<open>nfc/multimanager/multimanager.go\<close>: readers and phones behind one manager,
  and the stack the program builds (\<open>cmd/davi-nfc-agent/main.go\<close>): a supervisor over a multi-manager
  over the manager of phones. A manager is a value of the Go interfaces over the world.
\<close>

section \<open>Managers\<close>

record ('d, 'w) nfc_manager =
  nmOpen :: "string \<Rightarrow> 'w \<Rightarrow> (go_error + 'd) \<times> 'w"
  nmDevices :: "'w \<Rightarrow> go_error + device_listing list"
  nmHolder :: "'w tag_holder option"
  nmDisconnect :: "(string \<Rightarrow> string \<Rightarrow> 'w \<Rightarrow> bool \<times> 'w) option"

text \<open>The managers in the order they were given, and the last listing error reported of each.\<close>

record ('d, 'w) multi_manager =
  mmManagers :: "(string \<times> ('d, 'w) nfc_manager) list"
  mmListErr :: "string \<rightharpoonup> string"

fun register_entries ::
    "(string \<times> ('d, 'w) nfc_manager option) list \<Rightarrow> (string \<times> ('d, 'w) nfc_manager) list
      \<Rightarrow> (string \<times> ('d, 'w) nfc_manager) list" where
  "register_entries [] acc = acc"
| "register_entries ((name, m) # es) acc = (case m of
     None \<Rightarrow> register_entries es acc
   | Some x \<Rightarrow>
       if name = [] \<or> name \<in> set (map fst acc) then register_entries es acc
       else register_entries es (acc @ [(name, x)]))"

definition new_multi_manager :: "(string \<times> ('d, 'w) nfc_manager option) list \<Rightarrow> ('d, 'w) multi_manager" where
  "new_multi_manager es = \<lparr>mmManagers = register_entries es [], mmListErr = Map.empty\<rparr>"

text \<open>\<open>strings.SplitN(s, ":", 2)\<close>.\<close>

fun split_colon :: "string \<Rightarrow> (string \<times> string) option" where
  "split_colon [] = None"
| "split_colon (c # cs) =
     (if c = CHR '':'' then Some ([], cs) else map_option (\<lambda>(a, b). (c # a, b)) (split_colon cs))"

fun open_first ::
    "string \<Rightarrow> go_error option \<Rightarrow> (string \<times> ('d, 'w) nfc_manager) list \<Rightarrow> 'w \<Rightarrow> (go_error + 'd) \<times> 'w" where
  "open_first s lastErr [] w =
     (case lastErr of
        Some e \<Rightarrow> Inl (Wrapped (''all managers failed to open device '' @ s @ '': '') e [])
      | None \<Rightarrow> Inl (PlainError (''no device found: '' @ s)), w)"
| "open_first s lastErr ((n, m) # ms) w = (case nmOpen m s w of
     (Inr d, w) \<Rightarrow> (Inr d, w)
   | (Inl e, w) \<Rightarrow> open_first s (Some e) ms w)"

definition multi_open_device :: "('d, 'w) multi_manager \<Rightarrow> string \<Rightarrow> 'w \<Rightarrow> (go_error + 'd) \<times> 'w" where
  "multi_open_device mm s w =
     (if mmManagers mm = [] then (Inl (PlainError ''no managers registered''), w)
      else case (case split_colon s of
               None \<Rightarrow> None
             | Some (name, device) \<Rightarrow> map_option (\<lambda>m. (name, device, m)) (map_of (mmManagers mm) name)) of
        Some (name, device, m) \<Rightarrow> (case nmOpen m device w of
          (Inr d, w) \<Rightarrow> (Inr d, w)
        | (Inl e, w) \<Rightarrow>
            (Inl (Wrapped (''failed to open device '' @ device @ '' with manager '' @ name @ '': '') e []), w))
      | None \<Rightarrow> open_first s None (mmManagers mm) w)"

definition qualify :: "string \<Rightarrow> string \<Rightarrow> string" where
  "qualify manager path = (if CHR '':'' \<in> set path then path else manager @ CHR '':'' # path)"

text \<open>\<open>logListError\<close> and \<open>clearListError\<close>, with whether a line is written.\<close>

definition log_list_error :: "string \<Rightarrow> go_error \<Rightarrow> ('d, 'w) multi_manager \<Rightarrow> bool \<times> ('d, 'w) multi_manager" where
  "log_list_error name e mm =
     (mmListErr mm name \<noteq> Some (error_text e), mm\<lparr>mmListErr := (mmListErr mm)(name \<mapsto> error_text e)\<rparr>)"

definition clear_list_error :: "string \<Rightarrow> ('d, 'w) multi_manager \<Rightarrow> bool \<times> ('d, 'w) multi_manager" where
  "clear_list_error name mm = (mmListErr mm name \<noteq> None, mm\<lparr>mmListErr := (mmListErr mm)(name := None)\<rparr>)"

fun list_all_devices ::
    "(string \<times> ('d, 'w) nfc_manager) list \<Rightarrow> 'w \<Rightarrow> ('d, 'w) multi_manager
      \<Rightarrow> device_listing list \<times> ('d, 'w) multi_manager" where
  "list_all_devices [] w mm = ([], mm)"
| "list_all_devices ((name, m) # ms) w mm = (case nmDevices m w of
     Inl e \<Rightarrow> list_all_devices ms w (snd (log_list_error name e mm))
   | Inr ls \<Rightarrow> (case list_all_devices ms w (snd (clear_list_error name mm)) of
       (rest, mm) \<Rightarrow> (map (\<lambda>l. l\<lparr>dlPath := qualify name (dlPath l)\<rparr>) ls @ rest, mm)))"

definition multi_devices :: "'w \<Rightarrow> ('d, 'w) multi_manager \<Rightarrow> device_listing list \<times> ('d, 'w) multi_manager" where
  "multi_devices w mm = list_all_devices (mmManagers mm) w mm"

fun disconnect_all ::
    "(string \<times> ('d, 'w) nfc_manager) list \<Rightarrow> string \<Rightarrow> string \<Rightarrow> 'w \<Rightarrow> bool \<times> 'w" where
  "disconnect_all [] d reason w = (False, w)"
| "disconnect_all ((n, m) # ms) d reason w = (case nmDisconnect m of
     None \<Rightarrow> disconnect_all ms d reason w
   | Some f \<Rightarrow> (case f d reason w of (hit, w) \<Rightarrow> (case disconnect_all ms d reason w of (rest, w) \<Rightarrow> (hit \<or> rest, w))))"

section \<open>The holder of its managers' tags\<close>

definition holders_of :: "('d, 'w) multi_manager \<Rightarrow> 'w tag_holder list" where
  "holders_of mm = List.map_filter (nmHolder \<circ> snd) (mmManagers mm)"

fun first_tag_on :: "'w tag_holder list \<Rightarrow> string \<Rightarrow> 'w \<Rightarrow> (string \<times> string) option" where
  "first_tag_on [] d w = None"
| "first_tag_on (h # hs) d w = (case thTagOn h d w of Some r \<Rightarrow> Some r | None \<Rightarrow> first_tag_on hs d w)"

definition holder_for :: "'w tag_holder list \<Rightarrow> string \<Rightarrow> 'w \<Rightarrow> go_error + 'w tag_holder" where
  "holder_for hs d w = (case hs of
     [] \<Rightarrow> Inl (PlainError (''no manager holds tags for device '' @ d))
   | [h] \<Rightarrow> Inr h
   | _ \<Rightarrow> (case find (\<lambda>h. thTagOn h d w \<noteq> None) hs of
       Some h \<Rightarrow> Inr h
     | None \<Rightarrow> Inl (PlainError (''no device '' @ d @ '' is holding a tag''))))"

definition by_holder ::
    "'w tag_holder list \<Rightarrow> string \<Rightarrow> ('w tag_holder \<Rightarrow> 'w \<Rightarrow> (go_error + 'a) \<times> 'w) \<Rightarrow> 'w \<Rightarrow> (go_error + 'a) \<times> 'w" where
  "by_holder hs d op w = (case holder_for hs d w of Inl e \<Rightarrow> (Inl e, w) | Inr h \<Rightarrow> op h w)"

text \<open>It passes on the six operations of a holder, and none of the interfaces beside them.\<close>

definition multi_holder :: "('d, 'w) multi_manager \<Rightarrow> 'w tag_holder" where
  "multi_holder mm =
     (let hs = holders_of mm
      in \<lparr>thTagOn = first_tag_on hs, thHolding = (\<lambda>w. concat (map (\<lambda>h. thHolding h w) hs)),
          thWrite = (\<lambda>d u msg lck key. by_holder hs d (\<lambda>h. thWrite h d u msg lck key)),
          thLock = (\<lambda>d u key. by_holder hs d (\<lambda>h. thLock h d u key)),
          thTransceive = (\<lambda>d u data raw. by_holder hs d (\<lambda>h. thTransceive h d u data raw)),
          thCaps = (\<lambda>d u. by_holder hs d (\<lambda>h. thCaps h d u)),
          thSequence = None, thSession = None, thRelease = (\<lambda>i w. w), thTypeOn = None\<rparr>)"

section \<open>The contract is kept on the way up\<close>

lemma first_tag_on_some: "first_tag_on hs d w = Some r \<Longrightarrow> \<exists>h \<in> set hs. thTagOn h d w = Some r"
  by (induction hs) (auto split: option.splits)

lemma multi_keeps_contract:
  assumes "\<And>h. h \<in> set (holders_of mm) \<Longrightarrow> tag_contract (thTagOn h) (thHolding h) ok"
  shows "tag_contract (thTagOn (multi_holder mm)) (thHolding (multi_holder mm)) ok"
proof (unfold_locales, goal_cases)
  case (1 w d a u)
  then obtain h where h: "h \<in> set (holders_of mm)" "thTagOn h d w = Some (a, u)"
    using first_tag_on_some by (fastforce simp: multi_holder_def Let_def)
  then show ?case using tag_contract.listed [OF assms [OF h(1)] 1(1) h(2)] by (auto simp: multi_holder_def Let_def)
next
  case (2 w d a u)
  then obtain h where h: "h \<in> set (holders_of mm)" "thTagOn h d w = Some (a, u)"
    using first_tag_on_some by (fastforce simp: multi_holder_def Let_def)
  then show ?case using tag_contract.named [OF assms [OF h(1)] 2(1,2) h(2)] by simp
qed

text \<open>The manager of phones keeps it in every state: whatever it names it lists.\<close>

interpretation phones: tag_contract "\<lambda>d (w :: remote \<times> 's). remote_tag_on d (fst w)" "\<lambda>w. active_tag_devices (fst w)" "\<lambda>w. True"
proof (unfold_locales, goal_cases)
  case (1 w d h u)
  then obtain t where t: "active_tag d (fst w) = Some (h, t)" by (auto simp: remote_tag_on_def)
  then obtain p where p: "get_device h (fst w) = Some p" "phTag p = Some t"
    by (auto simp: active_tag_def held_tag_def Let_def split: if_splits option.splits)
  then have "(h, p) \<in> set (rmDevices (fst w))" by (simp add: get_device_def map_of_SomeD)
  moreover have "h \<noteq> []" using t by (auto simp: active_tag_def Let_def split: if_splits option.splits)
  ultimately show ?case using p(2) by (force simp: active_tag_devices_def Let_def)
next
  case (2 w d h u)
  then show ?case by (auto simp: remote_tag_on_def active_tag_def Let_def split: if_splits option.splits)
qed

section \<open>The program's stack\<close>

text \<open>Hardware readers hold no tags of their own; phones do.\<close>

definition program_managers ::
    "('d, remote \<times> 's) nfc_manager \<Rightarrow> 's phone_world \<Rightarrow> (string \<Rightarrow> remote \<times> 's \<Rightarrow> (go_error + 'd) \<times> remote \<times> 's)
      \<Rightarrow> ('d, remote \<times> 's) multi_manager" where
  "program_managers hardware pw opener = new_multi_manager
     [(''hardware'', Some (hardware\<lparr>nmHolder := None\<rparr>)),
      (''smartphone'', Some \<lparr>nmOpen = opener, nmDevices = (\<lambda>w. Inr (remote_devices (fst w))),
         nmHolder = Some (remote_holder pw), nmDisconnect = Some (\<lambda>d reason (rm, s).
           case disconnect_device d rm of (hit, rm) \<Rightarrow> (hit, rm, s))\<rparr>)]"

lemma program_holders: "holders_of (program_managers hardware pw opener) = [remote_holder pw]"
  by (simp add: program_managers_def new_multi_manager_def holders_of_def map_filter_simps)

interpretation program: tag_contract
    "\<lambda>d w. thTagOn (multi_holder (program_managers hardware pw opener)) d w"
    "\<lambda>w. thHolding (multi_holder (program_managers hardware pw opener)) w" "\<lambda>w. True"
  for hardware :: "('d, remote \<times> 's) nfc_manager" and pw and opener
proof -
  have "tag_contract (thTagOn (remote_holder pw)) (thHolding (remote_holder pw)) (\<lambda>w. True)"
    using phones.tag_contract_axioms by (simp add: remote_holder_def)
  then show "tag_contract (\<lambda>d w. thTagOn (multi_holder (program_managers hardware pw opener)) d w)
      (\<lambda>w. thHolding (multi_holder (program_managers hardware pw opener)) w) (\<lambda>w. True)"
    using multi_keeps_contract [of "program_managers hardware pw opener"] by (simp add: program_holders)
qed

interpretation stack: tag_contract
    "\<lambda>d (sv, w). tag_on d sv w" "\<lambda>(sv, w). devices_holding_tags sv w"
    "\<lambda>(sv :: ('d, remote \<times> 's) supervisor, w). svHolder sv = Some (multi_holder (program_managers hardware pw opener)) \<and> True"
  for hardware :: "('d, remote \<times> 's) nfc_manager" and pw and opener
  by (rule supervisor_keeps_contract) (rule program.tag_contract_axioms)

text \<open>
  The multi-manager passes on neither \<open>TagSequencer\<close> nor \<open>TagSessionHolder\<close>: through the program's
  supervisor every sequence and every NTAG 424 operation on a tag a phone holds is refused as not
  supported, though the manager of phones offers both.
\<close>

lemma phone_sequences_refused:
  assumes "svHolder sv = Some (multi_holder (program_managers hardware pw opener))" "device \<noteq> []" "\<not> operates device sv"
  shows "transceive_sequence_tag envs device uid steps (sv, w) =
      (Inl (new_not_supported_error ''TransceiveSequence''), sv, w)"
    "with_ntag424_tag envs now operator mk_session caller device uid fn (sv, w) =
      (Inl (new_not_supported_error ''NTAG424''), sv, w)"
  using assms
  by (simp_all add: transceive_sequence_tag_def with_ntag424_tag_def on_holder_def held_elsewhere_def multi_holder_def
      ntag424_held_def Let_def)

end
