(* ===== verification/StackProps.thy ===== *)
theory StackProps
  imports MultiManager
begin

text \<open>
  The properties of the stack between a client's request and a tag: the router, the supervisor over
  the readers, and the manager of phones.
\<close>

section \<open>A desk with one reader\<close>

text \<open>A reader that holds a virtual tag, and the supervisor that was started on it.\<close>

definition desk_tag :: "vmem_store tag" where
  "desk_tag = routed_tag \<lparr>rcUID = ''04:01'', rcType = ''Virtual'', rcTechnology = ''virtual'', rcDeclared = None,
     rcSnapshot = None, rcNDEF = None, rcRoute = Some vmem_route\<rparr>"

definition desk_env :: "(unit, vmem_store) rd_env" where
  "desk_env =
     \<lparr>reDM = \<lparr>mgOpen = (\<lambda>p s. (Inr (), s)), mgReaders = (\<lambda>s. (Inr [''desk''], s)), dvClose = (\<lambda>d s. s),
        dvHealthy = (\<lambda>d. None), dvName = (\<lambda>d. ''desk''), clkWait = (\<lambda>n s. (True, s)), clkSleep = (\<lambda>n s. s)\<rparr>,
      reTags = (\<lambda>d s. (Inr [desk_tag], s)), reNow = (\<lambda>s. 0), reStopped = (\<lambda>s. False), reFeedback = (\<lambda>d. None)\<rparr>"

definition empty_store :: vmem_store where
  "empty_store = \<lparr>msContent = Map.empty, msLocked = Map.empty\<rparr>"

definition desk_listing :: "go_error + device_listing list" where
  "desk_listing = Inr [\<lparr>dlPath = ''desk'', dlID = ''desk'', dlCanPoll = True\<rparr>]"

definition desk :: "(unit, vmem_store) supervisor" where
  "desk = fst (snd (supervisor_start (\<lambda>n. desk_env) desk_listing (new_supervisor None, empty_store)))"

definition desk_reader :: "(unit, vmem_store) op_reader" where
  "desk_reader = \<lparr>orReader = apply_policy (svPolicy (new_supervisor (None :: vmem_store tag_holder option) :: (unit, vmem_store) supervisor))
      (fst (new_device_reader desk_env ''desk'' no_ntag424_keys empty_store)), orLease = None, orClosed = False\<rparr>"

lemma desk_reader_made:
  "snd (new_device_reader desk_env ''desk'' no_ntag424_keys empty_store) = empty_store"
  "dmDevice (rdDM (orReader desk_reader)) = Some ()" "dmHasDevice (rdDM (orReader desk_reader))"
  "rdCache (orReader desk_reader) = rdCache (reader_init ''desk'' no_ntag424_keys)"
  by (simp_all add: desk_reader_def new_device_reader_def reader_init_def ensure_connected_def try_connect_def
      still_responsive_def new_device_manager_def desk_env_def apply_policy_def new_supervisor_def emit_event_def Let_def)

lemma desk_readers: "svReaders desk = [(''desk'', desk_reader)]" "svHolder desk = None" "poMode (svPolicy desk) = ModeReadWrite"
  using desk_reader_made(1)
  by (simp_all add: desk_def supervisor_start_def reconcile_def desk_listing_def list_readers_def new_supervisor_def
      operates_def set_reader_def desk_reader_def Let_def split: prod.split)


text \<open>The supervisor as the router's source, before the tag on the reader was exchanged for another.\<close>

definition desk_before :: "(unit, vmem_store) supervisor" where
  "desk_before = set_reader ''desk'' (desk_reader\<lparr>orReader := (orReader desk_reader)\<lparr>rdCache :=
     (rdCache (orReader desk_reader))\<lparr>tcUID := ''04:02''\<rparr>\<rparr>\<rparr>) desk"

definition desk_ops :: "((unit, vmem_store) supervisor \<times> vmem_store, vmem_store) tag_ops" where
  "desk_ops = \<lparr>toTags = Some (supervisor_source (\<lambda>n. desk_env) (\<lambda>s. 0) (\<lambda>g. None) undefined (\<lambda>g s. s) (\<lambda>s. None)),
     toAllowModification = Some (\<lambda>w. False), toAllowRaw = None\<rparr>"

lemma desk_before_readers: "reader_names desk_before = [''desk'']"
    "tag_on_reader ''desk'' desk_before = Some (''desk'', ''04:02'')" "svHolder desk_before = None"
  by (simp_all add: desk_before_def set_reader_def desk_readers reader_names_def tag_on_reader_def)

section \<open>The tag named is the tag reached\<close>

text \<open>
  C2. The tag a client names is the only tag its request can reach. A route resolved for a named
  tag names that tag; and when, by the time the operation runs, the reader holds a tag that does
  not answer to the name, then a write, a lock or an exchange through the supervisor fails and the
  tag has at most been identified.
\<close>

theorem named_tag_or_nothing:
  assumes "resolve_route ops t w0 = Inr rt" "tgtUID t \<noteq> []"
    and "held_elsewhere (rtDevice rt) sv = None" "reader_for (rtDevice rt) sv = Inr (n, o1)"
    and "reader_get_tags (envs n) (orReader o1) s = (Inr [g], s1)"
    and "\<not> tag_has_uid g s1 (tgtUID t)" "\<not> tag_has_uid g (identify (orReader o1) g s1) (tgtUID t)"
  shows "equal_fold (rtUID rt) (tgtUID t) \<and>
    (\<exists>e sv' s'. write_tag envs (rtDevice rt) (rtUID rt) msg lck key (sv, s) = (Inl e, sv', s') \<and>
       s' \<in> {s, identify (orReader o1) g s1}) \<and>
    (\<exists>e sv' s'. lock_tag envs (rtDevice rt) (rtUID rt) key (sv, s) = (Inl e, sv', s') \<and>
       s' \<in> {s, identify (orReader o1) g s1}) \<and>
    (\<exists>e sv' s'. transceive_tag envs (rtDevice rt) (rtUID rt) data raw (sv, s) = (Inl e, sv', s') \<and> s' \<in> {s, s1})"
proof -
  have f: "equal_fold (rtUID rt) (tgtUID t)" by (rule route_names_its_tag [OF assms(1,2)])
  then have u: "rtUID rt \<noteq> []" using assms(2) by auto
  have "\<not> tag_has_uid g s1 (rtUID rt)" "\<not> tag_has_uid g (identify (orReader o1) g s1) (rtUID rt)"
    using assms(6,7) by (simp_all add: has_uid_fold [OF f])
  note w = wrong_tag_untouched [where envs = envs, OF assms(3,4) u assms(5) this]
  show ?thesis by (intro conjI f w)
qed

theorem named_tag_or_nothing_witness:
  "\<exists>rt e sv' s'. resolve_route desk_ops \<lparr>tgtUID = ''04:02'', tgtDevice = [], tgtUntargeted = False\<rparr> (desk_before, empty_store) = Inr rt \<and>
     write_tag (\<lambda>n. desk_env) (rtDevice rt) (rtUID rt) [] False [] (desk, empty_store) = (Inl e, sv', s') \<and> s' = empty_store"
proof -
  let ?t = "\<lparr>tgtUID = ''04:02'', tgtDevice = [], tgtUntargeted = False\<rparr>" and ?rt = "\<lparr>rtDevice = ''desk'', rtUID = ''04:02''\<rparr>"
  have ops: "operates ''desk'' desk_before"
    by (simp add: operates_def desk_before_def set_reader_def desk_readers)
  have r: "resolve_route desk_ops ?t (desk_before, empty_store) = Inr ?rt"
    by (simp add: resolve_route_def holding_uid_def desk_ops_def supervisor_source_def devices_holding_tags_def
        desk_before_readers tag_on_def ops Let_def)
  have k: "identify (orReader desk_reader) desk_tag empty_store = empty_store"
    by (simp add: identify_def apply_keys_def desk_tag_def routed_tag_def)
  have g: "reader_get_tags desk_env (orReader desk_reader) empty_store = (Inr [desk_tag], empty_store)"
    by (simp add: reader_get_tags_def desk_reader_made desk_env_def)
  have n: "\<not> tag_has_uid desk_tag empty_store ''04:02''"
    by (simp add: tag_has_uid_def desk_tag_def routed_tag_def equal_fold_def text_lower_def lower_char_def Let_def)
  show ?thesis
    using named_tag_or_nothing [OF r, where sv = desk and n = "''desk''" and ?o1.0 = desk_reader and envs = "\<lambda>n. desk_env" and
          s = empty_store and g = desk_tag and ?s1.0 = empty_store and msg = "[]" and lck = False and key = "[]"]
    by (simp add: k g n r held_elsewhere_def reader_for_def desk_readers operates_def)
qed

section \<open>The gates\<close>

text \<open>
  C21. In read-only mode nothing a client asks can change a tag: writes, locks, raw exchanges,
  sequences, raw sessions and the NTAG 424 operations that write are each refused as READ_ONLY
  before anything is resolved, sent or logged. With the raw channel closed the raw requests are
  refused likewise, as RAW_CHANNEL_DISABLED.
\<close>

theorem client_gates:
  "(\<not> modification_allowed ops w \<longrightarrow>
      refuses ''READ_ONLY'' (ops_write ops t records lck key) log w \<and>
      refuses ''READ_ONLY'' (ops_lock ops t key) log w \<and>
      refuses ''READ_ONLY'' (ops_transceive ops t data raw session auto) log w \<and>
      refuses ''READ_ONLY'' (ops_transceive_sequence ops t steps session) log w \<and>
      refuses ''READ_ONLY'' (ops_begin_raw_session ops t ttl) log w \<and>
      (ntag424_mutating (nqOp r) \<longrightarrow> refuses ''READ_ONLY'' (ops_ntag424 ops t r) log w)) \<and>
   (modification_allowed ops w \<and> \<not> raw_transceive_allowed ops w \<longrightarrow>
      refuses ''RAW_CHANNEL_DISABLED'' (ops_transceive ops t data raw session auto) log w \<and>
      refuses ''RAW_CHANNEL_DISABLED'' (ops_transceive_sequence ops t steps session) log w \<and>
      refuses ''RAW_CHANNEL_DISABLED'' (ops_begin_raw_session ops t ttl) log w)"
  by (auto intro: read_only_refuses closed_channel_refuses)

theorem client_gates_witness:
  "refuses ''READ_ONLY'' (ops_lock desk_ops \<lparr>tgtUID = ''04:01'', tgtDevice = [], tgtUntargeted = False\<rparr> []) [] (desk, empty_store)"
  using client_gates [of desk_ops "(desk, empty_store)" _ _ _ "[]"] by (simp add: modification_allowed_def desk_ops_def)

text \<open>
  C34. A failure keeps its code on the way to the client: the agent's own code when the failure
  carries one anywhere along its causes, else the code of the NFC error among them, and only when
  there is neither the operation's label.
\<close>

theorem failures_keep_codes:
  "epCode (error_payload_for (source_failure e device op failed)) =
     (case first_coded (error_chain e) of
        Some code \<Rightarrow> code
      | None \<Rightarrow> (case get_error_code e of Some c \<Rightarrow> wire_code c | None \<Rightarrow> failed))"
  by (rule source_failure_code)

section \<open>The supervisor\<close>

text \<open>
  C10. One policy binds every reader: with each operation of the supervisor one step, from the moment the supervisor is made, whatever readers come
  and go, scan, fail and operate, and whatever is set in between, every reader runs under the mode,
  the feedback and the keys that were set last; so in read-only mode a write or a lock of a tag on
  a reader is refused with nothing changed, on whichever reader it lands.
\<close>

theorem policy_binds_every_reader:
  assumes "(supervisor_step envs)\<^sup>*\<^sup>* (new_supervisor holder, s0) (sv, s)"
  shows "(\<forall>n o1. map_of (svReaders sv) n = Some o1 \<longrightarrow> policy_of (orReader o1) = svPolicy sv) \<and>
    (poMode (svPolicy sv) = ModeReadOnly \<and> held_elsewhere device sv = None \<longrightarrow>
       (\<exists>e. write_tag envs device uid msg lck key (sv, s) = (Inl e, sv, s)) \<and>
       (\<exists>e. lock_tag envs device uid key (sv, s) = (Inl e, sv, s)))"
proof -
  have "sv_ok sv" using reachable_sv_ok [OF assms] by simp
  then show ?thesis by (auto simp: sv_okD intro: read_only_writes_refused)
qed

theorem policy_binds_every_reader_witness:
  "\<exists>e. write_tag (\<lambda>n. desk_env) ''desk'' ''04:01'' [] False [] (supervisor_set (SetMode ModeReadOnly) desk, empty_store) =
     (Inl e, supervisor_set (SetMode ModeReadOnly) desk, empty_store)"
proof -
  let ?env = "\<lambda>n :: string. desk_env"
  obtain r where "new_device_reader desk_env ''desk'' no_ntag424_keys empty_store = (r, empty_store)"
    by (metis prod.collapse desk_reader_made(1))
  then have "snd (supervisor_start ?env desk_listing (new_supervisor None, empty_store)) = (desk, empty_store)"
    by (simp add: desk_def supervisor_start_def reconcile_def desk_listing_def list_readers_def new_supervisor_def
        operates_def Let_def)
  then have "supervisor_step ?env (new_supervisor None, empty_store) (desk, empty_store)"
    using sv_start [of ?env "(new_supervisor None, empty_store)" desk_listing] by simp
  then have "(supervisor_step ?env)\<^sup>*\<^sup>* (new_supervisor None, empty_store) (supervisor_set (SetMode ModeReadOnly) desk, empty_store)"
    by (rule converse_rtranclp_into_rtranclp) (rule r_into_rtranclp, rule sv_set)
  from policy_binds_every_reader [OF this] show ?thesis
    by (simp add: supervisor_set_def held_elsewhere_def desk_readers)
qed

section \<open>Phones\<close>

text \<open>
  C31. Sessions and registrations stand together: with a registration and the end of a session
  each one step, in every state the manager of phones can reach a device with a live session is
  registered, its connection is served as that device and known as no other, and every tag held is
  operated through the device that holds it.
\<close>

theorem sessions_and_registrations:
  assumes "remote_step\<^sup>*\<^sup>* (new_remote timeout allow, Map.empty) (rm, ls)"
  shows "(\<forall>d c. session_of d rm = Some c \<longrightarrow>
       ls c = Some d \<and> device_id_for_conn c rm = d \<and> get_device d rm \<noteq> None) \<and>
    (\<forall>d t. held_tag d rm = Some t \<longrightarrow> ptSource t = d \<and> ptRouted t)"
proof -
  have ok: "remote_ok rm ls" by (rule reachable_remote_ok [OF assms])
  have "ls c = Some d \<and> device_id_for_conn c rm = d \<and> get_device d rm \<noteq> None" if "session_of d rm = Some c" for d c
    using registry_okD(1) [of "map_of (rmSessions rm)" "map_of (rmSessionConn rm)" "registered rm" ls d c] ok that
    by (simp add: remote_ok_def sessions_ok_def session_of_def device_id_for_conn_def registered_iff)
  then show ?thesis using ok by (simp add: remote_ok_def tags_ok_def)
qed

theorem sessions_and_registrations_witness:
  "let rm = remote_act (EvRegister [] 0 1 ''a'' (FHello 1 (demo_phone ''A''))) (new_remote 0 None)
   in session_of ''a'' rm = Some 1 \<and> device_id_for_conn 1 rm = ''a'' \<and> get_device ''a'' rm \<noteq> None"
proof -
  let ?rm = "remote_act (EvRegister [] 0 1 ''a'' (FHello 1 (demo_phone ''A''))) (new_remote 0 None)"
  have r: "awaiting_registration ''f'' 0 1 ''a'' (FHello 1 (demo_phone ''A'')) (new_remote 0 None) = (Inr ''a'', ?rm)"
    "session_of ''a'' ?rm = Some 1"
    by (simp_all add: awaiting_registration_def register_session_def register_device_def demo_phone_def
        negotiate_device_version_def replace_session_def session_of_def add_session_def new_remote_def Let_def)
  have "remote_step\<^sup>*\<^sup>* (new_remote 0 None, Map.empty) (?rm, Map.empty(1 \<mapsto> ''a''))"
    by (rule r_into_rtranclp, rule registers [OF _ _ r(1)]) simp_all
  from sessions_and_registrations [OF this] show ?thesis using r(2) by (simp add: Let_def del: remote_act.simps)
qed

text \<open>
  C5. An answer reaches the request it answers and no other, whatever frames, registrations,
  departures and other requests interleave: while a request waits, either its device has not
  answered, or what it gets is the first answer of the device it was sent to, or the error of that
  device's session having ended first. Another device cannot answer it or cancel it.
\<close>

theorem answers_reach_their_owner:
  assumes "\<forall>e \<in> set es. e \<noteq> EvFinish rid \<and> (\<forall>d. e \<noteq> EvBegin rid d)"
  shows "let st = request_state rid (remote_run es (begin_request rid owner rm))
    in st = (Some owner, None) \<and> (\<forall>e \<in> set es. answers_with owner rid e = None) \<or>
       (\<exists>p pre e post. st = (None, Some (Inr p)) \<and> es = pre @ e # post \<and> answers_with owner rid e = Some p \<and>
          (\<forall>x \<in> set pre. answers_with owner rid x = None)) \<or>
       (\<exists>c pre post. st = (None, Some (Inl gone_error)) \<and> es = pre @ EvEnd c owner # post \<and>
          (\<forall>x \<in> set pre. answers_with owner rid x = None))"
proof -
  have "request_state rid (begin_request rid owner rm) = (Some owner, None)"
    by (simp add: request_state_def begin_request_def update_conv' delete_conv')
  from run_requests [OF this assms] show ?thesis by (simp add: Let_def)
qed

theorem answers_reach_their_owner_witness:
  "request_state ''write-1'' (remote_run
      [EvFrame 0 True ''b'' (FReply ''write-1'' [] None), EvFrame 0 True ''a'' (FReply ''write-1'' [] None)]
      (begin_request ''write-1'' ''a'' two_phones)) = (None, Some (Inr None))"
proof -
  let ?es = "[EvFrame 0 True ''b'' (FReply ''write-1'' [] None), EvFrame 0 True ''a'' (FReply ''write-1'' [] None)]"
  let ?st = "request_state ''write-1'' (remote_run ?es (begin_request ''write-1'' ''a'' two_phones))"
  have "\<forall>e \<in> set ?es. e \<noteq> EvFinish ''write-1'' \<and> (\<forall>d. e \<noteq> EvBegin ''write-1'' d)" by simp
  from answers_reach_their_owner [OF this, where owner = "''a''" and rm = two_phones] show ?thesis
    unfolding Let_def
  proof (elim disjE exE conjE, goal_cases)
    case 1
    then show ?case by simp
  next
    case (2 p pre e post)
    then have "e \<in> set ?es" by simp
    then have "p = None" using 2(3) by (auto split: if_splits)
    then show ?case using 2(1) by simp
  next
    case (3 c pre post)
    then have "EvEnd c ''a'' \<in> set ?es" by simp
    then show ?case by simp
  qed
qed

text \<open>
  C33. A device's word for a sequence is taken exactly when it is a run: for steps that are not
  chained, the answer of a device that ran the batch itself is accepted if and only if some tag
  would have answered the agent's own run of those steps with the same replies and the same stop;
  what is then reported is what the device said.
\<close>

theorem device_run_believed:
  assumes "steps \<noteq> []" "\<not> remote_chained steps"
  shows "((\<exists>out. check_device_sequence steps r = Inr out) \<longleftrightarrow>
      (\<exists>(ex :: (nat, go_error) transport) s res s'. run_sequence steps ex s = (Inr res, s') \<and>
         qReplies res = dyReplies r \<and> qStoppedAt res = dyStoppedAt r)) \<and>
    (\<forall>out. check_device_sequence steps r = Inr out \<longrightarrow>
       qReplies out = dyReplies r \<and> qStoppedAt out = dyStoppedAt r)"
proof -
  let ?e = "\<lparr>qReplies = [], qStoppedAt = -1, qFollowups = []\<rparr>"
  note c = check_genuine [OF assms, of r]
  have "(\<exists>out. check_device_sequence steps r = Inr out) \<longleftrightarrow> genuine 0 steps (dyReplies r) (- 1) = Some (dyStoppedAt r)"
    using c by metis
  moreover have "genuine 0 steps (dyReplies r) (- 1) = Some (dyStoppedAt r)"
    if "run_sequence steps ex s = (Inr res, s')" "qReplies res = dyReplies r" "qStoppedAt res = dyStoppedAt r"
    for ex :: "(nat, go_error) transport" and s res s'
    using run_is_genuine [OF assms(2), of 0 ex ?e s res s'] that by (simp add: run_sequence_def)
  moreover have "\<exists>(ex :: (nat, go_error) transport) s res s'. run_sequence steps ex s = (Inr res, s') \<and>
      qReplies res = dyReplies r \<and> qStoppedAt res = dyStoppedAt r"
    if g: "genuine 0 steps (dyReplies r) (- 1) = Some (dyStoppedAt r)"
  proof -
    obtain out where "run_steps 0 steps (replay (dyReplies r)) ?e 0 = (Inr out, length (dyReplies r))"
      "qReplies out = dyReplies r" "qStoppedAt out = dyStoppedAt r"
      using genuine_replays [OF assms(2), where i = 0 and res = ?e and pre = "[]", simplified, OF g refl] by blast
    then show ?thesis unfolding run_sequence_def by blast
  qed
  ultimately show ?thesis using c(2) by fastforce
qed

theorem device_run_believed_witness:
  "\<exists>out. check_device_sequence [\<lparr>qData = [0], qExpectSW = [0x9000], qStopOnSW = [], qAutoGetResponse = False\<rparr>,
       \<lparr>qData = [1], qExpectSW = [], qStopOnSW = [], qAutoGetResponse = False\<rparr>]
     \<lparr>dySuccess = True, dyData = [], dyReplies = [[0x6A, 0x82]], dyStoppedAt = 0, dyError = [], dyCode = []\<rparr> = Inr out"
proof -
  let ?steps = "[\<lparr>qData = [0], qExpectSW = [0x9000], qStopOnSW = [], qAutoGetResponse = False\<rparr>,
       \<lparr>qData = [1], qExpectSW = [], qStopOnSW = [], qAutoGetResponse = False\<rparr>]"
    and ?y = "\<lparr>dySuccess = True, dyData = [], dyReplies = [[0x6A, 0x82]], dyStoppedAt = 0, dyError = [], dyCode = []\<rparr>"
  have "run_sequence ?steps (replay [[0x6A, 0x82]]) 0 = (Inr \<lparr>qReplies = [[0x6A, 0x82]], qStoppedAt = 0, qFollowups = [[]]\<rparr>, 1)"
    by (simp add: run_sequence_def run_step_def replay_def step_stops_def reply_sw_def Let_def)
  then have "\<exists>(ex :: (nat, go_error) transport) s res s'. run_sequence ?steps ex s = (Inr res, s') \<and>
      qReplies res = dyReplies ?y \<and> qStoppedAt res = dyStoppedAt ?y"
    by (intro exI conjI, assumption) simp_all
  moreover have "?steps \<noteq> []" "\<not> remote_chained ?steps" by (simp_all add: remote_chained_def)
  ultimately show ?thesis using device_run_believed [of ?steps ?y] by blast
qed

end
