(* ===== verification/Spec2Isabelle.thy ===== *)
theory Spec2Isabelle
  imports Examples Url Plan Ndef Tlv DriverProps ReaderProps AgentProps TagProps StackProps
begin

text \<open>
  A verification library of the DAVI NFC agent, a Go program that reads, writes and secures NFC tags
  over PC/SC readers and phones and offers them to web pages and programs. The theories follow
  the packages under \<open>src/\<close>; a definition has the name of the function it models, in lower case with
  underscores, and reads like it: structs are records, enumerations datatypes, errors values of a sum,
  machine integers words of their width, and a card, a device, a clock or a transport a value or a
  function that every step passes along. Every \<open>panic\<close> and out-of-range index a definition can meet is
  a None of its own.

  Cryptography and secure messaging (\<open>nfc/ev2\<close>, \<open>nfc/lrp\<close>): \<open>Aes\<close> (an executable AES for \<open>crypto/aes\<close>),
  \<open>Cmac\<close> (\<open>cmac.go\<close>, \<open>keys.go\<close>), \<open>Lrp\<close>, \<open>Ev2Session\<close> and \<open>LrpSession\<close> (both halves of a session),
  \<open>Ev2Auth\<close> (\<open>auth.go\<close>, \<open>lrp_auth.go\<close>), and \<open>Channel\<close>, the contract of a secure channel as a locale,
  interpreted on both sessions. They show that conversations deliver, that an accepted answer carries the
  MAC of its whole content, and that a session opens only against a peer that holds the key.

  NTAG 424 DNA (\<open>nfc/ntag424\<close> and the emulated card \<open>nfc/nfctest/ntag424_emulator.go\<close>): \<open>FileSettings\<close>,
  \<open>Commands\<close>, \<open>Sdm\<close>, \<open>Url\<close> and \<open>Plan\<close> on the reader's side, \<open>Ntag424Card\<close> the card, \<open>CardInvariant\<close>
  its invariant and that it always answers, \<open>CardExchange\<close> every command end to end, \<open>UrlFacts\<close>,
  \<open>PlanFacts\<close>, \<open>SdmTap\<close> and \<open>TapVerify\<close> that a planned tag's taps verify and replays are refused.

  Tags and data (\<open>nfc\<close>): \<open>Ndef\<close> and \<open>Tlv\<close> (messages and their wire forms), \<open>Apdu\<close>, \<open>Explain\<close>,
  \<open>Chaining\<close> and \<open>ChainApplet\<close> (commands, their explanation, chained answers), \<open>Type4\<close> (the Type 4
  driver) and \<open>Ntag424Login\<close>, \<open>Ntag424Files\<close>, \<open>Ntag424Driver\<close> (the NTAG 424 DNA driver, whose session
  discipline is the locale of \<open>Effects\<close>). The theories ending in \<open>OnCard\<close> run the drivers against
  the emulated card: what is written is read back, a login succeeds, a lock locks.

  Kinds of tag (\<open>nfc\<close>): \<open>TagKinds\<close> (\<open>tagdetect.go\<close>, \<open>atr_caps.go\<close>, \<open>tag_profile.go\<close>, \<open>capabilities.go\<close>:
  which tag an ATR or a version answer names and what each kind can do), \<open>PageTags\<close> (\<open>tag_ultralight.go\<close>,
  \<open>tag_ntag.go\<close>, and the emulated memory of \<open>nfctest/emulator.go\<close> and \<open>rawframe.go\<close>), \<open>PageTagsOnCard\<close>
  (those drivers on that memory: what fits is written and read back, a lock covers every user page and
  no traffic undoes it), \<open>Classic\<close> and \<open>ClassicCard\<close> (\<open>tag_classic.go\<close>, \<open>tag_classic_format.go\<close> and the
  emulated MIFARE Classic with its keys and access conditions), \<open>ClassicSafe\<close> (what the driver can do to
  any card at all, as the locale \<open>classic_io\<close>), \<open>ClassicOnCard\<close> and \<open>ClassicFormat\<close> (reading, writing and
  formatting a card whose sectors its keys open).

  The reader (\<open>nfc\<close>): \<open>Errors\<close> (\<open>errors.go\<close> and the classifiers of \<open>common.go\<close>), \<open>DeviceMgr\<close>
  (\<open>device_manager.go\<close>), \<open>CardWrite\<close> (\<open>card.go\<close>, \<open>tag.go\<close>, and the confirmed write), \<open>Reader\<close> and
  \<open>ReaderOps\<close> (\<open>reader.go\<close>, \<open>cache.go\<close>, \<open>password.go\<close>: polling, publishing, the tag operations, and the
  reader as a step relation with its invariant), \<open>WriteOnCard\<close> and \<open>ReaderOnCard\<close> (the reader over
  the driver over the emulated card), and \<open>Lease\<close> (\<open>reader_lease.go\<close>: the operation slot and raw
  sessions as interleaved processes). What a poll does to the device manager flows through its
  environment: the device, the clock, the stop channel.

  The agent around it: \<open>Access\<close> (\<open>secure/pairing/registry.go\<close>, \<open>admit.go\<close>, \<open>server/auth.go\<close>, \<open>origin.go\<close>,
  \<open>cors.go\<close>: who is let in), \<open>LogRing\<close> (\<open>logbuf/logbuf.go\<close>), \<open>Events\<close> (\<open>event\<close> and
  \<open>nfc/scan_debounce.go\<close>). The properties stand in this theory and in \<open>DriverProps\<close>, \<open>TagProps\<close>,
  \<open>ReaderProps\<close>, \<open>AgentProps\<close> and \<open>StackProps\<close>; \<open>Prelude\<close> holds the shared types, bundles and lemmas,
  \<open>Examples\<close> concrete runs.

  From a client to a tag: \<open>Router\<close> (\<open>server/clientserver/tagresolve.go\<close>, \<open>tagops.go\<close>, \<open>ntag424.go\<close>,
  \<open>audit.go\<close>: which source an operation goes to, behind which gates, and what is logged), \<open>Wire\<close>
  (\<open>protocol\<close>, \<open>server/handlers.go\<close>: error codes and the records of a write), \<open>Supervisor\<close> (\<open>nfc/supervisor.go\<close>,
  \<open>supervisor_ops.go\<close>, \<open>tagholder.go\<close>: all readers under one policy), \<open>Virtual\<close> (\<open>nfc/virtualnfc\<close>),
  \<open>Remote\<close> and \<open>RemoteOps\<close> (\<open>nfc/remotenfc\<close>: the phones, their sessions, requests and sequences, with
  \<open>Sha256\<close> for the keys of repeated operations) and \<open>MultiManager\<close> (\<open>nfc/multimanager\<close> and the stack
  \<open>cmd/davi-nfc-agent\<close> builds). \<open>SupervisorFacts\<close>, \<open>RemoteFacts\<close>, \<open>RemoteTags\<close> and \<open>RouterFacts\<close> hold
  their lemmas: a setting binds every reader, sessions and registrations stand together, an answer
  reaches only the request it answers, a tag named is the tag reached. The locale \<open>tag_contract\<close> is
  what the router relies on, interpreted on the phones, on the multi-manager over them and on the
  supervisor over that. Each operation of the supervisor, each registration and each end of a session
  is one step; time, fresh identities and the wait for an answer are arguments, and JSON is the value
  it decodes to.

  Bounds are the code's own: 64 rounds of GET RESPONSE, two attempts of a session, 5 retries, 10
  reconnections, 3 attempts of a write. Loops are structural or have a termination proof; the one fuel,
  of the reads of \<open>io.ReadAll\<close>, is shown enough as soon as it exceeds the length of the buffer.

  Not modelled: the ECDSA originality signature; PC/SC, network, HTTP and WebSocket transport; TLS
  certificates and the pairing server; windows, menus and the tray; code generation and hardware tests.
  The DESFire driver with its EV1 messaging (DES and CRC32 have no model here, and there is no emulated
  card to run it against), FeliCa and the files that hold keys are left out too.
\<close>

section \<open>Secure messaging\<close>

text \<open>
  C1. Any conversation over the AES session delivers: from two halves in step, every exchange
  that fits a frame reaches the card with its header and data unchanged, every reply reaches
  the reader unchanged, and both command counters end advanced by one per exchange.
\<close>

theorem aes_conversation_delivers:
  assumes "aes_synced r c" "list_all exchange_fits xs"
  shows "\<exists>r' c'. converse aes_exchange r c xs =
      (Inr (map (\<lambda>x. ((xheader x, xdata x), xreply x)) xs), r', c') \<and>
    aes_synced r' c' \<and> counter r' = counter r + of_nat (length xs) \<and> counter c' = counter r'"
  unfolding aes_exchange_def using assms by (rule aesch.converse_delivers)

theorem aes_conversation_delivers_witness:
  "\<exists>r' c'. converse aes_exchange demo_session demo_session
       [\<lparr>xins = 0x8D, xheader = [2, 0, 0, 0, 1, 0, 0], xdata = [7], xmode = CommFull, xreply = []\<rparr>] =
      (Inr [(([2, 0, 0, 0, 1, 0, 0], [7]), [])], r', c') \<and> counter r' = 1"
  using aes_conversation_delivers [OF demo_synced,
      of "[\<lparr>xins = 0x8D, xheader = [2, 0, 0, 0, 1, 0, 0], xdata = [7], xmode = CommFull, xreply = []\<rparr>]"]
  by (auto simp: exchange_fits_def demo_session_def)

text \<open>
  A conversation over the session of a card in LRP mode delivers likewise; its encryption counter counts blocks.
\<close>

theorem lrp_conversation_delivers:
  assumes "lrp_synced r c" "list_all exchange_fits xs"
  shows "\<exists>r' c'. converse lrp_exchange r c xs =
      (Inr (map (\<lambda>x. ((xheader x, xdata x), xreply x)) xs), r', c') \<and>
    lrp_synced r' c' \<and> lcounter r' = lcounter r + of_nat (length xs) \<and> lcounter c' = lcounter r'"
  unfolding lrp_exchange_def using assms by (rule lrpch.converse_delivers)

theorem lrp_conversation_delivers_witness:
  "\<exists>s r' c'. new_lrp_session [1, 2, 3, 4] zero_key 0 1 = Inr s \<and>
     converse lrp_exchange s s
       [\<lparr>xins = 0x8D, xheader = [2, 0, 0, 0, 1, 0, 0], xdata = [7], xmode = CommFull, xreply = []\<rparr>] =
      (Inr [(([2, 0, 0, 0, 1, 0, 0], [7]), [])], r', c') \<and> lcounter r' = 1"
proof -
  have l: "length [1, 2, 3, 4 :: byte] = 4" "length zero_key = 16" by (simp_all add: zero_key_def)
  obtain s where s: "new_lrp_session [1, 2, 3, 4] zero_key 0 1 = Inr s" "lrp_session_ok s"
      "lcounter s = 0" "cmdBlocks s = 0"
    by (rule new_lrp_session_total [OF l])
  have "s = s\<lparr>cmdBlocks := 0\<rparr>" using s(4) by simp
  then have "lrp_synced s s" using s(2) unfolding lrp_synced_def by blast
  from lrp_conversation_delivers [OF this,
      of "[\<lparr>xins = 0x8D, xheader = [2, 0, 0, 0, 1, 0, 0], xdata = [7], xmode = CommFull, xreply = []\<rparr>]"]
  show ?thesis using s by (auto simp: exchange_fits_def)
qed

section \<open>The emulated card\<close>



text \<open>
  C4. AES authentication against the card: with the key the card holds for that number, and no
  authentication delay, the two round trips succeed and leave both sides with one session. A
  first authentication starts at counter 0; a later one continues the identifier and the
  counter of the session it replaces. The card is otherwise unchanged and stays well formed.
\<close>

theorem aes_login_agrees:
  fixes first :: bool
  assumes "card_ok s" "\<not> nLRP s" "k \<le> 4" "not_delayed s"
    and "new_authenticator random (if first then AuthFirst else AuthNonFirst) k (nKeys s ! unat k) t0 = Inr a"
    and "16 \<le> length random"
    and "\<not> first \<Longrightarrow> nSession s = Some ch \<and> chan_ti ch = t0 \<and> chan_counter ch = ctr"
  shows "\<exists>sess s2. aes_login (auth_set_counter a ctr) s = Some (Inr (sess, s2)) \<and> card_ok s2 \<and>
    in_sync (AesChannel sess) s2 \<and> nAuthKey s2 = k \<and> nKeys s2 = nKeys s \<and> nFiles s2 = nFiles s \<and>
    counter sess = (if first then 0 else ctr) \<and> (\<not> first \<longrightarrow> ti sess = t0)"
  using aes_login_ok [OF assms] by blast

theorem aes_login_agrees_witness:
  "\<exists>a sess s2. new_authenticator (replicate 16 9) AuthFirst 2 zero_key [] = Inr a \<and>
     aes_login (auth_set_counter a 0) fresh_card = Some (Inr (sess, s2)) \<and>
     in_sync (AesChannel sess) s2 \<and> nAuthKey s2 = 2"
proof -
  obtain a where a: "new_authenticator (replicate 16 9) AuthFirst 2 zero_key [] = Inr a"
    by (simp add: new_authenticator_def new_cipher_def zero_key_def)
  have "new_authenticator (replicate 16 9) (if True then AuthFirst else AuthNonFirst) 2
      (nKeys fresh_card ! unat (2 :: byte)) [] = Inr a"
    using a by (simp add: demo_card_fields)
  from aes_login_agrees [OF fresh_card_ok _ _ _ this, of undefined 0] a show ?thesis
    by (auto simp: demo_card_fields)
qed

text \<open>
  LRP authentication against a card switched to LRP: as with AES, by the exchange
  \<open>LRPAnswer\<close> gives the card.
\<close>

theorem lrp_login_agrees:
  fixes first :: bool
  assumes "card_ok s" "nLRP s" "k \<le> 4" "not_delayed s"
    and "new_lrp_authenticator random (if first then AuthFirst else AuthNonFirst) k (nKeys s ! unat k) t0 = Inr a"
    and "16 \<le> length random"
    and "\<not> first \<Longrightarrow> nSession s = Some ch \<and> chan_ti ch = t0 \<and> chan_counter ch = ctr"
  shows "\<exists>sess s2. lrp_login (lrp_auth_set_counter a ctr) s = Some (Inr (sess, s2)) \<and> card_ok s2 \<and>
    in_sync (LrpChannel sess) s2 \<and> nAuthKey s2 = k \<and> nKeys s2 = nKeys s \<and> nFiles s2 = nFiles s \<and>
    lcounter sess = (if first then 0 else ctr) \<and> (\<not> first \<longrightarrow> lti sess = t0)"
  using lrp_login_ok [OF assms] by blast

theorem lrp_login_agrees_witness:
  "\<exists>a sess s2. new_lrp_authenticator (replicate 16 9) AuthFirst 2 zero_key [] = Inr a \<and>
     lrp_login (lrp_auth_set_counter a 0) lrp_card = Some (Inr (sess, s2)) \<and>
     in_sync (LrpChannel sess) s2 \<and> nAuthKey s2 = 2"
proof -
  have f: "nLRP lrp_card" "nKeys lrp_card = replicate 5 zero_key" "not_delayed lrp_card"
    using demo_card_fields(4,5) by (simp_all add: lrp_card_def not_delayed_def)
  obtain a where a: "new_lrp_authenticator (replicate 16 9) AuthFirst 2 zero_key [] = Inr a"
    by (simp add: new_lrp_authenticator_def zero_key_def)
  have "new_lrp_authenticator (replicate 16 9) (if True then AuthFirst else AuthNonFirst) 2
      (nKeys lrp_card ! unat (2 :: byte)) [] = Inr a"
    using a by (simp add: f)
  from lrp_login_agrees [OF lrp_card_ok f(1) _ f(3) this, of undefined 0] a show ?thesis by auto
qed

text \<open>
  C6. A key change under key 0, end to end. Whichever of the two forms the builder chooses (the
  session's own key sent directly, another as its difference from the old one with a
  checksum), the card ends with the new key and version, every other key as it was, and the
  reader accepts the answer. After a change of key 0 the card holds no session; otherwise both
  sides are still in step.
\<close>

theorem key_change_end_to_end:
  assumes "card_ok s" "in_sync r s" "nAuthKey s = 0" "k \<le> 4"
    and "k \<noteq> 0 \<Longrightarrow> old = nKeys s ! unat k"
    and "change_key (Some r) k 0 old new v = (Inr apdu, r1)"
  shows "\<exists>resp s' r2. transceive apdu s = Some (resp, s') \<and> card_ok s' \<and>
    nKeys s' = (nKeys s)[unat k := new] \<and> nVersions s' = (nVersions s)[unat k := v] \<and>
    check_change_key_response r1 resp k 0 = (Inr (), r2) \<and>
    (if k = 0 then nSession s' = None else \<exists>ch. r2 = Some ch \<and> in_sync ch s')"
  using change_key_on_card [OF assms] by blast

lemma demo_change_key:
  "\<exists>apdu r1. change_key (Some (AesChannel demo_session)) 2 0 zero_key (replicate 16 7) 5 = (Inr apdu, r1)"
  by (simp add: change_key_def send_in_def with_chan_def session_command_def zero_key_def)

theorem key_change_end_to_end_witness:
  "\<exists>apdu r1 resp s'. change_key (Some (AesChannel demo_session)) 2 0 zero_key (replicate 16 7) 5 = (Inr apdu, r1) \<and>
     transceive apdu demo_card = Some (resp, s') \<and> nKeys s' ! 2 = replicate 16 7 \<and> nKeys s' ! 1 = zero_key"
proof -
  obtain apdu r1 where c: "change_key (Some (AesChannel demo_session)) 2 0 zero_key (replicate 16 7) 5 = (Inr apdu, r1)"
    using demo_change_key by blast
  from key_change_end_to_end [OF demo_card_ok demo_in_sync _ _ _ this] show ?thesis
    using c by (auto simp: demo_card_fields)
qed

text \<open>
  C7. A write end to end: a chunk the builder accepts, in the file's communication mode, inside
  the file and permitted by its rights, is in the file afterwards byte for byte, no other byte
  of any file and no key changed, and the reader accepts the card's answer.
\<close>

theorem write_end_to_end:
  assumes "card_ok s" "in_sync r s" "card_file n s = Some f"
    and "fsCommMode (nfSettings f) = m" "known_mode m" "fst (permitted (nfSettings f) True s)"
    and "unat off + length data \<le> length (nfData f)"
    and "write_data (Some r) n off data m = (Inr apdu, r1)"
  shows "\<exists>resp s' ch. transceive apdu s = Some (resp, s') \<and> card_ok s' \<and>
    nFiles s' = (nFiles s)[unat n - 1 := f\<lparr>nfData := copy_at (unat off) (nfData f) data\<rparr>] \<and>
    nKeys s' = nKeys s \<and> nAuthKey s' = nAuthKey s \<and>
    parse_write_data r1 resp m = (Inr (), Some ch) \<and> in_sync ch s'"
  using write_data_on_card [OF assms] by blast

lemma demo_file:
  "card_file 2 demo_card = Some \<lparr>nfSettings = zero_settings\<lparr>fsReadWrite := AccessFree, fsRead := AccessFree,
      fsWrite := AccessFree, fsFileSize := 256\<rparr>, nfData = replicate 256 0\<rparr>"
  by (simp add: card_file_def demo_card_def new_ntag424_state_def Let_def)

lemma demo_write:
  "\<exists>apdu r1. write_data (Some (AesChannel demo_session)) 2 1 [7, 8] CommPlain = (Inr apdu, r1)"
  by (simp add: write_data_def check_write_size_def max_write_chunk_def data_header_def send_in_def
      with_chan_def session_command_def)

theorem write_end_to_end_witness:
  "\<exists>apdu r1 resp s'. write_data (Some (AesChannel demo_session)) 2 1 [7, 8] CommPlain = (Inr apdu, r1) \<and>
     transceive apdu demo_card = Some (resp, s') \<and> nfData (nFiles s' ! 1) = [0, 7, 8] @ replicate 253 0"
proof -
  let ?f = "\<lparr>nfSettings = zero_settings\<lparr>fsReadWrite := AccessFree, fsRead := AccessFree,
      fsWrite := AccessFree, fsFileSize := 256\<rparr>, nfData = replicate 256 0\<rparr> :: n4_file"
  obtain apdu r1 where c: "write_data (Some (AesChannel demo_session)) 2 1 [7, 8] CommPlain = (Inr apdu, r1)"
    using demo_write by blast
  have p: "fsCommMode (nfSettings ?f) = CommPlain" "known_mode CommPlain" "fst (permitted (nfSettings ?f) True demo_card)"
    "unat (1 :: uint32) + length [7, 8 :: byte] \<le> length (nfData ?f)"
    by (simp_all add: zero_settings_def permitted_def Let_def)
  have l: "length (nFiles demo_card) = 3" by (simp add: demo_card_def new_ntag424_state_def Let_def)
  have "replicate 256 (0 :: byte) = [0] @ replicate 255 0" by (simp flip: replicate_Suc)
  then have d: "copy_at 1 (replicate 256 0) [7, 8 :: byte] = [0, 7, 8] @ replicate 253 0"
    by (simp add: copy_at_def)
  from write_end_to_end [OF demo_card_ok demo_in_sync demo_file p c] show ?thesis
    using c l d by auto
qed

text \<open>
  C8. A read end to end: of a file SDM does not touch, in the file's communication mode and
  within the size one answer carries, the reader gets exactly the bytes of the file.
\<close>

theorem read_end_to_end:
  assumes "card_ok s" "in_sync r s" "card_file n s = Some f"
    and "fsCommMode (nfSettings f) = m" "known_mode m" "fst (permitted (nfSettings f) False s)"
    and "n \<noteq> 0x02 \<or> \<not> fsSDMEnabled (nfSettings f)"
    and "0 < len" "unat len \<le> 224" "unat off + unat len \<le> length (nfData f)"
    and "read_data (Some r) n off len m = (Inr apdu, r1)"
  shows "\<exists>resp s' ch. transceive apdu s = Some (resp, s') \<and> card_ok s' \<and> nFiles s' = nFiles s \<and>
    parse_read_data r1 resp m = (Inr (slice (unat off) (unat off + unat len) (nfData f)), Some ch) \<and>
    in_sync ch s'"
  using read_data_on_card [OF assms] by blast

lemma demo_cc_file:
  "card_file 1 demo_card = Some \<lparr>nfSettings = zero_settings\<lparr>fsRead := AccessFree, fsFileSize := 32\<rparr>,
      nfData = copy_at 0 (replicate 32 0) cc_file\<rparr>"
  by (simp add: card_file_def demo_card_def new_ntag424_state_def Let_def)

lemma demo_read:
  "\<exists>apdu r1. read_data (Some (AesChannel demo_session)) 1 1 2 CommPlain = (Inr apdu, r1)"
  by (simp add: read_data_def data_header_def send_in_def with_chan_def session_command_def)

theorem read_end_to_end_witness:
  "\<exists>apdu r1 resp s' ch. read_data (Some (AesChannel demo_session)) 1 1 2 CommPlain = (Inr apdu, r1) \<and>
     transceive apdu demo_card = Some (resp, s') \<and> parse_read_data r1 resp CommPlain = (Inr [0x17, 0x20], Some ch)"
proof -
  let ?f = "\<lparr>nfSettings = zero_settings\<lparr>fsRead := AccessFree, fsFileSize := 32\<rparr>,
      nfData = copy_at 0 (replicate 32 0) cc_file\<rparr> :: n4_file"
  obtain apdu r1 where c: "read_data (Some (AesChannel demo_session)) 1 1 2 CommPlain = (Inr apdu, r1)"
    using demo_read by blast
  have p: "fsCommMode (nfSettings ?f) = CommPlain" "known_mode CommPlain" "fst (permitted (nfSettings ?f) False demo_card)"
    "(1 :: byte) \<noteq> 0x02 \<or> \<not> fsSDMEnabled (nfSettings ?f)" "0 < (2 :: uint32)" "unat (2 :: uint32) \<le> 224"
    "unat (1 :: uint32) + unat (2 :: uint32) \<le> length (nfData ?f)"
    by (simp_all add: zero_settings_def permitted_def Let_def)
  have d: "slice (Suc 0) (Suc (Suc (Suc 0))) (copy_at 0 (replicate 32 0) cc_file) = [0x17, 0x20]"
    by (simp add: copy_at_def cc_file_def slice_def)
  from read_end_to_end [OF demo_card_ok demo_in_sync demo_cc_file p c] show ?thesis
    using c d by auto
qed

text \<open>
  C9. A settings change end to end: settings that encode, that the card's own rules accept and
  that the change right allows, are the file's settings afterwards, in the form the wire keeps
  (unused fields zero, offsets 24-bit), with the type and size the card gives them.
\<close>

theorem settings_change_end_to_end:
  assumes "card_ok s" "in_sync r s" "card_file n s = Some f" "may_change f s"
    and "settings_encode fs = Inr enc" "check_settings (nLRP s) n (settings_wire fs) = 0"
    and "change_file_settings (Some r) n enc = (Inr apdu, r1)"
  shows "\<exists>resp s' ch. transceive apdu s = Some (resp, s') \<and> card_ok s' \<and>
    nFiles s' = (nFiles s)[unat n - 1 := f\<lparr>nfSettings := (settings_wire fs)\<lparr>fsFileType := 0x00,
                   fsFileSize := of_nat (length (nfData f))\<rparr>\<rparr>] \<and>
    check_response r1 resp CommFull = (Inr [], Some ch) \<and> in_sync ch s'"
  using change_settings_on_card [OF assms] by blast

theorem settings_change_end_to_end_witness:
  "\<exists>enc apdu r1 resp s'. settings_encode demo_settings = Inr enc \<and>
     change_file_settings (Some (AesChannel demo_session)) 2 enc = (Inr apdu, r1) \<and>
     transceive apdu demo_card = Some (resp, s') \<and> fsWrite (nfSettings (nFiles s' ! 1)) = 3"
proof -
  have e: "settings_encode demo_settings = Inr [0x00, 0xE0, 0xE3]"
    by (simp add: settings_encode_def demo_settings_def zero_settings_def access_rights_def AccessFree_def)
  obtain apdu r1 where c: "change_file_settings (Some (AesChannel demo_session)) 2 [0x00, 0xE0, 0xE3] = (Inr apdu, r1)"
    by (simp add: change_file_settings_def send_in_def with_chan_def session_command_def)
  have w: "settings_wire demo_settings = demo_settings"
    by (simp add: settings_wire_def demo_settings_def zero_settings_def)
  have k: "check_settings (nLRP demo_card) 2 (settings_wire demo_settings) = 0"
    unfolding w by (simp add: check_settings_def e) (simp add: demo_settings_def zero_settings_def)
  have m: "may_change \<lparr>nfSettings = zero_settings\<lparr>fsReadWrite := AccessFree, fsRead := AccessFree,
      fsWrite := AccessFree, fsFileSize := 256\<rparr>, nfData = replicate 256 0\<rparr> demo_card"
    by (simp add: may_change_def zero_settings_def demo_card_fields AccessFree_def AccessNever_def)
  have l: "length (nFiles demo_card) = 3" by (simp add: demo_card_def new_ntag424_state_def Let_def)
  have w3: "fsWrite (settings_wire demo_settings) = 3"
    unfolding w by (simp add: demo_settings_def)
  from settings_change_end_to_end [OF demo_card_ok demo_in_sync demo_file m e k c] show ?thesis
    using c e l w3 by auto
qed

text \<open>
  Reading the settings back in a session gives what the file has, in the same form.
\<close>

theorem settings_read_end_to_end:
  assumes "card_ok s" "in_sync r s" "card_file n s = Some f"
    and "get_file_settings (Some r) n = (Inr apdu, r1)"
  shows "\<exists>resp s' ch. transceive apdu s = Some (resp, s') \<and> card_ok s' \<and> nFiles s' = nFiles s \<and>
    parse_file_settings_response r1 resp =
      (Inr ((settings_wire (nfSettings f))\<lparr>fsFileType := 0x00, fsFileSize := of_nat (length (nfData f))\<rparr>), Some ch) \<and>
    in_sync ch s'"
  using get_settings_on_card [OF assms] by blast

theorem settings_read_end_to_end_witness:
  "\<exists>apdu r1 resp s' fs ch. get_file_settings (Some (AesChannel demo_session)) 2 = (Inr apdu, r1) \<and>
     transceive apdu demo_card = Some (resp, s') \<and>
     parse_file_settings_response r1 resp = (Inr fs, Some ch) \<and> fsFileSize fs = 256 \<and> fsRead fs = AccessFree"
proof -
  obtain apdu r1 where c: "get_file_settings (Some (AesChannel demo_session)) 2 = (Inr apdu, r1)"
    by (simp add: get_file_settings_def send_in_def with_chan_def session_command_def)
  from settings_read_end_to_end [OF demo_card_ok demo_in_sync demo_file c] show ?thesis
    using c by (auto simp: settings_wire_def zero_settings_def Let_def)
qed

section \<open>Sessions\<close>



text \<open>
  C12. A response the channel refuses, for whatever reason, leaves it as it was: the counter
  advances only on an answer that verified.
\<close>

theorem refused_response_keeps_channel:
  assumes "chan_response ch resp m = (Inl e, ch')"
  shows "ch' = ch"
  using assms by (rule chan_refused)

theorem refused_response_keeps_channel_witness:
  "chan_response (AesChannel demo_session) [0x91, 0xAE] CommFull = (Inl (ECardAnswered 0x91 0xAE), AesChannel demo_session)"
proof -
  have "\<exists>c. chan_response (AesChannel demo_session) [0x91, 0xAE] CommFull = (Inl (ECardAnswered 0x91 0xAE), c)"
    by (simp add: session_response_def status_ok_def)
  then show ?thesis using refused_response_keeps_channel by blast
qed

text \<open>
  C13. An answer the AES session accepts in MAC or full mode ends with the MAC under the
  session's key over the status, the advanced counter, the identifier and the body, and
  advances the counter by exactly one.
\<close>

theorem accepted_response_is_authenticated:
  assumes "session_response s resp m = (Inr d, s')" "m \<noteq> CommPlain"
  shows "s' = s\<lparr>counter := counter s + 1\<rparr> \<and>
    (\<exists>body sw1. resp = body @ response_mac s 0 body @ [sw1, 0] \<and> (sw1 = 0x90 \<or> sw1 = 0x91))"
  using session_response_accepted [OF assms(1)] session_response_mac [OF assms] by blast

theorem accepted_response_is_authenticated_witness:
  "\<exists>resp s'. session_response demo_session resp CommMAC = (Inr [7], s') \<and> counter s' = 1 \<and> last resp = 0"
proof -
  obtain resp s' where r: "session_response demo_session resp CommMAC = (Inr [7], s')"
    using session_answer_response [OF demo_session_ok, of CommMAC "[7]"] by auto
  from accepted_response_is_authenticated [OF this] r show ?thesis
    by (auto simp: demo_session_def intro!: exI [of _ resp])
qed

text \<open>
  No two MAC inputs coincide: the text a command's or an answer's MAC covers determines
  the instruction or status, the counter, the transaction and the payload, so a MAC cannot be
  moved to another command, another moment or another session.
\<close>

theorem mac_input_injective:
  assumes "length t = 4" "length t' = 4"
  shows "mac_input a c t b = mac_input a' c' t' b' \<longleftrightarrow> a = a' \<and> c = c' \<and> t = t' \<and> b = b'"
  using mac_input_inject [OF assms] by auto

theorem mac_input_injective_witness:
  "mac_input 0x8D 1 [1, 2, 3, 4] [5] \<noteq> mac_input 0x8D 2 [1, 2, 3, 4] [5]"
  using mac_input_injective [of "[1, 2, 3, 4]" "[1, 2, 3, 4]" "0x8D" 1 "[5]" "0x8D" 2 "[5]"] by simp

section \<open>Secure dynamic messaging\<close>

text \<open>
  C15. A planned tag verifies. When \<open>PlanSDM\<close> accepts a URL template and the card's NDEF file
  holds that plan, a read of the file serves a URI record whose URL, parsed and verified with
  the tag's keys, gives exactly the tag's UID, this read's counter and the file data the plan
  holds: for enciphered and plain mirrors, with and without file data, under AES and LRP. The
  only assumption on \<open>net/url\<close> is that it accepts URLs of this shape.
\<close>

theorem planned_tag_verifies:
  assumes "plan_sdm (template (url_segs base fs)) opts = Inr plan" "url_template_ok base fs" "names_fit fs ns"
    and "holds_plan f plan" "keys_ok (nKeys s)" "length (nUID s) = 7" "nLRP s = oLRP opts"
    and "nSDMCurrent (count_read s) < 0x1000000" "\<And>\<sigma>. accepts (render \<sigma> (url_segs base fs))"
  shows "\<exists>v s' url. view 0x02 f s = Some (v, s') \<and> served_uri v = Inr url \<and>
    verify_url_with accepts url (tap_keys opts s) ns =
      Inr \<lparr>tUID = nUID s, tReadCounter = nSDMCurrent s',
           tFileData = (if Hole PhEnc \<in> snd ` set fs then planned_data opts else [])\<rparr>"
  using assms by (rule planned_tap_verifies)

theorem planned_tag_verifies_witness:
  "\<exists>v s' url. view 0x02 demo_plan_file fresh_card = Some (v, s') \<and> served_uri v = Inr url \<and>
     verify_url (\<lambda>_. True) url (tap_keys demo_options fresh_card) =
       Inr \<lparr>tUID = [4, 1, 2, 3, 4, 5, 6], tReadCounter = nSDMCurrent s', tFileData = replicate 16 0x30\<rparr>"
proof -
  have c: "keys_ok (nKeys fresh_card)" using fresh_card_ok by (simp add: card_ok_def)
  have u: "nUID fresh_card = [4, 1, 2, 3, 4, 5, 6]" "nLRP fresh_card = oLRP demo_options"
    "nSDMCurrent (count_read fresh_card) < 0x1000000"
    by (simp_all add: fresh_card_def new_ntag424_state_def demo_options_def count_read_def Let_def)
  have d: "Hole PhEnc \<in> snd ` set demo_fields" "planned_data demo_options = replicate 16 0x30"
    by (simp_all add: demo_fields_def planned_data_def enc_length_def demo_options_def)
  have l: "length (nUID fresh_card) = 7" by (simp add: u)
  show ?thesis
    using planned_tag_verifies [where accepts = "\<lambda>_. True", OF demo_plan demo_template_ok demo_names_fit demo_plan_file c l u(2,3)]
      u(1) d by (simp add: verify_url_def)
qed

text \<open>
  C16. Every plan \<open>PlanSDM\<close> makes is one the card accepts: the card's own rules for changed
  settings pass it (every mirror inside the file, the MAC behind what it covers), the wire keeps
  its settings as they are, and its message fits the NDEF file.
\<close>

theorem every_plan_is_accepted:
  assumes "plan_sdm tmpl opts = Inr plan"
  shows "check_settings (oLRP opts) 0x02 (planSettings plan) = 0 \<and>
    settings_wire (planSettings plan) = planSettings plan \<and> length (planNDEF plan) \<le> 256"
  using assms by (rule plan_accepted)

theorem every_plan_is_accepted_witness:
  "check_settings False 0x02 (planSettings demo_plan) = 0 \<and> length (planNDEF demo_plan) \<le> 256"
  using every_plan_is_accepted [OF demo_plan] by (simp add: demo_options_def)

text \<open>
  C17. No tap is accepted twice: of any sequence of URLs verified against one store, the
  counters accepted for each tag rise strictly, each of them above what the store already held.
\<close>

theorem accepted_taps_rise:
  "let (ts, m') = verify_taps accepts memory_seen urls m
   in sorted_wrt (<) (map tReadCounter (filter (\<lambda>t. tUID t = u) ts)) \<and>
      \<not> (\<exists>t l. t \<in> set ts \<and> m (uid_string (tUID t)) = Some l \<and> tReadCounter t \<le> l)"
  using mems.taps_rise [of accepts urls m _ _ u] by (fastforce simp: not_le split: prod.splits)

section \<open>Cryptographic routines\<close>

text \<open>
  C18. The block loop of \<open>CMACFrom\<close> computes RFC 4493: it agrees with the recursive
  reference for every message and block function, and LRP's own CMAC loop is the same function
  over the LRP evaluation.
\<close>

theorem cmac_matches_reference:
  "cmac E msg = cmac_ref E (fst (cmac_subkeys E)) (snd (cmac_subkeys E)) (replicate 16 0) msg \<and>
   lrp_cmac k msg = cmac (\<lambda>b. lrp_eval k b True) msg"
  by (simp add: cmac_def cmac_from_ref lrp_cmac_is_cmac)

text \<open>
  LRICB decrypts what it encrypts, block for block, under the same counter; the counter it
  steps is the big-endian number of its bytes, wrapping at its width.
\<close>

theorem lricb_roundtrip:
  assumes "lrp_new key u = Inr k" "ctr \<noteq> []" "16 dvd length d"
  shows "\<exists>c. lrp_encrypt k ctr d = Inr c \<and> length c = length d \<and> lrp_decrypt k ctr c = Inr d \<and>
    be_nat (increment ctr) = (be_nat ctr + 1) mod 256 ^ length ctr"
  using lrp_encrypt_ok [OF lrp_new_ok [OF assms(1)] assms(2,3)] increment_nat by blast

theorem lricb_roundtrip_witness:
  "\<exists>k c. lrp_new zero_key UpdateENC = Inr k \<and> lrp_encrypt k [0, 0, 0, 255] (replicate 16 7) = Inr c \<and>
     lrp_decrypt k [0, 0, 0, 255] c = Inr (replicate 16 7)"
proof -
  obtain k where k: "lrp_new zero_key UpdateENC = Inr k"
    using lrp_new_total [of zero_key UpdateENC] by (auto simp: zero_key_def UpdateENC_def)
  have "16 dvd length (replicate 16 (7 :: byte))" by simp
  from lricb_roundtrip [OF k _ this, of "[0, 0, 0, 255]"] k show ?thesis by blast
qed

text \<open>
  ISO/IEC 9797-1 padding: every message comes back, the padded length is the next multiple
  of sixteen above the message's, and only bytes of that form are accepted.
\<close>

theorem padding_roundtrip:
  "unpad_iso9797 (pad_iso9797 d) = Inr d \<and> length (pad_iso9797 d) = (length d div 16 + 1) * 16"
  by (simp add: pad_length)

section \<open>Bounds and steps of the command builders\<close>

text \<open>
  \<open>MaxWriteChunk\<close> is exactly the largest chunk whose wrapped command has a one-byte
  length: a chunk is within it if and only if header, data, padding and MAC stay below 256 bytes.
\<close>

theorem write_chunk_bound_is_tight:
  assumes "known_mode m"
  shows "n \<le> max_write_chunk m \<longleftrightarrow> wire_length m 7 n < 256"
  using assms by (rule write_chunk_fits)

theorem write_chunk_bound_is_tight_witness:
  "239 \<le> max_write_chunk CommFull \<longleftrightarrow> wire_length CommFull 7 239 < 256"
  using write_chunk_bound_is_tight [of CommFull 239] by simp

text \<open>
  C22. An authentication that ends in a session proves the card knew the key: \<open>Finish\<close> succeeds
  only in its step, only when the answer deciphers to the reader's own random number rotated,
  and the session's keys are the ones derived from both random numbers.
\<close>

theorem session_needs_proof:
  assumes "auth_finish a resp = (Inr s, a')"
  shows "astage a = 1 \<and> astage a' = 2 \<and> session_ok s \<and>
    (\<exists>data. frame_data resp (if amode a = AuthFirst then 32 else 16) = Inr data \<and>
      rotate_right (if amode a = AuthFirst then slice 4 20 (decrypt_cbc (ablock a) data)
                    else decrypt_cbc (ablock a) data) = arndA a) \<and>
    encBlock s = cmac (aes_encrypt (ablock a)) (session_vector_ssm ssm_sv1_prefix (arndA a) (arndB a)) \<and>
    macBlock s = cmac (aes_encrypt (ablock a)) (session_vector_ssm ssm_sv2_prefix (arndA a) (arndB a)) \<and>
    counter s = (if amode a = AuthNonFirst then acounter a else 0)"
  using assms by (rule auth_finish_proof)

theorem session_needs_proof_witness:
  "\<exists>a s a'. auth_finish a (encrypt_cbc zero_key ([1, 2, 3, 4] @ rotate_left (replicate 16 9) @ replicate 12 0)
       @ [0x91, 0x00]) = (Inr s, a') \<and> session_ok s \<and> counter s = 0"
proof -
  let ?a = "\<lparr>amode = AuthFirst, akeyNo = 0, ablock = zero_key, arandom = [], ati = [], acounter = 0,
    arndA = replicate 16 9, arndB = replicate 16 7, astage = 1\<rparr> :: authenticator"
  obtain ek mk where d: "derive_session_keys zero_key (replicate 16 9) (replicate 16 7) = Inr (ek, mk)"
    by (auto simp: derive_session_keys_def new_cipher_def zero_key_def)
  have l: "length zero_key = 16" "length (replicate 16 (9 :: byte)) = 16" "length (replicate 16 (7 :: byte)) = 16"
    "length [1, 2, 3, 4 :: byte] = 4" by (simp_all add: zero_key_def)
  have kl: "length ek = 16" "length mk = 16" using derive_session_keys_ok [OF d] by simp_all
  obtain s where s: "new_session_at [1, 2, 3, 4] ek mk 0 = Inr s"
    using kl by (auto simp: new_session_at_def new_cipher_def aes_valid_key_def)
  have f: "auth_finish ?a (encrypt_cbc zero_key ([1, 2, 3, 4] @ rotate_left (replicate 16 9) @ replicate 12 0)
       @ [0x91, 0x00]) = (Inr s, ?a\<lparr>astage := 2\<rparr>)"
    using auth_finish_ok [OF l, of ?a True, OF _ _ _ _ _ _ d] by (simp add: s)
  show ?thesis using f session_needs_proof [OF f] by auto
qed

section \<open>Messages on tags\<close>

text \<open>
  C23. NDEF messages survive the wire: any non-empty list of records whose lengths fit their
  fields is parsed back from its encoding, with or without bytes behind it, up to the three
  bits a TNF has.
\<close>

theorem ndef_records_roundtrip:
  assumes "list_all record_ok rs" "rs \<noteq> []" "encode_ndef_records rs = Inr m"
  shows "parse_ndef_records (m @ rest) = Inr (map norm_record rs)"
proof -
  have m: "m = encode_records_from True rs" using assms(2,3) by (simp add: encode_ndef_records_def)
  moreover have "m \<noteq> []" using m assms(2) by (cases rs) simp_all
  ultimately show ?thesis using parse_encode_records [OF assms(1,2)] by (simp add: parse_ndef_records_def)
qed

theorem ndef_records_roundtrip_witness:
  "parse_ndef_records ([0xD1, 1, 2, 0x55, 4, 0x61] @ [0xFE]) =
     Inr [\<lparr>rTNF = 1, rType = [0x55], rID = [], rPayload = [4, 0x61]\<rparr>]"
proof -
  let ?r = "\<lparr>rTNF = 1, rType = [0x55], rID = [], rPayload = [4, 0x61]\<rparr> :: ndef_record"
  have "encode_ndef_records [?r] = Inr [0xD1, 1, 2, 0x55, 4, 0x61]"
    by (simp add: encode_ndef_records_def encode_record_def byteN_def Let_def)
  from ndef_records_roundtrip [OF _ _ this, of "[0xFE]"] show ?thesis
    by (simp add: record_ok_def norm_record_def)
qed

text \<open>
  A URI record carries its URI: the payload made for any URI parses back to it, and the
  abbreviation chosen is the longest of the table the URI starts with.
\<close>

theorem uri_record_roundtrip:
  "parse_uri_payload (make_uri_payload uri) = Inr uri \<and>
   \<not> (\<exists>p. p \<in> set uri_prefix_table \<and> take (length p) uri = p \<and> length uri < length (make_uri_payload uri) - 1 + length p)"
proof -
  obtain c n where b: "best_prefix uri = (c, n)" by fastforce
  have "length (make_uri_payload uri) - 1 = length uri - n" by (simp add: make_uri_payload_def b)
  moreover have "n \<le> length uri" using best_prefix_facts(2,3) [OF b] by (metis length_take min.cobounded1 min.commute)
  ultimately show ?thesis using parse_make_uri best_prefix_facts(4) [OF b] by fastforce
qed

text \<open>
  C25. The NDEF message of a tag's memory is found behind any run of null TLVs and TLVs of other
  types, for every message a TLV can hold.
\<close>

theorem tlv_message_found:
  assumes "list_all tlv_other bs" "length d < 65536"
  shows "tlv_find_ndef (concat (map tlv_block bs) @ tlv_encode d TLVNDEF) = Some d"
  using assms by (rule tlv_find_behind)

theorem tlv_message_found_witness:
  "tlv_find_ndef [0x00, 0x01, 0x03, 0xA0, 0x0C, 0x34, 0x03, 0x02, 0xAB, 0xCD, 0xFE] = Some [0xAB, 0xCD]"
  using tlv_message_found [of "[None, Some (0x01, [0xA0, 0x0C, 0x34])]" "[0xAB, 0xCD]"]
  by (simp add: tlv_other_def tlv_block_def tlv_encode_def tlv_consts byteN_def)

end
